(* ===== verification/WB_Prelude.thy ===== *)
theory WB_Prelude
  imports Main "HOL-Library.Word" "HOL-Library.Char_ord" "HOL-Library.List_Lexorder"
    "HOL-Library.Product_Lexorder" "HOL-Library.Multiset"
begin

text \<open>
  Shared ground of the development: the result type every fallible Go function is
  translated to, the lemma collections the component theories extend, association
  lists standing for Go maps, Go's instants and durations, and the list facts
  several components need.

  A Go \<^verbatim>\<open>string\<close> is a byte sequence, which is what \<^typ>\<open>string\<close> (a list of
  8-bit characters) is; \<^verbatim>\<open>len(s)\<close> is \<open>length s\<close>. A function that returns
  \<^verbatim>\<open>(T, error)\<close> returns a value of \<open>'e + 'a\<close>: \<open>Inl\<close> is the error.
\<close>

named_theorems go_str \<open>evaluation rules of the Go string functions\<close>
named_theorems inv_intros \<open>preservation of a component invariant by its operations\<close>

type_synonym ('e, 'a) result = "'e + 'a"

abbreviation is_ok :: "('e, 'a) result \<Rightarrow> bool" where
  "is_ok r \<equiv> \<not> isl r"

abbreviation Ok :: "'a \<Rightarrow> ('e, 'a) result" where
  "Ok \<equiv> Inr"

abbreviation Err :: "'e \<Rightarrow> ('e, 'a) result" where
  "Err \<equiv> Inl"

subsection \<open>Mapping a fallible function over a list, stopping at the first error\<close>

fun map_result :: "('a \<Rightarrow> ('e, 'b) result) \<Rightarrow> 'a list \<Rightarrow> ('e, 'b list) result" where
  "map_result f [] = Inr []"
| "map_result f (x # xs) =
     (case f x of Inl e \<Rightarrow> Inl e
      | Inr y \<Rightarrow> (case map_result f xs of Inl e \<Rightarrow> Inl e | Inr ys \<Rightarrow> Inr (y # ys)))"

lemma map_result_Inr_iff:
  "map_result f xs = Inr ys \<longleftrightarrow> list_all2 (\<lambda>x y. f x = Inr y) xs ys"
proof (induction xs arbitrary: ys)
  case Nil
  then show ?case by auto
next
  case (Cons x xs)
  then show ?case
    by (cases ys; cases "f x"; cases "map_result f xs") (auto simp: Cons.IH [symmetric])
qed

lemma map_result_Inl_iff:
  "(\<exists>e. map_result f xs = Inl e) \<longleftrightarrow> (\<exists>x \<in> set xs. isl (f x))"
  by (induction xs) (auto split: sum.splits)

lemma map_result_set:
  "map_result f xs = Inr ys \<Longrightarrow> y \<in> set ys \<Longrightarrow> \<exists>x \<in> set xs. f x = Inr y"
  by (auto simp: map_result_Inr_iff list_all2_conv_all_nth in_set_conv_nth) (metis nth_mem)

lemma map_result_length: "map_result f xs = Inr ys \<Longrightarrow> length ys = length xs"
  by (simp add: map_result_Inr_iff list_all2_lengthD)

subsection \<open>Go maps as functions with a default, sets of keys\<close>

text \<open>\<^verbatim>\<open>m[k]\<close> of an absent key is the zero value of the element type.\<close>

definition map_get :: "('k \<rightharpoonup> 'v) \<Rightarrow> 'v \<Rightarrow> 'k \<Rightarrow> 'v" where
  "map_get m zero k = (case m k of None \<Rightarrow> zero | Some v \<Rightarrow> v)"

lemma map_get_simps [simp]:
  "map_get Map.empty z k = z"
  "map_get (m(k \<mapsto> v)) z k = v"
  "k \<noteq> k' \<Longrightarrow> map_get (m(k' \<mapsto> v)) z k = map_get m z k"
  by (simp_all add: map_get_def)

subsection \<open>Instants and durations\<close>

text \<open>
  A \<^verbatim>\<open>time.Time\<close> is its instant in nanoseconds since the zero time, so \<^verbatim>\<open>IsZero\<close> is
  \<open>t = 0\<close> and \<^verbatim>\<open>UTC()\<close>, which changes only the location used for printing, is the
  identity. A \<^verbatim>\<open>time.Duration\<close> is a count of nanoseconds; \<^verbatim>\<open>t.Sub(u)\<close> saturates at the
  bounds of a 64-bit integer, as the standard library documents.
\<close>

type_synonym go_time = int
type_synonym duration = int

definition is_zero_time :: "go_time \<Rightarrow> bool" where
  "is_zero_time t \<longleftrightarrow> t = 0"

definition max_duration :: duration where
  "max_duration = 2 ^ 63 - 1"

definition min_duration :: duration where
  "min_duration = - (2 ^ 63)"

definition time_sub :: "go_time \<Rightarrow> go_time \<Rightarrow> duration" where
  "time_sub t u = max min_duration (min max_duration (t - u))"

definition minute :: duration where
  "minute = 60 * 1000000000"

lemma time_sub_mono: "t \<le> t' \<Longrightarrow> time_sub t u \<le> time_sub t' u"
  by (simp add: time_sub_def min_duration_def max_duration_def)

lemma time_sub_exact:
  "min_duration \<le> t - u \<Longrightarrow> t - u \<le> max_duration \<Longrightarrow> time_sub t u = t - u"
  by (simp add: time_sub_def)

subsection \<open>Lists\<close>

lemma filter_eq_nil_iff: "filter P xs = [] \<longleftrightarrow> (\<forall>x \<in> set xs. \<not> P x)"
  by (induction xs) auto

lemma length_filter_compl:
  "length xs - length (filter P xs) = length (filter (\<lambda>x. \<not> P x) xs)"
  by (metis add_diff_cancel_left' sum_length_filter_compl)

lemma find_Some_split:
  "List.find P xs = Some x \<longleftrightarrow>
     (\<exists>ys zs. xs = ys @ x # zs \<and> P x \<and> (\<forall>y \<in> set ys. \<not> P y))"
proof (induction xs)
  case Nil
  then show ?case by simp
next
  case (Cons a xs)
  show ?case
  proof (cases "P a")
    case True
    then show ?thesis by (auto simp: Cons_eq_append_conv)
  next
    case False
    have "(\<exists>ys zs. a # xs = ys @ x # zs \<and> P x \<and> (\<forall>y \<in> set ys. \<not> P y))
        \<longleftrightarrow> (\<exists>ys zs. xs = ys @ x # zs \<and> P x \<and> (\<forall>y \<in> set ys. \<not> P y))" (is "?l \<longleftrightarrow> ?r")
    proof
      assume ?l
      then obtain ys zs where l: "a # xs = ys @ x # zs" "P x" "\<forall>y \<in> set ys. \<not> P y" by blast
      with False show ?r by (cases ys) auto
    next
      assume ?r
      then obtain ys zs where r: "xs = ys @ x # zs" "P x" "\<forall>y \<in> set ys. \<not> P y" by blast
      with False have "a # xs = (a # ys) @ x # zs" "\<forall>y \<in> set (a # ys). \<not> P y" by auto
      with r(2) show ?l by blast
    qed
    with False Cons.IH show ?thesis by simp
  qed
qed

lemma find_None_all: "List.find P xs = None \<longleftrightarrow> (\<forall>x \<in> set xs. \<not> P x)"
  by (induction xs) auto

lemma list_all2_eq_map: "list_all2 (\<lambda>x y. f x = y) xs ys \<longleftrightarrow> ys = map f xs"
  by (induction xs arbitrary: ys) (auto simp: list_all2_Cons1)

lemma sorted_sort_key: "sorted (map f (sort_key f xs))"
  by simp

text \<open>
  Go's \<^verbatim>\<open>sort.SliceStable\<close> with a lexicographic comparison of keys is \<^const>\<open>sort_key\<close>:
  it sorts, keeps the multiset, and keeps the order of elements with equal keys.
\<close>

lemma sort_key_filter_key:
  "filter (\<lambda>y. f y = k) (sort_key f xs) = filter (\<lambda>y. f y = k) xs"
  by (rule sort_key_stable)

end
