(* ===== verification/Go_Strings.thy ===== *)
theory Go_Strings
  imports WB_Prelude
begin

text \<open>
  The part of Go's \<^verbatim>\<open>strings\<close> and \<^verbatim>\<open>unicode/utf8\<close> packages the modelled code calls, on
  byte strings: decoding of a rune, \<^verbatim>\<open>HasPrefix\<close>, \<^verbatim>\<open>HasSuffix\<close>, \<^verbatim>\<open>Contains\<close>, \<^verbatim>\<open>Index\<close>,
  \<^verbatim>\<open>IndexByte\<close>, \<^verbatim>\<open>Cut\<close>, \<^verbatim>\<open>Split\<close>, \<^verbatim>\<open>Join\<close>, \<^verbatim>\<open>TrimSpace\<close>, \<^verbatim>\<open>Trim\<close>, \<^verbatim>\<open>Fields\<close>,
  \<^verbatim>\<open>ReplaceAll\<close>, \<^verbatim>\<open>ToLower\<close>, \<^verbatim>\<open>strconv.Itoa\<close> and \<^verbatim>\<open>strconv.Atoi\<close>.
\<close>

section \<open>UTF-8\<close>

type_synonym rune = nat

definition RuneError :: rune where
  "RuneError = 65533"

definition cont_byte :: "nat \<Rightarrow> bool" where
  "cont_byte b \<longleftrightarrow> 128 \<le> b \<and> b \<le> 191"

text \<open>\<^verbatim>\<open>utf8.DecodeRuneInString\<close>: the rune at the front and its width in bytes.\<close>

definition decode_rune :: "string \<Rightarrow> rune \<times> nat" where
  "decode_rune s =
     (case map (of_char :: char \<Rightarrow> nat) (take 4 s) of
        [] \<Rightarrow> (RuneError, 0)
      | b0 # bs \<Rightarrow>
          if b0 < 128 then (b0, 1)
          else if 194 \<le> b0 \<and> b0 \<le> 223 then
            (case bs of b1 # _ \<Rightarrow>
               if cont_byte b1 then ((b0 mod 32) * 64 + b1 mod 64, 2) else (RuneError, 1)
             | [] \<Rightarrow> (RuneError, 1))
          else if 224 \<le> b0 \<and> b0 \<le> 239 then
            (case bs of b1 # b2 # _ \<Rightarrow>
               if (if b0 = 224 then 160 \<le> b1 \<and> b1 \<le> 191
                   else if b0 = 237 then 128 \<le> b1 \<and> b1 \<le> 159 else cont_byte b1)
                  \<and> cont_byte b2
               then ((b0 mod 16) * 4096 + (b1 mod 64) * 64 + b2 mod 64, 3)
               else (RuneError, 1)
             | _ \<Rightarrow> (RuneError, 1))
          else if 240 \<le> b0 \<and> b0 \<le> 244 then
            (case bs of b1 # b2 # b3 # _ \<Rightarrow>
               if (if b0 = 240 then 144 \<le> b1 \<and> b1 \<le> 191
                   else if b0 = 244 then 128 \<le> b1 \<and> b1 \<le> 143 else cont_byte b1)
                  \<and> cont_byte b2 \<and> cont_byte b3
               then ((b0 mod 8) * 262144 + (b1 mod 64) * 4096 + (b2 mod 64) * 64 + b3 mod 64, 4)
               else (RuneError, 1)
             | _ \<Rightarrow> (RuneError, 1))
          else (RuneError, 1))"

lemma decode_rune_width: "s \<noteq> [] \<Longrightarrow> 1 \<le> snd (decode_rune s)"
  by (cases s) (auto simp: decode_rune_def split: list.splits)

lemma decode_rune_ascii:
  "(of_char c :: nat) < 128 \<Longrightarrow> decode_rune (c # s) = (of_char c, 1)"
  by (simp add: decode_rune_def)

text \<open>The runes of a string with the bytes each is encoded by, left to right.\<close>

function utf8_chunks :: "string \<Rightarrow> (rune \<times> string) list" where
  "utf8_chunks s =
     (if s = [] then []
      else (let (r, n) = decode_rune s in (r, take n s) # utf8_chunks (drop n s)))"
  by pat_completeness auto
termination
proof (relation "measure length", simp)
  fix s :: string and x r n
  assume "s \<noteq> []" and "x = decode_rune s" and "(r, n) = x"
  then have "1 \<le> n" and "0 < length s"
    using decode_rune_width [of s] by (metis snd_conv, simp)
  then show "(drop n s, s) \<in> measure length" by simp
qed

declare utf8_chunks.simps [simp del]

lemma utf8_chunks_Nil [simp]: "utf8_chunks [] = []"
  by (simp add: utf8_chunks.simps)

lemma utf8_chunks_concat: "concat (map snd (utf8_chunks s)) = s"
proof (induction s rule: utf8_chunks.induct)
  case (1 s)
  show ?case
  proof (cases "s = []")
    case False
    obtain r n where rn: "decode_rune s = (r, n)" by (cases "decode_rune s")
    from "1.IH" [OF False rn [symmetric]] have "concat (map snd (utf8_chunks (drop n s))) = drop n s"
      by simp
    then show ?thesis by (simp add: utf8_chunks.simps [of s] rn False)
  qed simp
qed

definition ascii :: "string \<Rightarrow> bool" where
  "ascii s \<longleftrightarrow> (\<forall>c \<in> set s. (of_char c :: nat) < 128)"

lemma utf8_chunks_ascii_Cons:
  "(of_char c :: nat) < 128 \<Longrightarrow> utf8_chunks (c # s) = (of_char c, [c]) # utf8_chunks s"
  by (simp add: utf8_chunks.simps [of "c # s"] decode_rune_ascii)

lemma utf8_chunks_ascii: "ascii s \<Longrightarrow> utf8_chunks s = map (\<lambda>c. (of_char c, [c])) s"
  by (induction s) (auto simp: ascii_def utf8_chunks_ascii_Cons)

section \<open>Searching\<close>

definition HasPrefix :: "string \<Rightarrow> string \<Rightarrow> bool" where
  "HasPrefix s p \<longleftrightarrow> take (length p) s = p"

definition HasSuffix :: "string \<Rightarrow> string \<Rightarrow> bool" where
  "HasSuffix s p \<longleftrightarrow> length p \<le> length s \<and> drop (length s - length p) s = p"

definition TrimPrefix :: "string \<Rightarrow> string \<Rightarrow> string" where
  "TrimPrefix s p = (if HasPrefix s p then drop (length p) s else s)"

lemma HasPrefix_iff: "HasPrefix s p \<longleftrightarrow> (\<exists>t. s = p @ t)"
  unfolding HasPrefix_def by (metis append_eq_conv_conj append_take_drop_id)

lemma HasPrefix_append [simp]: "HasPrefix (p @ t) p"
  by (simp add: HasPrefix_def)

lemma HasPrefix_Nil [simp]: "HasPrefix s []"
  by (simp add: HasPrefix_def)

lemma HasPrefix_Cons [go_str]: "HasPrefix (c # s) (d # p) \<longleftrightarrow> c = d \<and> HasPrefix s p"
  by (auto simp: HasPrefix_def)

lemma HasPrefix_Nil_Cons [go_str, simp]: "\<not> HasPrefix [] (d # p)"
  by (simp add: HasPrefix_def)

lemma TrimPrefix_append [simp]: "TrimPrefix (p @ t) p = t"
  by (simp add: TrimPrefix_def)

lemma HasSuffix_iff: "HasSuffix s p \<longleftrightarrow> (\<exists>t. s = t @ p)"
proof
  assume "HasSuffix s p"
  then have "s = take (length s - length p) s @ p"
    unfolding HasSuffix_def by (metis append_take_drop_id)
  then show "\<exists>t. s = t @ p" by blast
next
  assume "\<exists>t. s = t @ p"
  then show "HasSuffix s p" by (auto simp: HasSuffix_def)
qed

text \<open>\<^verbatim>\<open>strings.Index\<close>: position of the first occurrence, \<^const>\<open>None\<close> for \<^verbatim>\<open>-1\<close>.\<close>

fun Index :: "string \<Rightarrow> string \<Rightarrow> nat option" where
  "Index [] p = (if p = [] then Some 0 else None)"
| "Index (c # s) p = (if HasPrefix (c # s) p then Some 0 else map_option Suc (Index s p))"

definition Contains :: "string \<Rightarrow> string \<Rightarrow> bool" where
  "Contains s p \<longleftrightarrow> Index s p \<noteq> None"

fun IndexByte :: "string \<Rightarrow> char \<Rightarrow> nat option" where
  "IndexByte [] b = None"
| "IndexByte (c # s) b = (if c = b then Some 0 else map_option Suc (IndexByte s b))"

lemma IndexByte_None_iff: "IndexByte s b = None \<longleftrightarrow> b \<notin> set s"
  by (induction s) auto

lemma IndexByte_Some:
  "IndexByte s b = Some i \<Longrightarrow> i < length s \<and> s ! i = b \<and> b \<notin> set (take i s)"
  by (induction s arbitrary: i) (auto split: if_splits)

lemma IndexByte_split:
  "b \<notin> set pre \<Longrightarrow> IndexByte (pre @ b # post) b = Some (length pre)"
  by (induction pre) auto

lemma IndexByte_takeWhile: "b \<in> set s \<Longrightarrow> IndexByte s b = Some (length (takeWhile (\<lambda>c. c \<noteq> b) s))"
  by (induction s) auto

lemma Index_Some:
  "Index s p = Some i \<Longrightarrow> \<exists>a b. s = a @ p @ b \<and> length a = i"
proof (induction s arbitrary: i)
  case Nil
  then show ?case by (auto split: if_splits)
next
  case (Cons c s)
  show ?case
  proof (cases "HasPrefix (c # s) p")
    case True
    with Cons.prems show ?thesis by (auto simp: HasPrefix_iff)
  next
    case False
    with Cons.prems obtain j where "Index s p = Some j" and "i = Suc j" by auto
    with Cons.IH obtain a b where "s = a @ p @ b" and "length a = j" by blast
    with \<open>i = Suc j\<close> show ?thesis by (intro exI [of _ "c # a"] exI [of _ b]) simp
  qed
qed

lemma Contains_iff: "Contains s p \<longleftrightarrow> (\<exists>a b. s = a @ p @ b)"
proof
  assume "Contains s p"
  then show "\<exists>a b. s = a @ p @ b" unfolding Contains_def using Index_Some by blast
next
  assume "\<exists>a b. s = a @ p @ b"
  then obtain a b where s: "s = a @ p @ b" by blast
  show "Contains s p"
    unfolding s
  proof (induction a)
    case Nil
    have "Index (p @ b) p = Some 0"
      by (cases "p @ b") (simp_all, metis HasPrefix_append)
    then show ?case by (simp add: Contains_def)
  next
    case (Cons c a)
    then show ?case by (auto simp: Contains_def)
  qed
qed

lemma Contains_byte: "Contains s [c] \<longleftrightarrow> c \<in> set s"
  by (auto simp: Contains_iff in_set_conv_decomp)

text \<open>\<^verbatim>\<open>strings.Cut\<close> with a one-byte separator.\<close>

definition Cut :: "string \<Rightarrow> char \<Rightarrow> string \<times> string \<times> bool" where
  "Cut s b = (case IndexByte s b of None \<Rightarrow> (s, [], False)
              | Some i \<Rightarrow> (take i s, drop (Suc i) s, True))"

section \<open>Splitting and joining\<close>

text \<open>\<^verbatim>\<open>strings.Split\<close> with a one-byte separator: never empty, and \<^verbatim>\<open>Split("")\<close> is \<^verbatim>\<open>[""]\<close>.\<close>

fun Split :: "string \<Rightarrow> char \<Rightarrow> string list" where
  "Split [] b = [[]]"
| "Split (c # s) b =
     (if c = b then [] # Split s b
      else (case Split s b of [] \<Rightarrow> [[c]] | w # ws \<Rightarrow> (c # w) # ws))"

fun Join :: "string list \<Rightarrow> string \<Rightarrow> string" where
  "Join [] sep = []"
| "Join [w] sep = w"
| "Join (w # v # ws) sep = w @ sep @ Join (v # ws) sep"

lemma Split_not_Nil [simp]: "Split s b \<noteq> []"
  by (cases s) (auto split: list.splits)

lemma Join_Cons: "ws \<noteq> [] \<Longrightarrow> Join (w # ws) sep = w @ sep @ Join ws sep"
  by (cases ws) auto

lemma Join_Cons_head: "Join ((c # w) # ws) sep = c # Join (w # ws) sep"
  by (cases ws) auto

text \<open>Joining what was split gives the string back.\<close>

lemma Join_Split: "Join (Split s b) [b] = s"
proof (induction s)
  case Nil
  then show ?case by simp
next
  case (Cons c s)
  obtain w ws where sp: "Split s b = w # ws" by (cases "Split s b") simp_all
  with Cons.IH show ?case
    by (cases "c = b") (simp_all add: Join_Cons Join_Cons_head)
qed

lemma Split_no_sep: "b \<notin> set s \<Longrightarrow> Split s b = [s]"
  by (induction s) auto

lemma Split_parts_no_sep: "w \<in> set (Split s b) \<Longrightarrow> b \<notin> set w"
proof (induction s arbitrary: w)
  case Nil
  then show ?case by simp
next
  case (Cons c s)
  obtain v vs where sp: "Split s b = v # vs" by (cases "Split s b") simp_all
  with Cons show ?case by (auto split: if_splits)
qed

lemma Split_append_sep: "b \<notin> set w \<Longrightarrow> Split (w @ b # s) b = w # Split s b"
  by (induction w) auto

text \<open>Splitting what was joined gives the parts back, when no part holds the separator.\<close>

lemma Split_Join:
  "ws \<noteq> [] \<Longrightarrow> (\<forall>w \<in> set ws. b \<notin> set w) \<Longrightarrow> Split (Join ws [b]) b = ws"
proof (induction ws)
  case Nil
  then show ?case by simp
next
  case (Cons w ws)
  show ?case
  proof (cases "ws = []")
    case True
    with Cons.prems show ?thesis by (simp add: Split_no_sep)
  next
    case False
    with Cons show ?thesis by (simp add: Join_Cons Split_append_sep)
  qed
qed

lemma Split_append:
  "Split (s @ b # t) b = Split s b @ Split t b"
proof (induction s)
  case Nil
  then show ?case by simp
next
  case (Cons c s)
  obtain v vs where sp: "Split s b = v # vs" by (cases "Split s b") simp_all
  with Cons show ?case by simp
qed

lemma Split_inj: "Split s b = Split t b \<longleftrightarrow> s = t"
  by (metis Join_Split)

section \<open>Spaces\<close>

text \<open>\<^verbatim>\<open>unicode.IsSpace\<close>.\<close>

definition IsSpace :: "rune \<Rightarrow> bool" where
  "IsSpace r \<longleftrightarrow>
     (9 \<le> r \<and> r \<le> 13) \<or> r = 32 \<or> r = 133 \<or> r = 160 \<or> r = 5760 \<or>
     (8192 \<le> r \<and> r \<le> 8202) \<or> r = 8232 \<or> r = 8233 \<or> r = 8239 \<or> r = 8287 \<or> r = 12288"

text \<open>Evaluation decides an ASCII rune before it compares it with the large constants.\<close>

lemma IsSpace_code [code]:
  "IsSpace r =
     (if r < 128 then 9 \<le> r \<and> r \<le> 13 \<or> r = 32
      else r = 133 \<or> r = 160 \<or> r = 5760 \<or> (8192 \<le> r \<and> r \<le> 8202) \<or>
        r = 8232 \<or> r = 8233 \<or> r = 8239 \<or> r = 8287 \<or> r = 12288)"
  by (auto simp: IsSpace_def)

definition trim_by :: "('a \<Rightarrow> bool) \<Rightarrow> 'a list \<Rightarrow> 'a list" where
  "trim_by P xs = rev (dropWhile P (rev (dropWhile P xs)))"

definition TrimSpace :: "string \<Rightarrow> string" where
  "TrimSpace s = concat (map snd (trim_by (\<lambda>(r, _). IsSpace r) (utf8_chunks s)))"

text \<open>\<^verbatim>\<open>strings.Trim\<close> with an ASCII cutset.\<close>

definition TrimSet :: "char list \<Rightarrow> string \<Rightarrow> string" where
  "TrimSet cutset s = trim_by (\<lambda>c. c \<in> set cutset) s"

text \<open>\<^verbatim>\<open>strings.Fields\<close>: the maximal runs of runes that are not spaces.\<close>

fun fields_chunks :: "(rune \<times> string) list \<Rightarrow> string \<Rightarrow> string list" where
  "fields_chunks [] acc = (if acc = [] then [] else [acc])"
| "fields_chunks ((r, bs) # cs) acc =
     (if IsSpace r then (if acc = [] then fields_chunks cs [] else acc # fields_chunks cs [])
      else fields_chunks cs (acc @ bs))"

definition Fields :: "string \<Rightarrow> string list" where
  "Fields s = fields_chunks (utf8_chunks s) []"

lemma trim_by_Nil [simp]: "trim_by P [] = []"
  by (simp add: trim_by_def)

lemma TrimSpace_Nil [simp]: "TrimSpace [] = []"
  by (simp add: TrimSpace_def)

lemma trim_by_sub: "\<exists>a b. xs = a @ trim_by P xs @ b"
proof -
  let ?d = "dropWhile P xs"
  have "xs = takeWhile P xs @ ?d" by simp
  moreover have "?d = rev (dropWhile P (rev ?d)) @ rev (takeWhile P (rev ?d))"
    by (metis rev_append rev_rev_ident takeWhile_dropWhile_id)
  ultimately show ?thesis unfolding trim_by_def by metis
qed

lemma set_trim_by: "set (trim_by P xs) \<subseteq> set xs"
  using trim_by_sub [of xs P] by (metis Un_iff set_append subsetI)

lemma trim_by_hd: "trim_by P xs \<noteq> [] \<Longrightarrow> \<not> P (hd (trim_by P xs))"
proof -
  assume ne: "trim_by P xs \<noteq> []"
  let ?d = "dropWhile P xs"
  obtain b where d: "?d = trim_by P xs @ b"
    unfolding trim_by_def by (metis rev_append rev_rev_ident takeWhile_dropWhile_id)
  with ne have "hd ?d = hd (trim_by P xs)" and "?d \<noteq> []" by (auto simp: hd_append)
  then show ?thesis using hd_dropWhile [of P xs] by auto
qed

lemma trim_by_last: "trim_by P xs \<noteq> [] \<Longrightarrow> \<not> P (last (trim_by P xs))"
  unfolding trim_by_def by (metis hd_dropWhile last_rev rev_is_Nil_conv)

lemma set_TrimSpace: "set (TrimSpace s) \<subseteq> set s"
proof -
  have "set (TrimSpace s) \<subseteq> set (concat (map snd (utf8_chunks s)))"
    unfolding TrimSpace_def using set_trim_by by fastforce
  then show ?thesis by (simp add: utf8_chunks_concat)
qed

section \<open>Replacement and case\<close>

text \<open>\<^verbatim>\<open>strings.ReplaceAll\<close> of a one-byte old string.\<close>

definition replace_byte :: "char \<Rightarrow> string \<Rightarrow> string \<Rightarrow> string" where
  "replace_byte old new s = concat (map (\<lambda>c. if c = old then new else [c]) s)"

lemma replace_byte_id: "old \<notin> set s \<Longrightarrow> replace_byte old new s = s"
  by (induction s) (auto simp: replace_byte_def)

lemma replace_byte_gone: "old \<notin> set new \<Longrightarrow> old \<notin> set (replace_byte old new s)"
  by (auto simp: replace_byte_def)

text \<open>
  \<^verbatim>\<open>strings.ToLower\<close>. ASCII letters are mapped as Go maps them, and so are the two runes
  outside ASCII whose lower case is an ASCII letter (U+0130 and U+212A). Other runes are
  kept: every caller compares the result with ASCII names only.
\<close>

definition lower_rune :: "rune \<times> string \<Rightarrow> string" where
  "lower_rune rb =
     (case rb of (r, bs) \<Rightarrow>
        if 65 \<le> r \<and> r \<le> 90 then [char_of (r + 32)]
        else if r = 304 then ''i'' else if r = 8490 then ''k'' else bs)"

definition ToLower :: "string \<Rightarrow> string" where
  "ToLower s = concat (map lower_rune (utf8_chunks s))"

section \<open>Numbers\<close>

fun digits_nat :: "nat \<Rightarrow> string" where
  "digits_nat n = (if n < 10 then [char_of (48 + n)] else digits_nat (n div 10) @ [char_of (48 + n mod 10)])"

declare digits_nat.simps [simp del]

definition Itoa :: "int \<Rightarrow> string" where
  "Itoa i = (if i < 0 then CHR ''-'' # digits_nat (nat (- i)) else digits_nat (nat i))"

definition is_digit :: "char \<Rightarrow> bool" where
  "is_digit c \<longleftrightarrow> 48 \<le> (of_char c :: nat) \<and> (of_char c :: nat) \<le> 57"

definition digit_val :: "char \<Rightarrow> nat" where
  "digit_val c = of_char c - 48"

definition nat_of_digits :: "string \<Rightarrow> nat" where
  "nat_of_digits s = foldl (\<lambda>n c. 10 * n + digit_val c) 0 s"

definition all_digits :: "string \<Rightarrow> bool" where
  "all_digits s \<longleftrightarrow> s \<noteq> [] \<and> (\<forall>c \<in> set s. is_digit c)"

lemma of_char_char_of_nat: "n < 256 \<Longrightarrow> of_char (char_of n :: char) = (n :: nat)"
  by (simp add: take_bit_eq_mod)

lemma nat_of_digits_snoc: "nat_of_digits (s @ [c]) = 10 * nat_of_digits s + digit_val c"
  by (simp add: nat_of_digits_def)

lemma digits_nat_ok: "all_digits (digits_nat n) \<and> nat_of_digits (digits_nat n) = n"
proof (induction n rule: digits_nat.induct)
  case (1 n)
  show ?case
  proof (cases "n < 10")
    case True
    then show ?thesis
      by (subst (1 2) digits_nat.simps)
        (simp add: all_digits_def is_digit_def nat_of_digits_def digit_val_def of_char_char_of_nat)
  next
    case False
    then have IH: "all_digits (digits_nat (n div 10)) \<and> nat_of_digits (digits_nat (n div 10)) = n div 10"
      using "1.IH" by simp
    have d: "of_char (char_of (48 + n mod 10) :: char) = 48 + n mod 10"
      by (rule of_char_char_of_nat) presburger
    have m: "n mod 10 \<le> 9" by presburger
    from False IH show ?thesis
      by (subst (1 2) digits_nat.simps)
        (auto simp: all_digits_def is_digit_def nat_of_digits_snoc digit_val_def d m)
  qed
qed

text \<open>\<^verbatim>\<open>strconv.Atoi\<close>: an optional sign, digits, and a value that fits 64 bits.\<close>

definition Atoi :: "string \<Rightarrow> int option" where
  "Atoi s =
     (let neg = (s \<noteq> [] \<and> hd s = CHR ''-'');
          ds = (if s \<noteq> [] \<and> (hd s = CHR ''-'' \<or> hd s = CHR ''+'') then tl s else s);
          v = (if neg then - int (nat_of_digits ds) else int (nat_of_digits ds))
      in if all_digits ds \<and> - (2 ^ 63) \<le> v \<and> v < 2 ^ 63 then Some v else None)"

section \<open>Printable strings\<close>

definition printable :: "char \<Rightarrow> bool" where
  "printable c \<longleftrightarrow> 33 \<le> (of_char c :: nat) \<and> (of_char c :: nat) \<le> 126"

lemma trim_by_none: "\<forall>x \<in> set xs. \<not> P x \<Longrightarrow> trim_by P xs = xs"
proof -
  assume "\<forall>x \<in> set xs. \<not> P x"
  then have "dropWhile P xs = xs" "dropWhile P (rev xs) = rev xs"
    by (simp_all add: dropWhile_eq_self_iff) (metis hd_in_set rev_is_Nil_conv set_rev)
  then show ?thesis by (simp add: trim_by_def)
qed

lemma printable_not_space: "33 \<le> r \<Longrightarrow> r \<le> 126 \<Longrightarrow> \<not> IsSpace r"
  by (simp add: IsSpace_def)

lemma utf8_chunks_printable: "list_all printable v \<Longrightarrow> utf8_chunks v = map (\<lambda>c. (of_char c, [c])) v"
  by (rule utf8_chunks_ascii) (auto simp: ascii_def printable_def list_all_iff)

lemma TrimSpace_printable: "list_all printable v \<Longrightarrow> TrimSpace v = v"
proof -
  assume a: "list_all printable v"
  have "\<not> IsSpace (of_char c)" if "c \<in> set v" for c
    using a that printable_not_space [of "of_char c"] by (simp add: list_all_iff printable_def)
  then have "trim_by (\<lambda>(r, _). IsSpace r) (utf8_chunks v) = utf8_chunks v"
    by (intro trim_by_none) (auto simp: utf8_chunks_printable [OF a])
  then show ?thesis by (simp add: TrimSpace_def utf8_chunks_concat)
qed

end
