(* ===== verification/Go_Path_Match.thy ===== *)
theory Go_Path_Match
  imports Go_Strings
begin

text \<open>
  Go's \<^verbatim>\<open>path.Match\<close>, which every pattern of the program is finally matched by: the
  helpers \<^verbatim>\<open>scanChunk\<close>, \<^verbatim>\<open>getEsc\<close>, \<^verbatim>\<open>matchChunk\<close> and the main loop, with \<^verbatim>\<open>ErrBadPattern\<close>
  as the error value. The lemmas say when it errs (only on a malformed pattern, whatever
  the name), that a pattern without a metacharacter matches itself only, and that a
  trailing star matches everything but a slash.
\<close>

datatype match_error = ErrBadPattern

section \<open>Definitions\<close>

text \<open>\<^verbatim>\<open>getEsc\<close>: one possibly escaped rune of a character class; the rest is never empty.\<close>

definition getEsc :: "string \<Rightarrow> (rune \<times> string) option" where
  "getEsc chunk =
     (case chunk of [] \<Rightarrow> None
      | c # cs \<Rightarrow>
          if c = CHR ''-'' \<or> c = CHR '']'' then None
          else let chunk' = (if c = CHR 0x5C then cs else chunk) in
            if chunk' = [] then None
            else let (r, n) = decode_rune chunk' in
              if r = RuneError \<and> n = 1 then None
              else if drop n chunk' = [] then None else Some (r, drop n chunk'))"

lemma getEsc_shorter: "getEsc chunk = Some (r, rest) \<Longrightarrow> length rest < length chunk \<and> rest \<noteq> []"
proof -
  assume a: "getEsc chunk = Some (r, rest)"
  then obtain c cs where ch: "chunk = c # cs"
    by (cases chunk) (auto simp: getEsc_def)
  let ?k = "if c = CHR 0x5C then cs else chunk"
  obtain r' n where rn: "decode_rune ?k = (r', n)" by (cases "decode_rune ?k")
  have k: "?k \<noteq> []" and rest: "rest = drop n ?k" "rest \<noteq> []"
    using a unfolding getEsc_def ch by (auto simp: ch rn [unfolded ch] Let_def split: if_splits)
  have "1 \<le> n" using decode_rune_width [OF k] rn by simp
  moreover have "length ?k \<le> length chunk" "0 < length ?k" using k ch by auto
  ultimately show ?thesis using rest by simp
qed

text \<open>
  The ranges of a character class after the optional \<^verbatim>\<open>^\<close>: \<open>n\<close> counts the ranges read,
  \<open>m\<close> says whether one of them held the rune.
\<close>

function class_ranges :: "rune \<Rightarrow> string \<Rightarrow> nat \<Rightarrow> bool \<Rightarrow> (match_error, bool \<times> string) result" where
  "class_ranges r chunk n m =
     (if chunk \<noteq> [] \<and> hd chunk = CHR '']'' \<and> 0 < n then Inr (m, tl chunk)
      else (case getEsc chunk of None \<Rightarrow> Inl ErrBadPattern
            | Some (lo, chunk1) \<Rightarrow>
                if hd chunk1 = CHR ''-'' then
                  (case getEsc (tl chunk1) of None \<Rightarrow> Inl ErrBadPattern
                   | Some (hi, chunk2) \<Rightarrow> class_ranges r chunk2 (Suc n) (m \<or> (lo \<le> r \<and> r \<le> hi)))
                else class_ranges r chunk1 (Suc n) (m \<or> (lo \<le> r \<and> r \<le> lo))))"
  by pat_completeness auto
termination
proof (relation "measure (\<lambda>(r, chunk, n, m). length chunk)", simp)
  fix r chunk n m x lo chunk1 y hi chunk2
  assume "getEsc chunk = Some x" "(lo, chunk1) = x" "getEsc (tl chunk1) = Some y" "(hi, chunk2) = y"
  then show "((r, chunk2, Suc n, m \<or> (lo \<le> r \<and> r \<le> hi)), r, chunk, n, m)
      \<in> measure (\<lambda>(r, chunk, n, m). length chunk)"
    using getEsc_shorter [of chunk lo chunk1] getEsc_shorter [of "tl chunk1" hi chunk2] by auto
next
  fix r chunk n m x lo chunk1
  assume "getEsc chunk = Some x" "(lo, chunk1) = x"
  then show "((r, chunk1, Suc n, m \<or> (lo \<le> r \<and> r \<le> lo)), r, chunk, n, m)
      \<in> measure (\<lambda>(r, chunk, n, m). length chunk)"
    using getEsc_shorter [of chunk lo chunk1] by auto
qed

declare class_ranges.simps [simp del]

lemma class_ranges_shorter:
  "class_ranges r chunk n m = Inr (m', rest) \<Longrightarrow> length rest < length chunk"
proof (induction r chunk n m rule: class_ranges.induct)
  case (1 r chunk n m)
  show ?case
  proof (cases "chunk \<noteq> [] \<and> hd chunk = CHR '']'' \<and> 0 < n")
    case True
    with "1.prems" have "rest = tl chunk" by (simp add: class_ranges.simps [of r chunk n m])
    with True show ?thesis by (cases chunk) auto
  next
    case False
    from "1.prems" False obtain lo chunk1 where e1: "getEsc chunk = Some (lo, chunk1)"
      by (auto simp: class_ranges.simps [of r chunk n m] split: option.splits)
    note s1 = getEsc_shorter [OF e1]
    show ?thesis
    proof (cases "hd chunk1 = CHR ''-''")
      case True
      from "1.prems" False e1 True obtain hi chunk2 where e2: "getEsc (tl chunk1) = Some (hi, chunk2)"
        by (auto simp: class_ranges.simps [of r chunk n m] split: option.splits)
      from "1.prems" False e1 True e2
      have "class_ranges r chunk2 (Suc n) (m \<or> (lo \<le> r \<and> r \<le> hi)) = Inr (m', rest)"
        by (simp add: class_ranges.simps [of r chunk n m])
      with "1.IH"(1) [OF False e1 refl True e2 refl] have "length rest < length chunk2" by simp
      with s1 getEsc_shorter [OF e2] show ?thesis by auto
    next
      case nd: False
      from "1.prems" False e1 nd
      have "class_ranges r chunk1 (Suc n) (m \<or> (lo \<le> r \<and> r \<le> lo)) = Inr (m', rest)"
        by (simp add: class_ranges.simps [of r chunk n m])
      with "1.IH"(2) [OF False e1 refl nd] have "length rest < length chunk1" by simp
      with s1 show ?thesis by simp
    qed
  qed
qed

definition class_neg :: "string \<Rightarrow> bool" where
  "class_neg cs \<longleftrightarrow> cs \<noteq> [] \<and> hd cs = CHR ''^''"

definition class_body :: "string \<Rightarrow> string" where
  "class_body cs = (if class_neg cs then tl cs else cs)"

lemma class_body_le: "length (class_body cs) \<le> length cs"
  by (simp add: class_body_def)

text \<open>
  \<^verbatim>\<open>matchChunk\<close>: \<open>failed\<close> is the variable of that name; after a failure the chunk is
  still read to its end, so that a malformed chunk is always reported.
\<close>

function match_chunk_loop :: "string \<Rightarrow> string \<Rightarrow> bool \<Rightarrow> (match_error, string option) result" where
  "match_chunk_loop chunk s failed0 =
     (if chunk = [] then Inr (if failed0 then None else Some s)
      else let failed = (failed0 \<or> s = []); c = hd chunk in
        if c = CHR ''['' then
          let r = (if failed then 0 else fst (decode_rune s));
              s' = (if failed then s else drop (snd (decode_rune s)) s)
          in (case class_ranges r (class_body (tl chunk)) 0 False of Inl e \<Rightarrow> Inl e
              | Inr (m, rest) \<Rightarrow> match_chunk_loop rest s' (failed \<or> m = class_neg (tl chunk)))
        else if c = CHR ''?'' then
          (if failed then match_chunk_loop (tl chunk) s True
           else match_chunk_loop (tl chunk) (drop (snd (decode_rune s)) s) (hd s = CHR ''/''))
        else if c = CHR 0x5C \<and> tl chunk = [] then Inl ErrBadPattern
        else let chunk' = (if c = CHR 0x5C then tl chunk else chunk) in
          if failed then match_chunk_loop (tl chunk') s True
          else match_chunk_loop (tl chunk') (tl s) (hd chunk' \<noteq> hd s))"
  by pat_completeness auto
termination
proof (relation "measure (\<lambda>(chunk, s, f). length chunk)", goal_cases)
  case 1
  then show ?case by simp
next
  case prems: (2 chunk s failed0)
  then show ?case
    using class_body_le [of "tl chunk"] by (cases chunk) (auto dest!: class_ranges_shorter)
qed auto

declare match_chunk_loop.simps [simp del]

lemma match_chunk_loop_Nil [simp]: "match_chunk_loop [] s f = Inr (if f then None else Some s)"
  by (simp add: match_chunk_loop.simps)

lemma match_chunk_loop_class:
  "match_chunk_loop (CHR ''['' # cs) s f =
     (case class_ranges (if f \<or> s = [] then 0 else fst (decode_rune s)) (class_body cs) 0 False of
        Inl e \<Rightarrow> Inl e
      | Inr (m, rest) \<Rightarrow>
          match_chunk_loop rest (if f \<or> s = [] then s else drop (snd (decode_rune s)) s)
            (f \<or> s = [] \<or> m = class_neg cs))"
  by (subst match_chunk_loop.simps) (simp add: Let_def disj_assoc split: sum.split)

lemma match_chunk_loop_escape:
  "match_chunk_loop (CHR 0x5C # cs) s f =
     (if cs = [] then Inl ErrBadPattern
      else if f \<or> s = [] then match_chunk_loop (tl cs) s True
      else match_chunk_loop (tl cs) (tl s) (hd cs \<noteq> hd s))"
  by (subst match_chunk_loop.simps) simp

lemma match_chunk_loop_any:
  "match_chunk_loop (CHR ''?'' # cs) s f =
     (if f \<or> s = [] then match_chunk_loop cs s True
      else match_chunk_loop cs (drop (snd (decode_rune s)) s) (hd s = CHR ''/''))"
  by (subst match_chunk_loop.simps) simp

lemma match_chunk_loop_literal:
  "c \<notin> {CHR ''['', CHR ''?'', CHR 0x5C} \<Longrightarrow>
     match_chunk_loop (c # p) s f =
       (if f \<or> s = [] then match_chunk_loop p s True else match_chunk_loop p (tl s) (c \<noteq> hd s))"
  by (subst match_chunk_loop.simps) simp

definition matchChunk :: "string \<Rightarrow> string \<Rightarrow> (match_error, string option) result" where
  "matchChunk chunk s = match_chunk_loop chunk s False"

text \<open>\<^verbatim>\<open>scanChunk\<close>: leading stars, then the text up to the next star outside a class.\<close>

fun scan_from :: "bool \<Rightarrow> string \<Rightarrow> string \<times> string" where
  "scan_from inrange [] = ([], [])"
| "scan_from inrange (c # cs) =
     (if c = CHR 0x5C then
        (case cs of [] \<Rightarrow> ([c], [])
         | d # ds \<Rightarrow> let (a, b) = scan_from inrange ds in (c # d # a, b))
      else if c = CHR ''['' then let (a, b) = scan_from True cs in (c # a, b)
      else if c = CHR '']'' then let (a, b) = scan_from False cs in (c # a, b)
      else if c = CHR ''*'' \<and> \<not> inrange then ([], c # cs)
      else let (a, b) = scan_from inrange cs in (c # a, b))"

definition scanChunk :: "string \<Rightarrow> bool \<times> string \<times> string" where
  "scanChunk p =
     (let p' = dropWhile (\<lambda>c. c = CHR ''*'') p; (chunk, rest) = scan_from False p'
      in (p \<noteq> [] \<and> hd p = CHR ''*'', chunk, rest))"

lemma scan_from_append: "fst (scan_from i p) @ snd (scan_from i p) = p"
proof (induction i p rule: scan_from.induct)
  case (2 inrange c cs)
  show ?case
  proof (cases "c = CHR 0x5C")
    case True
    with "2.IH"(1) show ?thesis by (cases cs) (auto simp: case_prod_beta)
  next
    case False
    with "2.IH"(2-4) show ?thesis by (auto simp: case_prod_beta)
  qed
qed simp

lemma scan_from_fst_Nil: "fst (scan_from False p) = [] \<Longrightarrow> p = [] \<or> hd p = CHR ''*''"
  by (cases p) (auto split: list.splits if_splits simp: case_prod_beta)

lemma dropWhile_hd: "dropWhile P xs = y # ys \<Longrightarrow> \<not> P y"
  by (metis dropWhile_eq_Cons_conv)

lemma scanChunk_shorter:
  assumes "p \<noteq> []" and "scanChunk p = (star, chunk, rest)"
  shows "length rest < length p"
proof -
  let ?p = "dropWhile (\<lambda>c. c = CHR ''*'') p"
  have sp: "scan_from False ?p = (chunk, rest)" and "star \<longleftrightarrow> hd p = CHR ''*''"
    using assms by (auto simp: scanChunk_def Let_def split: prod.splits)
  then have app: "chunk @ rest = ?p" using scan_from_append [of False ?p] by simp
  have le: "length ?p \<le> length p" by (simp add: length_dropWhile_le)
  show ?thesis
  proof (cases "hd p = CHR ''*''")
    case True
    then have "length ?p < length p" using assms(1)
      by (cases p) (auto simp: le_imp_less_Suc length_dropWhile_le)
    moreover have "length rest \<le> length ?p" using app by (metis le_add2 length_append)
    ultimately show ?thesis by simp
  next
    case False
    then have pp: "?p = p" using assms(1) by (cases p) auto
    have "chunk \<noteq> []"
      using scan_from_fst_Nil [of ?p] sp pp assms(1) False by auto
    then show ?thesis using app pp by (metis length_append length_greater_0_conv less_add_same_cancel2)
  qed
qed

lemma scanChunk_empty_chunk:
  assumes "scanChunk p = (star, [], rest)"
  shows "rest = []"
proof -
  let ?p = "dropWhile (\<lambda>c. c = CHR ''*'') p"
  have sp: "scan_from False ?p = ([], rest)"
    using assms by (auto simp: scanChunk_def Let_def split: prod.splits)
  then have "?p = [] \<or> hd ?p = CHR ''*''" using scan_from_fst_Nil [of ?p] by simp
  then have "?p = []" using hd_dropWhile [of "\<lambda>c. c = CHR ''*''" p] by blast
  with sp show ?thesis by simp
qed

text \<open>The syntax check of what is left of the pattern after a mismatch.\<close>

function check_rest :: "string \<Rightarrow> (match_error, unit) result" where
  "check_rest p =
     (if p = [] then Inr ()
      else (case scanChunk p of (star, chunk, rest) \<Rightarrow>
              (case matchChunk chunk [] of Inl e \<Rightarrow> Inl e | Inr _ \<Rightarrow> check_rest rest)))"
  by pat_completeness auto
termination
  by (relation "measure length") (auto dest: scanChunk_shorter [OF _ sym])

declare check_rest.simps [simp del]

lemma check_rest_Nil [simp]: "check_rest [] = Inr ()"
  by (simp add: check_rest.simps)

text \<open>The loop that lets a star swallow one more byte, never a slash.\<close>

fun star_skip :: "string \<Rightarrow> bool \<Rightarrow> string \<Rightarrow> (match_error, string option) result" where
  "star_skip chunk last_chunk [] = Inr None"
| "star_skip chunk last_chunk (c # cs) =
     (if c = CHR ''/'' then Inr None
      else (case matchChunk chunk cs of Inl e \<Rightarrow> Inl e
            | Inr None \<Rightarrow> star_skip chunk last_chunk cs
            | Inr (Some t) \<Rightarrow>
                if last_chunk \<and> t \<noteq> [] then star_skip chunk last_chunk cs else Inr (Some t)))"

function path_match :: "string \<Rightarrow> string \<Rightarrow> (match_error, bool) result" where
  "path_match pattern name =
     (if pattern = [] then Inr (name = [])
      else (case scanChunk pattern of (star, chunk, rest) \<Rightarrow>
        if star \<and> chunk = [] then Inr (CHR ''/'' \<notin> set name)
        else (case matchChunk chunk name of
                Inl e \<Rightarrow> Inl e
              | Inr r \<Rightarrow>
                 (case (if (case r of None \<Rightarrow> False | Some t \<Rightarrow> t = [] \<or> rest \<noteq> []) then Inr r
                        else if star then star_skip chunk (rest = []) name else Inr None) of
                    Inl e \<Rightarrow> Inl e
                  | Inr (Some t) \<Rightarrow> path_match rest t
                  | Inr None \<Rightarrow> (case check_rest rest of Inl e \<Rightarrow> Inl e | Inr _ \<Rightarrow> Inr False)))))"
  by pat_completeness auto
termination
  by (relation "measure (\<lambda>(p, n). length p)") (auto dest: scanChunk_shorter [OF _ sym])

declare path_match.simps [simp del]

lemma path_match_Nil [simp]: "path_match [] s = Inr (s = [])"
  by (simp add: path_match.simps)

section \<open>Only a malformed pattern is an error\<close>

lemma class_ranges_indep:
  "map_sum id snd (class_ranges r chunk n m) = map_sum id snd (class_ranges r' chunk n m')"
proof (induction r chunk n m arbitrary: m' rule: class_ranges.induct)
  case (1 r chunk n m)
  note un = class_ranges.simps [of _ chunk n]
  consider (stop) "chunk \<noteq> [] \<and> hd chunk = CHR '']'' \<and> 0 < n"
    | (bad) "\<not> (chunk \<noteq> [] \<and> hd chunk = CHR '']'' \<and> 0 < n)" "getEsc chunk = None"
    | (one) lo chunk1 where "\<not> (chunk \<noteq> [] \<and> hd chunk = CHR '']'' \<and> 0 < n)"
        "getEsc chunk = Some (lo, chunk1)" "hd chunk1 \<noteq> CHR ''-''"
    | (bad2) lo chunk1 where "\<not> (chunk \<noteq> [] \<and> hd chunk = CHR '']'' \<and> 0 < n)"
        "getEsc chunk = Some (lo, chunk1)" "hd chunk1 = CHR ''-''" "getEsc (tl chunk1) = None"
    | (two) lo chunk1 hi chunk2 where "\<not> (chunk \<noteq> [] \<and> hd chunk = CHR '']'' \<and> 0 < n)"
        "getEsc chunk = Some (lo, chunk1)" "hd chunk1 = CHR ''-''" "getEsc (tl chunk1) = Some (hi, chunk2)"
    by (metis not_None_eq surj_pair)
  then show ?case
  proof cases
    case one
    from one(2,3) have "\<And>r m. class_ranges r chunk n m = class_ranges r chunk1 (Suc n) (m \<or> (lo \<le> r \<and> r \<le> lo))"
      unfolding un if_not_P [OF one(1)] by simp
    with "1.IH"(2) [OF one(1,2) refl one(3)] show ?thesis by metis
  next
    case two
    from two(2-4) have "\<And>r m. class_ranges r chunk n m = class_ranges r chunk2 (Suc n) (m \<or> (lo \<le> r \<and> r \<le> hi))"
      unfolding un if_not_P [OF two(1)] by simp
    with "1.IH"(1) [OF two(1,2) refl two(3,4) refl] show ?thesis by metis
  qed (unfold un, simp_all)
qed

lemma class_ranges_Inl_indep:
  "class_ranges r chunk n m = Inl e \<Longrightarrow> class_ranges r' chunk n m' = Inl e"
  using class_ranges_indep [of r chunk n m r' m'] by (cases "class_ranges r' chunk n m'") simp_all

lemma class_ranges_Inr_indep:
  "class_ranges r chunk n m = Inr (b, rest) \<Longrightarrow> \<exists>b'. class_ranges r' chunk n m' = Inr (b', rest)"
  using class_ranges_indep [of r chunk n m r' m']
  by (cases "class_ranges r' chunk n m'") (simp_all, metis prod.collapse)

lemma match_chunk_loop_error_indep:
  "isl (match_chunk_loop chunk s f) \<longleftrightarrow> isl (match_chunk_loop chunk s' f')"
proof (induction chunk arbitrary: s f s' f' rule: length_induct)
  case (1 chunk)
  then have IH: "\<And>xs s f s' f'. length xs < length chunk \<Longrightarrow>
      isl (match_chunk_loop xs s f) \<longleftrightarrow> isl (match_chunk_loop xs s' f')" by blast
  show ?case
  proof (cases chunk)
    case Nil
    then show ?thesis by simp
  next
    case (Cons c cs)
    consider (cls) "c = CHR ''[''" | (esc) "c = CHR 0x5C" | (other) "c \<noteq> CHR ''[''" "c \<noteq> CHR 0x5C" by blast
    then show ?thesis
    proof cases
      case cls
      let ?k = "class_body cs"
      show ?thesis
      proof (cases "class_ranges 0 ?k 0 False")
        case (Inl e)
        then have "\<And>r. class_ranges r ?k 0 False = Inl e" by (rule class_ranges_Inl_indep)
        then have "\<And>s f. isl (match_chunk_loop (CHR ''['' # cs) s f)"
          by (simp add: match_chunk_loop_class)
        then show ?thesis using cls Cons by simp
      next
        case (Inr x)
        obtain b rest where br: "class_ranges 0 ?k 0 False = Inr (b, rest)" using Inr by (cases x) auto
        have l: "length rest < length chunk"
          using class_ranges_shorter [OF br] class_body_le [of cs] Cons by simp
        have ex: "\<And>r. \<exists>b'. class_ranges r ?k 0 False = Inr (b', rest)"
          using class_ranges_Inr_indep [OF br] by blast
        have "\<And>s f. \<exists>s' f'. match_chunk_loop (CHR ''['' # cs) s f = match_chunk_loop rest s' f'"
        proof -
          fix s f
          let ?r = "if f \<or> s = [] then 0 else fst (decode_rune s)"
          obtain b1 where "class_ranges ?r ?k 0 False = Inr (b1, rest)" using ex by blast
          then show "\<exists>s' f'. match_chunk_loop (CHR ''['' # cs) s f = match_chunk_loop rest s' f'"
            unfolding match_chunk_loop_class by auto
        qed
        then show ?thesis using cls Cons IH [OF l] by metis
      qed
    next
      case esc
      have l: "length (tl cs) < length chunk" using Cons by (cases cs) auto
      have "isl (match_chunk_loop (CHR 0x5C # cs) s f) \<longleftrightarrow> cs = [] \<or> isl (match_chunk_loop (tl cs) [] True)" for s f
        using IH [OF l, of s True "[]" True] IH [OF l, of "tl s" "hd cs \<noteq> hd s" "[]" True]
        by (simp add: match_chunk_loop_escape)
      then show ?thesis using esc Cons by simp
    next
      case other
      have l: "length cs < length chunk" using Cons by simp
      have "isl (match_chunk_loop (c # cs) s f) \<longleftrightarrow> isl (match_chunk_loop cs [] True)" for s f
        using other IH [OF l, of s True "[]" True] IH [OF l, of "tl s" "c \<noteq> hd s" "[]" True]
          IH [OF l, of "drop (snd (decode_rune s)) s" "hd s = CHR ''/''" "[]" True]
        by (cases "c = CHR ''?''") (simp_all add: match_chunk_loop_any match_chunk_loop_literal)
      then show ?thesis using Cons by simp
    qed
  qed
qed

lemma matchChunk_error_indep: "isl (matchChunk chunk s) \<longleftrightarrow> isl (matchChunk chunk s')"
  unfolding matchChunk_def by (rule match_chunk_loop_error_indep)

lemma star_skip_error: "isl (star_skip chunk l s) \<Longrightarrow> isl (matchChunk chunk s')"
proof (induction s)
  case (Cons c cs)
  show ?case
  proof (cases "matchChunk chunk cs")
    case (Inl e)
    then show ?thesis using matchChunk_error_indep [of chunk cs s'] by simp
  next
    case (Inr r)
    with Cons show ?thesis by (auto split: if_splits option.splits)
  qed
qed simp

lemma check_rest_step:
  "p \<noteq> [] \<Longrightarrow> scanChunk p = (star, chunk, rest) \<Longrightarrow>
     isl (check_rest p) \<longleftrightarrow> isl (matchChunk chunk s) \<or> isl (check_rest rest)"
  using matchChunk_error_indep [of chunk s "[]"]
  by (subst check_rest.simps) (auto split: sum.splits)

text \<open>
  \<^verbatim>\<open>path.Match\<close> errs on exactly the patterns its own syntax check rejects, whatever the
  name: a pattern that passed \<^verbatim>\<open>path.Match(p, "")\<close> never errs afterwards.
\<close>

lemma path_match_error_iff: "isl (path_match p s) \<longleftrightarrow> isl (check_rest p)"
proof (induction p s rule: path_match.induct)
  case (1 p s)
  show ?case
  proof (cases "p = []")
    case True
    then show ?thesis by simp
  next
    case False
    obtain star chunk rest where sc: "scanChunk p = (star, chunk, rest)" by (cases "scanChunk p")
    note cr = check_rest_step [OF False sc, of s]
    show ?thesis
    proof (cases "star \<and> chunk = []")
      case True
      then have "rest = []" using scanChunk_empty_chunk sc by blast
      with True show ?thesis
        unfolding cr by (simp add: path_match.simps [of p s] False sc matchChunk_def)
    next
      case nt: False
      show ?thesis
      proof (cases "matchChunk chunk s")
        case (Inl e)
        then show ?thesis unfolding cr by (simp add: path_match.simps [of p s] False sc nt)
      next
        case (Inr r)
        define next_r where "next_r =
          (if (case r of None \<Rightarrow> False | Some t \<Rightarrow> t = [] \<or> rest \<noteq> []) then Inr r
           else if star then star_skip chunk (rest = []) s else Inr None)"
        have ok: "\<not> isl next_r"
          using star_skip_error [of chunk "rest = []" s s] Inr unfolding next_r_def by (auto split: if_splits)
        then obtain r' where r': "next_r = Inr r'" by (cases next_r) auto
        have unf: "path_match p s = (case r' of Some t \<Rightarrow> path_match rest t
            | None \<Rightarrow> (case check_rest rest of Inl e \<Rightarrow> Inl e | Inr _ \<Rightarrow> Inr False))"
          using r' unfolding next_r_def
          by (simp add: path_match.simps [of p s] False sc nt Inr)
        have IH: "\<And>t. r' = Some t \<Longrightarrow> isl (path_match rest t) \<longleftrightarrow> isl (check_rest rest)"
          using "1.IH" [OF False sc [symmetric] refl nt Inr] r' unfolding next_r_def by auto
        show ?thesis unfolding cr unf using Inr IH by (auto split: option.splits sum.splits)
      qed
    qed
  qed
qed

corollary path_match_error_any: "isl (path_match p s) \<longleftrightarrow> isl (path_match p s')"
  by (simp add: path_match_error_iff)

section \<open>Patterns without metacharacters\<close>

definition glob_plain :: "string \<Rightarrow> bool" where
  "glob_plain p \<longleftrightarrow> set p \<inter> {CHR ''*'', CHR ''?'', CHR ''['', CHR 0x5C} = {}"

lemma glob_plain_Cons:
  "glob_plain (c # p) \<longleftrightarrow> c \<notin> {CHR ''*'', CHR ''?'', CHR ''['', CHR 0x5C} \<and> glob_plain p"
  by (auto simp: glob_plain_def)

lemma glob_plain_Nil [simp]: "glob_plain []"
  by (simp add: glob_plain_def)

lemma match_chunk_plain_failed: "glob_plain p \<Longrightarrow> match_chunk_loop p s True = Inr None"
  by (induction p arbitrary: s) (simp_all add: match_chunk_loop_literal glob_plain_Cons)

lemma matchChunk_plain:
  "glob_plain p \<Longrightarrow>
     matchChunk p s = Inr (if HasPrefix s p then Some (drop (length p) s) else None)"
  unfolding matchChunk_def
proof (induction p arbitrary: s)
  case Nil
  then show ?case by simp
next
  case (Cons c p)
  then have g: "glob_plain p" by (simp add: glob_plain_Cons)
  with Cons show ?case
    by (cases s; cases "c = hd s") (auto simp: match_chunk_loop_literal glob_plain_Cons HasPrefix_Cons
        match_chunk_plain_failed)
qed

lemma scan_from_plain: "glob_plain p \<Longrightarrow> scan_from False p = (p, [])"
  by (induction p) (auto simp: glob_plain_Cons)

lemma scan_from_plain_star:
  "glob_plain p \<Longrightarrow> scan_from False (p @ CHR ''*'' # q) = (p, CHR ''*'' # q)"
  by (induction p) (auto simp: glob_plain_Cons)

lemma dropWhile_star_plain: "glob_plain p \<Longrightarrow> dropWhile (\<lambda>c. c = CHR ''*'') p = p"
  by (cases p) (auto simp: glob_plain_Cons)

lemma scanChunk_plain: "glob_plain p \<Longrightarrow> scanChunk p = (False, p, [])"
  by (cases p) (auto simp: scanChunk_def glob_plain_Cons scan_from_plain)

theorem path_match_plain: "glob_plain p \<Longrightarrow> path_match p s = Inr (p = s)"
proof -
  assume g: "glob_plain p"
  show ?thesis
  proof (cases "p = []")
    case True
    then show ?thesis by (simp add: eq_commute)
  next
    case False
    have "HasPrefix s p \<and> drop (length p) s = [] \<longleftrightarrow> p = s"
      by (auto simp: HasPrefix_iff)
    then show ?thesis using False
      by (auto simp: path_match.simps [of p s] scanChunk_plain [OF g] matchChunk_plain [OF g])
  qed
qed

theorem path_match_star: "path_match ''*'' s = Inr (CHR ''/'' \<notin> set s)"
  by (simp add: path_match.simps [of "''*''"] scanChunk_def)

theorem path_match_plain_star:
  assumes g: "glob_plain p"
  shows "path_match (p @ ''*'') s = Inr (HasPrefix s p \<and> CHR ''/'' \<notin> set (drop (length p) s))"
proof (cases "p = []")
  case True
  then show ?thesis using path_match_star by simp
next
  case False
  have star: "hd p \<noteq> CHR ''*''" using g False by (cases p) (auto simp: glob_plain_Cons)
  have "dropWhile (\<lambda>c. c = CHR ''*'') (p @ ''*'') = p @ ''*''"
    using False star by (cases p) auto
  then have sc: "scanChunk (p @ ''*'') = (False, p, ''*'')"
    using False star by (simp add: scanChunk_def scan_from_plain_star [OF g])
  have cr: "check_rest ''*'' = Inr ()"
    by (subst check_rest.simps) (simp add: scanChunk_def matchChunk_def)
  show ?thesis using False
    by (simp add: path_match.simps [of "p @ ''*''"] sc matchChunk_plain [OF g] path_match_star cr)
qed

end
