(* ===== verification/Policy_Pattern.thy ===== *)
theory Policy_Pattern
  imports Go_Path_Match
begin

text \<open>
  Patterns over import and module paths (\<^verbatim>\<open>internal/policy/pattern.go\<close>): brace expansion,
  compilation, matching with the \<^verbatim>\<open><self>\<close> token, and the coverage approximation. The
  lemmas show what a compiled pattern guarantees at match time and what the documented
  pattern forms mean.
\<close>

section \<open>Definitions\<close>

definition selfToken :: string where
  "selfToken = ''<self>''"

definition coverageFiller :: string where
  "coverageFiller = ''zz''"

record alternative =
  alt_segments :: "string list"
  alt_prefix :: bool

record pattern =
  pat_raw :: string
  pat_alternatives :: "alternative list"

datatype pattern_error =
    PatternEmpty
  | UnmatchedClose
  | UnmatchedOpen
  | EmptyAlternative
  | EllipsisNotLast string
  | EmptySegment string
  | BadSegment string string

lemma map_result_cong [fundef_cong]:
  "xs = ys \<Longrightarrow> (\<And>x. x \<in> set ys \<Longrightarrow> f x = g x) \<Longrightarrow> map_result f xs = map_result g ys"
  by (induction ys arbitrary: xs) (auto split: sum.splits)

lemma Split_part_le: "w \<in> set (Split s b) \<Longrightarrow> length w \<le> length s"
proof (induction s arbitrary: w)
  case (Cons c s)
  obtain v vs where sp: "Split s b = v # vs" by (cases "Split s b") simp_all
  with Cons.prems consider "w = []" | "w \<in> set (Split s b)" | "w = c # v"
    by (auto split: if_splits)
  then show ?case
  proof cases
    case 3
    have "length v \<le> length s" using Cons.IH [of v] sp by simp
    with 3 show ?thesis by simp
  qed (use Cons.IH in force)+
qed simp

text \<open>\<^verbatim>\<open>expandBraces\<close>: the first group is replaced by each of its choices in turn.\<close>

function expandBraces :: "string \<Rightarrow> (pattern_error, string list) result" where
  "expandBraces raw =
     (case IndexByte raw (CHR ''{'') of
        None \<Rightarrow> if IndexByte raw (CHR ''}'') \<noteq> None then Inl UnmatchedClose else Inr [raw]
      | Some i \<Rightarrow>
          (case IndexByte (drop i raw) (CHR ''}'') of
             None \<Rightarrow> Inl UnmatchedOpen
           | Some j \<Rightarrow>
               (case map_result (\<lambda>choice.
                       if choice = [] then Inl EmptyAlternative
                       else expandBraces (take i raw @ choice @ drop (i + j + 1) raw))
                     (Split (take (j - 1) (drop (i + 1) raw)) (CHR '','')) of
                  Inl e \<Rightarrow> Inl e
                | Inr parts \<Rightarrow> Inr (concat parts))))"
  by pat_completeness auto
termination
proof (relation "measure length", simp)
  fix raw i j choice
  assume i: "IndexByte raw (CHR ''{'') = Some i"
    and j: "IndexByte (drop i raw) (CHR ''}'') = Some j"
    and c: "choice \<in> set (Split (take (j - 1) (drop (i + 1) raw)) CHR '','')"
  have i': "i < length raw" "raw ! i = CHR ''{''" using IndexByte_Some [OF i] by auto
  have j': "j < length raw - i" "drop i raw ! j = CHR ''}''" using IndexByte_Some [OF j] by auto
  have "0 < j" using i' j' by (cases j) auto
  moreover have "length choice \<le> j - 1"
    using Split_part_le [OF c] by simp
  ultimately show "(take i raw @ choice @ drop (i + j + 1) raw, raw) \<in> measure length"
    using i'(1) j'(1) by simp
qed

declare expandBraces.simps [simp del]

text \<open>One expanded candidate: the \<^verbatim>\<open>...\<close> rule, then the check of every segment.\<close>

definition compile_candidate :: "string \<Rightarrow> string \<Rightarrow> (pattern_error, alternative) result" where
  "compile_candidate raw candidate =
     (let segs = Split candidate (CHR ''/'') in
      if list_ex (\<lambda>s. s = ''...'') (butlast segs) then Inl (EllipsisNotLast raw)
      else let pre = (last segs = ''...''); segs' = (if pre then butlast segs else segs) in
        (case List.find (\<lambda>s. s = [] \<or> isl (path_match s [])) segs' of
           Some s \<Rightarrow> Inl (if s = [] then EmptySegment raw else BadSegment raw s)
         | None \<Rightarrow> Inr \<lparr>alt_segments = segs', alt_prefix = pre\<rparr>))"

definition CompilePattern :: "string \<Rightarrow> (pattern_error, pattern) result" where
  "CompilePattern raw =
     (if TrimSpace raw = [] then Inl PatternEmpty
      else (case expandBraces raw of Inl e \<Rightarrow> Inl e
            | Inr expanded \<Rightarrow>
                (case map_result (compile_candidate raw) expanded of Inl e \<Rightarrow> Inl e
                 | Inr alts \<Rightarrow> Inr \<lparr>pat_raw = raw, pat_alternatives = alts\<rparr>)))"

text \<open>The segments an alternative is matched with, after \<^verbatim>\<open><self>\<close> is resolved.\<close>

definition resolved_segments :: "alternative \<Rightarrow> string \<Rightarrow> string list" where
  "resolved_segments a self =
     (if alt_segments a \<noteq> [] \<and> hd (alt_segments a) = selfToken
      then Split self (CHR ''/'') @ tl (alt_segments a) else alt_segments a)"

definition alt_match :: "alternative \<Rightarrow> string list \<Rightarrow> string \<Rightarrow> bool" where
  "alt_match a path self =
     (if alt_segments a \<noteq> [] \<and> hd (alt_segments a) = selfToken \<and> self = [] then False
      else let segs = resolved_segments a self in
        (if alt_prefix a then length segs \<le> length path else length path = length segs) \<and>
        list_all (\<lambda>(seg, part). path_match seg part = Inr True) (zip segs path))"

definition Match :: "pattern \<Rightarrow> string \<Rightarrow> string \<Rightarrow> bool" where
  "Match p importPath self \<longleftrightarrow>
     importPath \<noteq> [] \<and>
     list_ex (\<lambda>a. alt_match a (Split importPath (CHR ''/'')) self) (pat_alternatives p)"

definition representative :: "alternative \<Rightarrow> string" where
  "representative a =
     Join (map (\<lambda>s. replace_byte (CHR ''?'') ''z''
                   (replace_byte (CHR ''*'') coverageFiller (if s = selfToken then ''self'' else s)))
               (alt_segments a)
           @ (if alt_prefix a then [coverageFiller] else [])) ''/''"

definition Covers :: "pattern \<Rightarrow> pattern \<Rightarrow> bool" where
  "Covers p other \<longleftrightarrow>
     pat_alternatives other \<noteq> [] \<and>
     list_all (\<lambda>a. Match p (representative a) []) (pat_alternatives other)"

section \<open>What compilation guarantees\<close>

text \<open>Brace expansion terminates and leaves no brace behind.\<close>

lemma expandBraces_no_braces:
  "expandBraces raw = Inr xs \<Longrightarrow> x \<in> set xs \<Longrightarrow> CHR ''{'' \<notin> set x \<and> CHR ''}'' \<notin> set x"
proof (induction raw arbitrary: x xs rule: expandBraces.induct)
  case (1 raw)
  show ?case
  proof (cases "IndexByte raw (CHR ''{'')")
    case None
    with "1.prems" show ?thesis
      by (auto simp: expandBraces.simps [of raw] IndexByte_None_iff split: if_splits)
  next
    case (Some i)
    then obtain j where j: "IndexByte (drop i raw) (CHR ''}'') = Some j"
      using "1.prems"(1) by (cases "IndexByte (drop i raw) (CHR ''}'')") (auto simp: expandBraces.simps [of raw])
    let ?cs = "Split (take (j - 1) (drop (i + 1) raw)) (CHR '','')"
    let ?f = "\<lambda>choice. if choice = [] then Inl EmptyAlternative
                  else expandBraces (take i raw @ choice @ drop (i + j + 1) raw)"
    from "1.prems"(1) Some j obtain parts where parts: "map_result ?f ?cs = Inr parts" and xs: "xs = concat parts"
      by (auto simp: expandBraces.simps [of raw] split: sum.splits)
    with "1.prems"(2) obtain ys where "ys \<in> set parts" "x \<in> set ys" by auto
    with map_result_set [OF parts] obtain choice where
      c: "choice \<in> set ?cs" "?f choice = Inr ys" by blast
    then have "choice \<noteq> []" "expandBraces (take i raw @ choice @ drop (i + j + 1) raw) = Inr ys"
      by (auto split: if_splits)
    with "1.IH" [OF Some j c(1)] \<open>x \<in> set ys\<close> show ?thesis by blast
  qed
qed

lemma expandBraces_nonempty: "expandBraces raw = Inr xs \<Longrightarrow> xs \<noteq> []"
proof (induction raw arbitrary: xs rule: expandBraces.induct)
  case (1 raw)
  show ?case
  proof (cases "IndexByte raw (CHR ''{'')")
    case None
    with "1.prems" show ?thesis by (auto simp: expandBraces.simps [of raw] split: if_splits)
  next
    case (Some i)
    then obtain j where j: "IndexByte (drop i raw) (CHR ''}'') = Some j"
      using "1.prems" by (cases "IndexByte (drop i raw) (CHR ''}'')") (auto simp: expandBraces.simps [of raw])
    let ?cs = "Split (take (j - 1) (drop (i + 1) raw)) (CHR '','')"
    let ?f = "\<lambda>choice. if choice = [] then Inl EmptyAlternative
                  else expandBraces (take i raw @ choice @ drop (i + j + 1) raw)"
    from "1.prems" Some j obtain parts where parts: "map_result ?f ?cs = Inr parts" and xs: "xs = concat parts"
      by (auto simp: expandBraces.simps [of raw] split: sum.splits)
    have "length parts = length ?cs" using map_result_length [OF parts] .
    then obtain ys rest where ys: "parts = ys # rest" by (cases parts) auto
    with map_result_set [OF parts, of ys] obtain choice where
      c: "choice \<in> set ?cs" "?f choice = Inr ys" by auto
    then have "expandBraces (take i raw @ choice @ drop (i + j + 1) raw) = Inr ys" "choice \<noteq> []"
      by (auto split: if_splits)
    with "1.IH" [OF Some j c(1)] have "ys \<noteq> []" by blast
    with xs ys show ?thesis by simp
  qed
qed

lemma expandBraces_plain:
  "CHR ''{'' \<notin> set raw \<Longrightarrow> CHR ''}'' \<notin> set raw \<Longrightarrow> expandBraces raw = Inr [raw]"
  using IndexByte_None_iff [of raw "CHR ''{''"] IndexByte_None_iff [of raw "CHR ''}''"]
  by (simp add: expandBraces.simps [of raw])

definition wf_alternative :: "alternative \<Rightarrow> bool" where
  "wf_alternative a \<longleftrightarrow>
     (alt_segments a = [] \<longrightarrow> alt_prefix a) \<and>
     (\<forall>s \<in> set (alt_segments a).
        s \<noteq> [] \<and> s \<noteq> ''...'' \<and> CHR ''/'' \<notin> set s \<and> CHR ''{'' \<notin> set s \<and> CHR ''}'' \<notin> set s
        \<and> (\<forall>part. \<not> isl (path_match s part)))"

definition wf_pattern :: "pattern \<Rightarrow> bool" where
  "wf_pattern p \<longleftrightarrow> pat_alternatives p \<noteq> [] \<and> (\<forall>a \<in> set (pat_alternatives p). wf_alternative a)"

lemma set_Split_chars: "w \<in> set (Split s b) \<Longrightarrow> set w \<subseteq> set s"
proof (induction s arbitrary: w)
  case (Cons c s)
  obtain v vs where sp: "Split s b = v # vs" by (cases "Split s b") simp_all
  then have "set v \<subseteq> set s" "\<And>u. u \<in> set vs \<Longrightarrow> set u \<subseteq> set s" using Cons.IH by auto
  with sp Cons.prems show ?case by (auto split: if_splits)
qed simp

lemma compile_candidate_wf:
  assumes "compile_candidate raw c = Inr a" "CHR ''{'' \<notin> set c" "CHR ''}'' \<notin> set c"
  shows "wf_alternative a"
proof -
  let ?segs = "Split c (CHR ''/'')"
  let ?pre = "last ?segs = ''...''"
  let ?segs' = "if ?pre then butlast ?segs else ?segs"
  have nb: "\<not> list_ex (\<lambda>s. s = ''...'') (butlast ?segs)"
    and f: "List.find (\<lambda>s. s = [] \<or> isl (path_match s [])) ?segs' = None"
    and a: "a = \<lparr>alt_segments = ?segs', alt_prefix = ?pre\<rparr>"
    using assms(1) by (auto simp: compile_candidate_def Let_def split: if_splits option.splits)
  have sub: "set ?segs' \<subseteq> set ?segs" by (auto dest: in_set_butlastD)
  have "s \<noteq> ''...''" if s: "s \<in> set ?segs'" for s
  proof
    assume e: "s = ''...''"
    have "set ?segs = insert (last ?segs) (set (butlast ?segs))"
      by (metis Split_not_Nil append_butlast_last_id list.set(1,2) set_append Un_insert_right sup_bot.right_neutral)
    with s e nb show False by (auto simp: list_ex_iff split: if_splits)
  qed
  moreover have "s \<noteq> [] \<and> \<not> isl (path_match s [])" if "s \<in> set ?segs'" for s
    using f that by (auto simp: find_None_all)
  moreover have "CHR ''/'' \<notin> set s \<and> CHR ''{'' \<notin> set s \<and> CHR ''}'' \<notin> set s" if "s \<in> set ?segs'" for s
    using that sub Split_parts_no_sep [of s c "CHR ''/''"] set_Split_chars [of s c "CHR ''/''"] assms(2,3) by auto
  moreover have "alt_segments a = [] \<longrightarrow> alt_prefix a" using a by auto
  ultimately show ?thesis
    unfolding wf_alternative_def a using path_match_error_any by (metis alternative.select_convs(1))
qed

lemma CompilePattern_wf: "CompilePattern raw = Inr p \<Longrightarrow> wf_pattern p \<and> pat_raw p = raw"
proof -
  assume a: "CompilePattern raw = Inr p"
  then obtain xs alts where xs: "expandBraces raw = Inr xs"
    and alts: "map_result (compile_candidate raw) xs = Inr alts"
    and p: "p = \<lparr>pat_raw = raw, pat_alternatives = alts\<rparr>"
    by (auto simp: CompilePattern_def split: if_splits sum.splits)
  have "wf_alternative al" if "al \<in> set alts" for al
    using map_result_set [OF alts that] compile_candidate_wf expandBraces_no_braces [OF xs] by blast
  moreover have "alts \<noteq> []"
    using expandBraces_nonempty xs map_result_length [OF alts] by auto
  ultimately show ?thesis by (simp add: p wf_pattern_def)
qed

section \<open>What the documented forms match\<close>

lemma zip_plain_match:
  "(\<forall>s \<in> set segs. glob_plain s) \<Longrightarrow> length segs \<le> length parts \<Longrightarrow>
     list_all (\<lambda>(seg, part). path_match seg part = Inr True) (zip segs parts) \<longleftrightarrow>
     take (length segs) parts = segs"
proof (induction segs arbitrary: parts)
  case (Cons s segs)
  then show ?case by (cases parts) (auto simp: path_match_plain)
qed simp

lemma Join_append:
  "xs \<noteq> [] \<Longrightarrow> ys \<noteq> [] \<Longrightarrow> Join (xs @ ys) sep = Join xs sep @ sep @ Join ys sep"
proof (induction xs)
  case (Cons x xs)
  then show ?case by (cases "xs = []") (simp_all add: Join_Cons)
qed simp

lemma take_Split_iff:
  "take (length (Split p b)) (Split q b) = Split p b \<longleftrightarrow> q = p \<or> HasPrefix q (p @ [b])"
proof
  let ?n = "length (Split p b)"
  assume t: "take ?n (Split q b) = Split p b"
  show "q = p \<or> HasPrefix q (p @ [b])"
  proof (cases "drop ?n (Split q b) = []")
    case True
    with t have "Split q b = Split p b" by simp
    then show ?thesis by (simp add: Split_inj)
  next
    case False
    have "Split q b = Split p b @ drop ?n (Split q b)" using t by (metis append_take_drop_id)
    then have "q = Join (Split p b @ drop ?n (Split q b)) [b]" by (metis Join_Split)
    also have "\<dots> = p @ [b] @ Join (drop ?n (Split q b)) [b]"
      using False by (simp add: Join_append Join_Split)
    finally show ?thesis by (metis HasPrefix_append append_assoc)
  qed
next
  assume "q = p \<or> HasPrefix q (p @ [b])"
  then show "take (length (Split p b)) (Split q b) = Split p b"
  proof
    assume "HasPrefix q (p @ [b])"
    then obtain r where "q = p @ b # r" by (auto simp: HasPrefix_iff)
    then show ?thesis by (simp add: Split_append)
  qed simp
qed

lemma glob_plain_Split: "glob_plain p \<Longrightarrow> s \<in> set (Split p b) \<Longrightarrow> glob_plain s"
  using set_Split_chars [of s p b] by (auto simp: glob_plain_def)

definition plain_path :: "string \<Rightarrow> bool" where
  "plain_path p \<longleftrightarrow>
     p \<noteq> [] \<and> ascii p \<and> glob_plain p \<and> CHR ''{'' \<notin> set p \<and> CHR ''}'' \<notin> set p \<and>
     CHR '' '' \<notin> set p \<and>
     (\<forall>w \<in> set (Split p (CHR ''/'')). w \<noteq> [] \<and> w \<noteq> ''...'' \<and> w \<noteq> selfToken)"

lemma alt_match_plain:
  assumes "\<forall>s \<in> set (resolved_segments a self). glob_plain s" "self \<noteq> [] \<or> alt_segments a = [] \<or> hd (alt_segments a) \<noteq> selfToken"
  shows "alt_match a parts self \<longleftrightarrow>
    (if alt_prefix a then take (length (resolved_segments a self)) parts = resolved_segments a self
     else parts = resolved_segments a self)"
proof -
  let ?r = "resolved_segments a self"
  show ?thesis
  proof (cases "length ?r \<le> length parts")
    case True
    with assms zip_plain_match [OF assms(1) True] show ?thesis
      by (auto simp: alt_match_def)
  next
    case False
    with assms show ?thesis by (auto simp: alt_match_def dest: arg_cong [where f = length])
  qed
qed

lemma self_subtree_alt:
  assumes "self \<noteq> []" "glob_plain self"
  shows "alt_match \<lparr>alt_segments = [selfToken], alt_prefix = True\<rparr> (Split q (CHR ''/'')) self
    \<longleftrightarrow> q = self \<or> HasPrefix q (self @ ''/'')"
  using assms by (subst alt_match_plain) (auto simp: resolved_segments_def take_Split_iff dest: glob_plain_Split)

lemma trim_by_Nil_iff: "trim_by P xs = [] \<longleftrightarrow> (\<forall>x \<in> set xs. P x)"
proof
  assume "trim_by P xs = []"
  then have "\<forall>x \<in> set (dropWhile P xs). P x" by (simp add: trim_by_def)
  then have "dropWhile P xs = []" by (metis hd_dropWhile hd_in_set)
  then show "\<forall>x \<in> set xs. P x" by simp
qed (auto simp: trim_by_def dest: set_dropWhileD)

lemma TrimSpace_visible:
  assumes "ascii s" "c \<in> set s" "\<not> IsSpace (of_char c)"
  shows "TrimSpace s \<noteq> []"
proof
  let ?f = "\<lambda>(r, _). IsSpace r" and ?xs = "map (\<lambda>c. (of_char c :: nat, [c])) s"
  assume "TrimSpace s = []"
  then have "\<forall>x \<in> set (trim_by ?f ?xs). snd x = []"
    by (auto simp: TrimSpace_def utf8_chunks_ascii [OF assms(1)])
  moreover have "\<forall>x \<in> set (trim_by ?f ?xs). snd x \<noteq> []" using set_trim_by [of ?f ?xs] by auto
  ultimately have "trim_by ?f ?xs = []" by (metis hd_in_set)
  then have "\<forall>x \<in> set ?xs. ?f x" by (simp only: trim_by_Nil_iff)
  with assms(2,3) show False by auto
qed

lemma butlast_last_snoc: "butlast (xs @ [x]) = xs" "last (xs @ [x]) = x"
  by simp_all

lemma list_ex_butlast_none: "\<forall>x \<in> set xs. \<not> P x \<Longrightarrow> \<not> list_ex P (butlast xs)"
  by (auto simp: list_ex_iff dest: in_set_butlastD)

lemma compile_subtree:
  assumes "plain_path p"
  shows "compile_candidate raw (p @ ''/...'') =
    Inr \<lparr>alt_segments = Split p (CHR ''/''), alt_prefix = True\<rparr>"
proof -
  let ?s = "Split p (CHR ''/'')"
  have sp: "Split (p @ ''/...'') (CHR ''/'') = ?s @ [''...'']"
    using Split_append [of p "CHR ''/''" "''...''"] by (simp add: Split_no_sep)
  have g: "\<And>s. s \<in> set ?s \<Longrightarrow> glob_plain s" using assms glob_plain_Split by (auto simp: plain_path_def)
  have ne: "\<And>s. s \<in> set ?s \<Longrightarrow> s \<noteq> [] \<and> s \<noteq> ''...''" using assms by (auto simp: plain_path_def)
  have f: "List.find (\<lambda>s. s = [] \<or> isl (path_match s [])) ?s = None"
    unfolding find_None_all using g ne by (auto simp: path_match_plain)
  show ?thesis
    unfolding compile_candidate_def sp butlast_last_snoc Let_def using f ne by (auto simp: list_ex_iff)
qed

lemma compile_exact:
  assumes "plain_path p"
  shows "compile_candidate raw p =
    Inr \<lparr>alt_segments = Split p (CHR ''/''), alt_prefix = False\<rparr>"
proof -
  let ?s = "Split p (CHR ''/'')"
  have g: "\<And>s. s \<in> set ?s \<Longrightarrow> glob_plain s" using assms glob_plain_Split by (auto simp: plain_path_def)
  have ne: "\<And>s. s \<in> set ?s \<Longrightarrow> s \<noteq> [] \<and> s \<noteq> ''...''" using assms by (auto simp: plain_path_def)
  have f: "List.find (\<lambda>s. s = [] \<or> isl (path_match s [])) ?s = None"
    unfolding find_None_all using g ne by (auto simp: path_match_plain)
  have "last ?s \<noteq> ''...''" using ne [of "last ?s"] by simp
  then show ?thesis
    unfolding compile_candidate_def Let_def using f ne
    by (simp add: list_ex_butlast_none)
qed

lemma CompilePattern_single:
  assumes "ascii raw" "CHR ''.'' \<in> set raw \<or> (\<exists>c \<in> set raw. \<not> IsSpace (of_char c))"
    "CHR ''{'' \<notin> set raw" "CHR ''}'' \<notin> set raw" "compile_candidate raw raw = Inr a"
  shows "CompilePattern raw = Inr \<lparr>pat_raw = raw, pat_alternatives = [a]\<rparr>"
proof -
  have "TrimSpace raw \<noteq> []"
    using assms(1,2) TrimSpace_visible by (auto simp: IsSpace_def)
  then show ?thesis by (simp add: CompilePattern_def expandBraces_plain assms(3-5))
qed

lemma resolved_plain:
  "plain_path p \<Longrightarrow> resolved_segments \<lparr>alt_segments = Split p (CHR ''/''), alt_prefix = b\<rparr> self = Split p (CHR ''/'')"
  using Split_not_Nil [of p "CHR ''/''"]
  by (auto simp: resolved_segments_def plain_path_def dest: hd_in_set)

lemma plain_alt_match:
  assumes "plain_path p"
  shows "alt_match \<lparr>alt_segments = Split p (CHR ''/''), alt_prefix = b\<rparr> (Split q (CHR ''/'')) self \<longleftrightarrow>
     q = p \<or> b \<and> HasPrefix q (p @ ''/'')"
proof -
  have hd: "hd (Split p (CHR ''/'')) \<noteq> selfToken"
    using assms Split_not_Nil [of p "CHR ''/''"] by (auto simp: plain_path_def dest: hd_in_set)
  have g: "\<forall>s \<in> set (Split p (CHR ''/'')). glob_plain s"
    using assms glob_plain_Split by (auto simp: plain_path_def)
  show ?thesis
    using hd g by (subst alt_match_plain) (auto simp: resolved_plain [OF assms] take_Split_iff Split_inj)
qed

text \<open>
  the documented reading of \<^verbatim>\<open>github.com/acme/thing/...\<close>. For a path without
  metacharacters the pattern with \<^verbatim>\<open>/...\<close> appended compiles, and matches that path and
  everything beneath it (at a slash boundary) and nothing else, whatever the module being
  scanned.
\<close>

theorem pattern_subtree:
  assumes "plain_path p"
  shows "\<exists>c. CompilePattern (p @ ''/...'') = Inr c \<and>
    (\<forall>q self. Match c q self \<longleftrightarrow> q = p \<or> HasPrefix q (p @ ''/''))"
proof -
  let ?a = "\<lparr>alt_segments = Split p (CHR ''/''), alt_prefix = True\<rparr>"
  have c: "CompilePattern (p @ ''/...'') = Inr \<lparr>pat_raw = p @ ''/...'', pat_alternatives = [?a]\<rparr>"
    using assms by (intro CompilePattern_single compile_subtree) (auto simp: plain_path_def ascii_def)
  have "Match \<lparr>pat_raw = p @ ''/...'', pat_alternatives = [?a]\<rparr> q self \<longleftrightarrow> q = p \<or> HasPrefix q (p @ ''/'')" for q self
  proof (cases "q = []")
    case True
    moreover have "p \<noteq> []" using assms by (simp add: plain_path_def)
    ultimately show ?thesis by (auto simp: Match_def HasPrefix_def)
  next
    case False
    then show ?thesis by (simp add: Match_def plain_alt_match [OF assms])
  qed
  with c show ?thesis by blast
qed

theorem pattern_subtree_witness:
  "plain_path ''github.com/acme/thing'' \<and>
   (\<exists>c. CompilePattern (''github.com/acme/thing'' @ ''/...'') = Inr c \<and>
      Match c ''github.com/acme/thing/sub'' [] \<and> \<not> Match c ''github.com/acme/thingy'' [])"
proof -
  have h: "plain_path ''github.com/acme/thing''"
    by (simp add: plain_path_def ascii_def glob_plain_def selfToken_def)
  from pattern_subtree [OF h] obtain c where
    c: "CompilePattern (''github.com/acme/thing'' @ ''/...'') = Inr c"
    and m: "\<forall>q self. Match c q self \<longleftrightarrow> q = ''github.com/acme/thing'' \<or> HasPrefix q (''github.com/acme/thing'' @ ''/'')"
    by blast
  have "Match c ''github.com/acme/thing/sub'' []" "\<not> Match c ''github.com/acme/thingy'' []"
    by (simp_all add: m HasPrefix_def)
  with h c show ?thesis by blast
qed

text \<open>
  a compiled pattern never errs at match time. Every alternative that compilation
  keeps is well formed: its segments are non-empty, hold no slash and no brace, none is
  \<^verbatim>\<open>...\<close>, and \<^verbatim>\<open>path.Match\<close> accepts each of them for every name, so the error branch of
  the match is never taken.
\<close>

theorem CompilePattern_no_match_error:
  assumes "CompilePattern raw = Inr p"
  shows "pat_raw p = raw \<and> pat_alternatives p \<noteq> [] \<and>
    (\<forall>a \<in> set (pat_alternatives p). \<forall>s \<in> set (alt_segments a).
       s \<noteq> [] \<and> s \<noteq> ''...'' \<and> CHR ''/'' \<notin> set s \<and> CHR ''{'' \<notin> set s \<and> (\<forall>part. \<not> isl (path_match s part)))"
  using CompilePattern_wf [OF assms] by (auto simp: wf_pattern_def wf_alternative_def)

theorem CompilePattern_no_match_error_witness:
  "\<exists>p. CompilePattern ''a'' = Inr p \<and> pat_raw p = ''a'' \<and> pat_alternatives p \<noteq> []"
proof -
  have "compile_candidate ''a'' ''a'' = Inr \<lparr>alt_segments = [''a''], alt_prefix = False\<rparr>"
    by (simp add: compile_candidate_def path_match_plain glob_plain_def)
  then have "CompilePattern ''a'' = Inr \<lparr>pat_raw = ''a'', pat_alternatives = [\<lparr>alt_segments = [''a''], alt_prefix = False\<rparr>]\<rparr>"
    by (intro CompilePattern_single) (simp_all add: ascii_def IsSpace_def)
  with CompilePattern_no_match_error show ?thesis by blast
qed

text \<open>
  \<^verbatim>\<open><self>/...\<close> covers the module being scanned and nothing else, and matches nothing
  when no module is given.
\<close>

theorem self_pattern_subtree:
  "\<exists>c. CompilePattern ''<self>/...'' = Inr c \<and> (\<forall>q. \<not> Match c q []) \<and>
     (\<forall>q self. glob_plain self \<and> self \<noteq> [] \<longrightarrow>
        (Match c q self \<longleftrightarrow> q = self \<or> HasPrefix q (self @ ''/'')))"
proof -
  let ?a = "\<lparr>alt_segments = [selfToken], alt_prefix = True\<rparr>"
  have "compile_candidate ''<self>/...'' ''<self>/...'' = Inr ?a"
    by (simp add: compile_candidate_def path_match_plain glob_plain_def selfToken_def)
  then have c: "CompilePattern ''<self>/...'' = Inr \<lparr>pat_raw = ''<self>/...'', pat_alternatives = [?a]\<rparr>"
    by (intro CompilePattern_single) (simp_all add: ascii_def)
  have "\<not> Match \<lparr>pat_raw = ''<self>/...'', pat_alternatives = [?a]\<rparr> q []" for q
    by (simp add: Match_def alt_match_def)
  moreover have "Match \<lparr>pat_raw = ''<self>/...'', pat_alternatives = [?a]\<rparr> q self \<longleftrightarrow>
      q = self \<or> HasPrefix q (self @ ''/'')" if "glob_plain self" "self \<noteq> []" for q self
    using self_subtree_alt [OF that(2,1)] that(2) by (cases "q = []") (auto simp: Match_def HasPrefix_def)
  ultimately show ?thesis using c by blast
qed

theorem self_pattern_subtree_witness:
  "\<exists>c. CompilePattern ''<self>/...'' = Inr c \<and> Match c ''a.b/m/x'' ''a.b/m''"
proof -
  obtain c where c: "CompilePattern ''<self>/...'' = Inr c"
    and m: "\<forall>q self. glob_plain self \<and> self \<noteq> [] \<longrightarrow> (Match c q self \<longleftrightarrow> q = self \<or> HasPrefix q (self @ ''/''))"
    using self_pattern_subtree by blast
  have "glob_plain ''a.b/m''" by (simp add: glob_plain_def)
  with m have "Match c ''a.b/m/x'' ''a.b/m''" by (simp add: HasPrefix_def)
  with c show ?thesis by blast
qed

text \<open>
  the coverage check is an approximation in both directions. Its comment says that it
  errs towards staying quiet; yet \<^verbatim>\<open>a.b/zz\<close> is reported to cover \<^verbatim>\<open>a.b/*\<close>, although the
  second matches \<^verbatim>\<open>a.b/c\<close> and the first does not: the filler used for a wildcard is itself a
  legal path segment.
\<close>

theorem Covers_overreports:
  "\<exists>p other. CompilePattern ''a.b/zz'' = Inr p \<and> CompilePattern ''a.b/*'' = Inr other \<and>
     Covers p other \<and> Match other ''a.b/c'' [] \<and> \<not> Match p ''a.b/c'' []"
proof -
  let ?p = "\<lparr>alt_segments = [''a.b'', ''zz''], alt_prefix = False\<rparr>"
  let ?o = "\<lparr>alt_segments = [''a.b'', ''*''], alt_prefix = False\<rparr>"
  have "compile_candidate ''a.b/zz'' ''a.b/zz'' = Inr ?p" "compile_candidate ''a.b/*'' ''a.b/*'' = Inr ?o"
    by (simp_all add: compile_candidate_def path_match_plain path_match_star glob_plain_def)
  then have c: "CompilePattern ''a.b/zz'' = Inr \<lparr>pat_raw = ''a.b/zz'', pat_alternatives = [?p]\<rparr>"
    "CompilePattern ''a.b/*'' = Inr \<lparr>pat_raw = ''a.b/*'', pat_alternatives = [?o]\<rparr>"
    by (auto intro!: CompilePattern_single simp: ascii_def)
  show ?thesis
    unfolding c by (simp add: Covers_def Match_def representative_def replace_byte_def coverageFiller_def
        alt_match_def resolved_segments_def selfToken_def path_match_plain path_match_star glob_plain_def)
qed

end
