(* ===== verification/Policy_Model.thy ===== *)
theory Policy_Model
  imports Policy_Pattern
begin

text \<open>
  The dependency policy and its classification (\<^verbatim>\<open>internal/policy/policy.go\<close> and
  \<^verbatim>\<open>classify.go\<close>): groups in declaration order, repository types with one allow list per
  scope, layer rules, the first-match classification of an import and the detection of a
  repository's type. The lemmas give classification and detection as \<^const>\<open>List.find\<close>.
\<close>

section \<open>The policy document, compiled\<close>

definition ScopeSource :: string where "ScopeSource = ''source''"
definition ScopeTests :: string where "ScopeTests = ''tests''"
definition ScopeMain :: string where "ScopeMain = ''main''"

definition Scopes :: "string list" where
  "Scopes = [ScopeSource, ScopeTests, ScopeMain]"

definition GroupStdlib :: string where "GroupStdlib = ''stdlib''"
definition GroupUnclassified :: string where "GroupUnclassified = ''unclassified''"

datatype mode = ModeEnforce | ModeReport

record group =
  group_name :: string
  group_patterns :: "pattern list"

record scope_rules =
  scope_allow :: "string list"

record repo_type =
  type_name :: string
  type_detect :: "pattern list"
  type_scopes :: "string \<rightharpoonup> scope_rules"

record role_rule =
  role_name :: string
  role_patterns :: "pattern list"

record forbid_edge =
  forbid_from :: string
  forbid_to :: string
  forbid_reason :: string

record layers =
  layers_mode :: mode
  layers_unknown_role :: string
  layers_roles :: "role_rule list"
  layers_order :: "string list list"
  layers_forbid :: "forbid_edge list"

record expectation =
  exp_import :: string
  exp_module :: string
  exp_group :: string
  exp_type :: string

record policy =
  policy_source :: string
  policy_groups :: "group list"
  policy_types :: "repo_type list"
  policy_layers :: layers
  policy_expectations :: "expectation list"

definition no_scope :: scope_rules where
  "no_scope = \<lparr>scope_allow = []\<rparr>"

definition Allows :: "scope_rules \<Rightarrow> string \<Rightarrow> bool" where
  "Allows s g = (if g = GroupStdlib then True else list_ex (\<lambda>allowed. allowed = g) (scope_allow s))"

text \<open>\<^verbatim>\<open>Policy.Type\<close>, \<^verbatim>\<open>TypeNames\<close>, \<^verbatim>\<open>HasGroup\<close>, \<^verbatim>\<open>GroupNames\<close>.\<close>

definition policy_type :: "policy \<Rightarrow> string \<Rightarrow> repo_type option" where
  "policy_type p name = List.find (\<lambda>t. type_name t = name) (policy_types p)"

definition TypeNames :: "policy \<Rightarrow> string list" where
  "TypeNames p = map type_name (policy_types p)"

definition HasGroup :: "group list \<Rightarrow> string \<Rightarrow> bool" where
  "HasGroup gs name = list_ex (\<lambda>g. group_name g = name) gs"

definition GroupNames :: "policy \<Rightarrow> string list" where
  "GroupNames p = map group_name (policy_groups p)"

text \<open>\<^verbatim>\<open>layerIndex\<close>: the depth of the first layer that names the role.\<close>

fun layer_index_from :: "nat \<Rightarrow> string list list \<Rightarrow> string \<Rightarrow> nat option" where
  "layer_index_from depth [] role = None"
| "layer_index_from depth (layer # order) role =
     (if list_ex (\<lambda>candidate. candidate = role) layer then Some depth
      else layer_index_from (Suc depth) order role)"

definition layerIndex :: "layers \<Rightarrow> string \<Rightarrow> nat option" where
  "layerIndex l role = layer_index_from 0 (layers_order l) role"

text \<open>\<^verbatim>\<open>describeOrder\<close>; the arrow is its three UTF-8 bytes.\<close>

definition describeOrder :: "layers \<Rightarrow> string" where
  "describeOrder l =
     Join (map (\<lambda>layer. Join layer ''/'') (layers_order l))
       [CHR '' '', CHR 0xE2, CHR 0x86, CHR 0x92, CHR '' '']"

definition ParseMode :: "string \<Rightarrow> (string, mode) result" where
  "ParseMode raw =
     (if raw = ''enforce'' then Inr ModeEnforce
      else if raw = ''report'' then Inr ModeReport
      else if raw = [] then Inr ModeEnforce
      else Inl raw)"

section \<open>Classification\<close>

record pattern_match =
  pm_group :: string
  pm_pattern :: string
  pm_number :: nat

record classification =
  cl_import :: string
  cl_group :: string
  cl_pattern :: string
  cl_number :: nat
  cl_also :: "pattern_match list"

record pattern_ref =
  ref_number :: nat
  ref_group :: string
  ref_pattern :: pattern

fun number_patterns :: "nat \<Rightarrow> (string \<times> pattern) list \<Rightarrow> pattern_ref list" where
  "number_patterns n [] = []"
| "number_patterns n ((g, p) # rest) =
     \<lparr>ref_number = Suc n, ref_group = g, ref_pattern = p\<rparr> # number_patterns (Suc n) rest"

definition flatPatterns :: "policy \<Rightarrow> pattern_ref list" where
  "flatPatterns p =
     number_patterns 0
       (concat (map (\<lambda>g. map (\<lambda>pat. (group_name g, pat)) (group_patterns g)) (policy_groups p)))"

definition IsStdlib :: "string \<Rightarrow> bool" where
  "IsStdlib importPath =
     (if importPath = [] then False
      else let first = (case IndexByte importPath (CHR ''/'') of None \<Rightarrow> importPath
                        | Some i \<Rightarrow> take i importPath)
        in \<not> Contains first ''.'')"

definition classify_step :: "string \<Rightarrow> string \<Rightarrow> classification \<Rightarrow> pattern_ref \<Rightarrow> classification" where
  "classify_step importPath self result r =
     (if \<not> Match (ref_pattern r) importPath self then result
      else if cl_group result = GroupUnclassified then
        result\<lparr>cl_group := ref_group r, cl_pattern := pat_raw (ref_pattern r), cl_number := ref_number r\<rparr>
      else if ref_group r = cl_group result then result
      else result\<lparr>cl_also := cl_also result @
             [\<lparr>pm_group = ref_group r, pm_pattern = pat_raw (ref_pattern r), pm_number = ref_number r\<rparr>]\<rparr>)"

definition Classify :: "policy \<Rightarrow> string \<Rightarrow> string \<Rightarrow> classification" where
  "Classify p importPath self =
     (if IsStdlib importPath then
        \<lparr>cl_import = importPath, cl_group = GroupStdlib, cl_pattern = [], cl_number = 0, cl_also = []\<rparr>
      else foldl (classify_step importPath self)
        \<lparr>cl_import = importPath, cl_group = GroupUnclassified, cl_pattern = [], cl_number = 0, cl_also = []\<rparr>
        (flatPatterns p))"

text \<open>\<^verbatim>\<open>Detect\<close>: the first type one of whose detect patterns matches the module path.\<close>

definition Detect :: "policy \<Rightarrow> string \<Rightarrow> string option" where
  "Detect p modulePath =
     map_option type_name
       (List.find (\<lambda>t. list_ex (\<lambda>pat. Match pat modulePath modulePath) (type_detect t)) (policy_types p))"

section \<open>First match wins\<close>

lemma policy_type_Some: "policy_type p name = Some t \<Longrightarrow> type_name t = name \<and> t \<in> set (policy_types p)"
  by (auto simp: policy_type_def find_Some_split)

lemma Detect_type: "Detect p m = Some name \<Longrightarrow> \<exists>t. policy_type p name = Some t"
proof -
  assume "Detect p m = Some name"
  then obtain t ys zs where t: "policy_types p = ys @ t # zs" "type_name t = name"
    by (auto simp: Detect_def find_Some_split)
  then have "List.find (\<lambda>t. type_name t = name) (policy_types p) \<noteq> None"
    by (simp add: find_None_all)
  then show ?thesis by (simp add: policy_type_def)
qed

lemma classify_steps_unmatched:
  "(\<forall>r \<in> set rs. \<not> Match (ref_pattern r) i s) \<Longrightarrow> foldl (classify_step i s) c rs = c"
  by (induction rs arbitrary: c) (auto simp: classify_step_def)

lemma classify_steps_settled:
  "cl_group c \<noteq> GroupUnclassified \<Longrightarrow>
     foldl (classify_step i s) c rs =
     c\<lparr>cl_also := cl_also c @
        map (\<lambda>r. \<lparr>pm_group = ref_group r, pm_pattern = pat_raw (ref_pattern r), pm_number = ref_number r\<rparr>)
          (filter (\<lambda>r. Match (ref_pattern r) i s \<and> ref_group r \<noteq> cl_group c) rs)\<rparr>"
proof (induction rs arbitrary: c)
  case (Cons r rs)
  show ?case
  proof (cases "Match (ref_pattern r) i s \<and> ref_group r \<noteq> cl_group c")
    case True
    with Cons show ?thesis by (simp add: classify_step_def)
  next
    case False
    then have "classify_step i s c r = c" using Cons.prems by (auto simp: classify_step_def)
    with Cons False show ?thesis by simp
  qed
qed simp

lemma flat_group_declared: "r \<in> set (flatPatterns p) \<Longrightarrow> ref_group r \<in> set (GroupNames p)"
proof -
  have "r \<in> set (number_patterns n xs) \<Longrightarrow> \<exists>pat. (ref_group r, pat) \<in> set xs" for n xs
    by (induction n xs rule: number_patterns.induct) auto
  then show "r \<in> set (flatPatterns p) \<Longrightarrow> ?thesis"
    by (fastforce simp: flatPatterns_def GroupNames_def)
qed

text \<open>A policy with no group named \<^verbatim>\<open>unclassified\<close> or \<^verbatim>\<open>stdlib\<close>, as loading ensures.\<close>

definition reserved_free :: "policy \<Rightarrow> bool" where
  "reserved_free p \<longleftrightarrow> GroupUnclassified \<notin> set (GroupNames p) \<and> GroupStdlib \<notin> set (GroupNames p)"

lemma Classify_first:
  assumes "reserved_free p" "\<not> IsStdlib i" "flatPatterns p = pre @ r # post"
    "\<forall>q \<in> set pre. \<not> Match (ref_pattern q) i s" "Match (ref_pattern r) i s"
  shows "Classify p i s =
    \<lparr>cl_import = i, cl_group = ref_group r, cl_pattern = pat_raw (ref_pattern r), cl_number = ref_number r,
     cl_also = map (\<lambda>q. \<lparr>pm_group = ref_group q, pm_pattern = pat_raw (ref_pattern q), pm_number = ref_number q\<rparr>)
       (filter (\<lambda>q. Match (ref_pattern q) i s \<and> ref_group q \<noteq> ref_group r) post)\<rparr>"
proof -
  have "ref_group r \<in> set (GroupNames p)" using flat_group_declared assms(3) by simp
  then have ne: "ref_group r \<noteq> GroupUnclassified" using assms(1) by (auto simp: reserved_free_def)
  show ?thesis
    using assms(2,4,5) ne
    by (simp add: Classify_def assms(3) classify_steps_unmatched classify_step_def classify_steps_settled)
qed

lemma Classify_group_cases:
  assumes "reserved_free p"
  shows "cl_group (Classify p i s) =
    (if IsStdlib i then GroupStdlib
     else case List.find (\<lambda>r. Match (ref_pattern r) i s) (flatPatterns p) of
            None \<Rightarrow> GroupUnclassified | Some r \<Rightarrow> ref_group r)"
proof (cases "List.find (\<lambda>r. Match (ref_pattern r) i s) (flatPatterns p)")
  case None
  then have "\<forall>r \<in> set (flatPatterns p). \<not> Match (ref_pattern r) i s" by (simp add: find_None_all)
  with None show ?thesis by (simp add: Classify_def classify_steps_unmatched)
next
  case (Some r)
  then obtain pre post where "flatPatterns p = pre @ r # post" "Match (ref_pattern r) i s"
    "\<forall>q \<in> set pre. \<not> Match (ref_pattern q) i s"
    by (auto simp: find_Some_split)
  with assms Some show ?thesis
    by (cases "IsStdlib i") (simp add: Classify_def, simp add: Classify_first)
qed

text \<open>
  classification is first match wins. An import outside the standard library is given
  the group, the text and the number of the first pattern, in declaration order across the
  whole policy, that matches it; the patterns reported as shadowed are exactly the later
  ones that match too and belong to another group, in order. An import no pattern matches
  is unclassified.
\<close>

theorem Classify_first_match:
  assumes "reserved_free p" "\<not> IsStdlib i"
  shows "case List.find (\<lambda>r. Match (ref_pattern r) i s) (flatPatterns p) of
      None \<Rightarrow> cl_group (Classify p i s) = GroupUnclassified \<and> cl_also (Classify p i s) = []
    | Some r \<Rightarrow> cl_group (Classify p i s) = ref_group r \<and>
        cl_pattern (Classify p i s) = pat_raw (ref_pattern r) \<and>
        cl_number (Classify p i s) = ref_number r \<and>
        map pm_number (cl_also (Classify p i s)) =
          map ref_number (filter (\<lambda>q. Match (ref_pattern q) i s \<and> ref_group q \<noteq> ref_group r)
            (tl (dropWhile (\<lambda>q. \<not> Match (ref_pattern q) i s) (flatPatterns p))))"
proof (cases "List.find (\<lambda>r. Match (ref_pattern r) i s) (flatPatterns p)")
  case None
  then have "\<forall>r \<in> set (flatPatterns p). \<not> Match (ref_pattern r) i s" by (simp add: find_None_all)
  with None assms(2) show ?thesis by (simp add: Classify_def classify_steps_unmatched)
next
  case (Some r)
  then obtain pre post where f: "flatPatterns p = pre @ r # post" "Match (ref_pattern r) i s"
    "\<forall>q \<in> set pre. \<not> Match (ref_pattern q) i s"
    by (auto simp: find_Some_split)
  then have "dropWhile (\<lambda>q. \<not> Match (ref_pattern q) i s) (flatPatterns p) = r # post"
    by (simp add: dropWhile_append3)
  then show ?thesis using Some Classify_first [OF assms f(1,3,2)] by (simp add: comp_def)
qed

definition catch_all :: pattern where
  "catch_all = \<lparr>pat_raw = ''...'', pat_alternatives = [\<lparr>alt_segments = [], alt_prefix = True\<rparr>]\<rparr>"

lemma Match_catch_all: "Match catch_all i s \<longleftrightarrow> i \<noteq> []"
  by (simp add: catch_all_def Match_def alt_match_def resolved_segments_def)

definition sample_policy :: policy where
  "sample_policy =
     \<lparr>policy_source = ''p.yaml'',
      policy_groups = [\<lparr>group_name = ''all'', group_patterns = [catch_all]\<rparr>],
      policy_types = [\<lparr>type_name = ''any'', type_detect = [catch_all],
        type_scopes = [ScopeSource \<mapsto> \<lparr>scope_allow = []\<rparr>, ScopeTests \<mapsto> \<lparr>scope_allow = [''all'']\<rparr>,
                       ScopeMain \<mapsto> \<lparr>scope_allow = []\<rparr>]\<rparr>],
      policy_layers = \<lparr>layers_mode = ModeReport, layers_unknown_role = ''ignore'', layers_roles = [],
        layers_order = [], layers_forbid = []\<rparr>,
      policy_expectations = []\<rparr>"

lemma sample_policy_reserved_free: "reserved_free sample_policy"
  by (simp add: reserved_free_def sample_policy_def GroupNames_def GroupUnclassified_def GroupStdlib_def)

lemma sample_flat: "flatPatterns sample_policy =
    [\<lparr>ref_number = 1, ref_group = ''all'', ref_pattern = catch_all\<rparr>]"
  by (simp add: flatPatterns_def sample_policy_def)

theorem Classify_first_match_witness:
  "reserved_free sample_policy \<and> \<not> IsStdlib ''a.b/c'' \<and>
   cl_group (Classify sample_policy ''a.b/c'' []) = ''all'' \<and> cl_number (Classify sample_policy ''a.b/c'' []) = 1"
proof -
  have h: "\<not> IsStdlib ''a.b/c''" by (simp add: IsStdlib_def Contains_def HasPrefix_def)
  show ?thesis
    using Classify_first_match [OF sample_policy_reserved_free h, of "[]"] h sample_policy_reserved_free
    by (simp add: sample_flat Match_catch_all)
qed

end
