(* ===== verification/Policy_Check.thy ===== *)
theory Policy_Check
  imports Policy_Model
begin

text \<open>
  Checking a scanned module (\<^verbatim>\<open>internal/policy/check.go\<close>), explaining a verdict, running
  the policy's own expectations, describing the effective rules and strict mode
  (\<^verbatim>\<open>verbs.go\<close>). The lemmas relate the findings of a check to the classification, the allow
  lists and the layer order, and show that the three verbs agree with one another.
\<close>

section \<open>Modules and findings\<close>

record reference =
  rf_import :: string
  rf_file :: string
  rf_line :: int
  rf_package :: string
  rf_scope :: string
  rf_manifest :: bool

record module =
  mod_path :: string
  mod_dir :: string
  mod_references :: "reference list"
  mod_unparseable :: "string list"

datatype rule = RuleImport | RuleLayer | RuleRole

text \<open>The operands of each message, in place of the formatted text.\<close>

datatype message =
    MustNotImportGroup string string string
  | MatchesNoRole string
  | MustNotImportRole string string string
  | TravelsUp string string string

record finding =
  fd_rule :: rule
  fd_mode :: mode
  fd_file :: string
  fd_line :: int
  fd_package :: string
  fd_scope :: string
  fd_import :: string
  fd_manifest :: bool
  fd_group :: string
  fd_from_role :: string
  fd_to_role :: string
  fd_message :: message
  fd_fix :: string

record check_result =
  res_module :: module
  res_policy :: policy
  res_type :: string
  res_type_detected :: bool
  res_findings :: "finding list"

datatype policy_error =
    TypeNotDeclared string
  | NothingDetects string

definition Blocking :: "check_result \<Rightarrow> nat" where
  "Blocking r = length (filter (\<lambda>f. fd_mode f = ModeEnforce) (res_findings r))"

definition Reported :: "check_result \<Rightarrow> nat" where
  "Reported r = length (res_findings r) - Blocking r"

section \<open>Layers\<close>

definition first_segment :: "string \<Rightarrow> string" where
  "first_segment dir = (case IndexByte dir (CHR ''/'') of None \<Rightarrow> dir | Some i \<Rightarrow> take i dir)"

definition roleOf :: "layers \<Rightarrow> string \<Rightarrow> string option" where
  "roleOf l packageDir =
     (if packageDir = [] then None
      else map_option role_name
        (List.find (\<lambda>rule. list_ex (\<lambda>pat. Match pat (first_segment packageDir) []) (role_patterns rule))
          (layers_roles l)))"

definition forbidden :: "layers \<Rightarrow> string \<Rightarrow> string \<Rightarrow> string option" where
  "forbidden l from to =
     map_option forbid_reason
       (List.find (\<lambda>edge. forbid_from edge = from \<and> forbid_to edge = to) (layers_forbid l))"

definition internalPackage :: "string \<Rightarrow> string \<Rightarrow> string option" where
  "internalPackage modulePath importPath =
     (if importPath = modulePath then Some []
      else if \<not> HasPrefix importPath (modulePath @ ''/'') then None
      else Some (TrimPrefix importPath (modulePath @ ''/'')))"

definition role_finding :: "layers \<Rightarrow> reference \<Rightarrow> string \<Rightarrow> finding" where
  "role_finding l r pkg =
     \<lparr>fd_rule = RuleRole, fd_mode = layers_mode l, fd_file = rf_file r, fd_line = rf_line r,
      fd_package = pkg, fd_scope = rf_scope r, fd_import = [], fd_manifest = False, fd_group = [],
      fd_from_role = [], fd_to_role = [], fd_message = MatchesNoRole pkg, fd_fix = []\<rparr>"

definition layer_finding :: "layers \<Rightarrow> reference \<Rightarrow> string \<Rightarrow> string \<Rightarrow> message \<Rightarrow> finding" where
  "layer_finding l r from to msg =
     \<lparr>fd_rule = RuleLayer, fd_mode = layers_mode l, fd_file = rf_file r, fd_line = rf_line r,
      fd_package = rf_package r, fd_scope = rf_scope r, fd_import = rf_import r, fd_manifest = False,
      fd_group = [], fd_from_role = from, fd_to_role = to, fd_message = msg, fd_fix = []\<rparr>"

text \<open>
  The packages without a role one reference reports. The source ranges over a map literal
  with the two packages as keys, whose order Go leaves open: \<open>swap\<close> is that order.
\<close>

fun roleless_step :: "layers \<Rightarrow> reference \<Rightarrow> string list \<times> finding list \<Rightarrow> string \<times> bool \<Rightarrow> string list \<times> finding list" where
  "roleless_step l r (reported, out) (pkg, known) =
     (if known \<or> pkg = [] \<or> pkg \<in> set reported then (reported, out)
      else (pkg # reported, out @ [role_finding l r pkg]))"

definition package_entries :: "bool \<Rightarrow> string \<times> bool \<Rightarrow> string \<times> bool \<Rightarrow> (string \<times> bool) list" where
  "package_entries swap a b = (if fst a = fst b then [b] else if swap then [b, a] else [a, b])"

text \<open>The direction rule for one reference between two packages with known, distinct roles.\<close>

definition direction_finding :: "layers \<Rightarrow> reference \<Rightarrow> string \<Rightarrow> string \<Rightarrow> finding list" where
  "direction_finding l r from to =
     (case forbidden l from to of
        Some reason \<Rightarrow> [layer_finding l r from to (MustNotImportRole from to reason)]
      | None \<Rightarrow>
          let fromDepth = (case layerIndex l from of None \<Rightarrow> 0 | Some d \<Rightarrow> d) in
          (case layerIndex l to of
             None \<Rightarrow> []
           | Some toDepth \<Rightarrow>
               if toDepth \<ge> fromDepth then []
               else [layer_finding l r from to (TravelsUp from to (describeOrder l))]))"

definition reference_direction :: "layers \<Rightarrow> string \<Rightarrow> reference \<Rightarrow> finding list" where
  "reference_direction l modulePath r =
     (if rf_manifest r then []
      else (case internalPackage modulePath (rf_import r) of
              None \<Rightarrow> []
            | Some target \<Rightarrow>
                (case (roleOf l (rf_package r), roleOf l target) of
                   (Some from, Some to) \<Rightarrow> if from = to then [] else direction_finding l r from to
                 | _ \<Rightarrow> [])))"

definition reference_roleless ::
  "layers \<Rightarrow> string \<Rightarrow> bool \<Rightarrow> string list \<Rightarrow> reference \<Rightarrow> string list \<times> finding list" where
  "reference_roleless l modulePath swap reported r =
     (if rf_manifest r then (reported, [])
      else (case internalPackage modulePath (rf_import r) of
              None \<Rightarrow> (reported, [])
            | Some target \<Rightarrow>
                if layers_unknown_role l = ''error'' then
                  foldl (roleless_step l r) (reported, [])
                    (package_entries swap
                       (rf_package r, roleOf l (rf_package r) \<noteq> None) (target, roleOf l target \<noteq> None))
                else (reported, [])))"

fun layer_loop :: "layers \<Rightarrow> string \<Rightarrow> (nat \<Rightarrow> bool) \<Rightarrow> nat \<Rightarrow> string list \<Rightarrow> reference list \<Rightarrow> finding list" where
  "layer_loop l m swap n reported [] = []"
| "layer_loop l m swap n reported (r # rs) =
     (let (reported', roleless) = reference_roleless l m (swap n) reported r
      in roleless @ reference_direction l m r @ layer_loop l m swap (Suc n) reported' rs)"

definition layerFindings :: "policy \<Rightarrow> module \<Rightarrow> (nat \<Rightarrow> bool) \<Rightarrow> finding list" where
  "layerFindings p m swap =
     (if layers_order (policy_layers p) = [] then []
      else layer_loop (policy_layers p) (mod_path m) swap 0 [] (mod_references m))"

section \<open>Check\<close>

definition describeGroup :: "string \<Rightarrow> string" where
  "describeGroup g =
     (if g = GroupUnclassified then ''a dependency no group in the policy classifies'' else g)"

text \<open>The allow list of a scope; a scope the type does not name is the zero value.\<close>

definition scope_of :: "repo_type \<Rightarrow> string \<Rightarrow> scope_rules" where
  "scope_of t s = map_get (type_scopes t) no_scope s"

fun contract_fix :: "group list \<Rightarrow> string list \<Rightarrow> string option" where
  "contract_fix gs [] = None"
| "contract_fix gs (candidate # rest) =
     (if \<not> Contains candidate ''contract'' then contract_fix gs rest
      else (case List.find (\<lambda>g. group_name g = candidate \<and> group_patterns g \<noteq> []) gs of
              None \<Rightarrow> contract_fix gs rest
            | Some g \<Rightarrow> Some (''import '' @ pat_raw (hd (group_patterns g)) @ '' instead'')))"

definition suggestFix :: "policy \<Rightarrow> repo_type \<Rightarrow> string \<Rightarrow> string \<Rightarrow> string" where
  "suggestFix p t scope g =
     (if g = GroupUnclassified then ''classify it in the policy, or remove the dependency''
      else let allowed = scope_allow (scope_of t scope) in
        if allowed = [] then []
        else (case contract_fix (policy_groups p) allowed of
                Some fix \<Rightarrow> fix
              | None \<Rightarrow> ''permitted here: '' @ Join allowed '', ''))"

definition import_finding :: "policy \<Rightarrow> repo_type \<Rightarrow> string \<Rightarrow> string \<Rightarrow> reference \<Rightarrow> finding list" where
  "import_finding p t tn modulePath r =
     (let c = Classify p (rf_import r) modulePath in
      if cl_group c = GroupStdlib then []
      else if Allows (scope_of t (rf_scope r)) (cl_group c) then []
      else [\<lparr>fd_rule = RuleImport, fd_mode = ModeEnforce, fd_file = rf_file r, fd_line = rf_line r,
             fd_package = rf_package r, fd_scope = rf_scope r, fd_import = rf_import r,
             fd_manifest = rf_manifest r, fd_group = cl_group c, fd_from_role = [], fd_to_role = [],
             fd_message = MustNotImportGroup tn (describeGroup (cl_group c)) (rf_scope r),
             fd_fix = suggestFix p t (rf_scope r) (cl_group c)\<rparr>])"

definition finding_key :: "finding \<Rightarrow> bool \<times> string \<times> int" where
  "finding_key f = (fd_mode f \<noteq> ModeEnforce, fd_file f, fd_line f)"

text \<open>The choice of the repository type, shared by the verbs: a declared type must exist.\<close>

definition choose_type :: "policy \<Rightarrow> string \<Rightarrow> string \<Rightarrow> (policy_error, string \<times> bool) result" where
  "choose_type p modulePath declaredType =
     (if declaredType \<noteq> [] then
        (case policy_type p declaredType of
           None \<Rightarrow> Inl (TypeNotDeclared declaredType)
         | Some _ \<Rightarrow> Inr (declaredType, False))
      else (case Detect p modulePath of
              None \<Rightarrow> Inl (NothingDetects modulePath)
            | Some t \<Rightarrow> Inr (t, True)))"

definition no_type :: repo_type where
  "no_type = \<lparr>type_name = [], type_detect = [], type_scopes = Map.empty\<rparr>"

definition type_or_zero :: "policy \<Rightarrow> string \<Rightarrow> repo_type" where
  "type_or_zero p name = (case policy_type p name of None \<Rightarrow> no_type | Some t \<Rightarrow> t)"

definition Check :: "policy \<Rightarrow> module \<Rightarrow> string \<Rightarrow> (nat \<Rightarrow> bool) \<Rightarrow> (policy_error, check_result) result" where
  "Check p m declaredType swap =
     (case choose_type p (mod_path m) declaredType of
        Inl e \<Rightarrow> Inl e
      | Inr (tn, detected) \<Rightarrow>
          Inr \<lparr>res_module = m, res_policy = p, res_type = tn, res_type_detected = detected,
               res_findings = sort_key finding_key
                 (concat (map (import_finding p (type_or_zero p tn) tn (mod_path m)) (mod_references m))
                  @ layerFindings p m swap)\<rparr>)"

section \<open>Explain, expectations, describe, strict\<close>

record scope_verdict =
  sv_scope :: string
  sv_allowed :: bool
  sv_allow :: "string list"

record explanation =
  ex_import :: string
  ex_module :: string
  ex_repo_type :: string
  ex_type_detected :: bool
  ex_classification :: classification
  ex_scopes :: "scope_verdict list"

definition Explain :: "policy \<Rightarrow> string \<Rightarrow> string \<Rightarrow> string \<Rightarrow> (policy_error, explanation) result" where
  "Explain p modulePath declaredType importPath =
     (case choose_type p modulePath declaredType of
        Inl e \<Rightarrow> Inl e
      | Inr (tn, detected) \<Rightarrow>
          let c = Classify p importPath modulePath in
          Inr \<lparr>ex_import = importPath, ex_module = modulePath, ex_repo_type = tn,
               ex_type_detected = detected, ex_classification = c,
               ex_scopes = map (\<lambda>s. let declared = scope_of (type_or_zero p tn) s in
                 \<lparr>sv_scope = s, sv_allowed = Allows declared (cl_group c), sv_allow = scope_allow declared\<rparr>) Scopes\<rparr>)"

record expectation_result =
  er_expectation :: expectation
  er_subject :: string
  er_want :: string
  er_got :: string
  er_passed :: bool
  er_err :: "policy_error option"

definition run_expectation :: "policy \<Rightarrow> expectation \<Rightarrow> expectation_result" where
  "run_expectation p e =
     (if exp_import e \<noteq> [] then
        let got = cl_group (Classify p (exp_import e) []) in
        \<lparr>er_expectation = e, er_subject = exp_import e, er_want = exp_group e, er_got = got,
         er_passed = (got = exp_group e), er_err = None\<rparr>
      else (case Detect p (exp_module e) of
              None \<Rightarrow> \<lparr>er_expectation = e, er_subject = exp_module e, er_want = exp_type e, er_got = [],
                       er_passed = False, er_err = Some (NothingDetects (exp_module e))\<rparr>
            | Some t \<Rightarrow> \<lparr>er_expectation = e, er_subject = exp_module e, er_want = exp_type e, er_got = t,
                         er_passed = (t = exp_type e), er_err = None\<rparr>))"

definition RunExpectations :: "policy \<Rightarrow> expectation_result list" where
  "RunExpectations p = map (run_expectation p) (policy_expectations p)"

record effective =
  ef_policy_source :: string
  ef_module :: string
  ef_repo_type :: string
  ef_type_detected :: bool
  ef_config_path :: string
  ef_strict :: bool
  ef_scopes :: "scope_verdict list"
  ef_layer_mode :: mode
  ef_layer_order :: string
  ef_layer_forbid :: "forbid_edge list"

definition Describe ::
  "policy \<Rightarrow> string \<Rightarrow> string \<Rightarrow> string \<Rightarrow> bool \<Rightarrow> (policy_error, effective) result" where
  "Describe p modulePath declaredType configPath strict =
     (case choose_type p modulePath declaredType of
        Inl e \<Rightarrow> Inl e
      | Inr (tn, detected) \<Rightarrow>
          Inr \<lparr>ef_policy_source = policy_source p, ef_module = modulePath, ef_repo_type = tn,
               ef_type_detected = detected, ef_config_path = configPath, ef_strict = strict,
               ef_scopes = map (\<lambda>s. \<lparr>sv_scope = s, sv_allowed = True,
                 sv_allow = sort (scope_allow (scope_of (type_or_zero p tn) s))\<rparr>) Scopes,
               ef_layer_mode = (if strict then ModeEnforce else layers_mode (policy_layers p)),
               ef_layer_order = describeOrder (policy_layers p),
               ef_layer_forbid = layers_forbid (policy_layers p)\<rparr>)"

definition ApplyStrict :: "check_result \<Rightarrow> check_result" where
  "ApplyStrict r = r\<lparr>res_findings := map (\<lambda>f. f\<lparr>fd_mode := ModeEnforce\<rparr>) (res_findings r)\<rparr>"

section \<open>Import findings\<close>

definition permitted :: "policy \<Rightarrow> string \<Rightarrow> string \<Rightarrow> reference \<Rightarrow> bool" where
  "permitted p tn modulePath r \<longleftrightarrow>
     Allows (scope_of (type_or_zero p tn) (rf_scope r)) (cl_group (Classify p (rf_import r) modulePath))"

lemma Allows_stdlib [simp]: "Allows s GroupStdlib"
  by (simp add: Allows_def)

lemma import_finding_iff:
  "import_finding p (type_or_zero p tn) tn m r = [] \<longleftrightarrow> permitted p tn m r"
  by (auto simp: import_finding_def permitted_def Let_def)

lemma import_finding_props:
  "f \<in> set (import_finding p t tn m r) \<Longrightarrow>
     fd_rule f = RuleImport \<and> fd_mode f = ModeEnforce \<and> fd_import f = rf_import r \<and>
     fd_scope f = rf_scope r \<and> fd_file f = rf_file r \<and> fd_line f = rf_line r"
  by (auto simp: import_finding_def Let_def split: if_splits)

lemma import_finding_length: "length (import_finding p t tn m r) \<le> 1"
  by (simp add: import_finding_def Let_def)

lemma Check_Inr:
  "Check p m d swap = Inr r \<longleftrightarrow>
     (\<exists>tn det. choose_type p (mod_path m) d = Inr (tn, det) \<and>
        r = \<lparr>res_module = m, res_policy = p, res_type = tn, res_type_detected = det,
             res_findings = sort_key finding_key
               (concat (map (import_finding p (type_or_zero p tn) tn (mod_path m)) (mod_references m))
                @ layerFindings p m swap)\<rparr>)"
  by (auto simp: Check_def split: sum.splits)

lemma Check_ok_iff: "is_ok (Check p m d swap) \<longleftrightarrow> is_ok (choose_type p (mod_path m) d)"
  by (auto simp: Check_def split: sum.splits)

lemma roleless_step_rule:
  "snd (foldl (roleless_step l r) (rep, out) es) = out @ snd (foldl (roleless_step l r) (rep, []) es)"
proof (induction es arbitrary: rep out)
  case (Cons e es)
  obtain pkg known where e: "e = (pkg, known)" by (cases e)
  show ?case
  proof (cases "known \<or> pkg = [] \<or> pkg \<in> set rep")
    case True
    then have st: "\<And>out. roleless_step l r (rep, out) e = (rep, out)" by (simp add: e)
    show ?thesis using Cons.IH [of rep out] by (simp add: st)
  next
    case False
    then show ?thesis
      using Cons.IH [of "pkg # rep" "out @ [role_finding l r pkg]"] Cons.IH [of "pkg # rep" "[role_finding l r pkg]"]
      by (simp add: e)
  qed
qed simp

lemma roleless_rule:
  "f \<in> set (snd (foldl (roleless_step l r) (rep, []) es)) \<Longrightarrow> fd_rule f = RuleRole \<and> fd_mode f = layers_mode l"
proof (induction es arbitrary: rep)
  case (Cons e es)
  obtain pkg known where e: "e = (pkg, known)" by (cases e)
  from Cons.prems have "f = role_finding l r pkg \<or> (\<exists>rep. f \<in> set (snd (foldl (roleless_step l r) (rep, []) es)))"
    using roleless_step_rule [of l r "pkg # rep" "[role_finding l r pkg]" es]
    by (auto simp: e split: if_splits)
  with Cons.IH show ?case by (auto simp: role_finding_def)
qed simp

lemma reference_roleless_rule:
  "f \<in> set (snd (reference_roleless l m sw rep r)) \<Longrightarrow> fd_rule f = RuleRole \<and> fd_mode f = layers_mode l"
  by (auto simp: reference_roleless_def dest: roleless_rule split: if_splits option.splits)

lemma reference_direction_rule:
  "f \<in> set (reference_direction l m r) \<Longrightarrow> fd_rule f = RuleLayer \<and> fd_mode f = layers_mode l"
  by (auto simp: reference_direction_def direction_finding_def layer_finding_def Let_def
      split: if_splits option.splits)

lemma layer_loop_rule:
  "f \<in> set (layer_loop l m swap n rep rs) \<Longrightarrow> fd_rule f \<noteq> RuleImport \<and> fd_mode f = layers_mode l"
proof (induction rs arbitrary: n rep)
  case (Cons r rs)
  from Cons.prems consider "f \<in> set (snd (reference_roleless l m (swap n) rep r))"
    | "f \<in> set (reference_direction l m r)"
    | rep' where "f \<in> set (layer_loop l m swap (Suc n) rep' rs)"
    by (auto simp: case_prod_beta)
  then show ?case
    using Cons.IH by cases (auto dest: reference_roleless_rule reference_direction_rule)
qed simp

lemma layerFindings_rule:
  "f \<in> set (layerFindings p m swap) \<Longrightarrow> fd_rule f \<noteq> RuleImport \<and> fd_mode f = layers_mode (policy_layers p)"
  by (auto simp: layerFindings_def dest: layer_loop_rule split: if_splits)

definition finding_place :: "finding \<Rightarrow> string \<times> string \<times> string \<times> int" where
  "finding_place f = (fd_import f, fd_scope f, fd_file f, fd_line f)"

definition reference_place :: "reference \<Rightarrow> string \<times> string \<times> string \<times> int" where
  "reference_place r = (rf_import r, rf_scope r, rf_file r, rf_line r)"

lemma import_findings_mset:
  "image_mset finding_place (mset (concat (map (import_finding p (type_or_zero p tn) tn m) rs))) =
   image_mset reference_place (filter_mset (\<lambda>r. \<not> permitted p tn m r) (mset rs))"
proof (induction rs)
  case (Cons r rs)
  have "image_mset finding_place (mset (import_finding p (type_or_zero p tn) tn m r)) =
    (if permitted p tn m r then {#} else {#reference_place r#})"
  proof (cases "permitted p tn m r")
    case False
    then obtain f where f: "import_finding p (type_or_zero p tn) tn m r = [f]"
      using import_finding_length [of p "type_or_zero p tn" tn m r] import_finding_iff [of p tn m r]
      by (cases "import_finding p (type_or_zero p tn) tn m r") auto
    then have "finding_place f = reference_place r"
      using import_finding_props [of f p "type_or_zero p tn" tn m r]
      by (simp add: finding_place_def reference_place_def)
    with f False show ?thesis by simp
  qed (use import_finding_iff in auto)
  with Cons show ?case by simp
qed simp

text \<open>
  C5: the import rule is exact. A successful check reports one import finding for every
  reference whose group the allow list of its scope does not permit, at that reference's
  file and line, and no other import finding; all of them block.
\<close>

theorem Check_import_exact:
  assumes "Check p m d swap = Inr r"
  shows "image_mset finding_place (filter_mset (\<lambda>f. fd_rule f = RuleImport) (mset (res_findings r))) =
      image_mset reference_place
        (filter_mset (\<lambda>x. \<not> permitted p (res_type r) (mod_path m) x) (mset (mod_references m)))
    \<and> (\<forall>f \<in> set (res_findings r). fd_rule f = RuleImport \<longrightarrow> fd_mode f = ModeEnforce)"
proof -
  from assms obtain tn det where r: "r = \<lparr>res_module = m, res_policy = p, res_type = tn, res_type_detected = det,
      res_findings = sort_key finding_key
        (concat (map (import_finding p (type_or_zero p tn) tn (mod_path m)) (mod_references m))
         @ layerFindings p m swap)\<rparr>" by (auto simp: Check_Inr)
  let ?imp = "concat (map (import_finding p (type_or_zero p tn) tn (mod_path m)) (mod_references m))"
  have i: "\<forall>f \<in> set ?imp. fd_rule f = RuleImport \<and> fd_mode f = ModeEnforce"
    by (auto dest: import_finding_props)
  have l: "\<forall>f \<in> set (layerFindings p m swap). fd_rule f \<noteq> RuleImport"
    using layerFindings_rule by blast
  have "filter_mset (\<lambda>f. fd_rule f = RuleImport) (mset (res_findings r)) = mset ?imp"
  proof -
    have "filter (\<lambda>f. fd_rule f = RuleImport) (?imp @ layerFindings p m swap) = ?imp"
      using i l by (simp add: filter_id_conv filter_empty_conv)
    then show ?thesis by (metis (no_types, lifting) check_result.select_convs(5) mset_filter mset_sort r)
  qed
  then show ?thesis
    using i l import_findings_mset [of p tn "mod_path m" "mod_references m"] by (auto simp: r)
qed

section \<open>Strict mode, order\<close>

lemma Blocking_mset: "Blocking r = size (filter_mset (\<lambda>f. fd_mode f = ModeEnforce) (mset (res_findings r)))"
  by (metis Blocking_def mset_filter size_mset)

lemma Blocking_le: "Blocking r \<le> length (res_findings r)"
  by (simp add: Blocking_def)

text \<open>
  strict mode only tightens. It turns every finding into a blocking one and changes
  nothing else, so nothing is merely reported any more and a check that failed still fails.
\<close>

theorem ApplyStrict_tightens:
  "Blocking (ApplyStrict r) = Blocking r + Reported r \<and> Reported (ApplyStrict r) = 0 \<and>
   Blocking r \<le> Blocking (ApplyStrict r) \<and>
   map (fd_mode_update (\<lambda>_. ModeEnforce)) (res_findings r) = res_findings (ApplyStrict r) \<and>
   ApplyStrict (ApplyStrict r) = ApplyStrict r"
proof -
  have b: "Blocking (ApplyStrict r) = length (res_findings r)"
    by (simp add: Blocking_def ApplyStrict_def filter_map comp_def)
  then show ?thesis
    using Blocking_le [of r] by (auto simp: Reported_def ApplyStrict_def comp_def)
qed

section \<open>Fail closed\<close>

text \<open>
  What loading a policy document guarantees: reserved names are not declared, every type
  rules all three scopes, and an allow list names declared groups only.
\<close>

definition wf_policy :: "policy \<Rightarrow> bool" where
  "wf_policy p \<longleftrightarrow>
     reserved_free p \<and> policy_groups p \<noteq> [] \<and> policy_types p \<noteq> [] \<and>
     distinct (GroupNames p) \<and> distinct (TypeNames p) \<and>
     (\<forall>t \<in> set (policy_types p). type_detect t \<noteq> [] \<and> dom (type_scopes t) = set Scopes \<and>
        (\<forall>s sc. type_scopes t s = Some sc \<longrightarrow> set (scope_allow sc) \<subseteq> set (GroupNames p)))"

lemma wf_policy_unclassified_denied:
  assumes "wf_policy p"
  shows "\<not> Allows (scope_of (type_or_zero p tn) s) GroupUnclassified"
proof (cases "policy_type p tn")
  case None
  then show ?thesis
    by (simp add: type_or_zero_def no_type_def scope_of_def no_scope_def Allows_def GroupUnclassified_def GroupStdlib_def)
next
  case (Some t)
  then have t: "t \<in> set (policy_types p)" using policy_type_Some by blast
  show ?thesis
  proof (cases "type_scopes t s")
    case None
    with Some show ?thesis
      by (simp add: type_or_zero_def scope_of_def map_get_def no_scope_def Allows_def GroupUnclassified_def GroupStdlib_def)
  next
    case sc: (Some sc)
    then have "GroupUnclassified \<notin> set (scope_allow sc)"
      using assms t by (fastforce simp: wf_policy_def reserved_free_def)
    with Some sc show ?thesis
      by (auto simp: type_or_zero_def scope_of_def map_get_def Allows_def list_ex_iff GroupUnclassified_def GroupStdlib_def)
  qed
qed

text \<open>
  C11: the policy fails closed. With a loaded policy, every import outside the standard library that
  no declared pattern matches is unclassified, and a check of the module that holds it reports it:
  the report has a blocking finding of the import rule for this very import, at its file, line and
  scope, and such findings exist in the number in which the module holds the reference.
\<close>

theorem Check_fails_closed:
  assumes "wf_policy p" "Check p m d swap = Inr r" "x \<in> set (mod_references m)"
    "\<not> IsStdlib (rf_import x)"
    "\<forall>q \<in> set (flatPatterns p). \<not> Match (ref_pattern q) (rf_import x) (mod_path m)"
  shows "cl_group (Classify p (rf_import x) (mod_path m)) = GroupUnclassified \<and>
    (\<exists>f \<in> set (res_findings r). fd_rule f = RuleImport \<and> fd_mode f = ModeEnforce \<and> fd_import f = rf_import x \<and>
       fd_scope f = rf_scope x \<and> fd_file f = rf_file x \<and> fd_line f = rf_line x \<and> fd_group f = GroupUnclassified) \<and>
    count_list (mod_references m) x \<le> count_list (map finding_place (res_findings r)) (reference_place x) \<and> 0 < Blocking r"
proof -
  have g: "cl_group (Classify p (rf_import x) (mod_path m)) = GroupUnclassified"
    using assms(4,5) by (simp add: Classify_def classify_steps_unmatched)
  from assms(2) obtain tn det where r: "r = \<lparr>res_module = m, res_policy = p, res_type = tn, res_type_detected = det,
      res_findings = sort_key finding_key
        (concat (map (import_finding p (type_or_zero p tn) tn (mod_path m)) (mod_references m))
         @ layerFindings p m swap)\<rparr>" by (auto simp: Check_Inr)
  have "\<not> permitted p tn (mod_path m) x"
    using wf_policy_unclassified_denied [OF assms(1)] by (simp add: permitted_def g)
  then obtain f where f: "f \<in> set (import_finding p (type_or_zero p tn) tn (mod_path m) x)"
    using import_finding_iff [of p tn "mod_path m" x] by (meson list.set_sel(1))
  have "fd_group f = GroupUnclassified" using f g by (auto simp: import_finding_def Let_def split: if_splits)
  moreover have "f \<in> set (res_findings r)" using assms(3) f by (auto simp: r)
  moreover have "count_list (mod_references m) x \<le> count_list (map finding_place (res_findings r)) (reference_place x)"
  proof -
    let ?imp = "\<lambda>y. import_finding p (type_or_zero p tn) tn (mod_path m) y"
    have "count_list (xs :: reference list) x \<le> count_list (map finding_place (concat (map ?imp xs))) (reference_place x)" for xs
    proof (induction xs)
      case (Cons y ys)
      have "finding_place f = reference_place x"
        using import_finding_props [OF f] by (simp add: finding_place_def reference_place_def)
      then have "reference_place x \<in> set (map finding_place (?imp x))" using f by force
      then have "count_list (map finding_place (?imp x)) (reference_place x) \<noteq> 0" by (simp add: count_list_0_iff)
      then show ?case using Cons by auto
    qed simp
    moreover have "count_list (map finding_place (res_findings r)) (reference_place x) =
        count_list (map finding_place (concat (map ?imp (mod_references m)) @ layerFindings p m swap)) (reference_place x)"
      by (simp add: r flip: count_mset)
    ultimately show ?thesis by (simp add: trans_le_add1)
  qed
  ultimately show ?thesis using g import_finding_props [OF f] by (auto simp: Blocking_def filter_empty_conv)
qed

section \<open>Explain and check agree\<close>

lemma choose_type_ok: "choose_type p m d = Inr (tn, det) \<Longrightarrow> \<exists>t. policy_type p tn = Some t"
  by (auto simp: choose_type_def dest: Detect_type split: if_splits option.splits)

text \<open>
  \<^verbatim>\<open>explain\<close> tells what \<^verbatim>\<open>check\<close> does. For the same policy, module and declared type,
  one succeeds exactly when the other does, they choose the same repository type, and a
  reference in one of the three scopes is permitted by the check exactly when the
  explanation of its import says so for that scope.
\<close>

theorem Explain_agrees_with_Check:
  "(is_ok (Explain p (mod_path m) d i) \<longleftrightarrow> is_ok (Check p m d swap)) \<and>
   (\<forall>r ex x. Check p m d swap = Inr r \<and> Explain p (mod_path m) d i = Inr ex \<and>
      rf_import x = i \<and> rf_scope x \<in> set Scopes \<longrightarrow>
      ex_repo_type ex = res_type r \<and>
      (permitted p (res_type r) (mod_path m) x \<longleftrightarrow>
         (\<exists>v \<in> set (ex_scopes ex). sv_scope v = rf_scope x \<and> sv_allowed v)))"
proof (intro conjI allI impI)
  show "is_ok (Explain p (mod_path m) d i) \<longleftrightarrow> is_ok (Check p m d swap)"
    by (auto simp: Check_ok_iff Explain_def Let_def split: sum.splits)
next
  fix r ex and x :: reference
  assume a: "Check p m d swap = Inr r \<and> Explain p (mod_path m) d i = Inr ex \<and>
      rf_import x = i \<and> rf_scope x \<in> set Scopes"
  then show "ex_repo_type ex = res_type r"
    by (auto simp: Check_Inr Explain_def Let_def)
  show "permitted p (res_type r) (mod_path m) x \<longleftrightarrow>
         (\<exists>v \<in> set (ex_scopes ex). sv_scope v = rf_scope x \<and> sv_allowed v)"
    using a by (auto simp: Check_Inr Explain_def Let_def permitted_def)
qed

section \<open>Layer direction\<close>

lemma direction_finding_iff:
  "direction_finding l r from to = [] \<longleftrightarrow>
     forbidden l from to = None \<and>
     (\<forall>b. layerIndex l to = Some b \<longrightarrow> (case layerIndex l from of None \<Rightarrow> 0 | Some a \<Rightarrow> a) \<le> b)"
  by (auto simp: direction_finding_def Let_def split: option.splits)

lemma layer_loop_directions:
  "filter (\<lambda>f. fd_rule f = RuleLayer) (layer_loop l m swap n rep rs) = concat (map (reference_direction l m) rs)"
proof (induction rs arbitrary: n rep)
  case (Cons r rs)
  have "filter (\<lambda>f. fd_rule f = RuleLayer) (snd (reference_roleless l m (swap n) rep r)) = []"
    by (auto simp: filter_empty_conv dest: reference_roleless_rule)
  moreover have "filter (\<lambda>f. fd_rule f = RuleLayer) (reference_direction l m r) = reference_direction l m r"
    by (auto simp: filter_id_conv dest: reference_direction_rule)
  ultimately show ?case using Cons by (simp add: case_prod_beta)
qed simp

text \<open>
  imports travel down the layer order. When a policy declares a layer order and a
  check reports no layer finding, every source import between two packages of the module
  whose roles are known and differ is not a forbidden edge and does not go to a layer above
  its own; conversely every such import that does is reported.
\<close>

theorem layer_direction_exact:
  assumes "layers_order (policy_layers p) \<noteq> []"
  shows "(\<forall>f \<in> set (layerFindings p m swap). fd_rule f \<noteq> RuleLayer) \<longleftrightarrow>
    (\<forall>r \<in> set (mod_references m). \<forall>target from to.
       \<not> rf_manifest r \<and> internalPackage (mod_path m) (rf_import r) = Some target \<and>
       roleOf (policy_layers p) (rf_package r) = Some from \<and> roleOf (policy_layers p) target = Some to \<and>
       from \<noteq> to \<longrightarrow>
       forbidden (policy_layers p) from to = None \<and>
       (\<forall>b. layerIndex (policy_layers p) to = Some b \<longrightarrow>
          (case layerIndex (policy_layers p) from of None \<Rightarrow> 0 | Some a \<Rightarrow> a) \<le> b))"
proof -
  let ?l = "policy_layers p"
  have "(\<forall>f \<in> set (layerFindings p m swap). fd_rule f \<noteq> RuleLayer) \<longleftrightarrow>
      filter (\<lambda>f. fd_rule f = RuleLayer) (layerFindings p m swap) = []"
    by (simp add: filter_empty_conv)
  also have "\<dots> \<longleftrightarrow> (\<forall>r \<in> set (mod_references m). reference_direction ?l (mod_path m) r = [])"
    using assms by (simp add: layerFindings_def layer_loop_directions)
  also have "\<dots> \<longleftrightarrow> (\<forall>r \<in> set (mod_references m). \<forall>target from to.
       \<not> rf_manifest r \<and> internalPackage (mod_path m) (rf_import r) = Some target \<and>
       roleOf ?l (rf_package r) = Some from \<and> roleOf ?l target = Some to \<and> from \<noteq> to \<longrightarrow>
       direction_finding ?l r from to = [])"
    by (intro ball_cong refl) (auto simp: reference_direction_def split: option.splits)
  finally show ?thesis by (simp only: direction_finding_iff)
qed

section \<open>Map iteration order\<close>

lemma roleless_entries_swap:
  assumes "set rep1 = set rep2"
  shows "set (fst (foldl (roleless_step l r) (rep1, []) (package_entries s1 a b))) =
      set (fst (foldl (roleless_step l r) (rep2, []) (package_entries s2 a b))) \<and>
    mset (snd (foldl (roleless_step l r) (rep1, []) (package_entries s1 a b))) =
      mset (snd (foldl (roleless_step l r) (rep2, []) (package_entries s2 a b)))"
  using assms by (cases a; cases b) (auto simp: package_entries_def)

lemma reference_roleless_swap:
  assumes "set rep1 = set rep2"
  shows "set (fst (reference_roleless l m s1 rep1 r)) = set (fst (reference_roleless l m s2 rep2 r)) \<and>
    mset (snd (reference_roleless l m s1 rep1 r)) = mset (snd (reference_roleless l m s2 rep2 r))"
  using assms roleless_entries_swap [OF assms]
  by (auto simp: reference_roleless_def split: option.splits)

lemma layer_loop_swap:
  "set rep1 = set rep2 \<Longrightarrow> mset (layer_loop l m s1 n rep1 rs) = mset (layer_loop l m s2 n rep2 rs)"
proof (induction rs arbitrary: n rep1 rep2)
  case (Cons r rs)
  note sw = reference_roleless_swap [OF Cons.prems, of l m "s1 n" r "s2 n"]
  with Cons.IH [OF sw [THEN conjunct1], of "Suc n"] show ?case by (simp add: case_prod_beta)
qed simp

text \<open>
  the outcome of a check does not depend on the order Go ranges over a map. Whatever
  order the runtime picks, the check errs in the same cases, selects the same type, and
  returns the same findings up to their order, hence the same number of blocking ones; the
  blocking findings come first, and findings of one mode are sorted by file and line.
\<close>

theorem Check_order_independent:
  "(case (Check p m d s1, Check p m d s2) of
      (Inr r1, Inr r2) \<Rightarrow> mset (res_findings r1) = mset (res_findings r2) \<and> res_type r1 = res_type r2 \<and>
         Blocking r1 = Blocking r2 \<and> sorted (map finding_key (res_findings r1))
    | (Inl e1, Inl e2) \<Rightarrow> e1 = e2
    | _ \<Rightarrow> False)"
proof (cases "choose_type p (mod_path m) d")
  case (Inl e)
  then show ?thesis by (simp add: Check_def)
next
  case (Inr x)
  obtain tn det where c: "choose_type p (mod_path m) d = Inr (tn, det)" using Inr by (cases x) auto
  have "mset (layerFindings p m s1) = mset (layerFindings p m s2)"
    by (simp add: layerFindings_def layer_loop_swap)
  then show ?thesis
    by (simp add: Check_def c Blocking_mset)
qed

section \<open>Witnesses\<close>

definition sample_ref :: reference where
  "sample_ref = \<lparr>rf_import = ''x.y/z'', rf_file = ''a.go'', rf_line = 3, rf_package = [], rf_scope = ScopeSource, rf_manifest = False\<rparr>"

definition sample_module :: module where
  "sample_module = \<lparr>mod_path = ''a.b/m'', mod_dir = ''/m'', mod_references = [sample_ref], mod_unparseable = []\<rparr>"

definition empty_group_policy :: policy where
  "empty_group_policy = sample_policy\<lparr>policy_groups := [\<lparr>group_name = ''all'', group_patterns = []\<rparr>]\<rparr>"

lemma sample_choose: "choose_type sample_policy ''a.b/m'' [] = Inr (''any'', True)"
    "choose_type empty_group_policy ''a.b/m'' [] = Inr (''any'', True)"
  by (simp_all add: choose_type_def Detect_def sample_policy_def empty_group_policy_def Match_catch_all)

lemma empty_group_wf: "wf_policy empty_group_policy"
  by (auto simp: wf_policy_def reserved_free_def empty_group_policy_def sample_policy_def GroupNames_def TypeNames_def
      GroupUnclassified_def GroupStdlib_def Scopes_def ScopeSource_def ScopeTests_def ScopeMain_def split: if_splits)

lemma sample_not_stdlib: "\<not> IsStdlib ''x.y/z''"
  by (simp add: IsStdlib_def Contains_def HasPrefix_def)

theorem Check_fails_closed_witness:
  "wf_policy empty_group_policy \<and> (\<exists>r. Check empty_group_policy sample_module [] (\<lambda>_. False) = Inr r \<and> 0 < Blocking r)"
proof -
  obtain r where r: "Check empty_group_policy sample_module [] (\<lambda>_. False) = Inr r"
    using sample_choose(2) by (auto simp: Check_def sample_module_def)
  have "0 < Blocking r"
    using Check_fails_closed [OF empty_group_wf r, of sample_ref] sample_not_stdlib
    by (simp add: sample_module_def sample_ref_def flatPatterns_def empty_group_policy_def)
  with r empty_group_wf show ?thesis by blast
qed

theorem Check_import_exact_witness:
  "\<exists>r. Check sample_policy sample_module [] (\<lambda>_. False) = Inr r \<and>
     image_mset finding_place (filter_mset (\<lambda>f. fd_rule f = RuleImport) (mset (res_findings r))) =
       {#reference_place sample_ref#}"
proof -
  obtain r where r: "Check sample_policy sample_module [] (\<lambda>_. False) = Inr r" and t: "res_type r = ''any''"
    using sample_choose(1) by (auto simp: Check_def sample_module_def)
  have "cl_group (Classify sample_policy ''x.y/z'' ''a.b/m'') = ''all''"
    using Classify_group_cases [OF sample_policy_reserved_free, of "''x.y/z''" "''a.b/m''"]
    by (simp add: sample_not_stdlib sample_flat Match_catch_all)
  then have "\<not> permitted sample_policy ''any'' ''a.b/m'' sample_ref"
    by (simp add: permitted_def sample_ref_def type_or_zero_def policy_type_def sample_policy_def scope_of_def
        map_get_def Allows_def GroupStdlib_def ScopeSource_def ScopeTests_def ScopeMain_def)
  with Check_import_exact [OF r] r t show ?thesis by (auto simp: sample_module_def)
qed

theorem Explain_agrees_with_Check_witness:
  "\<exists>r ex. Check sample_policy sample_module [] (\<lambda>_. False) = Inr r \<and>
     Explain sample_policy ''a.b/m'' [] ''x.y/z'' = Inr ex \<and> ex_repo_type ex = res_type r"
proof -
  obtain r where r: "Check sample_policy sample_module [] (\<lambda>_. False) = Inr r"
    using sample_choose(1) by (auto simp: Check_def sample_module_def)
  obtain ex where ex: "Explain sample_policy ''a.b/m'' [] ''x.y/z'' = Inr ex"
    using sample_choose(1) by (auto simp: Explain_def Let_def)
  have "ex_repo_type ex = res_type r"
    using Explain_agrees_with_Check [of sample_policy sample_module "[]" "''x.y/z''" "\<lambda>_. False",
        THEN conjunct2, rule_format, of r ex sample_ref] r ex
    by (simp add: sample_module_def sample_ref_def Scopes_def)
  with r ex show ?thesis by blast
qed

definition dal_pattern :: pattern where
  "dal_pattern = \<lparr>pat_raw = ''dal'', pat_alternatives = [\<lparr>alt_segments = [''dal''], alt_prefix = False\<rparr>]\<rparr>"

lemma Match_dal: "Match dal_pattern i s \<longleftrightarrow> Split i (CHR ''/'') = [''dal''] \<and> i \<noteq> []"
  by (auto simp: dal_pattern_def Match_def alt_match_plain resolved_segments_def selfToken_def glob_plain_def)

definition layered_policy :: policy where
  "layered_policy = sample_policy\<lparr>policy_layers :=
     \<lparr>layers_mode = ModeEnforce, layers_unknown_role = ''ignore'',
      layers_roles = [\<lparr>role_name = ''dal'', role_patterns = [dal_pattern]\<rparr>, \<lparr>role_name = ''api'', role_patterns = [catch_all]\<rparr>],
      layers_order = [[''api''], [''dal'']], layers_forbid = []\<rparr>\<rparr>"

definition upward_module :: module where
  "upward_module = \<lparr>mod_path = ''a.b/m'', mod_dir = ''/m'',
     mod_references = [sample_ref\<lparr>rf_import := ''a.b/m/web'', rf_package := ''dal''\<rparr>], mod_unparseable = []\<rparr>"

text \<open>The data layer importing the outermost one is reported.\<close>

theorem layer_direction_exact_witness:
  "layers_order (policy_layers layered_policy) \<noteq> [] \<and>
   (\<exists>f \<in> set (layerFindings layered_policy upward_module (\<lambda>_. False)). fd_rule f = RuleLayer)"
proof -
  let ?l = "policy_layers layered_policy"
  have h: "layers_order ?l \<noteq> []" by (simp add: layered_policy_def)
  have r: "roleOf ?l ''dal'' = Some ''dal''" "roleOf ?l ''web'' = Some ''api''"
    by (simp_all add: roleOf_def layered_policy_def Match_dal Match_catch_all first_segment_def)
  have d: "layerIndex ?l ''dal'' = Some 1" "layerIndex ?l ''api'' = Some 0"
    by (simp_all add: layerIndex_def layered_policy_def)
  have t: "internalPackage ''a.b/m'' ''a.b/m/web'' = Some ''web''"
    by (simp add: internalPackage_def HasPrefix_def TrimPrefix_def)
  show ?thesis
    using h layer_direction_exact [OF h, of upward_module "\<lambda>_. False"] r d t
    by (auto simp: upward_module_def sample_ref_def)
qed

end
