(* ===== verification/Policy_Load.thy ===== *)
theory Policy_Load
  imports Policy_Check
begin

text \<open>
  Loading a policy (\<^verbatim>\<open>internal/policy/load.go\<close>) and a repository's own declaration
  (\<^verbatim>\<open>config.go\<close>). The YAML decoder is not part of this repository: loading starts from the
  decoded document, and \<open>Parse\<close> takes the decoder as a parameter. A Go map read from YAML
  is an association list in the order the runtime ranges over it, with distinct keys.
\<close>

section \<open>The decoded document\<close>

record raw_group =
  rg_name :: string
  rg_match :: "string list"

record raw_type =
  rt_name :: string
  rt_detect :: "string list"
  rt_scopes :: "(string \<times> string list) list"

record raw_layers =
  rl_mode :: string
  rl_unknown_role :: string
  rl_roles :: "(string \<times> string list) list"
  rl_order :: "string list list"
  rl_forbid :: "forbid_edge list"

record document =
  doc_groups :: "raw_group list"
  doc_types :: "raw_type list"
  doc_layers :: raw_layers
  doc_expect :: "expectation list"

datatype load_error =
    YamlError string
  | GroupNoName
  | GroupReserved string
  | GroupTwice string
  | GroupNoMatch string
  | GroupPattern string pattern_error
  | NoGroups
  | TypeNoName
  | TypeTwice string
  | TypeNoDetect string
  | TypePattern string pattern_error
  | UnknownScope string string
  | AllowsStdlib string string
  | AllowsUndeclared string string string "string option"
  | NoSourceScope string
  | NoTypes
  | BadMode string
  | BadUnknownRole string
  | RolePattern string pattern_error
  | OrderUnknownRole string
  | ForbidIncomplete nat
  | ForbidUnknownRole nat string
  | ExpectSubject nat
  | ExpectGroup nat
  | ExpectType nat

section \<open>Near-miss names\<close>

text \<open>
  \<^verbatim>\<open>editDistanceWithin\<close>: the dynamic program row by row. \<open>edit_row x b previous left\<close> is
  the rest of a row for the character \<open>x\<close>, \<open>left\<close> being the entry just computed.
\<close>

fun edit_row :: "char \<Rightarrow> string \<Rightarrow> nat list \<Rightarrow> nat \<Rightarrow> nat list" where
  "edit_row x (y # ys) (p0 # p1 # ps) left =
     (let v = min (min (left + 1) (p1 + 1)) (p0 + (if x = y then 0 else 1))
      in v # edit_row x ys (p1 # ps) v)"
| "edit_row x ys ps left = []"

fun edit_rows :: "nat \<Rightarrow> string \<Rightarrow> string \<Rightarrow> nat list \<Rightarrow> nat list" where
  "edit_rows i [] b previous = previous"
| "edit_rows i (x # xs) b previous = edit_rows (Suc i) xs b (i # edit_row x b previous i)"

definition editDistanceWithin :: "string \<Rightarrow> string \<Rightarrow> nat \<Rightarrow> bool" where
  "editDistanceWithin a b limit =
     (if a = b then True
      else if length a > length b + limit \<or> length b > length a + limit then False
      else edit_rows 1 a b [0..<Suc (length b)] ! length b \<le> limit)"

text \<open>
  \<^verbatim>\<open>suggest\<close>: the name a message offers; \<open>fold\<close> stands for \<^verbatim>\<open>strings.EqualFold\<close>, which is
  taken on ASCII letters.
\<close>

definition EqualFold :: "string \<Rightarrow> string \<Rightarrow> bool" where
  "EqualFold a b \<longleftrightarrow> ToLower a = ToLower b"

definition suggest :: "string \<Rightarrow> string list \<Rightarrow> string option" where
  "suggest given candidates = List.find (\<lambda>c. EqualFold c given \<or> editDistanceWithin c given 2) candidates"

section \<open>Compilation of the document\<close>

definition compilePatterns :: "string list \<Rightarrow> (pattern_error, pattern list) result" where
  "compilePatterns raw = map_result CompilePattern raw"

fun compile_groups :: "string list \<Rightarrow> raw_group list \<Rightarrow> (load_error, group list) result" where
  "compile_groups seen [] = Inr []"
| "compile_groups seen (g # gs) =
     (if rg_name g = [] then Inl GroupNoName
      else if rg_name g = GroupStdlib \<or> rg_name g = GroupUnclassified then Inl (GroupReserved (rg_name g))
      else if rg_name g \<in> set seen then Inl (GroupTwice (rg_name g))
      else if rg_match g = [] then Inl (GroupNoMatch (rg_name g))
      else (case compilePatterns (rg_match g) of
              Inl e \<Rightarrow> Inl (GroupPattern (rg_name g) e)
            | Inr pats \<Rightarrow>
                (case compile_groups (rg_name g # seen) gs of Inl e \<Rightarrow> Inl e
                 | Inr rest \<Rightarrow> Inr (\<lparr>group_name = rg_name g, group_patterns = pats\<rparr> # rest))))"

definition check_allowed :: "group list \<Rightarrow> string \<Rightarrow> string \<Rightarrow> string \<Rightarrow> (load_error, unit) result" where
  "check_allowed groups name scopeName allowed =
     (if allowed = GroupStdlib then Inl (AllowsStdlib name scopeName)
      else if \<not> HasGroup groups allowed
        then Inl (AllowsUndeclared name scopeName allowed (suggest allowed (map group_name groups)))
      else Inr ())"

fun compile_scopes ::
  "group list \<Rightarrow> string \<Rightarrow> (string \<times> string list) list \<Rightarrow> (string \<rightharpoonup> scope_rules) \<Rightarrow>
     (load_error, string \<rightharpoonup> scope_rules) result" where
  "compile_scopes groups name [] scopes = Inr scopes"
| "compile_scopes groups name ((scopeName, allow) # rest) scopes =
     (if scopeName \<noteq> ScopeSource \<and> scopeName \<noteq> ScopeTests \<and> scopeName \<noteq> ScopeMain
        then Inl (UnknownScope name scopeName)
      else (case map_result (check_allowed groups name scopeName) allow of
              Inl e \<Rightarrow> Inl e
            | Inr _ \<Rightarrow> compile_scopes groups name rest (scopes(scopeName \<mapsto> \<lparr>scope_allow = allow\<rparr>))))"

definition inherit_scope :: "scope_rules \<Rightarrow> (string \<rightharpoonup> scope_rules) \<Rightarrow> string \<Rightarrow> (string \<rightharpoonup> scope_rules)" where
  "inherit_scope src scopes s = (case scopes s of None \<Rightarrow> scopes(s \<mapsto> src) | Some _ \<Rightarrow> scopes)"

fun compile_types :: "group list \<Rightarrow> string list \<Rightarrow> raw_type list \<Rightarrow> (load_error, repo_type list) result" where
  "compile_types groups seen [] = Inr []"
| "compile_types groups seen (t # ts) =
     (if rt_name t = [] then Inl TypeNoName
      else if rt_name t \<in> set seen then Inl (TypeTwice (rt_name t))
      else if rt_detect t = [] then Inl (TypeNoDetect (rt_name t))
      else (case compilePatterns (rt_detect t) of
              Inl e \<Rightarrow> Inl (TypePattern (rt_name t) e)
            | Inr detect \<Rightarrow>
                (case compile_scopes groups (rt_name t) (rt_scopes t) Map.empty of
                   Inl e \<Rightarrow> Inl e
                 | Inr scopes \<Rightarrow>
                     (case scopes ScopeSource of
                        None \<Rightarrow> Inl (NoSourceScope (rt_name t))
                      | Some src \<Rightarrow>
                          (case compile_types groups (rt_name t # seen) ts of
                             Inl e \<Rightarrow> Inl e
                           | Inr rest \<Rightarrow>
                               Inr (\<lparr>type_name = rt_name t, type_detect = detect,
                                     type_scopes = foldl (inherit_scope src) scopes [ScopeTests, ScopeMain]\<rparr>
                                    # rest))))))"

definition hasRole :: "role_rule list \<Rightarrow> string \<Rightarrow> bool" where
  "hasRole roles name = list_ex (\<lambda>r. role_name r = name) roles"

definition sortedKeys :: "(string \<times> 'v) list \<Rightarrow> string list" where
  "sortedKeys m = sort (map fst m)"

definition compile_role :: "(string \<times> string list) list \<Rightarrow> string \<Rightarrow> (load_error, role_rule) result" where
  "compile_role roles role =
     (case compilePatterns (map_get (map_of roles) [] role) of
        Inl e \<Rightarrow> Inl (RolePattern role e)
      | Inr pats \<Rightarrow> Inr \<lparr>role_name = role, role_patterns = pats\<rparr>)"

definition check_order :: "role_rule list \<Rightarrow> string list list \<Rightarrow> (load_error, unit) result" where
  "check_order roles order =
     (case List.find (\<lambda>role. \<not> hasRole roles role) (concat order) of
        None \<Rightarrow> Inr () | Some role \<Rightarrow> Inl (OrderUnknownRole role))"

definition check_forbid :: "role_rule list \<Rightarrow> nat \<times> forbid_edge \<Rightarrow> (load_error, forbid_edge) result" where
  "check_forbid roles ie =
     (case ie of (index, edge) \<Rightarrow>
        if forbid_from edge = [] \<or> forbid_to edge = [] then Inl (ForbidIncomplete index)
        else (case List.find (\<lambda>role. \<not> hasRole roles role) [forbid_from edge, forbid_to edge] of
                Some role \<Rightarrow> Inl (ForbidUnknownRole index role)
              | None \<Rightarrow> Inr edge))"

definition compile_layers :: "raw_layers \<Rightarrow> (load_error, layers) result" where
  "compile_layers raw =
     (case ParseMode (rl_mode raw) of
        Inl e \<Rightarrow> Inl (BadMode e)
      | Inr m \<Rightarrow>
          if rl_unknown_role raw \<noteq> [] \<and> rl_unknown_role raw \<noteq> ''ignore'' \<and> rl_unknown_role raw \<noteq> ''error''
          then Inl (BadUnknownRole (rl_unknown_role raw))
          else (case map_result (compile_role (rl_roles raw)) (sortedKeys (rl_roles raw)) of
                  Inl e \<Rightarrow> Inl e
                | Inr roles \<Rightarrow>
                    (case check_order roles (rl_order raw) of
                       Inl e \<Rightarrow> Inl e
                     | Inr _ \<Rightarrow>
                         (case map_result (check_forbid roles) (zip [0..<length (rl_forbid raw)] (rl_forbid raw)) of
                            Inl e \<Rightarrow> Inl e
                          | Inr edges \<Rightarrow>
                              Inr \<lparr>layers_mode = m,
                                   layers_unknown_role =
                                     (if rl_unknown_role raw = [] then ''ignore'' else rl_unknown_role raw),
                                   layers_roles = roles, layers_order = rl_order raw, layers_forbid = edges\<rparr>))))"

definition check_expectation :: "nat \<times> expectation \<Rightarrow> (load_error, expectation) result" where
  "check_expectation ie =
     (case ie of (index, e) \<Rightarrow>
        if (exp_import e = []) = (exp_module e = []) then Inl (ExpectSubject index)
        else if exp_import e \<noteq> [] \<and> exp_group e = [] then Inl (ExpectGroup index)
        else if exp_module e \<noteq> [] \<and> exp_type e = [] then Inl (ExpectType index)
        else Inr e)"

definition compile_document :: "document \<Rightarrow> string \<Rightarrow> (load_error, policy) result" where
  "compile_document raw source =
     (case compile_groups [] (doc_groups raw) of
        Inl e \<Rightarrow> Inl e
      | Inr groups \<Rightarrow>
          if groups = [] then Inl NoGroups
          else (case compile_types groups [] (doc_types raw) of
                  Inl e \<Rightarrow> Inl e
                | Inr types \<Rightarrow>
                    if types = [] then Inl NoTypes
                    else (case compile_layers (doc_layers raw) of
                            Inl e \<Rightarrow> Inl e
                          | Inr ls \<Rightarrow>
                              (case map_result check_expectation
                                      (zip [0..<length (doc_expect raw)] (doc_expect raw)) of
                                 Inl e \<Rightarrow> Inl e
                               | Inr es \<Rightarrow>
                                   Inr \<lparr>policy_source = source, policy_groups = groups, policy_types = types,
                                        policy_layers = ls, policy_expectations = es\<rparr>))))"

definition Parse :: "(string \<Rightarrow> (string, document) result) \<Rightarrow> string \<Rightarrow> string \<Rightarrow> (load_error, policy) result" where
  "Parse decode contents source =
     (case decode contents of Inl e \<Rightarrow> Inl (YamlError e) | Inr raw \<Rightarrow> compile_document raw source)"

section \<open>Validation diagnostics\<close>

datatype diagnostic =
    GroupPatternUnreachable string string string string
  | TypePatternUnreachable string string string string
  | RoleUnplaced string

fun unreachable_pairs ::
  "(string \<times> pattern list) list \<Rightarrow> (string \<times> pattern list) list \<Rightarrow> (string \<times> string \<times> string \<times> string) list" where
  "unreachable_pairs earlier [] = []"
| "unreachable_pairs earlier ((name, pats) # rest) =
     concat (map (\<lambda>pat. concat (map (\<lambda>(ename, epats).
         map (\<lambda>c. (name, pat_raw pat, ename, pat_raw c)) (filter (\<lambda>c. Covers c pat) epats)) earlier)) pats)
     @ unreachable_pairs (earlier @ [(name, pats)]) rest"

definition Validate :: "policy \<Rightarrow> diagnostic list" where
  "Validate p =
     map (\<lambda>(a, b, c, d). GroupPatternUnreachable a b c d)
       (unreachable_pairs [] (map (\<lambda>g. (group_name g, group_patterns g)) (policy_groups p)))
     @ map (\<lambda>(a, b, c, d). TypePatternUnreachable a b c d)
       (unreachable_pairs [] (map (\<lambda>t. (type_name t, type_detect t)) (policy_types p)))
     @ map (\<lambda>r. RoleUnplaced (role_name r))
       (filter (\<lambda>r. layerIndex (policy_layers p) (role_name r) = None) (layers_roles (policy_layers p)))"

section \<open>The repository's own declaration\<close>

datatype yaml_value = YString string | YBool bool | YOther

datatype source_kind = SourcePath | SourceFleet | SourceURL

record source =
  src_raw :: string
  src_kind :: source_kind
  src_owner :: string
  src_repo :: string
  src_path :: string
  src_url :: string

datatype config_error =
    ConfigUnreadable string string
  | ConfigUnparsable string string
  | KeyNotAllowed string
  | PolicyNotString
  | TypeNotString
  | StrictNotBool
  | StrictFalse
  | RefEmpty
  | RefPinned string string
  | RefHttp string
  | RefMalformed string

text \<open>\<^verbatim>\<open>strings.LastIndex\<close> of a one-byte string.\<close>

definition LastIndexByte :: "string \<Rightarrow> char \<Rightarrow> nat option" where
  "LastIndexByte s b = map_option (\<lambda>i. length s - Suc i) (IndexByte (rev s) b)"

definition ParseSource :: "string \<Rightarrow> (config_error, source) result" where
  "ParseSource raw =
     (let trimmed = TrimSpace raw in
      if trimmed = [] then Inl RefEmpty
      else (case LastIndexByte trimmed (CHR ''@'') of
         Some index \<Rightarrow> Inl (RefPinned trimmed (drop (Suc index) trimmed))
       | None \<Rightarrow>
           if HasPrefix trimmed ''https://'' then
             Inr \<lparr>src_raw = trimmed, src_kind = SourceURL, src_owner = [], src_repo = [], src_path = [], src_url = trimmed\<rparr>
           else if HasPrefix trimmed ''http://'' then Inl (RefHttp trimmed)
           else (case Index trimmed ''//'' of
              Some index \<Rightarrow>
                let slug = TrimSet ''/'' (take index trimmed);
                    path = TrimSet ''/'' (drop (index + 2) trimmed);
                    (owner, repo, found) = Cut slug (CHR ''/'')
                in if \<not> found \<or> owner = [] \<or> repo = [] \<or> path = [] then Inl (RefMalformed trimmed)
                   else Inr \<lparr>src_raw = trimmed, src_kind = SourceFleet, src_owner = owner, src_repo = repo,
                             src_path = path, src_url = []\<rparr>
            | None \<Rightarrow>
                Inr \<lparr>src_raw = trimmed, src_kind = SourcePath, src_owner = [], src_repo = [], src_path = trimmed, src_url = []\<rparr>)))"

record repo_config =
  cfg_found :: bool
  cfg_path :: string
  cfg_policy :: string
  cfg_type :: string
  cfg_strict :: bool

text \<open>
  \<^verbatim>\<open>LoadRepoConfig\<close> from the decoded fields of an existing file: the key check in sorted
  order, then the three keys in the order the source reads them.
\<close>

definition load_fields :: "string \<Rightarrow> (string \<times> yaml_value) list \<Rightarrow> (config_error, repo_config) result" where
  "load_fields path kvs =
     (case List.find (\<lambda>k. k \<notin> {''policy'', ''type'', ''strict''}) (sortedKeys kvs) of
        Some k \<Rightarrow> Inl (KeyNotAllowed k)
      | None \<Rightarrow>
        (case (case map_of kvs ''policy'' of None \<Rightarrow> Inr [] | Some (YString s) \<Rightarrow> Inr s | Some _ \<Rightarrow> Inl PolicyNotString) of
           Inl e \<Rightarrow> Inl e
         | Inr pol \<Rightarrow>
        (case (case map_of kvs ''type'' of None \<Rightarrow> Inr [] | Some (YString s) \<Rightarrow> Inr s | Some _ \<Rightarrow> Inl TypeNotString) of
           Inl e \<Rightarrow> Inl e
         | Inr ty \<Rightarrow>
        (case (case map_of kvs ''strict'' of None \<Rightarrow> Inr False | Some (YBool b) \<Rightarrow> (if b then Inr True else Inl StrictFalse)
               | Some _ \<Rightarrow> Inl StrictNotBool) of
           Inl e \<Rightarrow> Inl e
         | Inr strict \<Rightarrow>
             (case (if pol = [] then Inr () else (case ParseSource pol of Inl e \<Rightarrow> Inl e | Inr _ \<Rightarrow> Inr ())) of
                Inl e \<Rightarrow> Inl e
              | Inr _ \<Rightarrow> Inr \<lparr>cfg_found = True, cfg_path = path, cfg_policy = pol, cfg_type = ty, cfg_strict = strict\<rparr>)))))"

datatype file_read = NotExist | ReadFailed string | Contents string

definition no_config :: repo_config where
  "no_config = \<lparr>cfg_found = False, cfg_path = [], cfg_policy = [], cfg_type = [], cfg_strict = False\<rparr>"

definition LoadRepoConfig ::
  "(string \<Rightarrow> file_read) \<Rightarrow> (string \<Rightarrow> (string, (string \<times> yaml_value) list) result) \<Rightarrow> string \<Rightarrow>
     (config_error, repo_config) result" where
  "LoadRepoConfig readFile decode path =
     (case readFile path of
        NotExist \<Rightarrow> Inr no_config
      | ReadFailed e \<Rightarrow> Inl (ConfigUnreadable path e)
      | Contents contents \<Rightarrow>
          (case decode contents of Inl e \<Rightarrow> Inl (ConfigUnparsable path e) | Inr kvs \<Rightarrow> load_fields path kvs))"

section \<open>A loaded policy is well formed\<close>

lemma compilePatterns_wf:
  "compilePatterns raw = Inr pats \<Longrightarrow> length pats = length raw \<and> (\<forall>p \<in> set pats. wf_pattern p)"
  using CompilePattern_wf by (auto simp: compilePatterns_def dest: map_result_length map_result_set)

lemma compile_groups_ok:
  "compile_groups seen gs = Inr out \<Longrightarrow>
     distinct (map group_name out) \<and> set (map group_name out) \<inter> set seen = {} \<and>
     GroupStdlib \<notin> set (map group_name out) \<and> GroupUnclassified \<notin> set (map group_name out) \<and>
     (\<forall>g \<in> set out. group_name g \<noteq> [] \<and> group_patterns g \<noteq> [] \<and> (\<forall>p \<in> set (group_patterns g). wf_pattern p))"
proof (induction seen gs arbitrary: out rule: compile_groups.induct)
  case (2 seen g gs)
  from "2.prems" obtain pats rest where
    c: "rg_name g \<noteq> []" "rg_name g \<noteq> GroupStdlib" "rg_name g \<noteq> GroupUnclassified" "rg_name g \<notin> set seen"
      "rg_match g \<noteq> []" "compilePatterns (rg_match g) = Inr pats"
      "compile_groups (rg_name g # seen) gs = Inr rest"
      "out = \<lparr>group_name = rg_name g, group_patterns = pats\<rparr> # rest"
    by (auto split: if_splits sum.splits)
  have "pats \<noteq> []" using compilePatterns_wf [OF c(6)] c(5) by auto
  with "2.IH" [OF c(1) _ c(4,5,6,7)] c compilePatterns_wf [OF c(6)] show ?case by auto
qed simp

lemma check_allowed_ok:
  "map_result (check_allowed groups n s) allow = Inr us \<Longrightarrow> set allow \<subseteq> set (map group_name groups)"
proof
  fix a
  assume m: "map_result (check_allowed groups n s) allow = Inr us" and "a \<in> set allow"
  then have "\<not> isl (check_allowed groups n s a)" using map_result_Inl_iff [of "check_allowed groups n s" allow] by auto
  then show "a \<in> set (map group_name groups)"
    by (auto simp: check_allowed_def HasGroup_def list_ex_iff split: if_splits)
qed

text \<open>The scopes of a type: the declared entries, every one checked.\<close>

definition scope_entries :: "(string \<times> string list) list \<Rightarrow> (string \<times> scope_rules) list" where
  "scope_entries kvs = rev (map (\<lambda>(k, a). (k, \<lparr>scope_allow = a\<rparr>)) kvs)"

lemma compile_scopes_Cons:
  assumes "compile_scopes groups n ((s, allow) # rest) scopes = Inr out"
  obtains us where "s \<in> set Scopes" "map_result (check_allowed groups n s) allow = Inr us"
    "compile_scopes groups n rest (scopes(s \<mapsto> \<lparr>scope_allow = allow\<rparr>)) = Inr out"
  using assms by (auto simp: Scopes_def split: if_splits sum.splits)

lemma compile_scopes_eq:
  "compile_scopes groups n kvs scopes = Inr out \<Longrightarrow> out = scopes ++ map_of (scope_entries kvs)"
proof (induction kvs arbitrary: scopes)
  case (Cons kv kvs)
  obtain s allow where kv: "kv = (s, allow)" by (cases kv)
  from Cons.prems obtain us where
    "compile_scopes groups n kvs (scopes(s \<mapsto> \<lparr>scope_allow = allow\<rparr>)) = Inr out"
    unfolding kv by (rule compile_scopes_Cons)
  from Cons.IH [OF this] show ?case
    by (simp add: kv scope_entries_def map_add_upd_left map_of_append map_add_assoc)
       (simp add: map_add_def fun_eq_iff split: option.splits)
qed (simp add: scope_entries_def)

lemma compile_scopes_checked:
  "compile_scopes groups n kvs scopes = Inr out \<Longrightarrow> (s, allow) \<in> set kvs \<Longrightarrow>
     s \<in> set Scopes \<and> set allow \<subseteq> set (map group_name groups)"
proof (induction kvs arbitrary: scopes)
  case (Cons kv kvs)
  obtain s' allow' where kv: "kv = (s', allow')" by (cases kv)
  from Cons.prems(1) obtain us where c: "s' \<in> set Scopes"
    "map_result (check_allowed groups n s') allow' = Inr us"
    "compile_scopes groups n kvs (scopes(s' \<mapsto> \<lparr>scope_allow = allow'\<rparr>)) = Inr out"
    unfolding kv by (rule compile_scopes_Cons)
  from Cons.prems(2) consider "s = s'" "allow = allow'" | "(s, allow) \<in> set kvs" by (auto simp: kv)
  then show ?case
  proof cases
    case 1
    with c(1) check_allowed_ok [OF c(2)] show ?thesis by blast
  next
    case 2
    with Cons.IH [OF c(3)] show ?thesis by blast
  qed
qed simp

lemma compile_scopes_lookup:
  assumes "compile_scopes groups n kvs Map.empty = Inr out" "out s = Some sc"
  shows "s \<in> set Scopes \<and> set (scope_allow sc) \<subseteq> set (map group_name groups)"
proof -
  have "map_of (scope_entries kvs) s = Some sc" using compile_scopes_eq [OF assms(1)] assms(2) by simp
  then obtain a where "(s, a) \<in> set kvs" "sc = \<lparr>scope_allow = a\<rparr>"
    by (auto simp: scope_entries_def dest!: map_of_SomeD)
  with compile_scopes_checked [OF assms(1)] show ?thesis by auto
qed

definition inherited :: "scope_rules \<Rightarrow> (string \<rightharpoonup> scope_rules) \<Rightarrow> (string \<rightharpoonup> scope_rules)" where
  "inherited src scopes = foldl (inherit_scope src) scopes [ScopeTests, ScopeMain]"

lemma inherited_apply:
  "inherited src scopes s =
     (case scopes s of Some sc \<Rightarrow> Some sc
      | None \<Rightarrow> if s = ScopeTests \<or> s = ScopeMain then Some src else None)"
  by (auto simp: inherited_def inherit_scope_def ScopeTests_def ScopeMain_def split: option.splits)

lemma compile_types_Cons:
  assumes "compile_types groups seen (t # ts) = Inr out"
  obtains detect scopes src rest where
    "rt_name t \<noteq> []" "rt_name t \<notin> set seen" "rt_detect t \<noteq> []" "compilePatterns (rt_detect t) = Inr detect"
    "compile_scopes groups (rt_name t) (rt_scopes t) Map.empty = Inr scopes" "scopes ScopeSource = Some src"
    "compile_types groups (rt_name t # seen) ts = Inr rest"
    "out = \<lparr>type_name = rt_name t, type_detect = detect, type_scopes = inherited src scopes\<rparr> # rest"
  using assms by (auto simp: inherited_def split: if_splits sum.splits option.splits)

definition wf_type :: "group list \<Rightarrow> repo_type \<Rightarrow> bool" where
  "wf_type groups t \<longleftrightarrow>
     type_name t \<noteq> [] \<and> type_detect t \<noteq> [] \<and> (\<forall>p \<in> set (type_detect t). wf_pattern p) \<and>
     dom (type_scopes t) = set Scopes \<and>
     (\<forall>s sc. type_scopes t s = Some sc \<longrightarrow> set (scope_allow sc) \<subseteq> set (map group_name groups))"

lemma compile_types_ok:
  "compile_types groups seen ts = Inr out \<Longrightarrow>
     distinct (map type_name out) \<and> set (map type_name out) \<inter> set seen = {} \<and> (\<forall>t \<in> set out. wf_type groups t)"
proof (induction ts arbitrary: seen out)
  case (Cons t ts)
  from Cons.prems obtain detect scopes src rest where
    c: "rt_name t \<noteq> []" "rt_name t \<notin> set seen" "rt_detect t \<noteq> []" "compilePatterns (rt_detect t) = Inr detect"
    "compile_scopes groups (rt_name t) (rt_scopes t) Map.empty = Inr scopes" "scopes ScopeSource = Some src"
    "compile_types groups (rt_name t # seen) ts = Inr rest"
    "out = \<lparr>type_name = rt_name t, type_detect = detect, type_scopes = inherited src scopes\<rparr> # rest"
    by (rule compile_types_Cons)
  note look = compile_scopes_lookup [OF c(5)]
  have d: "dom (inherited src scopes) = set Scopes"
  proof
    show "dom (inherited src scopes) \<subseteq> set Scopes"
    proof
      fix s assume "s \<in> dom (inherited src scopes)"
      then show "s \<in> set Scopes"
        using look [of s] by (cases "scopes s") (auto simp: inherited_apply Scopes_def split: if_splits)
    qed
    show "set Scopes \<subseteq> dom (inherited src scopes)"
      using c(6) by (auto simp: inherited_apply Scopes_def split: option.splits)
  qed
  have al: "set (scope_allow sc) \<subseteq> set (map group_name groups)" if "inherited src scopes s = Some sc" for s sc
    using that look [of s sc] look [OF c(6)] by (auto simp: inherited_apply split: option.splits if_splits)
  have "wf_type groups \<lparr>type_name = rt_name t, type_detect = detect, type_scopes = inherited src scopes\<rparr>"
    using c(1,3) compilePatterns_wf [OF c(4)] d al by (auto simp: wf_type_def)
  with Cons.IH [OF c(7)] c(2,8) show ?case by auto
qed simp

lemma compile_document_Inr:
  assumes "compile_document raw source = Inr p"
  obtains groups types ls es where
    "compile_groups [] (doc_groups raw) = Inr groups" "groups \<noteq> []"
    "compile_types groups [] (doc_types raw) = Inr types" "types \<noteq> []"
    "compile_layers (doc_layers raw) = Inr ls"
    "p = \<lparr>policy_source = source, policy_groups = groups, policy_types = types, policy_layers = ls, policy_expectations = es\<rparr>"
  using assms by (auto simp: compile_document_def split: if_splits sum.splits)

text \<open>
  C12: a policy that loads is well formed, whatever the decoder returned: no reserved group
  name, no name declared twice, at least one group and one type, every type with a detect
  pattern and with rules for all three scopes, every allow list naming declared groups only,
  and every pattern of a group or type one that never errs at match time.
\<close>

theorem Parse_wf:
  assumes "Parse decode contents source = Inr p"
  shows "wf_policy p \<and> policy_source p = source \<and>
    (\<forall>g \<in> set (policy_groups p). \<forall>pat \<in> set (group_patterns g). wf_pattern pat) \<and>
    (\<forall>t \<in> set (policy_types p). \<forall>pat \<in> set (type_detect t). wf_pattern pat)"
proof -
  from assms obtain raw where "compile_document raw source = Inr p"
    by (auto simp: Parse_def split: sum.splits)
  then obtain groups types ls es where
    c: "compile_groups [] (doc_groups raw) = Inr groups" "groups \<noteq> []"
    "compile_types groups [] (doc_types raw) = Inr types" "types \<noteq> []"
    "p = \<lparr>policy_source = source, policy_groups = groups, policy_types = types, policy_layers = ls, policy_expectations = es\<rparr>"
    by (rule compile_document_Inr)
  from compile_groups_ok [OF c(1)] compile_types_ok [OF c(3)] c(2,4) show ?thesis
    by (auto simp: c(5) wf_policy_def reserved_free_def GroupNames_def TypeNames_def wf_type_def)
qed

lemma compile_types_scopes:
  "compile_types groups seen ts = Inr out \<Longrightarrow> t \<in> set out \<Longrightarrow>
     \<exists>raw \<in> set ts. type_name t = rt_name raw \<and>
       (\<exists>src. map_of (scope_entries (rt_scopes raw)) ScopeSource = Some src \<and>
          type_scopes t = inherited src (map_of (scope_entries (rt_scopes raw))))"
proof (induction ts arbitrary: seen out)
  case (Cons r ts)
  from Cons.prems(1) obtain detect scopes src rest where
    c: "compile_scopes groups (rt_name r) (rt_scopes r) Map.empty = Inr scopes" "scopes ScopeSource = Some src"
    "compile_types groups (rt_name r # seen) ts = Inr rest"
    "out = \<lparr>type_name = rt_name r, type_detect = detect, type_scopes = inherited src scopes\<rparr> # rest"
    by (rule compile_types_Cons)
  have "scopes = map_of (scope_entries (rt_scopes r))" using compile_scopes_eq [OF c(1)] by simp
  with c Cons.IH [OF c(3)] Cons.prems(2) show ?case by auto
qed simp

text \<open>
  C13: silence is never the more permissive reading. When a document says nothing about the
  test or main scope of a type, the compiled type is held there to its source rules; a scope
  the document does declare is compiled as declared.
\<close>

theorem silent_scope_inherits_source:
  assumes "compile_document raw source = Inr p" "t \<in> set (policy_types p)"
  shows "\<exists>r \<in> set (doc_types raw). rt_name r = type_name t \<and>
    (\<forall>s \<in> {ScopeTests, ScopeMain}. s \<notin> fst ` set (rt_scopes r) \<longrightarrow>
        type_scopes t s = type_scopes t ScopeSource) \<and>
    (\<forall>s allow. distinct (map fst (rt_scopes r)) \<and> (s, allow) \<in> set (rt_scopes r) \<longrightarrow>
        type_scopes t s = Some \<lparr>scope_allow = allow\<rparr>)"
proof -
  from assms(1) obtain groups types ls es where
    c: "compile_types groups [] (doc_types raw) = Inr types"
    "p = \<lparr>policy_source = source, policy_groups = groups, policy_types = types, policy_layers = ls, policy_expectations = es\<rparr>"
    by (rule compile_document_Inr)
  from compile_types_scopes [OF c(1), of t] assms(2) c(2) obtain r src where
    r: "r \<in> set (doc_types raw)" "type_name t = rt_name r"
      "map_of (scope_entries (rt_scopes r)) ScopeSource = Some src"
      "type_scopes t = inherited src (map_of (scope_entries (rt_scopes r)))" by auto
  have keys: "fst ` set (scope_entries (rt_scopes r)) = fst ` set (rt_scopes r)"
    by (force simp: scope_entries_def)
  have "type_scopes t s = type_scopes t ScopeSource"
    if "s \<in> {ScopeTests, ScopeMain}" "s \<notin> fst ` set (rt_scopes r)" for s
  proof -
    have "map_of (scope_entries (rt_scopes r)) s = None" using that(2) keys by (simp add: map_of_eq_None_iff)
    then show ?thesis using that(1) r(3) by (auto simp: r(4) inherited_apply)
  qed
  moreover have "type_scopes t s = Some \<lparr>scope_allow = allow\<rparr>"
    if "distinct (map fst (rt_scopes r))" "(s, allow) \<in> set (rt_scopes r)" for s allow
  proof -
    have "distinct (map fst (scope_entries (rt_scopes r)))"
      using that(1) by (simp add: scope_entries_def rev_map [symmetric] comp_def case_prod_beta)
    moreover have "(s, \<lparr>scope_allow = allow\<rparr>) \<in> set (scope_entries (rt_scopes r))"
      using that(2) by (force simp: scope_entries_def)
    ultimately have "map_of (scope_entries (rt_scopes r)) s = Some \<lparr>scope_allow = allow\<rparr>" by simp
    then show ?thesis by (simp add: r(4) inherited_apply)
  qed
  ultimately show ?thesis using r(1,2) by metis
qed

section \<open>The edit distance is the edit distance\<close>

inductive edit1 :: "string \<Rightarrow> string \<Rightarrow> bool" where
  insert_char: "edit1 (u @ v) (u @ c # v)"
| delete_char: "edit1 (u @ c # v) (u @ v)"
| change_char: "edit1 (u @ c # v) (u @ d # v)"

fun lev :: "string \<Rightarrow> string \<Rightarrow> nat" where
  "lev [] ys = length ys"
| "lev (x # xs) [] = length (x # xs)"
| "lev (x # xs) (y # ys) =
     min (min (lev (x # xs) ys + 1) (lev xs (y # ys) + 1)) (lev xs ys + (if x = y then 0 else 1))"

lemma lev_Nil [simp]: "lev xs [] = length xs"
  by (cases xs) simp_all

lemma lev_Cons_le:
  "lev (x # xs) ys \<le> lev xs ys + 1" "lev xs (y # ys) \<le> lev xs ys + 1"
  by (cases ys; simp) (cases xs; simp)

lemma lev_le_Cons: "lev xs ys \<le> lev (x # xs) ys + 1"
proof (induction ys)
  case (Cons y ys)
  with lev_Cons_le(2) [of xs y ys] show ?case by (simp split: if_splits)
qed simp

lemma lev_change_head: "lev (c # v) t \<le> lev (d # v) t + 1"
proof (induction t)
  case (Cons y ys)
  then show ?case by (auto simp: min_def)
qed simp

lemma lev_same_head:
  assumes "\<And>t. lev p t \<le> lev q t + 1"
  shows "lev (a # p) t \<le> lev (a # q) t + 1"
proof (induction t)
  case Nil
  from assms [of "[]"] show ?case by simp
next
  case (Cons y ys)
  with assms [of ys] assms [of "y # ys"] show ?case by (auto simp: min_def)
qed

lemma lev_same_prefix:
  assumes "\<And>t. lev p t \<le> lev q t + 1"
  shows "lev (u @ p) t \<le> lev (u @ q) t + 1"
  using assms
proof (induction u arbitrary: t)
  case (Cons a u)
  from lev_same_head [OF Cons.IH [OF Cons.prems]] show ?case by simp
qed simp

lemma edit1_lev: "edit1 p q \<Longrightarrow> lev p t \<le> lev q t + 1"
proof (induction rule: edit1.induct)
  case (insert_char u v c)
  show ?case by (rule lev_same_prefix) (rule lev_le_Cons)
next
  case (delete_char u c v)
  show ?case by (rule lev_same_prefix) (rule lev_Cons_le(1))
next
  case (change_char u c v d)
  show ?case by (rule lev_same_prefix) (rule lev_change_head)
qed

lemma lev_refl [simp]: "lev xs xs = 0"
  by (induction xs) simp_all

lemma edits_lev: "(edit1 ^^ n) p q \<Longrightarrow> lev p q \<le> n"
proof (induction n arbitrary: p)
  case (Suc n)
  from Suc.prems obtain m where m: "edit1 p m" "(edit1 ^^ n) m q" by (rule relpowp_Suc_E2)
  show ?case using edit1_lev [OF m(1), of q] Suc.IH [OF m(2)] by simp
qed simp

lemma edits_Cons:
  "(edit1 ^^ n) p q \<Longrightarrow> (edit1 ^^ n) (a # p) (a # q)"
proof (induction n arbitrary: p)
  case (Suc n)
  from Suc.prems obtain m where m: "edit1 p m" "(edit1 ^^ n) m q" by (rule relpowp_Suc_E2)
  from m(1) have "edit1 (a # p) (a # m)"
    by cases (use edit1.intros [of "a # u" for u] in auto)
  from relpowp_Suc_I2 [OF this Suc.IH [OF m(2)]] show ?case .
qed simp

lemma edit1_heads:
  "edit1 (x # p) p" "edit1 p (x # p)" "edit1 (x # p) (y # p)"
  using delete_char [of "[]"] insert_char [of "[]"] change_char [of "[]"] by simp_all

lemma lev_edits: "(edit1 ^^ lev p q) p q"
proof (induction p q rule: lev.induct)
  case (1 ys)
  show ?case
  proof (induction ys)
    case (Cons y ys)
    then show ?case by (auto intro: edit1_heads(2))
  qed simp
next
  case (2 x xs)
  have "(edit1 ^^ length p) p []" for p
    by (induction p) (simp, metis length_Cons relpowp_Suc_I2 edit1_heads(1))
  from this [of "x # xs"] show ?case by simp
next
  case (3 x xs y ys)
  have a: "(edit1 ^^ (lev (x # xs) ys + 1)) (x # xs) (y # ys)"
    using "3.IH"(1) edit1_heads(2) [of ys y] by (auto intro: relpowp_Suc_I)
  have b: "(edit1 ^^ (lev xs (y # ys) + 1)) (x # xs) (y # ys)"
    using relpowp_Suc_I2 [OF edit1_heads(1) "3.IH"(2)] by simp
  have c: "(edit1 ^^ (lev xs ys + (if x = y then 0 else 1))) (x # xs) (y # ys)"
    using edits_Cons [OF "3.IH"(3), of y] relpowp_Suc_I2 [OF edit1_heads(3) [of x xs y] edits_Cons [OF "3.IH"(3)]]
    by simp
  show ?case using a b c by (auto simp: min_def)
qed

text \<open>A row of the program holds the distances of one prefix of \<open>a\<close> to every prefix of \<open>b\<close>.\<close>

definition prefix_distances :: "string \<Rightarrow> string \<Rightarrow> nat list" where
  "prefix_distances a b = map (\<lambda>j. lev (rev a) (rev (take j b))) [0..<Suc (length b)]"

lemma edit_row_distances:
  "edit_row x ys (map (\<lambda>j. lev (rev a) (rev (take j ys) @ w)) [0..<Suc (length ys)]) (lev (x # rev a) w) =
     map (\<lambda>j. lev (x # rev a) (rev (take j ys) @ w)) [1..<Suc (length ys)]"
proof (induction ys arbitrary: w)
  case (Cons y ys)
  have shift: "map (\<lambda>j. f (rev (take j (y # ys)) @ w)) [1..<Suc (Suc (length ys))] =
      map (\<lambda>j. f (rev (take j ys) @ y # w)) [0..<Suc (length ys)]" for f :: "string \<Rightarrow> nat"
    by (simp add: map_Suc_upt [symmetric] del: upt_Suc)
  have row: "map (\<lambda>j. lev (rev a) (rev (take j (y # ys)) @ w)) [0..<Suc (length (y # ys))] =
      lev (rev a) w # map (\<lambda>j. lev (rev a) (rev (take j ys) @ y # w)) [0..<Suc (length ys)]"
    using shift [of "lev (rev a)"] by (simp add: upt_conv_Cons del: upt_Suc)
  have first: "map (\<lambda>j. lev (rev a) (rev (take j ys) @ y # w)) [0..<Suc (length ys)] =
      lev (rev a) (y # w) # map (\<lambda>j. lev (rev a) (rev (take j ys) @ y # w)) [1..<Suc (length ys)]"
    by (simp add: upt_conv_Cons del: upt_Suc)
  have out: "map (\<lambda>j. lev (x # rev a) (rev (take j ys) @ y # w)) [0..<Suc (length ys)] =
      lev (x # rev a) (y # w) # map (\<lambda>j. lev (x # rev a) (rev (take j ys) @ y # w)) [1..<Suc (length ys)]"
    by (simp add: upt_conv_Cons del: upt_Suc)
  have "edit_row x (y # ys) (map (\<lambda>j. lev (rev a) (rev (take j (y # ys)) @ w)) [0..<Suc (length (y # ys))])
        (lev (x # rev a) w) =
      lev (x # rev a) (y # w) # edit_row x ys
        (map (\<lambda>j. lev (rev a) (rev (take j ys) @ y # w)) [0..<Suc (length ys)]) (lev (x # rev a) (y # w))"
    unfolding row by (subst (1 2) first) (simp add: Let_def del: upt_Suc)
  then show ?case
    unfolding Cons.IH using shift [of "lev (x # rev a)"] out by (simp del: upt_Suc)
qed simp

lemma edit_rows_distances:
  "edit_rows (Suc (length a)) xs b (prefix_distances a b) = prefix_distances (a @ xs) b"
proof (induction xs arbitrary: a)
  case (Cons x xs)
  have "Suc (length a) # edit_row x b (prefix_distances a b) (Suc (length a)) = prefix_distances (a @ [x]) b"
    using edit_row_distances [of x b a "[]"]
    by (simp add: prefix_distances_def upt_conv_Cons del: upt_Suc)
  with Cons.IH [of "a @ [x]"] show ?case by simp
qed simp

lemma edit1_rev: "edit1 p q \<Longrightarrow> edit1 (rev p) (rev q)"
proof (induction rule: edit1.induct)
  case (insert_char u v c)
  show ?case using edit1.insert_char [of "rev v" "rev u" c] by simp
next
  case (delete_char u c v)
  show ?case using edit1.delete_char [of "rev v" c "rev u"] by simp
next
  case (change_char u c v d)
  show ?case using edit1.change_char [of "rev v" c "rev u" d] by simp
qed

lemma edits_rev: "(edit1 ^^ n) p q \<Longrightarrow> (edit1 ^^ n) (rev p) (rev q)"
proof (induction n arbitrary: p)
  case (Suc n)
  from Suc.prems obtain m where "edit1 p m" "(edit1 ^^ n) m q" by (rule relpowp_Suc_E2)
  with Suc.IH edit1_rev show ?case by (metis relpowp_Suc_I2)
qed simp

lemma edits_iff_lev_rev: "(\<exists>n \<le> k. (edit1 ^^ n) a b) \<longleftrightarrow> lev (rev a) (rev b) \<le> k"
proof
  assume "\<exists>n \<le> k. (edit1 ^^ n) a b"
  then obtain n where "n \<le> k" "(edit1 ^^ n) a b" by blast
  with edits_lev [OF edits_rev, of n a b] show "lev (rev a) (rev b) \<le> k" by simp
next
  assume "lev (rev a) (rev b) \<le> k"
  moreover have "(edit1 ^^ lev (rev a) (rev b)) a b" using edits_rev [OF lev_edits, of "rev a" "rev b"] by simp
  ultimately show "\<exists>n \<le> k. (edit1 ^^ n) a b" by blast
qed

lemma edits_length: "(edit1 ^^ n) a b \<Longrightarrow> length a \<le> length b + n \<and> length b \<le> length a + n"
proof (induction n arbitrary: a)
  case (Suc n)
  from Suc.prems obtain m where m: "edit1 a m" "(edit1 ^^ n) m b" by (rule relpowp_Suc_E2)
  from m(1) have "length a \<le> length m + 1 \<and> length m \<le> length a + 1" by cases auto
  with Suc.IH [OF m(2)] show ?case by simp
qed simp

text \<open>
  \<^verbatim>\<open>editDistanceWithin\<close>, rows and early exits included, decides whether at most \<^verbatim>\<open>limit\<close>
  insertions, deletions and replacements of one byte lead from one name to the other.
\<close>

theorem editDistanceWithin_exact:
  "editDistanceWithin a b limit \<longleftrightarrow> (\<exists>n \<le> limit. (edit1 ^^ n) a b)"
proof -
  have start: "[0..<Suc (length b)] = prefix_distances [] b"
    by (auto simp: prefix_distances_def intro!: nth_equalityI simp del: upt_Suc)
  have last: "edit_rows 1 a b [0..<Suc (length b)] ! length b = lev (rev a) (rev b)"
    using edit_rows_distances [of "[]" a b] unfolding start
    by (simp add: prefix_distances_def nth_append)
  have "(\<exists>n \<le> limit. (edit1 ^^ n) a b)" if "a = b"
    using that by (auto intro!: exI [of _ 0])
  moreover have "length a \<le> length b + limit \<and> length b \<le> length a + limit" if "\<exists>n \<le> limit. (edit1 ^^ n) a b"
    using that edits_length by fastforce
  ultimately show ?thesis
    unfolding editDistanceWithin_def last edits_iff_lev_rev by auto
qed

section \<open>The witnesses of the loader\<close>

definition sample_compiled :: pattern where
  "sample_compiled = \<lparr>pat_raw = ''a'', pat_alternatives = [\<lparr>alt_segments = [''a''], alt_prefix = False\<rparr>]\<rparr>"

lemma sample_patterns: "compilePatterns [''a''] = Inr [sample_compiled]"
proof -
  have "compile_candidate ''a'' ''a'' = Inr \<lparr>alt_segments = [''a''], alt_prefix = False\<rparr>"
    by (simp add: compile_candidate_def path_match_plain glob_plain_def)
  then have "CompilePattern ''a'' = Inr sample_compiled"
    unfolding sample_compiled_def by (intro CompilePattern_single) (simp_all add: ascii_def IsSpace_def)
  then show ?thesis by (simp add: compilePatterns_def)
qed

definition sample_document :: document where
  "sample_document =
     \<lparr>doc_groups = [\<lparr>rg_name = ''own'', rg_match = [''a'']\<rparr>],
      doc_types = [\<lparr>rt_name = ''app'', rt_detect = [''a''], rt_scopes = [(''source'', [''own'']), (''main'', [])]\<rparr>],
      doc_layers = \<lparr>rl_mode = ''report'', rl_unknown_role = [], rl_roles = [], rl_order = [], rl_forbid = []\<rparr>,
      doc_expect = []\<rparr>"

definition sample_scopes :: "string \<rightharpoonup> scope_rules" where
  "sample_scopes = [''source'' \<mapsto> \<lparr>scope_allow = [''own'']\<rparr>, ''main'' \<mapsto> \<lparr>scope_allow = []\<rparr>, ''tests'' \<mapsto> \<lparr>scope_allow = [''own'']\<rparr>]"

definition sample_loaded :: policy where
  "sample_loaded =
     \<lparr>policy_source = ''p.yaml'', policy_groups = [\<lparr>group_name = ''own'', group_patterns = [sample_compiled]\<rparr>],
      policy_types = [\<lparr>type_name = ''app'', type_detect = [sample_compiled], type_scopes = sample_scopes\<rparr>],
      policy_layers = \<lparr>layers_mode = ModeReport, layers_unknown_role = ''ignore'', layers_roles = [], layers_order = [],
         layers_forbid = []\<rparr>,
      policy_expectations = []\<rparr>"

lemma sample_document_compiles: "compile_document sample_document ''p.yaml'' = Inr sample_loaded"
  by (simp add: compile_document_def sample_document_def sample_patterns sample_loaded_def compile_layers_def
      ParseMode_def check_order_def sortedKeys_def check_allowed_def HasGroup_def inherit_scope_def sample_scopes_def
      ScopeSource_def ScopeTests_def ScopeMain_def GroupStdlib_def GroupUnclassified_def)

theorem Parse_wf_witness:
  "Parse (\<lambda>_. Inr sample_document) ''yaml'' ''p.yaml'' = Inr sample_loaded \<and> wf_policy sample_loaded"
proof -
  have "Parse (\<lambda>_. Inr sample_document) ''yaml'' ''p.yaml'' = Inr sample_loaded"
    by (simp add: Parse_def sample_document_compiles)
  with Parse_wf [OF this] show ?thesis by blast
qed

theorem silent_scope_inherits_source_witness:
  "\<exists>t \<in> set (policy_types sample_loaded). type_scopes t ''tests'' = type_scopes t ''source'' \<and>
     type_scopes t ''main'' = Some \<lparr>scope_allow = []\<rparr>"
proof -
  obtain t where t: "t \<in> set (policy_types sample_loaded)" by (simp add: sample_loaded_def)
  from silent_scope_inherits_source [OF sample_document_compiles t] t show ?thesis
    by (auto simp: sample_document_def ScopeSource_def ScopeTests_def ScopeMain_def)
qed

section \<open>The repository's declaration can only tighten\<close>

lemma LastIndexByte_None_iff: "LastIndexByte s b = None \<longleftrightarrow> b \<notin> set s"
  by (simp add: LastIndexByte_def IndexByte_None_iff)

lemma ParseSource_Inr:
  assumes "ParseSource raw = Inr s"
  shows "src_raw s = TrimSpace raw \<and> src_raw s \<noteq> [] \<and> CHR ''@'' \<notin> set (src_raw s) \<and>
    \<not> HasPrefix (src_raw s) ''http://'' \<and>
    (case src_kind s of SourcePath \<Rightarrow> src_path s = src_raw s
     | SourceFleet \<Rightarrow> src_owner s \<noteq> [] \<and> src_repo s \<noteq> [] \<and> src_path s \<noteq> []
     | SourceURL \<Rightarrow> src_url s = src_raw s \<and> HasPrefix (src_url s) ''https://'')"
proof -
  have "\<not> (HasPrefix t ''https://'' \<and> HasPrefix t ''http://'')" for t by (auto simp: HasPrefix_iff)
  with assms show ?thesis
    by (auto simp: ParseSource_def Let_def LastIndexByte_None_iff split: if_splits option.splits prod.splits)
qed

lemma load_fields_Inr:
  assumes "load_fields path kvs = Inr c"
  shows "fst ` set kvs \<subseteq> {''policy'', ''type'', ''strict''} \<and> cfg_found c \<and>
    (map_of kvs ''strict'' = None \<and> \<not> cfg_strict c \<or> map_of kvs ''strict'' = Some (YBool True) \<and> cfg_strict c) \<and>
    (cfg_policy c \<noteq> [] \<longrightarrow> is_ok (ParseSource (cfg_policy c)))"
proof -
  from assms have "List.find (\<lambda>k. k \<notin> {''policy'', ''type'', ''strict''}) (sortedKeys kvs) = None"
    by (auto simp: load_fields_def split: option.splits)
  then have keys: "fst ` set kvs \<subseteq> {''policy'', ''type'', ''strict''}"
    by (auto simp: find_None_all sortedKeys_def)
  from assms show ?thesis
    by (auto simp: keys load_fields_def split: if_splits sum.splits option.splits yaml_value.splits)
qed

text \<open>
  a declaration that is accepted sets no key but \<^verbatim>\<open>policy\<close>, \<^verbatim>\<open>type\<close> and \<^verbatim>\<open>strict\<close>, and
  the last only to true, so that it never asks for weaker rules; the policy it names is never
  pinned to a release and never fetched in the clear. A missing file is the empty declaration.
\<close>

theorem LoadRepoConfig_only_tightens:
  assumes "LoadRepoConfig readFile decode path = Inr c"
  shows "readFile path = NotExist \<and> c = no_config \<or>
    (\<exists>contents kvs. readFile path = Contents contents \<and> decode contents = Inr kvs \<and>
       fst ` set kvs \<subseteq> {''policy'', ''type'', ''strict''} \<and>
       cfg_strict c = (''strict'' \<in> fst ` set kvs) \<and> map_of kvs ''strict'' \<noteq> Some (YBool False) \<and>
       (cfg_policy c \<noteq> [] \<longrightarrow>
          (\<exists>s. ParseSource (cfg_policy c) = Inr s \<and> CHR ''@'' \<notin> set (src_raw s) \<and>
               \<not> HasPrefix (src_raw s) ''http://'')))"
proof (cases "readFile path")
  case (Contents contents)
  with assms obtain kvs where kvs: "decode contents = Inr kvs" "load_fields path kvs = Inr c"
    by (auto simp: LoadRepoConfig_def split: sum.splits)
  have s: "\<exists>s. ParseSource (cfg_policy c) = Inr s \<and> CHR ''@'' \<notin> set (src_raw s) \<and> \<not> HasPrefix (src_raw s) ''http://''"
    if ne: "cfg_policy c \<noteq> []"
  proof -
    from load_fields_Inr [OF kvs(2)] ne obtain s where "ParseSource (cfg_policy c) = Inr s"
      by (cases "ParseSource (cfg_policy c)") auto
    with ParseSource_Inr show ?thesis by blast
  qed
  have "cfg_strict c = (''strict'' \<in> fst ` set kvs)" "map_of kvs ''strict'' \<noteq> Some (YBool False)"
    using load_fields_Inr [OF kvs(2)] map_of_eq_None_iff [of kvs "''strict''"] by auto
  with Contents kvs(1) s load_fields_Inr [OF kvs(2)] show ?thesis by blast
qed (use assms in \<open>auto simp: LoadRepoConfig_def\<close>)

theorem LoadRepoConfig_only_tightens_witness:
  "\<exists>c. LoadRepoConfig (\<lambda>_. Contents ''strict: true'') (\<lambda>_. Inr [(''strict'', YBool True)]) ''x'' = Inr c \<and> cfg_strict c"
proof -
  obtain c where c: "LoadRepoConfig (\<lambda>_. Contents ''strict: true'') (\<lambda>_. Inr [(''strict'', YBool True)]) ''x'' = Inr c"
    by (simp add: LoadRepoConfig_def load_fields_def sortedKeys_def)
  from LoadRepoConfig_only_tightens [OF c] c show ?thesis by auto
qed

end
