(* ===== verification/Go_Filepath.thy ===== *)
theory Go_Filepath
  imports Go_Strings
begin

text \<open>
  The part of Go's \<^verbatim>\<open>path/filepath\<close> the modelled code calls, on a system whose separator is
  the slash: \<^verbatim>\<open>IsAbs\<close>, \<^verbatim>\<open>Clean\<close>, \<^verbatim>\<open>Join\<close> and \<^verbatim>\<open>Base\<close>.
\<close>

definition IsAbs :: "string \<Rightarrow> bool" where
  "IsAbs p = HasPrefix p ''/''"

text \<open>\<open>clean_segments rooted out segs\<close>: \<open>out\<close> holds the kept segments, the last one first.\<close>

fun clean_segments :: "bool \<Rightarrow> string list \<Rightarrow> string list \<Rightarrow> string list" where
  "clean_segments rooted out [] = rev out"
| "clean_segments rooted out (s # ss) =
     (if s = [] \<or> s = ''.'' then clean_segments rooted out ss
      else if s = ''..'' then
        (case out of
           [] \<Rightarrow> clean_segments rooted (if rooted then [] else [s]) ss
         | t # ts \<Rightarrow> clean_segments rooted (if t = ''..'' then s # out else ts) ss)
      else clean_segments rooted (s # out) ss)"

definition Clean :: "string \<Rightarrow> string" where
  "Clean p =
     (let segs = clean_segments (IsAbs p) [] (Split p (CHR ''/'')) in
      if IsAbs p then CHR ''/'' # Join segs ''/''
      else if segs = [] then ''.'' else Join segs ''/'')"

definition filepath_Join :: "string list \<Rightarrow> string" where
  "filepath_Join elems =
     (let present = dropWhile (\<lambda>e. e = []) elems in
      if present = [] then [] else Clean (Join present ''/''))"

definition Base :: "string \<Rightarrow> string" where
  "Base p =
     (if p = [] then ''.''
      else let stripped = rev (dropWhile (\<lambda>c. c = CHR ''/'') (rev p));
               name = rev (takeWhile (\<lambda>c. c \<noteq> CHR ''/'') (rev stripped))
        in if name = [] then ''/'' else name)"

text \<open>A path that \<^verbatim>\<open>Clean\<close> leaves alone names its segments one by one.\<close>

definition plain_segment :: "string \<Rightarrow> bool" where
  "plain_segment s \<longleftrightarrow> s \<noteq> [] \<and> s \<noteq> ''.'' \<and> s \<noteq> ''..''"

lemma clean_segments_plain:
  "list_all plain_segment segs \<Longrightarrow> clean_segments rooted out segs = rev out @ segs"
  by (induction segs arbitrary: out) (auto simp: plain_segment_def)

lemma Clean_plain_rooted:
  assumes "list_all plain_segment segs" "segs \<noteq> []" "\<forall>s \<in> set segs. CHR ''/'' \<notin> set s"
  shows "Clean (CHR ''/'' # Join segs ''/'') = CHR ''/'' # Join segs ''/''"
proof -
  have "Split (CHR ''/'' # Join segs ''/'') (CHR ''/'') = [] # segs"
    using Split_Join [of segs] assms by (simp add: Split_append_sep [of _ "[]", simplified])
  then show ?thesis using assms(1) by (simp add: Clean_def IsAbs_def HasPrefix_def clean_segments_plain)
qed

end
