(* ===== verification/Step_System.thy ===== *)
theory Step_System
  imports WB_Prelude
begin

text \<open>
  State machines as the components use them: the states reachable from the initial ones by
  a step relation, and the interface of an inductive invariant. A component interprets
  \<open>invariant_system\<close> on its own initial states, steps and invariant; what follows from the
  invariant for every reachable state is proved once, here.
\<close>

inductive reachable :: "('s \<Rightarrow> bool) \<Rightarrow> ('s \<Rightarrow> 's \<Rightarrow> bool) \<Rightarrow> 's \<Rightarrow> bool"
  for init :: "'s \<Rightarrow> bool" and step :: "'s \<Rightarrow> 's \<Rightarrow> bool" where
  reachable_init: "init s \<Longrightarrow> reachable init step s"
| reachable_step: "reachable init step s \<Longrightarrow> step s t \<Longrightarrow> reachable init step t"

lemma reachable_steps: "reachable init step s \<Longrightarrow> step\<^sup>*\<^sup>* s t \<Longrightarrow> reachable init step t"
  by (rotate_tac, induction rule: rtranclp_induct) (auto intro: reachable.intros)

locale invariant_system =
  fixes init :: "'s \<Rightarrow> bool" and step :: "'s \<Rightarrow> 's \<Rightarrow> bool" and inv :: "'s \<Rightarrow> bool"
  assumes init_inv: "init s \<Longrightarrow> inv s"
    and step_inv: "inv s \<Longrightarrow> step s t \<Longrightarrow> inv t"
begin

lemma reachable_inv: "reachable init step s \<Longrightarrow> inv s"
  by (induction rule: reachable.induct) (auto intro: init_inv step_inv)

lemma steps_inv: "inv s \<Longrightarrow> step\<^sup>*\<^sup>* s t \<Longrightarrow> inv t"
  by (rotate_tac, induction rule: rtranclp_induct) (auto intro: step_inv)

end

lemma unat_succ:
  fixes w :: "'a::len word"
  assumes "w \<noteq> - 1"
  shows "unat (w + 1) = unat w + 1"
proof -
  have nz: "w + 1 \<noteq> 0" using assms by (metis add.inverse_unique add.commute)
  then have "unat (w + 1) \<noteq> 0" by (simp add: unat_eq_0)
  with unat_minus_one [OF nz] show ?thesis by simp
qed

text \<open>
  A measure that a step either keeps, changing nothing, or moves by exactly one unit: the
  revision counters of the components. A machine word may wrap, but one unit is never none.
\<close>

locale revisioned =
  fixes step :: "'s \<Rightarrow> 's \<Rightarrow> bool" and revision :: "'s \<Rightarrow> 'w::len word"
  assumes step_revision: "step s t \<Longrightarrow> t = s \<or> revision t = revision s + 1"
begin

lemma revision_detects_change: "step s t \<Longrightarrow> revision t = revision s \<longleftrightarrow> t = s"
  using step_revision [of s t] by auto

lemma revision_counts_changes:
  assumes "step\<^sup>*\<^sup>* s t"
  shows "\<exists>n. revision t = revision s + of_nat n \<and> (n = 0 \<longrightarrow> t = s)"
  using assms
proof (induction rule: rtranclp_induct)
  case base
  show ?case by (intro exI [of _ 0]) simp
next
  case (step t u)
  then obtain n where n: "revision t = revision s + of_nat n" "n = 0 \<longrightarrow> t = s" by blast
  from step_revision [OF step.hyps(2)] show ?case
  proof
    assume "u = t"
    with n show ?thesis by blast
  next
    assume "revision u = revision t + 1"
    with n(1) show ?thesis by (intro exI [of _ "Suc n"]) (simp add: algebra_simps)
  qed
qed

end

text \<open>
  A lease: something one party holds, and operations of others that respect the holder. What
  one respectful operation keeps, any sequence of them keeps.
\<close>

fun run_ops :: "('op \<Rightarrow> 's \<Rightarrow> 's) \<Rightarrow> 'op list \<Rightarrow> 's \<Rightarrow> 's" where
  "run_ops run [] s = s"
| "run_ops run (a # as) s = run_ops run as (run a s)"

fun all_respect :: "('op \<Rightarrow> 's \<Rightarrow> bool) \<Rightarrow> ('op \<Rightarrow> 's \<Rightarrow> 's) \<Rightarrow> 'op list \<Rightarrow> 's \<Rightarrow> bool" where
  "all_respect ok run [] s \<longleftrightarrow> True"
| "all_respect ok run (a # acts) s \<longleftrightarrow> ok a s \<and> all_respect ok run acts (run a s)"

locale lease =
  fixes held :: "'s \<Rightarrow> 'v" and run :: "'op \<Rightarrow> 's \<Rightarrow> 's" and ok :: "'op \<Rightarrow> 's \<Rightarrow> bool"
  assumes respected: "ok a s \<Longrightarrow> held (run a s) = held s"
begin

lemma held_through: "all_respect ok run acts s \<Longrightarrow> held (run_ops run acts s) = held s"
  by (induction acts arbitrary: s) (auto simp: respected)

end

end
