(* ===== verification/Collab.thy ===== *)
theory Collab
  imports Go_Filepath Step_System
begin

text \<open>
  Worktree coordination (\<^verbatim>\<open>internal/worktreecollab/coordination.go\<close>): the current owner, the
  joined sessions and the private inboxes of one checkout. Counters are 64-bit words. The two
  things the package takes from elsewhere are parameters: \<open>digest\<close> is the hexadecimal SHA-256
  of a body, \<open>marshal\<close> the JSON encoder of a recovery audit. A Go map is a partial function;
  \<open>Requests\<close>, whose length and entries the code reads, is an association list. The five maps
  of a decoded snapshot may be nil: \<open>st_complete\<close> says that none is. A method with a pointer
  receiver takes the state and returns the changed one; a nil receiver is not modelled.
\<close>

section \<open>Data\<close>

definition SchemaVersion :: int where "SchemaVersion = 1"
definition MaxMessageBodyBytes :: nat where "MaxMessageBodyBytes = 65536"
definition MaxPendingPerPeer :: nat where "MaxPendingPerPeer = 128"
definition MaxStoredMessages :: nat where "MaxStoredMessages = 4096"
definition NoOwner :: string where "NoOwner = ''none''"

record checkout =
  co_id :: string
  co_root :: string
  co_git_dir :: string
  co_common_dir :: string

record observed_owner =
  oo_id :: string
  oo_session :: string
  oo_status :: string

record member =
  joined_at :: go_time

record owner_change =
  oc_epoch :: "64 word"
  oc_previous :: string
  oc_current :: string
  oc_actor :: string
  oc_reason :: string
  oc_forced :: bool
  oc_at :: go_time

record checkout_rebind =
  rb_previous_root :: string
  rb_current_root :: string
  rb_actor :: string
  rb_at :: go_time

record message =
  msg_id :: string
  msg_sequence :: "64 word"
  msg_sender :: string
  msg_recipient :: string
  msg_kind :: string
  msg_body :: string
  msg_digest :: string
  msg_owner_epoch :: "64 word"
  msg_recorded_at :: go_time
  msg_consumed_at :: go_time

record send_receipt =
  rc_message_id :: string
  rc_sender :: string
  rc_recipients :: "string list"
  rc_kind :: string
  rc_body :: string
  rc_digest :: string
  rc_owner_epoch :: "64 word"

record state =
  st_version :: int
  st_checkout :: checkout
  st_revision :: "64 word"
  st_owner :: string
  st_owner_epoch :: "64 word"
  st_members :: "string \<rightharpoonup> member"
  st_owner_changes :: "owner_change list"
  st_rebinds :: "checkout_rebind list"
  st_notices :: "string \<rightharpoonup> owner_change"
  st_inboxes :: "string \<Rightarrow> message list"
  st_requests :: "(string \<times> send_receipt) list"
  st_cursors :: "string \<Rightarrow> 64 word"
  st_complete :: bool

record take_request =
  tk_caller :: string
  tk_expected_owner :: string
  tk_legacy :: observed_owner
  tk_owner_status :: string
  tk_force :: bool
  tk_reason :: string
  tk_at :: go_time

record recovery =
  rv_handoff_approval :: string
  rv_expected_root :: string
  rv_expected_owner :: string
  rv_expected_epoch :: "64 word"
  rv_expected_revision :: "64 word"
  rv_owner_status :: string
  rv_actor :: string
  rv_reason :: string
  rv_at :: go_time

record coordination_binding =
  cb_root :: string
  cb_owner :: string
  cb_epoch :: "64 word"
  cb_revision :: "64 word"

record recovery_audit =
  au_handoff_approval :: string
  au_owner_status :: string
  au_reason :: string
  au_expected :: coordination_binding
  au_resulting :: coordination_binding

record send_request =
  sr_sender :: string
  sr_recipients :: "string list"
  sr_key :: string
  sr_message_id :: string
  sr_kind :: string
  sr_body :: string
  sr_at :: go_time

datatype collab_error =
    CheckoutIncomplete
  | EnvelopeInvalid | OwnerNotJoined | CollectionsIncomplete | CheckoutMismatch | RebindMismatch
  | RecoveryCaller | RecoveryOwner | RecoverySameCaller | RecoveryCounters | RecoveryStatus string | RecoveryReason
  | RecoveryCompleted | ConflictOwner string string | ConflictEpoch | ConflictRevision | CountersExhausted
  | AuditFailed string
  | TakeInvalid | TakeUninitialized | LegacyUnresolved | TakeNeedsForce
  | JoinInvalid | LeaveInvalid | OwnerMustTransfer
  | TransferInvalid | SuccessorNotLive | SuccessorNotJoined
  | MessageInvalid | SenderNotJoined | RecipientsInvalid | KeyConflict | StorageFull | MessageIdRecorded
  | RecipientNotJoined string | InboxFull string
  | RecipientInvalid | NotJoined | AckInvalid | DigestDiffers | MessageMissing string
  | RebindNotOwner

section \<open>Identifiers and checkouts\<close>

definition validID :: "string \<Rightarrow> bool" where
  "validID value \<longleftrightarrow>
     \<not> (value = [] \<or> length value > 128 \<or> TrimSpace value \<noteq> value) \<and>
     list_all (\<lambda>(r, _). \<not> (r < of_char (CHR ''!'') \<or> r > of_char (CHR ''~'') \<or>
                 r = of_char (CHR ''/'') \<or> r = of_char (CHR 0x5C))) (utf8_chunks value)"

definition checkout_id_rune :: "rune \<Rightarrow> bool" where
  "checkout_id_rune r \<longleftrightarrow>
     r = of_char (CHR ''-'') \<or> r = of_char (CHR ''_'') \<or>
     (of_char (CHR ''0'') \<le> r \<and> r \<le> of_char (CHR ''9'')) \<or>
     (of_char (CHR ''A'') \<le> r \<and> r \<le> of_char (CHR ''Z'')) \<or>
     (of_char (CHR ''a'') \<le> r \<and> r \<le> of_char (CHR ''z''))"

definition checkout_Validate :: "checkout \<Rightarrow> (collab_error, unit) result" where
  "checkout_Validate co =
     (if \<not> validID (co_id co) \<or> list_ex (\<lambda>(r, _). \<not> checkout_id_rune r) (utf8_chunks (co_id co)) \<or>
         co_root co = [] \<or> co_git_dir co = [] \<or> co_common_dir co = []
      then Inl CheckoutIncomplete else Inr ())"

definition New :: "checkout \<Rightarrow> (collab_error, state) result" where
  "New co =
     (case checkout_Validate co of Inl e \<Rightarrow> Inl e
      | Inr _ \<Rightarrow> Inr \<lparr>st_version = SchemaVersion, st_checkout = co, st_revision = 0, st_owner = [], st_owner_epoch = 0,
          st_members = Map.empty, st_owner_changes = [], st_rebinds = [], st_notices = Map.empty,
          st_inboxes = (\<lambda>_. []), st_requests = [], st_cursors = (\<lambda>_. 0), st_complete = True\<rparr>)"

definition validateEnvelope :: "state \<Rightarrow> (collab_error, unit) result" where
  "validateEnvelope s =
     (if st_version s \<noteq> SchemaVersion \<or> \<not> validID (st_owner s) then Inl EnvelopeInvalid
      else if st_members s (st_owner s) = None then Inl OwnerNotJoined
      else if \<not> st_complete s then Inl CollectionsIncomplete
      else Inr ())"

definition state_Validate :: "state \<Rightarrow> checkout \<Rightarrow> (collab_error, unit) result" where
  "state_Validate s co =
     (case validateEnvelope s of Inl e \<Rightarrow> Inl e
      | Inr _ \<Rightarrow> if st_checkout s \<noteq> co then Inl CheckoutMismatch else Inr ())"

definition ValidateRebind :: "state \<Rightarrow> checkout \<Rightarrow> string \<Rightarrow> (collab_error, unit) result" where
  "ValidateRebind s co expectedRoot =
     (case validateEnvelope s of Inl e \<Rightarrow> Inl e
      | Inr _ \<Rightarrow>
          if expectedRoot = [] \<or> \<not> IsAbs expectedRoot \<or> Clean expectedRoot \<noteq> expectedRoot \<or>
             expectedRoot = co_root co \<or> co_root (st_checkout s) \<noteq> expectedRoot \<or>
             co_id (st_checkout s) \<noteq> co_id co \<or> co_git_dir (st_checkout s) \<noteq> co_git_dir co \<or>
             co_common_dir (st_checkout s) \<noteq> co_common_dir co
          then Inl RebindMismatch else Inr ())"

section \<open>Recovery of an inactive owner\<close>

definition maxCounter :: "64 word" where "maxCounter = - 1"

definition allowsOwnerStatus :: "recovery \<Rightarrow> string \<Rightarrow> bool" where
  "allowsOwnerStatus rv status =
     (if rv_handoff_approval rv \<noteq> [] then TrimSpace (rv_handoff_approval rv) \<noteq> [] \<and> status = ''unknown''
      else status = ''inactive'')"

definition handoffOwnerStatus :: "recovery \<Rightarrow> string" where
  "handoffOwnerStatus rv = (if rv_handoff_approval rv \<noteq> [] then rv_owner_status rv else [])"

definition recovery_validate :: "recovery \<Rightarrow> (collab_error, unit) result" where
  "recovery_validate rv =
     (if \<not> validID (rv_actor rv) \<or> rv_actor rv = NoOwner \<or> is_zero_time (rv_at rv) then Inl RecoveryCaller
      else if \<not> validID (rv_expected_owner rv) \<or> rv_expected_owner rv = NoOwner then Inl RecoveryOwner
      else if rv_expected_owner rv = rv_actor rv then Inl RecoverySameCaller
      else if rv_expected_epoch rv = 0 \<or> rv_expected_revision rv = 0 then Inl RecoveryCounters
      else if \<not> allowsOwnerStatus rv (rv_owner_status rv) then Inl (RecoveryStatus (rv_owner_status rv))
      else if TrimSpace (rv_reason rv) = [] then Inl RecoveryReason
      else Inr ())"

definition auditReason :: "(recovery_audit \<Rightarrow> (string, string) result) \<Rightarrow> recovery \<Rightarrow> checkout \<Rightarrow> (string, string) result" where
  "auditReason marshal rv co =
     marshal \<lparr>au_handoff_approval = rv_handoff_approval rv, au_owner_status = handoffOwnerStatus rv,
       au_reason = TrimSpace (rv_reason rv),
       au_expected = \<lparr>cb_root = rv_expected_root rv, cb_owner = rv_expected_owner rv,
         cb_epoch = rv_expected_epoch rv, cb_revision = rv_expected_revision rv\<rparr>,
       au_resulting = \<lparr>cb_root = co_root co, cb_owner = rv_actor rv,
         cb_epoch = rv_expected_epoch rv + 1, cb_revision = rv_expected_revision rv + 1\<rparr>\<rparr>"

definition recordChange :: "owner_change \<Rightarrow> state \<Rightarrow> state" where
  "recordChange change s =
     s\<lparr>st_owner_changes := st_owner_changes s @ [change],
       st_notices := (\<lambda>m. case st_members s m of Some _ \<Rightarrow> Some change | None \<Rightarrow> st_notices s m)\<rparr>"

definition completedInactiveOwnerRecovery :: "state \<Rightarrow> checkout \<Rightarrow> recovery \<Rightarrow> bool" where
  "completedInactiveOwnerRecovery s co rv =
     (if rv_expected_epoch rv = maxCounter \<or> rv_expected_revision rv = maxCounter then False
      else if st_owner s \<noteq> rv_actor rv \<or> st_owner_epoch s \<noteq> rv_expected_epoch rv + 1 \<or>
              st_revision s \<noteq> rv_expected_revision rv + 1 \<or> st_checkout s \<noteq> co then False
      else if st_rebinds s = [] \<or> st_owner_changes s = [] then False
      else let rebind = last (st_rebinds s); change = last (st_owner_changes s) in
        if rb_previous_root rebind \<noteq> rv_expected_root rv \<or> rb_current_root rebind \<noteq> co_root co \<or>
           rb_actor rebind \<noteq> rv_actor rv then False
        else oc_epoch change = st_owner_epoch s \<and> oc_previous change = rv_expected_owner rv \<and>
             oc_current change = rv_actor rv \<and> oc_actor change = rv_actor rv)"

definition recover_publish :: "checkout \<Rightarrow> recovery \<Rightarrow> string \<Rightarrow> state \<Rightarrow> state" where
  "recover_publish co rv reason s =
     (let s1 = (case st_members s (rv_actor rv) of
                  Some _ \<Rightarrow> s
                | None \<Rightarrow> s\<lparr>st_members := (st_members s)(rv_actor rv \<mapsto> \<lparr>joined_at = rv_at rv\<rparr>)\<rparr>);
          s2 = s1\<lparr>st_checkout := co, st_owner := rv_actor rv, st_owner_epoch := st_owner_epoch s1 + 1,
                  st_revision := st_revision s1 + 1,
                  st_rebinds := st_rebinds s1 @
                    [\<lparr>rb_previous_root = rv_expected_root rv, rb_current_root = co_root co,
                      rb_actor = rv_actor rv, rb_at = rv_at rv\<rparr>]\<rparr>
      in recordChange
           \<lparr>oc_epoch = st_owner_epoch s2, oc_previous = rv_expected_owner rv, oc_current = rv_actor rv,
            oc_actor = rv_actor rv, oc_reason = reason, oc_forced = (rv_handoff_approval rv \<noteq> []),
            oc_at = rv_at rv\<rparr> s2)"

definition RecoverInactiveOwner ::
  "(recovery_audit \<Rightarrow> (string, string) result) \<Rightarrow> checkout \<Rightarrow> recovery \<Rightarrow> state \<Rightarrow> (collab_error, state) result" where
  "RecoverInactiveOwner marshal co rv s =
     (case recovery_validate rv of
        Inl e \<Rightarrow> Inl e
      | Inr _ \<Rightarrow>
          if completedInactiveOwnerRecovery s co rv then Inl RecoveryCompleted
          else (case ValidateRebind s co (rv_expected_root rv) of
             Inl e \<Rightarrow> Inl e
           | Inr _ \<Rightarrow>
               if st_owner s \<noteq> rv_expected_owner rv then Inl (ConflictOwner (rv_expected_owner rv) (st_owner s))
               else if st_owner_epoch s \<noteq> rv_expected_epoch rv then Inl ConflictEpoch
               else if st_revision s \<noteq> rv_expected_revision rv then Inl ConflictRevision
               else if st_owner_epoch s = maxCounter \<or> st_revision s = maxCounter then Inl CountersExhausted
               else (case auditReason marshal rv co of
                  Inl e \<Rightarrow> Inl (AuditFailed e)
                | Inr reason \<Rightarrow>
                    Inr (recover_publish co rv reason s))))"

section \<open>Ownership and membership\<close>

text \<open>The owner a takeover is compared with: the recorded one, or the legacy observation.\<close>

definition take_observed :: "state \<Rightarrow> take_request \<Rightarrow> string" where
  "take_observed s rq =
     (if st_owner s \<noteq> [] then st_owner s
      else if oo_id (tk_legacy rq) = [] then NoOwner else oo_id (tk_legacy rq))"

definition take_status :: "state \<Rightarrow> take_request \<Rightarrow> string" where
  "take_status s rq = (if st_owner s \<noteq> [] then tk_owner_status rq else oo_status (tk_legacy rq))"

definition take_publish :: "take_request \<Rightarrow> string \<Rightarrow> state \<Rightarrow> state" where
  "take_publish rq observed s =
     (let s1 = s\<lparr>st_members := (st_members s)(tk_caller rq \<mapsto> \<lparr>joined_at = tk_at rq\<rparr>), st_owner := tk_caller rq,
                 st_owner_epoch := st_owner_epoch s + 1, st_revision := st_revision s + 1\<rparr>
      in recordChange
           \<lparr>oc_epoch = st_owner_epoch s1, oc_previous = observed, oc_current = tk_caller rq, oc_actor = tk_caller rq,
            oc_reason = TrimSpace (tk_reason rq), oc_forced = tk_force rq, oc_at = tk_at rq\<rparr> s1)"

definition Take :: "take_request \<Rightarrow> state \<Rightarrow> (collab_error, state) result" where
  "Take rq s =
     (if \<not> validID (tk_caller rq) \<or> tk_caller rq = NoOwner \<or> is_zero_time (tk_at rq) \<or> \<not> validID (tk_expected_owner rq)
      then Inl TakeInvalid
      else if st_version s \<noteq> SchemaVersion \<or> \<not> st_complete s then Inl TakeUninitialized
      else if st_owner s = [] \<and> oo_id (tk_legacy rq) = [] \<and>
              (oo_status (tk_legacy rq) \<noteq> [] \<or> oo_session (tk_legacy rq) \<noteq> []) then Inl LegacyUnresolved
      else let observed = take_observed s rq; status = take_status s rq in
        if observed \<noteq> tk_expected_owner rq then Inl (ConflictOwner (tk_expected_owner rq) observed)
        else if observed = tk_caller rq \<and> st_owner s = tk_caller rq then Inr s
        else let selfLegacy = (st_owner s = [] \<and> oo_session (tk_legacy rq) = tk_caller rq \<and> observed \<noteq> NoOwner) in
          if observed \<noteq> NoOwner \<and> \<not> selfLegacy \<and> status \<noteq> ''inactive'' \<and>
             (\<not> tk_force rq \<or> TrimSpace (tk_reason rq) = []) then Inl TakeNeedsForce
          else Inr (take_publish rq observed s))"

definition join_session :: "string \<Rightarrow> go_time \<Rightarrow> state \<Rightarrow> (collab_error, state) result" where
  "join_session caller at s =
     (if \<not> validID caller \<or> caller = NoOwner \<or> is_zero_time at \<or> st_owner s = [] then Inl JoinInvalid
      else (case st_members s caller of
              Some _ \<Rightarrow> Inr s
            | None \<Rightarrow> Inr (s\<lparr>st_members := (st_members s)(caller \<mapsto> \<lparr>joined_at = at\<rparr>),
                             st_revision := st_revision s + 1\<rparr>)))"

definition Leave :: "string \<Rightarrow> state \<Rightarrow> (collab_error, state) result" where
  "Leave caller s =
     (if \<not> validID caller \<or> st_owner s = [] then Inl LeaveInvalid
      else if st_owner s = caller then Inl OwnerMustTransfer
      else (case st_members s caller of
              None \<Rightarrow> Inr s
            | Some _ \<Rightarrow> Inr (s\<lparr>st_members := (st_members s)(caller := None), st_revision := st_revision s + 1\<rparr>)))"

definition transfer_publish :: "string \<Rightarrow> string \<Rightarrow> go_time \<Rightarrow> state \<Rightarrow> state" where
  "transfer_publish caller successor at s =
     (let s1 = s\<lparr>st_owner := successor, st_owner_epoch := st_owner_epoch s + 1, st_revision := st_revision s + 1\<rparr>
      in recordChange
           \<lparr>oc_epoch = st_owner_epoch s1, oc_previous = caller, oc_current = successor, oc_actor = caller,
            oc_reason = [], oc_forced = False, oc_at = at\<rparr> s1)"

definition Transfer :: "string \<Rightarrow> string \<Rightarrow> bool \<Rightarrow> go_time \<Rightarrow> state \<Rightarrow> (collab_error, state) result" where
  "Transfer caller successor successorLive at s =
     (if \<not> validID caller \<or> \<not> validID successor \<or> is_zero_time at \<or> st_owner s \<noteq> caller then Inl TransferInvalid
      else if \<not> successorLive then Inl SuccessorNotLive
      else if st_members s successor = None then Inl SuccessorNotJoined
      else if successor = caller then Inr s
      else Inr (transfer_publish caller successor at s))"

text \<open>The change \<^verbatim>\<open>Store.Rebind\<close> applies to a loaded snapshot.\<close>

definition rebind_change :: "checkout \<Rightarrow> string \<Rightarrow> string \<Rightarrow> go_time \<Rightarrow> state \<Rightarrow> (collab_error, state) result" where
  "rebind_change co expectedRoot actor at s =
     (case ValidateRebind s co expectedRoot of
        Inl e \<Rightarrow> Inl e
      | Inr _ \<Rightarrow>
          if st_owner s \<noteq> actor then Inl RebindNotOwner
          else Inr (s\<lparr>st_checkout := co, st_revision := st_revision s + 1,
                 st_rebinds := st_rebinds s @
                   [\<lparr>rb_previous_root = expectedRoot, rb_current_root = co_root co, rb_actor = actor, rb_at = at\<rparr>]\<rparr>))"

section \<open>Messages\<close>

definition unread :: "message \<Rightarrow> bool" where
  "unread m = is_zero_time (msg_consumed_at m)"

fun adjacent_distinct :: "string list \<Rightarrow> bool" where
  "adjacent_distinct (x # y # zs) \<longleftrightarrow> x \<noteq> y \<and> adjacent_distinct (y # zs)"
| "adjacent_distinct _ \<longleftrightarrow> True"

definition check_recipient :: "state \<Rightarrow> string \<Rightarrow> (collab_error, unit) result" where
  "check_recipient s recipient =
     (if st_members s recipient = None then Inl (RecipientNotJoined recipient)
      else if MaxPendingPerPeer \<le> length (filter unread (st_inboxes s recipient)) then Inl (InboxFull recipient)
      else Inr ())"

definition new_message :: "send_request \<Rightarrow> send_receipt \<Rightarrow> 64 word \<Rightarrow> message list \<Rightarrow> string \<Rightarrow> message" where
  "new_message rq receipt epoch box recipient =
     \<lparr>msg_id = sr_message_id rq, msg_sequence = of_nat (length box + 1), msg_sender = sr_sender rq,
      msg_recipient = recipient, msg_kind = sr_kind rq, msg_body = sr_body rq, msg_digest = rc_digest receipt,
      msg_owner_epoch = epoch, msg_recorded_at = sr_at rq, msg_consumed_at = 0\<rparr>"

definition deliver :: "send_request \<Rightarrow> send_receipt \<Rightarrow> state \<Rightarrow> string \<Rightarrow> state" where
  "deliver rq receipt s recipient =
     s\<lparr>st_inboxes := (st_inboxes s)(recipient := st_inboxes s recipient @
        [new_message rq receipt (st_owner_epoch s) (st_inboxes s recipient) recipient])\<rparr>"

definition send_publish :: "send_request \<Rightarrow> send_receipt \<Rightarrow> state \<Rightarrow> state" where
  "send_publish rq receipt s =
     (let s1 = foldl (deliver rq receipt) s (rc_recipients receipt)
      in s1\<lparr>st_requests := st_requests s1 @ [(sr_key rq, receipt)], st_revision := st_revision s1 + 1\<rparr>)"

definition Send ::
  "(string \<Rightarrow> string) \<Rightarrow> send_request \<Rightarrow> state \<Rightarrow> (collab_error, send_receipt \<times> bool \<times> state) result" where
  "Send digest rq s =
     (if \<not> validID (sr_sender rq) \<or> \<not> validID (sr_key rq) \<or> \<not> validID (sr_message_id rq) \<or> is_zero_time (sr_at rq) \<or>
         sr_kind rq \<noteq> ''text'' \<or> length (sr_body rq) > MaxMessageBodyBytes \<or> sr_recipients rq = []
      then Inl MessageInvalid
      else if st_members s (sr_sender rq) = None then Inl SenderNotJoined
      else let recipients = sort (sr_recipients rq) in
        if \<not> list_all validID recipients \<or> \<not> adjacent_distinct recipients then Inl RecipientsInvalid
        else (case map_of (st_requests s) (sr_key rq) of
           Some prior \<Rightarrow>
             if rc_sender prior \<noteq> sr_sender rq \<or> rc_kind prior \<noteq> sr_kind rq \<or> rc_body prior \<noteq> sr_body rq \<or>
                rc_recipients prior \<noteq> recipients then Inl KeyConflict
             else Inr (prior, True, s)
         | None \<Rightarrow>
             if MaxStoredMessages \<le> length (st_requests s) then Inl StorageFull
             else if list_ex (\<lambda>(_, prior). rc_message_id prior = sr_message_id rq) (st_requests s)
               then Inl MessageIdRecorded
             else (case map_result (check_recipient s) recipients of
                Inl e \<Rightarrow> Inl e
              | Inr _ \<Rightarrow>
                  let receipt = \<lparr>rc_message_id = sr_message_id rq, rc_sender = sr_sender rq, rc_recipients = recipients,
                        rc_kind = sr_kind rq, rc_body = sr_body rq, rc_digest = digest (sr_body rq),
                        rc_owner_epoch = st_owner_epoch s\<rparr>
                  in Inr (receipt, False, send_publish rq receipt s))))"

definition Inbox :: "string \<Rightarrow> state \<Rightarrow> (collab_error, message list) result" where
  "Inbox recipient s =
     (if \<not> validID recipient then Inl RecipientInvalid
      else if st_members s recipient = None then Inl NotJoined
      else Inr (filter unread (st_inboxes s recipient)))"

text \<open>The loop that moves a cursor over the consumed messages that follow it without a gap.\<close>

fun advance_cursor :: "message list \<Rightarrow> 64 word \<Rightarrow> 64 word" where
  "advance_cursor [] cursor = cursor"
| "advance_cursor (item # items) cursor =
     (if msg_sequence item \<le> cursor then advance_cursor items cursor
      else if msg_sequence item \<noteq> cursor + 1 \<or> unread item then cursor
      else advance_cursor items (cursor + 1))"

fun index_of :: "string \<Rightarrow> message list \<Rightarrow> nat option" where
  "index_of messageID [] = None"
| "index_of messageID (m # ms) = (if msg_id m = messageID then Some 0 else map_option Suc (index_of messageID ms))"

definition ack_publish :: "string \<Rightarrow> nat \<Rightarrow> go_time \<Rightarrow> state \<Rightarrow> 64 word \<times> state" where
  "ack_publish recipient i at s =
     (let box = (st_inboxes s recipient)[i := (st_inboxes s recipient ! i)\<lparr>msg_consumed_at := at\<rparr>];
          cursor = advance_cursor box (st_cursors s recipient)
      in (cursor,
          s\<lparr>st_inboxes := (st_inboxes s)(recipient := box),
            st_cursors := (st_cursors s)(recipient := cursor), st_revision := st_revision s + 1\<rparr>))"

definition Ack :: "string \<Rightarrow> string \<Rightarrow> string \<Rightarrow> go_time \<Rightarrow> state \<Rightarrow> (collab_error, 64 word \<times> state) result" where
  "Ack recipient messageID messageDigest at s =
     (if \<not> validID recipient \<or> \<not> validID messageID \<or> is_zero_time at then Inl AckInvalid
      else if st_members s recipient = None then Inl NotJoined
      else (case index_of messageID (st_inboxes s recipient) of
         None \<Rightarrow> Inl (MessageMissing messageID)
       | Some i \<Rightarrow>
           let m = st_inboxes s recipient ! i in
           if msg_digest m \<noteq> messageDigest then Inl DigestDiffers
           else if \<not> unread m then Inr (st_cursors s recipient, s)
           else Inr (ack_publish recipient i at s)))"

end
