(* ===== verification/Collab_Inv.thy ===== *)
theory Collab_Inv
  imports Collab
begin

text \<open>
  What every coordination state satisfies: the operations as one step relation, the ownership
  history and the mailboxes as two invariants, and the consequences for a reachable state.
\<close>

section \<open>The operations as steps\<close>

datatype op =
    DoTake take_request
  | DoJoin string go_time
  | DoLeave string
  | DoTransfer string string bool go_time
  | DoRecover checkout recovery
  | DoRebind checkout string string go_time
  | DoSend send_request
  | DoAck string string string go_time

fun apply_op ::
  "(string \<Rightarrow> string) \<Rightarrow> (recovery_audit \<Rightarrow> (string, string) result) \<Rightarrow> op \<Rightarrow> state \<Rightarrow> (collab_error, state) result" where
  "apply_op digest marshal (DoTake rq) s = Take rq s"
| "apply_op digest marshal (DoJoin caller at) s = join_session caller at s"
| "apply_op digest marshal (DoLeave caller) s = Leave caller s"
| "apply_op digest marshal (DoTransfer caller successor live at) s = Transfer caller successor live at s"
| "apply_op digest marshal (DoRecover co rv) s = RecoverInactiveOwner marshal co rv s"
| "apply_op digest marshal (DoRebind co root actor at) s = rebind_change co root actor at s"
| "apply_op digest marshal (DoSend rq) s = (case Send digest rq s of Inl e \<Rightarrow> Inl e | Inr (_, _, t) \<Rightarrow> Inr t)"
| "apply_op digest marshal (DoAck r i d at) s = (case Ack r i d at s of Inl e \<Rightarrow> Inl e | Inr (_, t) \<Rightarrow> Inr t)"

inductive collab_step ::
  "(string \<Rightarrow> string) \<Rightarrow> (recovery_audit \<Rightarrow> (string, string) result) \<Rightarrow> state \<Rightarrow> state \<Rightarrow> bool"
  for digest marshal where
  op_step: "apply_op digest marshal act s = Inr t \<Longrightarrow> collab_step digest marshal s t"

definition collab_init :: "state \<Rightarrow> bool" where
  "collab_init s \<longleftrightarrow> (\<exists>co. New co = Inr s)"

inductive_cases collab_stepE: "collab_step digest marshal s t"

section \<open>What each operation does when it succeeds\<close>

text \<open>A change of owner: the new owner is joined, both counters advance, the change is recorded.\<close>

definition owner_moved :: "string \<Rightarrow> string \<Rightarrow> state \<Rightarrow> state \<Rightarrow> bool" where
  "owner_moved prev new s t \<longleftrightarrow>
     st_owner t = new \<and> validID new \<and> new \<in> dom (st_members t) \<and>
     dom (st_members t) = insert new (dom (st_members s)) \<and>
     st_owner_epoch t = st_owner_epoch s + 1 \<and> st_revision t = st_revision s + 1 \<and>
     (\<exists>c. st_owner_changes t = st_owner_changes s @ [c] \<and> oc_epoch c = st_owner_epoch s + 1 \<and>
          oc_previous c = prev \<and> oc_current c = new \<and>
          (\<forall>m. st_notices t m = (if st_members t m \<noteq> None then Some c else st_notices s m))) \<and>
     st_inboxes t = st_inboxes s \<and> st_requests t = st_requests s \<and> st_cursors t = st_cursors s \<and>
     st_version t = st_version s \<and> st_complete t = st_complete s"

lemma recordChange_moved:
  assumes "validID new" "st_members s1 new \<noteq> None" "dom (st_members s1) = insert new (dom (st_members s))"
    "st_owner s1 = new" "st_owner_epoch s1 = st_owner_epoch s + 1" "st_revision s1 = st_revision s + 1"
    "oc_epoch c = st_owner_epoch s + 1" "oc_previous c = prev" "oc_current c = new"
    "st_owner_changes s1 = st_owner_changes s" "st_notices s1 = st_notices s" "st_inboxes s1 = st_inboxes s"
    "st_requests s1 = st_requests s" "st_cursors s1 = st_cursors s" "st_version s1 = st_version s"
    "st_complete s1 = st_complete s"
  shows "owner_moved prev new s (recordChange c s1)"
proof -
  have n: "st_notices (recordChange c s1) m = (if st_members s1 m \<noteq> None then Some c else st_notices s m)" for m
    by (simp add: recordChange_def assms(11) split: option.split)
  have d: "new \<in> dom (st_members s1)" using assms(2) by blast
  have f: "st_owner_changes (recordChange c s1) = st_owner_changes s @ [c]"
    "st_members (recordChange c s1) = st_members s1" "st_owner (recordChange c s1) = st_owner s1"
    "st_owner_epoch (recordChange c s1) = st_owner_epoch s1" "st_revision (recordChange c s1) = st_revision s1"
    "st_inboxes (recordChange c s1) = st_inboxes s1" "st_requests (recordChange c s1) = st_requests s1"
    "st_cursors (recordChange c s1) = st_cursors s1" "st_version (recordChange c s1) = st_version s1"
    "st_complete (recordChange c s1) = st_complete s1"
    by (simp_all add: recordChange_def assms(10))
  have "\<exists>c'. st_owner_changes (recordChange c s1) = st_owner_changes s @ [c'] \<and> oc_epoch c' = st_owner_epoch s + 1 \<and>
      oc_previous c' = prev \<and> oc_current c' = new \<and>
      (\<forall>m. st_notices (recordChange c s1) m =
        (if st_members (recordChange c s1) m \<noteq> None then Some c' else st_notices s m))"
    by (intro exI [of _ c] conjI allI) (simp_all only: f n assms)
  then show ?thesis unfolding owner_moved_def using assms d by (simp only: f simp_thms)
qed

lemma take_publish_moved:
  "validID (tk_caller rq) \<Longrightarrow> owner_moved observed (tk_caller rq) s (take_publish rq observed s)"
  unfolding take_publish_def Let_def by (rule recordChange_moved) simp_all

lemma transfer_publish_moved:
  "validID successor \<Longrightarrow> st_members s successor \<noteq> None \<Longrightarrow> owner_moved caller successor s (transfer_publish caller successor at s)"
  unfolding transfer_publish_def Let_def by (rule recordChange_moved) (auto simp: dom_def)

lemma recover_publish_moved:
  "validID (rv_actor rv) \<Longrightarrow> owner_moved (rv_expected_owner rv) (rv_actor rv) s (recover_publish co rv reason s)"
  unfolding recover_publish_def Let_def
  by (rule recordChange_moved) (auto simp: dom_def split: option.split)

lemma publish_frame [simp]:
  "st_checkout (take_publish rq observed s) = st_checkout s" "st_rebinds (take_publish rq observed s) = st_rebinds s"
  "st_checkout (transfer_publish c u at s) = st_checkout s" "st_rebinds (transfer_publish c u at s) = st_rebinds s"
  "st_checkout (recover_publish co rv reason s) = co"
  "st_rebinds (recover_publish co rv reason s) = st_rebinds s @
     [\<lparr>rb_previous_root = rv_expected_root rv, rb_current_root = co_root co, rb_actor = rv_actor rv, rb_at = rv_at rv\<rparr>]"
  by (simp_all add: take_publish_def transfer_publish_def recover_publish_def Let_def recordChange_def split: option.split)

lemma Take_Inr:
  assumes "Take rq s = Inr t"
  obtains (same) "t = s" "st_owner s = tk_caller rq" "tk_expected_owner rq = take_observed s rq"
  | (moved) "t = take_publish rq (take_observed s rq) s" "validID (tk_caller rq)" "tk_caller rq \<noteq> NoOwner"
      "tk_expected_owner rq = take_observed s rq" "st_owner s \<noteq> tk_caller rq"
      "take_observed s rq = NoOwner \<or> take_status s rq = ''inactive'' \<or>
       st_owner s = [] \<and> oo_session (tk_legacy rq) = tk_caller rq \<or> tk_force rq \<and> TrimSpace (tk_reason rq) \<noteq> []"
proof -
  have ob: "take_observed s rq = st_owner s" if "st_owner s \<noteq> []" using that by (simp add: take_observed_def)
  have v: "validID (tk_caller rq)" "tk_caller rq \<noteq> NoOwner" "tk_expected_owner rq = take_observed s rq"
    using assms unfolding Take_def Let_def by (simp_all split: if_split_asm)
  have ne: "tk_caller rq \<noteq> []" using v(1) by (auto simp: validID_def)
  show thesis
  proof (cases "st_owner s = tk_caller rq")
    case True
    then have "t = s" using assms ob ne v(3) unfolding Take_def Let_def by (simp split: if_split_asm)
    with True v(3) same show thesis by blast
  next
    case False
    then have "t = take_publish rq (take_observed s rq) s"
      "take_observed s rq = NoOwner \<or> take_status s rq = ''inactive'' \<or>
       st_owner s = [] \<and> oo_session (tk_legacy rq) = tk_caller rq \<or> tk_force rq \<and> TrimSpace (tk_reason rq) \<noteq> []"
      using assms unfolding Take_def Let_def by (simp_all split: if_split_asm) blast
    with False v moved show thesis by blast
  qed
qed

lemma join_Inr:
  assumes "join_session caller at s = Inr t"
  obtains (same) "t = s"
  | (joined) "validID caller" "caller \<noteq> NoOwner" "st_owner s \<noteq> []" "st_members s caller = None"
      "t = s\<lparr>st_members := (st_members s)(caller \<mapsto> \<lparr>joined_at = at\<rparr>), st_revision := st_revision s + 1\<rparr>"
  using assms unfolding join_session_def by (simp split: if_split_asm option.split_asm)

lemma Leave_Inr:
  assumes "Leave caller s = Inr t"
  obtains (same) "t = s"
  | (left) "validID caller" "st_owner s \<noteq> []" "st_owner s \<noteq> caller" "st_members s caller \<noteq> None"
      "t = s\<lparr>st_members := (st_members s)(caller := None), st_revision := st_revision s + 1\<rparr>"
  using assms unfolding Leave_def by (simp split: if_split_asm option.split_asm)

lemma Transfer_Inr:
  assumes "Transfer caller successor live at s = Inr t"
  obtains (same) "t = s"
  | (moved) "validID successor" "st_owner s = caller" "live" "st_members s successor \<noteq> None" "successor \<noteq> caller"
      "t = transfer_publish caller successor at s"
  using assms unfolding Transfer_def by (simp split: if_split_asm)

lemma Recover_Inr:
  assumes "RecoverInactiveOwner marshal co rv s = Inr t"
  obtains reason where "recovery_validate rv = Inr ()" "\<not> completedInactiveOwnerRecovery s co rv"
    "ValidateRebind s co (rv_expected_root rv) = Inr ()" "st_owner s = rv_expected_owner rv"
    "st_owner_epoch s = rv_expected_epoch rv" "st_revision s = rv_expected_revision rv"
    "st_owner_epoch s \<noteq> maxCounter" "st_revision s \<noteq> maxCounter" "auditReason marshal rv co = Inr reason"
    "t = recover_publish co rv reason s"
  using assms unfolding RecoverInactiveOwner_def by (simp split: if_split_asm sum.split_asm)

lemma recovery_validate_Inr:
  assumes "recovery_validate rv = Inr ()"
  shows "validID (rv_actor rv)" "rv_actor rv \<noteq> NoOwner" "\<not> is_zero_time (rv_at rv)" "rv_expected_owner rv \<noteq> rv_actor rv"
    "rv_expected_epoch rv \<noteq> 0" "rv_expected_revision rv \<noteq> 0"
    "allowsOwnerStatus rv (rv_owner_status rv)" "TrimSpace (rv_reason rv) \<noteq> []"
  using assms unfolding recovery_validate_def by (simp_all split: if_split_asm)

lemma rebind_Inr:
  assumes "rebind_change co root actor at s = Inr t"
  shows "ValidateRebind s co root = Inr () \<and> st_owner s = actor \<and>
    t = s\<lparr>st_checkout := co, st_revision := st_revision s + 1,
          st_rebinds := st_rebinds s @ [\<lparr>rb_previous_root = root, rb_current_root = co_root co, rb_actor = actor, rb_at = at\<rparr>]\<rparr>"
  using assms unfolding rebind_change_def by (simp split: if_split_asm sum.split_asm)

section \<open>The ownership history\<close>

definition own_inv :: "state \<Rightarrow> bool" where
  "own_inv s \<longleftrightarrow>
     st_version s = SchemaVersion \<and> st_complete s \<and>
     NoOwner \<notin> dom (st_members s) \<and> (\<forall>m \<in> dom (st_members s). validID m) \<and>
     st_owner_epoch s = of_nat (length (st_owner_changes s)) \<and>
     (\<forall>i < length (st_owner_changes s). oc_epoch (st_owner_changes s ! i) = of_nat (Suc i)) \<and>
     (\<forall>i. Suc i < length (st_owner_changes s) \<longrightarrow>
        oc_previous (st_owner_changes s ! Suc i) = oc_current (st_owner_changes s ! i)) \<and>
     (if st_owner_changes s = [] then st_owner s = [] \<and> dom (st_members s) = {}
      else st_owner s = oc_current (last (st_owner_changes s)) \<and> st_owner s \<in> dom (st_members s))"

lemma validID_nonempty: "validID v \<Longrightarrow> v \<noteq> []"
  by (auto simp: validID_def)

lemma own_inv_owner:
  assumes "own_inv s" "st_owner s \<noteq> []"
  shows "st_owner_changes s \<noteq> []" "st_owner s \<in> dom (st_members s)" "validID (st_owner s)" "st_owner s \<noteq> NoOwner"
  using assms by (auto simp: own_inv_def split: if_splits)

lemma own_inv_moved:
  assumes inv: "own_inv s" and mv: "owner_moved prev new s t" and ok: "new \<noteq> NoOwner"
    and chain: "st_owner s \<noteq> [] \<longrightarrow> prev = st_owner s"
  shows "own_inv t"
proof -
  let ?h = "st_owner_changes s"
  from mv obtain c where c: "st_owner_changes t = ?h @ [c]" "oc_epoch c = st_owner_epoch s + 1" "oc_previous c = prev"
    "oc_current c = new" by (auto simp: owner_moved_def)
  have ep: "st_owner_epoch s = of_nat (length ?h)" using inv by (simp add: own_inv_def)
  have "oc_epoch (st_owner_changes t ! i) = of_nat (Suc i)" if "i < length (st_owner_changes t)" for i
  proof (cases "i < length ?h")
    case True
    then show ?thesis using inv by (simp add: own_inv_def c nth_append)
  next
    case False
    with that have "i = length ?h" by (simp add: c)
    then show ?thesis by (simp add: c ep nth_append)
  qed
  moreover have "oc_previous (st_owner_changes t ! Suc i) = oc_current (st_owner_changes t ! i)"
    if "Suc i < length (st_owner_changes t)" for i
  proof (cases "Suc i < length ?h")
    case True
    then show ?thesis using inv by (simp add: own_inv_def c nth_append)
  next
    case False
    with that have i: "Suc i = length ?h" by (simp add: c)
    then have ne: "?h \<noteq> []" by auto
    then have l: "last ?h = ?h ! i" using i [symmetric] by (simp add: last_conv_nth)
    have o: "st_owner s = oc_current (last ?h)" "st_owner s \<in> dom (st_members s)" using inv ne by (auto simp: own_inv_def)
    then have "validID (st_owner s)" using inv by (simp add: own_inv_def)
    then have "st_owner s \<noteq> []" by (rule validID_nonempty)
    with chain o l i show ?thesis by (simp add: c nth_append)
  qed
  moreover have "dom (st_members t) = insert new (dom (st_members s))" "validID new" "st_owner t = new"
    "st_owner_epoch t = st_owner_epoch s + 1" "st_version t = st_version s" "st_complete t = st_complete s"
    using mv by (simp_all add: owner_moved_def)
  ultimately show ?thesis
    using inv ok c ep unfolding own_inv_def by (simp add: ball_Un)
qed

lemma own_inv_frame:
  assumes "own_inv s" "st_owner t = st_owner s" "st_owner_epoch t = st_owner_epoch s" "st_owner_changes t = st_owner_changes s"
    "st_members t = st_members s" "st_version t = st_version s" "st_complete t = st_complete s"
  shows "own_inv t"
  using assms(1) unfolding own_inv_def assms(2-) .

lemma Take_own [inv_intros]: "own_inv s \<Longrightarrow> Take rq s = Inr t \<Longrightarrow> own_inv t"
  by (erule Take_Inr) (auto intro: own_inv_moved [OF _ take_publish_moved] simp: take_observed_def)

lemma join_own [inv_intros]:
  assumes "own_inv s" "join_session caller at s = Inr t"
  shows "own_inv t"
  using assms(2)
proof (cases rule: join_Inr)
  case joined
  with assms(1) own_inv_owner [OF assms(1) joined(3)] show ?thesis by (simp add: own_inv_def)
qed (use assms(1) in simp)

lemma Leave_own [inv_intros]:
  assumes "own_inv s" "Leave caller s = Inr t"
  shows "own_inv t"
  using assms(2)
proof (cases rule: Leave_Inr)
  case left
  with assms(1) own_inv_owner [OF assms(1) left(2)] show ?thesis by (simp add: own_inv_def)
qed (use assms(1) in simp)

lemma Transfer_own [inv_intros]:
  assumes "own_inv s" "Transfer caller successor live at s = Inr t"
  shows "own_inv t"
  using assms(2)
proof (cases rule: Transfer_Inr)
  case moved
  moreover have "successor \<noteq> NoOwner" using assms(1) moved(4) by (auto simp: own_inv_def)
  ultimately show ?thesis
    using own_inv_moved [OF assms(1) transfer_publish_moved] by simp
qed (use assms(1) in simp)

lemma Recover_own [inv_intros]:
  assumes "own_inv s" "RecoverInactiveOwner marshal co rv s = Inr t"
  shows "own_inv t"
  using assms(2)
proof (cases rule: Recover_Inr)
  case (1 reason)
  with recovery_validate_Inr [OF 1(1)] show ?thesis
    using own_inv_moved [OF assms(1) recover_publish_moved [of rv s co reason]] by simp
qed

lemma rebind_own [inv_intros]: "own_inv s \<Longrightarrow> rebind_change co root actor at s = Inr t \<Longrightarrow> own_inv t"
  by (drule rebind_Inr) (auto intro: own_inv_frame)

section \<open>The mailboxes\<close>

abbreviation request_ids :: "state \<Rightarrow> string list" where
  "request_ids s \<equiv> map (\<lambda>(_, r). rc_message_id r) (st_requests s)"

definition mailbox_inv :: "string list \<Rightarrow> string \<Rightarrow> message list \<Rightarrow> 64 word \<Rightarrow> bool" where
  "mailbox_inv ids r box cursor \<longleftrightarrow>
     distinct (map msg_id box) \<and> set (map msg_id box) \<subseteq> set ids \<and>
     (\<forall>i < length box. msg_sequence (box ! i) = of_nat (Suc i) \<and> msg_recipient (box ! i) = r) \<and>
     length (filter unread box) \<le> MaxPendingPerPeer \<and>
     cursor = of_nat (length (takeWhile (\<lambda>m. \<not> unread m) box))"

definition mail_inv :: "state \<Rightarrow> bool" where
  "mail_inv s \<longleftrightarrow>
     distinct (map fst (st_requests s)) \<and> distinct (request_ids s) \<and>
     length (st_requests s) \<le> MaxStoredMessages \<and>
     (\<forall>r. mailbox_inv (request_ids s) r (st_inboxes s r) (st_cursors s r))"

lemma mail_inv_frame:
  assumes "mail_inv s" "st_inboxes t = st_inboxes s" "st_requests t = st_requests s" "st_cursors t = st_cursors s"
  shows "mail_inv t"
  using assms(1) unfolding mail_inv_def assms(2-) .

lemma mailbox_length: "mailbox_inv ids r box cursor \<Longrightarrow> length box \<le> length ids"
proof -
  assume m: "mailbox_inv ids r box cursor"
  then have "length box = card (set (map msg_id box))"
    using distinct_card [of "map msg_id box"] by (simp add: mailbox_inv_def)
  also have "\<dots> \<le> card (set ids)" using m by (intro card_mono) (auto simp: mailbox_inv_def)
  finally show ?thesis using card_length [of ids] by simp
qed

lemma word_of_nat_le: "a < 2 ^ 64 \<Longrightarrow> b < 2 ^ 64 \<Longrightarrow> (of_nat a :: 64 word) \<le> of_nat b \<longleftrightarrow> a \<le> b"
  by (simp add: word_le_nat_alt unat_of_nat take_bit_nat_eq_self)

lemma word_of_nat_eq: "a < 2 ^ 64 \<Longrightarrow> b < 2 ^ 64 \<Longrightarrow> (of_nat a :: 64 word) = of_nat b \<longleftrightarrow> a = b"
  using word_of_nat_le [of a b] word_of_nat_le [of b a] by (metis le_antisym order_refl)

lemma advance_cursor_prefix:
  assumes "\<forall>i < length items. msg_sequence (items ! i) = of_nat (Suc (k + i))" "k + length items < 2 ^ 64"
    "k \<le> c" "c \<le> k + length (takeWhile (\<lambda>m. \<not> unread m) items)"
  shows "advance_cursor items (of_nat c) = of_nat (k + length (takeWhile (\<lambda>m. \<not> unread m) items))"
  using assms
proof (induction items arbitrary: k c)
  case (Cons m ms)
  have seq: "msg_sequence m = of_nat (Suc k)" using Cons.prems(1) by force
  have tail: "\<forall>i < length ms. msg_sequence (ms ! i) = of_nat (Suc (Suc k + i))"
    using Cons.prems(1) by (force simp: nth_Cons_Suc)
  have lt: "Suc k < 2 ^ 64" using Cons.prems(2) by simp
  have tw: "length (takeWhile (\<lambda>m. \<not> unread m) ms) \<le> length ms" by (rule length_takeWhile_le)
  show ?case
  proof (cases "Suc k \<le> c")
    case True
    then have "\<not> unread m" using Cons.prems(4) by (auto split: if_splits)
    moreover have "c < 2 ^ 64" using Cons.prems(2,4) tw \<open>\<not> unread m\<close> by simp
    ultimately show ?thesis
      using True lt Cons.prems(2,4) Cons.IH [OF tail, of c]
      by (simp add: seq word_of_nat_le del: of_nat_Suc of_nat_add)
  next
    case False
    then have c: "c = k" using Cons.prems(3) by simp
    have gt: "\<not> (of_nat (Suc k) :: 64 word) \<le> of_nat k" using lt by (simp add: word_of_nat_le del: of_nat_Suc)
    have one: "(of_nat k :: 64 word) + 1 = of_nat (Suc k)" by simp
    show ?thesis
      using Cons.IH [OF tail, of "Suc k"] Cons.prems(2) gt
      by (simp add: seq c one del: of_nat_Suc of_nat_add)
  qed
qed simp

lemma takeWhile_update:
  "P x \<Longrightarrow> length (takeWhile P xs) \<le> length (takeWhile P (xs[i := x]))"
proof (induction xs arbitrary: i)
  case (Cons a xs)
  then show ?case by (cases i) auto
qed simp

lemma filter_update_shorter: "\<not> P x \<Longrightarrow> length (filter P (xs[i := x])) \<le> length (filter P xs)"
proof (induction xs arbitrary: i)
  case (Cons a xs)
  then show ?case by (cases i) (auto intro: le_SucI)
qed simp

lemma index_of_Some: "index_of mid box = Some i \<Longrightarrow> i < length box \<and> msg_id (box ! i) = mid"
  by (induction box arbitrary: i) (auto split: if_splits)

lemma mailbox_ack:
  assumes inv: "mailbox_inv ids r box cursor" and i: "i < length box" and at: "\<not> is_zero_time at"
    and small: "length ids < 2 ^ 64"
  defines "box' \<equiv> box[i := (box ! i)\<lparr>msg_consumed_at := at\<rparr>]"
  shows "mailbox_inv ids r box' (advance_cursor box' cursor)"
proof -
  let ?tw = "\<lambda>b. length (takeWhile (\<lambda>m. \<not> unread m) b)"
  have read: "\<not> unread ((box ! i)\<lparr>msg_consumed_at := at\<rparr>)" using at by (simp add: unread_def)
  have ids: "map msg_id box' = map msg_id box" by (simp add: box'_def map_update) (metis list_update_id map_update)
  have at_j: "msg_sequence (box' ! j) = of_nat (Suc j) \<and> msg_recipient (box' ! j) = r" if "j < length box'" for j
    using inv that i by (cases "j = i") (simp_all add: box'_def mailbox_inv_def)
  have cur: "cursor = of_nat (?tw box)" using inv by (simp add: mailbox_inv_def)
  have "advance_cursor box' (of_nat (?tw box)) = of_nat (0 + ?tw box')"
  proof (rule advance_cursor_prefix)
    show "\<forall>j < length box'. msg_sequence (box' ! j) = of_nat (Suc (0 + j))" using at_j by simp
    show "0 + length box' < 2 ^ 64" using mailbox_length [OF inv] small by (simp add: box'_def)
    show "?tw box \<le> 0 + ?tw box'" using takeWhile_update [of "\<lambda>m. \<not> unread m", OF read] by (simp add: box'_def)
  qed simp
  moreover have "length (filter unread box') \<le> MaxPendingPerPeer"
    using inv filter_update_shorter [of unread, OF read [simplified]] unfolding box'_def mailbox_inv_def
    by (meson le_trans read)
  ultimately show ?thesis using inv at_j by (simp add: mailbox_inv_def ids cur)
qed

lemma foldl_deliver:
  "distinct rs \<Longrightarrow> foldl (deliver rq rc) s rs =
     s\<lparr>st_inboxes := (\<lambda>r. if r \<in> set rs
        then st_inboxes s r @ [new_message rq rc (st_owner_epoch s) (st_inboxes s r) r] else st_inboxes s r)\<rparr>"
proof (induction rs arbitrary: s)
  case (Cons r rs)
  from Cons.prems have d: "distinct rs" "r \<notin> set rs" by simp_all
  have e: "st_owner_epoch (deliver rq rc s r) = st_owner_epoch s" by (simp add: deliver_def)
  have i: "st_inboxes (deliver rq rc s r) = (st_inboxes s)(r := st_inboxes s r @
      [new_message rq rc (st_owner_epoch s) (st_inboxes s r) r])" by (simp add: deliver_def)
  show ?case
    using d unfolding foldl_Cons Cons.IH [OF d(1)] e i
    by (simp add: deliver_def fun_eq_iff)
qed simp

lemma adjacent_distinct_sorted: "sorted rs \<Longrightarrow> adjacent_distinct rs \<longleftrightarrow> distinct rs"
proof (induction rs rule: adjacent_distinct.induct)
  case (1 x y zs)
  then have "x \<notin> set (y # zs)" if "x \<noteq> y" using that by (auto dest: order_antisym)
  with 1 show ?case by auto
qed auto

lemma send_publish_fields:
  assumes "distinct (rc_recipients rc)"
  shows "st_inboxes (send_publish rq rc s) r = (if r \<in> set (rc_recipients rc)
      then st_inboxes s r @ [new_message rq rc (st_owner_epoch s) (st_inboxes s r) r] else st_inboxes s r)"
    "st_requests (send_publish rq rc s) = st_requests s @ [(sr_key rq, rc)]"
    "st_revision (send_publish rq rc s) = st_revision s + 1"
    "st_cursors (send_publish rq rc s) = st_cursors s" "st_members (send_publish rq rc s) = st_members s"
    "st_owner (send_publish rq rc s) = st_owner s" "st_owner_epoch (send_publish rq rc s) = st_owner_epoch s"
    "st_owner_changes (send_publish rq rc s) = st_owner_changes s" "st_notices (send_publish rq rc s) = st_notices s"
    "st_version (send_publish rq rc s) = st_version s" "st_complete (send_publish rq rc s) = st_complete s"
    "st_checkout (send_publish rq rc s) = st_checkout s" "st_rebinds (send_publish rq rc s) = st_rebinds s"
  using assms by (simp_all add: send_publish_def foldl_deliver)

text \<open>What a send that is not a replay has checked.\<close>

definition fresh_receipt :: "(string \<Rightarrow> string) \<Rightarrow> send_request \<Rightarrow> state \<Rightarrow> send_receipt" where
  "fresh_receipt digest rq s =
     \<lparr>rc_message_id = sr_message_id rq, rc_sender = sr_sender rq, rc_recipients = sort (sr_recipients rq),
      rc_kind = sr_kind rq, rc_body = sr_body rq, rc_digest = digest (sr_body rq), rc_owner_epoch = st_owner_epoch s\<rparr>"

lemma Send_Inr:
  assumes "Send digest rq s = Inr (rc, replay, t)"
  obtains (replayed) "replay" "t = s" "map_of (st_requests s) (sr_key rq) = Some rc" "rc_sender rc = sr_sender rq"
      "rc_kind rc = sr_kind rq" "rc_body rc = sr_body rq" "rc_recipients rc = sort (sr_recipients rq)"
  | (sent) "\<not> replay" "rc = fresh_receipt digest rq s" "t = send_publish rq rc s" "distinct (sr_recipients rq)"
      "map_of (st_requests s) (sr_key rq) = None" "length (st_requests s) < MaxStoredMessages"
      "sr_message_id rq \<notin> set (request_ids s)"
      "\<forall>r \<in> set (sr_recipients rq). st_members s r \<noteq> None \<and> length (filter unread (st_inboxes s r)) < MaxPendingPerPeer"
proof -
  let ?rs = "sort (sr_recipients rq)"
  have ad: "adjacent_distinct ?rs"
    using assms unfolding Send_def Let_def by (simp split: if_split_asm)
  then have d: "distinct (sr_recipients rq)" by (simp add: adjacent_distinct_sorted)
  show thesis
  proof (cases "map_of (st_requests s) (sr_key rq)")
    case (Some prior)
    with assms show thesis unfolding Send_def Let_def
      by (intro replayed) (simp_all split: if_split_asm)
  next
    case None
    then have c: "\<not> replay" "rc = fresh_receipt digest rq s" "t = send_publish rq rc s"
      "length (st_requests s) < MaxStoredMessages" "sr_message_id rq \<notin> set (request_ids s)"
      "is_ok (map_result (check_recipient s) ?rs)"
      using assms unfolding Send_def Let_def fresh_receipt_def
      by (simp_all add: list_ex_iff not_le split: if_split_asm sum.split_asm) force+
    then have "\<forall>r \<in> set ?rs. is_ok (check_recipient s r)"
      using map_result_Inl_iff [of "check_recipient s" ?rs] by (metis isl_def)
    then have "\<forall>r \<in> set (sr_recipients rq). st_members s r \<noteq> None \<and> length (filter unread (st_inboxes s r)) < MaxPendingPerPeer"
      by (auto simp: check_recipient_def not_le split: if_splits)
    with c d None sent show thesis by blast
  qed
qed

lemma request_ids_append: "map (\<lambda>(_, r). rc_message_id r) (xs @ [(k, rc)]) = map (\<lambda>(_, r). rc_message_id r) xs @ [rc_message_id rc]"
  by simp

lemma mailbox_inv_more:
  assumes "mailbox_inv ids r box cursor"
  shows "mailbox_inv (ids @ [x]) r box cursor"
  using assms by (auto simp: mailbox_inv_def)

lemma mailbox_deliver:
  assumes inv: "mailbox_inv ids r box cursor" and fresh: "sr_message_id rq \<notin> set ids"
    and room: "length (filter unread box) < MaxPendingPerPeer"
  shows "mailbox_inv (ids @ [sr_message_id rq]) r (box @ [new_message rq rc epoch box r]) cursor"
proof -
  let ?m = "new_message rq rc epoch box r"
  have u: "unread ?m" by (simp add: new_message_def unread_def is_zero_time_def)
  have "msg_sequence ((box @ [?m]) ! i) = of_nat (Suc i) \<and> msg_recipient ((box @ [?m]) ! i) = r"
    if "i < length (box @ [?m])" for i
    using inv that by (cases "i < length box") (auto simp: mailbox_inv_def nth_append new_message_def less_Suc_eq)
  moreover have "takeWhile (\<lambda>m. \<not> unread m) (box @ [?m]) = takeWhile (\<lambda>m. \<not> unread m) box"
    using u by (simp add: takeWhile_tail)
  moreover have "distinct (map msg_id (box @ [?m]))" "set (map msg_id (box @ [?m])) \<subseteq> set (ids @ [sr_message_id rq])"
    using inv fresh by (auto simp: mailbox_inv_def new_message_def)
  ultimately show ?thesis using inv room u by (simp add: mailbox_inv_def)
qed

lemma Send_mail [inv_intros]:
  assumes inv: "mail_inv s" and snd: "Send digest rq s = Inr (rc, replay, t)"
  shows "mail_inv t"
  using snd
proof (cases rule: Send_Inr)
  case sent
  have d: "distinct (rc_recipients rc)" using sent(2,4) by (simp add: fresh_receipt_def)
  note f = send_publish_fields [OF d, of rq s]
  have mid: "rc_message_id rc = sr_message_id rq" unfolding sent(2) by (simp add: fresh_receipt_def)
  have ids: "request_ids t = request_ids s @ [sr_message_id rq]"
    unfolding sent(3) f(2) by (simp add: mid)
  have "mailbox_inv (request_ids t) r (st_inboxes t r) (st_cursors t r)" for r
  proof -
    have m: "mailbox_inv (request_ids s) r (st_inboxes s r) (st_cursors s r)" using inv by (simp add: mail_inv_def)
    show ?thesis
    proof (cases "r \<in> set (rc_recipients rc)")
      case True
      then have "r \<in> set (sr_recipients rq)" using sent(2) by (simp add: fresh_receipt_def)
      with sent(8) mailbox_deliver [OF m sent(7)] True show ?thesis
        unfolding ids by (simp add: sent(3) f)
    next
      case False
      then show ?thesis unfolding ids using mailbox_inv_more [OF m] by (simp add: sent(3) f)
    qed
  qed
  moreover have "distinct (map fst (st_requests t))"
    using inv sent(5) by (simp add: sent(3) f(2) mail_inv_def map_of_eq_None_iff)
  moreover have "distinct (request_ids t)" unfolding ids using inv sent(7) by (simp add: mail_inv_def)
  moreover have "length (st_requests t) \<le> MaxStoredMessages" using sent(6) by (simp add: sent(3) f(2))
  ultimately show ?thesis by (simp add: mail_inv_def)
qed (use inv in simp)

lemma Ack_Inr:
  assumes "Ack r mid d at s = Inr (cur, t)"
  obtains (same) "t = s" "cur = st_cursors s r"
  | (acked) i where "index_of mid (st_inboxes s r) = Some i" "msg_digest (st_inboxes s r ! i) = d"
      "unread (st_inboxes s r ! i)" "\<not> is_zero_time at" "st_members s r \<noteq> None" "(cur, t) = ack_publish r i at s"
  using assms unfolding Ack_def Let_def by (auto split: if_split_asm option.split_asm)

lemma ack_publish_fields:
  "st_requests (snd (ack_publish r i at s)) = st_requests s"
  "st_revision (snd (ack_publish r i at s)) = st_revision s + 1"
  "st_members (snd (ack_publish r i at s)) = st_members s" "st_owner (snd (ack_publish r i at s)) = st_owner s"
  "st_owner_epoch (snd (ack_publish r i at s)) = st_owner_epoch s"
  "st_owner_changes (snd (ack_publish r i at s)) = st_owner_changes s"
  "st_version (snd (ack_publish r i at s)) = st_version s" "st_complete (snd (ack_publish r i at s)) = st_complete s"
  "st_checkout (snd (ack_publish r i at s)) = st_checkout s"
  by (simp_all add: ack_publish_def Let_def)

lemma Ack_mail [inv_intros]:
  assumes inv: "mail_inv s" and ack: "Ack r mid d at s = Inr (cur, t)"
  shows "mail_inv t"
  using ack
proof (cases rule: Ack_Inr)
  case (acked i)
  have m: "mailbox_inv (request_ids s) q (st_inboxes s q) (st_cursors s q)" for q using inv by (simp add: mail_inv_def)
  have small: "length (request_ids s) < 2 ^ 64" using inv by (simp add: mail_inv_def MaxStoredMessages_def)
  have t: "t = snd (ack_publish r i at s)" using acked(6) by (metis snd_conv)
  note a = mailbox_ack [OF m, of i r at] index_of_Some [OF acked(1)]
  have "mailbox_inv (request_ids s) q (st_inboxes t q) (st_cursors t q)" for q
    using a(1) [OF _ acked(4) small] a(2) m [of q] by (simp add: t ack_publish_def Let_def)
  then show ?thesis using inv by (simp add: mail_inv_def t ack_publish_fields)
qed (use inv in simp)

section \<open>The invariant of every reachable state\<close>

definition collab_inv :: "state \<Rightarrow> bool" where
  "collab_inv s \<longleftrightarrow> own_inv s \<and> mail_inv s"

lemma New_inv: "New co = Inr s \<Longrightarrow> collab_inv s"
  by (auto simp: New_def collab_inv_def own_inv_def mail_inv_def mailbox_inv_def split: sum.splits)

lemma owner_moved_mail: "owner_moved prev new s t \<Longrightarrow> mail_inv s \<Longrightarrow> mail_inv t"
  by (rule mail_inv_frame) (simp_all add: owner_moved_def)

lemma Take_mail [inv_intros]: "mail_inv s \<Longrightarrow> Take rq s = Inr t \<Longrightarrow> mail_inv t"
  by (erule Take_Inr) (auto intro: owner_moved_mail [OF take_publish_moved])

lemma join_mail [inv_intros]: "mail_inv s \<Longrightarrow> join_session caller at s = Inr t \<Longrightarrow> mail_inv t"
  by (erule join_Inr) (auto intro: mail_inv_frame)

lemma Leave_mail [inv_intros]: "mail_inv s \<Longrightarrow> Leave caller s = Inr t \<Longrightarrow> mail_inv t"
  by (erule Leave_Inr) (auto intro: mail_inv_frame)

lemma Transfer_mail [inv_intros]: "mail_inv s \<Longrightarrow> Transfer c u live at s = Inr t \<Longrightarrow> mail_inv t"
  by (erule Transfer_Inr) (auto intro: owner_moved_mail [OF transfer_publish_moved])

lemma Recover_mail [inv_intros]: "mail_inv s \<Longrightarrow> RecoverInactiveOwner marshal co rv s = Inr t \<Longrightarrow> mail_inv t"
  by (erule Recover_Inr) (auto intro: owner_moved_mail [OF recover_publish_moved] recovery_validate_Inr(1))

lemma rebind_mail [inv_intros]: "mail_inv s \<Longrightarrow> rebind_change co root actor at s = Inr t \<Longrightarrow> mail_inv t"
  by (drule rebind_Inr) (auto intro: mail_inv_frame)

lemma Send_own [inv_intros]: "own_inv s \<Longrightarrow> Send digest rq s = Inr (rc, replay, t) \<Longrightarrow> own_inv t"
  by (erule Send_Inr) (simp, erule own_inv_frame, simp_all add: send_publish_fields fresh_receipt_def)

lemma ack_publish_snd: "(cur, t) = ack_publish r i at s \<Longrightarrow> t = snd (ack_publish r i at s)"
  by (metis snd_conv)

lemma Ack_own [inv_intros]: "own_inv s \<Longrightarrow> Ack r mid d at s = Inr (cur, t) \<Longrightarrow> own_inv t"
  by (erule Ack_Inr) (simp, drule ack_publish_snd, erule own_inv_frame, simp_all add: ack_publish_fields)

lemma apply_op_inv:
  assumes "collab_inv s" "apply_op digest marshal act s = Inr t"
  shows "collab_inv t"
  using assms by (cases act) (auto simp: collab_inv_def intro: inv_intros split: sum.splits)

interpretation collab: invariant_system collab_init "collab_step digest marshal" collab_inv for digest marshal
proof unfold_locales
  show "collab_init s \<Longrightarrow> collab_inv s" for s by (auto simp: collab_init_def intro: New_inv)
  show "collab_inv s \<Longrightarrow> collab_step digest marshal s t \<Longrightarrow> collab_inv t" for s t
    by (erule collab_stepE) (rule apply_op_inv)
qed

lemma owner_moved_revision: "owner_moved prev new s t \<Longrightarrow> st_revision t = st_revision s + 1"
  by (simp add: owner_moved_def)

lemma apply_op_revision:
  assumes "apply_op digest marshal act s = Inr t"
  shows "t = s \<or> st_revision t = st_revision s + 1"
proof (cases act)
  case (DoTake rq)
  with assms have "Take rq s = Inr t" by simp
  then show ?thesis by (cases rule: Take_Inr) (simp_all add: owner_moved_revision [OF take_publish_moved])
next
  case (DoJoin caller at)
  with assms have "join_session caller at s = Inr t" by simp
  then show ?thesis by (cases rule: join_Inr) simp_all
next
  case (DoLeave caller)
  with assms have "Leave caller s = Inr t" by simp
  then show ?thesis by (cases rule: Leave_Inr) simp_all
next
  case (DoTransfer c u live at)
  with assms have "Transfer c u live at s = Inr t" by simp
  then show ?thesis by (cases rule: Transfer_Inr) (simp_all add: owner_moved_revision [OF transfer_publish_moved])
next
  case (DoRecover co rv)
  with assms have "RecoverInactiveOwner marshal co rv s = Inr t" by simp
  then show ?thesis
    by (cases rule: Recover_Inr) (simp add: owner_moved_revision [OF recover_publish_moved] recovery_validate_Inr(1))
next
  case (DoRebind co root actor at)
  with assms have "rebind_change co root actor at s = Inr t" by simp
  from rebind_Inr [OF this] show ?thesis by simp
next
  case (DoSend rq)
  with assms obtain rc replay where "Send digest rq s = Inr (rc, replay, t)"
    by (auto split: sum.split_asm)
  then show ?thesis by (cases rule: Send_Inr) (simp_all add: send_publish_fields fresh_receipt_def)
next
  case (DoAck r mid d at)
  with assms obtain cur where "Ack r mid d at s = Inr (cur, t)" by (auto split: sum.split_asm)
  then show ?thesis by (cases rule: Ack_Inr) (simp, drule ack_publish_snd, simp add: ack_publish_fields)
qed

interpretation collab_rev: revisioned "collab_step digest marshal" st_revision for digest marshal
  by unfold_locales (erule collab_stepE, rule apply_op_revision)

end
