(* ===== verification/Collab_Props.thy ===== *)
theory Collab_Props
  imports Collab_Inv
begin

text \<open>
  The properties of worktree coordination: the ownership history, takeover authority, exactly
  one recovery, idempotent sends, delivery, acknowledgement, and what a counter does at its
  limit; each with a run of the operations that exhibits it.
\<close>

section \<open>A concrete run\<close>

definition visible :: "char \<Rightarrow> bool" where
  "visible c \<longleftrightarrow> printable c \<and> (of_char c :: nat) \<noteq> 47 \<and> (of_char c :: nat) \<noteq> 92"

lemma validID_visible:
  assumes "v \<noteq> []" "length v \<le> 128" "list_all visible v"
  shows "validID v"
proof -
  have p: "list_all printable v" using assms(3) by (simp add: list_all_iff visible_def)
  have "list_all (\<lambda>(r, _). \<not> (r < of_char (CHR ''!'') \<or> r > of_char (CHR ''~'') \<or> r = of_char (CHR ''/'') \<or>
      r = of_char (CHR 0x5C))) (utf8_chunks v)"
    using assms(3) unfolding utf8_chunks_printable [OF p] list_all_iff visible_def printable_def by (simp add: not_less)
  then show ?thesis using assms(1,2) TrimSpace_printable [OF p] unfolding validID_def by (simp add: not_less)
qed

lemma sample_ids [simp]: "validID ''a''" "validID ''b''" "validID ''k''" "validID ''m''" "validID ''c''" "validID ''none''"
  by (rule validID_visible; simp add: visible_def printable_def)+

definition sample_checkout :: checkout where
  "sample_checkout = \<lparr>co_id = ''c'', co_root = ''/r'', co_git_dir = ''/g'', co_common_dir = ''/g''\<rparr>"

definition sample_take :: take_request where
  "sample_take = \<lparr>tk_caller = ''a'', tk_expected_owner = ''none'',
     tk_legacy = \<lparr>oo_id = [], oo_session = [], oo_status = []\<rparr>, tk_owner_status = [], tk_force = False, tk_reason = [], tk_at = 1\<rparr>"

definition sample_send :: send_request where
  "sample_send = \<lparr>sr_sender = ''a'', sr_recipients = [''b''], sr_key = ''k'', sr_message_id = ''m'', sr_kind = ''text'',
     sr_body = ''hi'', sr_at = 3\<rparr>"

definition sample_run :: "op list" where
  "sample_run = [DoTake sample_take, DoJoin ''b'' 2, DoSend sample_send]"

fun run :: "(string \<Rightarrow> string) \<Rightarrow> (recovery_audit \<Rightarrow> (string, string) result) \<Rightarrow> op list \<Rightarrow> state \<Rightarrow> (collab_error, state) result" where
  "run digest marshal [] s = Inr s"
| "run digest marshal (a # as) s = (case apply_op digest marshal a s of Inl e \<Rightarrow> Inl e | Inr t \<Rightarrow> run digest marshal as t)"

lemma run_reachable:
  "reachable collab_init (collab_step digest marshal) s \<Longrightarrow> run digest marshal acts s = Inr t \<Longrightarrow>
     reachable collab_init (collab_step digest marshal) t"
proof (induction acts arbitrary: s)
  case (Cons a acts)
  then obtain u where u: "apply_op digest marshal a s = Inr u" "run digest marshal acts u = Inr t"
    by (auto split: sum.splits)
  from Cons.IH [OF reachable_step [OF Cons.prems(1) op_step [OF u(1)]] u(2)] show ?case .
qed simp

definition sample_digest :: "string \<Rightarrow> string" where "sample_digest body = body"
definition sample_marshal :: "recovery_audit \<Rightarrow> (string, string) result" where "sample_marshal a = Inr (au_reason a)"

definition sample_change :: owner_change where
  "sample_change = \<lparr>oc_epoch = 1, oc_previous = ''none'', oc_current = ''a'', oc_actor = ''a'', oc_reason = [],
     oc_forced = False, oc_at = 1\<rparr>"

definition sample_receipt :: send_receipt where
  "sample_receipt = \<lparr>rc_message_id = ''m'', rc_sender = ''a'', rc_recipients = [''b''], rc_kind = ''text'',
     rc_body = ''hi'', rc_digest = ''hi'', rc_owner_epoch = 1\<rparr>"

definition sample_message :: message where
  "sample_message = \<lparr>msg_id = ''m'', msg_sequence = 1, msg_sender = ''a'', msg_recipient = ''b'',
     msg_kind = ''text'', msg_body = ''hi'', msg_digest = ''hi'', msg_owner_epoch = 1, msg_recorded_at = 3, msg_consumed_at = 0\<rparr>"

definition sample_new :: state where
  "sample_new = \<lparr>st_version = 1, st_checkout = sample_checkout, st_revision = 0, st_owner = [], st_owner_epoch = 0,
     st_members = Map.empty, st_owner_changes = [], st_rebinds = [], st_notices = Map.empty,
     st_inboxes = (\<lambda>_. []), st_requests = [], st_cursors = (\<lambda>_. 0), st_complete = True\<rparr>"

definition sample_owned :: state where
  "sample_owned = sample_new\<lparr>st_revision := 1, st_owner := ''a'', st_owner_epoch := 1,
     st_members := [''a'' \<mapsto> \<lparr>joined_at = 1\<rparr>], st_owner_changes := [sample_change],
     st_notices := [''a'' \<mapsto> sample_change]\<rparr>"

definition sample_joined :: state where
  "sample_joined = sample_owned\<lparr>st_revision := 2, st_members := [''a'' \<mapsto> \<lparr>joined_at = 1\<rparr>, ''b'' \<mapsto> \<lparr>joined_at = 2\<rparr>]\<rparr>"

definition sample_state :: state where
  "sample_state = sample_joined\<lparr>st_revision := 3, st_inboxes := (\<lambda>_. [])(''b'' := [sample_message]),
     st_requests := [(''k'', sample_receipt)]\<rparr>"

lemma sample_checkout_valid: "checkout_Validate sample_checkout = Inr ()"
  by (simp add: checkout_Validate_def sample_checkout_def utf8_chunks_ascii ascii_def checkout_id_rune_def)

lemma sample_step_new: "New sample_checkout = Inr sample_new"
  by (simp add: New_def sample_checkout_valid sample_new_def SchemaVersion_def)

lemma sample_step_take: "Take sample_take sample_new = Inr sample_owned"
proof -
  have "take_publish sample_take ''none'' sample_new = sample_owned"
    unfolding take_publish_def recordChange_def Let_def
    by (simp add: sample_take_def sample_owned_def sample_new_def sample_change_def fun_eq_iff)
  moreover have "take_observed sample_new sample_take = ''none''"
    by (simp add: take_observed_def sample_new_def sample_take_def NoOwner_def)
  ultimately show ?thesis
    by (simp add: Take_def) (simp add: sample_take_def sample_new_def SchemaVersion_def NoOwner_def is_zero_time_def)
qed

lemma sample_step_join: "join_session ''b'' 2 sample_owned = Inr sample_joined"
  by (simp add: join_session_def sample_joined_def sample_owned_def sample_new_def NoOwner_def is_zero_time_def)

lemma sample_sels [simp]:
  "sr_sender sample_send = ''a''" "sr_recipients sample_send = [''b'']" "sr_key sample_send = ''k''"
  "sr_message_id sample_send = ''m''" "sr_kind sample_send = ''text''" "sr_body sample_send = ''hi''" "sr_at sample_send = 3"
  "st_members sample_joined ''a'' = Some \<lparr>joined_at = 1\<rparr>" "st_members sample_joined ''b'' = Some \<lparr>joined_at = 2\<rparr>"
  "st_requests sample_joined = []" "st_owner_epoch sample_joined = 1" "st_inboxes sample_joined = (\<lambda>_. [])"
  by (simp_all add: sample_send_def sample_joined_def sample_owned_def sample_new_def)

lemma sample_publish: "send_publish sample_send sample_receipt sample_joined = sample_state"
  by (simp add: send_publish_def deliver_def new_message_def sample_receipt_def sample_state_def sample_message_def
      sample_joined_def sample_owned_def sample_new_def)

lemma sample_fresh:
  "\<lparr>rc_message_id = ''m'', rc_sender = ''a'', rc_recipients = [''b''], rc_kind = ''text'',
    rc_body = ''hi'', rc_digest = sample_digest ''hi'', rc_owner_epoch = 1\<rparr> = sample_receipt"
  by (simp add: sample_receipt_def sample_digest_def)

lemma sample_step_send: "Send sample_digest sample_send sample_joined = Inr (sample_receipt, False, sample_state)"
  by (simp add: Send_def check_recipient_def sample_fresh sample_publish is_zero_time_def
      MaxPendingPerPeer_def MaxStoredMessages_def MaxMessageBodyBytes_def)

lemma sample_run_result: "run sample_digest sample_marshal sample_run sample_new = Inr sample_state"
  by (simp add: sample_run_def sample_step_take sample_step_join sample_step_send)

lemma sample_reachable: "reachable collab_init (collab_step sample_digest sample_marshal) sample_state"
  using sample_run_result sample_step_new run_reachable [OF reachable_init] by (metis collab_init_def)

section \<open>Ownership\<close>

text \<open>
  C8: in every reachable state the ownership history is one unbroken chain. The epoch counts
  the recorded changes, change number \<open>i\<close> carries epoch \<open>i\<close> and starts from the owner the
  previous one ended with, the last one names the current owner, and the current owner is a
  joined session and never the reserved name.
\<close>

theorem owner_history_chain:
  assumes "reachable collab_init (collab_step digest marshal) s"
  shows "st_owner_epoch s = of_nat (length (st_owner_changes s)) \<and>
    (\<forall>i < length (st_owner_changes s). oc_epoch (st_owner_changes s ! i) = of_nat (Suc i)) \<and>
    (\<forall>i. Suc i < length (st_owner_changes s) \<longrightarrow>
       oc_previous (st_owner_changes s ! Suc i) = oc_current (st_owner_changes s ! i)) \<and>
    (st_owner s \<noteq> [] \<longrightarrow> st_owner_changes s \<noteq> [] \<and> oc_current (last (st_owner_changes s)) = st_owner s \<and>
       st_owner s \<in> dom (st_members s) \<and> st_owner s \<noteq> NoOwner \<and> validateEnvelope s = Inr ())"
proof -
  have inv: "own_inv s" using collab.reachable_inv [OF assms] by (simp add: collab_inv_def)
  have "oc_current (last (st_owner_changes s)) = st_owner s" if "st_owner s \<noteq> []"
    using inv own_inv_owner(1) [OF inv that] unfolding own_inv_def by presburger
  moreover have "validateEnvelope s = Inr ()" if o: "st_owner s \<noteq> []"
  proof -
    have "st_version s = SchemaVersion" "st_complete s" using inv by (simp_all add: own_inv_def)
    with own_inv_owner [OF inv o] show ?thesis by (simp add: validateEnvelope_def domIff)
  qed
  moreover have "st_owner_epoch s = of_nat (length (st_owner_changes s))"
    "\<forall>i < length (st_owner_changes s). oc_epoch (st_owner_changes s ! i) = of_nat (Suc i)"
    "\<forall>i. Suc i < length (st_owner_changes s) \<longrightarrow>
       oc_previous (st_owner_changes s ! Suc i) = oc_current (st_owner_changes s ! i)"
    using inv unfolding own_inv_def by blast+
  ultimately show ?thesis using own_inv_owner [OF inv] by blast
qed

theorem owner_history_chain_witness:
  "reachable collab_init (collab_step sample_digest sample_marshal) sample_state \<and> st_owner_epoch sample_state = 1 \<and>
   validateEnvelope sample_state = Inr ()"
  using owner_history_chain [OF sample_reachable] sample_reachable
  by (simp add: sample_state_def sample_joined_def sample_owned_def)

text \<open>
  C16: ownership is never taken implicitly. When \<^verbatim>\<open>Take\<close> changes the owner, the caller stated
  the observed owner exactly, and either nobody owned the checkout, or the owner was observed
  inactive, or the legacy observation is the caller's own session, or the caller forced the
  takeover and gave a reason.
\<close>

theorem Take_needs_authority:
  assumes "Take rq s = Inr t" "st_owner t \<noteq> st_owner s"
  shows "st_owner t = tk_caller rq \<and> tk_expected_owner rq = take_observed s rq \<and>
    (take_observed s rq = NoOwner \<or> take_status s rq = ''inactive'' \<or>
     st_owner s = [] \<and> oo_session (tk_legacy rq) = tk_caller rq \<or>
     tk_force rq \<and> TrimSpace (tk_reason rq) \<noteq> [])"
  using assms(1)
proof (cases rule: Take_Inr)
  case moved
  then show ?thesis using take_publish_moved [OF moved(2), of "take_observed s rq" s] by (simp add: owner_moved_def)
qed (use assms(2) in simp)

theorem Take_needs_authority_witness:
  "Take sample_take sample_new = Inr sample_owned \<and> take_observed sample_new sample_take = tk_expected_owner sample_take"
proof -
  have "st_owner sample_owned \<noteq> st_owner sample_new" by (simp add: sample_owned_def sample_new_def)
  from Take_needs_authority [OF sample_step_take this] sample_step_take show ?thesis by simp
qed

text \<open>
  ownership moves only by a takeover, to its caller; by a transfer its present owner
  makes to a joined, live session; or by a recovery that names the present owner exactly and
  whose observed status it admits. No join, leave, rebind, message or acknowledgement moves it.
\<close>

theorem owner_moves_only_by_ownership_ops:
  assumes "apply_op digest marshal act s = Inr t" "st_owner t \<noteq> st_owner s"
  shows "(\<exists>rq. act = DoTake rq \<and> st_owner t = tk_caller rq) \<or>
    (\<exists>u at. act = DoTransfer (st_owner s) u True at \<and> st_owner t = u \<and> u \<in> dom (st_members s)) \<or>
    (\<exists>co rv. act = DoRecover co rv \<and> st_owner t = rv_actor rv \<and> rv_expected_owner rv = st_owner s \<and>
       allowsOwnerStatus rv (rv_owner_status rv))"
proof (cases act)
  case (DoTake rq)
  with assms(1) have "Take rq s = Inr t" by simp
  then show ?thesis
  proof (cases rule: Take_Inr)
    case moved
    with take_publish_moved [OF moved(2), of "take_observed s rq" s] DoTake show ?thesis by (simp add: owner_moved_def)
  qed (use assms(2) in simp)
next
  case (DoTransfer c u live at)
  with assms(1) have "Transfer c u live at s = Inr t" by simp
  then show ?thesis
  proof (cases rule: Transfer_Inr)
    case moved
    with transfer_publish_moved [OF moved(1,4), of c at] DoTransfer show ?thesis
      by (auto simp: owner_moved_def)
  qed (use assms(2) in simp)
next
  case (DoRecover co rv)
  with assms(1) have "RecoverInactiveOwner marshal co rv s = Inr t" by simp
  then show ?thesis
  proof (cases rule: Recover_Inr)
    case (1 reason)
    note v = recovery_validate_Inr [OF 1(1)]
    with 1 recover_publish_moved [OF v(1), of s co reason] DoRecover show ?thesis by (simp add: owner_moved_def)
  qed
next
  case (DoJoin caller at)
  with assms show ?thesis by (auto elim!: join_Inr)
next
  case (DoLeave caller)
  with assms show ?thesis by (auto elim!: Leave_Inr)
next
  case (DoRebind co root actor at)
  with assms show ?thesis by (auto dest!: rebind_Inr)
next
  case (DoSend rq)
  with assms obtain rc replay where "Send digest rq s = Inr (rc, replay, t)" by (auto split: sum.split_asm)
  then show ?thesis
    by (cases rule: Send_Inr) (use assms(2) in \<open>simp_all add: send_publish_fields fresh_receipt_def\<close>)
next
  case (DoAck r mid d at)
  with assms obtain cur where "Ack r mid d at s = Inr (cur, t)" by (auto split: sum.split_asm)
  then show ?thesis
    by (cases rule: Ack_Inr) (use assms(2) in \<open>auto dest!: ack_publish_snd simp: ack_publish_fields\<close>)
qed

theorem owner_moves_only_by_ownership_ops_witness:
  "apply_op sample_digest sample_marshal (DoTake sample_take) sample_new = Inr sample_owned \<and> st_owner sample_owned = ''a''"
proof -
  have a: "apply_op sample_digest sample_marshal (DoTake sample_take) sample_new = Inr sample_owned"
    by (simp add: sample_step_take)
  have b: "st_owner sample_owned \<noteq> st_owner sample_new" by (simp add: sample_owned_def sample_new_def)
  from owner_moves_only_by_ownership_ops [OF a b] a show ?thesis by (simp add: sample_take_def)
qed

section \<open>Recovery of an inactive owner\<close>

text \<open>
  an inactive-owner recovery is a compare-and-swap that happens once. When it succeeds,
  the state held exactly the expected owner, epoch, revision and root; owner and root are
  replaced together, both counters advance by one without wrapping, one rebind and one change
  are recorded; and the same request on the result is refused as already completed.
\<close>

theorem RecoverInactiveOwner_once:
  assumes "RecoverInactiveOwner marshal co rv s = Inr t"
  shows "st_owner s = rv_expected_owner rv \<and> st_owner_epoch s = rv_expected_epoch rv \<and>
    st_revision s = rv_expected_revision rv \<and> co_root (st_checkout s) = rv_expected_root rv \<and>
    st_owner t = rv_actor rv \<and> st_checkout t = co \<and>
    unat (st_owner_epoch t) = unat (st_owner_epoch s) + 1 \<and> unat (st_revision t) = unat (st_revision s) + 1 \<and>
    length (st_rebinds t) = length (st_rebinds s) + 1 \<and> length (st_owner_changes t) = length (st_owner_changes s) + 1 \<and>
    RecoverInactiveOwner marshal co rv t = Inl RecoveryCompleted"
  using assms
proof (cases rule: Recover_Inr)
  case (1 reason)
  note v = recovery_validate_Inr [OF 1(1)]
  note mv = recover_publish_moved [OF v(1), of s co reason, folded 1(10)]
  have root: "co_root (st_checkout s) = rv_expected_root rv"
    using 1(3) unfolding ValidateRebind_def by (simp split: sum.split_asm if_split_asm)
  have e: "st_owner_epoch t = st_owner_epoch s + 1" "st_revision t = st_revision s + 1" "st_owner t = rv_actor rv"
    using mv by (simp_all add: owner_moved_def)
  have u: "unat (w + 1) = unat w + 1" if "w \<noteq> maxCounter" for w :: "64 word"
    using that unat_succ [of w] by (simp add: maxCounter_def)
  have rb: "st_rebinds t = st_rebinds s @ [\<lparr>rb_previous_root = rv_expected_root rv, rb_current_root = co_root co,
      rb_actor = rv_actor rv, rb_at = rv_at rv\<rparr>]" "st_checkout t = co" by (simp_all add: 1(10))
  obtain c where c: "st_owner_changes t = st_owner_changes s @ [c]" "oc_epoch c = st_owner_epoch s + 1"
    "oc_previous c = rv_expected_owner rv" "oc_current c = rv_actor rv" "oc_actor c = rv_actor rv"
    by (simp add: 1(10) recover_publish_def recordChange_def Let_def split: option.splits)
  have "completedInactiveOwnerRecovery t co rv"
    using 1(4-8) c by (simp add: completedInactiveOwnerRecovery_def e rb Let_def)
  then have "RecoverInactiveOwner marshal co rv t = Inl RecoveryCompleted"
    by (simp add: RecoverInactiveOwner_def 1(1))
  then show ?thesis using 1(4-6) root e u [OF 1(7)] u [OF 1(8)] rb c(1) by simp
qed

definition sample_recovery :: recovery where
  "sample_recovery = \<lparr>rv_handoff_approval = [], rv_expected_root = ''/r'', rv_expected_owner = ''a'', rv_expected_epoch = 1,
     rv_expected_revision = 3, rv_owner_status = ''inactive'', rv_actor = ''b'', rv_reason = ''gone'', rv_at = 9\<rparr>"

lemma sample_root: "Clean ''/r'' = ''/r''"
  by (simp add: Clean_def IsAbs_def HasPrefix_def)

definition moved_checkout :: checkout where
  "moved_checkout = sample_checkout\<lparr>co_root := ''/q''\<rparr>"

lemma sample_recovery_sels [simp]:
  "rv_expected_root sample_recovery = ''/r''" "rv_expected_owner sample_recovery = ''a''"
  "rv_expected_epoch sample_recovery = 1" "rv_expected_revision sample_recovery = 3" "rv_actor sample_recovery = ''b''"
  "rv_owner_status sample_recovery = ''inactive''" "rv_handoff_approval sample_recovery = []" "rv_at sample_recovery = 9"
  by (simp_all add: sample_recovery_def)

lemma sample_state_sels [simp]:
  "st_owner sample_state = ''a''" "st_owner_epoch sample_state = 1" "st_revision sample_state = 3"
  "st_version sample_state = 1" "st_members sample_state ''a'' = Some \<lparr>joined_at = 1\<rparr>" "st_complete sample_state"
  "st_checkout sample_state = sample_checkout"
  by (simp_all add: sample_state_def sample_joined_def sample_owned_def sample_new_def)

lemma sample_recovery_valid: "recovery_validate sample_recovery = Inr ()"
  by (simp add: recovery_validate_def allowsOwnerStatus_def NoOwner_def is_zero_time_def)
     (simp add: sample_recovery_def TrimSpace_printable printable_def)

lemma sample_rebind_valid: "ValidateRebind sample_state moved_checkout ''/r'' = Inr ()"
  by (simp add: ValidateRebind_def validateEnvelope_def SchemaVersion_def sample_root IsAbs_def HasPrefix_def
      sample_checkout_def moved_checkout_def)

lemma sample_recover:
  "\<exists>t. RecoverInactiveOwner sample_marshal moved_checkout sample_recovery sample_state = Inr t"
  by (simp add: RecoverInactiveOwner_def sample_recovery_valid sample_rebind_valid completedInactiveOwnerRecovery_def
      maxCounter_def auditReason_def sample_marshal_def)

theorem RecoverInactiveOwner_once_witness:
  "\<exists>t. RecoverInactiveOwner sample_marshal moved_checkout sample_recovery sample_state = Inr t \<and>
     st_owner t = ''b'' \<and> unat (st_revision t) = 4 \<and>
     RecoverInactiveOwner sample_marshal moved_checkout sample_recovery t = Inl RecoveryCompleted"
proof -
  obtain t where t: "RecoverInactiveOwner sample_marshal moved_checkout sample_recovery sample_state = Inr t"
    using sample_recover by blast
  from RecoverInactiveOwner_once [OF t] t show ?thesis by simp
qed

section \<open>Messages\<close>

text \<open>
  C17: in every reachable state each inbox is numbered 1, 2, 3 and so on without a gap, holds
  no message twice and only messages whose request is recorded, at most 128 of them unread;
  the cursor is the length of the consumed prefix; and at most 4096 requests are stored, so
  that no sequence number ever wraps.
\<close>

theorem mailboxes_ordered:
  assumes "reachable collab_init (collab_step digest marshal) s"
  shows "length (st_requests s) \<le> 4096 \<and> length (st_inboxes s r) \<le> length (st_requests s) \<and>
    (\<forall>i < length (st_inboxes s r). unat (msg_sequence (st_inboxes s r ! i)) = Suc i \<and> msg_recipient (st_inboxes s r ! i) = r) \<and>
    distinct (map msg_id (st_inboxes s r)) \<and>
    set (map msg_id (st_inboxes s r)) \<subseteq> set (map (rc_message_id \<circ> snd) (st_requests s)) \<and>
    length (filter unread (st_inboxes s r)) \<le> 128 \<and>
    unat (st_cursors s r) = length (takeWhile (\<lambda>m. \<not> unread m) (st_inboxes s r))"
proof -
  have inv: "mail_inv s" using collab.reachable_inv [OF assms] by (simp add: collab_inv_def)
  then have m: "mailbox_inv (request_ids s) r (st_inboxes s r) (st_cursors s r)"
    and n: "length (st_requests s) \<le> 4096" by (simp_all add: mail_inv_def MaxStoredMessages_def)
  have ids: "request_ids s = map (rc_message_id \<circ> snd) (st_requests s)" by (simp add: comp_def case_prod_beta)
  have len: "length (st_inboxes s r) \<le> length (st_requests s)" using mailbox_length [OF m] by simp
  have u: "unat (of_nat k :: 64 word) = k" if "k \<le> 4096" for k
    using that by (simp add: unat_of_nat take_bit_nat_eq_self)
  have "unat (msg_sequence (st_inboxes s r ! i)) = Suc i" if "i < length (st_inboxes s r)" for i
    using m that len n u [of "Suc i"] unfolding mailbox_inv_def by simp
  moreover have "unat (st_cursors s r) = length (takeWhile (\<lambda>m. \<not> unread m) (st_inboxes s r))"
    using m len n u [of "length (takeWhile (\<lambda>m. \<not> unread m) (st_inboxes s r))"]
      length_takeWhile_le [of "\<lambda>m. \<not> unread m" "st_inboxes s r"] unfolding mailbox_inv_def by simp
  ultimately show ?thesis using m n len unfolding mailbox_inv_def ids by (simp add: MaxPendingPerPeer_def)
qed

theorem mailboxes_ordered_witness:
  "reachable collab_init (collab_step sample_digest sample_marshal) sample_state \<and>
   length (st_inboxes sample_state ''b'') = 1 \<and> unat (st_cursors sample_state ''b'') = 0"
  using mailboxes_ordered [OF sample_reachable, of "''b''"] sample_reachable
  by (simp add: sample_state_def sample_message_def unread_def is_zero_time_def)

text \<open>
  a send happens once. After a send that is not a replay, the same request (whatever
  message identifier or time the retry carries, and in whatever order it lists the recipients)
  returns the recorded receipt and leaves the state as it is; a request of that sender with the
  same key and another body or other recipients is refused.
\<close>

theorem Send_idempotent:
  assumes "Send digest rq s = Inr (rc, False, t)"
    and "validID (sr_message_id rq')" "\<not> is_zero_time (sr_at rq')" "sr_key rq' = sr_key rq"
    and "sr_sender rq' = sr_sender rq" "sr_kind rq' = sr_kind rq"
  shows "(sr_body rq' = sr_body rq \<and> mset (sr_recipients rq') = mset (sr_recipients rq) \<longrightarrow>
       Send digest rq' t = Inr (rc, True, t)) \<and>
    (sr_body rq' \<noteq> sr_body rq \<or> mset (sr_recipients rq') \<noteq> mset (sr_recipients rq) \<longrightarrow>
       isl (Send digest rq' t))"
proof -
  from assms(1) have g: "validID (sr_sender rq)" "validID (sr_key rq)" "sr_kind rq = ''text''"
    "length (sr_body rq) \<le> MaxMessageBodyBytes" "sr_recipients rq \<noteq> []" "st_members s (sr_sender rq) \<noteq> None"
    "list_all validID (sort (sr_recipients rq))" "adjacent_distinct (sort (sr_recipients rq))"
    unfolding Send_def Let_def by (simp_all split: if_split_asm)
  have sorted: "sort (sr_recipients rq') = sort (sr_recipients rq) \<longleftrightarrow> mset (sr_recipients rq') = mset (sr_recipients rq)"
    by (metis mset_sort properties_for_sort sorted_sort)
  have r: "map_of (st_requests t) (sr_key rq) = Some rc \<and> rc_sender rc = sr_sender rq \<and> rc_kind rc = sr_kind rq \<and>
      rc_body rc = sr_body rq \<and> rc_recipients rc = sort (sr_recipients rq) \<and> st_members t = st_members s"
    using assms(1)
  proof (cases rule: Send_Inr)
    case sent
    then have "distinct (rc_recipients rc)" by (simp add: fresh_receipt_def)
    with sent show ?thesis by (simp add: send_publish_fields map_of_append map_add_def fresh_receipt_def)
  qed simp
  have "Send digest rq' t = Inr (rc, True, t)"
    if "sr_body rq' = sr_body rq \<and> mset (sr_recipients rq') = mset (sr_recipients rq)"
  proof -
    have "sort (sr_recipients rq') = sort (sr_recipients rq)" "sr_recipients rq' \<noteq> []"
      using that sorted g(5) by auto
    then show ?thesis
      using that g r assms(2-6) unfolding Send_def Let_def by (simp add: not_less)
  qed
  moreover have "isl (Send digest rq' t)"
    if "sr_body rq' \<noteq> sr_body rq \<or> mset (sr_recipients rq') \<noteq> mset (sr_recipients rq)"
  proof -
    have "rc_body rc \<noteq> sr_body rq' \<or> rc_recipients rc \<noteq> sort (sr_recipients rq')"
      using that sorted r by metis
    then show ?thesis using r assms(4) unfolding Send_def Let_def by auto
  qed
  ultimately show ?thesis by blast
qed

theorem Send_idempotent_witness:
  "Send sample_digest (sample_send\<lparr>sr_message_id := ''c'', sr_at := 8\<rparr>) sample_state = Inr (sample_receipt, True, sample_state)"
  using Send_idempotent [OF sample_step_send, of "sample_send\<lparr>sr_message_id := ''c'', sr_at := 8\<rparr>"]
  by (simp add: is_zero_time_def)

text \<open>
  a send that is not a replay appends one unread message, with the body, its digest and
  the current owner epoch, to the inbox of every recipient and of nobody else, and changes no
  message already there; every recipient was joined.
\<close>

theorem Send_delivers:
  assumes "Send digest rq s = Inr (rc, False, t)"
  shows "set (sr_recipients rq) \<subseteq> dom (st_members s) \<and>
    (\<forall>r. if r \<in> set (sr_recipients rq)
         then \<exists>m. st_inboxes t r = st_inboxes s r @ [m] \<and> unread m \<and> msg_id m = sr_message_id rq \<and>
           msg_sender m = sr_sender rq \<and> msg_recipient m = r \<and> msg_body m = sr_body rq \<and>
           msg_digest m = digest (sr_body rq) \<and> msg_owner_epoch m = st_owner_epoch s
         else st_inboxes t r = st_inboxes s r)"
  using assms
proof (cases rule: Send_Inr)
  case sent
  then have d: "distinct (rc_recipients rc)" and rs: "set (rc_recipients rc) = set (sr_recipients rq)"
    and dg: "rc_digest rc = digest (sr_body rq)" by (simp_all add: fresh_receipt_def)
  have "set (sr_recipients rq) \<subseteq> dom (st_members s)" using sent(8) by auto
  moreover have "unread (new_message rq rc e box r)" for e box r
    by (simp add: new_message_def unread_def is_zero_time_def)
  ultimately show ?thesis
    unfolding sent(3) by (simp add: send_publish_fields(1) [OF d] rs) (simp add: new_message_def dg)
qed simp

theorem Send_delivers_witness:
  "\<exists>m. st_inboxes sample_state ''b'' = [m] \<and> msg_body m = ''hi'' \<and> st_inboxes sample_state ''a'' = []"
proof -
  note d = Send_delivers [OF sample_step_send, THEN conjunct2, rule_format]
  from d [of "''b''"] d [of "''a''"] show ?thesis by auto
qed

lemma filter_acknowledged:
  "index_of mid box = Some i \<Longrightarrow> distinct (map msg_id box) \<Longrightarrow> \<not> unread m' \<Longrightarrow>
     filter unread (box[i := m']) = filter (\<lambda>m. msg_id m \<noteq> mid) (filter unread box)"
proof (induction box arbitrary: i)
  case (Cons a box)
  show ?case
  proof (cases "msg_id a = mid")
    case True
    with Cons.prems have "i = 0" "\<forall>m \<in> set box. msg_id m \<noteq> mid" by (simp, metis image_eqI distinct.simps(2) list.simps(9) list.set_map)
    then have "filter (\<lambda>m. msg_id m \<noteq> mid) (filter unread box) = filter unread box"
      by (intro filter_True) simp
    with True Cons.prems(3) \<open>i = 0\<close> show ?thesis by simp
  next
    case False
    with Cons.prems obtain j where "index_of mid box = Some j" "i = Suc j" by auto
    with False Cons show ?thesis by simp
  qed
qed simp

lemma index_of_update: "msg_id m' = mid \<Longrightarrow> index_of mid box = Some i \<Longrightarrow> index_of mid (box[i := m']) = Some i"
  by (induction box arbitrary: i) (auto split: if_splits)

text \<open>
  acknowledging a message consumes exactly that message. Afterwards the inbox lists the
  same unread messages without it, other inboxes and all ownership are untouched, and a second
  acknowledgement returns the same cursor and changes nothing.
\<close>

theorem Ack_consumes_once:
  assumes "reachable collab_init (collab_step digest marshal) s" "Ack r mid d at s = Inr (cur, t)"
  shows "filter unread (st_inboxes t r) = filter (\<lambda>m. msg_id m \<noteq> mid) (filter unread (st_inboxes s r)) \<and>
    (\<forall>q. q \<noteq> r \<longrightarrow> st_inboxes t q = st_inboxes s q) \<and> st_owner t = st_owner s \<and> st_owner_epoch t = st_owner_epoch s \<and>
    Ack r mid d at t = Inr (cur, t)"
proof -
  have dist: "distinct (map msg_id (st_inboxes s r))"
    using collab.reachable_inv [OF assms(1)] by (simp add: collab_inv_def mail_inv_def mailbox_inv_def)
  have g: "validID r" "validID mid" "\<not> is_zero_time at" "st_members s r \<noteq> None"
    using assms(2) unfolding Ack_def by (simp_all split: if_split_asm)
  from assms(2) obtain i where i: "index_of mid (st_inboxes s r) = Some i" "msg_digest (st_inboxes s r ! i) = d"
    using g unfolding Ack_def Let_def by (auto split: option.split_asm if_split_asm)
  note ib = index_of_Some [OF i(1)]
  show ?thesis
  proof (cases "unread (st_inboxes s r ! i)")
    case False
    then have t: "t = s" using assms(2) i unfolding Ack_def Let_def by (simp split: if_split_asm)
    have "(st_inboxes s r)[i := st_inboxes s r ! i] = st_inboxes s r" by simp
    with filter_acknowledged [OF i(1) dist False] assms(2) t show ?thesis by simp
  next
    case True
    then have t: "(cur, t) = ack_publish r i at s"
      using assms(2) i g unfolding Ack_def Let_def by (simp split: if_split_asm)
    let ?m = "(st_inboxes s r ! i)\<lparr>msg_consumed_at := at\<rparr>"
    let ?box = "(st_inboxes s r)[i := ?m]"
    have read: "\<not> unread ?m" using g(3) by (simp add: unread_def)
    have box: "st_inboxes t r = ?box" "\<forall>q. q \<noteq> r \<longrightarrow> st_inboxes t q = st_inboxes s q" "st_cursors t r = cur"
      using t by (simp_all add: ack_publish_def Let_def)
    have fr: "st_owner t = st_owner s" "st_owner_epoch t = st_owner_epoch s" "st_members t = st_members s"
      using ack_publish_snd [OF t] by (simp_all add: ack_publish_fields)
    have "index_of mid ?box = Some i" using index_of_update [OF _ i(1)] ib by simp
    then have "Ack r mid d at t = Inr (cur, t)"
      using g i ib read unfolding Ack_def Let_def fr box by simp
    with filter_acknowledged [OF i(1) dist read] box fr show ?thesis by simp
  qed
qed

theorem Ack_consumes_once_witness:
  "\<exists>t. Ack ''b'' ''m'' ''hi'' 5 sample_state = Inr (1, t) \<and> filter unread (st_inboxes t ''b'') = [] \<and>
     Ack ''b'' ''m'' ''hi'' 5 t = Inr (1, t)"
proof -
  have sel: "st_members sample_state ''b'' = Some \<lparr>joined_at = 2\<rparr>" "st_inboxes sample_state ''b'' = [sample_message]"
    "st_cursors sample_state ''b'' = 0" "msg_id sample_message = ''m''" "msg_digest sample_message = ''hi''"
    "msg_sequence sample_message = 1" "unread sample_message"
    "\<not> unread (sample_message\<lparr>msg_consumed_at := 5\<rparr>)" "msg_sequence (sample_message\<lparr>msg_consumed_at := 5\<rparr>) = 1"
    by (simp_all add: sample_state_def sample_joined_def sample_owned_def sample_new_def sample_message_def unread_def is_zero_time_def)
  have "fst (ack_publish ''b'' 0 5 sample_state) = 1"
    by (simp add: ack_publish_def Let_def sel)
  then have a: "Ack ''b'' ''m'' ''hi'' 5 sample_state = Inr (1, snd (ack_publish ''b'' 0 5 sample_state))"
    by (simp add: Ack_def sel is_zero_time_def prod_eq_iff)
  from Ack_consumes_once [OF sample_reachable a] a show ?thesis by (auto simp: sel)
qed

section \<open>Counters at their limit\<close>

text \<open>
  C18: only the recovery refuses to advance an exhausted counter. Whether a takeover or a transfer is
  accepted, the error if it is not and the owner if it is, are the same whatever the epoch; at the
  last epoch every one that changes the owner wraps the epoch to zero, and there no recovery
  succeeds.
\<close>

theorem owner_epoch_wraps:
  assumes "st_owner_epoch s = maxCounter"
  shows "(\<forall>epoch. map_sum id st_owner (Take rq (s\<lparr>st_owner_epoch := epoch\<rparr>)) = map_sum id st_owner (Take rq s)) \<and>
    (\<forall>epoch. map_sum id st_owner (Transfer c u live at (s\<lparr>st_owner_epoch := epoch\<rparr>)) = map_sum id st_owner (Transfer c u live at s)) \<and>
    (\<forall>t. (Take rq s = Inr t \<or> Transfer c u live at s = Inr t) \<and> st_owner t \<noteq> st_owner s \<longrightarrow> st_owner_epoch t = 0) \<and>
    (\<forall>t. RecoverInactiveOwner marshal co rv s \<noteq> Inr t)"
proof -
  have z: "st_owner_epoch t = 0" if "owner_moved prev new s t" for prev new t
    using that assms by (simp add: owner_moved_def maxCounter_def)
  have "st_owner_epoch t = 0" if "Take rq s = Inr t" "st_owner t \<noteq> st_owner s" for t
    using that(1) by (cases rule: Take_Inr) (use that(2) in simp, metis z take_publish_moved)
  moreover have "st_owner_epoch t = 0" if "Transfer c u live at s = Inr t" "st_owner t \<noteq> st_owner s" for t
    using that(1) by (cases rule: Transfer_Inr) (use that(2) in simp, metis z transfer_publish_moved)
  moreover have "RecoverInactiveOwner marshal co rv s \<noteq> Inr t" for t
    using assms by (auto elim: Recover_Inr)
  moreover have "map_sum id st_owner (Take rq (s\<lparr>st_owner_epoch := epoch\<rparr>)) = map_sum id st_owner (Take rq s)" for epoch
  proof -
    have same: "take_observed (s\<lparr>st_owner_epoch := epoch\<rparr>) rq = take_observed s rq" "take_status (s\<lparr>st_owner_epoch := epoch\<rparr>) rq = take_status s rq"
      "st_owner (s\<lparr>st_owner_epoch := epoch\<rparr>) = st_owner s" "st_version (s\<lparr>st_owner_epoch := epoch\<rparr>) = st_version s"
      "st_complete (s\<lparr>st_owner_epoch := epoch\<rparr>) = st_complete s"
      "st_owner (take_publish rq observed (s\<lparr>st_owner_epoch := epoch\<rparr>)) = st_owner (take_publish rq observed s)" for observed
      by (simp_all add: take_observed_def take_status_def take_publish_def recordChange_def Let_def)
    show ?thesis unfolding Take_def Let_def by (simp only: same if_distrib [of "map_sum id st_owner"] map_sum.simps)
  qed
  moreover have "map_sum id st_owner (Transfer c u live at (s\<lparr>st_owner_epoch := epoch\<rparr>)) = map_sum id st_owner (Transfer c u live at s)" for epoch
    by (simp add: Transfer_def Let_def transfer_publish_def recordChange_def)
  ultimately show ?thesis by blast
qed

theorem owner_epoch_wraps_witness:
  "\<exists>t. Transfer ''a'' ''b'' True 7 (sample_joined\<lparr>st_owner_epoch := maxCounter\<rparr>) = Inr t \<and> st_owner_epoch t = 0"
proof -
  let ?s = "sample_joined\<lparr>st_owner_epoch := maxCounter\<rparr>"
  have o: "st_owner ?s = ''a''" "st_members ?s ''b'' = Some \<lparr>joined_at = 2\<rparr>"
    by (simp_all add: sample_joined_def sample_owned_def)
  have t: "Transfer ''a'' ''b'' True 7 ?s = Inr (transfer_publish ''a'' ''b'' 7 ?s)"
    by (simp add: Transfer_def o is_zero_time_def)
  have "st_owner (transfer_publish ''a'' ''b'' 7 ?s) \<noteq> st_owner ?s"
    using o by (simp add: transfer_publish_def recordChange_def Let_def)
  with owner_epoch_wraps [of ?s _ "''a''" "''b''" True 7] t show ?thesis by auto
qed

end
