(* ===== verification/Collab_Service.thy ===== *)
theory Collab_Service
  imports Collab_Props
begin

text \<open>
  The coordination store and service (\<^verbatim>\<open>internal/worktreecollab/store.go\<close> and
  \<^verbatim>\<open>service.go\<close>): a snapshot per checkout, loaded, changed and published under one lock. The
  file system is an explicit store from checkout identifiers to snapshots together with a
  record of what each boundary call did in this invocation (\<open>store_env\<close>, \<open>load_env\<close>); a write
  that reports an error may or may not have replaced the file. What the service observes of
  the outside, its \<^verbatim>\<open>ServicePorts\<close>, is the record \<open>ports\<close>; observations that are made again
  under the lock come from a second record. Ports are functions, never nil.
\<close>

section \<open>The store\<close>

datatype service_error =
    Coordination collab_error
  | HomeFailed | DirectoryFailed | DirectoryMoved | LockFailed | LockNotOwned | UnlockFailed
  | ReadFailed | WriteFailed
  | RootStillExists | RootUninspectable | ActorInvalid
  | NotInitialized | NotCurrentOwner
  | ResolveFailed string | CallerFailed string | CallerUnregistered
  | LivenessFailed string | LivenessUncorroborated | LegacyFailed string | MessageIdFailed string
  | RecoverySelf | RecoveryNotInactive string
  | CallerChanged | CheckoutChanged | LivenessChanged string

datatype lock_outcome = LockError | LockBusy | LockHeld
datatype write_outcome = Written | WriteError bool
datatype lstat_outcome = PathExists | PathAbsent | PathError

type_synonym disk = "string \<rightharpoonup> state"

record store_env =
  env_home :: bool
  env_child :: bool
  env_matches :: "nat \<Rightarrow> bool"
  env_lock :: lock_outcome
  env_read :: bool
  env_write :: write_outcome
  env_unlock :: bool

type_synonym 'a change = "bool \<Rightarrow> state \<Rightarrow> (service_error, 'a \<times> state) result"

definition publish_snapshot ::
  "store_env \<Rightarrow> disk \<Rightarrow> checkout \<Rightarrow> (service_error, unit) result option \<Rightarrow> state \<Rightarrow> 'a \<Rightarrow> state \<Rightarrow>
     (service_error, 'a \<times> state) result \<times> disk" where
  "publish_snapshot env disk co beforeWrite s x t =
     (if st_revision t \<noteq> st_revision s then
        (case (case beforeWrite of None \<Rightarrow> Inr () | Some r \<Rightarrow> r) of
           Inl e \<Rightarrow> (Inl e, disk)
         | Inr _ \<Rightarrow>
             (case state_Validate t co of
                Inl e \<Rightarrow> (Inl (Coordination e), disk)
              | Inr _ \<Rightarrow>
                  if \<not> env_matches env 2 then (Inl DirectoryMoved, disk)
                  else (case env_write env of
                     WriteError replaced \<Rightarrow> (Inl WriteFailed, if replaced then disk(co_id co \<mapsto> t) else disk)
                   | Written \<Rightarrow>
                       (if env_matches env 3 then Inr (x, t) else Inl DirectoryMoved, disk(co_id co \<mapsto> t)))))
      else (if env_matches env 3 then Inr (x, t) else Inl DirectoryMoved, disk))"

definition apply_change ::
  "store_env \<Rightarrow> disk \<Rightarrow> checkout \<Rightarrow> (service_error, unit) result option \<Rightarrow> 'a change \<Rightarrow> bool \<Rightarrow> state \<Rightarrow>
     (service_error, 'a \<times> state) result \<times> disk" where
  "apply_change env disk co beforeWrite change found s =
     (case change found s of
        Inl e \<Rightarrow> (Inl e, disk)
      | Inr (x, t) \<Rightarrow> publish_snapshot env disk co beforeWrite s x t)"

definition locked_section ::
  "store_env \<Rightarrow> disk \<Rightarrow> checkout \<Rightarrow> string \<Rightarrow> (service_error, unit) result option \<Rightarrow> 'a change \<Rightarrow> state \<Rightarrow>
     (service_error, 'a \<times> state) result \<times> disk" where
  "locked_section env disk co allowedPreviousRoot beforeWrite change fresh =
     (if \<not> env_matches env 1 then (Inl DirectoryMoved, disk)
      else if \<not> env_read env then (Inl ReadFailed, disk)
      else (case disk (co_id co) of
         None \<Rightarrow> apply_change env disk co beforeWrite change False fresh
       | Some s \<Rightarrow>
           (case state_Validate s co of
              Inr _ \<Rightarrow> apply_change env disk co beforeWrite change True s
            | Inl e \<Rightarrow>
                if allowedPreviousRoot = [] then (Inl (Coordination e), disk)
                else (case ValidateRebind s co allowedPreviousRoot of
                   Inl e' \<Rightarrow> (Inl (Coordination e'), disk)
                 | Inr _ \<Rightarrow> apply_change env disk co beforeWrite change True s))))"

definition withLocked ::
  "store_env \<Rightarrow> disk \<Rightarrow> checkout \<Rightarrow> string \<Rightarrow> (service_error, unit) result option \<Rightarrow> 'a change \<Rightarrow>
     (service_error, 'a \<times> state) result \<times> disk" where
  "withLocked env disk co allowedPreviousRoot beforeWrite change =
     (case New co of
        Inl e \<Rightarrow> (Inl (Coordination e), disk)
      | Inr fresh \<Rightarrow>
          if \<not> env_home env then (Inl HomeFailed, disk)
          else if \<not> env_child env then (Inl DirectoryFailed, disk)
          else if \<not> env_matches env 0 then (Inl DirectoryMoved, disk)
          else (case env_lock env of
             LockError \<Rightarrow> (Inl LockFailed, disk)
           | LockBusy \<Rightarrow> (Inl LockNotOwned, disk)
           | LockHeld \<Rightarrow>
               let (r, disk') = locked_section env disk co allowedPreviousRoot beforeWrite change fresh
               in (if is_ok r \<and> \<not> env_unlock env then Inl UnlockFailed else r, disk')))"

definition coordinate :: "(collab_error, state) result \<Rightarrow> (service_error, unit \<times> state) result" where
  "coordinate r = (case r of Inl e \<Rightarrow> Inl (Coordination e) | Inr t \<Rightarrow> Inr ((), t))"

definition initialized :: "(state \<Rightarrow> (service_error, 'a \<times> state) result) \<Rightarrow> 'a change" where
  "initialized f found s = (if \<not> found then Inl NotInitialized else f s)"

definition requireAbsentPreviousRoot :: "lstat_outcome \<Rightarrow> (service_error, unit) result" where
  "requireAbsentPreviousRoot l =
     (case l of PathExists \<Rightarrow> Inl RootStillExists | PathError \<Rightarrow> Inl RootUninspectable | PathAbsent \<Rightarrow> Inr ())"

definition store_Rebind ::
  "store_env \<Rightarrow> lstat_outcome \<Rightarrow> disk \<Rightarrow> checkout \<Rightarrow> string \<Rightarrow> string \<Rightarrow> go_time \<Rightarrow>
     (service_error, unit \<times> state) result \<times> disk" where
  "store_Rebind env oldRoot disk co expectedRoot actor at =
     (if \<not> validID actor \<or> actor = NoOwner \<or> is_zero_time at then (Inl ActorInvalid, disk)
      else (case checkout_Validate co of
         Inl e \<Rightarrow> (Inl (Coordination e), disk)
       | Inr _ \<Rightarrow>
           withLocked env disk co expectedRoot (Some (requireAbsentPreviousRoot oldRoot))
             (initialized (\<lambda>s. coordinate (rebind_change co expectedRoot actor at s)))))"

definition store_RecoverInactiveOwner ::
  "(recovery_audit \<Rightarrow> (string, string) result) \<Rightarrow> store_env \<Rightarrow> lstat_outcome \<times> lstat_outcome \<Rightarrow> disk \<Rightarrow> checkout \<Rightarrow> recovery \<Rightarrow>
     (service_error, unit) result \<Rightarrow> (service_error, unit \<times> state) result \<times> disk" where
  "store_RecoverInactiveOwner marshal env roots disk co rv revalidated =
     (case recovery_validate rv of
        Inl e \<Rightarrow> (Inl (Coordination e), disk)
      | Inr _ \<Rightarrow>
         (case checkout_Validate co of
            Inl e \<Rightarrow> (Inl (Coordination e), disk)
          | Inr _ \<Rightarrow>
              let beforeWrite =
                (case requireAbsentPreviousRoot (fst roots) of
                   Inl e \<Rightarrow> Inl e
                 | Inr _ \<Rightarrow> (case revalidated of Inl e \<Rightarrow> Inl e | Inr _ \<Rightarrow> requireAbsentPreviousRoot (snd roots)))
              in withLocked env disk co (rv_expected_root rv) (Some beforeWrite)
                   (initialized (\<lambda>s. coordinate (RecoverInactiveOwner marshal co rv s)))))"

datatype open_outcome = Opened | Missing bool | OpenFailed

record load_env =
  ld_home :: open_outcome
  ld_directory :: open_outcome
  ld_matches :: "nat \<Rightarrow> bool"
  ld_read :: bool

text \<open>
  \<^verbatim>\<open>Load\<close>: a home that does not exist is an absent snapshot; a directory that does not exist
  is one if the recheck finds nothing changed (\<open>Missing True\<close>).
\<close>

definition Load :: "load_env \<Rightarrow> disk \<Rightarrow> checkout \<Rightarrow> (service_error, state \<times> bool) result" where
  "Load env disk co =
     (case New co of
        Inl e \<Rightarrow> Inl (Coordination e)
      | Inr fresh \<Rightarrow>
         (case ld_home env of
            Missing _ \<Rightarrow> Inr (fresh, False)
          | OpenFailed \<Rightarrow> Inl HomeFailed
          | Opened \<Rightarrow>
             (case ld_directory env of
                Missing unchanged \<Rightarrow> if unchanged then Inr (fresh, False) else Inl DirectoryMoved
              | OpenFailed \<Rightarrow> Inl DirectoryFailed
              | Opened \<Rightarrow>
                  if \<not> ld_matches env 0 then Inl DirectoryMoved
                  else if \<not> ld_read env then Inl ReadFailed
                  else if \<not> ld_matches env 1 then Inl DirectoryMoved
                  else (case disk (co_id co) of
                     None \<Rightarrow> Inr (fresh, False)
                   | Some s \<Rightarrow> (case state_Validate s co of Inl e \<Rightarrow> Inl (Coordination e) | Inr _ \<Rightarrow> Inr (s, True))))))"

section \<open>The service\<close>

record ports =
  pt_resolve :: "string \<Rightarrow> (string, checkout) result"
  pt_caller :: "(string, string) result"
  pt_live :: "string \<Rightarrow> (string, bool) result"
  pt_owner_status :: "string \<Rightarrow> (string, string) result"
  pt_observe_legacy :: "checkout \<Rightarrow> (string, observed_owner) result"
  pt_observe_inspection :: "checkout \<Rightarrow> (string, observed_owner) result"
  pt_now :: go_time
  pt_new_message_id :: "(string, string) result"

definition service_caller :: "ports \<Rightarrow> (service_error, string) result" where
  "service_caller p =
     (case pt_caller p of
        Inl e \<Rightarrow> Inl (CallerFailed e)
      | Inr c \<Rightarrow> if \<not> validID c \<or> c = NoOwner then Inl CallerUnregistered else Inr c)"

text \<open>The opening of every method: the checkout is resolved, then the caller is bound.\<close>

definition admitted :: "ports \<Rightarrow> string \<Rightarrow> (service_error, checkout \<times> string) result" where
  "admitted p idOrPath =
     (case pt_resolve p idOrPath of
        Inl e \<Rightarrow> Inl (ResolveFailed e)
      | Inr co \<Rightarrow> (case service_caller p of Inl e \<Rightarrow> Inl e | Inr c \<Rightarrow> Inr (co, c)))"

definition service_Join ::
  "ports \<Rightarrow> store_env \<Rightarrow> disk \<Rightarrow> string \<Rightarrow> (service_error, unit \<times> state) result \<times> disk" where
  "service_Join p env disk idOrPath =
     (case admitted p idOrPath of
        Inl e \<Rightarrow> (Inl e, disk)
      | Inr (co, caller) \<Rightarrow>
          withLocked env disk co [] None (initialized (\<lambda>s. coordinate (join_session caller (pt_now p) s))))"

definition service_Leave ::
  "ports \<Rightarrow> store_env \<Rightarrow> disk \<Rightarrow> string \<Rightarrow> (service_error, unit \<times> state) result \<times> disk" where
  "service_Leave p env disk idOrPath =
     (case admitted p idOrPath of
        Inl e \<Rightarrow> (Inl e, disk)
      | Inr (co, caller) \<Rightarrow> withLocked env disk co [] None (initialized (\<lambda>s. coordinate (Leave caller s))))"

definition service_Rebind ::
  "ports \<Rightarrow> store_env \<Rightarrow> lstat_outcome \<Rightarrow> disk \<Rightarrow> string \<Rightarrow> string \<Rightarrow>
     (service_error, unit \<times> state) result \<times> disk" where
  "service_Rebind p env oldRoot disk idOrPath expectedRoot =
     (case admitted p idOrPath of
        Inl e \<Rightarrow> (Inl e, disk)
      | Inr (co, caller) \<Rightarrow> store_Rebind env oldRoot disk co expectedRoot caller (pt_now p))"

text \<open>\<open>p'\<close> holds what the ports say when the recovery is rechecked under the lock.\<close>

definition revalidate_recovery :: "ports \<Rightarrow> string \<Rightarrow> string \<Rightarrow> checkout \<Rightarrow> recovery \<Rightarrow> (service_error, unit) result" where
  "revalidate_recovery p' idOrPath caller co rv =
     (case service_caller p' of
        Inl e \<Rightarrow> Inl e
      | Inr current \<Rightarrow>
          if current \<noteq> caller then Inl CallerChanged
          else (case pt_resolve p' idOrPath of
             Inl e \<Rightarrow> Inl (ResolveFailed e)
           | Inr fresh \<Rightarrow>
               if fresh \<noteq> co then Inl CheckoutChanged
               else (case pt_owner_status p' (rv_expected_owner rv) of
                  Inl e \<Rightarrow> Inl (LivenessFailed e)
                | Inr status \<Rightarrow> if \<not> allowsOwnerStatus rv status then Inl (LivenessChanged status) else Inr ())))"

definition service_RecoverInactiveOwner ::
  "(recovery_audit \<Rightarrow> (string, string) result) \<Rightarrow> ports \<Rightarrow> ports \<Rightarrow> store_env \<Rightarrow> lstat_outcome \<times> lstat_outcome \<Rightarrow> disk \<Rightarrow>
     string \<Rightarrow> recovery \<Rightarrow> (service_error, unit \<times> state) result \<times> disk" where
  "service_RecoverInactiveOwner marshal p p' env roots disk idOrPath request =
     (case admitted p idOrPath of
        Inl e \<Rightarrow> (Inl e, disk)
      | Inr (co, caller) \<Rightarrow>
          let rv = request\<lparr>rv_actor := caller, rv_at := pt_now p\<rparr> in
          if rv_expected_owner rv = caller then (Inl RecoverySelf, disk)
          else (case pt_owner_status p (rv_expected_owner rv) of
             Inl e \<Rightarrow> (Inl (LivenessFailed e), disk)
           | Inr status \<Rightarrow>
               let rv' = rv\<lparr>rv_owner_status := status\<rparr> in
               if \<not> allowsOwnerStatus rv' status then (Inl (RecoveryNotInactive status), disk)
               else store_RecoverInactiveOwner marshal env roots disk co rv'
                      (revalidate_recovery p' idOrPath caller co rv')))"

definition known_status :: "string \<Rightarrow> bool" where
  "known_status status \<longleftrightarrow> status = ''live'' \<or> status = ''inactive'' \<or> status = ''unknown''"

definition take_change :: "ports \<Rightarrow> checkout \<Rightarrow> take_request \<Rightarrow> unit change" where
  "take_change p co rq found s =
     (if \<not> found then
        (case pt_observe_legacy p co of
           Inl e \<Rightarrow> Inl (LegacyFailed e)
         | Inr legacy \<Rightarrow> coordinate (Take (rq\<lparr>tk_legacy := legacy\<rparr>) s))
      else (case pt_owner_status p (st_owner s) of
           Inl e \<Rightarrow> Inl (LivenessFailed e)
         | Inr status \<Rightarrow>
             if \<not> known_status status then Inl LivenessUncorroborated
             else coordinate (Take (rq\<lparr>tk_owner_status := status\<rparr>) s)))"

definition no_legacy :: observed_owner where
  "no_legacy = \<lparr>oo_id = [], oo_session = [], oo_status = []\<rparr>"

text \<open>\<open>p\<close> is observed for the preview, \<open>p'\<close> under the lock.\<close>

definition service_Take ::
  "ports \<Rightarrow> ports \<Rightarrow> load_env \<Rightarrow> store_env \<Rightarrow> disk \<Rightarrow> disk \<Rightarrow> string \<Rightarrow> string \<Rightarrow> bool \<Rightarrow> string \<Rightarrow>
     (service_error, unit \<times> state) result \<times> disk" where
  "service_Take p p' lenv env seen disk idOrPath expected force reason =
     (case admitted p idOrPath of
        Inl e \<Rightarrow> (Inl e, disk)
      | Inr (co, caller) \<Rightarrow>
         (case Load lenv seen co of
            Inl e \<Rightarrow> (Inl e, disk)
          | Inr (current, found) \<Rightarrow>
              let rq = \<lparr>tk_caller = caller, tk_expected_owner = expected, tk_legacy = no_legacy, tk_owner_status = [],
                        tk_force = force, tk_reason = reason, tk_at = pt_now p'\<rparr>;
                  preview = (if found then Inr ()
                    else (case pt_observe_inspection p co of
                       Inl e \<Rightarrow> Inl (LegacyFailed e)
                     | Inr legacy \<Rightarrow>
                         (case Take (rq\<lparr>tk_at := pt_now p, tk_legacy := legacy\<rparr>) current of
                            Inl e \<Rightarrow> Inl (Coordination e) | Inr _ \<Rightarrow> Inr ())))
              in (case preview of
                    Inl e \<Rightarrow> (Inl e, disk)
                  | Inr _ \<Rightarrow> withLocked env disk co [] None (take_change p' co rq))))"

definition transfer_change :: "ports \<Rightarrow> string \<Rightarrow> string \<Rightarrow> unit change" where
  "transfer_change p caller successor =
     initialized (\<lambda>s.
       if st_owner s \<noteq> caller then Inl NotCurrentOwner
       else (case pt_live p successor of
          Inl e \<Rightarrow> Inl (LivenessFailed e)
        | Inr live \<Rightarrow> coordinate (Transfer caller successor live (pt_now p) s)))"

definition service_Transfer ::
  "ports \<Rightarrow> store_env \<Rightarrow> disk \<Rightarrow> string \<Rightarrow> string \<Rightarrow> (service_error, unit \<times> state) result \<times> disk" where
  "service_Transfer p env disk idOrPath successor =
     (case admitted p idOrPath of
        Inl e \<Rightarrow> (Inl e, disk)
      | Inr (co, caller) \<Rightarrow> withLocked env disk co [] None (transfer_change p caller successor))"

definition send_change ::
  "(string \<Rightarrow> string) \<Rightarrow> ports \<Rightarrow> string \<Rightarrow> string \<Rightarrow> string list \<Rightarrow> string \<Rightarrow> (send_receipt \<times> bool) change" where
  "send_change digest p caller key recipients body =
     initialized (\<lambda>s.
       (case (case map_of (st_requests s) key of
                Some prior \<Rightarrow> Inr (rc_message_id prior)
              | None \<Rightarrow> pt_new_message_id p) of
          Inl e \<Rightarrow> Inl (MessageIdFailed e)
        | Inr messageID \<Rightarrow>
            (case Send digest \<lparr>sr_sender = caller, sr_recipients = recipients, sr_key = key, sr_message_id = messageID,
                     sr_kind = ''text'', sr_body = body, sr_at = pt_now p\<rparr> s of
               Inl e \<Rightarrow> Inl (Coordination e)
             | Inr (rc, replay, t) \<Rightarrow> Inr ((rc, replay), t))))"

definition service_Send ::
  "(string \<Rightarrow> string) \<Rightarrow> ports \<Rightarrow> store_env \<Rightarrow> disk \<Rightarrow> string \<Rightarrow> string \<Rightarrow> string list \<Rightarrow> string \<Rightarrow>
     (service_error, (send_receipt \<times> bool) \<times> state) result \<times> disk" where
  "service_Send digest p env disk idOrPath key recipients body =
     (case admitted p idOrPath of
        Inl e \<Rightarrow> (Inl e, disk)
      | Inr (co, caller) \<Rightarrow> withLocked env disk co [] None (send_change digest p caller key recipients body))"

definition inbox_change :: "string \<Rightarrow> (message list \<times> owner_change option) change" where
  "inbox_change caller =
     initialized (\<lambda>s. case Inbox caller s of
       Inl e \<Rightarrow> Inl (Coordination e) | Inr messages \<Rightarrow> Inr ((messages, st_notices s caller), s))"

definition service_Inbox ::
  "ports \<Rightarrow> store_env \<Rightarrow> disk \<Rightarrow> string \<Rightarrow> (service_error, (message list \<times> owner_change option) \<times> state) result \<times> disk" where
  "service_Inbox p env disk idOrPath =
     (case admitted p idOrPath of
        Inl e \<Rightarrow> (Inl e, disk)
      | Inr (co, caller) \<Rightarrow> withLocked env disk co [] None (inbox_change caller))"

definition recorded_digest :: "string \<Rightarrow> message list \<Rightarrow> string" where
  "recorded_digest messageID box =
     (case List.find (\<lambda>m. msg_id m = messageID) box of None \<Rightarrow> [] | Some m \<Rightarrow> msg_digest m)"

definition ack_change :: "ports \<Rightarrow> string \<Rightarrow> string \<Rightarrow> (64 word) change" where
  "ack_change p caller messageID =
     initialized (\<lambda>s. case Ack caller messageID (recorded_digest messageID (st_inboxes s caller)) (pt_now p) s of
       Inl e \<Rightarrow> Inl (Coordination e) | Inr r \<Rightarrow> Inr r)"

definition service_Ack ::
  "ports \<Rightarrow> store_env \<Rightarrow> disk \<Rightarrow> string \<Rightarrow> string \<Rightarrow> (service_error, 64 word \<times> state) result \<times> disk" where
  "service_Ack p env disk idOrPath messageID =
     (case admitted p idOrPath of
        Inl e \<Rightarrow> (Inl e, disk)
      | Inr (co, caller) \<Rightarrow> withLocked env disk co [] None (ack_change p caller messageID))"

section \<open>The contract of a change under the lock\<close>

text \<open>
  What \<^verbatim>\<open>WithLocked\<close> asks of the function it is given: it keeps the invariant of the state, it
  returns the state unchanged or advances the revision by one, and on a snapshot that does
  not exist yet it never reports success without a change.
\<close>

locale snapshot_change =
  fixes change :: "'a change"
  assumes change_inv: "collab_inv s \<Longrightarrow> change found s = Inr (x, t) \<Longrightarrow> collab_inv t"
    and change_revision: "change found s = Inr (x, t) \<Longrightarrow> t = s \<or> st_revision t = st_revision s + 1"
    and change_absent: "change False s = Inr (x, t) \<Longrightarrow> st_owner s = [] \<Longrightarrow> t \<noteq> s"

definition disk_inv :: "disk \<Rightarrow> bool" where
  "disk_inv disk \<longleftrightarrow> (\<forall>i s. disk i = Some s \<longrightarrow> collab_inv s \<and> validateEnvelope s = Inr () \<and> co_id (st_checkout s) = i)"

lemma state_Validate_Inr: "state_Validate t co = Inr u \<Longrightarrow> validateEnvelope t = Inr () \<and> st_checkout t = co"
  by (auto simp: state_Validate_def split: sum.splits if_splits)

lemma disk_inv_upd:
  "disk_inv disk \<Longrightarrow> collab_inv t \<Longrightarrow> state_Validate t co = Inr u \<Longrightarrow> disk_inv (disk(co_id co \<mapsto> t))"
  by (auto simp: disk_inv_def dest: state_Validate_Inr)

lemma New_owner: "New co = Inr s \<Longrightarrow> st_owner s = []"
  by (auto simp: New_def split: sum.splits)

lemma publish_snapshot_cases:
  assumes "publish_snapshot env disk co bw s x t = (r, disk')"
  obtains (kept) "disk' = disk" "is_ok r \<Longrightarrow> r = Inr (x, t) \<and> st_revision t = st_revision s"
  | (written) u where "disk' = disk(co_id co \<mapsto> t)" "state_Validate t co = Inr u" "bw = None \<or> bw = Some (Inr ())"
      "r = Inr (x, t) \<or> r \<in> {Inl WriteFailed, Inl DirectoryMoved}" "st_revision t \<noteq> st_revision s"
  using assms unfolding publish_snapshot_def
  by (auto split: if_split_asm sum.split_asm option.split_asm write_outcome.split_asm)

lemma withLocked_cases:
  assumes "withLocked env disk co prev bw change = (r, disk')"
  obtains (refused) "disk' = disk" "isl r"
  | (ran) r0 found s x t fresh where "New co = Inr fresh" "change found s = Inr (x, t)"
      "found \<and> disk (co_id co) = Some s \<or> \<not> found \<and> disk (co_id co) = None \<and> s = fresh"
      "publish_snapshot env disk co bw s x t = (r0, disk')" "r = r0 \<or> is_ok r0 \<and> r = Inl UnlockFailed"
proof -
  have ap: "thesis" if "apply_change env disk co bw change found s = (r0, disk')" "New co = Inr fresh"
    "found \<and> disk (co_id co) = Some s \<or> \<not> found \<and> disk (co_id co) = None \<and> s = fresh"
    "r = r0 \<or> is_ok r0 \<and> r = Inl UnlockFailed" for found s r0 fresh
  proof (cases "change found s")
    case (Inl e)
    with that(1) have "disk' = disk" "r0 = Inl e" by (simp_all add: apply_change_def)
    with that(4) show thesis by (intro refused) auto
  next
    case (Inr xt)
    with that show thesis by (cases xt) (auto simp: apply_change_def intro: ran)
  qed
  show thesis
  proof (cases "(\<exists>fresh. New co = Inr fresh) \<and> env_home env \<and> env_child env \<and> env_matches env 0 \<and> env_lock env = LockHeld")
    case False
    with assms show thesis
      by (intro refused) (auto simp: withLocked_def split: sum.split_asm lock_outcome.split_asm if_split_asm)
  next
    case True
    then obtain fresh where f: "New co = Inr fresh" by blast
    obtain r0 where l: "locked_section env disk co prev bw change fresh = (r0, disk')"
      "r = (if is_ok r0 \<and> \<not> env_unlock env then Inl UnlockFailed else r0)"
      using True assms f by (auto simp: withLocked_def Let_def split: prod.split_asm)
    then have rr: "r = r0 \<or> is_ok r0 \<and> r = Inl UnlockFailed" by auto
    show thesis
    proof (cases "\<exists>found s. apply_change env disk co bw change found s = (r0, disk') \<and>
        (found \<and> disk (co_id co) = Some s \<or> \<not> found \<and> disk (co_id co) = None \<and> s = fresh)")
      case True
      with ap [OF _ f _ rr] show thesis by blast
    next
      case False
      with l have "disk' = disk \<and> isl r0"
        by (auto simp: locked_section_def split: if_split_asm option.split_asm sum.split_asm)
      with l show thesis by (intro refused) (auto split: if_splits)
    qed
  qed
qed

context snapshot_change
begin

lemma withLocked_disk_inv:
  assumes "disk_inv disk" "withLocked env disk co prev bw change = (r, disk')"
  shows "disk_inv disk'"
  using assms(2)
proof (cases rule: withLocked_cases)
  case (ran r0 found s x t fresh)
  have "collab_inv s" using ran(1,3) assms(1) New_inv by (auto simp: disk_inv_def)
  then have "collab_inv t" using change_inv ran(2) by blast
  from ran(4) show ?thesis
    by (cases rule: publish_snapshot_cases) (use assms(1) disk_inv_upd \<open>collab_inv t\<close> in auto)
qed (use assms(1) in simp)

lemma withLocked_success:
  assumes "withLocked env disk co prev bw change = (Inr (x, t), disk')"
  shows "disk' = disk(co_id co \<mapsto> t)"
  using assms
proof (cases rule: withLocked_cases)
  case (ran r0 found s y u fresh)
  then have r0: "r0 = Inr (x, t)" by auto
  from ran(4) show ?thesis
  proof (cases rule: publish_snapshot_cases)
    case kept
    then have "x = y" "t = u" "st_revision t = st_revision s" by (simp_all add: r0)
    with change_revision [OF ran(2)] have "t = s" by auto
    have "found"
    proof (rule ccontr)
      assume "\<not> found"
      with ran(3) have f: "s = fresh" "found = False" by simp_all
      have "change False fresh = Inr (y, fresh)" using ran(2) \<open>t = s\<close> \<open>t = u\<close> by (simp add: f)
      from change_absent [OF this New_owner [OF ran(1)]] show False by simp
    qed
    with ran(3) \<open>t = s\<close> kept(1) show ?thesis by auto
  next
    case written
    then show ?thesis by (auto simp: r0)
  qed
qed simp

lemma withLocked_failure:
  assumes "withLocked env disk co prev bw change = (Inl e, disk')"
  shows "disk' = disk \<or> e \<in> {WriteFailed, DirectoryMoved, UnlockFailed}"
  using assms
proof (cases rule: withLocked_cases)
  case (ran r0 found s y u fresh)
  from ran(4) show ?thesis
    by (cases rule: publish_snapshot_cases) (use ran(5) in auto)
qed simp

lemma withLocked_guarded:
  assumes "withLocked env disk co prev (Some bw) change = (r, disk')" "disk' \<noteq> disk"
  shows "bw = Inr ()"
  using assms(1)
proof (cases rule: withLocked_cases)
  case (ran r0 found s y u fresh)
  from ran(4) show ?thesis
    by (cases rule: publish_snapshot_cases) (use assms(2) in auto)
qed (use assms(2) in simp)

end

text \<open>The contract for the changes the service makes, each an operation of the coordination state.\<close>

lemma snapshot_change_op:
  assumes "\<And>found s x t. change found s = Inr (x, t) \<Longrightarrow> (\<exists>act. apply_op digest marshal act s = Inr t) \<or> t = s"
    and "\<And>s x t. change False s = Inr (x, t) \<Longrightarrow> st_owner s = [] \<Longrightarrow> t \<noteq> s"
  shows "snapshot_change change"
proof
  show "collab_inv t" if "collab_inv s" "change found s = Inr (x, t)" for s found x t
    using assms(1) [OF that(2)] that(1) apply_op_inv by blast
  show "t = s \<or> st_revision t = st_revision s + 1" if "change found s = Inr (x, t)" for found s x t
    using assms(1) [OF that] apply_op_revision by blast
qed (rule assms(2))

lemma coordinate_Inr: "coordinate r = Inr (x, t) \<longleftrightarrow> r = Inr t"
  by (cases r) (auto simp: coordinate_def)

lemma initialized_Inr: "initialized f found s = Inr (x, t) \<longleftrightarrow> found \<and> f s = Inr (x, t)"
  by (auto simp: initialized_def)

lemma snapshot_change_initialized:
  assumes "\<And>s x t. f s = Inr (x, t) \<Longrightarrow> (\<exists>act. apply_op digest marshal act s = Inr t) \<or> t = s"
  shows "snapshot_change (initialized f)"
  by (rule snapshot_change_op) (auto simp: initialized_Inr dest: assms)

interpretation join_change: snapshot_change "initialized (\<lambda>s. coordinate (join_session caller at s))" for caller at
  by (rule snapshot_change_initialized) (auto simp: coordinate_Inr intro: exI [of _ "DoJoin caller at"])

interpretation leave_change: snapshot_change "initialized (\<lambda>s. coordinate (Leave caller s))" for caller
  by (rule snapshot_change_initialized) (auto simp: coordinate_Inr intro: exI [of _ "DoLeave caller"])

interpretation rebinding: snapshot_change "initialized (\<lambda>s. coordinate (rebind_change co root actor at s))" for co root actor at
  by (rule snapshot_change_initialized) (auto simp: coordinate_Inr intro: exI [of _ "DoRebind co root actor at"])

interpretation recovering: snapshot_change "initialized (\<lambda>s. coordinate (RecoverInactiveOwner marshal co rv s))" for marshal co rv
  by (rule snapshot_change_initialized [where marshal = marshal]) (auto simp: coordinate_Inr intro: exI [of _ "DoRecover co rv"])

lemma transfer_change_contract: "snapshot_change (transfer_change p caller successor)"
  unfolding transfer_change_def
proof (rule snapshot_change_initialized)
  fix s x t
  assume "(if st_owner s \<noteq> caller then Inl NotCurrentOwner
       else (case pt_live p successor of Inl e \<Rightarrow> Inl (LivenessFailed e)
        | Inr live \<Rightarrow> coordinate (Transfer caller successor live (pt_now p) s))) = Inr (x :: unit, t)"
  then obtain live where "Transfer caller successor live (pt_now p) s = Inr t"
    by (auto simp: coordinate_Inr split: if_splits sum.splits)
  then show "(\<exists>act. apply_op digest marshal act s = Inr t) \<or> t = s" for digest marshal
    by (auto intro: exI [of _ "DoTransfer caller successor live (pt_now p)"])
qed

interpretation transferring: snapshot_change "transfer_change p caller successor" for p caller successor
  by (rule transfer_change_contract)

lemma Take_fresh_changes: "Take rq s = Inr t \<Longrightarrow> st_owner s = [] \<Longrightarrow> t \<noteq> s"
proof
  assume a: "Take rq s = Inr t" "st_owner s = []" "t = s"
  from a(1) show False
  proof (cases rule: Take_Inr)
    case same
    have "validID (tk_caller rq)" using a(1) unfolding Take_def by (simp split: if_split_asm)
    then show False using same a(2) by (simp add: validID_def)
  next
    case moved
    have "st_revision t = st_revision s + 1"
      unfolding moved(1) by (rule owner_moved_revision [OF take_publish_moved [OF moved(2)]])
    with a(3) show False by simp
  qed
qed

interpretation taking: snapshot_change "take_change p co rq" for p co rq
proof (rule snapshot_change_op)
  show "(\<exists>act. apply_op digest marshal act s = Inr t) \<or> t = s" if "take_change p co rq found s = Inr (x, t)"
    for digest marshal found s x t
  proof -
    from that obtain rq' where "Take rq' s = Inr t"
      unfolding take_change_def by (auto simp: coordinate_Inr split: if_split_asm sum.split_asm)
    then show ?thesis by (auto intro: exI [of _ "DoTake rq'"])
  qed
  show "t \<noteq> s" if "take_change p co rq False s = Inr (x, t)" "st_owner s = []" for s x t
    using that Take_fresh_changes unfolding take_change_def
    by (auto simp: coordinate_Inr split: sum.split_asm)
qed

lemma send_change_contract: "snapshot_change (send_change digest p caller key recipients body)"
  unfolding send_change_def
proof (rule snapshot_change_initialized [where digest = digest])
  fix s x t
  assume "(case (case map_of (st_requests s) key of Some prior \<Rightarrow> Inr (rc_message_id prior) | None \<Rightarrow> pt_new_message_id p) of
          Inl e \<Rightarrow> Inl (MessageIdFailed e)
        | Inr messageID \<Rightarrow>
            (case Send digest \<lparr>sr_sender = caller, sr_recipients = recipients, sr_key = key, sr_message_id = messageID,
                     sr_kind = ''text'', sr_body = body, sr_at = pt_now p\<rparr> s of
               Inl e \<Rightarrow> Inl (Coordination e)
             | Inr (rc, replay, t) \<Rightarrow> Inr ((rc, replay), t))) = Inr (x, t)"
  then obtain rq rc replay where "Send digest rq s = Inr (rc, replay, t)"
    by (auto split: sum.split_asm prod.split_asm)
  then show "(\<exists>act. apply_op digest marshal act s = Inr t) \<or> t = s" for marshal
    by (auto intro: exI [of _ "DoSend rq"])
qed

interpretation sending: snapshot_change "send_change digest p caller key recipients body" for digest p caller key recipients body
  by (rule send_change_contract)

interpretation inbox_reading: snapshot_change "inbox_change caller" for caller
  unfolding inbox_change_def by (rule snapshot_change_initialized) (auto split: sum.split_asm)

interpretation acking: snapshot_change "ack_change p caller messageID" for p caller messageID
  unfolding ack_change_def
proof (rule snapshot_change_initialized)
  fix s x t
  assume "(case Ack caller messageID (recorded_digest messageID (st_inboxes s caller)) (pt_now p) s of
       Inl e \<Rightarrow> Inl (Coordination e) | Inr r \<Rightarrow> Inr r) = Inr (x :: 64 word, t)"
  then have "Ack caller messageID (recorded_digest messageID (st_inboxes s caller)) (pt_now p) s = Inr (x, t)"
    by (auto split: sum.split_asm)
  then show "(\<exists>act. apply_op digest marshal act s = Inr t) \<or> t = s" for digest marshal
    by (auto intro: exI [of _ "DoAck caller messageID (recorded_digest messageID (st_inboxes s caller)) (pt_now p)"])
qed

section \<open>The service over time\<close>

text \<open>
  One invocation of the service by any caller, in any environment: the snapshots before and
  after it. Invocations on one checkout are serialized by the lock; a takeover may preview a
  snapshot (\<open>seen\<close>) that is stale by the time it holds the lock.
\<close>

inductive service_step :: "disk \<Rightarrow> disk \<Rightarrow> bool" where
  "service_Join p env disk arg = (r, disk') \<Longrightarrow> service_step disk disk'"
| "service_Leave p env disk arg = (r, disk') \<Longrightarrow> service_step disk disk'"
| "service_Rebind p env oldRoot disk arg root = (r, disk') \<Longrightarrow> service_step disk disk'"
| "service_RecoverInactiveOwner marshal p p' env roots disk arg request = (r, disk') \<Longrightarrow> service_step disk disk'"
| "service_Take p p' lenv env seen disk arg expected force reason = (r, disk') \<Longrightarrow> service_step disk disk'"
| "service_Transfer p env disk arg successor = (r, disk') \<Longrightarrow> service_step disk disk'"
| "service_Send digest p env disk arg key recipients body = (rs, disk') \<Longrightarrow> service_step disk disk'"
| "service_Inbox p env disk arg = (ri, disk') \<Longrightarrow> service_step disk disk'"
| "service_Ack p env disk arg messageID = (ra, disk') \<Longrightarrow> service_step disk disk'"

lemma service_step_inv:
  assumes "disk_inv disk" "service_step disk disk'"
  shows "disk_inv disk'"
  using assms(2,1)
proof (induction rule: service_step.induct)
  case (1 p env disk arg r disk')
  then show ?case
    using join_change.withLocked_disk_inv by (fastforce simp: service_Join_def split: sum.split_asm)
next
  case (2 p env disk arg r disk')
  then show ?case
    using leave_change.withLocked_disk_inv by (fastforce simp: service_Leave_def split: sum.split_asm)
next
  case (3 p env oldRoot disk arg root r disk')
  then show ?case
    using rebinding.withLocked_disk_inv
    by (fastforce simp: service_Rebind_def store_Rebind_def split: sum.split_asm if_split_asm)
next
  case (4 marshal p p' env roots disk arg request r disk')
  then show ?case
    using recovering.withLocked_disk_inv
    by (fastforce simp: service_RecoverInactiveOwner_def store_RecoverInactiveOwner_def Let_def split: sum.split_asm if_split_asm)
next
  case (5 p p' lenv env seen disk arg expected force reason r disk')
  then show ?case
    using taking.withLocked_disk_inv
    by (fastforce simp: service_Take_def Let_def split: sum.split_asm if_split_asm)
next
  case (6 p env disk arg successor r disk')
  then show ?case
    using transferring.withLocked_disk_inv by (fastforce simp: service_Transfer_def split: sum.split_asm)
next
  case (7 digest p env disk arg key recipients body rs disk')
  then show ?case
    using sending.withLocked_disk_inv by (fastforce simp: service_Send_def split: sum.split_asm)
next
  case (8 p env disk arg ri disk')
  then show ?case
    using inbox_reading.withLocked_disk_inv by (fastforce simp: service_Inbox_def split: sum.split_asm)
next
  case (9 p env disk arg messageID ra disk')
  then show ?case
    using acking.withLocked_disk_inv by (fastforce simp: service_Ack_def split: sum.split_asm)
qed

interpretation service: invariant_system "\<lambda>disk. disk = Map.empty" service_step disk_inv
  by unfold_locales (simp add: disk_inv_def, rule service_step_inv)

text \<open>
  C14: whatever sequence of invocations, failures included, produced the store, every snapshot
  in it is one the code accepts for its checkout and has an owner who has joined. Its ownership
  history is unbroken: its entries are numbered from one, each starts from the owner the one before
  it ends in, the last ends in the present owner, and the epoch is their number. No more requests
  are stored than the limit.
\<close>

theorem stored_snapshots_valid:
  assumes "reachable (\<lambda>disk. disk = Map.empty) service_step disk" "disk i = Some s"
  shows "state_Validate s (st_checkout s) = Inr () \<and> co_id (st_checkout s) = i \<and> st_owner s \<in> dom (st_members s) \<and>
    st_owner_epoch s = of_nat (length (st_owner_changes s)) \<and>
    (\<forall>j < length (st_owner_changes s). oc_epoch (st_owner_changes s ! j) = of_nat (Suc j)) \<and>
    (\<forall>j. Suc j < length (st_owner_changes s) \<longrightarrow> oc_previous (st_owner_changes s ! Suc j) = oc_current (st_owner_changes s ! j)) \<and>
    st_owner_changes s \<noteq> [] \<and> st_owner s = oc_current (last (st_owner_changes s)) \<and>
    length (st_requests s) \<le> MaxStoredMessages"
proof -
  have inv: "collab_inv s" and env: "validateEnvelope s = Inr ()" and i: "co_id (st_checkout s) = i"
    using service.reachable_inv [OF assms(1)] assms(2) by (auto simp: disk_inv_def)
  have own: "own_inv s" "mail_inv s" using inv by (simp_all add: collab_inv_def)
  have "validID (st_owner s)" using env unfolding validateEnvelope_def by (simp split: if_split_asm)
  then have ne: "st_owner s \<noteq> []" by (rule validID_nonempty)
  have "state_Validate s (st_checkout s) = Inr ()" using env by (simp add: state_Validate_def)
  moreover have "st_owner_epoch s = of_nat (length (st_owner_changes s))" "st_owner s = oc_current (last (st_owner_changes s))"
    using own(1) own_inv_owner(1) [OF own(1) ne] unfolding own_inv_def by presburger+
  moreover have "\<forall>j < length (st_owner_changes s). oc_epoch (st_owner_changes s ! j) = of_nat (Suc j)"
    "\<forall>j. Suc j < length (st_owner_changes s) \<longrightarrow> oc_previous (st_owner_changes s ! Suc j) = oc_current (st_owner_changes s ! j)"
    using own(1) unfolding own_inv_def by blast+
  moreover have "length (st_requests s) \<le> MaxStoredMessages" using own(2) by (simp add: mail_inv_def)
  ultimately show ?thesis using i own_inv_owner(1,2) [OF own(1) ne] by blast
qed

text \<open>
  an invocation that reports success has published the state it returns, and one that
  reports a refusal has published nothing: only a write that itself reported an error, a
  directory that moved or a lock that would not release can leave a new snapshot behind an
  error. Stated for sending a message; the contract gives it for every operation.
\<close>

theorem service_Send_atomic:
  "(case service_Send digest p env disk arg key recipients body of
      (Inr (rc, t), disk') \<Rightarrow> (\<exists>co. pt_resolve p arg = Inr co \<and> disk' = disk(co_id co \<mapsto> t))
    | (Inl e, disk') \<Rightarrow> disk' = disk \<or> e \<in> {WriteFailed, DirectoryMoved, UnlockFailed})"
proof (cases "admitted p arg")
  case (Inl e)
  then show ?thesis by (simp add: service_Send_def)
next
  case (Inr cc)
  obtain co caller where cc: "cc = (co, caller)" by (cases cc)
  then have co: "pt_resolve p arg = Inr co" using Inr by (auto simp: admitted_def split: sum.split_asm)
  obtain r disk' where w: "withLocked env disk co [] None (send_change digest p caller key recipients body) = (r, disk')"
    by (cases "withLocked env disk co [] None (send_change digest p caller key recipients body)")
  show ?thesis
    using sending.withLocked_success [of env disk co "[]" None] sending.withLocked_failure [of env disk co "[]" None] w co
    by (cases r) (auto simp: service_Send_def Inr cc)
qed

text \<open>
  C15: a recovery publishes nothing unless, under the lock and after the comparison, the
  invoking session, the checkout and the owner's status were observed again and agreed, and
  the retired root was absent both before and after those observations.
\<close>

theorem service_Recover_revalidates:
  assumes "service_RecoverInactiveOwner marshal p p' env roots disk arg request = (r, disk')" "disk' \<noteq> disk"
  shows "\<exists>co caller status. admitted p arg = Inr (co, caller) \<and> service_caller p' = Inr caller \<and>
    pt_resolve p' arg = Inr co \<and> pt_owner_status p' (rv_expected_owner request) = Inr status \<and>
    (status = ''inactive'' \<or> status = ''unknown'' \<and> TrimSpace (rv_handoff_approval request) \<noteq> []) \<and>
    roots = (PathAbsent, PathAbsent)"
proof -
  obtain co caller where a: "admitted p arg = Inr (co, caller)"
    using assms by (cases "admitted p arg") (auto simp: service_RecoverInactiveOwner_def)
  obtain s0 where s0: "pt_owner_status p (rv_expected_owner request) = Inr s0"
    using assms by (cases "pt_owner_status p (rv_expected_owner request)")
      (auto simp: service_RecoverInactiveOwner_def a Let_def split: if_split_asm)
  define rv where "rv = request\<lparr>rv_actor := caller, rv_at := pt_now p, rv_owner_status := s0\<rparr>"
  have w: "store_RecoverInactiveOwner marshal env roots disk co rv (revalidate_recovery p' arg caller co rv) = (r, disk')"
    using assms by (auto simp: service_RecoverInactiveOwner_def a s0 Let_def rv_def split: if_split_asm)
  define bw where "bw = (case requireAbsentPreviousRoot (fst roots) of Inl e \<Rightarrow> Inl e
     | Inr _ \<Rightarrow> (case revalidate_recovery p' arg caller co rv of Inl e \<Rightarrow> Inl e | Inr _ \<Rightarrow> requireAbsentPreviousRoot (snd roots)))"
  have "withLocked env disk co (rv_expected_root rv) (Some bw) (initialized (\<lambda>s. coordinate (RecoverInactiveOwner marshal co rv s))) = (r, disk')"
    using w assms(2) by (auto simp: store_RecoverInactiveOwner_def bw_def split: sum.split_asm)
  then have "bw = Inr ()" using recovering.withLocked_guarded assms(2) by blast
  then have b: "requireAbsentPreviousRoot (fst roots) = Inr ()" "revalidate_recovery p' arg caller co rv = Inr ()"
    "requireAbsentPreviousRoot (snd roots) = Inr ()" by (auto simp: bw_def split: sum.split_asm)
  have "roots = (PathAbsent, PathAbsent)"
    using b(1,3) by (cases roots) (auto simp: requireAbsentPreviousRoot_def split: lstat_outcome.split_asm)
  moreover from b(2) obtain status where "service_caller p' = Inr caller" "pt_resolve p' arg = Inr co"
    "pt_owner_status p' (rv_expected_owner rv) = Inr status" "allowsOwnerStatus rv status"
    unfolding revalidate_recovery_def by (auto split: sum.split_asm if_split_asm)
  ultimately show ?thesis using a by (auto simp: rv_def allowsOwnerStatus_def split: if_split_asm)
qed

section \<open>Runs of the service\<close>

definition sample_env :: store_env where
  "sample_env = \<lparr>env_home = True, env_child = True, env_matches = (\<lambda>_. True), env_lock = LockHeld, env_read = True,
     env_write = Written, env_unlock = True\<rparr>"

definition sample_load :: load_env where
  "sample_load = \<lparr>ld_home = Opened, ld_directory = Opened, ld_matches = (\<lambda>_. True), ld_read = True\<rparr>"

definition sample_ports :: "checkout \<Rightarrow> string \<Rightarrow> go_time \<Rightarrow> ports" where
  "sample_ports co caller now = \<lparr>pt_resolve = (\<lambda>_. Inr co), pt_caller = Inr caller, pt_live = (\<lambda>_. Inr True),
     pt_owner_status = (\<lambda>_. Inr ''inactive''), pt_observe_legacy = (\<lambda>_. Inr no_legacy),
     pt_observe_inspection = (\<lambda>_. Inr no_legacy), pt_now = now, pt_new_message_id = Inr ''m''\<rparr>"

lemma sample_admitted:
  "admitted (sample_ports co ''a'' now) arg = Inr (co, ''a'')" "admitted (sample_ports co ''b'' now) arg = Inr (co, ''b'')"
  "service_caller (sample_ports co ''b'' now) = Inr ''b''"
  by (simp_all add: admitted_def service_caller_def sample_ports_def NoOwner_def)

lemma sample_owned_valid: "state_Validate sample_owned sample_checkout = Inr ()"
  by (simp add: state_Validate_def validateEnvelope_def sample_owned_def sample_new_def SchemaVersion_def)

lemma sample_take_request:
  "\<lparr>tk_caller = ''a'', tk_expected_owner = ''none'', tk_legacy = no_legacy, tk_owner_status = [], tk_force = False,
     tk_reason = [], tk_at = 1\<rparr> = sample_take"
  by (simp add: sample_take_def no_legacy_def)

lemma sample_service_take:
  "service_Take (sample_ports sample_checkout ''a'' 1) (sample_ports sample_checkout ''a'' 1) sample_load sample_env
     Map.empty Map.empty ''.'' ''none'' False [] = (Inr ((), sample_owned), [''c'' \<mapsto> sample_owned])"
proof -
  have l: "Load sample_load Map.empty sample_checkout = Inr (sample_new, False)"
    by (simp add: Load_def sample_step_new sample_load_def)
  have tk: "sample_take\<lparr>tk_at := 1, tk_legacy := no_legacy\<rparr> = sample_take" "sample_take\<lparr>tk_legacy := no_legacy\<rparr> = sample_take"
    by (simp_all add: sample_take_def no_legacy_def)
  have now: "pt_now (sample_ports sample_checkout ''a'' 1) = 1"
    "pt_observe_inspection (sample_ports sample_checkout ''a'' 1) co = Inr no_legacy"
    "pt_observe_legacy (sample_ports sample_checkout ''a'' 1) co = Inr no_legacy" for co
    by (simp_all add: sample_ports_def)
  have c: "take_change (sample_ports sample_checkout ''a'' 1) sample_checkout sample_take False sample_new = Inr ((), sample_owned)"
    by (simp add: take_change_def now tk sample_step_take coordinate_def)
  have rev: "st_revision sample_owned \<noteq> st_revision sample_new" by (simp add: sample_owned_def sample_new_def)
  have i: "co_id sample_checkout = ''c''" by (simp add: sample_checkout_def)
  have "withLocked sample_env Map.empty sample_checkout [] None (take_change (sample_ports sample_checkout ''a'' 1) sample_checkout sample_take) =
      (Inr ((), sample_owned), [''c'' \<mapsto> sample_owned])"
    by (simp add: withLocked_def sample_step_new sample_env_def locked_section_def apply_change_def c publish_snapshot_def
        rev sample_owned_valid i)
  then show ?thesis
    by (simp add: service_Take_def sample_admitted l now sample_take_request tk sample_step_take)
qed

theorem stored_snapshots_valid_witness:
  "reachable (\<lambda>disk. disk = Map.empty) service_step [''c'' \<mapsto> sample_owned] \<and>
   state_Validate sample_owned (st_checkout sample_owned) = Inr ()"
proof -
  have r: "reachable (\<lambda>disk. disk = Map.empty) service_step [''c'' \<mapsto> sample_owned]"
    by (rule reachable_step [where s = Map.empty], rule reachable_init, rule refl)
       (rule service_step.intros(5) [OF sample_service_take])
  from stored_snapshots_valid [OF r, of "''c''" sample_owned] r show ?thesis by simp
qed

theorem service_Recover_revalidates_witness:
  "\<exists>r disk'. service_RecoverInactiveOwner sample_marshal (sample_ports moved_checkout ''b'' 9) (sample_ports moved_checkout ''b'' 9)
     sample_env (PathAbsent, PathAbsent) [''c'' \<mapsto> sample_state] ''.'' sample_recovery = (r, disk') \<and>
     disk' \<noteq> [''c'' \<mapsto> sample_state] \<and> service_caller (sample_ports moved_checkout ''b'' 9) = Inr ''b''"
proof -
  let ?p = "sample_ports moved_checkout ''b'' 9" and ?d = "[''c'' \<mapsto> sample_state]"
  obtain t where t: "RecoverInactiveOwner sample_marshal moved_checkout sample_recovery sample_state = Inr t"
    using sample_recover by blast
  then obtain reason where pub: "t = recover_publish moved_checkout sample_recovery reason sample_state"
    by (rule Recover_Inr)
  have mv: "owner_moved ''a'' ''b'' sample_state t"
    using recover_publish_moved [of sample_recovery sample_state moved_checkout reason] by (simp add: pub)
  have val: "state_Validate t moved_checkout = Inr ()" and rev: "st_revision t \<noteq> 3"
    using mv by (auto simp: state_Validate_def validateEnvelope_def owner_moved_def SchemaVersion_def pub)
  have co: "co_id moved_checkout = ''c''" "checkout_Validate moved_checkout = Inr ()" "sample_checkout \<noteq> moved_checkout"
    using sample_checkout_valid by (simp_all add: moved_checkout_def sample_checkout_def checkout_Validate_def)
  obtain fresh where new: "New moved_checkout = Inr fresh" by (simp add: New_def co)
  have inval: "state_Validate sample_state moved_checkout = Inl CheckoutMismatch"
    using co(3) by (simp add: state_Validate_def validateEnvelope_def SchemaVersion_def)
  have rv: "sample_recovery\<lparr>rv_actor := ''b'', rv_at := 9, rv_owner_status := ''inactive''\<rparr> = sample_recovery"
    by (simp add: sample_recovery_def)
  have al: "allowsOwnerStatus sample_recovery ''inactive''" by (simp add: allowsOwnerStatus_def)
  have again: "revalidate_recovery ?p ''.'' ''b'' moved_checkout sample_recovery = Inr ()"
    by (simp add: revalidate_recovery_def sample_admitted(3)) (simp add: sample_ports_def al)
  have "service_RecoverInactiveOwner sample_marshal ?p ?p sample_env (PathAbsent, PathAbsent) ?d ''.'' sample_recovery =
      store_RecoverInactiveOwner sample_marshal sample_env (PathAbsent, PathAbsent) ?d moved_checkout sample_recovery (Inr ())"
    by (simp add: service_RecoverInactiveOwner_def sample_admitted again rv al)
       (simp add: sample_ports_def rv al again [unfolded sample_ports_def])
  also have "\<dots> = (Inr ((), t), ?d(''c'' \<mapsto> t))"
    by (simp add: store_RecoverInactiveOwner_def sample_recovery_valid co requireAbsentPreviousRoot_def withLocked_def new
        sample_env_def locked_section_def inval sample_rebind_valid apply_change_def initialized_def coordinate_def t
        publish_snapshot_def rev val)
  finally have run: "service_RecoverInactiveOwner sample_marshal ?p ?p sample_env (PathAbsent, PathAbsent) ?d ''.'' sample_recovery =
    (Inr ((), t), ?d(''c'' \<mapsto> t))" .
  have ne: "?d(''c'' \<mapsto> t) \<noteq> ?d" using rev by (metis fun_upd_same option.inject sample_state_sels(3))
  from service_Recover_revalidates [OF run ne] run ne show ?thesis by (auto simp: sample_admitted)
qed

end
