(* ===== verification/Landing_Lane.thy ===== *)
theory Landing_Lane
  imports Go_Filepath Step_System
begin

text \<open>
  Landing lanes (\<^verbatim>\<open>internal/landinglane\<close>): a durable claim of one session on one
  (repository, target) lane. The lane files of one home are a function from lane identifiers to
  what the file holds; \<open>world\<close> is what the code observes of processes and of the session
  registry, \<open>lane_env\<close> what the file-system calls of one invocation did. SHA-256 is the
  parameter \<open>hash6\<close>, the hexadecimal of the first six bytes of the digest. Times in the notes of
  a record are instants; their rendering is not modelled.
\<close>

section \<open>Data\<close>

definition DefaultStaleAfter :: duration where "DefaultStaleAfter = 30 * minute"
definition DefaultDeadOperationStaleAfter :: duration where "DefaultDeadOperationStaleAfter = 5 * minute"
definition LaneSchemaVersion :: int where "LaneSchemaVersion = 1"

record lane_owner =
  lo_session :: string
  lo_pid :: int
  lo_operation_pid :: int
  lo_runtime :: string
  lo_model :: string
  lo_command :: string
  lo_receipt :: string
  lo_acquired_at :: go_time
  lo_heartbeat_at :: go_time

datatype takeover_note =
    NoNote
  | NotLive
  | NotLiveStaleSince go_time
  | OperationExited int go_time
  | CorruptReplaced

record lane_record =
  lr_schema :: int
  lr_lane :: string
  lr_repository :: string
  lr_target :: string
  lr_owner :: lane_owner
  lr_prior_owner :: "lane_owner option"
  lr_taken_over :: bool
  lr_takeover_reason :: string
  lr_takeover_note :: takeover_note

datatype lane_file = Absent | CorruptFile | Held lane_record

type_synonym lanes = "string \<Rightarrow> lane_file"

datatype lane_error =
    LaneIncomplete | SessionRequired | TakeoverReasonRequired
  | LockOpenFailed | LaneLockFailed | LaneReadFailed | CorruptRecord
  | LegacyInspectFailed | LegacyActive | OperationActive int
  | Conflict lane_record
  | LaneWriteFailed | RemoveFailed | StillActive int

record world =
  wd_process_alive :: "int \<Rightarrow> bool"
  wd_lookup :: "string \<Rightarrow> int \<Rightarrow> string option"
  wd_legacy_active :: "(string, bool) result"

datatype lane_write = LaneWritten | LaneWriteError bool

record lane_env =
  le_open :: bool
  le_lock :: bool
  le_read :: bool
  le_write :: lane_write
  le_remove :: bool

record acquire_request =
  aq_repository :: string
  aq_target :: string
  aq_self :: lane_owner
  aq_session_dir :: string
  aq_owner_live :: "(lane_owner \<Rightarrow> bool) option"
  aq_operation_live :: "(int \<Rightarrow> bool) option"
  aq_legacy_active :: "(string, bool) result option"
  aq_stale_after :: duration
  aq_dead_stale_after :: duration
  aq_now :: go_time
  aq_take_over :: bool
  aq_takeover_reason :: string

section \<open>Lane identifiers and liveness\<close>

definition lane_readable :: "string \<Rightarrow> string" where
  "lane_readable s = map (\<lambda>c. if c \<in> {CHR ''/'', CHR ''.'', CHR ''_'', CHR '' ''} then CHR ''-'' else c) s"

definition LaneID :: "(string \<Rightarrow> string) \<Rightarrow> string \<Rightarrow> string \<Rightarrow> string" where
  "LaneID hash6 repository target =
     ''lane-'' @ take 48 (TrimSet ''-'' (lane_readable (repository @ ''-'' @ target))) @ ''-'' @
     hash6 (repository @ [CHR 0x00] @ target)"

definition defaultOwnerLive :: "world \<Rightarrow> string \<Rightarrow> lane_owner \<Rightarrow> bool" where
  "defaultOwnerLive w sessionDir owner =
     (if lo_operation_pid owner > 0 \<and> wd_process_alive w (lo_operation_pid owner) then True
      else if sessionDir = [] \<or> lo_pid owner \<le> 0 then False
      else (case wd_lookup w sessionDir (lo_pid owner) of
              None \<Rightarrow> False
            | Some recorded \<Rightarrow> if lo_session owner = [] then True else recorded = lo_session owner))"

section \<open>Reading and writing a record\<close>

datatype read_result = ReadError | ReadCorrupt | ReadMissing | ReadRecord lane_record

definition readRecord :: "lane_env \<Rightarrow> lanes \<Rightarrow> string \<Rightarrow> read_result" where
  "readRecord env fs lane =
     (if \<not> le_read env then ReadError
      else (case fs lane of Absent \<Rightarrow> ReadMissing | CorruptFile \<Rightarrow> ReadCorrupt | Held r \<Rightarrow> ReadRecord r))"

definition writeRecord ::
  "lane_env \<Rightarrow> lanes \<Rightarrow> string \<Rightarrow> lane_record \<Rightarrow> (lane_error, lane_record) result \<times> lanes" where
  "writeRecord env fs lane r =
     (case le_write env of
        LaneWritten \<Rightarrow> (Inr r, fs(lane := Held r))
      | LaneWriteError replaced \<Rightarrow> (Inl LaneWriteFailed, if replaced then fs(lane := Held r) else fs))"

section \<open>Acquire\<close>

definition fresh_record :: "string \<Rightarrow> string \<Rightarrow> string \<Rightarrow> lane_owner \<Rightarrow> bool \<Rightarrow> string \<Rightarrow> lane_record" where
  "fresh_record lane repository target self corrupt reason =
     \<lparr>lr_schema = LaneSchemaVersion, lr_lane = lane, lr_repository = repository, lr_target = target, lr_owner = self,
      lr_prior_owner = None, lr_taken_over = corrupt, lr_takeover_reason = (if corrupt then TrimSpace reason else []),
      lr_takeover_note = (if corrupt then CorruptReplaced else NoNote)\<rparr>"

definition refreshed_record :: "lane_record \<Rightarrow> lane_owner \<Rightarrow> go_time \<Rightarrow> lane_record" where
  "refreshed_record existing self moment =
     existing\<lparr>lr_owner := (lr_owner existing)\<lparr>lo_pid := lo_pid self, lo_operation_pid := lo_operation_pid self,
       lo_runtime := lo_runtime self, lo_model := lo_model self, lo_command := lo_command self,
       lo_receipt := lo_receipt self, lo_heartbeat_at := moment\<rparr>\<rparr>"

definition refresh_refusal :: "world \<Rightarrow> acquire_request \<Rightarrow> lane_owner \<Rightarrow> lane_error option" where
  "refresh_refusal w rq owner =
     (case (if lo_operation_pid owner = 0 \<and> lo_operation_pid (aq_self rq) > 0
            then (case (case aq_legacy_active rq of None \<Rightarrow> wd_legacy_active w | Some r \<Rightarrow> r) of
                    Inl _ \<Rightarrow> Some LegacyInspectFailed
                  | Inr active \<Rightarrow> if active then Some LegacyActive else None)
            else None) of
        Some e \<Rightarrow> Some e
      | None \<Rightarrow>
          if lo_operation_pid owner > 0 \<and> lo_operation_pid owner \<noteq> lo_operation_pid (aq_self rq) \<and>
             wd_process_alive w (lo_operation_pid owner) then Some (OperationActive (lo_operation_pid owner))
          else None)"

definition stale_after :: "acquire_request \<Rightarrow> duration" where
  "stale_after rq = (if aq_stale_after rq \<le> 0 then DefaultStaleAfter else aq_stale_after rq)"

definition dead_stale_after :: "acquire_request \<Rightarrow> duration" where
  "dead_stale_after rq =
     (if aq_dead_stale_after rq > 0 then aq_dead_stale_after rq
      else if stale_after rq < DefaultDeadOperationStaleAfter then stale_after rq
      else DefaultDeadOperationStaleAfter)"

definition owner_live :: "world \<Rightarrow> acquire_request \<Rightarrow> lane_owner \<Rightarrow> bool" where
  "owner_live w rq owner =
     (case aq_owner_live rq of None \<Rightarrow> defaultOwnerLive w (aq_session_dir rq) owner | Some f \<Rightarrow> f owner)"

definition operation_live :: "world \<Rightarrow> acquire_request \<Rightarrow> int \<Rightarrow> bool" where
  "operation_live w rq pid = (case aq_operation_live rq of None \<Rightarrow> wd_process_alive w pid | Some f \<Rightarrow> f pid)"

definition dead_operation_stale :: "world \<Rightarrow> acquire_request \<Rightarrow> lane_owner \<Rightarrow> bool" where
  "dead_operation_stale w rq owner \<longleftrightarrow>
     lo_operation_pid owner > 0 \<and> \<not> operation_live w rq (lo_operation_pid owner) \<and>
     time_sub (aq_now rq) (lo_heartbeat_at owner) > dead_stale_after rq"

definition takeover_record :: "world \<Rightarrow> string \<Rightarrow> string \<Rightarrow> string \<Rightarrow> acquire_request \<Rightarrow> lane_owner \<Rightarrow> lane_owner \<Rightarrow> lane_record" where
  "takeover_record w lane repository target rq self prior =
     \<lparr>lr_schema = LaneSchemaVersion, lr_lane = lane, lr_repository = repository, lr_target = target, lr_owner = self,
      lr_prior_owner = Some prior, lr_taken_over = True,
      lr_takeover_reason = (if aq_take_over rq then TrimSpace (aq_takeover_reason rq) else []),
      lr_takeover_note =
        (if aq_take_over rq then NoNote
         else if dead_operation_stale w rq prior \<and> owner_live w rq prior
           then OperationExited (lo_operation_pid prior) (lo_heartbeat_at prior)
         else if time_sub (aq_now rq) (lo_heartbeat_at prior) > stale_after rq
           then NotLiveStaleSince (lo_heartbeat_at prior)
         else NotLive)\<rparr>"

definition acquire_existing ::
  "world \<Rightarrow> lane_env \<Rightarrow> lanes \<Rightarrow> string \<Rightarrow> string \<Rightarrow> string \<Rightarrow> acquire_request \<Rightarrow> lane_owner \<Rightarrow> lane_record \<Rightarrow>
     (lane_error, lane_record) result \<times> lanes" where
  "acquire_existing w env fs lane repository target rq self existing =
     (let owner = lr_owner existing in
      if lo_session owner = lo_session (aq_self rq) then
        (case refresh_refusal w rq owner of
           Some e \<Rightarrow> (Inl e, fs)
         | None \<Rightarrow> writeRecord env fs lane (refreshed_record existing self (aq_now rq)))
      else if \<not> aq_take_over rq \<and> owner_live w rq owner \<and> \<not> dead_operation_stale w rq owner
        then (Inl (Conflict existing), fs)
      else writeRecord env fs lane (takeover_record w lane repository target rq self owner))"

definition Acquire ::
  "(string \<Rightarrow> string) \<Rightarrow> world \<Rightarrow> lane_env \<Rightarrow> acquire_request \<Rightarrow> lanes \<Rightarrow> (lane_error, lane_record) result \<times> lanes" where
  "Acquire hash6 w env rq fs =
     (let repository = TrimSpace (aq_repository rq); target = TrimSpace (aq_target rq) in
      if repository = [] \<or> target = [] then (Inl LaneIncomplete, fs)
      else if TrimSpace (lo_session (aq_self rq)) = [] then (Inl SessionRequired, fs)
      else if aq_take_over rq \<and> TrimSpace (aq_takeover_reason rq) = [] then (Inl TakeoverReasonRequired, fs)
      else let lane = LaneID hash6 repository target in
        if \<not> le_open env then (Inl LockOpenFailed, fs)
        else if \<not> le_lock env then (Inl LaneLockFailed, fs)
        else let self = (aq_self rq)\<lparr>lo_acquired_at := aq_now rq, lo_heartbeat_at := aq_now rq\<rparr> in
          (case readRecord env fs lane of
             ReadError \<Rightarrow> (Inl LaneReadFailed, fs)
           | ReadCorrupt \<Rightarrow>
               if \<not> aq_take_over rq then (Inl CorruptRecord, fs)
               else writeRecord env fs lane (fresh_record lane repository target self True (aq_takeover_reason rq))
           | ReadMissing \<Rightarrow>
               writeRecord env fs lane (fresh_record lane repository target self False (aq_takeover_reason rq))
           | ReadRecord existing \<Rightarrow> acquire_existing w env fs lane repository target rq self existing))"

section \<open>Heartbeat, release and reading\<close>

definition requested_lane :: "(string \<Rightarrow> string) \<Rightarrow> string \<Rightarrow> string \<Rightarrow> string" where
  "requested_lane hash6 repository target = LaneID hash6 (TrimSpace repository) (TrimSpace target)"

definition Heartbeat ::
  "(string \<Rightarrow> string) \<Rightarrow> lane_env \<Rightarrow> string \<Rightarrow> string \<Rightarrow> string \<Rightarrow> go_time \<Rightarrow> lanes \<Rightarrow> (lane_error, unit) result \<times> lanes" where
  "Heartbeat hash6 env repository target wbSessionID now fs =
     (let lane = requested_lane hash6 repository target in
      if \<not> le_open env then (Inl LockOpenFailed, fs)
      else if \<not> le_lock env then (Inl LaneLockFailed, fs)
      else (case readRecord env fs lane of
         ReadError \<Rightarrow> (Inl LaneReadFailed, fs)
       | ReadCorrupt \<Rightarrow> (Inl CorruptRecord, fs)
       | ReadMissing \<Rightarrow> (Inr (), fs)
       | ReadRecord r \<Rightarrow>
           if lo_session (lr_owner r) \<noteq> wbSessionID then (Inr (), fs)
           else (case writeRecord env fs lane (r\<lparr>lr_owner := (lr_owner r)\<lparr>lo_heartbeat_at := now\<rparr>\<rparr>) of
                   (Inl e, fs') \<Rightarrow> (Inl e, fs') | (Inr _, fs') \<Rightarrow> (Inr (), fs'))))"

text \<open>\<^verbatim>\<open>os.Remove\<close> of a record that was read under the lock; an already missing file is no error.\<close>

definition removeRecord :: "lane_env \<Rightarrow> lanes \<Rightarrow> string \<Rightarrow> (lane_error, unit) result \<times> lanes" where
  "removeRecord env fs lane = (if le_remove env then (Inr (), fs(lane := Absent)) else (Inl RemoveFailed, fs))"

definition Release ::
  "(string \<Rightarrow> string) \<Rightarrow> lane_env \<Rightarrow> string \<Rightarrow> string \<Rightarrow> string \<Rightarrow> lanes \<Rightarrow> (lane_error, unit) result \<times> lanes" where
  "Release hash6 env repository target wbSessionID fs =
     (let lane = requested_lane hash6 repository target in
      if \<not> le_open env then (Inl LockOpenFailed, fs)
      else if \<not> le_lock env then (Inl LaneLockFailed, fs)
      else (case readRecord env fs lane of
         ReadError \<Rightarrow> (Inl LaneReadFailed, fs)
       | ReadCorrupt \<Rightarrow> (Inl CorruptRecord, fs)
       | ReadMissing \<Rightarrow> (Inr (), fs)
       | ReadRecord r \<Rightarrow>
           if lo_session (lr_owner r) \<noteq> wbSessionID then (Inr (), fs) else removeRecord env fs lane))"

definition read_lane :: "(string \<Rightarrow> string) \<Rightarrow> lane_env \<Rightarrow> string \<Rightarrow> string \<Rightarrow> lanes \<Rightarrow> (lane_error, lane_record option) result" where
  "read_lane hash6 env repository target fs =
     (if \<not> le_open env then Inl LockOpenFailed
      else if \<not> le_lock env then Inl LaneLockFailed
      else (case readRecord env fs (requested_lane hash6 repository target) of
         ReadError \<Rightarrow> Inl LaneReadFailed
       | ReadCorrupt \<Rightarrow> Inl CorruptRecord
       | ReadMissing \<Rightarrow> Inr None
       | ReadRecord r \<Rightarrow> Inr (Some r)))"

definition releaseIdle ::
  "(string \<Rightarrow> string) \<Rightarrow> world \<Rightarrow> lane_env \<Rightarrow> string \<Rightarrow> string \<Rightarrow> string \<Rightarrow> lanes \<Rightarrow> (lane_error, bool) result \<times> lanes" where
  "releaseIdle hash6 w env repository target wbSessionID fs =
     (if TrimSpace wbSessionID = [] then (Inl SessionRequired, fs)
      else let lane = requested_lane hash6 repository target in
      if \<not> le_open env then (Inl LockOpenFailed, fs)
      else if \<not> le_lock env then (Inl LaneLockFailed, fs)
      else (case readRecord env fs lane of
         ReadError \<Rightarrow> (Inl LaneReadFailed, fs)
       | ReadCorrupt \<Rightarrow> (Inl CorruptRecord, fs)
       | ReadMissing \<Rightarrow> (Inr False, fs)
       | ReadRecord r \<Rightarrow>
           let pid = lo_operation_pid (lr_owner r) in
           if lo_session (lr_owner r) \<noteq> wbSessionID then (Inl (Conflict r), fs)
           else (case (if pid \<le> 0 then wd_legacy_active w else Inr False) of
              Inl _ \<Rightarrow> (Inl LegacyInspectFailed, fs)
            | Inr active \<Rightarrow>
                if active then (Inl LegacyActive, fs)
                else if pid > 0 \<and> wd_process_alive w pid then (Inl (StillActive pid), fs)
                else (case removeRecord env fs lane of (Inl e, fs') \<Rightarrow> (Inl e, fs') | (Inr _, fs') \<Rightarrow> (Inr True, fs')))))"

section \<open>Other WB processes\<close>

definition wb_process_name :: "string \<Rightarrow> bool" where
  "wb_process_name name \<longleftrightarrow>
     name = ''wb'' \<or> name = ''wb.exe'' \<or> HasPrefix name ''wb-'' \<or>
     (length name > 2 \<and> HasPrefix name ''wb'' \<and> is_digit (name ! 2))"

datatype process_error = IncompleteIdentity | InvalidIdentity

fun scan_processes :: "string list \<Rightarrow> int \<Rightarrow> (process_error, bool) result" where
  "scan_processes [] self = Inr False"
| "scan_processes (line # lines) self =
     (case Fields line of
        [] \<Rightarrow> scan_processes lines self
      | [_] \<Rightarrow> Inl IncompleteIdentity
      | w # ws \<Rightarrow>
          (case Atoi w of
             None \<Rightarrow> Inl InvalidIdentity
           | Some pid \<Rightarrow>
               if pid \<noteq> self \<and> wb_process_name (Base (Join ws '' '')) then Inr True
               else scan_processes lines self))"

definition otherWBProcess :: "string \<Rightarrow> int \<Rightarrow> (process_error, bool) result" where
  "otherWBProcess output self = scan_processes (Split output (CHR 0x0A)) self"

end
