(* ===== verification/Landing_Lane_Props.thy ===== *)
theory Landing_Lane_Props
  imports Landing_Lane
begin

text \<open>
  The properties of landing lanes: every record on disk is explained, a live owner is not
  disturbed by others who ask for no takeover, unless its landing command is found long dead, a corrupt
  record fails closed, a refresh keeps the acquisition time, and what the idle release and the process scan guarantee.
\<close>

section \<open>Operations as steps\<close>

datatype lane_op =
    OpAcquire world lane_env acquire_request
  | OpHeartbeat lane_env string string string go_time
  | OpRelease lane_env string string string
  | OpReleaseIdle world lane_env string string string

fun run_lane :: "(string \<Rightarrow> string) \<Rightarrow> lane_op \<Rightarrow> lanes \<Rightarrow> lanes" where
  "run_lane hash6 (OpAcquire w env rq) fs = snd (Acquire hash6 w env rq fs)"
| "run_lane hash6 (OpHeartbeat env repository target s now) fs = snd (Heartbeat hash6 env repository target s now fs)"
| "run_lane hash6 (OpRelease env repository target s) fs = snd (Release hash6 env repository target s fs)"
| "run_lane hash6 (OpReleaseIdle w env repository target s) fs = snd (releaseIdle hash6 w env repository target s fs)"

definition lane_step :: "(string \<Rightarrow> string) \<Rightarrow> lanes \<Rightarrow> lanes \<Rightarrow> bool" where
  "lane_step hash6 fs fs' \<longleftrightarrow> (\<exists>a. fs' = run_lane hash6 a fs)"

definition no_lanes :: "lanes \<Rightarrow> bool" where
  "no_lanes fs \<longleftrightarrow> (\<forall>lane. fs lane = Absent)"

lemma writeRecord_file:
  assumes "writeRecord env fs lane r = (res, fs')"
  shows "fs' = fs \<and> isl res \<or> fs' = fs(lane := Held r) \<and> (res = Inr r \<or> res = Inl LaneWriteFailed)"
  using assms by (auto simp: writeRecord_def split: lane_write.splits)

lemma removeRecord_file:
  assumes "removeRecord env fs lane = (res, fs')"
  shows "fs' = fs \<and> isl res \<or> fs' = fs(lane := Absent) \<and> res = Inr ()"
  using assms by (auto simp: removeRecord_def split: if_splits)

lemma readRecord_iff:
  "readRecord env fs lane = ReadRecord r \<longleftrightarrow> le_read env \<and> fs lane = Held r"
  "readRecord env fs lane = ReadMissing \<longleftrightarrow> le_read env \<and> fs lane = Absent"
  "readRecord env fs lane = ReadCorrupt \<longleftrightarrow> le_read env \<and> fs lane = CorruptFile"
  by (auto simp: readRecord_def split: lane_file.splits)

text \<open>What an acquisition can leave on disk.\<close>

lemma Acquire_file:
  fixes rq :: acquire_request and hash6 :: "string \<Rightarrow> string"
  defines "repository \<equiv> TrimSpace (aq_repository rq)" and "target \<equiv> TrimSpace (aq_target rq)"
  defines "self \<equiv> (aq_self rq)\<lparr>lo_acquired_at := aq_now rq, lo_heartbeat_at := aq_now rq\<rparr>"
  defines "lane \<equiv> LaneID hash6 repository target"
  assumes "Acquire hash6 w env rq fs = (res, fs')" "fs' \<noteq> fs"
  obtains (fresh) "fs lane = Absent" "fs' = fs(lane := Held (fresh_record lane repository target self False (aq_takeover_reason rq)))"
  | (replaced) "fs lane = CorruptFile" "aq_take_over rq" "TrimSpace (aq_takeover_reason rq) \<noteq> []"
      "fs' = fs(lane := Held (fresh_record lane repository target self True (aq_takeover_reason rq)))"
  | (refreshed) r where "fs lane = Held r" "lo_session (lr_owner r) = lo_session (aq_self rq)"
      "fs' = fs(lane := Held (refreshed_record r self (aq_now rq)))"
  | (taken) r where "fs lane = Held r" "lo_session (lr_owner r) \<noteq> lo_session (aq_self rq)"
      "aq_take_over rq \<longrightarrow> TrimSpace (aq_takeover_reason rq) \<noteq> []"
      "aq_take_over rq \<or> \<not> owner_live w rq (lr_owner r) \<or> dead_operation_stale w rq (lr_owner r)"
      "fs' = fs(lane := Held (takeover_record w lane repository target rq self (lr_owner r)))"
proof -
  have ok: "repository \<noteq> []" "target \<noteq> []" "TrimSpace (lo_session (aq_self rq)) \<noteq> []"
    "aq_take_over rq \<longrightarrow> TrimSpace (aq_takeover_reason rq) \<noteq> []" "le_open env" "le_lock env"
    using assms(5,6) unfolding Acquire_def Let_def repository_def target_def by (auto split: if_split_asm)
  have run: "Acquire hash6 w env rq fs = (case readRecord env fs lane of
             ReadError \<Rightarrow> (Inl LaneReadFailed, fs)
           | ReadCorrupt \<Rightarrow>
               if \<not> aq_take_over rq then (Inl CorruptRecord, fs)
               else writeRecord env fs lane (fresh_record lane repository target self True (aq_takeover_reason rq))
           | ReadMissing \<Rightarrow>
               writeRecord env fs lane (fresh_record lane repository target self False (aq_takeover_reason rq))
           | ReadRecord existing \<Rightarrow> acquire_existing w env fs lane repository target rq self existing)"
    using ok unfolding Acquire_def Let_def repository_def target_def lane_def self_def by simp
  show thesis
  proof (cases "readRecord env fs lane")
    case ReadError
    with run assms(5,6) show thesis by simp
  next
    case ReadCorrupt
    then have f: "fs lane = CorruptFile" by (simp add: readRecord_iff)
    have t: "aq_take_over rq" and w: "writeRecord env fs lane (fresh_record lane repository target self True (aq_takeover_reason rq)) = (res, fs')"
      using run assms(5,6) ReadCorrupt by (simp_all split: if_split_asm)
    from writeRecord_file [OF w] assms(6) have "fs' = fs(lane := Held (fresh_record lane repository target self True (aq_takeover_reason rq)))"
      by blast
    with f t ok(4) replaced show thesis by blast
  next
    case ReadMissing
    then have f: "fs lane = Absent" by (simp add: readRecord_iff)
    have w: "writeRecord env fs lane (fresh_record lane repository target self False (aq_takeover_reason rq)) = (res, fs')"
      using run assms(5) ReadMissing by simp
    from writeRecord_file [OF w] assms(6) f fresh show thesis by blast
  next
    case (ReadRecord r)
    then have f: "fs lane = Held r" by (simp add: readRecord_iff)
    have a: "acquire_existing w env fs lane repository target rq self r = (res, fs')" using run assms(5) ReadRecord by simp
    show thesis
    proof (cases "lo_session (lr_owner r) = lo_session (aq_self rq)")
      case True
      then have "writeRecord env fs lane (refreshed_record r self (aq_now rq)) = (res, fs')"
        using a assms(6) by (simp add: acquire_existing_def Let_def split: option.split_asm)
      from writeRecord_file [OF this] assms(6) refreshed [OF f True] show thesis by blast
    next
      case False
      then have w: "writeRecord env fs lane (takeover_record w lane repository target rq self (lr_owner r)) = (res, fs')"
        "aq_take_over rq \<or> \<not> owner_live w rq (lr_owner r) \<or> dead_operation_stale w rq (lr_owner r)"
        using a assms(6) by (simp_all add: acquire_existing_def Let_def split: if_split_asm)
      from writeRecord_file [OF w(1)] assms(6) taken [OF f False ok(4) w(2)] show thesis by blast
    qed
  qed
qed

lemma Heartbeat_file:
  assumes "Heartbeat hash6 env repository target s now fs = (res, fs')"
  obtains (same) "fs' = fs"
  | (beat) r where "fs (requested_lane hash6 repository target) = Held r" "lo_session (lr_owner r) = s"
      "fs' = fs(requested_lane hash6 repository target := Held (r\<lparr>lr_owner := (lr_owner r)\<lparr>lo_heartbeat_at := now\<rparr>\<rparr>))"
proof (cases "\<exists>r. le_open env \<and> le_lock env \<and> readRecord env fs (requested_lane hash6 repository target) = ReadRecord r \<and>
    lo_session (lr_owner r) = s")
  case True
  then obtain r where r: "le_open env" "le_lock env" "readRecord env fs (requested_lane hash6 repository target) = ReadRecord r"
    "lo_session (lr_owner r) = s" by blast
  obtain res0 fs0 where w: "writeRecord env fs (requested_lane hash6 repository target)
      (r\<lparr>lr_owner := (lr_owner r)\<lparr>lo_heartbeat_at := now\<rparr>\<rparr>) = (res0, fs0)" by fastforce
  have "fs' = fs0" using assms w r by (auto simp: Heartbeat_def Let_def split: sum.split_asm)
  with writeRecord_file [OF w] r same beat show thesis by (auto simp: readRecord_iff)
next
  case False
  with assms same show thesis by (auto simp: Heartbeat_def Let_def split: if_split_asm read_result.split_asm)
qed

lemma Release_file:
  assumes "Release hash6 env repository target s fs = (res, fs')"
  obtains (same) "fs' = fs"
  | (freed) r where "fs (requested_lane hash6 repository target) = Held r" "lo_session (lr_owner r) = s"
      "fs' = fs(requested_lane hash6 repository target := Absent)"
proof (cases "\<exists>r. readRecord env fs (requested_lane hash6 repository target) = ReadRecord r")
  case True
  then obtain r where ReadRecord: "readRecord env fs (requested_lane hash6 repository target) = ReadRecord r" by blast
  then have f: "fs (requested_lane hash6 repository target) = Held r" by (simp add: readRecord_iff)
  show thesis
  proof (cases "lo_session (lr_owner r) = s \<and> le_open env \<and> le_lock env")
    case True
    then have "removeRecord env fs (requested_lane hash6 repository target) = (res, fs')"
      using assms ReadRecord by (simp add: Release_def Let_def)
    from removeRecord_file [OF this] True f same freed show thesis by blast
  next
    case False
    with assms ReadRecord same show thesis by (simp add: Release_def Let_def split: if_split_asm)
  qed
next
  case False
  then have "fs' = fs"
    using assms by (cases "readRecord env fs (requested_lane hash6 repository target)")
      (simp_all add: Release_def Let_def split: if_split_asm)
  with same show thesis by blast
qed

lemma releaseIdle_file:
  assumes "releaseIdle hash6 w env repository target s fs = (res, fs')"
  obtains (same) "fs' = fs" "res \<noteq> Inr True"
  | (freed) r where "fs (requested_lane hash6 repository target) = Held r" "lo_session (lr_owner r) = s"
      "lo_operation_pid (lr_owner r) > 0 \<longrightarrow> \<not> wd_process_alive w (lo_operation_pid (lr_owner r))"
      "lo_operation_pid (lr_owner r) \<le> 0 \<longrightarrow> wd_legacy_active w = Inr False"
      "fs' = fs(requested_lane hash6 repository target := Absent)" "res = Inr True"
proof (cases "\<exists>r. readRecord env fs (requested_lane hash6 repository target) = ReadRecord r")
  case True
  then obtain r where ReadRecord: "readRecord env fs (requested_lane hash6 repository target) = ReadRecord r" by blast
  then have f: "fs (requested_lane hash6 repository target) = Held r" by (simp add: readRecord_iff)
  let ?pid = "lo_operation_pid (lr_owner r)"
  let ?guard = "TrimSpace s \<noteq> [] \<and> le_open env \<and> le_lock env \<and> lo_session (lr_owner r) = s \<and>
    (?pid > 0 \<longrightarrow> \<not> wd_process_alive w ?pid) \<and> (?pid \<le> 0 \<longrightarrow> wd_legacy_active w = Inr False)"
  show thesis
  proof (cases "?guard \<and> le_remove env")
    case True
    then have "(res, fs') = (Inr True, fs(requested_lane hash6 repository target := Absent))"
      using assms ReadRecord by (simp add: releaseIdle_def Let_def removeRecord_def split: if_split_asm)
    with True f freed show thesis by blast
  next
    case False
    have "fs' = fs \<and> res \<noteq> Inr True"
      using assms ReadRecord False unfolding releaseIdle_def Let_def removeRecord_def
      by (cases "wd_legacy_active w"; simp split: if_split_asm; blast)
    with same show thesis by blast
  qed
next
  case False
  then have "fs' = fs \<and> res \<noteq> Inr True"
    using assms by (cases "readRecord env fs (requested_lane hash6 repository target)")
      (auto simp: releaseIdle_def Let_def split: if_split_asm)
  with same show thesis by blast
qed

section \<open>Every record is explained\<close>

definition record_inv :: "(string \<Rightarrow> string) \<Rightarrow> string \<Rightarrow> lane_record \<Rightarrow> bool" where
  "record_inv hash6 lane r \<longleftrightarrow>
     lr_schema r = LaneSchemaVersion \<and> lr_lane r = lane \<and> lane = LaneID hash6 (lr_repository r) (lr_target r) \<and>
     TrimSpace (lo_session (lr_owner r)) \<noteq> [] \<and>
     (case lr_prior_owner r of None \<Rightarrow> True
      | Some prior \<Rightarrow> lr_taken_over r \<and> lo_session prior \<noteq> lo_session (lr_owner r)) \<and>
     (lr_taken_over r \<longrightarrow> lr_takeover_reason r \<noteq> [] \<or> lr_takeover_note r \<noteq> NoNote)"

definition lanes_inv :: "(string \<Rightarrow> string) \<Rightarrow> lanes \<Rightarrow> bool" where
  "lanes_inv hash6 fs \<longleftrightarrow> (\<forall>lane r. fs lane = Held r \<longrightarrow> record_inv hash6 lane r)"

lemma lanes_inv_upd: "lanes_inv hash6 fs \<Longrightarrow> record_inv hash6 lane r \<Longrightarrow> lanes_inv hash6 (fs(lane := Held r))"
  by (simp add: lanes_inv_def)

lemma lanes_inv_free: "lanes_inv hash6 fs \<Longrightarrow> lanes_inv hash6 (fs(lane := Absent))"
  by (simp add: lanes_inv_def)

lemma Acquire_session:
  assumes "Acquire hash6 w env rq fs = (res, fs')" "fs' \<noteq> fs"
  shows "TrimSpace (lo_session (aq_self rq)) \<noteq> []"
  using assms unfolding Acquire_def Let_def by (auto split: if_split_asm)

lemma run_lane_inv:
  assumes inv: "lanes_inv hash6 fs"
  shows "lanes_inv hash6 (run_lane hash6 a fs)"
proof (cases a)
  case (OpAcquire w env rq)
  obtain res fs' where r: "Acquire hash6 w env rq fs = (res, fs')" by fastforce
  have "lanes_inv hash6 fs'"
  proof (cases "fs' = fs")
    case False
    note s = Acquire_session [OF r False]
    from r False show ?thesis
    proof (cases rule: Acquire_file)
      case fresh
      with s inv show ?thesis by (simp add: lanes_inv_upd record_inv_def fresh_record_def)
    next
      case replaced
      with s inv show ?thesis by (simp add: lanes_inv_upd record_inv_def fresh_record_def)
    next
      case (refreshed r')
      with inv have "record_inv hash6 (LaneID hash6 (TrimSpace (aq_repository rq)) (TrimSpace (aq_target rq))) r'"
        by (simp add: lanes_inv_def)
      with refreshed inv show ?thesis
        by (auto intro!: lanes_inv_upd simp: record_inv_def refreshed_record_def split: option.splits)
    next
      case (taken r')
      with s inv show ?thesis by (auto intro!: lanes_inv_upd simp: record_inv_def takeover_record_def)
    qed
  qed (use inv in simp)
  with r OpAcquire show ?thesis by simp
next
  case (OpHeartbeat env repository target s now)
  obtain res fs' where r: "Heartbeat hash6 env repository target s now fs = (res, fs')" by fastforce
  then have "lanes_inv hash6 fs'"
  proof (cases rule: Heartbeat_file)
    case (beat r')
    with inv have "record_inv hash6 (requested_lane hash6 repository target) r'" by (simp add: lanes_inv_def)
    with beat inv show ?thesis by (auto intro!: lanes_inv_upd simp: record_inv_def split: option.splits)
  qed (use inv in simp)
  with r OpHeartbeat show ?thesis by simp
next
  case (OpRelease env repository target s)
  obtain res fs' where r: "Release hash6 env repository target s fs = (res, fs')" by fastforce
  then have "lanes_inv hash6 fs'" by (cases rule: Release_file) (use inv lanes_inv_free in simp_all)
  with r OpRelease show ?thesis by simp
next
  case (OpReleaseIdle w env repository target s)
  obtain res fs' where r: "releaseIdle hash6 w env repository target s fs = (res, fs')" by fastforce
  then have "lanes_inv hash6 fs'" by (cases rule: releaseIdle_file) (use inv lanes_inv_free in simp_all)
  with r OpReleaseIdle show ?thesis by simp
qed

interpretation lane_system: invariant_system no_lanes "lane_step hash6" "lanes_inv hash6" for hash6
  by unfold_locales (auto simp: no_lanes_def lanes_inv_def lane_step_def intro: run_lane_inv [unfolded lanes_inv_def, rule_format])

text \<open>
  every lane record that any sequence of acquisitions, heartbeats and releases leaves on
  disk names its lane, repository, target and a real session; and when it was taken over, it
  says why: the operator's reason or an automatic note, and the owner it was taken from, who is
  another session.
\<close>

theorem lane_records_explained:
  assumes "reachable no_lanes (lane_step hash6) fs" "fs lane = Held r"
  shows "lane = LaneID hash6 (lr_repository r) (lr_target r) \<and> lr_lane r = lane \<and>
    TrimSpace (lo_session (lr_owner r)) \<noteq> [] \<and>
    (\<forall>prior. lr_prior_owner r = Some prior \<longrightarrow> lr_taken_over r \<and> lo_session prior \<noteq> lo_session (lr_owner r)) \<and>
    (lr_taken_over r \<longrightarrow> lr_takeover_reason r \<noteq> [] \<or> lr_takeover_note r \<noteq> NoNote)"
  using lane_system.reachable_inv [OF assms(1)] assms(2)
  by (auto simp: lanes_inv_def record_inv_def split: option.splits)

section \<open>A live owner is left alone\<close>

definition requests_lane :: "(string \<Rightarrow> string) \<Rightarrow> acquire_request \<Rightarrow> string" where
  "requests_lane hash6 rq = LaneID hash6 (TrimSpace (aq_repository rq)) (TrimSpace (aq_target rq))"

text \<open>
  An operation of somebody else: another lane, or another session than the holder's, and for an
  acquisition one that does not ask for a takeover while it observes the holder live and its
  operation not long dead.
\<close>

fun by_other :: "(string \<Rightarrow> string) \<Rightarrow> string \<Rightarrow> lane_op \<Rightarrow> lanes \<Rightarrow> bool" where
  "by_other hash6 lane (OpAcquire w env rq) fs \<longleftrightarrow>
     requests_lane hash6 rq \<noteq> lane \<or>
     (case fs lane of
        Held r \<Rightarrow> lo_session (lr_owner r) \<noteq> lo_session (aq_self rq) \<and> \<not> aq_take_over rq \<and>
          owner_live w rq (lr_owner r) \<and> \<not> dead_operation_stale w rq (lr_owner r)
      | _ \<Rightarrow> False)"
| "by_other hash6 lane (OpHeartbeat env repository target s now) fs \<longleftrightarrow>
     requested_lane hash6 repository target \<noteq> lane \<or> (case fs lane of Held r \<Rightarrow> lo_session (lr_owner r) \<noteq> s | _ \<Rightarrow> False)"
| "by_other hash6 lane (OpRelease env repository target s) fs \<longleftrightarrow>
     requested_lane hash6 repository target \<noteq> lane \<or> (case fs lane of Held r \<Rightarrow> lo_session (lr_owner r) \<noteq> s | _ \<Rightarrow> False)"
| "by_other hash6 lane (OpReleaseIdle w env repository target s) fs \<longleftrightarrow>
     requested_lane hash6 repository target \<noteq> lane \<or> (case fs lane of Held r \<Rightarrow> lo_session (lr_owner r) \<noteq> s | _ \<Rightarrow> False)"

lemma by_other_keeps:
  assumes "by_other hash6 lane a fs"
  shows "run_lane hash6 a fs lane = fs lane"
proof (cases a)
  case (OpAcquire w env rq)
  obtain res fs' where r: "Acquire hash6 w env rq fs = (res, fs')" by fastforce
  have "fs' lane = fs lane"
  proof (cases "fs' = fs")
    case False
    from r False show ?thesis
      by (cases rule: Acquire_file) (use assms OpAcquire in \<open>auto simp: requests_lane_def split: lane_file.split_asm\<close>)
  qed simp
  with r OpAcquire show ?thesis by simp
next
  case (OpHeartbeat env repository target s now)
  obtain res fs' where r: "Heartbeat hash6 env repository target s now fs = (res, fs')" by fastforce
  then have "fs' lane = fs lane"
    by (cases rule: Heartbeat_file) (use assms OpHeartbeat in \<open>auto split: lane_file.split_asm\<close>)
  with r OpHeartbeat show ?thesis by simp
next
  case (OpRelease env repository target s)
  obtain res fs' where r: "Release hash6 env repository target s fs = (res, fs')" by fastforce
  then have "fs' lane = fs lane"
    by (cases rule: Release_file) (use assms OpRelease in \<open>auto split: lane_file.split_asm\<close>)
  with r OpRelease show ?thesis by simp
next
  case (OpReleaseIdle w env repository target s)
  obtain res fs' where r: "releaseIdle hash6 w env repository target s fs = (res, fs')" by fastforce
  then have "fs' lane = fs lane"
    by (cases rule: releaseIdle_file) (use assms OpReleaseIdle in \<open>auto split: lane_file.split_asm\<close>)
  with r OpReleaseIdle show ?thesis by simp
qed

interpretation lane_lease: lease "\<lambda>fs. fs lane" "run_lane hash6" "by_other hash6 lane" for lane hash6
  by unfold_locales (rule by_other_keeps)

text \<open>
  C10: one landing owner per lane. However many operations other sessions run, on this lane or on
  others, the record of the owner stays exactly as it is, provided that every acquisition of the lane
  observes the owner live, does not ask for a takeover, and does not find the landing command of the
  owner dead with a heartbeat older than the limit for that (five minutes unless the request says
  otherwise). An owner whose command is that long dead may be taken over without being asked.
\<close>

theorem live_owner_keeps_lane:
  assumes "all_respect (by_other hash6 lane) (run_lane hash6) acts fs"
  shows "run_ops (run_lane hash6) acts fs lane = fs lane"
  by (rule lane_lease.held_through [OF assms])

section \<open>The decision of an acquisition\<close>

text \<open>A request that passes the checks, in an invocation whose file operations succeed.\<close>

definition acquire_ready :: "lane_env \<Rightarrow> acquire_request \<Rightarrow> bool" where
  "acquire_ready env rq \<longleftrightarrow>
     TrimSpace (aq_repository rq) \<noteq> [] \<and> TrimSpace (aq_target rq) \<noteq> [] \<and> TrimSpace (lo_session (aq_self rq)) \<noteq> [] \<and>
     \<not> (aq_take_over rq \<and> TrimSpace (aq_takeover_reason rq) = []) \<and>
     le_open env \<and> le_lock env \<and> le_read env \<and> le_write env = LaneWritten"

definition acquiring_owner :: "acquire_request \<Rightarrow> lane_owner" where
  "acquiring_owner rq = (aq_self rq)\<lparr>lo_acquired_at := aq_now rq, lo_heartbeat_at := aq_now rq\<rparr>"

lemma Acquire_ready_existing:
  assumes "acquire_ready env rq" "fs (requests_lane hash6 rq) = Held r"
  shows "Acquire hash6 w env rq fs =
    acquire_existing w env fs (requests_lane hash6 rq) (TrimSpace (aq_repository rq)) (TrimSpace (aq_target rq)) rq
      (acquiring_owner rq) r"
  using assms unfolding Acquire_def Let_def acquire_ready_def readRecord_def requests_lane_def acquiring_owner_def by auto

lemma writeRecord_ready: "acquire_ready env rq \<Longrightarrow> writeRecord env fs lane r = (Inr r, fs(lane := Held r))"
  by (simp add: writeRecord_def acquire_ready_def)

text \<open>
  a session that asks for a lane another session holds, without asking for a takeover, is
  refused with the conflict named, and nothing is written, exactly when the holder is live and
  its landing command has not been dead for longer than the grace period; otherwise it takes
  the lane over, and the record names the prior owner.
\<close>

theorem Acquire_of_held_lane:
  assumes "acquire_ready env rq" "fs (requests_lane hash6 rq) = Held r"
    "lo_session (lr_owner r) \<noteq> lo_session (aq_self rq)" "\<not> aq_take_over rq"
  shows "if owner_live w rq (lr_owner r) \<and> \<not> dead_operation_stale w rq (lr_owner r)
    then Acquire hash6 w env rq fs = (Inl (Conflict r), fs)
    else \<exists>t. Acquire hash6 w env rq fs = (Inr t, fs(requests_lane hash6 rq := Held t)) \<and>
      lr_owner t = acquiring_owner rq \<and> lr_prior_owner t = Some (lr_owner r) \<and> lr_taken_over t \<and>
      lr_takeover_note t \<noteq> NoNote"
  using assms
  by (simp add: Acquire_ready_existing acquire_existing_def writeRecord_ready Let_def)
     (simp add: takeover_record_def)

text \<open>
  the age of a heartbeat never decides alone. Whatever the heartbeat says, a holder whose
  session is live and whose landing command is running (or is not recorded) is not taken over
  implicitly, and a holder that is not live is taken over at once.
\<close>

theorem heartbeat_age_never_decides:
  assumes "acquire_ready env rq" "fs (requests_lane hash6 rq) = Held r"
    "lo_session (lr_owner r) \<noteq> lo_session (aq_self rq)" "\<not> aq_take_over rq"
  shows "(owner_live w rq (lr_owner r) \<and>
       (lo_operation_pid (lr_owner r) \<le> 0 \<or> operation_live w rq (lo_operation_pid (lr_owner r))) \<longrightarrow>
       Acquire hash6 w env rq fs = (Inl (Conflict r), fs)) \<and>
    (\<not> owner_live w rq (lr_owner r) \<longrightarrow>
       (\<exists>t. fst (Acquire hash6 w env rq fs) = Inr t \<and> lr_owner t = acquiring_owner rq))"
  using assms
  by (auto simp: Acquire_ready_existing acquire_existing_def writeRecord_ready Let_def dead_operation_stale_def
      takeover_record_def)

text \<open>
  the session that holds a lane refreshes it. The record keeps its session, acquisition
  time and takeover history, takes the new command, process and receipt, and its heartbeat is
  the present moment; no other lane changes.
\<close>

theorem Acquire_refresh_keeps_acquisition:
  assumes "acquire_ready env rq" "fs (requests_lane hash6 rq) = Held r"
    "lo_session (lr_owner r) = lo_session (aq_self rq)" "refresh_refusal w rq (lr_owner r) = None"
  shows "\<exists>t. Acquire hash6 w env rq fs = (Inr t, fs(requests_lane hash6 rq := Held t)) \<and>
    lo_session (lr_owner t) = lo_session (lr_owner r) \<and> lo_acquired_at (lr_owner t) = lo_acquired_at (lr_owner r) \<and>
    lo_heartbeat_at (lr_owner t) = aq_now rq \<and> lo_command (lr_owner t) = lo_command (aq_self rq) \<and>
    lo_operation_pid (lr_owner t) = lo_operation_pid (aq_self rq) \<and>
    lr_prior_owner t = lr_prior_owner r \<and> lr_taken_over t = lr_taken_over r"
  using assms
  by (simp add: Acquire_ready_existing acquire_existing_def writeRecord_ready Let_def)
     (simp add: refreshed_record_def acquiring_owner_def)

text \<open>
  a corrupt record fails closed. No acquisition without an explicit takeover and its
  reason, no heartbeat and no release succeeds on it or changes anything.
\<close>

theorem corrupt_lane_fails_closed:
  assumes "fs (requested_lane hash6 repository target) = CorruptFile"
  shows "(aq_repository rq = repository \<and> aq_target rq = target \<and>
       (\<not> aq_take_over rq \<or> TrimSpace (aq_takeover_reason rq) = []) \<longrightarrow>
       (\<exists>e. Acquire hash6 w env rq fs = (Inl e, fs))) \<and>
    (\<exists>e. Heartbeat hash6 env repository target s now fs = (Inl e, fs)) \<and>
    (\<exists>e. Release hash6 env repository target s fs = (Inl e, fs)) \<and>
    (\<exists>e. releaseIdle hash6 w env repository target s fs = (Inl e, fs))"
proof -
  have r: "readRecord env fs (requested_lane hash6 repository target) \<in> {ReadError, ReadCorrupt}"
    using assms by (simp add: readRecord_def)
  then show ?thesis
    by (auto simp: Acquire_def Heartbeat_def Release_def releaseIdle_def Let_def requested_lane_def)
qed

text \<open>
  an idle release frees a lane only for the session that holds it and only after its
  landing command has exited; for a record without a command, only when no other WB process was
  seen.
\<close>

theorem releaseIdle_only_idle:
  assumes "releaseIdle hash6 w env repository target s fs = (Inr True, fs')"
  shows "\<exists>r. fs (requested_lane hash6 repository target) = Held r \<and> lo_session (lr_owner r) = s \<and>
    fs' = fs(requested_lane hash6 repository target := Absent) \<and>
    (if lo_operation_pid (lr_owner r) > 0 then \<not> wd_process_alive w (lo_operation_pid (lr_owner r))
     else wd_legacy_active w = Inr False)"
  using assms by (cases rule: releaseIdle_file) auto

section \<open>The process scan\<close>

definition harmless_line :: "int \<Rightarrow> string \<Rightarrow> bool" where
  "harmless_line self line \<longleftrightarrow>
     (case Fields line of
        [] \<Rightarrow> True
      | w # ws \<Rightarrow> ws \<noteq> [] \<and> (\<exists>pid. Atoi w = Some pid \<and> (pid = self \<or> \<not> wb_process_name (Base (Join ws '' '')))))"

text \<open>
  the scan of the process table reports that no other WB process runs only when every
  line was understood and names the caller itself or something that is not WB; a line it cannot
  read is an error, never taken as harmless.
\<close>

theorem otherWBProcess_conservative:
  "otherWBProcess output self = Inr False \<longleftrightarrow> list_all (harmless_line self) (Split output (CHR 0x0A))"
proof -
  have "scan_processes lines self = Inr False \<longleftrightarrow> list_all (harmless_line self) lines" for lines
  proof (induction lines)
    case (Cons line lines)
    show ?case
    proof (cases "Fields line")
      case (Cons w ws)
      with Cons.IH show ?thesis
        by (cases ws; cases "Atoi w") (auto simp: harmless_line_def)
    qed (use Cons.IH in \<open>simp add: harmless_line_def\<close>)
  qed simp
  then show ?thesis by (simp add: otherWBProcess_def)
qed

section \<open>Runs\<close>

definition sample_hash :: "string \<Rightarrow> string" where "sample_hash s = ''h''"

definition sample_owner :: "string \<Rightarrow> int \<Rightarrow> lane_owner" where
  "sample_owner s pid = \<lparr>lo_session = s, lo_pid = 5, lo_operation_pid = pid, lo_runtime = [], lo_model = [], lo_command = ''land'',
     lo_receipt = [], lo_acquired_at = 0, lo_heartbeat_at = 0\<rparr>"

definition sample_world :: "bool \<Rightarrow> world" where
  "sample_world alive = \<lparr>wd_process_alive = (\<lambda>_. alive), wd_lookup = (\<lambda>_ _. None), wd_legacy_active = Inr False\<rparr>"

definition sample_lane_env :: lane_env where
  "sample_lane_env = \<lparr>le_open = True, le_lock = True, le_read = True, le_write = LaneWritten, le_remove = True\<rparr>"

definition sample_request :: "string \<Rightarrow> acquire_request" where
  "sample_request s = \<lparr>aq_repository = ''r'', aq_target = ''m'', aq_self = sample_owner s 9, aq_session_dir = [],
     aq_owner_live = None, aq_operation_live = None, aq_legacy_active = None, aq_stale_after = 0, aq_dead_stale_after = 0,
     aq_now = 100, aq_take_over = False, aq_takeover_reason = []\<rparr>"

definition sample_lane :: string where
  "sample_lane = LaneID sample_hash (TrimSpace ''r'') (TrimSpace ''m'')"

lemma sample_request_sels:
  "aq_owner_live (sample_request s) = None" "aq_operation_live (sample_request s) = None"
  "aq_legacy_active (sample_request s) = None" "aq_session_dir (sample_request s) = []"
  "wd_process_alive (sample_world b) pid = b" "wd_legacy_active (sample_world b) = Inr False"
  "aq_repository (sample_request s) = ''r''" "aq_target (sample_request s) = ''m''"
  "lo_operation_pid (aq_self (sample_request s)) = 9"
  by (simp_all add: sample_request_def sample_world_def sample_owner_def)

definition held_record :: lane_record where
  "held_record = fresh_record sample_lane ''r'' ''m'' (acquiring_owner (sample_request ''x'')) False []"

definition held_lanes :: lanes where
  "held_lanes = (\<lambda>_. Absent)(sample_lane := Held held_record)"

lemma sample_lane_ready: "acquire_ready sample_lane_env (sample_request ''x'')" "acquire_ready sample_lane_env (sample_request ''y'')"
  by (simp_all add: acquire_ready_def sample_lane_env_def sample_request_def sample_owner_def TrimSpace_printable printable_def)

lemma sample_same_lane: "requests_lane sample_hash (sample_request s) = sample_lane"
  "requested_lane sample_hash ''r'' ''m'' = sample_lane"
  by (simp_all add: requests_lane_def requested_lane_def sample_request_sels sample_lane_def)

lemma sample_acquired:
  "Acquire sample_hash (sample_world True) sample_lane_env (sample_request ''x'') (\<lambda>_. Absent) = (Inr held_record, held_lanes)"
proof -
  have t: "TrimSpace ''r'' = ''r''" "TrimSpace ''m'' = ''m''" "TrimSpace ''x'' = ''x''"
    by (simp_all add: TrimSpace_printable printable_def)
  show ?thesis
    by (simp add: Acquire_def held_lanes_def held_record_def readRecord_def writeRecord_def sample_lane_def
        acquiring_owner_def Let_def sample_lane_env_def sample_request_sels t)
       (simp add: sample_request_def sample_owner_def t)
qed

lemma held_lanes_reachable: "reachable no_lanes (lane_step sample_hash) held_lanes"
  by (rule reachable_step [where s = "\<lambda>_. Absent"], rule reachable_init, simp add: no_lanes_def)
     (auto simp: lane_step_def sample_acquired intro!: exI [of _ "OpAcquire (sample_world True) sample_lane_env (sample_request ''x'')"])

lemma held_sels:
  "held_lanes sample_lane = Held held_record" "lo_session (lr_owner held_record) = ''x''"
  "lo_operation_pid (lr_owner held_record) = 9" "lo_session (aq_self (sample_request s)) = s"
  "\<not> aq_take_over (sample_request s)"
  by (simp_all add: held_lanes_def held_record_def fresh_record_def acquiring_owner_def sample_request_def sample_owner_def)

lemma held_live:
  "owner_live (sample_world True) (sample_request s) (lr_owner held_record)"
  "operation_live (sample_world True) (sample_request s) 9"
  "\<not> dead_operation_stale (sample_world True) (sample_request s) (lr_owner held_record)"
  by (simp_all add: owner_live_def operation_live_def dead_operation_stale_def defaultOwnerLive_def held_sels
      sample_request_sels)

theorem lane_records_explained_witness:
  "reachable no_lanes (lane_step sample_hash) held_lanes \<and> lr_lane held_record = sample_lane"
  using lane_records_explained [OF held_lanes_reachable held_sels(1)] held_lanes_reachable by blast

theorem live_owner_keeps_lane_witness:
  "run_ops (run_lane sample_hash) [OpAcquire (sample_world True) sample_lane_env (sample_request ''y''),
     OpRelease sample_lane_env ''r'' ''m'' ''y''] held_lanes sample_lane = Held held_record"
proof -
  let ?a = "OpAcquire (sample_world True) sample_lane_env (sample_request ''y'')"
  have a: "by_other sample_hash sample_lane ?a held_lanes" by (simp add: held_sels held_live sample_same_lane)
  then have k: "run_lane sample_hash ?a held_lanes sample_lane = Held held_record"
    using by_other_keeps [OF a] by (simp add: held_sels)
  have "by_other sample_hash sample_lane (OpRelease sample_lane_env ''r'' ''m'' ''y'') (run_lane sample_hash ?a held_lanes)"
    using k by (simp add: held_sels del: run_lane.simps)
  with a have "all_respect (by_other sample_hash sample_lane) (run_lane sample_hash)
      [?a, OpRelease sample_lane_env ''r'' ''m'' ''y''] held_lanes" by (simp del: run_lane.simps by_other.simps)
  from live_owner_keeps_lane [OF this] show ?thesis by (simp add: held_sels del: run_lane.simps)
qed

theorem Acquire_of_held_lane_witness:
  "Acquire sample_hash (sample_world True) sample_lane_env (sample_request ''y'') held_lanes = (Inl (Conflict held_record), held_lanes)"
  using Acquire_of_held_lane [OF sample_lane_ready(2), of held_lanes sample_hash held_record "sample_world True"]
  by (simp add: sample_same_lane held_sels held_live)

theorem heartbeat_age_never_decides_witness:
  "Acquire sample_hash (sample_world True) sample_lane_env (sample_request ''y'') held_lanes = (Inl (Conflict held_record), held_lanes) \<and>
   (\<exists>t. fst (Acquire sample_hash (sample_world False) sample_lane_env (sample_request ''y'') held_lanes) = Inr t)"
proof -
  have dead: "\<not> owner_live (sample_world False) (sample_request ''y'') (lr_owner held_record)"
    by (simp add: owner_live_def defaultOwnerLive_def sample_request_sels)
  from heartbeat_age_never_decides [OF sample_lane_ready(2), of held_lanes sample_hash held_record "sample_world True"]
    heartbeat_age_never_decides [OF sample_lane_ready(2), of held_lanes sample_hash held_record "sample_world False"] dead
  show ?thesis by (auto simp: sample_same_lane held_sels held_live)
qed

theorem Acquire_refresh_keeps_acquisition_witness:
  "\<exists>t. Acquire sample_hash (sample_world True) sample_lane_env (sample_request ''x'') held_lanes = (Inr t, held_lanes(sample_lane := Held t)) \<and>
     lo_acquired_at (lr_owner t) = lo_acquired_at (lr_owner held_record)"
proof -
  have "refresh_refusal (sample_world True) (sample_request ''x'') (lr_owner held_record) = None"
    by (simp add: refresh_refusal_def held_sels sample_request_sels)
  with Acquire_refresh_keeps_acquisition [OF sample_lane_ready(1), of held_lanes sample_hash held_record "sample_world True"]
  show ?thesis by (auto simp: held_sels sample_same_lane)
qed

theorem corrupt_lane_fails_closed_witness:
  "\<exists>e. Acquire sample_hash (sample_world True) sample_lane_env (sample_request ''y'') (\<lambda>_. CorruptFile) = (Inl e, \<lambda>_. CorruptFile)"
  using corrupt_lane_fails_closed [of "\<lambda>_. CorruptFile" sample_hash "''r''" "''m''" "sample_request ''y''" "sample_world True" sample_lane_env]
  by (simp add: sample_request_sels held_sels)

theorem releaseIdle_only_idle_witness:
  "\<exists>fs'. releaseIdle sample_hash (sample_world False) sample_lane_env ''r'' ''m'' ''x'' held_lanes = (Inr True, fs') \<and> fs' sample_lane = Absent"
proof -
  have "TrimSpace ''x'' \<noteq> []" by (simp add: TrimSpace_printable printable_def)
  then obtain fs' where r: "releaseIdle sample_hash (sample_world False) sample_lane_env ''r'' ''m'' ''x'' held_lanes = (Inr True, fs')"
    by (simp add: releaseIdle_def sample_same_lane readRecord_def removeRecord_def held_sels sample_lane_env_def Let_def
        sample_request_sels)
  from releaseIdle_only_idle [OF r] r show ?thesis by (auto simp: sample_same_lane)
qed

end
