(* ===== verification/Go_Time.thy ===== *)
theory Go_Time
  imports Go_Strings
begin

text \<open>
  The calendar of Go's \<^verbatim>\<open>time\<close> package as far as the code uses it: the civil date of an
  instant and \<^verbatim>\<open>Format("20060102")\<close>. An instant is the number of nanoseconds since the zero
  time, 1 January of year 1, 00:00 UTC, in the proleptic Gregorian calendar.
\<close>

definition ns_per_day :: int where
  "ns_per_day = 86400 * 1000000000"

definition leap_year :: "int \<Rightarrow> bool" where
  "leap_year y \<longleftrightarrow> y mod 4 = 0 \<and> (y mod 100 \<noteq> 0 \<or> y mod 400 = 0)"

text \<open>The year of a day number and the day in that year, both exact for every integer.\<close>

definition year_day :: "int \<Rightarrow> int \<times> int" where
  "year_day d =
     (let r = d mod 146097; c = min 3 (r div 36524); r2 = r - 36524 * c; q = r2 div 1461;
          r3 = r2 mod 1461; y1 = min 3 (r3 div 365)
      in (400 * (d div 146097) + 100 * c + 4 * q + y1 + 1, r3 - 365 * y1))"

definition month_days :: "int \<Rightarrow> int list" where
  "month_days y = [31, if leap_year y then 29 else 28, 31, 30, 31, 30, 31, 31, 30, 31, 30, 31]"

fun month_day :: "int list \<Rightarrow> int \<Rightarrow> int \<Rightarrow> int \<times> int" where
  "month_day [] m d = (m, d + 1)"
| "month_day (n # ns) m d = (if d < n then (m, d + 1) else month_day ns (m + 1) (d - n))"

definition civil :: "go_time \<Rightarrow> int \<times> int \<times> int" where
  "civil t = (case year_day (t div ns_per_day) of (y, d) \<Rightarrow> (y, month_day (month_days y) 1 d))"

text \<open>\<^verbatim>\<open>appendInt\<close>: a sign when negative, then the digits padded with zeros to the width.\<close>

definition append_int :: "int \<Rightarrow> nat \<Rightarrow> string" where
  "append_int i w =
     (let ds = digits_nat (nat \<bar>i\<bar>)
      in (if i < 0 then ''-'' else []) @ replicate (w - length ds) (CHR ''0'') @ ds)"

definition yyyymmdd :: "go_time \<Rightarrow> string" where
  "yyyymmdd t = (case civil t of (y, m, d) \<Rightarrow> append_int y 4 @ append_int m 2 @ append_int d 2)"

lemma append_int_chars: "c \<in> set (append_int i w) \<Longrightarrow> is_digit c \<or> c = CHR ''-''"
  using digits_nat_ok [of "nat \<bar>i\<bar>"]
  by (auto simp: append_int_def Let_def all_digits_def is_digit_def split: if_splits)

lemma yyyymmdd_chars: "c \<in> set (yyyymmdd t) \<Longrightarrow> is_digit c \<or> c = CHR ''-''"
  by (auto simp: yyyymmdd_def dest: append_int_chars split: prod.splits)

text \<open>Two known dates: the zero time, and 29 February 2024.\<close>

lemma civil_known:
  "civil 0 = (1, 1, 1)"
  "civil (738944 * ns_per_day) = (2024, 2, 29)"
  by (simp_all add: civil_def year_day_def month_days_def leap_year_def ns_per_day_def)

end
