(* ===== verification/Branch_Policy.thy ===== *)
theory Branch_Policy
  imports Go_Path_Match Go_Time
begin

text \<open>
  Branch cleanup policy (\<^verbatim>\<open>internal/worktreebranches/policy.go\<close>): which branches a sweep
  selects, which of them a cleanup plans to delete, and where a retired branch goes. The
  functions are pure; a Go map of counters is a function with default zero. The object-id tests
  are those of \<^verbatim>\<open>internal/worktreeproof/proof.go\<close>.
\<close>

section \<open>Data\<close>

text \<open>Dispositions, scopes and outcomes are strings in the code, and stay strings here.\<close>

definition BranchContained :: string where "BranchContained = ''contained''"
definition BranchAbsorbed :: string where "BranchAbsorbed = ''absorbed''"
definition BranchReceipted :: string where "BranchReceipted = ''receipted''"
definition BranchSuperseded :: string where "BranchSuperseded = ''superseded''"
definition BranchRetired :: string where "BranchRetired = ''retired''"
definition BranchUnique :: string where "BranchUnique = ''unique''"
definition BranchProtected :: string where "BranchProtected = ''protected''"
definition BranchInUse :: string where "BranchInUse = ''in-use''"
definition BranchUnreadable :: string where "BranchUnreadable = ''unreadable''"

lemmas disposition_defs = BranchContained_def BranchAbsorbed_def BranchReceipted_def BranchSuperseded_def
  BranchRetired_def BranchUnique_def BranchProtected_def BranchInUse_def BranchUnreadable_def

definition BranchScopeLocal :: string where "BranchScopeLocal = ''local''"
definition BranchScopeRemote :: string where "BranchScopeRemote = ''remote''"
definition BranchScopeAll :: string where "BranchScopeAll = ''all''"

lemmas scope_defs = BranchScopeLocal_def BranchScopeRemote_def BranchScopeAll_def

record pull_request =
  pr_number :: int
  pr_url :: string
  pr_repository :: string
  pr_state :: string
  pr_base :: string
  pr_base_sha :: string
  pr_head_sha :: string
  pr_merge_sha :: string
  pr_merged :: "go_time option"

record branch_pull_request =
  bpr_number :: int
  bpr_url :: string
  bpr_role :: string
  bpr_state :: string
  bpr_head :: string
  bpr_base :: string
  bpr_head_sha :: string
  bpr_merge_sha :: string
  bpr_merged_at :: "go_time option"

text \<open>The five supersession texts of an entry form a record of their own.\<close>

record supersession_note =
  sn_receipt :: string
  sn_reviewer :: string
  sn_receipt_id :: string
  sn_sha256 :: string
  sn_rejection :: string

record branch_entry =
  be_repository :: string
  be_branch :: string
  be_ref_kind :: string
  be_scope :: string
  be_sha :: string
  be_short_sha :: string
  be_committer_date :: go_time
  be_author :: string
  be_title :: string
  be_base :: string
  be_target_sha :: string
  be_disposition :: string
  be_evidence :: string
  be_reason :: string
  be_task :: string
  be_open_pr :: "pull_request option"
  be_open_base_pr :: "pull_request option"
  be_pull_requests :: "branch_pull_request list"
  be_queried :: bool
  be_query_error :: string
  be_landing_sha :: string
  be_receipt_pr :: "pull_request option"
  be_exact_head :: bool
  be_query_failed :: bool
  be_absorbed_rejection :: string
  be_supersession :: supersession_note
  be_superseded_at_origin :: bool

definition zero_note :: supersession_note where
  "zero_note = \<lparr>sn_receipt = [], sn_reviewer = [], sn_receipt_id = [], sn_sha256 = [], sn_rejection = []\<rparr>"

text \<open>The zero value of the struct; a composite literal of the code sets fields of it.\<close>

definition zero_entry :: branch_entry where
  "zero_entry =
     \<lparr>be_repository = [], be_branch = [], be_ref_kind = [], be_scope = [], be_sha = [], be_short_sha = [],
      be_committer_date = 0, be_author = [], be_title = [], be_base = [], be_target_sha = [],
      be_disposition = [], be_evidence = [], be_reason = [], be_task = [], be_open_pr = None,
      be_open_base_pr = None, be_pull_requests = [], be_queried = False, be_query_error = [],
      be_landing_sha = [], be_receipt_pr = None, be_exact_head = False, be_query_failed = False,
      be_absorbed_rejection = [], be_supersession = zero_note, be_superseded_at_origin = False\<rparr>"

record branch_ref =
  ref_name :: string
  ref_sha :: string
  ref_date :: go_time
  ref_unknown_date :: bool
  ref_author :: string
  ref_title :: string

text \<open>
  Why an entry is skipped: a text of the entry itself, or one of the messages the plan formats
  (the age limit is kept as a duration instead of its rendering).
\<close>

datatype skip_reason =
    NoSkip
  | SkipText string
  | NeverEligible string
  | YoungerThan duration
  | EvidenceUnavailable
  | OpenHead string
  | OpenBase string

record cleanup_result =
  cr_entry :: branch_entry
  cr_eligible :: bool
  cr_skip_reason :: skip_reason
  cr_applied :: bool
  cr_outcome :: string
  cr_error :: string
  cr_recovery_bundle :: string

record policy_options =
  po_base :: string
  po_scope :: string
  po_only :: string
  po_branch :: string
  po_name :: string
  po_older_than :: duration
  po_now :: go_time

section \<open>Selection\<close>

definition RetiredNamespaceSelected :: "policy_options \<Rightarrow> bool" where
  "RetiredNamespaceSelected sweep =
     (if po_only sweep = BranchRetired then True
      else HasPrefix (po_branch sweep) ''retired/'' \<or> HasPrefix (po_name sweep) ''retired/'')"

definition too_young :: "policy_options \<Rightarrow> branch_entry \<Rightarrow> bool" where
  "too_young sweep e \<longleftrightarrow>
     po_older_than sweep > 0 \<and> \<not> is_zero_time (be_committer_date e) \<and>
     time_sub (po_now sweep) (be_committer_date e) < po_older_than sweep"

definition ApplyListDisplayFilters :: "branch_entry list \<Rightarrow> policy_options \<Rightarrow> branch_entry list" where
  "ApplyListDisplayFilters entries sweep =
     filter (\<lambda>e. \<not> (po_only sweep \<noteq> [] \<and> be_disposition e \<noteq> po_only sweep) \<and> \<not> too_young sweep e) entries"

definition entry_key :: "branch_entry \<Rightarrow> string \<times> string \<times> string" where
  "entry_key e = (be_repository e, be_branch e, be_scope e)"

text \<open>
  \<^verbatim>\<open>sort.Slice\<close> is not stable; two entries of one key may come out in either order. The model
  keeps their order.
\<close>

definition SortBranchEntries :: "branch_entry list \<Rightarrow> branch_entry list" where
  "SortBranchEntries entries = sort_key entry_key entries"

definition TallyDispositions :: "branch_entry list \<Rightarrow> string \<Rightarrow> nat" where
  "TallyDispositions entries d = length (filter (\<lambda>e. be_disposition e = d) entries)"

definition IsRetiredBranch :: "string \<Rightarrow> bool" where
  "IsRetiredBranch branch = HasPrefix branch ''retired/''"

definition BranchNameSelected :: "policy_options \<Rightarrow> string \<Rightarrow> bool" where
  "BranchNameSelected sweep name =
     (if po_branch sweep \<noteq> [] \<and> po_branch sweep \<noteq> name then False
      else if po_name sweep = [] then True
      else path_match (po_name sweep) name = Inr True)"

definition RetiredRefSelected :: "policy_options \<Rightarrow> branch_ref \<Rightarrow> bool" where
  "RetiredRefSelected sweep ref =
     (if \<not> IsRetiredBranch (ref_name ref) then False
      else if \<not> BranchNameSelected sweep (ref_name ref) then False
      else if po_older_than sweep = 0 then True
      else \<not> ref_unknown_date ref \<and> \<not> is_zero_time (ref_date ref) \<and>
           po_older_than sweep \<le> time_sub (po_now sweep) (ref_date ref))"

definition retired_step ::
  "policy_options \<Rightarrow> string \<Rightarrow> string \<Rightarrow> (string \<Rightarrow> nat) \<times> string set \<Rightarrow> branch_ref \<Rightarrow>
     (string \<Rightarrow> nat) \<times> string set" where
  "retired_step sweep repositorySlug scope st ref =
     (case st of (counts, names) \<Rightarrow>
        if \<not> RetiredRefSelected sweep ref then (counts, names)
        else (counts(scope := counts scope + 1), insert (repositorySlug @ ''|'' @ ref_name ref) names))"

definition AccumulateRetiredCounts ::
  "policy_options \<Rightarrow> string \<Rightarrow> branch_ref list \<Rightarrow> string \<Rightarrow> (string \<Rightarrow> nat) \<Rightarrow> string set \<Rightarrow>
     (string \<Rightarrow> nat) \<times> string set" where
  "AccumulateRetiredCounts sweep repositorySlug refs scope counts names =
     foldl (retired_step sweep repositorySlug scope) (counts, names) refs"

section \<open>Entries\<close>

text \<open>
  The loop runs over runes; a byte outside ASCII belongs to a rune outside the two ranges, so
  that looking at bytes is the same.
\<close>

definition HasOnlyLowerHexCharacters :: "string \<Rightarrow> bool" where
  "HasOnlyLowerHexCharacters value =
     list_all (\<lambda>c. \<not> ((c < CHR ''0'' \<or> CHR ''9'' < c) \<and> (c < CHR ''a'' \<or> CHR ''f'' < c))) value"

definition IsGitObjectID :: "string \<Rightarrow> bool" where
  "IsGitObjectID value =
     (if length value \<noteq> 40 \<and> length value \<noteq> 64 then False else HasOnlyLowerHexCharacters value)"

definition ShortSHA :: "string \<Rightarrow> string" where
  "ShortSHA sha = (if length sha > 12 then take 12 sha else sha)"

definition RetiredBranchEntry :: "string \<Rightarrow> policy_options \<Rightarrow> branch_ref \<Rightarrow> string \<Rightarrow> string \<Rightarrow> branch_entry" where
  "RetiredBranchEntry repositorySlug sweep ref scope targetSHA = zero_entry
     \<lparr>be_repository := repositorySlug, be_branch := ref_name ref, be_ref_kind := ''branch'', be_scope := scope,
      be_sha := ref_sha ref, be_short_sha := ShortSHA (ref_sha ref), be_committer_date := ref_date ref,
      be_author := ref_author ref, be_title := ref_title ref,
      be_base := po_base sweep, be_target_sha := targetSHA, be_disposition := BranchRetired,
      be_evidence := ''user-selected retired quarantine; excluded from active backlog and never cleanup-eligible''\<rparr>"

text \<open>
  A receipted branch. With no \<^verbatim>\<open>--absorbed-by\<close> pointer the pull request is dereferenced; a nil
  one panics, which is \<open>None\<close>.
\<close>

definition ReceiptedBranch :: "branch_entry \<Rightarrow> string \<Rightarrow> pull_request option \<Rightarrow> string \<Rightarrow> branch_entry option" where
  "ReceiptedBranch entry landingSHA pullRequest absorbedBy =
     (let entry = entry\<lparr>be_disposition := BranchReceipted, be_landing_sha := landingSHA, be_receipt_pr := pullRequest\<rparr> in
      if absorbedBy \<noteq> [] then
        Some (entry\<lparr>be_evidence := ''--absorbed-by '' @ absorbedBy @ '' resolved to '' @ ShortSHA landingSHA @
                 ''; branch content is fully contained there and in the fetched target, and '' @
                 ShortSHA landingSHA @ '' is exactly where it entered'',
               be_reason := ''content-proven absorbed via --absorbed-by '' @ absorbedBy @ ''; eligible for deletion''\<rparr>)
      else (case pullRequest of
          None \<Rightarrow> None
        | Some pr \<Rightarrow>
            Some (entry\<lparr>be_evidence := ''merged pull request #'' @ Itoa (pr_number pr) @ '' into '' @ be_base entry @
                     ''; landing '' @ ShortSHA landingSHA @ '' is in the fetched target and the three-way proof holds'',
                   be_reason := ''landed via merged pull request #'' @ Itoa (pr_number pr) @
                     ''; eligible for deletion under --receipts''\<rparr>)))"

definition IsProtectedBranch :: "string \<Rightarrow> string \<Rightarrow> string \<Rightarrow> bool" where
  "IsProtectedBranch branch base canonicalHEAD =
     (if branch = base \<or> branch = canonicalHEAD then True else branch = ''main'' \<or> branch = ''master'')"

definition ScopeIncludesRemote :: "string \<Rightarrow> bool" where
  "ScopeIncludesRemote scope \<longleftrightarrow> scope = BranchScopeRemote \<or> scope = BranchScopeAll"

definition PeerEvidenceSafeDisposition :: "string \<Rightarrow> bool" where
  "PeerEvidenceSafeDisposition d \<longleftrightarrow> d \<in> {BranchContained, BranchReceipted, BranchAbsorbed, BranchUnique}"

section \<open>The cleanup plan\<close>

definition EligibleBranchCleanupDisposition :: "branch_entry \<Rightarrow> bool" where
  "EligibleBranchCleanupDisposition e =
     (if be_disposition e = BranchContained \<or> be_disposition e = BranchReceipted then True
      else if be_disposition e = BranchSuperseded then be_superseded_at_origin e
      else False)"

definition SkipReasonForDisposition :: "branch_entry \<Rightarrow> skip_reason" where
  "SkipReasonForDisposition e =
     (if be_reason e \<noteq> [] then SkipText (be_reason e)
      else if be_evidence e \<noteq> [] then SkipText (be_evidence e)
      else NeverEligible (be_disposition e))"

definition RemotePullRequestEvidenceUnavailable :: "branch_entry list \<Rightarrow> policy_options \<Rightarrow> bool" where
  "RemotePullRequestEvidenceUnavailable entries sweep =
     (if po_scope sweep = BranchScopeLocal then False
      else list_ex (\<lambda>e. be_scope e = BranchScopeRemote \<and>
             (be_disposition e = BranchContained \<or> be_disposition e = BranchReceipted \<or> be_disposition e = BranchSuperseded) \<and>
             be_query_failed e) entries)"

definition plan_entry :: "bool \<Rightarrow> policy_options \<Rightarrow> branch_entry \<Rightarrow> cleanup_result" where
  "plan_entry remoteEvidenceUnavailable sweep e =
     (let result = \<lparr>cr_entry = e, cr_eligible = False, cr_skip_reason = NoSkip, cr_applied = False,
                    cr_outcome = ''skipped'', cr_error = [], cr_recovery_bundle = []\<rparr> in
      if \<not> EligibleBranchCleanupDisposition e then result\<lparr>cr_skip_reason := SkipReasonForDisposition e\<rparr>
      else if too_young sweep e then result\<lparr>cr_skip_reason := YoungerThan (po_older_than sweep)\<rparr>
      else if be_scope e = BranchScopeRemote \<and> remoteEvidenceUnavailable
        then result\<lparr>cr_skip_reason := EvidenceUnavailable\<rparr>
      else if be_scope e = BranchScopeRemote \<and> be_open_pr e \<noteq> None
        then result\<lparr>cr_skip_reason := OpenHead (pr_url (the (be_open_pr e)))\<rparr>
      else if be_scope e = BranchScopeRemote \<and> be_open_base_pr e \<noteq> None
        then result\<lparr>cr_skip_reason := OpenBase (pr_url (the (be_open_base_pr e)))\<rparr>
      else result\<lparr>cr_eligible := True, cr_outcome := ''planned''\<rparr>)"

definition PlanBranchCleanup :: "branch_entry list \<Rightarrow> policy_options \<Rightarrow> cleanup_result list" where
  "PlanBranchCleanup entries sweep =
     map (plan_entry (RemotePullRequestEvidenceUnavailable entries sweep) sweep) entries"

definition TallyCleanupOutcomes :: "cleanup_result list \<Rightarrow> string \<Rightarrow> nat" where
  "TallyCleanupOutcomes results oc = length (filter (\<lambda>r. cr_outcome r = oc) results)"

section \<open>Where a retired branch goes\<close>

definition quarantine_safe :: "char \<Rightarrow> bool" where
  "quarantine_safe c \<longleftrightarrow>
     (CHR ''A'' \<le> c \<and> c \<le> CHR ''Z'') \<or> (CHR ''a'' \<le> c \<and> c \<le> CHR ''z'') \<or> (CHR ''0'' \<le> c \<and> c \<le> CHR ''9'') \<or>
     c = CHR ''.'' \<or> c = CHR ''_'' \<or> c = CHR ''-''"

text \<open>
  \<^verbatim>\<open>quarantineSegmentUnsafe.ReplaceAllString\<close>: every maximal run of unsafe characters becomes
  one dash. Every byte of a rune outside ASCII is unsafe, so that working on bytes is the same.
\<close>

fun quarantine :: "bool \<Rightarrow> string \<Rightarrow> string" where
  "quarantine inRun [] = []"
| "quarantine inRun (c # cs) =
     (if quarantine_safe c then c # quarantine False cs
      else if inRun then quarantine True cs else CHR ''-'' # quarantine True cs)"

definition flat_source :: "string \<Rightarrow> string" where
  "flat_source source =
     (let flat = TrimSet ''-.'' (quarantine False (replace_byte (CHR ''/'') ''-'' source))
      in if flat = [] then ''branch'' else flat)"

definition RetiredBranchDestination :: "go_time \<Rightarrow> string \<Rightarrow> string \<Rightarrow> string" where
  "RetiredBranchDestination now source sha =
     ''retired/'' @ yyyymmdd now @ ''-'' @ flat_source source @ ''-'' @ ShortSHA sha"

section \<open>What a plan deletes\<close>

lemma eligible_iff:
  "EligibleBranchCleanupDisposition e \<longleftrightarrow> be_disposition e = BranchContained \<or> be_disposition e = BranchReceipted \<or>
     be_disposition e = BranchSuperseded \<and> be_superseded_at_origin e"
  by (simp add: EligibleBranchCleanupDisposition_def)

lemma plan_entry_eligible:
  "cr_eligible (plan_entry u sweep e) \<longleftrightarrow>
     EligibleBranchCleanupDisposition e \<and> \<not> too_young sweep e \<and>
     (be_scope e \<noteq> BranchScopeRemote \<or> \<not> u \<and> be_open_pr e = None \<and> be_open_base_pr e = None)"
  by (auto simp: plan_entry_def Let_def)

lemma plan_entry_simps [simp]:
  "cr_outcome (plan_entry u sweep e) = (if cr_eligible (plan_entry u sweep e) then ''planned'' else ''skipped'')"
  "cr_entry (plan_entry u sweep e) = e"
  "\<not> cr_applied (plan_entry u sweep e)"
  "cr_error (plan_entry u sweep e) = []"
  "cr_recovery_bundle (plan_entry u sweep e) = []"
  by (simp_all add: plan_entry_def Let_def)

lemma plan_entry_skip: "cr_skip_reason (plan_entry u sweep e) = NoSkip \<longleftrightarrow> cr_eligible (plan_entry u sweep e)"
  by (auto simp: plan_entry_def Let_def SkipReasonForDisposition_def)

text \<open>The condition of a planned deletion, written from the documentation of the package.\<close>

definition deletable :: "branch_entry list \<Rightarrow> policy_options \<Rightarrow> branch_entry \<Rightarrow> bool" where
  "deletable entries sweep e \<longleftrightarrow>
     (be_disposition e = BranchContained \<or> be_disposition e = BranchReceipted \<or>
      be_disposition e = BranchSuperseded \<and> be_superseded_at_origin e) \<and>
     (po_older_than sweep \<le> 0 \<or> be_committer_date e = 0 \<or>
      po_older_than sweep \<le> time_sub (po_now sweep) (be_committer_date e)) \<and>
     (be_scope e \<noteq> BranchScopeRemote \<or>
        be_open_pr e = None \<and> be_open_base_pr e = None \<and>
        (po_scope sweep = BranchScopeLocal \<or>
         \<not> (\<exists>f \<in> set entries. be_scope f = BranchScopeRemote \<and> be_query_failed f \<and>
               be_disposition f \<in> {BranchContained, BranchReceipted, BranchSuperseded})))"

lemma plan_entry_deletable:
  "cr_eligible (plan_entry (RemotePullRequestEvidenceUnavailable entries sweep) sweep e) \<longleftrightarrow> deletable entries sweep e"
proof -
  have u: "\<not> RemotePullRequestEvidenceUnavailable entries sweep \<longleftrightarrow> po_scope sweep = BranchScopeLocal \<or>
      \<not> (\<exists>f \<in> set entries. be_scope f = BranchScopeRemote \<and> be_query_failed f \<and>
               be_disposition f \<in> {BranchContained, BranchReceipted, BranchSuperseded})"
    by (auto simp: RemotePullRequestEvidenceUnavailable_def list_ex_iff)
  have y: "\<not> too_young sweep e \<longleftrightarrow> po_older_than sweep \<le> 0 \<or> be_committer_date e = 0 \<or>
      po_older_than sweep \<le> time_sub (po_now sweep) (be_committer_date e)"
    by (auto simp: too_young_def is_zero_time_def)
  show ?thesis unfolding plan_entry_eligible u y eligible_iff deletable_def by blast
qed

text \<open>
  C19: the cleanup plan, exactly. The results are the entries in their order, none of them
  applied; an entry is planned for deletion if and only if it is contained in the target, proved
  by a receipt, or superseded with the supersession at origin, is not known to be younger than
  the limit, and, when it is a remote branch, is neither head nor base of an open pull request
  and no remote candidate's pull-request query failed in a run that looks at remotes
  (\<^const>\<open>deletable\<close>). Exactly the other entries carry a reason why they are skipped.
\<close>

theorem PlanBranchCleanup_exact:
  "map cr_entry (PlanBranchCleanup entries sweep) = entries \<and>
   map cr_outcome (PlanBranchCleanup entries sweep) =
     map (\<lambda>e. if deletable entries sweep e then ''planned'' else ''skipped'') entries \<and>
   map (\<lambda>r. cr_skip_reason r = NoSkip) (PlanBranchCleanup entries sweep) = map (deletable entries sweep) entries \<and>
   map cr_applied (PlanBranchCleanup entries sweep) = replicate (length entries) False"
  by (simp add: PlanBranchCleanup_def comp_def plan_entry_deletable plan_entry_skip map_replicate_const)

text \<open>
  A contained local branch is planned and a unique one is not; when the pull requests of one remote
  candidate could not be queried, no remote branch is.
\<close>

theorem PlanBranchCleanup_exact_witness:
  "map cr_outcome (PlanBranchCleanup
     [zero_entry\<lparr>be_scope := BranchScopeLocal, be_disposition := BranchContained\<rparr>,
      zero_entry\<lparr>be_scope := BranchScopeLocal, be_disposition := BranchUnique\<rparr>,
      zero_entry\<lparr>be_scope := BranchScopeRemote, be_disposition := BranchContained\<rparr>,
      zero_entry\<lparr>be_scope := BranchScopeRemote, be_disposition := BranchContained, be_query_failed := True\<rparr>]
     \<lparr>po_base = ''main'', po_scope = [], po_only = [], po_branch = [], po_name = [], po_older_than = 0, po_now = 0\<rparr>) =
   [''planned'', ''skipped'', ''skipped'', ''skipped'']"
  by (simp add: PlanBranchCleanup_exact deletable_def disposition_defs zero_entry_def BranchScopeLocal_def BranchScopeRemote_def)

section \<open>The quarantine namespace\<close>

lemma quarantine_chars: "c \<in> set (quarantine b s) \<Longrightarrow> quarantine_safe c"
  by (induction b s rule: quarantine.induct) (auto simp: quarantine_safe_def split: if_splits)

lemma flat_source_safe: "flat_source s \<noteq> [] \<and> list_all quarantine_safe (flat_source s)"
proof (cases "TrimSet ''-.'' (quarantine False (replace_byte (CHR ''/'') ''-'' s)) = []")
  case True
  then show ?thesis by (simp add: flat_source_def quarantine_safe_def)
next
  case False
  then have f: "flat_source s = TrimSet ''-.'' (quarantine False (replace_byte (CHR ''/'') ''-'' s))"
    by (simp add: flat_source_def)
  have "quarantine_safe c" if "c \<in> set (flat_source s)" for c
    using subsetD [OF set_trim_by that [unfolded f TrimSet_def]] by (rule quarantine_chars)
  then show ?thesis using False f by (simp add: list_all_iff)
qed

lemma digit_safe: "is_digit c \<Longrightarrow> quarantine_safe c"
  by (simp add: is_digit_def quarantine_safe_def less_eq_char_def)

lemma hex_safe: "HasOnlyLowerHexCharacters s \<Longrightarrow> list_all quarantine_safe s"
  unfolding HasOnlyLowerHexCharacters_def list_all_iff quarantine_safe_def less_eq_char_def less_char_def
  by (intro ballI) (drule bspec, assumption, auto)

lemma ShortSHA_all: "list_all P s \<Longrightarrow> list_all P (ShortSHA s)"
  by (auto simp: ShortSHA_def list_all_iff dest: in_set_takeD)

lemma yyyymmdd_safe: "list_all quarantine_safe (yyyymmdd now)"
  using digit_safe by (fastforce simp: list_all_iff quarantine_safe_def dest: yyyymmdd_chars)

lemma safe_no_slash: "list_all quarantine_safe s \<Longrightarrow> CHR ''/'' \<notin> set s"
  by (auto simp: list_all_iff quarantine_safe_def less_eq_char_def)

lemma retired_not_deletable: "be_disposition e = BranchRetired \<Longrightarrow> \<not> deletable entries sweep e"
  by (simp add: deletable_def disposition_defs)

text \<open>
  a retired branch lands in the quarantine namespace as one path segment made of letters,
  digits, dots, underscores and dashes, whatever the source branch was called; the name is
  recognised as retired, and no plan ever deletes the entry made for a ref of that name.
\<close>

theorem RetiredBranchDestination_quarantined:
  assumes "IsGitObjectID sha"
  shows "\<exists>segment. RetiredBranchDestination now source sha = ''retired/'' @ segment \<and> segment \<noteq> [] \<and>
      list_all quarantine_safe segment \<and> CHR ''/'' \<notin> set segment \<and>
      IsRetiredBranch (RetiredBranchDestination now source sha) \<and>
      (\<forall>slug options ref scope target entries sweep.
         \<not> deletable entries sweep (RetiredBranchEntry slug options ref scope target))"
proof -
  let ?segment = "yyyymmdd now @ ''-'' @ flat_source source @ ''-'' @ ShortSHA sha"
  have "list_all quarantine_safe (ShortSHA sha)"
    using assms by (auto simp: IsGitObjectID_def split: if_splits intro: hex_safe ShortSHA_all)
  then have safe: "list_all quarantine_safe ?segment"
    using yyyymmdd_safe flat_source_safe by (simp add: quarantine_safe_def)
  moreover have "IsRetiredBranch (''retired/'' @ t)" for t
    unfolding IsRetiredBranch_def by (rule HasPrefix_append)
  moreover have "be_disposition (RetiredBranchEntry slug options ref scope target) = BranchRetired"
    for slug options ref scope target
    by (simp add: RetiredBranchEntry_def)
  ultimately show ?thesis
    by (intro exI [of _ ?segment]) (simp add: RetiredBranchDestination_def safe_no_slash retired_not_deletable)
qed

theorem RetiredBranchDestination_quarantined_witness:
  "IsRetiredBranch (RetiredBranchDestination (738944 * ns_per_day) ''feature/a b'' (replicate 40 (CHR ''a''))) \<and>
   RetiredBranchDestination (738944 * ns_per_day) ''feature/a b'' (replicate 40 (CHR ''a'')) =
     ''retired/20240229-feature-a-b-aaaaaaaaaaaa''"
proof
  show "IsRetiredBranch (RetiredBranchDestination (738944 * ns_per_day) ''feature/a b'' (replicate 40 (CHR ''a'')))"
  proof -
    have "IsGitObjectID (replicate 40 (CHR ''a''))" by code_simp
    from RetiredBranchDestination_quarantined [OF this] show ?thesis by blast
  qed
  show "RetiredBranchDestination (738944 * ns_per_day) ''feature/a b'' (replicate 40 (CHR ''a'')) =
     ''retired/20240229-feature-a-b-aaaaaaaaaaaa''"
    by code_simp
qed

end
