(* ===== verification/Branch_Inventory.thy ===== *)
theory Branch_Inventory
  imports Branch_Policy
begin

text \<open>
  The branch inventory of \<^verbatim>\<open>internal/worktreebranches\<close>: \<^verbatim>\<open>inventory.go\<close> (pull-request
  evidence of a branch), \<^verbatim>\<open>inventory_refs.go\<close> (reading refs), \<^verbatim>\<open>classification.go\<close> (the
  disposition of a branch), \<^verbatim>\<open>inspection.go\<close> and \<^verbatim>\<open>inventory_fleet.go\<close> (one repository, all
  repositories), with the filter of \<^verbatim>\<open>internal/repofilter\<close>.

  Git, GitHub and the claims index are the ports the code itself declares
  (\<^verbatim>\<open>InventoryPorts\<close>): functions from the arguments of a query to its answer, so that one value
  of the record is what one run observes. The context argument and the progress output are left
  out; an error is its text. The last two fields are library decoders: JSON pages of pull
  requests, and RFC 3339 instants.
\<close>

section \<open>Further string functions of the library\<close>

fun SplitN :: "string \<Rightarrow> char \<Rightarrow> nat \<Rightarrow> string list" where
  "SplitN s b 0 = []"
| "SplitN s b (Suc 0) = [s]"
| "SplitN s b (Suc (Suc n)) =
     (case Cut s b of (a, rest, found) \<Rightarrow> if found then a # SplitN rest b (Suc n) else [s])"

definition CutPrefix :: "string \<Rightarrow> string \<Rightarrow> string \<times> bool" where
  "CutPrefix s p = (if HasPrefix s p then (drop (length p) s, True) else (s, False))"

text \<open>
  \<^verbatim>\<open>strings.EqualFold\<close>, exact when one of the two strings is ASCII, as repository names are:
  besides letter case, two runes outside ASCII fold into it (U+017F to s, U+212A to k).
\<close>

definition fold_rune :: "rune \<Rightarrow> rune" where
  "fold_rune r = (if 65 \<le> r \<and> r \<le> 90 then r + 32 else if r = 383 then 115 else if r = 8490 then 107 else r)"

definition EqualFold :: "string \<Rightarrow> string \<Rightarrow> bool" where
  "EqualFold s t \<longleftrightarrow> map (fold_rune \<circ> fst) (utf8_chunks s) = map (fold_rune \<circ> fst) (utf8_chunks t)"

text \<open>\<^verbatim>\<open>url.QueryEscape\<close> and \<^verbatim>\<open>url.Values.Encode\<close> of pairs already sorted by key.\<close>

definition hex_digit :: "nat \<Rightarrow> char" where
  "hex_digit n = char_of (if n < 10 then 48 + n else 55 + n)"

definition escape_byte :: "char \<Rightarrow> string" where
  "escape_byte c =
     (let n = of_char c :: nat in
      if quarantine_safe c \<or> c = CHR ''~'' then [c]
      else if c = CHR '' '' then ''+''
      else [CHR ''%'', hex_digit (n div 16), hex_digit (n mod 16)])"

definition QueryEscape :: "string \<Rightarrow> string" where
  "QueryEscape s = concat (map escape_byte s)"

definition Encode :: "(string \<times> string) list \<Rightarrow> string" where
  "Encode kvs = Join (map (\<lambda>(k, v). QueryEscape k @ ''='' @ QueryEscape v) kvs) ''&''"

section \<open>Types\<close>

record repository =
  rp_slug :: string
  rp_path :: string

record branch_use =
  bu_repository :: string
  bu_branch :: string
  bu_task :: string

text \<open>\<^verbatim>\<open>internal/worktreelanding/receipts.go\<close>: the GitHub response; the repository is its full name.\<close>

record github_ref =
  ghr_ref :: string
  ghr_sha :: string
  ghr_repo :: "string option"

record github_pull_request =
  gh_number :: int
  gh_url :: string
  gh_state :: string
  gh_base :: github_ref
  gh_head :: github_ref
  gh_merge_commit_sha :: string
  gh_merged_at :: "go_time option"

record supersession_evidence =
  se_reviewer :: string
  se_receipt_id :: string

record verified_candidate =
  vc_landing_sha :: string
  vc_pull_request :: "pull_request option"

type_synonym pr_cache = "(string \<rightharpoonup> github_pull_request list) option"

record inventory_ports =
  p_Discover :: "string \<Rightarrow> (string, repository list) result"
  p_ListInUse :: "string \<Rightarrow> string \<Rightarrow> (string, branch_use list) result"
  p_Git :: "string \<Rightarrow> string list \<Rightarrow> (string, string) result"
  p_CheckedOut :: "string \<Rightarrow> (string \<Rightarrow> bool) \<times> string"
  p_InUse :: "string \<Rightarrow> string \<Rightarrow> (string \<rightharpoonup> string) \<times> string"
  p_OpenHeadPull :: "string \<Rightarrow> string \<Rightarrow> string \<Rightarrow> string \<Rightarrow> (string, pull_request option) result"
  p_OpenBasePull :: "string \<Rightarrow> string \<Rightarrow> string \<Rightarrow> (string, pull_request option) result"
  p_FetchTarget :: "string \<Rightarrow> string \<Rightarrow> (string, string) result"
  p_IsAncestor :: "string \<Rightarrow> string \<Rightarrow> string \<Rightarrow> (string, bool) result"
  p_ContentContained :: "string \<Rightarrow> string \<Rightarrow> string \<Rightarrow> (string, bool) result"
  p_LandingReverted :: "string \<Rightarrow> string \<Rightarrow> string \<Rightarrow> string list \<Rightarrow> (string, bool) result"
  p_CommitTree :: "string \<Rightarrow> string \<Rightarrow> (string, string) result"
  p_Supersession :: "string \<Rightarrow> repository \<Rightarrow> branch_ref \<Rightarrow> string \<Rightarrow> string \<Rightarrow> supersession_evidence option \<times> string"
  p_SupersessionDigest :: "string \<Rightarrow> (string, string) result"
  p_AttestedReceipt :: "repository \<Rightarrow> branch_ref \<Rightarrow> string \<Rightarrow> string \<Rightarrow> string \<Rightarrow>
     (string, verified_candidate option \<times> string) result"
  p_PullRequestsForHead :: "repository \<Rightarrow> string \<Rightarrow> (string, github_pull_request list) result"
  p_AbsorbingPR :: "github_pull_request list \<Rightarrow> string \<Rightarrow> pull_request option"
  p_PullRequestAPI :: "string \<Rightarrow> string \<Rightarrow> (string, string) result"
  p_decode_pages :: "string \<Rightarrow> github_pull_request list option list \<times> string option"
  p_parse_time :: "string \<Rightarrow> go_time option"

record inventory_sweep =
  sw_projects_root :: string
  sw_base :: string
  sw_scope :: string
  sw_only :: string
  sw_filter :: string
  sw_repository :: string
  sw_org :: string
  sw_branch :: string
  sw_name :: string
  sw_older_than :: duration
  sw_now :: go_time
  sw_receipts :: bool
  sw_with_prs :: bool
  sw_cleanup :: bool
  sw_include_retired :: bool
  sw_absorbed_by :: string
  sw_superseded_by :: string

definition Policy :: "inventory_sweep \<Rightarrow> policy_options" where
  "Policy s = \<lparr>po_base = sw_base s, po_scope = sw_scope s, po_only = sw_only s, po_branch = sw_branch s,
     po_name = sw_name s, po_older_than = sw_older_than s, po_now = sw_now s\<rparr>"

record pull_request_evidence =
  ev_requests :: "branch_pull_request list"
  ev_open_head :: "pull_request option"
  ev_open_base :: "pull_request option"
  ev_err :: "string option"

section \<open>Pull-request evidence of a branch\<close>

text \<open>The decoder loop: a page that is null fails before a later decoding error is seen.\<close>

fun collect_pages :: "string \<Rightarrow> github_pull_request list option list \<Rightarrow> string option \<Rightarrow> nat \<Rightarrow> github_pull_request list \<Rightarrow>
    (string, github_pull_request list) result" where
  "collect_pages endpoint [] (Some err) pageCount requests = Inl (''decode '' @ endpoint @ '': '' @ err)"
| "collect_pages endpoint [] None pageCount requests =
     (if pageCount = 0 then Inl (''decode '' @ endpoint @ '': expected a pull-request array, got empty response'')
      else Inr requests)"
| "collect_pages endpoint (None # ps) e pageCount requests =
     Inl (''decode '' @ endpoint @ '': expected a pull-request array, got null'')"
| "collect_pages endpoint (Some page # ps) e pageCount requests =
     collect_pages endpoint ps e (pageCount + 1) (requests @ page)"

definition QueryBranchPullRequests ::
  "inventory_ports \<Rightarrow> repository \<Rightarrow> (string \<times> string) list \<Rightarrow> (string, github_pull_request list) result" where
  "QueryBranchPullRequests p repo query =
     (let endpoint = ''repos/'' @ rp_slug repo @ ''/pulls?'' @ Encode query in
      case p_PullRequestAPI p (rp_path repo) endpoint of
        Inl err \<Rightarrow> Inl err
      | Inr raw \<Rightarrow> (case p_decode_pages p raw of (pages, e) \<Rightarrow> collect_pages endpoint pages e 0 []))"

definition no_evidence :: pull_request_evidence where
  "no_evidence = \<lparr>ev_requests = [], ev_open_head = None, ev_open_base = None, ev_err = None\<rparr>"

definition newer_open :: "pull_request option \<Rightarrow> pull_request \<Rightarrow> pull_request option" where
  "newer_open current open =
     (case current of None \<Rightarrow> Some open | Some pr \<Rightarrow> if pr_number open > pr_number pr then Some open else Some pr)"

definition appendCandidate :: "repository \<Rightarrow> pull_request_evidence \<Rightarrow> github_pull_request \<Rightarrow> string \<Rightarrow> pull_request_evidence" where
  "appendCandidate repo result candidate role =
     (let state = (if gh_merged_at candidate \<noteq> None then ''merged'' else ToLower (gh_state candidate)) in
      if state \<noteq> ''open'' \<and> state \<noteq> ''merged'' \<and> state \<noteq> ''closed'' then result
      else let request = \<lparr>bpr_number = gh_number candidate, bpr_url = gh_url candidate, bpr_role = role, bpr_state = state,
                 bpr_head = ghr_ref (gh_head candidate), bpr_base = ghr_ref (gh_base candidate),
                 bpr_head_sha = ghr_sha (gh_head candidate), bpr_merge_sha = gh_merge_commit_sha candidate,
                 bpr_merged_at = gh_merged_at candidate\<rparr>;
               result = result\<lparr>ev_requests := ev_requests result @ [request]\<rparr> in
      if state \<noteq> ''open'' then result
      else let open = \<lparr>pr_number = gh_number candidate, pr_url = gh_url candidate, pr_repository = rp_slug repo,
                 pr_state = ''OPEN'', pr_base = ghr_ref (gh_base candidate), pr_base_sha = ghr_sha (gh_base candidate),
                 pr_head_sha = ghr_sha (gh_head candidate), pr_merge_sha = [], pr_merged = None\<rparr> in
      if role = ''head'' then result\<lparr>ev_open_head := newer_open (ev_open_head result) open\<rparr>
      else if role = ''base'' then result\<lparr>ev_open_base := newer_open (ev_open_base result) open\<rparr>
      else result)"

fun scan_candidates ::
  "repository \<Rightarrow> string \<Rightarrow> string \<Rightarrow> (github_pull_request \<Rightarrow> github_ref) \<Rightarrow> github_pull_request list \<Rightarrow>
     pull_request_evidence \<Rightarrow> (string, pull_request_evidence) result" where
  "scan_candidates repo branch role reference [] result = Inr result"
| "scan_candidates repo branch role reference (candidate # cs) result =
     (let ref = reference candidate in
      if ghr_ref ref = branch \<and> ghr_repo ref = None
        then Inl (role @ '' pull request #'' @ Itoa (gh_number candidate) @ '' for '' @ rp_slug repo @ '':'' @ branch @
                  '' has no repository identity'')
      else if ghr_ref ref = branch \<and> EqualFold (the (ghr_repo ref)) (rp_slug repo)
        then scan_candidates repo branch role reference cs (appendCandidate repo result candidate role)
      else scan_candidates repo branch role reference cs result)"

definition request_key :: "branch_pull_request \<Rightarrow> string \<times> int" where
  "request_key r = (bpr_role r, bpr_number r)"

definition BranchPullRequestsForHeadState ::
  "inventory_ports \<Rightarrow> repository \<Rightarrow> string \<Rightarrow> string \<Rightarrow> pull_request_evidence" where
  "BranchPullRequestsForHeadState p repo branch headState =
     (case Cut (rp_slug repo) (CHR ''/'') of (owner, _, ok) \<Rightarrow>
      let failed = (\<lambda>err. no_evidence\<lparr>ev_err := Some err\<rparr>) in
      if \<not> ok \<or> owner = [] \<or> branch = [] then failed ''invalid repository or branch for pull-request query''
      else case QueryBranchPullRequests p repo [(''head'', owner @ '':'' @ branch), (''per_page'', ''100''), (''state'', headState)] of
        Inl err \<Rightarrow> failed (''query head pull requests for '' @ rp_slug repo @ '':'' @ branch @ '': '' @ err)
      | Inr head \<Rightarrow>
      (case QueryBranchPullRequests p repo [(''base'', branch), (''per_page'', ''100''), (''state'', ''open'')] of
        Inl err \<Rightarrow> failed (''query base pull requests for '' @ rp_slug repo @ '':'' @ branch @ '': '' @ err)
      | Inr base \<Rightarrow>
      (case scan_candidates repo branch ''head'' gh_head head no_evidence of
        Inl err \<Rightarrow> failed err
      | Inr result \<Rightarrow>
      (case scan_candidates repo branch ''base'' gh_base base result of
        Inl err \<Rightarrow> failed err
      | Inr result \<Rightarrow> result\<lparr>ev_requests := sort_key request_key (ev_requests result)\<rparr>))))"

definition ExactBranchPullRequests :: "inventory_ports \<Rightarrow> repository \<Rightarrow> string \<Rightarrow> pull_request_evidence" where
  "ExactBranchPullRequests p repo branch = BranchPullRequestsForHeadState p repo branch ''all''"

definition OpenBranchPullRequests :: "inventory_ports \<Rightarrow> repository \<Rightarrow> string \<Rightarrow> pull_request_evidence" where
  "OpenBranchPullRequests p repo branch = BranchPullRequestsForHeadState p repo branch ''open''"

definition DecorateRemoteBranchPullRequests ::
  "inventory_ports \<Rightarrow> repository \<Rightarrow> branch_ref \<Rightarrow> branch_entry \<Rightarrow> (string \<rightharpoonup> pull_request_evidence) \<Rightarrow> bool \<Rightarrow>
     branch_entry \<times> (string \<rightharpoonup> pull_request_evidence)" where
  "DecorateRemoteBranchPullRequests p repo ref entry cache withHistory =
     (let (evidence, cache) =
        (case cache (ref_name ref) of
           Some evidence \<Rightarrow> (evidence, cache)
         | None \<Rightarrow>
             let evidence = (if withHistory then ExactBranchPullRequests p repo (ref_name ref)
                             else OpenBranchPullRequests p repo (ref_name ref))
             in (evidence, cache(ref_name ref \<mapsto> evidence)));
        entry = entry\<lparr>be_pull_requests := ev_requests evidence, be_open_pr := ev_open_head evidence,
                      be_open_base_pr := ev_open_base evidence\<rparr>
      in (case ev_err evidence of
            Some err \<Rightarrow> entry\<lparr>be_query_failed := True, be_query_error := err\<rparr>
          | None \<Rightarrow> entry\<lparr>be_queried := True\<rparr>, cache))"

section \<open>Reading refs\<close>

definition US :: char where "US = CHR 0x1F"
definition RS :: char where "RS = CHR 0x1E"
definition LF :: char where "LF = CHR 0x0A"

fun distinct_shas :: "branch_entry list \<Rightarrow> string list \<Rightarrow> string list" where
  "distinct_shas [] seen = []"
| "distinct_shas (e # es) seen =
     (if be_sha e \<noteq> [] \<and> be_sha e \<notin> set seen then be_sha e # distinct_shas es (be_sha e # seen)
      else distinct_shas es seen)"

definition commit_metadata :: "string \<Rightarrow> (string \<rightharpoonup> string \<times> string)" where
  "commit_metadata output =
     foldl (\<lambda>metadata record. let fields = SplitN record US 3 in
        if length fields = 3
        then metadata(TrimSpace (fields ! 0) \<mapsto> (TrimSpace (fields ! 1), TrimSpace (fields ! 2)))
        else metadata) Map.empty (Split output RS)"

definition DecorateBranchCommits :: "inventory_ports \<Rightarrow> string \<Rightarrow> branch_entry list \<Rightarrow> branch_entry list" where
  "DecorateBranchCommits p repositoryPath entries =
     (if entries = [] then entries
      else let shas = distinct_shas entries [] in
      if shas = [] then entries
      else case p_Git p repositoryPath ([''show'', ''-s'', ''--format=%H%x1f%an%x1f%s%x1e''] @ shas) of
        Inl err \<Rightarrow> entries
      | Inr output \<Rightarrow>
          map (\<lambda>e. case commit_metadata output (be_sha e) of
                 Some (author, title) \<Rightarrow> e\<lparr>be_author := author, be_title := title\<rparr>
               | None \<Rightarrow> e) entries)"

definition DecorateBranchCommit :: "inventory_ports \<Rightarrow> string \<Rightarrow> branch_entry \<Rightarrow> branch_entry" where
  "DecorateBranchCommit p repositoryPath entry = DecorateBranchCommits p repositoryPath [entry] ! 0"

definition CheckedOutLocalBranches :: "inventory_ports \<Rightarrow> string \<Rightarrow> (string \<Rightarrow> bool) \<times> string" where
  "CheckedOutLocalBranches p repositoryPath =
     (case p_Git p repositoryPath [''worktree'', ''list'', ''--porcelain''] of
        Inl err \<Rightarrow> (\<lambda>_. False, ''enumerate linked worktrees: '' @ err)
      | Inr output \<Rightarrow>
          (\<lambda>b. b \<in> set (map (fst \<circ> (\<lambda>line. CutPrefix line ''branch refs/heads/''))
                       (filter (snd \<circ> (\<lambda>line. CutPrefix line ''branch refs/heads/'')) (Split output LF))), []))"

definition parse_ref_line :: "inventory_ports \<Rightarrow> string \<Rightarrow> string \<Rightarrow> branch_ref option" where
  "parse_ref_line p namePrefix line =
     (if TrimSpace line = [] then None
      else let fields = Split line US in
      if length fields \<noteq> 3 then None
      else let shortName = TrimPrefix (fields ! 0) namePrefix in
      if namePrefix \<noteq> [] \<and> shortName = fields ! 0 then None
      else if shortName = ''HEAD'' then None
      else Some \<lparr>ref_name = shortName, ref_sha = fields ! 1,
                 ref_date = (case p_parse_time p (fields ! 2) of Some t \<Rightarrow> t | None \<Rightarrow> 0),
                 ref_unknown_date = False, ref_author = [], ref_title = []\<rparr>)"

definition ListRefs :: "inventory_ports \<Rightarrow> string \<Rightarrow> string \<Rightarrow> string \<Rightarrow> branch_ref list \<times> string" where
  "ListRefs p repositoryPath refPrefix namePrefix =
     (let format = Join [''%(refname:short)'', ''%(objectname)'', ''%(committerdate:iso-strict)''] [US] in
      case p_Git p repositoryPath [''for-each-ref'', ''--format='' @ format, refPrefix] of
        Inl err \<Rightarrow> ([], ''enumerate '' @ refPrefix @ '': '' @ err)
      | Inr output \<Rightarrow> (List.map_filter (parse_ref_line p namePrefix) (Split output LF), []))"

definition ListLocalRefs :: "inventory_ports \<Rightarrow> string \<Rightarrow> branch_ref list \<times> string" where
  "ListLocalRefs p repositoryPath = ListRefs p repositoryPath ''refs/heads/'' []"

definition FetchRemoteRefs :: "inventory_ports \<Rightarrow> string \<Rightarrow> string \<Rightarrow> string \<Rightarrow> string \<Rightarrow> branch_ref list \<times> string" where
  "FetchRemoteRefs p repositoryPath refspec refPrefix failureLabel =
     (case p_Git p repositoryPath [''fetch'', ''--prune'', ''origin'', refspec] of
        Inl err \<Rightarrow> ([], failureLabel @ '': '' @ err)
      | Inr _ \<Rightarrow> ListRefs p repositoryPath refPrefix ''origin/'')"

definition ListRemoteRefs :: "inventory_ports \<Rightarrow> string \<Rightarrow> branch_ref list \<times> string" where
  "ListRemoteRefs p repositoryPath =
     FetchRemoteRefs p repositoryPath ''+refs/heads/*:refs/remotes/origin/*'' ''refs/remotes/origin/'' ''fetch --prune origin''"

end
