(* ===== verification/Branch_Classify.thy ===== *)
theory Branch_Classify
  imports Branch_Inventory
begin

text \<open>
  The disposition of a branch (\<^verbatim>\<open>internal/worktreebranches/classification.go\<close>), the inspection
  of one repository (\<^verbatim>\<open>inspection.go\<close>) and of the fleet (\<^verbatim>\<open>inventory_fleet.go\<close>,
  \<^verbatim>\<open>internal/repofilter\<close>). The pull-request cache a sweep shares is passed along; \<open>None\<close> as a
  whole result is a nil dereference. The verb \<^verbatim>\<open>%q\<close> is modelled by plain quotes.
  The heartbeat wrapper around the inspection only prints while it waits, and is left out.
\<close>

section \<open>The disposition of a branch\<close>

definition BranchInUseKey :: "string \<Rightarrow> string \<Rightarrow> string" where
  "BranchInUseKey repo branch = repo @ ''|'' @ branch"

definition GitHubRevertMarker :: "string \<Rightarrow> int \<Rightarrow> string" where
  "GitHubRevertMarker repo number = ''Reverts '' @ repo @ ''#'' @ Itoa number"

definition ExactHeadReceiptNote :: string where
  "ExactHeadReceiptNote = ''exact-head''"

definition ProtectedEvidence :: "string \<Rightarrow> string \<Rightarrow> string \<Rightarrow> string" where
  "ProtectedEvidence branch base canonicalHEAD =
     (if branch = base then ''is the base branch '' @ CHR 0x22 # base @ [CHR 0x22]
      else if branch = canonicalHEAD then ''is the canonical clone'' @ CHR 0x27 # ''s current HEAD''
      else ''matches a configured protected branch name'')"

text \<open>\<^verbatim>\<open>internal/worktreelanding/receipts.go\<close>: the production value of the port \<^verbatim>\<open>AbsorbingPR\<close>.\<close>

definition absorbing_step :: "string \<Rightarrow> pull_request option \<Rightarrow> github_pull_request \<Rightarrow> pull_request option" where
  "absorbing_step base absorbing candidate =
     (case gh_merged_at candidate of
        None \<Rightarrow> absorbing
      | Some merged \<Rightarrow>
          if ghr_ref (gh_base candidate) \<noteq> base then absorbing
          else if absorbing \<noteq> None \<and> \<not> merged > the (pr_merged (the absorbing)) then absorbing
          else Some \<lparr>pr_number = gh_number candidate, pr_url = gh_url candidate, pr_repository = [],
                     pr_state = ''MERGED'', pr_base = ghr_ref (gh_base candidate),
                     pr_base_sha = ghr_sha (gh_base candidate), pr_head_sha = ghr_sha (gh_head candidate),
                     pr_merge_sha = gh_merge_commit_sha candidate, pr_merged = Some merged\<rparr>)"

definition AbsorbingPullRequest :: "github_pull_request list \<Rightarrow> string \<Rightarrow> pull_request option" where
  "AbsorbingPullRequest pullRequests base = foldl (absorbing_step base) None pullRequests"

definition cached_pull_requests ::
  "inventory_ports \<Rightarrow> repository \<Rightarrow> string \<Rightarrow> pr_cache \<Rightarrow> (string, github_pull_request list) result \<times> pr_cache" where
  "cached_pull_requests p repo sha cache =
     (case Option.bind cache (\<lambda>m. m sha) of
        Some prs \<Rightarrow> (Inr prs, cache)
      | None \<Rightarrow> (case p_PullRequestsForHead p repo sha of
            Inl err \<Rightarrow> (Inl (''pull-request query failed: '' @ err), cache)
          | Inr fetched \<Rightarrow> (Inr fetched, map_option (\<lambda>m. m(sha \<mapsto> fetched)) cache)))"

definition prove_landing ::
  "inventory_ports \<Rightarrow> repository \<Rightarrow> branch_ref \<Rightarrow> string \<Rightarrow> pull_request \<Rightarrow> pull_request option \<times> string" where
  "prove_landing p repo ref targetSHA pullRequest =
     (let n = Itoa (pr_number pullRequest); landing = pr_merge_sha pullRequest in
      if \<not> IsGitObjectID landing
        then (None, ''merged pull request #'' @ n @ '' carries no valid merge commit'')
      else case p_IsAncestor p (rp_path repo) landing targetSHA of
        Inl err \<Rightarrow> (None, ''landing containment check failed: '' @ err)
      | Inr landed \<Rightarrow>
      if \<not> landed then (None, ''landing commit '' @ ShortSHA landing @ '' of pull request #'' @ n @
                             '' is not contained in the fetched target'')
      else case p_ContentContained p (rp_path repo) (ref_sha ref) landing of
        Inl err \<Rightarrow> (None, ''three-way proof failed to run: '' @ err)
      | Inr inLanding \<Rightarrow>
      if \<not> inLanding then (None, ''landing commit '' @ ShortSHA landing @ '' of pull request #'' @ n @
             '' does not carry this branch'' @ CHR 0x27 # ''s work in full; it may have been amended while landing'')
      else case p_ContentContained p (rp_path repo) (ref_sha ref) targetSHA of
        Inl err \<Rightarrow> (None, ''three-way proof failed to run: '' @ err)
      | Inr inTarget \<Rightarrow>
      let diverged = (None, ''landed in full via pull request #'' @ n @
             '', but the target has since diverged from that work '' @ [CHR 0xE2, CHR 0x80, CHR 0x94] @
             '' later edits and a revert are indistinguishable here; the content remains recoverable at landing commit '' @
             ShortSHA landing) in
      if inTarget then (Some pullRequest, [])
      else if pr_head_sha pullRequest = ref_sha ref then
        (case p_LandingReverted p (rp_path repo) landing targetSHA
                [GitHubRevertMarker (rp_slug repo) (pr_number pullRequest)] of
           Inl err \<Rightarrow> (None, ''revert check of landing commit '' @ ShortSHA landing @ '' failed: '' @ err)
         | Inr reverted \<Rightarrow> if \<not> reverted then (Some pullRequest, ExactHeadReceiptNote) else diverged)
      else diverged)"

definition ClassifyLandingReceipt ::
  "inventory_ports \<Rightarrow> repository \<Rightarrow> branch_ref \<Rightarrow> string \<Rightarrow> string \<Rightarrow> pr_cache \<Rightarrow>
     (pull_request option \<times> string) \<times> pr_cache" where
  "ClassifyLandingReceipt p repo ref base targetSHA cache =
     (case cached_pull_requests p repo (ref_sha ref) cache of
        (Inl note, cache) \<Rightarrow> ((None, note), cache)
      | (Inr pullRequests, cache) \<Rightarrow>
          (case p_AbsorbingPR p pullRequests base of
             None \<Rightarrow> (None, ''no merged pull request into '' @ base @ '' names this head'')
           | Some pullRequest \<Rightarrow> prove_landing p repo ref targetSHA pullRequest, cache))"

text \<open>
  \<^verbatim>\<open>ClassifyAbsorbedOrUnique\<close>: the branch is absorbed when \<^verbatim>\<open>git cherry\<close> prints no plus line,
  or when its tree is the target's tree. A tree that cannot be read leaves the branch unique.
\<close>

definition ClassifyAbsorbedOrUnique ::
  "inventory_ports \<Rightarrow> string \<Rightarrow> string \<Rightarrow> string \<Rightarrow> (string, bool \<times> string \<times> nat) result" where
  "ClassifyAbsorbedOrUnique p repositoryPath targetSHA branchSHA =
     (case p_Git p repositoryPath [''cherry'', targetSHA, branchSHA] of
        Inl err \<Rightarrow> Inl err
      | Inr output \<Rightarrow>
          let uniqueCount = length (filter (\<lambda>line. HasPrefix line ''+'') (Split output LF)) in
          if uniqueCount = 0
            then Inr (True, ''git cherry '' @ ShortSHA targetSHA @ '' '' @ ShortSHA branchSHA @ '' reports 0 unique patches'', 0)
          else (case (p_CommitTree p repositoryPath branchSHA, p_CommitTree p repositoryPath targetSHA) of
              (Inr branchTree, Inr targetTree) \<Rightarrow>
                if branchTree = targetTree
                then Inr (True, ''tree '' @ ShortSHA branchTree @ '' identical to target tree '' @ ShortSHA targetTree, 0)
                else Inr (False, [], uniqueCount)
            | _ \<Rightarrow> Inr (False, [], uniqueCount)))"

definition absorbed_or_unique ::
  "branch_entry \<Rightarrow> bool \<Rightarrow> string \<Rightarrow> nat \<Rightarrow> string \<Rightarrow> string \<Rightarrow> branch_entry" where
  "absorbed_or_unique entry absorbed absorbedEvidence uniqueCount receiptNote absorbedByNote =
     (if absorbed then
        entry\<lparr>be_disposition := BranchAbsorbed, be_evidence := absorbedEvidence @ receiptNote @ absorbedByNote,
              be_reason := ''absorbed by patch-id or tree equality only; never eligible for --apply. '' @
                ''If this branch belongs to a WB task, run `wb worktree retire <task> --absorbed-by <pr-or-commit>`; '' @
                ''if it has no worktree, run `wb worktree retire <branch> --absorbed-by <pr-or-commit>`; '' @
                ''otherwise this requires an explicit human decision'' @ receiptNote @ absorbedByNote\<rparr>
      else
        entry\<lparr>be_disposition := BranchUnique,
              be_evidence := ''git cherry reports '' @ Itoa (int uniqueCount) @ '' unique patch(es) not upstream'' @
                receiptNote @ absorbedByNote\<rparr>)"

text \<open>The part of \<^verbatim>\<open>ClassifyBranch\<close> that looks for a landing receipt.\<close>

definition classify_receipt ::
  "inventory_ports \<Rightarrow> repository \<Rightarrow> inventory_sweep \<Rightarrow> branch_ref \<Rightarrow> string \<Rightarrow> pr_cache \<Rightarrow> branch_entry \<Rightarrow>
     bool \<times> string \<times> nat \<Rightarrow> string \<Rightarrow> (branch_entry \<times> pr_cache) option" where
  "classify_receipt p repo sweep ref targetSHA cache entry patches absorbedByNote =
     (case patches of (absorbed, absorbedEvidence, uniqueCount) \<Rightarrow>
      if \<not> sw_receipts sweep
        then Some (absorbed_or_unique entry absorbed absorbedEvidence uniqueCount [] absorbedByNote, cache)
      else case ClassifyLandingReceipt p repo ref (sw_base sweep) targetSHA cache of
        ((Some receipt, note), cache) \<Rightarrow>
          (case ReceiptedBranch entry (pr_merge_sha receipt) (Some receipt) [] of
             None \<Rightarrow> None
           | Some receipted \<Rightarrow>
               Some (if note = ExactHeadReceiptNote then
                       receipted\<lparr>be_exact_head := True,
                         be_evidence := ''merged pull request #'' @ Itoa (pr_number receipt) @ '' into '' @ be_base entry @
                           '' was opened from this exact head '' @ be_short_sha entry @ '' and landed it in full at '' @
                           ShortSHA (pr_merge_sha receipt) @
                           '', which is in the fetched target; nothing was committed after''\<rparr>
                     else receipted, cache))
      | ((None, note), cache) \<Rightarrow>
          Some (absorbed_or_unique entry absorbed absorbedEvidence uniqueCount (''; receipt: '' @ note) absorbedByNote, cache))"

text \<open>The part that compares content: ancestry, patches, the operator's pointer, then receipts.\<close>

definition unreadable :: "branch_entry \<Rightarrow> string \<Rightarrow> branch_entry" where
  "unreadable entry evidence = entry\<lparr>be_disposition := BranchUnreadable, be_evidence := evidence\<rparr>"

definition classify_content ::
  "inventory_ports \<Rightarrow> repository \<Rightarrow> inventory_sweep \<Rightarrow> branch_ref \<Rightarrow> string \<Rightarrow> pr_cache \<Rightarrow> branch_entry \<Rightarrow>
     (branch_entry \<times> pr_cache) option" where
  "classify_content p repo sweep ref targetSHA cache entry =
     (case p_IsAncestor p (rp_path repo) (ref_sha ref) targetSHA of
        Inl err \<Rightarrow> Some (unreadable entry (''merge-base --is-ancestor: '' @ err), cache)
      | Inr True \<Rightarrow> Some (entry\<lparr>be_disposition := BranchContained,
            be_evidence := ''merge-base --is-ancestor '' @ be_short_sha entry @ '' '' @ ShortSHA targetSHA\<rparr>, cache)
      | Inr False \<Rightarrow>
      (case ClassifyAbsorbedOrUnique p (rp_path repo) targetSHA (ref_sha ref) of
        Inl err \<Rightarrow> Some (unreadable entry (''git cherry: '' @ err), cache)
      | Inr patches \<Rightarrow>
          if sw_absorbed_by sweep = [] then classify_receipt p repo sweep ref targetSHA cache entry patches []
          else case p_AttestedReceipt p repo ref (sw_base sweep) targetSHA (sw_absorbed_by sweep) of
            Inl err \<Rightarrow> Some (unreadable entry (''--absorbed-by verification failed: '' @ err), cache)
          | Inr (Some receipt, rejection) \<Rightarrow>
              map_option (\<lambda>e. (e, cache))
                (ReceiptedBranch entry (vc_landing_sha receipt) (vc_pull_request receipt) (sw_absorbed_by sweep))
          | Inr (None, rejection) \<Rightarrow>
              classify_receipt p repo sweep ref targetSHA cache (entry\<lparr>be_absorbed_rejection := rejection\<rparr>) patches
                (''; --absorbed-by: '' @ rejection)))"

definition superseded_entry ::
  "inventory_ports \<Rightarrow> inventory_sweep \<Rightarrow> branch_entry \<Rightarrow> supersession_evidence \<Rightarrow> branch_entry" where
  "superseded_entry p sweep entry receipt =
     (let entry = entry\<lparr>be_disposition := BranchSuperseded, be_superseded_at_origin := True,
            be_supersession := (be_supersession entry)\<lparr>sn_receipt := sw_superseded_by sweep,
              sn_reviewer := se_reviewer receipt, sn_receipt_id := se_receipt_id receipt\<rparr>\<rparr> in
      case p_SupersessionDigest p (sw_superseded_by sweep) of
        Inl err \<Rightarrow> unreadable entry (''digest supersession receipt: '' @ err)
      | Inr digest \<Rightarrow> entry\<lparr>be_supersession := (be_supersession entry)\<lparr>sn_sha256 := digest\<rparr>,
            be_evidence := ''trusted reviewer receipt binds the exact source, target, replacements, and complete residual inventory''\<rparr>)"

definition new_entry :: "repository \<Rightarrow> inventory_sweep \<Rightarrow> branch_ref \<Rightarrow> string \<Rightarrow> string \<Rightarrow> branch_entry" where
  "new_entry repo sweep ref scope targetSHA = zero_entry
     \<lparr>be_repository := rp_slug repo, be_branch := ref_name ref, be_scope := scope, be_sha := ref_sha ref,
      be_short_sha := ShortSHA (ref_sha ref), be_committer_date := ref_date ref, be_base := sw_base sweep,
      be_target_sha := targetSHA\<rparr>"

definition in_use_entry :: "branch_entry \<Rightarrow> string option \<Rightarrow> branch_entry" where
  "in_use_entry entry claim =
     (case claim of
        Some task \<Rightarrow> entry\<lparr>be_disposition := BranchInUse, be_task := task,
          be_evidence := ''checked out or claimed by WB task '' @ task,
          be_reason := ''owned by wb worktree task '' @ task @ ''; use `wb worktree retire '' @ task @
            ''` or `wb worktree abort '' @ task @ ''`, never wb clean''\<rparr>
      | None \<Rightarrow> entry\<lparr>be_disposition := BranchInUse,
          be_evidence := ''checked out in a linked worktree'',
          be_reason := ''checked out in a linked worktree; wb clean never touches a working tree''\<rparr>)"

definition ClassifyBranch ::
  "inventory_ports \<Rightarrow> repository \<Rightarrow> inventory_sweep \<Rightarrow> branch_ref \<Rightarrow> string \<Rightarrow> string \<Rightarrow> string \<Rightarrow>
     (string \<rightharpoonup> string) \<Rightarrow> (string \<Rightarrow> bool) \<Rightarrow> pr_cache \<Rightarrow> (branch_entry \<times> pr_cache) option" where
  "ClassifyBranch p repo sweep ref scope targetSHA canonicalHEAD inUse checkedOut cache =
     (let entry = new_entry repo sweep ref scope targetSHA;
          claim = inUse (BranchInUseKey (rp_slug repo) (ref_name ref)) in
      if IsProtectedBranch (ref_name ref) (sw_base sweep) canonicalHEAD
        then Some (entry\<lparr>be_disposition := BranchProtected,
                         be_evidence := ProtectedEvidence (ref_name ref) (sw_base sweep) canonicalHEAD\<rparr>, cache)
      else if claim \<noteq> None \<or> checkedOut (ref_name ref) then Some (in_use_entry entry claim, cache)
      else if sw_superseded_by sweep = [] then classify_content p repo sweep ref targetSHA cache entry
      else case p_Supersession p (sw_superseded_by sweep) repo ref (sw_base sweep) targetSHA of
        (receipt, rejection) \<Rightarrow>
          if rejection = [] then
            (case receipt of None \<Rightarrow> None | Some r \<Rightarrow> Some (superseded_entry p sweep entry r, cache))
          else classify_content p repo sweep ref targetSHA cache
                 (entry\<lparr>be_supersession := (be_supersession entry)\<lparr>sn_rejection := rejection\<rparr>\<rparr>))"

section \<open>One repository\<close>

definition retired_skipped :: "inventory_sweep \<Rightarrow> branch_ref \<Rightarrow> bool" where
  "retired_skipped sweep ref \<longleftrightarrow>
     IsRetiredBranch (ref_name ref) \<and> \<not> sw_include_retired sweep \<and> sw_only sweep \<noteq> BranchRetired \<and>
     sw_branch sweep \<noteq> ref_name ref \<and> sw_name sweep = []"

fun inspect_local ::
  "inventory_ports \<Rightarrow> repository \<Rightarrow> inventory_sweep \<Rightarrow> string \<Rightarrow> string \<Rightarrow> (string \<rightharpoonup> string) \<Rightarrow> (string \<Rightarrow> bool) \<Rightarrow>
     branch_ref list \<Rightarrow> pr_cache \<Rightarrow> branch_entry list option" where
  "inspect_local p repo sweep targetSHA canonicalHEAD inUse checkedOut [] cache = Some []"
| "inspect_local p repo sweep targetSHA canonicalHEAD inUse checkedOut (ref # refs) cache =
     (if \<not> BranchNameSelected (Policy sweep) (ref_name ref) \<or> retired_skipped sweep ref
        then inspect_local p repo sweep targetSHA canonicalHEAD inUse checkedOut refs cache
      else case (if IsRetiredBranch (ref_name ref)
                 then Some (RetiredBranchEntry (rp_slug repo) (Policy sweep) ref BranchScopeLocal targetSHA, cache)
                 else ClassifyBranch p repo sweep ref BranchScopeLocal targetSHA canonicalHEAD inUse checkedOut cache) of
        None \<Rightarrow> None
      | Some (entry, cache) \<Rightarrow>
          map_option ((#) (DecorateBranchCommit p (rp_path repo) entry))
            (inspect_local p repo sweep targetSHA canonicalHEAD inUse checkedOut refs cache))"

definition wants_pull_requests :: "inventory_sweep \<Rightarrow> branch_entry \<Rightarrow> bool" where
  "wants_pull_requests sweep entry \<longleftrightarrow>
     sw_with_prs sweep \<and> be_disposition entry \<noteq> BranchProtected \<and> be_disposition entry \<noteq> BranchUnreadable \<or>
     sw_cleanup sweep \<and> EligibleBranchCleanupDisposition entry"

definition remote_entry ::
  "inventory_ports \<Rightarrow> repository \<Rightarrow> inventory_sweep \<Rightarrow> string \<Rightarrow> string \<Rightarrow> (string \<rightharpoonup> string) \<Rightarrow> (string \<Rightarrow> bool) \<Rightarrow>
     branch_ref \<Rightarrow> pr_cache \<Rightarrow> (string \<rightharpoonup> pull_request_evidence) \<Rightarrow>
     (branch_entry \<times> pr_cache \<times> (string \<rightharpoonup> pull_request_evidence)) option" where
  "remote_entry p repo sweep targetSHA canonicalHEAD inUse checkedOut ref cache prCache =
     (if IsRetiredBranch (ref_name ref)
        then Some (RetiredBranchEntry (rp_slug repo) (Policy sweep) ref BranchScopeRemote targetSHA, cache, prCache)
      else case ClassifyBranch p repo sweep ref BranchScopeRemote targetSHA canonicalHEAD inUse checkedOut cache of
        None \<Rightarrow> None
      | Some (entry, cache) \<Rightarrow>
          if wants_pull_requests sweep entry
          then (case DecorateRemoteBranchPullRequests p repo ref entry prCache (sw_with_prs sweep) of
                  (entry, prCache) \<Rightarrow> Some (entry, cache, prCache))
          else Some (entry, cache, prCache))"

fun inspect_remote ::
  "inventory_ports \<Rightarrow> repository \<Rightarrow> inventory_sweep \<Rightarrow> string \<Rightarrow> string \<Rightarrow> (string \<rightharpoonup> string) \<Rightarrow> (string \<Rightarrow> bool) \<Rightarrow>
     branch_ref list \<Rightarrow> pr_cache \<Rightarrow> (string \<rightharpoonup> pull_request_evidence) \<Rightarrow> branch_entry list option" where
  "inspect_remote p repo sweep targetSHA canonicalHEAD inUse checkedOut [] cache prCache = Some []"
| "inspect_remote p repo sweep targetSHA canonicalHEAD inUse checkedOut (ref # refs) cache prCache =
     (if \<not> BranchNameSelected (Policy sweep) (ref_name ref) \<or> retired_skipped sweep ref
        then inspect_remote p repo sweep targetSHA canonicalHEAD inUse checkedOut refs cache prCache
      else case remote_entry p repo sweep targetSHA canonicalHEAD inUse checkedOut ref cache prCache of
        None \<Rightarrow> None
      | Some (entry, cache, prCache) \<Rightarrow>
          map_option ((#) (DecorateBranchCommit p (rp_path repo) entry))
            (inspect_remote p repo sweep targetSHA canonicalHEAD inUse checkedOut refs cache prCache))"

definition noted :: "repository \<Rightarrow> string \<Rightarrow> string list" where
  "noted repo diagnostic = (if diagnostic = [] then [] else [rp_slug repo @ '': '' @ diagnostic])"

definition canonical_head :: "inventory_ports \<Rightarrow> string \<Rightarrow> string" where
  "canonical_head p repositoryPath =
     (case p_Git p repositoryPath [''rev-parse'', ''--abbrev-ref'', ''HEAD''] of Inl _ \<Rightarrow> [] | Inr head \<Rightarrow> TrimSpace head)"

definition InspectRepositoryBranches ::
  "inventory_ports \<Rightarrow> repository \<Rightarrow> inventory_sweep \<Rightarrow> (string \<rightharpoonup> string) \<Rightarrow> (branch_entry list \<times> string) option" where
  "InspectRepositoryBranches p repo sweep inUse =
     (case p_FetchTarget p (rp_path repo) (sw_base sweep) of
        Inl err \<Rightarrow>
          let evidence = ''fetch exact origin/'' @ sw_base sweep @ '' target: '' @ err in
          Some ([zero_entry\<lparr>be_repository := rp_slug repo, be_base := sw_base sweep,
                   be_disposition := BranchUnreadable, be_evidence := evidence\<rparr>],
                rp_slug repo @ '': '' @ evidence)
      | Inr targetSHA \<Rightarrow>
          let canonicalHEAD = canonical_head p (rp_path repo);
              checked = CheckedOutLocalBranches p (rp_path repo);
              locals = (if sw_scope sweep = BranchScopeLocal \<or> sw_scope sweep = BranchScopeAll then
                 (case ListLocalRefs p (rp_path repo) of (refs, diagnostic) \<Rightarrow>
                    map_option (\<lambda>es. (es, noted repo diagnostic @ noted repo (snd checked)))
                      (inspect_local p repo sweep targetSHA canonicalHEAD inUse (fst checked) refs (Some Map.empty)))
                 else Some ([], []));
              remotes = (if sw_scope sweep = BranchScopeRemote \<or> sw_scope sweep = BranchScopeAll then
                 (case ListRemoteRefs p (rp_path repo) of (refs, diagnostic) \<Rightarrow>
                    map_option (\<lambda>es. (es, noted repo diagnostic @ noted repo (snd checked)))
                      (inspect_remote p repo sweep targetSHA canonicalHEAD inUse (fst checked) refs (Some Map.empty) Map.empty))
                 else Some ([], []))
          in (case (locals, remotes) of
                (Some (es, ds), Some (es', ds')) \<Rightarrow> Some (es @ es', Join (ds @ ds') ''; '')
              | _ \<Rightarrow> None))"

section \<open>The fleet\<close>

definition IsGlob :: "string \<Rightarrow> bool" where
  "IsGlob filter' = list_ex (\<lambda>c. c = CHR ''*'' \<or> c = CHR ''?'' \<or> c = CHR ''['') filter'"

function globMatchesSuffix :: "string \<Rightarrow> string \<Rightarrow> bool" where
  "globMatchesSuffix pattern candidate =
     (if path_match pattern candidate = Inr True then True
      else case IndexByte candidate (CHR ''/'') of
        None \<Rightarrow> False
      | Some index \<Rightarrow> globMatchesSuffix pattern (drop (Suc index) candidate))"
  by pat_completeness auto

termination
  by (relation "measure (length \<circ> snd)") (auto dest: IndexByte_Some)

declare globMatchesSuffix.simps [simp del]

definition filter_Match :: "string \<Rightarrow> string list \<Rightarrow> bool" where
  "filter_Match filter' candidates =
     (if filter' = [] then True
      else let filter' = ToLower filter'; glob = IsGlob filter' in
      list_ex (\<lambda>candidate. candidate \<noteq> [] \<and>
        (if \<not> glob then Contains (ToLower candidate) filter' else globMatchesSuffix filter' (ToLower candidate)))
        candidates)"

definition DiscoverBranchRepositories :: "inventory_ports \<Rightarrow> string \<Rightarrow> string \<Rightarrow> (string, repository list) result" where
  "DiscoverBranchRepositories p projectsRoot filter' =
     (case p_Discover p projectsRoot of
        Inl err \<Rightarrow> Inl err
      | Inr repositories \<Rightarrow>
          if filter' = [] then Inr repositories
          else Inr (filter (\<lambda>r. filter_Match filter' [rp_slug r]) repositories))"

definition SelectBranchRepositories :: "repository list \<Rightarrow> string \<Rightarrow> string \<Rightarrow> (string, repository list) result" where
  "SelectBranchRepositories repositories repositorySlug org =
     (let selected = filter (\<lambda>r.
            (repositorySlug = [] \<or> rp_slug r = repositorySlug) \<and>
            (org = [] \<or> fst (Cut (rp_slug r) (CHR ''/'')) = org)) repositories in
      if repositorySlug \<noteq> [] \<and> selected = []
        then Inl (''selected repository '' @ CHR 0x22 # repositorySlug @ CHR 0x22 # '' was not discovered'')
      else Inr selected)"

definition BranchInUseIndex :: "inventory_ports \<Rightarrow> string \<Rightarrow> string \<Rightarrow> (string \<rightharpoonup> string) \<times> string" where
  "BranchInUseIndex p projectsRoot filter' =
     (case p_ListInUse p projectsRoot filter' of
        Inl err \<Rightarrow> (Map.empty, ''read WB worktree inventory: '' @ err)
      | Inr uses \<Rightarrow>
          (foldl (\<lambda>index use. index(BranchInUseKey (bu_repository use) (bu_branch use) \<mapsto> bu_task use)) Map.empty uses, []))"

fun inspect_all ::
  "inventory_ports \<Rightarrow> inventory_sweep \<Rightarrow> (string \<rightharpoonup> string) \<Rightarrow> repository list \<Rightarrow> (branch_entry list \<times> string list) option" where
  "inspect_all p sweep inUse [] = Some ([], [])"
| "inspect_all p sweep inUse (r # rs) =
     (case InspectRepositoryBranches p r sweep inUse of
        None \<Rightarrow> None
      | Some (entries, diagnostic) \<Rightarrow>
          map_option (\<lambda>(es, ds). (entries @ es, (if diagnostic = [] then [] else [diagnostic]) @ ds))
            (inspect_all p sweep inUse rs))"

definition ClassifyFleetBranchesWithPaths ::
  "inventory_ports \<Rightarrow> inventory_sweep \<Rightarrow>
     (string, branch_entry list \<times> string list \<times> (string \<rightharpoonup> string)) result option" where
  "ClassifyFleetBranchesWithPaths p sweep =
     (case DiscoverBranchRepositories p (sw_projects_root sweep) (sw_filter sweep) of
        Inl err \<Rightarrow> Some (Inl (''discover repositories below '' @ sw_projects_root sweep @ '': '' @ err))
      | Inr repositories \<Rightarrow>
      (case SelectBranchRepositories repositories (sw_repository sweep) (sw_org sweep) of
        Inl err \<Rightarrow> Some (Inl err)
      | Inr repositories \<Rightarrow>
          let paths = foldl (\<lambda>m r. m(rp_slug r \<mapsto> rp_path r)) Map.empty repositories in
          (case BranchInUseIndex p (sw_projects_root sweep) (sw_filter sweep) of (inUse, diagnostic) \<Rightarrow>
             map_option (\<lambda>(entries, ds).
                 Inr (entries, (if diagnostic = [] then [] else [diagnostic]) @ ds, paths))
               (inspect_all p sweep inUse repositories))))"

end
