(* ===== verification/Branch_Cleanup.thy ===== *)
theory Branch_Cleanup
  imports Branch_Classify Go_Filepath
begin

text \<open>
  Applying a branch cleanup: \<^verbatim>\<open>internal/worktrees/branches_cleanup.go\<close> (the coordinator, the
  archive of a superseded branch, the rechecks before each deletion),
  \<^verbatim>\<open>internal/worktrees/branches_peer.go\<close> and
  \<^verbatim>\<open>internal/worktreebranches/peer_evidence.go\<close> (evidence from other hosts).

  Each candidate is rechecked against its own fresh observations, an \<open>apply_env\<close>. What a run
  does to refs is the list of Git commands it issues, each with the directory it runs in; an
  error value is its text, and \<open>None\<close> is \<^verbatim>\<open>nil\<close>. The options are those after
  \<^verbatim>\<open>normalizeBranchCleanupOptions\<close>.
\<close>

section \<open>Evidence from other hosts\<close>

definition peerEvidenceMaximumAge :: duration where
  "peerEvidenceMaximumAge = 5 * minute"

record peer_evidence =
  pe_path :: string
  pe_host :: string
  pe_generated_at :: go_time
  pe_repository :: string
  pe_branch :: string
  pe_base :: string
  pe_diagnostics :: "string list"
  pe_entries :: "branch_entry list"

record peer_validation =
  pv_local_host :: string
  pv_repository :: string
  pv_branch :: string
  pv_base :: string
  pv_require_hosts :: "string list"
  pv_evidence :: "peer_evidence list"
  pv_results :: "cleanup_result list"
  pv_now :: go_time

definition planned_remote :: "peer_validation \<Rightarrow> cleanup_result option" where
  "planned_remote rq =
     List.find (\<lambda>r. be_repository (cr_entry r) = pv_repository rq \<and> be_branch (cr_entry r) = pv_branch rq \<and>
       be_scope (cr_entry r) = BranchScopeRemote) (pv_results rq)"

definition check_peer :: "peer_validation \<Rightarrow> string list \<Rightarrow> peer_evidence \<Rightarrow> string option" where
  "check_peer rq seen ev =
     (if pe_host ev = [] \<or> pe_host ev \<notin> set (pv_require_hosts rq) \<or> pe_host ev \<in> set seen
        then Some (''peer evidence '' @ pe_path ev @ '' has missing, unrequired, or duplicate host'')
      else if is_zero_time (pe_generated_at ev) \<or> pe_generated_at ev > pv_now rq \<or>
              time_sub (pv_now rq) (pe_generated_at ev) > peerEvidenceMaximumAge
        then Some (''peer evidence for '' @ pe_host ev @ '' is stale or future-dated'')
      else if pe_repository ev \<noteq> pv_repository rq \<or> pe_branch ev \<noteq> pv_branch rq \<or> pe_base ev \<noteq> pv_base rq \<or>
              pe_diagnostics ev \<noteq> [] \<or> length (pe_entries ev) \<noteq> 1
        then Some (''peer evidence for '' @ pe_host ev @ '' is not a complete exact branch inventory'')
      else let entry = pe_entries ev ! 0 in
      if be_repository entry \<noteq> pv_repository rq \<or> be_branch entry \<noteq> pv_branch rq \<or> be_base entry \<noteq> pv_base rq \<or>
         be_scope entry \<noteq> BranchScopeRemote \<or> \<not> PeerEvidenceSafeDisposition (be_disposition entry)
        then Some (''peer evidence for '' @ pe_host ev @ '' reports unsafe branch state'')
      else case planned_remote rq of
          None \<Rightarrow> Some (''peer evidence for '' @ pe_host ev @ '' does not match planned branch head'')
        | Some planned \<Rightarrow>
            if be_sha entry \<noteq> be_sha (cr_entry planned) \<or> be_target_sha entry \<noteq> be_target_sha (cr_entry planned)
            then Some (''peer evidence for '' @ pe_host ev @ '' does not match planned branch head'')
            else None)"

fun check_peers :: "peer_validation \<Rightarrow> string list \<Rightarrow> peer_evidence list \<Rightarrow> (string, string list) result" where
  "check_peers rq seen [] = Inr seen"
| "check_peers rq seen (ev # evs) =
     (case check_peer rq seen ev of Some err \<Rightarrow> Inl err | None \<Rightarrow> check_peers rq (pe_host ev # seen) evs)"

text \<open>
  The last loop ranges over a map; when several hosts are missing, which of them the message
  names is not determined by the code. The model names the first one required.
\<close>

definition ValidatePeerEvidence :: "peer_validation \<Rightarrow> string option" where
  "ValidatePeerEvidence rq =
     (if pv_evidence rq = [] \<and> pv_require_hosts rq = [] then None
      else if pv_local_host rq \<notin> set (pv_require_hosts rq)
        then Some (''--require-host must include local host '' @ CHR 0x22 # pv_local_host rq @ [CHR 0x22])
      else case check_peers rq [] (pv_evidence rq) of
          Inl err \<Rightarrow> Some err
        | Inr seen \<Rightarrow>
            map_option (\<lambda>host. ''required peer evidence for host '' @ host @ '' is missing'')
              (List.find (\<lambda>host. host \<notin> set seen) (pv_require_hosts rq)))"

section \<open>Options and observations of an apply\<close>

record cleanup_options =
  co_projects_root :: string
  co_base :: string
  co_scope :: string
  co_older_than :: duration
  co_filter :: string
  co_repository :: string
  co_branch :: string
  co_receipts :: bool
  co_absorbed_by :: string
  co_superseded_by :: string
  co_peer_evidence :: "string list"
  co_require_hosts :: "string list"
  co_only :: string
  co_apply :: bool
  co_report_dir :: string

record recovery_manifest =
  rm_repository :: string
  rm_branch :: string
  rm_head :: string
  rm_target :: string
  rm_receipt :: string
  rm_receipt_sha256 :: string
  rm_bundle :: string
  rm_bundle_sha256 :: string
  rm_restored_head :: string
  rm_verified_at :: go_time

text \<open>The I/O of one archive attempt; the file modes are those of the code.\<close>

record archive_io =
  io_mkdirAll :: "string \<Rightarrow> string option"
  io_mkdirTemp :: "string \<Rightarrow> string \<Rightarrow> (string, string) result"
  io_chmod :: "string \<Rightarrow> string option"
  io_syncAncestors :: "string \<Rightarrow> string option"
  io_syncDirectory :: "string \<Rightarrow> string option"
  io_syncFile :: "string \<Rightarrow> string option"
  io_git :: "string \<Rightarrow> string list \<Rightarrow> (string, string) result"
  io_fileSHA256 :: "string \<Rightarrow> (string, string) result"
  io_copyFileSHA256 :: "string \<Rightarrow> string \<Rightarrow> (string, string) result"
  io_writeDurableFile :: "string \<Rightarrow> string \<Rightarrow> string option"
  io_now :: go_time
  io_validateReportDir :: "string \<Rightarrow> (string \<times> string) list \<Rightarrow> string option"
  io_marshal :: "recovery_manifest \<Rightarrow> (string, string) result"

record apply_env =
  ae_ports :: inventory_ports
  ae_archive :: archive_io
  ae_host_name :: "(string, string) result"
  ae_read_file :: "string \<Rightarrow> (string, string) result"
  ae_decode_peer :: "string \<Rightarrow> (string, peer_evidence) result"
  ae_decode_fork :: "string \<Rightarrow> (string, bool option) result"
  ae_open_canonical :: "string \<Rightarrow> string option"
  ae_run :: "string \<Rightarrow> string list \<Rightarrow> string option"
  ae_now :: go_time

section \<open>Reading evidence\<close>

definition BranchEvidenceHost :: "(string, string) result \<Rightarrow> string" where
  "BranchEvidenceHost hostName =
     (case hostName of Inl _ \<Rightarrow> ''unknown'' | Inr host \<Rightarrow> if TrimSpace host = [] then ''unknown'' else TrimSpace host)"

definition read_peer :: "apply_env \<Rightarrow> string \<Rightarrow> (string, peer_evidence) result" where
  "read_peer env path =
     (case ae_read_file env path of
        Inl err \<Rightarrow> Inl (''read peer evidence '' @ path @ '': '' @ err)
      | Inr raw \<Rightarrow>
          (case ae_decode_peer env raw of
             Inl err \<Rightarrow> Inl (''decode peer evidence '' @ path @ '': '' @ err)
           | Inr decoded \<Rightarrow> Inr (decoded\<lparr>pe_path := path\<rparr>)))"

definition validatePeerEvidence :: "apply_env \<Rightarrow> cleanup_options \<Rightarrow> cleanup_result list \<Rightarrow> go_time \<Rightarrow> string option" where
  "validatePeerEvidence env options results now =
     (if co_peer_evidence options = [] \<and> co_require_hosts options = [] then None
      else case map_result (read_peer env) (co_peer_evidence options) of
          Inl err \<Rightarrow> Some err
        | Inr evidence \<Rightarrow>
            ValidatePeerEvidence \<lparr>pv_local_host = BranchEvidenceHost (ae_host_name env),
              pv_repository = co_repository options, pv_branch = co_branch options, pv_base = co_base options,
              pv_require_hosts = co_require_hosts options, pv_evidence = evidence, pv_results = results, pv_now = now\<rparr>)"

definition admitReviewedRemoteForkMetadata :: "apply_env \<Rightarrow> string \<Rightarrow> string \<Rightarrow> string option" where
  "admitReviewedRemoteForkMetadata env raw repo =
     (case ae_decode_fork env raw of
        Inl err \<Rightarrow> Some (''decode repository fork status: '' @ err)
      | Inr None \<Rightarrow> Some ''repository fork status is missing''
      | Inr (Some True) \<Rightarrow> Some (''reviewed remote retirement refuses fork repository '' @ repo @
          '' because upstream pull-request ownership cannot be proven'')
      | Inr (Some False) \<Rightarrow> None)"

text \<open>The query runs through the same GitHub observer as the port of the pull-request API.\<close>

definition reviewedRemoteForkGuard :: "apply_env \<Rightarrow> string \<Rightarrow> string \<Rightarrow> string option" where
  "reviewedRemoteForkGuard env repositoryPath repo =
     (case p_PullRequestAPI (ae_ports env) repositoryPath (''repos/'' @ repo) of
        Inl err \<Rightarrow> Some (''query repository fork status: '' @ err)
      | Inr raw \<Rightarrow> admitReviewedRemoteForkMetadata env raw repo)"

definition RemoteBranchHead :: "inventory_ports \<Rightarrow> string \<Rightarrow> string \<Rightarrow> (string, string) result" where
  "RemoteBranchHead p repositoryPath branch =
     (case p_Git p repositoryPath [''ls-remote'', ''--heads'', ''origin'', ''refs/heads/'' @ branch] of
        Inl err \<Rightarrow> Inl err
      | Inr output \<Rightarrow>
          let fields = Fields output in
          if fields = [] then Inr []
          else if length fields \<noteq> 2
            then Inl (''unexpected remote branch response for '' @ branch @ '': '' @ CHR 0x22 # output @ [CHR 0x22])
          else Inr (fields ! 0))"

definition withCause :: "string \<Rightarrow> string option \<Rightarrow> string" where
  "withCause message err = (case err of None \<Rightarrow> message | Some e \<Rightarrow> message @ '': '' @ e)"

text \<open>\<^verbatim>\<open>landingReverted\<close>, the production value of the port \<^verbatim>\<open>LandingReverted\<close>, over a Git query.\<close>

definition landingReverted ::
  "(string \<Rightarrow> string list \<Rightarrow> (string, string) result) \<Rightarrow> string \<Rightarrow> string \<Rightarrow> string \<Rightarrow> string list \<Rightarrow> (string, bool) result" where
  "landingReverted git repositoryPath landing target markers =
     (case git repositoryPath [''diff'', ''--no-renames'', ''--name-only'', ''-z'', landing @ ''^'', landing] of
        Inl err \<Rightarrow> Inl err
      | Inr changed \<Rightarrow>
          let trimmed = TrimSet [CHR 0x00, LF] changed in
          if trimmed = [] then Inr False
          else case git repositoryPath
              ([''log'', ''--format=%H'', ''--fixed-strings'', ''--regexp-ignore-case'',
                ''--grep=This reverts commit '' @ landing] @ map (\<lambda>m. ''--grep='' @ m) markers @ [landing @ ''..'' @ target]) of
            Inl err \<Rightarrow> Inl err
          | Inr named \<Rightarrow>
          (case git repositoryPath
              ([''diff'', ''--no-renames'', ''--name-only'', landing @ ''^'', target, ''--''] @ Split trimmed (CHR 0x00)) of
            Inl err \<Rightarrow> Inl err
          | Inr remaining \<Rightarrow> Inr (TrimSpace named \<noteq> [] \<or> TrimSpace remaining = [])))"

definition ContentAbsorbed :: "inventory_ports \<Rightarrow> string \<Rightarrow> string \<Rightarrow> string \<Rightarrow> string \<Rightarrow> (string, bool) result" where
  "ContentAbsorbed p repositoryPath head landingSHA target =
     (case p_ContentContained p repositoryPath head landingSHA of
        Inl err \<Rightarrow> Inl err
      | Inr False \<Rightarrow> Inr False
      | Inr True \<Rightarrow> p_ContentContained p repositoryPath head target)"

section \<open>Rechecks\<close>

text \<open>A recheck that fails marks the result as failed with the text it returns.\<close>

definition recheckExactHeadReceipt :: "inventory_ports \<Rightarrow> string \<Rightarrow> string \<Rightarrow> string \<Rightarrow> branch_entry \<Rightarrow> string option" where
  "recheckExactHeadReceipt p repositoryPath currentSHA freshTarget e =
     (case be_receipt_pr e of
        None \<Rightarrow> Some ''branch is no longer the exact head of the merged pull request it was planned against; refusing''
      | Some pr \<Rightarrow>
          if pr_head_sha pr \<noteq> currentSHA
            then Some ''branch is no longer the exact head of the merged pull request it was planned against; refusing''
          else let carriedMessage = ''landing commit '' @ ShortSHA (be_landing_sha e) @ '' no longer carries this branch'' @
                     CHR 0x27 # ''s work in full'';
                   revertedMessage = ''landing commit '' @ ShortSHA (be_landing_sha e) @
                     '' was reverted on the freshly fetched target, or the revert check could not run; refusing'' in
          case p_ContentContained p repositoryPath currentSHA (be_landing_sha e) of
            Inl err \<Rightarrow> Some (withCause carriedMessage (Some err))
          | Inr False \<Rightarrow> Some (withCause carriedMessage None)
          | Inr True \<Rightarrow>
          (case p_LandingReverted p repositoryPath (be_landing_sha e) freshTarget
                  [GitHubRevertMarker (be_repository e) (pr_number pr)] of
            Inl err \<Rightarrow> Some (withCause revertedMessage (Some err))
          | Inr True \<Rightarrow> Some (withCause revertedMessage None)
          | Inr False \<Rightarrow> None))"

definition ref_of :: "string \<Rightarrow> string \<Rightarrow> branch_ref" where
  "ref_of name sha = \<lparr>ref_name = name, ref_sha = sha, ref_date = 0, ref_unknown_date = False, ref_author = [], ref_title = []\<rparr>"

definition recheckDeletionEvidence :: "inventory_ports \<Rightarrow> string \<Rightarrow> string \<Rightarrow> string \<Rightarrow> branch_entry \<Rightarrow> string option" where
  "recheckDeletionEvidence p repositoryPath currentSHA freshTarget e =
     (if be_superseded_at_origin e then
        (if p_SupersessionDigest p (sn_receipt (be_supersession e)) \<noteq> Inr (sn_sha256 (be_supersession e))
           then Some ''supersession receipt bytes changed after planning; refusing''
         else let rejection = snd (p_Supersession p (sn_receipt (be_supersession e))
                    \<lparr>rp_slug = be_repository e, rp_path = repositoryPath\<rparr> (ref_of (be_branch e) currentSHA) (be_base e) freshTarget)
           in if rejection \<noteq> [] then Some rejection else None)
      else if be_disposition e = BranchReceipted then
        (if \<not> IsGitObjectID (be_landing_sha e) then Some ''receipted plan carries no landing commit; refusing''
         else case p_IsAncestor p repositoryPath (be_landing_sha e) freshTarget of
           Inl err \<Rightarrow> Some (''recheck landing containment: '' @ err)
         | Inr False \<Rightarrow> Some (''landing commit '' @ ShortSHA (be_landing_sha e) @
             '' is no longer contained in the freshly fetched target'')
         | Inr True \<Rightarrow>
         if be_exact_head e then recheckExactHeadReceipt p repositoryPath currentSHA freshTarget e
         else (case ContentAbsorbed p repositoryPath currentSHA (be_landing_sha e) freshTarget of
             Inl err \<Rightarrow> Some (''recheck receipt proof: '' @ err)
           | Inr False \<Rightarrow> Some ''receipt no longer holds against the freshly fetched target; the work may have been reverted''
           | Inr True \<Rightarrow> None))
      else (case p_IsAncestor p repositoryPath currentSHA freshTarget of
             Inl err \<Rightarrow> Some (''recheck containment: '' @ err)
           | Inr False \<Rightarrow> Some ''branch is no longer an ancestor of the freshly fetched target''
           | Inr True \<Rightarrow> None))"

definition recheckBranchRetirementGuards :: "inventory_ports \<Rightarrow> string \<Rightarrow> string \<Rightarrow> branch_entry \<Rightarrow> string option" where
  "recheckBranchRetirementGuards p projectsRoot repositoryPath e =
     (case p_Git p repositoryPath [''rev-parse'', ''--abbrev-ref'', ''HEAD''] of
        Inl err \<Rightarrow> Some (''recheck canonical HEAD: '' @ err)
      | Inr head \<Rightarrow>
          if IsProtectedBranch (be_branch e) (be_base e) (TrimSpace head) then Some ''branch is now protected; refusing deletion''
          else case CheckedOutLocalBranches p repositoryPath of (checkedOut, diagnostic) \<Rightarrow>
          if diagnostic \<noteq> [] then Some diagnostic
          else case (if projectsRoot \<noteq> [] then BranchInUseIndex p projectsRoot [] else (Map.empty, [])) of (claims, diagnostic) \<Rightarrow>
          if diagnostic \<noteq> [] then Some diagnostic
          else if claims (BranchInUseKey (be_repository e) (be_branch e)) \<noteq> None
            then Some ''branch became claimed by a live WB work log''
          else if checkedOut (be_branch e) then Some ''branch became checked out in a linked worktree''
          else None)"

section \<open>The archive of a superseded branch\<close>

text \<open>Run a check that may fail, then go on.\<close>

definition ensure :: "string option \<Rightarrow> (string, 'a) result \<Rightarrow> (string, 'a) result" where
  "ensure err k = (case err of Some e \<Rightarrow> Inl e | None \<Rightarrow> k)"

definition and_then :: "(string, 'a) result \<Rightarrow> ('a \<Rightarrow> (string, 'b) result) \<Rightarrow> (string, 'b) result" where
  "and_then r k = (case r of Inl e \<Rightarrow> Inl e | Inr x \<Rightarrow> k x)"

definition archive_key :: "string \<Rightarrow> string \<Rightarrow> string" where
  "archive_key repo branch =
     map (\<lambda>c. if c = CHR ''/'' \<or> c = CHR 0x5C then CHR ''_'' else c) (repo @ ''--'' @ branch @ ''-'')"

definition verify_bundle :: "archive_io \<Rightarrow> string \<Rightarrow> string \<Rightarrow> string \<Rightarrow> (string, string) result" where
  "verify_bundle io bundle sourceRef sha =
     and_then (io_mkdirTemp io [] ''wb-reviewed-branch-verify-'') (\<lambda>verify.
     and_then (io_git io verify [''init'', ''--bare'']) (\<lambda>_.
     and_then (io_git io verify [''fetch'', bundle, sourceRef @ '':refs/heads/recovery'']) (\<lambda>_.
     and_then (io_git io verify [''rev-parse'', ''refs/heads/recovery'']) (\<lambda>restored.
     if TrimSpace restored \<noteq> sha
       then Inl (''restored head '' @ TrimSpace restored @ '' does not match '' @ sha)
     else Inr (TrimSpace restored)))))"

definition archiveReviewedBranchWithIO :: "string \<Rightarrow> string \<Rightarrow> branch_entry \<Rightarrow> archive_io \<Rightarrow> (string, string) result" where
  "archiveReviewedBranchWithIO reportDir repositoryPath e io =
     ensure (io_validateReportDir io reportDir [(be_repository e, repositoryPath)]) (
     let recoveryRoot = filepath_Join [reportDir, ''recovery''] in
     ensure (io_mkdirAll io recoveryRoot) (
     ensure (io_syncAncestors io recoveryRoot) (
     and_then (io_mkdirTemp io recoveryRoot (archive_key (be_repository e) (be_branch e))) (\<lambda>dir.
     ensure (io_chmod io dir) (
     ensure (io_syncDirectory io recoveryRoot) (
     let bundle = filepath_Join [dir, ''source.bundle''];
         sourceRef = (if be_scope e = BranchScopeRemote then ''refs/remotes/origin/'' else ''refs/heads/'') @ be_branch e in
     and_then (io_git io repositoryPath [''bundle'', ''create'', bundle, sourceRef]) (\<lambda>_.
     ensure (io_chmod io bundle) (
     ensure (io_syncFile io bundle) (
     and_then (io_fileSHA256 io bundle) (\<lambda>bundleDigest.
     and_then (io_copyFileSHA256 io (sn_receipt (be_supersession e)) (filepath_Join [dir, ''supersession.json''])) (\<lambda>receiptDigest.
     if sn_sha256 (be_supersession e) = [] \<or> receiptDigest \<noteq> sn_sha256 (be_supersession e)
       then Inl ''supersession receipt bytes changed after planning''
     else and_then (verify_bundle io bundle sourceRef (be_sha e)) (\<lambda>restored.
     and_then (io_marshal io \<lparr>rm_repository = be_repository e, rm_branch = be_branch e, rm_head = be_sha e,
         rm_target = be_target_sha e, rm_receipt = ''supersession.json'', rm_receipt_sha256 = receiptDigest,
         rm_bundle = ''source.bundle'', rm_bundle_sha256 = bundleDigest, rm_restored_head = restored,
         rm_verified_at = io_now io\<rparr>) (\<lambda>data.
     ensure (io_writeDurableFile io (filepath_Join [dir, ''manifest.json'']) (data @ [LF])) (
     ensure (io_syncDirectory io dir) (
     ensure (io_syncDirectory io recoveryRoot) (Inr dir))))))))))))))))"

section \<open>Deleting one candidate\<close>

type_synonym command = "string \<times> string list"

definition local_delete :: "string \<Rightarrow> string \<Rightarrow> string list" where
  "local_delete branch sha = [''update-ref'', ''-d'', ''refs/heads/'' @ branch, sha]"

definition remote_delete :: "string \<Rightarrow> string \<Rightarrow> string list" where
  "remote_delete branch sha =
     [''push'', ''--force-with-lease=refs/heads/'' @ branch @ '':'' @ sha, ''origin'', '':refs/heads/'' @ branch]"

definition invokeCleanupExactRefDelete :: "bool \<Rightarrow> string \<Rightarrow> string \<Rightarrow> string list" where
  "invokeCleanupExactRefDelete remote branch expectedSHA =
     (if remote then remote_delete branch expectedSHA else local_delete branch expectedSHA)"

definition failed :: "cleanup_result \<Rightarrow> string \<Rightarrow> cleanup_result" where
  "failed r err = r\<lparr>cr_outcome := ''failed'', cr_error := err\<rparr>"

definition delete_ref :: "apply_env \<Rightarrow> string \<Rightarrow> bool \<Rightarrow> string \<Rightarrow> string \<Rightarrow> cleanup_result \<Rightarrow> cleanup_result \<times> command list" where
  "delete_ref env repositoryPath remote label sha r =
     (let branch = be_branch (cr_entry r); args = invokeCleanupExactRefDelete remote branch sha in
      (case ae_run env repositoryPath args of
         Some err \<Rightarrow> failed r (label @ '' refs/heads/'' @ branch @ '': '' @ err)
       | None \<Rightarrow> r\<lparr>cr_applied := True, cr_outcome := ''deleted''\<rparr>, [(repositoryPath, args)]))"

definition applyLocalBranchDeletion ::
  "apply_env \<Rightarrow> string \<Rightarrow> cleanup_options \<Rightarrow> cleanup_result \<Rightarrow> cleanup_result \<times> command list" where
  "applyLocalBranchDeletion env repositoryPath options r =
     (let p = ae_ports env; e = cr_entry r in
      case p_FetchTarget p repositoryPath (be_base e) of
        Inl err \<Rightarrow> (failed r (''refetch exact origin/'' @ be_base e @ '' target: '' @ err), [])
      | Inr freshTarget \<Rightarrow>
      let r = r\<lparr>cr_entry := e\<lparr>be_target_sha := freshTarget\<rparr>\<rparr> in
      case p_Git p repositoryPath [''rev-parse'', ''--verify'', ''refs/heads/'' @ be_branch e] of
        Inl err \<Rightarrow> (failed r (''branch no longer exists: '' @ err), [])
      | Inr output \<Rightarrow>
      let currentSHA = TrimSpace output in
      if currentSHA \<noteq> be_sha e
        then (failed r (''branch moved from '' @ ShortSHA (be_sha e) @ '' to '' @ ShortSHA currentSHA @
                        '' between plan and apply; refusing''), [])
      else case recheckBranchRetirementGuards p (co_projects_root options) repositoryPath e of
        Some err \<Rightarrow> (failed r err, [])
      | None \<Rightarrow>
      (case recheckDeletionEvidence p repositoryPath currentSHA freshTarget e of
        Some err \<Rightarrow> (failed r err, [])
      | None \<Rightarrow>
      (case ae_open_canonical env repositoryPath of
        Some err \<Rightarrow> (failed r (''open canonical repository: '' @ err), [])
      | None \<Rightarrow> delete_ref env repositoryPath False ''compare-and-delete'' currentSHA r)))"

definition recheck_pull_requests :: "apply_env \<Rightarrow> string \<Rightarrow> branch_entry \<Rightarrow> string option" where
  "recheck_pull_requests env repositoryPath e =
     (let ev = OpenBranchPullRequests (ae_ports env) \<lparr>rp_slug = be_repository e, rp_path = repositoryPath\<rparr> (be_branch e) in
      case ev_err ev of
        Some err \<Rightarrow> Some (''recheck pull-request evidence: '' @ err)
      | None \<Rightarrow>
      (case ev_open_head ev of
        Some pr \<Rightarrow> Some (''branch became the head of open pull request '' @ pr_url pr)
      | None \<Rightarrow>
      (case ev_open_base ev of
        Some pr \<Rightarrow> Some (''branch became the base of open pull request '' @ pr_url pr)
      | None \<Rightarrow> None)))"

definition applyRemoteBranchDeletion ::
  "apply_env \<Rightarrow> string \<Rightarrow> cleanup_options \<Rightarrow> cleanup_result \<Rightarrow> cleanup_result \<times> command list" where
  "applyRemoteBranchDeletion env repositoryPath options r =
     (let p = ae_ports env; e = cr_entry r in
      case p_Git p repositoryPath [''fetch'', ''--prune'', ''origin'', ''+refs/heads/*:refs/remotes/origin/*''] of
        Inl err \<Rightarrow> (failed r (''refetch --prune origin: '' @ err), [])
      | Inr _ \<Rightarrow>
      case p_FetchTarget p repositoryPath (be_base e) of
        Inl err \<Rightarrow> (failed r (''refetch exact origin/'' @ be_base e @ '' target: '' @ err), [])
      | Inr freshTarget \<Rightarrow>
      let r = r\<lparr>cr_entry := e\<lparr>be_target_sha := freshTarget\<rparr>\<rparr> in
      case RemoteBranchHead p repositoryPath (be_branch e) of
        Inl err \<Rightarrow> (failed r (''re-resolve remote branch: '' @ err), [])
      | Inr observedSHA \<Rightarrow>
      if observedSHA = [] then (failed r ''remote branch no longer exists'', [])
      else if observedSHA \<noteq> be_sha e
        then (failed r (''remote branch moved from '' @ ShortSHA (be_sha e) @ '' to '' @ ShortSHA observedSHA @
                        '' between plan and apply; refusing''), [])
      else case recheckBranchRetirementGuards p (co_projects_root options) repositoryPath e of
        Some err \<Rightarrow> (failed r err, [])
      | None \<Rightarrow>
      (case recheckDeletionEvidence p repositoryPath observedSHA freshTarget e of
        Some err \<Rightarrow> (failed r err, [])
      | None \<Rightarrow>
      (case recheck_pull_requests env repositoryPath e of
        Some err \<Rightarrow> (failed r err, [])
      | None \<Rightarrow>
      (case (if be_superseded_at_origin e then reviewedRemoteForkGuard env repositoryPath (be_repository e) else None) of
        Some err \<Rightarrow> (failed r err, [])
      | None \<Rightarrow>
      (case ae_open_canonical env repositoryPath of
        Some err \<Rightarrow> (failed r (''open canonical repository: '' @ err), [])
      | None \<Rightarrow>
      (case validatePeerEvidence env options [r] (ae_now env) of
        Some err \<Rightarrow> (failed r (''recheck peer evidence immediately before remote deletion: '' @ err), [])
      | None \<Rightarrow> delete_ref env repositoryPath True ''force-with-lease delete'' observedSHA r))))))"

section \<open>The coordinator\<close>

definition apply_candidate ::
  "apply_env \<Rightarrow> (string \<rightharpoonup> string) \<Rightarrow> cleanup_options \<Rightarrow> cleanup_result \<Rightarrow> cleanup_result \<times> command list" where
  "apply_candidate env paths options r =
     (if \<not> cr_eligible r then (r, [])
      else case paths (be_repository (cr_entry r)) of
        None \<Rightarrow> (failed r ''repository path was not retained from the plan'', [])
      | Some path \<Rightarrow>
      let apply = (\<lambda>r. if be_scope (cr_entry r) = BranchScopeLocal then applyLocalBranchDeletion env path options r
                       else applyRemoteBranchDeletion env path options r) in
      if be_superseded_at_origin (cr_entry r) then
        (case archiveReviewedBranchWithIO (co_report_dir options) path (cr_entry r) (ae_archive env) of
           Inl err \<Rightarrow> (failed r (''create verified recovery bundle: '' @ err), [])
         | Inr bundle \<Rightarrow> apply (r\<lparr>cr_recovery_bundle := bundle\<rparr>))
      else apply r)"

text \<open>The n-th candidate is applied under the n-th environment.\<close>

fun applyBranchCleanup ::
  "apply_env list \<Rightarrow> cleanup_result list \<Rightarrow> (string \<rightharpoonup> string) \<Rightarrow> cleanup_options \<Rightarrow> cleanup_result list \<times> command list" where
  "applyBranchCleanup (env # envs) (r # rs) paths options =
     (case apply_candidate env paths options r of (r', cs) \<Rightarrow>
      case applyBranchCleanup envs rs paths options of (rs', cs') \<Rightarrow> (r' # rs', cs @ cs'))"
| "applyBranchCleanup envs rs paths options = (rs, [])"

definition CleanClassSelected :: "string \<Rightarrow> string \<Rightarrow> bool" where
  "CleanClassSelected only class =
     (if only = [] then True
      else if only = ''landed'' then
        class \<in> {''contained'', ''landed-clean'', ''landed-residue'', ''detached-review'', BranchReceipted, BranchSuperseded}
      else only = class)"

definition report_stamp :: "go_time \<Rightarrow> string" where
  "report_stamp t =
     (let ns = t mod ns_per_day; sec = ns div 1000000000 in
      yyyymmdd t @ ''T'' @ append_int (sec div 3600) 2 @ append_int (sec div 60 mod 60) 2 @ append_int (sec mod 60) 2 @
      ''.'' @ append_int (ns mod 1000000000) 9 @ ''Z'')"

definition DefaultBranchCleanupReportDir :: "string \<Rightarrow> go_time \<Rightarrow> string" where
  "DefaultBranchCleanupReportDir home now = filepath_Join [home, ''reports'', ''branch-cleanup'', report_stamp now]"

record coordinator_env =
  ce_ports :: inventory_ports
  ce_now :: go_time
  ce_home :: "(string, string) result"
  ce_validateReportDir :: "string \<Rightarrow> (string \<rightharpoonup> string) \<Rightarrow> string option"
  ce_write_plan :: "string \<Rightarrow> cleanup_result list \<Rightarrow> (string, string) result"
  ce_write_outcome :: "string \<Rightarrow> cleanup_result list \<Rightarrow> (string, string) result"
  ce_peer :: apply_env
  ce_applies :: "nat \<Rightarrow> apply_env"

record cleanup_outcome =
  out_base :: string
  out_scope :: string
  out_apply :: bool
  out_results :: "cleanup_result list"
  out_diagnostics :: "string list"
  out_totals :: "string \<Rightarrow> nat"
  out_report_path :: string

definition cleanup_sweep :: "cleanup_options \<Rightarrow> go_time \<Rightarrow> inventory_sweep" where
  "cleanup_sweep options now =
     \<lparr>sw_projects_root = co_projects_root options, sw_base = co_base options, sw_scope = co_scope options, sw_only = [],
      sw_filter = co_filter options, sw_repository = co_repository options, sw_org = [], sw_branch = co_branch options,
      sw_name = [], sw_older_than = co_older_than options, sw_now = now, sw_receipts = co_receipts options,
      sw_with_prs = False, sw_cleanup = True, sw_include_retired = False, sw_absorbed_by = co_absorbed_by options,
      sw_superseded_by = co_superseded_by options\<rparr>"

definition refuse_remotes :: "string \<Rightarrow> cleanup_result list \<Rightarrow> cleanup_result list" where
  "refuse_remotes err =
     map (\<lambda>r. if cr_eligible r \<and> be_scope (cr_entry r) = BranchScopeRemote
              then (failed r err)\<lparr>cr_eligible := False\<rparr> else r)"

definition cleanup_plan :: "cleanup_options \<Rightarrow> inventory_sweep \<Rightarrow> branch_entry list \<Rightarrow> cleanup_result list" where
  "cleanup_plan options sweep entries =
     (let results = PlanBranchCleanup (SortBranchEntries entries) (Policy sweep) in
      if co_only options = [] then results
      else filter (\<lambda>r. CleanClassSelected (co_only options) (be_disposition (cr_entry r))) results)"

definition apply_plan ::
  "coordinator_env \<Rightarrow> cleanup_options \<Rightarrow> cleanup_result list \<Rightarrow> string list \<Rightarrow> (string \<rightharpoonup> string) \<Rightarrow>
     (string, cleanup_outcome) result \<times> command list" where
  "apply_plan env options results diagnostics paths =
     (let outcome = (\<lambda>rs path. Inr \<lparr>out_base = co_base options, out_scope = co_scope options, out_apply = True,
            out_results = rs, out_diagnostics = diagnostics, out_totals = TallyCleanupOutcomes rs, out_report_path = path\<rparr>) in
      case (if co_report_dir options \<noteq> [] then Inr (co_report_dir options)
            else map_sum (\<lambda>err. ''resolve WB home for branch cleanup report: '' @ err)
                   (\<lambda>home. DefaultBranchCleanupReportDir home (ce_now env)) (ce_home env)) of
        Inl err \<Rightarrow> (Inl err, [])
      | Inr reportDir \<Rightarrow>
      (case ce_validateReportDir env reportDir paths of
        Some err \<Rightarrow> (Inl err, [])
      | None \<Rightarrow>
      (case ce_write_plan env reportDir results of
        Inl err \<Rightarrow> (Inl err, [])
      | Inr reportPath \<Rightarrow>
      (case validatePeerEvidence (ce_peer env) options results (ce_now env) of
        Some err \<Rightarrow>
          (let rs = refuse_remotes err results in
           (case ce_write_outcome env reportDir rs of Inl e \<Rightarrow> Inl e | Inr _ \<Rightarrow> outcome rs reportPath, []))
      | None \<Rightarrow>
          (case applyBranchCleanup (map (ce_applies env) [0..<length results]) results paths
                  (options\<lparr>co_report_dir := reportDir\<rparr>) of
             (rs, cs) \<Rightarrow>
               (case ce_write_outcome env reportDir rs of Inl e \<Rightarrow> Inl e | Inr _ \<Rightarrow> outcome rs reportPath, cs))))))"

definition branchCleanupWithPorts ::
  "coordinator_env \<Rightarrow> cleanup_options \<Rightarrow> ((string, cleanup_outcome) result \<times> command list) option" where
  "branchCleanupWithPorts env options =
     (let sweep = cleanup_sweep options (ce_now env) in
      case ClassifyFleetBranchesWithPaths (ce_ports env) sweep of
        None \<Rightarrow> None
      | Some (Inl err) \<Rightarrow> Some (Inl err, [])
      | Some (Inr (entries, diagnostics, paths)) \<Rightarrow>
          let results = cleanup_plan options sweep entries in
          if \<not> co_apply options
            then Some (Inr \<lparr>out_base = co_base options, out_scope = co_scope options, out_apply = False,
                   out_results = results, out_diagnostics = diagnostics, out_totals = TallyCleanupOutcomes results,
                   out_report_path = []\<rparr>, [])
          else Some (apply_plan env options results diagnostics paths))"

end
