(* ===== verification/Landing_Receipts.thy ===== *)
theory Landing_Receipts
  imports Branch_Cleanup
begin

text \<open>
  How WB proves that a commit has landed: \<^verbatim>\<open>internal/worktreelanding\<close> (\<^verbatim>\<open>receipts.go\<close>,
  \<^verbatim>\<open>landing.go\<close>, \<^verbatim>\<open>default_target.go\<close>) and the neutral checks of
  \<^verbatim>\<open>internal/worktreeproof/proof.go\<close>.

  Git and GitHub are the ports the code declares (\<^verbatim>\<open>ReceiptPorts\<close>): functions from the arguments
  of a query to its answer, so that one value of the record is what one run observes. The context
  argument is left out; whether it was done after a merge is part of the answer of that command.
  The last three fields are the JSON decoders the code calls. An error is its text, the verb
  \<^verbatim>\<open>%q\<close> is plain quotes.
\<close>

section \<open>Commits and trees (worktreeproof)\<close>

type_synonym git_query = "string \<Rightarrow> string list \<Rightarrow> (string, string) result"

definition IsGitRevisionID :: "string \<Rightarrow> bool" where
  "IsGitRevisionID value = (if length value < 4 \<or> length value > 64 then False else HasOnlyLowerHexCharacters value)"

definition quoted :: "string \<Rightarrow> string" where
  "quoted s = CHR 0x22 # s @ [CHR 0x22]"

fun default_branch_lines :: "(string \<Rightarrow> bool) \<Rightarrow> string list \<Rightarrow> (string, string) result" where
  "default_branch_lines valid [] = Inl ''origin did not resolve a default branch''"
| "default_branch_lines valid (l # ls) =
     (let line = TrimSpace l; fs = Fields (TrimPrefix line ''ref: '') in
      if \<not> HasPrefix line ''ref: '' then default_branch_lines valid ls
      else if length fs \<noteq> 2 \<or> fs ! 1 \<noteq> ''HEAD'' \<or> \<not> HasPrefix (fs ! 0) ''refs/heads/'' then default_branch_lines valid ls
      else let branch = TrimPrefix (fs ! 0) ''refs/heads/'' in
        if \<not> valid branch then Inl (''origin default branch is invalid: '' @ quoted branch) else Inr branch)"

definition ParseRemoteDefaultBranch :: "string \<Rightarrow> (string \<Rightarrow> bool) \<Rightarrow> (string, string) result" where
  "ParseRemoteDefaultBranch output valid = default_branch_lines valid (Split output LF)"

definition ParseCommitFirstParent :: "string \<Rightarrow> string \<Rightarrow> (string, string) result" where
  "ParseCommitFirstParent revision parents =
     (let fs = Fields parents in
      if length fs < 2 then Inr []
      else if \<not> IsGitObjectID (fs ! 1)
        then Inl (''commit '' @ revision @ '' resolved to invalid first parent '' @ quoted (fs ! 1))
      else Inr (fs ! 1))"

definition ParseCommitTree :: "string \<Rightarrow> string \<Rightarrow> (string, string) result" where
  "ParseCommitTree revision tree =
     (if \<not> IsGitObjectID tree then Inl (''revision '' @ revision @ '' resolved to invalid tree SHA '' @ quoted tree) else Inr tree)"

definition CommitFirstParent :: "git_query \<Rightarrow> string \<Rightarrow> string \<Rightarrow> (string, string) result" where
  "CommitFirstParent git repository revision =
     (case git repository [''rev-list'', ''--parents'', ''-n'', ''1'', ''--end-of-options'', revision] of
        Inl err \<Rightarrow> Inl (''resolve parents of '' @ revision @ '': '' @ err)
      | Inr parents \<Rightarrow> ParseCommitFirstParent revision parents)"

definition CommitTree :: "git_query \<Rightarrow> string \<Rightarrow> string \<Rightarrow> (string, string) result" where
  "CommitTree git repository revision =
     (case git repository [''rev-parse'', revision @ ''^{tree}''] of
        Inl err \<Rightarrow> Inl (''resolve tree for '' @ revision @ '': '' @ err)
      | Inr tree \<Rightarrow> ParseCommitTree revision tree)"

text \<open>
  One run of \<^verbatim>\<open>git merge-base --is-ancestor\<close>: its exit code, its error, and whether the context
  was done when it returned. \<open>IsAncestor\<close> threads the memo; \<open>None\<close> is a nil memo.
\<close>

record ancestry_run =
  ar_exit :: int
  ar_err :: "string option"
  ar_ctx_done :: bool

type_synonym memo = "(string \<rightharpoonup> bool) option"

definition memo_key :: "string \<Rightarrow> string \<Rightarrow> string \<Rightarrow> string" where
  "memo_key repository ancestor descendant = repository @ [CHR 0x00] @ ancestor @ [CHR 0x00] @ descendant"

definition memo_store :: "memo \<Rightarrow> string \<Rightarrow> bool \<Rightarrow> memo" where
  "memo_store memo key verdict = map_option (\<lambda>m. m(key \<mapsto> verdict)) memo"

definition IsAncestor ::
  "(string \<Rightarrow> string \<Rightarrow> string \<Rightarrow> ancestry_run) \<Rightarrow> string \<Rightarrow> string \<Rightarrow> string \<Rightarrow> memo \<Rightarrow> (string, bool) result \<times> memo" where
  "IsAncestor run repository ancestor descendant memo =
     (if ancestor = descendant then (Inr True, memo)
      else let key = memo_key repository ancestor descendant in
        case Option.bind memo (\<lambda>m. m key) of
          Some verdict \<Rightarrow> (Inr verdict, memo)
        | None \<Rightarrow>
            (let r = run repository ancestor descendant in
             case ar_err r of
               None \<Rightarrow> (Inr True, if ar_ctx_done r then memo else memo_store memo key True)
             | Some err \<Rightarrow>
                 if ar_exit r = 1 \<and> \<not> ar_ctx_done r then (Inr False, memo_store memo key False)
                 else (Inl (''check whether '' @ ancestor @ '' is merged into '' @ descendant @ '': '' @ err), memo)))"

fun last_owner :: "string list \<Rightarrow> string \<Rightarrow> string" where
  "last_owner [] state = state"
| "last_owner (owner # owners) state = (let agent = TrimSpace owner in if agent \<noteq> [] then agent else last_owner owners state)"

definition WorktreeOwnerName :: "string list \<Rightarrow> string \<Rightarrow> string" where
  "WorktreeOwnerName owners state = last_owner (rev owners) state"

record age_fields =
  ag_owner :: string
  ag_created_at :: go_time
  ag_age_seconds :: int
  ag_ttl_seconds :: int
  ag_expired :: bool

definition second :: duration where
  "second = 1000000000"

definition created_or_modified :: "(string, go_time) result \<Rightarrow> (string, go_time) result \<Rightarrow> go_time \<Rightarrow> go_time" where
  "created_or_modified created modified old =
     (case created of
        Inr c \<Rightarrow> if c \<noteq> 0 then c else (case modified of Inr t \<Rightarrow> t | Inl _ \<Rightarrow> old)
      | Inl _ \<Rightarrow> (case modified of Inr t \<Rightarrow> t | Inl _ \<Rightarrow> old))"

definition ApplyWorktreeAge ::
  "age_fields \<Rightarrow> string list \<Rightarrow> string \<Rightarrow> duration \<Rightarrow> go_time \<Rightarrow> (string, go_time) result \<Rightarrow> (string, go_time) result \<Rightarrow> age_fields" where
  "ApplyWorktreeAge result owners state ttl now created modified =
     (let created_at = created_or_modified created modified (ag_created_at result);
          result = result\<lparr>ag_owner := WorktreeOwnerName owners state, ag_created_at := created_at\<rparr> in
      if created_at = 0 then result
      else let age = time_sub now created_at;
               result = (if age > 0 then result\<lparr>ag_age_seconds := age div second\<rparr> else result) in
        if ttl > 0 then result\<lparr>ag_ttl_seconds := ttl div second, ag_expired := age > ttl\<rparr> else result)"

fun SameAbsorbedPullRequest :: "pull_request option \<Rightarrow> pull_request option \<Rightarrow> bool" where
  "SameAbsorbedPullRequest None None = True"
| "SameAbsorbedPullRequest (Some left) (Some right) =
     (pr_number left = pr_number right \<and> pr_repository left = pr_repository right \<and>
      pr_base left = pr_base right \<and> pr_base_sha left = pr_base_sha right \<and>
      pr_head_sha left = pr_head_sha right \<and> pr_merge_sha left = pr_merge_sha right \<and>
      pr_merged left \<noteq> None \<and> pr_merged left = pr_merged right)"
| "SameAbsorbedPullRequest _ _ = False"

section \<open>Ports and answers of the receipt service\<close>

record github_command =
  gc_stdout :: string
  gc_stderr :: string
  gc_err :: "string option"

record merge_run =
  mr_stdout :: string
  mr_stderr :: string
  mr_exit :: int
  mr_err :: "string option"
  mr_ctx_done :: bool

record github_get_request =
  gg_dir :: string
  gg_repository :: string
  gg_target :: string
  gg_endpoint :: string

record receipt_ports =
  r_Git :: git_query
  r_IsAncestor :: "string \<Rightarrow> string \<Rightarrow> string \<Rightarrow> (string, bool) result"
  r_ValidBranch :: "string \<Rightarrow> bool"
  r_GitHubExecute :: "string \<Rightarrow> string list \<Rightarrow> github_command"
  r_GitHubGet :: "github_get_request \<Rightarrow> (string, string) result"
  r_MergeTreeRun :: "string \<Rightarrow> string \<Rightarrow> string \<Rightarrow> merge_run"
  r_decode_pulls :: "string \<Rightarrow> (string, github_pull_request list) result"
  r_decode_pull :: "string \<Rightarrow> (string, github_pull_request) result"
  r_decode_failure :: "string \<Rightarrow> (string \<times> string) option"

text \<open>
  The three results \<^verbatim>\<open>(receipt, rejection, error)\<close>: an error, a rejection text with no receipt,
  neither of them (an ordinary negative answer), or a receipt.
\<close>

datatype 'a verdict = Failed string | Rejected string | NotProved | Proved 'a

record absorbed_receipt =
  rc_landing_sha :: string
  rc_pull_request :: "pull_request option"

section \<open>Pull requests of a commit and of a branch\<close>

definition UnknownGitHubCommit :: "receipt_ports \<Rightarrow> string \<Rightarrow> bool" where
  "UnknownGitHubCommit p body =
     (case r_decode_failure p (TrimSpace body) of
        None \<Rightarrow> False
      | Some (message, status) \<Rightarrow> status = ''422'' \<and> HasPrefix message ''No commit found for SHA'')"

definition GitHubPullRequestsForCommit ::
  "receipt_ports \<Rightarrow> string \<Rightarrow> string \<Rightarrow> string \<Rightarrow> (string, github_pull_request list \<times> bool) result" where
  "GitHubPullRequestsForCommit p worktree repository head =
     (let result = r_GitHubExecute p worktree [''api'', ''--paginate'', ''repos/'' @ repository @ ''/commits/'' @ head @ ''/pulls''] in
      case gc_err result of
        Some err \<Rightarrow>
          if UnknownGitHubCommit p (gc_stdout result) then Inr ([], False)
          else Inl (''query pull requests for '' @ repository @ '' source commit '' @ head @ '': '' @ err @ '': '' @
                 TrimSpace (gc_stderr result @ gc_stdout result))
      | None \<Rightarrow>
          (case r_decode_pulls p (gc_stdout result) of
             Inl err \<Rightarrow> Inl (''decode pull requests for '' @ repository @ '' source commit '' @ head @ '': '' @ err)
           | Inr pullRequests \<Rightarrow> Inr (pullRequests, True)))"

definition GitHubPullRequests :: "receipt_ports \<Rightarrow> string \<Rightarrow> string \<Rightarrow> string \<Rightarrow> (string, github_pull_request list) result" where
  "GitHubPullRequests p worktree repository head = map_sum id fst (GitHubPullRequestsForCommit p worktree repository head)"

definition GitHubPullRequestsForBranch ::
  "receipt_ports \<Rightarrow> string \<Rightarrow> string \<Rightarrow> string \<Rightarrow> string \<Rightarrow> (string, github_pull_request list) result" where
  "GitHubPullRequestsForBranch p worktree repository branch base =
     (case Cut repository (CHR ''/'') of (owner, _, ok) \<Rightarrow>
      if \<not> ok \<or> owner = [] \<or> branch = [] \<or> base = []
        then Inl ''query exact merged pull request requires repository, source branch, and default base''
      else let query = Encode [(''base'', base), (''head'', owner @ '':'' @ branch), (''state'', ''closed'')];
               result = r_GitHubExecute p worktree [''api'', ''--paginate'', ''repos/'' @ repository @ ''/pulls?'' @ query] in
        case gc_err result of
          Some err \<Rightarrow> Inl (''query pull requests for deleted target '' @ branch @ '' in '' @ repository @ '': '' @ err @ '': '' @
                 TrimSpace (gc_stderr result @ gc_stdout result))
        | None \<Rightarrow>
            (case r_decode_pulls p (gc_stdout result) of
               Inl err \<Rightarrow> Inl (''decode pull requests for deleted target '' @ branch @ '' in '' @ repository @ '': '' @ err)
             | Inr pullRequests \<Rightarrow> Inr pullRequests))"

definition MergedPullRequestReceipt :: "string \<Rightarrow> github_pull_request \<Rightarrow> pull_request" where
  "MergedPullRequestReceipt repository c =
     \<lparr>pr_number = gh_number c, pr_url = gh_url c, pr_repository = repository, pr_state = ''MERGED'',
      pr_base = ghr_ref (gh_base c), pr_base_sha = ghr_sha (gh_base c), pr_head_sha = ghr_sha (gh_head c),
      pr_merge_sha = gh_merge_commit_sha c, pr_merged = gh_merged_at c\<rparr>"

definition exact_deleted_target :: "string \<Rightarrow> string \<Rightarrow> string \<Rightarrow> github_pull_request \<Rightarrow> bool" where
  "exact_deleted_target recordedTarget defaultBase head c \<longleftrightarrow>
     \<not> (gh_merged_at c = None \<or> \<not> EqualFold (gh_state c) ''closed'' \<or>
        ghr_ref (gh_head c) \<noteq> recordedTarget \<or> ghr_sha (gh_head c) \<noteq> head \<or>
        ghr_ref (gh_base c) \<noteq> defaultBase \<or> \<not> IsGitObjectID (ghr_sha (gh_head c)) \<or>
        \<not> IsGitObjectID (gh_merge_commit_sha c))"

fun select_exact ::
  "string \<Rightarrow> string \<Rightarrow> string \<Rightarrow> string \<Rightarrow> pull_request option \<Rightarrow> github_pull_request list \<Rightarrow> (string, pull_request option) result" where
  "select_exact repository recordedTarget defaultBase head receipt [] = Inr receipt"
| "select_exact repository recordedTarget defaultBase head receipt (c # cs) =
     (if \<not> exact_deleted_target recordedTarget defaultBase head c
      then select_exact repository recordedTarget defaultBase head receipt cs
      else let candidate = MergedPullRequestReceipt repository c in
        case receipt of
          Some r \<Rightarrow>
            if pr_number r \<noteq> pr_number candidate \<or> pr_merge_sha r \<noteq> pr_merge_sha candidate
            then Inl (''multiple exact merged pull-request receipts found for deleted target '' @ recordedTarget @ '' at head '' @ head)
            else select_exact repository recordedTarget defaultBase head (Some candidate) cs
        | None \<Rightarrow> select_exact repository recordedTarget defaultBase head (Some candidate) cs)"

definition SelectExactDeletedTargetDefaultBranchReceipt ::
  "string \<Rightarrow> github_pull_request list \<Rightarrow> string \<Rightarrow> string \<Rightarrow> string \<Rightarrow> (string, pull_request option) result" where
  "SelectExactDeletedTargetDefaultBranchReceipt repository pullRequests recordedTarget defaultBase head =
     select_exact repository recordedTarget defaultBase head None pullRequests"

definition ExactDeletedTargetDefaultBranchReceipt ::
  "receipt_ports \<Rightarrow> string \<Rightarrow> string \<Rightarrow> string \<Rightarrow> string \<Rightarrow> string \<Rightarrow> (string, pull_request option) result" where
  "ExactDeletedTargetDefaultBranchReceipt p worktree repository recordedTarget defaultBase head =
     (if \<not> r_ValidBranch p recordedTarget \<or> \<not> r_ValidBranch p defaultBase \<or> \<not> IsGitObjectID head
      then Inl ''invalid deleted-target recovery identity''
      else case GitHubPullRequestsForBranch p worktree repository recordedTarget defaultBase of
          Inl err \<Rightarrow> Inl err
        | Inr pullRequests \<Rightarrow>
            SelectExactDeletedTargetDefaultBranchReceipt repository pullRequests recordedTarget defaultBase head)"

text \<open>One turn of the loop of \<^verbatim>\<open>MatchingPullRequests\<close>; the state is \<^verbatim>\<open>(open, merged)\<close>.\<close>

definition candidate_pull_request :: "string \<Rightarrow> github_pull_request \<Rightarrow> pull_request" where
  "candidate_pull_request repository c =
     \<lparr>pr_number = gh_number c, pr_url = gh_url c, pr_repository = repository,
      pr_state = (if gh_merged_at c \<noteq> None then ''MERGED'' else gh_state c),
      pr_base = ghr_ref (gh_base c), pr_base_sha = ghr_sha (gh_base c), pr_head_sha = ghr_sha (gh_head c),
      pr_merge_sha = gh_merge_commit_sha c, pr_merged = gh_merged_at c\<rparr>"

definition matching_step ::
  "string \<Rightarrow> string \<Rightarrow> string \<Rightarrow> string \<Rightarrow> pull_request option \<times> pull_request option \<Rightarrow> github_pull_request \<Rightarrow>
     pull_request option \<times> pull_request option" where
  "matching_step repository base branch head acc c =
     (case acc of (opened, merged) \<Rightarrow>
      let pullRequest = candidate_pull_request repository c in
      if EqualFold (gh_state c) ''OPEN'' then
        (if ghr_sha (gh_head c) \<noteq> head \<or> ghr_ref (gh_head c) \<noteq> branch \<or>
            \<not> (case ghr_repo (gh_head c) of None \<Rightarrow> False | Some name \<Rightarrow> EqualFold name repository) then acc
         else if (case opened of None \<Rightarrow> True | Some o_pr \<Rightarrow> gh_number c > pr_number o_pr) then (Some pullRequest, merged)
         else acc)
      else if \<not> EqualFold (pr_state pullRequest) ''MERGED'' \<or> ghr_ref (gh_base c) \<noteq> base \<or> ghr_sha (gh_head c) \<noteq> head then acc
      else case gh_merged_at c of
          None \<Rightarrow> acc
        | Some at \<Rightarrow> if (case merged of None \<Rightarrow> True | Some m_pr \<Rightarrow> at > the (pr_merged m_pr)) then (opened, Some pullRequest) else acc)"

definition MatchingPullRequests ::
  "github_pull_request list \<Rightarrow> string \<Rightarrow> string \<Rightarrow> string \<Rightarrow> string \<Rightarrow> pull_request option \<times> pull_request option" where
  "MatchingPullRequests pullRequests repository base branch head =
     foldl (matching_step repository base branch head) (None, None) pullRequests"

fun merged_target :: "receipt_ports \<Rightarrow> string \<Rightarrow> string \<Rightarrow> string \<Rightarrow> github_pull_request list \<Rightarrow> string option" where
  "merged_target p head recordedBase target [] = (if target \<noteq> [] then Some target else None)"
| "merged_target p head recordedBase target (c # cs) =
     (let base = ghr_ref (gh_base c) in
      if ghr_sha (gh_head c) \<noteq> head \<or> gh_merged_at c = None \<or> base = recordedBase
        then merged_target p head recordedBase target cs
      else if \<not> r_ValidBranch p base then merged_target p head recordedBase target cs
      else if target \<noteq> [] \<and> target \<noteq> base then None
      else merged_target p head recordedBase base cs)"

definition MergedPullRequestTarget :: "receipt_ports \<Rightarrow> github_pull_request list \<Rightarrow> string \<Rightarrow> string \<Rightarrow> string option" where
  "MergedPullRequestTarget p pullRequests head recordedBase = merged_target p head recordedBase [] pullRequests"

section \<open>Content proofs\<close>

definition MergeResultTree :: "receipt_ports \<Rightarrow> string \<Rightarrow> string \<Rightarrow> string \<Rightarrow> (string, string option) result" where
  "MergeResultTree p repository ours theirs =
     (let run = r_MergeTreeRun p repository ours theirs in
      case mr_err run of
        Some err \<Rightarrow>
          if mr_exit run = 1 \<and> \<not> mr_ctx_done run then Inr None
          else Inl (''merge '' @ theirs @ '' into '' @ ours @ '' in '' @ repository @ '': '' @ err @ '': '' @ TrimSpace (mr_stderr run))
      | None \<Rightarrow>
          let tree = TrimSpace (fst (Cut (TrimSpace (mr_stdout run)) LF)) in
          if \<not> IsGitObjectID tree
          then Inl (''merge '' @ theirs @ '' into '' @ ours @ '' in '' @ repository @ '' produced invalid tree '' @ quoted tree)
          else Inr (Some tree))"

definition ContentContained :: "receipt_ports \<Rightarrow> string \<Rightarrow> string \<Rightarrow> string \<Rightarrow> (string, bool) result" where
  "ContentContained p repository head commit =
     (case MergeResultTree p repository commit head of
        Inl err \<Rightarrow> Inl err
      | Inr None \<Rightarrow> Inr False
      | Inr (Some merged) \<Rightarrow>
          (case CommitTree (r_Git p) repository commit of
             Inl err \<Rightarrow> Inl err
           | Inr existing \<Rightarrow> Inr (merged = existing)))"

definition receipt_ContentAbsorbed :: "receipt_ports \<Rightarrow> string \<Rightarrow> string \<Rightarrow> string \<Rightarrow> string \<Rightarrow> (string, bool) result" where
  "receipt_ContentAbsorbed p repository head landingSHA target =
     (case ContentContained p repository head landingSHA of
        Inl err \<Rightarrow> Inl err
      | Inr False \<Rightarrow> Inr False
      | Inr True \<Rightarrow> ContentContained p repository head target)"

definition RebaseMergedPullRequestIntegrated ::
  "receipt_ports \<Rightarrow> string \<Rightarrow> string \<Rightarrow> string \<Rightarrow> pull_request option \<Rightarrow> (string, bool) result" where
  "RebaseMergedPullRequestIntegrated p repository head target pullRequest =
     (case pullRequest of
        None \<Rightarrow> Inr False
      | Some pr \<Rightarrow>
          if pr_head_sha pr \<noteq> head \<or> \<not> IsGitObjectID (pr_merge_sha pr) then Inr False
          else case r_IsAncestor p repository (pr_merge_sha pr) target of
              Inl err \<Rightarrow> Inl err
            | Inr False \<Rightarrow> Inr False
            | Inr True \<Rightarrow>
                (case CommitTree (r_Git p) repository head of
                   Inl err \<Rightarrow> Inl err
                 | Inr sourceTree \<Rightarrow>
                     (case CommitTree (r_Git p) repository (pr_merge_sha pr) of
                        Inl err \<Rightarrow> Inl err
                      | Inr mergeTree \<Rightarrow> Inr (sourceTree = mergeTree))))"

section \<open>The operator's pointer\<close>

text \<open>
  \<^verbatim>\<open>absorbedByPullRequestURLPattern\<close>: the pattern is deterministic, so that it is matched from left
  to right. With the flag \<^verbatim>\<open>i\<close> the letter s also stands for U+017F, whose bytes are C5 BF; no
  literal of the pattern has a k, the other letter with a fold outside ASCII.
\<close>

definition lower_byte :: "char \<Rightarrow> char" where
  "lower_byte c = (if CHR ''A'' \<le> c \<and> c \<le> CHR ''Z'' then char_of (of_char c + 32 :: nat) else c)"

fun strip_fold :: "string \<Rightarrow> string \<Rightarrow> string option" where
  "strip_fold [] s = Some s"
| "strip_fold (p # ps) [] = None"
| "strip_fold (p # ps) (c # cs) =
     (if lower_byte c = p then strip_fold ps cs
      else if p = CHR ''s'' \<and> HasPrefix (c # cs) [CHR 0xC5, CHR 0xBF] then strip_fold ps (tl cs)
      else None)"

definition strip_opt :: "string \<Rightarrow> string \<Rightarrow> string" where
  "strip_opt lit s = (case strip_fold lit s of Some rest \<Rightarrow> rest | None \<Rightarrow> s)"

definition url_segment :: "string \<Rightarrow> string" where
  "url_segment s = takeWhile (\<lambda>c. c \<notin> {CHR ''/'', CHR 0x09, CHR 0x0A, CHR 0x0C, CHR 0x0D, CHR '' ''}) s"

definition PullRequestURL :: "string \<Rightarrow> (string \<times> string) option" where
  "PullRequestURL s =
     Option.bind (strip_fold ''http'' s) (\<lambda>s.
     Option.bind (strip_fold ''://'' (strip_opt ''s'' s)) (\<lambda>s.
     Option.bind (strip_fold ''github.com/'' (strip_opt ''www.'' s)) (\<lambda>s.
     let owner = url_segment s in
     Option.bind (strip_fold ''/'' (drop (length owner) s)) (\<lambda>s.
     let name = url_segment s in
     Option.bind (strip_fold ''/pull'' (drop (length name) s)) (\<lambda>s.
     Option.bind (strip_fold ''/'' (strip_opt ''s'' s)) (\<lambda>s.
     let digits = takeWhile is_digit s; rest = drop (length digits) s in
     if owner = [] \<or> name = [] \<or> digits = [] then None
     else if rest = [] \<or> hd rest \<in> set ''/?#'' \<and> LF \<notin> set rest then Some (owner @ ''/'' @ name, digits)
     else None))))))"

definition pull_endpoint :: "string \<Rightarrow> int \<Rightarrow> string" where
  "pull_endpoint slug number = ''repos/'' @ slug @ ''/pulls/'' @ Itoa number"

definition pull_name :: "string \<Rightarrow> int \<Rightarrow> string" where
  "pull_name slug number = slug @ ''#'' @ Itoa number"

definition read_pull :: "receipt_ports \<Rightarrow> string \<Rightarrow> string \<Rightarrow> string \<Rightarrow> int \<Rightarrow> (string, github_pull_request) result" where
  "read_pull p worktree slug base number =
     (case r_GitHubGet p \<lparr>gg_dir = worktree, gg_repository = slug, gg_target = base, gg_endpoint = pull_endpoint slug number\<rparr> of
        Inl err \<Rightarrow> Inl (''read '' @ slug @ '' pull request '' @ Itoa number @ '': '' @ err)
      | Inr response \<Rightarrow>
          (case r_decode_pull p response of
             Inl err \<Rightarrow> Inl (''decode '' @ slug @ '' pull request '' @ Itoa number @ '': '' @ err)
           | Inr candidate \<Rightarrow> Inr candidate))"

definition ResolveAbsorbedByPullRequest ::
  "receipt_ports \<Rightarrow> string \<Rightarrow> string \<Rightarrow> string \<Rightarrow> int \<Rightarrow> (string \<times> pull_request option) verdict" where
  "ResolveAbsorbedByPullRequest p worktree slug base number =
     (let subject = ''--absorbed-by pull request '' @ pull_name slug number in
      case read_pull p worktree slug base number of
        Inl err \<Rightarrow> Failed err
      | Inr c \<Rightarrow>
          if gh_merged_at c = None then Rejected (subject @ '' is not merged'')
          else if \<not> EqualFold (gh_state c) ''closed'' then Rejected (subject @ '' is not closed'')
          else if ghr_ref (gh_base c) \<noteq> base
            then Rejected (subject @ '' merged into '' @ quoted (ghr_ref (gh_base c)) @ '', not the requested base '' @ quoted base)
          else if \<not> IsGitObjectID (gh_merge_commit_sha c)
            then Rejected (subject @ '' has invalid merge commit '' @ quoted (gh_merge_commit_sha c))
          else if \<not> IsGitObjectID (ghr_sha (gh_head c))
            then Rejected (subject @ '' has invalid head commit '' @ quoted (ghr_sha (gh_head c)))
          else Proved (gh_merge_commit_sha c, Some (MergedPullRequestReceipt slug c)))"

definition ResolveAbsorbedBy ::
  "receipt_ports \<Rightarrow> string \<Rightarrow> string \<Rightarrow> string \<Rightarrow> string \<Rightarrow> string \<Rightarrow> (string \<times> pull_request option) verdict" where
  "ResolveAbsorbedBy p worktree repository slug base absorbedBy =
     (let trimmed = TrimSpace absorbedBy; pointer = TrimPrefix trimmed ''#'' in
      if trimmed = [] then Rejected ''--absorbed-by requires a pull request number, pull request URL, or landing commit''
      else case PullRequestURL trimmed of
        Some (named, digits) \<Rightarrow>
          if \<not> EqualFold named slug
            then Rejected (''--absorbed-by URL '' @ trimmed @ '' names repository '' @ quoted named @ '', not the requested '' @ quoted slug)
          else (case Atoi digits of
              None \<Rightarrow> Rejected (''--absorbed-by URL '' @ trimmed @ '' has an invalid pull request number'')
            | Some number \<Rightarrow>
                if number \<le> 0 then Rejected (''--absorbed-by URL '' @ trimmed @ '' has an invalid pull request number'')
                else ResolveAbsorbedByPullRequest p worktree slug base number)
      | None \<Rightarrow>
          (case Atoi pointer of
             Some number \<Rightarrow>
               if number \<le> 0 then Rejected (''--absorbed-by pull request number '' @ Itoa number @ '' is not positive'')
               else ResolveAbsorbedByPullRequest p worktree slug base number
           | None \<Rightarrow>
               (case r_Git p repository [''rev-parse'', ''--verify'', ''--end-of-options'', pointer @ ''^{commit}''] of
                  Inl _ \<Rightarrow> Rejected (''--absorbed-by '' @ absorbedBy @ '' does not resolve to a commit in '' @ repository)
                | Inr landingSHA \<Rightarrow>
                    if \<not> IsGitObjectID landingSHA
                    then Rejected (''--absorbed-by '' @ absorbedBy @ '' resolved to invalid commit '' @ quoted landingSHA)
                    else Proved (landingSHA, None))))"

definition ResolveClosedPullRequest ::
  "receipt_ports \<Rightarrow> string \<Rightarrow> string \<Rightarrow> string \<Rightarrow> string \<Rightarrow> github_pull_request verdict" where
  "ResolveClosedPullRequest p worktree slug base pointer =
     (let trimmed = TrimSpace pointer;
          bad = Rejected (''--closed-pr '' @ quoted pointer @ '' is not a pull request number or GitHub pull request URL'');
          read = (\<lambda>numberText. case Atoi numberText of
              None \<Rightarrow> bad
            | Some number \<Rightarrow>
                if number \<le> 0 then bad
                else (case read_pull p worktree slug base number of
                    Inl err \<Rightarrow> Failed err
                  | Inr c \<Rightarrow>
                      let subject = ''--closed-pr pull request '' @ pull_name slug number in
                      if \<not> EqualFold (gh_state c) ''closed'' then Rejected (subject @ '' is not closed'')
                      else if gh_merged_at c \<noteq> None
                        then Rejected (subject @ '' was merged; use --absorbed-by for a merged pull request'')
                      else if \<not> IsGitObjectID (ghr_sha (gh_head c))
                        then Rejected (subject @ '' has invalid head commit '' @ quoted (ghr_sha (gh_head c)))
                      else Proved (c\<lparr>gh_number := number\<rparr>))) in
      case PullRequestURL trimmed of
        Some (named, digits) \<Rightarrow>
          if \<not> EqualFold named slug
            then Rejected (''--closed-pr URL '' @ trimmed @ '' names repository '' @ quoted named @ '', not the requested '' @ quoted slug)
          else read digits
      | None \<Rightarrow> read (TrimPrefix trimmed ''#''))"

section \<open>Attested receipts\<close>

datatype fetch_error = FetchFailed string | HeadMismatch string

definition FetchExactRemotePullRequestHead :: "receipt_ports \<Rightarrow> string \<Rightarrow> int \<Rightarrow> string \<Rightarrow> (fetch_error, string) result" where
  "FetchExactRemotePullRequestHead p repository number expectedSHA =
     (let ref = ''refs/pull/'' @ Itoa number @ ''/head'' in
      if number \<le> 0 then Inl (FetchFailed (''invalid pull request number '' @ Itoa number))
      else if \<not> IsGitObjectID expectedSHA then Inl (FetchFailed (''invalid expected pull request head '' @ quoted expectedSHA))
      else case r_Git p repository [''ls-remote'', ''--exit-code'', ''origin'', ref] of
        Inl err \<Rightarrow> Inl (FetchFailed err)
      | Inr remote \<Rightarrow>
      let fs = Fields remote in
      if length fs \<noteq> 2 \<or> fs ! 1 \<noteq> ref \<or> \<not> IsGitObjectID (fs ! 0)
        then Inl (HeadMismatch (''origin returned malformed '' @ ref @ '' response '' @ quoted remote))
      else if fs ! 0 \<noteq> expectedSHA
        then Inl (HeadMismatch (''origin advertises '' @ ref @ '' as '' @ fs ! 0 @ '', expected exact API head '' @ expectedSHA))
      else case r_Git p repository [''fetch'', ''--no-tags'', ''--no-write-fetch-head'', ''--'', ''origin'', ref] of
        Inl err \<Rightarrow> Inl (FetchFailed err)
      | Inr _ \<Rightarrow>
      (case r_Git p repository [''rev-parse'', ''--verify'', ''--end-of-options'', expectedSHA @ ''^{commit}''] of
        Inl err \<Rightarrow> Inl (FetchFailed err)
      | Inr fetched \<Rightarrow>
          if fetched \<noteq> expectedSHA
          then Inl (HeadMismatch (''fetched '' @ ref @ '' resolved to '' @ fetched @ '', expected exact API head '' @ expectedSHA))
          else Inr fetched))"

definition incomplete_pull :: "pull_request \<Rightarrow> bool" where
  "incomplete_pull pr \<longleftrightarrow>
     pr_merged pr = None \<or> pr_number pr \<le> 0 \<or> TrimSpace (pr_base pr) = [] \<or> \<not> IsGitObjectID (pr_merge_sha pr)"

text \<open>The two verifications return the rejection text, empty when the proof holds.\<close>

definition VerifyAttestedSquashPullRequest ::
  "receipt_ports \<Rightarrow> string \<Rightarrow> string \<Rightarrow> string \<Rightarrow> string \<Rightarrow> pull_request \<Rightarrow> (string, string) result" where
  "VerifyAttestedSquashPullRequest p repository sourceHead target absorbedBy pr =
     (let subject = ''--absorbed-by '' @ absorbedBy in
      if incomplete_pull pr \<or> \<not> IsGitObjectID (pr_head_sha pr) then Inr (subject @ '' has incomplete merged pull request metadata'')
      else case FetchExactRemotePullRequestHead p repository (pr_number pr) (pr_head_sha pr) of
        Inl (HeadMismatch text) \<Rightarrow> Inr text
      | Inl (FetchFailed err) \<Rightarrow>
          Inl (''fetch pull request '' @ Itoa (pr_number pr) @ '' head '' @ pr_head_sha pr @ '' for '' @ subject @ '': '' @ err)
      | Inr _ \<Rightarrow>
      (case r_IsAncestor p repository sourceHead (pr_head_sha pr) of
        Inl err \<Rightarrow> Inl err
      | Inr False \<Rightarrow> Inr (subject @ '' pull request head '' @ pr_head_sha pr @ '' does not contain exact source head '' @ sourceHead)
      | Inr True \<Rightarrow>
      (case r_IsAncestor p repository (pr_merge_sha pr) target of
        Inl err \<Rightarrow> Inl err
      | Inr False \<Rightarrow> Inr (subject @ '' merge commit '' @ pr_merge_sha pr @ '' is not contained in the exact fetched origin/'' @
            pr_base pr @ '' target '' @ target)
      | Inr True \<Rightarrow>
      (case CommitTree (r_Git p) repository (pr_head_sha pr) of
        Inl err \<Rightarrow> Inl err
      | Inr pullRequestTree \<Rightarrow>
      (case CommitTree (r_Git p) repository (pr_merge_sha pr) of
        Inl err \<Rightarrow> Inl err
      | Inr mergeTree \<Rightarrow>
          if pullRequestTree \<noteq> mergeTree
          then Inr (subject @ '' pull request head tree '' @ pullRequestTree @ '' does not equal merge tree '' @ mergeTree)
          else Inr [])))))"

definition VerifyAttestedMergeCommitPullRequest ::
  "receipt_ports \<Rightarrow> string \<Rightarrow> string \<Rightarrow> string \<Rightarrow> string \<Rightarrow> pull_request \<Rightarrow> (string, string) result" where
  "VerifyAttestedMergeCommitPullRequest p repository sourceHead target absorbedBy pr =
     (let subject = ''--absorbed-by '' @ absorbedBy in
      if incomplete_pull pr then Inr (subject @ '' has incomplete merged pull request metadata'')
      else case r_IsAncestor p repository (pr_merge_sha pr) target of
        Inl err \<Rightarrow> Inl err
      | Inr False \<Rightarrow> Inr (subject @ '' merge commit '' @ pr_merge_sha pr @ '' is not contained in the exact fetched origin/'' @
            pr_base pr @ '' target '' @ target)
      | Inr True \<Rightarrow>
      (case r_IsAncestor p repository sourceHead target of
        Inl err \<Rightarrow> Inl err
      | Inr False \<Rightarrow> Inr (subject @ '' names a merge commit, but exact source head '' @ sourceHead @
            '' is not contained in the exact fetched origin/'' @ pr_base pr @ '' target '' @ target @
            '' (a squash or rebase landing needs the squash-tree proof instead)'')
      | Inr True \<Rightarrow> Inr []))"

definition no_longer_survives :: "string \<Rightarrow> string \<Rightarrow> string \<Rightarrow> string" where
  "no_longer_survives landing base target =
     ''work absorbed by '' @ landing @ '' no longer survives in the exact fetched origin/'' @ base @ '' target '' @ target"

definition receipt_after_content_proof ::
  "receipt_ports \<Rightarrow> string \<Rightarrow> string \<Rightarrow> string \<Rightarrow> string \<Rightarrow> pull_request \<Rightarrow> string \<Rightarrow> absorbed_receipt verdict" where
  "receipt_after_content_proof p repository head base target pr landing =
     (case receipt_ContentAbsorbed p repository head landing target of
        Inl err \<Rightarrow> Failed err
      | Inr False \<Rightarrow> Rejected (no_longer_survives landing base target)
      | Inr True \<Rightarrow> Proved \<lparr>rc_landing_sha = landing, rc_pull_request = Some pr\<rparr>)"

definition attested_by_pull_request ::
  "receipt_ports \<Rightarrow> string \<Rightarrow> string \<Rightarrow> string \<Rightarrow> string \<Rightarrow> string \<Rightarrow> string \<Rightarrow> pull_request \<Rightarrow> absorbed_receipt verdict" where
  "attested_by_pull_request p repository head base target absorbedBy landingSHA pr =
     (case VerifyAttestedSquashPullRequest p repository head target absorbedBy pr of
        Inl err \<Rightarrow> Failed err
      | Inr squashRejection \<Rightarrow>
          if squashRejection = [] then receipt_after_content_proof p repository head base target pr landingSHA
          else (case VerifyAttestedMergeCommitPullRequest p repository head target absorbedBy pr of
              Inl err \<Rightarrow> Failed err
            | Inr mergeCommitRejection \<Rightarrow>
                if mergeCommitRejection = [] then receipt_after_content_proof p repository head base target pr (pr_merge_sha pr)
                else Rejected (squashRejection @ ''; '' @ mergeCommitRejection)))"

definition attested_by_commit ::
  "receipt_ports \<Rightarrow> string \<Rightarrow> string \<Rightarrow> string \<Rightarrow> string \<Rightarrow> string \<Rightarrow> string \<Rightarrow> absorbed_receipt verdict" where
  "attested_by_commit p repository head base target absorbedBy landingSHA =
     (let subject = ''--absorbed-by '' @ absorbedBy @ '' resolved to '' @ landingSHA;
          proved = Proved \<lparr>rc_landing_sha = landingSHA, rc_pull_request = None\<rparr> in
      case r_IsAncestor p repository landingSHA target of
        Inl err \<Rightarrow> Failed err
      | Inr False \<Rightarrow> Rejected (subject @ '', which is not contained in the exact fetched origin/'' @ base @ '' target '' @ target)
      | Inr True \<Rightarrow>
      (case ContentContained p repository head landingSHA of
        Inl err \<Rightarrow> Failed err
      | Inr False \<Rightarrow> Rejected (subject @ '', which does not contain this branch'' @ CHR 0x27 # ''s content'')
      | Inr True \<Rightarrow>
      (case ContentContained p repository head target of
        Inl err \<Rightarrow> Failed err
      | Inr False \<Rightarrow> Rejected (no_longer_survives landingSHA base target)
      | Inr True \<Rightarrow>
      (case CommitFirstParent (r_Git p) repository landingSHA of
        Inl err \<Rightarrow> Failed err
      | Inr parent \<Rightarrow>
          if parent = [] then proved
          else (case ContentContained p repository head parent of
              Inl err \<Rightarrow> Failed err
            | Inr True \<Rightarrow> Rejected (subject @ '', which is not where this work entered the target: '' @ parent @ '' already contained it'')
            | Inr False \<Rightarrow> proved)))))"

definition AttestedAbsorbedReceipt ::
  "receipt_ports \<Rightarrow> string \<Rightarrow> string \<Rightarrow> string \<Rightarrow> string \<Rightarrow> string \<Rightarrow> string \<Rightarrow> string \<Rightarrow> absorbed_receipt verdict" where
  "AttestedAbsorbedReceipt p worktree repository slug head base target absorbedBy =
     (case ResolveAbsorbedBy p worktree repository slug base absorbedBy of
        Failed err \<Rightarrow> Failed err
      | Rejected rejection \<Rightarrow> Rejected rejection
      | NotProved \<Rightarrow> NotProved
      | Proved (landingSHA, Some pr) \<Rightarrow> attested_by_pull_request p repository head base target absorbedBy landingSHA pr
      | Proved (landingSHA, None) \<Rightarrow> attested_by_commit p repository head base target absorbedBy landingSHA)"

definition AbsorbedLandingReceipt ::
  "receipt_ports \<Rightarrow> string \<Rightarrow> string \<Rightarrow> string \<Rightarrow> string \<Rightarrow> string \<Rightarrow> string \<Rightarrow> string \<Rightarrow> github_pull_request list \<Rightarrow>
     absorbed_receipt verdict" where
  "AbsorbedLandingReceipt p worktree repository slug head base target absorbedBy pullRequests =
     (if absorbedBy \<noteq> [] then AttestedAbsorbedReceipt p worktree repository slug head base target absorbedBy
      else case AbsorbingPullRequest pullRequests base of
        None \<Rightarrow> NotProved
      | Some pr \<Rightarrow>
          if \<not> IsGitObjectID (pr_merge_sha pr) then NotProved
          else (case r_IsAncestor p repository (pr_merge_sha pr) target of
              Inl err \<Rightarrow> Failed err
            | Inr False \<Rightarrow> NotProved
            | Inr True \<Rightarrow>
                (case receipt_ContentAbsorbed p repository head (pr_merge_sha pr) target of
                   Inl err \<Rightarrow> Failed err
                 | Inr False \<Rightarrow> NotProved
                 | Inr True \<Rightarrow> Proved \<lparr>rc_landing_sha = pr_merge_sha pr, rc_pull_request = Some pr\<rparr>)))"

section \<open>Landing evidence with residue\<close>

definition DefaultResidueDepth :: int where
  "DefaultResidueDepth = 10"

record residual_commit =
  rs_sha :: string
  rs_subject :: string

record landing_evidence =
  le_landed_sha :: string
  le_landing_sha :: string
  le_pull_request :: "pull_request option"
  le_residue :: "residual_commit list"
  le_truncated :: bool

definition SplitNonEmptyLines :: "string \<Rightarrow> string list" where
  "SplitNonEmptyLines value = filter (\<lambda>line. line \<noteq> []) (map TrimSpace (Split value LF))"

definition CommitsNotIn :: "git_query \<Rightarrow> string \<Rightarrow> string \<Rightarrow> string \<Rightarrow> int \<Rightarrow> (string, string list \<times> bool) result" where
  "CommitsNotIn git repository target head limit =
     (case git repository [''rev-list'', ''--max-count='' @ Itoa (limit + 1), head, ''--not'', target] of
        Inl err \<Rightarrow> Inl (''list commits of '' @ head @ '' not in '' @ target @ '': '' @ err)
      | Inr output \<Rightarrow>
          let commits = SplitNonEmptyLines output in
          if int (length commits) > limit then Inr (take (nat limit) commits, True) else Inr (commits, False))"

definition residual_of :: "string \<Rightarrow> residual_commit" where
  "residual_of line = (case Cut line (CHR '' '') of (sha, subject, _) \<Rightarrow> \<lparr>rs_sha = sha, rs_subject = TrimSpace subject\<rparr>)"

definition ResidualCommits ::
  "git_query \<Rightarrow> string \<Rightarrow> string \<Rightarrow> string \<Rightarrow> string \<Rightarrow> int \<Rightarrow> (string, residual_commit list) result" where
  "ResidualCommits git repository target head landed limit =
     (case git repository [''log'', ''--max-count='' @ Itoa limit, ''--format=%H %s'', head, ''--not'', target, landed] of
        Inl err \<Rightarrow> Inl (''list residual commits of '' @ head @ '' past '' @ landed @ '': '' @ err)
      | Inr output \<Rightarrow> Inr (map residual_of (SplitNonEmptyLines output)))"

fun landing_candidates ::
  "git_query \<Rightarrow> (string \<Rightarrow> (string, verified_candidate option) result) \<Rightarrow> string \<Rightarrow> string \<Rightarrow> string \<Rightarrow> int \<Rightarrow> bool \<Rightarrow> string list \<Rightarrow>
     (string, landing_evidence option) result" where
  "landing_candidates git verify repository target head depth truncated [] =
     Inr (if truncated then Some \<lparr>le_landed_sha = [], le_landing_sha = [], le_pull_request = None, le_residue = [], le_truncated = True\<rparr>
          else None)"
| "landing_candidates git verify repository target head depth truncated (c # cs) =
     (if c = head then landing_candidates git verify repository target head depth truncated cs
      else case verify c of
          Inl err \<Rightarrow> Inl err
        | Inr None \<Rightarrow> landing_candidates git verify repository target head depth truncated cs
        | Inr (Some receipt) \<Rightarrow>
            (case ResidualCommits git repository target head c depth of
               Inl err \<Rightarrow> Inl err
             | Inr residue \<Rightarrow>
                 Inr (Some \<lparr>le_landed_sha = c, le_landing_sha = vc_landing_sha receipt,
                            le_pull_request = vc_pull_request receipt, le_residue = residue, le_truncated = False\<rparr>)))"

definition LandingEvidenceFor ::
  "git_query \<Rightarrow> (string \<Rightarrow> (string, verified_candidate option) result) \<Rightarrow> string \<Rightarrow> string \<Rightarrow> string \<Rightarrow> int \<Rightarrow>
     (string, landing_evidence option) result" where
  "LandingEvidenceFor git verify repository head target depth0 =
     (let depth = (if depth0 = 0 then DefaultResidueDepth else depth0) in
      if depth < 0 \<or> target = [] \<or> head = [] then Inr None
      else case CommitsNotIn git repository target head depth of
          Inl err \<Rightarrow> Inl err
        | Inr (candidates, truncated) \<Rightarrow>
            if candidates = [] then Inr None
            else landing_candidates git verify repository target head depth truncated candidates)"

text \<open>\<^verbatim>\<open>landing_evidence.go\<close> of \<^verbatim>\<open>internal/worktrees\<close>: the verifier the lifecycle passes.\<close>

definition verify_candidate ::
  "receipt_ports \<Rightarrow> string \<Rightarrow> string \<Rightarrow> string \<Rightarrow> string \<Rightarrow> string \<Rightarrow> string \<Rightarrow> (string, verified_candidate option) result" where
  "verify_candidate p worktree repository slug base target candidate =
     (case GitHubPullRequests p worktree slug candidate of
        Inl err \<Rightarrow> Inl err
      | Inr pullRequests \<Rightarrow>
          (case AbsorbedLandingReceipt p worktree repository slug candidate base target [] pullRequests of
             Failed err \<Rightarrow> Inl err
           | Proved receipt \<Rightarrow> Inr (Some \<lparr>vc_landing_sha = rc_landing_sha receipt, vc_pull_request = rc_pull_request receipt\<rparr>)
           | _ \<Rightarrow> Inr None))"

definition landingEvidence ::
  "receipt_ports \<Rightarrow> string \<Rightarrow> string \<Rightarrow> string \<Rightarrow> string \<Rightarrow> string \<Rightarrow> string \<Rightarrow> int \<Rightarrow> (string, landing_evidence option) result" where
  "landingEvidence p worktree repository slug head base target depth =
     LandingEvidenceFor (r_Git p) (verify_candidate p worktree repository slug base target) repository head target depth"

definition DetachedRefusal :: "string \<Rightarrow> string \<Rightarrow> bool \<Rightarrow> string" where
  "DetachedRefusal headSHA base unknownToRemote =
     (if unknownToRemote then ''detached HEAD '' @ ShortSHA headSHA @ '' was never pushed: GitHub'' @ CHR 0x27 #
           ''s commit index has never seen it, so nothing can prove what it holds''
      else ''detached HEAD '' @ ShortSHA headSHA @ '' is on origin but no merged pull request into '' @ base @ '' is associated with it'')"

definition LandedWithResidue :: "landing_evidence option \<Rightarrow> bool" where
  "LandedWithResidue landing = (case landing of None \<Rightarrow> False | Some l \<Rightarrow> le_landed_sha l \<noteq> [] \<and> le_residue l \<noteq> [])"

definition PluralCommits :: "nat \<Rightarrow> string" where
  "PluralCommits n = (if n = 1 then ''1 residual commit'' else Itoa (int n) @ '' residual commits'')"

definition ResidueSummary :: "landing_evidence \<Rightarrow> string" where
  "ResidueSummary l = Join (map (\<lambda>c. ShortSHA (rs_sha c) @ '' '' @ rs_subject c) (le_residue l)) ''; ''"

definition ResidueReason :: "landing_evidence option \<Rightarrow> string \<Rightarrow> string" where
  "ResidueReason landing task =
     (case landing of
        None \<Rightarrow> []
      | Some l \<Rightarrow>
          ''landed + residue: '' @ ShortSHA (le_landed_sha l) @ '' landed at '' @ ShortSHA (le_landing_sha l) @
          (case le_pull_request l of None \<Rightarrow> [] | Some pr \<Rightarrow> '' via '' @ pr_url pr) @ ''; '' @
          PluralCommits (length (le_residue l)) @ '' not in the target: '' @ ResidueSummary l @
          ''; retire it and discard them with: wb clean --task '' @ task @ '' --allow-residue --apply'')"

section \<open>Target heads\<close>

definition git_RemoteBranchHead :: "git_query \<Rightarrow> string \<Rightarrow> string \<Rightarrow> (string, string) result" where
  "git_RemoteBranchHead git repository branch =
     (case git repository [''ls-remote'', ''--heads'', ''origin'', ''refs/heads/'' @ branch] of
        Inl err \<Rightarrow> Inl err
      | Inr output \<Rightarrow>
          let fs = Fields output in
          if fs = [] then Inr []
          else if length fs \<noteq> 2 then Inl (''unexpected remote branch response for '' @ branch @ '': '' @ quoted output)
          else Inr (fs ! 0))"

definition IsMissingRemoteTargetError :: "string \<Rightarrow> bool" where
  "IsMissingRemoteTargetError err =
     list_ex (\<lambda>marker. Contains (ToLower err) marker)
       [''couldn'' @ CHR 0x27 # ''t find remote ref'', ''could not find remote ref'', ''remote ref does not exist'', ''no such ref'']"

text \<open>
  A fetch: its result, whether the deadline of this fetch expired, and whether the context of the
  caller was done. The cache keeps the first answer of a key, errors included.
\<close>

record target_fetch =
  tf_result :: "(string, string) result"
  tf_deadline :: bool
  tf_ctx_done :: bool

definition FetchRemoteTargetHeadUncached :: "(string \<Rightarrow> string \<Rightarrow> target_fetch) \<Rightarrow> string \<Rightarrow> string \<Rightarrow> string \<Rightarrow> (string, string) result" where
  "FetchRemoteTargetHeadUncached fetch timeout repository branch =
     (let f = fetch repository branch in
      case tf_result f of
        Inr head \<Rightarrow> Inr head
      | Inl err \<Rightarrow>
          if tf_deadline f \<and> \<not> tf_ctx_done f
          then Inl (''fetch exact origin/'' @ branch @ '' target: remote did not answer within '' @ timeout)
          else Inl (''fetch exact origin/'' @ branch @ '' target: '' @ err))"

type_synonym target_cache = "(string \<rightharpoonup> (string, string) result) option"

definition TargetHeadCache_Resolve ::
  "(string \<rightharpoonup> (string, string) result) \<Rightarrow> string \<Rightarrow> string \<Rightarrow> (string, string) result \<Rightarrow>
     (string, string) result \<times> (string \<rightharpoonup> (string, string) result)" where
  "TargetHeadCache_Resolve entries repository branch fetched =
     (let key = repository @ [CHR 0x00] @ branch in
      case entries key of Some answer \<Rightarrow> (answer, entries) | None \<Rightarrow> (fetched, entries(key \<mapsto> fetched)))"

definition FetchRemoteTargetHead ::
  "(string \<Rightarrow> string \<Rightarrow> target_fetch) \<Rightarrow> string \<Rightarrow> string \<Rightarrow> string \<Rightarrow> target_cache \<Rightarrow> (string, string) result \<times> target_cache" where
  "FetchRemoteTargetHead fetch timeout repository branch cache =
     (let fetched = FetchRemoteTargetHeadUncached fetch timeout repository branch in
      case cache of
        None \<Rightarrow> (fetched, None)
      | Some entries \<Rightarrow> apsnd Some (TargetHeadCache_Resolve entries repository branch fetched))"

definition RemoteDefaultBranch :: "git_query \<Rightarrow> (string \<Rightarrow> bool) \<Rightarrow> string \<Rightarrow> (string, string) result" where
  "RemoteDefaultBranch git valid repository =
     (case git repository [''ls-remote'', ''--symref'', ''origin'', ''HEAD''] of
        Inl err \<Rightarrow> Inl (''read origin default branch: '' @ err)
      | Inr output \<Rightarrow> ParseRemoteDefaultBranch output valid)"

section \<open>The default branch standing in for a recorded base\<close>

definition RecordedBaseAbsent :: string where "RecordedBaseAbsent = ''absent''"
definition RecordedBaseIntegrated :: string where "RecordedBaseIntegrated = ''integrated''"

record default_target_ports =
  dt_DefaultBranch :: "(string, string) result"
  dt_FetchTargetHead :: "string \<Rightarrow> (string, string) result"
  dt_IsAncestor :: "string \<Rightarrow> string \<Rightarrow> (string, bool) result"

record default_target =
  dt_target :: string
  dt_target_sha :: string
  dt_recorded_base :: string
  dt_recorded_base_state :: string
  dt_contained :: bool

definition default_target_Proof :: "default_target \<Rightarrow> string" where
  "default_target_Proof t =
     ''contained in origin/'' @ dt_target t @ '' at '' @ ShortSHA (dt_target_sha t) @ '', via recorded base '' @ dt_recorded_base t @ '' ('' @
     (if dt_recorded_base_state t = RecordedBaseIntegrated then ''integrated into origin/'' @ dt_target t
      else dt_recorded_base_state t) @ '')''"

definition ResolveDefaultTarget :: "default_target_ports \<Rightarrow> string \<Rightarrow> string \<Rightarrow> string \<Rightarrow> (string, default_target option) result" where
  "ResolveDefaultTarget ports head recordedBase recordedBaseSHA =
     (case dt_DefaultBranch ports of
        Inl err \<Rightarrow> Inl err
      | Inr branch \<Rightarrow>
      if branch = recordedBase then Inr None
      else case dt_FetchTargetHead ports branch of
        Inl err \<Rightarrow> Inl err
      | Inr targetSHA \<Rightarrow>
      let judge = (\<lambda>state. case dt_IsAncestor ports head targetSHA of
            Inl err \<Rightarrow> Inl err
          | Inr inDefault \<Rightarrow>
              Inr (Some \<lparr>dt_target = branch, dt_target_sha = targetSHA, dt_recorded_base = recordedBase,
                         dt_recorded_base_state = state, dt_contained = inDefault\<rparr>)) in
      if recordedBaseSHA = [] then judge RecordedBaseAbsent
      else case dt_IsAncestor ports recordedBaseSHA targetSHA of
        Inl err \<Rightarrow> Inl err
      | Inr False \<Rightarrow> Inr None
      | Inr True \<Rightarrow> judge RecordedBaseIntegrated)"

definition ProvenDefaultTarget :: "default_target_ports \<Rightarrow> string \<Rightarrow> string \<Rightarrow> string \<Rightarrow> default_target option" where
  "ProvenDefaultTarget ports head recordedBase recordedBaseSHA =
     (case ResolveDefaultTarget ports head recordedBase recordedBaseSHA of
        Inl _ \<Rightarrow> None
      | Inr None \<Rightarrow> None
      | Inr (Some t) \<Rightarrow> if \<not> dt_contained t then None else Some t)"

definition NotIntegratedReason :: "string \<Rightarrow> string \<Rightarrow> string \<Rightarrow> string \<Rightarrow> string \<Rightarrow> string" where
  "NotIntegratedReason head base targetSHA branch remoteHead =
     (let reason = ''current branch head '' @ ShortSHA head @ '' is not integrated into the exact origin target'' @
            (if base \<noteq> [] \<and> targetSHA \<noteq> [] then '' origin/'' @ base @ '' at '' @ ShortSHA targetSHA else []) in
      if remoteHead \<noteq> [] \<and> remoteHead = head then reason @ '' (pushed to origin/'' @ branch @ '', awaiting merge)''
      else reason @ '' (awaiting push)'')"

definition ExplicitTargetProof :: "string \<Rightarrow> string \<Rightarrow> string \<Rightarrow> string" where
  "ExplicitTargetProof target targetSHA recordedBase =
     ''contained in origin/'' @ target @ '' at '' @ ShortSHA targetSHA @ '', the base named with --base'' @
     (if recordedBase \<noteq> [] \<and> recordedBase \<noteq> target then '' (recorded base '' @ recordedBase @ '')'' else [])"

end
