(* ===== verification/Git_Remote.thy ===== *)
theory Git_Remote
  imports Go_Filepath
begin

text \<open>
  Git remotes that may cross a session boundary (\<^verbatim>\<open>internal/gitremote/remote.go\<close>): which
  spellings are accepted, and the identity each of them has.

  \<^verbatim>\<open>net/url.Parse\<close> is modelled for strings without percent signs, line for line as the
  library splits them; the caller refuses every string with a percent sign, whether or not the
  library accepts it, and the model does not tell its two messages for that apart.
\<close>

section \<open>Further library functions\<close>

definition TrimSuffix :: "string \<Rightarrow> string \<Rightarrow> string" where
  "TrimSuffix s p = (if HasSuffix s p then take (length s - length p) s else s)"

definition count_byte :: "char \<Rightarrow> string \<Rightarrow> nat" where
  "count_byte c s = length (filter (\<lambda>x. x = c) s)"

text \<open>\<^verbatim>\<open>strings.Cut\<close> at the last occurrence of a byte.\<close>

definition cut_last :: "string \<Rightarrow> char \<Rightarrow> (string \<times> string) option" where
  "cut_last s b =
     (if b \<in> set s then
        (let r = takeWhile (\<lambda>c. c \<noteq> b) (rev s) in Some (take (length s - length r - 1) s, rev r))
      else None)"

definition is_letter :: "char \<Rightarrow> bool" where
  "is_letter c \<longleftrightarrow> (CHR ''a'' \<le> c \<and> c \<le> CHR ''z'') \<or> (CHR ''A'' \<le> c \<and> c \<le> CHR ''Z'')"

definition is_dec :: "char \<Rightarrow> bool" where
  "is_dec c \<longleftrightarrow> CHR ''0'' \<le> c \<and> c \<le> CHR ''9''"

lemma cut_last_append: "b \<notin> set t \<Longrightarrow> cut_last (s @ b # t) b = Some (s, t)"
  by (simp add: cut_last_def takeWhile_append)

lemma cut_last_None: "cut_last s b = None \<longleftrightarrow> b \<notin> set s"
  by (simp add: cut_last_def Let_def)

lemma cut_last_Some: "cut_last s b = Some (x, y) \<Longrightarrow> s = x @ b # y \<and> b \<notin> set y"
proof -
  assume a: "cut_last s b = Some (x, y)"
  then have "b \<in> set s" by (simp add: cut_last_def split: if_split_asm)
  then obtain u v where "s = u @ b # v" "b \<notin> set v" by (meson split_list_last)
  with a show ?thesis by (simp add: cut_last_append)
qed

section \<open>URLs\<close>

record url =
  u_scheme :: string
  u_opaque :: string
  u_user :: "string option"
  u_host :: string
  u_path :: string
  u_raw_path :: string
  u_raw_query :: string
  u_fragment :: string

definition ctl_byte :: "char \<Rightarrow> bool" where
  "ctl_byte c \<longleftrightarrow> (of_char c :: nat) < 32 \<or> (of_char c :: nat) = 127"

text \<open>\<^verbatim>\<open>getScheme\<close>: \<open>None\<close> is the error \<^verbatim>\<open>missing protocol scheme\<close>.\<close>

fun get_scheme :: "string \<Rightarrow> string \<Rightarrow> string \<Rightarrow> (string \<times> string) option" where
  "get_scheme raw acc [] = Some ([], raw)"
| "get_scheme raw acc (c # cs) =
     (if is_letter c then get_scheme raw (acc @ [c]) cs
      else if is_dec c \<or> c = CHR ''+'' \<or> c = CHR ''-'' \<or> c = CHR ''.'' then
        (if acc = [] then Some ([], raw) else get_scheme raw (acc @ [c]) cs)
      else if c = CHR '':'' then (if acc = [] then None else Some (acc, cs))
      else Some ([], raw))"

definition validOptionalPort :: "string \<Rightarrow> bool" where
  "validOptionalPort port \<longleftrightarrow> port = [] \<or> hd port = CHR '':'' \<and> list_all is_dec (tl port)"

definition host_byte :: "char \<Rightarrow> bool" where
  "host_byte c \<longleftrightarrow> is_letter c \<or> is_dec c \<or> c \<in> set ''-_.~!$&()*+,;=:[]<>'' \<or> c = CHR 0x22 \<or> c = CHR 0x27 \<or>
     128 \<le> (of_char c :: nat)"

definition parse_host :: "string \<Rightarrow> string option" where
  "parse_host host =
     (if HasPrefix host ''['' then
        (case cut_last host (CHR '']'') of
           None \<Rightarrow> None
         | Some (_, port) \<Rightarrow> if validOptionalPort port \<and> list_all host_byte host then Some host else None)
      else case cut_last host (CHR '':'') of
         Some (_, port) \<Rightarrow> if list_all is_dec port \<and> list_all host_byte host then Some host else None
       | None \<Rightarrow> if list_all host_byte host then Some host else None)"

definition userinfo_byte :: "char \<Rightarrow> bool" where
  "userinfo_byte c \<longleftrightarrow> is_letter c \<or> is_dec c \<or> c \<in> set ''-._:~!$&()*+,;=@'' \<or> c = CHR 0x27"

definition parse_authority :: "string \<Rightarrow> (string option \<times> string) option" where
  "parse_authority authority =
     (case cut_last authority (CHR ''@'') of
        None \<Rightarrow> map_option (\<lambda>h. (None, h)) (parse_host authority)
      | Some (userinfo, host) \<Rightarrow>
          (case parse_host host of
             None \<Rightarrow> None
           | Some h \<Rightarrow> if list_all userinfo_byte userinfo then Some (Some userinfo, h) else None))"

definition path_byte :: "char \<Rightarrow> bool" where
  "path_byte c \<longleftrightarrow> is_letter c \<or> is_dec c \<or> c \<in> set ''-_.~$&+,/:;=@''"

definition no_url :: url where
  "no_url = \<lparr>u_scheme = [], u_opaque = [], u_user = None, u_host = [], u_path = [], u_raw_path = [], u_raw_query = [],
     u_fragment = []\<rparr>"

text \<open>\<^verbatim>\<open>setPath\<close>: a path with a byte the default encoding would escape keeps its raw form.\<close>

definition set_path :: "string \<Rightarrow> url \<Rightarrow> url" where
  "set_path p u = u\<lparr>u_path := p, u_raw_path := (if list_all path_byte p then [] else p)\<rparr>"

definition parse_rest :: "string \<Rightarrow> string \<Rightarrow> url option" where
  "parse_rest scheme rest =
     (let (rest, query) = (case IndexByte rest (CHR ''?'') of
            None \<Rightarrow> (rest, []) | Some i \<Rightarrow> (take i rest, drop (Suc i) rest));
          u = no_url\<lparr>u_scheme := ToLower scheme, u_raw_query := query\<rparr> in
      if \<not> HasPrefix rest ''/'' then
        (if scheme \<noteq> [] then Some (u\<lparr>u_opaque := rest\<rparr>)
         else if CHR '':'' \<in> set (takeWhile (\<lambda>c. c \<noteq> CHR ''/'') rest) then None
         else Some (set_path rest u))
      else if (scheme \<noteq> [] \<or> \<not> HasPrefix rest ''///'') \<and> HasPrefix rest ''//'' then
        (let authority = takeWhile (\<lambda>c. c \<noteq> CHR ''/'') (drop 2 rest); path = dropWhile (\<lambda>c. c \<noteq> CHR ''/'') (drop 2 rest) in
         map_option (\<lambda>(user, host). set_path path (u\<lparr>u_user := user, u_host := host\<rparr>)) (parse_authority authority))
      else Some (set_path rest u))"

definition url_Parse :: "string \<Rightarrow> url option" where
  "url_Parse raw =
     (let (u, frag, _) = Cut raw (CHR ''#'') in
      if list_ex ctl_byte u then None
      else if u = ''*'' then Some (no_url\<lparr>u_path := ''*'', u_fragment := frag\<rparr>)
      else case get_scheme u [] u of
        None \<Rightarrow> None
      | Some (scheme, rest) \<Rightarrow> map_option (\<lambda>x. x\<lparr>u_fragment := frag\<rparr>) (parse_rest scheme rest))"

text \<open>\<^verbatim>\<open>URL.Hostname\<close> and \<^verbatim>\<open>URL.Port\<close>.\<close>

definition split_host_port :: "string \<Rightarrow> string \<times> string" where
  "split_host_port hostPort =
     (let (host, port) = (case cut_last hostPort (CHR '':'') of
            Some (h, p) \<Rightarrow> if list_all is_dec p then (h, p) else (hostPort, [])
          | None \<Rightarrow> (hostPort, [])) in
      if HasPrefix host ''['' \<and> HasSuffix host '']'' then (butlast (tl host), port) else (host, port))"

section \<open>Identities\<close>

record identity =
  id_repository :: string
  id_host :: string
  id_local_path :: string

record remote =
  rm_raw :: string
  rm_identity :: identity

datatype remote_error =
    NotOneArgument | UnsupportedURL | UserInformation | EncodedData | MissingHost | NotLocalFile | UnsupportedScheme
  | NotScp | ScpUser | InvalidHost | UncleanPath | NoIdentity | NotTwoSegments | InvalidSegments

definition Equal :: "identity \<Rightarrow> identity \<Rightarrow> bool" where
  "Equal a b \<longleftrightarrow> id_repository a = id_repository b \<and> id_host a = id_host b \<and> id_local_path a = id_local_path b"

definition segment_char :: "char \<Rightarrow> bool" where
  "segment_char c \<longleftrightarrow> is_letter c \<or> is_dec c \<or> c = CHR ''.'' \<or> c = CHR ''_'' \<or> c = CHR ''-''"

text \<open>
  \<^verbatim>\<open>safeSegment\<close>. The loop runs over runes; a byte outside ASCII belongs to a rune that is none
  of the characters tested, so that looking at bytes is the same.
\<close>

definition safeSegment :: "string \<Rightarrow> bool \<Rightarrow> bool" where
  "safeSegment segment repo =
     (if segment = [] \<or> segment = ''.'' \<or> segment = ''..'' then False
      else list_all segment_char segment \<and>
           (is_letter (hd segment) \<or> is_dec (hd segment) \<or> repo \<and> hd segment = CHR ''.''))"

definition host_label :: "string \<Rightarrow> bool" where
  "host_label label \<longleftrightarrow>
     label \<noteq> [] \<and> \<not> HasPrefix label ''-'' \<and> \<not> HasSuffix label ''-'' \<and>
     list_all (\<lambda>c. is_letter c \<or> is_dec c \<or> c = CHR ''-'') label"

definition validHost :: "string \<Rightarrow> bool" where
  "validHost host =
     (if host = [] \<or> host \<noteq> TrimSpace host \<or> list_ex (\<lambda>c. c = CHR ''@'' \<or> c = CHR ''/'' \<or> c = CHR 0x5C) host then False
      else list_all host_label (Split host (CHR ''.'')))"

definition repositoryFromTwoSegments :: "string \<Rightarrow> (remote_error, string) result" where
  "repositoryFromTwoSegments path =
     (let path = TrimSuffix (TrimSuffix path ''/'') ''.git'' in
      if count_byte (CHR ''/'') path \<noteq> 1 then Inl NotTwoSegments
      else case Cut path (CHR ''/'') of (owner, name, found) \<Rightarrow>
        if \<not> found \<or> \<not> safeSegment owner False \<or> \<not> safeSegment name True then Inl InvalidSegments
        else Inr path)"

definition identityFromAbsolutePath :: "string \<Rightarrow> (remote_error, identity) result" where
  "identityFromAbsolutePath path =
     (let clean = Clean path in
      if clean \<noteq> path then Inl UncleanPath
      else let segments = Split (TrimSuffix clean ''.git'') (CHR ''/'') in
      if length segments < 3 then Inl NoIdentity
      else case repositoryFromTwoSegments (Join (drop (length segments - 2) segments) ''/'') of
        Inl e \<Rightarrow> Inl e
      | Inr repo \<Rightarrow> Inr \<lparr>id_repository = repo, id_host = [], id_local_path = clean\<rparr>)"

definition identityFromSCP :: "string \<Rightarrow> (remote_error, identity) result" where
  "identityFromSCP raw =
     (case Cut raw (CHR '':'') of (hostSpec, remotePath, found) \<Rightarrow>
      if \<not> found \<or> hostSpec = [] \<or> remotePath = [] \<or>
         list_ex (\<lambda>c. c = CHR ''/'' \<or> c = CHR ''['' \<or> c = CHR '']'') hostSpec then Inl NotScp
      else case (if CHR ''@'' \<in> set hostSpec then
                   (case Cut hostSpec (CHR ''@'') of (user, parsedHost, ok) \<Rightarrow>
                      if \<not> ok \<or> user \<noteq> ''git'' \<or> parsedHost = [] \<or> CHR ''@'' \<in> set parsedHost then Inl ScpUser
                      else Inr parsedHost)
                 else Inr hostSpec) of
        Inl e \<Rightarrow> Inl e
      | Inr host \<Rightarrow>
          if \<not> validHost host then Inl InvalidHost
          else case repositoryFromTwoSegments remotePath of
            Inl e \<Rightarrow> Inl e
          | Inr repo \<Rightarrow> Inr \<lparr>id_repository = repo, id_host = ToLower host, id_local_path = []\<rparr>)"

definition identityFromURL :: "url \<Rightarrow> (remote_error, identity) result" where
  "identityFromURL parsed =
     (if u_scheme parsed = ''https'' \<or> u_scheme parsed = ''ssh'' then
        (case split_host_port (u_host parsed) of (hostname, port) \<Rightarrow>
         if u_host parsed = [] \<or> u_path parsed = [] \<or> \<not> validHost hostname then Inl MissingHost
         else case repositoryFromTwoSegments (TrimPrefix (u_path parsed) ''/'') of
           Inl e \<Rightarrow> Inl e
         | Inr repo \<Rightarrow>
             Inr \<lparr>id_repository = repo, id_host = ToLower hostname @ (if port = [] then [] else '':'' @ port), id_local_path = []\<rparr>)
      else if u_scheme parsed = ''file'' then
        (if u_host parsed \<noteq> [] \<and> u_host parsed \<noteq> ''localhost'' \<or> \<not> IsAbs (u_path parsed) then Inl NotLocalFile
         else identityFromAbsolutePath (u_path parsed))
      else Inl UnsupportedScheme)"

definition Parse_remote :: "string \<Rightarrow> (remote_error, remote) result" where
  "Parse_remote raw =
     (let with_raw = map_sum id (\<lambda>identity. \<lparr>rm_raw = raw, rm_identity = identity\<rparr>) in
      if raw \<noteq> TrimSpace raw \<or> raw = [] \<or> HasPrefix raw ''-'' \<or>
         list_ex (\<lambda>rb. IsSpace (fst rb)) (utf8_chunks raw) \<or> CHR 0x00 \<in> set raw then Inl NotOneArgument
      else if IsAbs raw then with_raw (identityFromAbsolutePath raw)
      else if \<not> Contains raw ''://'' \<and> count_byte (CHR '':'') raw = 1 then with_raw (identityFromSCP raw)
      else if CHR ''%'' \<in> set raw then Inl EncodedData
      else case url_Parse raw of
        None \<Rightarrow> Inl UnsupportedURL
      | Some parsed \<Rightarrow>
          if u_scheme parsed = [] \<or> u_opaque parsed \<noteq> [] then Inl UnsupportedURL
          else if u_user parsed \<noteq> None \<and> \<not> (u_scheme parsed = ''ssh'' \<and> u_user parsed = Some ''git'') then Inl UserInformation
          else if u_raw_query parsed \<noteq> [] \<or> u_fragment parsed \<noteq> [] \<or> u_raw_path parsed \<noteq> [] then Inl EncodedData
          else with_raw (identityFromURL parsed))"

section \<open>Character classes\<close>

definition host_char :: "char \<Rightarrow> bool" where
  "host_char c \<longleftrightarrow> is_letter c \<or> is_dec c \<or> c = CHR ''-'' \<or> c = CHR ''.''"

text \<open>A character of a host, a segment or a path of segments: printable, and no delimiter of a URL.\<close>

definition plain_char :: "char \<Rightarrow> bool" where
  "plain_char c \<longleftrightarrow> segment_char c \<or> c = CHR ''/''"

lemmas char_class_defs = plain_char_def segment_char_def host_char_def is_letter_def is_dec_def less_eq_char_def

lemma plain_char_facts:
  assumes "plain_char c"
  shows "printable c" "c \<noteq> CHR '':''" "c \<noteq> CHR ''@''" "c \<noteq> CHR ''?''" "c \<noteq> CHR ''#''" "c \<noteq> CHR ''%''"
    "c \<noteq> CHR 0x00" "\<not> ctl_byte c" "path_byte c" "c \<noteq> CHR ''[''" "c \<noteq> CHR '']''"
  using assms by (auto simp: char_class_defs printable_def ctl_byte_def path_byte_def)

lemma segment_plain: "segment_char c \<Longrightarrow> plain_char c" "segment_char c \<Longrightarrow> c \<noteq> CHR ''/''"
  by (auto simp: char_class_defs)

lemma host_char_segment: "host_char c \<Longrightarrow> segment_char c"
  by (auto simp: host_char_def segment_char_def)

lemma host_char_byte: "host_char c \<Longrightarrow> host_byte c"
  by (auto simp: host_char_def host_byte_def)

lemma host_byte_simps [simp]: "is_dec c \<Longrightarrow> host_byte c" "host_byte (CHR '':'')"
  by (simp_all add: host_byte_def)

lemma set_Join: "set (Join ws sep) \<subseteq> (\<Union>w \<in> set ws. set w) \<union> set sep"
  by (induction ws sep rule: Join.induct) auto

lemma Split_chars: "c \<in> set s \<Longrightarrow> c = b \<or> (\<exists>w \<in> set (Split s b). c \<in> set w)"
  using set_Join [of "Split s b" "[b]"] Join_Split [of s b] by auto

lemma validHost_chars: "validHost h \<Longrightarrow> list_all host_char h \<and> h \<noteq> []"
  unfolding validHost_def list_all_iff host_label_def host_char_def
  by (auto split: if_split_asm dest: Split_chars [where b = "CHR ''.''"])

lemma safeSegment_chars: "safeSegment s r \<Longrightarrow> list_all segment_char s \<and> s \<noteq> []"
  by (simp add: safeSegment_def split: if_split_asm)

lemma TrimSuffix_cases: "TrimSuffix s p = s \<or> s = TrimSuffix s p @ p"
  by (auto simp: TrimSuffix_def HasSuffix_iff)

lemma Cut_found: "Cut s b = (x, y, True) \<Longrightarrow> s = x @ b # y \<and> b \<notin> set x"
  by (auto simp: Cut_def id_take_nth_drop [symmetric] dest!: IndexByte_Some split: option.split_asm)

lemma Cut_append: "b \<notin> set x \<Longrightarrow> Cut (x @ b # y) b = (x, y, True)"
  using IndexByte_takeWhile [of b "x @ b # y"] by (simp add: Cut_def takeWhile_append)

lemma Cut_none: "b \<notin> set s \<Longrightarrow> Cut s b = (s, [], False)"
  using IndexByte_None_iff [of s b] by (simp add: Cut_def)

text \<open>What \<^verbatim>\<open>repositoryFromTwoSegments\<close> accepts.\<close>

lemma two_segments_Inr:
  assumes "repositoryFromTwoSegments path = Inr repo"
  shows "list_all plain_char path" "\<exists>o' n. repo = o' @ CHR ''/'' # n \<and> safeSegment o' False \<and> safeSegment n True"
proof -
  let ?p = "TrimSuffix path ''/''" and ?q = "TrimSuffix (TrimSuffix path ''/'') ''.git''"
  obtain x y where c: "Cut ?q (CHR ''/'') = (x, y, True)" "safeSegment x False" "safeSegment y True" "repo = ?q"
    using assms by (auto simp: repositoryFromTwoSegments_def Let_def split: if_split_asm prod.split_asm)
  from Cut_found [OF c(1)] have q: "?q = x @ CHR ''/'' # y" by simp
  then show "\<exists>o' n. repo = o' @ CHR ''/'' # n \<and> safeSegment o' False \<and> safeSegment n True" using c by blast
  have "list_all plain_char ?q"
    using safeSegment_chars [OF c(2)] safeSegment_chars [OF c(3)] q segment_plain(1)
    by (auto simp: list_all_iff plain_char_def)
  then have "list_all plain_char ?p"
    using TrimSuffix_cases [of ?p "''.git''"] by (auto simp: list_all_append char_class_defs dest: arg_cong [where f = "list_all plain_char"])
  then show "list_all plain_char path"
    using TrimSuffix_cases [of path "''/''"] by (auto simp: char_class_defs dest: arg_cong [where f = "list_all plain_char"])
qed

lemma two_segments_ok:
  assumes "safeSegment x False" "safeSegment y True" "\<not> HasSuffix y ''.git''"
  shows "repositoryFromTwoSegments (x @ CHR ''/'' # y) = Inr (x @ CHR ''/'' # y)"
    and "repositoryFromTwoSegments (x @ CHR ''/'' # y @ ''.git'') = Inr (x @ CHR ''/'' # y)"
proof -
  have ch: "CHR ''/'' \<notin> set x" "CHR ''/'' \<notin> set y" "y \<noteq> []"
    using safeSegment_chars [OF assms(1)] safeSegment_chars [OF assms(2)] segment_plain(2) by (auto simp: list_all_iff)
  have slash: "\<not> HasSuffix (x @ CHR ''/'' # z) ''/''" if "z \<noteq> []" "CHR ''/'' \<notin> set z" for z
    using that by (auto simp: HasSuffix_iff) (metis append_is_Nil_conv last.simps last_append last_in_set list.distinct(1))
  have git: "\<not> HasSuffix (x @ CHR ''/'' # y) ''.git''"
  proof
    assume "HasSuffix (x @ CHR ''/'' # y) ''.git''"
    then obtain t where t: "x @ CHR ''/'' # y = t @ ''.git''" by (auto simp: HasSuffix_iff)
    have l: "length x + length y = length t + 3" using arg_cong [OF t, of length] by simp
    have "length y < 4"
    proof (rule ccontr)
      assume "\<not> length y < 4"
      then have "length x < length t" using l by simp
      then have "y = drop (Suc (length x)) t @ ''.git''" using arg_cong [OF t, of "drop (Suc (length x))"] by simp
      then show False using assms(3) by (simp add: HasSuffix_iff)
    qed
    then have "drop (length t) x @ CHR ''/'' # y = ''.git''" using l arg_cong [OF t, of "drop (length t)"] by simp
    then have "CHR ''/'' \<in> set ''.git''" by (metis in_set_conv_decomp)
    then show False by simp
  qed
  have once: "count_byte (CHR ''/'') (x @ CHR ''/'' # y) = 1"
    using ch by (auto simp: count_byte_def filter_empty_conv)
  have cut: "Cut (x @ CHR ''/'' # y) (CHR ''/'') = (x, y, True)" using ch(1) by (rule Cut_append)
  show "repositoryFromTwoSegments (x @ CHR ''/'' # y) = Inr (x @ CHR ''/'' # y)"
    using slash [OF ch(3,2)] git once cut assms by (simp add: repositoryFromTwoSegments_def TrimSuffix_def Let_def)
  have "TrimSuffix ((x @ CHR ''/'' # y) @ ''.git'') ''.git'' = x @ CHR ''/'' # y"
    by (simp add: TrimSuffix_def HasSuffix_def)
  moreover have "\<not> HasSuffix (x @ CHR ''/'' # y @ ''.git'') ''/''" using slash [of "y @ ''.git''"] ch by simp
  ultimately show "repositoryFromTwoSegments (x @ CHR ''/'' # y @ ''.git'') = Inr (x @ CHR ''/'' # y)"
    using git once cut assms by (simp add: repositoryFromTwoSegments_def TrimSuffix_def [of _ "''/''"] Let_def)
qed

lemma two_slashes: "repositoryFromTwoSegments (''//'' @ v) \<noteq> Inr repo"
proof
  assume a: "repositoryFromTwoSegments (''//'' @ v) = Inr repo"
  let ?q = "TrimSuffix (TrimSuffix (''//'' @ v) ''/'') ''.git''"
  obtain x y where c: "Cut ?q (CHR ''/'') = (x, y, True)" "safeSegment x False"
    using a by (auto simp: repositoryFromTwoSegments_def Let_def split: if_split_asm prod.split_asm)
  have q: "?q = x @ CHR ''/'' # y" "CHR ''/'' \<notin> set x" using Cut_found [OF c(1)] by auto
  obtain w w' where w: "''//'' @ v = (?q @ w) @ w'"
    using TrimSuffix_cases [of "''//'' @ v" "''/''"] TrimSuffix_cases [of "TrimSuffix (''//'' @ v) ''/''" "''.git''"]
    by (metis append.right_neutral)
  then have "x = []" using q by (cases x) auto
  then show False using c(2) by (simp add: safeSegment_def)
qed

section \<open>Spellings of one repository\<close>

lemma printable_rune: "printable c \<Longrightarrow> \<not> IsSpace (of_char c)"
  unfolding printable_def by (rule printable_not_space) blast+

lemma plain_fixed_argument:
  assumes "list_all (\<lambda>c. plain_char c \<or> c = CHR '':'' \<or> c = CHR ''@'') raw" "raw \<noteq> []" "hd raw \<noteq> CHR ''-''"
  shows "raw = TrimSpace raw" "\<not> HasPrefix raw ''-''" "\<not> list_ex (\<lambda>rb. IsSpace (fst rb)) (utf8_chunks raw)"
    "CHR 0x00 \<notin> set raw" "CHR ''%'' \<notin> set raw"
proof -
  have p: "list_all printable raw"
    using assms(1) plain_char_facts(1) by (auto simp: list_all_iff printable_def)
  show "raw = TrimSpace raw" using TrimSpace_printable [OF p] by simp
  show "\<not> HasPrefix raw ''-''" using assms(2,3) by (cases raw) (auto simp: HasPrefix_def)
  show "\<not> list_ex (\<lambda>rb. IsSpace (fst rb)) (utf8_chunks raw)"
    unfolding utf8_chunks_printable [OF p] list_ex_iff
  proof
    assume "\<exists>rb \<in> set (map (\<lambda>c. (of_char c, [c])) raw). IsSpace (fst rb)"
    then obtain c where "c \<in> set raw" "IsSpace (of_char c)" by auto
    then show False using p printable_rune [of c] by (simp add: list_all_iff)
  qed
  have "\<not> plain_char (CHR 0x00)" "\<not> plain_char (CHR ''%'')" by (simp_all add: char_class_defs)
  then show "CHR 0x00 \<notin> set raw" "CHR ''%'' \<notin> set raw"
    using assms(1) by (auto simp: list_all_iff)
qed

definition hosted :: "string \<Rightarrow> string \<Rightarrow> identity" where
  "hosted host repo = \<lparr>id_repository = repo, id_host = host, id_local_path = []\<rparr>"

text \<open>An authority with an optional port, and a path of two segments.\<close>

lemma parse_rest_hosted:
  assumes h: "list_all host_char h" "h \<noteq> []" and port: "list_all is_dec port"
    and path: "list_all plain_char path"
    and a: "authority = h @ (if port = [] then [] else CHR '':'' # port)"
    and "scheme \<noteq> []"
  shows "parse_rest scheme (''//'' @ authority @ CHR ''/'' # path) = Some (no_url\<lparr>u_scheme := ToLower scheme,
      u_host := authority, u_path := CHR ''/'' # path\<rparr>)"
    and "parse_rest scheme (''//git@'' @ authority @ CHR ''/'' # path) = Some (no_url\<lparr>u_scheme := ToLower scheme,
      u_user := Some ''git'', u_host := authority, u_path := CHR ''/'' # path\<rparr>)"
proof -
  have hc: "segment_char c" if "c \<in> set h" for c using h(1) that host_char_segment by (auto simp: list_all_iff)
  have dec: "segment_char c" if "is_dec c" for c using that by (simp add: segment_char_def)
  have ac: "c = CHR '':'' \<or> segment_char c" if "c \<in> set authority" for c
    using that a hc dec port by (auto simp: list_all_iff split: if_split_asm)
  have "\<not> segment_char (CHR ''@'')" "\<not> segment_char (CHR ''/'')" "\<not> segment_char (CHR ''?'')"
    by (simp_all add: char_class_defs)
  then have noat: "CHR ''@'' \<notin> set authority" "CHR ''/'' \<notin> set authority" "CHR ''?'' \<notin> set authority"
    using ac [of "CHR ''@''"] ac [of "CHR ''/''"] ac [of "CHR ''?''"] by auto
  have nocol: "CHR '':'' \<notin> set h" using hc segment_plain(1) plain_char_facts(2) by blast
  have hb: "list_all host_byte authority"
    using h(1) port a host_char_byte by (auto simp: list_all_iff)
  have nobr: "\<not> HasPrefix authority ''[''"
    using h a hc plain_char_facts(10) segment_plain(1) by (cases h) (auto simp: HasPrefix_def)
  have ph: "parse_host authority = Some authority"
  proof (cases "port = []")
    case True
    then have "cut_last authority (CHR '':'') = None" using a nocol by (simp add: cut_last_None)
    then show ?thesis using nobr hb by (simp add: parse_host_def)
  next
    case False
    have "CHR '':'' \<notin> set port" using port by (auto simp: list_all_iff is_dec_def less_eq_char_def)
    then have "cut_last authority (CHR '':'') = Some (h, port)" using a False by (simp add: cut_last_append)
    then show ?thesis using nobr hb port by (simp add: parse_host_def)
  qed
  have pa: "parse_authority authority = Some (None, authority)"
    using noat(1) ph by (simp add: parse_authority_def cut_last_None [THEN iffD2])
  have pg: "parse_authority (''git@'' @ authority) = Some (Some ''git'', authority)"
    using noat(1) ph cut_last_append [of "CHR ''@''" authority "''git''"]
    by (simp add: parse_authority_def userinfo_byte_def is_letter_def less_eq_char_def)
  have q: "CHR ''?'' \<notin> set path" "list_all path_byte (CHR ''/'' # path)"
    using path plain_char_facts(4,9) by (auto simp: list_all_iff path_byte_def)
  have tw: "takeWhile (\<lambda>c. c \<noteq> CHR ''/'') (authority @ CHR ''/'' # path) = authority"
      "dropWhile (\<lambda>c. c \<noteq> CHR ''/'') (authority @ CHR ''/'' # path) = CHR ''/'' # path"
    using noat(2) by (auto simp: takeWhile_append dropWhile_append)
  have no_q: "IndexByte (authority @ CHR ''/'' # path) (CHR ''?'') = None"
    using noat(3) q(1) by (simp add: IndexByte_None_iff)
  show "parse_rest scheme (''//'' @ authority @ CHR ''/'' # path) = Some (no_url\<lparr>u_scheme := ToLower scheme,
      u_host := authority, u_path := CHR ''/'' # path\<rparr>)"
    using assms(6) no_q tw pa q(2) by (simp add: parse_rest_def HasPrefix_def set_path_def no_url_def)
  show "parse_rest scheme (''//git@'' @ authority @ CHR ''/'' # path) = Some (no_url\<lparr>u_scheme := ToLower scheme,
      u_user := Some ''git'', u_host := authority, u_path := CHR ''/'' # path\<rparr>)"
    using assms(6) no_q tw pg q(2) by (simp add: parse_rest_def HasPrefix_def set_path_def no_url_def)
qed

definition host_port :: "string \<Rightarrow> string \<Rightarrow> string" where
  "host_port h port = h @ (if port = [] then [] else CHR '':'' # port)"

definition slug :: "string \<Rightarrow> string \<Rightarrow> string" where
  "slug x y = x @ CHR ''/'' # y"

text \<open>A host, a port and a path of segments as they occur in the spellings below.\<close>

definition address_parts :: "string \<Rightarrow> string \<Rightarrow> string \<Rightarrow> bool" where
  "address_parts h port path \<longleftrightarrow> validHost h \<and> list_all is_dec port \<and> list_all plain_char path"

lemma host_port_chars:
  assumes "address_parts h port path" "c \<in> set (host_port h port)"
  shows "c = CHR '':'' \<or> plain_char c"
  using assms validHost_chars [of h] host_char_segment segment_plain(1)
  by (auto simp: address_parts_def host_port_def list_all_iff plain_char_def segment_char_def split: if_split_asm)

lemma split_host_port_ok:
  assumes "address_parts h port path"
  shows "split_host_port (host_port h port) = (h, port)"
proof -
  have h: "list_all host_char h" "h \<noteq> []" using assms validHost_chars by (auto simp: address_parts_def)
  have "\<not> host_char (CHR '':'')" "\<not> host_char (CHR ''['')" by (simp_all add: char_class_defs)
  then have n: "CHR '':'' \<notin> set h" "\<not> HasPrefix h ''[''"
    using h by (auto simp: list_all_iff HasPrefix_iff)
  have "\<not> is_dec (CHR '':'')" by (simp add: is_dec_def less_eq_char_def)
  then have p: "CHR '':'' \<notin> set port" "list_all is_dec port" using assms by (auto simp: address_parts_def list_all_iff)
  show ?thesis
    using n p cut_last_append [of "CHR '':''" port h] cut_last_None [of h "CHR '':''"]
    by (cases "port = []") (simp_all add: split_host_port_def host_port_def)
qed

definition lower_char :: "char \<Rightarrow> char" where
  "lower_char c = (if 65 \<le> (of_char c :: nat) \<and> (of_char c :: nat) \<le> 90 then char_of ((of_char c :: nat) + 32) else c)"

lemma ToLower_ascii: "ascii s \<Longrightarrow> ToLower s = map lower_char s"
proof -
  assume a: "ascii s"
  have b: "lower_rune (of_char c, [c]) = [lower_char c]" if "c \<in> set s" for c
  proof -
    have "(of_char c :: nat) < 128" using a that by (auto simp: ascii_def list_all_iff)
    then show ?thesis by (simp add: lower_rune_def lower_char_def)
  qed
  have "concat (map lower_rune (map (\<lambda>c. (of_char c, [c])) s)) = map lower_char s"
    using b by (induction s) auto
  then show ?thesis by (simp add: ToLower_def utf8_chunks_ascii [OF a])
qed

lemma ToLower_schemes: "ToLower ''https'' = ''https''" "ToLower ''ssh'' = ''ssh''"
  by (simp_all add: ToLower_ascii ascii_def lower_char_def)

abbreviation remote_char :: "char \<Rightarrow> bool" where
  "remote_char c \<equiv> plain_char c \<or> c = CHR '':'' \<or> c = CHR ''@''"

lemma remote_char_literals:
  "list_all remote_char ''https''" "list_all remote_char ''ssh''" "list_all remote_char ''://''"
  "list_all remote_char ''git@''" "list_all remote_char ''.git''"
  by (simp_all add: char_class_defs)

lemma remote_char_parts:
  assumes "address_parts h port path"
  shows "list_all remote_char h" "list_all remote_char (host_port h port)" "list_all remote_char path"
proof -
  show p: "list_all remote_char path" using assms by (simp add: address_parts_def list_all_iff)
  show hp: "list_all remote_char (host_port h port)"
    unfolding list_all_iff using host_port_chars [OF assms] by blast
  then show "list_all remote_char h" by (simp add: host_port_def)
qed

lemma remote_char_absent:
  assumes "list_all remote_char s"
  shows "CHR ''#'' \<notin> set s" "\<not> list_ex ctl_byte s"
proof -
  have bad: "\<not> remote_char (CHR ''#'')" by (simp add: char_class_defs)
  show "CHR ''#'' \<notin> set s" using assms bad unfolding list_all_iff by blast
  have "\<not> ctl_byte c" if "remote_char c" for c
    using that plain_char_facts(8) [of c] by (elim disjE) (simp_all add: ctl_byte_def)
  then show "\<not> list_ex ctl_byte s" using assms unfolding list_all_iff list_ex_iff by blast
qed

lemma url_Parse_hosted:
  assumes "address_parts h port path" "user = [] \<or> user = ''git@''" "scheme = ''https'' \<or> scheme = ''ssh''"
  shows "url_Parse (scheme @ ''://'' @ user @ host_port h port @ CHR ''/'' # path) =
    Some (no_url\<lparr>u_scheme := scheme, u_user := (if user = [] then None else Some ''git''),
      u_host := host_port h port, u_path := CHR ''/'' # path\<rparr>)"
proof -
  let ?raw = "scheme @ ''://'' @ user @ host_port h port @ CHR ''/'' # path"
  have "list_all remote_char scheme" "list_all remote_char user"
    using assms(2,3) remote_char_literals by (elim disjE; simp)+
  moreover have "remote_char (CHR ''/'')" by (simp add: plain_char_def)
  ultimately have "list_all remote_char ?raw"
    using remote_char_parts [OF assms(1)] remote_char_literals(3) by (simp only: list_all_append list.pred_inject simp_thms)
  note raw = remote_char_absent [OF this]
  have cut: "Cut ?raw (CHR ''#'') = (?raw, [], False)" using raw(1) by (rule Cut_none)
  have star: "?raw \<noteq> ''*''" using assms(3) by (elim disjE; simp)
  have gs: "get_scheme ?raw [] ?raw = Some (scheme, ''//'' @ user @ host_port h port @ CHR ''/'' # path)"
    using assms(3) by (elim disjE; simp add: is_letter_def is_dec_def less_eq_char_def)
  have low: "ToLower scheme = scheme" "scheme \<noteq> []" using assms(3) ToLower_schemes by (elim disjE; simp)+
  have h: "list_all host_char h" "h \<noteq> []" "list_all is_dec port" "list_all plain_char path"
    using assms(1) validHost_chars [of h] by (simp_all add: address_parts_def)
  note rest = parse_rest_hosted [OF h host_port_def low(2), unfolded low(1)]
  have "parse_rest scheme (''//'' @ user @ host_port h port @ CHR ''/'' # path) =
      Some (no_url\<lparr>u_scheme := scheme, u_user := (if user = [] then None else Some ''git''),
      u_host := host_port h port, u_path := CHR ''/'' # path\<rparr>)"
    using assms(2)
  proof
    assume "user = []" then show ?thesis using rest(1) by (simp add: no_url_def)
  next
    assume "user = ''git@''" then show ?thesis using rest(2) by (simp add: no_url_def)
  qed
  then show ?thesis unfolding url_Parse_def cut Let_def case_prod_conv gs option.case
    using raw(2) star by (simp add: no_url_def)
qed

text \<open>The two URL spellings and the scp spelling of a repository on a host.\<close>

lemma Parse_url:
  assumes a: "address_parts h port path" and user: "user = [] \<or> user = ''git@'' \<and> scheme = ''ssh''"
    and sch: "scheme = ''https'' \<or> scheme = ''ssh''" and two: "repositoryFromTwoSegments path = Inr repo"
    and raw: "raw = scheme @ ''://'' @ user @ host_port h port @ CHR ''/'' # path"
  shows "Parse_remote raw = Inr \<lparr>rm_raw = raw, rm_identity = hosted (host_port (ToLower h) port) repo\<rparr>"
proof -
  have user': "user = [] \<or> user = ''git@''" using user by blast
  have "list_all remote_char scheme" "list_all remote_char user"
    using user' sch remote_char_literals by (elim disjE; simp)+
  moreover have "remote_char (CHR ''/'')" by (simp add: plain_char_def)
  ultimately have ch: "list_all remote_char raw"
    using remote_char_parts [OF a] remote_char_literals(3) unfolding raw by (simp only: list_all_append list.pred_inject simp_thms)
  have "raw \<noteq> []" and "hd raw \<noteq> CHR ''-''" using sch unfolding raw by (elim disjE; simp)+
  note arg = plain_fixed_argument [OF ch this]
  have abs: "\<not> IsAbs raw" using sch unfolding raw by (elim disjE; simp add: IsAbs_def HasPrefix_def)
  have con: "Contains raw ''://''" unfolding Contains_iff raw by blast
  have h: "validHost h" "h \<noteq> []" using a validHost_chars by (simp_all add: address_parts_def)
  note u = url_Parse_hosted [OF a user' sch, folded raw]
  have id: "identityFromURL (no_url\<lparr>u_scheme := scheme, u_user := x, u_host := host_port h port, u_path := CHR ''/'' # path\<rparr>) =
      Inr (hosted (host_port (ToLower h) port) repo)" for x
    using sch two split_host_port_ok [OF a] h
    by (elim disjE; simp add: identityFromURL_def hosted_def TrimPrefix_def HasPrefix_def host_port_def)
  have sn: "scheme \<noteq> []" using sch by (elim disjE; simp)
  show ?thesis
    using user
  proof
    assume us: "user = []"
    show ?thesis unfolding Parse_remote_def Let_def
      using arg abs con \<open>raw \<noteq> []\<close> sn id [of None] u us by (simp add: no_url_def)
  next
    assume us: "user = ''git@'' \<and> scheme = ''ssh''"
    show ?thesis unfolding Parse_remote_def Let_def
      using arg abs con \<open>raw \<noteq> []\<close> id [of "Some ''git''"] u us by (simp add: no_url_def)
  qed
qed

lemma Parse_scp:
  assumes a: "address_parts h [] path" and two: "repositoryFromTwoSegments path = Inr repo" and "path \<noteq> []"
    and raw: "raw = ''git@'' @ h @ CHR '':'' # path"
  shows "Parse_remote raw = Inr \<lparr>rm_raw = raw, rm_identity = hosted (ToLower h) repo\<rparr>"
proof -
  have h: "validHost h" "h \<noteq> []" "list_all host_char h" using a validHost_chars by (simp_all add: address_parts_def)
  have hp: "plain_char c \<and> c \<noteq> CHR ''/''" if "c \<in> set h" for c
    using that h(3) host_char_segment segment_plain by (auto simp: list_all_iff)
  have pp: "plain_char c" if "c \<in> set path" for c using that a by (simp add: address_parts_def list_all_iff)
  have ch: "list_all remote_char raw"
    using remote_char_parts [OF a] remote_char_literals(4) unfolding raw by (simp only: list_all_append list.pred_inject simp_thms)
  have ne: "raw \<noteq> []" and "hd raw \<noteq> CHR ''-''" unfolding raw by simp_all
  note arg = plain_fixed_argument [OF ch this]
  have abs: "\<not> IsAbs raw" unfolding raw by (simp add: IsAbs_def HasPrefix_def)
  have bad: "\<not> plain_char (CHR '':'')" "\<not> plain_char (CHR ''@'')" "\<not> plain_char (CHR ''['')" "\<not> plain_char (CHR '']'')"
    by (simp_all add: char_class_defs)
  have n: "CHR '':'' \<notin> set h" "CHR ''@'' \<notin> set h" "CHR ''/'' \<notin> set h" "CHR ''['' \<notin> set h" "CHR '']'' \<notin> set h"
      "CHR '':'' \<notin> set path"
    using hp pp bad by blast+
  have one: "count_byte (CHR '':'') raw = 1" using n(1,6) unfolding raw by (auto simp: count_byte_def filter_empty_conv)
  have cut: "Cut raw (CHR '':'') = (''git@'' @ h, path, True)"
    using Cut_append [of "CHR '':''" "''git@'' @ h" path] n(1) unfolding raw by simp
  have cut2: "Cut (''git@'' @ h) (CHR ''@'') = (''git'', h, True)"
    using Cut_append [of "CHR ''@''" "''git''" h] by simp
  have nob: "\<not> list_ex (\<lambda>c. c = CHR ''/'' \<or> c = CHR ''['' \<or> c = CHR '']'') (''git@'' @ h)"
    using n(3-5) by (auto simp: list_ex_iff)
  have "identityFromSCP raw = Inr (hosted (ToLower h) repo)"
    unfolding identityFromSCP_def cut prod.case using nob cut2 n(2) h(1,2) two \<open>path \<noteq> []\<close>
    by (simp add: hosted_def)
  moreover have "\<not> Contains raw ''://''"
  proof
    assume "Contains raw ''://''"
    then obtain u v where r: "raw = u @ CHR '':'' # ''//'' @ v" unfolding Contains_iff by auto
    then have "CHR '':'' \<notin> set u" using one by (auto simp: count_byte_def filter_empty_conv)
    then have "Cut raw (CHR '':'') = (u, ''//'' @ v, True)" unfolding r by (rule Cut_append)
    then have "path = ''//'' @ v" using cut by simp
    with two show False using two_slashes by blast
  qed
  ultimately show ?thesis using arg abs one ne unfolding Parse_remote_def Let_def by simp
qed

section \<open>Where a user name may stand\<close>

definition git_user_only :: "string \<Rightarrow> bool" where
  "git_user_only raw \<longleftrightarrow>
     CHR ''@'' \<notin> set raw \<or>
     (\<exists>rest. raw = ''git@'' @ rest \<and> CHR ''@'' \<notin> set rest) \<or>
     (\<exists>scheme rest. raw = scheme @ ''://git@'' @ rest \<and> ToLower scheme = ''ssh'' \<and>
        CHR ''@'' \<notin> set scheme \<and> CHR ''@'' \<notin> set rest)"

lemma two_segments_no_at: "repositoryFromTwoSegments path = Inr repo \<Longrightarrow> CHR ''@'' \<notin> set path"
  using two_segments_Inr(1) [of path repo] plain_char_facts(3) by (auto simp: list_all_iff)

lemma validHost_no_at: "validHost h \<Longrightarrow> CHR ''@'' \<notin> set h"
  by (auto simp: validHost_def list_ex_iff split: if_split_asm)

lemma get_scheme_split:
  assumes "get_scheme raw acc cs = Some (sch, rest)" "sch \<noteq> []" "raw = acc @ cs" "CHR ''@'' \<notin> set acc"
  shows "raw = sch @ CHR '':'' # rest \<and> CHR ''@'' \<notin> set sch"
  using assms
proof (induction raw acc cs rule: get_scheme.induct)
  case (2 raw acc c cs)
  have "\<not> is_letter (CHR ''@'')" "\<not> is_dec (CHR ''@'')" by (simp_all add: char_class_defs)
  with 2 show ?case by (auto split: if_split_asm)
qed simp

lemma parse_host_same: "parse_host a = Some h \<Longrightarrow> h = a"
  by (auto simp: parse_host_def split: if_split_asm option.split_asm)

lemma parse_authority_split:
  assumes "parse_authority a = Some (user, host)"
  shows "CHR ''@'' \<notin> set host \<and> a = (case user of None \<Rightarrow> host | Some name \<Rightarrow> name @ CHR ''@'' # host)"
proof (cases "cut_last a (CHR ''@'')")
  case None
  then show ?thesis using assms parse_host_same [of a] cut_last_None [of a "CHR ''@''"] by (auto simp: parse_authority_def)
next
  case (Some p)
  obtain name rest where p: "p = (name, rest)" by (cases p)
  then have "parse_host rest = Some host" "user = Some name"
    using assms Some by (auto simp: parse_authority_def split: option.split_asm if_split_asm)
  then show ?thesis using parse_host_same [of rest host] cut_last_Some [of a "CHR ''@''" name rest] Some p by simp
qed

text \<open>A URL with an authority: what stands after \<^verbatim>\<open>scheme:\<close>.\<close>

lemma parse_rest_split:
  assumes "parse_rest scheme rest = Some u" "u_host u \<noteq> []" "u_raw_query u = []"
  shows "\<exists>tail. rest = ''//'' @ (case u_user u of None \<Rightarrow> [] | Some name \<Rightarrow> name @ ''@'') @ u_host u @ u_path u @ tail \<and>
    set tail \<subseteq> {CHR ''?''} \<and> CHR ''@'' \<notin> set (u_host u) \<and> u_scheme u = ToLower scheme"
proof -
  obtain body query where b: "(case IndexByte rest (CHR ''?'') of
        None \<Rightarrow> (rest, []) | Some i \<Rightarrow> (take i rest, drop (Suc i) rest)) = (body, query)" by force
  have "\<exists>tail. rest = body @ tail \<and> (query = [] \<longrightarrow> set tail \<subseteq> {CHR ''?''})"
  proof (cases "IndexByte rest (CHR ''?'')")
    case (Some i)
    then have "i < length rest" "rest ! i = CHR ''?''" using IndexByte_Some by blast+
    then have "rest = take i rest @ CHR ''?'' # drop (Suc i) rest" by (metis id_take_nth_drop)
    then show ?thesis using Some b by (intro exI [of _ "CHR ''?'' # query"]) auto
  qed (use b in auto)
  then obtain tail where t: "rest = body @ tail" "query = [] \<longrightarrow> set tail \<subseteq> {CHR ''?''}" by blast
  let ?a = "takeWhile (\<lambda>c. c \<noteq> CHR ''/'') (drop 2 body)" and ?p = "dropWhile (\<lambda>c. c \<noteq> CHR ''/'') (drop 2 body)"
  obtain user host where pa: "HasPrefix body ''//''" "parse_authority ?a = Some (user, host)"
      "u = set_path ?p (no_url\<lparr>u_scheme := ToLower scheme, u_raw_query := query, u_user := user, u_host := host\<rparr>)"
    using assms(1,2) unfolding parse_rest_def b Let_def
    by (auto simp: set_path_def no_url_def split: if_split_asm)
  have "query = []" using assms(3) pa(3) by (simp add: set_path_def no_url_def)
  moreover have "body = ''//'' @ ?a @ ?p" using pa(1) by (auto simp: HasPrefix_iff)
  ultimately show ?thesis using t parse_authority_split [OF pa(2)] pa(3)
    by (intro exI [of _ tail]) (auto simp: set_path_def no_url_def split: option.split)
qed

lemma Cut_empty_tail:
  assumes "Cut raw b = (x, [], f)"
  shows "\<exists>t. raw = x @ t \<and> set t \<subseteq> {b}"
proof (cases f)
  case True
  then show ?thesis using Cut_found [of raw b x "[]"] assms by (intro exI [of _ "[b]"]) simp
next
  case False
  then show ?thesis using assms by (intro exI [of _ "[]"]) (auto simp: Cut_def split: option.split_asm)
qed

lemma identityFromURL_hosted:
  assumes "identityFromURL u = Inr i" "id_host i \<noteq> []"
  shows "u_host u \<noteq> []" "CHR ''@'' \<notin> set (u_path u)" "u_scheme u \<noteq> ''file''"
proof -
  have h: "u_host u \<noteq> [] \<and> u_scheme u \<noteq> ''file'' \<and> (\<exists>repo. repositoryFromTwoSegments (TrimPrefix (u_path u) ''/'') = Inr repo)"
    using assms
    by (auto simp: identityFromURL_def identityFromAbsolutePath_def Let_def split: if_split_asm sum.split_asm prod.split_asm)
  then show "u_host u \<noteq> []" "u_scheme u \<noteq> ''file''" by simp_all
  have no: "CHR ''@'' \<notin> set (TrimPrefix (u_path u) ''/'')" using h two_segments_no_at by blast
  have "u_path u = TrimPrefix (u_path u) ''/'' \<or> u_path u = CHR ''/'' # TrimPrefix (u_path u) ''/''"
    by (auto simp: TrimPrefix_def HasPrefix_iff)
  then show "CHR ''@'' \<notin> set (u_path u)"
  proof
    assume "u_path u = TrimPrefix (u_path u) ''/''"
    then show ?thesis using no by simp
  next
    assume p: "u_path u = CHR ''/'' # TrimPrefix (u_path u) ''/''"
    show ?thesis by (subst p) (use no in simp)
  qed
qed

lemma identityFromSCP_user:
  assumes "identityFromSCP raw = Inr i"
  shows "git_user_only raw"
proof -
  obtain spec path where c: "Cut raw (CHR '':'') = (spec, path, True)"
    using assms by (cases "Cut raw (CHR '':'')") (auto simp: identityFromSCP_def split: if_split_asm)
  then have raw: "raw = spec @ CHR '':'' # path" using Cut_found by blast
  obtain host repo where h: "validHost host" "repositoryFromTwoSegments path = Inr repo"
      "spec = host \<or> spec = ''git'' @ CHR ''@'' # host"
  proof (cases "CHR ''@'' \<in> set spec")
    case False
    then show ?thesis using assms c that
      by (auto simp: identityFromSCP_def split: if_split_asm sum.split_asm)
  next
    case True
    obtain user host ok where k: "Cut spec (CHR ''@'') = (user, host, ok)" by (cases "Cut spec (CHR ''@'')")
    then show ?thesis using assms c True that [of host] Cut_found [of spec "CHR ''@''" user host]
      by (auto simp: identityFromSCP_def split: if_split_asm sum.split_asm)
  qed
  have no: "CHR ''@'' \<notin> set host" "CHR ''@'' \<notin> set path" using h validHost_no_at two_segments_no_at by blast+
  from h(3) show ?thesis
  proof
    assume "spec = host" then show ?thesis using raw no by (simp add: git_user_only_def)
  next
    assume "spec = ''git'' @ CHR ''@'' # host"
    then have "raw = ''git@'' @ (host @ CHR '':'' # path)" "CHR ''@'' \<notin> set (host @ CHR '':'' # path)" using raw no by simp_all
    then show ?thesis unfolding git_user_only_def by blast
  qed
qed

lemma url_remote_user:
  assumes "url_Parse raw = Some u" "u_scheme u \<noteq> []" "u_raw_query u = []" "u_fragment u = []"
    "u_user u = None \<or> u_scheme u = ''ssh'' \<and> u_user u = Some ''git''"
    "identityFromURL u = Inr i" "id_host i \<noteq> []"
  shows "git_user_only raw"
proof -
  note id = identityFromURL_hosted [OF assms(6,7)]
  obtain front frag found where c: "Cut raw (CHR ''#'') = (front, frag, found)" by (cases "Cut raw (CHR ''#'')")
  obtain scheme rest u' where g: "get_scheme front [] front = Some (scheme, rest)" "parse_rest scheme rest = Some u'"
      "u = u'\<lparr>u_fragment := frag\<rparr>"
    using assms(1,2) unfolding url_Parse_def c Let_def
    by (auto simp: no_url_def split: if_split_asm option.split_asm)
  then obtain t where t: "raw = front @ t" "set t \<subseteq> {CHR ''#''}" using Cut_empty_tail c assms(4) by fastforce
  obtain tail where r: "rest = ''//'' @ (case u_user u of None \<Rightarrow> [] | Some name \<Rightarrow> name @ ''@'') @ u_host u @ u_path u @ tail"
      "set tail \<subseteq> {CHR ''?''}" "CHR ''@'' \<notin> set (u_host u)" "u_scheme u = ToLower scheme"
    using parse_rest_split [OF g(2)] id(1) assms(3) g(3) by auto
  have "scheme \<noteq> []" using r(4) assms(2) by (auto simp: ToLower_def)
  then have f: "front = scheme @ CHR '':'' # rest" "CHR ''@'' \<notin> set scheme"
    using get_scheme_split [OF g(1)] by simp_all
  let ?right = "u_host u @ u_path u @ tail @ t"
  have e: "CHR ''@'' \<notin> set ?right" using r(2,3) id(2) t(2) by auto
  from assms(5) show ?thesis
  proof
    assume "u_user u = None"
    then have "raw = scheme @ ''://'' @ ?right" using t(1) f(1) r(1) by simp
    then show ?thesis using e f(2) by (simp add: git_user_only_def)
  next
    assume s: "u_scheme u = ''ssh'' \<and> u_user u = Some ''git''"
    then have "raw = scheme @ ''://git@'' @ ?right" using t(1) f(1) r(1) by simp
    moreover have "ToLower scheme = ''ssh''" using s r(4) by simp
    ultimately show ?thesis using e f(2) unfolding git_user_only_def by blast
  qed
qed

section \<open>Properties\<close>

text \<open>The six spellings of a repository of a host without a port.\<close>

definition spellings :: "string \<Rightarrow> string \<Rightarrow> string \<Rightarrow> string list" where
  "spellings h x y = concat (map (\<lambda>s.
     [''https://'' @ h @ CHR ''/'' # slug x y @ s, ''ssh://git@'' @ h @ CHR ''/'' # slug x y @ s,
      ''git@'' @ h @ CHR '':'' # slug x y @ s]) [[], ''.git''])"

lemma Parse_spelling:
  assumes "validHost h" "repositoryFromTwoSegments path = Inr repo" "path \<noteq> []"
  shows "Parse_remote (''https://'' @ h @ CHR ''/'' # path) =
      Inr \<lparr>rm_raw = ''https://'' @ h @ CHR ''/'' # path, rm_identity = hosted (ToLower h) repo\<rparr>"
    and "Parse_remote (''ssh://git@'' @ h @ CHR ''/'' # path) =
      Inr \<lparr>rm_raw = ''ssh://git@'' @ h @ CHR ''/'' # path, rm_identity = hosted (ToLower h) repo\<rparr>"
    and "Parse_remote (''git@'' @ h @ CHR '':'' # path) =
      Inr \<lparr>rm_raw = ''git@'' @ h @ CHR '':'' # path, rm_identity = hosted (ToLower h) repo\<rparr>"
proof -
  have a: "address_parts h [] path" using assms two_segments_Inr(1) by (simp add: address_parts_def)
  show "Parse_remote (''https://'' @ h @ CHR ''/'' # path) =
      Inr \<lparr>rm_raw = ''https://'' @ h @ CHR ''/'' # path, rm_identity = hosted (ToLower h) repo\<rparr>"
    using Parse_url [OF a, of "[]" "''https''" repo "''https://'' @ h @ CHR ''/'' # path"] assms(2) by (simp add: host_port_def)
  show "Parse_remote (''ssh://git@'' @ h @ CHR ''/'' # path) =
      Inr \<lparr>rm_raw = ''ssh://git@'' @ h @ CHR ''/'' # path, rm_identity = hosted (ToLower h) repo\<rparr>"
    using Parse_url [OF a, of "''git@''" "''ssh''" repo "''ssh://git@'' @ h @ CHR ''/'' # path"] assms(2) by (simp add: host_port_def)
  show "Parse_remote (''git@'' @ h @ CHR '':'' # path) =
      Inr \<lparr>rm_raw = ''git@'' @ h @ CHR '':'' # path, rm_identity = hosted (ToLower h) repo\<rparr>"
    using a assms(2,3) refl by (rule Parse_scp)
qed

text \<open>
  the https, ssh and scp spellings of a repository, each with or without the
  \<^verbatim>\<open>.git\<close> suffix, are all accepted and have one identity: the repository as
  \<^verbatim>\<open>owner/name\<close> and the host in lower case. So \<^verbatim>\<open>Identity.Equal\<close> holds
  between any two of them, whatever the letter case of the host.
\<close>

theorem spellings_one_identity:
  assumes "validHost h" "safeSegment x False" "safeSegment y True" "\<not> HasSuffix y ''.git''"
    and "raw \<in> set (spellings h x y)"
  shows "Parse_remote raw = Inr \<lparr>rm_raw = raw, rm_identity = hosted (ToLower h) (slug x y)\<rparr>"
proof -
  have p: "repositoryFromTwoSegments (slug x y) = Inr (slug x y)" "repositoryFromTwoSegments (slug x y @ ''.git'') = Inr (slug x y)"
      "slug x y \<noteq> []"
    using two_segments_ok [OF assms(2-4)] by (simp_all add: slug_def)
  have n: "slug x y @ ''.git'' \<noteq> []" by simp
  show ?thesis
    using assms(5) Parse_spelling [OF assms(1) p(1,3)] Parse_spelling [OF assms(1) p(2) n]
    by (auto simp: spellings_def)
qed

theorem spellings_one_identity_witness:
  "Parse_remote ''git@Git.Io:a/b.git'' = Inr \<lparr>rm_raw = ''git@Git.Io:a/b.git'', rm_identity = hosted ''git.io'' ''a/b''\<rparr>"
proof -
  have "list_all printable ''Git.Io''" "list_all host_label (Split ''Git.Io'' (CHR ''.''))" by code_simp+
  then have "validHost ''Git.Io''" by (simp add: validHost_def TrimSpace_printable)
  moreover have "safeSegment ''a'' False" "safeSegment ''b'' True" "\<not> HasSuffix ''b'' ''.git''" "slug ''a'' ''b'' = ''a/b''"
    by code_simp+
  moreover have "''git@Git.Io:a/b.git'' \<in> set (spellings ''Git.Io'' ''a'' ''b'')" by (simp add: spellings_def slug_def)
  moreover have "map lower_char ''Git.Io'' = ''git.io''" "ascii ''Git.Io''" by code_simp+
  then have "ToLower ''Git.Io'' = ''git.io''" by (simp add: ToLower_ascii)
  ultimately show ?thesis using spellings_one_identity [of "''Git.Io''" "''a''" "''b''" "''git@Git.Io:a/b.git''"] by simp
qed

text \<open>
  C21: a remote that is accepted for a host carries no credentials. An at sign occurs in it at most
  once, and only after the user name \<^verbatim>\<open>git\<close>: at the start of the scp form, or in a URL whose scheme
  is \<^verbatim>\<open>ssh\<close>. In particular no password and no other user name reaches the
  \<^verbatim>\<open>Raw\<close> text that is stored.
\<close>

theorem accepted_remote_has_no_credentials:
  assumes "Parse_remote raw = Inr r" "id_host (rm_identity r) \<noteq> []"
  shows "rm_raw r = raw \<and> git_user_only raw"
proof -
  have local: False if "identityFromAbsolutePath raw = Inr i" "id_host i \<noteq> []" for i
    using that by (auto simp: identityFromAbsolutePath_def Let_def split: if_split_asm sum.split_asm)
  consider i where "identityFromAbsolutePath raw = Inr i" "r = \<lparr>rm_raw = raw, rm_identity = i\<rparr>"
    | i where "identityFromSCP raw = Inr i" "r = \<lparr>rm_raw = raw, rm_identity = i\<rparr>"
    | u i where "url_Parse raw = Some u" "u_scheme u \<noteq> []" "u_raw_query u = []" "u_fragment u = []"
      "u_user u = None \<or> u_scheme u = ''ssh'' \<and> u_user u = Some ''git''" "identityFromURL u = Inr i"
      "r = \<lparr>rm_raw = raw, rm_identity = i\<rparr>"
    using assms(1) unfolding Parse_remote_def Let_def
    by (simp split: if_split_asm option.split_asm) (auto simp: map_sum_def split: sum.split_asm)
  then show ?thesis
  proof cases
    case 1 then show ?thesis using local assms(2) by auto
  next
    case 2 then show ?thesis using identityFromSCP_user by simp
  next
    case 3 then show ?thesis using url_remote_user assms(2) by simp
  qed
qed

theorem accepted_remote_has_no_credentials_witness:
  "git_user_only ''ssh://git@h.io:22/a/b''"
proof -
  have "Parse_remote ''ssh://git@h.io:22/a/b'' =
      Inr \<lparr>rm_raw = ''ssh://git@h.io:22/a/b'', rm_identity = hosted ''h.io:22'' ''a/b''\<rparr>"
  proof -
    have "list_all printable ''h.io''" "list_all host_label (Split ''h.io'' (CHR ''.''))" by code_simp+
    then have "validHost ''h.io''" by (simp add: validHost_def TrimSpace_printable)
    moreover have "list_all is_dec ''22''" "list_all plain_char ''a/b''" by code_simp+
    ultimately have a: "address_parts ''h.io'' ''22'' ''a/b''" by (simp add: address_parts_def)
    have "repositoryFromTwoSegments ''a/b'' = Inr ''a/b''" by code_simp
    moreover have "ToLower ''h.io'' = ''h.io''" by (simp add: ToLower_ascii ascii_def lower_char_def)
    ultimately show ?thesis using Parse_url [OF a, of "''git@''" "''ssh''" "''a/b''" "''ssh://git@h.io:22/a/b''"]
      by (simp add: host_port_def)
  qed
  from accepted_remote_has_no_credentials [OF this] show ?thesis by (simp add: hosted_def)
qed

end
