(* ===== verification/Repo_Path.thy ===== *)
theory Repo_Path
  imports Git_Remote WB_Prelude
begin

text \<open>
  Where clones and checkouts live: \<^verbatim>\<open>internal/repopath/repopath.go\<close> (the address of a clone
  below the projects root, its path, its remote URL, discovery of owners and clones) and
  \<^verbatim>\<open>internal/worktreelayout/layout.go\<close> (repository coordinates and checkout paths).

  The file system is a parameter: a listing for each directory and a stat for each path.
  Round trips between addresses, paths, coordinates and clone URLs, the refusal of ambiguous
  coordinates and the separation of checkouts are in \<^verbatim>\<open>Repo_Path_Props\<close>.
\<close>

section \<open>Further library functions\<close>

text \<open>
  \<^verbatim>\<open>filepath.Rel\<close> on two cleaned paths: the common leading elements are dropped, and one
  \<^verbatim>\<open>..\<close> stands for each element that is left of the base.
\<close>

fun drop_common :: "'a list \<Rightarrow> 'a list \<Rightarrow> 'a list \<times> 'a list" where
  "drop_common (x # xs) (y # ys) = (if x = y then drop_common xs ys else (x # xs, y # ys))"
| "drop_common xs ys = (xs, ys)"

definition path_elems :: "string \<Rightarrow> string list" where
  "path_elems p = filter (\<lambda>s. s \<noteq> []) (Split p (CHR ''/''))"

definition Rel :: "string \<Rightarrow> string \<Rightarrow> string option" where
  "Rel basepath targpath =
     (let base = Clean basepath; targ = Clean targpath in
      if targ = base then Some ''.''
      else let base = (if base = ''.'' then [] else base) in
      if IsAbs base \<noteq> IsAbs targ then None
      else case drop_common (path_elems base) (path_elems targ) of (bs, ts) \<Rightarrow>
        if bs \<noteq> [] \<and> ts \<noteq> [] \<and> hd bs = ''..'' then None
        else Some (Join (replicate (length bs) ''..'' @ ts) ''/''))"

section \<open>The file system\<close>

datatype fs_error = FsNotExist | FsError string

record dir_entry =
  de_name :: string
  de_is_dir :: bool

record file_system =
  fs_read_dir :: "string \<Rightarrow> (fs_error, dir_entry list) result"
  fs_stat :: "string \<Rightarrow> (fs_error, bool) result"

section \<open>Segments and host names\<close>

fun safe_segment_loop :: "bool \<Rightarrow> bool \<Rightarrow> string \<Rightarrow> bool" where
  "safe_segment_loop first repository [] = True"
| "safe_segment_loop first repository (c # cs) =
     (let letter = is_letter c; digit = CHR ''0'' \<le> c \<and> c \<le> CHR ''9'' in
      if \<not> letter \<and> \<not> digit \<and> c \<noteq> CHR ''.'' \<and> c \<noteq> CHR ''_'' \<and> c \<noteq> CHR ''-'' then False
      else if first \<and> \<not> (letter \<or> digit \<or> repository \<and> c = CHR ''.'') then False
      else safe_segment_loop False repository cs)"

definition SafeSegment :: "string \<Rightarrow> bool \<Rightarrow> bool" where
  "SafeSegment segment repository =
     (if segment = [] \<or> segment = ''.'' \<or> segment = ''..'' then False
      else safe_segment_loop True repository segment)"

definition validHostLabel :: "string \<Rightarrow> bool" where
  "validHostLabel label =
     (if label = [] \<or> 63 < length label then False
      else if HasPrefix label ''-'' \<or> HasSuffix label ''-'' then False
      else list_all (\<lambda>c. is_letter c \<or> is_dec c \<or> c = CHR ''-'') label)"

definition validPort :: "string \<Rightarrow> bool" where
  "validPort port = (if port = [] \<or> 5 < length port then False else list_all is_dec port)"

definition host_labels_ok :: "string \<Rightarrow> bool" where
  "host_labels_ok host =
     (let labels = Split host (CHR ''.'') in
      2 \<le> length labels \<and> list_all validHostLabel labels \<and> list_all is_letter (last labels))"

definition IsForgeHost :: "string \<Rightarrow> bool" where
  "IsForgeHost name =
     (if name = [] \<or> name \<noteq> TrimSpace name \<or> 253 < length name then False
      else case cut_last name (CHR '':'') of
        Some (host, port) \<Rightarrow> if \<not> validPort port then False else host_labels_ok host
      | None \<Rightarrow> host_labels_ok name)"

definition SafeOwnerSegment :: "string \<Rightarrow> bool" where
  "SafeOwnerSegment name = (if HasPrefix name ''.'' then False else SafeSegment name False \<or> IsForgeHost name)"

section \<open>Addresses\<close>

record address =
  ad_host :: string
  ad_org :: string
  ad_repo :: string

datatype path_error =
    NotHostOrgRepo | NotForgeHost | UnsafeSegments | NoRelative | NotBelowRoot | Ambiguous "string list" | FsFailed fs_error
  | SurroundingSpace | NotOwnerName | NotCoordinate | InvalidTask | UnsafeCloneRelative | NotCanonicalPlace

definition RemoteURL :: "address \<Rightarrow> string" where
  "RemoteURL a = ''https://'' @ ad_host a @ ''/'' @ ad_org a @ ''/'' @ ad_repo a"

definition Relative :: "address \<Rightarrow> string" where
  "Relative a =
     (if ad_host a = [] then ad_org a @ ''/'' @ ad_repo a
      else ad_host a @ ''/'' @ ad_org a @ ''/'' @ ad_repo a)"

definition Slug :: "address \<Rightarrow> string" where
  "Slug a = ad_org a @ ''/'' @ ad_repo a"

definition address_Path :: "address \<Rightarrow> string \<Rightarrow> string" where
  "address_Path a root = filepath_Join [root, ad_host a, ad_org a, ad_repo a]"

definition ParseRelative :: "string \<Rightarrow> (path_error, address) result" where
  "ParseRelative relative =
     (let cleaned = TrimSet ''/'' (TrimSpace relative); parts = Split cleaned (CHR ''/'') in
      if length parts \<noteq> 3 then Inl NotHostOrgRepo
      else let a = \<lparr>ad_host = parts ! 0, ad_org = parts ! 1, ad_repo = parts ! 2\<rparr> in
      if \<not> IsForgeHost (ad_host a) then Inl NotForgeHost
      else if \<not> SafeSegment (ad_org a) False \<or> \<not> SafeSegment (ad_repo a) True then Inl UnsafeSegments
      else Inr a)"

definition FromLocalPath :: "string \<Rightarrow> string \<Rightarrow> (path_error, address) result" where
  "FromLocalPath root path =
     (case Rel root path of
        None \<Rightarrow> Inl NoRelative
      | Some relative \<Rightarrow>
          if relative = ''..'' \<or> HasPrefix relative ''../'' then Inl NotBelowRoot
          else ParseRelative relative)"

definition RemoteURLForLocalPath :: "string \<Rightarrow> string \<Rightarrow> (path_error, string) result" where
  "RemoteURLForLocalPath root path =
     (case FromLocalPath root path of Inl e \<Rightarrow> Inl e | Inr a \<Rightarrow> Inr (RemoteURL a))"

definition FromCloneURL :: "string \<Rightarrow> string \<Rightarrow> string \<Rightarrow> address" where
  "FromCloneURL cloneURL org repo =
     (let a = \<lparr>ad_host = [], ad_org = org, ad_repo = repo\<rparr> in
      case Parse_remote (TrimSpace cloneURL) of
        Inl _ \<Rightarrow> a
      | Inr parsed \<Rightarrow>
          let host = id_host (rm_identity parsed) in
          if \<not> IsForgeHost host then a else a\<lparr>ad_host := host\<rparr>)"

section \<open>Discovery\<close>

record owner_dir =
  ow_host :: string
  ow_name :: string
  ow_path :: string

definition owner_Relative :: "owner_dir \<Rightarrow> string" where
  "owner_Relative ow = (if ow_host ow = [] then ow_name ow else ow_host ow @ ''/'' @ ow_name ow)"

definition organizations :: "string \<Rightarrow> string \<Rightarrow> dir_entry list \<Rightarrow> owner_dir list" where
  "organizations host path ds =
     map (\<lambda>d. \<lparr>ow_host = host, ow_name = de_name d, ow_path = filepath_Join [path, de_name d]\<rparr>)
       (filter (\<lambda>d. de_is_dir d \<and> SafeOwnerSegment (de_name d) \<and> \<not> HasPrefix (de_name d) ''.'') ds)"

text \<open>The first component lists the owners, the second the directories that could not be read.\<close>

fun owners_loop :: "file_system \<Rightarrow> string \<Rightarrow> dir_entry list \<Rightarrow> owner_dir list \<times> (string \<times> fs_error) list" where
  "owners_loop fs root [] = ([], [])"
| "owners_loop fs root (entry # entries) =
     (let (owners, unreadable) = owners_loop fs root entries; path = filepath_Join [root, de_name entry] in
      if \<not> de_is_dir entry \<or> \<not> SafeOwnerSegment (de_name entry) then (owners, unreadable)
      else if \<not> IsForgeHost (de_name entry) then (\<lparr>ow_host = [], ow_name = de_name entry, ow_path = path\<rparr> # owners, unreadable)
      else case fs_read_dir fs path of
        Inl e \<Rightarrow> (owners, (path, e) # unreadable)
      | Inr ds \<Rightarrow> (organizations (de_name entry) path ds @ owners, unreadable))"

definition Owners :: "file_system \<Rightarrow> string \<Rightarrow> owner_dir list \<times> (string \<times> fs_error) list" where
  "Owners fs root =
     (case fs_read_dir fs root of
        Inl FsNotExist \<Rightarrow> ([], [])
      | Inl e \<Rightarrow> ([], [(root, e)])
      | Inr entries \<Rightarrow> let (owners, unreadable) = owners_loop fs root entries in (sort_key ow_path owners, unreadable))"

definition IsClone :: "file_system \<Rightarrow> string \<Rightarrow> bool" where
  "IsClone fs path = (fs_stat fs (filepath_Join [path, ''.git'']) = Inr True)"

definition Locate :: "file_system \<Rightarrow> string \<Rightarrow> string \<Rightarrow> string \<Rightarrow> (path_error, address) result" where
  "Locate fs root org repo =
     (let legacy = \<lparr>ad_host = [], ad_org = org, ad_repo = repo\<rparr> in
      case fs_read_dir fs root of
        Inl FsNotExist \<Rightarrow> Inr legacy
      | Inl e \<Rightarrow> Inl (FsFailed e)
      | Inr entries \<Rightarrow>
          let candidates = map (\<lambda>d. \<lparr>ad_host = de_name d, ad_org = org, ad_repo = repo\<rparr>)
                (filter (\<lambda>d. de_is_dir d \<and> IsForgeHost (de_name d)) entries);
              matches = filter (\<lambda>c. fs_stat fs (filepath_Join [address_Path c root, ''.git'']) = Inr True) candidates in
          case matches of
            [] \<Rightarrow> Inr legacy
          | [m] \<Rightarrow> Inr m
          | _ \<Rightarrow> Inl (Ambiguous (sort (map ad_host matches))))"

definition ClonePathForURL :: "file_system \<Rightarrow> string \<Rightarrow> string \<Rightarrow> string \<Rightarrow> string \<Rightarrow> (path_error, string) result" where
  "ClonePathForURL fs root org repo cloneURL =
     (case Locate fs root org repo of
        Inl e \<Rightarrow> Inl e
      | Inr existing \<Rightarrow>
          let path = address_Path existing root in
          case fs_stat fs (filepath_Join [path, ''.git'']) of
            Inr True \<Rightarrow> Inr path
          | Inl (FsError e) \<Rightarrow> Inl (FsFailed (FsError e))
          | _ \<Rightarrow> Inr (address_Path (FromCloneURL cloneURL org repo) root))"

section \<open>Coordinates and checkouts\<close>

definition ValidSafeSegment :: "string \<Rightarrow> bool" where
  "ValidSafeSegment value = SafeSegment value False"

definition ValidRepositorySegment :: "string \<Rightarrow> bool" where
  "ValidRepositorySegment value = SafeSegment value True"

definition ValidCloneRelative :: "string \<Rightarrow> bool" where
  "ValidCloneRelative relative =
     (let parts = Split relative (CHR ''/'') in
      if length parts = 3 \<and> \<not> IsForgeHost (hd parts) then False
      else let parts = (if length parts = 3 then tl parts else parts) in
      length parts = 2 \<and> ValidSafeSegment (parts ! 0) \<and> ValidRepositorySegment (parts ! 1))"

definition SplitCloneRelative :: "string \<Rightarrow> string \<times> string" where
  "SplitCloneRelative relative =
     (let relative = TrimSet ''/'' (TrimSpace relative) in
      case cut_last relative (CHR ''/'') of None \<Rightarrow> ([], relative) | Some (parent, repository) \<Rightarrow> (parent, repository))"

definition SplitRepositoryAddress :: "string \<Rightarrow> (path_error, address) result" where
  "SplitRepositoryAddress repository =
     (if repository \<noteq> TrimSpace repository then Inl SurroundingSpace
      else let parts = Split repository (CHR ''/'') in
      if length parts = 2 then
        (if \<not> ValidSafeSegment (parts ! 0) \<or> \<not> ValidRepositorySegment (parts ! 1) then Inl NotOwnerName
         else Inr \<lparr>ad_host = [], ad_org = parts ! 0, ad_repo = parts ! 1\<rparr>)
      else if length parts = 3 then ParseRelative repository
      else Inl NotCoordinate)"

definition SplitRepository :: "string \<Rightarrow> (path_error, string \<times> string) result" where
  "SplitRepository repository =
     (case SplitRepositoryAddress repository of Inl e \<Rightarrow> Inl e | Inr a \<Rightarrow> Inr (ad_org a, ad_repo a))"

definition layout_Path :: "string \<Rightarrow> bool \<Rightarrow> string \<Rightarrow> string \<Rightarrow> string \<Rightarrow> (path_error, string) result" where
  "layout_Path root repositoryLocal cloneRelative task repository =
     (case SplitRepositoryAddress repository of
        Inl e \<Rightarrow> Inl e
      | Inr a \<Rightarrow>
          if \<not> ValidSafeSegment task then Inl InvalidTask
          else if repositoryLocal then Inr (filepath_Join [root, task])
          else let relative = TrimSet ''/'' (TrimSpace cloneRelative);
                   relative = (if relative = [] then Relative a else relative) in
          if \<not> ValidCloneRelative relative then Inl UnsafeCloneRelative
          else Inr (filepath_Join [root, task, relative]))"

definition ResolveCanonicalClone :: "file_system \<Rightarrow> string \<Rightarrow> address \<Rightarrow> (path_error, address) result" where
  "ResolveCanonicalClone fs projectsRoot a =
     (if ad_host a \<noteq> [] then Inr a else Locate fs projectsRoot (ad_org a) (ad_repo a))"

definition CanonicalRepositoryPath :: "file_system \<Rightarrow> string \<Rightarrow> string \<Rightarrow> (path_error, string \<times> string \<times> string) result" where
  "CanonicalRepositoryPath fs projectsRoot repository =
     (case SplitRepositoryAddress repository of
        Inl e \<Rightarrow> Inl e
      | Inr a \<Rightarrow>
          case ResolveCanonicalClone fs projectsRoot a of
            Inl e \<Rightarrow> Inl e
          | Inr resolved \<Rightarrow> Inr (ad_org resolved, ad_repo resolved, address_Path resolved projectsRoot))"

definition CanonicalCoordinates :: "string \<Rightarrow> string \<Rightarrow> (path_error, string \<times> string \<times> string) result" where
  "CanonicalCoordinates projectsRoot root =
     (case Rel projectsRoot root of
        None \<Rightarrow> Inl NoRelative
      | Some relative \<Rightarrow>
          let parts = Split relative (CHR ''/'') in
          if length parts = 3 \<and> \<not> IsForgeHost (hd parts) then Inl NotForgeHost
          else let host = (if length parts = 3 then hd parts else []);
                   parts = (if length parts = 3 then tl parts else parts) in
          if length parts \<noteq> 2 then Inl NotCanonicalPlace
          else case SplitRepository (Join parts ''/'') of
            Inl e \<Rightarrow> Inl e
          | Inr (owner, name) \<Rightarrow> Inr (host, owner, name))"

end
