(* ===== verification/Branch_Quarantine.thy ===== *)
theory Branch_Quarantine
  imports Landing_Receipts Repo_Path
begin

text \<open>
  Moving local branches into \<^verbatim>\<open>retired/*\<close>: \<^verbatim>\<open>internal/worktreebranches/quarantine.go\<close>
  (the proof that a branch may be moved) and \<^verbatim>\<open>internal/worktrees/branches_quarantine.go\<close>
  (requests, planning, the durable report and the compare-and-swap of each row).

  The operations the code injects (\<^verbatim>\<open>branchQuarantinePlanOps\<close>) are a record, one value for
  the plan and one for each row that is applied, so that the world may change in between. A run
  also yields its trace: the reports it published and the ref transactions it issued, in order.
\<close>

section \<open>Requests and results\<close>

record quarantine_request =
  rq_repository :: string
  rq_ref :: string
  rq_sha :: string
  rq_reason :: string
  rq_description :: string
  rq_replacement :: "string list"
  rq_retention :: string

record quarantine_result =
  qr_request :: quarantine_request
  qr_destination :: string
  qr_outcome :: string
  qr_error :: string
  qr_original_sha :: string
  qr_retired_sha :: string
  qr_receipt_id :: string
  qr_reviewed_at :: go_time

record quarantine_options =
  qo_repository :: string
  qo_branch :: string
  qo_sha :: string
  qo_reason :: string
  qo_description :: string
  qo_replacement :: "string list"
  qo_retention :: string
  qo_annotate :: bool
  qo_manifest :: string
  qo_apply :: bool
  qo_report_dir :: string

datatype quarantine_error =
    AnnotateFlags | AnnotateRef | InvalidRepository string | InvalidRef string | LineBreaks string string
  | ManifestFlags | ManifestUnreadable string | ManifestEmpty | ManifestNeedsSHA string string | SingleFlags
  | AlreadyRetired string | InvalidSHA string string | NoReason string string | DuplicateEntry string
  | RootFailed string | DiscoveryFailed string | NotDiscovered string | HomeFailed string | ReportDirRefused string
  | ReserveFailed string | ReportFailed string

section \<open>The proof that a branch may be moved\<close>

definition branchQuarantineClaimRefusal :: "inventory_ports \<Rightarrow> string \<Rightarrow> quarantine_request \<Rightarrow> bool \<Rightarrow> string option" where
  "branchQuarantineClaimRefusal p projectsRoot request applying =
     (case p_InUse p projectsRoot [] of (inUse, diagnostic) \<Rightarrow>
      if diagnostic \<noteq> [] then Some diagnostic
      else if inUse (BranchInUseKey (rq_repository request) (rq_ref request)) = None then None
      else if applying then Some ''source became claimed by a live WB work log''
      else Some ''source is claimed by a live WB work log'')"

text \<open>The two pull-request queries at the end of the inspection.\<close>

definition quarantine_pull_refusal :: "inventory_ports \<Rightarrow> string \<Rightarrow> quarantine_request \<Rightarrow> string \<Rightarrow> bool \<Rightarrow> string option" where
  "quarantine_pull_refusal p path request source applying =
     (case p_OpenHeadPull p path (rq_repository request) (rq_ref request) source of
        Inl err \<Rightarrow> Some ((if applying then ''cannot re-prove pull-request safety: '' else ''cannot prove pull-request safety: '') @ err)
      | Inr (Some pr) \<Rightarrow> Some ((if applying then ''source became head of open pull request ''
            else ''source is head of open pull request '') @ pr_url pr)
      | Inr None \<Rightarrow>
          (case p_OpenBasePull p path (rq_repository request) (rq_ref request) of
             Inl err \<Rightarrow> Some ((if applying then ''cannot re-prove pull-request base safety: ''
                 else ''cannot prove pull-request base safety: '') @ err)
           | Inr (Some pr) \<Rightarrow> Some ((if applying then ''source became base of open pull request ''
                 else ''source is base of open pull request '') @ pr_url pr)
           | Inr None \<Rightarrow> None))"

text \<open>\<open>Inl\<close> is a refusal with its text, \<open>Inr\<close> the commit the source names.\<close>

definition InspectBranchQuarantineCandidate ::
  "inventory_ports \<Rightarrow> string \<Rightarrow> string \<Rightarrow> quarantine_request \<Rightarrow> string \<Rightarrow> bool \<Rightarrow> (string, string) result" where
  "InspectBranchQuarantineCandidate p projectsRoot path request destination applying =
     (case p_Git p path [''rev-parse'', ''--verify'', ''refs/heads/'' @ rq_ref request @ ''^{commit}''] of
        Inl err \<Rightarrow> Inl ((if applying then ''source disappeared before apply: '' else ''source ref unavailable: '') @ err)
      | Inr out \<Rightarrow>
      let source = TrimSpace out in
      if rq_sha request \<noteq> [] \<and> rq_sha request \<noteq> source then
        Inl (if applying then ''source moved from '' @ ShortSHA (rq_sha request) @ '' to '' @ ShortSHA source @ '' before apply''
             else ''source moved from manifest SHA '' @ ShortSHA (rq_sha request) @ '' to '' @ ShortSHA source)
      else if IsProtectedBranch (rq_ref request) ''main'' (canonical_head p path) then
        Inl (if applying then ''source became protected or the canonical current branch''
             else ''source is protected or the canonical current branch'')
      else case p_CheckedOut p path of (checked, diagnostic) \<Rightarrow>
      if diagnostic \<noteq> [] then Inl diagnostic
      else if checked (rq_ref request) then
        Inl (if applying then ''source became checked out in a linked worktree''
             else ''source is checked out in a linked worktree'')
      else case (if \<not> applying then branchQuarantineClaimRefusal p projectsRoot request False
                 else case p_Git p path [''rev-parse'', ''--verify'', ''refs/heads/'' @ destination] of
                     Inr _ \<Rightarrow> Some ''destination appeared before apply'' | Inl _ \<Rightarrow> None) of
        Some refusal \<Rightarrow> Inl refusal
      | None \<Rightarrow>
      case quarantine_pull_refusal p path request source applying of
        Some refusal \<Rightarrow> Inl refusal
      | None \<Rightarrow>
      case (if applying then branchQuarantineClaimRefusal p projectsRoot request True else None) of
        Some refusal \<Rightarrow> Inl refusal
      | None \<Rightarrow> Inr source)"

definition refused_result :: "quarantine_request \<Rightarrow> quarantine_result" where
  "refused_result request =
     \<lparr>qr_request = request, qr_destination = [], qr_outcome = ''refused'', qr_error = [], qr_original_sha = [],
      qr_retired_sha = [], qr_receipt_id = [], qr_reviewed_at = 0\<rparr>"

definition PlanBranchQuarantine :: "inventory_ports \<Rightarrow> string \<Rightarrow> string \<Rightarrow> quarantine_request \<Rightarrow> go_time \<Rightarrow> quarantine_result" where
  "PlanBranchQuarantine p projectsRoot path request now =
     (case InspectBranchQuarantineCandidate p projectsRoot path request [] False of
        Inl refusal \<Rightarrow> (refused_result request)\<lparr>qr_error := refusal\<rparr>
      | Inr source \<Rightarrow>
          let result = (refused_result (request\<lparr>rq_sha := source\<rparr>))
                \<lparr>qr_destination := RetiredBranchDestination now (rq_ref request) source\<rparr> in
          case p_Git p path [''rev-parse'', ''--verify'', ''refs/heads/'' @ qr_destination result] of
            Inr _ \<Rightarrow> result\<lparr>qr_error := ''destination already exists''\<rparr>
          | Inl _ \<Rightarrow> result\<lparr>qr_outcome := ''planned''\<rparr>)"

section \<open>Which refs are selected\<close>

definition slug_valid :: "string \<Rightarrow> bool" where
  "slug_valid s =
     (let parts = Split s (CHR ''/'') in
      length parts = 2 \<and> ValidRepositorySegment (parts ! 0) \<and> ValidRepositorySegment (parts ! 1))"

definition line_break :: "char \<Rightarrow> bool" where
  "line_break c \<longleftrightarrow> c = CHR 0x0D \<or> c = CHR 0x0A \<or> c = CHR 0x00"

definition validateQuarantineMetadata :: "string \<Rightarrow> string \<Rightarrow> string list \<Rightarrow> quarantine_error option" where
  "validateQuarantineMetadata repo ref texts =
     (if list_ex (list_ex line_break) texts then Some (LineBreaks repo ref) else None)"

definition trim_request :: "quarantine_request \<Rightarrow> quarantine_request" where
  "trim_request r =
     \<lparr>rq_repository = TrimSpace (rq_repository r), rq_ref = TrimSpace (rq_ref r), rq_sha = TrimSpace (rq_sha r),
      rq_reason = TrimSpace (rq_reason r), rq_description = TrimSpace (rq_description r),
      rq_replacement = map TrimSpace (rq_replacement r), rq_retention = TrimSpace (rq_retention r)\<rparr>"

definition metadata_fields :: "quarantine_request \<Rightarrow> string list" where
  "metadata_fields r = [rq_description r, rq_reason r, rq_retention r] @ rq_replacement r"

definition quarantine_key :: "quarantine_request \<Rightarrow> string" where
  "quarantine_key r = rq_repository r @ ''|'' @ rq_ref r"

text \<open>\<open>valid_branch kind ref\<close> is the error of \<^verbatim>\<open>branchValidationError\<close>, which asks Git.\<close>

definition check_request ::
  "(string \<Rightarrow> string \<Rightarrow> string option) \<Rightarrow> string list \<Rightarrow> quarantine_request \<Rightarrow> quarantine_error option" where
  "check_request valid_branch seen r =
     (if \<not> slug_valid (rq_repository r) then Some (InvalidRepository (rq_repository r))
      else case valid_branch ''quarantine source ref'' (rq_ref r) of
        Some err \<Rightarrow> Some (InvalidRef err)
      | None \<Rightarrow>
          if IsRetiredBranch (rq_ref r) then Some (AlreadyRetired (rq_ref r))
          else if rq_sha r \<noteq> [] \<and> \<not> IsGitObjectID (rq_sha r) then Some (InvalidSHA (rq_repository r) (rq_ref r))
          else if rq_reason r = [] then Some (NoReason (rq_repository r) (rq_ref r))
          else case validateQuarantineMetadata (rq_repository r) (rq_ref r) (metadata_fields r) of
            Some err \<Rightarrow> Some err
          | None \<Rightarrow> if quarantine_key r \<in> set seen then Some (DuplicateEntry (quarantine_key r)) else None)"

fun check_requests ::
  "(string \<Rightarrow> string \<Rightarrow> string option) \<Rightarrow> string list \<Rightarrow> quarantine_request list \<Rightarrow>
     (quarantine_error, quarantine_request list) result" where
  "check_requests valid_branch seen [] = Inr []"
| "check_requests valid_branch seen (r # rs) =
     (let t = trim_request r in
      case check_request valid_branch seen t of
        Some err \<Rightarrow> Inl err
      | None \<Rightarrow> map_sum id (\<lambda>ts. t # ts) (check_requests valid_branch (quarantine_key t # seen) rs))"

definition validateQuarantineRequests ::
  "(string \<Rightarrow> string \<Rightarrow> string option) \<Rightarrow> quarantine_request list \<Rightarrow> (quarantine_error, quarantine_request list) result" where
  "validateQuarantineRequests valid_branch requests =
     map_sum id (sort_key (\<lambda>r. (rq_repository r, rq_ref r))) (check_requests valid_branch [] requests)"

definition option_request :: "quarantine_options \<Rightarrow> quarantine_request" where
  "option_request options =
     \<lparr>rq_repository = qo_repository options, rq_ref = qo_branch options, rq_sha = qo_sha options, rq_reason = qo_reason options,
      rq_description = qo_description options, rq_replacement = qo_replacement options, rq_retention = qo_retention options\<rparr>"

definition annotation_request ::
  "(string \<Rightarrow> string \<Rightarrow> string option) \<Rightarrow> quarantine_options \<Rightarrow> (quarantine_error, quarantine_request list) result" where
  "annotation_request valid_branch options =
     (let r = trim_request (option_request options) in
      if qo_manifest options \<noteq> [] \<or> rq_repository r = [] \<or> rq_ref r = [] \<or> rq_sha r = [] \<or> rq_reason r = [] then Inl AnnotateFlags
      else if \<not> IsRetiredBranch (rq_ref r) \<or> \<not> IsGitObjectID (rq_sha r) then Inl AnnotateRef
      else if \<not> slug_valid (rq_repository r) then Inl (InvalidRepository (rq_repository r))
      else case valid_branch ''quarantine retired ref'' (rq_ref r) of
        Some err \<Rightarrow> Inl (InvalidRef err)
      | None \<Rightarrow>
          case validateQuarantineMetadata (rq_repository r) (rq_ref r) (metadata_fields r) of
            Some err \<Rightarrow> Inl err
          | None \<Rightarrow> Inr [r])"

text \<open>\<open>read_manifest\<close> stands for reading and decoding the manifest file.\<close>

definition quarantineRequests ::
  "(string \<Rightarrow> string \<Rightarrow> string option) \<Rightarrow> (string \<Rightarrow> (string, quarantine_request list) result) \<Rightarrow> quarantine_options \<Rightarrow>
     (quarantine_error, quarantine_request list) result" where
  "quarantineRequests valid_branch read_manifest options =
     (if qo_annotate options then annotation_request valid_branch options
      else if qo_manifest options \<noteq> [] then
        (if option_request options \<noteq> \<lparr>rq_repository = [], rq_ref = [], rq_sha = [], rq_reason = [], rq_description = [],
              rq_replacement = [], rq_retention = []\<rparr> then Inl ManifestFlags
         else case read_manifest (qo_manifest options) of
           Inl err \<Rightarrow> Inl (ManifestUnreadable err)
         | Inr entries \<Rightarrow>
             if entries = [] then Inl ManifestEmpty
             else case validateQuarantineRequests valid_branch entries of
               Inl err \<Rightarrow> Inl err
             | Inr requests \<Rightarrow>
                 (case List.find (\<lambda>r. rq_sha r = []) requests of
                    Some r \<Rightarrow> Inl (ManifestNeedsSHA (rq_repository r) (rq_ref r))
                  | None \<Rightarrow> Inr requests))
      else if qo_repository options = [] \<or> qo_branch options = [] \<or> qo_reason options = [] then Inl SingleFlags
      else validateQuarantineRequests valid_branch [option_request options])"

definition repository_paths :: "repository list \<Rightarrow> string \<rightharpoonup> string" where
  "repository_paths repositories = foldl (\<lambda>m r. m(rp_slug r \<mapsto> rp_path r)) Map.empty repositories"

definition quarantineRepositoryPaths ::
  "inventory_ports \<Rightarrow> string \<Rightarrow> quarantine_request list \<Rightarrow> (quarantine_error, string \<rightharpoonup> string) result" where
  "quarantineRepositoryPaths p root requests =
     (case DiscoverBranchRepositories p root [] of
        Inl err \<Rightarrow> Inl (DiscoveryFailed err)
      | Inr repositories \<Rightarrow>
          let paths = repository_paths repositories in
          case List.find (\<lambda>r. case paths (rq_repository r) of None \<Rightarrow> True | Some path \<Rightarrow> path = []) requests of
            Some r \<Rightarrow> Inl (NotDiscovered (rq_repository r))
          | None \<Rightarrow> Inr paths)"

section \<open>The operations a run uses\<close>

record quarantine_ops =
  op_git :: "string \<Rightarrow> string list \<Rightarrow> (string, string) result"
  op_checkedOut :: "string \<Rightarrow> (string \<Rightarrow> bool) \<times> string"
  op_inUse :: "string \<Rightarrow> string \<Rightarrow> (string \<rightharpoonup> string) \<times> string"
  op_pullRequests :: "string \<Rightarrow> string \<Rightarrow> string \<Rightarrow> (string, github_pull_request list) result"
  op_openBasePull :: "string \<Rightarrow> string \<Rightarrow> string \<Rightarrow> (string, pull_request option) result"
  op_retire :: "string \<Rightarrow> string \<Rightarrow> string \<Rightarrow> string \<Rightarrow> string \<Rightarrow> string option"
  op_annotate :: "string \<Rightarrow> string \<Rightarrow> string \<Rightarrow> string \<Rightarrow> string option"
  op_commit :: "string \<Rightarrow> string \<Rightarrow> string \<Rightarrow> (string, string) result"

text \<open>The ports that the code leaves nil are never called; they come from the argument.\<close>

definition branchQuarantineService :: "inventory_ports \<Rightarrow> quarantine_ops \<Rightarrow> inventory_ports" where
  "branchQuarantineService unused ops =
     unused\<lparr>p_Git := op_git ops, p_CheckedOut := op_checkedOut ops, p_InUse := op_inUse ops,
       p_OpenHeadPull := (\<lambda>path repo branch head.
         case op_pullRequests ops path repo head of
           Inl err \<Rightarrow> Inl err
         | Inr pulls \<Rightarrow> Inr (fst (MatchingPullRequests pulls repo ''main'' branch head))),
       p_OpenBasePull := op_openBasePull ops\<rparr>"

section \<open>Receipts\<close>

definition rfc3339_seconds :: "go_time \<Rightarrow> string" where
  "rfc3339_seconds t =
     (let sec = t mod ns_per_day div 1000000000 in
      case civil t of (y, m, d) \<Rightarrow>
        append_int y 4 @ ''-'' @ append_int m 2 @ ''-'' @ append_int d 2 @ ''T'' @ append_int (sec div 3600) 2 @ '':'' @
        append_int (sec div 60 mod 60) 2 @ '':'' @ append_int (sec mod 60) 2)"

definition RFC3339 :: "go_time \<Rightarrow> string" where
  "RFC3339 t = rfc3339_seconds t @ ''Z''"

text \<open>\<^verbatim>\<open>RFC3339Nano\<close>: the fraction without trailing zeros, and without the point when it is zero.\<close>

definition RFC3339Nano :: "go_time \<Rightarrow> string" where
  "RFC3339Nano t =
     (let fraction = rev (dropWhile (\<lambda>c. c = CHR ''0'') (rev (append_int (t mod 1000000000) 9))) in
      rfc3339_seconds t @ (if fraction = [] then [] else CHR ''.'' # fraction) @ ''Z'')"

text \<open>\<open>sha256_hex\<close> is the digest in lower-case hexadecimal digits.\<close>

definition quarantineReceiptID :: "(string \<Rightarrow> string) \<Rightarrow> string \<Rightarrow> string \<Rightarrow> string \<Rightarrow> go_time \<Rightarrow> string" where
  "quarantineReceiptID sha256_hex repo ref sha reviewedAt =
     ''wb-quarantine-'' @
       take 16 (sha256_hex (repo @ CHR 0x00 # ref @ CHR 0x00 # sha @ CHR 0x00 # RFC3339Nano reviewedAt))"

definition quarantineDocsURL :: string where
  "quarantineDocsURL = ''https://github.com/sneat-dev/wb/blob/main/ai/skills/wb-branches/SKILL.md#local-quarantine''"

definition quarantineCommitMessage :: "quarantine_request \<Rightarrow> string \<Rightarrow> string \<Rightarrow> go_time \<Rightarrow> string" where
  "quarantineCommitMessage request original receiptID reviewedAt =
     (let retention = (if rq_retention request = [] then
            ''Not specified; retained until explicitly removed. WB does not automatically expire retired refs.''
          else rq_retention request);
          description = (if rq_description request = [] then ''No additional description supplied.'' else rq_description request);
          title = (if description = ''No additional description supplied.'' then rq_reason request else description) in
      concat (map (\<lambda>text. text @ [LF])
        [''retire: '' @ title, [],
         ''Preserved repository: '' @ rq_repository request,
         ''Preserved ref: '' @ rq_ref request,
         ''Original commit: '' @ original,
         ''Description: '' @ description,
         ''Reason: '' @ rq_reason request,
         ''Reviewed at (UTC): '' @ RFC3339 reviewedAt,
         ''Superseded by: '' @ (if rq_replacement request = [] then ''none recorded'' else Join (rq_replacement request) '', ''),
         ''Retention: '' @ retention,
         ''WB receipt: '' @ receiptID,
         ''Details: '' @ quarantineDocsURL]))"

section \<open>Planning\<close>

definition planBranchAnnotationWithOps ::
  "inventory_ports \<Rightarrow> (string \<Rightarrow> string) \<Rightarrow> string \<Rightarrow> string \<Rightarrow> quarantine_request \<Rightarrow> go_time \<Rightarrow> quarantine_ops \<Rightarrow>
     quarantine_result" where
  "planBranchAnnotationWithOps unused sha256_hex projectsRoot path request now ops =
     (case InspectBranchQuarantineCandidate (branchQuarantineService unused ops) projectsRoot path request [] False of
        Inl refusal \<Rightarrow> (refused_result request)\<lparr>qr_error := refusal\<rparr>
      | Inr current \<Rightarrow>
          (refused_result (request\<lparr>rq_sha := current\<rparr>))
            \<lparr>qr_receipt_id := quarantineReceiptID sha256_hex (rq_repository request) (rq_ref request) current now,
             qr_original_sha := current, qr_retired_sha := current, qr_outcome := ''planned''\<rparr>)"

definition planBranchQuarantineWithOps ::
  "inventory_ports \<Rightarrow> string \<Rightarrow> string \<Rightarrow> quarantine_request \<Rightarrow> go_time \<Rightarrow> quarantine_ops \<Rightarrow> quarantine_result" where
  "planBranchQuarantineWithOps unused projectsRoot path request now ops =
     PlanBranchQuarantine (branchQuarantineService unused ops) projectsRoot path request now"

definition plan_row ::
  "inventory_ports \<Rightarrow> (string \<Rightarrow> string) \<Rightarrow> string \<Rightarrow> (string \<rightharpoonup> string) \<Rightarrow> bool \<Rightarrow> go_time \<Rightarrow> quarantine_ops \<Rightarrow>
     quarantine_request \<Rightarrow> quarantine_result" where
  "plan_row unused sha256_hex root paths annotate now ops request =
     (let path = (case paths (rq_repository request) of None \<Rightarrow> [] | Some path \<Rightarrow> path);
          result = (if annotate then planBranchAnnotationWithOps unused sha256_hex root path request now ops
                    else planBranchQuarantineWithOps unused root path request now ops);
          result = (if qr_receipt_id result = [] \<and> rq_sha (qr_request result) \<noteq> []
                    then result\<lparr>qr_receipt_id := quarantineReceiptID sha256_hex (rq_repository request) (rq_ref request)
                           (rq_sha (qr_request result)) now\<rparr>
                    else result) in
      result\<lparr>qr_reviewed_at := now\<rparr>)"

text \<open>Rows whose destinations collide are all refused.\<close>

definition destination_key :: "quarantine_result \<Rightarrow> string" where
  "destination_key r = rq_repository (qr_request r) @ ''|'' @ qr_destination r"

definition refuse_collisions :: "quarantine_result list \<Rightarrow> quarantine_result list" where
  "refuse_collisions results =
     map (\<lambda>r. if qr_outcome r = ''planned'' \<and>
                 1 < length (filter (\<lambda>q. qr_outcome q = ''planned'' \<and> destination_key q = destination_key r) results)
              then r\<lparr>qr_outcome := ''refused'', qr_error := ''manifest destinations collide after flattening source names''\<rparr>
              else r) results"

section \<open>The production operations\<close>

text \<open>
  \<open>run path input args\<close> is what \<^verbatim>\<open>RunWithInput\<close> gives for \<^verbatim>\<open>git -C path args\<close>: its
  standard output and standard error, and the text of the error if there is one.
\<close>

type_synonym git_runner = "string \<Rightarrow> string \<Rightarrow> string list \<Rightarrow> string \<times> string \<times> string option"

definition runGitWithInput :: "git_runner \<Rightarrow> string \<Rightarrow> string \<Rightarrow> string list \<Rightarrow> string \<times> string option" where
  "runGitWithInput run path input args =
     (case run path input args of (stdout, stderr, err) \<Rightarrow>
      let output = TrimSpace (stdout @ stderr) in
      (case err of Some e \<Rightarrow> if output = [] then e else output | None \<Rightarrow> output, err))"

definition quarantineMetadataCommit ::
  "(string \<Rightarrow> string list \<Rightarrow> (string, string) result) \<Rightarrow> git_runner \<Rightarrow> string \<Rightarrow> string \<Rightarrow> string \<Rightarrow> (string, string) result" where
  "quarantineMetadataCommit git run path parent message =
     (case git path [''rev-parse'', ''--verify'', parent @ ''^{tree}''] of
        Inl err \<Rightarrow> Inl (''read preserved tree: '' @ err)
      | Inr tree \<Rightarrow>
          case runGitWithInput run path message [''commit-tree'', tree, ''-p'', parent, ''-F'', ''-''] of
            (output, Some err) \<Rightarrow> Inl (''git commit-tree: '' @ err @ '': '' @ output)
          | (output, None) \<Rightarrow>
              let sha = TrimSpace output in
              if \<not> IsGitObjectID sha then Inl (''git commit-tree returned invalid object id '' @ CHR 0x22 # sha @ [CHR 0x22])
              else Inr sha)"

definition atomicLocalBranchRetirement :: "git_runner \<Rightarrow> string \<Rightarrow> string \<Rightarrow> string \<Rightarrow> string \<Rightarrow> string \<Rightarrow> string option" where
  "atomicLocalBranchRetirement run path source destination expected replacement =
     (case runGitWithInput run path
        (concat (map (\<lambda>text. text @ [LF])
           [''start'', ''create refs/heads/'' @ destination @ '' '' @ replacement,
            ''delete refs/heads/'' @ source @ '' '' @ expected, ''prepare'', ''commit'']))
        [''update-ref'', ''--stdin''] of
      (output, Some err) \<Rightarrow> Some (err @ '': '' @ output)
    | (output, None) \<Rightarrow> None)"

definition atomicLocalRetiredAnnotation :: "git_runner \<Rightarrow> string \<Rightarrow> string \<Rightarrow> string \<Rightarrow> string \<Rightarrow> string option" where
  "atomicLocalRetiredAnnotation run path ref expected replacement =
     (case runGitWithInput run path [] [''update-ref'', ''refs/heads/'' @ ref, replacement, expected] of
        (output, Some err) \<Rightarrow> Some (err @ '': '' @ output)
      | (output, None) \<Rightarrow> None)"

text \<open>The operations of production; what only looks is in \<open>observed\<close>.\<close>

definition realBranchQuarantineOps :: "quarantine_ops \<Rightarrow> git_runner \<Rightarrow> quarantine_ops" where
  "realBranchQuarantineOps observed run = observed\<lparr>op_retire := atomicLocalBranchRetirement run,
     op_annotate := atomicLocalRetiredAnnotation run, op_commit := quarantineMetadataCommit (op_git observed) run\<rparr>"

section \<open>Applying\<close>

datatype quarantine_event =
    Published "quarantine_result list"
  | Retire string string string string string
  | Annotate string string string string

definition q_failed :: "quarantine_result \<Rightarrow> string \<Rightarrow> quarantine_result" where
  "q_failed r err = r\<lparr>qr_outcome := ''failed'', qr_error := err\<rparr>"

text \<open>
  \<open>checkpoint r\<close> publishes the report with \<open>r\<close> in the row: \<open>Inl\<close> is the error, \<open>Inr\<close> the report
  that is then on disk.
\<close>

definition applyBranchQuarantineWithOps ::
  "inventory_ports \<Rightarrow> string \<Rightarrow> string \<Rightarrow> quarantine_result \<Rightarrow> quarantine_ops \<Rightarrow>
     (quarantine_result \<Rightarrow> (string, quarantine_result list) result) \<Rightarrow> quarantine_result \<times> quarantine_event list" where
  "applyBranchQuarantineWithOps unused projectsRoot path result ops checkpoint =
     (let request = qr_request result; annotate = HasPrefix (rq_ref request) ''retired/'';
          inspect = (\<lambda>destination. InspectBranchQuarantineCandidate (branchQuarantineService unused ops) projectsRoot path request
            destination True) in
      case inspect (if annotate then [] else qr_destination result) of
        Inl refusal \<Rightarrow> (q_failed result refusal, [])
      | Inr current \<Rightarrow>
          let message = quarantineCommitMessage request current (qr_receipt_id result) (qr_reviewed_at result) in
          if annotate then
            (case op_commit ops path current message of
               Inl err \<Rightarrow> (q_failed result (''create annotation commit: '' @ err), [])
             | Inr metadata \<Rightarrow>
                 let result = result\<lparr>qr_original_sha := current, qr_retired_sha := metadata\<rparr> in
                 case checkpoint result of
                   Inl err \<Rightarrow> (q_failed result (''publish annotation receipt before CAS: '' @ err), [])
                 | Inr report \<Rightarrow>
                     (case op_annotate ops path (rq_ref request) current metadata of
                        Some err \<Rightarrow> q_failed result (''local CAS annotation: '' @ err)
                      | None \<Rightarrow> result\<lparr>qr_outcome := ''annotated''\<rparr>,
                      [Published report, Annotate path (rq_ref request) current metadata]))
          else
            let result = result\<lparr>qr_original_sha := current\<rparr> in
            (case op_commit ops path current message of
               Inl err \<Rightarrow> (q_failed result (''create retirement commit: '' @ err), [])
             | Inr metadata \<Rightarrow>
                 let result = result\<lparr>qr_retired_sha := metadata\<rparr> in
                 case checkpoint result of
                   Inl err \<Rightarrow> (q_failed result (''publish retirement receipt before CAS: '' @ err), [])
                 | Inr report \<Rightarrow>
                     (case op_retire ops path (rq_ref request) (qr_destination result) current metadata of
                        Some err \<Rightarrow> q_failed result (''local CAS retirement: '' @ err)
                      | None \<Rightarrow> result\<lparr>qr_outcome := ''quarantined''\<rparr>,
                      [Published report, Retire path (rq_ref request) (qr_destination result) current metadata])))"

section \<open>A run\<close>

text \<open>
  \<open>qe_write row phase\<close> is what the report write before (0), inside (1) and after (2) the row does;
  \<open>None\<close> is success.
\<close>

record quarantine_env =
  qe_root :: "(string, string) result"
  qe_valid_branch :: "string \<Rightarrow> string \<Rightarrow> string option"
  qe_read_manifest :: "string \<Rightarrow> (string, quarantine_request list) result"
  qe_inventory :: inventory_ports
  qe_sha256_hex :: "string \<Rightarrow> string"
  qe_now :: go_time
  qe_plan :: quarantine_ops
  qe_home :: "(string, string) result"
  qe_validateReportDir :: "string \<Rightarrow> (string \<rightharpoonup> string) \<Rightarrow> string option"
  qe_reserve :: "string \<Rightarrow> string option"
  qe_write_plan :: "quarantine_result list \<Rightarrow> string option"
  qe_write :: "nat \<Rightarrow> nat \<Rightarrow> quarantine_result list \<Rightarrow> string option"
  qe_apply :: "nat \<Rightarrow> quarantine_ops"

record quarantine_outcome =
  qu_generated_at :: go_time
  qu_apply :: bool
  qu_results :: "quarantine_result list"
  qu_report_path :: string

text \<open>\<open>rows\<close> are the rows before the current one; an error of a report write ends the run.\<close>

fun apply_rows ::
  "quarantine_env \<Rightarrow> string \<Rightarrow> (string \<rightharpoonup> string) \<Rightarrow> quarantine_result list \<Rightarrow> quarantine_result list \<Rightarrow>
     quarantine_error option \<times> quarantine_result list \<times> quarantine_event list" where
  "apply_rows env root paths rows [] = (None, rows, [])"
| "apply_rows env root paths rows (r # rest) =
     (if qr_outcome r \<noteq> ''planned'' then apply_rows env root paths (rows @ [r]) rest
      else let before = rows @ r # rest in
      case qe_write env (length rows) 0 before of
        Some err \<Rightarrow> (Some (ReportFailed err), before, [])
      | None \<Rightarrow>
      let path = (case paths (rq_repository (qr_request r)) of None \<Rightarrow> [] | Some path \<Rightarrow> path);
          checkpoint = (\<lambda>q. case qe_write env (length rows) 1 (rows @ q # rest) of
              Some err \<Rightarrow> Inl err | None \<Rightarrow> Inr (rows @ q # rest)) in
      case applyBranchQuarantineWithOps (qe_inventory env) root path r (qe_apply env (length rows)) checkpoint of
        (r', events) \<Rightarrow>
      let after = rows @ r' # rest in
      case qe_write env (length rows) 2 after of
        Some err \<Rightarrow> (Some (ReportFailed err), after, Published before # events)
      | None \<Rightarrow>
      case apply_rows env root paths (rows @ [r']) rest of
        (err, final, later) \<Rightarrow> (err, final, Published before # events @ Published after # later))"

definition apply_quarantine ::
  "quarantine_env \<Rightarrow> string \<Rightarrow> (string \<rightharpoonup> string) \<Rightarrow> quarantine_options \<Rightarrow> quarantine_outcome \<Rightarrow>
     quarantine_error option \<times> quarantine_outcome \<times> quarantine_event list" where
  "apply_quarantine env root paths options outcome =
     (case (if qo_report_dir options \<noteq> [] then Inr (qo_report_dir options)
            else map_sum HomeFailed
              (\<lambda>home. filepath_Join [home, ''reports'', ''branch-quarantine'', report_stamp (qe_now env)]) (qe_home env)) of
        Inl err \<Rightarrow> (Some err, outcome, [])
      | Inr reportDir \<Rightarrow>
      case qe_validateReportDir env reportDir paths of
        Some err \<Rightarrow> (Some (ReportDirRefused err), outcome, [])
      | None \<Rightarrow>
      case qe_reserve env reportDir of
        Some err \<Rightarrow> (Some (ReserveFailed err), outcome, [])
      | None \<Rightarrow>
      let outcome = outcome\<lparr>qu_report_path := filepath_Join [reportDir, ''quarantine.json'']\<rparr> in
      case qe_write_plan env (qu_results outcome) of
        Some err \<Rightarrow> (Some (ReportFailed err), outcome, [])
      | None \<Rightarrow>
      case apply_rows env root paths [] (qu_results outcome) of
        (err, rows, events) \<Rightarrow> (err, outcome\<lparr>qu_results := rows\<rparr>, Published (qu_results outcome) # events))"

definition no_outcome :: quarantine_outcome where
  "no_outcome = \<lparr>qu_generated_at = 0, qu_apply = False, qu_results = [], qu_report_path = []\<rparr>"

definition plan_rows ::
  "quarantine_env \<Rightarrow> string \<Rightarrow> (string \<rightharpoonup> string) \<Rightarrow> quarantine_options \<Rightarrow> quarantine_request list \<Rightarrow> quarantine_result list" where
  "plan_rows env root paths options requests =
     refuse_collisions (map (plan_row (qe_inventory env) (qe_sha256_hex env) root paths (qo_annotate options) (qe_now env)
       (qe_plan env)) requests)"

definition branchQuarantineWithOps ::
  "quarantine_env \<Rightarrow> quarantine_options \<Rightarrow> quarantine_error option \<times> quarantine_outcome \<times> quarantine_event list" where
  "branchQuarantineWithOps env options =
     (case qe_root env of
        Inl err \<Rightarrow> (Some (RootFailed err), no_outcome, [])
      | Inr root \<Rightarrow>
      case quarantineRequests (qe_valid_branch env) (qe_read_manifest env) options of
        Inl err \<Rightarrow> (Some err, no_outcome, [])
      | Inr requests \<Rightarrow>
      case quarantineRepositoryPaths (qe_inventory env) root requests of
        Inl err \<Rightarrow> (Some err, no_outcome, [])
      | Inr paths \<Rightarrow>
      let outcome = \<lparr>qu_generated_at = qe_now env, qu_apply = qo_apply options,
            qu_results = plan_rows env root paths options requests, qu_report_path = []\<rparr> in
      if \<not> qo_apply options then (None, outcome, [])
      else apply_quarantine env root paths options outcome)"

end
