(* ===== verification/Branch_Proof.thy ===== *)
theory Branch_Proof
  imports Branch_Classify
begin

text \<open>
  What the inventory promises the cleanup: a branch is planned for deletion only on evidence.
  The predicates below say what evidence that is; the lemmas follow the evidence from the
  disposition of one branch through the caches of a sweep to the plan of the fleet.
\<close>

section \<open>Evidence\<close>

definition landing_proved :: "inventory_ports \<Rightarrow> repository \<Rightarrow> branch_ref \<Rightarrow> string \<Rightarrow> pull_request \<Rightarrow> bool" where
  "landing_proved p repo ref target pr \<longleftrightarrow>
     IsGitObjectID (pr_merge_sha pr) \<and>
     p_IsAncestor p (rp_path repo) (pr_merge_sha pr) target = Inr True \<and>
     p_ContentContained p (rp_path repo) (ref_sha ref) (pr_merge_sha pr) = Inr True \<and>
     (p_ContentContained p (rp_path repo) (ref_sha ref) target = Inr True \<or>
      pr_head_sha pr = ref_sha ref \<and>
      p_LandingReverted p (rp_path repo) (pr_merge_sha pr) target
        [GitHubRevertMarker (rp_slug repo) (pr_number pr)] = Inr False)"

definition receipt_proved :: "inventory_ports \<Rightarrow> repository \<Rightarrow> branch_ref \<Rightarrow> string \<Rightarrow> string \<Rightarrow> bool" where
  "receipt_proved p repo ref base target \<longleftrightarrow>
     (\<exists>prs pr. p_PullRequestsForHead p repo (ref_sha ref) = Inr prs \<and> p_AbsorbingPR p prs base = Some pr \<and>
        landing_proved p repo ref target pr)"

definition supersession_proved :: "inventory_ports \<Rightarrow> repository \<Rightarrow> inventory_sweep \<Rightarrow> branch_ref \<Rightarrow> string \<Rightarrow> bool" where
  "supersession_proved p repo sweep ref target \<longleftrightarrow>
     sw_superseded_by sweep \<noteq> [] \<and>
     snd (p_Supersession p (sw_superseded_by sweep) repo ref (sw_base sweep) target) = [] \<and>
     is_ok (p_SupersessionDigest p (sw_superseded_by sweep))"

definition attested :: "inventory_ports \<Rightarrow> repository \<Rightarrow> inventory_sweep \<Rightarrow> branch_ref \<Rightarrow> string \<Rightarrow> bool" where
  "attested p repo sweep ref target \<longleftrightarrow>
     sw_absorbed_by sweep \<noteq> [] \<and>
     (\<exists>c note. p_AttestedReceipt p repo ref (sw_base sweep) target (sw_absorbed_by sweep) = Inr (Some c, note))"

definition deletion_proved :: "inventory_ports \<Rightarrow> repository \<Rightarrow> inventory_sweep \<Rightarrow> branch_ref \<Rightarrow> string \<Rightarrow> bool" where
  "deletion_proved p repo sweep ref target \<longleftrightarrow>
     p_IsAncestor p (rp_path repo) (ref_sha ref) target = Inr True \<or>
     supersession_proved p repo sweep ref target \<or>
     attested p repo sweep ref target \<or>
     sw_receipts sweep \<and> receipt_proved p repo ref (sw_base sweep) target"

definition cache_ok :: "inventory_ports \<Rightarrow> repository \<Rightarrow> pr_cache \<Rightarrow> bool" where
  "cache_ok p repo cache \<longleftrightarrow>
     (\<forall>m sha prs. cache = Some m \<longrightarrow> m sha = Some prs \<longrightarrow> p_PullRequestsForHead p repo sha = Inr prs)"

text \<open>What the port contract gives: an accepted supersession comes with its evidence.\<close>

definition supersession_contract :: "inventory_ports \<Rightarrow> bool" where
  "supersession_contract p \<longleftrightarrow>
     (\<forall>file repo ref base target. snd (p_Supersession p file repo ref base target) = [] \<longrightarrow>
        fst (p_Supersession p file repo ref base target) \<noteq> None)"

section \<open>The disposition of one branch\<close>

lemma cached_pull_requests_ok:
  assumes "cache_ok p repo cache" "cached_pull_requests p repo sha cache = (r, cache')"
  shows "cache_ok p repo cache'" "r = Inr prs \<Longrightarrow> p_PullRequestsForHead p repo sha = Inr prs"
  using assms unfolding cached_pull_requests_def cache_ok_def
  by (auto split: option.splits sum.splits bind_splits if_splits)

lemma prove_landing_Some:
  "prove_landing p repo ref target pr = (Some pr', note) \<Longrightarrow> pr' = pr \<and> landing_proved p repo ref target pr"
  unfolding prove_landing_def landing_proved_def Let_def
  by (simp only: prod.inject option.inject option.distinct simp_thms split: if_split_asm sum.split_asm)

lemma ClassifyLandingReceipt_ok:
  assumes "cache_ok p repo cache"
    and "ClassifyLandingReceipt p repo ref base target cache = ((r, note), cache')"
  shows "cache_ok p repo cache'" "r \<noteq> None \<Longrightarrow> receipt_proved p repo ref base target"
proof -
  obtain q c where q: "cached_pull_requests p repo (ref_sha ref) cache = (q, c)" by fastforce
  show "cache_ok p repo cache'"
    using assms(2) q cached_pull_requests_ok(1) [OF assms(1) q]
    by (auto simp: ClassifyLandingReceipt_def split: sum.splits)
  assume "r \<noteq> None"
  then obtain pr prs pr' where *: "q = Inr prs" "p_AbsorbingPR p prs base = Some pr'"
      "prove_landing p repo ref target pr' = (Some pr, note)"
    using assms(2) q by (auto simp: ClassifyLandingReceipt_def split: sum.splits option.splits)
  from prove_landing_Some [OF *(3)] show "receipt_proved p repo ref base target"
    unfolding receipt_proved_def
    by (intro exI [of _ prs] exI [of _ pr'] conjI cached_pull_requests_ok(2) [OF assms(1) q] *(1,2)) simp
qed

text \<open>The fields of an entry that identify its branch, and those only the decoration sets.\<close>

definition identity :: "branch_entry \<Rightarrow> string \<times> string \<times> string \<times> string \<times> string" where
  "identity e = (be_repository e, be_branch e, be_scope e, be_sha e, be_target_sha e)"

definition ineligible :: "branch_entry \<Rightarrow> bool" where
  "ineligible e \<longleftrightarrow> be_disposition e \<notin> {BranchContained, BranchReceipted, BranchSuperseded}"

lemma ineligible_not_eligible: "ineligible e \<Longrightarrow> \<not> EligibleBranchCleanupDisposition e"
  by (simp add: ineligible_def EligibleBranchCleanupDisposition_def)

lemma identity_simps [simp]:
  "identity (unreadable e t) = identity e"
  "identity (absorbed_or_unique e a b c d f) = identity e"
  "identity (in_use_entry e claim) = identity e"
  "identity (superseded_entry p sweep e r) = identity e"
  "ReceiptedBranch e l pr ab = Some e' \<Longrightarrow> identity e' = identity e"
  by (auto simp: identity_def unreadable_def absorbed_or_unique_def in_use_entry_def superseded_entry_def
      ReceiptedBranch_def Let_def split: option.splits sum.splits if_splits)

lemma ineligible_simps [simp]:
  "ineligible (unreadable e t)"
  "ineligible (absorbed_or_unique e a b c d f)"
  "ineligible (in_use_entry e claim)"
  "ineligible (e\<lparr>be_disposition := BranchProtected, be_evidence := t\<rparr>)"
  by (simp_all add: ineligible_def unreadable_def absorbed_or_unique_def in_use_entry_def disposition_defs
      split: option.split)

lemma classify_receipt_ok:
  assumes "cache_ok p repo cache"
    and "classify_receipt p repo sweep ref target cache entry patches note = Some (e, cache')"
  shows "cache_ok p repo cache' \<and> identity e = identity entry \<and>
    (ineligible e \<or> sw_receipts sweep \<and> receipt_proved p repo ref (sw_base sweep) target)"
proof (cases "sw_receipts sweep")
  case False
  then show ?thesis using assms by (auto simp: classify_receipt_def split: prod.splits)
next
  case True
  obtain r n c where r: "ClassifyLandingReceipt p repo ref (sw_base sweep) target cache = ((r, n), c)"
    by (metis surj_pair)
  note ok = ClassifyLandingReceipt_ok [OF assms(1) r]
  show ?thesis
  proof (cases r)
    case None
    then show ?thesis using assms(2) True r ok by (auto simp: classify_receipt_def split: prod.splits)
  next
    case (Some pr)
    then obtain f where f: "ReceiptedBranch entry (pr_merge_sha pr) (Some pr) [] = Some f" "cache' = c"
        "identity e = identity f"
      using assms(2) True r
      by (fastforce simp: classify_receipt_def identity_def split: prod.splits option.splits if_splits)
    then show ?thesis using True ok Some identity_simps(5) [OF f(1)] by simp
  qed
qed

lemma classify_content_ok:
  assumes "cache_ok p repo cache"
    and "classify_content p repo sweep ref target cache entry = Some (e, cache')"
  shows "cache_ok p repo cache' \<and> identity e = identity entry \<and>
    (ineligible e \<or> deletion_proved p repo sweep ref target)"
proof -
  have direct: ?thesis if "cache' = cache" "identity e = identity entry" "ineligible e \<or> deletion_proved p repo sweep ref target"
    using that assms(1) by simp
  have viaReceipt: ?thesis
    if "classify_receipt p repo sweep ref target cache entry' patches n = Some (e, cache')"
      "identity entry' = identity entry" for entry' patches n
    using classify_receipt_ok [OF assms(1) that(1)] that(2) by (auto simp: deletion_proved_def)
  show ?thesis
  proof (cases "p_IsAncestor p (rp_path repo) (ref_sha ref) target")
    case (Inl err)
    then show ?thesis using assms(2) by (intro direct) (auto simp: classify_content_def)
  next
    case (Inr contained)
    show ?thesis
    proof (cases contained)
      case True
      then show ?thesis using assms(2) Inr
        by (intro direct) (auto simp: classify_content_def deletion_proved_def identity_def)
    next
      case False
      show ?thesis
      proof (cases "ClassifyAbsorbedOrUnique p (rp_path repo) target (ref_sha ref)")
        case (Inl err)
        then show ?thesis using assms(2) Inr False by (intro direct) (auto simp: classify_content_def)
      next
        case patches: (Inr patches)
        show ?thesis
        proof (cases "sw_absorbed_by sweep = []")
          case True
          then show ?thesis using assms(2) Inr False patches by (intro viaReceipt) (auto simp: classify_content_def)
        next
          case pointer: False
          show ?thesis
          proof (cases "p_AttestedReceipt p repo ref (sw_base sweep) target (sw_absorbed_by sweep)")
            case (Inl err)
            then show ?thesis using assms(2) Inr False patches pointer
              by (intro direct) (auto simp: classify_content_def)
          next
            case att: (Inr cn)
            obtain c n where cn: "cn = (c, n)" by fastforce
            show ?thesis
            proof (cases c)
              case None
              have "classify_receipt p repo sweep ref target cache (entry\<lparr>be_absorbed_rejection := n\<rparr>) patches
                  (''; --absorbed-by: '' @ n) = Some (e, cache')"
                using assms(2) Inr False patches pointer att cn None by (simp add: classify_content_def)
              then show ?thesis by (rule viaReceipt) (simp add: identity_def)
            next
              case (Some v)
              have a: "attested p repo sweep ref target" using att cn Some pointer unfolding attested_def by blast
              have "map_option (\<lambda>e. (e, cache)) (ReceiptedBranch entry (vc_landing_sha v) (vc_pull_request v)
                  (sw_absorbed_by sweep)) = Some (e, cache')"
                using assms(2) Inr False patches pointer att cn Some by (simp add: classify_content_def)
              then have "ReceiptedBranch entry (vc_landing_sha v) (vc_pull_request v) (sw_absorbed_by sweep) = Some e"
                  "cache' = cache" by auto
              then show ?thesis using a identity_simps(5) by (intro direct) (auto simp: deletion_proved_def)
            qed
          qed
        qed
      qed
    qed
  qed
qed

definition unencumbered ::
  "inventory_ports \<Rightarrow> repository \<Rightarrow> inventory_sweep \<Rightarrow> (string \<rightharpoonup> string) \<Rightarrow> string \<Rightarrow> (string \<Rightarrow> bool) \<Rightarrow> string \<Rightarrow> bool" where
  "unencumbered p repo sweep inUse canonicalHEAD checkedOut name \<longleftrightarrow>
     \<not> IsProtectedBranch name (sw_base sweep) canonicalHEAD \<and>
     inUse (BranchInUseKey (rp_slug repo) name) = None \<and> \<not> checkedOut name"

lemma superseded_entry_proved:
  "sw_superseded_by sweep \<noteq> [] \<Longrightarrow>
   snd (p_Supersession p (sw_superseded_by sweep) repo ref (sw_base sweep) target) = [] \<Longrightarrow>
   ineligible (superseded_entry p sweep entry r) \<or> supersession_proved p repo sweep ref target"
  by (auto simp: superseded_entry_def supersession_proved_def Let_def split: sum.splits)

lemma identity_new_entry: "identity (new_entry repo sweep ref scope target) = (rp_slug repo, ref_name ref, scope, ref_sha ref, target)"
  by (simp add: identity_def new_entry_def)

lemma ClassifyBranch_ok:
  assumes "cache_ok p repo cache"
    and "ClassifyBranch p repo sweep ref scope target canonicalHEAD inUse checkedOut cache = Some (e, cache')"
  shows "cache_ok p repo cache' \<and> identity e = (rp_slug repo, ref_name ref, scope, ref_sha ref, target) \<and>
    (ineligible e \<or> unencumbered p repo sweep inUse canonicalHEAD checkedOut (ref_name ref) \<and>
       deletion_proved p repo sweep ref target)"
proof -
  let ?entry = "new_entry repo sweep ref scope target"
  let ?claim = "inUse (BranchInUseKey (rp_slug repo) (ref_name ref))"
  have direct: ?thesis if "cache' = cache" "identity e = identity ?entry" "ineligible e"
    using that assms(1) identity_new_entry by simp
  consider (protected) "IsProtectedBranch (ref_name ref) (sw_base sweep) canonicalHEAD"
    | (used) "\<not> IsProtectedBranch (ref_name ref) (sw_base sweep) canonicalHEAD" "?claim \<noteq> None \<or> checkedOut (ref_name ref)"
    | (free) "unencumbered p repo sweep inUse canonicalHEAD checkedOut (ref_name ref)"
    unfolding unencumbered_def by argo
  then show ?thesis
  proof cases
    case protected
    then show ?thesis using assms(2)
      by (intro direct) (auto simp: ClassifyBranch_def Let_def, simp add: identity_def)
  next
    case used
    then show ?thesis using assms(2) by (intro direct) (auto simp: ClassifyBranch_def Let_def)
  next
    case free
    have viaContent: ?thesis
      if "classify_content p repo sweep ref target cache entry' = Some (e, cache')" "identity entry' = identity ?entry" for entry'
      using classify_content_ok [OF assms(1) that(1)] that(2) free identity_new_entry by auto
    show ?thesis
    proof (cases "sw_superseded_by sweep = []")
      case True
      then show ?thesis using assms(2) free
        by (intro viaContent) (auto simp: ClassifyBranch_def Let_def unencumbered_def)
    next
      case asked: False
      obtain receipt rejection where s: "p_Supersession p (sw_superseded_by sweep) repo ref (sw_base sweep) target = (receipt, rejection)"
        by fastforce
      show ?thesis
      proof (cases "rejection = []")
        case True
        then obtain r where "e = superseded_entry p sweep ?entry r" "cache' = cache"
          using assms(2) free asked s
          by (auto simp: ClassifyBranch_def Let_def unencumbered_def split: option.splits)
        then show ?thesis
          using assms(1) True asked s free superseded_entry_proved [of sweep p repo ref target] identity_new_entry
          by (auto simp: deletion_proved_def)
      next
        case False
        have "classify_content p repo sweep ref target cache
            (?entry\<lparr>be_supersession := (be_supersession ?entry)\<lparr>sn_rejection := rejection\<rparr>\<rparr>) = Some (e, cache')"
          using assms(2) free asked s False by (simp add: ClassifyBranch_def Let_def unencumbered_def)
        then show ?thesis by (rule viaContent) (simp add: identity_def)
      qed
    qed
  qed
qed

section \<open>The entries of one repository\<close>

lemma DecorateBranchCommit_cases:
  "DecorateBranchCommit p path e = e \<or> (\<exists>a t. DecorateBranchCommit p path e = e\<lparr>be_author := a, be_title := t\<rparr>)"
  unfolding DecorateBranchCommit_def DecorateBranchCommits_def Let_def
  by (auto split: sum.splits option.splits)

lemma DecorateBranchCommit_keeps [simp]:
  "identity (DecorateBranchCommit p path e) = identity e"
  "be_disposition (DecorateBranchCommit p path e) = be_disposition e"
  "be_superseded_at_origin (DecorateBranchCommit p path e) = be_superseded_at_origin e"
  "be_open_pr (DecorateBranchCommit p path e) = be_open_pr e"
  "be_open_base_pr (DecorateBranchCommit p path e) = be_open_base_pr e"
  "be_query_failed (DecorateBranchCommit p path e) = be_query_failed e"
  using DecorateBranchCommit_cases [of p path e] by (auto simp: identity_def)

text \<open>An eligible entry of a repository: its ref, its target, and why it may go.\<close>

definition entry_proved :: "inventory_ports \<Rightarrow> inventory_sweep \<Rightarrow> (string \<rightharpoonup> string) \<Rightarrow> repository \<Rightarrow> branch_entry \<Rightarrow> bool" where
  "entry_proved p sweep inUse repo e \<longleftrightarrow>
     (\<exists>ref target. p_FetchTarget p (rp_path repo) (sw_base sweep) = Inr target \<and>
        identity e = (rp_slug repo, ref_name ref, be_scope e, ref_sha ref, target) \<and>
        unencumbered p repo sweep inUse (canonical_head p (rp_path repo)) (fst (CheckedOutLocalBranches p (rp_path repo)))
          (ref_name ref) \<and>
        deletion_proved p repo sweep ref target)"

definition evidence_of :: "inventory_ports \<Rightarrow> inventory_sweep \<Rightarrow> repository \<Rightarrow> string \<Rightarrow> pull_request_evidence" where
  "evidence_of p sweep repo name =
     (if sw_with_prs sweep then ExactBranchPullRequests p repo name else OpenBranchPullRequests p repo name)"

definition decorated :: "inventory_ports \<Rightarrow> inventory_sweep \<Rightarrow> repository \<Rightarrow> branch_entry \<Rightarrow> bool" where
  "decorated p sweep repo e \<longleftrightarrow>
     be_open_pr e = ev_open_head (evidence_of p sweep repo (be_branch e)) \<and>
     be_open_base_pr e = ev_open_base (evidence_of p sweep repo (be_branch e)) \<and>
     (ev_err (evidence_of p sweep repo (be_branch e)) = None \<or> be_query_failed e)"

definition entry_ok :: "inventory_ports \<Rightarrow> inventory_sweep \<Rightarrow> (string \<rightharpoonup> string) \<Rightarrow> repository \<Rightarrow> branch_entry \<Rightarrow> bool" where
  "entry_ok p sweep inUse repo e \<longleftrightarrow>
     ineligible e \<or> entry_proved p sweep inUse repo e \<and>
       (be_scope e = BranchScopeRemote \<and> sw_cleanup sweep \<and> EligibleBranchCleanupDisposition e \<longrightarrow>
          sw_scope sweep \<noteq> BranchScopeLocal \<and> decorated p sweep repo e)"

lemma identity_fields:
  "identity e = identity f \<Longrightarrow> be_scope e = be_scope f"
  "identity e = identity f \<Longrightarrow> be_branch e = be_branch f"
  by (simp_all add: identity_def)

lemma entry_ok_decorate [simp]: "entry_ok p sweep inUse repo (DecorateBranchCommit q path e) \<longleftrightarrow> entry_ok p sweep inUse repo e"
proof -
  let ?d = "DecorateBranchCommit q path e"
  have "be_scope ?d = be_scope e" "be_branch ?d = be_branch e" by (rule identity_fields, simp)+
  then show ?thesis
    by (simp add: entry_ok_def ineligible_def entry_proved_def decorated_def EligibleBranchCleanupDisposition_def)
qed

lemma retired_entry_ineligible: "ineligible (RetiredBranchEntry slug options ref scope target)"
  by (simp add: ineligible_def RetiredBranchEntry_def disposition_defs)

lemma inspect_local_ok:
  assumes "p_FetchTarget p (rp_path repo) (sw_base sweep) = Inr target" "cache_ok p repo cache"
    and "inspect_local p repo sweep target (canonical_head p (rp_path repo)) inUse
           (fst (CheckedOutLocalBranches p (rp_path repo))) refs cache = Some es"
    and "e \<in> set es"
  shows "entry_ok p sweep inUse repo e"
  using assms(2-)
proof (induction refs arbitrary: cache es)
  case Nil
  then show ?case by simp
next
  case (Cons ref refs)
  let ?rest = "inspect_local p repo sweep target (canonical_head p (rp_path repo)) inUse
      (fst (CheckedOutLocalBranches p (rp_path repo))) refs"
  consider "?rest cache = Some es"
    | f c fs where "cache_ok p repo c" "entry_ok p sweep inUse repo f" "?rest c = Some fs"
        "es = DecorateBranchCommit p (rp_path repo) f # fs"
  proof (cases "\<not> BranchNameSelected (Policy sweep) (ref_name ref) \<or> retired_skipped sweep ref")
    case True
    then show ?thesis using Cons.prems that(1) by simp
  next
    case sel: False
    show ?thesis
    proof (cases "IsRetiredBranch (ref_name ref)")
      case True
      then show ?thesis using Cons.prems sel retired_entry_ineligible that(2) by (fastforce simp: entry_ok_def)
    next
      case False
      then obtain f c fs where f: "ClassifyBranch p repo sweep ref BranchScopeLocal target (canonical_head p (rp_path repo))
            inUse (fst (CheckedOutLocalBranches p (rp_path repo))) cache = Some (f, c)"
          "?rest c = Some fs" "es = DecorateBranchCommit p (rp_path repo) f # fs"
        using Cons.prems(2) sel by (auto split: option.splits)
      from ClassifyBranch_ok [OF Cons.prems(1) f(1)] have c: "cache_ok p repo c" "be_scope f = BranchScopeLocal"
          "ineligible f \<or> entry_proved p sweep inUse repo f"
        using assms(1) by (auto simp: entry_proved_def identity_def)
      then have "entry_ok p sweep inUse repo f" by (auto simp: entry_ok_def scope_defs)
      with c(1) show ?thesis using f(2,3) by (rule that(2))
    qed
  qed
  then show ?case
  proof cases
    case 1
    then show ?thesis using Cons by blast
  next
    case 2
    then show ?thesis using Cons.IH Cons.prems(3) by auto
  qed
qed

definition pr_cache_ok :: "inventory_ports \<Rightarrow> inventory_sweep \<Rightarrow> repository \<Rightarrow> (string \<rightharpoonup> pull_request_evidence) \<Rightarrow> bool" where
  "pr_cache_ok p sweep repo c \<longleftrightarrow> (\<forall>name ev. c name = Some ev \<longrightarrow> ev = evidence_of p sweep repo name)"

lemma Decorate_pull_requests_ok:
  assumes "pr_cache_ok p sweep repo c" "be_branch entry = ref_name ref"
    and "DecorateRemoteBranchPullRequests p repo ref entry c (sw_with_prs sweep) = (e, c')"
  shows "pr_cache_ok p sweep repo c'" "decorated p sweep repo e" "identity e = identity entry"
    "be_disposition e = be_disposition entry" "be_superseded_at_origin e = be_superseded_at_origin entry"
proof -
  let ?ev = "evidence_of p sweep repo (ref_name ref)"
  let ?entry = "entry\<lparr>be_pull_requests := ev_requests ?ev, be_open_pr := ev_open_head ?ev, be_open_base_pr := ev_open_base ?ev\<rparr>"
  have "e = (case ev_err ?ev of Some err \<Rightarrow> ?entry\<lparr>be_query_failed := True, be_query_error := err\<rparr>
      | None \<Rightarrow> ?entry\<lparr>be_queried := True\<rparr>)" and c: "c' = c \<or> c' = c(ref_name ref \<mapsto> ?ev)"
    using assms unfolding DecorateRemoteBranchPullRequests_def pr_cache_ok_def evidence_of_def Let_def
    by (auto split: option.splits)
  then show "decorated p sweep repo e" "identity e = identity entry" "be_disposition e = be_disposition entry"
      "be_superseded_at_origin e = be_superseded_at_origin entry"
    using assms(2) by (auto simp: decorated_def identity_def split: option.split)
  show "pr_cache_ok p sweep repo c'" using assms(1) c by (auto simp: pr_cache_ok_def split: if_splits)
qed

lemma remote_entry_ok:
  assumes "p_FetchTarget p (rp_path repo) (sw_base sweep) = Inr target" "cache_ok p repo cache" "pr_cache_ok p sweep repo prc"
    and "sw_scope sweep \<noteq> BranchScopeLocal"
    and "remote_entry p repo sweep target (canonical_head p (rp_path repo)) inUse
           (fst (CheckedOutLocalBranches p (rp_path repo))) ref cache prc = Some (e, cache', prc')"
  shows "cache_ok p repo cache'" "pr_cache_ok p sweep repo prc'" "entry_ok p sweep inUse repo e"
proof -
  have "cache_ok p repo cache' \<and> pr_cache_ok p sweep repo prc' \<and> entry_ok p sweep inUse repo e"
  proof (cases "IsRetiredBranch (ref_name ref)")
    case True
    then show ?thesis using assms retired_entry_ineligible by (auto simp: remote_entry_def entry_ok_def)
  next
    case False
    then obtain f c where f: "ClassifyBranch p repo sweep ref BranchScopeRemote target (canonical_head p (rp_path repo))
          inUse (fst (CheckedOutLocalBranches p (rp_path repo))) cache = Some (f, c)"
      using assms(5) by (auto simp: remote_entry_def split: option.splits)
    from ClassifyBranch_ok [OF assms(2) f] have c: "cache_ok p repo c" "be_branch f = ref_name ref"
        "ineligible f \<or> entry_proved p sweep inUse repo f"
      using assms(1) by (auto simp: entry_proved_def identity_def)
    show ?thesis
    proof (cases "wants_pull_requests sweep f")
      case True
      then have "DecorateRemoteBranchPullRequests p repo ref f prc (sw_with_prs sweep) = (e, prc')" "cache' = c"
        using assms(5) False f by (auto simp: remote_entry_def split: prod.splits)
      moreover note d = Decorate_pull_requests_ok [OF assms(3) c(2) this(1)]
      moreover have "be_scope e = be_scope f" using d(3) by (rule identity_fields)
      ultimately show ?thesis using c assms(4) by (auto simp: entry_ok_def ineligible_def entry_proved_def)
    next
      case no: False
      then have "e = f" "cache' = c" "prc' = prc" using assms(5) False f by (auto simp: remote_entry_def)
      then show ?thesis using c assms(3) no by (auto simp: entry_ok_def wants_pull_requests_def)
    qed
  qed
  then show "cache_ok p repo cache'" "pr_cache_ok p sweep repo prc'" "entry_ok p sweep inUse repo e" by auto
qed

lemma inspect_remote_ok:
  assumes "p_FetchTarget p (rp_path repo) (sw_base sweep) = Inr target" "sw_scope sweep \<noteq> BranchScopeLocal"
    and "cache_ok p repo cache" "pr_cache_ok p sweep repo prc"
    and "inspect_remote p repo sweep target (canonical_head p (rp_path repo)) inUse
           (fst (CheckedOutLocalBranches p (rp_path repo))) refs cache prc = Some es"
    and "e \<in> set es"
  shows "entry_ok p sweep inUse repo e"
  using assms(3-)
proof (induction refs arbitrary: cache prc es)
  case Nil
  then show ?case by simp
next
  case (Cons ref refs)
  let ?rest = "inspect_remote p repo sweep target (canonical_head p (rp_path repo)) inUse
      (fst (CheckedOutLocalBranches p (rp_path repo))) refs"
  show ?case
  proof (cases "\<not> BranchNameSelected (Policy sweep) (ref_name ref) \<or> retired_skipped sweep ref")
    case True
    then show ?thesis using Cons by simp
  next
    case False
    then obtain f c pc fs where f: "remote_entry p repo sweep target (canonical_head p (rp_path repo)) inUse
           (fst (CheckedOutLocalBranches p (rp_path repo))) ref cache prc = Some (f, c, pc)"
        "?rest c pc = Some fs" "es = DecorateBranchCommit p (rp_path repo) f # fs"
      using Cons.prems(3) by (auto split: option.splits)
    from remote_entry_ok [OF assms(1) Cons.prems(1,2) assms(2) f(1)] show ?thesis
      using Cons.IH Cons.prems(4) f(2,3) by auto
  qed
qed

lemma InspectRepositoryBranches_ok:
  assumes "InspectRepositoryBranches p repo sweep inUse = Some (es, d)" "e \<in> set es"
  shows "entry_ok p sweep inUse repo e"
proof (cases "p_FetchTarget p (rp_path repo) (sw_base sweep)")
  case (Inl err)
  then show ?thesis using assms
    by (auto simp: InspectRepositoryBranches_def Let_def entry_ok_def ineligible_def disposition_defs)
next
  case (Inr target)
  let ?head = "canonical_head p (rp_path repo)" and ?out = "fst (CheckedOutLocalBranches p (rp_path repo))"
  have e0: "cache_ok p repo (Some Map.empty)" "pr_cache_ok p sweep repo Map.empty"
    by (simp_all add: cache_ok_def pr_cache_ok_def)
  consider es1 refs where "e \<in> set es1" "inspect_local p repo sweep target ?head inUse ?out refs (Some Map.empty) = Some es1"
    | es2 refs where "e \<in> set es2" "sw_scope sweep \<noteq> BranchScopeLocal"
        "inspect_remote p repo sweep target ?head inUse ?out refs (Some Map.empty) Map.empty = Some es2"
    using assms Inr unfolding InspectRepositoryBranches_def Let_def
    by (auto simp: scope_defs split: option.splits prod.splits if_splits)
  then show ?thesis
    using inspect_local_ok [OF Inr e0(1)] inspect_remote_ok [OF Inr _ e0] by cases blast+
qed

lemma inspect_all_ok:
  assumes "inspect_all p sweep inUse repos = Some (es, ds)" "e \<in> set es"
  shows "\<exists>repo \<in> set repos. entry_ok p sweep inUse repo e"
  using assms
proof (induction repos arbitrary: es ds)
  case Nil
  then show ?case by simp
next
  case (Cons r rs)
  then obtain fs d gs ds' where *: "InspectRepositoryBranches p r sweep inUse = Some (fs, d)"
      "inspect_all p sweep inUse rs = Some (gs, ds')" "es = fs @ gs"
    by (auto split: option.splits prod.splits)
  then show ?case using InspectRepositoryBranches_ok [OF *(1)] Cons.IH [OF *(2)] Cons.prems(2) by auto
qed

end
