(* ===== verification/Branch_Props.thy ===== *)
theory Branch_Props
  imports Branch_Proof
begin

text \<open>
  The properties of the branch inventory and its cleanup plan: what the plan of a fleet sweep
  deletes has been proved, the pull-request evidence it rests on is complete, and the inventory
  never dereferences nil.
\<close>

section \<open>Planned deletions are proved\<close>

lemma DiscoverBranchRepositories_sub:
  "DiscoverBranchRepositories p root filt = Inr rs \<Longrightarrow> \<exists>all. p_Discover p root = Inr all \<and> set rs \<subseteq> set all"
  by (auto simp: DiscoverBranchRepositories_def split: sum.splits if_splits)

lemma SelectBranchRepositories_sub:
  "SelectBranchRepositories repos slug org = Inr rs \<Longrightarrow> set rs \<subseteq> set repos"
  by (auto simp: SelectBranchRepositories_def Let_def split: if_splits)

lemma ClassifyFleet_entries:
  assumes "ClassifyFleetBranchesWithPaths p sweep = Some (Inr (entries, ds, paths))" "e \<in> set entries"
  shows "\<exists>all repo. p_Discover p (sw_projects_root sweep) = Inr all \<and> repo \<in> set all \<and>
    entry_ok p sweep (fst (BranchInUseIndex p (sw_projects_root sweep) (sw_filter sweep))) repo e"
proof -
  obtain rs0 rs where rs: "DiscoverBranchRepositories p (sw_projects_root sweep) (sw_filter sweep) = Inr rs0"
      "SelectBranchRepositories rs0 (sw_repository sweep) (sw_org sweep) = Inr rs"
    using assms(1) by (auto simp: ClassifyFleetBranchesWithPaths_def split: sum.splits)
  obtain ds' where "inspect_all p sweep (fst (BranchInUseIndex p (sw_projects_root sweep) (sw_filter sweep))) rs = Some (entries, ds')"
    using assms(1) rs by (auto simp: ClassifyFleetBranchesWithPaths_def Let_def split: prod.splits)
  from inspect_all_ok [OF this assms(2)] show ?thesis
    using DiscoverBranchRepositories_sub [OF rs(1)] SelectBranchRepositories_sub [OF rs(2)] by blast
qed

lemma entry_ok_planned:
  assumes ok: "entry_ok p sweep inUse repo e" and del: "deletable entries (Policy sweep) e" and "e \<in> set entries"
    and "sw_cleanup sweep"
  shows "entry_proved p sweep inUse repo e"
    and "be_scope e \<noteq> BranchScopeRemote \<or>
      ev_err (evidence_of p sweep repo (be_branch e)) = None \<and>
      ev_open_head (evidence_of p sweep repo (be_branch e)) = None \<and>
      ev_open_base (evidence_of p sweep repo (be_branch e)) = None"
proof -
  have el: "EligibleBranchCleanupDisposition e" using del by (simp add: deletable_def eligible_iff)
  then have ne: "\<not> ineligible e" using ineligible_not_eligible by blast
  then show "entry_proved p sweep inUse repo e" using ok by (simp add: entry_ok_def)
  show "be_scope e \<noteq> BranchScopeRemote \<or>
      ev_err (evidence_of p sweep repo (be_branch e)) = None \<and>
      ev_open_head (evidence_of p sweep repo (be_branch e)) = None \<and>
      ev_open_base (evidence_of p sweep repo (be_branch e)) = None"
  proof (cases "be_scope e = BranchScopeRemote")
    case True
    then have d: "decorated p sweep repo e" "sw_scope sweep \<noteq> BranchScopeLocal"
      using ok ne el assms(4) by (auto simp: entry_ok_def)
    have "\<not> be_query_failed e" "be_open_pr e = None" "be_open_base_pr e = None"
      using del True d(2) ne assms(3) by (auto simp: deletable_def Policy_def ineligible_def)
    then show ?thesis using d(1) by (simp add: decorated_def)
  qed simp
qed

text \<open>
  What has been observed of an entry when it may be deleted: its repository was discovered, it
  is a ref of it with that name and commit, the target was fetched, the branch is free (neither
  the base, nor the canonical HEAD, nor main or master, nor claimed, nor checked out), one of
  the four proofs succeeded, and a remote branch has no open pull request.
\<close>

definition plan_proved :: "inventory_ports \<Rightarrow> inventory_sweep \<Rightarrow> branch_entry \<Rightarrow> bool" where
  "plan_proved p sweep e \<longleftrightarrow>
     (\<exists>repos repo ref target. p_Discover p (sw_projects_root sweep) = Inr repos \<and> repo \<in> set repos \<and>
        p_FetchTarget p (rp_path repo) (sw_base sweep) = Inr target \<and>
        be_repository e = rp_slug repo \<and> be_branch e = ref_name ref \<and> be_sha e = ref_sha ref \<and> be_target_sha e = target \<and>
        ref_name ref \<notin> {sw_base sweep, canonical_head p (rp_path repo), ''main'', ''master''} \<and>
        fst (BranchInUseIndex p (sw_projects_root sweep) (sw_filter sweep)) (BranchInUseKey (rp_slug repo) (ref_name ref)) = None \<and>
        \<not> fst (CheckedOutLocalBranches p (rp_path repo)) (ref_name ref) \<and>
        deletion_proved p repo sweep ref target \<and>
        (be_scope e = BranchScopeRemote \<longrightarrow>
           ev_err (evidence_of p sweep repo (ref_name ref)) = None \<and>
           ev_open_head (evidence_of p sweep repo (ref_name ref)) = None \<and>
           ev_open_base (evidence_of p sweep repo (ref_name ref)) = None))"

lemma deletable_entry_proved:
  assumes "ClassifyFleetBranchesWithPaths p sweep = Some (Inr (entries, ds, paths))"
    and "sw_cleanup sweep" "e \<in> set (SortBranchEntries entries)" "deletable (SortBranchEntries entries) (Policy sweep) e"
  shows "plan_proved p sweep e"
proof -
  let ?es = "SortBranchEntries entries"
  let ?inUse = "fst (BranchInUseIndex p (sw_projects_root sweep) (sw_filter sweep))"
  have "e \<in> set entries" using assms(3) by (simp add: SortBranchEntries_def)
  then obtain repos repo where repo: "p_Discover p (sw_projects_root sweep) = Inr repos" "repo \<in> set repos"
      "entry_ok p sweep ?inUse repo e"
    using ClassifyFleet_entries [OF assms(1)] by blast
  note ok = entry_ok_planned [OF repo(3) assms(4,3,2)]
  from ok(1) obtain ref target where t: "p_FetchTarget p (rp_path repo) (sw_base sweep) = Inr target"
      "identity e = (rp_slug repo, ref_name ref, be_scope e, ref_sha ref, target)"
      "unencumbered p repo sweep ?inUse (canonical_head p (rp_path repo)) (fst (CheckedOutLocalBranches p (rp_path repo)))
          (ref_name ref)" "deletion_proved p repo sweep ref target"
    unfolding entry_proved_def by blast
  have id: "be_repository e = rp_slug repo" "be_branch e = ref_name ref" "be_sha e = ref_sha ref" "be_target_sha e = target"
    using t(2) by (simp_all add: identity_def)
  have free: "ref_name ref \<notin> {sw_base sweep, canonical_head p (rp_path repo), ''main'', ''master''}"
      "?inUse (BranchInUseKey (rp_slug repo) (ref_name ref)) = None"
      "\<not> fst (CheckedOutLocalBranches p (rp_path repo)) (ref_name ref)"
    using t(3) by (auto simp: unencumbered_def IsProtectedBranch_def split: if_splits)
  have ev: "be_scope e = BranchScopeRemote \<longrightarrow>
      ev_err (evidence_of p sweep repo (ref_name ref)) = None \<and>
      ev_open_head (evidence_of p sweep repo (ref_name ref)) = None \<and>
      ev_open_base (evidence_of p sweep repo (ref_name ref)) = None"
    using ok(2) id(2) by simp
  show ?thesis unfolding plan_proved_def using repo(1,2) t(1,4) id free ev by blast
qed

text \<open>
  everything a fleet cleanup plans to delete has been proved. For each planned result
  there is a discovered repository, a ref of it with that name and commit, and a target that
  was fetched from origin, such that the branch is not protected (it is not the base, the
  canonical HEAD, main or master), not claimed by a work log, not checked out in a linked
  worktree, and one of four proofs succeeded: it is an ancestor of the target, a reviewed
  supersession was accepted and its receipt digested, the operator's pointer was attested, or a
  merged pull request landed it in full. When the branch is remote, the pull-request query for
  it succeeded and found no open pull request with it as head or base (\<^const>\<open>plan_proved\<close>).
\<close>

theorem planned_deletions_proved:
  assumes "ClassifyFleetBranchesWithPaths p sweep = Some (Inr (entries, ds, paths))"
    and "sw_cleanup sweep"
    and "r \<in> set (PlanBranchCleanup (SortBranchEntries entries) (Policy sweep))" "cr_outcome r = ''planned''"
  shows "plan_proved p sweep (cr_entry r)"
proof (rule deletable_entry_proved [OF assms(1,2)])
  show "cr_entry r \<in> set (SortBranchEntries entries)" "deletable (SortBranchEntries entries) (Policy sweep) (cr_entry r)"
    using assms(3,4) by (auto simp: PlanBranchCleanup_def plan_entry_deletable split: if_splits)
qed

text \<open>A small fleet: one repository with one local branch that is an ancestor of the target.\<close>

definition sample_sha :: string where
  "sample_sha = ''a1''"

definition sample_git :: "string \<Rightarrow> string list \<Rightarrow> (string, string) result" where
  "sample_git path args =
     (if args ! 0 = ''rev-parse'' then Inr (if args ! 1 = ''--verify'' then sample_sha else [])
      else if args ! 0 = ''for-each-ref'' then Inr (''x'' @ US # sample_sha @ US # ''t'')
      else Inr [])"

definition sample_ports :: inventory_ports where
  "sample_ports =
     \<lparr>p_Discover = \<lambda>_. Inr [\<lparr>rp_slug = ''a/b'', rp_path = ''/p''\<rparr>],
      p_ListInUse = \<lambda>_ _. Inr [], p_Git = sample_git, p_CheckedOut = \<lambda>_. (\<lambda>_. False, []),
      p_InUse = \<lambda>_ _. (Map.empty, []), p_OpenHeadPull = \<lambda>_ _ _ _. Inr None, p_OpenBasePull = \<lambda>_ _ _. Inr None,
      p_FetchTarget = \<lambda>_ _. Inr ''b2'', p_IsAncestor = \<lambda>_ _ _. Inr True,
      p_ContentContained = \<lambda>_ _ _. Inr True, p_LandingReverted = \<lambda>_ _ _ _. Inr False,
      p_CommitTree = \<lambda>_ _. Inr [], p_Supersession = \<lambda>_ _ _ _ _. (None, ''no receipt''),
      p_SupersessionDigest = \<lambda>_. Inr [], p_AttestedReceipt = \<lambda>_ _ _ _ _. Inr (None, []),
      p_PullRequestsForHead = \<lambda>_ _. Inr [], p_AbsorbingPR = AbsorbingPullRequest,
      p_PullRequestAPI = \<lambda>_ _. Inr ''[]'', p_decode_pages = \<lambda>_. ([Some []], None), p_parse_time = \<lambda>_. None\<rparr>"

definition sample_sweep :: inventory_sweep where
  "sample_sweep =
     \<lparr>sw_projects_root = ''/src'', sw_base = ''main'', sw_scope = BranchScopeLocal, sw_only = [], sw_filter = [],
      sw_repository = [], sw_org = [], sw_branch = [], sw_name = [], sw_older_than = 0, sw_now = 0,
      sw_receipts = False, sw_with_prs = False, sw_cleanup = True, sw_include_retired = False,
      sw_absorbed_by = [], sw_superseded_by = []\<rparr>"

definition sample_plan :: "cleanup_result list" where
  "sample_plan =
     (case ClassifyFleetBranchesWithPaths sample_ports sample_sweep of
        Some (Inr (entries, _)) \<Rightarrow> PlanBranchCleanup (SortBranchEntries entries) (Policy sample_sweep)
      | _ \<Rightarrow> [])"

lemma sample_plan_outcomes: "map cr_outcome sample_plan = [''planned'']"
  by code_simp

theorem planned_deletions_proved_witness:
  "cr_outcome (sample_plan ! 0) = ''planned'' \<and> be_branch (cr_entry (sample_plan ! 0)) \<noteq> ''main''"
proof -
  let ?r = "sample_plan ! 0"
  have r: "?r \<in> set sample_plan" "cr_outcome ?r = ''planned''"
    using arg_cong [OF sample_plan_outcomes, of length] arg_cong [OF sample_plan_outcomes, of "\<lambda>xs. xs ! 0"] by auto
  obtain entries ds paths where c: "ClassifyFleetBranchesWithPaths sample_ports sample_sweep = Some (Inr (entries, ds, paths))"
    using r(1) by (auto simp: sample_plan_def split: option.splits sum.splits)
  then have in_plan: "?r \<in> set (PlanBranchCleanup (SortBranchEntries entries) (Policy sample_sweep))"
    using r(1) by (simp add: sample_plan_def)
  have "sw_cleanup sample_sweep" by (simp add: sample_sweep_def)
  from planned_deletions_proved [OF c this in_plan r(2)] have "be_branch (cr_entry ?r) \<noteq> ''main''"
    by (auto simp: plan_proved_def)
  with r(2) show ?thesis by simp
qed

section \<open>Pull-request evidence is complete\<close>

definition open_for :: "repository \<Rightarrow> string \<Rightarrow> (github_pull_request \<Rightarrow> github_ref) \<Rightarrow> github_pull_request \<Rightarrow> bool" where
  "open_for repo branch side c \<longleftrightarrow>
     ghr_ref (side c) = branch \<and> (case ghr_repo (side c) of Some name \<Rightarrow> EqualFold name (rp_slug repo) | None \<Rightarrow> False) \<and>
     gh_merged_at c = None \<and> ToLower (gh_state c) = ''open''"

lemma newer_open_Some [simp]: "newer_open current pr \<noteq> None"
  by (simp add: newer_open_def split: option.split)

lemma appendCandidate_open:
  "ev_open_head (appendCandidate repo ev c ''head'') = None \<longleftrightarrow>
     ev_open_head ev = None \<and> \<not> (gh_merged_at c = None \<and> ToLower (gh_state c) = ''open'')"
  "ev_open_base (appendCandidate repo ev c ''head'') = ev_open_base ev"
  "ev_open_base (appendCandidate repo ev c ''base'') = None \<longleftrightarrow>
     ev_open_base ev = None \<and> \<not> (gh_merged_at c = None \<and> ToLower (gh_state c) = ''open'')"
  "ev_open_head (appendCandidate repo ev c ''base'') = ev_open_head ev"
  "ev_err (appendCandidate repo ev c role) = ev_err ev"
  by (auto simp: appendCandidate_def Let_def)

lemma scan_candidates_identity:
  "scan_candidates repo branch role side cs ev = Inr ev' \<Longrightarrow>
     \<not> (\<exists>c \<in> set cs. ghr_ref (side c) = branch \<and> ghr_repo (side c) = None) \<and> ev_err ev' = ev_err ev"
proof (induction cs arbitrary: ev)
  case (Cons c cs)
  have "\<not> (ghr_ref (side c) = branch \<and> ghr_repo (side c) = None)"
    using Cons.prems by (simp add: Let_def split: if_split_asm)
  moreover from this consider "scan_candidates repo branch role side cs ev = Inr ev'"
    | "scan_candidates repo branch role side cs (appendCandidate repo ev c role) = Inr ev'"
    using Cons.prems by (simp add: Let_def split: if_split_asm)
  then have "\<not> (\<exists>c \<in> set cs. ghr_ref (side c) = branch \<and> ghr_repo (side c) = None) \<and> ev_err ev' = ev_err ev"
    using Cons.IH [of ev] Cons.IH [of "appendCandidate repo ev c role"] appendCandidate_open(5) by cases auto
  ultimately show ?case by simp
qed simp

lemma scan_candidates_head:
  assumes "scan_candidates repo branch ''head'' side cs ev = Inr ev'"
  shows "(ev_open_head ev' = None \<longleftrightarrow> ev_open_head ev = None \<and> \<not> (\<exists>c \<in> set cs. open_for repo branch side c)) \<and>
     ev_open_base ev' = ev_open_base ev"
  using assms
proof (induction cs arbitrary: ev)
  case (Cons c cs)
  show ?case
  proof (cases "ghr_ref (side c) = branch \<and> EqualFold (the (ghr_repo (side c))) (rp_slug repo)")
    case True
    with Cons show ?thesis
      by (auto simp: Let_def appendCandidate_open open_for_def split: if_splits option.splits)
  next
    case False
    then have "\<not> open_for repo branch side c" by (auto simp: open_for_def split: option.splits)
    with Cons False show ?thesis by (auto simp: Let_def split: if_splits)
  qed
qed simp

lemma scan_candidates_base:
  assumes "scan_candidates repo branch ''base'' side cs ev = Inr ev'"
  shows "(ev_open_base ev' = None \<longleftrightarrow> ev_open_base ev = None \<and> \<not> (\<exists>c \<in> set cs. open_for repo branch side c)) \<and>
     ev_open_head ev' = ev_open_head ev"
  using assms
proof (induction cs arbitrary: ev)
  case (Cons c cs)
  show ?case
  proof (cases "ghr_ref (side c) = branch \<and> EqualFold (the (ghr_repo (side c))) (rp_slug repo)")
    case True
    with Cons show ?thesis
      by (auto simp: Let_def appendCandidate_open open_for_def split: if_splits option.splits)
  next
    case False
    then have "\<not> open_for repo branch side c" by (auto simp: open_for_def split: option.splits)
    with Cons False show ?thesis by (auto simp: Let_def split: if_splits)
  qed
qed simp

lemma collect_pages_Inr:
  "collect_pages endpoint pages err n acc = Inr reqs \<Longrightarrow>
     err = None \<and> (\<exists>ps. pages = map Some ps \<and> reqs = acc @ concat ps \<and> (n = 0 \<longrightarrow> ps \<noteq> []))"
proof (induction endpoint pages err n acc rule: collect_pages.induct)
  case (4 endpoint page ps e n acc)
  then obtain qs where "ps = map Some qs" "reqs = (acc @ page) @ concat qs" "e = None" by auto
  then show ?case by (intro conjI exI [of _ "page # qs"]) auto
qed (auto split: if_splits)

text \<open>
  pull-request evidence without an error is complete. Both queries succeeded; every pull
  request they name for the branch carries a repository identity, so that none was dropped for
  want of one; and the evidence has no open head (base) exactly when no pull request of the
  head (base) query is open for this branch of this repository. A failed evidence is therefore
  never read as the absence of pull requests.
\<close>

theorem pull_request_evidence_complete:
  assumes "ev_err (BranchPullRequestsForHeadState p repo branch headState) = None"
  shows "\<exists>owner heads bases.
     fst (Cut (rp_slug repo) (CHR ''/'')) = owner \<and>
     QueryBranchPullRequests p repo [(''head'', owner @ '':'' @ branch), (''per_page'', ''100''), (''state'', headState)] = Inr heads \<and>
     QueryBranchPullRequests p repo [(''base'', branch), (''per_page'', ''100''), (''state'', ''open'')] = Inr bases \<and>
     \<not> (\<exists>c \<in> set heads. ghr_ref (gh_head c) = branch \<and> ghr_repo (gh_head c) = None) \<and>
     \<not> (\<exists>c \<in> set bases. ghr_ref (gh_base c) = branch \<and> ghr_repo (gh_base c) = None) \<and>
     (ev_open_head (BranchPullRequestsForHeadState p repo branch headState) = None \<longleftrightarrow>
        \<not> (\<exists>c \<in> set heads. open_for repo branch gh_head c)) \<and>
     (ev_open_base (BranchPullRequestsForHeadState p repo branch headState) = None \<longleftrightarrow>
        \<not> (\<exists>c \<in> set bases. open_for repo branch gh_base c))"
proof -
  let ?ev = "BranchPullRequestsForHeadState p repo branch headState"
  obtain owner rest ok where cut: "Cut (rp_slug repo) (CHR ''/'') = (owner, rest, ok)" by (metis prod.exhaust)
  obtain heads bases ev1 ev2 where q:
    "QueryBranchPullRequests p repo [(''head'', owner @ '':'' @ branch), (''per_page'', ''100''), (''state'', headState)] = Inr heads"
    "QueryBranchPullRequests p repo [(''base'', branch), (''per_page'', ''100''), (''state'', ''open'')] = Inr bases"
    "scan_candidates repo branch ''head'' gh_head heads no_evidence = Inr ev1"
    "scan_candidates repo branch ''base'' gh_base bases ev1 = Inr ev2"
    "?ev = ev2\<lparr>ev_requests := sort_key request_key (ev_requests ev2)\<rparr>"
    using assms cut unfolding BranchPullRequestsForHeadState_def Let_def
    by (simp split: if_split_asm sum.split_asm)
  show ?thesis
    using cut q(1,2,5) scan_candidates_identity [OF q(3)] scan_candidates_identity [OF q(4)]
      scan_candidates_head [OF q(3)] scan_candidates_base [OF q(4)]
    by (intro exI [of _ owner] exI [of _ heads] exI [of _ bases]) (auto simp: no_evidence_def)
qed

theorem pull_request_evidence_complete_witness:
  "ev_err (BranchPullRequestsForHeadState sample_ports \<lparr>rp_slug = ''a/b'', rp_path = ''/p''\<rparr> ''x'' ''open'') = None \<and>
   (\<exists>heads. QueryBranchPullRequests sample_ports \<lparr>rp_slug = ''a/b'', rp_path = ''/p''\<rparr>
      [(''head'', ''a:x''), (''per_page'', ''100''), (''state'', ''open'')] = Inr heads)"
proof -
  have e: "ev_err (BranchPullRequestsForHeadState sample_ports \<lparr>rp_slug = ''a/b'', rp_path = ''/p''\<rparr> ''x'' ''open'') = None"
    by code_simp
  from pull_request_evidence_complete [OF e] show ?thesis using e by (auto simp: Cut_def)
qed

section \<open>The inventory returns\<close>

lemma ReceiptedBranch_Some: "pr \<noteq> None \<or> ab \<noteq> [] \<Longrightarrow> ReceiptedBranch e l pr ab \<noteq> None"
  by (auto simp: ReceiptedBranch_def Let_def split: option.split)

lemma classify_receipt_Some: "\<exists>r. classify_receipt p repo sweep ref target cache entry patches n = Some r"
proof -
  obtain a b c where p: "patches = (a, b, c)" by (metis prod.exhaust)
  obtain r m d where l: "ClassifyLandingReceipt p repo ref (sw_base sweep) target cache = ((r, m), d)" by (metis prod.exhaust)
  show ?thesis
  proof (cases r)
    case None
    then show ?thesis using p l by (simp add: classify_receipt_def)
  next
    case (Some pr)
    obtain e where "ReceiptedBranch entry (pr_merge_sha pr) (Some pr) [] = Some e"
      using ReceiptedBranch_Some [of "Some pr"] by fastforce
    then show ?thesis using p l Some by (simp add: classify_receipt_def)
  qed
qed

lemma classify_content_Some: "\<exists>r. classify_content p repo sweep ref target cache entry = Some r"
proof (cases "sw_absorbed_by sweep = []")
  case True
  then show ?thesis using classify_receipt_Some
    by (simp add: classify_content_def split: sum.split bool.split)
next
  case False
  show ?thesis
  proof (cases "p_AttestedReceipt p repo ref (sw_base sweep) target (sw_absorbed_by sweep)")
    case (Inl err)
    then show ?thesis using False by (simp add: classify_content_def split: sum.split bool.split)
  next
    case (Inr cn)
    obtain c n where cn: "cn = (c, n)" by fastforce
    show ?thesis
    proof (cases c)
      case None
      then show ?thesis using False Inr cn classify_receipt_Some
        by (simp add: classify_content_def split: sum.split bool.split)
    next
      case (Some v)
      obtain e where "ReceiptedBranch entry (vc_landing_sha v) (vc_pull_request v) (sw_absorbed_by sweep) = Some e"
        using False ReceiptedBranch_Some by fastforce
      then show ?thesis using False Inr cn Some by (simp add: classify_content_def split: sum.split bool.split)
    qed
  qed
qed

lemma ClassifyBranch_Some:
  assumes "supersession_contract p"
  shows "\<exists>e c. ClassifyBranch p repo sweep ref scope target canonicalHEAD inUse checkedOut cache = Some (e, c)"
proof -
  obtain receipt rejection where s: "p_Supersession p (sw_superseded_by sweep) repo ref (sw_base sweep) target = (receipt, rejection)"
    by fastforce
  have "rejection = [] \<Longrightarrow> \<exists>r. receipt = Some r"
    using assms s unfolding supersession_contract_def by (metis fst_conv snd_conv not_None_eq)
  moreover have "\<exists>e c. classify_content p repo sweep ref target cache entry = Some (e, c)" for entry
    using classify_content_Some by fast
  ultimately show ?thesis using s
    by (cases "rejection = []") (auto simp: ClassifyBranch_def Let_def)
qed

lemma inspect_local_Some:
  assumes "supersession_contract p"
  shows "\<exists>es. inspect_local p repo sweep target head inUse checkedOut refs cache = Some es"
proof (induction refs arbitrary: cache)
  case (Cons ref refs)
  obtain e c where "(if IsRetiredBranch (ref_name ref)
        then Some (RetiredBranchEntry (rp_slug repo) (Policy sweep) ref BranchScopeLocal target, cache)
        else ClassifyBranch p repo sweep ref BranchScopeLocal target head inUse checkedOut cache) = Some (e, c)"
    using ClassifyBranch_Some [OF assms, of repo sweep ref BranchScopeLocal target head inUse checkedOut cache]
    by (cases "IsRetiredBranch (ref_name ref)") auto
  then show ?case using Cons.IH [of cache] Cons.IH [of c] by auto
qed simp

lemma inspect_remote_Some:
  assumes "supersession_contract p"
  shows "\<exists>es. inspect_remote p repo sweep target head inUse checkedOut refs cache prc = Some es"
proof (induction refs arbitrary: cache prc)
  case (Cons ref refs)
  obtain f c g d where
    "ClassifyBranch p repo sweep ref BranchScopeRemote target head inUse checkedOut cache = Some (f, c)"
    "DecorateRemoteBranchPullRequests p repo ref f prc (sw_with_prs sweep) = (g, d)"
    using ClassifyBranch_Some [OF assms, of repo sweep ref BranchScopeRemote target head inUse checkedOut cache] by fastforce
  then have "\<exists>e c d. remote_entry p repo sweep target head inUse checkedOut ref cache prc = Some (e, c, d)"
    by (simp add: remote_entry_def)
  then obtain e c d where "remote_entry p repo sweep target head inUse checkedOut ref cache prc = Some (e, c, d)" by blast
  then show ?case using Cons.IH [of cache prc] Cons.IH [of c d] by auto
qed simp

lemma InspectRepositoryBranches_Some:
  assumes "supersession_contract p"
  shows "\<exists>es d. InspectRepositoryBranches p repo sweep inUse = Some (es, d)"
proof (cases "p_FetchTarget p (rp_path repo) (sw_base sweep)")
  case (Inl err)
  then show ?thesis by (simp add: InspectRepositoryBranches_def Let_def)
next
  case (Inr target)
  let ?head = "canonical_head p (rp_path repo)" and ?out = "fst (CheckedOutLocalBranches p (rp_path repo))"
  obtain refs d refs' d' where r: "ListLocalRefs p (rp_path repo) = (refs, d)" "ListRemoteRefs p (rp_path repo) = (refs', d')"
    by fastforce
  obtain es es' where "inspect_local p repo sweep target ?head inUse ?out refs (Some Map.empty) = Some es"
      "inspect_remote p repo sweep target ?head inUse ?out refs' (Some Map.empty) Map.empty = Some es'"
    using inspect_local_Some [OF assms] inspect_remote_Some [OF assms] by metis
  then show ?thesis using Inr r by (simp add: InspectRepositoryBranches_def Let_def)
qed

lemma inspect_all_Some:
  assumes "supersession_contract p"
  shows "\<exists>es ds. inspect_all p sweep inUse repos = Some (es, ds)"
proof (induction repos)
  case (Cons r rs)
  then show ?case using InspectRepositoryBranches_Some [OF assms, of r sweep inUse] by auto
qed simp

text \<open>
  the inventory of a fleet never dereferences nil. With a supersession port that
  accompanies every acceptance with its evidence, a sweep ends with an error or with entries,
  whatever Git, GitHub and the claims index answer.
\<close>

theorem inventory_returns:
  assumes "supersession_contract p"
  shows "\<exists>outcome. ClassifyFleetBranchesWithPaths p sweep = Some outcome"
proof -
  have "\<exists>r. inspect_all p sweep inUse repos = Some r" for inUse repos
    using inspect_all_Some [OF assms] by blast
  then show ?thesis
    by (auto simp: ClassifyFleetBranchesWithPaths_def Let_def split: sum.split prod.split)
qed

theorem inventory_returns_witness:
  "supersession_contract sample_ports \<and>
   (\<exists>outcome. ClassifyFleetBranchesWithPaths sample_ports sample_sweep = Some outcome)"
proof -
  have "supersession_contract sample_ports" by (simp add: supersession_contract_def sample_ports_def)
  with inventory_returns [OF this] show ?thesis by blast
qed

end
