(* ===== verification/Branch_Quarantine_Props.thy ===== *)
theory Branch_Quarantine_Props
  imports Branch_Quarantine Branch_Props
begin

text \<open>
  Correctness of the quarantine of branches: the inspection written as one condition, what every
  ref transaction of a run rests on, that two rows never share a destination, and that no commit
  becomes unreachable from the heads of its repository.
\<close>

section \<open>The inspection as a condition\<close>

definition unclaimed :: "inventory_ports \<Rightarrow> string \<Rightarrow> quarantine_request \<Rightarrow> bool" where
  "unclaimed p root rq \<longleftrightarrow>
     (\<exists>inUse. p_InUse p root [] = (inUse, []) \<and> inUse (BranchInUseKey (rq_repository rq) (rq_ref rq)) = None)"

text \<open>\<open>destination\<close> is \<open>None\<close> while planning, and the ref to be created when applying.\<close>

definition movable ::
  "inventory_ports \<Rightarrow> string \<Rightarrow> string \<Rightarrow> quarantine_request \<Rightarrow> string option \<Rightarrow> string \<Rightarrow> bool" where
  "movable p root path rq destination c \<longleftrightarrow>
     (\<exists>out. p_Git p path [''rev-parse'', ''--verify'', ''refs/heads/'' @ rq_ref rq @ ''^{commit}''] = Inr out \<and> c = TrimSpace out) \<and>
     (rq_sha rq = [] \<or> rq_sha rq = c) \<and>
     \<not> IsProtectedBranch (rq_ref rq) ''main'' (canonical_head p path) \<and>
     (\<exists>checked. p_CheckedOut p path = (checked, []) \<and> \<not> checked (rq_ref rq)) \<and>
     (\<forall>d. destination = Some d \<longrightarrow> isl (p_Git p path [''rev-parse'', ''--verify'', ''refs/heads/'' @ d])) \<and>
     p_OpenHeadPull p path (rq_repository rq) (rq_ref rq) c = Inr None \<and>
     p_OpenBasePull p path (rq_repository rq) (rq_ref rq) = Inr None \<and>
     unclaimed p root rq"

lemma claim_refusal_None: "branchQuarantineClaimRefusal p root rq a = None \<longleftrightarrow> unclaimed p root rq"
  by (cases "p_InUse p root []") (auto simp: branchQuarantineClaimRefusal_def unclaimed_def)

lemma pull_refusal_None:
  "quarantine_pull_refusal p path rq c a = None \<longleftrightarrow>
     p_OpenHeadPull p path (rq_repository rq) (rq_ref rq) c = Inr None \<and>
     p_OpenBasePull p path (rq_repository rq) (rq_ref rq) = Inr None"
  unfolding quarantine_pull_refusal_def
  by (auto split: sum.split option.split)

lemma Inspect_iff:
  "InspectBranchQuarantineCandidate p root path rq d applying = Inr c \<longleftrightarrow>
     movable p root path rq (if applying then Some d else None) c"
proof (cases "p_Git p path [''rev-parse'', ''--verify'', ''refs/heads/'' @ rq_ref rq @ ''^{commit}'']")
  case (Inl e)
  then show ?thesis by (simp add: InspectBranchQuarantineCandidate_def movable_def)
next
  case git: (Inr out)
  obtain checked diagnostic where co: "p_CheckedOut p path = (checked, diagnostic)" by (cases "p_CheckedOut p path")
  let ?dst = "p_Git p path [''rev-parse'', ''--verify'', ''refs/heads/'' @ d]"
  have dst: "(case ?dst of Inr _ \<Rightarrow> Some t | Inl _ \<Rightarrow> None) = None \<longleftrightarrow> isl ?dst" for t :: string
    by (cases ?dst) simp_all
  show ?thesis
  proof (cases applying)
    case True
    then show ?thesis unfolding InspectBranchQuarantineCandidate_def movable_def git co
      using dst claim_refusal_None [of p root rq True] pull_refusal_None [of p path rq "TrimSpace out" True]
      by (auto simp: Let_def split: if_split_asm option.split option.split_asm)
  next
    case False
    then show ?thesis unfolding InspectBranchQuarantineCandidate_def movable_def git co
      using claim_refusal_None [of p root rq False] pull_refusal_None [of p path rq "TrimSpace out" False]
      by (auto simp: Let_def split: if_split_asm option.split option.split_asm)
  qed
qed

section \<open>Planned rows\<close>

abbreviation q_ports :: "quarantine_env \<Rightarrow> quarantine_ops \<Rightarrow> inventory_ports" where
  "q_ports env ops \<equiv> branchQuarantineService (qe_inventory env) ops"

definition row_path :: "(string \<rightharpoonup> string) \<Rightarrow> quarantine_result \<Rightarrow> string" where
  "row_path paths r = (case paths (rq_repository (qr_request r)) of None \<Rightarrow> [] | Some path \<Rightarrow> path)"

definition planned_row ::
  "quarantine_env \<Rightarrow> string \<Rightarrow> (string \<rightharpoonup> string) \<Rightarrow> bool \<Rightarrow> quarantine_request \<Rightarrow> quarantine_result \<Rightarrow> bool" where
  "planned_row env root paths annotate rq r \<longleftrightarrow>
     (\<exists>c. qr_request r = rq\<lparr>rq_sha := c\<rparr> \<and> movable (q_ports env (qe_plan env)) root (row_path paths r) rq None c \<and>
        qr_reviewed_at r = qe_now env \<and>
        (\<not> annotate \<longrightarrow> qr_destination r = RetiredBranchDestination (qe_now env) (rq_ref rq) c))"

lemma plan_row_planned:
  assumes "qr_outcome (plan_row (qe_inventory env) (qe_sha256_hex env) root paths annotate (qe_now env) (qe_plan env) rq) = ''planned''"
  shows "planned_row env root paths annotate rq
    (plan_row (qe_inventory env) (qe_sha256_hex env) root paths annotate (qe_now env) (qe_plan env) rq)"
proof -
  let ?path = "case paths (rq_repository rq) of None \<Rightarrow> [] | Some path \<Rightarrow> path"
  let ?ins = "InspectBranchQuarantineCandidate (q_ports env (qe_plan env)) root ?path rq [] False"
  obtain c where c: "?ins = Inr c"
    using assms
    by (cases ?ins) (simp_all add: plan_row_def planBranchAnnotationWithOps_def planBranchQuarantineWithOps_def
        PlanBranchQuarantine_def refused_result_def Let_def split: if_split_asm)
  then have mv: "movable (q_ports env (qe_plan env)) root ?path rq None c" using Inspect_iff by simp
  show ?thesis
  proof (cases annotate)
    case True
    then show ?thesis using mv c
      by (auto simp: planned_row_def plan_row_def planBranchAnnotationWithOps_def refused_result_def row_path_def Let_def
          intro!: exI [of _ c])
  next
    case False
    then show ?thesis using mv c assms
      by (auto simp: planned_row_def plan_row_def planBranchQuarantineWithOps_def PlanBranchQuarantine_def refused_result_def
          row_path_def Let_def intro!: exI [of _ c] split: sum.split_asm sum.split)
  qed
qed

lemma refuse_collisions_planned:
  assumes "r \<in> set (refuse_collisions rs)" "qr_outcome r = ''planned''"
  shows "r \<in> set rs"
  using assms by (auto simp: refuse_collisions_def split: if_split_asm)

lemma plan_rows_planned:
  assumes "r \<in> set (plan_rows env root paths options requests)" "qr_outcome r = ''planned''"
  shows "\<exists>rq \<in> set requests. planned_row env root paths (qo_annotate options) rq r"
proof -
  have "r \<in> set (map (plan_row (qe_inventory env) (qe_sha256_hex env) root paths (qo_annotate options) (qe_now env)
       (qe_plan env)) requests)"
    using refuse_collisions_planned assms unfolding plan_rows_def by blast
  then obtain rq where rq: "rq \<in> set requests"
      "r = plan_row (qe_inventory env) (qe_sha256_hex env) root paths (qo_annotate options) (qe_now env) (qe_plan env) rq"
    by auto
  show ?thesis using plan_row_planned [of env root paths "qo_annotate options" rq] assms(2) rq by blast
qed

lemma two_in_filter:
  assumes "i < j" "j < length xs" "P (xs ! i)" "P (xs ! j)"
  shows "1 < length (filter P xs)"
proof -
  have "{i, j} \<subseteq> {k. k < length xs \<and> P (xs ! k)}" using assms by auto
  then have "card {i, j} \<le> card {k. k < length xs \<and> P (xs ! k)}" by (intro card_mono) simp_all
  then show ?thesis using assms(1) by (simp add: length_filter_conv_card)
qed

lemma refuse_collisions_distinct:
  assumes "i < j" "j < length rs" "qr_outcome (refuse_collisions rs ! i) = ''planned''" "qr_outcome (refuse_collisions rs ! j) = ''planned''"
  shows "destination_key (refuse_collisions rs ! i) \<noteq> destination_key (refuse_collisions rs ! j)"
proof
  assume eq: "destination_key (refuse_collisions rs ! i) = destination_key (refuse_collisions rs ! j)"
  have at: "refuse_collisions rs ! k = rs ! k" if "k < length rs" "qr_outcome (refuse_collisions rs ! k) = ''planned''" for k
    using that by (auto simp: refuse_collisions_def split: if_split_asm)
  let ?P = "\<lambda>q. qr_outcome q = ''planned'' \<and> destination_key q = destination_key (rs ! j)"
  have i: "i < length rs" using assms(1,2) by simp
  have p: "qr_outcome (rs ! i) = ''planned''" "qr_outcome (rs ! j) = ''planned''"
    using assms(3,4) at [OF i assms(3)] at [OF assms(2,4)] by simp_all
  have "destination_key (rs ! i) = destination_key (rs ! j)" using eq at [OF i assms(3)] at [OF assms(2,4)] by simp
  then have "1 < length (filter ?P rs)" using p by (intro two_in_filter [OF assms(1,2)]) simp_all
  then have "qr_outcome (refuse_collisions rs ! j) = ''refused''"
    using p(2) assms(2) by (simp add: refuse_collisions_def)
  then show False using assms(4) by simp
qed

section \<open>Applied rows\<close>

text \<open>What a ref transaction of a row rests on; \<open>report\<close> is what was published right before it.\<close>

definition move_justified ::
  "quarantine_env \<Rightarrow> string \<Rightarrow> quarantine_result list \<Rightarrow> nat \<Rightarrow> quarantine_result list \<Rightarrow> quarantine_event \<Rightarrow> bool" where
  "move_justified env root plan i report e \<longleftrightarrow>
     (\<exists>r \<in> set report. qr_outcome r = ''planned'' \<and>
        (\<exists>r0 \<in> set plan. qr_outcome r0 = ''planned'' \<and> qr_request r0 = qr_request r \<and> qr_destination r0 = qr_destination r) \<and>
        (case e of
           Published _ \<Rightarrow> False
         | Retire path ref destination c m \<Rightarrow>
             ref = rq_ref (qr_request r) \<and> destination = qr_destination r \<and> c = qr_original_sha r \<and> m = qr_retired_sha r \<and>
             \<not> IsRetiredBranch ref \<and> movable (q_ports env (qe_apply env i)) root path (qr_request r) (Some destination) c \<and>
             op_commit (qe_apply env i) path c
               (quarantineCommitMessage (qr_request r) c (qr_receipt_id r) (qr_reviewed_at r)) = Inr m
         | Annotate path ref c m \<Rightarrow>
             ref = rq_ref (qr_request r) \<and> c = qr_original_sha r \<and> m = qr_retired_sha r \<and>
             IsRetiredBranch ref \<and> movable (q_ports env (qe_apply env i)) root path (qr_request r) (Some []) c \<and>
             op_commit (qe_apply env i) path c
               (quarantineCommitMessage (qr_request r) c (qr_receipt_id r) (qr_reviewed_at r)) = Inr m))"

definition row_events ::
  "quarantine_env \<Rightarrow> string \<Rightarrow> quarantine_result list \<Rightarrow> nat \<Rightarrow> quarantine_result \<Rightarrow> quarantine_result list \<Rightarrow> quarantine_result list \<Rightarrow>
     quarantine_event list \<Rightarrow> bool" where
  "row_events env root plan i r before after es \<longleftrightarrow>
     es = [] \<or>
     (\<exists>q e. es = [Published (before @ q # after), e] \<and> qr_request q = qr_request r \<and> qr_destination q = qr_destination r \<and>
        move_justified env root plan i (before @ q # after) e)"

lemma apply_row_events:
  assumes "r \<in> set plan \<and> qr_outcome r = ''planned''"
    and "applyBranchQuarantineWithOps (qe_inventory env) root path r (qe_apply env i)
      (\<lambda>q. case qe_write env i 1 (before @ q # after) of Some err \<Rightarrow> Inl err | None \<Rightarrow> Inr (before @ q # after)) = (r', es)"
  shows "row_events env root plan i r before after es"
proof -
  let ?annotate = "HasPrefix (rq_ref (qr_request r)) ''retired/''"
  let ?ops = "qe_apply env i" and ?d = "if ?annotate then [] else qr_destination r"
  show ?thesis
  proof (cases "InspectBranchQuarantineCandidate (q_ports env ?ops) root path (qr_request r) ?d True")
    case (Inl refusal)
    then show ?thesis using assms(2) by (simp add: applyBranchQuarantineWithOps_def row_events_def Let_def split: if_split_asm)
  next
    case ins: (Inr c)
    let ?msg = "quarantineCommitMessage (qr_request r) c (qr_receipt_id r) (qr_reviewed_at r)"
    have mv: "movable (q_ports env ?ops) root path (qr_request r) (Some ?d) c" using ins Inspect_iff by simp
    show ?thesis
    proof (cases "op_commit ?ops path c ?msg")
      case (Inl err)
      then show ?thesis using assms(2) ins
        by (simp add: applyBranchQuarantineWithOps_def row_events_def Let_def split: if_split_asm)
    next
      case com: (Inr m)
      let ?q = "r\<lparr>qr_original_sha := c, qr_retired_sha := m\<rparr>"
      show ?thesis
      proof (cases "qe_write env i 1 (before @ ?q # after)")
        case (Some err)
        then show ?thesis using assms(2) ins com
          by (simp add: applyBranchQuarantineWithOps_def row_events_def Let_def split: if_split_asm)
      next
        case None
        let ?e = "if ?annotate then Annotate path (rq_ref (qr_request r)) c m
          else Retire path (rq_ref (qr_request r)) (qr_destination r) c m"
        have es: "es = [Published (before @ ?q # after), ?e]"
          using assms(2) ins com None by (simp add: applyBranchQuarantineWithOps_def Let_def split: if_split_asm)
        have "move_justified env root plan i (before @ ?q # after) ?e"
          unfolding move_justified_def using mv com assms(1)
          by (intro bexI [of _ ?q] conjI bexI [of _ r]) (simp_all add: IsRetiredBranch_def split: if_split_asm)
        then show ?thesis unfolding row_events_def es by (intro disjI2 exI [of _ ?q] exI [of _ ?e]) simp
      qed
    qed
  qed
qed

text \<open>Every ref transaction of a trace comes right after a report that justifies it.\<close>

fun trace_ok :: "quarantine_env \<Rightarrow> string \<Rightarrow> quarantine_result list \<Rightarrow> quarantine_event list \<Rightarrow> bool" where
  "trace_ok env root plan (Published report # e # es) =
     (case e of
        Published _ \<Rightarrow> trace_ok env root plan (e # es)
      | _ \<Rightarrow> (\<exists>i. move_justified env root plan i report e) \<and> trace_ok env root plan es)"
| "trace_ok env root plan [Published report] = True"
| "trace_ok env root plan [] = True"
| "trace_ok env root plan (_ # _) = False"

lemma trace_ok_Published: "trace_ok env root plan es \<Longrightarrow> trace_ok env root plan (Published report # es)"
proof (cases es)
  case (Cons e es')
  then show "trace_ok env root plan es \<Longrightarrow> trace_ok env root plan (Published report # es)" by (cases e) simp_all
qed simp

lemma trace_ok_row:
  assumes "row_events env root plan i r before after es" "trace_ok env root plan later"
  shows "trace_ok env root plan (es @ later)"
proof -
  consider "es = []" | q e where "es = [Published q, e]" "move_justified env root plan i q e"
    using assms(1) by (auto simp: row_events_def)
  then show ?thesis
  proof cases
    case 1
    then show ?thesis using assms(2) by simp
  next
    case 2
    then show ?thesis using assms(2) by (cases e) (auto simp: move_justified_def)
  qed
qed

lemma apply_rows_trace:
  assumes "apply_rows env root paths rows rest = (err, final, es)" "set rest \<subseteq> set plan"
  shows "trace_ok env root plan es"
  using assms
proof (induction rest arbitrary: rows err final es)
  case Nil
  then show ?case by simp
next
  case (Cons r rest)
  show ?case
  proof (cases "qr_outcome r = ''planned'' \<and> qe_write env (length rows) 0 (rows @ r # rest) = None")
    case False
    then show ?thesis using Cons by (auto simp: Let_def split: if_split_asm option.split_asm)
  next
    case True
    let ?path = "case paths (rq_repository (qr_request r)) of None \<Rightarrow> [] | Some path \<Rightarrow> path"
    let ?cp = "\<lambda>q. case qe_write env (length rows) 1 (rows @ q # rest) of Some err \<Rightarrow> Inl err | None \<Rightarrow> Inr (rows @ q # rest)"
    obtain r' evs where ap: "applyBranchQuarantineWithOps (qe_inventory env) root ?path r (qe_apply env (length rows)) ?cp = (r', evs)"
      by (cases "applyBranchQuarantineWithOps (qe_inventory env) root ?path r (qe_apply env (length rows)) ?cp")
    have row: "row_events env root plan (length rows) r rows rest evs" using apply_row_events [OF _ ap] True Cons.prems(2) by simp
    show ?thesis
    proof (cases "qe_write env (length rows) 2 (rows @ r' # rest)")
      case (Some e)
      then have "es = Published (rows @ r # rest) # evs" using Cons.prems(1) True ap by (simp add: Let_def)
      then show ?thesis using trace_ok_Published trace_ok_row [OF row, of "[]"] by simp
    next
      case None
      obtain err' final' later where l: "apply_rows env root paths (rows @ [r']) rest = (err', final', later)"
        by (cases "apply_rows env root paths (rows @ [r']) rest")
      then have "es = Published (rows @ r # rest) # evs @ Published (rows @ r' # rest) # later"
        using Cons.prems(1) True ap None by (simp add: Let_def)
      then show ?thesis using trace_ok_Published trace_ok_row [OF row] Cons.IH [OF l] Cons.prems(2) by simp
    qed
  qed
qed

lemma quarantine_run_cases:
  assumes "branchQuarantineWithOps env options = (err, outcome, es)" "es \<noteq> []"
  obtains root requests paths where "qe_root env = Inr root"
    "quarantineRequests (qe_valid_branch env) (qe_read_manifest env) options = Inr requests"
    "quarantineRepositoryPaths (qe_inventory env) root requests = Inr paths"
    "trace_ok env root (plan_rows env root paths options requests) es"
proof -
  obtain root where root: "qe_root env = Inr root"
    using assms by (cases "qe_root env") (simp_all add: branchQuarantineWithOps_def)
  obtain requests where rq: "quarantineRequests (qe_valid_branch env) (qe_read_manifest env) options = Inr requests"
    using assms root by (cases "quarantineRequests (qe_valid_branch env) (qe_read_manifest env) options")
      (simp_all add: branchQuarantineWithOps_def)
  obtain paths where pa: "quarantineRepositoryPaths (qe_inventory env) root requests = Inr paths"
    using assms root rq by (cases "quarantineRepositoryPaths (qe_inventory env) root requests")
      (simp_all add: branchQuarantineWithOps_def)
  let ?plan = "plan_rows env root paths options requests"
  let ?o = "\<lparr>qu_generated_at = qe_now env, qu_apply = qo_apply options, qu_results = ?plan, qu_report_path = []\<rparr>"
  have ap: "apply_quarantine env root paths options ?o = (err, outcome, es)"
    using assms root rq pa by (simp add: branchQuarantineWithOps_def Let_def split: if_split_asm)
  obtain e rows more where r: "apply_rows env root paths [] ?plan = (e, rows, more)"
    by (cases "apply_rows env root paths [] ?plan")
  have "es = Published ?plan # more"
    using ap assms(2) unfolding apply_quarantine_def Let_def
    by (simp add: r split: sum.split_asm option.split_asm prod.split_asm)
  then have "trace_ok env root ?plan es" using apply_rows_trace [OF r, of ?plan] trace_ok_Published by simp
  then show ?thesis using that root rq pa by blast
qed

lemma trace_ok_split:
  assumes "trace_ok env root plan (pre @ e # post)" "\<forall>rs. e \<noteq> Published rs"
  shows "\<exists>before report i. pre = before @ [Published report] \<and> move_justified env root plan i report e"
  using assms
proof (induction pre rule: length_induct)
  case (1 pre)
  show ?case
  proof (cases pre)
    case Nil
    then show ?thesis using 1(2,3) by (cases e) simp_all
  next
    case (Cons x xs)
    obtain report where x: "x = Published report" using 1(2) Cons by (cases x; cases xs) auto
    show ?thesis
    proof (cases xs)
      case Nil
      then show ?thesis using 1(2,3) Cons x by (cases e) auto
    next
      case (Cons y ys)
      show ?thesis
      proof (cases "\<exists>rs. y = Published rs")
        case True
        then have "trace_ok env root plan (xs @ e # post)" using 1(2) \<open>pre = x # xs\<close> x Cons by auto
        then obtain before report' i where "xs = before @ [Published report']" "move_justified env root plan i report' e"
          using 1(1,3) \<open>pre = x # xs\<close> by auto
        then show ?thesis using \<open>pre = x # xs\<close> by (metis append_Cons)
      next
        case False
        then have "trace_ok env root plan (ys @ e # post)" using 1(2) \<open>pre = x # xs\<close> x Cons by (cases y) auto
        then obtain before report' i where "ys = before @ [Published report']" "move_justified env root plan i report' e"
          using 1(1) [rule_format, of ys] 1(3) \<open>pre = x # xs\<close> Cons by auto
        then show ?thesis using \<open>pre = x # xs\<close> Cons by (metis append_Cons)
      qed
    qed
  qed
qed

section \<open>Commits stay reachable\<close>

text \<open>
  The heads of the repositories, by the path of the repository and the name below
  \<^verbatim>\<open>refs/heads\<close>, and what Git documents of the two ref transactions: each is a
  compare-and-swap that happens as a whole or not at all.
\<close>

type_synonym heads = "string \<times> string \<rightharpoonup> string"

fun update_ref :: "heads \<Rightarrow> quarantine_event \<Rightarrow> heads" where
  "update_ref h (Published _) = h"
| "update_ref h (Retire path source destination expected replacement) =
     (if h (path, source) = Some expected \<and> h (path, destination) = None
      then h((path, source) := None, (path, destination) \<mapsto> replacement) else h)"
| "update_ref h (Annotate path ref expected replacement) =
     (if h (path, ref) = Some expected then h((path, ref) \<mapsto> replacement) else h)"

definition preserved :: "(string \<rightharpoonup> string) \<Rightarrow> heads \<Rightarrow> string \<Rightarrow> string \<Rightarrow> bool" where
  "preserved parent h path c \<longleftrightarrow> (\<exists>ref m. h (path, ref) = Some m \<and> (m, c) \<in> {(m, p). parent m = Some p}\<^sup>*)"

fun child_of :: "(string \<rightharpoonup> string) \<Rightarrow> quarantine_event \<Rightarrow> bool" where
  "child_of parent (Published _) = True"
| "child_of parent (Retire _ _ _ expected replacement) = (parent replacement = Some expected)"
| "child_of parent (Annotate _ _ expected replacement) = (parent replacement = Some expected)"

lemma preserved_move:
  assumes "preserved parent h path c" "child_of parent e"
  shows "preserved parent (update_ref h e) path c"
proof -
  obtain ref m where m: "h (path, ref) = Some m" "(m, c) \<in> {(m, p). parent m = Some p}\<^sup>*"
    using assms(1) by (auto simp: preserved_def)
  have step: "(new, c) \<in> {(m, p). parent m = Some p}\<^sup>*" if "parent new = Some m" for new
    using that m(2) by (simp add: converse_rtrancl_into_rtrancl)
  show ?thesis
  proof (cases e)
    case (Published rs)
    then show ?thesis using assms(1) by simp
  next
    case (Retire p' s d x y)
    show ?thesis
    proof (cases "h (p', s) = Some x \<and> h (p', d) = None \<and> (path, ref) = (p', s)")
      case True
      then have "(update_ref h e) (path, d) = Some y" "(y, c) \<in> {(m, p). parent m = Some p}\<^sup>*"
        using Retire assms(2) m step by auto
      then show ?thesis unfolding preserved_def by blast
    next
      case False
      then have "(update_ref h e) (path, ref) = Some m" using Retire m(1) by auto
      then show ?thesis using m(2) unfolding preserved_def by blast
    qed
  next
    case (Annotate p' s x y)
    show ?thesis
    proof (cases "h (p', s) = Some x \<and> (path, ref) = (p', s)")
      case True
      then have "(update_ref h e) (path, ref) = Some y" "(y, c) \<in> {(m, p). parent m = Some p}\<^sup>*"
        using Annotate assms(2) m step by auto
      then show ?thesis unfolding preserved_def by blast
    next
      case False
      then have "(update_ref h e) (path, ref) = Some m" using Annotate m(1) by auto
      then show ?thesis using m(2) unfolding preserved_def by blast
    qed
  qed
qed

lemma preserved_trace:
  "preserved parent h path c \<Longrightarrow> list_all (child_of parent) es \<Longrightarrow> preserved parent (foldl update_ref h es) path c"
  by (induction es arbitrary: h) (simp_all add: preserved_move)

lemma move_child:
  assumes "move_justified env root plan i report e"
    and "\<And>i path c text m. op_commit (qe_apply env i) path c text = Inr m \<Longrightarrow> parent m = Some c"
  shows "child_of parent e"
  using assms by (cases e) (auto simp: move_justified_def)

lemma trace_children:
  assumes "trace_ok env root plan es"
    and "\<And>i path c text m. op_commit (qe_apply env i) path c text = Inr m \<Longrightarrow> parent m = Some c"
  shows "list_all (child_of parent) es"
  unfolding list_all_iff
proof
  fix e assume "e \<in> set es"
  then obtain pre post where es: "es = pre @ e # post" by (meson split_list)
  show "child_of parent e"
  proof (cases "\<exists>rs. e = Published rs")
    case False
    then show ?thesis using trace_ok_split assms es move_child by metis
  qed auto
qed

section \<open>Properties\<close>

text \<open>
  C9: a branch is moved only on fresh proof and only after its receipt is durable. Whenever a run
  issues the ref transaction that moves a branch into \<^verbatim>\<open>retired/*\<close>, the step right before it
  published the report with the exact source, destination, original and replacement commit of that
  row; the row was planned by this run, for a branch that is not retired yet, with the destination
  derived from it; and at that moment the branch still named the planned commit, was not protected,
  not checked out, not claimed, neither head nor base of an open pull request, and the destination
  did not exist.
\<close>

theorem quarantine_moves_only_proved:
  assumes "branchQuarantineWithOps env options = (err, outcome, pre @ Retire path ref destination c m # post)"
  shows "\<exists>before report root i r requests paths rq c0.
    pre = before @ [Published report] \<and> r \<in> set report \<and> qr_outcome r = ''planned'' \<and>
    rq_ref (qr_request r) = ref \<and> qr_destination r = destination \<and> qr_original_sha r = c \<and> qr_retired_sha r = m \<and>
    \<not> IsRetiredBranch ref \<and> qe_root env = Inr root \<and>
    movable (q_ports env (qe_apply env i)) root path (qr_request r) (Some destination) c \<and>
    op_commit (qe_apply env i) path c (quarantineCommitMessage (qr_request r) c (qr_receipt_id r) (qr_reviewed_at r)) = Inr m \<and>
    quarantineRequests (qe_valid_branch env) (qe_read_manifest env) options = Inr requests \<and> rq \<in> set requests \<and>
    qr_request r = rq\<lparr>rq_sha := c0\<rparr> \<and> (c0 = [] \<or> c0 = c) \<and>
    (qo_annotate options \<or> destination = RetiredBranchDestination (qe_now env) ref c0) \<and>
    (\<exists>path'. movable (q_ports env (qe_plan env)) root path' rq None c0 \<and>
      quarantineRepositoryPaths (qe_inventory env) root requests = Inr paths)"
proof -
  let ?es = "pre @ Retire path ref destination c m # post"
  obtain root requests paths where run: "qe_root env = Inr root"
      "quarantineRequests (qe_valid_branch env) (qe_read_manifest env) options = Inr requests"
      "quarantineRepositoryPaths (qe_inventory env) root requests = Inr paths"
      "trace_ok env root (plan_rows env root paths options requests) ?es"
    using quarantine_run_cases [OF assms] by blast
  let ?plan = "plan_rows env root paths options requests"
  obtain before report i where b: "pre = before @ [Published report]"
      "move_justified env root ?plan i report (Retire path ref destination c m)"
    using trace_ok_split [OF run(4)] by blast
  obtain r r0 where r: "r \<in> set report" "qr_outcome r = ''planned''" "r0 \<in> set ?plan" "qr_outcome r0 = ''planned''"
      "qr_request r0 = qr_request r" "qr_destination r0 = qr_destination r"
      "ref = rq_ref (qr_request r)" "destination = qr_destination r" "c = qr_original_sha r" "m = qr_retired_sha r"
      "\<not> IsRetiredBranch ref" "movable (q_ports env (qe_apply env i)) root path (qr_request r) (Some destination) c"
      "op_commit (qe_apply env i) path c (quarantineCommitMessage (qr_request r) c (qr_receipt_id r) (qr_reviewed_at r)) = Inr m"
    using b(2) unfolding move_justified_def quarantine_event.case by blast
  obtain rq c0 where p: "rq \<in> set requests" "qr_request r = rq\<lparr>rq_sha := c0\<rparr>"
      "movable (q_ports env (qe_plan env)) root (row_path paths r0) rq None c0"
      "qo_annotate options \<or> qr_destination r = RetiredBranchDestination (qe_now env) (rq_ref rq) c0"
    using plan_rows_planned [OF r(3,4)] r(5,6) unfolding planned_row_def by metis
  have "rq_sha (qr_request r) = c0" "rq_ref rq = ref" using p(2) r(7) by simp_all
  moreover have "rq_sha (qr_request r) = [] \<or> rq_sha (qr_request r) = c" using r(12) by (simp add: movable_def)
  ultimately show ?thesis using b(1) r run p by metis
qed

text \<open>
  What Git documents of \<^verbatim>\<open>commit-tree -p\<close>: when it succeeds, it prints the name of a commit that has the
  given commit as its parent.
\<close>

definition commit_tree_documented :: "(string \<rightharpoonup> string) \<Rightarrow> git_runner \<Rightarrow> bool" where
  "commit_tree_documented parent run \<longleftrightarrow>
     (\<forall>path message tree c printed. runGitWithInput run path message [''commit-tree'', tree, ''-p'', c, ''-F'', ''-''] = (printed, None) \<longrightarrow>
        parent (TrimSpace printed) = Some c)"

lemma real_commit_parent:
  assumes "commit_tree_documented parent run" "op_commit (realBranchQuarantineOps observed run) path c text' = Inr m"
  shows "parent m = Some c"
proof -
  obtain tree printed where "runGitWithInput run path text' [''commit-tree'', tree, ''-p'', c, ''-F'', ''-''] = (printed, None)" "m = TrimSpace printed"
    using assms(2)
    by (auto simp: realBranchQuarantineOps_def quarantineMetadataCommit_def Let_def split: sum.split_asm prod.split_asm option.split_asm if_split_asm)
  then show ?thesis using assms(1) unfolding commit_tree_documented_def by blast
qed

text \<open>
  C24: quarantine loses no work. Let a run apply its rows with the operations of production, on
  repositories whose Git behaves as documented when it makes a commit (\<^const>\<open>commit_tree_documented\<close>).
  Whatever the reports and re-checks of the run did, whichever of the ref transactions it issued took
  effect, in any order, and whatever the heads were before: a commit that was reachable from a head of
  its repository is still reachable from one afterwards.
\<close>

theorem quarantine_keeps_commits_reachable:
  assumes "branchQuarantineWithOps env options = (err, outcome, es)"
    and "\<And>i. qe_apply env i = realBranchQuarantineOps (observed i) (run i)" "\<And>i. commit_tree_documented parent (run i)"
    and "set effective \<subseteq> set es" "preserved parent h path c"
  shows "preserved parent (foldl update_ref h effective) path c"
proof -
  have p: "parent m = Some c" if "op_commit (qe_apply env i) path c text' = Inr m" for i path c text' m
    by (rule real_commit_parent [OF assms(3) that [unfolded assms(2)]])
  have "list_all (child_of parent) es"
  proof (cases "es = []")
    case False
    then show ?thesis using quarantine_run_cases [OF assms(1)] trace_children p by metis
  qed simp
  then have "list_all (child_of parent) effective" using assms(4) by (auto simp: list_all_iff)
  then show ?thesis using assms(5) preserved_trace by metis
qed

text \<open>
  Two rows of one run never share a destination: rows of a repository whose names flatten to the
  same retired name are all refused before anything is published or moved.
\<close>

lemma quarantine_destinations_distinct:
  assumes "i < j" "j < length requests"
    and "qr_outcome (plan_rows env root paths options requests ! i) = ''planned''"
    and "qr_outcome (plan_rows env root paths options requests ! j) = ''planned''"
  shows "destination_key (plan_rows env root paths options requests ! i) \<noteq>
    destination_key (plan_rows env root paths options requests ! j)"
  unfolding plan_rows_def using assms
  by (intro refuse_collisions_distinct) (simp_all add: plan_rows_def)

section \<open>A sample run\<close>

definition sample_q_ops :: quarantine_ops where
  "sample_q_ops = \<lparr>op_git = (\<lambda>path args. if last args = ''refs/heads/x^{commit}'' then Inr ''c'' else Inl []),
     op_checkedOut = (\<lambda>_. (\<lambda>_. False, [])), op_inUse = (\<lambda>_ _. (Map.empty, [])), op_pullRequests = (\<lambda>_ _ _. Inr []),
     op_openBasePull = (\<lambda>_ _ _. Inr None), op_retire = (\<lambda>_ _ _ _ _. None), op_annotate = (\<lambda>_ _ _ _. None),
     op_commit = (\<lambda>_ parent _. Inr (CHR ''m'' # parent))\<rparr>"

text \<open>The operations of production over a Git that makes one commit, on top of c.\<close>

definition sample_commit :: string where
  "sample_commit = replicate 40 (CHR ''a'')"

definition sample_git :: git_runner where
  "sample_git path input args =
     (if args ! 0 = ''commit-tree'' \<and> args ! 3 \<noteq> ''c'' then ([], [], Some ''refused'')
      else if args ! 0 = ''commit-tree'' then (sample_commit, [], None) else ([], [], None))"

definition sample_real_ops :: quarantine_ops where
  "sample_real_ops = realBranchQuarantineOps
     (sample_q_ops\<lparr>op_git := (\<lambda>path args. if last args = ''c^{tree}'' then Inr ''t'' else op_git sample_q_ops path args)\<rparr>) sample_git"

definition sample_q_env :: quarantine_env where
  "sample_q_env = \<lparr>qe_root = Inr ''/p'', qe_valid_branch = (\<lambda>_ _. None), qe_read_manifest = (\<lambda>_. Inl []),
     qe_inventory = sample_ports, qe_sha256_hex = (\<lambda>_. []), qe_now = 0, qe_plan = sample_q_ops, qe_home = Inr ''/h'',
     qe_validateReportDir = (\<lambda>_ _. None), qe_reserve = (\<lambda>_. None), qe_write_plan = (\<lambda>_. None), qe_write = (\<lambda>_ _ _. None),
     qe_apply = (\<lambda>_. sample_q_ops)\<rparr>"

definition sample_q_options :: quarantine_options where
  "sample_q_options = \<lparr>qo_repository = ''a/b'', qo_branch = ''x'', qo_sha = [], qo_reason = ''r'', qo_description = [],
     qo_replacement = [], qo_retention = [], qo_annotate = False, qo_manifest = [], qo_apply = True, qo_report_dir = ''/r''\<rparr>"

definition sample_q_request :: quarantine_request where
  "sample_q_request = \<lparr>rq_repository = ''a/b'', rq_ref = ''x'', rq_sha = [], rq_reason = ''r'', rq_description = [],
     rq_replacement = [], rq_retention = []\<rparr>"

lemma sample_q_requests:
  "quarantineRequests (qe_valid_branch sample_q_env) (qe_read_manifest sample_q_env) sample_q_options = Inr [sample_q_request]"
proof -
  have t: "TrimSpace ''a/b'' = ''a/b''" "TrimSpace ''x'' = ''x''" "TrimSpace ''r'' = ''r''"
    by (simp_all add: TrimSpace_printable printable_def)
  have "slug_valid ''a/b''" by code_simp
  then show ?thesis using t
    by (simp add: quarantineRequests_def sample_q_options_def sample_q_env_def option_request_def validateQuarantineRequests_def
        trim_request_def check_request_def IsRetiredBranch_def HasPrefix_def validateQuarantineMetadata_def metadata_fields_def
        line_break_def sample_q_request_def)
qed

lemma sample_q_paths: "quarantineRepositoryPaths (qe_inventory sample_q_env) ''/p'' [sample_q_request] = Inr [''a/b'' \<mapsto> ''/p'']"
  by (simp add: quarantineRepositoryPaths_def DiscoverBranchRepositories_def sample_q_env_def sample_ports_def sample_q_request_def
      repository_paths_def)

lemma sample_q_inspect:
  assumes "rq = sample_q_request \<or> rq = sample_q_request\<lparr>rq_sha := ''c''\<rparr>" "ops = sample_q_ops \<or> ops = sample_real_ops"
  shows "InspectBranchQuarantineCandidate (q_ports sample_q_env ops) ''/p'' ''/p'' rq ''retired/00010101-x-c'' True = Inr ''c''"
    and "InspectBranchQuarantineCandidate (q_ports sample_q_env ops) ''/p'' ''/p'' rq [] False = Inr ''c''"
proof -
  have t: "TrimSpace ''c'' = ''c''" by (simp add: TrimSpace_printable printable_def)
  have "\<not> IsProtectedBranch ''x'' ''main'' []" by code_simp
  then show "InspectBranchQuarantineCandidate (q_ports sample_q_env ops) ''/p'' ''/p'' rq ''retired/00010101-x-c'' True = Inr ''c''"
    and "InspectBranchQuarantineCandidate (q_ports sample_q_env ops) ''/p'' ''/p'' rq [] False = Inr ''c''"
    using assms t unfolding Inspect_iff movable_def unclaimed_def
    by (auto simp: branchQuarantineService_def sample_q_ops_def sample_real_ops_def realBranchQuarantineOps_def sample_q_request_def
        MatchingPullRequests_def canonical_head_def)
qed

lemma sample_q_destination: "RetiredBranchDestination 0 ''x'' ''c'' = ''retired/00010101-x-c''"
  by code_simp

definition sample_q_row :: quarantine_result where
  "sample_q_row = \<lparr>qr_request = sample_q_request\<lparr>rq_sha := ''c''\<rparr>, qr_destination = ''retired/00010101-x-c'', qr_outcome = ''planned'',
     qr_error = [], qr_original_sha = [], qr_retired_sha = [], qr_receipt_id = ''wb-quarantine-'', qr_reviewed_at = 0\<rparr>"

lemma sample_q_plan: "plan_rows sample_q_env ''/p'' [''a/b'' \<mapsto> ''/p''] sample_q_options [sample_q_request] = [sample_q_row]"
proof -
  have env: "qe_now sample_q_env = 0" "qe_plan sample_q_env = sample_q_ops" "qo_annotate sample_q_options = False"
      "qe_sha256_hex sample_q_env = (\<lambda>_. [])" "rq_repository sample_q_request = ''a/b''" "rq_ref sample_q_request = ''x''"
    by (simp_all add: sample_q_env_def sample_q_options_def sample_q_request_def)
  have git: "p_Git (q_ports sample_q_env sample_q_ops) ''/p'' [''rev-parse'', ''--verify'', ''refs/heads/retired/00010101-x-c''] = Inl []"
    by (simp add: branchQuarantineService_def sample_q_ops_def)
  show ?thesis using sample_q_inspect(2) [of sample_q_request sample_q_ops] git
    by (simp add: plan_rows_def refuse_collisions_def plan_row_def planBranchQuarantineWithOps_def PlanBranchQuarantine_def
        env sample_q_destination refused_result_def quarantineReceiptID_def sample_q_row_def)
qed

lemma sample_moves:
  assumes "ops = sample_q_ops \<or> ops = sample_real_ops" "\<And>text'. op_commit ops ''/p'' ''c'' text' = Inr m"
    and "env = sample_q_env\<lparr>qe_apply := (\<lambda>_. ops)\<rparr>"
  shows "\<exists>err outcome pre post. branchQuarantineWithOps env sample_q_options =
    (err, outcome, pre @ Retire ''/p'' ''x'' ''retired/00010101-x-c'' ''c'' m # post)"
proof -
  have env: "qe_root env = Inr ''/p''" "qo_apply sample_q_options" "qo_report_dir sample_q_options = ''/r''"
      "qe_validateReportDir env = (\<lambda>_ _. None)" "qe_reserve env = (\<lambda>_. None)"
      "qe_write_plan env = (\<lambda>_. None)" "qe_write env = (\<lambda>_ _ _. None)" "qe_apply env = (\<lambda>_. ops)" "qe_inventory env = qe_inventory sample_q_env"
    by (simp_all add: assms(3) sample_q_env_def sample_q_options_def)
  have row: "qr_outcome sample_q_row = ''planned''" "qr_request sample_q_row = sample_q_request\<lparr>rq_sha := ''c''\<rparr>"
      "rq_repository sample_q_request = ''a/b''" "rq_ref sample_q_request = ''x''" "qr_destination sample_q_row = ''retired/00010101-x-c''"
    by (simp_all add: sample_q_row_def sample_q_request_def)
  have plan: "quarantineRequests (qe_valid_branch env) (qe_read_manifest env) sample_q_options = Inr [sample_q_request]"
      "quarantineRepositoryPaths (qe_inventory env) ''/p'' [sample_q_request] = Inr [''a/b'' \<mapsto> ''/p'']"
      "plan_rows env ''/p'' [''a/b'' \<mapsto> ''/p''] sample_q_options [sample_q_request] = [sample_q_row]"
    using sample_q_requests sample_q_paths sample_q_plan by (simp_all add: assms(3) plan_rows_def)
  have "\<not> HasPrefix ''x'' ''retired/''" by (simp add: HasPrefix_def)
  then obtain r' report where ap: "applyBranchQuarantineWithOps (qe_inventory sample_q_env) ''/p'' ''/p'' sample_q_row ops
      (\<lambda>q. Inr [q]) = (r', [Published report, Retire ''/p'' ''x'' ''retired/00010101-x-c'' ''c'' m])"
    using sample_q_inspect(1) [OF _ assms(1), of "sample_q_request\<lparr>rq_sha := ''c''\<rparr>"] row assms(2)
    by (simp add: applyBranchQuarantineWithOps_def Let_def)
  have "apply_rows env ''/p'' [''a/b'' \<mapsto> ''/p''] [] [sample_q_row] =
      (None, [r'], [Published [sample_q_row], Published report] @ Retire ''/p'' ''x'' ''retired/00010101-x-c'' ''c'' m # [Published [r']])"
    using ap row env by simp
  then have "branchQuarantineWithOps env sample_q_options =
      (None, \<lparr>qu_generated_at = qe_now env, qu_apply = True, qu_results = [r'],
         qu_report_path = filepath_Join [''/r'', ''quarantine.json'']\<rparr>,
       [Published [sample_q_row], Published [sample_q_row], Published report] @
         Retire ''/p'' ''x'' ''retired/00010101-x-c'' ''c'' m # [Published [r']])"
    using env plan by (simp add: branchQuarantineWithOps_def apply_quarantine_def)
  then show ?thesis by blast
qed

theorem quarantine_moves_only_proved_witness:
  "\<exists>report (r :: quarantine_result). r \<in> set report \<and> qr_outcome r = ''planned'' \<and> rq_ref (qr_request r) = ''x'' \<and>
     qr_original_sha r = ''c'' \<and> qr_retired_sha r = ''mc'' \<and> \<not> IsRetiredBranch ''x''"
proof -
  obtain err outcome pre post where "branchQuarantineWithOps sample_q_env sample_q_options =
      (err, outcome, pre @ Retire ''/p'' ''x'' ''retired/00010101-x-c'' ''c'' ''mc'' # post)"
    using sample_moves [of sample_q_ops "''mc''" sample_q_env] by (auto simp: sample_q_ops_def sample_q_env_def)
  from quarantine_moves_only_proved [OF this] show ?thesis by blast
qed

definition sample_parent :: "string \<rightharpoonup> string" where
  "sample_parent = [sample_commit \<mapsto> ''c'']"

lemma sample_commit_made: "op_commit sample_real_ops path ''c'' text' = Inr sample_commit" "commit_tree_documented sample_parent sample_git"
proof -
  have t: "TrimSpace sample_commit = sample_commit" "IsGitObjectID sample_commit" by code_simp+
  show "op_commit sample_real_ops path ''c'' text' = Inr sample_commit"
    by (simp add: sample_real_ops_def realBranchQuarantineOps_def quarantineMetadataCommit_def runGitWithInput_def sample_git_def t Let_def)
  show "commit_tree_documented sample_parent sample_git"
    unfolding commit_tree_documented_def
    by (auto simp: runGitWithInput_def sample_git_def sample_parent_def t Let_def split: if_split_asm)
qed

theorem quarantine_keeps_commits_reachable_witness:
  "\<exists>es. Retire ''/p'' ''x'' ''retired/00010101-x-c'' ''c'' sample_commit \<in> set es \<and>
     snd (snd (branchQuarantineWithOps (sample_q_env\<lparr>qe_apply := (\<lambda>_. sample_real_ops)\<rparr>) sample_q_options)) = es \<and>
     preserved sample_parent (foldl update_ref [(''/p'', ''x'') \<mapsto> ''c''] es) ''/p'' ''c''"
proof -
  let ?env = "sample_q_env\<lparr>qe_apply := (\<lambda>_. sample_real_ops)\<rparr>"
  obtain err outcome pre post where run: "branchQuarantineWithOps ?env sample_q_options =
      (err, outcome, pre @ Retire ''/p'' ''x'' ''retired/00010101-x-c'' ''c'' sample_commit # post)"
    using sample_moves [OF _ _ refl, of sample_real_ops sample_commit] sample_commit_made(1) by blast
  have h: "preserved sample_parent [(''/p'', ''x'') \<mapsto> ''c''] ''/p'' ''c''"
    unfolding preserved_def by (intro exI [of _ "''x''"] exI [of _ "''c''"]) simp
  have real: "qe_apply ?env i = realBranchQuarantineOps
      (sample_q_ops\<lparr>op_git := (\<lambda>path args. if last args = ''c^{tree}'' then Inr ''t'' else op_git sample_q_ops path args)\<rparr>) sample_git" for i
    by (simp add: sample_real_ops_def)
  from quarantine_keeps_commits_reachable [OF run real sample_commit_made(2) order_refl h] show ?thesis using run by auto
qed

end
