(* ===== verification/Branch_List.thy ===== *)
theory Branch_List
  imports Branch_Cleanup Repo_Path
begin

text \<open>
  The commands around the branch inventory: option normalisation of list and cleanup, the sweep
  behind \<^verbatim>\<open>wb branch list\<close>, and the inventory of the retired namespace
  (\<^verbatim>\<open>internal/worktrees/branches.go\<close>, \<^verbatim>\<open>branches_cleanup.go\<close>, and
  \<^verbatim>\<open>inventory_fleet.go\<close> and \<^verbatim>\<open>inventory_refs.go\<close> of \<^verbatim>\<open>internal/worktreebranches\<close>).

  What the code asks of the operating system and of Git while it normalises options is the record
  \<open>list_env\<close>; progress output and elapsed times are left out.
\<close>

section \<open>Options\<close>

record list_options =
  lo_projects_root :: string
  lo_base :: string
  lo_scope :: string
  lo_only :: string
  lo_older_than :: duration
  lo_filter :: string
  lo_repository :: string
  lo_org :: string
  lo_branch :: string
  lo_name :: string
  lo_include_retired :: bool
  lo_with_prs :: bool

datatype option_error =
    BadRoot string | BadBranch string | UnsupportedScope string | UnsupportedOnly string | NegativeAge | BadRepo string
  | BadOrg string | BadGlob string | SupersededNeedsSelectors | ReviewedNeedsPeers | PeersNeedSelectors | PeersTogether
  | BadReportDir string

text \<open>
  \<open>le_root\<close> is \<^verbatim>\<open>absoluteProjectsRoot\<close>, \<open>le_branch_error kind branch\<close> the error of
  \<^verbatim>\<open>branchValidationError\<close>, \<open>le_abs\<close> is \<^verbatim>\<open>filepath.Abs\<close>, \<open>le_temp\<close> the outcome of
  \<^verbatim>\<open>Ports.TempDir\<close>.
\<close>

record list_env =
  le_root :: "string \<Rightarrow> (string, string) result"
  le_branch_error :: "string \<Rightarrow> string \<Rightarrow> string option"
  le_abs :: "string \<Rightarrow> (string, string) result"
  le_temp :: "(string, string) result"
  le_host :: string
  le_now :: go_time

definition known_dispositions :: "string list" where
  "known_dispositions = [BranchContained, BranchAbsorbed, BranchReceipted, BranchSuperseded, BranchUnique, BranchProtected,
     BranchInUse, BranchUnreadable, BranchRetired]"

definition valid_slug :: "string \<Rightarrow> bool" where
  "valid_slug s =
     (let parts = Split s (CHR ''/'') in
      length parts = 2 \<and> ValidRepositorySegment (parts ! 0) \<and> ValidRepositorySegment (parts ! 1))"

definition trimmed_selectors :: "list_options \<Rightarrow> list_options" where
  "trimmed_selectors o' = o'\<lparr>lo_filter := TrimSpace (lo_filter o'), lo_repository := TrimSpace (lo_repository o'),
     lo_org := TrimSpace (lo_org o'), lo_branch := TrimSpace (lo_branch o'), lo_name := TrimSpace (lo_name o')\<rparr>"

definition check_selectors :: "list_env \<Rightarrow> list_options \<Rightarrow> (option_error, list_options) result" where
  "check_selectors env o' =
     (if lo_repository o' \<noteq> [] \<and> \<not> valid_slug (lo_repository o') then Inl (BadRepo (lo_repository o'))
      else if lo_org o' \<noteq> [] \<and> \<not> ValidRepositorySegment (lo_org o') then Inl (BadOrg (lo_org o'))
      else case (if lo_branch o' = [] then None else le_branch_error env ''branch'' (lo_branch o')) of
        Some err \<Rightarrow> Inl (BadBranch err)
      | None \<Rightarrow> if lo_name o' \<noteq> [] \<and> isl (path_match (lo_name o') []) then Inl (BadGlob (lo_name o')) else Inr o')"

definition normalizeBranchListOptions :: "list_env \<Rightarrow> list_options \<Rightarrow> (option_error, list_options) result" where
  "normalizeBranchListOptions env options =
     (case le_root env (lo_projects_root options) of
        Inl err \<Rightarrow> Inl (BadRoot err)
      | Inr projectsRoot \<Rightarrow>
      let base = TrimSpace (lo_base options); base = (if base = [] then ''main'' else base) in
      case le_branch_error env ''base branch'' base of
        Some err \<Rightarrow> Inl (BadBranch err)
      | None \<Rightarrow>
      let scope = (if lo_scope options = [] then BranchScopeLocal else lo_scope options) in
      if scope \<notin> {BranchScopeLocal, BranchScopeRemote, BranchScopeAll} then Inl (UnsupportedScope scope)
      else if lo_only options \<noteq> [] \<and> lo_only options \<notin> set known_dispositions then Inl (UnsupportedOnly (lo_only options))
      else if lo_older_than options < 0 then Inl NegativeAge
      else check_selectors env (trimmed_selectors
             (options\<lparr>lo_projects_root := projectsRoot, lo_base := base, lo_scope := scope\<rparr>)))"

fun compact_loop :: "string list \<Rightarrow> string list \<Rightarrow> string list" where
  "compact_loop seen [] = []"
| "compact_loop seen (v # vs) =
     (let v = TrimSpace v in
      if v \<noteq> [] \<and> v \<notin> set seen then v # compact_loop (v # seen) vs else compact_loop seen vs)"

definition compactStrings :: "string list \<Rightarrow> string list" where
  "compactStrings values = compact_loop [] values"

definition cleanup_list_options :: "cleanup_options \<Rightarrow> list_options" where
  "cleanup_list_options o' =
     \<lparr>lo_projects_root = co_projects_root o', lo_base = co_base o', lo_scope = co_scope o', lo_only = [],
      lo_older_than = co_older_than o', lo_filter = co_filter o', lo_repository = co_repository o', lo_org = [],
      lo_branch = co_branch o', lo_name = [], lo_include_retired = False, lo_with_prs = False\<rparr>"

definition normalizeBranchCleanupOptions :: "list_env \<Rightarrow> cleanup_options \<Rightarrow> (option_error, cleanup_options) result" where
  "normalizeBranchCleanupOptions env options =
     (case normalizeBranchListOptions env (cleanup_list_options options) of
        Inl err \<Rightarrow> Inl err
      | Inr base \<Rightarrow>
      let options = options\<lparr>co_projects_root := lo_projects_root base, co_base := lo_base base, co_scope := lo_scope base,
            co_older_than := lo_older_than base, co_filter := lo_filter base, co_repository := lo_repository base,
            co_branch := lo_branch base, co_absorbed_by := TrimSpace (co_absorbed_by options),
            co_superseded_by := TrimSpace (co_superseded_by options),
            co_peer_evidence := compactStrings (co_peer_evidence options),
            co_require_hosts := compactStrings (co_require_hosts options)\<rparr>;
          exact = co_repository options \<noteq> [] \<and> co_branch options \<noteq> [];
          peers = co_peer_evidence options \<noteq> []; hosts = co_require_hosts options \<noteq> [] in
      if co_superseded_by options \<noteq> [] \<and> \<not> exact then Inl SupersededNeedsSelectors
      else if co_superseded_by options \<noteq> [] \<and> ScopeIncludesRemote (co_scope options) \<and> \<not> (peers \<and> hosts) then Inl ReviewedNeedsPeers
      else if (peers \<or> hosts) \<and> \<not> (ScopeIncludesRemote (co_scope options) \<and> exact) then Inl PeersNeedSelectors
      else if (peers \<or> hosts) \<and> \<not> (peers \<and> hosts) then Inl PeersTogether
      else if co_report_dir options = [] then Inr options
      else case le_abs env (co_report_dir options) of
        Inl err \<Rightarrow> Inl (BadReportDir err)
      | Inr absolute \<Rightarrow> Inr (options\<lparr>co_report_dir := Clean absolute\<rparr>))"

text \<open>\<^verbatim>\<open>BranchCleanup\<close>: \<open>None\<close> is the panic of the inventory.\<close>

definition BranchCleanup ::
  "list_env \<Rightarrow> coordinator_env \<Rightarrow> cleanup_options \<Rightarrow>
     ((option_error, (string, cleanup_outcome) result) result \<times> command list) option" where
  "BranchCleanup le env options =
     (case normalizeBranchCleanupOptions le options of
        Inl err \<Rightarrow> Some (Inl err, [])
      | Inr normalized \<Rightarrow> map_option (\<lambda>(res, cs). (Inr res, cs)) (branchCleanupWithPorts env normalized))"

section \<open>Retired refs\<close>

definition ListRetiredRemoteRefs :: "inventory_ports \<Rightarrow> string \<Rightarrow> branch_ref list \<times> string" where
  "ListRetiredRemoteRefs p repositoryPath =
     FetchRemoteRefs p repositoryPath ''+refs/heads/retired/*:refs/remotes/origin/retired/*'' ''refs/remotes/origin/retired/''
       ''fetch --prune origin retired namespace''"

definition parse_tag_line :: "string \<Rightarrow> branch_ref option" where
  "parse_tag_line line =
     (let fs = Fields line in
      if length fs \<noteq> 2 then None
      else if HasSuffix (fs ! 1) ''^{}'' \<or> \<not> HasPrefix (fs ! 1) ''refs/tags/retired/'' \<or> \<not> IsGitObjectID (fs ! 0) then None
      else Some \<lparr>ref_name = TrimPrefix (fs ! 1) ''refs/tags/'', ref_sha = fs ! 0, ref_date = 0, ref_unknown_date = True,
             ref_author = [], ref_title = []\<rparr>)"

text \<open>
  The metadata of one tag, read from the temporary clone; \<open>Inl\<close> ends the whole listing. The
  message for an unreadable date does not carry the parser's own text here.
\<close>

definition tag_metadata :: "inventory_ports \<Rightarrow> string \<Rightarrow> branch_ref \<Rightarrow> (string, branch_ref) result" where
  "tag_metadata p temporary ref =
     (if p_Git p temporary [''rev-parse'', ''refs/tags/'' @ ref_name ref] \<noteq> Inr (ref_sha ref)
        then Inl (''retired tag '' @ ref_name ref @ '' changed during metadata fetch'')
      else case p_Git p temporary [''show'', ''-s'', ''--format=%cI%x1f%an%x1f%s'', ''refs/tags/'' @ ref_name ref @ ''^{commit}''] of
        Inl err \<Rightarrow> Inl (''read retired tag commit metadata: '' @ err)
      | Inr commit \<Rightarrow>
          let parts = SplitN commit US 3 in
          if length parts \<noteq> 3 then Inl ''invalid retired tag commit metadata''
          else case p_parse_time p (TrimSpace (parts ! 0)) of
            None \<Rightarrow> Inl ''parse retired tag commit date''
          | Some parsed \<Rightarrow>
              Inr (ref\<lparr>ref_date := parsed, ref_unknown_date := False, ref_author := TrimSpace (parts ! 1),
                     ref_title := TrimSpace (parts ! 2)\<rparr>))"

definition fetch_tag_metadata :: "inventory_ports \<Rightarrow> (string, string) result \<Rightarrow> string \<Rightarrow> branch_ref list \<Rightarrow> (string, branch_ref list) result" where
  "fetch_tag_metadata p temp repositoryPath refs =
     (case p_Git p repositoryPath [''remote'', ''get-url'', ''origin''] of
        Inl err \<Rightarrow> Inl (''resolve origin for retired tags: '' @ err)
      | Inr origin \<Rightarrow>
      case temp of
        Inl err \<Rightarrow> Inl (''create retired tag metadata repository: '' @ err)
      | Inr temporary \<Rightarrow>
      case p_Git p temporary [''init'', ''--bare''] of
        Inl err \<Rightarrow> Inl (''initialize retired tag metadata repository: '' @ err)
      | Inr _ \<Rightarrow>
      case p_Git p temporary [''fetch'', ''--no-tags'', TrimSpace origin, ''+refs/tags/retired/*:refs/tags/retired/*''] of
        Inl err \<Rightarrow> Inl (''fetch retired tag metadata: '' @ err)
      | Inr _ \<Rightarrow> map_result (tag_metadata p temporary) refs)"

definition ListRetiredTags ::
  "inventory_ports \<Rightarrow> (string, string) result \<Rightarrow> string \<Rightarrow> bool \<Rightarrow> bool \<Rightarrow> branch_ref list \<times> string" where
  "ListRetiredTags p temp repositoryPath remote metadata =
     (if \<not> remote then ListRefs p repositoryPath ''refs/tags/retired/'' []
      else case p_Git p repositoryPath [''ls-remote'', ''--tags'', ''--refs'', ''origin'', ''refs/tags/retired/*''] of
        Inl err \<Rightarrow> ([], ''ls-remote retired tags: '' @ err)
      | Inr output \<Rightarrow>
          let refs = List.map_filter parse_tag_line (Split output LF) in
          if \<not> metadata \<or> refs = [] then (refs, [])
          else case fetch_tag_metadata p temp repositoryPath refs of
            Inl diagnostic \<Rightarrow> ([], diagnostic)
          | Inr refs \<Rightarrow> (refs, []))"

section \<open>The inventory of the retired namespace\<close>

record retired_state =
  rs_entries :: "branch_entry list"
  rs_refs :: "string \<Rightarrow> nat"
  rs_names :: "string set"
  rs_tags :: "string \<Rightarrow> nat"
  rs_tag_names :: "string set"
  rs_remote_unavailable :: bool
  rs_diagnostics :: "string list"

definition AppendRetiredRefEntries ::
  "inventory_ports \<Rightarrow> repository \<Rightarrow> inventory_sweep \<Rightarrow> branch_ref list \<Rightarrow> string \<Rightarrow> string \<Rightarrow>
     branch_entry list \<times> string set \<Rightarrow> branch_entry list \<times> string set \<times> nat" where
  "AppendRetiredRefEntries p repo sweep refs scope refKind acc =
     (let chosen = filter (RetiredRefSelected (Policy sweep)) refs;
          added = map (\<lambda>ref. (RetiredBranchEntry (rp_slug repo) (Policy sweep) ref scope [])\<lparr>be_ref_kind := refKind\<rparr>) chosen in
      (fst acc @ DecorateBranchCommits p (rp_path repo) added,
       snd acc \<union> set (map (\<lambda>ref. rp_slug repo @ ''|'' @ ref_name ref) chosen), length chosen))"

definition add_retired ::
  "inventory_ports \<Rightarrow> inventory_sweep \<Rightarrow> repository \<Rightarrow> string \<Rightarrow> bool \<Rightarrow> string \<Rightarrow> branch_ref list \<times> string \<Rightarrow> retired_state \<Rightarrow>
     retired_state" where
  "add_retired p sweep repo scope tag label listing st =
     (case listing of (refs, diagnostic) \<Rightarrow>
      if diagnostic \<noteq> [] then
        st\<lparr>rs_diagnostics := rs_diagnostics st @ [rp_slug repo @ '': retired '' @ label @ '': '' @ diagnostic],
           rs_remote_unavailable := rs_remote_unavailable st \<or> scope = BranchScopeRemote\<rparr>
      else if tag then
        (case AppendRetiredRefEntries p repo sweep refs scope ''tag'' (rs_entries st, rs_tag_names st) of (es, names, n) \<Rightarrow>
           st\<lparr>rs_entries := es, rs_tag_names := names, rs_tags := (rs_tags st)(scope := rs_tags st scope + n)\<rparr>)
      else
        (case AppendRetiredRefEntries p repo sweep refs scope ''branch'' (rs_entries st, rs_names st) of (es, names, n) \<Rightarrow>
           st\<lparr>rs_entries := es, rs_names := names, rs_refs := (rs_refs st)(scope := rs_refs st scope + n)\<rparr>))"

definition retired_of_repository ::
  "inventory_ports \<Rightarrow> (string, string) result \<Rightarrow> inventory_sweep \<Rightarrow> retired_state \<Rightarrow> repository \<Rightarrow> retired_state" where
  "retired_of_repository p temp sweep st repo =
     (let st = (if sw_scope sweep = BranchScopeLocal \<or> sw_scope sweep = BranchScopeAll then
            add_retired p sweep repo BranchScopeLocal True ''local tags'' (ListRetiredTags p temp (rp_path repo) False True)
              (add_retired p sweep repo BranchScopeLocal False ''local refs'' (ListRefs p (rp_path repo) ''refs/heads/retired/'' []) st)
          else st) in
      if sw_scope sweep = BranchScopeRemote \<or> sw_scope sweep = BranchScopeAll then
        add_retired p sweep repo BranchScopeRemote True ''remote tags'' (ListRetiredTags p temp (rp_path repo) True True)
          (add_retired p sweep repo BranchScopeRemote False ''remote refs'' (ListRetiredRemoteRefs p (rp_path repo)) st)
      else st)"

record list_outcome =
  lu_host :: string
  lu_generated_at :: go_time
  lu_repository :: string
  lu_org :: string
  lu_branch :: string
  lu_base :: string
  lu_scope :: string
  lu_entries :: "branch_entry list"
  lu_diagnostics :: "string list"
  lu_totals :: "string \<Rightarrow> nat"
  lu_retired_refs :: "string \<Rightarrow> nat"
  lu_retired_branches :: nat
  lu_retired_tags :: "string \<Rightarrow> nat"
  lu_retired_tag_names :: nat
  lu_retired_remote_unavailable :: bool

definition build_outcome :: "list_env \<Rightarrow> inventory_sweep \<Rightarrow> branch_entry list \<Rightarrow> retired_state \<Rightarrow> list_outcome" where
  "build_outcome env sweep entries st =
     \<lparr>lu_host = le_host env, lu_generated_at = le_now env, lu_repository = sw_repository sweep, lu_org = sw_org sweep,
      lu_branch = sw_branch sweep, lu_base = sw_base sweep, lu_scope = sw_scope sweep, lu_entries = entries,
      lu_diagnostics = rs_diagnostics st, lu_totals = TallyDispositions entries, lu_retired_refs = rs_refs st,
      lu_retired_branches = card (rs_names st), lu_retired_tags = rs_tags st, lu_retired_tag_names = card (rs_tag_names st),
      lu_retired_remote_unavailable = rs_remote_unavailable st\<rparr>"

definition no_retired :: "string list \<Rightarrow> retired_state" where
  "no_retired diagnostics = \<lparr>rs_entries = [], rs_refs = \<lambda>_. 0, rs_names = {}, rs_tags = \<lambda>_. 0, rs_tag_names = {},
     rs_remote_unavailable = False, rs_diagnostics = diagnostics\<rparr>"

definition selected_repositories :: "inventory_ports \<Rightarrow> inventory_sweep \<Rightarrow> string \<Rightarrow> (string, repository list) result" where
  "selected_repositories p sweep label =
     (case DiscoverBranchRepositories p (sw_projects_root sweep) (sw_filter sweep) of
        Inl err \<Rightarrow> Inl (label @ err)
      | Inr repositories \<Rightarrow> SelectBranchRepositories repositories (sw_repository sweep) (sw_org sweep))"

definition InventoryRetiredNamespace :: "list_env \<Rightarrow> inventory_ports \<Rightarrow> inventory_sweep \<Rightarrow> (string, list_outcome) result" where
  "InventoryRetiredNamespace env p sweep =
     (case selected_repositories p sweep (''discover repositories below '' @ sw_projects_root sweep @ '': '') of
        Inl err \<Rightarrow> Inl err
      | Inr selected \<Rightarrow>
          let start = no_retired [''retired namespace inventory skipped fetch of origin/'' @ sw_base sweep] in
          if sw_only sweep \<noteq> [] \<and> sw_only sweep \<noteq> BranchRetired then
            Inr (build_outcome env sweep [] (start\<lparr>rs_diagnostics := rs_diagnostics start @
              [''retired namespace cannot match --only '' @ sw_only sweep]\<rparr>))
          else let st = foldl (retired_of_repository p (le_temp env) sweep) start selected in
            Inr (build_outcome env sweep (SortBranchEntries (rs_entries st)) st))"

section \<open>Counting the retired namespace\<close>

definition count_listing ::
  "inventory_sweep \<Rightarrow> repository \<Rightarrow> string \<Rightarrow> bool \<Rightarrow> string \<Rightarrow> branch_ref list \<times> string \<Rightarrow> retired_state \<Rightarrow> retired_state" where
  "count_listing sweep repo scope tag label listing st =
     (case listing of (refs, diagnostic) \<Rightarrow>
      let st = (if diagnostic = [] then st
            else st\<lparr>rs_diagnostics := rs_diagnostics st @ [rp_slug repo @ '': count retired '' @ label @ '': '' @ diagnostic],
                  rs_remote_unavailable := rs_remote_unavailable st \<or> scope = BranchScopeRemote\<rparr>) in
      if tag then
        (case AccumulateRetiredCounts (Policy sweep) (rp_slug repo) refs scope (rs_tags st) (rs_tag_names st) of
           (counts, names) \<Rightarrow> st\<lparr>rs_tags := counts, rs_tag_names := names\<rparr>)
      else
        (case AccumulateRetiredCounts (Policy sweep) (rp_slug repo) refs scope (rs_refs st) (rs_names st) of
           (counts, names) \<Rightarrow> st\<lparr>rs_refs := counts, rs_names := names\<rparr>))"

definition count_repository ::
  "inventory_ports \<Rightarrow> (string, string) result \<Rightarrow> inventory_sweep \<Rightarrow> retired_state \<Rightarrow> repository \<Rightarrow> retired_state" where
  "count_repository p temp sweep st repo =
     (let st = (if sw_scope sweep = BranchScopeLocal \<or> sw_scope sweep = BranchScopeAll then
            count_listing sweep repo BranchScopeLocal True ''local tags'' (ListRetiredTags p temp (rp_path repo) False True)
              (count_listing sweep repo BranchScopeLocal False ''local refs'' (ListLocalRefs p (rp_path repo)) st)
          else st) in
      if sw_scope sweep = BranchScopeRemote \<or> sw_scope sweep = BranchScopeAll then
        count_listing sweep repo BranchScopeRemote True ''remote tags''
            (ListRetiredTags p temp (rp_path repo) True (0 < sw_older_than sweep))
          (count_listing sweep repo BranchScopeRemote False ''remote refs''
            (ListRefs p (rp_path repo) ''refs/remotes/origin/'' ''origin/'') st)
      else st)"

definition CountRetiredBranches :: "inventory_ports \<Rightarrow> (string, string) result \<Rightarrow> inventory_sweep \<Rightarrow> retired_state" where
  "CountRetiredBranches p temp sweep =
     (case selected_repositories p sweep ''discover repositories: '' of
        Inl err \<Rightarrow> no_retired [''count retired branches: '' @ err]
      | Inr repositories \<Rightarrow> foldl (count_repository p temp sweep) (no_retired []) repositories)"

section \<open>The list command\<close>

definition list_sweep :: "list_options \<Rightarrow> go_time \<Rightarrow> inventory_sweep" where
  "list_sweep options now =
     \<lparr>sw_projects_root = lo_projects_root options, sw_base = lo_base options, sw_scope = lo_scope options,
      sw_only = lo_only options, sw_filter = lo_filter options, sw_repository = lo_repository options, sw_org = lo_org options,
      sw_branch = lo_branch options, sw_name = lo_name options, sw_older_than = lo_older_than options, sw_now = now,
      sw_receipts = False, sw_with_prs = lo_with_prs options, sw_cleanup = False,
      sw_include_retired = lo_include_retired options, sw_absorbed_by = [], sw_superseded_by = []\<rparr>"

definition sweepBranches :: "list_env \<Rightarrow> inventory_ports \<Rightarrow> list_options \<Rightarrow> (string, list_outcome) result option" where
  "sweepBranches env p options =
     (let sweep = list_sweep options (le_now env) in
      if RetiredNamespaceSelected (Policy sweep) then Some (InventoryRetiredNamespace env p sweep)
      else case ClassifyFleetBranchesWithPaths p sweep of
        None \<Rightarrow> None
      | Some (Inl err) \<Rightarrow> Some (Inl err)
      | Some (Inr (entries, diagnostics, paths)) \<Rightarrow>
          let shown = ApplyListDisplayFilters entries (Policy sweep);
              st = CountRetiredBranches p (le_temp env) sweep in
          Some (Inr ((build_outcome env sweep (SortBranchEntries shown) st)
            \<lparr>lu_diagnostics := diagnostics @ rs_diagnostics st, lu_totals := TallyDispositions shown\<rparr>)))"

definition BranchList ::
  "list_env \<Rightarrow> inventory_ports \<Rightarrow> list_options \<Rightarrow> (option_error, (string, list_outcome) result) result option" where
  "BranchList env p options =
     (case normalizeBranchListOptions env options of
        Inl err \<Rightarrow> Some (Inl err)
      | Inr normalized \<Rightarrow> map_option Inr (sweepBranches env p normalized))"

end
