(* ===== verification/Branch_Cleanup_Props.thy ===== *)
theory Branch_Cleanup_Props
  imports Branch_Cleanup Branch_Props
begin

text \<open>
  What an applied cleanup deletes. The rechecks are given as predicates of their own on the
  fresh observations; every delete command a run issues is shown to rest on them, on an entry
  the plan had marked, and on a plan that was written down first.
\<close>

section \<open>The rechecks\<close>

definition guards_hold :: "inventory_ports \<Rightarrow> string \<Rightarrow> string \<Rightarrow> branch_entry \<Rightarrow> bool" where
  "guards_hold p root path e \<longleftrightarrow>
     (\<exists>head. p_Git p path [''rev-parse'', ''--abbrev-ref'', ''HEAD''] = Inr head \<and>
        \<not> IsProtectedBranch (be_branch e) (be_base e) (TrimSpace head)) \<and>
     snd (CheckedOutLocalBranches p path) = [] \<and> \<not> fst (CheckedOutLocalBranches p path) (be_branch e) \<and>
     (root = [] \<or> snd (BranchInUseIndex p root []) = [] \<and>
        fst (BranchInUseIndex p root []) (BranchInUseKey (be_repository e) (be_branch e)) = None)"

definition still_proved :: "inventory_ports \<Rightarrow> string \<Rightarrow> branch_entry \<Rightarrow> string \<Rightarrow> bool" where
  "still_proved p path e target \<longleftrightarrow>
     (if be_superseded_at_origin e then
        p_SupersessionDigest p (sn_receipt (be_supersession e)) = Inr (sn_sha256 (be_supersession e)) \<and>
        snd (p_Supersession p (sn_receipt (be_supersession e)) \<lparr>rp_slug = be_repository e, rp_path = path\<rparr>
               (ref_of (be_branch e) (be_sha e)) (be_base e) target) = []
      else if be_disposition e = BranchReceipted then
        IsGitObjectID (be_landing_sha e) \<and> p_IsAncestor p path (be_landing_sha e) target = Inr True \<and>
        p_ContentContained p path (be_sha e) (be_landing_sha e) = Inr True \<and>
        (if be_exact_head e then
           \<exists>pr. be_receipt_pr e = Some pr \<and> pr_head_sha pr = be_sha e \<and>
             p_LandingReverted p path (be_landing_sha e) target [GitHubRevertMarker (be_repository e) (pr_number pr)] = Inr False
         else p_ContentContained p path (be_sha e) target = Inr True)
      else p_IsAncestor p path (be_sha e) target = Inr True)"

definition no_open_pull_request :: "inventory_ports \<Rightarrow> string \<Rightarrow> branch_entry \<Rightarrow> bool" where
  "no_open_pull_request p path e \<longleftrightarrow>
     (let ev = OpenBranchPullRequests p \<lparr>rp_slug = be_repository e, rp_path = path\<rparr> (be_branch e) in
      ev_err ev = None \<and> ev_open_head ev = None \<and> ev_open_base ev = None)"

lemma recheck_guards_None:
  "recheckBranchRetirementGuards p root path e = None \<Longrightarrow> guards_hold p root path e"
  unfolding recheckBranchRetirementGuards_def guards_hold_def
  by (cases "root = []") (auto split: sum.split_asm if_split_asm prod.split_asm)

lemma recheck_exact_None:
  "recheckExactHeadReceipt p path sha target e = None \<Longrightarrow>
     p_ContentContained p path sha (be_landing_sha e) = Inr True \<and>
     (\<exists>pr. be_receipt_pr e = Some pr \<and> pr_head_sha pr = sha \<and>
        p_LandingReverted p path (be_landing_sha e) target [GitHubRevertMarker (be_repository e) (pr_number pr)] = Inr False)"
  unfolding recheckExactHeadReceipt_def Let_def
  by (simp only: option.distinct option.inject simp_thms split: option.split_asm if_split_asm sum.split_asm bool.split_asm)

lemma ContentAbsorbed_True:
  "ContentAbsorbed p path sha landing target = Inr True \<longleftrightarrow>
     p_ContentContained p path sha landing = Inr True \<and> p_ContentContained p path sha target = Inr True"
  by (auto simp: ContentAbsorbed_def split: sum.split bool.split)

lemma recheck_evidence_None:
  assumes "recheckDeletionEvidence p path (be_sha e) target e = None"
  shows "still_proved p path e target"
proof (cases "be_superseded_at_origin e")
  case True
  then show ?thesis using assms
    by (simp add: recheckDeletionEvidence_def still_proved_def Let_def split: if_split_asm)
next
  case False
  show ?thesis
  proof (cases "be_disposition e = BranchReceipted")
    case True
    have a: "IsGitObjectID (be_landing_sha e)" "p_IsAncestor p path (be_landing_sha e) target = Inr True"
        "be_exact_head e \<Longrightarrow> recheckExactHeadReceipt p path (be_sha e) target e = None"
        "\<not> be_exact_head e \<Longrightarrow> ContentAbsorbed p path (be_sha e) (be_landing_sha e) target = Inr True"
      using assms False True unfolding recheckDeletionEvidence_def
      by (simp_all split: if_split_asm sum.split_asm bool.split_asm)
    show ?thesis
      using a False True recheck_exact_None [of p path "be_sha e" target e] by (auto simp: still_proved_def ContentAbsorbed_True)
  next
    case no: False
    then show ?thesis using assms False
      by (simp add: recheckDeletionEvidence_def still_proved_def split: sum.split_asm bool.split_asm)
  qed
qed

lemma recheck_pull_requests_None:
  "recheck_pull_requests env path e = None \<Longrightarrow> no_open_pull_request (ae_ports env) path e"
  by (simp add: recheck_pull_requests_def no_open_pull_request_def Let_def split: option.split_asm)

section \<open>One candidate\<close>

text \<open>The fresh evidence behind one delete command.\<close>

definition reproved :: "apply_env \<Rightarrow> cleanup_options \<Rightarrow> string \<Rightarrow> branch_entry \<Rightarrow> bool" where
  "reproved env options path e \<longleftrightarrow>
     (let p = ae_ports env in
      \<exists>target. p_FetchTarget p path (be_base e) = Inr target \<and>
        guards_hold p (co_projects_root options) path e \<and> still_proved p path e target \<and>
        (if be_scope e = BranchScopeLocal
         then \<exists>tip. p_Git p path [''rev-parse'', ''--verify'', ''refs/heads/'' @ be_branch e] = Inr tip \<and> TrimSpace tip = be_sha e
         else RemoteBranchHead p path (be_branch e) = Inr (be_sha e) \<and> no_open_pull_request p path e \<and>
           (\<not> be_superseded_at_origin e \<or> reviewedRemoteForkGuard env path (be_repository e) = None) \<and>
           (\<exists>r. cr_entry r = e\<lparr>be_target_sha := target\<rparr> \<and> validatePeerEvidence env options [r] (ae_now env) = None)))"

definition exact_delete :: "branch_entry \<Rightarrow> string list" where
  "exact_delete e = invokeCleanupExactRefDelete (be_scope e \<noteq> BranchScopeLocal) (be_branch e) (be_sha e)"

lemma delete_ref_cases:
  "snd (delete_ref env path remote label sha r) =
     [(path, invokeCleanupExactRefDelete remote (be_branch (cr_entry r)) sha)]"
  "cr_outcome (fst (delete_ref env path remote label sha r)) =
     (if ae_run env path (invokeCleanupExactRefDelete remote (be_branch (cr_entry r)) sha) = None then ''deleted'' else ''failed'')"
  by (simp_all add: delete_ref_def Let_def failed_def split: option.split)

lemma failed_outcome [simp]: "cr_outcome (failed r err) = ''failed''"
  by (simp add: failed_def)

lemma applyLocal_cases:
  assumes "applyLocalBranchDeletion env path options r = (r', cs)" "be_scope (cr_entry r) = BranchScopeLocal"
  shows "cs = [] \<and> cr_outcome r' = ''failed'' \<or>
    cs = [(path, exact_delete (cr_entry r))] \<and> reproved env options path (cr_entry r) \<and>
    cr_outcome r' = (if ae_run env path (exact_delete (cr_entry r)) = None then ''deleted'' else ''failed'')"
proof -
  let ?p = "ae_ports env" and ?e = "cr_entry r"
  let ?r = "\<lambda>target. r\<lparr>cr_entry := ?e\<lparr>be_target_sha := target\<rparr>\<rparr>"
  consider "cs = []" "cr_outcome r' = ''failed''"
    | target tip where "p_FetchTarget ?p path (be_base ?e) = Inr target"
        "p_Git ?p path [''rev-parse'', ''--verify'', ''refs/heads/'' @ be_branch ?e] = Inr tip" "TrimSpace tip = be_sha ?e"
        "recheckBranchRetirementGuards ?p (co_projects_root options) path ?e = None"
        "recheckDeletionEvidence ?p path (be_sha ?e) target ?e = None"
        "(r', cs) = delete_ref env path False ''compare-and-delete'' (be_sha ?e) (?r target)"
    using assms(1) unfolding applyLocalBranchDeletion_def Let_def
    by (auto split: sum.split_asm if_split_asm option.split_asm)
  then show ?thesis
  proof cases
    case 2
    then show ?thesis
      using delete_ref_cases [of env path False "''compare-and-delete''" "be_sha ?e" "?r target"] assms(2)
        recheck_guards_None [OF 2(4)] recheck_evidence_None [OF 2(5)]
      by (auto simp: reproved_def exact_delete_def Let_def dest: sym [of "(r', cs)"])
  qed simp
qed

lemma applyRemote_cases:
  assumes "applyRemoteBranchDeletion env path options r = (r', cs)" "be_scope (cr_entry r) \<noteq> BranchScopeLocal"
  shows "cs = [] \<and> cr_outcome r' = ''failed'' \<or>
    cs = [(path, exact_delete (cr_entry r))] \<and> reproved env options path (cr_entry r) \<and>
    cr_outcome r' = (if ae_run env path (exact_delete (cr_entry r)) = None then ''deleted'' else ''failed'')"
proof -
  let ?p = "ae_ports env" and ?e = "cr_entry r"
  let ?r = "\<lambda>target. r\<lparr>cr_entry := ?e\<lparr>be_target_sha := target\<rparr>\<rparr>"
  consider "cs = []" "cr_outcome r' = ''failed''"
    | target where "p_FetchTarget ?p path (be_base ?e) = Inr target"
        "RemoteBranchHead ?p path (be_branch ?e) = Inr (be_sha ?e)"
        "recheckBranchRetirementGuards ?p (co_projects_root options) path ?e = None"
        "recheckDeletionEvidence ?p path (be_sha ?e) target ?e = None"
        "recheck_pull_requests env path ?e = None"
        "be_superseded_at_origin ?e \<Longrightarrow> reviewedRemoteForkGuard env path (be_repository ?e) = None"
        "validatePeerEvidence env options [?r target] (ae_now env) = None"
        "(r', cs) = delete_ref env path True ''force-with-lease delete'' (be_sha ?e) (?r target)"
    using assms(1) unfolding applyRemoteBranchDeletion_def Let_def
    by (auto split: sum.split_asm if_split_asm option.split_asm)
  then show ?thesis
  proof cases
    case 2
    then show ?thesis
      using delete_ref_cases [of env path True "''force-with-lease delete''" "be_sha ?e" "?r target"] assms(2)
        recheck_guards_None [OF 2(3)] recheck_evidence_None [OF 2(4)] recheck_pull_requests_None [OF 2(5)]
      by (auto simp: reproved_def exact_delete_def Let_def dest: sym [of "(r', cs)"] intro!: exI [of _ "?r target"])
  qed simp
qed

text \<open>The archive holds the branch: its bundle restored the planned head, its receipt is unchanged.\<close>

definition archived :: "archive_io \<Rightarrow> string \<Rightarrow> string \<Rightarrow> branch_entry \<Rightarrow> bool" where
  "archived io reportDir path e \<longleftrightarrow>
     (\<exists>dir verify restored.
        (let bundle = filepath_Join [dir, ''source.bundle''];
             sourceRef = (if be_scope e = BranchScopeRemote then ''refs/remotes/origin/'' else ''refs/heads/'') @ be_branch e in
         is_ok (io_git io path [''bundle'', ''create'', bundle, sourceRef]) \<and>
         io_copyFileSHA256 io (sn_receipt (be_supersession e)) (filepath_Join [dir, ''supersession.json'']) =
           Inr (sn_sha256 (be_supersession e)) \<and>
         is_ok (io_git io verify [''fetch'', bundle, sourceRef @ '':refs/heads/recovery'']) \<and>
         io_git io verify [''rev-parse'', ''refs/heads/recovery''] = Inr restored \<and> TrimSpace restored = be_sha e))"

lemma ensure_Inr: "ensure err k = Inr x \<longleftrightarrow> err = None \<and> k = Inr x"
  by (simp add: ensure_def split: option.split)

lemma and_then_Inr: "and_then r k = Inr x \<longleftrightarrow> (\<exists>y. r = Inr y \<and> k y = Inr x)"
  by (simp add: and_then_def split: sum.split)

lemma verify_bundle_Inr:
  "verify_bundle io bundle sourceRef sha = Inr x \<Longrightarrow> \<exists>verify restored.
     is_ok (io_git io verify [''fetch'', bundle, sourceRef @ '':refs/heads/recovery'']) \<and>
     io_git io verify [''rev-parse'', ''refs/heads/recovery''] = Inr restored \<and> TrimSpace restored = sha"
  by (auto simp: verify_bundle_def and_then_Inr split: if_split_asm) (metis isl_def sum.distinct(1))

lemma archive_Inr:
  assumes "archiveReviewedBranchWithIO reportDir path e io = Inr dir"
  shows "archived io reportDir path e"
proof -
  let ?ref = "(if be_scope e = BranchScopeRemote then ''refs/remotes/origin/'' else ''refs/heads/'') @ be_branch e"
  obtain d bd rd x y where *: "io_git io path [''bundle'', ''create'', filepath_Join [d, ''source.bundle''], ?ref] = Inr y"
      "io_copyFileSHA256 io (sn_receipt (be_supersession e)) (filepath_Join [d, ''supersession.json'']) = Inr rd"
      "rd = sn_sha256 (be_supersession e)"
      "verify_bundle io (filepath_Join [d, ''source.bundle'']) ?ref (be_sha e) = Inr x"
    using assms unfolding archiveReviewedBranchWithIO_def Let_def ensure_Inr and_then_Inr
    by (auto simp: ensure_Inr and_then_Inr split: if_split_asm)
  from verify_bundle_Inr [OF *(4)] show ?thesis
    unfolding archived_def Let_def using *(1-3) by (metis sum.disc(2))
qed

lemma apply_candidate_cases:
  assumes "apply_candidate env paths options r = (r', cs)"
  shows "cs = [] \<and> (r' = r \<and> \<not> cr_eligible r \<or> cr_outcome r' = ''failed'') \<or>
    (\<exists>path. paths (be_repository (cr_entry r)) = Some path \<and> cr_eligible r \<and>
       cs = [(path, exact_delete (cr_entry r))] \<and>
       reproved env options path (cr_entry r) \<and>
       (\<not> be_superseded_at_origin (cr_entry r) \<or> archived (ae_archive env) (co_report_dir options) path (cr_entry r)) \<and>
       cr_outcome r' = (if ae_run env path (exact_delete (cr_entry r)) = None then ''deleted'' else ''failed''))"
proof -
  have step: "(if be_scope (cr_entry r) = BranchScopeLocal then applyLocalBranchDeletion env path options q
       else applyRemoteBranchDeletion env path options q) = (r', cs) \<Longrightarrow> q = r\<lparr>cr_recovery_bundle := b\<rparr> \<Longrightarrow>
     cs = [] \<and> cr_outcome r' = ''failed'' \<or>
     cs = [(path, exact_delete (cr_entry r))] \<and> reproved env options path (cr_entry r) \<and>
     cr_outcome r' = (if ae_run env path (exact_delete (cr_entry r)) = None then ''deleted'' else ''failed'')" for path q b
    using applyLocal_cases [of env path options q r' cs] applyRemote_cases [of env path options q r' cs]
    by (cases "be_scope (cr_entry r) = BranchScopeLocal") auto
  consider "cs = []" "r' = r" "\<not> cr_eligible r" | "cs = []" "cr_outcome r' = ''failed''"
    | path b where "cr_eligible r" "paths (be_repository (cr_entry r)) = Some path"
        "\<not> be_superseded_at_origin (cr_entry r) \<or> archived (ae_archive env) (co_report_dir options) path (cr_entry r)"
        "(if be_scope (cr_entry r) = BranchScopeLocal then applyLocalBranchDeletion env path options (r\<lparr>cr_recovery_bundle := b\<rparr>)
          else applyRemoteBranchDeletion env path options (r\<lparr>cr_recovery_bundle := b\<rparr>)) = (r', cs)"
  proof (cases "\<not> cr_eligible r \<or> paths (be_repository (cr_entry r)) = None")
    case True
    then show ?thesis using assms that(1,2) by (auto simp: apply_candidate_def split: if_split_asm)
  next
    case False
    then obtain path where path: "cr_eligible r" "paths (be_repository (cr_entry r)) = Some path" by blast
    show ?thesis
    proof (cases "be_superseded_at_origin (cr_entry r)")
      case no: False
      have same: "r\<lparr>cr_recovery_bundle := cr_recovery_bundle r\<rparr> = r" by simp
      show ?thesis using assms path no that(3) [of path "cr_recovery_bundle r", unfolded same]
        by (simp add: apply_candidate_def Let_def)
    next
      case True
      show ?thesis
      proof (cases "archiveReviewedBranchWithIO (co_report_dir options) path (cr_entry r) (ae_archive env)")
        case (Inl err)
        then show ?thesis using assms path True that(2) by (auto simp: apply_candidate_def)
      next
        case (Inr b)
        then show ?thesis using assms path True archive_Inr [OF Inr] that(3) [of path b]
          by (simp add: apply_candidate_def Let_def)
      qed
    qed
  qed
  then show ?thesis
  proof cases
    case 3
    from step [OF 3(4) refl] show ?thesis using 3(1-3) by blast
  qed auto
qed

section \<open>The whole run\<close>

lemma applyBranchCleanup_commands:
  assumes "applyBranchCleanup envs rs paths options = (rs', cs)" "(dir, args) \<in> set cs"
  shows "\<exists>env r. env \<in> set envs \<and> r \<in> set rs \<and> cr_eligible r \<and> paths (be_repository (cr_entry r)) = Some dir \<and>
     args = exact_delete (cr_entry r) \<and> reproved env options dir (cr_entry r) \<and>
     (\<not> be_superseded_at_origin (cr_entry r) \<or> archived (ae_archive env) (co_report_dir options) dir (cr_entry r))"
  using assms
proof (induction envs rs paths options arbitrary: rs' cs rule: applyBranchCleanup.induct)
  case (1 env envs r rs paths options)
  obtain r' cs1 where c: "apply_candidate env paths options r = (r', cs1)" by fastforce
  obtain rs2 cs2 where d: "applyBranchCleanup envs rs paths options = (rs2, cs2)" by fastforce
  have "cs = cs1 @ cs2" using 1(2) c d by simp
  then consider "(dir, args) \<in> set cs1" | "(dir, args) \<in> set cs2" using 1(3) by auto
  then show ?case
  proof cases
    case 1
    then show ?thesis using apply_candidate_cases [OF c] by (intro exI [of _ env] exI [of _ r]) auto
  next
    case 2
    from "1.IH" [OF c [symmetric] d this] show ?thesis by auto
  qed
qed auto

text \<open>
  Every outcome of a candidate is accounted for: a result says deleted exactly when the one
  command issued for it ran without error.
\<close>

lemma applyBranchCleanup_outcomes:
  assumes "applyBranchCleanup envs rs paths options = (rs', cs)" "length envs = length rs"
  shows "length rs' = length rs \<and> (\<forall>i < length rs. cr_outcome (rs' ! i) = ''deleted'' \<longrightarrow>
     cr_outcome (rs ! i) = ''deleted'' \<or>
     (\<exists>dir. (dir, exact_delete (cr_entry (rs ! i))) \<in> set cs \<and> ae_run (envs ! i) dir (exact_delete (cr_entry (rs ! i))) = None))"
  using assms
proof (induction envs rs paths options arbitrary: rs' cs rule: applyBranchCleanup.induct)
  case (1 env envs r rs paths options)
  obtain r' cs1 where c: "apply_candidate env paths options r = (r', cs1)" by fastforce
  obtain rs2 cs2 where d: "applyBranchCleanup envs rs paths options = (rs2, cs2)" by fastforce
  have e: "rs' = r' # rs2" "cs = cs1 @ cs2" using 1(2) c d by auto
  have "cr_outcome r' = ''deleted'' \<Longrightarrow> cr_outcome r = ''deleted'' \<or>
      (\<exists>dir. (dir, exact_delete (cr_entry r)) \<in> set cs1 \<and> ae_run env dir (exact_delete (cr_entry r)) = None)"
    using apply_candidate_cases [OF c] by (auto split: if_splits)
  then show ?case using "1.IH" [OF c [symmetric] d] 1(3) e by (auto simp: nth_Cons split: nat.split)
qed auto

lemma cleanup_plan_set:
  assumes "r \<in> set (cleanup_plan options sweep entries)"
  shows "cr_entry r \<in> set (SortBranchEntries entries)"
    "cr_eligible r \<Longrightarrow> deletable (SortBranchEntries entries) (Policy sweep) (cr_entry r)"
    "CleanClassSelected (co_only options) (be_disposition (cr_entry r))"
  using assms
  by (auto simp: cleanup_plan_def PlanBranchCleanup_def plan_entry_deletable CleanClassSelected_def Let_def split: if_split_asm)

lemma apply_plan_commands:
  assumes "apply_plan env options results ds paths = (res, cs)" "cs \<noteq> []"
  shows "\<exists>reportDir rs path. ce_write_plan env reportDir results = Inr path \<and>
    validatePeerEvidence (ce_peer env) options results (ce_now env) = None \<and>
    applyBranchCleanup (map (ce_applies env) [0..<length results]) results paths (options\<lparr>co_report_dir := reportDir\<rparr>) = (rs, cs)"
  using assms unfolding apply_plan_def Let_def
  by (auto split: sum.split_asm option.split_asm prod.split_asm if_split_asm)

lemma validatePeerEvidence_report_dir [simp]:
  "validatePeerEvidence env (options\<lparr>co_report_dir := d\<rparr>) results now = validatePeerEvidence env options results now"
  by (simp add: validatePeerEvidence_def split: sum.split)

lemma reproved_report_dir [simp]: "reproved env (options\<lparr>co_report_dir := d\<rparr>) path e \<longleftrightarrow> reproved env options path e"
  by (simp add: reproved_def)

text \<open>
  C6: a cleanup deletes only what has been proved twice. Every Git command a run issues
  against refs is the compare-and-delete of one entry with exactly the commit the plan names.
  The run was asked to apply, its plan had been written, and the peer evidence held. The entry
  was proved deletable when the plan was made, is of the selected class, and was proved again
  from fresh observations just before: target fetched anew, the ref still at that commit, not
  protected, not claimed, not checked out, its evidence still valid, and for a remote branch no
  open pull request and valid peer evidence. A superseded branch was archived first, and its
  bundle restored that commit.
\<close>

theorem BranchCleanup_deletes_only_proved:
  assumes "branchCleanupWithPorts env options = Some (res, cs)" "(dir, args) \<in> set cs"
  shows "co_apply options \<and>
    (\<exists>e i reportDir entries ds paths results.
       ClassifyFleetBranchesWithPaths (ce_ports env) (cleanup_sweep options (ce_now env)) = Some (Inr (entries, ds, paths)) \<and>
       results = cleanup_plan options (cleanup_sweep options (ce_now env)) entries \<and>
       is_ok (ce_write_plan env reportDir results) \<and>
       validatePeerEvidence (ce_peer env) options results (ce_now env) = None \<and>
       e \<in> set (map cr_entry results) \<and> paths (be_repository e) = Some dir \<and> args = exact_delete e \<and>
       plan_proved (ce_ports env) (cleanup_sweep options (ce_now env)) e \<and>
       CleanClassSelected (co_only options) (be_disposition e) \<and>
       reproved (ce_applies env i) options dir e \<and>
       (\<not> be_superseded_at_origin e \<or> archived (ae_archive (ce_applies env i)) reportDir dir e))"
proof -
  let ?sweep = "cleanup_sweep options (ce_now env)"
  have "cs \<noteq> []" using assms(2) by auto
  then obtain entries ds paths where f: "co_apply options"
      "ClassifyFleetBranchesWithPaths (ce_ports env) ?sweep = Some (Inr (entries, ds, paths))"
      "apply_plan env options (cleanup_plan options ?sweep entries) ds paths = (res, cs)"
    using assms(1) by (auto simp: branchCleanupWithPorts_def Let_def split: option.split_asm sum.split_asm if_split_asm)
  let ?results = "cleanup_plan options ?sweep entries"
  obtain reportDir rs path where a: "ce_write_plan env reportDir ?results = Inr path"
      "validatePeerEvidence (ce_peer env) options ?results (ce_now env) = None"
      "applyBranchCleanup (map (ce_applies env) [0..<length ?results]) ?results paths
         (options\<lparr>co_report_dir := reportDir\<rparr>) = (rs, cs)"
    using apply_plan_commands [OF f(3) \<open>cs \<noteq> []\<close>] by blast
  from applyBranchCleanup_commands [OF a(3) assms(2)] obtain i r where
      r: "r \<in> set ?results" "cr_eligible r" "paths (be_repository (cr_entry r)) = Some dir" "args = exact_delete (cr_entry r)"
      "reproved (ce_applies env i) options dir (cr_entry r)"
      "\<not> be_superseded_at_origin (cr_entry r) \<or> archived (ae_archive (ce_applies env i)) reportDir dir (cr_entry r)"
    by auto
  note plan = cleanup_plan_set [OF r(1)]
  have "plan_proved (ce_ports env) ?sweep (cr_entry r)"
    using deletable_entry_proved [OF f(2) _ plan(1) plan(2) [OF r(2)]] by (simp add: cleanup_sweep_def)
  moreover have "is_ok (ce_write_plan env reportDir ?results)" using a(1) by simp
  ultimately show ?thesis using f(1,2) a(2) r plan(3)
    by (intro conjI exI [of _ "cr_entry r"] exI [of _ i] exI [of _ reportDir] exI [of _ entries] exI [of _ ds]
        exI [of _ paths] exI [of _ ?results]) auto
qed

definition sample_apply :: apply_env where
  "sample_apply =
     \<lparr>ae_ports = sample_ports,
      ae_archive = \<lparr>io_mkdirAll = \<lambda>_. None, io_mkdirTemp = \<lambda>_ _. Inl [], io_chmod = \<lambda>_. None, io_syncAncestors = \<lambda>_. None,
        io_syncDirectory = \<lambda>_. None, io_syncFile = \<lambda>_. None, io_git = sample_git, io_fileSHA256 = \<lambda>_. Inl [],
        io_copyFileSHA256 = \<lambda>_ _. Inl [], io_writeDurableFile = \<lambda>_ _. None, io_now = 0,
        io_validateReportDir = \<lambda>_ _. None, io_marshal = \<lambda>_. Inl []\<rparr>,
      ae_host_name = Inr ''here'', ae_read_file = \<lambda>_. Inl [], ae_decode_peer = \<lambda>_. Inl [], ae_decode_fork = \<lambda>_. Inl [],
      ae_open_canonical = \<lambda>_. None, ae_run = \<lambda>_ _. None, ae_now = 0\<rparr>"

definition sample_coordinator :: coordinator_env where
  "sample_coordinator =
     \<lparr>ce_ports = sample_ports, ce_now = 0, ce_home = Inr ''/home/wb'', ce_validateReportDir = \<lambda>_ _. None,
      ce_write_plan = \<lambda>d _. Inr (d @ ''/cleanup.json''), ce_write_outcome = \<lambda>d _. Inr d,
      ce_peer = sample_apply, ce_applies = \<lambda>_. sample_apply\<rparr>"

definition sample_options :: cleanup_options where
  "sample_options =
     \<lparr>co_projects_root = ''/src'', co_base = ''main'', co_scope = BranchScopeLocal, co_older_than = 0, co_filter = [],
      co_repository = ''a/b'', co_branch = ''x'', co_receipts = False, co_absorbed_by = [], co_superseded_by = [],
      co_peer_evidence = [], co_require_hosts = [], co_only = [], co_apply = True, co_report_dir = ''/r''\<rparr>"

lemma sample_run:
  "map_option snd (branchCleanupWithPorts sample_coordinator sample_options) = Some [(''/p'', local_delete ''x'' ''a1'')]"
  by code_simp

theorem BranchCleanup_deletes_only_proved_witness:
  "map_option snd (branchCleanupWithPorts sample_coordinator sample_options) = Some [(''/p'', local_delete ''x'' ''a1'')] \<and>
   (\<exists>e. plan_proved sample_ports (cleanup_sweep sample_options 0) e \<and> reproved sample_apply sample_options ''/p'' e)"
proof -
  obtain res where r: "branchCleanupWithPorts sample_coordinator sample_options = Some (res, [(''/p'', local_delete ''x'' ''a1'')])"
    using sample_run by auto
  have m: "(''/p'', local_delete ''x'' ''a1'') \<in> set [(''/p'', local_delete ''x'' ''a1'')]" by simp
  from BranchCleanup_deletes_only_proved [OF r m] have "\<exists>e. plan_proved (ce_ports sample_coordinator)
      (cleanup_sweep sample_options (ce_now sample_coordinator)) e \<and>
      (\<exists>i. reproved (ce_applies sample_coordinator i) sample_options ''/p'' e)"
    by blast
  then show ?thesis using sample_run by (simp add: sample_coordinator_def)
qed

section \<open>Peer evidence\<close>

text \<open>
  One piece of evidence that is in order: of a required host, current, about the branch and base that
  are planned, without diagnostics, and with exactly one entry, which is the remote branch in a safe
  disposition at the head and target of the plan.
\<close>

definition peer_exact :: "peer_validation \<Rightarrow> peer_evidence \<Rightarrow> bool" where
  "peer_exact rq ev \<longleftrightarrow>
     pe_host ev \<noteq> [] \<and> pe_host ev \<in> set (pv_require_hosts rq) \<and>
     \<not> is_zero_time (pe_generated_at ev) \<and> pe_generated_at ev \<le> pv_now rq \<and> time_sub (pv_now rq) (pe_generated_at ev) \<le> 5 * minute \<and>
     pe_repository ev = pv_repository rq \<and> pe_branch ev = pv_branch rq \<and> pe_base ev = pv_base rq \<and> pe_diagnostics ev = [] \<and>
     (\<exists>entry planned. pe_entries ev = [entry] \<and> planned_remote rq = Some planned \<and>
        be_repository entry = pv_repository rq \<and> be_branch entry = pv_branch rq \<and> be_base entry = pv_base rq \<and>
        be_scope entry = BranchScopeRemote \<and> be_disposition entry \<in> {BranchContained, BranchReceipted, BranchAbsorbed, BranchUnique} \<and>
        be_sha entry = be_sha (cr_entry planned) \<and> be_target_sha entry = be_target_sha (cr_entry planned))"

lemma check_peer_None_iff: "check_peer rq seen ev = None \<longleftrightarrow> pe_host ev \<notin> set seen \<and> peer_exact rq ev"
proof (cases "\<exists>entry. pe_entries ev = [entry]")
  case True
  then obtain entry where "pe_entries ev = [entry]" by blast
  then show ?thesis
    by (cases "planned_remote rq")
      (auto simp: check_peer_def peer_exact_def Let_def PeerEvidenceSafeDisposition_def peerEvidenceMaximumAge_def not_less)
next
  case False
  then have "length (pe_entries ev) \<noteq> 1" by (simp add: length_Suc_conv)
  then show ?thesis using False by (auto simp: check_peer_def peer_exact_def)
qed

lemma check_peers_Inr_iff:
  "check_peers rq seen evs = Inr seen' \<longleftrightarrow>
     seen' = rev (map pe_host evs) @ seen \<and> distinct (map pe_host evs) \<and> (\<forall>ev \<in> set evs. pe_host ev \<notin> set seen \<and> peer_exact rq ev)"
proof (induction rq seen evs rule: check_peers.induct)
  case (2 rq seen ev evs)
  show ?case
  proof (cases "check_peer rq seen ev")
    case None
    then show ?thesis using 2 check_peer_None_iff [of rq seen ev] by (auto intro: rev_image_eqI)
  next
    case (Some err)
    then show ?thesis using check_peer_None_iff [of rq seen ev] by auto
  qed
qed auto

text \<open>
  C20: peer evidence is accepted exactly when it is complete, current and exact. Unless no host is
  required and none reports, this host must be among the required ones, and the hosts that report
  must be the required ones, each once; every report must be in order in itself (\<^const>\<open>peer_exact\<close>):
  at most five minutes old and not in the future, for the repository, branch and base of the plan,
  without diagnostics, and with one entry, the remote branch in a safe disposition at the very head
  and target of the plan. Everything else is refused.
\<close>

theorem peer_evidence_exact:
  "ValidatePeerEvidence rq = None \<longleftrightarrow>
     pv_evidence rq = [] \<and> pv_require_hosts rq = [] \<or>
     pv_local_host rq \<in> set (pv_require_hosts rq) \<and>
     pe_host ` set (pv_evidence rq) = set (pv_require_hosts rq) \<and> distinct (map pe_host (pv_evidence rq)) \<and>
     (\<forall>ev \<in> set (pv_evidence rq). peer_exact rq ev)"
proof (cases "pv_local_host rq \<in> set (pv_require_hosts rq)")
  case True
  have "ValidatePeerEvidence rq = None \<longleftrightarrow>
      (\<exists>seen. check_peers rq [] (pv_evidence rq) = Inr seen \<and> set (pv_require_hosts rq) \<subseteq> set seen)"
    using True by (auto simp: ValidatePeerEvidence_def find_None_all split: sum.split)
  also have "\<dots> \<longleftrightarrow> distinct (map pe_host (pv_evidence rq)) \<and> (\<forall>ev \<in> set (pv_evidence rq). peer_exact rq ev) \<and>
      set (pv_require_hosts rq) \<subseteq> pe_host ` set (pv_evidence rq)"
    by (auto simp: check_peers_Inr_iff)
  also have "\<dots> \<longleftrightarrow> distinct (map pe_host (pv_evidence rq)) \<and> (\<forall>ev \<in> set (pv_evidence rq). peer_exact rq ev) \<and>
      pe_host ` set (pv_evidence rq) = set (pv_require_hosts rq)"
    by (auto simp: peer_exact_def)
  finally show ?thesis using True by auto
qed (auto simp: ValidatePeerEvidence_def)

definition sample_peer :: peer_validation where
  "sample_peer =
     (let e = zero_entry\<lparr>be_repository := ''a/b'', be_branch := ''x'', be_base := ''main'', be_scope := BranchScopeRemote,
              be_disposition := BranchUnique, be_sha := ''a1'', be_target_sha := ''b2''\<rparr> in
      \<lparr>pv_local_host = ''here'', pv_repository = ''a/b'', pv_branch = ''x'', pv_base = ''main'',
       pv_require_hosts = [''here''],
       pv_evidence = [\<lparr>pe_path = [], pe_host = ''here'', pe_generated_at = 1, pe_repository = ''a/b'',
         pe_branch = ''x'', pe_base = ''main'', pe_diagnostics = [], pe_entries = [e]\<rparr>],
       pv_results = [plan_entry False (Policy sample_sweep) e], pv_now = 2\<rparr>)"

theorem peer_evidence_exact_witness:
  "ValidatePeerEvidence sample_peer = None \<and> distinct (map pe_host (pv_evidence sample_peer)) \<and>
   pe_host ` set (pv_evidence sample_peer) = {''here''}"
proof -
  have v: "ValidatePeerEvidence sample_peer = None" by code_simp
  have h: "pv_require_hosts sample_peer = [''here'']" by (simp add: sample_peer_def Let_def)
  from peer_evidence_exact [of sample_peer] show ?thesis using v by (simp add: h)
qed

end
