(* ===== verification/Branch_List_Props.thy ===== *)
theory Branch_List_Props
  imports Branch_List Branch_Cleanup_Props
begin

text \<open>
  The two branch commands as the user calls them: a cleanup deletes only what the flags select,
  and the listing of the retired namespace counts what it shows and owns up to what it could not
  read.
\<close>

section \<open>What an inventory selects\<close>

definition scope_reads :: "string \<Rightarrow> string \<Rightarrow> bool" where
  "scope_reads scope entry_scope \<longleftrightarrow>
     entry_scope = BranchScopeLocal \<and> scope \<in> {BranchScopeLocal, BranchScopeAll} \<or>
     entry_scope = BranchScopeRemote \<and> scope \<in> {BranchScopeRemote, BranchScopeAll}"

definition selected_by :: "inventory_sweep \<Rightarrow> repository \<Rightarrow> branch_entry \<Rightarrow> bool" where
  "selected_by sweep repo e \<longleftrightarrow>
     be_repository e = rp_slug repo \<and> BranchNameSelected (Policy sweep) (be_branch e) \<and> scope_reads (sw_scope sweep) (be_scope e)"

lemma selected_by_identity: "identity e = identity f \<Longrightarrow> selected_by sweep repo e = selected_by sweep repo f"
  by (auto simp: selected_by_def identity_def)

lemma selected_by_decorate [simp]: "selected_by sweep repo (DecorateBranchCommit p path e) = selected_by sweep repo e"
  by (rule selected_by_identity) simp

lemma identity_retired: "identity (RetiredBranchEntry name options ref scope target) = (name, ref_name ref, scope, ref_sha ref, target)"
  by (simp add: RetiredBranchEntry_def identity_def)

lemma selected_by_ref:
  "identity e = (rp_slug repo, ref_name ref, scope, sha, target) \<Longrightarrow> BranchNameSelected (Policy sweep) (ref_name ref) \<Longrightarrow>
     scope_reads (sw_scope sweep) scope \<Longrightarrow> selected_by sweep repo e"
  by (auto simp: selected_by_def identity_def)

lemma inspect_local_selected:
  assumes "cache_ok p repo cache" "sw_scope sweep \<in> {BranchScopeLocal, BranchScopeAll}"
    and "inspect_local p repo sweep target head inUse out refs cache = Some es" "e \<in> set es"
  shows "selected_by sweep repo e"
  using assms(1,3,4)
proof (induction refs arbitrary: cache es)
  case (Cons ref refs)
  show ?case
  proof (cases "\<not> BranchNameSelected (Policy sweep) (ref_name ref) \<or> retired_skipped sweep ref")
    case True
    then show ?thesis using Cons by simp
  next
    case False
    then obtain f c fs where f: "(if IsRetiredBranch (ref_name ref)
          then Some (RetiredBranchEntry (rp_slug repo) (Policy sweep) ref BranchScopeLocal target, cache)
          else ClassifyBranch p repo sweep ref BranchScopeLocal target head inUse out cache) = Some (f, c)"
        "inspect_local p repo sweep target head inUse out refs c = Some fs" "es = DecorateBranchCommit p (rp_path repo) f # fs"
      using Cons.prems(2) by (auto split: option.splits)
    have "cache_ok p repo c \<and> identity f = (rp_slug repo, ref_name ref, BranchScopeLocal, ref_sha ref, target)"
      using f(1) Cons.prems(1) ClassifyBranch_ok identity_retired by (auto split: if_split_asm)
    then have "cache_ok p repo c" "selected_by sweep repo f"
      using False assms(2) by (auto intro!: selected_by_ref simp: scope_reads_def)
    then show ?thesis using Cons.IH f(2,3) Cons.prems(3) by auto
  qed
qed simp

lemma remote_entry_identity:
  assumes "cache_ok p repo cache"
    and "remote_entry p repo sweep target head inUse out ref cache prc = Some (e, cache', prc')"
  shows "cache_ok p repo cache' \<and> identity e = (rp_slug repo, ref_name ref, BranchScopeRemote, ref_sha ref, target)"
proof (cases "IsRetiredBranch (ref_name ref)")
  case True
  then show ?thesis using assms by (auto simp: remote_entry_def identity_retired)
next
  case False
  then obtain f c where f: "ClassifyBranch p repo sweep ref BranchScopeRemote target head inUse out cache = Some (f, c)"
    using assms(2) by (auto simp: remote_entry_def split: option.splits)
  have "fst (DecorateRemoteBranchPullRequests p repo ref f prc (sw_with_prs sweep)) = e \<or> f = e" "c = cache'"
    using assms(2) f False by (auto simp: remote_entry_def split: if_split_asm prod.split_asm)
  moreover have "identity (fst (DecorateRemoteBranchPullRequests p repo ref f prc b)) = identity f" for b
    by (auto simp: DecorateRemoteBranchPullRequests_def identity_def Let_def split: option.split)
  ultimately show ?thesis using ClassifyBranch_ok [OF assms(1) f] by auto
qed

lemma inspect_remote_selected:
  assumes "cache_ok p repo cache" "sw_scope sweep \<in> {BranchScopeRemote, BranchScopeAll}"
    and "inspect_remote p repo sweep target head inUse out refs cache prc = Some es" "e \<in> set es"
  shows "selected_by sweep repo e"
  using assms(1,3,4)
proof (induction refs arbitrary: cache prc es)
  case (Cons ref refs)
  show ?case
  proof (cases "\<not> BranchNameSelected (Policy sweep) (ref_name ref) \<or> retired_skipped sweep ref")
    case True
    then show ?thesis using Cons by simp
  next
    case False
    then obtain f c pc fs where f: "remote_entry p repo sweep target head inUse out ref cache prc = Some (f, c, pc)"
        "inspect_remote p repo sweep target head inUse out refs c pc = Some fs" "es = DecorateBranchCommit p (rp_path repo) f # fs"
      using Cons.prems(2) by (auto split: option.splits)
    from remote_entry_identity [OF Cons.prems(1) f(1)] have "cache_ok p repo c" "selected_by sweep repo f"
      using False assms(2) by (auto intro!: selected_by_ref simp: scope_reads_def)
    then show ?thesis using Cons.IH f(2,3) Cons.prems(3) by auto
  qed
qed simp

lemma InspectRepositoryBranches_selected:
  assumes "InspectRepositoryBranches p repo sweep inUse = Some (es, d)" "e \<in> set es"
  shows "ineligible e \<or> selected_by sweep repo e"
proof (cases "p_FetchTarget p (rp_path repo) (sw_base sweep)")
  case (Inl err)
  then show ?thesis using assms
    by (auto simp: InspectRepositoryBranches_def Let_def ineligible_def disposition_defs)
next
  case (Inr target)
  let ?head = "canonical_head p (rp_path repo)" and ?out = "fst (CheckedOutLocalBranches p (rp_path repo))"
  have c: "cache_ok p repo (Some Map.empty)" by (simp add: cache_ok_def)
  consider es1 refs where "e \<in> set es1" "sw_scope sweep \<in> {BranchScopeLocal, BranchScopeAll}"
        "inspect_local p repo sweep target ?head inUse ?out refs (Some Map.empty) = Some es1"
    | es2 refs where "e \<in> set es2" "sw_scope sweep \<in> {BranchScopeRemote, BranchScopeAll}"
        "inspect_remote p repo sweep target ?head inUse ?out refs (Some Map.empty) Map.empty = Some es2"
    using assms Inr unfolding InspectRepositoryBranches_def Let_def
    by (auto split: option.splits prod.splits if_splits)
  then show ?thesis
    using inspect_local_selected [OF c] inspect_remote_selected [OF c] by cases blast+
qed

lemma inspect_all_selected:
  assumes "inspect_all p sweep inUse repos = Some (es, ds)" "e \<in> set es" "\<not> ineligible e"
  shows "\<exists>repo \<in> set repos. selected_by sweep repo e"
  using assms(1,2)
proof (induction repos arbitrary: es ds)
  case (Cons r rs)
  then obtain fs d gs ds' where *: "InspectRepositoryBranches p r sweep inUse = Some (fs, d)"
      "inspect_all p sweep inUse rs = Some (gs, ds')" "es = fs @ gs"
    by (auto split: option.splits prod.splits)
  then show ?case using InspectRepositoryBranches_selected [OF *(1)] assms(3) Cons.IH [OF *(2)] Cons.prems(2) by auto
qed simp

lemma ClassifyFleet_selected:
  assumes "ClassifyFleetBranchesWithPaths p sweep = Some (Inr (entries, ds, paths))" "e \<in> set entries" "\<not> ineligible e"
  shows "(sw_repository sweep \<noteq> [] \<longrightarrow> be_repository e = sw_repository sweep) \<and>
    (sw_branch sweep \<noteq> [] \<longrightarrow> be_branch e = sw_branch sweep) \<and> scope_reads (sw_scope sweep) (be_scope e)"
proof -
  obtain rs0 rs where rs: "DiscoverBranchRepositories p (sw_projects_root sweep) (sw_filter sweep) = Inr rs0"
      "SelectBranchRepositories rs0 (sw_repository sweep) (sw_org sweep) = Inr rs"
    using assms(1) by (auto simp: ClassifyFleetBranchesWithPaths_def split: sum.splits)
  obtain ds' where "inspect_all p sweep (fst (BranchInUseIndex p (sw_projects_root sweep) (sw_filter sweep))) rs = Some (entries, ds')"
    using assms(1) rs by (auto simp: ClassifyFleetBranchesWithPaths_def Let_def split: prod.splits)
  from inspect_all_selected [OF this assms(2,3)] obtain repo where "repo \<in> set rs" "selected_by sweep repo e" by blast
  then show ?thesis using rs(2)
    by (auto simp: selected_by_def SelectBranchRepositories_def BranchNameSelected_def Policy_def Let_def split: if_splits)
qed

section \<open>The cleanup command\<close>

lemma check_selectors_Inr: "check_selectors env o' = Inr n \<Longrightarrow> n = o'"
  by (auto simp: check_selectors_def split: if_split_asm option.split_asm)

lemma normalizeBranchListOptions_Inr:
  assumes "normalizeBranchListOptions env options = Inr n"
  shows "lo_repository n = TrimSpace (lo_repository options)" "lo_branch n = TrimSpace (lo_branch options)"
    "lo_older_than n = lo_older_than options" "0 \<le> lo_older_than options"
    "lo_scope n = (if lo_scope options = [] then BranchScopeLocal else lo_scope options)"
  using assms unfolding normalizeBranchListOptions_def Let_def
  by (auto split: sum.split_asm option.split_asm if_split_asm dest!: check_selectors_Inr simp: trimmed_selectors_def)

definition merged_options :: "cleanup_options \<Rightarrow> list_options \<Rightarrow> cleanup_options" where
  "merged_options options base =
     options\<lparr>co_projects_root := lo_projects_root base, co_base := lo_base base, co_scope := lo_scope base,
       co_older_than := lo_older_than base, co_filter := lo_filter base, co_repository := lo_repository base,
       co_branch := lo_branch base, co_absorbed_by := TrimSpace (co_absorbed_by options),
       co_superseded_by := TrimSpace (co_superseded_by options),
       co_peer_evidence := compactStrings (co_peer_evidence options),
       co_require_hosts := compactStrings (co_require_hosts options)\<rparr>"

definition flags_consistent :: "cleanup_options \<Rightarrow> bool" where
  "flags_consistent m \<longleftrightarrow>
     (co_superseded_by m \<noteq> [] \<longrightarrow> co_repository m \<noteq> [] \<and> co_branch m \<noteq> [] \<and>
        (ScopeIncludesRemote (co_scope m) \<longrightarrow> co_peer_evidence m \<noteq> [] \<and> co_require_hosts m \<noteq> []))"

lemma normalizeBranchCleanupOptions_merged:
  assumes "normalizeBranchCleanupOptions env options = Inr n"
  obtains base d where "normalizeBranchListOptions env (cleanup_list_options options) = Inr base"
    "n = (merged_options options base)\<lparr>co_report_dir := d\<rparr>" "flags_consistent (merged_options options base)"
proof -
  obtain base where base: "normalizeBranchListOptions env (cleanup_list_options options) = Inr base"
    using assms by (auto simp: normalizeBranchCleanupOptions_def split: sum.split_asm)
  let ?m = "merged_options options base"
  have eq: "(if co_superseded_by ?m \<noteq> [] \<and> \<not> (co_repository ?m \<noteq> [] \<and> co_branch ?m \<noteq> []) then Inl SupersededNeedsSelectors
      else if co_superseded_by ?m \<noteq> [] \<and> ScopeIncludesRemote (co_scope ?m) \<and>
          \<not> (co_peer_evidence ?m \<noteq> [] \<and> co_require_hosts ?m \<noteq> []) then Inl ReviewedNeedsPeers
      else if (co_peer_evidence ?m \<noteq> [] \<or> co_require_hosts ?m \<noteq> []) \<and>
          \<not> (ScopeIncludesRemote (co_scope ?m) \<and> co_repository ?m \<noteq> [] \<and> co_branch ?m \<noteq> []) then Inl PeersNeedSelectors
      else if (co_peer_evidence ?m \<noteq> [] \<or> co_require_hosts ?m \<noteq> []) \<and>
          \<not> (co_peer_evidence ?m \<noteq> [] \<and> co_require_hosts ?m \<noteq> []) then Inl PeersTogether
      else if co_report_dir ?m = [] then Inr ?m
      else case le_abs env (co_report_dir ?m) of Inl err \<Rightarrow> Inl (BadReportDir err)
        | Inr absolute \<Rightarrow> Inr (?m\<lparr>co_report_dir := Clean absolute\<rparr>)) = Inr n"
    using assms unfolding normalizeBranchCleanupOptions_def Let_def base sum.case merged_options_def [symmetric] .
  define m where "m = ?m"
  have "flags_consistent m \<and> (n = m \<or> (\<exists>d. n = m\<lparr>co_report_dir := d\<rparr>))"
    using eq unfolding m_def [symmetric] by (auto simp: flags_consistent_def split: if_split_asm sum.split_asm)
  moreover have "m = m\<lparr>co_report_dir := co_report_dir m\<rparr>" by simp
  ultimately show thesis using that [OF base] unfolding m_def by blast
qed

lemma normalizeBranchCleanupOptions_Inr:
  assumes "normalizeBranchCleanupOptions env options = Inr n"
  shows "co_repository n = TrimSpace (co_repository options)" "co_branch n = TrimSpace (co_branch options)"
    "co_older_than n = co_older_than options" "0 \<le> co_older_than options" "co_apply n = co_apply options"
    "co_scope n = (if co_scope options = [] then BranchScopeLocal else co_scope options)"
    "co_superseded_by n = TrimSpace (co_superseded_by options)"
    "co_peer_evidence n = compactStrings (co_peer_evidence options)"
    "co_require_hosts n = compactStrings (co_require_hosts options)"
    "flags_consistent n"
proof -
  obtain base d where b: "normalizeBranchListOptions env (cleanup_list_options options) = Inr base"
    "n = (merged_options options base)\<lparr>co_report_dir := d\<rparr>" "flags_consistent (merged_options options base)"
    using normalizeBranchCleanupOptions_merged [OF assms] by blast
  note norm = normalizeBranchListOptions_Inr [OF b(1)]
  show "co_repository n = TrimSpace (co_repository options)" "co_branch n = TrimSpace (co_branch options)"
    "co_older_than n = co_older_than options" "0 \<le> co_older_than options" "co_apply n = co_apply options"
    "co_scope n = (if co_scope options = [] then BranchScopeLocal else co_scope options)"
    "co_superseded_by n = TrimSpace (co_superseded_by options)"
    "co_peer_evidence n = compactStrings (co_peer_evidence options)"
    "co_require_hosts n = compactStrings (co_require_hosts options)"
    using norm by (simp_all add: b(2) merged_options_def cleanup_list_options_def)
  show "flags_consistent n" using b(3) by (simp add: b(2) flags_consistent_def)
qed

lemma branchCleanupWithPorts_commands:
  assumes "branchCleanupWithPorts env options = Some (res, cs)" "cs \<noteq> []"
  obtains entries ds paths rs opts envs where "co_apply options"
    "ClassifyFleetBranchesWithPaths (ce_ports env) (cleanup_sweep options (ce_now env)) = Some (Inr (entries, ds, paths))"
    "applyBranchCleanup envs (cleanup_plan options (cleanup_sweep options (ce_now env)) entries) paths opts = (rs, cs)"
proof -
  let ?sweep = "cleanup_sweep options (ce_now env)"
  obtain entries ds paths where f: "co_apply options"
      "ClassifyFleetBranchesWithPaths (ce_ports env) ?sweep = Some (Inr (entries, ds, paths))"
      "apply_plan env options (cleanup_plan options ?sweep entries) ds paths = (res, cs)"
    using assms by (auto simp: branchCleanupWithPorts_def Let_def split: option.split_asm sum.split_asm if_split_asm)
  from apply_plan_commands [OF f(3) assms(2)] show thesis using that f(1,2) by blast
qed

text \<open>
  C25: a cleanup deletes only what its flags select. Every Git command a run of the cleanup
  command issues deletes exactly one entry, and that entry lies in the repository and has the
  branch name the user gave, in the scope the user gave (local refs unless the scope is remote
  or all), and is not younger than \<^verbatim>\<open>--older-than\<close>. The run was asked to apply. With
  \<^verbatim>\<open>--superseded-by\<close> both the repository and the branch were named, and when the scope includes
  remotes, peer evidence and required hosts were given.
\<close>

theorem BranchCleanup_deletes_only_selected:
  assumes "BranchCleanup le env options = Some (Inr res, cs)" "(dir, args) \<in> set cs"
  shows "co_apply options \<and>
    (\<exists>e. args = exact_delete e \<and>
      (TrimSpace (co_repository options) \<noteq> [] \<longrightarrow> be_repository e = TrimSpace (co_repository options)) \<and>
      (TrimSpace (co_branch options) \<noteq> [] \<longrightarrow> be_branch e = TrimSpace (co_branch options)) \<and>
      scope_reads (if co_scope options = [] then BranchScopeLocal else co_scope options) (be_scope e) \<and>
      (co_older_than options = 0 \<or> be_committer_date e = 0 \<or>
        co_older_than options \<le> time_sub (ce_now env) (be_committer_date e))) \<and>
    (TrimSpace (co_superseded_by options) \<noteq> [] \<longrightarrow>
      TrimSpace (co_repository options) \<noteq> [] \<and> TrimSpace (co_branch options) \<noteq> [] \<and>
      (ScopeIncludesRemote (co_scope options) \<longrightarrow>
        compactStrings (co_peer_evidence options) \<noteq> [] \<and> compactStrings (co_require_hosts options) \<noteq> []))"
proof -
  obtain n where n: "normalizeBranchCleanupOptions le options = Inr n" "branchCleanupWithPorts env n = Some (res, cs)"
    using assms by (auto simp: BranchCleanup_def split: sum.split_asm)
  let ?sweep = "cleanup_sweep n (ce_now env)"
  note norm = normalizeBranchCleanupOptions_Inr [OF n(1)]
  obtain entries ds paths rs opts envs where f: "co_apply n"
      "ClassifyFleetBranchesWithPaths (ce_ports env) ?sweep = Some (Inr (entries, ds, paths))"
      "applyBranchCleanup envs (cleanup_plan n ?sweep entries) paths opts = (rs, cs)"
    by (rule branchCleanupWithPorts_commands [OF n(2)]) (use assms(2) in auto)
  obtain r where r: "r \<in> set (cleanup_plan n ?sweep entries)" "cr_eligible r" "args = exact_delete (cr_entry r)"
    using applyBranchCleanup_commands [OF f(3) assms(2)] by blast
  note plan = cleanup_plan_set [OF r(1)]
  have mem: "cr_entry r \<in> set entries" "\<not> ineligible (cr_entry r)"
    using plan(1) plan(2) [OF r(2)] by (auto simp: SortBranchEntries_def deletable_def ineligible_def)
  have sel: "(co_repository n \<noteq> [] \<longrightarrow> be_repository (cr_entry r) = co_repository n) \<and>
      (co_branch n \<noteq> [] \<longrightarrow> be_branch (cr_entry r) = co_branch n) \<and> scope_reads (co_scope n) (be_scope (cr_entry r))"
    using ClassifyFleet_selected [OF f(2) mem] by (simp add: cleanup_sweep_def)
  have age: "co_older_than n \<le> 0 \<or> be_committer_date (cr_entry r) = 0 \<or>
      co_older_than n \<le> time_sub (ce_now env) (be_committer_date (cr_entry r))"
    using plan(2) [OF r(2)] by (simp add: deletable_def Policy_def cleanup_sweep_def)
  have peers: "TrimSpace (co_superseded_by options) \<noteq> [] \<longrightarrow>
      TrimSpace (co_repository options) \<noteq> [] \<and> TrimSpace (co_branch options) \<noteq> [] \<and>
      (ScopeIncludesRemote (co_scope options) \<longrightarrow>
        compactStrings (co_peer_evidence options) \<noteq> [] \<and> compactStrings (co_require_hosts options) \<noteq> [])"
    using norm(10) unfolding flags_consistent_def norm(1,2,6-9) by (auto simp: ScopeIncludesRemote_def scope_defs)
  show ?thesis
    using f(1) norm(1-6) sel age r(3) peers by (intro conjI exI [of _ "cr_entry r"]) auto
qed

definition sample_list_env :: list_env where
  "sample_list_env =
     \<lparr>le_root = \<lambda>root. Inr root, le_branch_error = \<lambda>_ _. None, le_abs = \<lambda>dir. Inr dir, le_temp = Inr ''/t'',
      le_host = ''here'', le_now = 0\<rparr>"

lemma sample_normalized: "normalizeBranchCleanupOptions sample_list_env sample_options = Inr sample_options"
proof -
  have t: "TrimSpace ''a/b'' = ''a/b''" "TrimSpace ''x'' = ''x''" "TrimSpace ''main'' = ''main''" "TrimSpace [] = []"
    by (simp_all add: TrimSpace_printable printable_def)
  have v: "valid_slug ''a/b''" "Clean ''/r'' = ''/r''" "\<not> ScopeIncludesRemote BranchScopeLocal" "compactStrings [] = []"
    by code_simp+
  have "normalizeBranchListOptions sample_list_env (cleanup_list_options sample_options) = Inr (cleanup_list_options sample_options)"
    by (simp add: normalizeBranchListOptions_def cleanup_list_options_def sample_options_def
        sample_list_env_def t v check_selectors_def trimmed_selectors_def BranchScopeLocal_def)
  then show ?thesis
    by (simp add: normalizeBranchCleanupOptions_def cleanup_list_options_def sample_options_def
        sample_list_env_def t v)
qed

theorem BranchCleanup_deletes_only_selected_witness:
  "map_option snd (BranchCleanup sample_list_env sample_coordinator sample_options) = Some [(''/p'', local_delete ''x'' ''a1'')] \<and>
   (\<exists>e. local_delete ''x'' ''a1'' = exact_delete e \<and> be_repository e = ''a/b'' \<and> be_branch e = ''x'')"
proof -
  obtain res where "branchCleanupWithPorts sample_coordinator sample_options = Some (res, [(''/p'', local_delete ''x'' ''a1'')])"
    using sample_run by auto
  then have r: "BranchCleanup sample_list_env sample_coordinator sample_options =
      Some (Inr res, [(''/p'', local_delete ''x'' ''a1'')])"
    by (simp add: BranchCleanup_def sample_normalized)
  have m: "(''/p'', local_delete ''x'' ''a1'') \<in> set [(''/p'', local_delete ''x'' ''a1'')]" by simp
  have t: "TrimSpace ''a/b'' = ''a/b''" "TrimSpace ''x'' = ''x''" by (simp_all add: TrimSpace_printable printable_def)
  have sel: "co_repository sample_options = ''a/b''" "co_branch sample_options = ''x''"
    by (simp_all add: sample_options_def)
  show ?thesis using BranchCleanup_deletes_only_selected [OF r m] r by (auto simp: sel t)
qed

section \<open>The listing of the retired namespace\<close>

text \<open>
  The reference: the listings a repository is asked for, and the rows each of them contributes.
\<close>

definition retired_listings ::
  "inventory_ports \<Rightarrow> (string, string) result \<Rightarrow> string \<Rightarrow> repository \<Rightarrow> (string \<times> bool \<times> string \<times> branch_ref list \<times> string) list" where
  "retired_listings p temp scope repo =
     (if scope = BranchScopeLocal \<or> scope = BranchScopeAll then
        [(BranchScopeLocal, False, ''local refs'', ListRefs p (rp_path repo) ''refs/heads/retired/'' []),
         (BranchScopeLocal, True, ''local tags'', ListRetiredTags p temp (rp_path repo) False True)] else []) @
     (if scope = BranchScopeRemote \<or> scope = BranchScopeAll then
        [(BranchScopeRemote, False, ''remote refs'', ListRetiredRemoteRefs p (rp_path repo)),
         (BranchScopeRemote, True, ''remote tags'', ListRetiredTags p temp (rp_path repo) True True)] else [])"

definition kind_of :: "bool \<Rightarrow> string" where
  "kind_of tag = (if tag then ''tag'' else ''branch'')"

type_synonym retired_row = "string \<times> string \<times> string \<times> string \<times> string \<times> string"

definition retired_row :: "branch_entry \<Rightarrow> retired_row" where
  "retired_row e = (be_repository e, be_branch e, be_sha e, be_scope e, be_ref_kind e, be_disposition e)"

definition listing_rows ::
  "inventory_sweep \<Rightarrow> repository \<Rightarrow> string \<times> bool \<times> string \<times> branch_ref list \<times> string \<Rightarrow> retired_row list" where
  "listing_rows sweep repo l =
     (case l of (scope, tag, label, refs, diagnostic) \<Rightarrow>
      if diagnostic \<noteq> [] then []
      else map (\<lambda>ref. (rp_slug repo, ref_name ref, ref_sha ref, scope, kind_of tag, BranchRetired))
             (filter (RetiredRefSelected (Policy sweep)) refs))"

definition retired_rows ::
  "inventory_ports \<Rightarrow> (string, string) result \<Rightarrow> inventory_sweep \<Rightarrow> repository list \<Rightarrow> retired_row list" where
  "retired_rows p temp sweep repos =
     concat (map (\<lambda>repo. concat (map (listing_rows sweep repo) (retired_listings p temp (sw_scope sweep) repo))) repos)"

definition row_kind :: "string \<Rightarrow> string \<Rightarrow> retired_row \<Rightarrow> bool" where
  "row_kind scope kind row \<longleftrightarrow> (case row of (_, _, _, s, k, _) \<Rightarrow> s = scope \<and> k = kind)"

definition row_name :: "retired_row \<Rightarrow> string" where
  "row_name row = (case row of (repo, name, _) \<Rightarrow> repo @ ''|'' @ name)"

text \<open>The state of the walk, as far as it is determined by the rows seen so far.\<close>

definition accounts_for :: "retired_row list \<Rightarrow> retired_state \<Rightarrow> bool" where
  "accounts_for rows st \<longleftrightarrow>
     map retired_row (rs_entries st) = rows \<and>
     (\<forall>scope. rs_refs st scope = length (filter (row_kind scope ''branch'') rows)) \<and>
     (\<forall>scope. rs_tags st scope = length (filter (row_kind scope ''tag'') rows)) \<and>
     rs_names st = row_name ` {row \<in> set rows. \<exists>scope. row_kind scope ''branch'' row} \<and>
     rs_tag_names st = row_name ` {row \<in> set rows. \<exists>scope. row_kind scope ''tag'' row}"

lemma DecorateBranchCommits_rows [simp]: "map retired_row (DecorateBranchCommits p path es) = map retired_row es"
  by (auto simp: DecorateBranchCommits_def retired_row_def Let_def split: sum.split option.split)

lemma AppendRetired_rows:
  assumes "AppendRetiredRefEntries p repo sweep refs scope (kind_of tag) (es, names) = (es', names', n)"
    and "rows = listing_rows sweep repo (scope, tag, label, refs, [])"
  shows "map retired_row es' = map retired_row es @ rows" "names' = names \<union> row_name ` set rows" "n = length rows"
    "row \<in> set rows \<Longrightarrow> row_kind scope' kind' row \<longleftrightarrow> scope' = scope \<and> kind' = kind_of tag"
  using assms
  by (auto simp: AppendRetiredRefEntries_def Let_def listing_rows_def retired_row_def RetiredBranchEntry_def row_name_def
      row_kind_def image_image)

lemma kind_of_simps [simp]: "kind_of True = ''tag''" "kind_of False = ''branch''"
  by (simp_all add: kind_of_def)

lemma filter_const: "(\<And>x. x \<in> set xs \<Longrightarrow> P x \<longleftrightarrow> b) \<Longrightarrow> filter P xs = (if b then xs else [])"
  by (induction xs) auto

lemma add_retired_accounts:
  assumes "accounts_for rows st"
  shows "accounts_for (rows @ listing_rows sweep repo (scope, tag, label, listing))
           (add_retired p sweep repo scope tag label listing st)"
proof -
  obtain refs d where l: "listing = (refs, d)" by fastforce
  let ?new = "listing_rows sweep repo (scope, tag, label, refs, [])"
  show ?thesis
  proof (cases "d = []")
    case False
    then show ?thesis using assms by (simp add: l add_retired_def accounts_for_def listing_rows_def)
  next
    case True
    obtain es names n where a: "AppendRetiredRefEntries p repo sweep refs scope (kind_of tag)
        (rs_entries st, if tag then rs_tag_names st else rs_names st) = (es, names, n)"
      by (metis surj_pair)
    note a' = AppendRetired_rows [OF a, of ?new label]
    have f: "filter (row_kind s k) ?new = (if s = scope \<and> k = kind_of tag then ?new else [])" for s k
      by (rule filter_const) (use a'(4) in simp)
    have "{row \<in> set ?new. \<exists>s. row_kind s k row} = (if k = kind_of tag then set ?new else {})" for k
      using a'(4) by auto
    then have i: "row_name ` {row. row \<in> set ?new \<and> (\<exists>s. row_kind s k row)} = (if k = kind_of tag then row_name ` set ?new else {})" for k
      by simp
    have "add_retired p sweep repo scope tag label listing st =
        (if tag then st\<lparr>rs_entries := es, rs_tag_names := names, rs_tags := (rs_tags st)(scope := rs_tags st scope + n)\<rparr>
         else st\<lparr>rs_entries := es, rs_names := names, rs_refs := (rs_refs st)(scope := rs_refs st scope + n)\<rparr>)"
      using a by (auto simp: l True add_retired_def kind_of_def)
    then show ?thesis using assms a' f i
      by (auto simp: l True accounts_for_def image_Un Collect_disj_eq conj_disj_distribR)
  qed
qed

lemma retired_of_repository_fold:
  "retired_of_repository p temp sweep st repo =
     foldl (\<lambda>st (scope, tag, label, listing). add_retired p sweep repo scope tag label listing st) st
       (retired_listings p temp (sw_scope sweep) repo)"
  by (simp add: retired_of_repository_def retired_listings_def Let_def)

lemma fold_retired_accounts:
  "accounts_for rows st \<Longrightarrow>
     accounts_for (rows @ concat (map (listing_rows sweep repo) ls))
       (foldl (\<lambda>st (scope, tag, label, listing). add_retired p sweep repo scope tag label listing st) st ls)"
proof (induction ls arbitrary: rows st)
  case (Cons l ls)
  obtain scope tag label listing where l: "l = (scope, tag, label, listing)" by (metis surj_pair)
  from Cons.IH [OF add_retired_accounts [OF Cons.prems, of sweep repo scope tag label listing p]] show ?case by (simp add: l)
qed simp

lemma retired_fold_accounts:
  "accounts_for rows st \<Longrightarrow>
     accounts_for (rows @ retired_rows p temp sweep repos) (foldl (retired_of_repository p temp sweep) st repos)"
proof (induction repos arbitrary: rows st)
  case (Cons repo repos)
  from Cons.IH [OF fold_retired_accounts [OF Cons.prems, of sweep repo "retired_listings p temp (sw_scope sweep) repo" p]]
  show ?case by (simp add: retired_rows_def retired_of_repository_fold)
qed (simp add: retired_rows_def)

section \<open>What could not be read\<close>

definition remote_failed :: "(string \<times> bool \<times> string \<times> branch_ref list \<times> string) list \<Rightarrow> bool" where
  "remote_failed ls \<longleftrightarrow> (\<exists>(scope, tag, label, refs, diagnostic) \<in> set ls. scope = BranchScopeRemote \<and> diagnostic \<noteq> [])"

lemma add_retired_unavailable:
  "rs_remote_unavailable (add_retired p sweep repo scope tag label listing st) \<longleftrightarrow>
     rs_remote_unavailable st \<or> scope = BranchScopeRemote \<and> snd listing \<noteq> []"
  by (auto simp: add_retired_def split: prod.split)

lemma fold_retired_unavailable:
  "rs_remote_unavailable (foldl (\<lambda>st (scope, tag, label, listing). add_retired p sweep repo scope tag label listing st) st ls) \<longleftrightarrow>
     rs_remote_unavailable st \<or> remote_failed ls"
  by (induction ls arbitrary: st) (auto simp: add_retired_unavailable remote_failed_def)

lemma retired_fold_unavailable:
  "rs_remote_unavailable (foldl (retired_of_repository p temp sweep) st repos) \<longleftrightarrow>
     rs_remote_unavailable st \<or> (\<exists>repo \<in> set repos. remote_failed (retired_listings p temp (sw_scope sweep) repo))"
  by (induction repos arbitrary: st) (auto simp: retired_of_repository_fold fold_retired_unavailable)

text \<open>
  the listing of the retired namespace shows exactly the retired refs. Its rows are, up to
  order, those of the reference: every ref in \<^verbatim>\<open>retired/*\<close> that a successful listing of a selected
  repository returned and that the name and age selectors admit, once per listing. The counts of
  refs and tags per scope and the numbers of distinct names are those of the rows shown, and the
  outcome says that a remote was unavailable exactly when a remote listing failed. No row shown
  is ever planned for deletion.
\<close>

theorem retired_listing_exact:
  assumes "selected_repositories p sweep (''discover repositories below '' @ sw_projects_root sweep @ '': '') = Inr repos"
    and "sw_only sweep = [] \<or> sw_only sweep = BranchRetired"
    and "rows = retired_rows p (le_temp env) sweep repos"
  shows "\<exists>out. InventoryRetiredNamespace env p sweep = Inr out \<and>
    mset (map retired_row (lu_entries out)) = mset rows \<and>
    (\<forall>scope. lu_retired_refs out scope = length (filter (row_kind scope ''branch'') rows) \<and>
       lu_retired_tags out scope = length (filter (row_kind scope ''tag'') rows)) \<and>
    lu_retired_branches out = card (row_name ` {row \<in> set rows. \<exists>scope. row_kind scope ''branch'' row}) \<and>
    lu_retired_tag_names out = card (row_name ` {row \<in> set rows. \<exists>scope. row_kind scope ''tag'' row}) \<and>
    (lu_retired_remote_unavailable out \<longleftrightarrow>
       (\<exists>repo \<in> set repos. remote_failed (retired_listings p (le_temp env) (sw_scope sweep) repo))) \<and>
    (\<forall>e \<in> set (lu_entries out). \<not> deletable (lu_entries out) (Policy sweep) e)"
proof -
  define start where "start = no_retired [''retired namespace inventory skipped fetch of origin/'' @ sw_base sweep]"
  define st where "st = foldl (retired_of_repository p (le_temp env) sweep) start repos"
  let ?out = "build_outcome env sweep (SortBranchEntries (rs_entries st)) st"
  have out: "InventoryRetiredNamespace env p sweep = Inr ?out"
    using assms(1,2) by (auto simp: InventoryRetiredNamespace_def Let_def start_def st_def)
  have "accounts_for [] start" by (simp add: accounts_for_def start_def no_retired_def)
  from retired_fold_accounts [OF this] have a: "accounts_for rows st" by (simp add: st_def assms(3))
  have u: "rs_remote_unavailable st \<longleftrightarrow> (\<exists>repo \<in> set repos. remote_failed (retired_listings p (le_temp env) (sw_scope sweep) repo))"
    by (simp add: st_def retired_fold_unavailable start_def no_retired_def)
  have rows: "map retired_row (rs_entries st) = rows" using a by (simp add: accounts_for_def)
  have "be_disposition e = BranchRetired" if "e \<in> set (rs_entries st)" for e
  proof -
    have "retired_row e \<in> set rows" using that rows by auto
    then show ?thesis by (auto simp: assms(3) retired_rows_def listing_rows_def retired_row_def split: prod.splits if_splits)
  qed
  then have "\<forall>e \<in> set (rs_entries st). \<not> deletable (SortBranchEntries (rs_entries st)) (Policy sweep) e"
    using retired_not_deletable by blast
  moreover have "mset (map retired_row (SortBranchEntries (rs_entries st))) = mset rows"
    by (simp add: SortBranchEntries_def flip: rows)
  ultimately show ?thesis
    using out a u by (intro exI [of _ ?out]) (simp add: build_outcome_def accounts_for_def SortBranchEntries_def)
qed

text \<open>A repository with one retired branch whose remote cannot be reached.\<close>

definition retired_git :: "string \<Rightarrow> string list \<Rightarrow> (string, string) result" where
  "retired_git path args =
     (if args ! 0 \<noteq> ''for-each-ref'' then Inl ''offline''
      else if args ! 2 = ''refs/heads/retired/'' then Inr (''retired/x'' @ US # ''a1'' @ US # ''t'') else Inr [])"

definition retired_ports :: inventory_ports where
  "retired_ports = sample_ports\<lparr>p_Git := retired_git\<rparr>"

definition retired_sweep :: inventory_sweep where
  "retired_sweep = sample_sweep\<lparr>sw_scope := BranchScopeAll, sw_only := BranchRetired\<rparr>"

lemma retired_sample:
  "selected_repositories retired_ports retired_sweep (''discover repositories below '' @ sw_projects_root retired_sweep @ '': '') =
     Inr [\<lparr>rp_slug = ''a/b'', rp_path = ''/p''\<rparr>]"
  "retired_rows retired_ports (Inr ''/t'') retired_sweep [\<lparr>rp_slug = ''a/b'', rp_path = ''/p''\<rparr>] =
     [(''a/b'', ''retired/x'', ''a1'', BranchScopeLocal, ''branch'', BranchRetired)]"
  "remote_failed (retired_listings retired_ports (Inr ''/t'') (sw_scope retired_sweep) \<lparr>rp_slug = ''a/b'', rp_path = ''/p''\<rparr>)"
  by code_simp+

theorem retired_listing_exact_witness:
  "\<exists>out. InventoryRetiredNamespace sample_list_env retired_ports retired_sweep = Inr out \<and>
     map retired_row (lu_entries out) = [(''a/b'', ''retired/x'', ''a1'', BranchScopeLocal, ''branch'', BranchRetired)] \<and>
     lu_retired_refs out BranchScopeLocal = 1 \<and> lu_retired_remote_unavailable out"
proof -
  let ?row = "(''a/b'', ''retired/x'', ''a1'', BranchScopeLocal, ''branch'', BranchRetired)"
  have only: "sw_only retired_sweep = [] \<or> sw_only retired_sweep = BranchRetired" by (simp add: retired_sweep_def)
  have t: "le_temp sample_list_env = Inr ''/t''" by (simp add: sample_list_env_def)
  obtain out where out: "InventoryRetiredNamespace sample_list_env retired_ports retired_sweep = Inr out"
      "mset (map retired_row (lu_entries out)) = mset [?row]"
      "lu_retired_refs out BranchScopeLocal = length (filter (row_kind BranchScopeLocal ''branch'') [?row])"
      "lu_retired_remote_unavailable out"
  proof -
    have "remote_failed (retired_listings retired_ports (le_temp sample_list_env) (sw_scope retired_sweep)
        \<lparr>rp_slug = ''a/b'', rp_path = ''/p''\<rparr>)"
      unfolding t by (rule retired_sample(3))
    then show thesis
      using retired_listing_exact [OF retired_sample(1) only refl, of sample_list_env] that
      unfolding t retired_sample(2) by (elim exE conjE) (simp del: mset.simps filter.simps)
  qed
  from out(2) have "map retired_row (lu_entries out) = [?row]" by (simp only: mset.simps mset_single_iff)
  with out show ?thesis by (simp add: row_kind_def)
qed

end
