(* ===== verification/Repo_Path_Props.thy ===== *)
theory Repo_Path_Props
  imports Repo_Path
begin

text \<open>
  Correctness of clone addresses and checkout paths: the round trips between an address, its
  relative form, its path below a projects root and its clone URL; that an existing clone is
  never bypassed and an ambiguous coordinate never resolved; and that the checkouts of different
  tasks and repositories never share a path.
\<close>

section \<open>Segments\<close>

definition good_segment :: "string \<Rightarrow> bool" where
  "good_segment s \<longleftrightarrow> plain_segment s \<and> CHR ''/'' \<notin> set s"

lemma safe_segment_loop_iff:
  "safe_segment_loop first r s \<longleftrightarrow> list_all segment_char s \<and>
     (first \<and> s \<noteq> [] \<longrightarrow> is_letter (hd s) \<or> is_dec (hd s) \<or> r \<and> hd s = CHR ''.'')"
proof (induction s arbitrary: first)
  case (Cons c cs)
  have "is_dec c \<longleftrightarrow> CHR ''0'' \<le> c \<and> c \<le> CHR ''9''" by (simp add: is_dec_def)
  then show ?case
    by (simp only: safe_segment_loop.simps Let_def Cons.IH list.pred_inject list.sel segment_char_def simp_thms
        split: if_split) blast
qed simp

text \<open>The packages \<^verbatim>\<open>repopath\<close> and \<^verbatim>\<open>gitremote\<close> accept the same segments.\<close>

lemma SafeSegment_eq: "SafeSegment s r = safeSegment s r"
  by (auto simp: SafeSegment_def safeSegment_def safe_segment_loop_iff)

lemma SafeSegment_good: "SafeSegment s r \<Longrightarrow> good_segment s \<and> list_all plain_char s"
proof -
  assume "SafeSegment s r"
  then have a: "s \<noteq> []" "s \<noteq> ''.''" "s \<noteq> ''..''" "list_all segment_char s"
    unfolding SafeSegment_eq safeSegment_def by (simp_all split: if_split_asm)
  moreover have "\<not> segment_char (CHR ''/'')" by (simp add: char_class_defs)
  ultimately show ?thesis using segment_plain(1) unfolding good_segment_def plain_segment_def list_all_iff by blast
qed

lemma validHostLabel_label: "validHostLabel l \<Longrightarrow> host_label l"
  by (auto simp: validHostLabel_def host_label_def split: if_split_asm)

lemma host_chars_printable: "list_all host_char h \<Longrightarrow> TrimSpace h = h"
  using host_char_segment segment_plain(1) plain_char_facts(1)
  by (intro TrimSpace_printable) (auto simp: list_all_iff)

lemma host_labels_validHost:
  assumes "host_labels_ok h"
  shows "validHost h"
proof -
  have l: "list_all host_label (Split h (CHR ''.''))"
    using assms validHostLabel_label by (auto simp: host_labels_ok_def Let_def list_all_iff)
  then have c: "list_all host_char h"
    by (auto simp: list_all_iff host_label_def host_char_def dest: Split_chars [where b = "CHR ''.''"])
  have bad: "\<not> host_char (CHR ''@'')" "\<not> host_char (CHR ''/'')" "\<not> host_char (CHR 0x5C)"
    by (simp_all add: char_class_defs)
  then have "\<not> list_ex (\<lambda>c. c = CHR ''@'' \<or> c = CHR ''/'' \<or> c = CHR 0x5C) h"
    using c by (auto simp: list_all_iff list_ex_iff)
  moreover have "h \<noteq> []" using assms by (auto simp: host_labels_ok_def)
  ultimately show ?thesis using l host_chars_printable [OF c] by (simp add: validHost_def)
qed

lemma IsForgeHost_parts:
  assumes "IsForgeHost name"
  obtains h port where "name = host_port h port" "host_labels_ok h" "port = [] \<or> validPort port" "list_all is_dec port"
proof (cases "cut_last name (CHR '':'')")
  case None
  then show ?thesis using assms that [of name "[]"] by (auto simp: IsForgeHost_def host_port_def split: if_split_asm)
next
  case (Some p)
  obtain h port where p: "p = (h, port)" by (cases p)
  then have "name = h @ CHR '':'' # port" "validPort port" "host_labels_ok h"
    using Some assms cut_last_Some [of name "CHR '':''" h port] by (auto simp: IsForgeHost_def split: if_split_asm)
  then show ?thesis using that [of h port] by (auto simp: host_port_def validPort_def split: if_split_asm)
qed

lemma IsForgeHost_good:
  assumes "IsForgeHost name"
  shows "good_segment name" "list_all remote_char name"
proof -
  obtain h port where n: "name = host_port h port" "validHost h" "list_all is_dec port"
    using IsForgeHost_parts [OF assms] host_labels_validHost by metis
  then have a: "address_parts h port []" by (simp add: address_parts_def)
  then show r: "list_all remote_char name" using remote_char_parts(2) n(1) by simp
  have "validHost h \<Longrightarrow> CHR ''/'' \<notin> set h" by (auto simp: validHost_def list_ex_iff split: if_split_asm)
  moreover have "\<not> is_dec (CHR ''/'')" by (simp add: char_class_defs)
  ultimately have "CHR ''/'' \<notin> set name" using n by (auto simp: host_port_def list_all_iff split: if_split_asm)
  moreover have "name \<noteq> []" using assms by (auto simp: IsForgeHost_def)
  moreover have "\<not> IsForgeHost ''.''" "\<not> IsForgeHost ''..''"
    by (simp_all add: IsForgeHost_def host_labels_ok_def validHostLabel_def cut_last_def)
  ultimately show "good_segment name" using assms by (auto simp: good_segment_def plain_segment_def)
qed

section \<open>Absolute paths as lists of elements\<close>

definition abs_path :: "string list \<Rightarrow> string" where
  "abs_path segs = CHR ''/'' # Join segs ''/''"

lemma path_elems_good: "good_segment s \<Longrightarrow> path_elems s = [s]"
  by (simp add: path_elems_def good_segment_def plain_segment_def Split_no_sep)

lemma path_elems_Nil [simp]: "path_elems [] = []"
  by (simp add: path_elems_def)

lemma path_elems_slash: "path_elems (s @ CHR ''/'' # t) = path_elems s @ path_elems t"
  by (simp add: path_elems_def Split_append)

lemma path_elems_Join: "path_elems (Join ws ''/'') = concat (map path_elems ws)"
proof (induction ws)
  case (Cons w ws)
  then show ?case using path_elems_slash [of w "Join ws ''/''"] by (cases "ws = []") (simp_all add: Join_Cons)
qed simp

lemma path_elems_goods: "list_all good_segment ws \<Longrightarrow> concat (map path_elems ws) = ws"
  by (induction ws) (simp_all add: path_elems_good)

lemma path_elems_abs: "list_all good_segment segs \<Longrightarrow> path_elems (abs_path segs) = segs"
  using path_elems_slash [of "[]" "Join segs ''/''"] by (simp add: abs_path_def path_elems_Join path_elems_goods)

lemma abs_path_inj: "list_all good_segment xs \<Longrightarrow> list_all good_segment ys \<Longrightarrow> abs_path xs = abs_path ys \<longleftrightarrow> xs = ys"
  by (metis path_elems_abs)

lemma clean_segments_elems: "clean_segments r out ss = clean_segments r out (filter (\<lambda>s. s \<noteq> []) ss)"
  by (induction r out ss rule: clean_segments.induct) (auto split: list.split)

lemma Clean_abs: "Clean (CHR ''/'' # p) = abs_path (clean_segments True [] (path_elems p))"
  using clean_segments_elems [of True "[]" "Split p (CHR ''/'')"]
  by (simp add: Clean_def IsAbs_def HasPrefix_def abs_path_def path_elems_def)

lemma clean_segments_good:
  assumes "list_all good_segment out" "\<forall>s \<in> set ss. CHR ''/'' \<notin> set s"
  shows "list_all good_segment (clean_segments True out ss)"
  using assms
proof (induction True out ss rule: clean_segments.induct)
  case (2 out s ss)
  then show ?case by (auto simp: good_segment_def plain_segment_def split: list.split)
qed (simp add: list_all_iff)

lemma path_elems_no_slash: "s \<in> set (path_elems p) \<Longrightarrow> CHR ''/'' \<notin> set s"
  using Split_parts_no_sep by (auto simp: path_elems_def)

text \<open>A root in the form \<^verbatim>\<open>filepath.Clean\<close> gives.\<close>

definition clean_root :: "string \<Rightarrow> bool" where
  "clean_root root \<longleftrightarrow> IsAbs root \<and> Clean root = root"

lemma clean_root_elems:
  assumes "clean_root root"
  obtains rs where "list_all good_segment rs" "root = abs_path rs"
proof -
  obtain p where p: "root = CHR ''/'' # p" using assms by (auto simp: clean_root_def IsAbs_def HasPrefix_iff)
  then have "root = abs_path (clean_segments True [] (path_elems p))" using assms Clean_abs by (simp add: clean_root_def)
  then show ?thesis using that clean_segments_good [of "[]" "path_elems p"] path_elems_no_slash by auto
qed

lemma Clean_abs_path: "list_all good_segment segs \<Longrightarrow> Clean (abs_path segs) = abs_path segs"
proof -
  assume g: "list_all good_segment segs"
  then have "list_all plain_segment segs" by (auto simp: list_all_iff good_segment_def)
  then show ?thesis using g Clean_abs [of "Join segs ''/''"] clean_segments_plain [of segs True "[]"]
    by (simp add: abs_path_def path_elems_Join path_elems_goods)
qed

lemma filepath_Join_abs:
  assumes "list_all good_segment rs" "list_all good_segment (concat (map path_elems ws))"
  shows "filepath_Join (abs_path rs # ws) = abs_path (rs @ concat (map path_elems ws))"
proof -
  let ?all = "rs @ concat (map path_elems ws)"
  have e: "path_elems (Join (abs_path rs # ws) ''/'') = ?all"
    using path_elems_Join [of "abs_path rs # ws"] path_elems_abs [OF assms(1)] by simp
  obtain p where p: "Join (abs_path rs # ws) ''/'' = CHR ''/'' # p"
    by (cases ws) (simp_all add: abs_path_def)
  have "path_elems p = ?all" using e path_elems_slash [of "[]" p] p by simp
  moreover have "list_all plain_segment ?all" using assms by (auto simp: list_all_iff good_segment_def)
  ultimately have "Clean (CHR ''/'' # p) = abs_path ?all" using clean_segments_plain [of ?all True "[]"] Clean_abs [of p] by simp
  then show ?thesis using p by (simp add: filepath_Join_def abs_path_def)
qed

lemma drop_common_prefix: "drop_common xs (xs @ ys) = ([], ys)"
  by (induction xs) simp_all

lemma Rel_abs:
  assumes "list_all good_segment rs" "list_all good_segment ts" "ts \<noteq> []"
  shows "Rel (abs_path rs) (abs_path (rs @ ts)) = Some (Join ts ''/'')"
proof -
  have g: "list_all good_segment (rs @ ts)" using assms by simp
  have "abs_path (rs @ ts) \<noteq> abs_path rs" using abs_path_inj [OF g assms(1)] assms(3) by simp
  moreover have "IsAbs (abs_path xs)" "abs_path xs \<noteq> ''.''" for xs by (simp_all add: abs_path_def IsAbs_def HasPrefix_def)
  ultimately show ?thesis
    using Clean_abs_path [OF assms(1)] Clean_abs_path [OF g] path_elems_abs [OF assms(1)] path_elems_abs [OF g]
    by (simp add: Rel_def drop_common_prefix)
qed

section \<open>Addresses\<close>

definition canonical_address :: "address \<Rightarrow> bool" where
  "canonical_address a \<longleftrightarrow> IsForgeHost (ad_host a) \<and> SafeSegment (ad_org a) False \<and> SafeSegment (ad_repo a) True"

definition legacy_address :: "address \<Rightarrow> bool" where
  "legacy_address a \<longleftrightarrow> ad_host a = [] \<and> SafeSegment (ad_org a) False \<and> SafeSegment (ad_repo a) True"

definition address_elems :: "address \<Rightarrow> string list" where
  "address_elems a = (if ad_host a = [] then [ad_org a, ad_repo a] else [ad_host a, ad_org a, ad_repo a])"

lemma IsForgeHost_Nil [simp]: "\<not> IsForgeHost []"
  by (simp add: IsForgeHost_def)

lemma address_elems_good:
  "canonical_address a \<or> legacy_address a \<Longrightarrow> list_all good_segment (address_elems a)"
  by (auto simp: canonical_address_def legacy_address_def address_elems_def SafeSegment_good IsForgeHost_good)

lemma Relative_elems: "Relative a = Join (address_elems a) ''/''"
  by (simp add: Relative_def address_elems_def)

lemma Relative_chars: "canonical_address a \<or> legacy_address a \<Longrightarrow> list_all remote_char (Relative a)"
  using SafeSegment_good [of "ad_org a" False] SafeSegment_good [of "ad_repo a" True] IsForgeHost_good(2) [of "ad_host a"]
  by (auto simp: canonical_address_def legacy_address_def Relative_def list_all_iff plain_char_def [of "CHR ''/''"])

lemma remote_chars_TrimSpace: "list_all remote_char s \<Longrightarrow> TrimSpace s = s"
  using plain_char_facts(1) by (intro TrimSpace_printable) (auto simp: list_all_iff printable_def)

lemma TrimSet_ends:
  assumes "s \<noteq> []" "hd s \<notin> set cs" "last s \<notin> set cs"
  shows "TrimSet cs s = s"
proof -
  have "dropWhile (\<lambda>c. c \<in> set cs) s = s" using assms by (cases s) auto
  moreover have "dropWhile (\<lambda>c. c \<in> set cs) (rev s) = rev s"
    using assms by (cases s rule: rev_cases) auto
  ultimately show ?thesis by (simp add: TrimSet_def trim_by_def)
qed

lemma Join_good_ends:
  assumes "list_all good_segment ws" "ws \<noteq> []"
  shows "Join ws ''/'' \<noteq> []" "hd (Join ws ''/'') \<noteq> CHR ''/''" "last (Join ws ''/'') \<noteq> CHR ''/''"
proof -
  have "Join ws ''/'' \<noteq> [] \<and> hd (Join ws ''/'') \<noteq> CHR ''/'' \<and> last (Join ws ''/'') \<noteq> CHR ''/''"
    using assms
  proof (induction ws)
    case (Cons w ws)
    have w: "w \<noteq> []" "hd w \<noteq> CHR ''/''" "last w \<noteq> CHR ''/''"
      using Cons.prems hd_in_set [of w] last_in_set [of w]
      unfolding list.pred_inject good_segment_def plain_segment_def by metis+
    then show ?case using Cons by (cases "ws = []") (auto simp: Join_Cons)
  qed simp
  then show "Join ws ''/'' \<noteq> []" "hd (Join ws ''/'') \<noteq> CHR ''/''" "last (Join ws ''/'') \<noteq> CHR ''/''" by simp_all
qed

lemma Split_Relative:
  "canonical_address a \<or> legacy_address a \<Longrightarrow> Split (Relative a) (CHR ''/'') = address_elems a"
  unfolding Relative_elems using address_elems_good [of a]
  by (intro Split_Join) (auto simp: list_all_iff good_segment_def address_elems_def)

lemma TrimSet_Relative:
  assumes "canonical_address a \<or> legacy_address a"
  shows "TrimSet ''/'' (Relative a) = Relative a"
proof -
  have "address_elems a \<noteq> []" by (simp add: address_elems_def)
  note j = Join_good_ends [OF address_elems_good [OF assms] this]
  show ?thesis unfolding Relative_elems using j by (intro TrimSet_ends) simp_all
qed

lemma length3: "length xs = 3 \<longleftrightarrow> (\<exists>a b c. xs = [a, b, c])"
  by (auto simp: numeral_3_eq_3 length_Suc_conv)

lemma length2: "length xs = 2 \<longleftrightarrow> (\<exists>a b. xs = [a, b])"
  by (auto simp: numeral_2_eq_2 length_Suc_conv)

lemma ParseRelative_iff:
  "ParseRelative r = Inr a \<longleftrightarrow> canonical_address a \<and> TrimSet ''/'' (TrimSpace r) = Relative a"
proof
  let ?t = "TrimSet ''/'' (TrimSpace r)"
  assume p: "ParseRelative r = Inr a"
  then obtain x y z where s: "Split ?t (CHR ''/'') = [x, y, z]" "a = \<lparr>ad_host = x, ad_org = y, ad_repo = z\<rparr>" "canonical_address a"
    by (auto simp: ParseRelative_def Let_def length3 canonical_address_def split: if_split_asm)
  then have "ad_host a \<noteq> []" by (auto simp: canonical_address_def)
  then have "?t = Relative a" using Join_Split [of ?t "CHR ''/''"] s(1,2) by (simp add: Relative_def)
  then show "canonical_address a \<and> ?t = Relative a" using s(3) by simp
next
  assume "canonical_address a \<and> TrimSet ''/'' (TrimSpace r) = Relative a"
  then show "ParseRelative r = Inr a"
    using Split_Relative [of a] by (auto simp: ParseRelative_def canonical_address_def address_elems_def)
qed

lemma ParseRelative_Relative: "canonical_address a \<Longrightarrow> ParseRelative (Relative a) = Inr a"
  using ParseRelative_iff remote_chars_TrimSpace Relative_chars TrimSet_Relative by simp

lemma address_Path_elems:
  assumes "list_all good_segment rs" "canonical_address a \<or> legacy_address a"
  shows "address_Path a (abs_path rs) = abs_path (rs @ address_elems a)"
proof -
  have "concat (map path_elems [ad_host a, ad_org a, ad_repo a]) = address_elems a"
    using address_elems_good [OF assms(2)] by (auto simp: address_elems_def path_elems_good)
  then show ?thesis
    using filepath_Join_abs [OF assms(1), of "[ad_host a, ad_org a, ad_repo a]"] address_elems_good [OF assms(2)]
    by (simp add: address_Path_def)
qed

lemma Rel_address:
  assumes "clean_root root" "canonical_address a \<or> legacy_address a"
  shows "Rel root (address_Path a root) = Some (Relative a)"
proof -
  obtain rs where rs: "list_all good_segment rs" "root = abs_path rs" using clean_root_elems [OF assms(1)] .
  have "address_elems a \<noteq> []" by (simp add: address_elems_def)
  then show ?thesis
    using Rel_abs [OF rs(1) address_elems_good [OF assms(2)]] address_Path_elems [OF rs(1) assms(2)] rs(2)
    by (simp add: Relative_elems)
qed

lemma Relative_below:
  assumes "canonical_address a \<or> legacy_address a"
  shows "Relative a \<noteq> ''..''" "\<not> HasPrefix (Relative a) ''../''"
proof -
  obtain w ws where e: "address_elems a = w # ws" "ws \<noteq> []"
    by (cases "ad_host a = []") (simp_all add: address_elems_def)
  have w: "CHR ''/'' \<notin> set w" "w \<noteq> ''..''" using address_elems_good [OF assms] e by (simp_all add: good_segment_def plain_segment_def)
  have r: "Relative a = w @ CHR ''/'' # Join ws ''/''" using e by (simp add: Relative_elems Join_Cons)
  then have t: "takeWhile (\<lambda>c. c \<noteq> CHR ''/'') (Relative a) = w" using w(1) by (simp add: takeWhile_append)
  show "\<not> HasPrefix (Relative a) ''../''"
  proof
    assume "HasPrefix (Relative a) ''../''"
    then obtain z where "Relative a = ''../'' @ z" by (auto simp: HasPrefix_iff)
    then have "w = ''..''" using t by simp
    then show False using w(2) by simp
  qed
  show "Relative a \<noteq> ''..''"
  proof
    assume "Relative a = ''..''"
    then have "CHR ''/'' \<in> set ''..''" using r by (metis in_set_conv_decomp)
    then show False by simp
  qed
qed

lemma FromLocalPath_address:
  "clean_root root \<Longrightarrow> canonical_address a \<Longrightarrow> FromLocalPath root (address_Path a root) = Inr a"
  using Rel_address Relative_below ParseRelative_Relative by (simp add: FromLocalPath_def)

lemma SplitRepositoryAddress_Relative:
  assumes "canonical_address a \<or> legacy_address a"
  shows "SplitRepositoryAddress (Relative a) = Inr a"
proof -
  note s = remote_chars_TrimSpace [OF Relative_chars [OF assms]] Split_Relative [OF assms]
  show ?thesis
  proof (cases "ad_host a = []")
    case True
    then have "legacy_address a" using assms by (auto simp: canonical_address_def)
    then show ?thesis using s True
      by (simp add: SplitRepositoryAddress_def address_elems_def legacy_address_def ValidSafeSegment_def ValidRepositorySegment_def)
  next
    case False
    then have "canonical_address a" using assms by (auto simp: legacy_address_def)
    then show ?thesis using s False ParseRelative_Relative by (simp add: SplitRepositoryAddress_def address_elems_def)
  qed
qed

lemma length_Split: "length (Split s b) = Suc (count_list s b)"
proof (induction s)
  case (Cons c s)
  obtain w ws where "Split s b = w # ws" by (cases "Split s b") simp_all
  with Cons show ?case by auto
qed simp

lemma TrimSet_split: "\<exists>u v. s = u @ TrimSet cs s @ v \<and> set u \<subseteq> set cs \<and> set v \<subseteq> set cs"
proof -
  let ?P = "\<lambda>c. c \<in> set cs" and ?d = "dropWhile (\<lambda>c. c \<in> set cs) s"
  have "s = takeWhile ?P s @ TrimSet cs s @ rev (takeWhile ?P (rev ?d))"
    by (metis TrimSet_def rev_append rev_rev_ident takeWhile_dropWhile_id trim_by_def)
  moreover have "set (takeWhile ?P s) \<subseteq> set cs" "set (takeWhile ?P (rev ?d)) \<subseteq> set cs"
    using set_takeWhileD by fastforce+
  ultimately show ?thesis by (metis set_rev)
qed

lemma count_list_all: "set u \<subseteq> {b} \<Longrightarrow> count_list u b = length u"
  by (induction u) auto

lemma TrimSet_same_parts:
  assumes "length (Split (TrimSet [b] s) b) = length (Split s b)"
  shows "TrimSet [b] s = s"
proof -
  obtain u v where s: "s = u @ TrimSet [b] s @ v" "set u \<subseteq> {b}" "set v \<subseteq> {b}"
    using TrimSet_split [of s "[b]"] by auto
  have "count_list s b = length u + count_list (TrimSet [b] s) b + length v"
    using arg_cong [OF s(1), of "\<lambda>x. count_list x b"] s(2,3) by (simp add: count_list_all)
  then show ?thesis using assms s(1) by (simp add: length_Split)
qed

lemma SplitRepositoryAddress_Inr:
  assumes "SplitRepositoryAddress r = Inr a"
  shows "(canonical_address a \<or> legacy_address a) \<and> r = Relative a"
proof -
  have sp: "TrimSpace r = r" using assms by (simp add: SplitRepositoryAddress_def split: if_split_asm)
  have j: "Join (Split r (CHR ''/'')) ''/'' = r" by (rule Join_Split)
  consider x y where "Split r (CHR ''/'') = [x, y]" | x y z where "Split r (CHR ''/'') = [x, y, z]" "ParseRelative r = Inr a"
    using assms by (auto simp: SplitRepositoryAddress_def Let_def length2 length3 split: if_split_asm)
  then show ?thesis
  proof cases
    case 1
    then have "a = \<lparr>ad_host = [], ad_org = x, ad_repo = y\<rparr>" "legacy_address a"
      using assms by (auto simp: SplitRepositoryAddress_def Let_def legacy_address_def ValidSafeSegment_def ValidRepositorySegment_def
          split: if_split_asm)
    then show ?thesis using j 1 by (simp add: Relative_def)
  next
    case 2
    then have c: "canonical_address a" "TrimSet ''/'' r = Relative a" using ParseRelative_iff sp by simp_all
    have h: "ad_host a \<noteq> []" using c(1) by (auto simp: canonical_address_def)
    have "TrimSet ''/'' r = r"
    proof (rule TrimSet_same_parts)
      show "length (Split (TrimSet ''/'' r) (CHR ''/'')) = length (Split r (CHR ''/''))"
        using 2(1) Split_Relative [of a] c h by (simp add: address_elems_def)
    qed
    then show ?thesis using c by simp
  qed
qed

lemma CanonicalCoordinates_address:
  assumes "clean_root root" "canonical_address a \<or> legacy_address a"
  shows "CanonicalCoordinates root (address_Path a root) = Inr (ad_host a, ad_org a, ad_repo a)"
proof -
  let ?b = "\<lparr>ad_host = [], ad_org = ad_org a, ad_repo = ad_repo a\<rparr>"
  have "legacy_address ?b" using assms(2) by (auto simp: legacy_address_def canonical_address_def)
  then have "SplitRepository (Relative ?b) = Inr (ad_org a, ad_repo a)"
    using SplitRepositoryAddress_Relative [of ?b] by (simp add: SplitRepository_def)
  then have b: "SplitRepository (Join [ad_org a, ad_repo a] ''/'') = Inr (ad_org a, ad_repo a)"
    by (simp add: Relative_def)
  note r = Rel_address [OF assms] Split_Relative [OF assms(2)]
  show ?thesis
  proof (cases "ad_host a = []")
    case True
    then show ?thesis using r b by (simp add: CanonicalCoordinates_def address_elems_def)
  next
    case False
    then have "IsForgeHost (ad_host a)" using assms(2) by (auto simp: legacy_address_def canonical_address_def)
    then show ?thesis using r b False by (simp add: CanonicalCoordinates_def address_elems_def)
  qed
qed

section \<open>Clone URLs\<close>

lemma lower_char_classes:
  "is_letter c \<Longrightarrow> is_letter (lower_char c)" "is_dec c \<Longrightarrow> lower_char c = c"
  "lower_char (CHR ''-'') = CHR ''-''" "lower_char (CHR ''.'') = CHR ''.''"
  by (simp_all add: lower_char_def is_letter_def is_dec_def less_eq_char_def of_char_char_of_nat)

lemma lower_char_fixed: "(of_char b :: nat) < 65 \<Longrightarrow> lower_char c = b \<longleftrightarrow> c = b"
  by (auto simp: lower_char_def of_char_char_of_nat)

lemma Split_map:
  assumes "\<And>c. f c = b \<longleftrightarrow> c = b"
  shows "Split (map f s) b = map (map f) (Split s b)"
proof (induction s)
  case (Cons c s)
  obtain w ws where "Split s b = w # ws" by (cases "Split s b") simp_all
  with Cons show ?case by (simp add: assms)
qed simp

lemma validHostLabel_lower:
  assumes "validHostLabel l"
  shows "validHostLabel (map lower_char l)"
proof -
  have d: "lower_char c = CHR ''-'' \<longleftrightarrow> c = CHR ''-''" for c by (rule lower_char_fixed) simp
  have p: "HasPrefix (map lower_char l) ''-'' = HasPrefix l ''-''" using d by (cases l) (simp_all add: HasPrefix_def)
  have q: "HasSuffix (map lower_char l) ''-'' = HasSuffix l ''-''"
    using d by (cases l rule: rev_cases) (simp_all add: HasSuffix_def)
  have "is_letter (lower_char c) \<or> is_dec (lower_char c) \<or> lower_char c = CHR ''-''"
    if "is_letter c \<or> is_dec c \<or> c = CHR ''-''" for c
    using that lower_char_classes(1,2) [of c] lower_char_classes(3) by (elim disjE) simp_all
  then show ?thesis using assms p q unfolding validHostLabel_def
    by (simp add: list_all_iff split: if_split_asm)
qed

lemma host_labels_lower:
  assumes "host_labels_ok h"
  shows "host_labels_ok (map lower_char h)"
proof -
  have "lower_char c = CHR ''.'' \<longleftrightarrow> c = CHR ''.''" for c by (rule lower_char_fixed) simp
  then have s: "Split (map lower_char h) (CHR ''.'') = map (map lower_char) (Split h (CHR ''.''))" by (rule Split_map)
  then show ?thesis using assms validHostLabel_lower lower_char_classes(1) unfolding host_labels_ok_def s Let_def
    by (simp add: list_all_iff last_map)
qed

lemma IsForgeHost_host_port:
  assumes "host_labels_ok h" "port = [] \<or> validPort port" "length (host_port h port) \<le> 253"
  shows "IsForgeHost (host_port h port)"
proof -
  have v: "validHost h" using assms(1) by (rule host_labels_validHost)
  have p: "list_all is_dec port" using assms(2) by (auto simp: validPort_def split: if_split_asm)
  have a: "address_parts h port []" using v p by (simp add: address_parts_def)
  have t: "TrimSpace (host_port h port) = host_port h port" using remote_chars_TrimSpace remote_char_parts(2) [OF a] by simp
  have h: "list_all host_char h" "h \<noteq> []" using validHost_chars [OF v] by simp_all
  have "\<not> host_char (CHR '':'')" "\<not> is_dec (CHR '':'')" by (simp_all add: char_class_defs)
  then have n: "CHR '':'' \<notin> set h" "CHR '':'' \<notin> set port" using h(1) p by (auto simp: list_all_iff)
  show ?thesis
    using assms t h(2) n cut_last_append [of "CHR '':''" port h] cut_last_None [of h "CHR '':''"]
    by (cases "port = []") (simp_all add: IsForgeHost_def host_port_def)
qed

lemma remote_char_ascii: "list_all remote_char s \<Longrightarrow> ascii s"
proof -
  assume a: "list_all remote_char s"
  have "(of_char c :: nat) < 128" if "remote_char c" for c
    using that plain_char_facts(1) [of c] by (elim disjE) (simp_all add: printable_def)
  then show ?thesis using a by (auto simp: ascii_def list_all_iff)
qed

lemma ToLower_host_port:
  assumes "list_all remote_char (host_port h port)" "list_all is_dec port"
  shows "ToLower (host_port h port) = host_port (ToLower h) port" "ToLower h = map lower_char h"
proof -
  have h: "list_all remote_char h" using assms(1) by (simp add: host_port_def)
  then show l: "ToLower h = map lower_char h" using ToLower_ascii remote_char_ascii by blast
  have "lower_char (CHR '':'') = CHR '':''" by (simp add: lower_char_fixed)
  moreover have "map lower_char port = port" using assms(2) lower_char_classes(2) by (simp add: list_all_iff map_idI)
  ultimately show "ToLower (host_port h port) = host_port (ToLower h) port"
    using ToLower_ascii [OF remote_char_ascii [OF assms(1)]] l by (simp add: host_port_def)
qed

text \<open>The clone URL of an address, in each spelling, leads back to the address.\<close>

lemma FromCloneURL_hosted:
  assumes "canonical_address a" "\<not> HasSuffix (ad_repo a) ''.git''"
    and "user = [] \<or> user = ''git@'' \<and> scheme = ''ssh''" "scheme = ''https'' \<or> scheme = ''ssh''"
    and "raw = scheme @ ''://'' @ user @ ad_host a @ CHR ''/'' # ad_org a @ CHR ''/'' # ad_repo a"
  shows "FromCloneURL raw (ad_org a) (ad_repo a) = a\<lparr>ad_host := ToLower (ad_host a)\<rparr>"
proof -
  obtain h port where n: "ad_host a = host_port h port" "host_labels_ok h" "port = [] \<or> validPort port" "list_all is_dec port"
    using IsForgeHost_parts assms(1) by (metis canonical_address_def)
  have sg: "safeSegment (ad_org a) False" "safeSegment (ad_repo a) True" "IsForgeHost (ad_host a)"
    using assms(1) by (simp_all add: canonical_address_def SafeSegment_eq)
  note two = two_segments_ok(1) [OF sg(1,2) assms(2)]
  have parts: "address_parts h port (ad_org a @ CHR ''/'' # ad_repo a)"
    using host_labels_validHost [OF n(2)] n(4) two_segments_Inr(1) [OF two] by (simp add: address_parts_def)
  have raw: "raw = scheme @ ''://'' @ user @ host_port h port @ CHR ''/'' # ad_org a @ CHR ''/'' # ad_repo a"
    using assms(5) n(1) by simp
  have p: "Parse_remote raw = Inr \<lparr>rm_raw = raw, rm_identity = hosted (host_port (ToLower h) port) (ad_org a @ CHR ''/'' # ad_repo a)\<rparr>"
    using Parse_url [OF parts assms(3,4) two raw] .
  note lower = ToLower_host_port [OF remote_char_parts(2) [OF parts] n(4)]
  have "length (host_port (ToLower h) port) = length (ad_host a)" using lower(2) n(1) by (simp add: host_port_def)
  then have "IsForgeHost (host_port (ToLower h) port)"
    using IsForgeHost_host_port [OF host_labels_lower [OF n(2)] n(3)] lower(2) sg(3) by (simp add: IsForgeHost_def split: if_split_asm)
  moreover have "TrimSpace raw = raw" using p unfolding Parse_remote_def Let_def by (simp split: if_split_asm)
  ultimately show ?thesis using p lower(1) n(1) by (simp add: FromCloneURL_def hosted_def)
qed

section \<open>Locating clones\<close>

definition host_candidate :: "file_system \<Rightarrow> string \<Rightarrow> string \<Rightarrow> string \<Rightarrow> string \<Rightarrow> bool" where
  "host_candidate fs root org repo host \<longleftrightarrow>
     (\<exists>entries d. fs_read_dir fs root = Inr entries \<and> d \<in> set entries \<and> de_name d = host \<and> de_is_dir d \<and>
        IsForgeHost host \<and> IsClone fs (address_Path \<lparr>ad_host = host, ad_org = org, ad_repo = repo\<rparr> root))"

lemma Locate_cases:
  assumes "Locate fs root org repo = Inr a"
  shows "ad_org a = org \<and> ad_repo a = repo \<and>
    (if ad_host a = [] then (\<nexists>h. host_candidate fs root org repo h)
     else (\<forall>h. host_candidate fs root org repo h \<longleftrightarrow> h = ad_host a))"
proof (cases "fs_read_dir fs root")
  case (Inl e)
  then have "a = \<lparr>ad_host = [], ad_org = org, ad_repo = repo\<rparr>"
    using assms by (cases e) (simp_all add: Locate_def)
  then show ?thesis using Inl by (simp add: host_candidate_def)
next
  case (Inr entries)
  let ?addr = "\<lambda>h. \<lparr>ad_host = h, ad_org = org, ad_repo = repo\<rparr>"
  let ?ms = "filter (\<lambda>c. IsClone fs (address_Path c root)) (map (\<lambda>d. ?addr (de_name d))
    (filter (\<lambda>d. de_is_dir d \<and> IsForgeHost (de_name d)) entries))"
  have hc: "host_candidate fs root org repo h \<longleftrightarrow> ?addr h \<in> set ?ms" for h
    using Inr by (auto simp: host_candidate_def)
  have l: "(case ?ms of [] \<Rightarrow> Inr (?addr []) | [m] \<Rightarrow> Inr m | _ \<Rightarrow> Inl (Ambiguous (sort (map ad_host ?ms)))) = Inr a"
    using assms unfolding Locate_def Inr Let_def IsClone_def [symmetric] by simp
  consider "?ms = []" "a = ?addr []" | "?ms = [a]" using l by (auto split: list.split_asm)
  then show ?thesis
  proof cases
    case 1
    then show ?thesis using hc by simp
  next
    case 2
    then have "a \<in> set ?ms" by simp
    then obtain h where h: "a = ?addr h" "IsForgeHost h" by auto
    then have "h \<noteq> []" by auto
    then show ?thesis using hc h unfolding 2 by simp
  qed
qed

section \<open>Sample hosts\<close>

lemma sample_hosts: "IsForgeHost ''h.io''" "IsForgeHost ''Gh.io:8443''"
proof -
  have "host_labels_ok ''h.io''" "host_labels_ok ''Gh.io''" "validPort ''8443''" by code_simp+
  then show "IsForgeHost ''h.io''" "IsForgeHost ''Gh.io:8443''"
    using IsForgeHost_host_port [of "''h.io''" "[]"] IsForgeHost_host_port [of "''Gh.io''" "''8443''"]
    by (simp_all add: host_port_def)
qed

lemma sample_lower: "ToLower ''Gh.io:8443'' = ''gh.io:8443''"
proof -
  have "ascii ''Gh.io:8443''" "map lower_char ''Gh.io:8443'' = ''gh.io:8443''" by code_simp+
  then show ?thesis using ToLower_ascii by simp
qed

lemma sample_segments: "SafeSegment ''a'' False" "SafeSegment ''.b'' True" "SafeSegment ''b'' True" "SafeSegment ''t'' False"
  by code_simp+

section \<open>Properties\<close>

text \<open>
  C22: the placement of a clone is invertible. For a projects root in clean absolute form and an
  address with a literal forge host, parsing the relative form gives the address back, and so
  does inverting its path below the root, through \<^verbatim>\<open>FromLocalPath\<close> and
  \<^verbatim>\<open>CanonicalCoordinates\<close>. \<^verbatim>\<open>RemoteURLForLocalPath\<close> turns the path into the remote URL of the
  address; cloning from that URL leads back to the address with its host in lower case, unless the
  repository name ends in \<^verbatim>\<open>.git\<close>, which a URL cannot tell from the suffix.
\<close>

theorem clone_path_roundtrip:
  assumes "clean_root root" "canonical_address a"
  shows "ParseRelative (Relative a) = Inr a \<and> SplitRepositoryAddress (Relative a) = Inr a \<and>
    FromLocalPath root (address_Path a root) = Inr a \<and>
    RemoteURLForLocalPath root (address_Path a root) = Inr (RemoteURL a) \<and>
    (\<not> HasSuffix (ad_repo a) ''.git'' \<longrightarrow>
       FromCloneURL (RemoteURL a) (ad_org a) (ad_repo a) = a\<lparr>ad_host := ToLower (ad_host a)\<rparr>) \<and>
    CanonicalCoordinates root (address_Path a root) = Inr (ad_host a, ad_org a, ad_repo a)"
  using ParseRelative_Relative SplitRepositoryAddress_Relative FromLocalPath_address CanonicalCoordinates_address assms
    FromCloneURL_hosted [OF assms(2), of "[]" "''https''" "RemoteURL a"]
  by (simp add: RemoteURLForLocalPath_def RemoteURL_def)

theorem clone_path_roundtrip_witness:
  "FromLocalPath ''/p'' (address_Path \<lparr>ad_host = ''h.io'', ad_org = ''a'', ad_repo = ''.b''\<rparr> ''/p'') =
     Inr \<lparr>ad_host = ''h.io'', ad_org = ''a'', ad_repo = ''.b''\<rparr>"
proof -
  have c: "clean_root ''/p''" by code_simp
  have "canonical_address \<lparr>ad_host = ''h.io'', ad_org = ''a'', ad_repo = ''.b''\<rparr>"
    by (simp add: canonical_address_def sample_hosts sample_segments)
  from clone_path_roundtrip [OF c this] show ?thesis by simp
qed

text \<open>
  the clone URL an address inverts to leads back to the address. Cloning from
  \<^verbatim>\<open>Address.RemoteURL\<close> places the clone under the host of the URL in lower case, with its
  port, and under the same owner and repository; no other placement is chosen. The repository
  name must not end in \<^verbatim>\<open>.git\<close>, which a URL cannot tell from the suffix.
\<close>

theorem clone_url_roundtrip:
  assumes "canonical_address a" "\<not> HasSuffix (ad_repo a) ''.git''"
  shows "FromCloneURL (RemoteURL a) (ad_org a) (ad_repo a) = a\<lparr>ad_host := ToLower (ad_host a)\<rparr>"
  using FromCloneURL_hosted [OF assms, of "[]" "''https''" "RemoteURL a"] by (simp add: RemoteURL_def)

theorem clone_url_roundtrip_witness:
  "FromCloneURL (RemoteURL \<lparr>ad_host = ''Gh.io:8443'', ad_org = ''a'', ad_repo = ''b''\<rparr>) ''a'' ''b'' =
     \<lparr>ad_host = ''gh.io:8443'', ad_org = ''a'', ad_repo = ''b''\<rparr>"
proof -
  have "canonical_address \<lparr>ad_host = ''Gh.io:8443'', ad_org = ''a'', ad_repo = ''b''\<rparr>" "\<not> HasSuffix ''b'' ''.git''"
    by (simp_all add: canonical_address_def sample_hosts sample_segments HasSuffix_def)
  then show ?thesis using clone_url_roundtrip [of "\<lparr>ad_host = ''Gh.io:8443'', ad_org = ''a'', ad_repo = ''b''\<rparr>"]
    by (simp add: sample_lower)
qed

text \<open>
  C23: a second copy of a clone the machine already has is never chosen. When
  \<^verbatim>\<open>ClonePathForURL\<close> returns a path while a clone of the coordinate exists at a host level or
  at the legacy place, that path holds a clone. When clones exist on two hosts there is no answer
  at all: the coordinate is refused, never resolved by a pick.
\<close>

theorem existing_clone_is_used:
  assumes "host_candidate fs root org repo host \<or> IsClone fs (address_Path \<lparr>ad_host = [], ad_org = org, ad_repo = repo\<rparr> root)"
    and "ClonePathForURL fs root org repo url = Inr path"
  shows "IsClone fs path \<and> (\<forall>other. host_candidate fs root org repo other \<longrightarrow>
    path = address_Path \<lparr>ad_host = other, ad_org = org, ad_repo = repo\<rparr> root)"
proof -
  obtain a where a: "Locate fs root org repo = Inr a"
    using assms(2) by (auto simp: ClonePathForURL_def split: sum.split_asm)
  note l = Locate_cases [OF a]
  have e: "\<lparr>ad_host = ad_host a, ad_org = org, ad_repo = repo\<rparr> = a" using l by simp
  have only: "host_candidate fs root org repo h \<Longrightarrow> h = ad_host a" for h using l by (auto split: if_split_asm)
  have c: "IsClone fs (address_Path a root)"
  proof (cases "ad_host a = []")
    case True
    then have eq: "\<lparr>ad_host = [], ad_org = org, ad_repo = repo\<rparr> = a" using e by simp
    have "\<not> host_candidate fs root org repo host" using l True by simp
    then show ?thesis using assms(1) unfolding eq by blast
  next
    case False
    then have "host_candidate fs root org repo (ad_host a)" using l by simp
    then show ?thesis using e by (auto simp: host_candidate_def)
  qed
  then have path: "path = address_Path a root" using assms(2) a by (simp add: ClonePathForURL_def IsClone_def)
  show ?thesis
  proof (intro conjI allI impI)
    show "IsClone fs path" using c path by simp
    fix other assume "host_candidate fs root org repo other"
    then show "path = address_Path \<lparr>ad_host = other, ad_org = org, ad_repo = repo\<rparr> root" using only path e by metis
  qed
qed

definition sample_fs :: file_system where
  "sample_fs = \<lparr>fs_read_dir = (\<lambda>p. if p = ''/p'' then Inr [\<lparr>de_name = ''h.io'', de_is_dir = True\<rparr>] else Inl FsNotExist),
     fs_stat = (\<lambda>p. if p = ''/p/h.io/a/b/.git'' then Inr True else Inl FsNotExist)\<rparr>"

theorem existing_clone_is_used_witness:
  "ClonePathForURL sample_fs ''/p'' ''a'' ''b'' [] = Inr ''/p/h.io/a/b'' \<and> IsClone sample_fs ''/p/h.io/a/b''"
proof -
  have c: "address_Path \<lparr>ad_host = ''h.io'', ad_org = ''a'', ad_repo = ''b''\<rparr> ''/p'' = ''/p/h.io/a/b''"
      "filepath_Join [''/p/h.io/a/b'', ''.git''] = ''/p/h.io/a/b/.git''"
    by code_simp+
  then have "host_candidate sample_fs ''/p'' ''a'' ''b'' ''h.io''"
    by (simp add: host_candidate_def IsClone_def sample_fs_def sample_hosts)
  moreover have p: "ClonePathForURL sample_fs ''/p'' ''a'' ''b'' [] = Inr ''/p/h.io/a/b''"
    using c by (simp add: ClonePathForURL_def Locate_def sample_fs_def sample_hosts)
  ultimately have "IsClone sample_fs ''/p/h.io/a/b''" using existing_clone_is_used by blast
  then show ?thesis using p by simp
qed

text \<open>Checkouts.\<close>

lemma ValidCloneRelative_iff:
  "ValidCloneRelative r \<longleftrightarrow> (\<exists>a. (canonical_address a \<or> legacy_address a) \<and> r = Relative a)"
proof
  assume v: "ValidCloneRelative r"
  have j: "Join (Split r (CHR ''/'')) ''/'' = r" by (rule Join_Split)
  consider x y where "Split r (CHR ''/'') = [x, y]" | x y z where "Split r (CHR ''/'') = [x, y, z]" "IsForgeHost x"
    using v by (auto simp: ValidCloneRelative_def Let_def length2 length3 split: if_split_asm)
  then show "\<exists>a. (canonical_address a \<or> legacy_address a) \<and> r = Relative a"
  proof cases
    case 1
    then show ?thesis using v j
      by (intro exI [of _ "\<lparr>ad_host = [], ad_org = x, ad_repo = y\<rparr>"])
        (simp add: legacy_address_def Relative_def ValidCloneRelative_def ValidSafeSegment_def ValidRepositorySegment_def)
  next
    case 2
    then have "x \<noteq> []" by auto
    then show ?thesis using v j 2
      by (intro exI [of _ "\<lparr>ad_host = x, ad_org = y, ad_repo = z\<rparr>"])
        (simp add: canonical_address_def Relative_def ValidCloneRelative_def ValidSafeSegment_def ValidRepositorySegment_def)
  qed
next
  assume "\<exists>a. (canonical_address a \<or> legacy_address a) \<and> r = Relative a"
  then obtain a where a: "canonical_address a \<or> legacy_address a" "r = Relative a" by blast
  then have s: "Split r (CHR ''/'') = address_elems a" using Split_Relative by simp
  show "ValidCloneRelative r"
    using a(1) by (cases "ad_host a = []")
      (auto simp: ValidCloneRelative_def s address_elems_def canonical_address_def legacy_address_def
        ValidSafeSegment_def ValidRepositorySegment_def)
qed

lemma layout_Path_elems:
  assumes "list_all good_segment rs" "layout_Path (abs_path rs) False [] task repository = Inr p"
  obtains a where "SplitRepositoryAddress repository = Inr a" "canonical_address a \<or> legacy_address a" "repository = Relative a"
    "SafeSegment task False" "p = abs_path (rs @ task # address_elems a)"
proof -
  obtain a where a: "SplitRepositoryAddress repository = Inr a" "SafeSegment task False"
      "p = filepath_Join [abs_path rs, task, Relative a]"
    using assms(2) by (auto simp: layout_Path_def Let_def TrimSet_def ValidSafeSegment_def split: sum.split_asm if_split_asm)
  note c = SplitRepositoryAddress_Inr [OF a(1)]
  then have g: "list_all good_segment (address_elems a)" using address_elems_good by blast
  have t: "path_elems task = [task]" "good_segment task" using SafeSegment_good [OF a(2)] path_elems_good by blast+
  have "path_elems (Relative a) = address_elems a" unfolding Relative_elems using path_elems_Join path_elems_goods [OF g] by simp
  then have "p = abs_path (rs @ task # address_elems a)"
    using filepath_Join_abs [OF assms(1), of "[task, Relative a]"] g t a(3) by simp
  then show ?thesis using that a(1,2) c by blast
qed

text \<open>
  checkouts do not collide. With the default placement below one clean root, the checkout
  path of a task and a repository determines both: two tasks, or two repositories (a host-qualified
  coordinate and an unqualified one included), never get the same directory.
\<close>

theorem checkout_paths_distinct:
  assumes "clean_root root" "layout_Path root False [] task repository = Inr p"
    and "layout_Path root False [] task' repository' = Inr p"
  shows "task' = task \<and> repository' = repository"
proof -
  obtain rs where rs: "list_all good_segment rs" "root = abs_path rs" using clean_root_elems [OF assms(1)] .
  obtain a where a: "canonical_address a \<or> legacy_address a" "repository = Relative a" "SafeSegment task False"
      "p = abs_path (rs @ task # address_elems a)"
    using layout_Path_elems [OF rs(1)] assms(2) rs(2) by metis
  obtain b where b: "canonical_address b \<or> legacy_address b" "repository' = Relative b" "SafeSegment task' False"
      "p = abs_path (rs @ task' # address_elems b)"
    using layout_Path_elems [OF rs(1)] assms(3) rs(2) by metis
  have "list_all good_segment (rs @ task # address_elems a)" "list_all good_segment (rs @ task' # address_elems b)"
    using rs(1) SafeSegment_good a(1,3) b(1,3) address_elems_good by auto
  then have "task = task'" "address_elems a = address_elems b" using abs_path_inj a(4) b(4) by auto
  then show ?thesis using a(2) b(2) by (simp add: Relative_elems)
qed

theorem checkout_paths_distinct_witness:
  "layout_Path ''/w'' False [] ''t'' ''a/b'' = Inr ''/w/t/a/b'' \<and> \<not> layout_Path ''/w'' False [] ''u'' ''a/b'' = Inr ''/w/t/a/b''"
proof -
  have c: "clean_root ''/w''" by code_simp
  let ?a = "\<lparr>ad_host = [], ad_org = ''a'', ad_repo = ''b''\<rparr>"
  have l: "legacy_address ?a" "Relative ?a = ''a/b''" "filepath_Join [''/w'', ''t'', ''a/b''] = ''/w/t/a/b''"
    by code_simp+
  then have "SplitRepositoryAddress ''a/b'' = Inr ?a" "ValidCloneRelative ''a/b''"
    using SplitRepositoryAddress_Relative [of ?a] ValidCloneRelative_iff by metis+
  then have p: "layout_Path ''/w'' False [] ''t'' ''a/b'' = Inr ''/w/t/a/b''"
    using l sample_segments(4) by (simp add: layout_Path_def ValidSafeSegment_def TrimSet_def)
  then show ?thesis using checkout_paths_distinct [OF c p, of "''u''" "''a/b''"] by auto
qed

end
