(* ===== verification/Run_Queue.thy ===== *)
theory Run_Queue
  imports Go_Strings Go_Filepath
begin

text \<open>
  The admission of CPU-heavy commands: the policy half of \<^verbatim>\<open>internal/runqueue/queue.go\<close> and
  \<^verbatim>\<open>heavy.go\<close>, \<^verbatim>\<open>wb_coverage.go\<close> and \<^verbatim>\<open>summary.go\<close>. A command is classified by its argument
  vector; the class and the number of logical CPUs give its share. The small-machine pool of slot
  files is here as well; the queue of a large machine is in \<open>Heavy_Queue\<close>.

  The number of CPUs, \<^verbatim>\<open>numCPU()\<close>, is the argument \<open>n\<close>.
\<close>

section \<open>Budget\<close>

definition smallMachineThreshold :: int where
  "smallMachineThreshold = 8"

definition smallMachine :: "int \<Rightarrow> bool" where
  "smallMachine n \<longleftrightarrow> n < smallMachineThreshold"

definition Budget :: "int \<Rightarrow> int" where
  "Budget n = (if n \<le> 1 then 1 else n - 1)"

section \<open>Classification\<close>

datatype kind = KindNone | KindFocused | KindBroad | KindRaceOrCover

definition hasAny :: "string list \<Rightarrow> string list \<Rightarrow> bool" where
  "hasAny arguments targets = list_ex (\<lambda>a. List.member targets a) arguments"

definition has_prefix :: "string list \<Rightarrow> string \<Rightarrow> bool" where
  "has_prefix arguments prefix' = list_ex (\<lambda>a. HasPrefix a prefix') arguments"

definition hasBroadScope :: "string list \<Rightarrow> bool" where
  "hasBroadScope arguments = list_ex (\<lambda>a. a = ''...'' \<or> a = ''./...'' \<or> HasSuffix a ''/...'') arguments"

definition countGoPackagePaths :: "string list \<Rightarrow> nat" where
  "countGoPackagePaths arguments = length (filter (\<lambda>a. a = ''.'' \<or> HasPrefix a ''./'') arguments)"

text \<open>
  The process environment as the classification sees it: the variable \<^verbatim>\<open>GOFLAGS\<close> (empty when
  unset) and what \<^verbatim>\<open>go env GOFLAGS\<close> prints, \<open>None\<close> when it fails.
\<close>

record go_env =
  ge_GOFLAGS :: string
  ge_persisted :: "string option"

definition EffectiveGOFLAGS :: "go_env \<Rightarrow> string" where
  "EffectiveGOFLAGS ge =
     (if ge_GOFLAGS ge \<noteq> [] then ge_GOFLAGS ge
      else case ge_persisted ge of None \<Rightarrow> [] | Some output \<Rightarrow> TrimSpace output)"

definition goflagsRaceOrCover :: "go_env \<Rightarrow> bool" where
  "goflagsRaceOrCover ge =
     (let fields = Fields (EffectiveGOFLAGS ge) in has_prefix fields ''-race'' \<or> has_prefix fields ''-cover'')"

definition classifyGo :: "go_env \<Rightarrow> string list \<Rightarrow> kind" where
  "classifyGo ge arguments =
     (if \<not> hasAny arguments [''test'', ''vet'', ''build''] then KindNone
      else if has_prefix arguments ''-race'' \<or> has_prefix arguments ''-cover'' \<or> goflagsRaceOrCover ge then KindRaceOrCover
      else if hasBroadScope arguments \<or> 2 \<le> countGoPackagePaths arguments then KindBroad
      else KindFocused)"

fun explicit_target :: "bool \<Rightarrow> string list \<Rightarrow> bool" where
  "explicit_target sawVerb [] = False"
| "explicit_target sawVerb (a # as) =
     (if HasPrefix a ''-'' then explicit_target sawVerb as
      else if \<not> sawVerb then explicit_target True as
      else True)"

definition hasExplicitNxTarget :: "string list \<Rightarrow> bool" where
  "hasExplicitNxTarget arguments = explicit_target False arguments"

definition classifyNx :: "string list \<Rightarrow> kind" where
  "classifyNx arguments =
     (if hasAny arguments [''run-many'', ''affected''] then KindBroad
      else if hasAny arguments [''build''] then KindBroad
      else if hasAny arguments [''test'', ''lint'', ''e2e'', ''run''] then
        (if hasExplicitNxTarget arguments then KindFocused else KindBroad)
      else KindNone)"

definition nodeTestRunnerValueFlags :: "string list" where
  "nodeTestRunnerValueFlags =
     [''-c'', ''--config'', ''-t'', ''--testnamepattern'', ''--project'', ''--reporter'', ''--pool'', ''--maxworkers'',
      ''--rootdir'', ''--testpathpattern'', ''--grep'', ''--fgrep'', ''-r'', ''--require'', ''--timeout'']"

fun classifyNodeTestRunner :: "string list \<Rightarrow> kind" where
  "classifyNodeTestRunner [] = KindBroad"
| "classifyNodeTestRunner (argument # rest) =
     (if HasPrefix argument ''-'' then
        (case Cut argument (CHR ''='') of (base, _, hasValueInline) \<Rightarrow>
         if \<not> hasValueInline \<and> List.member nodeTestRunnerValueFlags (ToLower base)
         then (case rest of [] \<Rightarrow> KindBroad | _ # rest' \<Rightarrow> classifyNodeTestRunner rest')
         else classifyNodeTestRunner rest)
      else if argument = ''run'' \<or> argument = ''test'' then classifyNodeTestRunner rest
      else KindFocused)"

definition hasAnyScriptToken :: "string list \<Rightarrow> string list \<Rightarrow> bool" where
  "hasAnyScriptToken arguments targets =
     list_ex (\<lambda>a. list_ex (\<lambda>target. a = target \<or> HasPrefix a (target @ '':'')) targets) arguments"

fun workspace_scope :: "string \<Rightarrow> string list \<Rightarrow> bool" where
  "workspace_scope tool [] = False"
| "workspace_scope tool (argument # rest) =
     (let lower = ToLower argument in
      if lower = ''--filter'' \<or> lower = ''--workspace'' \<or> lower = ''--scope'' \<or>
         HasPrefix lower ''--filter='' \<or> HasPrefix lower ''--workspace='' \<or> HasPrefix lower ''--scope='' then True
      else if lower = ''-w'' \<and> tool = ''npm'' \<and> rest \<noteq> [] then True
      else if Contains argument ''/'' \<or> HasSuffix argument ''.ts'' \<or> HasSuffix argument ''.js'' then True
      else workspace_scope tool rest)"

definition hasNodeWorkspaceScope :: "string \<Rightarrow> string list \<Rightarrow> bool" where
  "hasNodeWorkspaceScope tool arguments = workspace_scope tool arguments"

definition classifyNodePackageManager :: "string \<Rightarrow> string list \<Rightarrow> kind" where
  "classifyNodePackageManager tool arguments =
     (case arguments of
        [] \<Rightarrow> KindNone
      | first # rest \<Rightarrow>
          if ToLower first = ''nx'' then classifyNx rest
          else if ToLower first \<in> {''vitest'', ''jest'', ''mocha''} then classifyNodeTestRunner rest
          else if \<not> hasAnyScriptToken arguments [''test'', ''run'', ''build'', ''lint'', ''e2e'', ''affected''] then KindNone
          else if hasAnyScriptToken arguments [''build'', ''e2e'', ''affected''] then KindBroad
          else if hasAnyScriptToken arguments [''test'', ''lint''] then
            (if hasNodeWorkspaceScope tool arguments then KindFocused else KindBroad)
          else KindNone)"

text \<open>
  \<open>parse_flags\<close> is the flag parser of the third-party package \<^verbatim>\<open>pflag\<close> with the root flags the
  code declares: \<open>None\<close> for an error, otherwise the values of \<^verbatim>\<open>--help\<close> and \<^verbatim>\<open>--version\<close> and the
  remaining arguments.
\<close>

type_synonym flag_parser = "string list \<Rightarrow> (bool \<times> bool \<times> string list) option"

definition classifyWBCoverage :: "flag_parser \<Rightarrow> string list \<Rightarrow> kind" where
  "classifyWBCoverage parse_flags arguments =
     (case parse_flags arguments of
        None \<Rightarrow> KindNone
      | Some (help, version, remaining) \<Rightarrow>
          if remaining = [] \<or> remaining ! 0 \<noteq> ''coverage'' then KindNone
          else if version \<or> length remaining = 1 \<and> help then KindNone
          else if 1 < length remaining \<and> remaining ! 1 \<in> {''baseline'', ''summary'', ''worklist''} then KindNone
          else if length remaining = 2 \<and>
            remaining ! 1 \<in> {''--help'', ''-h'', ''--help=true'', ''--help=1'', ''-h=true'', ''-h=1''} then KindNone
          else KindRaceOrCover)"

definition classify_argv :: "flag_parser \<Rightarrow> go_env \<Rightarrow> string list \<Rightarrow> kind" where
  "classify_argv parse_flags ge argv =
     (case argv of
        [] \<Rightarrow> KindNone
      | program # arguments \<Rightarrow>
          let tool = ToLower (Base program) in
          if tool = ''wb'' \<or> tool = ''wb.exe'' then classifyWBCoverage parse_flags arguments
          else if tool = ''go'' then classifyGo ge arguments
          else if tool = ''golangci-lint'' then (if hasBroadScope arguments then KindBroad else KindFocused)
          else if tool = ''staticcheck'' \<or> tool = ''pytest'' then KindFocused
          else if tool \<in> {''vitest'', ''jest'', ''mocha''} then classifyNodeTestRunner arguments
          else if tool = ''nx'' then classifyNx arguments
          else if tool \<in> {''npm'', ''pnpm'', ''yarn'', ''bun'', ''npx''} then classifyNodePackageManager tool arguments
          else if tool = ''cargo'' \<and> hasAny arguments [''test'', ''build'', ''check'', ''clippy''] then KindBroad
          else KindNone)"

fun first_verb :: "string list \<Rightarrow> string option" where
  "first_verb [] = None"
| "first_verb (arg # args) = (if \<not> HasPrefix arg ''-'' then Some arg else first_verb args)"

definition Summary :: "string list \<Rightarrow> string" where
  "Summary args =
     (case args of
        [] \<Rightarrow> ''unknown''
      | program # rest \<Rightarrow>
          (case first_verb rest of Some verb \<Rightarrow> Base program @ '' '' @ verb | None \<Rightarrow> Base program))"

section \<open>Shares\<close>

definition clampToCapacity :: "int \<Rightarrow> int \<Rightarrow> int" where
  "clampToCapacity units capacity = (if units > capacity then capacity else units)"

definition smallMachineUnits :: "kind \<Rightarrow> int \<Rightarrow> int" where
  "smallMachineUnits k budget =
     (case k of
        KindFocused \<Rightarrow> clampToCapacity 1 budget
      | KindBroad \<Rightarrow> clampToCapacity 2 budget
      | KindRaceOrCover \<Rightarrow> budget
      | KindNone \<Rightarrow> 0)"

definition focusedShare :: "int \<Rightarrow> int" where
  "focusedShare n = max 1 (n div 8)"

definition heavyShareFloorDivisor :: int where
  "heavyShareFloorDivisor = 4"

definition heavyCapNumerator :: int where
  "heavyCapNumerator = 3"

definition heavyCapDenominator :: int where
  "heavyCapDenominator = 2"

definition heavyDefensiveMax :: nat where
  "heavyDefensiveMax = 3"

definition heavyShare :: "int \<Rightarrow> int \<Rightarrow> int" where
  "heavyShare n k = (if k \<le> 1 then n else if k = 2 then n * 2 div 3 else n div 2)"

definition Units :: "flag_parser \<Rightarrow> go_env \<Rightarrow> int \<Rightarrow> string list \<Rightarrow> int \<Rightarrow> int" where
  "Units parse_flags ge n argv budget =
     (let k = classify_argv parse_flags ge argv in
      if k = KindNone \<or> budget < 1 then 0
      else if smallMachine n then smallMachineUnits k budget
      else if k = KindFocused then clampToCapacity (focusedShare n) budget
      else clampToCapacity (heavyShare n 1) budget)"

section \<open>The environment of a governed command\<close>

definition GovernGOMAXPROCS :: "string \<Rightarrow> int \<Rightarrow> string" where
  "GovernGOMAXPROCS existing units = (if TrimSpace existing \<noteq> [] then existing else Itoa units)"

definition LookupEnv :: "string list \<Rightarrow> string \<Rightarrow> string" where
  "LookupEnv environment key =
     (case List.find (\<lambda>entry. HasPrefix entry (key @ ''='')) environment of
        Some entry \<Rightarrow> drop (length key + 1) entry
      | None \<Rightarrow> [])"

definition hasGoParallelismFlag :: "string \<Rightarrow> bool" where
  "hasGoParallelismFlag goflags = list_ex (\<lambda>field. field = ''-p'' \<or> HasPrefix field ''-p='') (Fields goflags)"

definition GovernGoFlags :: "string list \<Rightarrow> string \<Rightarrow> int \<Rightarrow> string" where
  "GovernGoFlags argv existing units =
     (if units \<le> 0 \<or> argv = [] \<or> ToLower (Base (hd argv)) \<noteq> ''go'' then existing
      else if hasGoParallelismFlag existing then TrimSpace existing
      else let trimmed = TrimSpace existing; flag = ''-p='' @ Itoa units in
        if trimmed = [] then flag else trimmed @ '' '' @ flag)"

section \<open>The pool of slot files\<close>

text \<open>
  One pass over the slot files. \<open>open_slot i\<close> is the error of opening file \<open>i\<close>, \<open>free i\<close> whether
  its lock is free at that moment. The locks taken so far are in \<open>held\<close>, oldest first; a pass that
  does not get them all gives every one of them back.
\<close>

datatype slot_pass = SlotError string | SlotsHeld "nat list" | SlotsBusy

fun take_slots :: "(nat \<Rightarrow> string option) \<Rightarrow> (nat \<Rightarrow> bool) \<Rightarrow> nat \<Rightarrow> nat list \<Rightarrow> nat list \<Rightarrow> slot_pass" where
  "take_slots open_slot free units [] held = (if length held = units then SlotsHeld held else SlotsBusy)"
| "take_slots open_slot free units (slot # slots) held =
     (if length held \<ge> units then take_slots open_slot free units [] held
      else case open_slot slot of
        Some err \<Rightarrow> SlotError (''open WB CPU slot: '' @ err)
      | None \<Rightarrow>
          if free slot then take_slots open_slot free units slots (held @ [slot])
          else take_slots open_slot free units slots held)"

text \<open>
  \<^verbatim>\<open>Acquire\<close>: one element of \<open>passes\<close> per turn of its loop, with the observations of that turn and
  whether the context was cancelled while it waited for the next. \<open>None\<close> is a call that is still
  waiting when the observations end. The lease is the list of slots held.
\<close>

datatype acquire_error = LeaseDirFailed string | SlotFailed string | ContextDone

record slot_turn =
  sl_open :: "nat \<Rightarrow> string option"
  sl_free :: "nat \<Rightarrow> bool"
  sl_done :: bool

fun acquire_loop :: "nat \<Rightarrow> nat \<Rightarrow> slot_turn list \<Rightarrow> (acquire_error, nat list) result option" where
  "acquire_loop units budget [] = None"
| "acquire_loop units budget (t # turns) =
     (case take_slots (sl_open t) (sl_free t) units [0..<budget] [] of
        SlotError err \<Rightarrow> Some (Inl (SlotFailed err))
      | SlotsHeld slots \<Rightarrow> Some (Inr slots)
      | SlotsBusy \<Rightarrow> if sl_done t then Some (Inl ContextDone) else acquire_loop units budget turns)"

definition Acquire_units :: "int \<Rightarrow> int \<Rightarrow> int" where
  "Acquire_units units budget = (let budget = (if budget < 1 then 1 else budget) in if units > budget then budget else units)"

definition Acquire_slots :: "string option \<Rightarrow> int \<Rightarrow> int \<Rightarrow> slot_turn list \<Rightarrow> (acquire_error, nat list) result option" where
  "Acquire_slots mkdir units budget turns =
     (if units \<le> 0 then Some (Inr [])
      else case mkdir of
        Some err \<Rightarrow> Some (Inl (LeaseDirFailed err))
      | None \<Rightarrow> acquire_loop (nat (Acquire_units units budget)) (nat (if budget < 1 then 1 else budget)) turns)"

end
