(* ===== verification/Heavy_Queue.thy ===== *)
theory Heavy_Queue
  imports Run_Queue Go_Time Step_System "HOL-Library.AList"
begin

text \<open>
  The queue of CPU-heavy commands on a large machine: \<^verbatim>\<open>internal/runqueue/heavy.go\<close> and the part
  of \<^verbatim>\<open>visibility.go\<close> that keeps its two directories, the tickets of waiting commands and the
  records of running ones.

  A directory is an association list from file names to files. All files of a directory share the
  path before the name, so comparing names is comparing paths; the path of a ticket is its name here,
  and a ticket that could not be written has the empty name, as in the code. What the operating
  system decides (the clock, which processes exist, whether a write or a lock succeeds) is given to
  each turn of a waiting command.
\<close>

section \<open>Directories of records\<close>

record participant =
  pt_pid :: int
  pt_summary :: string
  pt_worktree :: string

record holder =
  hd_self :: participant
  hd_units :: int
  hd_started :: go_time
  hd_updated :: go_time

record ticket_record =
  tr_self :: participant
  tr_created :: go_time
  tr_updated :: go_time

text \<open>A file has the record it decodes to, if it does, and its modification time.\<close>

datatype 'a dfile = SubDir | DFile "'a option" go_time

type_synonym 'a dir = "(string \<times> 'a dfile) list"

definition staleAfter :: duration where
  "staleAfter = 30 * 1000000000"

definition isLive :: "(int \<Rightarrow> bool) \<Rightarrow> go_time \<Rightarrow> int \<Rightarrow> go_time \<Rightarrow> bool" where
  "isLive alive now pid updatedAt =
     (if \<not> alive pid then False
      else if is_zero_time updatedAt then True
      else time_sub now updatedAt < staleAfter)"

text \<open>What a listing reads of one entry, and whether the entry is still there afterwards.\<close>

definition read_entry :: "('a \<Rightarrow> bool) \<Rightarrow> string \<times> 'a dfile \<Rightarrow> (string \<times> 'a) option" where
  "read_entry live entry =
     (case entry of
        (name, SubDir) \<Rightarrow> None
      | (name, DFile content _) \<Rightarrow>
          if HasPrefix name ''.'' then None
          else case content of None \<Rightarrow> None | Some r \<Rightarrow> if live r then Some (name, r) else None)"

definition reapStaleTempFile :: "go_time \<Rightarrow> string \<times> 'a dfile \<Rightarrow> bool" where
  "reapStaleTempFile now entry =
     (case entry of
        (name, SubDir) \<Rightarrow> False
      | (name, DFile _ modTime) \<Rightarrow> HasPrefix name ''.tmp-'' \<and> \<not> time_sub now modTime < staleAfter)"

definition entry_stays :: "go_time \<Rightarrow> ('a \<Rightarrow> bool) \<Rightarrow> string \<times> 'a dfile \<Rightarrow> bool" where
  "entry_stays now live entry =
     (case entry of
        (name, SubDir) \<Rightarrow> True
      | (name, DFile content _) \<Rightarrow>
          if HasPrefix name ''.'' then \<not> reapStaleTempFile now entry
          else case content of None \<Rightarrow> True | Some r \<Rightarrow> live r)"

definition ticket_live :: "(int \<Rightarrow> bool) \<Rightarrow> go_time \<Rightarrow> ticket_record \<Rightarrow> bool" where
  "ticket_live alive now r = isLive alive now (pt_pid (tr_self r)) (tr_updated r)"

definition holder_live :: "(int \<Rightarrow> bool) \<Rightarrow> go_time \<Rightarrow> holder \<Rightarrow> bool" where
  "holder_live alive now h = isLive alive now (pt_pid (hd_self h)) (hd_updated h)"

definition ticket_key :: "string \<times> ticket_record \<Rightarrow> go_time \<times> string" where
  "ticket_key t = (tr_created (snd t), fst t)"

definition readTicketsIn ::
  "(int \<Rightarrow> bool) \<Rightarrow> go_time \<Rightarrow> ticket_record dir \<Rightarrow> (string \<times> ticket_record) list \<times> ticket_record dir" where
  "readTicketsIn alive now d =
     (sort_key ticket_key (List.map_filter (read_entry (ticket_live alive now)) d),
      filter (entry_stays now (ticket_live alive now)) d)"

text \<open>
  \<^verbatim>\<open>sort.Slice\<close> orders the holders by their start and leaves ties unspecified; the model keeps the
  order of the listing for them.
\<close>

definition readHolderRecords :: "(int \<Rightarrow> bool) \<Rightarrow> go_time \<Rightarrow> holder dir \<Rightarrow> holder list \<times> holder dir" where
  "readHolderRecords alive now d =
     (sort_key hd_started (map snd (List.map_filter (read_entry (holder_live alive now)) d)),
      filter (entry_stays now (holder_live alive now)) d)"

section \<open>Tickets\<close>

record ticket =
  tk_name :: string
  tk_created_at :: go_time
  tk_self :: participant

text \<open>\<^verbatim>\<open>UnixNano\<close>: the zero time is 62135596800 seconds before the epoch.\<close>

definition UnixNano :: "go_time \<Rightarrow> int" where
  "UnixNano t = t - 62135596800 * 1000000000"

definition record_name :: "go_time \<Rightarrow> int \<Rightarrow> int \<Rightarrow> string" where
  "record_name at pid sequence = append_int (UnixNano at) 20 @ ''-'' @ Itoa pid @ ''-'' @ Itoa sequence @ ''.json''"

definition ticket_file :: "participant \<Rightarrow> go_time \<Rightarrow> go_time \<Rightarrow> ticket_record dfile" where
  "ticket_file self created now = DFile (Some \<lparr>tr_self = self, tr_created = created, tr_updated = now\<rparr>) now"

text \<open>\<open>stored\<close> says whether the directory and the file could be written.\<close>

definition registerAtTime :: "bool \<Rightarrow> int \<Rightarrow> participant \<Rightarrow> go_time \<Rightarrow> ticket_record dir \<Rightarrow> ticket \<times> ticket_record dir" where
  "registerAtTime stored sequence self now d =
     (let name = record_name now (pt_pid self) sequence; t = \<lparr>tk_name = [], tk_created_at = now, tk_self = self\<rparr> in
      if stored then (t\<lparr>tk_name := name\<rparr>, AList.update name (ticket_file self now now) d) else (t, d))"

definition Forget :: "ticket \<Rightarrow> ticket_record dir \<Rightarrow> ticket \<times> ticket_record dir" where
  "Forget t d = (if tk_name t = [] then (t, d) else (t\<lparr>tk_name := []\<rparr>, AList.delete (tk_name t) d))"

definition ticket_Heartbeat :: "bool \<Rightarrow> go_time \<Rightarrow> ticket \<Rightarrow> ticket_record dir \<Rightarrow> ticket_record dir" where
  "ticket_Heartbeat stored now t d =
     (if tk_name t = [] \<or> \<not> stored then d
      else AList.update (tk_name t) (ticket_file (tk_self t) (tk_created_at t) now) d)"

section \<open>Shares of running commands\<close>

definition heavyAdmissionCandidate :: "int \<Rightarrow> holder list \<Rightarrow> nat \<Rightarrow> int \<times> int" where
  "heavyAdmissionCandidate n runningHeavy waitingCount =
     (let allocated = sum_list (map hd_units runningHeavy);
          k = int (length runningHeavy) + int waitingCount;
          room = n * heavyCapNumerator div heavyCapDenominator - allocated;
          share = heavyShare n k in
      (if share > room then room else share, k))"

definition holder_file :: "participant \<Rightarrow> int \<Rightarrow> go_time \<Rightarrow> go_time \<Rightarrow> holder dfile" where
  "holder_file self units started now = DFile (Some \<lparr>hd_self = self, hd_units = units, hd_started = started, hd_updated = now\<rparr>) now"

definition announceHeavyHolder ::
  "bool \<Rightarrow> int \<Rightarrow> participant \<Rightarrow> int \<Rightarrow> go_time \<Rightarrow> holder dir \<Rightarrow> (string \<times> holder dir) option" where
  "announceHeavyHolder stored sequence self units startedAt d =
     (if stored then
        let name = record_name startedAt (pt_pid self) sequence in
        Some (name, AList.update name (holder_file self units startedAt startedAt) d)
      else None)"

definition heartbeatHeavyHolder :: "bool \<Rightarrow> string \<Rightarrow> participant \<Rightarrow> int \<Rightarrow> go_time \<Rightarrow> go_time \<Rightarrow> holder dir \<Rightarrow> holder dir" where
  "heartbeatHeavyHolder stored name self units startedAt now d =
     (if name = [] \<or> \<not> stored then d else AList.update name (holder_file self units startedAt now) d)"

definition removeHeavyHolder :: "string \<Rightarrow> holder dir \<Rightarrow> holder dir" where
  "removeHeavyHolder name d = (if name = [] then d else AList.delete name d)"

section \<open>The decision under the lock\<close>

definition is_head :: "ticket \<Rightarrow> (string \<times> ticket_record) list \<Rightarrow> bool" where
  "is_head t tickets \<longleftrightarrow> (case tickets of [] \<Rightarrow> False | (name, _) # _ \<Rightarrow> name = tk_name t)"

text \<open>\<open>Some share\<close> when the command may start now with that share.\<close>

definition admissible :: "int \<Rightarrow> holder list \<Rightarrow> nat \<Rightarrow> int option" where
  "admissible n runningHeavy waitingCount =
     (if length runningHeavy \<ge> heavyDefensiveMax then None
      else let share = fst (heavyAdmissionCandidate n runningHeavy waitingCount) in
        if share < n div heavyShareFloorDivisor then None else Some share)"

section \<open>One turn of a waiting command\<close>

record heavy_dirs =
  hv_waiting :: "ticket_record dir"
  hv_running :: "holder dir"

record heavy_turn =
  ht_now :: go_time
  ht_alive :: "int \<Rightarrow> bool"
  ht_heartbeat :: bool
  ht_done :: bool
  ht_lock :: "(string, bool) result"
  ht_announce :: bool
  ht_sequence :: int
  ht_sleep_done :: bool

datatype turn_outcome = Cancelled | LockError string | KeepWaiting | Admitted int string

definition waiting_or_done :: "heavy_turn \<Rightarrow> turn_outcome" where
  "waiting_or_done turn = (if ht_sleep_done turn then Cancelled else KeepWaiting)"

text \<open>The part of a turn that runs with the admission lock held.\<close>

definition locked_turn :: "int \<Rightarrow> participant \<Rightarrow> heavy_turn \<Rightarrow> ticket \<Rightarrow> heavy_dirs \<Rightarrow> turn_outcome \<times> ticket \<times> heavy_dirs" where
  "locked_turn n self turn t dirs =
     (case readTicketsIn (ht_alive turn) (ht_now turn) (hv_waiting dirs) of (waitingTickets, waiting) \<Rightarrow>
      let dirs = dirs\<lparr>hv_waiting := waiting\<rparr> in
      if \<not> is_head t waitingTickets then (waiting_or_done turn, t, dirs)
      else case readHolderRecords (ht_alive turn) (ht_now turn) (hv_running dirs) of (runningHeavy, running) \<Rightarrow>
      let dirs = dirs\<lparr>hv_running := running\<rparr> in
      case admissible n runningHeavy (length waitingTickets) of
        None \<Rightarrow> (waiting_or_done turn, t, dirs)
      | Some share \<Rightarrow>
      case announceHeavyHolder (ht_announce turn) (ht_sequence turn) self share (ht_now turn) (hv_running dirs) of
        None \<Rightarrow> (waiting_or_done turn, t, dirs)
      | Some (name, running) \<Rightarrow>
      case Forget t (hv_waiting dirs) of (t, waiting) \<Rightarrow>
        (Admitted share name, t, dirs\<lparr>hv_waiting := waiting, hv_running := running\<rparr>))"

definition heavy_turn :: "int \<Rightarrow> participant \<Rightarrow> heavy_turn \<Rightarrow> ticket \<Rightarrow> heavy_dirs \<Rightarrow> turn_outcome \<times> ticket \<times> heavy_dirs" where
  "heavy_turn n self turn t dirs =
     (let dirs = dirs\<lparr>hv_waiting := ticket_Heartbeat (ht_heartbeat turn) (ht_now turn) t (hv_waiting dirs)\<rparr> in
      if ht_done turn then (Cancelled, t, dirs)
      else case readTicketsIn (ht_alive turn) (ht_now turn) (hv_waiting dirs) of (headTickets, waiting) \<Rightarrow>
      let dirs = dirs\<lparr>hv_waiting := waiting\<rparr> in
      if \<not> is_head t headTickets then (waiting_or_done turn, t, dirs)
      else case ht_lock turn of
        Inl err \<Rightarrow> (LockError err, t, dirs)
      | Inr False \<Rightarrow> (waiting_or_done turn, t, dirs)
      | Inr True \<Rightarrow> locked_turn n self turn t dirs)"

text \<open>
  \<^verbatim>\<open>admitHeavyWithLock\<close>: each turn comes with the directories as the other commands left them.
  \<open>None\<close> is a command that is still waiting when the turns end.
\<close>

fun admitHeavyWithLock ::
  "int \<Rightarrow> participant \<Rightarrow> ticket \<Rightarrow> (heavy_turn \<times> heavy_dirs) list \<Rightarrow> (turn_outcome \<times> heavy_dirs) option" where
  "admitHeavyWithLock n self t [] = None"
| "admitHeavyWithLock n self t ((turn, dirs) # turns) =
     (case heavy_turn n self turn t dirs of
        (KeepWaiting, t', _) \<Rightarrow> admitHeavyWithLock n self t' turns
      | (outcome, _, dirs') \<Rightarrow> Some (outcome, dirs'))"

section \<open>Admission\<close>

datatype namespace = NamespaceLegacy | NamespaceHeavy

text \<open>The namespace a command registers its ticket in, if any.\<close>

definition registerForAdmissionOnMachine :: "flag_parser \<Rightarrow> go_env \<Rightarrow> string list \<Rightarrow> bool \<Rightarrow> namespace option" where
  "registerForAdmissionOnMachine parse_flags ge argv small =
     (let k = classify_argv parse_flags ge argv in
      if k = KindNone then None
      else if small then Some NamespaceLegacy
      else if k = KindFocused then None
      else Some NamespaceHeavy)"

datatype lease = NoLease | SlotLease "nat list" | HeavyLease string

record admission =
  ad_lease :: lease
  ad_units :: int

datatype admit_error = AcquireFailed acquire_error | HeavyCancelled | HeavyLock string

definition admitLegacy :: "string option \<Rightarrow> int \<Rightarrow> int \<Rightarrow> slot_turn list \<Rightarrow> (admit_error, admission) result option" where
  "admitLegacy mkdir units budget turns =
     (let units = (if units > budget then budget else units) in
      map_option (map_sum AcquireFailed (\<lambda>slots. \<lparr>ad_lease = SlotLease slots, ad_units = units\<rparr>))
        (Acquire_slots mkdir units budget turns))"

definition admit_heavy ::
  "int \<Rightarrow> participant \<Rightarrow> ticket \<Rightarrow> (heavy_turn \<times> heavy_dirs) list \<Rightarrow> (admit_error, admission) result option" where
  "admit_heavy n self t turns =
     (case admitHeavyWithLock n self t turns of
        Some (Admitted share name, _) \<Rightarrow> Some (Inr \<lparr>ad_lease = HeavyLease name, ad_units = share\<rparr>)
      | Some (LockError err, _) \<Rightarrow> Some (Inl (HeavyLock err))
      | Some (Cancelled, _) \<Rightarrow> Some (Inl HeavyCancelled)
      | _ \<Rightarrow> None)"

text \<open>
  \<^verbatim>\<open>Admit\<close>. \<open>own\<close> is the ticket of the command: the one the caller registered, or the one the code
  registers itself.
\<close>

definition Admit ::
  "flag_parser \<Rightarrow> go_env \<Rightarrow> int \<Rightarrow> string list \<Rightarrow> participant \<Rightarrow> ticket \<Rightarrow> string option \<Rightarrow> slot_turn list \<Rightarrow>
     (heavy_turn \<times> heavy_dirs) list \<Rightarrow> (admit_error, admission) result option" where
  "Admit parse_flags ge n argv self own mkdir slot_turns heavy_turns =
     (let k = classify_argv parse_flags ge argv; budget = Budget n in
      if k = KindNone then Some (Inr \<lparr>ad_lease = NoLease, ad_units = 0\<rparr>)
      else if smallMachine n then admitLegacy mkdir (smallMachineUnits k budget) budget slot_turns
      else if k = KindFocused then Some (Inr \<lparr>ad_lease = NoLease, ad_units = focusedShare n\<rparr>)
      else admit_heavy n self own heavy_turns)"

definition AdmitExplicit :: "int \<Rightarrow> int \<Rightarrow> string option \<Rightarrow> slot_turn list \<Rightarrow> (admit_error, admission) result option" where
  "AdmitExplicit n units mkdir turns = admitLegacy mkdir units (Budget n) turns"

section \<open>What the queue shows\<close>

text \<open>The holder records of the slot files: \<open>read slot\<close> is the record beside slot file \<open>slot\<close>.\<close>

definition readHolders :: "(int \<Rightarrow> bool) \<Rightarrow> go_time \<Rightarrow> (nat \<Rightarrow> holder option) \<Rightarrow> int \<Rightarrow> holder list" where
  "readHolders alive now read budget =
     sort_key hd_started (List.map_filter (\<lambda>slot. case read slot of
        None \<Rightarrow> None | Some h \<Rightarrow> if holder_live alive now h then Some h else None) [0..<nat (if budget < 1 then 1 else budget)])"

record queue_state =
  qs_position :: nat
  qs_total :: nat
  qs_holders :: "holder list"

fun position_of :: "string \<Rightarrow> (string \<times> ticket_record) list \<Rightarrow> nat \<Rightarrow> nat" where
  "position_of self [] index = 0"
| "position_of self ((name, r) # ts) index = (if name = self then Suc index else position_of self ts (Suc index))"

definition snapshot :: "(string \<times> ticket_record) list \<Rightarrow> holder list \<Rightarrow> string \<Rightarrow> queue_state" where
  "snapshot tickets holders selfPath =
     \<lparr>qs_position = (if selfPath = [] then 0 else position_of selfPath tickets 0), qs_total = length tickets, qs_holders = holders\<rparr>"

record queue_entry =
  qe_pid :: int
  qe_summary :: string
  qe_worktree :: string
  qe_units :: int
  qe_age :: duration

definition holder_key :: "holder \<Rightarrow> string" where
  "holder_key h = Itoa (pt_pid (hd_self h)) @ ''@'' @ Itoa (UnixNano (hd_started h))"

definition record_units :: "holder \<Rightarrow> int" where
  "record_units h = (if hd_units h \<le> 0 then 1 else hd_units h)"

fun group_holders :: "go_time \<Rightarrow> (string \<times> queue_entry) list \<Rightarrow> holder list \<Rightarrow> (string \<times> queue_entry) list" where
  "group_holders now entries [] = entries"
| "group_holders now entries (h # hs) =
     (case map_of entries (holder_key h) of
        Some e \<Rightarrow> group_holders now (AList.update (holder_key h) (e\<lparr>qe_units := qe_units e + record_units h\<rparr>) entries) hs
      | None \<Rightarrow> group_holders now (entries @ [(holder_key h,
          \<lparr>qe_pid = pt_pid (hd_self h), qe_summary = pt_summary (hd_self h), qe_worktree = pt_worktree (hd_self h),
           qe_units = record_units h, qe_age = time_sub now (hd_started h)\<rparr>)]) hs)"

definition groupRunningHolders :: "holder list \<Rightarrow> go_time \<Rightarrow> queue_entry list" where
  "groupRunningHolders holders now = map snd (group_holders now [] holders)"

definition waiting_entry :: "go_time \<Rightarrow> string \<times> ticket_record \<Rightarrow> queue_entry" where
  "waiting_entry now t =
     \<lparr>qe_pid = pt_pid (tr_self (snd t)), qe_summary = pt_summary (tr_self (snd t)), qe_worktree = pt_worktree (tr_self (snd t)),
      qe_units = 0, qe_age = time_sub now (tr_created (snd t))\<rparr>"

record queue_listing =
  ql_budget :: int
  ql_running :: "queue_entry list"
  ql_waiting :: "queue_entry list"
  ql_heavy_k :: nat

definition ListQueue ::
  "(int \<Rightarrow> bool) \<Rightarrow> go_time \<Rightarrow> int \<Rightarrow> (nat \<Rightarrow> holder option) \<Rightarrow> ticket_record dir \<Rightarrow> heavy_dirs \<Rightarrow> queue_listing" where
  "ListQueue alive now budget slots legacy dirs =
     (let heavyRunning = fst (readHolderRecords alive now (hv_running dirs));
          heavyWaiting = fst (readTicketsIn alive now (hv_waiting dirs)) in
      \<lparr>ql_budget = budget,
       ql_running = groupRunningHolders (readHolders alive now slots budget) now @ groupRunningHolders heavyRunning now,
       ql_waiting = map (waiting_entry now) (fst (readTicketsIn alive now legacy)) @ map (waiting_entry now) heavyWaiting,
       ql_heavy_k = length heavyRunning + length heavyWaiting\<rparr>)"

end
