(* ===== verification/Run_Queue_Props.thy ===== *)
theory Run_Queue_Props
  imports Heavy_Queue
begin

text \<open>
  Properties of the classification, the shares and the slot pool of small machines.
\<close>

section \<open>Slots\<close>

lemma take_slots_filter:
  "length held \<le> units \<Longrightarrow> take_slots (\<lambda>_. None) free units slots held =
     (if units \<le> length held + length (filter free slots) then SlotsHeld (held @ take (units - length held) (filter free slots))
      else SlotsBusy)"
proof (induction slots arbitrary: held)
  case (Cons slot slots)
  show ?case
  proof (cases "length held = units")
    case False
    then have less: "length held < units" using Cons.prems by simp
    show ?thesis
    proof (cases "free slot")
      case True
      have "units - length held = Suc (units - Suc (length held))" using less by simp
      then show ?thesis using Cons.IH [of "held @ [slot]"] less True by simp
    next
      case free: False
      then show ?thesis using Cons.IH [OF Cons.prems] less by simp
    qed
  qed simp
qed auto

text \<open>
  a pass over the slot files is all or nothing. It gets the lowest free slots, as many as asked
  for, exactly when that many are free, and otherwise holds none: two commands that want several
  slots cannot each keep part of what the other needs.
\<close>

theorem slot_pass_exact:
  "take_slots (\<lambda>_. None) free units [0..<budget] [] =
     (let available = filter free [0..<budget] in
      if units \<le> length available then SlotsHeld (take units available) else SlotsBusy)"
  by (simp add: take_slots_filter)

section \<open>Shares\<close>

lemma take_slots_length:
  "take_slots open_slot free units slots held = SlotsHeld hs \<Longrightarrow> length hs = units"
  by (induction slots arbitrary: held) (auto split: if_split_asm option.split_asm)

lemma acquire_loop_length: "acquire_loop units budget turns = Some (Inr slots) \<Longrightarrow> length slots = units"
  by (induction turns) (auto split: slot_pass.split_asm if_split_asm dest: take_slots_length)

lemma Acquire_slots_length:
  "Acquire_slots mkdir units budget turns = Some (Inr slots) \<Longrightarrow> 1 \<le> budget \<Longrightarrow> units \<le> budget \<Longrightarrow> int (length slots) = max 0 units"
  by (auto simp: Acquire_slots_def Acquire_units_def Let_def split: if_split_asm option.split_asm dest!: acquire_loop_length)

lemma smallMachineUnits_bounds: "1 \<le> budget \<Longrightarrow> k \<noteq> KindNone \<Longrightarrow> 1 \<le> smallMachineUnits k budget \<and> smallMachineUnits k budget \<le> budget"
  by (cases k) (auto simp: smallMachineUnits_def clampToCapacity_def)

lemma admitHeavyWithLock_Admitted:
  "admitHeavyWithLock n self t turns = Some (Admitted s name, dirs) \<Longrightarrow>
     \<exists>turn t' dirs' t''. heavy_turn n self turn t' dirs' = (Admitted s name, t'', dirs)"
proof (induction turns arbitrary: t)
  case (Cons x turns)
  obtain turn dirs' where x: "x = (turn, dirs')" by fastforce
  obtain o' t' d where h: "heavy_turn n self turn t dirs' = (o', t', d)" by (metis surj_pair)
  show ?case using Cons h by (cases o') (auto simp: x)
qed simp

lemma heavy_turn_share:
  assumes "heavy_turn n self turn t dirs = (Admitted s name, t', dirs')" "0 \<le> n"
  shows "n div 4 \<le> s \<and> s \<le> n"
proof -
  have "\<exists>hs k. admissible n hs k = Some s" using assms(1)
    by (auto simp: heavy_turn_def locked_turn_def waiting_or_done_def Let_def
        split: prod.split_asm sum.split_asm bool.split_asm option.split_asm if_split_asm)
  then show ?thesis
    using assms(2) by (auto simp: admissible_def heavyAdmissionCandidate_def Let_def heavyShareFloorDivisor_def heavyShare_def
        split: if_split_asm)
qed

text \<open>
  C28: what an admitted command may use. A command outside the policy gets no share and holds nothing.
  On a machine with fewer than eight CPUs the budget is all but one of them, or the only one. A focused
  command gets one CPU, a broad one two as far as the budget goes, one with race detection or coverage
  the whole budget, and each holds exactly as many slots as CPUs it was told to use. On a larger
  machine a focused command is told to use an eighth of the CPUs, at least one, and holds nothing for
  them; any other is told between a quarter and all of them, and holds a record of the heavy queue.
\<close>

theorem admitted_share_bounds:
  assumes "Admit parse_flags ge n argv self own mkdir slot_turns heavy_turns = Some (Inr ad)" "1 \<le> n"
    and "k = classify_argv parse_flags ge argv"
  shows "(k = KindNone \<longrightarrow> ad_units ad = 0 \<and> ad_lease ad = NoLease) \<and>
    (k \<noteq> KindNone \<and> n < 8 \<longrightarrow>
       ad_units ad = (if k = KindFocused then 1 else if k = KindBroad then min 2 (max 1 (n - 1)) else max 1 (n - 1)) \<and>
       (\<exists>slots. ad_lease ad = SlotLease slots \<and> int (length slots) = ad_units ad)) \<and>
    (k = KindFocused \<and> 8 \<le> n \<longrightarrow> ad_units ad = n div 8 \<and> ad_lease ad = NoLease) \<and>
    (k \<in> {KindBroad, KindRaceOrCover} \<and> 8 \<le> n \<longrightarrow>
       n div 4 \<le> ad_units ad \<and> ad_units ad \<le> n \<and> (\<exists>name. ad_lease ad = HeavyLease name))"
proof (cases "k = KindNone")
  case True
  then show ?thesis using assms by (auto simp: Admit_def Let_def)
next
  case gov: False
  show ?thesis
  proof (cases "n < 8")
    case True
    have b: "1 \<le> Budget n" "Budget n = max 1 (n - 1)" using assms(2) by (auto simp: Budget_def)
    have small: "smallMachine n" using True by (simp add: smallMachine_def smallMachineThreshold_def)
    note u = smallMachineUnits_bounds [OF b(1) gov]
    then have "admitLegacy mkdir (smallMachineUnits k (Budget n)) (Budget n) slot_turns = Some (Inr ad)"
      using assms gov small by (simp add: Admit_def Let_def)
    then obtain slots where s: "Acquire_slots mkdir (smallMachineUnits k (Budget n)) (Budget n) slot_turns = Some (Inr slots)"
        "ad = \<lparr>ad_lease = SlotLease slots, ad_units = smallMachineUnits k (Budget n)\<rparr>"
      using u by (cases "the (Acquire_slots mkdir (smallMachineUnits k (Budget n)) (Budget n) slot_turns)")
        (auto simp: admitLegacy_def Let_def)
    have "int (length slots) = smallMachineUnits k (Budget n)"
      using Acquire_slots_length [OF s(1) b(1)] u by simp
    moreover have "smallMachineUnits k (Budget n) = (if k = KindFocused then 1 else if k = KindBroad then min 2 (max 1 (n - 1)) else max 1 (n - 1))"
      using gov b by (cases k) (auto simp: smallMachineUnits_def clampToCapacity_def)
    ultimately show ?thesis using True gov s(2) by auto
  next
    case False
    have large: "\<not> smallMachine n" using False by (simp add: smallMachine_def smallMachineThreshold_def)
    show ?thesis
    proof (cases "k = KindFocused")
      case True
      have "max 1 (n div 8) = n div 8" using False by (simp add: max_def)
      then show ?thesis using True assms large False by (auto simp: Admit_def Let_def focusedShare_def)
    next
      case heavy: False
      have "admit_heavy n self own heavy_turns = Some (Inr ad)" using assms gov large heavy by (simp add: Admit_def Let_def)
      then obtain s name dirs where a: "admitHeavyWithLock n self own heavy_turns = Some (Admitted s name, dirs)" "ad_units ad = s"
          "ad_lease ad = HeavyLease name"
        by (auto simp: admit_heavy_def split: option.split_asm turn_outcome.split_asm)
      then show ?thesis using admitHeavyWithLock_Admitted [OF a(1)] heavy_turn_share assms(2) gov heavy False by fastforce
    qed
  qed
qed

definition sample_env :: go_env where
  "sample_env = \<lparr>ge_GOFLAGS = [], ge_persisted = None\<rparr>"

definition free_turn :: slot_turn where
  "free_turn = \<lparr>sl_open = (\<lambda>_. None), sl_free = (\<lambda>slot. slot \<noteq> 1), sl_done = False\<rparr>"

definition nobody :: participant where
  "nobody = \<lparr>pt_pid = 7, pt_summary = ''go test'', pt_worktree = []\<rparr>"

lemma sample_broad: "classify_argv (\<lambda>_. None) sample_env [''go'', ''test'', ''./...''] = KindBroad"
  by code_simp

lemma sample_admission:
  "Admit (\<lambda>_. None) sample_env 4 [''go'', ''test'', ''./...''] nobody \<lparr>tk_name = [], tk_created_at = 0, tk_self = nobody\<rparr> None
     [free_turn] [] = Some (Inr \<lparr>ad_lease = SlotLease [0, 2], ad_units = 2\<rparr>)"
  by (simp add: Admit_def Let_def sample_broad smallMachine_def smallMachineThreshold_def admitLegacy_def smallMachineUnits_def
      clampToCapacity_def Budget_def Acquire_slots_def Acquire_units_def free_turn_def take_slots_filter upt_rec numeral_eq_Suc)

theorem admitted_share_bounds_witness:
  "classify_argv (\<lambda>_. None) sample_env [''go'', ''test'', ''./...''] = KindBroad \<and>
   (\<exists>slots. SlotLease [0, 2] = SlotLease slots \<and> int (length slots) = (2 :: int)) \<and> (2 :: int) \<le> max 1 (4 - 1)"
  using admitted_share_bounds [OF sample_admission _ refl] sample_broad by simp

section \<open>Classification\<close>

text \<open>
  a lint of the whole repository counts as light. The comment on the classification of
  \<^verbatim>\<open>golangci-lint\<close> counts a run without a target, which lints everything, as broad; the code asks only
  for an explicit target with dots, so such a run is admitted at once beside heavy commands.
\<close>

theorem untargeted_lint_is_focused:
  "classify_argv parse_flags ge [''golangci-lint'', ''run''] = KindFocused \<and>
   classify_argv parse_flags ge [''golangci-lint'', ''run'', ''./...''] = KindBroad"
proof -
  have "ToLower (Base ''golangci-lint'') = ''golangci-lint''" by code_simp
  moreover have "\<not> hasBroadScope [''run'']" "hasBroadScope [''run'', ''./...'']" by code_simp+
  ultimately show ?thesis by (simp add: classify_argv_def)
qed

end
