(* ===== verification/Heavy_Machine.thy ===== *)
theory Heavy_Machine
  imports Heavy_Queue
begin

text \<open>
  Any number of commands sharing one queue of a large machine, step by step. Every step is one
  access to the directories or the admission lock, with the operations of \<open>Heavy_Queue\<close>; steps of
  different commands interleave freely, commands die at any point, and time passes.

  Two facts about the surroundings are part of the relation. A record name, which holds the start
  time, the process id and a counter of the process, is new. Time does not pass a running command by:
  its heartbeat, armed every ten seconds while the lease is held, comes before its record is thirty
  seconds old. Both are needed: a holder whose record is taken for stale is invisible to the cap.
\<close>

section \<open>States and steps\<close>

datatype pc =
    Outside
  | Waiting ticket
  | AtHead ticket
  | HasLock ticket
  | SawQueue ticket nat
  | Decided ticket int
  | Announced ticket int string go_time
  | Forgotten int string go_time
  | Running int string go_time
  | Dead

record machine =
  mc_dirs :: heavy_dirs
  mc_lock :: "nat option"
  mc_pc :: "nat \<Rightarrow> pc"
  mc_now :: go_time
  mc_alive :: "int \<Rightarrow> bool"

abbreviation waiting_of :: "machine \<Rightarrow> ticket_record dir" where
  "waiting_of m \<equiv> hv_waiting (mc_dirs m)"

abbreviation running_of :: "machine \<Rightarrow> holder dir" where
  "running_of m \<equiv> hv_running (mc_dirs m)"

definition goto :: "nat \<Rightarrow> pc \<Rightarrow> machine \<Rightarrow> machine" where
  "goto p c m = m\<lparr>mc_pc := (mc_pc m)(p := c)\<rparr>"

definition put_waiting :: "ticket_record dir \<Rightarrow> machine \<Rightarrow> machine" where
  "put_waiting d m = m\<lparr>mc_dirs := (mc_dirs m)\<lparr>hv_waiting := d\<rparr>\<rparr>"

definition put_running :: "holder dir \<Rightarrow> machine \<Rightarrow> machine" where
  "put_running d m = m\<lparr>mc_dirs := (mc_dirs m)\<lparr>hv_running := d\<rparr>\<rparr>"

definition set_lock :: "nat option \<Rightarrow> machine \<Rightarrow> machine" where
  "set_lock l m = m\<lparr>mc_lock := l\<rparr>"

text \<open>The share and the record of a command that counts as running.\<close>

fun active :: "pc \<Rightarrow> (int \<times> string) option" where
  "active (Announced t s name at) = Some (s, name)"
| "active (Forgotten s name at) = Some (s, name)"
| "active (Running s name at) = Some (s, name)"
| "active _ = None"

fun in_lock :: "pc \<Rightarrow> bool" where
  "in_lock (HasLock t) = True"
| "in_lock (SawQueue t k) = True"
| "in_lock (Decided t s) = True"
| "in_lock (Announced t s name at) = True"
| "in_lock (Forgotten s name at) = True"
| "in_lock _ = False"

definition fresh_at :: "go_time \<Rightarrow> holder \<Rightarrow> bool" where
  "fresh_at now h \<longleftrightarrow> is_zero_time (hd_updated h) \<or> time_sub now (hd_updated h) < staleAfter"

definition timely :: "go_time \<Rightarrow> machine \<Rightarrow> bool" where
  "timely now m \<longleftrightarrow>
     (\<forall>p s name h at. active (mc_pc m p) = Some (s, name) \<and> map_of (running_of m) name = Some (DFile (Some h) at) \<longrightarrow>
        fresh_at now h)"

definition died :: "(nat \<Rightarrow> participant) \<Rightarrow> int \<Rightarrow> machine \<Rightarrow> machine" where
  "died self pid m =
     m\<lparr>mc_alive := (mc_alive m)(pid := False),
       mc_pc := (\<lambda>q. if pt_pid (self q) = pid \<and> mc_pc m q \<noteq> Outside then Dead else mc_pc m q),
       mc_lock := (case mc_lock m of None \<Rightarrow> None | Some q \<Rightarrow> if pt_pid (self q) = pid then None else Some q)\<rparr>"

inductive heavy_step :: "int \<Rightarrow> (nat \<Rightarrow> participant) \<Rightarrow> machine \<Rightarrow> machine \<Rightarrow> bool"
  for n :: int and self :: "nat \<Rightarrow> participant" where
  register: "mc_pc m p = Outside \<Longrightarrow> mc_alive m (pt_pid (self p)) \<Longrightarrow>
     registerAtTime stored sequence (self p) (mc_now m) (waiting_of m) = (t, d) \<Longrightarrow>
     heavy_step n self m (goto p (Waiting t) (put_waiting d m))"
| ticket_beat: "mc_pc m p = Waiting t \<Longrightarrow>
     heavy_step n self m (put_waiting (ticket_Heartbeat stored (mc_now m) t (waiting_of m)) m)"
| look: "mc_pc m p = Waiting t \<Longrightarrow> readTicketsIn (mc_alive m) (mc_now m) (waiting_of m) = (ts, d) \<Longrightarrow>
     heavy_step n self m (goto p (if is_head t ts then AtHead t else Waiting t) (put_waiting d m))"
| lock_busy: "mc_pc m p = AtHead t \<Longrightarrow> heavy_step n self m (goto p (Waiting t) m)"
| lock: "mc_pc m p = AtHead t \<Longrightarrow> mc_lock m = None \<Longrightarrow> heavy_step n self m (goto p (HasLock t) (set_lock (Some p) m))"
| look_again: "mc_pc m p = HasLock t \<Longrightarrow> readTicketsIn (mc_alive m) (mc_now m) (waiting_of m) = (ts, d) \<Longrightarrow> is_head t ts \<Longrightarrow>
     heavy_step n self m (goto p (SawQueue t (length ts)) (put_waiting d m))"
| lost_head: "mc_pc m p = HasLock t \<Longrightarrow> readTicketsIn (mc_alive m) (mc_now m) (waiting_of m) = (ts, d) \<Longrightarrow> \<not> is_head t ts \<Longrightarrow>
     heavy_step n self m (goto p (Waiting t) (set_lock None (put_waiting d m)))"
| decide: "mc_pc m p = SawQueue t k \<Longrightarrow> readHolderRecords (mc_alive m) (mc_now m) (running_of m) = (hs, d) \<Longrightarrow>
     admissible n hs k = Some s \<Longrightarrow> heavy_step n self m (goto p (Decided t s) (put_running d m))"
| no_room: "mc_pc m p = SawQueue t k \<Longrightarrow> readHolderRecords (mc_alive m) (mc_now m) (running_of m) = (hs, d) \<Longrightarrow>
     admissible n hs k = None \<Longrightarrow> heavy_step n self m (goto p (Waiting t) (set_lock None (put_running d m)))"
| announce: "mc_pc m p = Decided t s \<Longrightarrow>
     announceHeavyHolder True sequence (self p) s (mc_now m) (running_of m) = Some (name, d) \<Longrightarrow>
     map_of (running_of m) name = None \<Longrightarrow>
     heavy_step n self m (goto p (Announced t s name (mc_now m)) (put_running d m))"
| announce_failed: "mc_pc m p = Decided t s \<Longrightarrow> heavy_step n self m (goto p (Waiting t) (set_lock None m))"
| forget: "mc_pc m p = Announced t s name at \<Longrightarrow>
     heavy_step n self m (goto p (Forgotten s name at) (put_waiting (snd (Forget t (waiting_of m))) m))"
| unlock: "mc_pc m p = Forgotten s name at \<Longrightarrow> heavy_step n self m (goto p (Running s name at) (set_lock None m))"
| holder_beat: "mc_pc m p = Running s name at \<Longrightarrow>
     heavy_step n self m (put_running (heartbeatHeavyHolder stored name (self p) s at (mc_now m) (running_of m)) m)"
| release: "mc_pc m p = Running s name at \<Longrightarrow>
     heavy_step n self m (goto p Outside (put_running (removeHeavyHolder name (running_of m)) m))"
| give_up: "mc_pc m p = Waiting t \<Longrightarrow>
     heavy_step n self m (goto p Outside (put_waiting (snd (Forget t (waiting_of m))) m))"
| die: "heavy_step n self m (died self pid m)"
| spawn: "heavy_step n self m (m\<lparr>mc_alive := (mc_alive m)(pid := True)\<rparr>)"
| tick: "0 \<le> d \<Longrightarrow> timely (mc_now m + d) m \<Longrightarrow> heavy_step n self m (m\<lparr>mc_now := mc_now m + d\<rparr>)"

definition heavy_init :: "machine \<Rightarrow> bool" where
  "heavy_init m \<longleftrightarrow> (\<forall>p. mc_pc m p = Outside) \<and> mc_lock m = None \<and> distinct (map fst (running_of m)) \<and>
     (\<forall>name h at. (name, DFile (Some h) at) \<in> set (running_of m) \<longrightarrow> 0 \<le> hd_units h)"

section \<open>What is allocated\<close>

definition actives :: "machine \<Rightarrow> nat set" where
  "actives m = {p. active (mc_pc m p) \<noteq> None}"

definition share_of :: "machine \<Rightarrow> nat \<Rightarrow> int" where
  "share_of m p = fst (the (active (mc_pc m p)))"

definition record_of :: "machine \<Rightarrow> nat \<Rightarrow> string" where
  "record_of m p = snd (the (active (mc_pc m p)))"

definition allocated :: "machine \<Rightarrow> int" where
  "allocated m = (\<Sum>p\<in>actives m. share_of m p)"

definition heavy_cap :: "int \<Rightarrow> int" where
  "heavy_cap n = n * heavyCapNumerator div heavyCapDenominator"

section \<open>The invariant\<close>

definition recorded :: "(nat \<Rightarrow> participant) \<Rightarrow> machine \<Rightarrow> nat \<Rightarrow> bool" where
  "recorded self m p \<longleftrightarrow> mc_alive m (pt_pid (self p)) \<and> record_of m p \<noteq> [] \<and> \<not> HasPrefix (record_of m p) ''.'' \<and>
     (\<exists>h at. map_of (running_of m) (record_of m p) = Some (DFile (Some h) at) \<and> hd_units h = share_of m p \<and>
        hd_self h = self p \<and> fresh_at (mc_now m) h)"

definition dir_ok :: "holder dir \<Rightarrow> bool" where
  "dir_ok d \<longleftrightarrow> distinct (map fst d) \<and> (\<forall>name h at. map_of d name = Some (DFile (Some h) at) \<longrightarrow> 0 \<le> hd_units h)"

definition heavy_inv :: "int \<Rightarrow> (nat \<Rightarrow> participant) \<Rightarrow> machine \<Rightarrow> bool" where
  "heavy_inv n self m \<longleftrightarrow>
     finite {p. mc_pc m p \<noteq> Outside} \<and> dir_ok (running_of m) \<and>
     (\<forall>p. in_lock (mc_pc m p) \<longleftrightarrow> mc_lock m = Some p) \<and>
     (\<forall>p \<in> actives m. recorded self m p) \<and> inj_on (record_of m) (actives m) \<and>
     allocated m \<le> heavy_cap n \<and> card (actives m) \<le> heavyDefensiveMax \<and>
     (\<forall>p t s. mc_pc m p = Decided t s \<longrightarrow>
        0 \<le> s \<and> allocated m + s \<le> heavy_cap n \<and> card (actives m) < heavyDefensiveMax)"

lemma machine_simps [simp]:
  "mc_pc (goto p c m) = (mc_pc m)(p := c)" "mc_dirs (goto p c m) = mc_dirs m" "mc_lock (goto p c m) = mc_lock m"
  "mc_now (goto p c m) = mc_now m" "mc_alive (goto p c m) = mc_alive m"
  "mc_pc (put_waiting w m) = mc_pc m" "running_of (put_waiting w m) = running_of m" "mc_lock (put_waiting w m) = mc_lock m"
  "mc_now (put_waiting w m) = mc_now m" "mc_alive (put_waiting w m) = mc_alive m" "waiting_of (put_waiting w m) = w"
  "mc_pc (put_running d m) = mc_pc m" "running_of (put_running d m) = d" "mc_lock (put_running d m) = mc_lock m"
  "mc_now (put_running d m) = mc_now m" "mc_alive (put_running d m) = mc_alive m" "waiting_of (put_running d m) = waiting_of m"
  "mc_pc (set_lock l m) = mc_pc m" "mc_dirs (set_lock l m) = mc_dirs m" "mc_lock (set_lock l m) = l"
  "mc_now (set_lock l m) = mc_now m" "mc_alive (set_lock l m) = mc_alive m"
  by (simp_all add: goto_def put_waiting_def put_running_def set_lock_def)

lemma active_None_lock: "active c = None \<longleftrightarrow> (\<forall>s name. active c \<noteq> Some (s, name))"
  by (cases "active c") auto

lemma finite_actives: "finite {p. mc_pc m p \<noteq> Outside} \<Longrightarrow> finite (actives m)"
  by (rule finite_subset [of _ "{p. mc_pc m p \<noteq> Outside}"]) (auto simp: actives_def)

lemma same_actives:
  assumes "\<And>p. active (mc_pc m' p) = active (mc_pc m p)"
  shows "actives m' = actives m" "share_of m' = share_of m" "record_of m' = record_of m" "allocated m' = allocated m"
  using assms by (auto simp: actives_def share_of_def record_of_def allocated_def fun_eq_iff)

lemma recorded_share_nonneg: "dir_ok (running_of m) \<Longrightarrow> recorded self m p \<Longrightarrow> 0 \<le> share_of m p"
  unfolding recorded_def dir_ok_def by metis

lemma in_map_filter: "y \<in> set (List.map_filter f xs) \<longleftrightarrow> (\<exists>x \<in> set xs. f x = Some y)"
  by (induction xs) (auto simp: List.map_filter_simps split: option.split)

section \<open>Reading the holders sees every running command\<close>

lemma read_entry_Some:
  "read_entry live e = Some (name, r) \<longleftrightarrow> (\<exists>at. e = (name, DFile (Some r) at)) \<and> \<not> HasPrefix name ''.'' \<and> live r"
  by (cases e; cases "snd e") (auto simp: read_entry_def split: option.split)

lemma map_filter_distinct:
  "distinct (map fst d) \<Longrightarrow> distinct (map fst (List.map_filter (read_entry live) d))"
proof (induction d)
  case (Cons e d)
  have "fst x \<noteq> fst e" if "x \<in> set (List.map_filter (read_entry live) d)" for x
  proof -
    obtain name r where x: "x = (name, r)" by fastforce
    from that have "\<exists>at. (name, DFile (Some r) at) \<in> set d" by (auto simp: x in_map_filter read_entry_Some)
    then have "name \<in> fst ` set d" by (metis fst_conv image_eqI)
    moreover have "fst e \<notin> fst ` set d" using Cons.prems by simp
    ultimately show ?thesis unfolding x fst_conv by metis
  qed
  moreover have "fst y = fst e" if "read_entry live e = Some y" for y
    using that by (cases y) (auto simp: read_entry_Some)
  ultimately have "read_entry live e = Some y \<Longrightarrow> fst y \<notin> fst ` set (List.map_filter (read_entry live) d)" for y
    by (metis imageE)
  then show ?case using Cons by (auto simp: List.map_filter_simps split: option.split)
qed (simp add: List.map_filter_simps)

lemma set_map_filter_read:
  "set (List.map_filter (read_entry live) d) = {(name, r). (\<exists>at. (name, DFile (Some r) at) \<in> set d) \<and> \<not> HasPrefix name ''.'' \<and> live r}"
  by (auto simp: in_map_filter read_entry_Some) blast

lemma map_of_filter_keys:
  "distinct (map fst d) \<Longrightarrow>
     map_of (filter P d) k = (case map_of d k of Some v \<Rightarrow> if P (k, v) then Some v else None | None \<Rightarrow> None)"
proof (induction d)
  case (Cons e d)
  have "map_of (filter P d) (fst e) = None" using Cons.prems by (auto simp: map_of_eq_None_iff)
  then show ?case using Cons by (cases e) auto
qed simp

lemma sum_list_key: "distinct (map fst xs) \<Longrightarrow> sum_list (map f xs) = (\<Sum>x\<in>set xs. f x)"
  by (metis distinct_map sum_list_distinct_conv_sum_set)

lemma readHolderRecords_sees:
  assumes ok: "dir_ok (running_of m)" and fin: "finite (actives m)" and inj: "inj_on (record_of m) (actives m)"
    and rec: "\<forall>p \<in> actives m. recorded self m p"
    and r: "readHolderRecords (mc_alive m) (mc_now m) (running_of m) = (hs, d)"
  shows "allocated m \<le> sum_list (map hd_units hs)" "card (actives m) \<le> length hs"
    "p \<in> actives m \<Longrightarrow> map_of d (record_of m p) = map_of (running_of m) (record_of m p)" "dir_ok d"
proof -
  let ?live = "holder_live (mc_alive m) (mc_now m)"
  let ?L = "List.map_filter (read_entry ?live) (running_of m)"
  have dL: "distinct (map fst ?L)" using ok by (simp add: dir_ok_def map_filter_distinct)
  have hs: "mset hs = mset (map snd ?L)" and d: "d = filter (entry_stays (mc_now m) ?live) (running_of m)"
    using r by (auto simp: readHolderRecords_def)
  define ent where "ent p = (record_of m p, the (case map_of (running_of m) (record_of m p) of
      Some (DFile c at) \<Rightarrow> c | _ \<Rightarrow> None))" for p
  have ent: "ent p \<in> set ?L \<and> hd_units (snd (ent p)) = share_of m p \<and> entry_stays (mc_now m) ?live
      (record_of m p, the (map_of (running_of m) (record_of m p)))" if act: "p \<in> actives m" for p
  proof -
    obtain h at where h: "map_of (running_of m) (record_of m p) = Some (DFile (Some h) at)" "hd_units h = share_of m p"
        "hd_self h = self p" "fresh_at (mc_now m) h" "mc_alive m (pt_pid (self p))" "\<not> HasPrefix (record_of m p) ''.''"
      using bspec [OF rec act] unfolding recorded_def by blast
    have "?live h" using h(3-5) by (auto simp: holder_live_def isLive_def fresh_at_def)
    then show ?thesis using h map_of_SomeD [OF h(1)] by (auto simp: ent_def set_map_filter_read entry_stays_def)
  qed
  have inj': "inj_on ent (actives m)" using inj by (auto simp: inj_on_def ent_def)
  have sub: "ent ` actives m \<subseteq> set ?L" using ent by blast
  have nonneg: "0 \<le> hd_units (snd x)" if x: "x \<in> set ?L" for x
  proof -
    obtain at where "(fst x, DFile (Some (snd x)) at) \<in> set (running_of m)" using x by (auto simp: set_map_filter_read)
    then show ?thesis using ok unfolding dir_ok_def by (metis map_of_is_SomeI)
  qed
  have "allocated m = (\<Sum>p\<in>actives m. hd_units (snd (ent p)))" unfolding allocated_def by (rule sum.cong) (use ent in auto)
  also have "\<dots> = (\<Sum>x\<in>ent ` actives m. hd_units (snd x))" by (simp add: sum.reindex [OF inj'] o_def)
  also have "\<dots> \<le> (\<Sum>x\<in>set ?L. hd_units (snd x))" by (rule sum_mono2 [OF _ sub]) (use nonneg in auto)
  also have "\<dots> = sum_list (map (\<lambda>x. hd_units (snd x)) ?L)" by (rule sum_list_key [OF dL, symmetric])
  also have "\<dots> = sum_list (map hd_units (map snd ?L))" by (simp only: map_map o_def)
  also have "\<dots> = sum_mset (image_mset hd_units (mset (map snd ?L)))" by (simp only: sum_mset_sum_list flip: mset_map)
  also have "\<dots> = sum_list (map hd_units hs)" unfolding hs [symmetric] by (simp only: sum_mset_sum_list flip: mset_map)
  finally show "allocated m \<le> sum_list (map hd_units hs)" .
  have "card (actives m) = card (ent ` actives m)" by (simp add: card_image inj')
  also have "\<dots> \<le> length ?L" using card_mono [OF _ sub] card_length [of ?L] by (meson finite_set le_trans)
  finally show "card (actives m) \<le> length hs" using mset_eq_length [OF hs] by simp
  have dk: "distinct (map fst (running_of m))" using ok by (simp add: dir_ok_def)
  then have dd: "distinct (map fst d)" unfolding d by (rule distinct_map_filter)
  have mo: "map_of d k = (case map_of (running_of m) k of Some v \<Rightarrow> if entry_stays (mc_now m) ?live (k, v) then Some v else None | None \<Rightarrow> None)" for k
    unfolding d by (rule map_of_filter_keys [OF dk])
  show "p \<in> actives m \<Longrightarrow> map_of d (record_of m p) = map_of (running_of m) (record_of m p)"
    using ent [of p] by (auto simp: mo split: option.split)
  show "dir_ok d" using ok dd by (auto simp: dir_ok_def mo split: option.split_asm if_split_asm) blast
qed

section \<open>Every step keeps the invariant\<close>

lemma recorded_cong:
  assumes "recorded self m p" "\<And>q. active (mc_pc m' q) = active (mc_pc m q)"
    and "map_of (running_of m') (record_of m p) = map_of (running_of m) (record_of m p)"
    and "mc_alive m' = mc_alive m" "mc_now m' = mc_now m"
  shows "recorded self m' p"
  using assms(1) unfolding recorded_def same_actives [OF assms(2)] assms(3-) .

lemma inv_frame:
  assumes inv: "heavy_inv n self m" and same: "\<And>p. active (mc_pc m' p) = active (mc_pc m p)"
    and rec: "\<And>p. p \<in> actives m \<Longrightarrow> recorded self m' p" and dir: "dir_ok (running_of m')"
    and fin: "finite {p. mc_pc m' p \<noteq> Outside}" and lock: "\<And>p. in_lock (mc_pc m' p) \<longleftrightarrow> mc_lock m' = Some p"
    and dec: "\<And>p t s. mc_pc m' p = Decided t s \<Longrightarrow> mc_pc m p = Decided t s \<or>
      0 \<le> s \<and> allocated m + s \<le> heavy_cap n \<and> card (actives m) < heavyDefensiveMax"
  shows "heavy_inv n self m'"
  using inv rec dir fin lock dec unfolding heavy_inv_def same_actives [OF same] by blast

lemma finite_goto: "finite {p. f p \<noteq> Outside} \<Longrightarrow> finite {p. (f(q := c)) p \<noteq> Outside}"
  by (rule finite_subset [of _ "insert q {p. f p \<noteq> Outside}"]) auto

lemma inv_lock: "heavy_inv n self m \<Longrightarrow> in_lock (mc_pc m q) \<longleftrightarrow> mc_lock m = Some q"
  by (simp add: heavy_inv_def)

lemma inv_finite: "heavy_inv n self m \<Longrightarrow> finite {p. ((mc_pc m)(q := c)) p \<noteq> Outside}"
  unfolding heavy_inv_def by (blast intro: finite_goto)

text \<open>
  The steps that leave the records alone: they move one command between states with the same
  record, or take or give back the lock.
\<close>

lemma inv_quiet:
  assumes inv: "heavy_inv n self m" and pc: "mc_pc m' = (mc_pc m)(p := c)" and act: "active c = active (mc_pc m p)"
    and env: "mc_alive m' = mc_alive m" "mc_now m' = mc_now m" "running_of m' = running_of m"
    and lock: "in_lock c \<and> mc_lock m' = Some p \<and> (mc_lock m = None \<or> in_lock (mc_pc m p)) \<or>
      \<not> in_lock c \<and> mc_lock m' = (if in_lock (mc_pc m p) then None else mc_lock m)"
    and dec: "\<And>t s. c \<noteq> Decided t s"
  shows "heavy_inv n self m'"
proof (rule inv_frame [OF inv])
  show same: "active (mc_pc m' q) = active (mc_pc m q)" for q using pc act by simp
  show "recorded self m' q" if "q \<in> actives m" for q
    using recorded_cong [OF _ same] env inv that by (simp add: heavy_inv_def)
  show "dir_ok (running_of m')" using inv env by (simp add: heavy_inv_def)
  show "finite {p. mc_pc m' p \<noteq> Outside}" unfolding pc by (rule inv_finite [OF inv])
  show "in_lock (mc_pc m' q) \<longleftrightarrow> mc_lock m' = Some q" for q
    using lock inv_lock [OF inv, of q] inv_lock [OF inv, of p] unfolding pc by (cases "q = p") (auto split: if_split_asm)
  show "mc_pc m' q = Decided t s \<Longrightarrow> mc_pc m q = Decided t s \<or>
      0 \<le> s \<and> allocated m + s \<le> heavy_cap n \<and> card (actives m) < heavyDefensiveMax" for q t s
    using dec [of t s] unfolding pc by (simp split: if_split_asm)
qed

lemma inv_goto:
  assumes "heavy_inv n self m" "active c = active (mc_pc m p)" "\<And>t s. c \<noteq> Decided t s"
    and "mc_pc m' = mc_pc m" "mc_alive m' = mc_alive m" "mc_now m' = mc_now m" "running_of m' = running_of m"
    and "in_lock c \<and> mc_lock m' = Some p \<and> (mc_lock m = None \<or> in_lock (mc_pc m p)) \<or>
      \<not> in_lock c \<and> mc_lock m' = (if in_lock (mc_pc m p) then None else mc_lock m)"
  shows "heavy_inv n self (goto p c m')"
  by (rule inv_quiet [OF assms(1)]) (use assms in simp_all)

text \<open>Reading the holders reaps only records of commands that are not running.\<close>

lemma inv_read_holders:
  assumes inv: "heavy_inv n self m" and r: "readHolderRecords (mc_alive m) (mc_now m) (running_of m) = (hs, d)"
  shows "heavy_inv n self (put_running d m)" "allocated m \<le> sum_list (map hd_units hs)" "card (actives m) \<le> length hs"
proof -
  have i: "dir_ok (running_of m)" "finite (actives m)" "inj_on (record_of m) (actives m)" "\<forall>p \<in> actives m. recorded self m p"
    using inv finite_actives by (auto simp: heavy_inv_def)
  note sees = readHolderRecords_sees [OF i r]
  show "allocated m \<le> sum_list (map hd_units hs)" "card (actives m) \<le> length hs" by (fact sees)+
  show "heavy_inv n self (put_running d m)"
  proof (rule inv_frame [OF inv])
    show "recorded self (put_running d m) p" if "p \<in> actives m" for p
      by (rule recorded_cong [of _ m]) (use i(4) that sees(3) in simp_all)
  qed (use inv sees(4) in \<open>auto simp: heavy_inv_def\<close>)
qed

lemma admissible_Some:
  assumes "admissible n hs k = Some s" "0 \<le> n"
  shows "0 \<le> s" "sum_list (map hd_units hs) + s \<le> heavy_cap n" "length hs < heavyDefensiveMax"
  using assms
  by (auto simp: admissible_def heavyAdmissionCandidate_def Let_def heavy_cap_def heavyShareFloorDivisor_def
      split: if_split_asm)

lemma inv_decide:
  assumes inv: "heavy_inv n self m" and "0 \<le> n" "mc_pc m p = SawQueue t k"
    and r: "readHolderRecords (mc_alive m) (mc_now m) (running_of m) = (hs, d)" and a: "admissible n hs k = Some s"
  shows "heavy_inv n self (goto p (Decided t s) (put_running d m))"
proof -
  note rd = inv_read_holders [OF inv r] and ad = admissible_Some [OF a assms(2)]
  let ?m = "put_running d m"
  have same: "actives ?m = actives m" "allocated ?m = allocated m" by (simp_all add: actives_def allocated_def share_of_def)
  show ?thesis
  proof (rule inv_frame [OF rd(1)])
    show act: "active (mc_pc (goto p (Decided t s) ?m) q) = active (mc_pc ?m q)" for q using assms(3) by simp
    show "recorded self (goto p (Decided t s) ?m) q" if "q \<in> actives ?m" for q
      by (rule recorded_cong [OF _ act]) (use rd(1) that in \<open>simp_all add: heavy_inv_def\<close>)
    show "finite {q. mc_pc (goto p (Decided t s) ?m) q \<noteq> Outside}"
      using inv_finite [OF inv, of p "Decided t s"] by simp
    show "in_lock (mc_pc (goto p (Decided t s) ?m) q) \<longleftrightarrow> mc_lock (goto p (Decided t s) ?m) = Some q" for q
      using inv_lock [OF inv, of q] inv_lock [OF inv, of p] assms(3) by (cases "q = p") auto
    show "mc_pc ?m q = Decided t' s' \<or> 0 \<le> s' \<and> allocated ?m + s' \<le> heavy_cap n \<and> card (actives ?m) < heavyDefensiveMax"
      if "mc_pc (goto p (Decided t s) ?m) q = Decided t' s'" for q t' s'
      using that rd(2,3) ad unfolding same by (auto split: if_split_asm)
  qed (use rd(1) in \<open>simp add: heavy_inv_def\<close>)
qed

lemma record_name_ok: "record_name at pid sequence \<noteq> []" "\<not> HasPrefix (record_name at pid sequence) ''.''"
proof -
  have d: "\<exists>c cs. digits_nat k = c # cs \<and> c \<noteq> CHR ''.''" for k
    using digits_nat_ok [of k] by (cases "digits_nat k") (auto simp: all_digits_def is_digit_def)
  have "\<exists>c cs. append_int i w = c # cs \<and> c \<noteq> CHR ''.''" for i w
    using d [of "nat \<bar>i\<bar>"] by (cases "w - length (digits_nat (nat \<bar>i\<bar>))") (auto simp: append_int_def Let_def)
  then obtain c cs where "record_name at pid sequence = c # cs" "c \<noteq> CHR ''.''"
    unfolding record_name_def by (metis append_Cons)
  then show "record_name at pid sequence \<noteq> []" "\<not> HasPrefix (record_name at pid sequence) ''.''"
    by (simp_all add: HasPrefix_def)
qed

lemma dir_ok_update: "dir_ok d \<Longrightarrow> 0 \<le> s \<Longrightarrow> dir_ok (AList.update name (holder_file self s at now) d)"
  by (auto simp: dir_ok_def distinct_update update_conv' holder_file_def split: if_split_asm)

lemma dir_ok_delete: "dir_ok d \<Longrightarrow> dir_ok (AList.delete name d)"
  by (auto simp: dir_ok_def distinct_delete delete_conv' split: if_split_asm)

lemma inv_announce:
  assumes inv: "heavy_inv n self m" and pc: "mc_pc m p = Decided t s"
    and a: "announceHeavyHolder True sequence (self p) s (mc_now m) (running_of m) = Some (name, d)"
    and new: "map_of (running_of m) name = None" and live: "mc_alive m (pt_pid (self p))"
  shows "heavy_inv n self (goto p (Announced t s name (mc_now m)) (put_running d m))"
proof -
  let ?m = "goto p (Announced t s name (mc_now m)) (put_running d m)"
  have name: "name \<noteq> []" "\<not> HasPrefix name ''.''" and d: "d = AList.update name (holder_file (self p) s (mc_now m) (mc_now m)) (running_of m)"
    using a record_name_ok by (auto simp: announceHeavyHolder_def Let_def)
  have i: "0 \<le> s" "allocated m + s \<le> heavy_cap n" "card (actives m) < heavyDefensiveMax" "dir_ok (running_of m)"
      "\<forall>q \<in> actives m. recorded self m q" "inj_on (record_of m) (actives m)" "finite {q. mc_pc m q \<noteq> Outside}"
    using inv pc by (auto simp: heavy_inv_def)
  have r: "map_of (running_of ?m) = (map_of (running_of m))(name \<mapsto> holder_file (self p) s (mc_now m) (mc_now m))"
    by (simp add: d update_conv')
  have p: "p \<notin> actives m" using pc by (simp add: actives_def)
  have act: "actives ?m = insert p (actives m)" by (auto simp: actives_def)
  have sh: "share_of ?m q = (if q = p then s else share_of m q)" "record_of ?m q = (if q = p then name else record_of m q)" for q
    by (simp_all add: share_of_def record_of_def)
  have rn: "record_of m q \<noteq> name" if "q \<in> actives m" for q using bspec [OF i(5) that] new by (auto simp: recorded_def)
  have "(\<Sum>q\<in>actives m. share_of ?m q) = allocated m"
    unfolding allocated_def using p by (intro sum.cong) (auto simp: sh)
  then have "allocated ?m = s + allocated m"
    unfolding allocated_def [of ?m] act using p finite_actives [OF i(7)] by (simp add: sh(1) [of p])
  moreover have "card (actives ?m) \<le> heavyDefensiveMax" using i(3) p finite_actives [OF i(7)] by (simp add: act)
  moreover have "recorded self ?m q" if q: "q \<in> actives ?m" for q
  proof (cases "q = p")
    case True
    have "fresh_at (mc_now m) \<lparr>hd_self = self p, hd_units = s, hd_started = mc_now m, hd_updated = mc_now m\<rparr>"
      by (simp add: fresh_at_def time_sub_def staleAfter_def min_duration_def max_duration_def)
    then show ?thesis using live name unfolding recorded_def sh r True by (simp add: holder_file_def)
  next
    case False
    then have q': "q \<in> actives m" using q by (simp add: act)
    show ?thesis using bspec [OF i(5) q'] rn [OF q'] False unfolding recorded_def sh r by simp
  qed
  moreover have "inj_on (record_of ?m) (actives ?m)" using i(6) rn p by (auto simp: act sh inj_on_def)
  moreover have "dir_ok (running_of ?m)" using dir_ok_update i(1,4) by (simp add: d)
  moreover have "in_lock (mc_pc ?m q) \<longleftrightarrow> mc_lock ?m = Some q" for q
    using inv_lock [OF inv, of q] inv_lock [OF inv, of p] pc by (cases "q = p") auto
  moreover have "mc_pc ?m q \<noteq> Decided t' s'" for q t' s'
    using inv_lock [OF inv, of q] inv_lock [OF inv, of p] pc by (cases "q = p") auto
  ultimately show ?thesis using i(2) inv_finite [OF inv, of p] by (simp add: heavy_inv_def)
qed

lemma inv_shrink:
  assumes inv: "heavy_inv n self m" and sub: "\<And>q. active (mc_pc m' q) = active (mc_pc m q) \<or> active (mc_pc m' q) = None"
    and rec: "\<And>q. q \<in> actives m' \<Longrightarrow> recorded self m' q" and dir: "dir_ok (running_of m')"
    and fin: "finite {p. mc_pc m' p \<noteq> Outside}" and lock: "\<And>p. in_lock (mc_pc m' p) \<longleftrightarrow> mc_lock m' = Some p"
    and dec: "\<And>p t s. mc_pc m' p = Decided t s \<Longrightarrow> mc_pc m p = Decided t s"
  shows "heavy_inv n self m'"
proof -
  have sub': "q \<in> actives m' \<Longrightarrow> q \<in> actives m" for q using sub [of q] by (auto simp: actives_def)
  then have sub': "actives m' \<subseteq> actives m" by blast
  have sh: "share_of m' q = share_of m q" "record_of m' q = record_of m q" if "q \<in> actives m'" for q
    using sub [of q] that by (auto simp: share_of_def record_of_def actives_def)
  have i: "finite (actives m)" "dir_ok (running_of m)" "\<forall>q \<in> actives m. recorded self m q" "inj_on (record_of m) (actives m)"
    using inv finite_actives by (auto simp: heavy_inv_def)
  have "allocated m' = (\<Sum>q\<in>actives m'. share_of m q)" unfolding allocated_def by (rule sum.cong) (use sh in auto)
  also have "\<dots> \<le> allocated m" unfolding allocated_def
    by (rule sum_mono2) (use i sub' recorded_share_nonneg in auto)
  finally have "allocated m' \<le> allocated m" .
  moreover have "card (actives m') \<le> card (actives m)" by (rule card_mono) (use i sub' in auto)
  moreover have "inj_on (record_of m') (actives m')" using inj_on_subset [OF i(4) sub'] sh by (metis (mono_tags, lifting) inj_on_cong)
  moreover have "0 \<le> s \<and> allocated m + s \<le> heavy_cap n \<and> card (actives m) < heavyDefensiveMax" if "mc_pc m' p = Decided t s" for p t s
    using dec [OF that] inv by (simp add: heavy_inv_def)
  ultimately show ?thesis using inv rec dir fin lock unfolding heavy_inv_def by fastforce
qed

lemma inv_holder_beat:
  assumes inv: "heavy_inv n self m" and pc: "mc_pc m p = Running s name at"
  shows "heavy_inv n self (put_running (heartbeatHeavyHolder stored name (self p) s at (mc_now m) (running_of m)) m)"
    (is "heavy_inv n self ?m")
proof (cases "name = [] \<or> \<not> stored")
  case True
  then have "?m = m" by (auto simp: put_running_def heartbeatHeavyHolder_def)
  then show ?thesis using inv by simp
next
  case False
  have r: "map_of (running_of ?m) = (map_of (running_of m))(name \<mapsto> holder_file (self p) s at (mc_now m))"
    using False by (simp add: heartbeatHeavyHolder_def update_conv')
  have p: "p \<in> actives m" "share_of m p = s" "record_of m p = name" using pc by (simp_all add: actives_def share_of_def record_of_def)
  have i: "\<forall>q \<in> actives m. recorded self m q" "inj_on (record_of m) (actives m)" "dir_ok (running_of m)"
    using inv by (auto simp: heavy_inv_def)
  have s: "0 \<le> s" using recorded_share_nonneg [OF i(3)] i(1) p by auto
  show ?thesis
  proof (rule inv_frame [OF inv])
    show same: "active (mc_pc ?m q) = active (mc_pc m q)" for q by simp
    show "recorded self ?m q" if q: "q \<in> actives m" for q
    proof (cases "q = p")
      case True
      have "fresh_at (mc_now m) \<lparr>hd_self = self p, hd_units = s, hd_started = at, hd_updated = mc_now m\<rparr>"
        by (simp add: fresh_at_def time_sub_def staleAfter_def min_duration_def max_duration_def)
      then show ?thesis using bspec [OF i(1) q] p True unfolding recorded_def same_actives [OF same] r
        by (simp add: holder_file_def)
    next
      case False
      then have "record_of m q \<noteq> name" using i(2) p q by (metis inj_onD)
      then show ?thesis using bspec [OF i(1) q] unfolding recorded_def same_actives [OF same] r by simp
    qed
    show "dir_ok (running_of ?m)" using dir_ok_update [OF i(3) s] False by (simp add: heartbeatHeavyHolder_def)
  qed (use inv in \<open>auto simp: heavy_inv_def\<close>)
qed

lemma inv_release:
  assumes inv: "heavy_inv n self m" and pc: "mc_pc m p = Running s name at"
  shows "heavy_inv n self (goto p Outside (put_running (removeHeavyHolder name (running_of m)) m))" (is "heavy_inv n self ?m")
proof (rule inv_shrink [OF inv])
  have p: "p \<in> actives m" "record_of m p = name" using pc by (simp_all add: actives_def record_of_def)
  have i: "\<forall>q \<in> actives m. recorded self m q" "inj_on (record_of m) (actives m)" "dir_ok (running_of m)"
    using inv by (auto simp: heavy_inv_def)
  have r: "map_of (running_of ?m) k = (if name \<noteq> [] \<and> k = name then None else map_of (running_of m) k)" for k
    by (simp add: removeHeavyHolder_def delete_conv')
  show "active (mc_pc ?m q) = active (mc_pc m q) \<or> active (mc_pc ?m q) = None" for q by simp
  show "recorded self ?m q" if "q \<in> actives ?m" for q
  proof -
    have q: "q \<noteq> p" "q \<in> actives m" "share_of ?m q = share_of m q" "record_of ?m q = record_of m q"
      using that by (auto simp: actives_def share_of_def record_of_def split: if_split_asm)
    then have "record_of m q \<noteq> name" using i(2) p by (metis inj_onD)
    then show ?thesis using bspec [OF i(1) q(2)] unfolding recorded_def r q(3,4) by simp
  qed
  show "dir_ok (running_of ?m)" using dir_ok_delete [OF i(3)] i(3) by (simp add: removeHeavyHolder_def)
  show "finite {p. mc_pc ?m p \<noteq> Outside}" using inv_finite [OF inv, of p Outside] by simp
  show "in_lock (mc_pc ?m q) \<longleftrightarrow> mc_lock ?m = Some q" for q
    using inv_lock [OF inv, of q] inv_lock [OF inv, of p] pc by (cases "q = p") auto
qed (simp split: if_split_asm)

lemma inv_died:
  assumes inv: "heavy_inv n self m"
  shows "heavy_inv n self (died self pid m)" (is "heavy_inv n self ?m")
proof (rule inv_shrink [OF inv])
  have i: "\<forall>q \<in> actives m. recorded self m q" using inv by (simp add: heavy_inv_def)
  show "active (mc_pc ?m q) = active (mc_pc m q) \<or> active (mc_pc ?m q) = None" for q by (simp add: died_def)
  show "recorded self ?m q" if "q \<in> actives ?m" for q
  proof -
    have q: "pt_pid (self q) \<noteq> pid" "q \<in> actives m" "share_of ?m q = share_of m q" "record_of ?m q = record_of m q"
      using that by (auto simp: died_def actives_def share_of_def record_of_def split: if_split_asm)
    then show ?thesis using bspec [OF i q(2)] unfolding recorded_def q(3,4) by (simp add: died_def)
  qed
  show "dir_ok (running_of ?m)" using inv by (simp add: heavy_inv_def died_def)
  have "{p. mc_pc ?m p \<noteq> Outside} = {p. mc_pc m p \<noteq> Outside}" by (auto simp: died_def)
  then show "finite {p. mc_pc ?m p \<noteq> Outside}" using inv by (simp add: heavy_inv_def)
  show "in_lock (mc_pc ?m q) \<longleftrightarrow> mc_lock ?m = Some q" for q
    using inv_lock [OF inv, of q] by (auto simp: died_def split: option.split)
qed (auto simp: died_def split: if_split_asm)

lemma inv_spawn: "heavy_inv n self m \<Longrightarrow> heavy_inv n self (m\<lparr>mc_alive := (mc_alive m)(pid := True)\<rparr>)"
  by (rule inv_shrink) (auto simp: heavy_inv_def recorded_def actives_def share_of_def record_of_def)

lemma inv_tick:
  assumes inv: "heavy_inv n self m" and t: "timely (mc_now m + d) m"
  shows "heavy_inv n self (m\<lparr>mc_now := mc_now m + d\<rparr>)" (is "heavy_inv n self ?m")
proof (rule inv_frame [OF inv])
  show "recorded self ?m q" if q: "q \<in> actives m" for q
  proof -
    have a: "active (mc_pc m q) = Some (share_of m q, record_of m q)" using q by (auto simp: actives_def share_of_def record_of_def)
    have "recorded self m q" using inv q by (simp add: heavy_inv_def)
    then show ?thesis using t a unfolding recorded_def timely_def share_of_def record_of_def by fastforce
  qed
qed (use inv in \<open>auto simp: heavy_inv_def\<close>)

text \<open>Commands that take steps belong to processes that exist, and shares stay within their bounds.\<close>

fun chosen :: "pc \<Rightarrow> int option" where
  "chosen (Decided t s) = Some s"
| "chosen (Announced t s name at) = Some s"
| "chosen (Forgotten s name at) = Some s"
| "chosen (Running s name at) = Some s"
| "chosen _ = None"

definition pc_ok :: "int \<Rightarrow> (nat \<Rightarrow> participant) \<Rightarrow> machine \<Rightarrow> bool" where
  "pc_ok n self m \<longleftrightarrow>
     (\<forall>p. mc_pc m p \<noteq> Outside \<and> mc_pc m p \<noteq> Dead \<longrightarrow> mc_alive m (pt_pid (self p))) \<and>
     (\<forall>p s. chosen (mc_pc m p) = Some s \<longrightarrow> n div heavyShareFloorDivisor \<le> s \<and> s \<le> n)"

lemma heavyShare_le: "0 \<le> n \<Longrightarrow> heavyShare n k \<le> n"
  by (auto simp: heavyShare_def)

lemma admissible_share: "admissible n hs k = Some s \<Longrightarrow> 0 \<le> n \<Longrightarrow> n div heavyShareFloorDivisor \<le> s \<and> s \<le> n"
  using heavyShare_le [of n "int (length hs) + int k"]
  by (auto simp: admissible_def heavyAdmissionCandidate_def Let_def split: if_split_asm)

lemma pc_ok_goto:
  assumes "pc_ok n self m" "mc_pc m' = mc_pc m" "mc_alive m' = mc_alive m"
    and "c = Outside \<or> mc_alive m (pt_pid (self p))"
    and "chosen c = None \<or> chosen c = chosen (mc_pc m p) \<or> (\<exists>s. chosen c = Some s \<and> n div heavyShareFloorDivisor \<le> s \<and> s \<le> n)"
  shows "pc_ok n self (goto p c m')"
  using assms unfolding pc_ok_def by (auto split: if_split_asm)

lemma step_pc_ok:
  assumes "heavy_step n self m m'" "0 \<le> n" and ok: "pc_ok n self m"
  shows "pc_ok n self m'"
proof -
  have live: "mc_pc m p \<noteq> Outside \<Longrightarrow> mc_pc m p \<noteq> Dead \<Longrightarrow> mc_alive m (pt_pid (self p))" for p using ok by (simp add: pc_ok_def)
  show ?thesis using assms(1)
  proof cases
    case (decide p t k hs d s)
    have "n div heavyShareFloorDivisor \<le> s \<and> s \<le> n" using admissible_share [OF decide(4) assms(2)] .
    then show ?thesis using pc_ok_goto [OF ok, of "put_running d m" "Decided t s" p] live [of p] decide by simp
  next
    case (ticket_beat p t stored)
    then show ?thesis using ok by (simp add: pc_ok_def)
  next
    case (holder_beat p s name at stored)
    then show ?thesis using ok by (simp add: pc_ok_def)
  next
    case (die pid)
    then show ?thesis using ok by (auto simp: pc_ok_def died_def)
  next
    case (spawn pid)
    then show ?thesis using ok by (simp add: pc_ok_def)
  next
    case (tick d)
    then show ?thesis using ok by (simp add: pc_ok_def)
  qed (simp_all add: live pc_ok_goto [OF ok])
qed

lemma step_heavy_inv:
  assumes "heavy_step n self m m'" "0 \<le> n" and ok: "pc_ok n self m" and inv: "heavy_inv n self m"
  shows "heavy_inv n self m'"
  using assms(1)
proof cases
  case (decide p t k hs d s)
  then show ?thesis using inv_decide [OF inv assms(2)] by simp
next
  case (no_room p t k hs d)
  have "heavy_inv n self (put_running d m)" using inv_read_holders(1) [OF inv] no_room by simp
  then show ?thesis unfolding no_room(1) by (rule inv_quiet [of _ _ _ _ p "Waiting t"]) (use no_room in simp_all)
next
  case (announce p t s sequence name d)
  have "mc_alive m (pt_pid (self p))" using ok announce by (simp add: pc_ok_def)
  then show ?thesis using inv_announce [OF inv] announce by simp
next
  case (holder_beat p s name at stored)
  then show ?thesis using inv_holder_beat [OF inv] by simp
next
  case (release p s name at)
  then show ?thesis using inv_release [OF inv] by simp
next
  case (die pid)
  then show ?thesis using inv_died [OF inv] by simp
next
  case (spawn pid)
  then show ?thesis using inv_spawn [OF inv] by simp
next
  case (tick d)
  then show ?thesis using inv_tick [OF inv] by simp
next
  case (ticket_beat p t stored)
  have "m' = goto p (Waiting t) m'" using ticket_beat by (simp add: goto_def put_waiting_def fun_upd_idem)
  then show ?thesis using inv_goto [OF inv, of "Waiting t" p m'] ticket_beat by simp
next
  case (look_again p t ts d)
  have "mc_lock m = Some p" using inv_lock [OF inv, of p] look_again(2) by simp
  then show ?thesis using inv_goto [OF inv] look_again by simp
next
  case (forget p t s name at)
  have "mc_lock m = Some p" using inv_lock [OF inv, of p] forget(2) by simp
  then show ?thesis using inv_goto [OF inv] forget by simp
qed (use inv_goto [OF inv] in simp_all)

text \<open>The machine is an instance of the interface of an inductive invariant.\<close>

definition heavy_ok :: "int \<Rightarrow> (nat \<Rightarrow> participant) \<Rightarrow> machine \<Rightarrow> bool" where
  "heavy_ok n self m \<longleftrightarrow> pc_ok n self m \<and> heavy_inv n self m"

lemma init_heavy_ok:
  assumes "heavy_init m" "0 \<le> n"
  shows "heavy_ok n self m"
proof -
  have pc: "mc_pc m p = Outside" for p using assms(1) by (simp add: heavy_init_def)
  then have "actives m = {}" by (simp add: actives_def)
  moreover have "dir_ok (running_of m)" using assms(1) unfolding heavy_init_def dir_ok_def by (metis map_of_SomeD)
  ultimately show ?thesis using assms(2) pc assms(1)
    by (simp add: heavy_ok_def pc_ok_def heavy_inv_def heavy_init_def allocated_def heavy_cap_def heavyCapNumerator_def
        heavyCapDenominator_def)
qed

interpretation heavy: invariant_system heavy_init "heavy_step (int k) self" "heavy_ok (int k) self" for k self
proof unfold_locales
  show "heavy_init m \<Longrightarrow> heavy_ok (int k) self m" for m by (rule init_heavy_ok) simp_all
  show "heavy_ok (int k) self m \<Longrightarrow> heavy_step (int k) self m m' \<Longrightarrow> heavy_ok (int k) self m'" for m m'
    using step_pc_ok step_heavy_inv by (auto simp: heavy_ok_def)
qed

end
