(* ===== verification/Heavy_Queue_Props.thy ===== *)
theory Heavy_Queue_Props
  imports Heavy_Machine
begin

text \<open>
  The properties of the CPU queue: however commands interleave, the shares of those that run stay
  within one and a half times the machine; a turn admits exactly the oldest waiting command when
  there is room; commands that take turns one after the other drain the queue;
  and two statements the comments of the code make about it that the code does not bear out.
\<close>

section \<open>The cap\<close>

text \<open>
  C7: the cap holds under every interleaving. However many commands register, read, lock, decide,
  announce, run, release, give up or die, in whatever order their accesses interleave: the shares
  of the commands running on a machine with \<open>n\<close> CPUs never add up to more than three halves of
  \<open>n\<close>, at most three run, each has between a quarter of the machine and all of it, and at most
  one is inside the admission lock.
\<close>

theorem heavy_cap_holds:
  assumes "reachable heavy_init (heavy_step (int k) self) m"
  shows "allocated m \<le> int k * 3 div 2 \<and> card (actives m) \<le> 3 \<and>
    (\<forall>p \<in> actives m. int k div 4 \<le> share_of m p \<and> share_of m p \<le> int k) \<and>
    (\<forall>p q. in_lock (mc_pc m p) \<and> in_lock (mc_pc m q) \<longrightarrow> p = q)"
proof -
  have ok: "pc_ok (int k) self m" "heavy_inv (int k) self m"
    using heavy.reachable_inv [OF assms] by (simp_all add: heavy_ok_def)
  have "chosen (mc_pc m p) = Some (share_of m p)" if "p \<in> actives m" for p
    using that by (cases "mc_pc m p") (simp_all add: actives_def share_of_def)
  then have "\<forall>p \<in> actives m. int k div 4 \<le> share_of m p \<and> share_of m p \<le> int k"
    using ok(1) unfolding pc_ok_def heavyShareFloorDivisor_def by blast
  moreover have "p = q" if "in_lock (mc_pc m p)" "in_lock (mc_pc m q)" for p q
    using inv_lock [OF ok(2), of p] inv_lock [OF ok(2), of q] that by simp
  ultimately show ?thesis
    using ok(2) by (auto simp: heavy_inv_def heavy_cap_def heavyCapNumerator_def heavyCapDenominator_def heavyDefensiveMax_def)
qed

section \<open>One turn\<close>

lemma read_after_reap:
  "List.map_filter (read_entry live) (filter (entry_stays now live) d) = List.map_filter (read_entry live) d"
proof (induction d)
  case (Cons e d)
  have "entry_stays now live e" if "read_entry live e = Some y" for y
    using that by (cases e; cases y) (auto simp: read_entry_Some entry_stays_def)
  then show ?case using Cons by (auto simp: List.map_filter_simps split: option.split)
qed (simp add: List.map_filter_simps)

lemma readTickets_twice: "fst (readTicketsIn alive now (snd (readTicketsIn alive now d))) = fst (readTicketsIn alive now d)"
  by (simp add: readTicketsIn_def read_after_reap)

lemma is_head_iff:
  "is_head t (sort_key ticket_key xs) \<longleftrightarrow> (\<exists>r. (tk_name t, r) \<in> set xs \<and> (\<forall>x \<in> set xs. ticket_key (tk_name t, r) \<le> ticket_key x))"
proof (cases "sort_key ticket_key xs")
  case Nil
  then have "xs = []" by (metis length_0_conv length_sort)
  then show ?thesis by (simp add: is_head_def)
next
  case (Cons y ys)
  have y: "y \<in> set xs" "\<forall>x \<in> set xs. ticket_key y \<le> ticket_key x"
  proof -
    have "set xs = set (y # ys)" "sorted (map ticket_key (y # ys))" by (metis Cons set_sort) (metis Cons sorted_sort_key)
    then show "y \<in> set xs" "\<forall>x \<in> set xs. ticket_key y \<le> ticket_key x" by auto
  qed
  have "is_head t (sort_key ticket_key xs) \<longleftrightarrow> fst y = tk_name t" by (cases y) (simp add: is_head_def Cons)
  also have "\<dots> \<longleftrightarrow> (\<exists>r. (tk_name t, r) \<in> set xs \<and> (\<forall>x \<in> set xs. ticket_key (tk_name t, r) \<le> ticket_key x))"
  proof
    assume "fst y = tk_name t"
    then show "\<exists>r. (tk_name t, r) \<in> set xs \<and> (\<forall>x \<in> set xs. ticket_key (tk_name t, r) \<le> ticket_key x)"
      using y by (intro exI [of _ "snd y"]) (metis prod.collapse)
  next
    assume "\<exists>r. (tk_name t, r) \<in> set xs \<and> (\<forall>x \<in> set xs. ticket_key (tk_name t, r) \<le> ticket_key x)"
    then obtain r where "ticket_key y = ticket_key (tk_name t, r)" using y by (metis antisym)
    then show "fst y = tk_name t" by (simp add: ticket_key_def)
  qed
  finally show ?thesis .
qed

lemma admissible_iff:
  "admissible n hs k = Some s \<longleftrightarrow> length hs < 3 \<and> n div 4 \<le> s \<and>
     s = min (heavyShare n (int (length hs) + int k)) (n * 3 div 2 - sum_list (map hd_units hs))"
  by (auto simp: admissible_def heavyAdmissionCandidate_def Let_def heavyDefensiveMax_def heavyShareFloorDivisor_def
      heavyCapNumerator_def heavyCapDenominator_def min_def)

text \<open>The waiting commands and the running ones as a turn sees them.\<close>

definition seen_tickets :: "heavy_turn \<Rightarrow> ticket \<Rightarrow> heavy_dirs \<Rightarrow> (string \<times> ticket_record) list" where
  "seen_tickets turn t dirs =
     fst (readTicketsIn (ht_alive turn) (ht_now turn) (ticket_Heartbeat (ht_heartbeat turn) (ht_now turn) t (hv_waiting dirs)))"

definition seen_holders :: "heavy_turn \<Rightarrow> heavy_dirs \<Rightarrow> holder list" where
  "seen_holders turn dirs = fst (readHolderRecords (ht_alive turn) (ht_now turn) (hv_running dirs))"

lemma heavy_turn_Admitted:
  "(\<exists>t' dirs'. heavy_turn n self turn t dirs = (Admitted s name, t', dirs')) \<longleftrightarrow>
     \<not> ht_done turn \<and> ht_lock turn = Inr True \<and> ht_announce turn \<and>
     name = record_name (ht_now turn) (pt_pid self) (ht_sequence turn) \<and> is_head t (seen_tickets turn t dirs) \<and>
     admissible n (seen_holders turn dirs) (length (seen_tickets turn t dirs)) = Some s"
proof -
  let ?w = "ticket_Heartbeat (ht_heartbeat turn) (ht_now turn) t (hv_waiting dirs)"
  obtain ts w where r: "readTicketsIn (ht_alive turn) (ht_now turn) ?w = (ts, w)" by fastforce
  obtain hs d where h: "readHolderRecords (ht_alive turn) (ht_now turn) (hv_running dirs) = (hs, d)" by fastforce
  obtain w' where r': "readTicketsIn (ht_alive turn) (ht_now turn) w = (ts, w')"
    using readTickets_twice [of "ht_alive turn" "ht_now turn" ?w] r by (metis prod.collapse fst_conv snd_conv)
  have seen: "seen_tickets turn t dirs = ts" "seen_holders turn dirs = hs" by (simp_all add: seen_tickets_def seen_holders_def r h)
  have w: "waiting_or_done turn \<noteq> Admitted s name" by (simp add: waiting_or_done_def)
  show ?thesis unfolding seen
    by (auto simp: heavy_turn_def locked_turn_def Let_def r r' h w announceHeavyHolder_def Forget_def
        split: sum.splits bool.splits option.splits if_splits)
qed

text \<open>
  a turn admits exactly the oldest command, when there is room. A turn admits a waiting
  command just when its context is not cancelled, it gets the lock and can write its record, its
  own ticket is the least by registration time and name among the live ones, fewer than three
  commands run, and the share it would get is at least a quarter of the machine. That share is the
  smaller of what the number of commands running and waiting gives it and what the running ones
  leave below the cap.
\<close>

theorem heavy_admission_exact:
  "(\<exists>t' dirs'. heavy_turn n self turn t dirs = (Admitted s name, t', dirs')) \<longleftrightarrow>
     \<not> ht_done turn \<and> ht_lock turn = Inr True \<and> ht_announce turn \<and>
     name = record_name (ht_now turn) (pt_pid self) (ht_sequence turn) \<and>
     (\<exists>r. (tk_name t, r) \<in> set (seen_tickets turn t dirs) \<and>
        list_all (\<lambda>x. ticket_key (tk_name t, r) \<le> ticket_key x) (seen_tickets turn t dirs)) \<and>
     length (seen_holders turn dirs) < 3 \<and> n div 4 \<le> s \<and>
     s = min (heavyShare n (int (length (seen_holders turn dirs)) + int (length (seen_tickets turn t dirs))))
           (n * 3 div 2 - sum_list (map hd_units (seen_holders turn dirs)))"
proof -
  have "is_head t (seen_tickets turn t dirs) \<longleftrightarrow> (\<exists>r. (tk_name t, r) \<in> set (seen_tickets turn t dirs) \<and>
      list_all (\<lambda>x. ticket_key (tk_name t, r) \<le> ticket_key x) (seen_tickets turn t dirs))"
    unfolding seen_tickets_def readTicketsIn_def fst_conv is_head_iff by (simp add: list_all_iff)
  then show ?thesis unfolding heavy_turn_Admitted admissible_iff by blast
qed

section \<open>A ticket that could not be written\<close>

lemma unregistered_not_head:
  assumes "tk_name t = []" "[] \<notin> fst ` set (hv_waiting dirs)"
  shows "\<not> is_head t (seen_tickets turn t dirs)"
proof -
  have "\<forall>x \<in> set (seen_tickets turn t dirs). fst x \<noteq> []"
    using assms by (auto simp: seen_tickets_def readTicketsIn_def ticket_Heartbeat_def set_map_filter_read image_iff)
  then show ?thesis by (cases "seen_tickets turn t dirs") (auto simp: is_head_def assms(1))
qed

lemma unregistered_turn:
  assumes "tk_name t = []" "[] \<notin> fst ` set (hv_waiting dirs)"
  shows "\<exists>dirs'. heavy_turn n self turn t dirs = (KeepWaiting, t, dirs') \<or> heavy_turn n self turn t dirs = (Cancelled, t, dirs')"
  using unregistered_not_head [OF assms, of turn]
  by (auto simp: heavy_turn_def Let_def seen_tickets_def waiting_or_done_def split: prod.split)

text \<open>
  C27: a command whose ticket could not be written is never admitted. Registration is documented as
  best effort, a failure only making the waiter invisible; but the turns of the heavy queue look for
  the ticket at the head of the directory, so a command that failed to register waits, whatever
  the machine does and even when it is idle, until its context is cancelled. No file has an empty
  name.
\<close>

theorem unregistered_never_admitted:
  assumes "registerAtTime False sequence self now d = (t, d')"
    and "list_all (\<lambda>(turn, dirs). [] \<notin> fst ` set (hv_waiting dirs)) turns"
  shows "admitHeavyWithLock n self t turns = None \<or> (\<exists>dirs. admitHeavyWithLock n self t turns = Some (Cancelled, dirs))"
proof -
  have t: "tk_name t = []" using assms(1) by (auto simp: registerAtTime_def Let_def)
  show ?thesis using assms(2)
  proof (induction turns)
    case (Cons x turns)
    obtain turn dirs where x: "x = (turn, dirs)" by fastforce
    then show ?case using unregistered_turn [OF t, of dirs n self turn] Cons by auto
  qed simp
qed

section \<open>Why the bound of three is needed\<close>

text \<open>
  The shares handed out by the cap and the floor alone, without the bound on the number of running
  commands: commands are admitted with the share the candidate rule computes from those running and
  the number waiting, and leave in any order.
\<close>

inductive shares_reach :: "int \<Rightarrow> holder list \<Rightarrow> bool" for n :: int where
  none: "shares_reach n []"
| admit: "shares_reach n hs \<Longrightarrow> 0 < waiting \<Longrightarrow> hd_units h = fst (heavyAdmissionCandidate n hs waiting) \<Longrightarrow>
    n div heavyShareFloorDivisor \<le> hd_units h \<Longrightarrow> shares_reach n (hs @ [h])"
| leave: "shares_reach n (hs @ h # hs') \<Longrightarrow> shares_reach n (hs @ hs')"

definition with_share :: "int \<Rightarrow> holder" where
  "with_share s = \<lparr>hd_self = \<lparr>pt_pid = 1, pt_summary = [], pt_worktree = []\<rparr>, hd_units = s, hd_started = 0, hd_updated = 0\<rparr>"

lemma with_share_units [simp]: "hd_units (with_share s) = s"
  by (simp add: with_share_def)

lemmas share_eval = heavyAdmissionCandidate_def Let_def heavyShare_def heavyCapNumerator_def heavyCapDenominator_def
  heavyShareFloorDivisor_def

text \<open>
  the cap and the floor alone do not bound the number of running commands by three. With eleven
  CPUs a run of admissions and departures reaches the shares 5, 4 and 5, which leave room for a
  fourth command with two CPUs, the floor for that machine. The comment on the bound says a
  fourth is impossible as long as the running commands are counted correctly; it is the bound that
  stops it.
\<close>

theorem fourth_job_needs_bound:
  "\<exists>hs. shares_reach 11 hs \<and> length hs = 4 \<and> map hd_units hs = [5, 4, 5, 2] \<and> admissible 11 (take 3 hs) 1 = None"
proof -
  have 1: "shares_reach 11 [with_share 7]"
    using admit [OF none, of 2 "with_share 7" 11] by (simp add: share_eval)
  have 2: "shares_reach 11 [with_share 7, with_share 5]"
    using admit [OF 1, of 2 "with_share 5"] by (simp add: share_eval)
  have 3: "shares_reach 11 [with_share 7, with_share 5, with_share 4]"
    using admit [OF 2, of 1 "with_share 4"] by (simp add: share_eval)
  have 4: "shares_reach 11 [with_share 5, with_share 4]"
    using leave [of 11 "[]" "with_share 7" "[with_share 5, with_share 4]"] 3 by simp
  have 5: "shares_reach 11 [with_share 5, with_share 4, with_share 5]"
    using admit [OF 4, of 1 "with_share 5"] by (simp add: share_eval)
  have "shares_reach 11 [with_share 5, with_share 4, with_share 5, with_share 2]"
    using admit [OF 5, of 1 "with_share 2"] by (simp add: share_eval)
  then show ?thesis
    by (intro exI [of _ "[with_share 5, with_share 4, with_share 5, with_share 2]"])
      (simp add: admissible_def heavyDefensiveMax_def)
qed

section \<open>The queue drains\<close>

lemma map_sort_key: "map f (sort_key f xs) = sort (map f xs)"
  by (rule properties_for_sort [symmetric]) simp_all

lemma map_filter_update:
  assumes "map_of d k = Some v'" "map_option f (g (k, v)) = map_option f (g (k, v'))"
  shows "map f (List.map_filter g (AList.update k v d)) = map f (List.map_filter g d)"
  using assms by (induction d; cases "g (k, v)"; cases "g (k, v')") (auto simp: List.map_filter_simps split: option.split if_split_asm)

lemma map_filter_delete:
  "(\<And>e x. g e = Some x \<Longrightarrow> fst x = fst e) \<Longrightarrow>
     List.map_filter g (AList.delete k d) = filter (\<lambda>x. fst x \<noteq> k) (List.map_filter g d)"
  by (induction d) (force simp: List.map_filter_simps AList.delete_eq split: option.split)+

lemma read_entry_name: "read_entry live e = Some x \<Longrightarrow> fst x = fst e"
  by (cases x) (auto simp: read_entry_Some)

text \<open>A ticket file is that of the command that registered it, whatever heartbeat wrote it last.\<close>

definition own_ticket :: "ticket_record dir \<Rightarrow> ticket \<Rightarrow> bool" where
  "own_ticket d t \<longleftrightarrow> tk_name t \<noteq> [] \<and>
     (\<exists>r at. map_of d (tk_name t) = Some (DFile (Some r) at) \<and> tr_created r = tk_created_at t \<and> tr_self r = tk_self t)"

definition queue :: "(int \<Rightarrow> bool) \<Rightarrow> go_time \<Rightarrow> ticket_record dir \<Rightarrow> (go_time \<times> string) list" where
  "queue alive now d = map ticket_key (fst (readTicketsIn alive now d))"

lemma queue_sort: "queue alive now d = sort (map ticket_key (List.map_filter (read_entry (ticket_live alive now)) d))"
  by (simp add: queue_def readTicketsIn_def map_sort_key)

lemma queue_heartbeat:
  assumes "own_ticket d t" "snd ` set (queue alive now d) \<supseteq> {tk_name t}" "distinct (map fst d)"
  shows "queue alive now (ticket_Heartbeat stored now t d) = queue alive now d"
proof (cases stored)
  case True
  obtain r at where r: "map_of d (tk_name t) = Some (DFile (Some r) at)" "tr_created r = tk_created_at t" "tr_self r = tk_self t"
    using assms(1) by (auto simp: own_ticket_def)
  obtain r' at' where r': "(tk_name t, DFile (Some r') at') \<in> set d" "ticket_live alive now r'" "\<not> HasPrefix (tk_name t) ''.''"
    using assms(2) by (force simp: queue_sort ticket_key_def set_map_filter_read)
  then have live: "ticket_live alive now r" "\<not> HasPrefix (tk_name t) ''.''"
    using map_of_is_SomeI [OF assms(3) r'(1)] r(1) by simp_all
  then have "ticket_live alive now \<lparr>tr_self = tk_self t, tr_created = tk_created_at t, tr_updated = now\<rparr>"
    using r(3) by (auto simp: ticket_live_def isLive_def time_sub_def staleAfter_def min_duration_def max_duration_def split: if_split_asm)
  then have "map ticket_key (List.map_filter (read_entry (ticket_live alive now)) (ticket_Heartbeat stored now t d)) =
      map ticket_key (List.map_filter (read_entry (ticket_live alive now)) d)"
    using True assms(1) live r unfolding own_ticket_def ticket_Heartbeat_def
    by (auto intro!: map_filter_update simp: read_entry_def ticket_file_def ticket_key_def)
  then show ?thesis by (simp add: queue_sort)
qed (simp add: ticket_Heartbeat_def)

lemma queue_reap: "queue alive now (snd (readTicketsIn alive now d)) = queue alive now d"
  by (simp add: queue_def readTickets_twice)

lemma filter_sort_map: "filter P (sort (map f xs)) = sort (map f (filter (P \<circ> f) xs))"
  by (simp add: filter_sort filter_map)

lemma queue_delete: "queue alive now (AList.delete name d) = filter (\<lambda>k. snd k \<noteq> name) (queue alive now d)"
  using map_filter_delete [of "read_entry (ticket_live alive now)" name d, OF read_entry_name]
  unfolding queue_sort filter_sort_map by (simp add: ticket_key_def comp_def)

lemma own_ticket_reap:
  assumes "own_ticket d t" "distinct (map fst d)" "tk_name t \<in> snd ` set (queue alive now d)"
  shows "own_ticket (snd (readTicketsIn alive now d)) t"
proof -
  obtain r at where r: "map_of d (tk_name t) = Some (DFile (Some r) at)" "tr_created r = tk_created_at t" "tr_self r = tk_self t"
    using assms(1) by (auto simp: own_ticket_def)
  obtain r' at' where r': "(tk_name t, DFile (Some r') at') \<in> set d" "ticket_live alive now r'" "\<not> HasPrefix (tk_name t) ''.''"
    using assms(3) by (force simp: queue_sort ticket_key_def set_map_filter_read)
  have "r' = r" using map_of_is_SomeI [OF assms(2) r'(1)] r(1) by simp
  then show ?thesis using r r' assms(1)
    by (auto simp: own_ticket_def readTicketsIn_def map_of_filter_keys [OF assms(2)] entry_stays_def)
qed

text \<open>
  The commands take their turns one after the other, each running to its end before the next turn;
  the share each got, or \<open>None\<close> where a turn did not admit.
\<close>

fun drain :: "int \<Rightarrow> (participant \<times> heavy_turn \<times> ticket) list \<Rightarrow> heavy_dirs \<Rightarrow> int option list" where
  "drain n [] dirs = []"
| "drain n ((self, turn, t) # jobs) dirs =
     (case heavy_turn n self turn t dirs of
        (Admitted s name, _, dirs') \<Rightarrow> Some s # drain n jobs (dirs'\<lparr>hv_running := removeHeavyHolder name (hv_running dirs')\<rparr>)
      | (_, _, dirs') \<Rightarrow> None # drain n jobs dirs')"

definition ready :: "(int \<Rightarrow> bool) \<Rightarrow> go_time \<Rightarrow> heavy_turn \<Rightarrow> bool" where
  "ready alive now turn \<longleftrightarrow> ht_now turn = now \<and> ht_alive turn = alive \<and> \<not> ht_done turn \<and> ht_lock turn = Inr True \<and> ht_announce turn"

lemma admissible_idle: "0 \<le> n \<Longrightarrow> admissible n [] k = Some (heavyShare n (int k))"
  by (auto simp: admissible_def share_eval heavyDefensiveMax_def)

lemma admitted_dirs:
  assumes "heavy_turn n self turn t dirs = (Admitted s name, t', dirs')" "tk_name t \<noteq> []"
  shows "hv_waiting dirs' = AList.delete (tk_name t) (snd (readTicketsIn (ht_alive turn) (ht_now turn)
      (snd (readTicketsIn (ht_alive turn) (ht_now turn) (ticket_Heartbeat (ht_heartbeat turn) (ht_now turn) t (hv_waiting dirs))))))"
    "removeHeavyHolder name (hv_running dirs') =
       AList.delete name (snd (readHolderRecords (ht_alive turn) (ht_now turn) (hv_running dirs)))"
  using assms record_name_ok
  by (auto simp: heavy_turn_def locked_turn_def Let_def waiting_or_done_def Forget_def announceHeavyHolder_def
      removeHeavyHolder_def delete_update_same split: prod.split_asm sum.split_asm bool.split_asm option.split_asm if_split_asm)

lemma no_holders_left:
  assumes "fst (readHolderRecords alive now d) = []"
  shows "fst (readHolderRecords alive now (AList.delete name (snd (readHolderRecords alive now d)))) = []"
proof -
  have "List.map_filter (read_entry (holder_live alive now)) d = []"
    using assms by (simp add: readHolderRecords_def) (metis length_0_conv length_sort length_map)
  then show ?thesis
    using map_filter_delete [of "read_entry (holder_live alive now)" name, OF read_entry_name]
    by (simp add: readHolderRecords_def read_after_reap)
qed

lemma distinct_heartbeat: "distinct (map fst d) \<Longrightarrow> distinct (map fst (ticket_Heartbeat stored now t d))"
  by (simp add: ticket_Heartbeat_def distinct_update)

lemma distinct_reap: "distinct (map fst d) \<Longrightarrow> distinct (map fst (snd (readTicketsIn alive now d)))"
  by (simp add: readTicketsIn_def distinct_map_filter)

lemma own_ticket_heartbeat: "own_ticket d u \<Longrightarrow> tk_name u \<noteq> tk_name t \<Longrightarrow> own_ticket (ticket_Heartbeat stored now t d) u"
  by (simp add: own_ticket_def ticket_Heartbeat_def update_conv')

lemma own_ticket_delete: "own_ticket d u \<Longrightarrow> tk_name u \<noteq> name \<Longrightarrow> own_ticket (AList.delete name d) u"
  by (simp add: own_ticket_def)

lemma queue_names: "map snd (queue alive now d) = map fst (fst (readTicketsIn alive now d))"
  by (simp add: queue_def ticket_key_def)

lemma queue_distinct:
  assumes "distinct (map fst d)"
  shows "distinct (map snd (queue alive now d))"
proof -
  let ?f = "List.map_filter (read_entry (ticket_live alive now)) d"
  have "mset (map snd (queue alive now d)) = mset (map fst ?f)"
    by (simp only: queue_names readTicketsIn_def fst_conv mset_map mset_sort)
  then show ?thesis using map_filter_distinct [OF assms] mset_eq_imp_distinct_iff by blast
qed

lemma drain_turn:
  assumes n: "0 \<le> n" and rd: "ready alive now turn" and own: "own_ticket (hv_waiting dirs) t"
    and names: "map snd (queue alive now (hv_waiting dirs)) = tk_name t # ns"
    and d: "distinct (map fst (hv_waiting dirs))" and idle: "fst (readHolderRecords alive now (hv_running dirs)) = []"
  shows "\<exists>t' dirs' name. heavy_turn n self turn t dirs = (Admitted (heavyShare n (int (Suc (length ns)))) name, t', dirs') \<and>
    map snd (queue alive now (hv_waiting dirs')) = ns \<and> distinct (map fst (hv_waiting dirs')) \<and>
    fst (readHolderRecords alive now (removeHeavyHolder name (hv_running dirs'))) = [] \<and>
    (\<forall>u. own_ticket (hv_waiting dirs) u \<and> tk_name u \<in> set ns \<longrightarrow> own_ticket (hv_waiting dirs') u)"
proof -
  let ?hb = "ticket_Heartbeat (ht_heartbeat turn) now t (hv_waiting dirs)"
  let ?read = "\<lambda>w. snd (readTicketsIn alive now w)"
  have q: "queue alive now ?hb = queue alive now (hv_waiting dirs)"
    by (rule queue_heartbeat [OF own _ d]) (use names in \<open>metis empty_subsetI image_set insert_subset list.set_intros(1)\<close>)
  have ts: "map fst (seen_tickets turn t dirs) = tk_name t # ns"
    using names rd q queue_names [of alive now ?hb] by (simp add: seen_tickets_def ready_def)
  then have head: "is_head t (seen_tickets turn t dirs)" by (cases "seen_tickets turn t dirs") (auto simp: is_head_def)
  have "length (seen_tickets turn t dirs) = Suc (length ns)" using arg_cong [OF ts, of length] by simp
  then have "admissible n (seen_holders turn dirs) (length (seen_tickets turn t dirs)) = Some (heavyShare n (int (Suc (length ns))))"
    using admissible_idle [OF n] idle rd by (simp add: seen_holders_def ready_def)
  then obtain t' dirs' name where turn: "heavy_turn n self turn t dirs = (Admitted (heavyShare n (int (Suc (length ns)))) name, t', dirs')"
    using heavy_turn_Admitted [of n self turn t dirs] rd head unfolding ready_def by blast
  have "tk_name t \<noteq> []" using own by (simp add: own_ticket_def)
  note dirs' = admitted_dirs [OF turn this]
  have w: "hv_waiting dirs' = AList.delete (tk_name t) (?read (?read ?hb))" using dirs'(1) rd by (simp add: ready_def)
  have nd: "distinct (tk_name t # ns)" using queue_distinct [OF d, of alive now] unfolding names .
  have "queue alive now (hv_waiting dirs') = filter (\<lambda>k. snd k \<noteq> tk_name t) (queue alive now (hv_waiting dirs))"
    by (simp add: w queue_delete queue_reap q)
  then have "map snd (queue alive now (hv_waiting dirs')) = filter (\<lambda>x. x \<noteq> tk_name t) (tk_name t # ns)"
    by (simp add: filter_map comp_def flip: names)
  also have "\<dots> = ns" using nd by (auto intro: filter_True)
  finally have q': "map snd (queue alive now (hv_waiting dirs')) = ns" .
  have dist: "distinct (map fst ?hb)" "distinct (map fst (?read ?hb))" using d by (simp_all add: distinct_heartbeat distinct_reap)
  have "own_ticket (hv_waiting dirs') u" if u: "own_ticket (hv_waiting dirs) u" "tk_name u \<in> set ns" for u
  proof -
    have ne: "tk_name u \<noteq> tk_name t" using nd u(2) by auto
    have inq: "tk_name u \<in> snd ` set (queue alive now ?hb)" using u(2) names q by (metis image_set list.set_intros(2))
    have "own_ticket (?read ?hb) u"
      by (rule own_ticket_reap [OF own_ticket_heartbeat [OF u(1) ne] dist(1) inq])
    then have "own_ticket (?read (?read ?hb)) u"
      using own_ticket_reap [OF _ dist(2)] inq by (simp add: queue_reap)
    then show ?thesis using own_ticket_delete ne by (simp add: w)
  qed
  moreover have "distinct (map fst (hv_waiting dirs'))" using dist(2) by (simp add: w distinct_delete distinct_reap)
  moreover have "fst (readHolderRecords alive now (removeHeavyHolder name (hv_running dirs'))) = []"
    using no_holders_left [OF idle] dirs'(2) rd by (simp add: ready_def)
  ultimately show ?thesis using turn q' by blast
qed

text \<open>
  C26: the queue drains, one command after the other. On a machine where no command runs, let the
  commands that wait take their turns in the order of the queue, at one time, and let each of them get
  the lock, succeed in writing its record, and run to its end and give the record up before the next
  takes its turn. Then every one of them is admitted, at its first turn: the last with the whole machine, the one before it with two thirds, the
  others with half. A heartbeat that fails changes nothing.
\<close>

theorem heavy_queue_drains:
  assumes "0 \<le> n"
    and "list_all (\<lambda>(self, turn, t). ready alive now turn \<and> own_ticket (hv_waiting dirs) t) jobs"
    and "map snd (queue alive now (hv_waiting dirs)) = map (\<lambda>(self, turn, t). tk_name t) jobs"
    and "distinct (map fst (hv_waiting dirs))"
    and "fst (readHolderRecords alive now (hv_running dirs)) = []"
  shows "drain n jobs dirs = map (\<lambda>k. Some (heavyShare n (int k))) (rev [1..<Suc (length jobs)])"
  using assms(2-)
proof (induction jobs arbitrary: dirs)
  case (Cons job jobs)
  obtain self turn t where job: "job = (self, turn, t)" by (metis surj_pair)
  let ?ns = "map (\<lambda>(self, turn, t). tk_name t) jobs"
  have "ready alive now turn" "own_ticket (hv_waiting dirs) t" "map snd (queue alive now (hv_waiting dirs)) = tk_name t # ?ns"
    using Cons.prems(1,2) by (simp_all add: job)
  from drain_turn [OF assms(1) this Cons.prems(3,4), of self] obtain t' dirs' name where
      turn: "heavy_turn n self turn t dirs = (Admitted (heavyShare n (int (Suc (length jobs)))) name, t', dirs')"
        "map snd (queue alive now (hv_waiting dirs')) = ?ns" "distinct (map fst (hv_waiting dirs'))"
        "fst (readHolderRecords alive now (removeHeavyHolder name (hv_running dirs'))) = []"
        "\<forall>u. own_ticket (hv_waiting dirs) u \<and> tk_name u \<in> set ?ns \<longrightarrow> own_ticket (hv_waiting dirs') u"
    by auto
  let ?d = "dirs'\<lparr>hv_running := removeHeavyHolder name (hv_running dirs')\<rparr>"
  have "list_all (\<lambda>(self, turn, t). ready alive now turn \<and> own_ticket (hv_waiting ?d) t) jobs"
    unfolding list_all_iff
  proof (clarify, intro conjI)
    fix self' turn' u
    assume j: "(self', turn', u) \<in> set jobs"
    then show "ready alive now turn'" using Cons.prems(1) by (auto simp: list_all_iff)
    have "tk_name u \<in> set ?ns" using j by force
    moreover have "own_ticket (hv_waiting dirs) u" using j Cons.prems(1) by (auto simp: list_all_iff)
    ultimately show "own_ticket (hv_waiting ?d) u" using turn(5) by simp
  qed
  from Cons.IH [OF this] turn show ?case by (simp add: job)
qed simp

section \<open>Samples\<close>

definition sample_time :: go_time where
  "sample_time = 62135596800000000000"

definition sample_command :: "nat \<Rightarrow> participant" where
  "sample_command p = \<lparr>pt_pid = int p + 1, pt_summary = ''go test'', pt_worktree = []\<rparr>"

definition idle_machine :: machine where
  "idle_machine = \<lparr>mc_dirs = \<lparr>hv_waiting = [], hv_running = []\<rparr>, mc_lock = None, mc_pc = (\<lambda>_. Outside), mc_now = sample_time,
     mc_alive = (\<lambda>_. True)\<rparr>"

definition sample_ticket :: ticket where
  "sample_ticket = \<lparr>tk_name = record_name sample_time 1 1, tk_created_at = sample_time, tk_self = sample_command 0\<rparr>"

definition sample_waiting :: "ticket_record dir" where
  "sample_waiting = [(record_name sample_time 1 1, ticket_file (sample_command 0) sample_time sample_time)]"

lemma time_sub_self [simp]: "time_sub t t = 0"
  by (simp add: time_sub_def min_duration_def max_duration_def)

lemma sample_read:
  "readTicketsIn (\<lambda>_. True) sample_time sample_waiting =
     ([(record_name sample_time 1 1, \<lparr>tr_self = sample_command 0, tr_created = sample_time, tr_updated = sample_time\<rparr>)], sample_waiting)"
  using record_name_ok(2) [of sample_time 1 1]
  by (simp add: readTicketsIn_def sample_waiting_def ticket_file_def List.map_filter_simps read_entry_def entry_stays_def
      ticket_live_def isLive_def staleAfter_def)

lemma sample_admission_reachable:
  "\<exists>m. reachable heavy_init (heavy_step (int 8) sample_command) m \<and> 0 \<in> actives m \<and> share_of m 0 = 8"
proof -
  let ?step = "heavy_step (int 8) sample_command" and ?t = sample_ticket
  let ?w = "put_waiting sample_waiting idle_machine"
  have r0: "reachable heavy_init ?step idle_machine"
    by (rule reachable_init) (simp add: heavy_init_def idle_machine_def)
  have "registerAtTime True 1 (sample_command 0) (mc_now idle_machine) (waiting_of idle_machine) = (?t, sample_waiting)"
    by (simp add: registerAtTime_def Let_def idle_machine_def sample_ticket_def sample_waiting_def sample_command_def)
  then have "?step idle_machine (goto 0 (Waiting ?t) ?w)"
    by (intro heavy_step.register) (simp_all add: idle_machine_def)
  with r0 have r1: "reachable heavy_init ?step (goto 0 (Waiting ?t) ?w)" by (rule reachable_step)
  let ?ts = "[(tk_name ?t, \<lparr>tr_self = sample_command 0, tr_created = sample_time, tr_updated = sample_time\<rparr>)]"
  have rd: "readTicketsIn (mc_alive (goto 0 c ?w)) (mc_now (goto 0 c ?w)) (waiting_of (goto 0 c ?w)) = (?ts, sample_waiting)"
      "readTicketsIn (mc_alive (goto 0 c (set_lock l ?w))) (mc_now (goto 0 c (set_lock l ?w))) (waiting_of (goto 0 c (set_lock l ?w))) =
         (?ts, sample_waiting)" for c l
    using sample_read by (auto simp: idle_machine_def sample_ticket_def)
  have head: "is_head ?t ?ts" by (simp add: is_head_def)
  let ?b = "goto 0 (AtHead ?t) (put_waiting sample_waiting (goto 0 (Waiting ?t) ?w))"
  have "?step (goto 0 (Waiting ?t) ?w) (goto 0 (if is_head ?t ?ts then AtHead ?t else Waiting ?t)
      (put_waiting sample_waiting (goto 0 (Waiting ?t) ?w)))"
    by (rule heavy_step.look [OF _ rd(1)]) simp
  then have "?step (goto 0 (Waiting ?t) ?w) ?b" using head by simp
  with r1 have r2: "reachable heavy_init ?step ?b" by (rule reachable_step)
  have b: "?b = goto 0 (AtHead ?t) ?w" by (simp add: goto_def put_waiting_def)
  let ?c = "goto 0 (HasLock ?t) (set_lock (Some 0) ?b)"
  have "?step ?b ?c" by (rule heavy_step.lock) (simp_all add: idle_machine_def)
  with r2 have r3: "reachable heavy_init ?step ?c" by (rule reachable_step)
  have c: "?c = goto 0 (HasLock ?t) (set_lock (Some 0) ?w)" unfolding b by (simp add: goto_def set_lock_def)
  let ?d = "goto 0 (SawQueue ?t 1) (put_waiting sample_waiting ?c)"
  have "?step (goto 0 (HasLock ?t) (set_lock (Some 0) ?w))
      (goto 0 (SawQueue ?t (length ?ts)) (put_waiting sample_waiting (goto 0 (HasLock ?t) (set_lock (Some 0) ?w))))"
    by (rule heavy_step.look_again [OF _ rd(2) head]) simp
  then have "?step ?c ?d" unfolding c by simp
  with r3 have r4: "reachable heavy_init ?step ?d" by (rule reachable_step)
  have h: "readHolderRecords (mc_alive ?d) (mc_now ?d) (running_of ?d) = ([], [])"
    by (simp add: readHolderRecords_def idle_machine_def List.map_filter_simps)
  let ?e = "goto 0 (Decided ?t 8) (put_running [] ?d)"
  have "?step ?d ?e"
    by (rule heavy_step.decide [OF _ h, of 0 ?t 1]) (simp_all add: admissible_idle heavyShare_def)
  with r4 have r5: "reachable heavy_init ?step ?e" by (rule reachable_step)
  obtain name dir where a: "announceHeavyHolder True 1 (sample_command 0) 8 (mc_now ?e) (running_of ?e) = Some (name, dir)"
    by (simp add: announceHeavyHolder_def Let_def)
  let ?f = "goto 0 (Announced ?t 8 name (mc_now ?e)) (put_running dir ?e)"
  have "?step ?e ?f" by (rule heavy_step.announce [where sequence = 1]) (use a in simp_all)
  with r5 have "reachable heavy_init ?step ?f" by (rule reachable_step)
  moreover have "active (mc_pc ?f 0) = Some (8, name)" by simp
  then have "0 \<in> actives ?f" "share_of ?f 0 = 8" unfolding actives_def share_of_def by simp_all
  ultimately show ?thesis by blast
qed

theorem heavy_cap_holds_witness:
  "\<exists>m. reachable heavy_init (heavy_step (int 8) sample_command) m \<and> 0 \<in> actives m \<and> share_of m 0 = 8 \<and> allocated m \<le> 12"
proof -
  obtain m where m: "reachable heavy_init (heavy_step (int 8) sample_command) m" "0 \<in> actives m" "share_of m 0 = 8"
    using sample_admission_reachable by blast
  have "int 8 * 3 div 2 = (12 :: int)" by simp
  with heavy_cap_holds [OF m(1)] have "allocated m \<le> 12" by metis
  with m show ?thesis by blast
qed

definition idle_turn :: heavy_turn where
  "idle_turn = \<lparr>ht_now = sample_time, ht_alive = (\<lambda>_. True), ht_heartbeat = False, ht_done = False, ht_lock = Inr True, ht_announce = True,
     ht_sequence = 2, ht_sleep_done = False\<rparr>"

theorem unregistered_never_admitted_witness:
  "let t = fst (registerAtTime False 1 (sample_command 0) sample_time []);
       turns = [(idle_turn, \<lparr>hv_waiting = [], hv_running = []\<rparr>), (idle_turn, \<lparr>hv_waiting = [], hv_running = []\<rparr>)]
   in admitHeavyWithLock 8 (sample_command 0) t turns = None \<or>
      (\<exists>dirs. admitHeavyWithLock 8 (sample_command 0) t turns = Some (Cancelled, dirs))"
  unfolding Let_def
  by (rule unregistered_never_admitted [of 1 "sample_command 0" sample_time "[]" _ "[]"]) (simp_all add: registerAtTime_def Let_def)

theorem heavy_queue_drains_witness:
  "drain 8 [(sample_command 0, idle_turn, sample_ticket)] \<lparr>hv_waiting = sample_waiting, hv_running = []\<rparr> = [Some 8]"
proof -
  let ?dirs = "\<lparr>hv_waiting = sample_waiting, hv_running = []\<rparr>"
  have "list_all (\<lambda>(self, turn, t). ready (\<lambda>_. True) sample_time turn \<and> own_ticket (hv_waiting ?dirs) t)
      [(sample_command 0, idle_turn, sample_ticket)]"
    using record_name_ok(1)
    by (simp add: ready_def idle_turn_def own_ticket_def sample_waiting_def sample_ticket_def ticket_file_def)
  moreover have "map snd (queue (\<lambda>_. True) sample_time (hv_waiting ?dirs)) =
      map (\<lambda>(self, turn, t). tk_name t) [(sample_command 0, idle_turn, sample_ticket)]"
    by (simp add: queue_names sample_read sample_ticket_def)
  moreover have "distinct (map fst (hv_waiting ?dirs))" by (simp add: sample_waiting_def)
  moreover have "fst (readHolderRecords (\<lambda>_. True) sample_time (hv_running ?dirs)) = []"
    by (simp add: readHolderRecords_def List.map_filter_simps)
  ultimately show ?thesis
    using heavy_queue_drains [of 8 "\<lambda>_. True" sample_time ?dirs "[(sample_command 0, idle_turn, sample_ticket)]"]
    by (simp add: heavyShare_def)
qed

end
