(* ===== verification/Landing_Graph.thy ===== *)
theory Landing_Graph
  imports Landing_Receipts Branch_Props
begin

text \<open>
  The receipt service against the commit graph it asks about. \<open>git_graph\<close> is the abstract
  content of a repository: its commits, their parents and trees, and the tree of a three-way
  merge. \<open>answers_from\<close> is what the manuals of the Git commands say of their answers: the tree
  and the parents of a commit, ancestry, the tree a merge writes or exit code 1 on a conflict,
  and failure for an object that is not there. Under it
  the two receipt functions compute abstract predicates on the graph; the locale
  \<open>landing_provider\<close> is the contract the branch cleanup relies on, met by the receipt service
  through the adapter of \<^verbatim>\<open>internal/worktrees/branches_inventory_adapter.go\<close>.
\<close>

section \<open>Object identifiers as output of Git\<close>

lemma hex_printable: "HasOnlyLowerHexCharacters s \<Longrightarrow> list_all printable s"
  unfolding HasOnlyLowerHexCharacters_def list_all_iff printable_def
  by (force simp: less_char_def not_less)

lemma object_id_printable: "IsGitObjectID s \<Longrightarrow> list_all printable s \<and> s \<noteq> []"
  unfolding IsGitObjectID_def using hex_printable by (auto split: if_splits)

lemma printable_ascii: "list_all printable s \<Longrightarrow> ascii s"
  by (auto simp: ascii_def printable_def list_all_iff)

lemma LF_space: "IsSpace (of_char LF)"
  by code_simp

lemma LF_ascii: "(of_char LF :: nat) < 128"
  by code_simp

lemma not_space_printable: "printable c \<Longrightarrow> \<not> IsSpace (of_char c)"
  by (simp add: printable_def printable_not_space)

lemma dropWhile_none: "\<forall>x \<in> set xs. \<not> P x \<Longrightarrow> dropWhile P xs = xs"
  by (cases xs) auto

lemma TrimSpace_line:
  assumes "list_all printable v" "v \<noteq> []"
  shows "TrimSpace (v @ [LF]) = v"
proof -
  let ?f = "\<lambda>c. (of_char c :: rune, [c])" and ?P = "\<lambda>(r, _). IsSpace r"
  have "ascii (v @ [LF])" using printable_ascii [OF assms(1)] LF_ascii by (auto simp: ascii_def)
  then have chunks: "utf8_chunks (v @ [LF]) = map ?f v @ [?f LF]" by (simp add: utf8_chunks_ascii)
  have none: "\<forall>x \<in> set (map ?f v). \<not> ?P x" using assms(1) not_space_printable by (auto simp: list_all_iff)
  then have "dropWhile ?P (map ?f v @ [?f LF]) = map ?f v @ [?f LF]"
    using assms(2) by (cases v) auto
  moreover have "dropWhile ?P (rev (map ?f v)) = rev (map ?f v)"
    by (rule dropWhile_none) (use none in simp)
  ultimately have "trim_by ?P (utf8_chunks (v @ [LF])) = map ?f v"
    by (simp add: chunks trim_by_def LF_space)
  then show ?thesis by (simp add: TrimSpace_def comp_def)
qed

lemma fields_word:
  assumes "list_all printable w"
  shows "fields_chunks (map (\<lambda>c. (of_char c, [c])) w @ cs) acc = fields_chunks cs (acc @ w)"
  using assms by (induction w arbitrary: acc) (auto simp: not_space_printable)

lemma Fields_words:
  assumes "\<forall>w \<in> set ws. list_all printable w \<and> w \<noteq> []"
  shows "Fields (Join ws '' '') = ws"
proof -
  have sp: "IsSpace 32" by (simp add: IsSpace_def)
  let ?f = "\<lambda>c. (of_char c :: rune, [c])"
  have "ascii (Join ws '' '')" using assms
    by (induction ws rule: induct_list012) (auto simp: ascii_def printable_def list_all_iff)
  then have chunks: "utf8_chunks (Join ws '' '') = map ?f (Join ws '' '')" by (rule utf8_chunks_ascii)
  have "fields_chunks (map ?f (Join ws '' '')) [] = ws" using assms
  proof (induction ws rule: induct_list012)
    case (2 w)
    then show ?case using fields_word [of w "[]" "[]"] by auto
  next
    case (3 w w' ws)
    then have "fields_chunks (map ?f w @ ?f (CHR '' '') # map ?f (Join (w' # ws) '' '')) [] = w # w' # ws"
      by (subst fields_word) (auto simp: sp)
    then show ?case by simp
  qed simp
  then show ?thesis by (simp add: Fields_def chunks)
qed

section \<open>The commit graph\<close>

record git_graph =
  g_commits :: "string set"
  g_parents :: "string \<Rightarrow> string list"
  g_tree :: "string \<Rightarrow> string"
  g_merge :: "string \<Rightarrow> string \<Rightarrow> string option"

text \<open>\<open>reaches G a d\<close>: \<open>a\<close> is \<open>d\<close> or one of its ancestors. \<open>carries G c h\<close>: merging \<open>h\<close> into \<open>c\<close> succeeds
  and changes nothing.\<close>

definition reaches :: "git_graph \<Rightarrow> string \<Rightarrow> string \<Rightarrow> bool" where
  "reaches G = (\<lambda>a d. a \<in> set (g_parents G d))\<^sup>*\<^sup>*"

definition carries :: "git_graph \<Rightarrow> string \<Rightarrow> string \<Rightarrow> bool" where
  "carries G commit head \<longleftrightarrow> g_merge G commit head = Some (g_tree G commit)"

definition merge_answer :: "merge_run \<Rightarrow> string option \<Rightarrow> bool" where
  "merge_answer run result =
     (case result of
        Some tree \<Rightarrow> mr_err run = None \<and> mr_stdout run = tree @ [LF] \<and> IsGitObjectID tree
      | None \<Rightarrow> mr_err run \<noteq> None \<and> mr_exit run = 1 \<and> \<not> mr_ctx_done run)"

definition answers_from :: "receipt_ports \<Rightarrow> string \<Rightarrow> git_graph \<Rightarrow> bool" where
  "answers_from p repository G \<longleftrightarrow>
     (\<forall>c \<in> g_commits G. IsGitObjectID c \<and> IsGitObjectID (g_tree G c) \<and> set (g_parents G c) \<subseteq> g_commits G \<and>
        r_Git p repository [''rev-parse'', c @ ''^{tree}''] = Inr (g_tree G c) \<and>
        r_Git p repository [''rev-list'', ''--parents'', ''-n'', ''1'', ''--end-of-options'', c] = Inr (Join (c # g_parents G c) '' '')) \<and>
     (\<forall>c \<in> g_commits G. \<forall>d \<in> g_commits G.
        r_IsAncestor p repository c d = Inr (reaches G c d) \<and>
        merge_answer (r_MergeTreeRun p repository c d) (g_merge G c d)) \<and>
     (\<forall>c d. c \<noteq> d \<and> is_ok (r_IsAncestor p repository c d) \<or> mr_err (r_MergeTreeRun p repository c d) = None \<longrightarrow>
        c \<in> g_commits G \<and> d \<in> g_commits G)"

lemma answersD:
  assumes "answers_from p repository G"
  shows answers_object: "c \<in> g_commits G \<Longrightarrow> IsGitObjectID c \<and> IsGitObjectID (g_tree G c) \<and> set (g_parents G c) \<subseteq> g_commits G"
    and answers_tree: "c \<in> g_commits G \<Longrightarrow> r_Git p repository [''rev-parse'', c @ ''^{tree}''] = Inr (g_tree G c)"
    and answers_parents: "c \<in> g_commits G \<Longrightarrow>
      r_Git p repository [''rev-list'', ''--parents'', ''-n'', ''1'', ''--end-of-options'', c] = Inr (Join (c # g_parents G c) '' '')"
    and answers_ancestor: "c \<in> g_commits G \<Longrightarrow> d \<in> g_commits G \<Longrightarrow> r_IsAncestor p repository c d = Inr (reaches G c d)"
    and answers_merge_run: "c \<in> g_commits G \<Longrightarrow> d \<in> g_commits G \<Longrightarrow> merge_answer (r_MergeTreeRun p repository c d) (g_merge G c d)"
    and known_ancestor: "c \<noteq> d \<Longrightarrow> is_ok (r_IsAncestor p repository c d) \<Longrightarrow> c \<in> g_commits G \<and> d \<in> g_commits G"
    and known_merge: "mr_err (r_MergeTreeRun p repository c d) = None \<Longrightarrow> c \<in> g_commits G \<and> d \<in> g_commits G"
  using assms unfolding answers_from_def by blast+

lemma answers_commit:
  assumes "answers_from p repository G" "c \<in> g_commits G"
  shows "IsGitObjectID c" "IsGitObjectID (g_tree G c)" "set (g_parents G c) \<subseteq> g_commits G"
    "CommitTree (r_Git p) repository c = Inr (g_tree G c)"
  using answers_object [OF assms] answers_tree [OF assms] by (simp_all add: CommitTree_def ParseCommitTree_def)

lemma answers_first_parent:
  assumes "answers_from p repository G" "c \<in> g_commits G"
  shows "CommitFirstParent (r_Git p) repository c = Inr (case g_parents G c of [] \<Rightarrow> [] | q # qs \<Rightarrow> q)"
proof -
  have ids: "\<forall>w \<in> set (c # g_parents G c). IsGitObjectID w"
    using answers_object [OF assms] answers_object [OF assms(1)] by auto
  then have "Fields (Join (c # g_parents G c) '' '') = c # g_parents G c"
    using object_id_printable by (intro Fields_words) auto
  then show ?thesis using ids
    by (simp add: CommitFirstParent_def answers_parents [OF assms] ParseCommitFirstParent_def Let_def split: list.split)
qed

lemma answers_merge:
  assumes "answers_from p repository G" "c \<in> g_commits G" "d \<in> g_commits G"
  shows "MergeResultTree p repository c d = Inr (g_merge G c d)"
proof -
  have answer: "merge_answer (r_MergeTreeRun p repository c d) (g_merge G c d)" using answers_merge_run assms by simp
  show ?thesis
  proof (cases "g_merge G c d")
    case None
    then have "mr_err (r_MergeTreeRun p repository c d) \<noteq> None" "mr_exit (r_MergeTreeRun p repository c d) = 1"
        "\<not> mr_ctx_done (r_MergeTreeRun p repository c d)"
      using answer by (simp_all add: merge_answer_def)
    then show ?thesis using None by (auto simp: MergeResultTree_def Let_def)
  next
    case (Some tree)
    then have t: "mr_err (r_MergeTreeRun p repository c d) = None" "mr_stdout (r_MergeTreeRun p repository c d) = tree @ [LF]"
        "IsGitObjectID tree"
      using answer by (simp_all add: merge_answer_def)
    have pr: "list_all printable tree" "tree \<noteq> []" using object_id_printable t(3) by auto
    have "\<not> printable LF" by code_simp
    then have "LF \<notin> set tree" using pr(1) by (auto simp: list_all_iff)
    then have "Cut tree LF = (tree, [], False)" by (simp add: Cut_def IndexByte_None_iff [THEN iffD2])
    then show ?thesis using t pr Some
      by (simp add: MergeResultTree_def Let_def TrimSpace_line TrimSpace_printable)
  qed
qed

lemma ContentContained_carries:
  assumes "answers_from p repository G" "c \<in> g_commits G" "head \<in> g_commits G"
  shows "ContentContained p repository head c = Inr (carries G c head)"
  using answers_merge [OF assms] answers_commit(4) [OF assms(1,2)]
  by (auto simp: ContentContained_def carries_def split: option.splits)

lemma ancestor_reaches:
  assumes "answers_from p repository G" "r_IsAncestor p repository c d = Inr True"
  shows "reaches G c d"
proof (cases "c = d")
  case False
  then have "c \<in> g_commits G \<and> d \<in> g_commits G" using known_ancestor [OF assms(1)] assms(2) by simp
  then show ?thesis using answers_ancestor [OF assms(1), of c d] assms(2) by simp
qed (simp add: reaches_def)

lemma contained_carries:
  assumes "answers_from p repository G" "ContentContained p repository head c = Inr True"
  shows "carries G c head"
proof -
  have "mr_err (r_MergeTreeRun p repository c head) = None"
    using assms(2) by (auto simp: ContentContained_def MergeResultTree_def Let_def split: option.splits if_splits sum.splits)
  then have "c \<in> g_commits G \<and> head \<in> g_commits G" by (rule known_merge [OF assms(1)])
  then show ?thesis using ContentContained_carries [OF assms(1), of c head] assms(2) by simp
qed

section \<open>The receipts as functions of the graph\<close>

definition absorbed_at :: "git_graph \<Rightarrow> string \<Rightarrow> string \<Rightarrow> string \<Rightarrow> bool" where
  "absorbed_at G head landing target \<longleftrightarrow> reaches G landing target \<and> carries G landing head \<and> carries G target head"

text \<open>The commit where the work entered: its first parent, if any, did not carry it yet.\<close>

definition entered_at :: "git_graph \<Rightarrow> string \<Rightarrow> string \<Rightarrow> bool" where
  "entered_at G head landing \<longleftrightarrow> (\<forall>q qs. g_parents G landing = q # qs \<longrightarrow> \<not> carries G q head)"

definition graph_receipt :: "git_graph \<Rightarrow> github_pull_request list \<Rightarrow> string \<Rightarrow> string \<Rightarrow> string \<Rightarrow> absorbed_receipt verdict" where
  "graph_receipt G pullRequests base head target =
     (case AbsorbingPullRequest pullRequests base of
        None \<Rightarrow> NotProved
      | Some pr \<Rightarrow>
          if IsGitObjectID (pr_merge_sha pr) \<and> absorbed_at G head (pr_merge_sha pr) target
          then Proved \<lparr>rc_landing_sha = pr_merge_sha pr, rc_pull_request = Some pr\<rparr> else NotProved)"

lemma AbsorbedLandingReceipt_graph:
  assumes "answers_from p repository G" "{head, target} \<subseteq> g_commits G"
    and "\<forall>pr. AbsorbingPullRequest pullRequests base = Some pr \<longrightarrow> IsGitObjectID (pr_merge_sha pr) \<longrightarrow> pr_merge_sha pr \<in> g_commits G"
  shows "AbsorbedLandingReceipt p worktree repository slug head base target [] pullRequests = graph_receipt G pullRequests base head target"
  using assms
  by (auto simp: AbsorbedLandingReceipt_def graph_receipt_def receipt_ContentAbsorbed_def absorbed_at_def
      answers_ancestor ContentContained_carries split: option.split bool.split)

lemma attested_by_commit_graph:
  assumes a: "answers_from p repository G" and c: "{head, target, landing} \<subseteq> g_commits G"
  shows "(attested_by_commit p repository head base target absorbedBy landing = Proved receipt) \<longleftrightarrow>
    receipt = \<lparr>rc_landing_sha = landing, rc_pull_request = None\<rparr> \<and> absorbed_at G head landing target \<and> entered_at G head landing"
proof -
  have "\<forall>q qs. g_parents G landing = q # qs \<longrightarrow> q \<in> g_commits G \<and> q \<noteq> []"
    using answers_commit(3) [OF a, of landing] answers_commit(1) [OF a] c object_id_printable by (metis insert_subset list.set_intros(1) subsetD)
  then show ?thesis using a c
    by (auto simp: attested_by_commit_def Let_def absorbed_at_def entered_at_def answers_ancestor ContentContained_carries
        answers_first_parent split: list.splits bool.splits)
qed

text \<open>What a pull-request pointer proves: the landing shape, and the content proof.\<close>

definition landed_in :: "receipt_ports \<Rightarrow> string \<Rightarrow> string \<Rightarrow> string \<Rightarrow> string \<Rightarrow> bool" where
  "landed_in p repository head landing target \<longleftrightarrow>
     r_IsAncestor p repository landing target = Inr True \<and>
     ContentContained p repository head landing = Inr True \<and> ContentContained p repository head target = Inr True"

lemma receipt_ContentAbsorbed_True:
  "receipt_ContentAbsorbed p repository head landing target = Inr True \<longleftrightarrow>
     ContentContained p repository head landing = Inr True \<and> ContentContained p repository head target = Inr True"
  by (auto simp: receipt_ContentAbsorbed_def split: sum.split bool.split)

lemma receipt_after_content_proof_Proved:
  "receipt_after_content_proof p repository head base target pr landing = Proved receipt \<longleftrightarrow>
     receipt = \<lparr>rc_landing_sha = landing, rc_pull_request = Some pr\<rparr> \<and>
     ContentContained p repository head landing = Inr True \<and> ContentContained p repository head target = Inr True"
  using receipt_ContentAbsorbed_True [of p repository head landing target]
  by (auto simp: receipt_after_content_proof_def split: sum.split bool.split)

lemma VerifyAttestedSquash_ok:
  "VerifyAttestedSquashPullRequest p repository head target absorbedBy pr = Inr [] \<Longrightarrow>
     r_IsAncestor p repository (pr_merge_sha pr) target = Inr True \<and> r_IsAncestor p repository head (pr_head_sha pr) = Inr True \<and>
     (\<exists>tree. CommitTree (r_Git p) repository (pr_head_sha pr) = Inr tree \<and> CommitTree (r_Git p) repository (pr_merge_sha pr) = Inr tree)"
  unfolding VerifyAttestedSquashPullRequest_def FetchExactRemotePullRequestHead_def
  by (auto simp: Let_def split: if_splits sum.splits fetch_error.splits bool.splits)

lemma VerifyAttestedMergeCommit_ok:
  "VerifyAttestedMergeCommitPullRequest p repository head target absorbedBy pr = Inr [] \<Longrightarrow>
     r_IsAncestor p repository (pr_merge_sha pr) target = Inr True \<and> r_IsAncestor p repository head target = Inr True"
  unfolding VerifyAttestedMergeCommitPullRequest_def
  by (auto simp: Let_def split: if_splits sum.splits bool.splits)

lemma ResolveAbsorbedByPullRequest_pr:
  "ResolveAbsorbedByPullRequest p worktree slug base number = Proved (landing, pr) \<Longrightarrow> \<exists>r. pr = Some r \<and> landing = pr_merge_sha r"
  by (auto simp: ResolveAbsorbedByPullRequest_def MergedPullRequestReceipt_def Let_def split: sum.splits if_splits)

lemma ResolveAbsorbedBy_pr:
  "ResolveAbsorbedBy p worktree repository slug base absorbedBy = Proved (landing, Some r) \<Longrightarrow> landing = pr_merge_sha r"
  by (auto simp: ResolveAbsorbedBy_def Let_def dest: ResolveAbsorbedByPullRequest_pr
      split: if_splits option.splits sum.splits prod.splits)

lemma attested_by_pull_request_landed:
  assumes "attested_by_pull_request p repository head base target absorbedBy (pr_merge_sha pr) pr = Proved receipt"
  shows "landed_in p repository head (rc_landing_sha receipt) target"
  using assms VerifyAttestedSquash_ok [of p repository head target absorbedBy pr]
    VerifyAttestedMergeCommit_ok [of p repository head target absorbedBy pr]
  by (auto simp: attested_by_pull_request_def receipt_after_content_proof_Proved landed_in_def split: sum.splits if_splits)

lemma attested_by_commit_landed:
  assumes "attested_by_commit p repository head base target absorbedBy landing = Proved receipt"
  shows "landed_in p repository head (rc_landing_sha receipt) target"
  using assms by (auto simp: attested_by_commit_def landed_in_def Let_def split: sum.splits if_splits bool.splits)

lemma AttestedAbsorbedReceipt_landed:
  assumes "AttestedAbsorbedReceipt p worktree repository slug head base target absorbedBy = Proved receipt"
  shows "landed_in p repository head (rc_landing_sha receipt) target"
proof -
  obtain landing pr where resolved: "ResolveAbsorbedBy p worktree repository slug base absorbedBy = Proved (landing, pr)"
    using assms by (auto simp: AttestedAbsorbedReceipt_def split: verdict.splits)
  show ?thesis
  proof (cases pr)
    case None
    then show ?thesis using assms resolved attested_by_commit_landed by (simp add: AttestedAbsorbedReceipt_def)
  next
    case (Some r)
    then have "landing = pr_merge_sha r" using resolved ResolveAbsorbedBy_pr by simp
    then show ?thesis using assms resolved Some attested_by_pull_request_landed by (simp add: AttestedAbsorbedReceipt_def)
  qed
qed

lemma AbsorbedLandingReceipt_landed:
  assumes "AbsorbedLandingReceipt p worktree repository slug head base target absorbedBy pullRequests = Proved receipt"
  shows "landed_in p repository head (rc_landing_sha receipt) target"
  using assms AttestedAbsorbedReceipt_landed receipt_ContentAbsorbed_True
  by (auto simp: AbsorbedLandingReceipt_def landed_in_def split: if_splits option.splits sum.splits bool.splits)

section \<open>The receipt service behind the ports of the branch inventory\<close>

text \<open>\<^verbatim>\<open>branchInventoryService\<close>: the ports that the receipt service and Git answer. The remaining
  ports (discovery, claims, fetching, supersession, pages) are those of the argument.\<close>

definition attested_port ::
  "receipt_ports \<Rightarrow> repository \<Rightarrow> branch_ref \<Rightarrow> string \<Rightarrow> string \<Rightarrow> string \<Rightarrow> (string, verified_candidate option \<times> string) result" where
  "attested_port r repo ref base targetSHA absorbedBy =
     (case AttestedAbsorbedReceipt r (rp_path repo) (rp_path repo) (rp_slug repo) (ref_sha ref) base targetSHA absorbedBy of
        Failed err \<Rightarrow> Inl err
      | Rejected rejection \<Rightarrow> Inr (None, rejection)
      | NotProved \<Rightarrow> Inr (None, [])
      | Proved receipt \<Rightarrow>
          Inr (Some \<lparr>vc_landing_sha = rc_landing_sha receipt, vc_pull_request = rc_pull_request receipt\<rparr>, []))"

definition branchInventoryService :: "receipt_ports \<Rightarrow> inventory_ports \<Rightarrow> inventory_ports" where
  "branchInventoryService r others =
     others\<lparr>p_Git := r_Git r, p_IsAncestor := r_IsAncestor r, p_ContentContained := ContentContained r,
            p_LandingReverted := landingReverted (r_Git r), p_CommitTree := CommitTree (r_Git r),
            p_AttestedReceipt := attested_port r,
            p_PullRequestsForHead := (\<lambda>repo sha. GitHubPullRequests r (rp_path repo) (rp_slug repo) sha),
            p_AbsorbingPR := AbsorbingPullRequest\<rparr>"

locale landing_provider =
  fixes attested_receipt :: "repository \<Rightarrow> branch_ref \<Rightarrow> string \<Rightarrow> string \<Rightarrow> string \<Rightarrow> (string, verified_candidate option \<times> string) result"
    and content_contained :: "string \<Rightarrow> string \<Rightarrow> string \<Rightarrow> (string, bool) result"
    and is_ancestor :: "string \<Rightarrow> string \<Rightarrow> string \<Rightarrow> (string, bool) result"
  assumes attested_landed:
    "attested_receipt repo ref base target pointer = Inr (Some c, rejection) \<Longrightarrow>
       is_ancestor (rp_path repo) (vc_landing_sha c) target = Inr True \<and>
       content_contained (rp_path repo) (ref_sha ref) (vc_landing_sha c) = Inr True \<and>
       content_contained (rp_path repo) (ref_sha ref) target = Inr True"
begin

definition provides :: "inventory_ports \<Rightarrow> bool" where
  "provides p \<longleftrightarrow> p_AttestedReceipt p = attested_receipt \<and> p_ContentContained p = content_contained \<and> p_IsAncestor p = is_ancestor"

lemma deletion_landed:
  assumes "provides p" "deletion_proved p repo sweep ref target"
  shows "is_ancestor (rp_path repo) (ref_sha ref) target = Inr True \<or> supersession_proved p repo sweep ref target \<or>
    (\<exists>landing. is_ancestor (rp_path repo) landing target = Inr True \<and>
       content_contained (rp_path repo) (ref_sha ref) landing = Inr True \<and>
       (content_contained (rp_path repo) (ref_sha ref) target = Inr True \<or>
        (\<exists>pr :: pull_request. pr_merge_sha pr = landing \<and> pr_head_sha pr = ref_sha ref \<and>
           p_LandingReverted p (rp_path repo) landing target [GitHubRevertMarker (rp_slug repo) (pr_number pr)] = Inr False)))"
proof -
  have p: "p_AttestedReceipt p = attested_receipt" "p_ContentContained p = content_contained" "p_IsAncestor p = is_ancestor"
    using assms(1) by (simp_all add: provides_def)
  consider (ancestor) "is_ancestor (rp_path repo) (ref_sha ref) target = Inr True"
    | (superseded) "supersession_proved p repo sweep ref target"
    | (pointer) c rejection where
        "attested_receipt repo ref (sw_base sweep) target (sw_absorbed_by sweep) = Inr (Some c, rejection)"
    | (landed) pr where "landing_proved p repo ref target pr"
    using assms(2) p unfolding deletion_proved_def attested_def receipt_proved_def by metis
  then show ?thesis
  proof cases
    case (pointer c rejection)
    from attested_landed [OF this] show ?thesis by blast
  next
    case (landed pr)
    then show ?thesis unfolding landing_proved_def p by blast
  qed simp_all
qed

end

interpretation receipts: landing_provider "attested_port r" "ContentContained r" "r_IsAncestor r" for r :: receipt_ports
proof unfold_locales
  fix repo ref base target pointer c rejection
  assume "attested_port r repo ref base target pointer = Inr (Some c, rejection)"
  then obtain receipt where
    "AttestedAbsorbedReceipt r (rp_path repo) (rp_path repo) (rp_slug repo) (ref_sha ref) base target pointer = Proved receipt"
    "vc_landing_sha c = rc_landing_sha receipt"
    by (auto simp: attested_port_def split: verdict.splits)
  then show "r_IsAncestor r (rp_path repo) (vc_landing_sha c) target = Inr True \<and>
      ContentContained r (rp_path repo) (ref_sha ref) (vc_landing_sha c) = Inr True \<and>
      ContentContained r (rp_path repo) (ref_sha ref) target = Inr True"
    using AttestedAbsorbedReceipt_landed by (simp add: landed_in_def)
qed

lemma production_provides: "receipts.provides r (branchInventoryService r others)"
  by (simp add: receipts.provides_def branchInventoryService_def)

end
