(* ===== verification/Landing_Props.thy ===== *)
theory Landing_Props
  imports Landing_Graph
begin

text \<open>
  The properties of landing receipts: what the two receipt functions compute on the commit graph,
  and what becomes of the commits of the branches a cleanup plans to delete.
\<close>

text \<open>
  C36: the receipt WB discovers by itself is exactly a property of the commit graph. When Git
  answers from the graph and has the commits in question, \<^verbatim>\<open>AbsorbedLandingReceipt\<close> never fails:
  it takes the newest merged pull request into the base, and accepts it just when its merge
  commit is an ancestor of the target, and merging the head changes neither the merge commit nor
  the target. Work that landed and was taken out of the target again is not accepted.
\<close>

theorem discovered_receipt_refines_graph:
  assumes "answers_from p repository G" "{head, target} \<subseteq> g_commits G"
    and "\<forall>pr. AbsorbingPullRequest pullRequests base = Some pr \<longrightarrow> IsGitObjectID (pr_merge_sha pr) \<longrightarrow> pr_merge_sha pr \<in> g_commits G"
  shows "AbsorbedLandingReceipt p worktree repository slug head base target [] pullRequests =
    (case AbsorbingPullRequest pullRequests base of
       None \<Rightarrow> NotProved
     | Some pr \<Rightarrow>
         if IsGitObjectID (pr_merge_sha pr) \<and> reaches G (pr_merge_sha pr) target \<and>
            carries G (pr_merge_sha pr) head \<and> carries G target head
         then Proved \<lparr>rc_landing_sha = pr_merge_sha pr, rc_pull_request = Some pr\<rparr> else NotProved)"
  unfolding AbsorbedLandingReceipt_graph [OF assms] by (simp add: graph_receipt_def absorbed_at_def split: option.split)

text \<open>
  C37: a commit the operator names is accepted exactly where the work entered the target. With a
  pointer that is neither a URL nor a number and resolves to a commit, the receipt is given just
  when that commit is in the target, carries the head, the target still carries it, and its first
  parent did not carry it yet. Naming the tip of the target is thus not enough.
\<close>

theorem attested_commit_exact:
  assumes "answers_from p repository G" "{head, target, landing} \<subseteq> g_commits G"
    and "TrimSpace absorbedBy \<noteq> []" "PullRequestURL (TrimSpace absorbedBy) = None"
    and "Atoi (TrimPrefix (TrimSpace absorbedBy) ''#'') = None"
    and "r_Git p repository [''rev-parse'', ''--verify'', ''--end-of-options'', TrimPrefix (TrimSpace absorbedBy) ''#'' @ ''^{commit}''] = Inr landing"
  shows "(\<exists>receipt. AttestedAbsorbedReceipt p worktree repository slug head base target absorbedBy = Proved receipt) \<longleftrightarrow>
    reaches G landing target \<and> carries G landing head \<and> carries G target head \<and>
    (\<forall>q qs. g_parents G landing = q # qs \<longrightarrow> \<not> carries G q head)"
proof -
  have "IsGitObjectID landing" using answers_commit(1) assms(1,2) by simp
  then have "ResolveAbsorbedBy p worktree repository slug base absorbedBy = Proved (landing, None)"
    using assms(3-) by (simp add: ResolveAbsorbedBy_def Let_def)
  then show ?thesis
    using attested_by_commit_graph [OF assms(1,2)] by (simp add: AttestedAbsorbedReceipt_def absorbed_at_def entered_at_def)
qed

text \<open>What is known of the commit of a branch when the branch may go.\<close>

definition content_kept :: "inventory_ports \<Rightarrow> repository \<Rightarrow> inventory_sweep \<Rightarrow> git_graph \<Rightarrow> branch_ref \<Rightarrow> string \<Rightarrow> bool" where
  "content_kept p repo sweep G ref target \<longleftrightarrow>
     reaches G (ref_sha ref) target \<or> supersession_proved p repo sweep ref target \<or>
     (\<exists>landing. reaches G landing target \<and> carries G landing (ref_sha ref) \<and>
        (carries G target (ref_sha ref) \<or>
         (\<exists>pr :: pull_request. pr_merge_sha pr = landing \<and> pr_head_sha pr = ref_sha ref \<and>
            p_LandingReverted p (rp_path repo) landing target [GitHubRevertMarker (rp_slug repo) (pr_number pr)] = Inr False)))"

lemma deletion_content_kept:
  assumes "answers_from r (rp_path repo) G" "deletion_proved (branchInventoryService r others) repo sweep ref target"
  shows "content_kept (branchInventoryService r others) repo sweep G ref target"
  using receipts.deletion_landed [OF production_provides assms(2)] ancestor_reaches [OF assms(1)] contained_carries [OF assms(1)]
  unfolding content_kept_def by blast

text \<open>
  C38: a planned deletion keeps the work of the branch. Run the branch inventory with the
  production receipt service, on repositories whose Git answers from their commit graphs: for
  every branch the plan deletes there is a discovered repository and a fetched target such that
  its commit is an ancestor of the target, or some commit of the target's history carries all of
  it and the target still does, or that commit is the unreverted merge of a pull request opened
  from this exact commit, or a reviewed supersession was accepted (\<^const>\<open>content_kept\<close>).
\<close>

theorem planned_deletions_keep_content:
  assumes "ClassifyFleetBranchesWithPaths (branchInventoryService r others) sweep = Some (Inr (entries, ds, paths))"
    and "sw_cleanup sweep"
    and "x \<in> set (PlanBranchCleanup (SortBranchEntries entries) (Policy sweep))" "cr_outcome x = ''planned''"
    and "\<forall>path. answers_from r path (G path)"
  shows "\<exists>repo ref. p_FetchTarget others (rp_path repo) (sw_base sweep) = Inr (be_target_sha (cr_entry x)) \<and>
    rp_slug repo = be_repository (cr_entry x) \<and> ref_name ref = be_branch (cr_entry x) \<and> ref_sha ref = be_sha (cr_entry x) \<and>
    content_kept (branchInventoryService r others) repo sweep (G (rp_path repo)) ref (be_target_sha (cr_entry x))"
proof -
  have "cr_entry x \<in> set (SortBranchEntries entries)" "deletable (SortBranchEntries entries) (Policy sweep) (cr_entry x)"
    using assms(3,4) by (auto simp: PlanBranchCleanup_def plan_entry_deletable split: if_splits)
  from deletable_entry_proved [OF assms(1,2) this] obtain repo ref where
    f: "p_FetchTarget (branchInventoryService r others) (rp_path repo) (sw_base sweep) = Inr (be_target_sha (cr_entry x))"
      "be_repository (cr_entry x) = rp_slug repo" "be_branch (cr_entry x) = ref_name ref" "be_sha (cr_entry x) = ref_sha ref"
      "deletion_proved (branchInventoryService r others) repo sweep ref (be_target_sha (cr_entry x))"
    unfolding plan_proved_def by blast
  have "content_kept (branchInventoryService r others) repo sweep (G (rp_path repo)) ref (be_target_sha (cr_entry x))"
    using deletion_content_kept f(5) assms(5) by blast
  moreover have "p_FetchTarget others (rp_path repo) (sw_base sweep) = Inr (be_target_sha (cr_entry x))"
    using f(1) by (simp add: branchInventoryService_def)
  ultimately show ?thesis using f(2-4) by metis
qed

section \<open>Witnesses\<close>

text \<open>A repository of two commits, the second one on top of the first.\<close>

definition first_commit :: string where "first_commit = replicate 40 (CHR ''a'')"
definition second_commit :: string where "second_commit = replicate 40 (CHR ''b'')"
definition first_tree :: string where "first_tree = replicate 40 (CHR ''c'')"
definition second_tree :: string where "second_tree = replicate 40 (CHR ''d'')"

definition two_commits :: git_graph where
  "two_commits =
     \<lparr>g_commits = {first_commit, second_commit},
      g_parents = (\<lambda>c. if c = second_commit then [first_commit] else []),
      g_tree = (\<lambda>c. if c = second_commit then second_tree else first_tree),
      g_merge = (\<lambda>c d. Some (if c = first_commit \<and> d = first_commit then first_tree else second_tree))\<rparr>"

definition two_commits_git :: git_query where
  "two_commits_git path args =
     (if args = [''rev-parse'', first_commit @ ''^{tree}''] then Inr first_tree
      else if args = [''rev-parse'', second_commit @ ''^{tree}''] then Inr second_tree
      else if args = [''rev-list'', ''--parents'', ''-n'', ''1'', ''--end-of-options'', first_commit] then Inr first_commit
      else if args = [''rev-list'', ''--parents'', ''-n'', ''1'', ''--end-of-options'', second_commit]
        then Inr (second_commit @ '' '' @ first_commit)
      else if args = [''rev-parse'', ''--verify'', ''--end-of-options'', ''tip^{commit}''] then Inr second_commit
      else if hd args = ''for-each-ref'' then Inr (''x'' @ US # first_commit @ US # ''t'')
      else Inr [])"

definition two_commits_ports :: receipt_ports where
  "two_commits_ports =
     \<lparr>r_Git = two_commits_git,
      r_IsAncestor = (\<lambda>_ c d. if c = d \<or> c = first_commit \<and> d = second_commit then Inr True
         else if c = second_commit \<and> d = first_commit then Inr False else Inl ''fatal''),
      r_ValidBranch = (\<lambda>_. True),
      r_GitHubExecute = (\<lambda>_ _. \<lparr>gc_stdout = [], gc_stderr = [], gc_err = None\<rparr>),
      r_GitHubGet = (\<lambda>_. Inl []),
      r_MergeTreeRun = (\<lambda>_ c d. if {c, d} \<subseteq> {first_commit, second_commit}
         then \<lparr>mr_stdout = the (g_merge two_commits c d) @ [LF], mr_stderr = [], mr_exit = 0, mr_err = None, mr_ctx_done = False\<rparr>
         else \<lparr>mr_stdout = [], mr_stderr = [], mr_exit = 128, mr_err = Some ''fatal'', mr_ctx_done = False\<rparr>),
      r_decode_pulls = (\<lambda>_. Inr []), r_decode_pull = (\<lambda>_. Inl []), r_decode_failure = (\<lambda>_. None)\<rparr>"

lemmas two_ids = first_commit_def second_commit_def first_tree_def second_tree_def

lemma two_ids_valid:
  "IsGitObjectID first_commit" "IsGitObjectID second_commit" "IsGitObjectID first_tree" "IsGitObjectID second_tree"
  "first_commit \<noteq> second_commit" "first_tree \<noteq> second_tree"
  by (simp_all add: two_ids, code_simp+)

lemma two_reaches: "reaches two_commits c d \<longleftrightarrow> c = d \<or> c = first_commit \<and> d = second_commit"
proof
  assume "reaches two_commits c d"
  then show "c = d \<or> c = first_commit \<and> d = second_commit"
    unfolding reaches_def using two_ids_valid(5)
    by (induction rule: rtranclp_induct) (auto simp: two_commits_def split: if_splits)
next
  assume "c = d \<or> c = first_commit \<and> d = second_commit"
  then show "reaches two_commits c d" unfolding reaches_def by (auto simp: two_commits_def)
qed

lemma two_git:
  "two_commits_git path [''rev-parse'', first_commit @ ''^{tree}''] = Inr first_tree"
  "two_commits_git path [''rev-parse'', second_commit @ ''^{tree}''] = Inr second_tree"
  "two_commits_git path [''rev-list'', ''--parents'', ''-n'', ''1'', ''--end-of-options'', first_commit] = Inr first_commit"
  "two_commits_git path [''rev-list'', ''--parents'', ''-n'', ''1'', ''--end-of-options'', second_commit] = Inr (second_commit @ '' '' @ first_commit)"
  "two_commits_git path [''rev-parse'', ''--verify'', ''--end-of-options'', ''tip^{commit}''] = Inr second_commit"
  using two_ids_valid(5) by (simp_all add: two_commits_git_def)

lemma two_answers: "answers_from two_commits_ports path two_commits"
  using two_ids_valid two_git
  by (auto simp: answers_from_def two_commits_ports_def two_commits_def two_reaches [unfolded two_commits_def] merge_answer_def)

lemma two_carries:
  "carries two_commits second_commit first_commit" "carries two_commits second_commit second_commit"
  "\<not> carries two_commits first_commit second_commit"
  using two_ids_valid(5,6) by (simp_all add: carries_def two_commits_def)

text \<open>A pull request of the second commit, merged as it is.\<close>

definition two_pull :: github_pull_request where
  "two_pull = \<lparr>gh_number = 7, gh_url = [], gh_state = ''closed'', gh_base = \<lparr>ghr_ref = ''main'', ghr_sha = first_commit, ghr_repo = None\<rparr>,
     gh_head = \<lparr>ghr_ref = ''x'', ghr_sha = second_commit, ghr_repo = None\<rparr>, gh_merge_commit_sha = second_commit, gh_merged_at = Some 5\<rparr>"

theorem discovered_receipt_refines_graph_witness:
  "\<exists>receipt. AbsorbedLandingReceipt two_commits_ports ''/w'' ''/p'' ''a/b'' second_commit ''main'' second_commit [] [two_pull] = Proved receipt \<and>
     rc_landing_sha receipt = second_commit"
proof -
  have pr: "AbsorbingPullRequest [two_pull] ''main'' = Some (MergedPullRequestReceipt [] two_pull)"
    by (simp add: AbsorbingPullRequest_def absorbing_step_def two_pull_def MergedPullRequestReceipt_def)
  have sha: "pr_merge_sha (MergedPullRequestReceipt [] two_pull) = second_commit"
    by (simp add: MergedPullRequestReceipt_def two_pull_def)
  have known: "{second_commit, second_commit} \<subseteq> g_commits two_commits" by (simp add: two_commits_def)
  have "\<forall>pr. AbsorbingPullRequest [two_pull] ''main'' = Some pr \<longrightarrow> IsGitObjectID (pr_merge_sha pr) \<longrightarrow> pr_merge_sha pr \<in> g_commits two_commits"
    using sha pr by (simp add: two_commits_def)
  from discovered_receipt_refines_graph [OF two_answers known this, of "''/w''" "''/p''" "''a/b''"]
  show ?thesis using pr sha two_carries(2) two_ids_valid(2) by (simp add: two_reaches)
qed

theorem attested_commit_exact_witness:
  "\<exists>receipt. AttestedAbsorbedReceipt two_commits_ports ''/w'' ''/p'' ''a/b'' second_commit ''main'' second_commit ''tip'' = Proved receipt"
proof -
  have "list_all printable ''tip''" by code_simp
  then have t: "TrimSpace ''tip'' = ''tip''" by (rule TrimSpace_printable)
  have u: "PullRequestURL ''tip'' = None" "Atoi (TrimPrefix ''tip'' ''#'') = None" "TrimPrefix ''tip'' ''#'' = ''tip''"
    by code_simp+
  have "r_Git two_commits_ports ''/p'' [''rev-parse'', ''--verify'', ''--end-of-options'', ''tip'' @ ''^{commit}''] = Inr second_commit"
    using two_git(5) by (simp add: two_commits_ports_def)
  moreover have "{second_commit, second_commit, second_commit} \<subseteq> g_commits two_commits" by (simp add: two_commits_def)
  moreover have "g_parents two_commits second_commit = [first_commit]" by (simp add: two_commits_def)
  ultimately show ?thesis
    using attested_commit_exact [OF two_answers, of second_commit second_commit second_commit "''tip''" "''/p''"] two_carries t u
    by (simp add: two_reaches)
qed

text \<open>The fleet of one repository with one branch at the first commit; the target is the second.\<close>

definition two_fleet :: inventory_ports where
  "two_fleet = branchInventoryService two_commits_ports (sample_ports\<lparr>p_FetchTarget := (\<lambda>_ _. Inr second_commit)\<rparr>)"

definition two_plan :: "cleanup_result list" where
  "two_plan =
     (case ClassifyFleetBranchesWithPaths two_fleet sample_sweep of
        Some (Inr (entries, _)) \<Rightarrow> PlanBranchCleanup (SortBranchEntries entries) (Policy sample_sweep)
      | _ \<Rightarrow> [])"

lemma two_plan_outcomes: "map (\<lambda>r. (cr_outcome r, be_sha (cr_entry r), be_target_sha (cr_entry r))) two_plan = [(''planned'', first_commit, second_commit)]"
  by code_simp

theorem planned_deletions_keep_content_witness:
  "be_sha (cr_entry (two_plan ! 0)) = first_commit \<and>
   (\<exists>repo ref. ref_sha ref = first_commit \<and> content_kept two_fleet repo sample_sweep two_commits ref second_commit)"
proof -
  let ?x = "two_plan ! 0" and ?others = "sample_ports\<lparr>p_FetchTarget := (\<lambda>_ _. Inr second_commit)\<rparr>"
  have x: "?x \<in> set two_plan" "cr_outcome ?x = ''planned''" "be_sha (cr_entry ?x) = first_commit" "be_target_sha (cr_entry ?x) = second_commit"
    using arg_cong [OF two_plan_outcomes, of length] arg_cong [OF two_plan_outcomes, of "\<lambda>xs. xs ! 0"] by auto
  obtain entries ds paths where c: "ClassifyFleetBranchesWithPaths two_fleet sample_sweep = Some (Inr (entries, ds, paths))"
    using x(1) by (auto simp: two_plan_def split: option.splits sum.splits)
  then have in_plan: "?x \<in> set (PlanBranchCleanup (SortBranchEntries entries) (Policy sample_sweep))"
    using x(1) by (simp add: two_plan_def)
  have "sw_cleanup sample_sweep" by (simp add: sample_sweep_def)
  from planned_deletions_keep_content [OF c [unfolded two_fleet_def] this in_plan x(2), of "\<lambda>_. two_commits"] two_answers
  obtain repo ref where "ref_sha ref = be_sha (cr_entry ?x)"
      "content_kept (branchInventoryService two_commits_ports ?others) repo sample_sweep two_commits ref (be_target_sha (cr_entry ?x))"
    by auto
  then show ?thesis using x(3,4) unfolding two_fleet_def by auto
qed

end
