(* ===== verification/Worktree_Evidence.thy ===== *)
theory Worktree_Evidence
  imports Landing_Receipts
begin

text \<open>
  What WB establishes about a linked worktree before it may retire it:
  \<^verbatim>\<open>internal/worktrees/lifecycle.go\<close> (\<^verbatim>\<open>checkGitHubIntegration\<close>, \<^verbatim>\<open>judgeContainment\<close>, the
  worktree-merge receipt proof and the eligibility decision),
  \<^verbatim>\<open>absorbed_conflict_ack.go\<close>, \<^verbatim>\<open>retired_prepare_candidate_ack.go\<close>, \<^verbatim>\<open>supersession.go\<close> and
  \<^verbatim>\<open>lockdiag.go\<close>.

  \<open>list_result\<close> has the fields of \<^verbatim>\<open>ListResult\<close> these functions read or write; the ownership and
  reporting fields are left out. The receipts of earlier merges, and the acknowledgements written
  beside them, are what a scan of the report directory yields: the environment lists them in
  directory order, already decoded. Loading an acknowledgement (\<^verbatim>\<open>internal/mergeack\<close>,
  \<^verbatim>\<open>internal/retiredcandidateack\<close>) is a field of the environment, as is the verdict of the
  supersession service.
\<close>

section \<open>State\<close>

record list_result =
  lr_task :: string
  lr_repository :: string
  lr_canonical_dir :: string
  lr_worktree_dir :: string
  lr_worktrees_root :: string
  lr_branch :: string
  lr_base :: string
  lr_head_sha :: string
  lr_remote_head_sha :: string
  lr_remote_head_ancestor :: bool
  lr_remote_target_sha :: string
  lr_integrated :: bool
  lr_rebase_merged :: bool
  lr_absorbed :: bool
  lr_absorbed_by_sha :: string
  lr_merge_receipt_candidate_sha :: string
  lr_recorded_base :: string
  lr_recorded_base_state :: string
  lr_integration_proof :: string
  lr_target_rejection :: string
  lr_superseded :: bool
  lr_supersession_receipt :: string
  lr_supersession_reviewer :: string
  lr_supersession_receipt_id :: string
  lr_supersession_rejection :: string
  lr_absorbed_by_rejection :: string
  lr_conflict_ack_path :: string
  lr_conflict_source_shas :: "string list"
  lr_conflict_receipt_path :: string
  lr_retired_ack_path :: string
  lr_clean :: bool
  lr_locally_merged :: bool
  lr_locked :: bool
  lr_lock_owner :: string
  lr_lock_owner_pid :: int
  lr_open_pr :: "pull_request option"
  lr_merged_pr :: "pull_request option"
  lr_external :: bool
  lr_local :: bool
  lr_detached :: bool
  lr_head_unknown :: bool
  lr_landing :: "landing_evidence option"

record merge_source =
  ms_task :: string
  ms_worktree :: string
  ms_branch :: string
  ms_sha :: string

text \<open>A decoded worktree-merge receipt: the fields of both receipt shapes cleanup decodes.\<close>

record merge_receipt =
  mg_receipt_path :: string
  mg_id :: string
  mg_phase :: string
  mg_status :: string
  mg_lane :: string
  mg_repository :: string
  mg_target :: string
  mg_target_sha :: string
  mg_landing_sha :: string
  mg_pull_request :: string
  mg_published_candidate_sha :: string
  mg_candidate :: merge_source
  mg_sources :: "merge_source list"

record merge_cleanup_proof =
  mp_repository :: string
  mp_target :: string
  mp_source_task :: string
  mp_source_worktree :: string
  mp_source_branch :: string
  mp_source_sha :: string
  mp_candidate_sha :: string
  mp_landing_sha :: string

text \<open>
  \<open>lv_merge_receipts\<close> is the scan: an error other than a missing directory, nothing at all, or
  the readable files with their contents, \<open>None\<close> when the file is not JSON of the receipt.
\<close>

datatype receipt_scan = ScanFailed string | ScanMissing | Scanned "(string \<times> merge_receipt option) list"

record lifecycle_env =
  lv_receipts :: receipt_ports
  lv_fetch :: "string \<Rightarrow> string \<Rightarrow> (string, string) result"
  lv_merge_receipts :: receipt_scan
  lv_conflict_ack :: "string \<Rightarrow> merge_receipt \<Rightarrow> (string, string) result"
  lv_retired_ack :: "string \<Rightarrow> merge_receipt \<Rightarrow> (string, string \<times> string) result"
  lv_supersession :: "string \<Rightarrow> list_result \<Rightarrow> supersession_evidence option \<times> string"
  lv_clean_worktree :: "string \<Rightarrow> (string, bool) result"
  lv_parse_time :: "string \<Rightarrow> (string, go_time) result"
  lv_diagnose_lock :: "string \<Rightarrow> string \<times> int"
  lv_ownership :: "string \<Rightarrow> string option"

record inspect_policy =
  ip_include_detached :: bool
  ip_merge_proofs :: "merge_cleanup_proof list"
  ip_residue_evidence :: bool
  ip_residue_depth :: int
  ip_explicit_base :: bool

record inspection =
  li_home :: string
  li_task :: string
  li_worktree :: string
  li_worktrees_root :: string
  li_local :: bool
  li_external :: bool
  li_locked :: bool
  li_base :: string
  li_caller_base :: string
  li_absorbed_by :: string
  li_with_github :: bool
  li_policy :: inspect_policy
  li_slug :: string
  li_canonical :: string
  li_branch :: string
  li_head :: string
  li_result :: list_result

abbreviation env_git :: "lifecycle_env \<Rightarrow> git_query" where
  "env_git env \<equiv> r_Git (lv_receipts env)"

abbreviation env_ancestor :: "lifecycle_env \<Rightarrow> string \<Rightarrow> string \<Rightarrow> string \<Rightarrow> (string, bool) result" where
  "env_ancestor env \<equiv> r_IsAncestor (lv_receipts env)"

section \<open>Acknowledged merge receipts\<close>

definition RetiredAckSuffix :: string where
  "RetiredAckSuffix = ''.retired-prepare-candidate.ack.json''"

definition ConflictAckSuffix :: string where
  "ConflictAckSuffix = ''.absorbed-conflict.ack.json''"

definition DistinctCandidate :: "merge_source \<Rightarrow> merge_source list \<Rightarrow> bool" where
  "DistinctCandidate candidate sources \<longleftrightarrow>
     \<not> (ms_task candidate = [] \<or> ms_worktree candidate = [] \<or> ms_branch candidate = [] \<or> ms_sha candidate = [] \<or> sources = []) \<and>
     list_all (\<lambda>s. \<not> (ms_task s = [] \<or> ms_worktree s = [] \<or> ms_branch s = [] \<or> ms_sha s = [] \<or>
         ms_task s = ms_task candidate \<or> Clean (ms_worktree s) = Clean (ms_worktree candidate) \<or>
         ms_branch s = ms_branch candidate \<or> TrimSpace (ms_sha s) = ms_sha candidate)) sources"

definition validLegacyEmptyCandidate :: "string \<Rightarrow> merge_receipt \<Rightarrow> bool" where
  "validLegacyEmptyCandidate path r \<longleftrightarrow>
     mg_receipt_path r = path \<and> mg_id r \<noteq> [] \<and> mg_phase r = ''prepare'' \<and> mg_status r = ''conflict'' \<and>
     mg_lane r \<noteq> [] \<and> mg_repository r \<noteq> [] \<and> mg_target r \<noteq> [] \<and> mg_target_sha r \<noteq> [] \<and> mg_landing_sha r = [] \<and>
     mg_pull_request r = [] \<and> mg_published_candidate_sha r = [] \<and> ms_sha (mg_candidate r) = [] \<and>
     DistinctCandidate ((mg_candidate r)\<lparr>ms_sha := mg_target_sha r\<rparr>) (mg_sources r)"

text \<open>
  The checks behind the first receipt that names this task, worktree, branch and head: a clean
  worktree, an acknowledgement for this default branch, ancestry of both commits, and a branch
  that was never published.
\<close>

definition retired_candidate_proved ::
  "lifecycle_env \<Rightarrow> string \<Rightarrow> string \<Rightarrow> string \<Rightarrow> string \<Rightarrow> string \<Rightarrow> string \<Rightarrow> string \<Rightarrow> merge_receipt \<Rightarrow> bool" where
  "retired_candidate_proved env canonical worktree branch head defaultBranch defaultSHA path r \<longleftrightarrow>
     (case env_git env worktree [''status'', ''--porcelain''] of
        Inl _ \<Rightarrow> False
      | Inr status \<Rightarrow>
          TrimSpace status = [] \<and>
          (case lv_retired_ack env (path @ RetiredAckSuffix) r of
             Inl _ \<Rightarrow> False
           | Inr (ackBranch, ackSHA) \<Rightarrow>
               ackBranch = defaultBranch \<and>
               env_ancestor env canonical ackSHA defaultSHA = Inr True \<and>
               env_ancestor env canonical head defaultSHA = Inr True \<and>
               git_RemoteBranchHead (env_git env) canonical branch = Inr []))"

definition retired_candidate_matches ::
  "string \<Rightarrow> string \<Rightarrow> string \<Rightarrow> string \<Rightarrow> string \<times> merge_receipt option \<Rightarrow> bool" where
  "retired_candidate_matches task worktree branch head f =
     (case f of
        (path, None) \<Rightarrow> False
      | (path, Some r) \<Rightarrow>
          validLegacyEmptyCandidate path r \<and> ms_task (mg_candidate r) = task \<and>
          Clean (ms_worktree (mg_candidate r)) = Clean worktree \<and>
          ms_branch (mg_candidate r) = branch \<and> mg_target_sha r = head)"

definition findRetiredPrepareCandidateAcknowledgement ::
  "lifecycle_env \<Rightarrow> string \<Rightarrow> string \<Rightarrow> string \<Rightarrow> string \<Rightarrow> string \<Rightarrow> string \<Rightarrow> string \<Rightarrow> string \<Rightarrow> (string, string option) result" where
  "findRetiredPrepareCandidateAcknowledgement env home canonical task worktree branch head defaultBranch defaultSHA =
     (if home = [] \<or> defaultBranch = [] \<or> defaultSHA = [] then Inr None
      else case lv_merge_receipts env of
        ScanFailed err \<Rightarrow> Inl (''read worktree-merge reports: '' @ err)
      | ScanMissing \<Rightarrow> Inr None
      | Scanned files \<Rightarrow>
          (case List.find (retired_candidate_matches task worktree branch head) files of
             Some (path, Some r) \<Rightarrow>
               Inr (if retired_candidate_proved env canonical worktree branch head defaultBranch defaultSHA path r
                    then Some (path @ RetiredAckSuffix) else None)
           | _ \<Rightarrow> Inr None))"

definition conflict_matches :: "string \<Rightarrow> string \<Rightarrow> string \<times> merge_receipt option \<Rightarrow> bool" where
  "conflict_matches task worktree f =
     (case f of
        (path, None) \<Rightarrow> False
      | (path, Some r) \<Rightarrow>
          mg_receipt_path r = path \<and> ms_task (mg_candidate r) = task \<and> Clean (ms_worktree (mg_candidate r)) = Clean worktree)"

definition validateAbsorbedConflictAcknowledgementSidecar ::
  "lifecycle_env \<Rightarrow> string \<Rightarrow> string \<Rightarrow> merge_receipt \<Rightarrow> string \<Rightarrow> string \<Rightarrow> string \<Rightarrow> (string \<times> string list) option" where
  "validateAbsorbedConflictAcknowledgementSidecar env canonicalDir receiptPath r entryBranch entryHeadSHA remoteTargetSHA =
     (if entryBranch \<noteq> ms_branch (mg_candidate r) \<or> entryHeadSHA \<noteq> ms_sha (mg_candidate r) then None
      else case lv_conflict_ack env (receiptPath @ ConflictAckSuffix) r of
        Inl _ \<Rightarrow> None
      | Inr currentTargetSHA \<Rightarrow>
          if env_ancestor env canonicalDir currentTargetSHA remoteTargetSHA \<noteq> Inr True then None
          else Some (receiptPath @ ConflictAckSuffix, filter (\<lambda>sha. sha \<noteq> []) (map ms_sha (mg_sources r))))"

definition findAbsorbedConflictCleanupProof ::
  "lifecycle_env \<Rightarrow> string \<Rightarrow> string \<Rightarrow> string \<Rightarrow> string \<Rightarrow> string \<Rightarrow> string \<Rightarrow> string \<Rightarrow>
     (string, (string \<times> string list) option \<times> string) result" where
  "findAbsorbedConflictCleanupProof env home canonicalDir task worktreeDir entryBranch entryHeadSHA remoteTargetSHA =
     (if home = [] \<or> remoteTargetSHA = [] then Inr (None, [])
      else case lv_merge_receipts env of
        ScanFailed err \<Rightarrow> Inl (''read worktree-merge reports '' @ filepath_Join [home, ''reports'', ''worktree-merge''] @ '': '' @ err)
      | ScanMissing \<Rightarrow> Inr (None, [])
      | Scanned files \<Rightarrow>
          (case List.find (conflict_matches task worktreeDir) files of
             Some (path, Some r) \<Rightarrow>
               Inr (validateAbsorbedConflictAcknowledgementSidecar env canonicalDir path r entryBranch entryHeadSHA remoteTargetSHA, path)
           | _ \<Rightarrow> Inr (None, [])))"

definition applyAbsorbedConflictAcknowledgementCleanupProof ::
  "lifecycle_env \<Rightarrow> string \<Rightarrow> list_result \<Rightarrow> (string, list_result) result" where
  "applyAbsorbedConflictAcknowledgementCleanupProof env home entry =
     (if lr_integrated entry \<or> lr_superseded entry then Inr entry
      else case findAbsorbedConflictCleanupProof env home (lr_canonical_dir entry) (lr_task entry) (lr_worktree_dir entry)
                  (lr_branch entry) (lr_head_sha entry) (lr_remote_target_sha entry) of
        Inl err \<Rightarrow> Inl err
      | Inr (proof_found, receiptPath) \<Rightarrow>
          let entry = entry\<lparr>lr_conflict_receipt_path := receiptPath\<rparr> in
          (case proof_found of
             None \<Rightarrow> Inr entry
           | Some (ackPath, sources) \<Rightarrow>
               Inr (entry\<lparr>lr_integrated := True, lr_absorbed := True, lr_conflict_ack_path := ackPath,
                         lr_conflict_source_shas := sources\<rparr>)))"

section \<open>Receipts of a worktree merge, and supersession\<close>

text \<open>
  The fields a receipt must have are looked up in a map, whose order is not determined; the model
  names the first one missing in the order of the source.
\<close>

definition missing_proof_field :: "merge_cleanup_proof \<Rightarrow> string option" where
  "missing_proof_field q =
     (case List.find (\<lambda>(label, value). TrimSpace value = [])
             [(''repository'', mp_repository q), (''target'', mp_target q), (''source task'', mp_source_task q),
              (''source worktree'', mp_source_worktree q), (''source branch'', mp_source_branch q)] of
        Some (label, _) \<Rightarrow> Some (''receipt has no '' @ label)
      | None \<Rightarrow>
          map_option (\<lambda>(label, _). ''receipt has invalid '' @ label)
            (List.find (\<lambda>(label, value). \<not> IsGitObjectID value)
               [(''source SHA'', mp_source_sha q), (''candidate SHA'', mp_candidate_sha q), (''landing SHA'', mp_landing_sha q)]))"

definition same_source :: "merge_cleanup_proof \<Rightarrow> list_result \<Rightarrow> bool" where
  "same_source q entry \<longleftrightarrow>
     lr_repository entry = mp_repository q \<and> lr_base entry = mp_target q \<and> lr_task entry = mp_source_task q \<and>
     Clean (lr_worktree_dir entry) = Clean (mp_source_worktree q) \<and> lr_branch entry = mp_source_branch q \<and>
     lr_head_sha entry = mp_source_sha q"

definition mergeReceiptCleanupProofRejection :: "lifecycle_env \<Rightarrow> merge_cleanup_proof \<Rightarrow> list_result \<Rightarrow> string" where
  "mergeReceiptCleanupProofRejection env q entry =
     (case missing_proof_field q of
        Some rejection \<Rightarrow> rejection
      | None \<Rightarrow>
      if \<not> same_source q entry then ''source identity no longer matches the receipt''
      else if \<not> IsGitObjectID (lr_remote_target_sha entry) then ''exact fetched target identity is unavailable''
      else case env_ancestor env (lr_canonical_dir entry) (mp_source_sha q) (mp_candidate_sha q) of
        Inl err \<Rightarrow> ''verify source '' @ mp_source_sha q @ '' is an ancestor of candidate '' @ mp_candidate_sha q @ '': '' @ err
      | Inr False \<Rightarrow> ''source '' @ mp_source_sha q @ '' is not an ancestor of candidate '' @ mp_candidate_sha q
      | Inr True \<Rightarrow>
      (case env_git env (lr_canonical_dir entry) [''rev-parse'', ''--verify'', mp_candidate_sha q @ ''^{tree}''] of
        Inl err \<Rightarrow> ''resolve candidate tree '' @ mp_candidate_sha q @ '': '' @ err
      | Inr candidateTree \<Rightarrow>
      (case env_git env (lr_canonical_dir entry) [''rev-parse'', ''--verify'', mp_landing_sha q @ ''^{tree}''] of
        Inl err \<Rightarrow> ''resolve landing tree '' @ mp_landing_sha q @ '': '' @ err
      | Inr landingTree \<Rightarrow>
      if candidateTree \<noteq> landingTree then ''candidate tree '' @ candidateTree @ '' does not equal landing tree '' @ landingTree
      else case env_ancestor env (lr_canonical_dir entry) (mp_landing_sha q) (lr_remote_target_sha entry) of
        Inl err \<Rightarrow> ''verify landing '' @ mp_landing_sha q @ '' is contained in fetched target '' @ lr_remote_target_sha entry @ '': '' @ err
      | Inr False \<Rightarrow> ''landing '' @ mp_landing_sha q @ '' is not contained in the exact fetched target '' @ lr_remote_target_sha entry
      | Inr True \<Rightarrow> [])))"

definition proof_of_worktree :: "merge_cleanup_proof list \<Rightarrow> list_result \<Rightarrow> merge_cleanup_proof option" where
  "proof_of_worktree proofs entry = List.find (\<lambda>q. Clean (mp_source_worktree q) = Clean (lr_worktree_dir entry)) proofs"

definition applyMergeReceiptCleanupProof :: "lifecycle_env \<Rightarrow> merge_cleanup_proof list \<Rightarrow> list_result \<Rightarrow> list_result" where
  "applyMergeReceiptCleanupProof env proofs entry =
     (case proof_of_worktree proofs entry of
        None \<Rightarrow> entry
      | Some q \<Rightarrow>
          let rejection = mergeReceiptCleanupProofRejection env q entry in
          if rejection \<noteq> [] then entry\<lparr>lr_absorbed_by_rejection := ''worktree-merge receipt cleanup proof: '' @ rejection\<rparr>
          else entry\<lparr>lr_integrated := True, lr_absorbed := True, lr_absorbed_by_sha := mp_landing_sha q,
                     lr_merge_receipt_candidate_sha := mp_candidate_sha q, lr_absorbed_by_rejection := []\<rparr>)"

definition mergeReceiptCleanupTargetOverride :: "lifecycle_env \<Rightarrow> merge_cleanup_proof list \<Rightarrow> list_result \<Rightarrow> string" where
  "mergeReceiptCleanupTargetOverride env proofs entry =
     (case proof_of_worktree proofs entry of
        None \<Rightarrow> []
      | Some q \<Rightarrow>
          if mp_repository q \<noteq> lr_repository entry \<or> mp_source_task q \<noteq> lr_task entry \<or> mp_source_branch q \<noteq> lr_branch entry \<or>
             mp_source_sha q \<noteq> lr_head_sha entry \<or> \<not> r_ValidBranch (lv_receipts env) (mp_target q) \<or>
             \<not> IsGitObjectID (mp_source_sha q) \<or> \<not> IsGitObjectID (mp_candidate_sha q) \<or> \<not> IsGitObjectID (mp_landing_sha q)
          then [] else mp_target q)"

definition applySupersessionReceipt :: "lifecycle_env \<Rightarrow> string \<Rightarrow> list_result \<Rightarrow> list_result option" where
  "applySupersessionReceipt env path entry =
     (if TrimSpace path = [] then Some entry
      else case lv_supersession env path entry of
        (receipt, rejection) \<Rightarrow>
          if rejection \<noteq> [] then Some (entry\<lparr>lr_supersession_rejection := rejection, lr_superseded := False\<rparr>)
          else map_option (\<lambda>s. entry\<lparr>lr_superseded := True, lr_supersession_receipt := path,
                 lr_supersession_reviewer := se_reviewer s, lr_supersession_receipt_id := se_receipt_id s,
                 lr_supersession_rejection := []\<rparr>) receipt)"

section \<open>The state of a worktree\<close>

definition zero_result :: list_result where
  "zero_result =
     \<lparr>lr_task = [], lr_repository = [], lr_canonical_dir = [], lr_worktree_dir = [], lr_worktrees_root = [], lr_branch = [],
      lr_base = [], lr_head_sha = [], lr_remote_head_sha = [], lr_remote_head_ancestor = False, lr_remote_target_sha = [],
      lr_integrated = False, lr_rebase_merged = False, lr_absorbed = False, lr_absorbed_by_sha = [],
      lr_merge_receipt_candidate_sha = [], lr_recorded_base = [], lr_recorded_base_state = [], lr_integration_proof = [],
      lr_target_rejection = [], lr_superseded = False, lr_supersession_receipt = [], lr_supersession_reviewer = [],
      lr_supersession_receipt_id = [], lr_supersession_rejection = [], lr_absorbed_by_rejection = [],
      lr_conflict_ack_path = [], lr_conflict_source_shas = [], lr_conflict_receipt_path = [], lr_retired_ack_path = [],
      lr_clean = False, lr_locally_merged = False, lr_locked = False, lr_lock_owner = [], lr_lock_owner_pid = 0,
      lr_open_pr = None, lr_merged_pr = None, lr_external = False, lr_local = False, lr_detached = False,
      lr_head_unknown = False, lr_landing = None\<rparr>"

definition hasRemoteTrackingBranch :: "lifecycle_env \<Rightarrow> string \<Rightarrow> string \<Rightarrow> bool" where
  "hasRemoteTrackingBranch env repository branch =
     is_ok (env_git env repository [''rev-parse'', ''--verify'', ''--quiet'', ''refs/remotes/origin/'' @ branch @ ''^{commit}''])"

text \<open>Offline, a recorded base whose tracking ref is gone is replaced by the base of the caller:
  the base judged, the recorded base when it was replaced, and whether the head is merged there.\<close>

definition offline_base :: "lifecycle_env \<Rightarrow> inspection \<Rightarrow> string \<Rightarrow> (string, string \<times> string \<times> bool) result" where
  "offline_base env i head =
     (if li_with_github i then Inr (li_base i, [], False)
      else let replaced = (\<not> ip_explicit_base (li_policy i) \<and> li_caller_base i \<noteq> [] \<and> li_caller_base i \<noteq> li_base i \<and>
                 \<not> hasRemoteTrackingBranch env (li_canonical i) (li_base i));
               base = (if replaced then li_caller_base i else li_base i) in
        case env_ancestor env (li_canonical i) head (''origin/'' @ base) of
          Inl err \<Rightarrow> Inl err
        | Inr merged \<Rightarrow> Inr (base, if replaced then li_base i else [], merged))"

definition initial_result ::
  "inspection \<Rightarrow> string \<Rightarrow> string \<Rightarrow> bool \<Rightarrow> string \<times> string \<times> bool \<Rightarrow> string \<times> int \<Rightarrow> list_result" where
  "initial_result i branch head clean judged lock =
     (case judged of (base, recorded, merged) \<Rightarrow>
      zero_result
        \<lparr>lr_task := li_task i, lr_repository := li_slug i, lr_canonical_dir := li_canonical i, lr_worktree_dir := li_worktree i,
         lr_worktrees_root := li_worktrees_root i, lr_branch := branch, lr_base := base, lr_head_sha := head,
         lr_clean := clean, lr_locally_merged := merged, lr_locked := li_locked i,
         lr_lock_owner := fst lock, lr_lock_owner_pid := snd lock,
         lr_external := li_external i, lr_local := li_local i, lr_detached := branch = [],
         lr_recorded_base := recorded, lr_recorded_base_state := (if recorded \<noteq> [] then RecordedBaseAbsent else [])\<rparr>)"

text \<open>The end of \<^verbatim>\<open>inspectState\<close>: a matching merge receipt replaces the target of this inspection.\<close>

definition with_target_override :: "lifecycle_env \<Rightarrow> inspection \<Rightarrow> list_result \<Rightarrow> inspection" where
  "with_target_override env i r =
     (let target = mergeReceiptCleanupTargetOverride env (ip_merge_proofs (li_policy i)) r in
      if target \<noteq> [] \<and> target \<noteq> lr_base r
      then i\<lparr>li_base := target, li_result := r\<lparr>lr_recorded_base := lr_base r, lr_base := target\<rparr>\<rparr>
      else i\<lparr>li_result := r\<rparr>)"

definition inspectState :: "lifecycle_env \<Rightarrow> inspection \<Rightarrow> (string, inspection) result" where
  "inspectState env i =
     (let not_feature = ''WB worktree '' @ li_worktree i @ '' is not on a feature branch'' in
      and_then (env_git env (li_worktree i) [''branch'', ''--show-current'']) (\<lambda>branch.
      if branch = [] \<and> \<not> ip_include_detached (li_policy i) then Inl not_feature
      else if branch = li_base i then Inl not_feature
      else and_then (env_git env (li_worktree i) [''rev-parse'', ''HEAD'']) (\<lambda>head.
      and_then (lv_clean_worktree env (li_worktree i)) (\<lambda>clean.
      and_then (offline_base env i head) (\<lambda>judged.
      and_then (env_git env (li_worktree i) [''show'', ''-s'', ''--format=%cI'', ''HEAD'']) (\<lambda>lastCommit.
      case lv_parse_time env lastCommit of
        Inl err \<Rightarrow> Inl (''parse last commit time for '' @ li_slug i @ '': '' @ err)
      | Inr _ \<Rightarrow>
          Inr (with_target_override env (i\<lparr>li_branch := branch, li_head := head, li_base := fst judged\<rparr>)
                (initial_result i branch head clean judged
                   (if li_locked i then lv_diagnose_lock env (li_task i) else ([], 0))))))))))"

section \<open>Integration at origin\<close>

text \<open>What the choice of a target yields: the result so far, the pull requests of the head, the
  branch judged, and whether a receipt already stands for the deleted target.\<close>

record judged_target =
  jt_result :: list_result
  jt_pull_requests :: "github_pull_request list"
  jt_base :: string
  jt_default_receipt :: bool
  jt_retired_candidate :: bool

definition match_pull_requests :: "string \<Rightarrow> string \<Rightarrow> inspection \<Rightarrow> github_pull_request list \<Rightarrow> list_result \<Rightarrow> list_result" where
  "match_pull_requests slug base i pullRequests r =
     (case MatchingPullRequests pullRequests slug base (li_branch i) (li_head i) of
        (opened, merged) \<Rightarrow> r\<lparr>lr_open_pr := opened, lr_merged_pr := merged\<rparr>)"

text \<open>The commit index answers for a deleted target that no receipt stands in for.\<close>

definition judge_by_commit_index :: "lifecycle_env \<Rightarrow> inspection \<Rightarrow> string \<Rightarrow> list_result \<Rightarrow> (string, judged_target) result" where
  "judge_by_commit_index env i base r =
     (case GitHubPullRequestsForCommit (lv_receipts env) (li_worktree i) (li_slug i) (li_head i) of
        Inl err \<Rightarrow> Inl err
      | Inr (pullRequests, known) \<Rightarrow>
          Inr \<lparr>jt_result = match_pull_requests (li_slug i) base i pullRequests (r\<lparr>lr_head_unknown := \<not> known\<rparr>),
               jt_pull_requests = pullRequests, jt_base = base, jt_default_receipt = False, jt_retired_candidate = False\<rparr>)"

definition judge_by_receipt ::
  "lifecycle_env \<Rightarrow> inspection \<Rightarrow> string \<Rightarrow> string \<Rightarrow> list_result \<Rightarrow> pull_request option \<Rightarrow> (string, judged_target) result" where
  "judge_by_receipt env i defaultBase targetSHA r receipt =
     (case receipt of
        None \<Rightarrow> judge_by_commit_index env i defaultBase
          (r\<lparr>lr_target_rejection := ''recorded target origin/'' @ li_base i @ '' is absent and GitHub has no exact merged receipt into default branch '' @
               defaultBase @ '' for head '' @ li_head i\<rparr>)
      | Some pr \<Rightarrow>
          (case env_ancestor env (li_canonical i) (pr_merge_sha pr) targetSHA of
             Inl err \<Rightarrow> Inl (''verify merged receipt #'' @ Itoa (pr_number pr) @ '' against fetched origin/'' @ defaultBase @ '': '' @ err)
           | Inr True \<Rightarrow>
               Inr \<lparr>jt_result = r\<lparr>lr_head_unknown := False, lr_merged_pr := Some pr, lr_absorbed := True,
                                  lr_absorbed_by_sha := pr_merge_sha pr\<rparr>,
                    jt_pull_requests = [], jt_base = defaultBase, jt_default_receipt = True, jt_retired_candidate = False\<rparr>
           | Inr False \<Rightarrow> judge_by_commit_index env i defaultBase
               (r\<lparr>lr_target_rejection := ''merged receipt #'' @ Itoa (pr_number pr) @ '' commit '' @ pr_merge_sha pr @
                    '' is not contained in freshly fetched origin/'' @ defaultBase\<rparr>)))"

definition absent_base_result :: "inspection \<Rightarrow> string \<Rightarrow> string \<Rightarrow> list_result" where
  "absent_base_result i defaultBase targetSHA =
     (li_result i)\<lparr>lr_remote_target_sha := targetSHA,
        lr_recorded_base := (if lr_recorded_base (li_result i) = [] then li_base i else lr_recorded_base (li_result i)),
        lr_base := defaultBase, lr_recorded_base_state := RecordedBaseAbsent\<rparr>"

definition judge_default_branch :: "lifecycle_env \<Rightarrow> inspection \<Rightarrow> string \<Rightarrow> string \<Rightarrow> list_result \<Rightarrow> (string, judged_target) result" where
  "judge_default_branch env i defaultBase targetSHA r =
     and_then (findRetiredPrepareCandidateAcknowledgement env (li_home i) (li_canonical i) (lr_task r) (li_worktree i)
                 (li_branch i) (li_head i) defaultBase targetSHA) (\<lambda>ack.
     case ack of
       Some path \<Rightarrow>
         Inr \<lparr>jt_result = r\<lparr>lr_head_unknown := False, lr_retired_ack_path := path\<rparr>,
              jt_pull_requests = [], jt_base = defaultBase, jt_default_receipt = False, jt_retired_candidate = True\<rparr>
     | None \<Rightarrow>
         and_then (ExactDeletedTargetDefaultBranchReceipt (lv_receipts env) (li_worktree i) (li_slug i) (li_base i) defaultBase (li_head i))
           (judge_by_receipt env i defaultBase targetSHA r))"

definition judge_absent_target :: "lifecycle_env \<Rightarrow> inspection \<Rightarrow> string \<Rightarrow> (string, judged_target) result" where
  "judge_absent_target env i err =
     (if \<not> IsMissingRemoteTargetError err \<or> ip_explicit_base (li_policy i) then Inl err
      else and_then (RemoteDefaultBranch (env_git env) (r_ValidBranch (lv_receipts env)) (li_canonical i)) (\<lambda>defaultBase.
      and_then (lv_fetch env (li_canonical i) defaultBase) (\<lambda>targetSHA.
      judge_default_branch env i defaultBase targetSHA (absent_base_result i defaultBase targetSHA))))"

definition judge_live_target :: "lifecycle_env \<Rightarrow> inspection \<Rightarrow> string \<Rightarrow> (string, judged_target) result" where
  "judge_live_target env i targetSHA =
     and_then (GitHubPullRequestsForCommit (lv_receipts env) (li_worktree i) (li_slug i) (li_head i)) (\<lambda>(pullRequests, known).
     let r = match_pull_requests (li_slug i) (li_base i) i pullRequests
               ((li_result i)\<lparr>lr_remote_target_sha := targetSHA, lr_head_unknown := \<not> known\<rparr>);
         stay = \<lparr>jt_result = r, jt_pull_requests = pullRequests, jt_base = li_base i, jt_default_receipt = False, jt_retired_candidate = False\<rparr> in
     and_then (env_ancestor env (li_canonical i) (li_head i) targetSHA) (\<lambda>integrated.
     if integrated \<or> lr_merged_pr r \<noteq> None \<or> lr_recorded_base r \<noteq> [] \<or> ip_explicit_base (li_policy i) then Inr stay
     else case MergedPullRequestTarget (lv_receipts env) pullRequests (li_head i) (li_base i) of
         None \<Rightarrow> Inr stay
       | Some recovered \<Rightarrow>
           and_then (lv_fetch env (li_canonical i) recovered) (\<lambda>sha.
           Inr (stay\<lparr>jt_base := recovered,
                     jt_result := match_pull_requests (li_slug i) recovered i pullRequests
                       (r\<lparr>lr_remote_target_sha := sha, lr_recorded_base := li_base i\<rparr>)\<rparr>))))"

definition judge_target :: "lifecycle_env \<Rightarrow> inspection \<Rightarrow> (string, judged_target) result" where
  "judge_target env i =
     (case lv_fetch env (li_canonical i) (li_base i) of
        Inl err \<Rightarrow> judge_absent_target env i err
      | Inr targetSHA \<Rightarrow> judge_live_target env i targetSHA)"

definition defaultTargetPorts :: "lifecycle_env \<Rightarrow> inspection \<Rightarrow> default_target_ports" where
  "defaultTargetPorts env i =
     \<lparr>dt_DefaultBranch = RemoteDefaultBranch (env_git env) (r_ValidBranch (lv_receipts env)) (li_canonical i),
      dt_FetchTargetHead = lv_fetch env (li_canonical i),
      dt_IsAncestor = env_ancestor env (li_canonical i)\<rparr>"

text \<open>\<open>judgeContainment\<close> works on the result whose base is the branch judged.\<close>

definition containment_proof :: "inspection \<Rightarrow> list_result \<Rightarrow> list_result" where
  "containment_proof i r =
     (if ip_explicit_base (li_policy i)
        then r\<lparr>lr_integration_proof := ExplicitTargetProof (lr_base r) (lr_remote_target_sha r) (lr_recorded_base r)\<rparr>
      else if lr_recorded_base_state r \<noteq> []
        then r\<lparr>lr_integration_proof := default_target_Proof
                 \<lparr>dt_target = lr_base r, dt_target_sha = lr_remote_target_sha r, dt_recorded_base = lr_recorded_base r,
                  dt_recorded_base_state = lr_recorded_base_state r, dt_contained = False\<rparr>\<rparr>
      else r)"

definition judgeContainment :: "lifecycle_env \<Rightarrow> inspection \<Rightarrow> list_result \<Rightarrow> (string, bool \<times> list_result) result" where
  "judgeContainment env i r =
     (if \<not> IsGitObjectID (li_head i) \<or> \<not> IsGitObjectID (lr_remote_target_sha r)
        then Inl (''cannot judge containment of head '' @ quoted (li_head i) @ '' in target '' @ quoted (lr_remote_target_sha r) @
               '': both must be exact commit ids'')
      else case env_ancestor env (li_canonical i) (li_head i) (lr_remote_target_sha r) of
        Inl err \<Rightarrow> Inl err
      | Inr True \<Rightarrow> Inr (True, containment_proof i r)
      | Inr False \<Rightarrow>
          if lr_recorded_base r \<noteq> [] \<or> ip_explicit_base (li_policy i) then Inr (False, r)
          else (case ProvenDefaultTarget (defaultTargetPorts env i) (li_head i) (lr_base r) (lr_remote_target_sha r) of
              None \<Rightarrow> Inr (False, r)
            | Some t \<Rightarrow>
                Inr (True, containment_proof i
                  (r\<lparr>lr_recorded_base := lr_base r, lr_recorded_base_state := dt_recorded_base_state t,
                     lr_base := dt_target t, lr_remote_target_sha := dt_target_sha t\<rparr>))))"

definition isUnfetchedGitObjectError :: "string \<Rightarrow> bool" where
  "isUnfetchedGitObjectError err =
     (let message = ToLower err in
      Contains message ''not a valid commit name'' \<or> Contains message ''bad object'' \<or>
      Contains message ''unknown revision'' \<or> Contains message ''could not get object info'')"

definition read_remote_head :: "lifecycle_env \<Rightarrow> inspection \<Rightarrow> list_result \<Rightarrow> (string, list_result) result" where
  "read_remote_head env i r =
     (if li_branch i = [] then Inr r
      else case git_RemoteBranchHead (env_git env) (li_canonical i) (li_branch i) of
        Inl err \<Rightarrow> Inl err
      | Inr remote \<Rightarrow>
          let r = r\<lparr>lr_remote_head_sha := remote\<rparr> in
          if remote = [] \<or> remote = li_head i then Inr r
          else (case env_git env (li_canonical i) [''cat-file'', ''-t'', remote] of
              Inl err \<Rightarrow> if \<not> isUnfetchedGitObjectError err then Inl err else Inr r
            | Inr objectType \<Rightarrow>
                if TrimSpace objectType = ''commit''
                then (case env_ancestor env (li_canonical i) remote (li_head i) of
                    Inl err \<Rightarrow> Inl err
                  | Inr ancestor \<Rightarrow> Inr (r\<lparr>lr_remote_head_ancestor := ancestor\<rparr>))
                else Inr r))"

definition check_rebase :: "lifecycle_env \<Rightarrow> inspection \<Rightarrow> list_result \<Rightarrow> (string, list_result) result" where
  "check_rebase env i r =
     (if lr_integrated r then Inr r
      else case RebaseMergedPullRequestIntegrated (lv_receipts env) (li_canonical i) (li_head i) (lr_remote_target_sha r) (lr_merged_pr r) of
        Inl err \<Rightarrow> Inl err
      | Inr merged \<Rightarrow> Inr (r\<lparr>lr_rebase_merged := merged, lr_integrated := merged\<rparr>))"

definition check_absorbed ::
  "lifecycle_env \<Rightarrow> inspection \<Rightarrow> github_pull_request list \<Rightarrow> list_result \<Rightarrow> (string, list_result) result" where
  "check_absorbed env i pullRequests r =
     (if lr_integrated r \<and> li_absorbed_by i = [] then Inr r
      else case AbsorbedLandingReceipt (lv_receipts env) (li_worktree i) (li_canonical i) (li_slug i) (li_head i) (lr_base r)
                  (lr_remote_target_sha r) (li_absorbed_by i) pullRequests of
        Failed err \<Rightarrow> Inl err
      | Rejected rejection \<Rightarrow> Inr (r\<lparr>lr_absorbed_by_rejection := rejection\<rparr>)
      | NotProved \<Rightarrow> Inr (r\<lparr>lr_absorbed_by_rejection := []\<rparr>)
      | Proved receipt \<Rightarrow>
          Inr (r\<lparr>lr_absorbed_by_rejection := [], lr_absorbed := True, lr_absorbed_by_sha := rc_landing_sha receipt,
                lr_integrated := True,
                lr_merged_pr := (if lr_merged_pr r = None then rc_pull_request receipt else lr_merged_pr r)\<rparr>))"

definition check_residue :: "lifecycle_env \<Rightarrow> inspection \<Rightarrow> list_result \<Rightarrow> (string, list_result) result" where
  "check_residue env i r =
     (if lr_integrated r \<or> \<not> ip_residue_evidence (li_policy i) then Inr r
      else case landingEvidence (lv_receipts env) (li_worktree i) (li_canonical i) (li_slug i) (li_head i) (lr_base r)
                  (lr_remote_target_sha r) (ip_residue_depth (li_policy i)) of
        Inl err \<Rightarrow> Inl err
      | Inr landing \<Rightarrow>
          Inr (r\<lparr>lr_landing := landing,
                lr_merged_pr := (case Option.bind landing le_pull_request of
                    Some pr \<Rightarrow> if lr_merged_pr r = None then Some pr else lr_merged_pr r
                  | None \<Rightarrow> lr_merged_pr r)\<rparr>))"

definition checkGitHubIntegration :: "lifecycle_env \<Rightarrow> inspection \<Rightarrow> (string, list_result) result" where
  "checkGitHubIntegration env i =
     (if \<not> li_with_github i then Inr (li_result i)
      else and_then (judge_target env i) (\<lambda>j.
      and_then (judgeContainment env i ((jt_result j)\<lparr>lr_base := jt_base j\<rparr>)) (\<lambda>(inTarget, r).
      let integrated = inTarget \<or> jt_default_receipt j \<or> jt_retired_candidate j in
      and_then (read_remote_head env i (r\<lparr>lr_integrated := integrated, lr_locally_merged := integrated\<rparr>)) (\<lambda>r.
      and_then (check_rebase env i r) (\<lambda>r.
      and_then (check_absorbed env i (jt_pull_requests j) r) (\<lambda>r.
      and_then (check_residue env i r) (\<lambda>r.
      Inr (if lr_integrated r then r\<lparr>lr_target_rejection := []\<rparr> else r))))))))"

text \<open>\<^verbatim>\<open>inspectLifecycleWorktree\<close> after \<^verbatim>\<open>locate\<close>; the ownership metadata it adds is not modelled, its
  failure is.\<close>

definition inspectLifecycleWorktree :: "lifecycle_env \<Rightarrow> inspection \<Rightarrow> (string, list_result) result" where
  "inspectLifecycleWorktree env located =
     and_then (inspectState env located) (\<lambda>i.
     case lv_ownership env (li_worktree i) of
       Some err \<Rightarrow> Inl (''read owner metadata for '' @ li_worktree i @ '': '' @ err)
     | None \<Rightarrow> checkGitHubIntegration env i)"

section \<open>Eligibility\<close>

definition LockedReason :: "string \<Rightarrow> int \<Rightarrow> string \<Rightarrow> string" where
  "LockedReason state pid resumeCommand =
     (if state = ''dead'' then ''task is locked by an interrupted operation whose owner PID '' @ Itoa pid @ '' is gone; recover it with `'' @ resumeCommand @ ''`''
      else if state = ''unreadable'' then ''task is locked and its .lock does not carry WB'' @ CHR 0x27 #
        ''s operation/PID metadata, so its owner cannot be established; inspect it before removing anything by hand''
      else if state = ''live'' then ''task is locked by an operation that is still running (PID '' @ Itoa pid @ '')''
      else ''task is locked by an active or interrupted operation'')"

definition ResumeInterruptedCommand :: "string \<Rightarrow> string" where
  "ResumeInterruptedCommand task = ''wb worktree retire '' @ task @ '' --resume-interrupted''"

definition absorbedConflictAcknowledgementHint :: "string \<Rightarrow> string" where
  "absorbedConflictAcknowledgementHint receiptPath =
     (if receiptPath = [] then ''if this worktree is a WB integration candidate whose target already absorbed its content through a resolved merge conflict, run `wb worktree merge acknowledge-absorbed-conflict <receipt>` first''
      else ''an absorbed-conflict acknowledgement was not found, is stale, or does not validate for receipt '' @ receiptPath @
        ''; run `wb worktree merge acknowledge-absorbed-conflict '' @ receiptPath @ ''` to review whether this candidate'' @ CHR 0x27 # ''s content already reached the target'')"

definition targetRefusalDetail :: "list_result \<Rightarrow> string" where
  "targetRefusalDetail entry =
     (if lr_recorded_base entry \<noteq> [] \<and> lr_recorded_base entry \<noteq> lr_base entry
      then ''; recorded base '' @ lr_recorded_base entry @
        (if lr_recorded_base_state entry \<noteq> [] then '' is '' @ lr_recorded_base_state entry else [])
      else []) @
     concat (map (\<lambda>rejection. if rejection \<noteq> [] then '': '' @ rejection else []) [lr_target_rejection entry, lr_absorbed_by_rejection entry])"

definition notIntegratedReason :: "list_result \<Rightarrow> string" where
  "notIntegratedReason entry =
     NotIntegratedReason (lr_head_sha entry) (lr_base entry) (lr_remote_target_sha entry) (lr_branch entry) (lr_remote_head_sha entry) @
     targetRefusalDetail entry"

text \<open>
  The cases in the order of the \<^verbatim>\<open>switch\<close>. The last guard dereferences the merge time of the
  merged pull request; \<open>None\<close> is the panic of a nil one.
\<close>

definition cleanupSafetyEligibility :: "list_result \<Rightarrow> duration \<Rightarrow> go_time \<Rightarrow> bool \<Rightarrow> (bool \<times> string) option" where
  "cleanupSafetyEligibility e olderThan now allowResidue =
     (let residue = LandedWithResidue (lr_landing e) in
      if lr_locked e then Some (False, LockedReason (lr_lock_owner e) (lr_lock_owner_pid e) (ResumeInterruptedCommand (lr_task e)))
      else if \<not> lr_clean e then Some (False, ''worktree has local changes'')
      else if lr_open_pr e \<noteq> None then Some (False, ''branch still has an open pull request: '' @ pr_url (the (lr_open_pr e)))
      else if lr_supersession_rejection e \<noteq> [] then Some (False, ''trusted supersession receipt refused: '' @ lr_supersession_rejection e)
      else if lr_superseded e \<and> lr_remote_head_sha e \<noteq> [] \<and> lr_remote_head_sha e \<noteq> lr_head_sha e
        then Some (False, ''remote branch advanced after the supersession receipt'')
      else if lr_superseded e then Some (True, [])
      else if lr_detached e \<and> \<not> lr_integrated e then Some (False, DetachedRefusal (lr_head_sha e) (lr_base e) (lr_head_unknown e))
      else if \<not> lr_integrated e \<and> lr_head_unknown e \<and> \<not> residue
        then Some (False, ''head '' @ ShortSHA (lr_head_sha e) @ '' was never pushed: GitHub'' @ CHR 0x27 #
          ''s commit index has never seen it, so nothing can prove this work landed and removing the checkout would lose it; '' @
          absorbedConflictAcknowledgementHint (lr_conflict_receipt_path e))
      else if \<not> lr_integrated e \<and> residue \<and> allowResidue then Some (True, [])
      else if \<not> lr_integrated e \<and> residue then Some (False, ResidueReason (lr_landing e) (lr_task e))
      else if \<not> lr_integrated e then Some (False, notIntegratedReason e)
      else if lr_remote_head_sha e \<noteq> [] \<and> lr_remote_head_sha e \<noteq> lr_head_sha e \<and>
              (lr_merge_receipt_candidate_sha e = [] \<or> lr_remote_head_sha e \<noteq> lr_merge_receipt_candidate_sha e) \<and>
              \<not> lr_remote_head_ancestor e
        then Some (False, ''remote branch advanced after the merged pull request: origin/'' @ lr_branch e @ '' is at '' @
          ShortSHA (lr_remote_head_sha e) @ '', not the local head '' @ ShortSHA (lr_head_sha e))
      else (case lr_merged_pr e of
          None \<Rightarrow> Some (True, [])
        | Some pr \<Rightarrow>
            if olderThan > 0 then
              (case pr_merged pr of
                 None \<Rightarrow> None
               | Some at \<Rightarrow> if at + olderThan > now then Some (False, ''merged pull request is newer than the cleanup safety window'')
                   else Some (True, []))
            else Some (True, [])))"

record cleanup_request =
  cq_older_than :: duration
  cq_allow_residue :: bool
  cq_require_remote :: bool
  cq_delete_remote :: bool
  cq_superseded_by :: string
  cq_merge_proofs :: "merge_cleanup_proof list"

definition cleanupEligibility :: "list_result \<Rightarrow> cleanup_request \<Rightarrow> go_time \<Rightarrow> (bool \<times> string) option" where
  "cleanupEligibility entry options now =
     (case cleanupSafetyEligibility entry (cq_older_than options) now (cq_allow_residue options) of
        None \<Rightarrow> None
      | Some (False, reason) \<Rightarrow> Some (False, reason)
      | Some (True, _) \<Rightarrow>
          if cq_require_remote options \<and> \<not> cq_delete_remote options \<and> lr_remote_head_sha entry \<noteq> []
          then Some (False, ''origin/'' @ lr_branch entry @ '' still exists at '' @ ShortSHA (lr_remote_head_sha entry) @
                 ''; rerun with --remote so the retired source branch cannot remain as backlog'')
          else Some (True, []))"

text \<open>The proofs a cleanup tries on every inspected entry (\<^verbatim>\<open>gatherInventory\<close>), in this order.\<close>

definition apply_cleanup_proofs :: "lifecycle_env \<Rightarrow> string \<Rightarrow> cleanup_request \<Rightarrow> list_result \<Rightarrow> (string, list_result) result option" where
  "apply_cleanup_proofs env home options entry =
     (case applyAbsorbedConflictAcknowledgementCleanupProof env home (applyMergeReceiptCleanupProof env (cq_merge_proofs options) entry) of
        Inl err \<Rightarrow> Some (Inl err)
      | Inr acknowledged \<Rightarrow> map_option Inr (applySupersessionReceipt env (cq_superseded_by options) acknowledged))"

definition cleanupResultProof :: "list_result \<Rightarrow> string" where
  "cleanupResultProof entry =
     (if lr_retired_ack_path entry \<noteq> [] then ''retired_prepare_candidate_acknowledgement''
      else if lr_conflict_ack_path entry \<noteq> [] then ''absorbed_conflict_acknowledgement''
      else [])"

end
