(* ===== verification/Worktree_Plan.thy ===== *)
theory Worktree_Plan
  imports Worktree_Evidence
begin

text \<open>
  The plan of a worktree cleanup: \<^verbatim>\<open>buildResults\<close> of \<^verbatim>\<open>internal/worktrees/lifecycle.go\<close> with the
  rules that block whole tasks, and \<^verbatim>\<open>planCleanupApply\<close> and \<^verbatim>\<open>orderLeavesBeforeBases\<close> of
  \<^verbatim>\<open>cleanup_apply.go\<close>, which turn the results into tasks in the order they are applied.

  A Go map from keys to reasons is a map; a slice whose elements are updated in place is a list
  that is replaced. What the file system, the stream store and the Work Log answer is in
  \<open>plan_env\<close>.
\<close>

section \<open>Results\<close>

record worktree_result =
  wr_entry :: list_result
  wr_eligible :: bool
  wr_applied :: bool
  wr_remote_deleted :: bool
  wr_worktree_gone :: bool
  wr_residue_removed :: bool
  wr_branch_deleted :: bool
  wr_backlog_id :: string
  wr_reason :: string
  wr_proof :: string

record list_diagnostic =
  ld_task :: string
  ld_worktrees_root :: string
  ld_path :: string
  ld_message :: string
  ld_non_blocking :: bool

record lifecycle_artifact =
  la_task :: string
  la_worktrees_root :: string
  la_path :: string
  la_kind :: string
  la_repository :: string
  la_non_blocking :: bool
  la_eligible :: bool
  la_applied :: bool
  la_reason :: string

record backlog_record =
  bl_id :: string
  bl_task :: string
  bl_repository :: string
  bl_canonical_dir :: string
  bl_worktrees_root :: string
  bl_worktree_dir :: string
  bl_branch :: string
  bl_base :: string
  bl_head_sha :: string
  bl_external :: bool

text \<open>
  \<open>pe_link_sources\<close> are the details and the commands of the live link sources of a worktree
  (\<^verbatim>\<open>locallink.HasLiveLinkSource\<close>), \<open>pe_work_log\<close> the error of the Work Log preflight, and
  \<open>pe_read_dir\<close> the names of a directory with whether they are directories themselves.
\<close>

record plan_env =
  pe_link_sources :: "string \<Rightarrow> (string, (string \<times> string) list) result"
  pe_work_log :: "list_result \<Rightarrow> string option"
  pe_read_dir :: "string \<Rightarrow> (string, (string \<times> bool) list) result"

record cleanup_inventory =
  ci_results :: "list_result list"
  ci_diagnostics :: "list_diagnostic list"
  ci_artifacts :: "lifecycle_artifact list"
  ci_backlog :: "backlog_record list"
  ci_worktrees_roots :: "string list"

text \<open>\<^verbatim>\<open>CleanupOutcome\<close>, as far as the plan reads it.\<close>

record cleanup_plan_state =
  cp_results :: "worktree_result list"
  cp_artifacts :: "lifecycle_artifact list"

abbreviation wr_task :: "worktree_result \<Rightarrow> string" where
  "wr_task r \<equiv> lr_task (wr_entry r)"

definition block :: "string \<Rightarrow> worktree_result \<Rightarrow> worktree_result" where
  "block reason r = r\<lparr>wr_eligible := False, wr_reason := reason\<rparr>"

definition cleanupTaskKey :: "string \<Rightarrow> string \<Rightarrow> string" where
  "cleanupTaskKey worktreesRoot task = Clean worktreesRoot @ CHR 0x00 # task"

definition cleanupBranchKey :: "string \<Rightarrow> string \<Rightarrow> string" where
  "cleanupBranchKey canonical branch = Clean canonical @ CHR 0x00 # branch"

definition RefusalMessageForSources :: "string \<Rightarrow> (string \<times> string) list \<Rightarrow> string" where
  "RefusalMessageForSources worktree sources =
     (if sources = [] then []
      else worktree @ '' is still a live local link source '' @ [CHR 0xE2, CHR 0x80, CHR 0x94] @
        '' removing it would strand its linked consumer(s): '' @ Join (map fst sources) ''; '' @
        ''; repoint or drop the link(s) first: '' @ Join (rev (remdups (rev (map snd sources)))) '' && '')"

section \<open>Scoring\<close>

text \<open>\<open>None\<close> is the panic of the eligibility decision.\<close>

definition score_entry ::
  "plan_env \<Rightarrow> cleanup_request \<Rightarrow> go_time \<Rightarrow> list_result \<Rightarrow> (string, worktree_result) result option" where
  "score_entry env options now entry =
     (let scored = (\<lambda>eligible reason.
            \<lparr>wr_entry = entry, wr_eligible = eligible, wr_applied = False, wr_remote_deleted = False, wr_worktree_gone = False,
             wr_residue_removed = False, wr_branch_deleted = False, wr_backlog_id = [], wr_reason = reason,
             wr_proof = cleanupResultProof entry\<rparr>) in
      case cleanupEligibility entry options now of
        None \<Rightarrow> None
      | Some (False, reason) \<Rightarrow> Some (Inr (scored False reason))
      | Some (True, reason) \<Rightarrow>
          (case pe_link_sources env (lr_worktree_dir entry) of
             Inl err \<Rightarrow> Some (Inl (''check live link sources for '' @ lr_worktree_dir entry @ '': '' @ err))
           | Inr sources \<Rightarrow>
               if sources \<noteq> [] then Some (Inr (scored False (RefusalMessageForSources (lr_worktree_dir entry) sources)))
               else (case pe_work_log env entry of
                   Some err \<Rightarrow> Some (Inr (scored False (''preflight Work Log for '' @ lr_repository entry @ '': '' @ err)))
                 | None \<Rightarrow> Some (Inr (scored True reason)))))"

fun score_all ::
  "plan_env \<Rightarrow> cleanup_request \<Rightarrow> go_time \<Rightarrow> list_result list \<Rightarrow> (string, worktree_result list) result option" where
  "score_all env options now [] = Some (Inr [])"
| "score_all env options now (e # es) =
     (case score_entry env options now e of
        None \<Rightarrow> None
      | Some (Inl err) \<Rightarrow> Some (Inl err)
      | Some (Inr r) \<Rightarrow>
          (case score_all env options now es of
             None \<Rightarrow> None
           | Some (Inl err) \<Rightarrow> Some (Inl err)
           | Some (Inr rs) \<Rightarrow> Some (Inr (r # rs))))"

definition backlog_result :: "backlog_record \<Rightarrow> worktree_result" where
  "backlog_result b =
     \<lparr>wr_entry = zero_result\<lparr>lr_task := bl_task b, lr_repository := bl_repository b, lr_canonical_dir := bl_canonical_dir b,
        lr_worktree_dir := bl_worktree_dir b, lr_worktrees_root := bl_worktrees_root b, lr_branch := bl_branch b,
        lr_base := bl_base b, lr_head_sha := bl_head_sha b, lr_external := bl_external b\<rparr>,
      wr_eligible = True, wr_applied = False, wr_remote_deleted = False, wr_worktree_gone = True, wr_residue_removed = False,
      wr_branch_deleted = False, wr_backlog_id = bl_id b, wr_reason = ''durable cleanup backlog awaiting exact local branch retirement'',
      wr_proof = []\<rparr>"

section \<open>Tasks blocked as a whole\<close>

text \<open>A Go map of strings answers the empty string for a key it does not have.\<close>

definition reason_at :: "(string \<rightharpoonup> string) \<Rightarrow> string \<Rightarrow> string" where
  "reason_at reasons key = (case reasons key of None \<Rightarrow> [] | Some reason \<Rightarrow> reason)"

definition first_reason :: "string \<Rightarrow> string \<Rightarrow> (string \<rightharpoonup> string) \<Rightarrow> (string \<rightharpoonup> string)" where
  "first_reason key reason reasons = (if reason_at reasons key = [] then reasons(key \<mapsto> reason) else reasons)"

definition diagnostic_reason :: "string set \<Rightarrow> (string \<rightharpoonup> string) \<Rightarrow> list_diagnostic \<Rightarrow> (string \<rightharpoonup> string)" where
  "diagnostic_reason backlogPaths reasons d =
     (if Clean (ld_path d) \<in> backlogPaths then reasons
      else if ld_task d = [] then reasons
      else first_reason (cleanupTaskKey (ld_worktrees_root d) (ld_task d)) (ld_path d @ '': '' @ ld_message d) reasons)"

definition block_diagnosed :: "(string \<rightharpoonup> string) \<Rightarrow> worktree_result \<Rightarrow> worktree_result" where
  "block_diagnosed reasons r =
     (let found = (case reasons (cleanupTaskKey (lr_worktrees_root (wr_entry r)) (wr_task r)) of
            None \<Rightarrow> reasons (cleanupTaskKey [] (wr_task r)) | Some reason \<Rightarrow> Some reason) in
      case found of
        Some reason \<Rightarrow> if wr_eligible r then block (''coordinated task blocked by malformed candidate '' @ reason) r else r
      | None \<Rightarrow> r)"

definition blockDiagnosedTasks :: "string set \<Rightarrow> list_diagnostic list \<Rightarrow> worktree_result list \<Rightarrow> worktree_result list" where
  "blockDiagnosedTasks backlogPaths diagnostics results =
     (if diagnostics = [] then results
      else map (block_diagnosed (foldl (diagnostic_reason backlogPaths) Map.empty diagnostics)) results)"

definition TaskNamespaceKind :: string where
  "TaskNamespaceKind = ''task_namespace''"

definition artifact_reason :: "(string \<rightharpoonup> string) \<Rightarrow> lifecycle_artifact \<Rightarrow> (string \<rightharpoonup> string)" where
  "artifact_reason reasons a =
     (if la_non_blocking a then reasons
      else if la_eligible a \<or> la_kind a = TaskNamespaceKind then reasons
      else first_reason (cleanupTaskKey (la_worktrees_root a) (la_task a)) (la_path a @ '': '' @ la_reason a) reasons)"

definition block_artifact :: "(string \<rightharpoonup> string) \<Rightarrow> worktree_result \<Rightarrow> worktree_result" where
  "block_artifact reasons r =
     (let reason = reason_at reasons (cleanupTaskKey (lr_worktrees_root (wr_entry r)) (wr_task r)) in
      if reason \<noteq> [] \<and> wr_eligible r
      then block (''coordinated task blocked by WB lifecycle artifact cleanup backlog '' @ reason) r else r)"

definition blockArtifactTasks :: "lifecycle_artifact list \<Rightarrow> worktree_result list \<Rightarrow> worktree_result list" where
  "blockArtifactTasks artifacts results = map (block_artifact (foldl artifact_reason Map.empty artifacts)) results"

definition scope_artifact :: "string \<Rightarrow> string \<Rightarrow> lifecycle_artifact \<Rightarrow> lifecycle_artifact" where
  "scope_artifact exactRepository filter' a =
     (if la_repository a = [] then a
      else if exactRepository \<noteq> [] \<and> la_repository a \<noteq> exactRepository \<or> filter' \<noteq> [] \<and> \<not> filter_Match filter' [la_repository a]
      then a\<lparr>la_non_blocking := True, la_reason := ''retired stage belongs to '' @ la_repository a @
             '', outside this repository-scoped cleanup; recover it separately''\<rparr>
      else a)"

definition scopeLifecycleArtifacts :: "string \<Rightarrow> string \<Rightarrow> lifecycle_artifact list \<Rightarrow> lifecycle_artifact list" where
  "scopeLifecycleArtifacts exactRepository filter' artifacts = map (scope_artifact exactRepository filter') artifacts"

definition unsafe_reason :: "(string \<rightharpoonup> string) \<Rightarrow> worktree_result \<Rightarrow> (string \<rightharpoonup> string)" where
  "unsafe_reason reasons r =
     (if wr_eligible r then reasons else first_reason (wr_task r) (lr_repository (wr_entry r) @ '': '' @ wr_reason r) reasons)"

definition block_unsafe :: "(string \<rightharpoonup> string) \<Rightarrow> worktree_result \<Rightarrow> worktree_result" where
  "block_unsafe reasons r =
     (if wr_eligible r \<and> reason_at reasons (wr_task r) \<noteq> []
      then block (''coordinated task blocked by '' @ reason_at reasons (wr_task r)) r else r)"

definition blockUnsafeTasks :: "worktree_result list \<Rightarrow> worktree_result list" where
  "blockUnsafeTasks results = map (block_unsafe (foldl unsafe_reason Map.empty results)) results"

section \<open>Live descendants\<close>

definition IsAncestorEffort :: "string \<Rightarrow> string \<Rightarrow> bool" where
  "IsAncestorEffort ancestor descendant \<longleftrightarrow> ancestor \<noteq> [] \<and> HasPrefix descendant (ancestor @ ''.'')"

definition isWorktreeStagingDirectory :: "string \<Rightarrow> bool" where
  "isWorktreeStagingDirectory name \<longleftrightarrow> HasPrefix name ''.wb-stage-'' \<and> length name > length ''.wb-stage-''"

definition live_efforts :: "plan_env \<Rightarrow> string list \<Rightarrow> string list" where
  "live_efforts env roots =
     concat (map (\<lambda>root. case pe_read_dir env root of
         Inl _ \<Rightarrow> []
       | Inr entries \<Rightarrow> map fst (filter (\<lambda>(name, isDir). isDir \<and> \<not> isWorktreeStagingDirectory name) entries)) roots)"

definition block_effort :: "string list \<Rightarrow> worktree_result \<Rightarrow> worktree_result" where
  "block_effort live r =
     (if \<not> wr_eligible r \<or> wr_task r = [] then r
      else let children = sort (remdups (filter (IsAncestorEffort (wr_task r)) live)) in
        if children = [] then r
        else block (''effort '' @ quoted (wr_task r) @ '' still has live sub-efforts ('' @ Join children '', '' @ ''); terminalize them first'') r)"

definition blockEffortsWithLiveDescendants :: "plan_env \<Rightarrow> string list \<Rightarrow> worktree_result list \<Rightarrow> worktree_result list" where
  "blockEffortsWithLiveDescendants env roots results = map (block_effort (live_efforts env roots)) results"

section \<open>Bases held for what is stacked on them\<close>

definition recorded_base :: "list_result \<Rightarrow> string" where
  "recorded_base e = (if lr_recorded_base e = [] then lr_base e else lr_recorded_base e)"

definition is_base_of :: "worktree_result \<Rightarrow> worktree_result \<Rightarrow> bool" where
  "is_base_of candidate dependant \<longleftrightarrow>
     wr_backlog_id candidate = [] \<and> wr_backlog_id dependant = [] \<and>
     cleanupBranchKey (lr_canonical_dir (wr_entry candidate)) (lr_branch (wr_entry candidate)) =
     cleanupBranchKey (lr_canonical_dir (wr_entry dependant)) (recorded_base (wr_entry dependant))"

definition hold_reason :: "worktree_result \<Rightarrow> worktree_result \<Rightarrow> string" where
  "hold_reason dependant candidate =
     ''held: branch '' @ lr_branch (wr_entry candidate) @ '' is the recorded base of '' @ wr_task dependant @
     '' ('' @ lr_repository (wr_entry dependant) @ ''), which is not eligible: '' @ wr_reason dependant"

text \<open>One dependant: the flag \<^verbatim>\<open>held\<close> and the results, whose eligible bases of it are held.\<close>

definition hold_for :: "worktree_result \<Rightarrow> bool \<times> worktree_result list \<Rightarrow> bool \<times> worktree_result list" where
  "hold_for dependant st =
     (case st of (held, results) \<Rightarrow>
      if wr_eligible dependant \<or> wr_backlog_id dependant \<noteq> [] then (held, results)
      else (held \<or> list_ex (\<lambda>c. wr_eligible c \<and> is_base_of c dependant) results,
            map (\<lambda>c. if wr_eligible c \<and> is_base_of c dependant then block (hold_reason dependant c) c else c) results))"

text \<open>One pass over the dependants; each is read when its turn comes.\<close>

definition hold_pass :: "worktree_result list \<Rightarrow> bool \<times> worktree_result list" where
  "hold_pass results = foldl (\<lambda>st i. hold_for (snd st ! i) st) (False, results) [0..<length results]"

definition eligible_count :: "worktree_result list \<Rightarrow> nat" where
  "eligible_count results = length (filter wr_eligible results)"

lemma block_fields [simp]:
  "\<not> wr_eligible (block reason r)" "wr_entry (block reason r) = wr_entry r" "wr_backlog_id (block reason r) = wr_backlog_id r"
  by (simp_all add: block_def)

lemma count_block: "eligible_count (map (\<lambda>c. if wr_eligible c \<and> P c then block (f c) c else c) rs) \<le> eligible_count rs"
  by (induction rs) (auto simp: eligible_count_def)

lemma count_block_less:
  "list_ex (\<lambda>c. wr_eligible c \<and> P c) rs \<Longrightarrow>
     eligible_count (map (\<lambda>c. if wr_eligible c \<and> P c then block (f c) c else c) rs) < eligible_count rs"
proof (induction rs)
  case (Cons r rs)
  then show ?case using count_block [of P f rs] by (auto simp: eligible_count_def)
qed simp

lemma hold_for_count:
  assumes "hold_for d st = st'"
  shows "eligible_count (snd st') \<le> eligible_count (snd st)" "fst st' \<Longrightarrow> fst st \<or> eligible_count (snd st') < eligible_count (snd st)"
  using assms count_block [of "\<lambda>c. is_base_of c d" "hold_reason d" "snd st"]
    count_block_less [of "\<lambda>c. is_base_of c d" "snd st" "hold_reason d"]
  by (auto simp: hold_for_def split: prod.splits if_splits)

lemma hold_pass_count:
  assumes "hold_pass results = (held, rs)"
  shows "eligible_count rs \<le> eligible_count results" "held \<Longrightarrow> eligible_count rs < eligible_count results"
proof -
  have "eligible_count (snd (foldl (\<lambda>st i. hold_for (snd st ! i) st) st is)) \<le> eligible_count (snd st) \<and>
    (fst (foldl (\<lambda>st i. hold_for (snd st ! i) st) st is) \<longrightarrow>
       fst st \<or> eligible_count (snd (foldl (\<lambda>st i. hold_for (snd st ! i) st) st is)) < eligible_count (snd st))" for st "is"
  proof (induction "is" arbitrary: st)
    case (Cons i "is")
    let ?st = "hold_for (snd st ! i) st"
    show ?case using Cons.IH [of ?st] hold_for_count [of "snd st ! i" st ?st] by auto
  qed simp
  from this [of "(False, results)" "[0..<length results]"] assms
  show "eligible_count rs \<le> eligible_count results" "held \<Longrightarrow> eligible_count rs < eligible_count results"
    by (auto simp: hold_pass_def)
qed

lemma blockUnsafe_count: "eligible_count (blockUnsafeTasks results) \<le> eligible_count results"
  using count_block [of "\<lambda>c. reason_at (foldl unsafe_reason Map.empty results) (wr_task c) \<noteq> []"
      "\<lambda>c. ''coordinated task blocked by '' @ reason_at (foldl unsafe_reason Map.empty results) (wr_task c)" results]
  by (simp add: blockUnsafeTasks_def block_unsafe_def [abs_def])

function holdBasesOfIneligibleDependants :: "worktree_result list \<Rightarrow> worktree_result list" where
  "holdBasesOfIneligibleDependants results =
     (case hold_pass results of (held, rs) \<Rightarrow>
      if held then holdBasesOfIneligibleDependants (blockUnsafeTasks rs) else blockUnsafeTasks rs)"
  by pat_completeness auto

termination
  by (relation "measure eligible_count") (auto dest!: hold_pass_count(2) [OF sym] intro: le_less_trans [OF blockUnsafe_count])

declare holdBasesOfIneligibleDependants.simps [simp del]

section \<open>The results of a run\<close>

definition blocked_results ::
  "plan_env \<Rightarrow> cleanup_inventory \<Rightarrow> lifecycle_artifact list \<Rightarrow> worktree_result list \<Rightarrow> worktree_result list" where
  "blocked_results env listed artifacts results =
     holdBasesOfIneligibleDependants
       (blockEffortsWithLiveDescendants env (ci_worktrees_roots listed)
         (blockUnsafeTasks
           (blockArtifactTasks artifacts
             (blockDiagnosedTasks (set (map (\<lambda>b. Clean (bl_worktree_dir b)) (ci_backlog listed))) (ci_diagnostics listed) results))))"

definition buildResults ::
  "plan_env \<Rightarrow> cleanup_request \<Rightarrow> string \<Rightarrow> string \<Rightarrow> go_time \<Rightarrow> cleanup_inventory \<Rightarrow> (string, cleanup_plan_state) result option" where
  "buildResults env options exactRepository filter' now listed =
     (case score_all env options now (ci_results listed) of
        None \<Rightarrow> None
      | Some (Inl err) \<Rightarrow> Some (Inl err)
      | Some (Inr scored) \<Rightarrow>
          let artifacts = scopeLifecycleArtifacts exactRepository filter' (ci_artifacts listed) in
          Some (Inr \<lparr>cp_results = blocked_results env listed artifacts (scored @ map backlog_result (ci_backlog listed)),
                     cp_artifacts = artifacts\<rparr>))"

section \<open>Tasks to apply\<close>

record task_selection =
  ts_worktrees_root :: string
  ts_task :: string

record apply_entry =
  ae_selection :: task_selection
  ae_results :: "nat list"
  ae_artifacts :: "nat list"
  ae_repositories :: "string list"
  ae_can_apply :: bool
  ae_has_eligible :: bool
  ae_after :: "nat list"

definition logical_root :: "list_result \<Rightarrow> string \<Rightarrow> string" where
  "logical_root e home = (if lr_local e then filepath_Join [home, ''worktrees''] else lr_worktrees_root e)"

definition logicalCleanupTaskKey :: "list_result \<Rightarrow> string \<Rightarrow> string" where
  "logicalCleanupTaskKey e home = cleanupTaskKey (logical_root e home) (lr_task e)"

text \<open>The assignments to \<^verbatim>\<open>byKey\<close>, in order; a later one of the same key wins.\<close>

definition selection_assignments :: "cleanup_plan_state \<Rightarrow> string \<Rightarrow> (string \<times> task_selection) list" where
  "selection_assignments outcome home =
     map (\<lambda>r. (logicalCleanupTaskKey (wr_entry r) home,
               \<lparr>ts_worktrees_root = logical_root (wr_entry r) home, ts_task = wr_task r\<rparr>))
       (filter (\<lambda>r. wr_backlog_id r = []) (cp_results outcome)) @
     map (\<lambda>a. (cleanupTaskKey (la_worktrees_root a) (la_task a), \<lparr>ts_worktrees_root = la_worktrees_root a, ts_task = la_task a\<rparr>))
       (filter (\<lambda>a. la_task a \<noteq> []) (cp_artifacts outcome))"

definition cleanupTaskSelections :: "cleanup_plan_state \<Rightarrow> string \<Rightarrow> task_selection list" where
  "cleanupTaskSelections outcome home =
     (let assignments = selection_assignments outcome home; byKey = map_of (rev assignments) in
      map (\<lambda>key. the (byKey key)) (sort (remdups (map fst assignments))))"

definition of_task :: "string \<Rightarrow> string \<Rightarrow> worktree_result \<Rightarrow> bool" where
  "of_task key home r \<longleftrightarrow> wr_backlog_id r = [] \<and> logicalCleanupTaskKey (wr_entry r) home = key"

definition cleanupTaskCanApply :: "cleanup_plan_state \<Rightarrow> string \<Rightarrow> string \<Rightarrow> bool" where
  "cleanupTaskCanApply outcome taskKey home \<longleftrightarrow>
     (let results = filter (of_task taskKey home) (cp_results outcome);
          artifacts = filter (\<lambda>a. cleanupTaskKey (la_worktrees_root a) (la_task a) = taskKey) (cp_artifacts outcome) in
      list_all wr_eligible results \<and> list_all la_eligible artifacts \<and>
      (list_ex (\<lambda>r. \<not> wr_applied r) results \<or> list_ex (\<lambda>a. \<not> la_applied a) artifacts))"

definition cleanupTaskHasEligibleWorktree :: "cleanup_plan_state \<Rightarrow> string \<Rightarrow> string \<Rightarrow> bool" where
  "cleanupTaskHasEligibleWorktree outcome taskKey home =
     list_ex (\<lambda>r. of_task taskKey home r \<and> \<not> wr_worktree_gone r \<and> wr_eligible r) (cp_results outcome)"

definition plan_task :: "cleanup_plan_state \<Rightarrow> string \<Rightarrow> task_selection \<Rightarrow> apply_entry" where
  "plan_task outcome home selection =
     (let key = cleanupTaskKey (ts_worktrees_root selection) (ts_task selection);
          results = filter (\<lambda>i. wr_eligible (cp_results outcome ! i) \<and> of_task key home (cp_results outcome ! i)) [0..<length (cp_results outcome)] in
      \<lparr>ae_selection = selection, ae_results = results,
       ae_artifacts = filter (\<lambda>i. la_eligible (cp_artifacts outcome ! i) \<and>
          cleanupTaskKey (la_worktrees_root (cp_artifacts outcome ! i)) (la_task (cp_artifacts outcome ! i)) = key) [0..<length (cp_artifacts outcome)],
       ae_repositories = sort (remdups (map (\<lambda>i. Clean (lr_canonical_dir (wr_entry (cp_results outcome ! i)))) results)),
       ae_can_apply = cleanupTaskCanApply outcome key home,
       ae_has_eligible = cleanupTaskHasEligibleWorktree outcome key home,
       ae_after = []\<rparr>)"

section \<open>Leaves before bases\<close>

definition branch_owner :: "worktree_result list \<Rightarrow> (string \<rightharpoonup> nat) \<Rightarrow> nat \<times> nat \<Rightarrow> (string \<rightharpoonup> nat)" where
  "branch_owner results owners ir =
     (case ir of (index, result) \<Rightarrow>
      let e = wr_entry (results ! result) in
      if lr_branch e \<noteq> [] then owners(cleanupBranchKey (lr_canonical_dir e) (lr_branch e) \<mapsto> index) else owners)"

definition entry_results :: "apply_entry list \<Rightarrow> (nat \<times> nat) list" where
  "entry_results entries = concat (map (\<lambda>i. map (Pair i) (ae_results (entries ! i))) [0..<length entries])"

definition ownerOfBranch :: "apply_entry list \<Rightarrow> worktree_result list \<Rightarrow> (string \<rightharpoonup> nat)" where
  "ownerOfBranch entries results = foldl (branch_owner results) Map.empty (entry_results entries)"

text \<open>The entries stacked on one of the branches of an entry, in the order they are appended.\<close>

definition leaves_of :: "apply_entry list \<Rightarrow> worktree_result list \<Rightarrow> nat \<Rightarrow> nat list" where
  "leaves_of entries results owner =
     map fst (filter (\<lambda>(index, result).
         let e = wr_entry (results ! result) in
         ownerOfBranch entries results (cleanupBranchKey (lr_canonical_dir e) (recorded_base e)) = Some owner \<and> owner \<noteq> index)
       (entry_results entries))"

text \<open>
  The order so far: the index of every placed entry with the positions it waits for. The position
  of an entry is where it stands there.
\<close>

type_synonym placed = "(nat \<times> nat list) list"

fun position_of :: "placed \<Rightarrow> nat \<Rightarrow> nat option" where
  "position_of [] index = None"
| "position_of ((i, _) # ordered) index = (if i = index then Some 0 else map_option Suc (position_of ordered index))"

definition wait_for :: "placed \<Rightarrow> nat \<Rightarrow> nat list \<Rightarrow> nat list" where
  "wait_for ordered leaf after =
     (case position_of ordered leaf of
        None \<Rightarrow> after
      | Some p \<Rightarrow> if p \<in> set after then after else after @ [p])"

text \<open>
  \<^verbatim>\<open>place\<close> with the set \<^verbatim>\<open>visiting\<close> and the order threaded through. The fuel bounds the depth of
  the recursion; \<open>None\<close> is running out of it.
\<close>

primrec place :: "nat \<Rightarrow> (nat \<Rightarrow> nat list) \<Rightarrow> nat \<Rightarrow> nat list \<times> placed \<Rightarrow> (nat list \<times> placed) option" where
  "place 0 leaves index st = None"
| "place (Suc fuel) leaves index st =
     (case st of (visiting, ordered) \<Rightarrow>
      if position_of ordered index \<noteq> None \<or> index \<in> set visiting then Some st
      else map_option (\<lambda>((visiting, ordered), after). (visiting, ordered @ [(index, after)]))
        (foldl (\<lambda>acc leaf. Option.bind acc (\<lambda>(st, after).
             map_option (\<lambda>st. (st, wait_for (snd st) leaf after)) (place fuel leaves leaf st)))
           (Some ((index # visiting, ordered), [])) (leaves index)))"

definition place_all :: "(nat \<Rightarrow> nat list) \<Rightarrow> nat \<Rightarrow> placed option" where
  "place_all leaves n =
     foldl (\<lambda>acc index. Option.bind acc (\<lambda>ordered. map_option snd (place (Suc n) leaves index ([], ordered)))) (Some []) [0..<n]"

definition orderLeavesBeforeBases :: "apply_entry list \<Rightarrow> worktree_result list \<Rightarrow> apply_entry list option" where
  "orderLeavesBeforeBases entries results =
     map_option (map (\<lambda>(index, after). (entries ! index)\<lparr>ae_after := after\<rparr>)) (place_all (leaves_of entries results) (length entries))"

definition planCleanupApply :: "cleanup_plan_state \<Rightarrow> string \<Rightarrow> apply_entry list option" where
  "planCleanupApply outcome home =
     orderLeavesBeforeBases (map (plan_task outcome home) (cleanupTaskSelections outcome home)) (cp_results outcome)"

end
