(* ===== verification/Worktree_Order.thy ===== *)
theory Worktree_Order
  imports Worktree_Plan
begin

text \<open>
  The order in which a cleanup applies its tasks. The depth-first search of
  \<^verbatim>\<open>orderLeavesBeforeBases\<close> ends within the fuel it is given, keeps every task once, lets a task
  wait only for earlier ones, and lets it wait for everything stacked on its branches unless the
  records describe a cycle.
\<close>

section \<open>Positions\<close>

definition edges :: "(nat \<Rightarrow> nat list) \<Rightarrow> (nat \<times> nat) set" where
  "edges leaves = {(b, l). l \<in> set (leaves b)}"

abbreviation placed_indices :: "placed \<Rightarrow> nat set" where
  "placed_indices ord \<equiv> fst ` set ord"

lemma position_of_None [simp]: "position_of ord i = None \<longleftrightarrow> i \<notin> placed_indices ord"
  by (induction ord i rule: position_of.induct) auto

lemma position_of_Some: "position_of ord i = Some p \<Longrightarrow> p < length ord \<and> fst (ord ! p) = i"
  by (induction ord i arbitrary: p rule: position_of.induct) (auto split: if_splits)

text \<open>What one placed entry waits for: earlier positions of leaves of its own, and every leaf that
  does not reach it.\<close>

definition waits_ok :: "(nat \<Rightarrow> nat list) \<Rightarrow> placed \<Rightarrow> nat \<Rightarrow> nat list \<Rightarrow> bool" where
  "waits_ok leaves ord index after \<longleftrightarrow>
     (\<forall>a \<in> set after. a < length ord \<and> fst (ord ! a) \<in> set (leaves index))"

definition waits_for_all :: "(nat \<Rightarrow> nat list) \<Rightarrow> placed \<Rightarrow> nat \<Rightarrow> nat list \<Rightarrow> nat set \<Rightarrow> bool" where
  "waits_for_all leaves ord index after ls \<longleftrightarrow>
     (\<forall>l \<in> ls. (\<exists>a \<in> set after. a < length ord \<and> fst (ord ! a) = l) \<or> (l, index) \<in> (edges leaves)\<^sup>*)"

definition ordered_ok :: "(nat \<Rightarrow> nat list) \<Rightarrow> placed \<Rightarrow> bool" where
  "ordered_ok leaves ord \<longleftrightarrow> distinct (map fst ord) \<and>
     (\<forall>p < length ord. waits_ok leaves (take p ord) (fst (ord ! p)) (snd (ord ! p)) \<and>
        waits_for_all leaves (take p ord) (fst (ord ! p)) (snd (ord ! p)) (set (leaves (fst (ord ! p)))))"

lemma ordered_ok_snoc:
  "ordered_ok leaves (ord @ [(index, after)]) \<longleftrightarrow>
     ordered_ok leaves ord \<and> index \<notin> placed_indices ord \<and> waits_ok leaves ord index after \<and>
     waits_for_all leaves ord index after (set (leaves index))"
proof -
  have "(\<forall>p < Suc (length ord). Q p) \<longleftrightarrow> (\<forall>p < length ord. Q p) \<and> Q (length ord)" for Q :: "nat \<Rightarrow> bool"
    by (auto simp: less_Suc_eq)
  then show ?thesis by (auto simp: ordered_ok_def nth_append)
qed

lemma waits_ok_append: "waits_ok leaves ord index after \<Longrightarrow> waits_ok leaves (ord @ ext) index after"
  by (auto simp: waits_ok_def nth_append)

lemma waits_for_all_append: "waits_for_all leaves ord index after ls \<Longrightarrow> set after \<subseteq> set after' \<Longrightarrow> waits_for_all leaves (ord @ ext) index after' ls"
  unfolding waits_for_all_def by (fastforce simp: nth_append)

lemma wait_for_set: "set after \<subseteq> set (wait_for ord leaf after)"
  by (auto simp: wait_for_def split: option.split)

lemma wait_for_ok: "waits_ok leaves ord index after \<Longrightarrow> leaf \<in> set (leaves index) \<Longrightarrow> waits_ok leaves ord index (wait_for ord leaf after)"
  by (auto simp: wait_for_def waits_ok_def split: option.split dest: position_of_Some)

lemma wait_for_placed:
  assumes "leaf \<in> placed_indices ord"
  shows "\<exists>a \<in> set (wait_for ord leaf after). a < length ord \<and> fst (ord ! a) = leaf"
proof -
  obtain p where p: "position_of ord leaf = Some p" using assms position_of_None by (metis not_None_eq)
  with position_of_Some [OF p] show ?thesis by (auto simp: wait_for_def)
qed

section \<open>The search\<close>

text \<open>The state of the search below an entry: everything visited and not yet placed reaches it.\<close>

definition searching :: "nat \<Rightarrow> (nat \<Rightarrow> nat list) \<Rightarrow> nat \<Rightarrow> nat list \<Rightarrow> placed \<Rightarrow> bool" where
  "searching n leaves index visiting ord \<longleftrightarrow>
     set visiting \<subseteq> {..<n} \<and> placed_indices ord \<subseteq> {..<n} \<and> ordered_ok leaves ord \<and>
     (\<forall>v \<in> set visiting. v \<in> placed_indices ord \<or> (v, index) \<in> (edges leaves)\<^sup>*)"

text \<open>What a call leaves behind: it visits more, has placed all that it visited itself, and places
  nothing that was being visited.\<close>

definition extends :: "nat list \<Rightarrow> placed \<Rightarrow> nat list \<Rightarrow> placed \<Rightarrow> bool" where
  "extends visiting ord visiting' ord' \<longleftrightarrow>
     set visiting \<subseteq> set visiting' \<and> set visiting' \<subseteq> set visiting \<union> placed_indices ord' \<and>
     (\<exists>ext. ord' = ord @ ext \<and> placed_indices ext \<inter> set visiting = {})"

lemma extends_refl [simp]: "extends visiting ord visiting ord"
  by (auto simp: extends_def)

lemma extends_trans: "extends v ord v' ord' \<Longrightarrow> extends v' ord' v'' ord'' \<Longrightarrow> extends v ord v'' ord''"
  unfolding extends_def by (clarsimp, intro conjI) auto

lemma searching_leaf: "searching n leaves index v ord \<Longrightarrow> leaf \<in> set (leaves index) \<Longrightarrow> searching n leaves leaf v ord"
  unfolding searching_def by (auto simp: edges_def intro: rtrancl_into_rtrancl)

lemma searching_extends:
  assumes "searching n leaves index v ord" "extends v ord v' ord'" "searching n leaves leaf v' ord'"
  shows "searching n leaves index v' ord'"
proof -
  have "u \<in> placed_indices ord' \<or> (u, index) \<in> (edges leaves)\<^sup>*" if "u \<in> set v'" for u
  proof (cases "u \<in> set v")
    case True
    then show ?thesis using assms(1,2) unfolding searching_def extends_def by (metis Un_iff image_Un set_append)
  qed (use that assms(2) in \<open>auto simp: extends_def\<close>)
  then show ?thesis using assms(3) by (simp add: searching_def)
qed

definition place_ok :: "nat \<Rightarrow> nat \<Rightarrow> (nat \<Rightarrow> nat list) \<Rightarrow> bool" where
  "place_ok fuel n leaves \<longleftrightarrow>
     (\<forall>index visiting ord. index < n \<longrightarrow> card ({..<n} - set visiting) < fuel \<longrightarrow> searching n leaves index visiting ord \<longrightarrow>
        (\<exists>visiting' ord'. place fuel leaves index (visiting, ord) = Some (visiting', ord') \<and>
           extends visiting ord visiting' ord' \<and> searching n leaves index visiting' ord' \<and>
           (index \<in> placed_indices ord' \<or> index \<in> set visiting)))"

abbreviation place_leaf :: "nat \<Rightarrow> (nat \<Rightarrow> nat list) \<Rightarrow> ((nat list \<times> placed) \<times> nat list) option \<Rightarrow> nat \<Rightarrow> ((nat list \<times> placed) \<times> nat list) option" where
  "place_leaf fuel leaves \<equiv> \<lambda>acc leaf. Option.bind acc (\<lambda>(st, after).
     map_option (\<lambda>st. (st, wait_for (snd st) leaf after)) (place fuel leaves leaf st))"

lemma place_leaves:
  assumes "place_ok fuel n leaves" "set ls \<subseteq> set (leaves index)" "set (leaves index) \<subseteq> {..<n}"
    and "searching n leaves index v ord" "card ({..<n} - set v) < fuel" "waits_ok leaves ord index after"
  shows "\<exists>v' ord' after'. foldl (place_leaf fuel leaves) (Some ((v, ord), after)) ls = Some ((v', ord'), after') \<and>
    extends v ord v' ord' \<and> searching n leaves index v' ord' \<and> waits_ok leaves ord' index after' \<and>
    set after \<subseteq> set after' \<and> waits_for_all leaves ord' index after' (set ls)"
  using assms(2,4-)
proof (induction ls arbitrary: v ord after)
  case Nil
  then show ?case by (simp add: waits_for_all_def)
next
  case (Cons l ls)
  have l: "l \<in> set (leaves index)" "l < n" using Cons.prems(1) assms(3) by auto
  obtain v1 ord1 where p: "place fuel leaves l (v, ord) = Some (v1, ord1)" and e: "extends v ord v1 ord1"
      and s: "searching n leaves l v1 ord1" and done_l: "l \<in> placed_indices ord1 \<or> l \<in> set v"
    using assms(1) l(2) Cons.prems(3) searching_leaf [OF Cons.prems(2) l(1)] unfolding place_ok_def by blast
  let ?after = "wait_for ord1 l after"
  have s1: "searching n leaves index v1 ord1" by (rule searching_extends [OF Cons.prems(2) e s])
  obtain ext where ext: "ord1 = ord @ ext" using e by (auto simp: extends_def)
  have w: "waits_ok leaves ord1 index ?after" using wait_for_ok [of leaves ord1 index after l] l(1) waits_ok_append [OF Cons.prems(4)] ext by simp
  have "card ({..<n} - set v1) \<le> card ({..<n} - set v)" using e by (intro card_mono) (auto simp: extends_def)
  then have c: "card ({..<n} - set v1) < fuel" using Cons.prems(3) by simp
  have lwait: "waits_for_all leaves ord1 index ?after {l}"
  proof (cases "l \<in> placed_indices ord1")
    case True
    then show ?thesis using wait_for_placed [OF True, of after] by (auto simp: waits_for_all_def)
  next
    case False
    then have "l \<in> set v" "l \<notin> placed_indices ord" using done_l ext by auto
    then show ?thesis using Cons.prems(2) by (auto simp: waits_for_all_def searching_def)
  qed
  have "set ls \<subseteq> set (leaves index)" using Cons.prems(1) by simp
  from Cons.IH [OF this s1 c w] obtain v' ord' after' where f: "foldl (place_leaf fuel leaves) (Some ((v1, ord1), ?after)) ls = Some ((v', ord'), after')"
      and r: "extends v1 ord1 v' ord'" "searching n leaves index v' ord'" "waits_ok leaves ord' index after'" "set ?after \<subseteq> set after'"
        "waits_for_all leaves ord' index after' (set ls)" by blast
  obtain ext' where "ord' = ord1 @ ext'" using r(1) by (auto simp: extends_def)
  then have "waits_for_all leaves ord' index after' {l}" using waits_for_all_append [OF lwait r(4)] by simp
  then have "waits_for_all leaves ord' index after' (set (l # ls))" using r(5) by (auto simp: waits_for_all_def)
  moreover have "set after \<subseteq> set after'" using r(4) wait_for_set [of after ord1 l] by simp
  moreover have "foldl (place_leaf fuel leaves) (Some ((v, ord), after)) (l # ls) = Some ((v', ord'), after')" using f p by simp
  ultimately show ?case using r(2,3) extends_trans [OF e r(1)] by blast
qed

lemma place_correct:
  assumes "\<And>i. i < n \<Longrightarrow> set (leaves i) \<subseteq> {..<n}"
  shows "place_ok fuel n leaves"
proof (induction fuel)
  case 0
  show ?case by (simp add: place_ok_def)
next
  case (Suc fuel)
  show ?case unfolding place_ok_def
  proof (intro allI impI)
    fix index v ord
    assume index: "index < n" and c: "card ({..<n} - set v) < Suc fuel" and s: "searching n leaves index v ord"
    show "\<exists>v' ord'. place (Suc fuel) leaves index (v, ord) = Some (v', ord') \<and> extends v ord v' ord' \<and>
      searching n leaves index v' ord' \<and> (index \<in> placed_indices ord' \<or> index \<in> set v)"
    proof (cases "index \<in> placed_indices ord \<or> index \<in> set v")
      case True
      then show ?thesis using s by auto
    next
      case False
      let ?v = "index # v"
      have "{..<n} - set ?v \<subset> {..<n} - set v" using index False by auto
      then have "card ({..<n} - set ?v) < card ({..<n} - set v)" by (rule psubset_card_mono [rotated]) simp
      then have c': "card ({..<n} - set ?v) < fuel" using c by simp
      have s': "searching n leaves index ?v ord" using s index by (auto simp: searching_def)
      have "waits_ok leaves ord index []" by (simp add: waits_ok_def)
      from place_leaves [OF Suc order_refl assms [OF index] s' c' this]
      obtain v' ord' after where f: "foldl (place_leaf fuel leaves) (Some ((?v, ord), [])) (leaves index) = Some ((v', ord'), after)"
          and r: "extends ?v ord v' ord'" "searching n leaves index v' ord'" "waits_ok leaves ord' index after"
            "waits_for_all leaves ord' index after (set (leaves index))" by blast
      obtain ext where ext: "ord' = ord @ ext" "placed_indices ext \<inter> set ?v = {}" using r(1) by (auto simp: extends_def)
      then have new: "index \<notin> placed_indices ord'" using False by auto
      let ?ord = "ord' @ [(index, after)]"
      have "place (Suc fuel) leaves index (v, ord) = Some (v', ?ord)" using False f by simp
      moreover have "extends v ord v' ?ord"
        unfolding extends_def
      proof (intro conjI)
        show "set v \<subseteq> set v'" "set v' \<subseteq> set v \<union> placed_indices ?ord" using r(1) by (auto simp: extends_def)
        show "\<exists>e. ?ord = ord @ e \<and> placed_indices e \<inter> set v = {}"
          using ext False by (intro exI [of _ "ext @ [(index, after)]"]) auto
      qed
      moreover have "searching n leaves index v' ?ord"
        using r new index by (auto simp: searching_def ordered_ok_snoc)
      ultimately show ?thesis by auto
    qed
  qed
qed

lemma place_all_steps:
  assumes "\<And>i. i < n \<Longrightarrow> set (leaves i) \<subseteq> {..<n}" "ordered_ok leaves ord" "placed_indices ord \<subseteq> {..<n}" "set is \<subseteq> {..<n}"
  shows "\<exists>ord'. foldl (\<lambda>acc index. Option.bind acc (\<lambda>ord. map_option snd (place (Suc n) leaves index ([], ord)))) (Some ord) is = Some ord' \<and>
    ordered_ok leaves ord' \<and> placed_indices ord \<union> set is \<subseteq> placed_indices ord' \<and> placed_indices ord' \<subseteq> {..<n}"
  using assms(2-)
proof (induction "is" arbitrary: ord)
  case (Cons i "is")
  have i: "i < n" and s: "searching n leaves i [] ord" using Cons.prems by (auto simp: searching_def)
  have "card ({..<n} - set ([] :: nat list)) < Suc n" by simp
  with place_correct [of n leaves "Suc n"] assms(1) i s
  obtain v' ord' where p: "place (Suc n) leaves i ([], ord) = Some (v', ord')" "extends [] ord v' ord'" "searching n leaves i v' ord'"
      "i \<in> placed_indices ord'"
    unfolding place_ok_def by (metis empty_iff empty_set)
  have ok: "ordered_ok leaves ord'" "placed_indices ord' \<subseteq> {..<n}" and more: "placed_indices ord \<subseteq> placed_indices ord'"
    using p(2,3) by (auto simp: searching_def extends_def)
  have "set is \<subseteq> {..<n}" using Cons.prems(3) by simp
  from Cons.IH [OF ok this] obtain ord'' where r: "ordered_ok leaves ord''" "placed_indices ord' \<union> set is \<subseteq> placed_indices ord''"
      "placed_indices ord'' \<subseteq> {..<n}"
      "foldl (\<lambda>acc index. Option.bind acc (\<lambda>ord. map_option snd (place (Suc n) leaves index ([], ord)))) (Some ord') is = Some ord''"
    by blast
  have "placed_indices ord \<union> set (i # is) \<subseteq> placed_indices ord''" using more p(4) r(2) by auto
  then show ?case using r p(1) by (simp del: place.simps)
qed simp

lemma place_all_complete:
  assumes "\<And>i. i < n \<Longrightarrow> set (leaves i) \<subseteq> {..<n}"
  shows "\<exists>ord. place_all leaves n = Some ord \<and> ordered_ok leaves ord \<and> placed_indices ord = {..<n}"
  using place_all_steps [of n leaves "[]" "[0..<n]"] assms by (fastforce simp: place_all_def ordered_ok_def)

section \<open>The plan of a run\<close>

lemma entry_results_in: "(i, k) \<in> set (entry_results entries) \<longleftrightarrow> i < length entries \<and> k \<in> set (ae_results (entries ! i))"
  by (auto simp: entry_results_def)

lemma leaves_of_bound: "set (leaves_of entries results owner) \<subseteq> {..<length entries}"
  by (auto simp: leaves_of_def entry_results_in)

text \<open>The order of a plan: where each task of the walk went, what it waits for, and that it waits
  for every leaf that is not part of a cycle with it.\<close>

definition apply_order :: "apply_entry list \<Rightarrow> worktree_result list \<Rightarrow> nat list \<Rightarrow> apply_entry list \<Rightarrow> bool" where
  "apply_order entries results perm ordered \<longleftrightarrow>
     length ordered = length entries \<and> length perm = length entries \<and> distinct perm \<and> set perm = {..<length entries} \<and>
     (\<forall>p < length entries. \<exists>after. ordered ! p = (entries ! (perm ! p))\<lparr>ae_after := after\<rparr> \<and>
        (\<forall>a \<in> set after. a < p \<and> perm ! a \<in> set (leaves_of entries results (perm ! p))) \<and>
        (\<forall>l \<in> set (leaves_of entries results (perm ! p)).
           (\<exists>a \<in> set after. perm ! a = l) \<or> (l, perm ! p) \<in> (edges (leaves_of entries results))\<^sup>*))"

lemma orderLeavesBeforeBases_order:
  "\<exists>perm ordered. orderLeavesBeforeBases entries results = Some ordered \<and> apply_order entries results perm ordered"
proof -
  let ?n = "length entries" and ?leaves = "leaves_of entries results"
  obtain ord where ord: "place_all ?leaves ?n = Some ord" and ok: "ordered_ok ?leaves ord" and all: "placed_indices ord = {..<?n}"
    using place_all_complete [of ?n ?leaves] leaves_of_bound by blast
  let ?perm = "map fst ord"
  have d: "distinct ?perm" using ok by (simp add: ordered_ok_def)
  have len: "length ord = ?n" using distinct_card [OF d] all by simp
  define ordered where "ordered = map (\<lambda>(index, after). (entries ! index)\<lparr>ae_after := after\<rparr>) ord"
  have "orderLeavesBeforeBases entries results = Some ordered" using ord by (simp add: orderLeavesBeforeBases_def ordered_def)
  moreover have "apply_order entries results ?perm ordered"
    unfolding apply_order_def
  proof (intro conjI allI impI)
    fix p assume p: "p < ?n"
    let ?after = "snd (ord ! p)"
    have o: "waits_ok ?leaves (take p ord) (fst (ord ! p)) ?after"
        "waits_for_all ?leaves (take p ord) (fst (ord ! p)) ?after (set (?leaves (fst (ord ! p))))"
      using ok p len by (simp_all add: ordered_ok_def)
    have "ordered ! p = (entries ! (?perm ! p))\<lparr>ae_after := ?after\<rparr>" using p len by (simp add: ordered_def split: prod.split)
    moreover have "\<forall>a \<in> set ?after. a < p \<and> ?perm ! a \<in> set (?leaves (?perm ! p))"
      using o(1) p len by (auto simp: waits_ok_def)
    moreover have "\<forall>l \<in> set (?leaves (?perm ! p)). (\<exists>a \<in> set ?after. ?perm ! a = l) \<or> (l, ?perm ! p) \<in> (edges ?leaves)\<^sup>*"
      using o(2) p len by (fastforce simp: waits_for_all_def)
    ultimately show "\<exists>after. ordered ! p = (entries ! (?perm ! p))\<lparr>ae_after := after\<rparr> \<and>
        (\<forall>a \<in> set after. a < p \<and> ?perm ! a \<in> set (?leaves (?perm ! p))) \<and>
        (\<forall>l \<in> set (?leaves (?perm ! p)). (\<exists>a \<in> set after. ?perm ! a = l) \<or> (l, ?perm ! p) \<in> (edges ?leaves)\<^sup>*)"
      by blast
  qed (use d len all in \<open>auto simp: ordered_def\<close>)
  ultimately show ?thesis by blast
qed

section \<open>Owners of branches\<close>

lemma owner_foldl:
  assumes "\<And>i k. (i, k) \<in> set irs \<Longrightarrow> lr_branch (wr_entry (results ! k)) \<noteq> [] \<Longrightarrow>
      cleanupBranchKey (lr_canonical_dir (wr_entry (results ! k))) (lr_branch (wr_entry (results ! k))) = key \<Longrightarrow> i = owner"
    and "m key = Some owner \<or> (\<exists>k. (owner, k) \<in> set irs \<and> lr_branch (wr_entry (results ! k)) \<noteq> [] \<and>
      cleanupBranchKey (lr_canonical_dir (wr_entry (results ! k))) (lr_branch (wr_entry (results ! k))) = key)"
  shows "foldl (branch_owner results) m irs key = Some owner"
  using assms
proof (induction irs arbitrary: m)
  case (Cons ir irs)
  obtain i k where ir: "ir = (i, k)" by fastforce
  let ?e = "wr_entry (results ! k)"
  have "branch_owner results m ir key = Some owner \<or> (\<exists>k. (owner, k) \<in> set irs \<and> lr_branch (wr_entry (results ! k)) \<noteq> [] \<and>
      cleanupBranchKey (lr_canonical_dir (wr_entry (results ! k))) (lr_branch (wr_entry (results ! k))) = key)"
    using Cons.prems(2) Cons.prems(1) [of i k] ir by (auto simp: branch_owner_def Let_def)
  then have "foldl (branch_owner results) (branch_owner results m ir) irs key = Some owner"
    by (intro Cons.IH) (use Cons.prems(1) in auto)
  then show ?case by simp
qed simp

text \<open>The task at one position has a branch that no other task of the plan has, and the task at
  another position has a result that is stacked on it.\<close>

definition stacked_on :: "worktree_result list \<Rightarrow> apply_entry list \<Rightarrow> nat \<Rightarrow> nat \<Rightarrow> bool" where
  "stacked_on results ordered q p \<longleftrightarrow>
     q < length ordered \<and> p < length ordered \<and> p \<noteq> q \<and>
     (\<exists>x \<in> set (ae_results (ordered ! p)). \<exists>y \<in> set (ae_results (ordered ! q)).
        lr_branch (wr_entry (results ! x)) \<noteq> [] \<and> is_base_of (results ! x) (results ! y) \<and>
        (\<forall>p' < length ordered. \<forall>x' \<in> set (ae_results (ordered ! p')). lr_branch (wr_entry (results ! x')) \<noteq> [] \<longrightarrow>
           cleanupBranchKey (lr_canonical_dir (wr_entry (results ! x'))) (lr_branch (wr_entry (results ! x'))) =
           cleanupBranchKey (lr_canonical_dir (wr_entry (results ! x))) (lr_branch (wr_entry (results ! x))) \<longrightarrow> p' = p))"

lemma stacked_leaf:
  assumes "apply_order entries results perm ordered" "stacked_on results ordered q p"
  shows "perm ! q \<in> set (leaves_of entries results (perm ! p))"
proof -
  let ?key = "\<lambda>k. cleanupBranchKey (lr_canonical_dir (wr_entry (results ! k))) (lr_branch (wr_entry (results ! k)))"
  have len: "length ordered = length entries" "length perm = length entries" and perm: "distinct perm" "set perm = {..<length entries}"
    using assms(1) by (simp_all only: apply_order_def)
  have same: "ae_results (ordered ! j) = ae_results (entries ! (perm ! j))" if "j < length entries" for j
  proof -
    obtain after where "ordered ! j = (entries ! (perm ! j))\<lparr>ae_after := after\<rparr>" using assms(1) \<open>j < length entries\<close> unfolding apply_order_def by blast
    then show ?thesis by simp
  qed
  obtain x y where pq: "q < length entries" "p < length entries" "p \<noteq> q"
      and x: "x \<in> set (ae_results (ordered ! p))" "lr_branch (wr_entry (results ! x)) \<noteq> []" and y: "y \<in> set (ae_results (ordered ! q))"
      and b: "is_base_of (results ! x) (results ! y)"
      and only: "\<And>p' x'. p' < length entries \<Longrightarrow> x' \<in> set (ae_results (ordered ! p')) \<Longrightarrow> lr_branch (wr_entry (results ! x')) \<noteq> [] \<Longrightarrow>
        ?key x' = ?key x \<Longrightarrow> p' = p"
    using assms(2) len(1) unfolding stacked_on_def by metis
  have at: "perm ! j < length entries" if "j < length entries" for j using nth_mem [of j perm] that len(2) perm(2) by simp
  have "ownerOfBranch entries results (?key x) = Some (perm ! p)"
    unfolding ownerOfBranch_def
  proof (rule owner_foldl)
    fix i k assume ik: "(i, k) \<in> set (entry_results entries)" "lr_branch (wr_entry (results ! k)) \<noteq> []" "?key k = ?key x"
    then have "i \<in> set perm" using perm(2) by (simp add: entry_results_in)
    then obtain j where j: "j < length entries" "perm ! j = i" using len(2) by (metis in_set_conv_nth)
    then have "j = p" using ik only [of j k] same [of j] by (simp add: entry_results_in)
    then show "i = perm ! p" using j by simp
  next
    show "Map.empty (?key x) = Some (perm ! p) \<or> (\<exists>k. (perm ! p, k) \<in> set (entry_results entries) \<and> lr_branch (wr_entry (results ! k)) \<noteq> [] \<and> ?key k = ?key x)"
      using x same [OF pq(2)] at [OF pq(2)] by (auto simp: entry_results_in)
  qed
  moreover have "perm ! p \<noteq> perm ! q" using pq perm(1) len(2) by (simp add: nth_eq_iff_index_eq)
  moreover have "(perm ! q, y) \<in> set (entry_results entries)" using y same [OF pq(1)] at [OF pq(1)] by (simp add: entry_results_in)
  ultimately show ?thesis using b by (force simp: leaves_of_def is_base_of_def Let_def)
qed

section \<open>Properties\<close>

text \<open>
  C31: leaves before bases. The plan of a cleanup always exists; it has every selected task exactly
  once, and a task waits for earlier tasks only. Unless the records describe a cycle of tasks, a
  task waits for every task that is stacked on a branch of its own.
\<close>

theorem leaves_before_bases:
  "\<exists>ordered. planCleanupApply outcome home = Some ordered \<and>
     mset (map (\<lambda>e. e\<lparr>ae_after := []\<rparr>) ordered) = mset (map (plan_task outcome home) (cleanupTaskSelections outcome home)) \<and>
     (\<forall>p < length ordered. \<forall>a \<in> set (ae_after (ordered ! p)). a < p) \<and>
     (acyclic (edges (leaves_of (map (plan_task outcome home) (cleanupTaskSelections outcome home)) (cp_results outcome))) \<longrightarrow>
        (\<forall>p q. stacked_on (cp_results outcome) ordered q p \<longrightarrow> q \<in> set (ae_after (ordered ! p))))"
proof -
  let ?entries = "map (plan_task outcome home) (cleanupTaskSelections outcome home)" and ?results = "cp_results outcome"
  obtain perm ordered where o: "planCleanupApply outcome home = Some ordered" and ao: "apply_order ?entries ?results perm ordered"
    using orderLeavesBeforeBases_order unfolding planCleanupApply_def by blast
  have len: "length ordered = length ?entries" "length perm = length ?entries" and perm: "distinct perm" "set perm = {..<length ?entries}"
    using ao by (simp_all only: apply_order_def)
  have at: "\<exists>after. ordered ! p = (?entries ! (perm ! p))\<lparr>ae_after := after\<rparr> \<and> (\<forall>a \<in> set after. a < p) \<and>
      (\<forall>l \<in> set (leaves_of ?entries ?results (perm ! p)). (\<exists>a \<in> set after. perm ! a = l) \<or> (l, perm ! p) \<in> (edges (leaves_of ?entries ?results))\<^sup>*)"
    if "p < length ordered" for p
    using ao that len unfolding apply_order_def by metis
  have "map (\<lambda>e. e\<lparr>ae_after := []\<rparr>) ordered = map (\<lambda>i. ?entries ! i) perm"
  proof (rule nth_equalityI)
    fix p assume "p < length (map (\<lambda>e. e\<lparr>ae_after := []\<rparr>) ordered)"
    then have p: "p < length ordered" by simp
    have "perm ! p < length ?entries" using p len perm(2) nth_mem [of p perm] by simp
    then show "map (\<lambda>e. e\<lparr>ae_after := []\<rparr>) ordered ! p = map (\<lambda>i. ?entries ! i) perm ! p"
      using at [OF p] p len by (auto simp: plan_task_def Let_def)
  qed (use len in simp)
  moreover have "mset perm = mset [0..<length ?entries]"
    by (rule set_eq_iff_mset_eq_distinct [OF perm(1) distinct_upt, THEN iffD1]) (simp add: perm(2) atLeast0LessThan)
  then have "mset (map (\<lambda>i. ?entries ! i) perm) = mset (map (\<lambda>i. ?entries ! i) [0..<length ?entries])" by (simp only: mset_map)
  ultimately have m: "mset (map (\<lambda>e. e\<lparr>ae_after := []\<rparr>) ordered) = mset ?entries" by (simp only: map_nth)
  have "q \<in> set (ae_after (ordered ! p))" if ac: "acyclic (edges (leaves_of ?entries ?results))" and st: "stacked_on ?results ordered q p" for p q
  proof -
    have pq: "p < length ordered" "q < length ordered" using st by (simp_all add: stacked_on_def)
    obtain after where e: "ordered ! p = (?entries ! (perm ! p))\<lparr>ae_after := after\<rparr>" "\<forall>a \<in> set after. a < p"
        "\<forall>l \<in> set (leaves_of ?entries ?results (perm ! p)). (\<exists>a \<in> set after. perm ! a = l) \<or> (l, perm ! p) \<in> (edges (leaves_of ?entries ?results))\<^sup>*"
      using at [OF pq(1)] by blast
    note leaf = stacked_leaf [OF ao st]
    have "(perm ! q, perm ! p) \<notin> (edges (leaves_of ?entries ?results))\<^sup>*"
      using leaf ac unfolding acyclic_def by (metis (mono_tags, lifting) case_prodI edges_def mem_Collect_eq rtrancl_into_trancl2)
    then obtain a where a: "a \<in> set after" "perm ! a = perm ! q" using e(3) leaf by blast
    then have "a < length perm" "q < length perm" using e(2) pq len by auto
    then have "a = q" using a(2) perm(1) by (simp add: nth_eq_iff_index_eq)
    then show ?thesis using a(1) e(1) by simp
  qed
  note stacked = this
  have earlier: "\<forall>a \<in> set (ae_after (ordered ! p)). a < p" if "p < length ordered" for p using at [OF that] by auto
  show ?thesis by (intro exI [of _ ordered] conjI allI impI o m earlier stacked)
qed

section \<open>Witnesses\<close>

text \<open>Two tasks of one clone: the second has its branch y on the branch x of the first.\<close>

definition sample_row :: "string \<Rightarrow> string \<Rightarrow> string \<Rightarrow> worktree_result" where
  "sample_row task branch base =
     backlog_result \<lparr>bl_id = [], bl_task = task, bl_repository = ''a/b'', bl_canonical_dir = ''/c'', bl_worktrees_root = ''/w'',
       bl_worktree_dir = ''/w/'' @ task, bl_branch = branch, bl_base = base, bl_head_sha = [], bl_external = False\<rparr>\<lparr>wr_worktree_gone := False\<rparr>"

definition sample_outcome :: cleanup_plan_state where
  "sample_outcome = \<lparr>cp_results = [sample_row ''base'' ''x'' ''main'', sample_row ''leaf'' ''y'' ''x''], cp_artifacts = []\<rparr>"

definition sample_entries :: "apply_entry list" where
  "sample_entries = map (plan_task sample_outcome ''/h'') (cleanupTaskSelections sample_outcome ''/h'')"

lemma sample_plan:
  "map_option (map (\<lambda>e. (ts_task (ae_selection e), ae_results e, ae_repositories e, ae_after e))) (planCleanupApply sample_outcome ''/h'') =
     Some [(''leaf'', [1], [''/c''], []), (''base'', [0], [''/c''], [0])]"
  by code_simp

lemma sample_leaves: "leaves_of sample_entries (cp_results sample_outcome) owner = (if owner = 0 then [1] else [])"
proof -
  have e: "entry_results sample_entries = [(0, 0), (1, 1)]" by code_simp
  have "ownerOfBranch sample_entries (cp_results sample_outcome)
      (cleanupBranchKey (lr_canonical_dir (wr_entry (cp_results sample_outcome ! 0))) (recorded_base (wr_entry (cp_results sample_outcome ! 0)))) = None"
    "ownerOfBranch sample_entries (cp_results sample_outcome)
      (cleanupBranchKey (lr_canonical_dir (wr_entry (cp_results sample_outcome ! 1))) (recorded_base (wr_entry (cp_results sample_outcome ! 1)))) = Some 0"
    by code_simp+
  then show ?thesis by (auto simp: leaves_of_def e)
qed

theorem leaves_before_bases_witness:
  "\<exists>ordered. planCleanupApply sample_outcome ''/h'' = Some ordered \<and> ts_task (ae_selection (ordered ! 0)) = ''leaf'' \<and>
     0 \<in> set (ae_after (ordered ! 1))"
proof -
  from leaves_before_bases [of sample_outcome "''/h''"] obtain ordered where o: "planCleanupApply sample_outcome ''/h'' = Some ordered"
      and w: "acyclic (edges (leaves_of sample_entries (cp_results sample_outcome))) \<longrightarrow>
        (\<forall>p q. stacked_on (cp_results sample_outcome) ordered q p \<longrightarrow> q \<in> set (ae_after (ordered ! p)))"
    unfolding sample_entries_def by blast
  have m: "map (\<lambda>e. (ts_task (ae_selection e), ae_results e, ae_repositories e, ae_after e)) ordered =
      [(''leaf'', [1], [''/c''], []), (''base'', [0], [''/c''], [0])]"
    using sample_plan o by simp
  then have len: "length ordered = 2" by (metis (no_types, lifting) length_Cons length_map list.size(3) numeral_2_eq_2)
  have r: "ae_results (ordered ! 0) = [1]" "ae_results (ordered ! 1) = [0]" "ts_task (ae_selection (ordered ! 0)) = ''leaf''"
    using arg_cong [OF m, of "\<lambda>xs. fst (snd (xs ! 0))"] arg_cong [OF m, of "\<lambda>xs. fst (snd (xs ! 1))"] arg_cong [OF m, of "\<lambda>xs. fst (xs ! 0)"] len
    by simp_all
  have "edges (leaves_of sample_entries (cp_results sample_outcome)) = {(0, 1)}"
    by (auto simp: edges_def sample_leaves split: if_split_asm)
  then have ac: "acyclic (edges (leaves_of sample_entries (cp_results sample_outcome)))" by (simp add: acyclic_insert wf_acyclic)
  have f: "is_base_of (cp_results sample_outcome ! 0) (cp_results sample_outcome ! 1)" "lr_branch (wr_entry (cp_results sample_outcome ! 0)) \<noteq> []"
    "cleanupBranchKey (lr_canonical_dir (wr_entry (cp_results sample_outcome ! 1))) (lr_branch (wr_entry (cp_results sample_outcome ! 1))) \<noteq>
     cleanupBranchKey (lr_canonical_dir (wr_entry (cp_results sample_outcome ! 0))) (lr_branch (wr_entry (cp_results sample_outcome ! 0)))"
    by code_simp+
  have "stacked_on (cp_results sample_outcome) ordered 0 1"
    unfolding stacked_on_def using len r f by (auto simp: less_2_cases_iff)
  with w ac o r(3) show ?thesis by blast
qed

end
