(* ===== verification/Worktree_Eligible.thy ===== *)
theory Worktree_Eligible
  imports Worktree_Evidence Landing_Graph Branch_Cleanup_Props
begin

text \<open>
  What an eligible worktree has been proved to be. The stages of the inspection keep one
  invariant, \<open>inspected\<close>: an entry marked as integrated has a proof against the target it records,
  a landing with residue has one for the commit that landed, and a merged pull request has its
  merge time, which the eligibility decision dereferences.
\<close>

section \<open>Proofs against the recorded target\<close>

definition contained_proof :: "lifecycle_env \<Rightarrow> list_result \<Rightarrow> bool" where
  "contained_proof env e \<longleftrightarrow> env_ancestor env (lr_canonical_dir e) (lr_head_sha e) (lr_remote_target_sha e) = Inr True"

text \<open>The recorded base is gone from origin, and its own pull request into the default branch was
  merged from this exact head; the merge commit is in the target.\<close>

definition deleted_target_proof :: "lifecycle_env \<Rightarrow> list_result \<Rightarrow> bool" where
  "deleted_target_proof env e \<longleftrightarrow>
     lr_recorded_base_state e = RecordedBaseAbsent \<and>
     (\<exists>pr. lr_merged_pr e = Some pr \<and> pr_head_sha pr = lr_head_sha e \<and> pr_base pr = lr_base e \<and> IsGitObjectID (pr_merge_sha pr) \<and>
        env_ancestor env (lr_canonical_dir e) (pr_merge_sha pr) (lr_remote_target_sha e) = Inr True)"

text \<open>A pull request merged from this exact head; its merge commit is in the target and has the
  tree of the head.\<close>

definition rebased_proof :: "lifecycle_env \<Rightarrow> list_result \<Rightarrow> bool" where
  "rebased_proof env e \<longleftrightarrow>
     (\<exists>pr :: pull_request. pr_head_sha pr = lr_head_sha e \<and> IsGitObjectID (pr_merge_sha pr) \<and>
        env_ancestor env (lr_canonical_dir e) (pr_merge_sha pr) (lr_remote_target_sha e) = Inr True \<and>
        (\<exists>tree. CommitTree (env_git env) (lr_canonical_dir e) (lr_head_sha e) = Inr tree \<and>
           CommitTree (env_git env) (lr_canonical_dir e) (pr_merge_sha pr) = Inr tree))"

definition absorbed_proof :: "lifecycle_env \<Rightarrow> list_result \<Rightarrow> bool" where
  "absorbed_proof env e \<longleftrightarrow>
     (\<exists>landing. landed_in (lv_receipts env) (lr_canonical_dir e) (lr_head_sha e) landing (lr_remote_target_sha e))"

definition integration_proof :: "lifecycle_env \<Rightarrow> list_result \<Rightarrow> bool" where
  "integration_proof env e \<longleftrightarrow> contained_proof env e \<or> deleted_target_proof env e \<or> rebased_proof env e \<or> absorbed_proof env e"

lemmas integration_defs = integration_proof_def contained_proof_def deleted_target_proof_def rebased_proof_def absorbed_proof_def

definition residue_proof :: "lifecycle_env \<Rightarrow> list_result \<Rightarrow> bool" where
  "residue_proof env e \<longleftrightarrow>
     (\<exists>l. lr_landing e = Some l \<and> le_landed_sha l \<noteq> lr_head_sha e \<and>
        landed_in (lv_receipts env) (lr_canonical_dir e) (le_landed_sha l) (le_landing_sha l) (lr_remote_target_sha e))"

definition has_merge_time :: "pull_request option \<Rightarrow> bool" where
  "has_merge_time merged \<longleftrightarrow> (\<forall>pr. merged = Some pr \<longrightarrow> pr_merged pr \<noteq> None)"

definition inspected :: "lifecycle_env \<Rightarrow> inspection \<Rightarrow> list_result \<Rightarrow> bool" where
  "inspected env i r \<longleftrightarrow>
     lr_head_sha r = li_head i \<and> lr_canonical_dir r = li_canonical i \<and>
     (lr_integrated r \<longrightarrow> integration_proof env r) \<and> has_merge_time (lr_merged_pr r) \<and>
     (LandedWithResidue (lr_landing r) \<longrightarrow> residue_proof env r) \<and>
     \<not> lr_superseded r \<and> lr_supersession_rejection r = [] \<and> lr_merge_receipt_candidate_sha r = []"

section \<open>Pull requests carry their merge time\<close>

lemma has_merge_time_None [simp]: "has_merge_time None"
  by (simp add: has_merge_time_def)

lemma matching_step_time:
  assumes "has_merge_time (snd acc)" "matching_step repository base branch head acc c = acc'"
  shows "has_merge_time (snd acc')"
  using assms
  by (auto simp: matching_step_def has_merge_time_def candidate_pull_request_def Let_def split: prod.splits if_splits option.splits)

lemma MatchingPullRequests_time:
  "has_merge_time (snd (MatchingPullRequests prs repository base branch head))"
proof -
  have "has_merge_time (snd (foldl (matching_step repository base branch head) acc prs))" if "has_merge_time (snd acc)" for acc
    using that
  proof (induction prs arbitrary: acc)
    case (Cons c cs)
    then show ?case using matching_step_time [OF Cons.prems refl, of repository base branch head c] by simp
  qed simp
  from this [of "(None, None)"] show ?thesis unfolding MatchingPullRequests_def by simp
qed

lemma AbsorbingPullRequest_time:
  "has_merge_time (AbsorbingPullRequest prs base)"
proof -
  have "has_merge_time (foldl (absorbing_step base) acc prs)" if "has_merge_time acc" for acc
    using that
  proof (induction prs arbitrary: acc)
    case (Cons c cs)
    then have "has_merge_time (absorbing_step base acc c)"
      by (auto simp: absorbing_step_def has_merge_time_def split: option.splits if_splits)
    then show ?case using Cons.IH by simp
  qed simp
  from this [of None] show ?thesis unfolding AbsorbingPullRequest_def by simp
qed

lemma ResolveAbsorbedByPullRequest_time:
  "ResolveAbsorbedByPullRequest p worktree slug base number = Proved (landing, pr) \<Longrightarrow> has_merge_time pr"
  by (auto simp: ResolveAbsorbedByPullRequest_def MergedPullRequestReceipt_def has_merge_time_def Let_def split: sum.splits if_splits)

lemma ResolveAbsorbedBy_time:
  "ResolveAbsorbedBy p worktree repository slug base absorbedBy = Proved (landing, pr) \<Longrightarrow> has_merge_time pr"
  by (auto simp: ResolveAbsorbedBy_def Let_def has_merge_time_def dest: ResolveAbsorbedByPullRequest_time [unfolded has_merge_time_def]
      split: if_splits option.splits sum.splits prod.splits)

lemma attested_receipt_pr:
  "attested_by_pull_request p repository head base target absorbedBy landing pr = Proved receipt \<Longrightarrow> rc_pull_request receipt = Some pr"
  "attested_by_commit p repository head base target absorbedBy landing = Proved receipt \<Longrightarrow> rc_pull_request receipt = None"
  by (auto simp: attested_by_pull_request_def receipt_after_content_proof_Proved split: sum.splits if_splits)
    (auto simp: attested_by_commit_def Let_def split: sum.splits if_splits bool.splits)

lemma AttestedAbsorbedReceipt_time:
  assumes "AttestedAbsorbedReceipt p worktree repository slug head base target absorbedBy = Proved receipt"
  shows "has_merge_time (rc_pull_request receipt)"
proof -
  obtain landing pr where resolved: "ResolveAbsorbedBy p worktree repository slug base absorbedBy = Proved (landing, pr)"
    using assms by (auto simp: AttestedAbsorbedReceipt_def split: verdict.splits)
  have "rc_pull_request receipt = pr"
    using assms resolved attested_receipt_pr by (cases pr) (simp_all add: AttestedAbsorbedReceipt_def)
  then show ?thesis using ResolveAbsorbedBy_time [OF resolved] by simp
qed

lemma AbsorbedLandingReceipt_time:
  assumes "AbsorbedLandingReceipt p worktree repository slug head base target absorbedBy prs = Proved receipt"
  shows "has_merge_time (rc_pull_request receipt)"
proof (cases "absorbedBy = []")
  case True
  then have "rc_pull_request receipt = AbsorbingPullRequest prs base"
    using assms by (auto simp: AbsorbedLandingReceipt_def split: option.splits if_splits sum.splits bool.splits)
  then show ?thesis using AbsorbingPullRequest_time by simp
next
  case False
  then show ?thesis using assms AttestedAbsorbedReceipt_time by (simp add: AbsorbedLandingReceipt_def)
qed

section \<open>Landing with residue\<close>

lemma verify_candidate_landed:
  assumes "verify_candidate p worktree repository slug base target c = Inr (Some v)"
  shows "landed_in p repository c (vc_landing_sha v) target" "has_merge_time (vc_pull_request v)"
  using assms AbsorbedLandingReceipt_landed [of p worktree repository slug c base target "[]"]
    AbsorbedLandingReceipt_time [of p worktree repository slug c base target "[]"]
  by (auto simp: verify_candidate_def split: sum.splits verdict.splits)

lemma landing_candidates_landed:
  assumes "landing_candidates git verify repository target head depth truncated cs = Inr (Some l)" "le_landed_sha l \<noteq> []"
  shows "\<exists>v. verify (le_landed_sha l) = Inr (Some v) \<and> vc_landing_sha v = le_landing_sha l \<and> vc_pull_request v = le_pull_request l \<and>
    le_landed_sha l \<noteq> head"
  using assms by (induction cs) (auto split: if_splits sum.splits option.splits)

lemma landing_candidates_pr:
  assumes "landing_candidates git verify repository target head depth truncated cs = Inr (Some l)" "le_pull_request l = Some pr"
  shows "\<exists>c v. verify c = Inr (Some v) \<and> vc_pull_request v = Some pr"
  using assms
proof (induction cs)
  case (Cons c cs)
  show ?case
  proof (cases "c \<noteq> head \<and> (\<exists>v. verify c = Inr (Some v))")
    case True
    then obtain v where v: "c \<noteq> head" "verify c = Inr (Some v)" by blast
    then have "vc_pull_request v = Some pr" using Cons.prems by (auto split: sum.splits)
    with v(2) show ?thesis by blast
  next
    case False
    then show ?thesis using Cons by (auto split: if_splits sum.splits option.splits)
  qed
qed (auto split: if_splits)

lemma landingEvidence_landed:
  assumes "landingEvidence p worktree repository slug head base target depth = Inr (Some l)"
  shows "LandedWithResidue (Some l) \<Longrightarrow> le_landed_sha l \<noteq> head \<and> landed_in p repository (le_landed_sha l) (le_landing_sha l) target"
    and "has_merge_time (le_pull_request l)"
proof -
  obtain cs truncated d where c:
    "landing_candidates (r_Git p) (verify_candidate p worktree repository slug base target) repository target head d truncated cs = Inr (Some l)"
    using assms by (auto simp: landingEvidence_def LandingEvidenceFor_def Let_def split: if_splits sum.splits prod.splits)
  show "le_landed_sha l \<noteq> head \<and> landed_in p repository (le_landed_sha l) (le_landing_sha l) target" if "LandedWithResidue (Some l)"
  proof -
    have "le_landed_sha l \<noteq> []" using that by (simp add: LandedWithResidue_def)
    from landing_candidates_landed [OF c this] verify_candidate_landed(1) show ?thesis by metis
  qed
  show "has_merge_time (le_pull_request l)"
    using landing_candidates_pr [OF c] verify_candidate_landed(2) unfolding has_merge_time_def by metis
qed

section \<open>The stages of the inspection\<close>

lemma inspected_frame [simp]:
  "inspected env i (r\<lparr>lr_remote_head_sha := x\<rparr>) = inspected env i r"
  "inspected env i (r\<lparr>lr_remote_head_ancestor := b\<rparr>) = inspected env i r"
  "inspected env i (r\<lparr>lr_absorbed_by_rejection := x\<rparr>) = inspected env i r"
  "inspected env i (r\<lparr>lr_target_rejection := x\<rparr>) = inspected env i r"
  "inspected env i (r\<lparr>lr_integration_proof := x\<rparr>) = inspected env i r"
  by (simp_all add: inspected_def integration_defs residue_proof_def)

text \<open>What the choice of a target establishes.\<close>

definition judged :: "lifecycle_env \<Rightarrow> inspection \<Rightarrow> judged_target \<Rightarrow> bool" where
  "judged env i j \<longleftrightarrow>
     inspected env i (jt_result j) \<and> \<not> lr_integrated (jt_result j) \<and> lr_landing (jt_result j) = None \<and>
     (jt_default_receipt j \<longrightarrow> deleted_target_proof env ((jt_result j)\<lparr>lr_base := jt_base j\<rparr>)) \<and>
     (jt_retired_candidate j \<longrightarrow> contained_proof env (jt_result j))"

definition fresh :: "inspection \<Rightarrow> bool" where
  "fresh i \<longleftrightarrow>
     (let r = li_result i in
      lr_head_sha r = li_head i \<and> lr_canonical_dir r = li_canonical i \<and> \<not> lr_integrated r \<and> lr_merged_pr r = None \<and>
      lr_landing r = None \<and> \<not> lr_superseded r \<and> lr_supersession_rejection r = [] \<and> lr_merge_receipt_candidate_sha r = [])"

lemma match_pull_requests_fields:
  assumes "match_pull_requests slug base i prs r = r'"
  shows "has_merge_time (lr_merged_pr r')" "\<exists>opened merged. r' = r\<lparr>lr_open_pr := opened, lr_merged_pr := merged\<rparr>"
  using assms MatchingPullRequests_time [of prs slug base "li_branch i" "li_head i"]
  by (auto simp: match_pull_requests_def split: prod.splits)

lemma judge_by_commit_index_ok:
  assumes "judge_by_commit_index env i base r = Inr j"
    and "lr_head_sha r = li_head i \<and> lr_canonical_dir r = li_canonical i \<and> \<not> lr_integrated r \<and> lr_landing r = None \<and>
      \<not> lr_superseded r \<and> lr_supersession_rejection r = [] \<and> lr_merge_receipt_candidate_sha r = []"
  shows "judged env i j"
proof -
  obtain prs known where "j = \<lparr>jt_result = match_pull_requests (li_slug i) base i prs (r\<lparr>lr_head_unknown := \<not> known\<rparr>),
      jt_pull_requests = prs, jt_base = base, jt_default_receipt = False, jt_retired_candidate = False\<rparr>"
    using assms(1) by (auto simp: judge_by_commit_index_def split: sum.splits)
  then show ?thesis using assms(2) match_pull_requests_fields [of "li_slug i" base i prs "r\<lparr>lr_head_unknown := \<not> known\<rparr>"]
    by (auto simp: judged_def inspected_def LandedWithResidue_def)
qed

lemma select_exact_receipt:
  assumes "select_exact repository recorded dflt head acc cs = Inr (Some pr)"
    and "\<forall>q. acc = Some q \<longrightarrow> pr_head_sha q = head \<and> pr_base q = dflt \<and> IsGitObjectID (pr_merge_sha q) \<and> pr_merged q \<noteq> None"
  shows "pr_head_sha pr = head \<and> pr_base pr = dflt \<and> IsGitObjectID (pr_merge_sha pr) \<and> pr_merged pr \<noteq> None"
  using assms
proof (induction cs arbitrary: acc)
  case (Cons c cs)
  show ?case
  proof (cases "exact_deleted_target recorded dflt head c")
    case False
    then show ?thesis using Cons by simp
  next
    case True
    let ?q = "MergedPullRequestReceipt repository c"
    have q: "pr_head_sha ?q = head \<and> pr_base ?q = dflt \<and> IsGitObjectID (pr_merge_sha ?q) \<and> pr_merged ?q \<noteq> None"
      using True by (auto simp: exact_deleted_target_def MergedPullRequestReceipt_def)
    have "select_exact repository recorded dflt head (Some ?q) cs = Inr (Some pr)"
      using Cons.prems(1) True by (auto simp: Let_def split: option.splits if_splits)
    then show ?thesis using Cons.IH q by blast
  qed
qed simp

lemma ExactDeletedTarget_receipt:
  assumes "ExactDeletedTargetDefaultBranchReceipt p worktree repository recorded dflt head = Inr (Some pr)"
  shows "pr_head_sha pr = head \<and> pr_base pr = dflt \<and> IsGitObjectID (pr_merge_sha pr) \<and> pr_merged pr \<noteq> None"
  using assms select_exact_receipt [of repository recorded dflt head None _ pr]
  by (auto simp: ExactDeletedTargetDefaultBranchReceipt_def SelectExactDeletedTargetDefaultBranchReceipt_def split: if_splits sum.splits)

lemma retired_candidate_contained:
  assumes "findRetiredPrepareCandidateAcknowledgement env home canonical task worktree branch head base target = Inr (Some path)"
  shows "env_ancestor env canonical head target = Inr True"
  using assms
  by (auto simp: findRetiredPrepareCandidateAcknowledgement_def retired_candidate_proved_def
      split: if_splits receipt_scan.splits option.splits prod.splits sum.splits)

lemma judge_absent_target_ok:
  assumes "judge_absent_target env i err = Inr j" "fresh i"
  shows "judged env i j"
proof -
  obtain base target where b: "RemoteDefaultBranch (env_git env) (r_ValidBranch (lv_receipts env)) (li_canonical i) = Inr base"
      "judge_default_branch env i base target (absent_base_result i base target) = Inr j"
    using assms(1) by (auto simp: judge_absent_target_def and_then_Inr split: if_splits)
  define r where "r = absent_base_result i base target"
  have r: "lr_head_sha r = li_head i \<and> lr_canonical_dir r = li_canonical i \<and> \<not> lr_integrated r \<and> lr_landing r = None \<and>
      \<not> lr_superseded r \<and> lr_supersession_rejection r = [] \<and> lr_merge_receipt_candidate_sha r = []"
      "lr_merged_pr r = None" "lr_remote_target_sha r = target" "lr_recorded_base_state r = RecordedBaseAbsent"
    using assms(2) by (auto simp: r_def absent_base_result_def fresh_def Let_def)
  obtain ack where ack: "findRetiredPrepareCandidateAcknowledgement env (li_home i) (li_canonical i) (lr_task r) (li_worktree i)
        (li_branch i) (li_head i) base target = Inr ack"
      "(case ack of Some path \<Rightarrow>
          Inr \<lparr>jt_result = r\<lparr>lr_head_unknown := False, lr_retired_ack_path := path\<rparr>, jt_pull_requests = [], jt_base = base,
               jt_default_receipt = False, jt_retired_candidate = True\<rparr>
        | None \<Rightarrow> and_then (ExactDeletedTargetDefaultBranchReceipt (lv_receipts env) (li_worktree i) (li_slug i) (li_base i) base (li_head i))
            (judge_by_receipt env i base target r)) = Inr j"
    using b(2) unfolding r_def [symmetric] judge_default_branch_def and_then_Inr by blast
  show ?thesis
  proof (cases ack)
    case (Some path)
    then show ?thesis using ack r b retired_candidate_contained
      by (auto simp: judged_def inspected_def contained_proof_def has_merge_time_def LandedWithResidue_def)
  next
    case None
    then obtain receipt where receipt:
      "ExactDeletedTargetDefaultBranchReceipt (lv_receipts env) (li_worktree i) (li_slug i) (li_base i) base (li_head i) = Inr receipt"
      "judge_by_receipt env i base target r receipt = Inr j"
      using ack(2) by (auto simp: and_then_Inr)
    show ?thesis
    proof (cases "\<exists>pr. receipt = Some pr \<and> env_ancestor env (li_canonical i) (pr_merge_sha pr) target = Inr True")
      case True
      then obtain pr where pr: "receipt = Some pr" "env_ancestor env (li_canonical i) (pr_merge_sha pr) target = Inr True" by blast
      have "pr_head_sha pr = li_head i \<and> pr_base pr = base \<and> IsGitObjectID (pr_merge_sha pr) \<and> pr_merged pr \<noteq> None"
        using ExactDeletedTarget_receipt receipt(1) pr(1) by blast
      then show ?thesis using receipt(2) pr r b(1)
        by (auto simp: judge_by_receipt_def judged_def inspected_def deleted_target_proof_def has_merge_time_def LandedWithResidue_def)
    next
      case False
      then obtain msg where "judge_by_commit_index env i base (r\<lparr>lr_target_rejection := msg\<rparr>) = Inr j"
        using receipt(2) by (fastforce simp: judge_by_receipt_def split: option.splits sum.splits bool.splits)
      then show ?thesis using judge_by_commit_index_ok r(1) by fastforce
    qed
  qed
qed

text \<open>The fields the choice of a live target does not touch.\<close>

definition untouched :: "inspection \<Rightarrow> list_result \<Rightarrow> bool" where
  "untouched i s \<longleftrightarrow> lr_head_sha s = li_head i \<and> lr_canonical_dir s = li_canonical i \<and> \<not> lr_integrated s \<and> lr_landing s = None \<and>
     \<not> lr_superseded s \<and> lr_supersession_rejection s = [] \<and> lr_merge_receipt_candidate_sha s = []"

lemma matched_judged:
  assumes "untouched i s" "jt_result j = match_pull_requests slug base i prs s" "\<not> jt_default_receipt j" "\<not> jt_retired_candidate j"
  shows "judged env i j"
  using assms match_pull_requests_fields [OF assms(2) [symmetric]]
  by (auto simp: judged_def inspected_def untouched_def LandedWithResidue_def)

lemma untouched_match: "untouched i s \<Longrightarrow> untouched i (match_pull_requests slug base j prs s)"
  by (auto simp: match_pull_requests_def untouched_def split: prod.splits)

lemma judge_live_target_ok:
  assumes "judge_live_target env i target = Inr j" "fresh i"
  shows "judged env i j"
proof -
  obtain prs known where prs: "GitHubPullRequestsForCommit (lv_receipts env) (li_worktree i) (li_slug i) (li_head i) = Inr (prs, known)"
    using assms(1) by (auto simp: judge_live_target_def and_then_Inr)
  define s where "s = (li_result i)\<lparr>lr_remote_target_sha := target, lr_head_unknown := \<not> known\<rparr>"
  define m where "m = match_pull_requests (li_slug i) (li_base i) i prs s"
  have s: "untouched i s" using assms(2) by (auto simp: s_def untouched_def fresh_def Let_def)
  let ?stay = "\<lparr>jt_result = m, jt_pull_requests = prs, jt_base = li_base i, jt_default_receipt = False, jt_retired_candidate = False\<rparr>"
  consider (stay) "j = ?stay"
    | (moved) base sha where "j = ?stay\<lparr>jt_base := base, jt_result := match_pull_requests (li_slug i) base i prs
          (m\<lparr>lr_remote_target_sha := sha, lr_recorded_base := li_base i\<rparr>)\<rparr>"
    using assms(1) prs unfolding judge_live_target_def and_then_Inr Let_def s_def [symmetric] m_def [symmetric]
    by (auto simp: and_then_Inr s_def [symmetric] m_def [symmetric] split: if_split_asm option.split_asm)
  then show ?thesis
  proof cases
    case stay
    then show ?thesis using matched_judged [OF s] by (simp add: m_def)
  next
    case (moved base sha)
    have "untouched i (m\<lparr>lr_remote_target_sha := sha, lr_recorded_base := li_base i\<rparr>)"
      using untouched_match [OF s] by (simp add: m_def untouched_def)
    from matched_judged [OF this, of j] moved show ?thesis by simp
  qed
qed

lemma judge_target_ok: "judge_target env i = Inr j \<Longrightarrow> fresh i \<Longrightarrow> judged env i j"
  by (auto simp: judge_target_def split: sum.splits intro: judge_absent_target_ok judge_live_target_ok)

lemma ProvenDefaultTarget_contained:
  "ProvenDefaultTarget ports head base sha = Some t \<Longrightarrow> dt_IsAncestor ports head (dt_target_sha t) = Inr True"
  by (auto simp: ProvenDefaultTarget_def ResolveDefaultTarget_def Let_def split: sum.splits option.splits if_splits bool.splits)

lemma containment_proof_fields:
  "\<exists>msg. containment_proof i r = r\<lparr>lr_integration_proof := msg\<rparr> \<or> containment_proof i r = r"
  by (auto simp: containment_proof_def)

text \<open>A positive answer is a proof against the target the entry then records; a negative one
  leaves the entry as it was.\<close>

lemma judgeContainment_ok:
  assumes "judgeContainment env i r = Inr (c, r')" "inspected env i r" "\<not> lr_integrated r" "lr_landing r = None"
  shows "inspected env i r'" "\<not> lr_integrated r'" "lr_landing r' = None" "c \<Longrightarrow> contained_proof env r'" "\<not> c \<Longrightarrow> r' = r"
proof -
  consider (direct) "c" "env_ancestor env (li_canonical i) (li_head i) (lr_remote_target_sha r) = Inr True" "r' = containment_proof i r"
    | (no) "\<not> c" "r' = r"
    | (stand_in) t :: default_target where "c" "env_ancestor env (li_canonical i) (li_head i) (dt_target_sha t) = Inr True"
        "r' = containment_proof i (r\<lparr>lr_recorded_base := lr_base r, lr_recorded_base_state := dt_recorded_base_state t,
           lr_base := dt_target t, lr_remote_target_sha := dt_target_sha t\<rparr>)"
  proof (cases "env_ancestor env (li_canonical i) (li_head i) (lr_remote_target_sha r)")
    case (Inl err)
    then show ?thesis using assms(1) by (simp add: judgeContainment_def split: if_split_asm)
  next
    case (Inr answer)
    show ?thesis
    proof (cases "answer \<or> lr_recorded_base r \<noteq> [] \<or> ip_explicit_base (li_policy i)")
      case True
      then show ?thesis using assms(1) Inr that(1,2) by (cases answer) (auto simp: judgeContainment_def split: if_split_asm)
    next
      case False
      show ?thesis
      proof (cases "ProvenDefaultTarget (defaultTargetPorts env i) (li_head i) (lr_base r) (lr_remote_target_sha r)")
        case None
        then show ?thesis using assms(1) Inr False that(2) by (auto simp: judgeContainment_def split: if_split_asm)
      next
        case (Some t)
        then have anc: "env_ancestor env (li_canonical i) (li_head i) (dt_target_sha t) = Inr True"
          using ProvenDefaultTarget_contained by (fastforce simp: defaultTargetPorts_def)
        have cr: "c" "r' = containment_proof i (r\<lparr>lr_recorded_base := lr_base r, lr_recorded_base_state := dt_recorded_base_state t,
           lr_base := dt_target t, lr_remote_target_sha := dt_target_sha t\<rparr>)"
          using assms(1) Inr False Some by (auto simp: judgeContainment_def split: if_split_asm)
        show ?thesis by (rule that(3) [OF cr(1) anc cr(2)])
      qed
    qed
  qed
  then have "inspected env i r' \<and> \<not> lr_integrated r' \<and> lr_landing r' = None \<and> (c \<longrightarrow> contained_proof env r') \<and> (\<not> c \<longrightarrow> r' = r)"
  proof cases
    case direct
    then show ?thesis using assms(2-) containment_proof_fields [of i r]
      by (auto simp: inspected_def contained_proof_def LandedWithResidue_def)
  next
    case no
    then show ?thesis using assms(2-) by simp
  next
    case (stand_in t)
    let ?s = "r\<lparr>lr_recorded_base := lr_base r, lr_recorded_base_state := dt_recorded_base_state t,
           lr_base := dt_target t, lr_remote_target_sha := dt_target_sha t\<rparr>"
    show ?thesis using stand_in assms(2-) containment_proof_fields [of i ?s]
      by (auto simp: inspected_def contained_proof_def LandedWithResidue_def)
  qed
  then show "inspected env i r'" "\<not> lr_integrated r'" "lr_landing r' = None" "c \<Longrightarrow> contained_proof env r'" "\<not> c \<Longrightarrow> r' = r"
    by simp_all
qed

lemma read_remote_head_ok:
  assumes "read_remote_head env i r = Inr r'" "inspected env i r"
  shows "inspected env i r'"
  using assms by (auto simp: read_remote_head_def Let_def split: if_split_asm sum.split_asm)

lemma RebaseMerged_True:
  "RebaseMergedPullRequestIntegrated p repository head target merged = Inr True \<longleftrightarrow>
     (\<exists>pr. merged = Some pr \<and> pr_head_sha pr = head \<and> IsGitObjectID (pr_merge_sha pr) \<and>
        r_IsAncestor p repository (pr_merge_sha pr) target = Inr True \<and>
        (\<exists>tree. CommitTree (r_Git p) repository head = Inr tree \<and> CommitTree (r_Git p) repository (pr_merge_sha pr) = Inr tree))"
  by (auto simp: RebaseMergedPullRequestIntegrated_def split: option.splits sum.splits bool.splits)

lemma check_rebase_ok:
  assumes "check_rebase env i r = Inr r'" "inspected env i r"
  shows "inspected env i r'"
proof (cases "lr_integrated r")
  case False
  then obtain merged where m: "r' = r\<lparr>lr_rebase_merged := merged, lr_integrated := merged\<rparr>"
      "RebaseMergedPullRequestIntegrated (lv_receipts env) (li_canonical i) (li_head i) (lr_remote_target_sha r) (lr_merged_pr r) = Inr merged"
    using assms(1) by (auto simp: check_rebase_def split: sum.splits)
  have "rebased_proof env r'" if merged
    using m that assms(2)
    by (auto simp: RebaseMerged_True rebased_proof_def inspected_def)
  then show ?thesis using m(1) assms(2) False by (auto simp: inspected_def integration_proof_def residue_proof_def)
qed (use assms in \<open>simp add: check_rebase_def\<close>)

lemma check_absorbed_ok:
  assumes "check_absorbed env i prs r = Inr r'" "inspected env i r"
  shows "inspected env i r'"
proof (cases "lr_integrated r \<and> li_absorbed_by i = []")
  case False
  define v where "v = AbsorbedLandingReceipt (lv_receipts env) (li_worktree i) (li_canonical i) (li_slug i) (li_head i) (lr_base r)
      (lr_remote_target_sha r) (li_absorbed_by i) prs"
  have step: "check_absorbed env i prs r = (case v of
        Failed err \<Rightarrow> Inl err
      | Rejected rejection \<Rightarrow> Inr (r\<lparr>lr_absorbed_by_rejection := rejection\<rparr>)
      | NotProved \<Rightarrow> Inr (r\<lparr>lr_absorbed_by_rejection := []\<rparr>)
      | Proved receipt \<Rightarrow>
          Inr (r\<lparr>lr_absorbed_by_rejection := [], lr_absorbed := True, lr_absorbed_by_sha := rc_landing_sha receipt,
                lr_integrated := True,
                lr_merged_pr := (if lr_merged_pr r = None then rc_pull_request receipt else lr_merged_pr r)\<rparr>))"
    using False unfolding check_absorbed_def v_def by (simp only: if_False)
  show ?thesis
  proof (cases v)
    case (Proved receipt)
    have "landed_in (lv_receipts env) (li_canonical i) (li_head i) (rc_landing_sha receipt) (lr_remote_target_sha r)"
        "has_merge_time (rc_pull_request receipt)"
      using AbsorbedLandingReceipt_landed AbsorbedLandingReceipt_time Proved unfolding v_def by blast+
    moreover have "r' = r\<lparr>lr_absorbed_by_rejection := [], lr_absorbed := True, lr_absorbed_by_sha := rc_landing_sha receipt,
        lr_integrated := True, lr_merged_pr := (if lr_merged_pr r = None then rc_pull_request receipt else lr_merged_pr r)\<rparr>"
      using assms(1) step Proved by simp
    ultimately show ?thesis using assms(2)
      by (auto simp: inspected_def integration_proof_def absorbed_proof_def residue_proof_def)
  qed (use assms step in auto)
qed (use assms in \<open>simp add: check_absorbed_def\<close>)

lemma check_residue_ok:
  assumes "check_residue env i r = Inr r'" "inspected env i r"
  shows "inspected env i r'"
proof (cases "lr_integrated r \<or> \<not> ip_residue_evidence (li_policy i)")
  case False
  then obtain landing where l: "landingEvidence (lv_receipts env) (li_worktree i) (li_canonical i) (li_slug i) (li_head i) (lr_base r)
        (lr_remote_target_sha r) (ip_residue_depth (li_policy i)) = Inr landing"
    using assms(1) by (auto simp: check_residue_def split: sum.split_asm)
  define merged where "merged = (case Option.bind landing le_pull_request of
      Some pr \<Rightarrow> if lr_merged_pr r = None then Some pr else lr_merged_pr r | None \<Rightarrow> lr_merged_pr r)"
  have r': "r' = r\<lparr>lr_landing := landing, lr_merged_pr := merged\<rparr>"
    using assms(1) False l by (simp add: check_residue_def merged_def)
  have "LandedWithResidue landing \<longrightarrow> (\<exists>x. landing = Some x \<and> le_landed_sha x \<noteq> li_head i \<and>
      landed_in (lv_receipts env) (li_canonical i) (le_landed_sha x) (le_landing_sha x) (lr_remote_target_sha r))"
    and "has_merge_time (Option.bind landing le_pull_request)"
    using landingEvidence_landed l by (cases landing; force simp: LandedWithResidue_def)+
  moreover from this(2) have "has_merge_time merged"
    using assms(2) by (auto simp: merged_def inspected_def split: option.split)
  ultimately show ?thesis using r' assms(2) False by (auto simp: inspected_def residue_proof_def)
qed (use assms in \<open>auto simp: check_residue_def\<close>)

lemma checkGitHubIntegration_ok:
  assumes "checkGitHubIntegration env i = Inr r" "fresh i"
  shows "inspected env i r"
proof (cases "li_with_github i")
  case False
  then show ?thesis using assms by (auto simp: checkGitHubIntegration_def fresh_def inspected_def LandedWithResidue_def Let_def)
next
  case True
  then obtain j c r1 r2 r3 r4 r5 where j: "judge_target env i = Inr j"
      "judgeContainment env i ((jt_result j)\<lparr>lr_base := jt_base j\<rparr>) = Inr (c, r1)"
    and s: "read_remote_head env i (r1\<lparr>lr_integrated := c \<or> jt_default_receipt j \<or> jt_retired_candidate j,
          lr_locally_merged := c \<or> jt_default_receipt j \<or> jt_retired_candidate j\<rparr>) = Inr r2"
      "check_rebase env i r2 = Inr r3" "check_absorbed env i (jt_pull_requests j) r3 = Inr r4" "check_residue env i r4 = Inr r5"
    and r: "r = (if lr_integrated r5 then r5\<lparr>lr_target_rejection := []\<rparr> else r5)"
    using assms(1) by (auto simp: checkGitHubIntegration_def and_then_Inr Let_def)
  have jd: "judged env i j" using judge_target_ok [OF j(1) assms(2)] .
  let ?r0 = "(jt_result j)\<lparr>lr_base := jt_base j\<rparr>"
  have r0: "inspected env i ?r0" "\<not> lr_integrated ?r0" "lr_landing ?r0 = None"
    using jd by (auto simp: judged_def inspected_def LandedWithResidue_def)
  note c = judgeContainment_ok [OF j(2) r0]
  have "integration_proof env r1" if "c \<or> jt_default_receipt j \<or> jt_retired_candidate j"
    using that c(4,5) jd by (cases c) (auto simp: integration_proof_def judged_def contained_proof_def)
  then have "inspected env i (r1\<lparr>lr_integrated := c \<or> jt_default_receipt j \<or> jt_retired_candidate j,
          lr_locally_merged := c \<or> jt_default_receipt j \<or> jt_retired_candidate j\<rparr>)"
    using c(1,3) by (auto simp: inspected_def integration_defs LandedWithResidue_def)
  from check_residue_ok [OF s(4) check_absorbed_ok [OF s(3) check_rebase_ok [OF s(2) read_remote_head_ok [OF s(1) this]]]]
  show ?thesis unfolding r by simp
qed

end
