(* ===== verification/Worktree_Eligible_Props.thy ===== *)
theory Worktree_Eligible_Props
  imports Worktree_Eligible
begin

text \<open>
  The eligibility of a worktree for cleanup, end to end: from the inspection through the proofs a
  cleanup tries to the decision.
\<close>

section \<open>The proofs a cleanup tries\<close>

text \<open>A receipt of a worktree merge: the head is an ancestor of the candidate that was merged, the
  landing commit has the tree of the candidate and is in the target.\<close>

definition merge_receipt_proof :: "lifecycle_env \<Rightarrow> cleanup_request \<Rightarrow> list_result \<Rightarrow> bool" where
  "merge_receipt_proof env options e \<longleftrightarrow>
     (\<exists>q \<in> set (cq_merge_proofs options). same_source q e \<and>
        env_ancestor env (lr_canonical_dir e) (lr_head_sha e) (mp_candidate_sha q) = Inr True \<and>
        (\<exists>tree. env_git env (lr_canonical_dir e) [''rev-parse'', ''--verify'', mp_candidate_sha q @ ''^{tree}''] = Inr tree \<and>
           env_git env (lr_canonical_dir e) [''rev-parse'', ''--verify'', mp_landing_sha q @ ''^{tree}''] = Inr tree) \<and>
        env_ancestor env (lr_canonical_dir e) (mp_landing_sha q) (lr_remote_target_sha e) = Inr True)"

text \<open>An acknowledgement of an absorbed conflict: a merge receipt that names this task, worktree,
  branch and head has a valid acknowledgement, whose target is in the fetched one.\<close>

definition conflict_ack_proof :: "lifecycle_env \<Rightarrow> list_result \<Rightarrow> bool" where
  "conflict_ack_proof env e \<longleftrightarrow>
     (\<exists>files path r current. lv_merge_receipts env = Scanned files \<and> (path, Some r) \<in> set files \<and>
        ms_task (mg_candidate r) = lr_task e \<and> Clean (ms_worktree (mg_candidate r)) = Clean (lr_worktree_dir e) \<and>
        ms_branch (mg_candidate r) = lr_branch e \<and> ms_sha (mg_candidate r) = lr_head_sha e \<and>
        lv_conflict_ack env (path @ ConflictAckSuffix) r = Inr current \<and>
        env_ancestor env (lr_canonical_dir e) current (lr_remote_target_sha e) = Inr True)"

definition landing_established :: "lifecycle_env \<Rightarrow> cleanup_request \<Rightarrow> list_result \<Rightarrow> bool" where
  "landing_established env options e \<longleftrightarrow> integration_proof env e \<or> merge_receipt_proof env options e \<or> conflict_ack_proof env e"

definition supersession_accepted :: "lifecycle_env \<Rightarrow> cleanup_request \<Rightarrow> list_result \<Rightarrow> bool" where
  "supersession_accepted env options e \<longleftrightarrow>
     TrimSpace (cq_superseded_by options) \<noteq> [] \<and>
     (\<exists>entry s. lr_head_sha entry = lr_head_sha e \<and> lr_branch entry = lr_branch e \<and>
        lr_remote_target_sha entry = lr_remote_target_sha e \<and> lv_supersession env (cq_superseded_by options) entry = (Some s, []))"

lemma find_in: "List.find P xs = Some x \<Longrightarrow> x \<in> set xs \<and> P x"
  by (metis find_Some_iff nth_mem)

lemma mergeReceipt_accepted:
  assumes "mergeReceiptCleanupProofRejection env q e = []"
  shows "same_source q e \<and> env_ancestor env (lr_canonical_dir e) (mp_source_sha q) (mp_candidate_sha q) = Inr True \<and>
    (\<exists>tree. env_git env (lr_canonical_dir e) [''rev-parse'', ''--verify'', mp_candidate_sha q @ ''^{tree}''] = Inr tree \<and>
       env_git env (lr_canonical_dir e) [''rev-parse'', ''--verify'', mp_landing_sha q @ ''^{tree}''] = Inr tree) \<and>
    env_ancestor env (lr_canonical_dir e) (mp_landing_sha q) (lr_remote_target_sha e) = Inr True"
  using assms unfolding mergeReceiptCleanupProofRejection_def
  by (auto simp: missing_proof_field_def split: option.split_asm if_split_asm sum.split_asm bool.split_asm)

text \<open>The invariant of an entry after the proofs.\<close>

definition settled :: "lifecycle_env \<Rightarrow> cleanup_request \<Rightarrow> list_result \<Rightarrow> bool" where
  "settled env options e \<longleftrightarrow>
     (lr_integrated e \<longrightarrow> landing_established env options e) \<and> has_merge_time (lr_merged_pr e) \<and>
     (LandedWithResidue (lr_landing e) \<longrightarrow> residue_proof env e)"

lemma inspected_settled: "inspected env i r \<Longrightarrow> settled env options r"
  by (auto simp: inspected_def settled_def landing_established_def)

lemma applyMergeReceipt_settled:
  assumes "settled env options e"
  shows "settled env options (applyMergeReceiptCleanupProof env (cq_merge_proofs options) e)"
proof (cases "proof_of_worktree (cq_merge_proofs options) e")
  case (Some q)
  then have q: "q \<in> set (cq_merge_proofs options)" using find_in unfolding proof_of_worktree_def by fastforce
  show ?thesis
  proof (cases "mergeReceiptCleanupProofRejection env q e = []")
    case True
    have "merge_receipt_proof env options e"
      using mergeReceipt_accepted [OF True] q unfolding merge_receipt_proof_def same_source_def by metis
    then show ?thesis using assms Some True
      by (simp add: applyMergeReceiptCleanupProof_def settled_def landing_established_def merge_receipt_proof_def same_source_def residue_proof_def)
  next
    case False
    then show ?thesis using assms Some
      by (simp add: applyMergeReceiptCleanupProof_def settled_def landing_established_def merge_receipt_proof_def conflict_ack_proof_def
          same_source_def residue_proof_def integration_defs)
  qed
qed (use assms in \<open>simp add: applyMergeReceiptCleanupProof_def\<close>)

lemma findAbsorbedConflict_proof:
  assumes "findAbsorbedConflictCleanupProof env home canonical task worktree branch head target = Inr (Some (ack, sources), path)"
  shows "\<exists>files r current. lv_merge_receipts env = Scanned files \<and> (path, Some r) \<in> set files \<and>
    ms_task (mg_candidate r) = task \<and> Clean (ms_worktree (mg_candidate r)) = Clean worktree \<and>
    ms_branch (mg_candidate r) = branch \<and> ms_sha (mg_candidate r) = head \<and>
    lv_conflict_ack env (path @ ConflictAckSuffix) r = Inr current \<and> env_ancestor env canonical current target = Inr True"
proof -
  obtain files r where f: "lv_merge_receipts env = Scanned files" "List.find (conflict_matches task worktree) files = Some (path, Some r)"
      "validateAbsorbedConflictAcknowledgementSidecar env canonical path r branch head target = Some (ack, sources)"
    using assms by (auto simp: findAbsorbedConflictCleanupProof_def split: if_split_asm receipt_scan.split_asm option.split_asm)
  have "(path, Some r) \<in> set files" "ms_task (mg_candidate r) = task" "Clean (ms_worktree (mg_candidate r)) = Clean worktree"
    using find_in [OF f(2)] by (auto simp: conflict_matches_def)
  moreover obtain current where "ms_branch (mg_candidate r) = branch" "ms_sha (mg_candidate r) = head"
      "lv_conflict_ack env (path @ ConflictAckSuffix) r = Inr current" "env_ancestor env canonical current target = Inr True"
    using f(3) by (auto simp: validateAbsorbedConflictAcknowledgementSidecar_def split: if_split_asm sum.split_asm)
  ultimately show ?thesis using f(1) by blast
qed

lemma applyAck_settled:
  assumes "applyAbsorbedConflictAcknowledgementCleanupProof env home e = Inr e'" "settled env options e"
  shows "settled env options e'"
proof (cases "lr_integrated e \<or> lr_superseded e")
  case False
  then obtain found path where f: "findAbsorbedConflictCleanupProof env home (lr_canonical_dir e) (lr_task e) (lr_worktree_dir e)
        (lr_branch e) (lr_head_sha e) (lr_remote_target_sha e) = Inr (found, path)"
    using assms(1) by (auto simp: applyAbsorbedConflictAcknowledgementCleanupProof_def split: sum.split_asm)
  show ?thesis
  proof (cases found)
    case None
    then show ?thesis using assms f False
      by (auto simp: applyAbsorbedConflictAcknowledgementCleanupProof_def settled_def residue_proof_def)
  next
    case (Some proof_found)
    obtain ack sources where p: "proof_found = (ack, sources)" by fastforce
    have "conflict_ack_proof env e"
      using findAbsorbedConflict_proof [OF f [unfolded Some p]] unfolding conflict_ack_proof_def by blast
    moreover have "e' = e\<lparr>lr_conflict_receipt_path := path, lr_integrated := True, lr_absorbed := True,
        lr_conflict_ack_path := ack, lr_conflict_source_shas := sources\<rparr>"
      using assms(1) f False Some p by (simp add: applyAbsorbedConflictAcknowledgementCleanupProof_def)
    ultimately show ?thesis using assms(2)
      by (simp add: settled_def landing_established_def conflict_ack_proof_def residue_proof_def)
  qed
qed (use assms in \<open>auto simp: applyAbsorbedConflictAcknowledgementCleanupProof_def\<close>)

lemma applySupersession_settled:
  assumes "applySupersessionReceipt env (cq_superseded_by options) e = Some e'" "settled env options e" "\<not> lr_superseded e"
  shows "settled env options e' \<and> (lr_superseded e' \<longrightarrow> supersession_accepted env options e')"
proof -
  obtain receipt rejection where v: "lv_supersession env (cq_superseded_by options) e = (receipt, rejection)" by fastforce
  have frame: "settled env options (e\<lparr>lr_supersession_rejection := x, lr_superseded := b\<rparr>)"
    "settled env options (e\<lparr>lr_superseded := b, lr_supersession_receipt := x1, lr_supersession_reviewer := x2,
       lr_supersession_receipt_id := x3, lr_supersession_rejection := x4\<rparr>)" for x b x1 x2 x3 x4
    using assms(2)
    by (simp_all add: settled_def landing_established_def merge_receipt_proof_def conflict_ack_proof_def same_source_def
        residue_proof_def integration_defs)
  show ?thesis
  proof (cases "TrimSpace (cq_superseded_by options) = []")
    case True
    then show ?thesis using assms by (simp add: applySupersessionReceipt_def)
  next
    case False
    show ?thesis
    proof (cases "rejection = []")
      case True
      then obtain s where "receipt = Some s" "e' = e\<lparr>lr_superseded := True, lr_supersession_receipt := cq_superseded_by options,
          lr_supersession_reviewer := se_reviewer s, lr_supersession_receipt_id := se_receipt_id s, lr_supersession_rejection := []\<rparr>"
        using assms(1) v False by (auto simp: applySupersessionReceipt_def)
      moreover from this have "supersession_accepted env options e'"
        using v True False unfolding supersession_accepted_def
        by (intro conjI exI [of _ e] exI [of _ s]) (simp_all)
      ultimately show ?thesis using frame(2) by simp
    next
      case rejected: False
      then show ?thesis using assms(1) v False frame(1) by (auto simp: applySupersessionReceipt_def)
    qed
  qed
qed

lemma applyMergeReceipt_superseded:
  "lr_superseded (applyMergeReceiptCleanupProof env proofs e) = lr_superseded e"
  by (simp add: applyMergeReceiptCleanupProof_def Let_def split: option.split)

lemma applyAck_superseded:
  "applyAbsorbedConflictAcknowledgementCleanupProof env home e = Inr e' \<Longrightarrow> lr_superseded e' = lr_superseded e"
  by (auto simp: applyAbsorbedConflictAcknowledgementCleanupProof_def Let_def split: if_split_asm sum.split_asm option.split_asm)

lemma apply_cleanup_proofs_settled:
  assumes "apply_cleanup_proofs env home options e0 = Some (Inr e)" "settled env options e0" "\<not> lr_superseded e0"
  shows "settled env options e \<and> (lr_superseded e \<longrightarrow> supersession_accepted env options e)"
proof -
  let ?m = "applyMergeReceiptCleanupProof env (cq_merge_proofs options) e0"
  obtain a where a: "applyAbsorbedConflictAcknowledgementCleanupProof env home ?m = Inr a"
      "applySupersessionReceipt env (cq_superseded_by options) a = Some e"
    using assms(1) by (auto simp: apply_cleanup_proofs_def split: sum.split_asm)
  have "settled env options a" "\<not> lr_superseded a"
    using applyAck_settled [OF a(1) applyMergeReceipt_settled [OF assms(2)]] applyAck_superseded [OF a(1)] assms(3)
    by (simp_all add: applyMergeReceipt_superseded)
  then show ?thesis using applySupersession_settled [OF a(2)] by blast
qed

section \<open>The inspection starts fresh\<close>

lemma fresh_override:
  "lr_head_sha r = li_head i \<Longrightarrow> lr_canonical_dir r = li_canonical i \<Longrightarrow> \<not> lr_integrated r \<Longrightarrow> lr_merged_pr r = None \<Longrightarrow> lr_landing r = None \<Longrightarrow>
     \<not> lr_superseded r \<Longrightarrow> lr_supersession_rejection r = [] \<Longrightarrow> lr_merge_receipt_candidate_sha r = [] \<Longrightarrow> fresh (with_target_override env i r)"
  by (simp add: with_target_override_def fresh_def Let_def)

text \<open>The fields that the facts of a fresh inspection are about, of the result it starts with.\<close>

lemma initial_override_fresh:
  "fresh (with_target_override env (located\<lparr>li_branch := branch, li_head := head, li_base := base\<rparr>)
     (initial_result located branch head clean verdict lock))"
  by (cases verdict; cases lock) (simp add: fresh_override initial_result_def zero_result_def)

lemma inspectState_fresh:
  assumes "inspectState env located = Inr i"
  shows "fresh i"
  using assms unfolding inspectState_def Let_def and_then_def
  by (auto simp: initial_override_fresh split: sum.split_asm if_split_asm)

lemma inspect_settled:
  assumes "inspectLifecycleWorktree env located = Inr e"
  shows "settled env options e" "\<not> lr_superseded e"
proof -
  obtain i where i: "inspectState env located = Inr i" "checkGitHubIntegration env i = Inr e"
    using assms by (auto simp: inspectLifecycleWorktree_def and_then_Inr split: option.split_asm)
  have "inspected env i e" using checkGitHubIntegration_ok [OF i(2) inspectState_fresh [OF i(1)]] .
  then show "settled env options e" "\<not> lr_superseded e" using inspected_settled by (auto simp: inspected_def)
qed

section \<open>Properties\<close>

lemma eligible_facts:
  assumes "cleanupSafetyEligibility e olderThan now allow = Some (True, reason)"
  shows "\<not> lr_locked e \<and> lr_clean e \<and> lr_open_pr e = None \<and>
    (lr_superseded e \<or> lr_integrated e \<or> allow \<and> LandedWithResidue (lr_landing e))"
  using assms unfolding cleanupSafetyEligibility_def Let_def by (auto split: if_split_asm)

lemma undecided_nil:
  assumes "cleanupSafetyEligibility e olderThan now allow = None"
  shows "\<exists>pr. lr_merged_pr e = Some pr \<and> pr_merged pr = None"
  using assms unfolding cleanupSafetyEligibility_def Let_def by (auto split: if_split_asm option.split_asm)

text \<open>
  A worktree is eligible for removal only with evidence. Whenever the inspection of a worktree
  and the proofs of a cleanup end in the verdict eligible, the worktree is not locked, is clean
  and has no open pull request, and one of the following was established against the target that
  was fetched: the head is contained in it; the recorded base was deleted after its pull request
  from this exact head was merged into the target; a merged pull request from this head has the
  same tree and is in the target; some commit of the target carries all of the work and the
  target still does; the receipt of a worktree merge or of an acknowledged conflict names exactly
  this head; a reviewed supersession was accepted; or the user allowed residue, and an ancestor
  of the head is proved to have landed.
\<close>

lemma eligible_worktree_proved:
  assumes "inspectLifecycleWorktree env located = Inr e0" "apply_cleanup_proofs env home options e0 = Some (Inr e)"
    and "cleanupEligibility e options now = Some (True, reason)"
  shows "\<not> lr_locked e \<and> lr_clean e \<and> lr_open_pr e = None \<and>
    (supersession_accepted env options e \<or> landing_established env options e \<or> cq_allow_residue options \<and> residue_proof env e)"
proof -
  have s: "settled env options e" "lr_superseded e \<longrightarrow> supersession_accepted env options e"
    using apply_cleanup_proofs_settled [OF assms(2) inspect_settled [OF assms(1)]] by auto
  obtain r where "cleanupSafetyEligibility e (cq_older_than options) now (cq_allow_residue options) = Some (True, r)"
    using assms(3) by (auto simp: cleanupEligibility_def split: option.split_asm prod.split_asm bool.split_asm)
  from eligible_facts [OF this] s show ?thesis by (auto simp: settled_def)
qed

text \<open>
  C34: the decision never dereferences nil. Every entry that an inspection and the proofs of a
  cleanup can produce has a merge time in its merged pull request, wherever that pull request
  came from, so that the safety window can be compared with it: the decision is always made.
\<close>

theorem eligibility_always_decided:
  assumes "inspectLifecycleWorktree env located = Inr e0" "apply_cleanup_proofs env home options e0 = Some (Inr e)"
  shows "\<exists>eligible reason. cleanupEligibility e options now = Some (eligible, reason)"
proof -
  have "has_merge_time (lr_merged_pr e)"
    using apply_cleanup_proofs_settled [OF assms(2) inspect_settled [OF assms(1)]] by (simp add: settled_def)
  then have "cleanupSafetyEligibility e (cq_older_than options) now (cq_allow_residue options) \<noteq> None"
    using undecided_nil unfolding has_merge_time_def by blast
  then obtain verdict r where "cleanupSafetyEligibility e (cq_older_than options) now (cq_allow_residue options) = Some (verdict, r)"
    by fastforce
  then show ?thesis by (cases verdict) (auto simp: cleanupEligibility_def)
qed

text \<open>
  C35: the one way past a remote branch that advanced. Let a cleanup be asked to delete the remote branch
  of a worktree, and let that branch be at a commit that is not the local head, nor one of its
  ancestors, nor the candidate of a merge receipt. Whatever else the entry says, it is eligible if and
  only if residue is allowed and the entry landed with residue, is not integrated, superseded or
  detached, and is unlocked, clean, without an open pull request and without a refused receipt. Every
  other path to a verdict refuses it; this one does not look at the remote branch.
\<close>

theorem residue_ignores_remote_head:
  assumes "cq_delete_remote options" "lr_remote_head_sha e \<noteq> []" "lr_remote_head_sha e \<noteq> lr_head_sha e"
    and "\<not> lr_remote_head_ancestor e" "lr_remote_head_sha e \<noteq> lr_merge_receipt_candidate_sha e"
  shows "(\<exists>reason. cleanupEligibility e options now = Some (True, reason)) \<longleftrightarrow>
    cq_allow_residue options \<and> LandedWithResidue (lr_landing e) \<and> \<not> lr_integrated e \<and> \<not> lr_superseded e \<and> \<not> lr_detached e \<and>
    \<not> lr_locked e \<and> lr_clean e \<and> lr_open_pr e = None \<and> lr_supersession_rejection e = []"
proof -
  have "(\<exists>reason. cleanupEligibility e options now = Some (True, reason)) \<longleftrightarrow>
      (\<exists>reason. cleanupSafetyEligibility e (cq_older_than options) now (cq_allow_residue options) = Some (True, reason))"
    using assms(1) by (auto simp: cleanupEligibility_def split: option.split prod.split bool.split)
  also have "\<dots> \<longleftrightarrow> cq_allow_residue options \<and> LandedWithResidue (lr_landing e) \<and> \<not> lr_integrated e \<and> \<not> lr_superseded e \<and> \<not> lr_detached e \<and>
    \<not> lr_locked e \<and> lr_clean e \<and> lr_open_pr e = None \<and> lr_supersession_rejection e = []"
    using assms(2-5) by (auto simp: cleanupSafetyEligibility_def Let_def split: if_split_asm)
  finally show ?thesis .
qed

section \<open>Witnesses\<close>

definition sample_head :: string where
  "sample_head = replicate 40 (CHR ''a'')"

definition sample_target :: string where
  "sample_target = replicate 40 (CHR ''b'')"

text \<open>A worktree on the branch x at a commit that the target contains; its pull request was merged
  at time 5, and its remote branch is gone.\<close>

definition sample_receipts :: receipt_ports where
  "sample_receipts =
     \<lparr>r_Git = (\<lambda>_ args. if hd args = ''branch'' then Inr ''x'' else if args = [''rev-parse'', ''HEAD''] then Inr sample_head else Inr []),
      r_IsAncestor = (\<lambda>_ c d. Inr (c = sample_head \<and> d = sample_target)),
      r_ValidBranch = (\<lambda>_. True),
      r_GitHubExecute = (\<lambda>_ _. \<lparr>gc_stdout = [], gc_stderr = [], gc_err = None\<rparr>),
      r_GitHubGet = (\<lambda>_. Inl []),
      r_MergeTreeRun = (\<lambda>_ _ _. \<lparr>mr_stdout = [], mr_stderr = [], mr_exit = 1, mr_err = None, mr_ctx_done = False\<rparr>),
      r_decode_pulls = (\<lambda>_. Inr
        [\<lparr>gh_number = 7, gh_url = [], gh_state = ''closed'', gh_base = \<lparr>ghr_ref = ''main'', ghr_sha = [], ghr_repo = Some ''a/b''\<rparr>,
          gh_head = \<lparr>ghr_ref = ''x'', ghr_sha = sample_head, ghr_repo = Some ''a/b''\<rparr>, gh_merge_commit_sha = sample_head, gh_merged_at = Some 5\<rparr>]),
      r_decode_pull = (\<lambda>_. Inl []), r_decode_failure = (\<lambda>_. None)\<rparr>"

definition sample_env :: lifecycle_env where
  "sample_env =
     \<lparr>lv_receipts = sample_receipts, lv_fetch = (\<lambda>_ _. Inr sample_target), lv_merge_receipts = ScanMissing,
      lv_conflict_ack = (\<lambda>_ _. Inl []), lv_retired_ack = (\<lambda>_ _. Inl []), lv_supersession = (\<lambda>_ _. (None, ''none'')),
      lv_clean_worktree = (\<lambda>_. Inr True), lv_parse_time = (\<lambda>_. Inr 3), lv_diagnose_lock = (\<lambda>_. ([], 0)), lv_ownership = (\<lambda>_. None)\<rparr>"

definition sample_located :: inspection where
  "sample_located =
     \<lparr>li_home = ''/h'', li_task = ''t'', li_worktree = ''/w'', li_worktrees_root = ''/'', li_local = False, li_external = False,
      li_locked = False, li_base = ''main'', li_caller_base = ''main'', li_absorbed_by = [], li_with_github = True,
      li_policy = \<lparr>ip_include_detached = False, ip_merge_proofs = [], ip_residue_evidence = False, ip_residue_depth = 0, ip_explicit_base = False\<rparr>,
      li_slug = ''a/b'', li_canonical = ''/c'', li_branch = [], li_head = [], li_result = zero_result\<rparr>"

definition sample_request :: "duration \<Rightarrow> cleanup_request" where
  "sample_request window = \<lparr>cq_older_than = window, cq_allow_residue = False, cq_require_remote = True, cq_delete_remote = False,
     cq_superseded_by = [], cq_merge_proofs = []\<rparr>"

definition sample_settled :: "list_result \<times> list_result" where
  "sample_settled =
     (case inspectLifecycleWorktree sample_env sample_located of
        Inr e0 \<Rightarrow> (case apply_cleanup_proofs sample_env ''/h'' (sample_request 0) e0 of Some (Inr e) \<Rightarrow> (e0, e) | _ \<Rightarrow> (zero_result, zero_result))
      | Inl _ \<Rightarrow> (zero_result, zero_result))"

abbreviation sample_entry :: list_result where
  "sample_entry \<equiv> snd sample_settled"

lemma sample_entry_facts:
  "lr_head_sha sample_entry = sample_head \<and> lr_integrated sample_entry \<and> lr_merged_pr sample_entry \<noteq> None \<and>
   cleanupEligibility sample_entry (sample_request 0) 8 = Some (True, []) \<and>
   cleanupEligibility sample_entry (sample_request 10) 8 \<noteq> Some (True, [])"
  by code_simp

lemma sample_entry_runs:
  "inspectLifecycleWorktree sample_env sample_located = Inr (fst sample_settled)"
  "apply_cleanup_proofs sample_env ''/h'' (sample_request 0) (fst sample_settled) = Some (Inr sample_entry)"
proof -
  have "lr_integrated sample_entry" using sample_entry_facts by blast
  then obtain e0 e where "inspectLifecycleWorktree sample_env sample_located = Inr e0"
      "apply_cleanup_proofs sample_env ''/h'' (sample_request 0) e0 = Some (Inr e)"
    by (auto simp: sample_settled_def zero_result_def split: sum.split_asm option.split_asm)
  then show "inspectLifecycleWorktree sample_env sample_located = Inr (fst sample_settled)"
    "apply_cleanup_proofs sample_env ''/h'' (sample_request 0) (fst sample_settled) = Some (Inr sample_entry)"
    by (simp_all add: sample_settled_def)
qed

lemma sample_request_window: "apply_cleanup_proofs env home (sample_request a) e = apply_cleanup_proofs env home (sample_request b) e"
  by (simp add: apply_cleanup_proofs_def sample_request_def split: sum.split)

theorem eligibility_always_decided_witness:
  "lr_merged_pr sample_entry \<noteq> None \<and> (\<exists>reason. cleanupEligibility sample_entry (sample_request 10) 8 = Some (False, reason))"
proof -
  have "apply_cleanup_proofs sample_env ''/h'' (sample_request 10) (fst sample_settled) = Some (Inr sample_entry)"
    using sample_entry_runs(2) sample_request_window by metis
  from eligibility_always_decided [OF sample_entry_runs(1) this, of 8]
  obtain eligible reason where "cleanupEligibility sample_entry (sample_request 10) 8 = Some (eligible, reason)" by blast
  moreover from this have "\<not> eligible" using sample_entry_facts
    by (auto simp: cleanupEligibility_def split: option.split_asm prod.split_asm bool.split_asm if_split_asm)
  ultimately show ?thesis using sample_entry_facts by simp
qed

text \<open>An entry whose earlier commit landed, and whose remote branch has moved to the target's commit.\<close>

definition sample_residue :: list_result where
  "sample_residue = zero_result\<lparr>lr_clean := True, lr_head_sha := sample_head,
     lr_landing := Some \<lparr>le_landed_sha = sample_target, le_landing_sha = sample_target, le_pull_request = None,
       le_residue = [\<lparr>rs_sha = sample_head, rs_subject = ''more''\<rparr>], le_truncated = False\<rparr>\<rparr>"

theorem residue_ignores_remote_head_witness:
  "\<exists>reason. cleanupEligibility (sample_residue\<lparr>lr_remote_head_sha := sample_target\<rparr>)
     ((sample_request 0)\<lparr>cq_allow_residue := True, cq_delete_remote := True\<rparr>) 8 = Some (True, reason)"
  by (subst residue_ignores_remote_head)
    (simp_all add: sample_residue_def zero_result_def sample_request_def LandedWithResidue_def sample_target_def sample_head_def)

end
