(* ===== verification/Worktree_Plan_Props.thy ===== *)
theory Worktree_Plan_Props
  imports Worktree_Order Worktree_Eligible_Props
begin

text \<open>
  What the plan of a cleanup refuses, and in which order it applies the rest. The rules that block
  whole tasks and hold bases compute the least set of refused results that is closed under them;
  the order of the tasks puts everything stacked on a branch before the task that owns it.
\<close>

section \<open>What is refused\<close>

definition diagnosed :: "cleanup_inventory \<Rightarrow> worktree_result \<Rightarrow> bool" where
  "diagnosed listed r \<longleftrightarrow>
     (\<exists>d \<in> set (ci_diagnostics listed).
        Clean (ld_path d) \<notin> set (map (\<lambda>b. Clean (bl_worktree_dir b)) (ci_backlog listed)) \<and> ld_task d \<noteq> [] \<and>
        cleanupTaskKey (ld_worktrees_root d) (ld_task d) \<in>
          {cleanupTaskKey (lr_worktrees_root (wr_entry r)) (wr_task r), cleanupTaskKey [] (wr_task r)})"

definition artifact_blocked :: "lifecycle_artifact list \<Rightarrow> worktree_result \<Rightarrow> bool" where
  "artifact_blocked artifacts r \<longleftrightarrow>
     (\<exists>a \<in> set artifacts. \<not> la_non_blocking a \<and> \<not> la_eligible a \<and> la_kind a \<noteq> TaskNamespaceKind \<and>
        cleanupTaskKey (la_worktrees_root a) (la_task a) = cleanupTaskKey (lr_worktrees_root (wr_entry r)) (wr_task r))"

definition live_below :: "plan_env \<Rightarrow> cleanup_inventory \<Rightarrow> string \<Rightarrow> bool" where
  "live_below env listed task \<longleftrightarrow> (\<exists>child \<in> set (live_efforts env (ci_worktrees_roots listed)). IsAncestorEffort task child)"

definition barred :: "plan_env \<Rightarrow> cleanup_inventory \<Rightarrow> lifecycle_artifact list \<Rightarrow> worktree_result \<Rightarrow> bool" where
  "barred env listed artifacts r \<longleftrightarrow>
     \<not> wr_eligible r \<or> diagnosed listed r \<or> artifact_blocked artifacts r \<or> live_below env listed (wr_task r)"

text \<open>A result is refused for itself, for a result of its own task, or for one stacked on its branch.\<close>

inductive refused :: "(worktree_result \<Rightarrow> bool) \<Rightarrow> worktree_result list \<Rightarrow> nat \<Rightarrow> bool"
  for bar :: "worktree_result \<Rightarrow> bool" and rows :: "worktree_result list" where
  refused_itself: "i < length rows \<Longrightarrow> bar (rows ! i) \<Longrightarrow> refused bar rows i"
| refused_mate: "refused bar rows j \<Longrightarrow> i < length rows \<Longrightarrow> wr_task (rows ! i) = wr_task (rows ! j) \<Longrightarrow> refused bar rows i"
| refused_base: "refused bar rows j \<Longrightarrow> i < length rows \<Longrightarrow> is_base_of (rows ! i) (rows ! j) \<Longrightarrow> refused bar rows i"

lemma refused_length: "refused bar rows i \<Longrightarrow> i < length rows"
  by (induction rule: refused.induct)

section \<open>Reasons by key\<close>

definition collect :: "('a \<Rightarrow> bool) \<Rightarrow> ('a \<Rightarrow> string) \<Rightarrow> ('a \<Rightarrow> string) \<Rightarrow> (string \<rightharpoonup> string) \<Rightarrow> 'a \<Rightarrow> (string \<rightharpoonup> string)" where
  "collect P key v m x = (if P x then first_reason (key x) (v x) m else m)"

definition no_empty :: "(string \<rightharpoonup> string) \<Rightarrow> bool" where
  "no_empty m \<longleftrightarrow> [] \<notin> ran m"

lemma reason_at_dom: "no_empty m \<Longrightarrow> reason_at m k \<noteq> [] \<longleftrightarrow> k \<in> dom m"
  by (auto simp: no_empty_def reason_at_def dom_def ran_def split: option.splits)

lemma collect_step:
  assumes "v x \<noteq> []" "no_empty m"
  shows "no_empty (collect P key v m x)" "dom (collect P key v m x) = dom m \<union> key ` {y. y = x \<and> P y}"
  using assms by (auto simp: collect_def first_reason_def no_empty_def reason_at_def ran_def split: if_splits option.splits)

lemma collect_all:
  assumes "\<And>x. v x \<noteq> []" "no_empty m"
  shows "no_empty (foldl (collect P key v) m xs) \<and> dom (foldl (collect P key v) m xs) = dom m \<union> key ` {x \<in> set xs. P x}"
  using assms(2)
proof (induction xs arbitrary: m)
  case (Cons x xs)
  note step = collect_step [of v x m P key, OF assms(1) Cons.prems]
  from Cons.IH [OF step(1)] step(2) show ?case by auto
qed simp

lemma collect_empty: "no_empty Map.empty"
  by (simp add: no_empty_def)

lemma diagnosed_reasons:
  "k \<in> dom (foldl (diagnostic_reason B) Map.empty ds) \<longleftrightarrow>
     (\<exists>d \<in> set ds. Clean (ld_path d) \<notin> B \<and> ld_task d \<noteq> [] \<and> cleanupTaskKey (ld_worktrees_root d) (ld_task d) = k)"
proof -
  have "diagnostic_reason B = collect (\<lambda>d. Clean (ld_path d) \<notin> B \<and> ld_task d \<noteq> [])
      (\<lambda>d. cleanupTaskKey (ld_worktrees_root d) (ld_task d)) (\<lambda>d. ld_path d @ '': '' @ ld_message d)"
    by (simp add: diagnostic_reason_def collect_def fun_eq_iff)
  then show ?thesis
    using collect_all [OF _ collect_empty, of "\<lambda>d. ld_path d @ '': '' @ ld_message d" "\<lambda>d. Clean (ld_path d) \<notin> B \<and> ld_task d \<noteq> []"
        "\<lambda>d. cleanupTaskKey (ld_worktrees_root d) (ld_task d)" ds] by auto
qed

lemma artifact_reasons:
  "reason_at (foldl artifact_reason Map.empty artifacts) k \<noteq> [] \<longleftrightarrow>
     (\<exists>a \<in> set artifacts. \<not> la_non_blocking a \<and> \<not> la_eligible a \<and> la_kind a \<noteq> TaskNamespaceKind \<and>
        cleanupTaskKey (la_worktrees_root a) (la_task a) = k)"
proof -
  let ?P = "\<lambda>a. \<not> la_non_blocking a \<and> \<not> la_eligible a \<and> la_kind a \<noteq> TaskNamespaceKind"
    and ?key = "\<lambda>a. cleanupTaskKey (la_worktrees_root a) (la_task a)" and ?v = "\<lambda>a. la_path a @ '': '' @ la_reason a"
  have "artifact_reason = collect ?P ?key ?v"
    by (auto simp: artifact_reason_def collect_def fun_eq_iff)
  then show ?thesis
    using collect_all [OF _ collect_empty, of ?v ?P ?key artifacts] reason_at_dom [of "foldl artifact_reason Map.empty artifacts" k] by auto
qed

lemma unsafe_reasons:
  "reason_at (foldl unsafe_reason Map.empty results) task \<noteq> [] \<longleftrightarrow> (\<exists>r \<in> set results. \<not> wr_eligible r \<and> wr_task r = task)"
proof -
  let ?v = "\<lambda>r. lr_repository (wr_entry r) @ '': '' @ wr_reason r"
  have "unsafe_reason = collect (\<lambda>r. \<not> wr_eligible r) wr_task ?v"
    by (auto simp: unsafe_reason_def collect_def fun_eq_iff)
  then show ?thesis
    using collect_all [OF _ collect_empty, of ?v "\<lambda>r. \<not> wr_eligible r" wr_task results]
      reason_at_dom [of "foldl unsafe_reason Map.empty results" task] by auto
qed

section \<open>One stage of the plan\<close>

text \<open>A stage changes eligibility and reason only, and only takes eligibility away.\<close>

definition static :: "worktree_result \<Rightarrow> worktree_result" where
  "static r = r\<lparr>wr_eligible := False, wr_reason := []\<rparr>"

definition narrows :: "worktree_result list \<Rightarrow> worktree_result list \<Rightarrow> bool" where
  "narrows rows rows' \<longleftrightarrow>
     map static rows' = map static rows \<and> (\<forall>i < length rows. wr_eligible (rows' ! i) \<longrightarrow> wr_eligible (rows ! i))"

lemma static_block [simp]: "static (block reason r) = static r"
  by (simp add: static_def block_def)

lemma static_fields:
  assumes "static r = static r'"
  shows "wr_entry r = wr_entry r'" "wr_backlog_id r = wr_backlog_id r'"
  using arg_cong [OF assms, of wr_entry] arg_cong [OF assms, of wr_backlog_id] by (simp_all add: static_def)

lemma is_base_of_static: "static a = static a' \<Longrightarrow> static b = static b' \<Longrightarrow> is_base_of a b = is_base_of a' b'"
  using static_fields [of a a'] static_fields [of b b'] by (simp add: is_base_of_def)

lemma narrows_refl [simp]: "narrows rows rows"
  by (simp add: narrows_def)

lemma narrows_length: "narrows rows rows' \<Longrightarrow> length rows' = length rows"
  unfolding narrows_def by (metis length_map)

lemma narrows_nth: "narrows rows rows' \<Longrightarrow> i < length rows \<Longrightarrow> static (rows' ! i) = static (rows ! i)"
  unfolding narrows_def by (metis length_map nth_map)

lemma narrows_entry: "narrows rows rows' \<Longrightarrow> i < length rows \<Longrightarrow> wr_entry (rows' ! i) = wr_entry (rows ! i)"
  using narrows_nth static_fields(1) by blast

lemma narrows_trans: "narrows rows rows' \<Longrightarrow> narrows rows' rows'' \<Longrightarrow> narrows rows rows''"
  unfolding narrows_def by (metis length_map)

lemma narrows_map:
  assumes "\<And>r. static (f r) = static r" "\<And>r. wr_eligible (f r) \<Longrightarrow> wr_eligible r"
  shows "narrows rows (map f rows)"
  using assms by (simp add: narrows_def)

lemma narrows_stages:
  "narrows rows (blockDiagnosedTasks B ds rows)" "narrows rows (blockArtifactTasks artifacts rows)"
  "narrows rows (blockUnsafeTasks rows)" "narrows rows (blockEffortsWithLiveDescendants env roots rows)"
  unfolding blockDiagnosedTasks_def blockArtifactTasks_def blockUnsafeTasks_def blockEffortsWithLiveDescendants_def
  by (auto intro!: narrows_map simp: block_diagnosed_def block_artifact_def block_unsafe_def block_effort_def Let_def
      split: option.splits if_splits)

lemma diagnosed_exact:
  assumes "i < length rows" "B = set (map (\<lambda>b. Clean (bl_worktree_dir b)) (ci_backlog listed))"
  shows "wr_eligible (blockDiagnosedTasks B (ci_diagnostics listed) rows ! i) \<longleftrightarrow> wr_eligible (rows ! i) \<and> \<not> diagnosed listed (rows ! i)"
proof (cases "ci_diagnostics listed = []")
  case False
  let ?m = "foldl (diagnostic_reason B) Map.empty (ci_diagnostics listed)" and ?r = "rows ! i"
  let ?own = "cleanupTaskKey (lr_worktrees_root (wr_entry ?r)) (wr_task ?r)" and ?any = "cleanupTaskKey [] (wr_task ?r)"
  have "diagnosed listed ?r \<longleftrightarrow> ?own \<in> dom ?m \<or> ?any \<in> dom ?m"
    unfolding diagnosed_reasons diagnosed_def assms(2) [symmetric] by blast
  then show ?thesis using assms(1) False
    by (auto simp: blockDiagnosedTasks_def block_diagnosed_def domIff split: option.splits)
qed (use assms in \<open>simp add: blockDiagnosedTasks_def diagnosed_def\<close>)

lemma artifact_exact:
  assumes "i < length rows"
  shows "wr_eligible (blockArtifactTasks artifacts rows ! i) \<longleftrightarrow> wr_eligible (rows ! i) \<and> \<not> artifact_blocked artifacts (rows ! i)"
  using assms artifact_reasons [of artifacts "cleanupTaskKey (lr_worktrees_root (wr_entry (rows ! i))) (wr_task (rows ! i))"]
  by (auto simp: blockArtifactTasks_def block_artifact_def artifact_blocked_def Let_def)

lemma unsafe_exact:
  assumes "i < length rows"
  shows "wr_eligible (blockUnsafeTasks rows ! i) \<longleftrightarrow> (\<forall>j < length rows. wr_task (rows ! j) = wr_task (rows ! i) \<longrightarrow> wr_eligible (rows ! j))"
proof -
  have "wr_eligible (blockUnsafeTasks rows ! i) \<longleftrightarrow> wr_eligible (rows ! i) \<and> \<not> (\<exists>r \<in> set rows. \<not> wr_eligible r \<and> wr_task r = wr_task (rows ! i))"
    using assms unsafe_reasons [of rows "wr_task (rows ! i)"] by (auto simp: blockUnsafeTasks_def block_unsafe_def)
  then show ?thesis using assms by (metis in_set_conv_nth)
qed

lemma effort_exact:
  assumes "i < length rows"
  shows "wr_eligible (blockEffortsWithLiveDescendants env (ci_worktrees_roots listed) rows ! i) \<longleftrightarrow>
    wr_eligible (rows ! i) \<and> \<not> live_below env listed (wr_task (rows ! i))"
proof -
  let ?live = "live_efforts env (ci_worktrees_roots listed)" and ?r = "rows ! i"
  have "sort (remdups (filter (IsAncestorEffort (wr_task ?r)) ?live)) = [] \<longleftrightarrow> \<not> live_below env listed (wr_task ?r)"
    by (metis (no_types, lifting) filter_empty_conv live_below_def remdups_eq_nil_iff set_empty set_sort)
  moreover have "\<not> live_below env listed []" by (simp add: live_below_def IsAncestorEffort_def)
  ultimately show ?thesis using assms by (auto simp: blockEffortsWithLiveDescendants_def block_effort_def)
qed

section \<open>Closed under the rules\<close>

definition sound :: "(worktree_result \<Rightarrow> bool) \<Rightarrow> worktree_result list \<Rightarrow> worktree_result list \<Rightarrow> bool" where
  "sound bar rows rows' \<longleftrightarrow> narrows rows rows' \<and> (\<forall>i < length rows. \<not> wr_eligible (rows' ! i) \<longrightarrow> refused bar rows i)"

definition mates_agree :: "worktree_result list \<Rightarrow> bool" where
  "mates_agree rows \<longleftrightarrow> (\<forall>i < length rows. \<forall>j < length rows. wr_task (rows ! i) = wr_task (rows ! j) \<longrightarrow> wr_eligible (rows ! i) = wr_eligible (rows ! j))"

lemma agreeing:
  "mates_agree rows \<Longrightarrow> i < length rows \<Longrightarrow> j < length rows \<Longrightarrow> wr_task (rows ! i) = wr_task (rows ! j) \<Longrightarrow>
     wr_eligible (rows ! i) = wr_eligible (rows ! j)"
  unfolding mates_agree_def by blast

definition bases_held :: "worktree_result list \<Rightarrow> bool" where
  "bases_held rows \<longleftrightarrow> (\<forall>i < length rows. \<forall>j < length rows. \<not> wr_eligible (rows ! j) \<longrightarrow> is_base_of (rows ! i) (rows ! j) \<longrightarrow> \<not> wr_eligible (rows ! i))"

lemma holding:
  "bases_held rows \<Longrightarrow> i < length rows \<Longrightarrow> j < length rows \<Longrightarrow> \<not> wr_eligible (rows ! j) \<Longrightarrow> is_base_of (rows ! i) (rows ! j) \<Longrightarrow>
     \<not> wr_eligible (rows ! i)"
  unfolding bases_held_def by blast

lemma unsafe_mates_agree: "mates_agree (blockUnsafeTasks rows)"
  using narrows_stages(3) [of rows] by (simp add: mates_agree_def narrows_length narrows_entry unsafe_exact)

lemma unsafe_of_agreeing: "mates_agree rows \<Longrightarrow> blockUnsafeTasks rows = rows"
proof -
  assume agree: "mates_agree rows"
  have "block_unsafe (foldl unsafe_reason Map.empty rows) r = r" if "r \<in> set rows" for r
  proof -
    have "wr_eligible r \<Longrightarrow> reason_at (foldl unsafe_reason Map.empty rows) (wr_task r) = []"
      using agree that unsafe_reasons [of rows "wr_task r"] unfolding mates_agree_def by (metis in_set_conv_nth)
    then show ?thesis by (auto simp: block_unsafe_def)
  qed
  then show "blockUnsafeTasks rows = rows" by (simp add: blockUnsafeTasks_def map_idI)
qed

lemma effort_mates_agree:
  fixes listed :: cleanup_inventory
  assumes "mates_agree rows"
  shows "mates_agree (blockEffortsWithLiveDescendants env (ci_worktrees_roots listed) rows)"
  unfolding mates_agree_def
proof (intro allI impI)
  let ?rows = "blockEffortsWithLiveDescendants env (ci_worktrees_roots listed) rows"
  fix i j assume ij: "i < length ?rows" "j < length ?rows" "wr_task (?rows ! i) = wr_task (?rows ! j)"
  have n: "narrows rows ?rows" by (rule narrows_stages)
  then have "wr_task (rows ! i) = wr_task (rows ! j)" "i < length rows" "j < length rows"
    using ij by (simp_all add: narrows_length narrows_entry)
  then show "wr_eligible (?rows ! i) = wr_eligible (?rows ! j)"
    using agreeing [OF assms, of i j] by (simp add: effort_exact)
qed

lemma sound_unsafe:
  assumes "sound bar rows rows'"
  shows "sound bar rows (blockUnsafeTasks rows')"
  unfolding sound_def
proof (intro conjI allI impI)
  show "narrows rows (blockUnsafeTasks rows')" using assms narrows_stages(3) narrows_trans unfolding sound_def by blast
  fix i assume i: "i < length rows" "\<not> wr_eligible (blockUnsafeTasks rows' ! i)"
  have n: "narrows rows rows'" using assms by (simp add: sound_def)
  obtain j where j: "j < length rows" "wr_task (rows' ! j) = wr_task (rows' ! i)" "\<not> wr_eligible (rows' ! j)"
    using i unsafe_exact [of i rows'] narrows_length [OF n] by auto
  then show "refused bar rows i"
    using assms i(1) narrows_entry [OF n] unfolding sound_def by (metis refused_mate)
qed

lemma sound_hold_for:
  assumes "sound bar rows rows'" "j < length rows"
  shows "sound bar rows (snd (hold_for (rows' ! j) (held, rows')))"
  unfolding sound_def
proof (intro conjI allI impI)
  let ?d = "rows' ! j"
  have n: "narrows rows rows'" using assms by (simp add: sound_def)
  have "narrows rows' (snd (hold_for ?d (held, rows')))" by (auto simp: hold_for_def intro!: narrows_map split: if_split_asm)
  then show "narrows rows (snd (hold_for ?d (held, rows')))" using n narrows_trans by blast
  fix i assume i: "i < length rows" "\<not> wr_eligible (snd (hold_for ?d (held, rows')) ! i)"
  show "refused bar rows i"
  proof (cases "wr_eligible (rows' ! i)")
    case True
    then have "\<not> wr_eligible ?d" "is_base_of (rows' ! i) ?d"
      using i narrows_length [OF n] by (auto simp: hold_for_def split: if_split_asm)
    then show ?thesis
      using assms i(1) is_base_of_static [OF narrows_nth [OF n i(1)] narrows_nth [OF n assms(2)]]
      unfolding sound_def by (metis refused_base)
  qed (use assms i in \<open>simp add: sound_def\<close>)
qed

abbreviation hold_step :: "bool \<times> worktree_result list \<Rightarrow> nat \<Rightarrow> bool \<times> worktree_result list" where
  "hold_step \<equiv> \<lambda>st i. hold_for (snd st ! i) st"

lemma sound_hold_steps:
  "sound bar rows (snd st) \<Longrightarrow> \<forall>i \<in> set is. i < length rows \<Longrightarrow> sound bar rows (snd (foldl hold_step st is))"
proof (induction "is" arbitrary: st)
  case (Cons i "is")
  then show ?case using sound_hold_for [of bar rows "snd st" i "fst st"] by simp
qed simp

lemma sound_hold_pass: "sound bar rows rows' \<Longrightarrow> sound bar rows (snd (hold_pass rows'))"
  unfolding hold_pass_def by (rule sound_hold_steps) (auto simp: sound_def dest: narrows_length)

lemma hold_flag_kept: "fst st \<Longrightarrow> fst (foldl hold_step st is)"
proof (induction "is" arbitrary: st)
  case (Cons i "is")
  have "fst (hold_step st i)" using Cons.prems by (cases st) (simp add: hold_for_def)
  then show ?case using Cons.IH by simp
qed simp

lemma hold_steps_idle:
  "\<not> fst (foldl hold_step (False, rows) is) \<Longrightarrow>
     snd (foldl hold_step (False, rows) is) = rows \<and>
     (\<forall>j \<in> set is. wr_eligible (rows ! j) \<or> wr_backlog_id (rows ! j) \<noteq> [] \<or> \<not> list_ex (\<lambda>c. wr_eligible c \<and> is_base_of c (rows ! j)) rows)"
proof (induction "is")
  case (Cons j "is")
  let ?st = "hold_step (False, rows) j"
  have "\<not> fst ?st" using Cons.prems hold_flag_kept [of ?st "is"] by auto
  then have "?st = (False, rows) \<and>
      (wr_eligible (rows ! j) \<or> wr_backlog_id (rows ! j) \<noteq> [] \<or> \<not> list_ex (\<lambda>c. wr_eligible c \<and> is_base_of c (rows ! j)) rows)"
    by (auto simp: hold_for_def list_ex_iff intro!: map_idI split: if_splits)
  with Cons show ?case by auto
qed simp

lemma hold_pass_idle: "hold_pass rows = (False, rows') \<Longrightarrow> rows' = rows \<and> bases_held rows"
  using hold_steps_idle [of rows "[0..<length rows]"]
  by (auto simp: hold_pass_def bases_held_def list_ex_iff is_base_of_def)

lemma hold_closed:
  assumes "sound bar rows rows'" "mates_agree rows'"
  shows "sound bar rows (holdBasesOfIneligibleDependants rows') \<and>
    mates_agree (holdBasesOfIneligibleDependants rows') \<and> bases_held (holdBasesOfIneligibleDependants rows')"
  using assms
proof (induction rows' rule: holdBasesOfIneligibleDependants.induct)
  case (1 rows')
  obtain held rs where p: "hold_pass rows' = (held, rs)" by fastforce
  show ?case
  proof (cases held)
    case True
    have "sound bar rows (blockUnsafeTasks rs)" using sound_unsafe sound_hold_pass [OF "1.prems"(1)] p by simp
    then show ?thesis
      using "1.IH" [OF p [symmetric] True] unsafe_mates_agree True p by (simp add: holdBasesOfIneligibleDependants.simps [of rows'])
  next
    case False
    then have "rs = rows'" "bases_held rows'" using hold_pass_idle p by auto
    then show ?thesis using "1.prems" p False unsafe_of_agreeing by (simp add: holdBasesOfIneligibleDependants.simps [of rows'])
  qed
qed

lemma hold_narrows:
  assumes "mates_agree rows"
  shows "narrows rows (holdBasesOfIneligibleDependants rows)"
proof -
  have "sound (\<lambda>r. \<not> wr_eligible r) rows rows" by (auto simp: sound_def intro: refused_itself)
  then show ?thesis using hold_closed [OF _ assms] by (auto simp: sound_def)
qed

lemma refused_closed:
  assumes "narrows rows rows'" "mates_agree rows'" "bases_held rows'"
    and "\<And>i. i < length rows \<Longrightarrow> bar (rows ! i) \<Longrightarrow> \<not> wr_eligible (rows' ! i)"
  shows "refused bar rows i \<Longrightarrow> \<not> wr_eligible (rows' ! i)"
proof (induction rule: refused.induct)
  case (refused_mate j i)
  then show ?case
    using agreeing [OF assms(2), of i j] narrows_length [OF assms(1)] narrows_entry [OF assms(1)] refused_length [of bar rows j] by simp
next
  case (refused_base j i)
  then have "is_base_of (rows' ! i) (rows' ! j)"
    using is_base_of_static [OF narrows_nth [OF assms(1)] narrows_nth [OF assms(1)]] refused_length [of bar rows j] by simp
  then show ?case
    using holding [OF assms(3), of i j] refused_base refused_length [of bar rows j] narrows_length [OF assms(1)] by simp
qed (use assms(4) in simp)

lemma blocked_results_exact:
  assumes "i < length rows"
  shows "wr_eligible (blocked_results env listed artifacts rows ! i) \<longleftrightarrow> \<not> refused (barred env listed artifacts) rows i"
    and "narrows rows (blocked_results env listed artifacts rows)"
proof -
  let ?B = "set (map (\<lambda>b. Clean (bl_worktree_dir b)) (ci_backlog listed))"
  let ?d = "blockDiagnosedTasks ?B (ci_diagnostics listed) rows" let ?a = "blockArtifactTasks artifacts ?d"
  let ?u = "blockUnsafeTasks ?a" let ?e = "blockEffortsWithLiveDescendants env (ci_worktrees_roots listed) ?u"
  let ?h = "holdBasesOfIneligibleDependants ?e" and ?bar = "barred env listed artifacts"
  have d: "narrows rows ?d" and da: "narrows ?d ?a" and ue: "narrows ?u ?e" by (rule narrows_stages)+
  have a: "narrows rows ?a" using narrows_trans [OF d da] .
  have ea: "wr_eligible (?a ! k) \<longleftrightarrow> wr_eligible (rows ! k) \<and> \<not> diagnosed listed (rows ! k) \<and> \<not> artifact_blocked artifacts (rows ! k)"
    if "k < length rows" for k
    using that artifact_exact [of k ?d artifacts] diagnosed_exact [of k rows ?B listed] narrows_length [OF d] narrows_entry [OF d that]
    by (simp add: artifact_blocked_def)
  have "sound ?bar rows ?a" using a ea unfolding sound_def barred_def by (auto intro: refused_itself simp: barred_def)
  then have u: "sound ?bar rows ?u" by (rule sound_unsafe)
  have nu: "narrows rows ?u" using u by (simp add: sound_def)
  have ee: "wr_eligible (?e ! k) \<longleftrightarrow> wr_eligible (?u ! k) \<and> \<not> live_below env listed (wr_task (rows ! k))" if "k < length rows" for k
    using that effort_exact [of k ?u env listed] narrows_length [OF nu] narrows_entry [OF nu that] by simp
  have e: "sound ?bar rows ?e"
    using u ee narrows_trans [OF nu ue] unfolding sound_def by (auto intro: refused_itself simp: barred_def)
  note h = hold_closed [OF e effort_mates_agree [OF unsafe_mates_agree]]
  have nh: "narrows rows ?h" using h by (simp add: sound_def)
  have eh: "narrows ?e ?h" by (rule hold_narrows [OF effort_mates_agree [OF unsafe_mates_agree]])
  have "\<not> wr_eligible (?h ! k)" if "k < length rows" "?bar (rows ! k)" for k
  proof
    assume "wr_eligible (?h ! k)"
    then have "wr_eligible (?e ! k)" using eh that(1) narrows_length [OF narrows_trans [OF nu ue]] by (simp add: narrows_def)
    then have "wr_eligible (?u ! k)" "\<not> live_below env listed (wr_task (rows ! k))" using ee [OF that(1)] by simp_all
    moreover from this have "wr_eligible (?a ! k)" using narrows_stages(3) [of ?a] that(1) narrows_length [OF a] by (simp add: narrows_def)
    ultimately show False using that ea [OF that(1)] by (simp add: barred_def)
  qed
  from refused_closed [OF nh _ _ this] h have "refused ?bar rows i \<Longrightarrow> \<not> wr_eligible (?h ! i)" by blast
  then show "wr_eligible (blocked_results env listed artifacts rows ! i) \<longleftrightarrow> \<not> refused ?bar rows i"
    using h assms by (auto simp: blocked_results_def sound_def)
  show "narrows rows (blocked_results env listed artifacts rows)" using nh by (simp add: blocked_results_def)
qed

lemma blocked_results_narrows: "narrows rows (blocked_results env listed artifacts rows)"
proof (cases rows)
  case Nil
  then show ?thesis
    by (simp add: blocked_results_def blockDiagnosedTasks_def blockArtifactTasks_def blockUnsafeTasks_def blockEffortsWithLiveDescendants_def
        holdBasesOfIneligibleDependants.simps hold_pass_def)
next
  case (Cons r rs)
  then show ?thesis using blocked_results_exact(2) [of 0 rows env listed artifacts] by simp
qed

section \<open>Scoring\<close>

lemma score_entry_fields:
  assumes "score_entry env options now e = Some (Inr r)"
  shows "wr_entry r = e" "wr_backlog_id r = []" "wr_eligible r \<Longrightarrow> cleanupEligibility e options now = Some (True, wr_reason r)"
  using assms by (auto simp: score_entry_def Let_def split: option.split_asm prod.split_asm bool.split_asm sum.split_asm if_split_asm)

lemma score_all_rows:
  "score_all env options now es = Some (Inr rs) \<Longrightarrow> list_all2 (\<lambda>e r. score_entry env options now e = Some (Inr r)) es rs"
  by (induction es arbitrary: rs) (auto split: option.split_asm sum.split_asm)

section \<open>Properties\<close>

text \<open>
  C29: the plan refuses the least set that its rules demand. A result of the plan is eligible exactly
  when it cannot be refused: because it is not eligible itself, a malformed candidate or a
  lifecycle artifact blocks its task, or its effort has live sub-efforts; because a result of its
  own task is refused; or because its branch is the recorded base of a refused result. The loop
  that holds bases ends, and it changes nothing but eligibility and reasons.
\<close>

theorem cleanup_plan_least:
  assumes "score_all env options now (ci_results listed) = Some (Inr scored)"
    and "rows = scored @ map backlog_result (ci_backlog listed)"
    and "artifacts = scopeLifecycleArtifacts exactRepository filter' (ci_artifacts listed)"
  shows "\<exists>plan. buildResults env options exactRepository filter' now listed = Some (Inr plan) \<and>
    cp_artifacts plan = artifacts \<and> map static (cp_results plan) = map static rows \<and>
    (\<forall>i < length rows. wr_eligible (cp_results plan ! i) \<longleftrightarrow> \<not> refused (barred env listed artifacts) rows i)"
proof (intro exI conjI)
  let ?plan = "\<lparr>cp_results = blocked_results env listed artifacts rows, cp_artifacts = artifacts\<rparr>"
  show "buildResults env options exactRepository filter' now listed = Some (Inr ?plan)"
    using assms by (simp add: buildResults_def Let_def)
  show "cp_artifacts ?plan = artifacts" by simp
  show "map static (cp_results ?plan) = map static rows" using blocked_results_narrows by (simp add: narrows_def)
  show "\<forall>i < length rows. wr_eligible (cp_results ?plan ! i) \<longleftrightarrow> \<not> refused (barred env listed artifacts) rows i"
    using blocked_results_exact(1) by simp
qed

text \<open>
  C1: what a plan removes is proved, task by task. Suppose every listed entry comes from an
  inspection and the proofs of the cleanup. Then every eligible result of the plan that is not a
  resumed backlog is clean, unlocked and without an open pull request, and its landing, a
  supersession or an allowed residue is established; no result of its task is refused, and no
  refused result has its branch as recorded base.
\<close>

theorem planned_removals_proved:
  assumes "buildResults penv options exactRepository filter' now listed = Some (Inr plan)"
    and "\<forall>e \<in> set (ci_results listed). \<exists>located e0. inspectLifecycleWorktree env located = Inr e0 \<and>
      apply_cleanup_proofs env home options e0 = Some (Inr e)"
    and "i < length (cp_results plan)" "wr_eligible (cp_results plan ! i)" "wr_backlog_id (cp_results plan ! i) = []"
    and "\<forall>b \<in> set (ci_backlog listed). bl_id b \<noteq> []"
  shows "\<not> lr_locked (wr_entry (cp_results plan ! i)) \<and> lr_clean (wr_entry (cp_results plan ! i)) \<and> lr_open_pr (wr_entry (cp_results plan ! i)) = None \<and>
    (supersession_accepted env options (wr_entry (cp_results plan ! i)) \<or> landing_established env options (wr_entry (cp_results plan ! i)) \<or>
     cq_allow_residue options \<and> residue_proof env (wr_entry (cp_results plan ! i))) \<and>
    (\<forall>j < length (cp_results plan). \<not> wr_eligible (cp_results plan ! j) \<longrightarrow>
       wr_task (cp_results plan ! j) \<noteq> wr_task (cp_results plan ! i) \<and> \<not> is_base_of (cp_results plan ! i) (cp_results plan ! j))"
proof -
  obtain scored where sc: "score_all penv options now (ci_results listed) = Some (Inr scored)"
    using assms(1) by (auto simp: buildResults_def split: option.split_asm sum.split_asm)
  let ?rows = "scored @ map backlog_result (ci_backlog listed)"
  let ?artifacts = "scopeLifecycleArtifacts exactRepository filter' (ci_artifacts listed)"
  have plan: "cp_results plan = blocked_results penv listed ?artifacts ?rows" using assms(1) sc by (auto simp: buildResults_def Let_def)
  have n: "narrows ?rows (cp_results plan)" and i: "i < length ?rows"
  proof -
    show n: "narrows ?rows (cp_results plan)" using assms(3) blocked_results_narrows plan by simp
    show "i < length ?rows" using narrows_length [OF n] assms(3) by simp
  qed
  have "\<not> refused (barred penv listed ?artifacts) ?rows i" using blocked_results_exact(1) [OF i] assms(4) plan by simp
  then have apart: "wr_task (cp_results plan ! j) \<noteq> wr_task (cp_results plan ! i) \<and> \<not> is_base_of (cp_results plan ! i) (cp_results plan ! j)"
    if "j < length (cp_results plan)" "\<not> wr_eligible (cp_results plan ! j)" for j
  proof -
    have j: "j < length ?rows" using that(1) narrows_length [OF n] by simp
    have "refused (barred penv listed ?artifacts) ?rows j" using blocked_results_exact(1) [OF j] that(2) plan by simp
    then show ?thesis
      using \<open>\<not> refused (barred penv listed ?artifacts) ?rows i\<close> refused_mate [of _ ?rows j i] refused_base [of _ ?rows j i] i
        narrows_entry [OF n i] narrows_entry [OF n j] is_base_of_static [OF narrows_nth [OF n i] narrows_nth [OF n j]] by auto
  qed
  have row: "wr_eligible (?rows ! i)" "wr_backlog_id (?rows ! i) = []" "wr_entry (?rows ! i) = wr_entry (cp_results plan ! i)"
    using n i assms(4,5) static_fields [OF narrows_nth [OF n i]] by (auto simp: narrows_def)
  have "i < length scored" using row(2) i assms(6) by (auto simp: nth_append backlog_result_def split: if_split_asm)
  moreover define e where "e = ci_results listed ! i"
  ultimately have e: "e \<in> set (ci_results listed)" "score_entry penv options now e = Some (Inr (?rows ! i))"
    using score_all_rows [OF sc] by (auto simp: list_all2_conv_all_nth nth_append)
  have "wr_entry (?rows ! i) = e" "cleanupEligibility e options now = Some (True, wr_reason (?rows ! i))"
    using score_entry_fields [OF e(2)] row(1) by blast+
  with assms(2) e(1) eligible_worktree_proved [of env _ _ home options e now] row(3) apart show ?thesis by metis
qed

text \<open>
  C30: being marked as non-blocking does not help. Every diagnostic of foreign debris that is marked as
  not blocking valid siblings still makes every result of its task ineligible, unless a record to resume
  names its path; and every retired stage that is marked as outside the selected repositories and not
  eligible still keeps its task from being applied. Each does so by itself.
\<close>

theorem marks_do_not_unblock:
  assumes "buildResults env options exactRepository filter' now listed = Some (Inr plan)"
  shows "(\<forall>d \<in> set (ci_diagnostics listed). \<forall>i < length (cp_results plan).
       ld_non_blocking d \<and> ld_task d \<noteq> [] \<and> Clean (ld_path d) \<notin> set (map (\<lambda>b. Clean (bl_worktree_dir b)) (ci_backlog listed)) \<and>
       ld_task d = wr_task (cp_results plan ! i) \<and> ld_worktrees_root d = lr_worktrees_root (wr_entry (cp_results plan ! i)) \<longrightarrow>
       \<not> wr_eligible (cp_results plan ! i)) \<and>
    (\<forall>a \<in> set (cp_artifacts plan). la_non_blocking a \<and> \<not> la_eligible a \<longrightarrow>
       \<not> ae_can_apply (plan_task plan home \<lparr>ts_worktrees_root = la_worktrees_root a, ts_task = la_task a\<rparr>))"
proof (intro conjI ballI allI impI)
  fix d i
  assume d: "d \<in> set (ci_diagnostics listed)" and i: "i < length (cp_results plan)"
    and m: "ld_non_blocking d \<and> ld_task d \<noteq> [] \<and> Clean (ld_path d) \<notin> set (map (\<lambda>b. Clean (bl_worktree_dir b)) (ci_backlog listed)) \<and>
      ld_task d = wr_task (cp_results plan ! i) \<and> ld_worktrees_root d = lr_worktrees_root (wr_entry (cp_results plan ! i))"
  obtain scored where sc: "score_all env options now (ci_results listed) = Some (Inr scored)"
    using assms by (auto simp: buildResults_def split: option.split_asm sum.split_asm)
  let ?rows = "scored @ map backlog_result (ci_backlog listed)"
  let ?artifacts = "scopeLifecycleArtifacts exactRepository filter' (ci_artifacts listed)"
  have plan: "cp_results plan = blocked_results env listed ?artifacts ?rows" using assms sc by (auto simp: buildResults_def Let_def)
  have n: "narrows ?rows (cp_results plan)" using blocked_results_narrows plan by simp
  have i: "i < length ?rows" using narrows_length [OF n] i by simp
  have "diagnosed listed (?rows ! i)" using d m narrows_entry [OF n i] unfolding diagnosed_def by auto
  then have "refused (barred env listed ?artifacts) ?rows i" using i by (intro refused_itself) (simp_all add: barred_def)
  then show "\<not> wr_eligible (cp_results plan ! i)" using blocked_results_exact(1) [OF i] plan by simp
next
  fix a assume "a \<in> set (cp_artifacts plan)" "la_non_blocking a \<and> \<not> la_eligible a"
  then show "\<not> ae_can_apply (plan_task plan home \<lparr>ts_worktrees_root = la_worktrees_root a, ts_task = la_task a\<rparr>)"
    by (auto simp: plan_task_def cleanupTaskCanApply_def Let_def list_all_iff)
qed

section \<open>Witnesses\<close>

definition sample_penv :: plan_env where
  "sample_penv = \<lparr>pe_link_sources = (\<lambda>_. Inr []), pe_work_log = (\<lambda>_. None), pe_read_dir = (\<lambda>_. Inr [(''t'', True)])\<rparr>"

definition sample_listed :: "list_result list \<Rightarrow> list_diagnostic list \<Rightarrow> lifecycle_artifact list \<Rightarrow> cleanup_inventory" where
  "sample_listed results diagnostics artifacts =
     \<lparr>ci_results = results, ci_diagnostics = diagnostics, ci_artifacts = artifacts, ci_backlog = [], ci_worktrees_roots = [''/w'']\<rparr>"

text \<open>A merged worktree on branch x, and one stacked on x that has local changes.\<close>

definition sample_base :: list_result where
  "sample_base = zero_result\<lparr>lr_task := ''t'', lr_worktrees_root := ''/w'', lr_worktree_dir := ''/w/t'', lr_canonical_dir := ''/c'', lr_branch := ''x'',
     lr_base := ''main'', lr_clean := True, lr_integrated := True\<rparr>"

definition sample_leaf :: list_result where
  "sample_leaf = sample_base\<lparr>lr_task := ''u'', lr_branch := ''y'', lr_base := ''x'', lr_clean := False\<rparr>"

lemma sample_scored:
  "score_all sample_penv (sample_request 0) 8 [sample_base, sample_leaf] \<noteq> None"
  "\<exists>rs. score_all sample_penv (sample_request 0) 8 [sample_base, sample_leaf] = Some (Inr rs) \<and> map wr_eligible rs = [True, False] \<and>
     is_base_of (rs ! 0) (rs ! 1)"
  by (simp_all add: score_entry_def sample_penv_def sample_base_def sample_leaf_def zero_result_def sample_request_def cleanupEligibility_def
      cleanupSafetyEligibility_def is_base_of_def recorded_base_def LandedWithResidue_def)

lemma sample_scored_base: "\<exists>r. score_all sample_penv (sample_request 0) 8 [sample_base] = Some (Inr [r]) \<and> wr_entry r = sample_base"
  by (simp add: score_entry_def sample_penv_def sample_base_def zero_result_def sample_request_def cleanupEligibility_def
      cleanupSafetyEligibility_def LandedWithResidue_def)

theorem cleanup_plan_least_witness:
  "\<exists>plan. buildResults sample_penv (sample_request 0) [] [] 8 (sample_listed [sample_base, sample_leaf] [] []) = Some (Inr plan) \<and>
     \<not> wr_eligible (cp_results plan ! 0)"
proof -
  let ?listed = "sample_listed [sample_base, sample_leaf] [] []"
  obtain rs where rs: "score_all sample_penv (sample_request 0) 8 (ci_results ?listed) = Some (Inr rs)" "map wr_eligible rs = [True, False]"
      "is_base_of (rs ! 0) (rs ! 1)"
    using sample_scored(2) by (auto simp: sample_listed_def)
  have rows: "rs = rs @ map backlog_result (ci_backlog ?listed)" by (simp add: sample_listed_def)
  have len: "length rs = 2" "\<not> wr_eligible (rs ! 1)"
    using arg_cong [OF rs(2), of length] arg_cong [OF rs(2), of "\<lambda>xs. xs ! 1"] by auto
  have "refused (barred sample_penv ?listed (scopeLifecycleArtifacts [] [] (ci_artifacts ?listed))) rs 1"
    using len by (intro refused_itself) (simp_all add: barred_def)
  from refused_base [OF this, of 0] have "refused (barred sample_penv ?listed (scopeLifecycleArtifacts [] [] (ci_artifacts ?listed))) rs 0"
    using len rs(3) by simp
  then show ?thesis using cleanup_plan_least [OF rs(1) rows refl, of "[]" "[]"] len by auto
qed

definition sample_run :: cleanup_plan_state where
  "sample_run = (case buildResults sample_penv (sample_request 0) [] [] 8 (sample_listed [sample_entry] [] []) of
     Some (Inr plan) \<Rightarrow> plan | _ \<Rightarrow> \<lparr>cp_results = [], cp_artifacts = []\<rparr>)"

lemma sample_run_eligible: "map (\<lambda>r. (wr_eligible r, wr_backlog_id r)) (cp_results sample_run) = [(True, [])]"
  by code_simp

theorem planned_removals_proved_witness:
  "lr_clean (wr_entry (cp_results sample_run ! 0)) \<and>
   (supersession_accepted sample_env (sample_request 0) (wr_entry (cp_results sample_run ! 0)) \<or>
    landing_established sample_env (sample_request 0) (wr_entry (cp_results sample_run ! 0)))"
proof -
  have b: "buildResults sample_penv (sample_request 0) [] [] 8 (sample_listed [sample_entry] [] []) = Some (Inr sample_run)"
    using sample_run_eligible by (auto simp: sample_run_def split: option.splits sum.splits)
  have e: "\<forall>e \<in> set (ci_results (sample_listed [sample_entry] [] [])). \<exists>located e0. inspectLifecycleWorktree sample_env located = Inr e0 \<and>
      apply_cleanup_proofs sample_env ''/h'' (sample_request 0) e0 = Some (Inr e)"
    using sample_entry_runs by (auto simp: sample_listed_def)
  have r: "0 < length (cp_results sample_run)" "wr_eligible (cp_results sample_run ! 0)" "wr_backlog_id (cp_results sample_run ! 0) = []"
    using arg_cong [OF sample_run_eligible, of length] arg_cong [OF sample_run_eligible, of "\<lambda>xs. xs ! 0"] by auto
  show ?thesis using planned_removals_proved [OF b e r] by (simp add: sample_listed_def sample_request_def)
qed

definition sample_debris :: list_diagnostic where
  "sample_debris = \<lparr>ld_task = ''t'', ld_worktrees_root = ''/w'', ld_path = ''/w/t/o/r'', ld_message = [], ld_non_blocking = True\<rparr>"

definition sample_stage :: lifecycle_artifact where
  "sample_stage = \<lparr>la_task = ''t'', la_worktrees_root = ''/w'', la_path = ''/w/t/s'', la_kind = ''secure_worktree_stage'', la_repository = ''o/r'',
     la_non_blocking = False, la_eligible = False, la_applied = False, la_reason = []\<rparr>"

theorem marks_do_not_unblock_witness:
  "\<exists>plan. buildResults sample_penv (sample_request 0) ''a/b'' [] 8 (sample_listed [sample_base] [sample_debris] [sample_stage]) = Some (Inr plan) \<and>
     \<not> wr_eligible (cp_results plan ! 0) \<and> \<not> ae_can_apply (plan_task plan ''/h'' \<lparr>ts_worktrees_root = ''/w'', ts_task = ''t''\<rparr>)"
proof -
  let ?listed = "sample_listed [sample_base] [sample_debris] [sample_stage]"
  obtain r where sc: "score_all sample_penv (sample_request 0) 8 (ci_results ?listed) = Some (Inr [r])" "wr_entry r = sample_base"
    using sample_scored_base by (auto simp: sample_listed_def)
  let ?rows = "[r] @ map backlog_result (ci_backlog ?listed)"
  let ?plan = "\<lparr>cp_results = blocked_results sample_penv ?listed (scopeLifecycleArtifacts ''a/b'' [] (ci_artifacts ?listed)) ?rows,
      cp_artifacts = scopeLifecycleArtifacts ''a/b'' [] (ci_artifacts ?listed)\<rparr>"
  have b: "buildResults sample_penv (sample_request 0) ''a/b'' [] 8 ?listed = Some (Inr ?plan)" using sc(1) by (simp add: buildResults_def Let_def)
  have n: "narrows [r] (cp_results ?plan)"
    using blocked_results_narrows [of ?rows sample_penv ?listed] by (simp add: sample_listed_def)
  have rows: "length (cp_results ?plan) = 1" "wr_entry (cp_results ?plan ! 0) = sample_base"
    using narrows_length [OF n] narrows_entry [OF n, of 0] sc(2) by simp_all
  have arts: "cp_artifacts ?plan = [scope_artifact ''a/b'' [] sample_stage]" by (simp add: sample_listed_def scopeLifecycleArtifacts_def)
  have "\<exists>plan. buildResults sample_penv (sample_request 0) ''a/b'' [] 8 ?listed = Some (Inr plan) \<and>
      length (cp_results plan) = 1 \<and> wr_entry (cp_results plan ! 0) = sample_base \<and> cp_artifacts plan = [scope_artifact ''a/b'' [] sample_stage]"
    by (intro exI [of _ ?plan] conjI b rows arts)
  then obtain plan where p: "buildResults sample_penv (sample_request 0) ''a/b'' [] 8 ?listed = Some (Inr plan)"
      "length (cp_results plan) = 1" "wr_entry (cp_results plan ! 0) = sample_base" "cp_artifacts plan = [scope_artifact ''a/b'' [] sample_stage]" by blast
  let ?a = "scope_artifact ''a/b'' [] sample_stage"
  have a: "la_non_blocking ?a" "\<not> la_eligible ?a" "la_worktrees_root ?a = ''/w''" "la_task ?a = ''t''"
    by (simp_all add: scope_artifact_def sample_stage_def)
  have d: "sample_debris \<in> set (ci_diagnostics ?listed)" "ld_non_blocking sample_debris" "ld_task sample_debris \<noteq> []"
    "Clean (ld_path sample_debris) \<notin> set (map (\<lambda>b. Clean (bl_worktree_dir b)) (ci_backlog ?listed))"
    "ld_task sample_debris = lr_task sample_base" "ld_worktrees_root sample_debris = lr_worktrees_root sample_base"
    by (simp_all add: sample_listed_def sample_debris_def sample_base_def)
  note marks = marks_do_not_unblock [OF p(1), of "''/h''"]
  have i: "0 < length (cp_results plan)" using p(2) by simp
  have "\<not> wr_eligible (cp_results plan ! 0)"
    using conjunct1 [OF marks, THEN bspec, OF d(1), THEN spec, THEN mp, OF i] d(2-6) p(3) by simp
  moreover have "?a \<in> set (cp_artifacts plan)" by (simp add: p(4))
  with conjunct2 [OF marks, THEN bspec] a have "\<not> ae_can_apply (plan_task plan ''/h'' \<lparr>ts_worktrees_root = ''/w'', ts_task = ''t''\<rparr>)"
    by metis
  ultimately show ?thesis using p(1) by blast
qed

end
