(* ===== verification/Apply_Scheduler.thy ===== *)
theory Apply_Scheduler
  imports Worktree_Plan Step_System
begin

text \<open>
  \<^verbatim>\<open>runCleanupApply\<close> of \<^verbatim>\<open>internal/worktrees/cleanup_apply.go\<close>: the workers of a sweep, which take
  the tasks of the plan in order, wait for those they must follow, lock every clone the task
  writes to, apply it and release. What the callback returns for a task is a parameter; the
  errors it records are the report of the sweep.

  One turn of a worker is one operation on shared state: receiving a job, receiving from a closed
  channel, locking or unlocking one mutex, or closing the channel of a task. Turns of different
  workers interleave in any order. \<open>None\<close> is a worker that blocks, or that has ended because no
  job is left.
\<close>

section \<open>The serial path\<close>

fun held_by :: "apply_entry list \<Rightarrow> string option list \<Rightarrow> nat \<Rightarrow> nat list \<Rightarrow> string option" where
  "held_by entries errs index [] = None"
| "held_by entries errs index (earlier # after) =
     (case errs ! earlier of
        Some err \<Rightarrow> Some (''held: '' @ ts_task (ae_selection (entries ! earlier)) @ '' is stacked on a branch of '' @
          ts_task (ae_selection (entries ! index)) @ '' and was not retired in this run: '' @ err)
      | None \<Rightarrow> held_by entries errs index after)"

definition heldByUnretiredLeaf :: "apply_entry list \<Rightarrow> string option list \<Rightarrow> nat \<Rightarrow> string option" where
  "heldByUnretiredLeaf entries errs index = held_by entries errs index (ae_after (entries ! index))"

definition applyUnlessHeld :: "apply_entry list \<Rightarrow> (apply_entry \<Rightarrow> string option) \<Rightarrow> nat \<Rightarrow> string option list \<Rightarrow> string option list" where
  "applyUnlessHeld entries callback index errs =
     (case heldByUnretiredLeaf entries errs index of
        Some err \<Rightarrow> errs[index := Some err]
      | None \<Rightarrow> errs[index := callback (entries ! index)])"

fun serial_loop :: "apply_entry list \<Rightarrow> (apply_entry \<Rightarrow> string option) \<Rightarrow> bool \<Rightarrow> nat list \<Rightarrow> string option list \<Rightarrow> string option list" where
  "serial_loop entries callback stopOnFirstError [] errs = errs"
| "serial_loop entries callback stopOnFirstError (index # indices) errs =
     (let errs = applyUnlessHeld entries callback index errs in
      if errs ! index \<noteq> None \<and> stopOnFirstError then errs else serial_loop entries callback stopOnFirstError indices errs)"

definition run_serial :: "apply_entry list \<Rightarrow> (apply_entry \<Rightarrow> string option) \<Rightarrow> bool \<Rightarrow> string option list" where
  "run_serial entries callback stopOnFirstError =
     serial_loop entries callback stopOnFirstError [0..<length entries] (replicate (length entries) None)"

definition worker_count :: "int \<Rightarrow> nat \<Rightarrow> nat" where
  "worker_count workers tasks = (let workers = (if workers < 1 then 1 else nat workers) in if workers > tasks then tasks else workers)"

definition maxConcurrentRemoteBranchDeletions :: int where
  "maxConcurrentRemoteBranchDeletions = 4"

definition newRemoteBranchDeletionGate :: "int \<Rightarrow> int" where
  "newRemoteBranchDeletionGate workers =
     (let workers = (if workers < 1 then 1 else workers) in
      if workers > maxConcurrentRemoteBranchDeletions then maxConcurrentRemoteBranchDeletions else workers)"

section \<open>Workers\<close>

datatype worker =
    Idle
  | Waiting nat nat
  | Locking nat nat
  | Releasing nat nat

record sweep =
  sw_next :: nat
  sw_workers :: "worker list"
  sw_owner :: "string \<rightharpoonup> nat"
  sw_done :: "nat set"
  sw_errs :: "string option list"

definition sweep_start :: "apply_entry list \<Rightarrow> nat \<Rightarrow> sweep" where
  "sweep_start entries workers =
     \<lparr>sw_next = 0, sw_workers = replicate workers Idle, sw_owner = Map.empty, sw_done = {}, sw_errs = replicate (length entries) None\<rparr>"

definition become :: "nat \<Rightarrow> worker \<Rightarrow> sweep \<Rightarrow> sweep" where
  "become w phase s = s\<lparr>sw_workers := (sw_workers s)[w := phase]\<rparr>"

definition worker_turn :: "apply_entry list \<Rightarrow> (apply_entry \<Rightarrow> string option) \<Rightarrow> nat \<Rightarrow> sweep \<Rightarrow> sweep option" where
  "worker_turn entries callback w s =
     (case sw_workers s ! w of
        Idle \<Rightarrow>
          if sw_next s < length entries then Some (become w (Waiting (sw_next s) 0) (s\<lparr>sw_next := Suc (sw_next s)\<rparr>)) else None
      | Waiting i k \<Rightarrow>
          if k < length (ae_after (entries ! i)) then
            (if ae_after (entries ! i) ! k \<in> sw_done s then Some (become w (Waiting i (Suc k)) s) else None)
          else
            (case heldByUnretiredLeaf entries (sw_errs s) i of
               Some err \<Rightarrow> Some (become w (Releasing i 0) (s\<lparr>sw_errs := (sw_errs s)[i := Some err]\<rparr>))
             | None \<Rightarrow> Some (become w (Locking i 0) (s\<lparr>sw_errs := (sw_errs s)[i := None]\<rparr>)))
      | Locking i k \<Rightarrow>
          if k < length (ae_repositories (entries ! i)) then
            (case sw_owner s (ae_repositories (entries ! i) ! k) of
               None \<Rightarrow> Some (become w (Locking i (Suc k)) (s\<lparr>sw_owner := (sw_owner s)(ae_repositories (entries ! i) ! k \<mapsto> w)\<rparr>))
             | Some _ \<Rightarrow> None)
          else Some (become w (Releasing i (length (ae_repositories (entries ! i))))
                 (s\<lparr>sw_errs := (sw_errs s)[i := callback (entries ! i)]\<rparr>))
      | Releasing i k \<Rightarrow>
          if k > 0 then Some (become w (Releasing i (k - 1)) (s\<lparr>sw_owner := (sw_owner s)(ae_repositories (entries ! i) ! (k - 1) := None)\<rparr>))
          else Some (become w Idle (s\<lparr>sw_done := insert i (sw_done s)\<rparr>)))"

inductive sweep_step :: "apply_entry list \<Rightarrow> (apply_entry \<Rightarrow> string option) \<Rightarrow> sweep \<Rightarrow> sweep \<Rightarrow> bool"
  for entries :: "apply_entry list" and callback :: "apply_entry \<Rightarrow> string option" where
  turn: "w < length (sw_workers s) \<Longrightarrow> worker_turn entries callback w s = Some t \<Longrightarrow> sweep_step entries callback s t"

inductive_cases sweep_stepE: "sweep_step entries callback s t"

definition sweep_finished :: "apply_entry list \<Rightarrow> sweep \<Rightarrow> bool" where
  "sweep_finished entries s \<longleftrightarrow> sw_next s = length entries \<and> list_all (\<lambda>p. p = Idle) (sw_workers s)"

section \<open>What a worker has and has left to do\<close>

fun job_of :: "worker \<Rightarrow> nat option" where
  "job_of Idle = None"
| "job_of (Waiting i k) = Some i"
| "job_of (Locking i k) = Some i"
| "job_of (Releasing i k) = Some i"

fun locks_of :: "apply_entry list \<Rightarrow> worker \<Rightarrow> string list" where
  "locks_of entries (Locking i k) = take k (ae_repositories (entries ! i))"
| "locks_of entries (Releasing i k) = take k (ae_repositories (entries ! i))"
| "locks_of entries _ = []"

fun turns_left :: "apply_entry list \<Rightarrow> worker \<Rightarrow> nat" where
  "turns_left entries Idle = 0"
| "turns_left entries (Waiting i k) = (length (ae_after (entries ! i)) - k) + 2 * length (ae_repositories (entries ! i)) + 3"
| "turns_left entries (Locking i k) = (length (ae_repositories (entries ! i)) - k) + length (ae_repositories (entries ! i)) + 2"
| "turns_left entries (Releasing i k) = k + 1"

definition job_turns :: "apply_entry list \<Rightarrow> nat \<Rightarrow> nat" where
  "job_turns entries i = Suc (turns_left entries (Waiting i 0))"

definition sweep_turns :: "apply_entry list \<Rightarrow> sweep \<Rightarrow> nat" where
  "sweep_turns entries s = sum_list (map (turns_left entries) (sw_workers s)) + sum_list (map (job_turns entries) [sw_next s..<length entries])"

end
