(* ===== verification/Apply_Scheduler_Props.thy ===== *)
theory Apply_Scheduler_Props
  imports Apply_Scheduler Worktree_Order
begin

text \<open>
  The sweep applies every task of the plan once, never gets stuck, keeps two tasks that write to
  one clone apart, and reports what the serial path reports, however its workers interleave. All
  of it rests on two facts about the plan, the assumptions of the locale: a task waits for
  earlier ones only, and the clones of a task are sorted.
\<close>

section \<open>Holding\<close>

lemma held_by_cong: "\<forall>a \<in> set after. errs ! a = errs' ! a \<Longrightarrow> held_by entries errs i after = held_by entries errs' i after"
  by (induction after) (auto split: option.split)

lemma held_by_None: "held_by entries errs i after = None \<longleftrightarrow> (\<forall>a \<in> set after. errs ! a = None)"
  by (induction after) (auto split: option.split)

lemma applyUnlessHeld_simps [simp]:
  "length (applyUnlessHeld entries callback i errs) = length errs"
  "j \<noteq> i \<Longrightarrow> applyUnlessHeld entries callback i errs ! j = errs ! j"
  by (simp_all add: applyUnlessHeld_def split: option.split)

lemma serial_loop_False: "serial_loop entries callback False is errs = foldl (\<lambda>errs i. applyUnlessHeld entries callback i errs) errs is"
  by (induction "is" arbitrary: errs) (simp_all add: Let_def)

locale apply_plan =
  fixes entries :: "apply_entry list" and callback :: "apply_entry \<Rightarrow> string option"
  assumes after_earlier: "i < length entries \<Longrightarrow> a \<in> set (ae_after (entries ! i)) \<Longrightarrow> a < i"
    and repositories_sorted: "i < length entries \<Longrightarrow> sorted (ae_repositories (entries ! i)) \<and> distinct (ae_repositories (entries ! i))"
begin

abbreviation serial :: "string option list" where
  "serial \<equiv> run_serial entries callback False"

abbreviation after :: "nat \<Rightarrow> nat list" where
  "after i \<equiv> ae_after (entries ! i)"

abbreviation clones :: "nat \<Rightarrow> string list" where
  "clones i \<equiv> ae_repositories (entries ! i)"

lemma serial_steps:
  assumes "m \<le> length entries" "length errs = length entries"
  shows "length (foldl (\<lambda>errs i. applyUnlessHeld entries callback i errs) errs [m..<n]) = length entries \<and>
    (\<forall>j. j < m \<or> n \<le> j \<longrightarrow> foldl (\<lambda>errs i. applyUnlessHeld entries callback i errs) errs [m..<n] ! j = errs ! j)"
  by (induction n) (auto simp: assms)

lemma serial_length [simp]: "length serial = length entries"
  using serial_steps [of 0 "replicate (length entries) None" "length entries"] by (simp add: run_serial_def serial_loop_False)

text \<open>The report of the serial path, task by task.\<close>

lemma serial_nth:
  assumes "i < length entries"
  shows "serial ! i = (case heldByUnretiredLeaf entries serial i of Some err \<Rightarrow> Some err | None \<Rightarrow> callback (entries ! i))"
proof -
  let ?step = "\<lambda>errs i. applyUnlessHeld entries callback i errs"
  let ?pre = "foldl ?step (replicate (length entries) None) [0..<i]"
  have pre: "length ?pre = length entries" using serial_steps [of 0 "replicate (length entries) None" i] by simp
  have "serial = foldl ?step ?pre [i..<length entries]"
    using assms upt_add_eq_append [of 0 i "length entries - i"] by (simp add: run_serial_def serial_loop_False)
  also have "\<dots> = foldl ?step (?step ?pre i) [Suc i..<length entries]" using assms by (simp add: upt_conv_Cons)
  finally have s: "serial = foldl ?step (?step ?pre i) [Suc i..<length entries]" .
  have "serial ! j = ?step ?pre i ! j" if "j \<le> i" for j
    unfolding s using serial_steps [of "Suc i" "?step ?pre i" "length entries"] pre assms that by simp
  then have "serial ! i = ?step ?pre i ! i" "\<forall>a \<in> set (after i). serial ! a = ?pre ! a"
    using after_earlier [OF assms] by (auto simp: order.strict_iff_order)
  then show ?thesis using pre assms held_by_cong [of "after i" serial ?pre entries i]
    by (simp add: applyUnlessHeld_def heldByUnretiredLeaf_def split: option.split)
qed

section \<open>The invariant\<close>

definition phase_ok :: "sweep \<Rightarrow> worker \<Rightarrow> bool" where
  "phase_ok s p = (case p of
      Idle \<Rightarrow> True
    | Waiting i k \<Rightarrow> k \<le> length (after i) \<and> set (take k (after i)) \<subseteq> sw_done s
    | Locking i k \<Rightarrow> k \<le> length (clones i) \<and> set (after i) \<subseteq> sw_done s \<and> heldByUnretiredLeaf entries serial i = None
    | Releasing i k \<Rightarrow> k \<le> length (clones i) \<and> sw_errs s ! i = serial ! i)"

definition job :: "sweep \<Rightarrow> nat \<rightharpoonup> nat" where
  "job s w = (if w < length (sw_workers s) then job_of (sw_workers s ! w) else None)"

text \<open>The tasks handed out are those that are done and those a worker has, each worker another one.\<close>

definition jobs_ok :: "sweep \<Rightarrow> bool" where
  "jobs_ok s \<longleftrightarrow> sw_next s \<le> length entries \<and> sw_done s \<union> ran (job s) = {..<sw_next s} \<and> sw_done s \<inter> ran (job s) = {} \<and>
     inj_on (job s) (dom (job s))"

definition locks_ok :: "sweep \<Rightarrow> bool" where
  "locks_ok s \<longleftrightarrow> (\<forall>r w. sw_owner s r = Some w \<longleftrightarrow> w < length (sw_workers s) \<and> r \<in> set (locks_of entries (sw_workers s ! w)))"

definition sweep_inv :: "sweep \<Rightarrow> bool" where
  "sweep_inv s \<longleftrightarrow> length (sw_errs s) = length entries \<and> jobs_ok s \<and> locks_ok s \<and>
     (\<forall>w < length (sw_workers s). phase_ok s (sw_workers s ! w)) \<and> (\<forall>i \<in> sw_done s. sw_errs s ! i = serial ! i)"

lemma become_fields [simp]:
  "sw_workers (become w p s) = (sw_workers s)[w := p]" "sw_next (become w p s) = sw_next s" "sw_owner (become w p s) = sw_owner s"
  "sw_done (become w p s) = sw_done s" "sw_errs (become w p s) = sw_errs s"
  by (simp_all add: become_def)

lemma phase_ok_mono:
  "phase_ok s p \<Longrightarrow> sw_done s \<subseteq> sw_done t \<Longrightarrow> \<forall>j. job_of p = Some j \<longrightarrow> sw_errs t ! j = sw_errs s ! j \<Longrightarrow> phase_ok t p"
  by (cases p) (auto simp: phase_ok_def)

lemma job_become: "w < length (sw_workers s) \<Longrightarrow> job (become w p s) = (job s)(w := job_of p)"
  by (auto simp: job_def fun_eq_iff nth_list_update)

lemma job_frame [simp]:
  "job (s\<lparr>sw_next := x\<rparr>) = job s" "job (s\<lparr>sw_owner := m\<rparr>) = job s" "job (s\<lparr>sw_done := d\<rparr>) = job s" "job (s\<lparr>sw_errs := e\<rparr>) = job s"
  by (simp_all add: job_def fun_eq_iff)

lemma jobs_ok_frame [simp]: "jobs_ok (s\<lparr>sw_owner := m\<rparr>) = jobs_ok s" "jobs_ok (s\<lparr>sw_errs := e\<rparr>) = jobs_ok s"
  by (simp_all add: jobs_ok_def)

lemma jobs_ok_same:
  assumes "jobs_ok s" "w < length (sw_workers s)" "job_of p = job_of (sw_workers s ! w)"
  shows "jobs_ok (become w p s)"
proof -
  have "job (become w p s) = job s" using assms(2,3) job_become [of w s p] by (simp add: job_def fun_eq_iff)
  then show ?thesis using assms(1) by (simp add: jobs_ok_def)
qed

lemma inj_on_new: "inj_on m (dom m) \<Longrightarrow> x \<notin> ran m \<Longrightarrow> m w = None \<Longrightarrow> inj_on (m(w \<mapsto> x)) (dom (m(w \<mapsto> x)))"
  unfolding inj_on_def by (auto simp: ran_def)

lemma inj_on_drop: "inj_on m (dom m) \<Longrightarrow> inj_on (m(w := None)) (dom (m(w := None)))"
  by (auto simp: inj_on_def)

lemma ran_drop:
  assumes "inj_on m (dom m)" "m w = Some x"
  shows "ran (m(w := None)) = ran m - {x}"
proof (intro set_eqI iffI)
  fix y assume "y \<in> ran (m(w := None))"
  then obtain v where v: "v \<noteq> w" "m v = Some y" by (auto simp: ran_def split: if_splits)
  then have "y \<noteq> x" using assms unfolding inj_on_def by (metis domI)
  then show "y \<in> ran m - {x}" using v by (auto simp: ran_def)
next
  fix y assume "y \<in> ran m - {x}"
  then obtain v where "m v = Some y" "y \<noteq> x" by (auto simp: ran_def)
  then show "y \<in> ran (m(w := None))" using assms(2) by (auto simp: ran_def intro!: exI [of _ v])
qed

lemma jobs_ok_take:
  assumes "jobs_ok s" "w < length (sw_workers s)" "sw_workers s ! w = Idle" "sw_next s < length entries"
  shows "jobs_ok (become w (Waiting (sw_next s) 0) (s\<lparr>sw_next := Suc (sw_next s)\<rparr>))"
proof -
  have j: "job s w = None" using assms(3) by (simp add: job_def)
  have "sw_next s \<notin> ran (job s)" using assms(1) by (auto simp: jobs_ok_def)
  with inj_on_new [OF _ this j] assms j show ?thesis by (auto simp: jobs_ok_def job_become)
qed

lemma jobs_ok_finish:
  assumes "jobs_ok s" "w < length (sw_workers s)" "sw_workers s ! w = Releasing i 0"
  shows "jobs_ok (become w Idle (s\<lparr>sw_done := insert i (sw_done s)\<rparr>))"
proof -
  have j: "job s w = Some i" using assms(2,3) by (simp add: job_def)
  then have "i \<in> ran (job s)" by (auto simp: ran_def)
  then show ?thesis using assms(1,2) inj_on_drop [of "job s" w] ran_drop [of "job s" w i] j by (auto simp: jobs_ok_def job_become)
qed

lemma job_unique:
  assumes "jobs_ok s" "v < length (sw_workers s)" "w < length (sw_workers s)"
    and "job_of (sw_workers s ! v) = Some i" "job_of (sw_workers s ! w) = Some i"
  shows "v = w"
proof -
  have "job s v = Some i" "job s w = Some i" using assms by (simp_all add: job_def)
  then show ?thesis using assms(1) unfolding jobs_ok_def inj_on_def by (metis domI)
qed

lemma job_open:
  assumes "jobs_ok s" "w < length (sw_workers s)" "job_of (sw_workers s ! w) = Some i"
  shows "i < length entries" "i \<notin> sw_done s"
proof -
  have "i \<in> ran (job s)" using assms(2,3) by (auto simp: ran_def job_def intro!: exI [of _ w])
  moreover have "ran (job s) \<subseteq> {..<length entries}" "ran (job s) \<inter> sw_done s = {}" using assms(1) by (auto simp: jobs_ok_def)
  ultimately show "i < length entries" "i \<notin> sw_done s" by auto
qed

section \<open>Locks\<close>

lemma locks_ok_same:
  assumes "locks_ok s" "w < length (sw_workers s)" "locks_of entries p = locks_of entries (sw_workers s ! w)"
  shows "locks_ok (become w p s)"
  using assms by (simp add: locks_ok_def nth_list_update)

lemma locks_ok_frame [simp]:
  "locks_ok (s\<lparr>sw_next := x\<rparr>) = locks_ok s" "locks_ok (s\<lparr>sw_done := d\<rparr>) = locks_ok s" "locks_ok (s\<lparr>sw_errs := e\<rparr>) = locks_ok s"
  by (simp_all add: locks_ok_def)

lemma locks_ok_acquire:
  assumes "locks_ok s" "w < length (sw_workers s)" "sw_owner s r = None"
    and "set (locks_of entries p) = insert r (set (locks_of entries (sw_workers s ! w)))"
  shows "locks_ok (become w p (s\<lparr>sw_owner := (sw_owner s)(r \<mapsto> w)\<rparr>))"
proof -
  have "r \<notin> set (locks_of entries (sw_workers s ! v))" if "v < length (sw_workers s)" for v
    using assms(1,3) that unfolding locks_ok_def by (metis option.distinct(1))
  then show ?thesis using assms unfolding locks_ok_def by (auto simp: nth_list_update)
qed

lemma locks_ok_release:
  assumes "locks_ok s" "w < length (sw_workers s)" "r \<in> set (locks_of entries (sw_workers s ! w))"
    and "set (locks_of entries p) = set (locks_of entries (sw_workers s ! w)) - {r}"
  shows "locks_ok (become w p (s\<lparr>sw_owner := (sw_owner s)(r := None)\<rparr>))"
proof -
  have o: "sw_owner s r = Some w" using assms(1-3) by (simp add: locks_ok_def)
  then have "r \<notin> set (locks_of entries (sw_workers s ! v))" if "v < length (sw_workers s)" "v \<noteq> w" for v
    using assms(1) that unfolding locks_ok_def by (metis option.inject)
  then show ?thesis using assms unfolding locks_ok_def by (auto simp: nth_list_update)
qed

section \<open>Every turn keeps the invariant\<close>

lemma inv_become:
  assumes "sweep_inv s" "w < length (sw_workers s)" "jobs_ok (become w p u)" "locks_ok (become w p u)"
    and "sw_workers u = sw_workers s" "phase_ok u p" "sw_done s \<subseteq> sw_done u" "length (sw_errs u) = length entries"
    and "\<And>j. job_of (sw_workers s ! w) \<noteq> Some j \<Longrightarrow> sw_errs u ! j = sw_errs s ! j"
    and "\<And>j. j \<in> sw_done u \<Longrightarrow> sw_errs u ! j = serial ! j"
  shows "sweep_inv (become w p u)"
proof -
  have u: "phase_ok (become w p u) q = phase_ok u q" for q by (cases q) (simp_all add: phase_ok_def)
  have "phase_ok u (sw_workers s ! v)" if v: "v < length (sw_workers s)" "v \<noteq> w" for v
  proof (rule phase_ok_mono [of s])
    show "\<forall>j. job_of (sw_workers s ! v) = Some j \<longrightarrow> sw_errs u ! j = sw_errs s ! j"
      using assms(1,2,9) v job_unique [of s v w] unfolding sweep_inv_def by blast
  qed (use assms(1,7) v in \<open>auto simp: sweep_inv_def\<close>)
  then show ?thesis using assms u by (simp add: sweep_inv_def nth_list_update)
qed

lemma errs_keep:
  assumes "sweep_inv s" "w < length (sw_workers s)" "job_of (sw_workers s ! w) = Some i"
  shows "j \<in> sw_done s \<Longrightarrow> (sw_errs s)[i := e] ! j = serial ! j"
  using job_open(2) [of s w i] assms by (cases "j = i") (auto simp: sweep_inv_def)

lemma step_inv_waiting:
  assumes "sweep_inv s" "w < length (sw_workers s)" "sw_workers s ! w = Waiting i k" "worker_turn entries callback w s = Some t"
  shows "sweep_inv t"
proof -
  have j: "job_of (sw_workers s ! w) = Some i" and jobs: "jobs_ok s" and locks: "locks_ok s" and ph: "phase_ok s (Waiting i k)"
    and len: "length (sw_errs s) = length entries"
    using assms(1-3) by (auto simp: sweep_inv_def)
  show ?thesis
  proof (cases "k < length (after i)")
    case True
    then have a: "after i ! k \<in> sw_done s" and t: "t = become w (Waiting i (Suc k)) s"
      using assms(3,4) by (auto simp: worker_turn_def split: if_split_asm)
    show ?thesis unfolding t
    proof (rule inv_become [OF assms(1,2)])
      show "phase_ok s (Waiting i (Suc k))" using ph a True by (auto simp: phase_ok_def take_Suc_conv_app_nth)
    qed (use assms j jobs locks len in \<open>auto simp: sweep_inv_def intro!: jobs_ok_same locks_ok_same\<close>)
  next
    case False
    then have all: "set (after i) \<subseteq> sw_done s" using ph by (simp add: phase_ok_def)
    then have h: "heldByUnretiredLeaf entries (sw_errs s) i = heldByUnretiredLeaf entries serial i"
      using assms(1) held_by_cong [of "after i" "sw_errs s" serial entries i] by (auto simp: sweep_inv_def heldByUnretiredLeaf_def)
    have i: "i < length entries" using job_open(1) [OF jobs assms(2) j] .
    show ?thesis
    proof (cases "heldByUnretiredLeaf entries serial i")
      case None
      then have t: "t = become w (Locking i 0) (s\<lparr>sw_errs := (sw_errs s)[i := None]\<rparr>)"
        using False assms(3,4) h by (simp add: worker_turn_def)
      show ?thesis unfolding t
      proof (rule inv_become [OF assms(1,2)])
        show "phase_ok (s\<lparr>sw_errs := (sw_errs s)[i := None]\<rparr>) (Locking i 0)" using None all by (simp add: phase_ok_def)
      qed (use assms j jobs locks len errs_keep [OF assms(1,2) j] in \<open>auto intro!: jobs_ok_same locks_ok_same\<close>)
    next
      case (Some err)
      then have t: "t = become w (Releasing i 0) (s\<lparr>sw_errs := (sw_errs s)[i := Some err]\<rparr>)"
        using False assms(3,4) h by (simp add: worker_turn_def)
      show ?thesis unfolding t
      proof (rule inv_become [OF assms(1,2)])
        show "phase_ok (s\<lparr>sw_errs := (sw_errs s)[i := Some err]\<rparr>) (Releasing i 0)"
          using Some len i serial_nth [OF i] by (simp add: phase_ok_def)
      qed (use assms j jobs locks len errs_keep [OF assms(1,2) j] in \<open>auto intro!: jobs_ok_same locks_ok_same\<close>)
    qed
  qed
qed

lemma step_inv_locking:
  assumes "sweep_inv s" "w < length (sw_workers s)" "sw_workers s ! w = Locking i k" "worker_turn entries callback w s = Some t"
  shows "sweep_inv t"
proof -
  have j: "job_of (sw_workers s ! w) = Some i" and jobs: "jobs_ok s" and locks: "locks_ok s" and ph: "phase_ok s (Locking i k)"
    and len: "length (sw_errs s) = length entries"
    using assms(1-3) by (auto simp: sweep_inv_def)
  have i: "i < length entries" using job_open(1) [OF jobs assms(2) j] .
  show ?thesis
  proof (cases "k < length (clones i)")
    case True
    then have free: "sw_owner s (clones i ! k) = None"
      and t: "t = become w (Locking i (Suc k)) (s\<lparr>sw_owner := (sw_owner s)(clones i ! k \<mapsto> w)\<rparr>)"
      using assms(3,4) by (auto simp: worker_turn_def split: option.split_asm)
    show ?thesis unfolding t
    proof (rule inv_become [OF assms(1,2)])
      show "locks_ok (become w (Locking i (Suc k)) (s\<lparr>sw_owner := (sw_owner s)(clones i ! k \<mapsto> w)\<rparr>))"
        by (rule locks_ok_acquire [OF locks assms(2) free]) (simp add: assms(3) take_Suc_conv_app_nth [OF True])
      show "phase_ok (s\<lparr>sw_owner := (sw_owner s)(clones i ! k \<mapsto> w)\<rparr>) (Locking i (Suc k))" using ph True by (simp add: phase_ok_def)
    qed (use assms j jobs len in \<open>auto simp: sweep_inv_def intro!: jobs_ok_same\<close>)
  next
    case False
    then have k: "k = length (clones i)" using ph by (simp add: phase_ok_def)
    have t: "t = become w (Releasing i (length (clones i))) (s\<lparr>sw_errs := (sw_errs s)[i := callback (entries ! i)]\<rparr>)"
      using False assms(3,4) by (simp add: worker_turn_def)
    show ?thesis unfolding t
    proof (rule inv_become [OF assms(1,2)])
      show "phase_ok (s\<lparr>sw_errs := (sw_errs s)[i := callback (entries ! i)]\<rparr>) (Releasing i (length (clones i)))"
        using ph len i serial_nth [OF i] by (simp add: phase_ok_def)
    qed (use assms j k jobs locks len errs_keep [OF assms(1,2) j] in \<open>auto intro!: jobs_ok_same locks_ok_same\<close>)
  qed
qed

lemma step_inv_releasing:
  assumes "sweep_inv s" "w < length (sw_workers s)" "sw_workers s ! w = Releasing i k" "worker_turn entries callback w s = Some t"
  shows "sweep_inv t"
proof -
  have j: "job_of (sw_workers s ! w) = Some i" and jobs: "jobs_ok s" and locks: "locks_ok s" and ph: "phase_ok s (Releasing i k)"
    and len: "length (sw_errs s) = length entries"
    using assms(1-3) by (auto simp: sweep_inv_def)
  show ?thesis
  proof (cases k)
    case 0
    then have t: "t = become w Idle (s\<lparr>sw_done := insert i (sw_done s)\<rparr>)" using assms(3,4) by (simp add: worker_turn_def)
    show ?thesis unfolding t
    proof (rule inv_become [OF assms(1,2)])
      show "jobs_ok (become w Idle (s\<lparr>sw_done := insert i (sw_done s)\<rparr>))" using jobs_ok_finish [OF jobs assms(2)] assms(3) 0 by simp
    qed (use assms 0 ph locks len in \<open>auto simp: sweep_inv_def phase_ok_def intro!: locks_ok_same\<close>)
  next
    case (Suc m)
    let ?r = "clones i ! m"
    have m: "m < length (clones i)" using ph Suc by (simp add: phase_ok_def)
    have d: "distinct (clones i)" using repositories_sorted [OF job_open(1) [OF jobs assms(2) j]] by simp
    have r: "?r \<notin> set (take m (clones i))" using d m by (metis distinct_take not_distinct_conv_prefix take_Suc_conv_app_nth)
    have t: "t = become w (Releasing i m) (s\<lparr>sw_owner := (sw_owner s)(?r := None)\<rparr>)" using Suc assms(3,4) by (simp add: worker_turn_def)
    show ?thesis unfolding t
    proof (rule inv_become [OF assms(1,2)])
      show "locks_ok (become w (Releasing i m) (s\<lparr>sw_owner := (sw_owner s)(?r := None)\<rparr>))"
        by (rule locks_ok_release [OF locks assms(2)]) (use assms(3) Suc m r in \<open>auto simp: take_Suc_conv_app_nth\<close>)
      show "phase_ok (s\<lparr>sw_owner := (sw_owner s)(?r := None)\<rparr>) (Releasing i m)" using ph Suc by (simp add: phase_ok_def)
    qed (use assms j jobs len in \<open>auto simp: sweep_inv_def intro!: jobs_ok_same\<close>)
  qed
qed

lemma turn_inv:
  assumes "sweep_inv s" "sweep_step entries callback s t"
  shows "sweep_inv t"
  using assms(2)
proof cases
  case (turn w)
  show ?thesis
  proof (cases "sw_workers s ! w")
    case Idle
    then have n: "sw_next s < length entries" and t: "t = become w (Waiting (sw_next s) 0) (s\<lparr>sw_next := Suc (sw_next s)\<rparr>)"
      using turn(2) by (auto simp: worker_turn_def split: if_split_asm)
    have inv: "jobs_ok s" "locks_ok s" using assms(1) by (simp_all add: sweep_inv_def)
    show ?thesis unfolding t
      by (rule inv_become [OF assms(1) turn(1) jobs_ok_take [OF inv(1) turn(1) Idle n]])
        (use assms(1) inv turn(1) Idle in \<open>auto simp: sweep_inv_def phase_ok_def intro!: locks_ok_same\<close>)
  qed (use assms(1) turn step_inv_waiting step_inv_locking step_inv_releasing in blast)+
qed

lemma start_inv: "sweep_inv (sweep_start entries workers)"
proof -
  have "job (sweep_start entries workers) = Map.empty" by (auto simp: job_def sweep_start_def)
  then show ?thesis by (auto simp: sweep_inv_def jobs_ok_def locks_ok_def phase_ok_def sweep_start_def)
qed

section \<open>The sweep never gets stuck\<close>

lemma can_step: "w < length (sw_workers s) \<Longrightarrow> worker_turn entries callback w s \<noteq> None \<Longrightarrow> \<exists>t. sweep_step entries callback s t"
  using turn by blast

lemma releasing_steps: "w < length (sw_workers s) \<Longrightarrow> sw_workers s ! w = Releasing i k \<Longrightarrow> \<exists>t. sweep_step entries callback s t"
  using can_step [of w s] by (simp add: worker_turn_def split: if_split_asm)

lemma waiting_steps:
  assumes "w < length (sw_workers s)" "sw_workers s ! w = Waiting i k" "k < length (after i) \<Longrightarrow> after i ! k \<in> sw_done s"
  shows "\<exists>t. sweep_step entries callback s t"
  by (rule can_step [OF assms(1)]) (use assms in \<open>simp add: worker_turn_def split: option.split\<close>)

lemma locking_steps:
  assumes "w < length (sw_workers s)" "sw_workers s ! w = Locking i k" "k < length (clones i) \<Longrightarrow> sw_owner s (clones i ! k) = None"
  shows "\<exists>t. sweep_step entries callback s t"
  by (rule can_step [OF assms(1)]) (use assms in \<open>simp add: worker_turn_def\<close>)

text \<open>The worker that wants the greatest clone is not blocked: whoever holds it wants a greater one
  or releases what it has.\<close>

lemma lockers_step:
  assumes "sweep_inv s" "v < length (sw_workers s)" "sw_workers s ! v = Locking i0 k0"
    and none: "\<forall>w < length (sw_workers s). \<forall>i k. sw_workers s ! w \<noteq> Releasing i k"
  shows "\<exists>t. sweep_step entries callback s t"
proof (rule ccontr)
  assume stuck: "\<nexists>t. sweep_step entries callback s t"
  let ?wants = "{clones i ! k |i k. \<exists>w < length (sw_workers s). sw_workers s ! w = Locking i k}"
  have want: "\<exists>u. k < length (clones i) \<and> sw_owner s (clones i ! k) = Some u" if "w < length (sw_workers s)" "sw_workers s ! w = Locking i k" for w i k
    using locking_steps [OF that] stuck by (metis option.exhaust)
  have "?wants \<subseteq> (\<lambda>p. case p of Locking i k \<Rightarrow> clones i ! k | _ \<Rightarrow> []) ` set (sw_workers s)"
    by (force simp: in_set_conv_nth image_iff)
  then have fin: "finite ?wants" by (rule finite_subset) simp
  have "clones i0 ! k0 \<in> ?wants" using assms(2,3) by blast
  then have "Max ?wants \<in> ?wants" using fin by (intro Max_in) auto
  then obtain w i k where w: "w < length (sw_workers s)" "sw_workers s ! w = Locking i k" "clones i ! k = Max ?wants" by force
  obtain u where u: "sw_owner s (clones i ! k) = Some u" using want [OF w(1,2)] by blast
  then have held: "u < length (sw_workers s)" "clones i ! k \<in> set (locks_of entries (sw_workers s ! u))"
    using assms(1) by (auto simp: sweep_inv_def locks_ok_def)
  then obtain j m where j: "sw_workers s ! u = Locking j m" using none by (cases "sw_workers s ! u") auto
  have m: "m < length (clones j)" using want [OF held(1) j] by blast
  have so: "sorted (clones j)" "distinct (clones j)"
    using repositories_sorted [of j] job_open(1) [of s u j] assms(1) held(1) j by (auto simp: sweep_inv_def)
  obtain q where q: "q < m" "clones j ! q = clones i ! k" using held(2) j m by (auto simp: in_set_conv_nth)
  have "clones j ! q \<le> clones j ! m" using so(1) q(1) m by (simp add: sorted_nth_mono)
  moreover have "clones j ! q \<noteq> clones j ! m" using so(2) q(1) m by (simp add: nth_eq_iff_index_eq)
  ultimately have "clones i ! k < clones j ! m" using q(2) by simp
  moreover have "clones j ! m \<in> ?wants" using held(1) j by blast
  ultimately show False using w(3) Max_ge [OF fin, of "clones j ! m"] by simp
qed

text \<open>Without anyone at the locks, the waiting worker with the earliest task is not blocked.\<close>

lemma waiters_step:
  assumes "sweep_inv s" "v < length (sw_workers s)" "sw_workers s ! v = Waiting i0 k0"
    and none: "\<forall>w < length (sw_workers s). \<forall>i k. sw_workers s ! w \<noteq> Releasing i k \<and> sw_workers s ! w \<noteq> Locking i k"
  shows "\<exists>t. sweep_step entries callback s t"
proof -
  let ?waits = "\<lambda>i. \<exists>w < length (sw_workers s). \<exists>k. sw_workers s ! w = Waiting i k"
  define i where "i = (LEAST i. ?waits i)"
  have "?waits i0" using assms(2,3) by blast
  then have "?waits i" unfolding i_def by (rule LeastI)
  then obtain w k where w: "w < length (sw_workers s)" "sw_workers s ! w = Waiting i k" by blast
  have jobs: "jobs_ok s" using assms(1) by (simp add: sweep_inv_def)
  show ?thesis
  proof (rule waiting_steps [OF w])
    assume k: "k < length (after i)"
    let ?a = "after i ! k"
    have i: "i < length entries" using job_open(1) [OF jobs w(1), of i] w(2) by simp
    have a: "?a < i" using after_earlier [OF i nth_mem [OF k]] .
    have "job s w = Some i" using w by (simp add: job_def)
    then have "i \<in> ran (job s)" by (auto simp: ran_def)
    then have "i < sw_next s" using jobs by (auto simp: jobs_ok_def)
    then have "?a \<in> sw_done s \<union> ran (job s)" using jobs a by (auto simp: jobs_ok_def)
    moreover have "?a \<notin> ran (job s)"
    proof
      assume "?a \<in> ran (job s)"
      then obtain u where u: "u < length (sw_workers s)" "job_of (sw_workers s ! u) = Some ?a" by (auto simp: ran_def job_def split: if_split_asm)
      then have "?waits ?a" using none by (cases "sw_workers s ! u") auto
      then show False using a not_less_Least unfolding i_def by blast
    qed
    ultimately show "?a \<in> sw_done s" by blast
  qed
qed

lemma sweep_progress:
  assumes "sweep_inv s" "sw_workers s \<noteq> []" "\<not> sweep_finished entries s"
  shows "\<exists>t. sweep_step entries callback s t"
proof -
  consider (rel) w i k where "w < length (sw_workers s)" "sw_workers s ! w = Releasing i k"
    | (lock) w i k where "w < length (sw_workers s)" "sw_workers s ! w = Locking i k" "\<forall>w < length (sw_workers s). \<forall>i k. sw_workers s ! w \<noteq> Releasing i k"
    | (wait) w i k where "w < length (sw_workers s)" "sw_workers s ! w = Waiting i k"
        "\<forall>w < length (sw_workers s). \<forall>i k. sw_workers s ! w \<noteq> Releasing i k \<and> sw_workers s ! w \<noteq> Locking i k"
    | (idle) "\<forall>w < length (sw_workers s). sw_workers s ! w = Idle"
    by (metis worker.exhaust)
  then show ?thesis
  proof cases
    case idle
    then have "sw_workers s ! 0 = Idle" "0 < length (sw_workers s)" using assms(2) by auto
    moreover have "sw_next s \<noteq> length entries" using assms(3) idle by (auto simp: sweep_finished_def list_all_length)
    then have "sw_next s < length entries" using assms(1) by (auto simp: sweep_inv_def jobs_ok_def)
    ultimately show ?thesis by (intro can_step [of 0]) (simp_all add: worker_turn_def)
  qed (use assms(1) releasing_steps lockers_step waiters_step in blast)+
qed

section \<open>The sweep ends\<close>

lemma sum_list_replace: "w < length xs \<Longrightarrow> sum_list (xs[w := y]) + xs ! w = sum_list xs + (y :: nat)"
  by (induction xs arbitrary: w) (auto split: nat.split)

lemma turns_become:
  assumes "w < length (sw_workers s)" "sw_next u = sw_next s" "sw_workers u = sw_workers s"
    and "turns_left entries p < turns_left entries (sw_workers s ! w)"
  shows "sweep_turns entries (become w p u) < sweep_turns entries s"
  using sum_list_replace [of w "map (turns_left entries) (sw_workers s)" "turns_left entries p"] assms
  by (simp add: sweep_turns_def map_update)

lemma sweep_turns_less:
  assumes "sweep_inv s" "sweep_step entries callback s t"
  shows "sweep_turns entries t < sweep_turns entries s"
  using assms(2)
proof cases
  case (turn w)
  have ph: "phase_ok s (sw_workers s ! w)" using assms(1) turn(1) by (simp add: sweep_inv_def)
  show ?thesis
  proof (cases "sw_workers s ! w")
    case Idle
    let ?u = "s\<lparr>sw_next := Suc (sw_next s)\<rparr>"
    have n: "sw_next s < length entries" and t: "t = become w (Waiting (sw_next s) 0) ?u"
      using turn(2) Idle by (auto simp: worker_turn_def split: if_split_asm)
    have "sum_list (map (turns_left entries) (sw_workers t)) = sum_list (map (turns_left entries) (sw_workers s)) + turns_left entries (Waiting (sw_next s) 0)"
      using sum_list_replace [of w "map (turns_left entries) (sw_workers s)" "turns_left entries (Waiting (sw_next s) 0)"] turn(1) Idle
      by (simp add: t map_update del: turns_left.simps(2))
    then show ?thesis using n by (simp add: t sweep_turns_def job_turns_def upt_conv_Cons del: turns_left.simps(2))
  next
    case (Waiting i k)
    then have "\<exists>p u. t = become w p u \<and> sw_next u = sw_next s \<and> sw_workers u = sw_workers s \<and>
        turns_left entries p < turns_left entries (sw_workers s ! w)"
      using turn(2) by (auto simp: worker_turn_def split: if_split_asm option.split_asm intro!: exI)
    then show ?thesis using turns_become [OF turn(1)] by blast
  next
    case (Locking i k)
    then have "\<exists>p u. t = become w p u \<and> sw_next u = sw_next s \<and> sw_workers u = sw_workers s \<and>
        turns_left entries p < turns_left entries (sw_workers s ! w)"
      using turn(2) ph by (auto simp: worker_turn_def phase_ok_def split: if_split_asm option.split_asm intro!: exI)
    then show ?thesis using turns_become [OF turn(1)] by blast
  next
    case (Releasing i k)
    then have "\<exists>p u. t = become w p u \<and> sw_next u = sw_next s \<and> sw_workers u = sw_workers s \<and>
        turns_left entries p < turns_left entries (sw_workers s ! w)"
      using turn(2) by (auto simp: worker_turn_def split: if_split_asm intro!: exI)
    then show ?thesis using turns_become [OF turn(1)] by blast
  qed
qed

lemma finished_report:
  assumes "sweep_inv s" "sweep_finished entries s"
  shows "sw_errs s = serial"
proof (rule nth_equalityI)
  show "length (sw_errs s) = length serial" using assms(1) by (simp add: sweep_inv_def)
  fix i assume "i < length (sw_errs s)"
  then have i: "i < sw_next s" using assms by (simp add: sweep_inv_def sweep_finished_def)
  have "job s = Map.empty" using assms(2) by (auto simp: job_def sweep_finished_def list_all_length)
  then have "i \<in> sw_done s" using assms(1) i by (auto simp: sweep_inv_def jobs_ok_def)
  then show "sw_errs s ! i = serial ! i" using assms(1) by (simp add: sweep_inv_def)
qed

lemma workers_kept: "sweep_step entries callback s t \<Longrightarrow> length (sw_workers t) = length (sw_workers s)"
  by (auto elim!: sweep_stepE simp: worker_turn_def split: worker.split_asm if_split_asm option.split_asm)

lemma run_bounded:
  "(sweep_step entries callback ^^ m) (sweep_start entries workers) s \<Longrightarrow>
     sweep_inv s \<and> length (sw_workers s) = workers \<and> m + sweep_turns entries s \<le> sweep_turns entries (sweep_start entries workers)"
proof (induction m arbitrary: s)
  case 0
  then show ?case using start_inv [of workers] by (auto simp: sweep_start_def)
next
  case (Suc m)
  then obtain u where u: "(sweep_step entries callback ^^ m) (sweep_start entries workers) u" "sweep_step entries callback u s" by auto
  from Suc.IH [OF u(1)] turn_inv [of u s] sweep_turns_less [of u s] workers_kept [OF u(2)] u(2) show ?case by auto
qed

lemma start_turns: "sweep_turns entries (sweep_start entries workers) = sum_list (map (job_turns entries) [0..<length entries])"
  by (simp add: sweep_turns_def sweep_start_def sum_list_replicate)

section \<open>Two tasks on one clone\<close>

lemma lockers_apart:
  assumes "sweep_inv s" "v < length (sw_workers s)" "w < length (sw_workers s)" "v \<noteq> w"
  shows "set (locks_of entries (sw_workers s ! v)) \<inter> set (locks_of entries (sw_workers s ! w)) = {}"
  using assms unfolding sweep_inv_def locks_ok_def by (metis disjoint_iff option.inject)

lemma locking_after_leaves:
  assumes "sweep_inv s" "w < length (sw_workers s)" "sw_workers s ! w = Locking i k" "a \<in> set (after i)"
  shows "a \<in> sw_done s \<and> sw_errs s ! a = None"
proof -
  have "phase_ok s (Locking i k)" using assms(1-3) by (metis sweep_inv_def)
  then have "a \<in> sw_done s" "serial ! a = None"
    using assms(4) held_by_None [of entries serial i "after i"] by (auto simp: phase_ok_def heldByUnretiredLeaf_def)
  then show ?thesis using assms(1) by (simp add: sweep_inv_def)
qed

lemma run_to_finish:
  assumes "sweep_inv s" "sw_workers s \<noteq> []"
  shows "\<exists>t. (sweep_step entries callback)\<^sup>*\<^sup>* s t \<and> sweep_finished entries t"
  using assms
proof (induction "sweep_turns entries s" arbitrary: s rule: less_induct)
  case less
  show ?case
  proof (cases "sweep_finished entries s")
    case False
    then obtain t where t: "sweep_step entries callback s t" using sweep_progress less.prems by blast
    have "sw_workers t \<noteq> []" using workers_kept [OF t] less.prems(2) by fastforce
    with less.hyps [OF sweep_turns_less [OF less.prems(1) t] turn_inv [OF less.prems(1) t]]
    show ?thesis using t by (meson converse_rtranclp_into_rtranclp)
  qed auto
qed

lemma reachable_sweep: "(sweep_step entries callback)\<^sup>*\<^sup>* (sweep_start entries workers) s \<Longrightarrow> sweep_inv s \<and> length (sw_workers s) = workers"
  using run_bounded by (metis rtranclp_imp_relpowp)

end

section \<open>The plan of a run\<close>

lemma plan_task_repositories: "sorted (ae_repositories (plan_task outcome home x)) \<and> distinct (ae_repositories (plan_task outcome home x))"
  by (simp add: plan_task_def Let_def)

lemma planned_entries:
  "\<exists>ordered. planCleanupApply outcome home = Some ordered \<and>
     (\<forall>i < length ordered. (\<forall>a \<in> set (ae_after (ordered ! i)). a < i) \<and>
        sorted (ae_repositories (ordered ! i)) \<and> distinct (ae_repositories (ordered ! i)))"
proof -
  let ?entries = "map (plan_task outcome home) (cleanupTaskSelections outcome home)"
  obtain perm ordered where o: "planCleanupApply outcome home = Some ordered" and ao: "apply_order ?entries (cp_results outcome) perm ordered"
    using orderLeavesBeforeBases_order unfolding planCleanupApply_def by blast
  have len: "length ordered = length ?entries" and perm: "set perm = {..<length ?entries}" "length perm = length ?entries"
    using ao by (simp_all only: apply_order_def)
  have "(\<forall>a \<in> set (ae_after (ordered ! i)). a < i) \<and> sorted (ae_repositories (ordered ! i)) \<and> distinct (ae_repositories (ordered ! i))"
    if i: "i < length ordered" for i
  proof -
    obtain after where e: "ordered ! i = (?entries ! (perm ! i))\<lparr>ae_after := after\<rparr>" "\<forall>a \<in> set after. a < i"
      using ao i len unfolding apply_order_def by metis
    have "perm ! i \<in> set perm" using i len perm(2) by simp
    then have "perm ! i < length ?entries" using perm(1) by blast
    then show ?thesis using e plan_task_repositories by simp
  qed
  then show ?thesis using o by blast
qed

interpretation planned: apply_plan "the (planCleanupApply outcome home)" callback for outcome home callback
  using planned_entries [of outcome home] by unfold_locales auto

section \<open>Properties\<close>

text \<open>
  C4: a sweep cannot deadlock and cannot run forever. Whatever the plan of a cleanup, however many
  workers it has and however their turns interleave, a run has at most the turns that the tasks
  of the plan add up to, and until all workers have ended some worker can take its next turn:
  waiting for stacked tasks and for the locks of several clones never closes a circle.
\<close>

theorem sweep_never_stuck:
  assumes "planCleanupApply outcome home = Some entries" "0 < workers"
    and "(sweep_step entries callback ^^ turns) (sweep_start entries workers) s"
  shows "turns \<le> sum_list (map (job_turns entries) [0..<length entries]) \<and>
    (sweep_finished entries s \<or> (\<exists>t. sweep_step entries callback s t))"
proof -
  have e: "entries = the (planCleanupApply outcome home)" using assms(1) by simp
  note run = planned.run_bounded [where outcome = outcome and home = home and callback = callback, folded e, OF assms(3)]
  then have "sw_workers s \<noteq> []" using assms(2) by auto
  then show ?thesis
    using run planned.start_turns [where outcome = outcome and home = home, folded e] planned.sweep_progress [where outcome = outcome and home = home and callback = callback, folded e] by auto
qed

text \<open>
  C32: the report of a sweep does not depend on how its workers interleave. Every run with at least
  one worker can be completed, and whenever all workers have ended, the error recorded for each
  task is the one the serial path records.
\<close>

theorem sweep_report_serial:
  assumes "planCleanupApply outcome home = Some entries" "0 < workers"
    and "(sweep_step entries callback)\<^sup>*\<^sup>* (sweep_start entries workers) s"
  shows "(\<exists>t. (sweep_step entries callback)\<^sup>*\<^sup>* s t \<and> sweep_finished entries t) \<and>
    (sweep_finished entries s \<longrightarrow> sw_errs s = run_serial entries callback False)"
proof -
  have e: "entries = the (planCleanupApply outcome home)" using assms(1) by simp
  note inv = planned.reachable_sweep [where outcome = outcome and home = home and callback = callback, folded e, OF assms(3)]
  then have "sw_workers s \<noteq> []" using assms(2) by auto
  then show ?thesis
    using inv planned.run_to_finish [where outcome = outcome and home = home and callback = callback, folded e] planned.finished_report [where outcome = outcome and home = home and callback = callback, folded e] by blast
qed

text \<open>
  C33: one writer per clone, and leaves before bases. While a worker holds the locks of its task, no
  other worker holds the lock of a clone of it; and when a worker has come to the locks of a
  task, every task stacked on a branch of it has been applied without an error.
\<close>

theorem sweep_locks_apart:
  assumes "planCleanupApply outcome home = Some entries"
    and "(sweep_step entries callback)\<^sup>*\<^sup>* (sweep_start entries workers) s"
    and "w < workers" "sw_workers s ! w = Locking i k"
  shows "(\<forall>v < workers. v \<noteq> w \<longrightarrow> set (locks_of entries (sw_workers s ! v)) \<inter> set (take k (ae_repositories (entries ! i))) = {}) \<and>
    (\<forall>a \<in> set (ae_after (entries ! i)). a \<in> sw_done s \<and> sw_errs s ! a = None)"
proof -
  have e: "entries = the (planCleanupApply outcome home)" using assms(1) by simp
  note inv = planned.reachable_sweep [where outcome = outcome and home = home and callback = callback, folded e, OF assms(2)]
  have "set (locks_of entries (sw_workers s ! v)) \<inter> set (take k (ae_repositories (entries ! i))) = {}" if "v < workers" "v \<noteq> w" for v
    using planned.lockers_apart [where outcome = outcome and home = home and callback = callback and s = s and v = v and w = w, folded e] inv that assms(3,4) by simp
  moreover have "a \<in> sw_done s \<and> sw_errs s ! a = None" if "a \<in> set (ae_after (entries ! i))" for a
    using planned.locking_after_leaves [where outcome = outcome and home = home and callback = callback, folded e] inv assms(3,4) that by simp
  ultimately show ?thesis by blast
qed

section \<open>Witnesses\<close>

text \<open>A schedule is the list of the workers that take the next turns.\<close>

fun run_schedule :: "apply_entry list \<Rightarrow> (apply_entry \<Rightarrow> string option) \<Rightarrow> nat list \<Rightarrow> sweep \<Rightarrow> sweep option" where
  "run_schedule entries callback [] s = Some s"
| "run_schedule entries callback (w # ws) s =
     (if w < length (sw_workers s) then Option.bind (worker_turn entries callback w s) (run_schedule entries callback ws) else None)"

lemma run_schedule_steps: "run_schedule entries callback ws s = Some t \<Longrightarrow> (sweep_step entries callback)\<^sup>*\<^sup>* s t"
proof (induction ws arbitrary: s)
  case (Cons w ws)
  then obtain u where "w < length (sw_workers s)" "worker_turn entries callback w s = Some u" "run_schedule entries callback ws u = Some t"
    by (auto split: if_split_asm bind_splits)
  then show ?case using Cons.IH turn by (meson converse_rtranclp_into_rtranclp)
qed simp

definition sample_ordered :: "apply_entry list" where
  "sample_ordered = the (planCleanupApply sample_outcome ''/h'')"

lemma sample_ordered_plan: "planCleanupApply sample_outcome ''/h'' = Some sample_ordered"
  using sample_plan by (auto simp: sample_ordered_def)

theorem sweep_never_stuck_witness:
  "\<exists>t. sweep_step sample_ordered (\<lambda>_. None) (sweep_start sample_ordered 2) t"
proof -
  have "length sample_ordered = 2" by code_simp
  then have "\<not> sweep_finished sample_ordered (sweep_start sample_ordered 2)" by (simp add: sweep_finished_def sweep_start_def)
  then show ?thesis
    using sweep_never_stuck [OF sample_ordered_plan, of 2 0 "\<lambda>_. None" "sweep_start sample_ordered 2"] by simp
qed

theorem sweep_report_serial_witness:
  "\<exists>t. sweep_finished sample_ordered t \<and> sw_errs t = run_serial sample_ordered (\<lambda>_. Some ''failed'') False"
proof -
  have two: "0 < (2 :: nat)" by simp
  obtain t where t: "(sweep_step sample_ordered (\<lambda>_. Some ''failed''))\<^sup>*\<^sup>* (sweep_start sample_ordered 2) t" "sweep_finished sample_ordered t"
    using sweep_report_serial [OF sample_ordered_plan two, of "\<lambda>_. Some ''failed''" "sweep_start sample_ordered 2"] by blast
  then show ?thesis using sweep_report_serial [OF sample_ordered_plan two t(1)] by blast
qed

definition sample_sweep_state :: sweep where
  "sample_sweep_state = the (run_schedule sample_ordered (\<lambda>_. None) [0, 1, 0, 0, 0, 0, 0, 1, 1, 1] (sweep_start sample_ordered 2))"

lemma sample_sweep_run:
  "run_schedule sample_ordered (\<lambda>_. None) [0, 1, 0, 0, 0, 0, 0, 1, 1, 1] (sweep_start sample_ordered 2) \<noteq> None"
  "sw_workers sample_sweep_state ! 1 = Locking 1 1" "ae_after (sample_ordered ! 1) = [0]"
  by code_simp+

theorem sweep_locks_apart_witness:
  "0 \<in> sw_done sample_sweep_state \<and> sw_errs sample_sweep_state ! 0 = None \<and>
   set (locks_of sample_ordered (sw_workers sample_sweep_state ! 0)) \<inter> set (take 1 (ae_repositories (sample_ordered ! 1))) = {}"
proof -
  have "run_schedule sample_ordered (\<lambda>_. None) [0, 1, 0, 0, 0, 0, 0, 1, 1, 1] (sweep_start sample_ordered 2) = Some sample_sweep_state"
    using sample_sweep_run(1) by (auto simp: sample_sweep_state_def)
  from run_schedule_steps [OF this] sweep_locks_apart [OF sample_ordered_plan _ _ sample_sweep_run(2), of "\<lambda>_. None" 2]
  show ?thesis by (simp add: sample_sweep_run(3) [simplified])
qed

end
