(* ===== verification/Effect_Steps.thy ===== *)
theory Effect_Steps
  imports WB_Prelude
begin

text \<open>
  Go code that works through a sequence of boundary calls and returns at the first error: a
  computation takes a state and yields an error or a value together with the state it has reached,
  because what was done before the error stays done. \<open>triple\<close> is partial correctness of such a
  computation with a postcondition for each way it ends; the rules below carry an assertion through
  the sequence step by step.
\<close>

type_synonym ('s, 'a) effect = "'s \<Rightarrow> (string, 'a) result \<times> 's"

definition pass :: "'a \<Rightarrow> ('s, 'a) effect" where
  "pass x s = (Inr x, s)"

definition andThen :: "('s, 'a) effect \<Rightarrow> ('a \<Rightarrow> ('s, 'b) effect) \<Rightarrow> ('s, 'b) effect" where
  "andThen m k s = (case m s of (Inl err, s') \<Rightarrow> (Inl err, s') | (Inr x, s') \<Rightarrow> k x s')"

definition attempt :: "string option \<Rightarrow> ('s, unit) effect" where
  "attempt outcome s = ((case outcome of None \<Rightarrow> Inr () | Some err \<Rightarrow> Inl err), s)"

definition answer :: "(string, 'a) result \<Rightarrow> ('s, 'a) effect" where
  "answer outcome s = (outcome, s)"

definition modify :: "('s \<Rightarrow> 's) \<Rightarrow> ('s, unit) effect" where
  "modify f s = (Inr (), f s)"

definition unless :: "bool \<Rightarrow> ('s, unit) effect \<Rightarrow> ('s, unit) effect" where
  "unless c m = (if c then pass () else m)"

text \<open>The verb \<^verbatim>\<open>%w\<close> after a prefix.\<close>

definition wrap :: "string \<Rightarrow> string option \<Rightarrow> string option" where
  "wrap prefix outcome = map_option (\<lambda>err. prefix @ err) outcome"

section \<open>Assertions\<close>

definition triple :: "('s \<Rightarrow> bool) \<Rightarrow> ('s, 'a) effect \<Rightarrow> ('a \<Rightarrow> 's \<Rightarrow> bool) \<Rightarrow> ('s \<Rightarrow> bool) \<Rightarrow> bool" where
  "triple P m Q E \<longleftrightarrow> (\<forall>s. P s \<longrightarrow> (case m s of (Inl err, s') \<Rightarrow> E s' | (Inr x, s') \<Rightarrow> Q x s'))"

lemma tripleI:
  assumes "\<And>s x s'. P s \<Longrightarrow> m s = (Inr x, s') \<Longrightarrow> Q x s'" "\<And>s err s'. P s \<Longrightarrow> m s = (Inl err, s') \<Longrightarrow> E s'"
  shows "triple P m Q E"
  using assms unfolding triple_def by (auto split: prod.split sum.split)

lemma triple_value: "triple P m Q E \<Longrightarrow> P s \<Longrightarrow> m s = (Inr x, s') \<Longrightarrow> Q x s'"
  unfolding triple_def by fastforce

lemma triple_error: "triple P m Q E \<Longrightarrow> P s \<Longrightarrow> m s = (Inl err, s') \<Longrightarrow> E s'"
  unfolding triple_def by fastforce

text \<open>What holds of the state on both ways out holds of the state reached.\<close>

lemma triple_reached:
  assumes "triple P m (\<lambda>_. E) E" "P s"
  shows "E (snd (m s))"
  using assms unfolding triple_def by (cases "m s") (auto split: sum.splits)

lemma triple_conseq:
  assumes "triple P m Q E" "\<And>s. P' s \<Longrightarrow> P s" "\<And>x s. Q x s \<Longrightarrow> Q' x s" "\<And>s. E s \<Longrightarrow> E' s"
  shows "triple P' m Q' E'"
  by (rule tripleI) (blast intro: assms(2-4) triple_value [OF assms(1)] triple_error [OF assms(1)])+

lemma triple_andThen:
  assumes "triple P m Q E" "\<And>x. triple (Q x) (k x) R E"
  shows "triple P (andThen m k) R E"
proof (rule tripleI)
  fix s y s' assume "P s" "andThen m k s = (Inr y, s')"
  moreover from \<open>andThen m k s = (Inr y, s')\<close> obtain x t where "m s = (Inr x, t)" "k x t = (Inr y, s')"
    unfolding andThen_def by (auto split: prod.splits sum.splits)
  ultimately show "R y s'" using triple_value [OF assms(1)] triple_value [OF assms(2)] by blast
next
  fix s err s' assume p: "P s" and run: "andThen m k s = (Inl err, s')"
  obtain r t where mt: "m s = (r, t)" by (cases "m s")
  show "E s'"
  proof (cases r)
    case (Inl e)
    then show ?thesis using mt run triple_error [OF assms(1) p] by (simp add: andThen_def)
  next
    case (Inr x)
    then show ?thesis using mt run triple_value [OF assms(1) p] triple_error [OF assms(2)] by (simp add: andThen_def)
  qed
qed

lemma triple_pass: "(\<And>s. P s \<Longrightarrow> Q x s) \<Longrightarrow> triple P (pass x) Q E"
  by (rule tripleI) (simp_all add: pass_def)

lemma triple_attempt: "(\<And>s. P s \<Longrightarrow> E s) \<Longrightarrow> (\<And>s. P s \<Longrightarrow> Q () s) \<Longrightarrow> triple P (attempt outcome) Q E"
  by (rule tripleI) (auto simp: attempt_def split: option.splits)

lemma triple_answer:
  assumes "\<And>s. P s \<Longrightarrow> E s" "\<And>s x. P s \<Longrightarrow> outcome = Inr x \<Longrightarrow> Q x s"
  shows "triple P (answer outcome) Q E"
  by (rule tripleI) (simp_all add: answer_def assms)

lemma triple_modify: "(\<And>s. P s \<Longrightarrow> Q () (f s)) \<Longrightarrow> triple P (modify f) Q E"
  by (rule tripleI) (auto simp: modify_def)

lemma triple_unless: "(c \<Longrightarrow> triple P (pass ()) Q E) \<Longrightarrow> (\<not> c \<Longrightarrow> triple P m Q E) \<Longrightarrow> triple P (unless c m) Q E"
  by (simp add: unless_def)

lemma triple_if: "(c \<Longrightarrow> triple P m Q E) \<Longrightarrow> (\<not> c \<Longrightarrow> triple P m' Q E) \<Longrightarrow> triple P (if c then m else m') Q E"
  by simp

lemma triple_absurd: "(\<And>s. \<not> P s) \<Longrightarrow> triple P m Q E"
  by (simp add: triple_def)

text \<open>A step that neither changes the state nor can end anywhere but where it started.\<close>

lemma triple_attempt_then:
  assumes "\<And>s. P s \<Longrightarrow> E s" "triple P m Q E"
  shows "triple P (andThen (attempt outcome) (\<lambda>_. m)) Q E"
  by (rule triple_andThen [OF triple_attempt [where Q = "\<lambda>_. P"]]) (use assms in auto)

end
