(* ===== verification/Lifecycle_Backlog.thy ===== *)
theory Lifecycle_Backlog
  imports Worktree_Plan Repo_Path Effect_Steps
begin

text \<open>
  The durable backlog of worktree removals: the records of \<^verbatim>\<open>internal/worktrees/lifecycle_backlog.go\<close>,
  their validation and how a later run selects the ones to resume.

  A record is that of the plan with the remaining fields of \<^verbatim>\<open>lifecycleBacklogRecord\<close>; its two time
  stamps, which nothing here reads, are left out. \<open>digest\<close> is the hexadecimal SHA-256, \<open>valid_branch\<close>
  the answer of \<^verbatim>\<open>git check-ref-format\<close>.
\<close>

section \<open>Records\<close>

record lifecycle_backlog_record = backlog_record +
  bl_version :: int
  bl_projects_root :: string
  bl_local :: bool
  bl_detached :: bool
  bl_disposition :: string
  bl_recovery_kind :: string
  bl_work_log_effort :: string
  bl_work_log_run :: string
  bl_work_log_claim :: string
  bl_preserve_local_branch :: bool
  bl_failure :: string
  bl_remote_head_sha :: string
  bl_stage :: string

definition lifecycleStageSealed :: string where
  "lifecycleStageSealed = ''sealed''"

definition lifecycleStageRetiringRemote :: string where
  "lifecycleStageRetiringRemote = ''retiring_remote''"

definition lifecycleStageRemoteRetired :: string where
  "lifecycleStageRemoteRetired = ''remote_retired''"

definition lifecycleStageRemovingWorktree :: string where
  "lifecycleStageRemovingWorktree = ''removing_worktree''"

definition lifecycleStageWorktreeRemoved :: string where
  "lifecycleStageWorktreeRemoved = ''worktree_removed''"

definition lifecycleStageRemovingLocalBranch :: string where
  "lifecycleStageRemovingLocalBranch = ''removing_local_branch''"

definition lifecycleStageComplete :: string where
  "lifecycleStageComplete = ''complete''"

lemmas lifecycle_stages = lifecycleStageSealed_def lifecycleStageRetiringRemote_def lifecycleStageRemoteRetired_def
  lifecycleStageRemovingWorktree_def lifecycleStageWorktreeRemoved_def lifecycleStageRemovingLocalBranch_def lifecycleStageComplete_def

text \<open>The stages a later run may find a removal interrupted in.\<close>

definition resumable_stages :: "string list" where
  "resumable_stages =
     [lifecycleStageRetiringRemote, lifecycleStageRemoteRetired, lifecycleStageRemovingWorktree,
      lifecycleStageWorktreeRemoved, lifecycleStageRemovingLocalBranch]"

definition NUL :: string where
  "NUL = [CHR 0x00]"

definition lifecycleBacklogID :: "(string \<Rightarrow> string) \<Rightarrow> list_result \<Rightarrow> string \<Rightarrow> string" where
  "lifecycleBacklogID digest entry disposition =
     digest (Join [''wb-lifecycle-backlog-v1'', lr_task entry, lr_repository entry, lr_branch entry,
       lr_head_sha entry, lr_canonical_dir entry, lr_worktree_dir entry, disposition] NUL)"

definition newLifecycleBacklogRecord :: "(string \<Rightarrow> string) \<Rightarrow> string \<Rightarrow> list_result \<Rightarrow> string \<Rightarrow> lifecycle_backlog_record" where
  "newLifecycleBacklogRecord digest projectsRoot e disposition =
     \<lparr>bl_id = lifecycleBacklogID digest e disposition, bl_task = lr_task e, bl_repository = lr_repository e,
      bl_canonical_dir = lr_canonical_dir e, bl_worktrees_root = lr_worktrees_root e, bl_worktree_dir = lr_worktree_dir e,
      bl_branch = lr_branch e, bl_base = lr_base e, bl_head_sha = lr_head_sha e, bl_external = lr_external e,
      bl_version = 1, bl_projects_root = Clean projectsRoot, bl_local = lr_local e, bl_detached = lr_detached e,
      bl_disposition = disposition, bl_recovery_kind = [], bl_work_log_effort = [], bl_work_log_run = [], bl_work_log_claim = [],
      bl_preserve_local_branch = False, bl_failure = [], bl_remote_head_sha = lr_remote_head_sha e, bl_stage = lifecycleStageSealed\<rparr>"

section \<open>Validation\<close>

text \<open>\<^verbatim>\<open>hex.DecodeString\<close> accepts both cases; the length asked for is even.\<close>

definition ValidClaimID :: "string \<Rightarrow> bool" where
  "ValidClaimID value \<longleftrightarrow> length value = 64 \<and>
     list_all (\<lambda>c. CHR ''0'' \<le> c \<and> c \<le> CHR ''9'' \<or> CHR ''a'' \<le> c \<and> c \<le> CHR ''f'' \<or> CHR ''A'' \<le> c \<and> c \<le> CHR ''F'') value"

definition PathWithin :: "string \<Rightarrow> string \<Rightarrow> bool" where
  "PathWithin root path =
     (case Rel (Clean root) (Clean path) of
        None \<Rightarrow> False
      | Some relative \<Rightarrow> relative \<noteq> ''..'' \<and> \<not> HasPrefix relative ''../'')"

definition CanonicalDirMatchesRepository :: "string \<Rightarrow> string \<Rightarrow> string \<Rightarrow> bool" where
  "CanonicalDirMatchesRepository projectsRoot repository dir =
     (case (SplitRepositoryAddress repository, Rel (Clean projectsRoot) (Clean dir)) of
        (Inr address, Some relative) \<Rightarrow>
          (case Split relative (CHR ''/'') of
             [org, repo] \<Rightarrow> ad_host address = [] \<and> EqualFold org (ad_org address) \<and> EqualFold repo (ad_repo address)
           | [host, org, repo] \<Rightarrow>
               IsForgeHost host \<and> (ad_host address = [] \<or> EqualFold host (ad_host address)) \<and>
               EqualFold org (ad_org address) \<and> EqualFold repo (ad_repo address)
           | _ \<Rightarrow> False)
      | _ \<Rightarrow> False)"

text \<open>\<^verbatim>\<open>filepath.Dir\<close>: everything up to the last slash, cleaned.\<close>

definition Dir :: "string \<Rightarrow> string" where
  "Dir path = Clean (rev (dropWhile (\<lambda>c. c \<noteq> CHR ''/'') (rev path)))"

record layout_claim =
  lc_task :: string
  lc_effort :: string
  lc_run :: string
  lc_repository :: string
  lc_worktree :: string

text \<open>The worktrees root an old shared checkout proves; \<open>None\<close> is the error.\<close>

definition claimedSharedWorktreeLayout :: "string \<Rightarrow> layout_claim \<Rightarrow> string option" where
  "claimedSharedWorktreeLayout path claim =
     (case SplitRepository (lc_repository claim) of
        Inl _ \<Rightarrow> None
      | Inr (owner, repository) \<Rightarrow>
          if \<not> ValidSafeSegment (lc_task claim) then None
          else
            let cleaned = Clean path;
                task = (if ValidSafeSegment (lc_run claim) \<and> lc_effort claim = lc_task claim \<and>
                  lc_task claim = lc_run claim @ ''.'' @ TrimSet ''.-_'' (owner @ ''-'' @ repository) \<and>
                  Clean (lc_worktree claim) = cleaned then lc_run claim else lc_task claim);
                candidate = Dir (Dir cleaned);
                host = Base candidate;
                taskPath = Dir candidate in
            if Base candidate = task \<and> Clean (filepath_Join [candidate, owner, repository]) = cleaned then Some (Dir candidate)
            else if IsForgeHost host \<and> Base taskPath = task \<and> Clean (filepath_Join [taskPath, host, owner, repository]) = cleaned
              then Some (Dir taskPath)
            else None)"

datatype backlog_error =
    BacklogIdentity | BacklogRepository path_error | BacklogRelativePaths | BacklogCanonical | BacklogLocalLayout
  | BacklogNotExternal | BacklogUnresolved | BacklogLayout | BacklogDetachedBranch | BacklogBranch | BacklogBase | BacklogHead
  | BacklogIDMismatch | BacklogDisposition string | BacklogCreateMetadata | BacklogCreateDisposition | BacklogFailureDetail
  | BacklogWorkLogIdentity | BacklogWorkLogIncomplete | BacklogRecoveryKind string | BacklogStage string

definition managed_path :: "string \<Rightarrow> string list \<Rightarrow> bool" where
  "managed_path task parts \<longleftrightarrow>
     (case parts of
        [t, owner, repository] \<Rightarrow> t = task \<and> ValidRepositorySegment owner \<and> ValidRepositorySegment repository
      | [t, host, owner, repository] \<Rightarrow>
          t = task \<and> IsForgeHost host \<and> ValidRepositorySegment owner \<and> ValidRepositorySegment repository
      | [t, repository] \<Rightarrow> t = task \<and> ValidRepositorySegment repository
      | _ \<Rightarrow> False)"

definition placement_error :: "(string \<Rightarrow> string \<Rightarrow> string option) \<Rightarrow> lifecycle_backlog_record \<Rightarrow> backlog_error option" where
  "placement_error relative r =
     (if bl_local r then
        (if Clean (bl_worktrees_root r) \<noteq> filepath_Join [Clean (bl_canonical_dir r), ''.worktrees''] \<or>
            Clean (bl_worktree_dir r) \<noteq> filepath_Join [Clean (bl_worktrees_root r), bl_task r]
         then Some BacklogLocalLayout else None)
      else if bl_external r then
        (if PathWithin (bl_worktrees_root r) (bl_worktree_dir r) then Some BacklogNotExternal else None)
      else (case relative (Clean (bl_worktrees_root r)) (Clean (bl_worktree_dir r)) of
          None \<Rightarrow> Some BacklogUnresolved
        | Some relativeWorktree \<Rightarrow>
            let parts = Split relativeWorktree (CHR ''/'') in
            if managed_path (bl_task r) parts then None
            else (case claimedSharedWorktreeLayout (bl_worktree_dir r)
                \<lparr>lc_task = bl_task r, lc_effort = bl_task r, lc_run = hd parts, lc_repository = bl_repository r,
                 lc_worktree = bl_worktree_dir r\<rparr> of
                None \<Rightarrow> Some BacklogLayout
              | Some root \<Rightarrow> if Clean root \<noteq> Clean (bl_worktrees_root r) then Some BacklogLayout else None)))"

definition recovery_error :: "lifecycle_backlog_record \<Rightarrow> backlog_error option" where
  "recovery_error r =
     (if bl_recovery_kind r = [] then
        (if bl_work_log_effort r \<noteq> [] \<or> bl_work_log_run r \<noteq> [] \<or> bl_work_log_claim r \<noteq> [] \<or> bl_preserve_local_branch r \<or> bl_failure r \<noteq> []
         then Some BacklogCreateMetadata else None)
      else if bl_recovery_kind r = ''create_work_log_failed'' then
        (if bl_disposition r \<noteq> ''removed'' then Some BacklogCreateDisposition
         else if length (bl_failure r) > 2000 \<or> CHR 0x00 \<in> set (bl_failure r) then Some BacklogFailureDetail
         else if bl_work_log_claim r \<noteq> [] \<and> (\<not> ValidSafeSegment (bl_work_log_effort r) \<or> \<not> ValidSafeSegment (bl_work_log_run r) \<or>
             \<not> ValidClaimID (bl_work_log_claim r)) then Some BacklogWorkLogIdentity
         else if bl_work_log_claim r = [] \<and> (bl_work_log_effort r \<noteq> [] \<or> bl_work_log_run r \<noteq> []) then Some BacklogWorkLogIncomplete
         else None)
      else Some (BacklogRecoveryKind (bl_recovery_kind r)))"

definition evidence_of :: "lifecycle_backlog_record \<Rightarrow> list_result" where
  "evidence_of r = zero_result\<lparr>lr_task := bl_task r, lr_repository := bl_repository r, lr_canonical_dir := bl_canonical_dir r,
     lr_worktree_dir := bl_worktree_dir r, lr_branch := bl_branch r, lr_head_sha := bl_head_sha r\<rparr>"

definition validateLifecycleBacklogWithRel ::
  "(string \<Rightarrow> string) \<Rightarrow> (string \<Rightarrow> bool) \<Rightarrow> lifecycle_backlog_record \<Rightarrow> (string \<Rightarrow> string \<Rightarrow> string option) \<Rightarrow> backlog_error option" where
  "validateLifecycleBacklogWithRel digest valid_branch r relative =
     (if bl_version r \<noteq> 1 \<or> \<not> ValidClaimID (bl_id r) \<or> \<not> ValidSafeSegment (bl_task r) then Some BacklogIdentity
      else case SplitRepositoryAddress (bl_repository r) of Inl e \<Rightarrow> Some (BacklogRepository e) | Inr _ \<Rightarrow>
      if \<not> IsAbs (bl_projects_root r) \<or> \<not> IsAbs (bl_canonical_dir r) \<or> \<not> IsAbs (bl_worktrees_root r) \<or> \<not> IsAbs (bl_worktree_dir r)
        then Some BacklogRelativePaths
      else if \<not> CanonicalDirMatchesRepository (bl_projects_root r) (bl_repository r) (bl_canonical_dir r) then Some BacklogCanonical
      else case placement_error relative r of Some e \<Rightarrow> Some e | None \<Rightarrow>
      if bl_detached r \<and> (bl_branch r \<noteq> [] \<or> bl_remote_head_sha r \<noteq> []) then Some BacklogDetachedBranch
      else if \<not> bl_detached r \<and> \<not> valid_branch (bl_branch r) then Some BacklogBranch
      else if \<not> valid_branch (bl_base r) then Some BacklogBase
      else if \<not> IsGitObjectID (bl_head_sha r) then Some BacklogHead
      else if lifecycleBacklogID digest (evidence_of r) (bl_disposition r) \<noteq> bl_id r then Some BacklogIDMismatch
      else if bl_disposition r \<noteq> ''removed'' \<and> bl_disposition r \<noteq> ''discarded'' then Some (BacklogDisposition (bl_disposition r))
      else case recovery_error r of Some e \<Rightarrow> Some e | None \<Rightarrow>
      if bl_stage r \<noteq> lifecycleStageSealed \<and> bl_stage r \<noteq> lifecycleStageComplete \<and> bl_stage r \<notin> set resumable_stages
        then Some (BacklogStage (bl_stage r))
      else None)"

definition validateLifecycleBacklog :: "(string \<Rightarrow> string) \<Rightarrow> (string \<Rightarrow> bool) \<Rightarrow> lifecycle_backlog_record \<Rightarrow> backlog_error option" where
  "validateLifecycleBacklog digest valid_branch r = validateLifecycleBacklogWithRel digest valid_branch r Rel"

section \<open>Selecting records to resume\<close>

datatype lstat_answer = Present | Absent | LstatFailed string

record backlog_file =
  bf_name :: string
  bf_is_dir :: bool
  bf_content :: "(string, lifecycle_backlog_record) result"

text \<open>\<open>lo_open\<close> opens the directory of the backlog, \<open>lo_registered\<close> is \<^verbatim>\<open>worktreeStillRegistered\<close>.\<close>

record load_ports =
  lo_open :: "fs_error option"
  lo_entries :: "(string, backlog_file list) result"
  lo_lstat :: "string \<Rightarrow> lstat_answer"
  lo_registered :: "string \<Rightarrow> string \<Rightarrow> (string, bool) result"

datatype quarantine_reason = Undecoded string | Invalid backlog_error

record backlog_quarantine =
  bq_path :: string
  bq_task :: string
  bq_repository :: string
  bq_reason :: quarantine_reason

record load_request =
  lq_home :: string
  lq_projects_root :: string
  lq_tasks :: "string list"
  lq_filter :: string
  lq_disposition :: string

definition lifecycleBacklogDirectory :: "string \<Rightarrow> string" where
  "lifecycleBacklogDirectory home = filepath_Join [home, ''reports'', ''worktree-cleanup'', ''backlog'']"

definition taskSelectionMatches :: "string list \<Rightarrow> string \<Rightarrow> bool" where
  "taskSelectionMatches tasks task \<longleftrightarrow> tasks = [] \<or> task \<in> set tasks"

definition selects_record :: "load_request \<Rightarrow> string \<Rightarrow> lifecycle_backlog_record \<Rightarrow> bool" where
  "selects_record q name r \<longleftrightarrow> name = bl_id r @ ''.json'' \<and> bl_stage r \<noteq> lifecycleStageComplete \<and> bl_disposition r = lq_disposition q \<and>
     Clean (bl_projects_root r) = Clean (lq_projects_root q) \<and> taskSelectionMatches (lq_tasks q) (bl_task r) \<and>
     filter_Match (lq_filter q) [bl_repository r]"

datatype admission = Skipped | Quarantined backlog_quarantine | Admitted lifecycle_backlog_record | LoadFailed string

definition admit_backlog_file ::
  "(string \<Rightarrow> string) \<Rightarrow> (string \<Rightarrow> bool) \<Rightarrow> load_ports \<Rightarrow> load_request \<Rightarrow> backlog_file \<Rightarrow> admission" where
  "admit_backlog_file digest valid_branch p q f =
     (let path = filepath_Join [lifecycleBacklogDirectory (lq_home q), bf_name f] in
      if bf_is_dir f \<or> \<not> HasSuffix (bf_name f) ''.json'' then Skipped
      else case bf_content f of
        Inl err \<Rightarrow> Quarantined \<lparr>bq_path = path, bq_task = [], bq_repository = [], bq_reason = Undecoded err\<rparr>
      | Inr r \<Rightarrow>
          if \<not> selects_record q (bf_name f) r then Skipped
          else (case validateLifecycleBacklog digest valid_branch r of
              Some err \<Rightarrow> Quarantined \<lparr>bq_path = path, bq_task = bl_task r, bq_repository = bl_repository r, bq_reason = Invalid err\<rparr>
            | None \<Rightarrow>
                if bl_stage r \<notin> set resumable_stages then Skipped
                else (case lo_lstat p (bl_worktree_dir r) of
                    Present \<Rightarrow> (case lo_registered p (bl_canonical_dir r) (bl_worktree_dir r) of Inr False \<Rightarrow> Admitted r | _ \<Rightarrow> Skipped)
                  | Absent \<Rightarrow> Admitted r
                  | LstatFailed err \<Rightarrow> LoadFailed (''inspect lifecycle backlog worktree '' @ bl_worktree_dir r @ '': '' @ err))))"

fun load_files :: "(backlog_file \<Rightarrow> admission) \<Rightarrow> backlog_file list \<Rightarrow> (string, lifecycle_backlog_record list \<times> backlog_quarantine list) result" where
  "load_files admit [] = Inr ([], [])"
| "load_files admit (f # fs) =
     (case admit f of
        LoadFailed err \<Rightarrow> Inl err
      | Skipped \<Rightarrow> load_files admit fs
      | Quarantined x \<Rightarrow> map_sum id (map_prod id (Cons x)) (load_files admit fs)
      | Admitted r \<Rightarrow> map_sum id (map_prod (Cons r) id) (load_files admit fs))"

definition loadResumableLifecycleBacklog ::
  "(string \<Rightarrow> string) \<Rightarrow> (string \<Rightarrow> bool) \<Rightarrow> load_ports \<Rightarrow> load_request \<Rightarrow>
     (string, lifecycle_backlog_record list \<times> backlog_quarantine list) result" where
  "loadResumableLifecycleBacklog digest valid_branch p q =
     (case lo_open p of
        Some FsNotExist \<Rightarrow> Inr ([], [])
      | Some (FsError err) \<Rightarrow> Inl (''read lifecycle cleanup backlog: '' @ err)
      | None \<Rightarrow>
      case lo_entries p of
        Inl err \<Rightarrow> Inl (''read lifecycle cleanup backlog: '' @ err)
      | Inr files \<Rightarrow> map_sum id (map_prod (sort_key bl_id) id) (load_files (admit_backlog_file digest valid_branch p q) files))"

end
