(* ===== verification/Worktree_Apply.thy ===== *)
theory Worktree_Apply
  imports Lifecycle_Backlog
begin

text \<open>
  Removing the worktrees of one task: \<^verbatim>\<open>cleanup_member_apply.go\<close>, \<^verbatim>\<open>cleanup_member_transaction.go\<close> and
  \<^verbatim>\<open>applyCleanupTaskWithPorts\<close> of \<^verbatim>\<open>lifecycle.go\<close>, all in \<^verbatim>\<open>internal/worktrees\<close>.

  Every boundary the code reaches through its ports is an answer of a record of the same name; where
  one port is called at several points its answer may differ, so the point is an argument. What a run
  does is its log, in order, each entry with whether the call succeeded. The hooks that are set by
  tests only are left out, as is the slot that bounds concurrent remote deletions, which has no
  outcome.
\<close>

section \<open>Events and state\<close>

datatype cleanup_event =
    Preflighted list_result
  | Rechecked list_result
  | HistoryAttested string
  | WorkLogSealed string string
  | Journalled lifecycle_backlog_record bool
  | GitRun "string list" bool
  | ResidueRemoval string bool
  | ParentRemoval bool
  | RegistrationRemoval string string bool
  | ArtifactsArchived bool
  | LockPreserved
  | LockReleased bool
  | LockDebrisPurged
  | TaskDirectoryRemoved

record execution =
  ex_log :: "cleanup_event list"
  ex_record :: lifecycle_backlog_record

record member_execution = execution +
  ex_result :: worktree_result
  ex_pending :: int

definition note_event :: "cleanup_event \<Rightarrow> ('x execution_scheme, unit) effect" where
  "note_event ev = modify (\<lambda>s. s\<lparr>ex_log := ex_log s @ [ev]\<rparr>)"

text \<open>\<^verbatim>\<open>persistLifecycleBacklog\<close> sets the stage of the record it is given before anything can fail.\<close>

definition persist :: "(lifecycle_backlog_record \<Rightarrow> string option) \<Rightarrow> string \<Rightarrow> ('x execution_scheme, unit) effect" where
  "persist port stage =
     andThen (modify (\<lambda>s. s\<lparr>ex_record := (ex_record s)\<lparr>bl_stage := stage\<rparr>\<rparr>)) (\<lambda>_ s.
       let outcome = port (ex_record s) in
       andThen (note_event (Journalled (ex_record s) (outcome = None))) (\<lambda>_. attempt outcome) s)"

definition run_git :: "(string list \<Rightarrow> string option) \<Rightarrow> string list \<Rightarrow> ('x execution_scheme, unit) effect" where
  "run_git port args = andThen (note_event (GitRun args (port args = None))) (\<lambda>_. attempt (port args))"

definition wrapping :: "string \<Rightarrow> ('s, 'a) effect \<Rightarrow> ('s, 'a) effect" where
  "wrapping prefix m s = (case m s of (Inl err, s') \<Rightarrow> (Inl (prefix @ err), s') | (Inr x, s') \<Rightarrow> (Inr x, s'))"

datatype cleanup_ref_kind = cleanupRemoteRef | cleanupLocalRef

definition exactRefDelete :: "cleanup_ref_kind \<Rightarrow> string \<Rightarrow> string \<Rightarrow> string list" where
  "exactRefDelete kind branch expectedSHA =
     (case kind of
        cleanupRemoteRef \<Rightarrow> [''push'', ''--force-with-lease=refs/heads/'' @ branch @ '':'' @ expectedSHA, ''origin'', '':refs/heads/'' @ branch]
      | cleanupLocalRef \<Rightarrow> [''update-ref'', ''-d'', ''refs/heads/'' @ branch, expectedSHA])"

definition invokeCleanupExactRefDelete ::
  "cleanup_ref_kind \<Rightarrow> string \<Rightarrow> string \<Rightarrow> (string list \<Rightarrow> string option) \<Rightarrow> ('x execution_scheme, unit) effect" where
  "invokeCleanupExactRefDelete kind branch expectedSHA port = run_git port (exactRefDelete kind branch expectedSHA)"

section \<open>The recheck\<close>

text \<open>
  \<open>rc_located\<close> is the inspection after it has located the worktree; \<open>rc_validate\<close> are the two
  validations of the held descriptors, before and after the evidence was gathered.
\<close>

record recheck_ports =
  rc_validate_before :: "string option"
  rc_env :: lifecycle_env
  rc_located :: "list_result \<Rightarrow> (string, inspection) result"
  rc_validate_after :: "string option"

record recheck_request =
  rq_options :: cleanup_request
  rq_now :: go_time
  rq_home :: string
  rq_entry :: list_result
  rq_preflight :: bool

definition recheck_failed :: "recheck_request \<Rightarrow> string \<Rightarrow> string \<Rightarrow> string \<Rightarrow> string" where
  "recheck_failed q repository what err =
     (if rq_preflight q then ''preflight cleanup '' @ lr_repository (rq_entry q) @ '' '' @ what @ '': '' @ err
      else ''cleanup '' @ what @ '' for '' @ repository @ '': '' @ err)"

definition recheck_verdict :: "recheck_ports \<Rightarrow> recheck_request \<Rightarrow> list_result \<Rightarrow> (string, list_result) result option" where
  "recheck_verdict p q refreshed =
     (if rq_preflight q \<and> lr_supersession_rejection refreshed \<noteq> [] then
        Some (Inl (''preflight cleanup '' @ lr_repository (rq_entry q) @ '' supersession receipt refused: '' @ lr_supersession_rejection refreshed))
      else case rc_validate_after p of Some err \<Rightarrow> Some (Inl err) | None \<Rightarrow>
      (case cleanupEligibility refreshed (rq_options q) (rq_now q) of
         None \<Rightarrow> None
       | Some (False, reason) \<Rightarrow> Some (Inl (''cleanup safety changed for '' @ lr_repository refreshed @ '': '' @ reason))
       | Some (True, _) \<Rightarrow>
           Some (if lr_head_sha refreshed \<noteq> lr_head_sha (rq_entry q)
             then Inl (''cleanup safety changed for '' @ lr_repository refreshed @ '': branch head moved'') else Inr refreshed)))"

definition recheckCleanupMember :: "recheck_ports \<Rightarrow> recheck_request \<Rightarrow> (string, list_result) result option" where
  "recheckCleanupMember p q =
     (case rc_validate_before p of Some err \<Rightarrow> Some (Inl err) | None \<Rightarrow>
      case and_then (rc_located p (rq_entry q)) (inspectLifecycleWorktree (rc_env p)) of
        Inl err \<Rightarrow> Some (Inl (if rq_preflight q then ''preflight cleanup '' @ lr_repository (rq_entry q) @ '': '' @ err else err))
      | Inr inspected \<Rightarrow>
          let merged = applyMergeReceiptCleanupProof (rc_env p) (cq_merge_proofs (rq_options q)) inspected in
          (case applyAbsorbedConflictAcknowledgementCleanupProof (rc_env p) (rq_home q) merged of
             Inl err \<Rightarrow> Some (Inl (recheck_failed q (lr_repository merged) ''absorbed-conflict acknowledgement proof'' err))
           | Inr acknowledged \<Rightarrow>
               Option.bind (applySupersessionReceipt (rc_env p) (cq_superseded_by (rq_options q)) acknowledged) (recheck_verdict p q)))"

record preflight_ports =
  pf_open_worktree :: "string option"
  pf_recheck :: recheck_ports
  pf_open_canonical :: "string \<Rightarrow> string option"
  pf_validate_canonical :: "string option"
  pf_work_log :: "list_result \<Rightarrow> string option"

definition preflightCleanupRepository ::
  "preflight_ports \<Rightarrow> cleanup_request \<Rightarrow> go_time \<Rightarrow> string \<Rightarrow> list_result \<Rightarrow> (string, list_result) result option" where
  "preflightCleanupRepository p options now home entry =
     (case pf_open_worktree p of Some err \<Rightarrow> Some (Inl err) | None \<Rightarrow>
      map_option (\<lambda>rechecked. and_then rechecked (\<lambda>refreshed.
        case wrap (''open cleanup canonical repository '' @ lr_canonical_dir refreshed @ '': '') (pf_open_canonical p (lr_canonical_dir refreshed)) of
          Some err \<Rightarrow> Inl err
        | None \<Rightarrow>
        case wrap ''cleanup canonical repository changed during preflight: '' (pf_validate_canonical p) of
          Some err \<Rightarrow> Inl err
        | None \<Rightarrow>
        case wrap (''preflight Work Log for '' @ lr_repository refreshed @ '': '') (pf_work_log p refreshed) of
          Some err \<Rightarrow> Inl err
        | None \<Rightarrow> Inr refreshed))
      (recheckCleanupMember (pf_recheck p)
        \<lparr>rq_options = options, rq_now = now, rq_home = home, rq_entry = entry, rq_preflight = True\<rparr>))"

section \<open>One member\<close>

record landed_evidence =
  ld_target :: string
  ld_landed_sha :: string
  ld_proof :: string
  ld_pull_request :: int

definition ValidLandedEvidence :: "landed_evidence \<Rightarrow> bool" where
  "ValidLandedEvidence e \<longleftrightarrow> ld_target e \<noteq> [] \<and> IsGitObjectID (ld_landed_sha e) \<and> ld_pull_request e \<ge> 0 \<and>
     ld_proof e \<in> set [''contained'', ''merged_pull_request'', ''rebase_merged'', ''absorbed'']"

definition cleanupLandedEvidence :: "list_result \<Rightarrow> landed_evidence option" where
  "cleanupLandedEvidence e =
     (if \<not> lr_integrated e \<or> lr_detached e \<or> lr_retired_ack_path e \<noteq> [] then None
      else
        let evidence = \<lparr>ld_target = lr_base e, ld_landed_sha = lr_head_sha e,
              ld_proof = (if lr_merged_pr e = None then ''contained'' else ''merged_pull_request''),
              ld_pull_request = (case lr_merged_pr e of None \<Rightarrow> 0 | Some pr \<Rightarrow> pr_number pr)\<rparr>;
            evidence = (if lr_absorbed e then evidence\<lparr>ld_proof := ''absorbed'',
                ld_landed_sha := (if lr_absorbed_by_sha e = [] then lr_remote_target_sha e else lr_absorbed_by_sha e)\<rparr>
              else if lr_rebase_merged e then evidence\<lparr>ld_proof := ''rebase_merged'',
                ld_landed_sha := (case lr_merged_pr e of None \<Rightarrow> [] | Some pr \<Rightarrow> pr_merge_sha pr)\<rparr>
              else evidence) in
        if ValidLandedEvidence evidence then Some evidence else None)"

datatype authorization_point = BeforeSeal | BeforeNetwork | AtNetwork | BeforeRemoval
datatype recovered_point = ForRemote | ForRemoval | ForLocalBranch

record member_ports =
  am_open_worktree :: "string option"
  am_recheck :: recheck_ports
  am_open_canonical :: "string \<Rightarrow> string option"
  am_validate_canonical :: "string option"
  am_validate_worktree :: "authorization_point \<Rightarrow> string option"
  am_retire_missing_history :: "list_result \<Rightarrow> (string, bool) result"
  am_preflight_work_log :: "string \<Rightarrow> string \<Rightarrow> string option"
  am_recover_legacy :: "list_result \<Rightarrow> string option"
  am_seal_supersession :: "string \<Rightarrow> string \<Rightarrow> string option"
  am_seal_cleanup :: "string \<Rightarrow> string \<Rightarrow> landed_evidence option \<Rightarrow> string option"
  am_persist :: "lifecycle_backlog_record \<Rightarrow> string option"
  am_validate_recovered :: "bool \<Rightarrow> recovered_point \<Rightarrow> string option"
  am_worktree_git :: "string list \<Rightarrow> string option"
  am_canonical_git :: "string list \<Rightarrow> string option"
  am_residue :: "(string, bool) result"
  am_remove_residue :: "(string, bool) result"
  am_validate_task :: "string option"
  am_remove_parent :: "string option"
  am_remove_adopted :: "string \<Rightarrow> string \<Rightarrow> string option"

text \<open>What a run of the command holds fixed for all members.\<close>

record run_context =
  rx_options :: cleanup_request
  rx_now :: go_time
  rx_home :: string
  rx_projects_root :: string
  rx_digest :: "string \<Rightarrow> string"

text \<open>
  The Work Log: an attested missing history, or a preflight (or its recovery) and the seal. The code
  seals for a supersession when the entry is superseded and still carries its receipt, which the
  recheck sets together.
\<close>

definition seal_work_log :: "member_ports \<Rightarrow> list_result \<Rightarrow> ('x execution_scheme, unit) effect" where
  "seal_work_log p e =
     andThen (answer (case am_retire_missing_history p e of
         Inl err \<Rightarrow> Inl (''attest missing historical Work Log before removing '' @ lr_worktree_dir e @ '': '' @ err) | Inr b \<Rightarrow> Inr b)) (\<lambda>missing.
     if missing then note_event (HistoryAttested (lr_worktree_dir e))
     else andThen (attempt (case am_preflight_work_log p (lr_worktree_dir e) (lr_head_sha e) of
         None \<Rightarrow> None
       | Some _ \<Rightarrow> wrap (''recover legacy Work Log repository relocation before removing '' @ lr_worktree_dir e @ '': '') (am_recover_legacy p e))) (\<lambda>_.
       andThen (attempt (wrap (''seal work log before removing '' @ lr_worktree_dir e @ '': '')
         (if lr_superseded e then am_seal_supersession p (lr_worktree_dir e) (lr_head_sha e)
          else am_seal_cleanup p (lr_worktree_dir e) (lr_head_sha e) (cleanupLandedEvidence e)))) (\<lambda>_.
       note_event (WorkLogSealed (lr_worktree_dir e) (lr_head_sha e)))))"

definition begin_journal :: "run_context \<Rightarrow> member_ports \<Rightarrow> list_result \<Rightarrow> (member_execution, unit) effect" where
  "begin_journal rx p e =
     andThen (modify (\<lambda>s. s\<lparr>ex_record := newLifecycleBacklogRecord (rx_digest rx) (rx_projects_root rx) e ''removed''\<rparr>)) (\<lambda>_.
     andThen (persist (am_persist p) lifecycleStageSealed) (\<lambda>_.
     modify (\<lambda>s. s\<lparr>ex_pending := ex_pending s + 1, ex_result := (ex_result s)\<lparr>wr_backlog_id := bl_id (ex_record s)\<rparr>\<rparr>)))"

definition retire_remote :: "member_ports \<Rightarrow> bool \<Rightarrow> list_result \<Rightarrow> (member_execution, unit) effect" where
  "retire_remote p recovered e =
     andThen (persist (am_persist p) lifecycleStageRetiringRemote) (\<lambda>_.
     andThen (attempt (am_validate_worktree p BeforeNetwork)) (\<lambda>_.
     andThen (attempt (am_validate_worktree p AtNetwork)) (\<lambda>_.
     andThen (attempt (am_validate_recovered p recovered ForRemote)) (\<lambda>_.
     andThen (wrapping (''delete remote branch '' @ lr_branch e @ '' at '' @ lr_remote_head_sha e @ '': '')
       (invokeCleanupExactRefDelete cleanupRemoteRef (lr_branch e) (lr_remote_head_sha e) (am_worktree_git p))) (\<lambda>_.
     andThen (modify (\<lambda>s. s\<lparr>ex_result := (ex_result s)\<lparr>wr_remote_deleted := True\<rparr>\<rparr>)) (\<lambda>_.
     persist (am_persist p) lifecycleStageRemoteRetired))))))"

text \<open>
  \<^verbatim>\<open>git worktree remove\<close>. When it fails, a checkout that is still registered was refused; one that is
  not is residue the code removes itself.
\<close>

definition remove_args :: "list_result \<Rightarrow> string list" where
  "remove_args e = [''worktree'', ''remove'', lr_worktree_dir e]"

definition remove_checkout :: "member_ports \<Rightarrow> list_result \<Rightarrow> (member_execution, unit) effect" where
  "remove_checkout p e =
     andThen (note_event (GitRun (remove_args e) (am_worktree_git p (remove_args e) = None))) (\<lambda>_.
     case am_worktree_git p (remove_args e) of
       None \<Rightarrow> pass ()
     | Some removeErr \<Rightarrow>
         let failed = ''remove worktree '' @ lr_worktree_dir e @ '': '' @ removeErr in
         (case am_residue p of
            Inl err \<Rightarrow> attempt (Some (failed @ ''; inspect its registration afterwards: '' @ err))
          | Inr False \<Rightarrow> attempt (Some failed)
          | Inr True \<Rightarrow>
              andThen (note_event (ResidueRemoval (lr_worktree_dir e) (\<not> isl (am_remove_residue p)))) (\<lambda>_.
              case am_remove_residue p of
                Inl err \<Rightarrow> attempt (Some (failed @ ''; '' @ err))
              | Inr removed \<Rightarrow> modify (\<lambda>s. s\<lparr>ex_result := (ex_result s)\<lparr>wr_residue_removed := removed\<rparr>\<rparr>))))"

definition remove_worktree :: "member_ports \<Rightarrow> bool \<Rightarrow> list_result \<Rightarrow> (member_execution, unit) effect" where
  "remove_worktree p recovered e =
     andThen (attempt (am_validate_worktree p BeforeRemoval)) (\<lambda>_.
     andThen (attempt (am_validate_recovered p recovered ForRemoval)) (\<lambda>_.
     andThen (persist (am_persist p) lifecycleStageRemovingWorktree) (\<lambda>_.
     andThen (remove_checkout p e) (\<lambda>_.
     andThen (modify (\<lambda>s. s\<lparr>ex_result := (ex_result s)\<lparr>wr_worktree_gone := True\<rparr>\<rparr>)) (\<lambda>_.
     persist (am_persist p) lifecycleStageWorktreeRemoved)))))"

definition delete_local_branch :: "member_ports \<Rightarrow> bool \<Rightarrow> list_result \<Rightarrow> (member_execution, unit) effect" where
  "delete_local_branch p recovered e =
     andThen (attempt (am_validate_task p)) (\<lambda>_.
     andThen (attempt (am_validate_recovered p recovered ForLocalBranch)) (\<lambda>_.
     andThen (persist (am_persist p) lifecycleStageRemovingLocalBranch) (\<lambda>_.
     unless (lr_branch e = [])
       (andThen (wrapping (''delete local branch '' @ lr_branch e @ '' at '' @ lr_head_sha e @ '': '')
         (invokeCleanupExactRefDelete cleanupLocalRef (lr_branch e) (lr_head_sha e) (am_canonical_git p))) (\<lambda>_.
       modify (\<lambda>s. s\<lparr>ex_result := (ex_result s)\<lparr>wr_branch_deleted := True\<rparr>\<rparr>))))))"

text \<open>The error names the repository; what is wrong with its name is left out of the text.\<close>

definition remove_registration :: "member_ports \<Rightarrow> list_result \<Rightarrow> (member_execution, unit) effect" where
  "remove_registration p e =
     (case SplitRepository (lr_repository e) of
        Inl _ \<Rightarrow> attempt (Some (''resolve adopted worktree registration identity for '' @ lr_repository e))
      | Inr (owner, repository) \<Rightarrow>
          andThen (note_event (RegistrationRemoval owner repository (am_remove_adopted p owner repository = None))) (\<lambda>_.
          attempt (am_remove_adopted p owner repository)))"

definition complete_member :: "member_ports \<Rightarrow> list_result \<Rightarrow> (member_execution, unit) effect" where
  "complete_member p e =
     andThen (note_event (ParentRemoval (am_remove_parent p = None))) (\<lambda>_.
     andThen (attempt (am_remove_parent p)) (\<lambda>_.
     andThen (unless (\<not> lr_external e) (remove_registration p e)) (\<lambda>_.
     andThen (persist (am_persist p) lifecycleStageComplete) (\<lambda>_.
     modify (\<lambda>s. s\<lparr>ex_pending := ex_pending s - 1, ex_result := (ex_result s)\<lparr>wr_applied := True\<rparr>\<rparr>)))))"

definition apply_rechecked :: "run_context \<Rightarrow> member_ports \<Rightarrow> bool \<Rightarrow> list_result \<Rightarrow> (member_execution, unit) effect" where
  "apply_rechecked rx p recovered e =
     andThen (modify (\<lambda>s. s\<lparr>ex_result := (ex_result s)\<lparr>wr_entry := e\<rparr>\<rparr>)) (\<lambda>_.
     andThen (attempt (wrap (''open cleanup canonical repository '' @ lr_canonical_dir e @ '': '') (am_open_canonical p (lr_canonical_dir e)))) (\<lambda>_.
     andThen (attempt (wrap ''cleanup canonical repository changed before Git operations: '' (am_validate_canonical p))) (\<lambda>_.
     andThen (attempt (am_validate_worktree p BeforeSeal)) (\<lambda>_.
     andThen (seal_work_log p e) (\<lambda>_.
     andThen (begin_journal rx p e) (\<lambda>_.
     andThen (unless (\<not> (cq_delete_remote (rx_options rx) \<and> lr_remote_head_sha e \<noteq> [])) (retire_remote p recovered e)) (\<lambda>_.
     andThen (remove_worktree p recovered e) (\<lambda>_.
     andThen (delete_local_branch p recovered e) (\<lambda>_.
     complete_member p e)))))))))"

text \<open>\<open>None\<close> is a panic inside the recheck.\<close>

definition applyCleanupMemberWithPorts ::
  "run_context \<Rightarrow> member_ports \<Rightarrow> bool \<Rightarrow> member_execution \<Rightarrow> ((string, unit) result \<times> member_execution) option" where
  "applyCleanupMemberWithPorts rx p recovered s =
     (case am_open_worktree p of Some err \<Rightarrow> Some (Inl err, s) | None \<Rightarrow>
      map_option (\<lambda>rechecked.
        andThen (answer rechecked) (\<lambda>e. andThen (note_event (Rechecked e)) (\<lambda>_. apply_rechecked rx p recovered e)) s)
      (recheckCleanupMember (am_recheck p)
        \<lparr>rq_options = rx_options rx, rq_now = rx_now rx, rq_home = rx_home rx, rq_entry = wr_entry (ex_result s), rq_preflight = False\<rparr>))"

section \<open>One task\<close>

text \<open>\<^verbatim>\<open>InterruptedLockRecovery\<close>: the interrupted lock a run was asked to take over.\<close>

record cleanup_recovery =
  ry_worktrees_root :: string
  ry_task :: string
  ry_disposition :: string
  ry_applied :: bool

record cleanup_run =
  rn_log :: "cleanup_event list"
  rn_results :: "worktree_result list"
  rn_artifacts :: "lifecycle_artifact list"
  rn_diagnostics :: "list_diagnostic list"
  rn_recovered_task :: bool
  rn_recovery :: "cleanup_recovery option"

text \<open>
  \<open>tk_inventory\<close> is how many results and diagnostics the inventory of the whole task has,
  \<open>tk_archive_artifacts\<close> the error of archiving and the artifacts as it leaves them.
\<close>

record task_ports =
  tk_validate_held :: "string option"
  tk_acquire :: "string option"
  tk_preflight :: "nat \<Rightarrow> preflight_ports"
  tk_prepare_artifacts :: "string option"
  tk_member :: "nat \<Rightarrow> member_ports"
  tk_archive_artifacts :: "lifecycle_artifact list \<Rightarrow> string option \<times> lifecycle_artifact list"
  tk_release_recovered :: "string option"
  tk_inventory :: "(string, nat \<times> nat) result"
  tk_release :: "string option"

definition log_events :: "cleanup_event list \<Rightarrow> cleanup_run \<Rightarrow> cleanup_run" where
  "log_events evs r = r\<lparr>rn_log := rn_log r @ evs\<rparr>"

definition set_entry :: "nat \<Rightarrow> list_result \<Rightarrow> cleanup_run \<Rightarrow> cleanup_run" where
  "set_entry index e r = r\<lparr>rn_results := (rn_results r)[index := (rn_results r ! index)\<lparr>wr_entry := e\<rparr>]\<rparr>"

fun preflight_members :: "run_context \<Rightarrow> task_ports \<Rightarrow> nat list \<Rightarrow> cleanup_run \<Rightarrow> (string option \<times> cleanup_run) option" where
  "preflight_members rx p [] r = Some (None, r)"
| "preflight_members rx p (index # indices) r =
     (case preflightCleanupRepository (tk_preflight p index) (rx_options rx) (rx_now rx) (rx_home rx) (wr_entry (rn_results r ! index)) of
        None \<Rightarrow> None
      | Some (Inl err) \<Rightarrow> Some (Some err, r)
      | Some (Inr refreshed) \<Rightarrow> preflight_members rx p indices (log_events [Preflighted refreshed] (set_entry index refreshed r)))"

definition zero_backlog :: lifecycle_backlog_record where
  "zero_backlog = newLifecycleBacklogRecord (\<lambda>_. []) [] zero_result []"

definition member_start :: "nat \<Rightarrow> int \<Rightarrow> cleanup_run \<Rightarrow> member_execution" where
  "member_start index pending r =
     \<lparr>ex_log = rn_log r, ex_record = zero_backlog, ex_result = rn_results r ! index, ex_pending = pending\<rparr>"

definition member_end :: "nat \<Rightarrow> member_execution \<Rightarrow> cleanup_run \<Rightarrow> cleanup_run" where
  "member_end index s r = r\<lparr>rn_log := ex_log s, rn_results := (rn_results r)[index := ex_result s]\<rparr>"

fun apply_members ::
  "run_context \<Rightarrow> task_ports \<Rightarrow> bool \<Rightarrow> nat list \<Rightarrow> int \<Rightarrow> cleanup_run \<Rightarrow> (string option \<times> int \<times> cleanup_run) option" where
  "apply_members rx p recovered [] pending r = Some (None, pending, r)"
| "apply_members rx p recovered (index # indices) pending r =
     (case applyCleanupMemberWithPorts rx (tk_member p index) recovered (member_start index pending r) of
        None \<Rightarrow> None
      | Some (Inl err, s) \<Rightarrow> Some (Some err, ex_pending s, member_end index s r)
      | Some (Inr _, s) \<Rightarrow> apply_members rx p recovered indices (ex_pending s) (member_end index s r))"

definition finish_recovered :: "task_ports \<Rightarrow> cleanup_run \<Rightarrow> string option \<times> cleanup_run" where
  "finish_recovered p r =
     (case tk_release_recovered p of
        Some err \<Rightarrow> (Some (''quarantine recovered cleanup lock: '' @ err), log_events [LockReleased False] r)
      | None \<Rightarrow> (None, log_events [LockReleased True, LockDebrisPurged]
          (r\<lparr>rn_recovery := map_option (\<lambda>y. y\<lparr>ry_disposition := ''quarantined'', ry_applied := True\<rparr>) (rn_recovery r)\<rparr>)))"

definition task_transaction ::
  "run_context \<Rightarrow> task_ports \<Rightarrow> apply_entry \<Rightarrow> bool \<Rightarrow> cleanup_run \<Rightarrow> (string option \<times> int \<times> cleanup_run) option" where
  "task_transaction rx p entry recovered r =
     (case preflight_members rx p (ae_results entry) r of
        None \<Rightarrow> None
      | Some (Some err, r) \<Rightarrow> Some (Some err, 0, r)
      | Some (None, r) \<Rightarrow>
          (case tk_prepare_artifacts p of Some err \<Rightarrow> Some (Some err, 0, r) | None \<Rightarrow>
           case apply_members rx p recovered (ae_results entry) 0 r of
             None \<Rightarrow> None
           | Some (Some err, pending, r) \<Rightarrow> Some (Some err, pending, r)
           | Some (None, pending, r) \<Rightarrow>
               (case tk_archive_artifacts p (rn_artifacts r) of (outcome, artifacts) \<Rightarrow>
                  let r = log_events [ArtifactsArchived (outcome = None)] (r\<lparr>rn_artifacts := artifacts\<rparr>) in
                  Some (case outcome of
                      Some err \<Rightarrow> (Some err, pending, r)
                    | None \<Rightarrow> if recovered then (case finish_recovered p r of (e, r) \<Rightarrow> (e, pending, r)) else (None, pending, r)))))"

text \<open>The deferred function: what becomes of the lock and of the directory of the task.\<close>

definition release_task :: "run_context \<Rightarrow> task_ports \<Rightarrow> apply_entry \<Rightarrow> bool \<Rightarrow> int \<Rightarrow> cleanup_run \<Rightarrow> cleanup_run" where
  "release_task rx p entry recovered pending r =
     (let retireNamespace = (ts_worktrees_root (ae_selection entry) = filepath_Join [rx_home rx, ''worktrees''] \<longrightarrow> tk_inventory p = Inr (0, 0)) \<and>
            \<not> pending > 0 in
      if recovered \<and> (case rn_recovery r of None \<Rightarrow> True | Some y \<Rightarrow> \<not> ry_applied y) then log_events [LockPreserved] r
      else (case tk_release p of
          Some _ \<Rightarrow> log_events [LockReleased False] r
        | None \<Rightarrow> log_events ([LockReleased True] @ (if pending = 0 then [LockDebrisPurged] else []) @
            (if retireNamespace then [TaskDirectoryRemoved] else [])) r))"

definition is_recovered_task :: "apply_entry \<Rightarrow> cleanup_run \<Rightarrow> bool" where
  "is_recovered_task entry r \<longleftrightarrow> rn_recovered_task r \<and>
     (case rn_recovery r of None \<Rightarrow> False
      | Some y \<Rightarrow> ts_worktrees_root (ae_selection entry) = ry_worktrees_root y \<and> ts_task (ae_selection entry) = ry_task y)"

definition applyCleanupTaskWithPorts ::
  "run_context \<Rightarrow> task_ports \<Rightarrow> apply_entry \<Rightarrow> cleanup_run \<Rightarrow> (string option \<times> cleanup_run) option" where
  "applyCleanupTaskWithPorts rx p entry r =
     (let recovered = is_recovered_task entry r;
          locked = (\<lambda>r. map_option (\<lambda>(e, pending, r). (e, release_task rx p entry recovered pending r)) (task_transaction rx p entry recovered r)) in
      if recovered \<and> \<not> ae_has_eligible entry \<or> \<not> ae_can_apply entry then Some (None, r)
      else if recovered then
        (case tk_validate_held p of
           Some err \<Rightarrow> Some (Some err, log_events [LockPreserved] (r\<lparr>rn_recovered_task := False\<rparr>))
         | None \<Rightarrow> locked (r\<lparr>rn_recovered_task := False\<rparr>))
      else (case tk_acquire p of Some err \<Rightarrow> Some (Some err, r) | None \<Rightarrow> locked r))"

end
