(* ===== verification/Worktree_Resume.thy ===== *)
theory Worktree_Resume
  imports Worktree_Apply Apply_Scheduler
begin

text \<open>
  Resuming interrupted removals (\<^verbatim>\<open>resumeLifecycleBacklogWithPorts\<close> and
  \<^verbatim>\<open>completeVacantLifecycleBacklog\<close> of \<^verbatim>\<open>internal/worktrees/lifecycle_backlog.go\<close>), and
  \<^verbatim>\<open>applyCleanup\<close> of \<^verbatim>\<open>lifecycle.go\<close>, which resumes the backlog before it applies any task.
\<close>

section \<open>One record\<close>

datatype acquire_answer = TaskAcquired | TaskMissing string | AcquireFailed string

record resume_ports =
  rs_validate_record :: "lifecycle_backlog_record \<Rightarrow> string option"
  rs_acquire_task :: "string \<Rightarrow> string \<Rightarrow> acquire_answer"
  rs_open_canonical :: "string \<Rightarrow> string option"
  rs_validate_canonical :: "string option"
  rs_remote_branch_head :: "string \<Rightarrow> string \<Rightarrow> (string, string) result"
  rs_git :: "string list \<Rightarrow> string option"
  rs_persist :: "lifecycle_backlog_record \<Rightarrow> string option"
  rs_registrations :: "(string, string list) result"
  rs_lstat :: "string \<Rightarrow> lstat_answer"
  rs_open_worktree :: "string \<Rightarrow> bool \<Rightarrow> string option"
  rs_remove_residue :: "(string, bool) result"
  rs_remove_parent :: "string option"
  rs_local_exists :: "string \<Rightarrow> (string, bool) result"
  rs_local_head :: "string \<Rightarrow> (string, string) result"
  rs_seal_claim :: "lifecycle_backlog_record \<Rightarrow> string option"

definition detachedAwareRemoteBranchHead :: "resume_ports \<Rightarrow> lifecycle_backlog_record \<Rightarrow> (string, string) result" where
  "detachedAwareRemoteBranchHead p r =
     (if bl_detached r then Inr [] else rs_remote_branch_head p (bl_canonical_dir r) (bl_branch r))"

definition lifecycleTaskLockRoot :: "string \<Rightarrow> string \<Rightarrow> bool \<Rightarrow> bool \<Rightarrow> string" where
  "lifecycleTaskLockRoot home worktreesRoot local legacy =
     (let current = filepath_Join [home, ''worktrees''] in
      if local \<or> \<not> legacy \<and> Clean worktreesRoot \<noteq> Clean current then current else worktreesRoot)"

definition record_lock_root :: "string \<Rightarrow> lifecycle_backlog_record \<Rightarrow> string" where
  "record_lock_root home r =
     lifecycleTaskLockRoot home (bl_worktrees_root r) (bl_local r)
       (Clean (bl_worktrees_root r) = filepath_Join [Clean (bl_projects_root r), ''.wb'', ''worktrees''])"

definition seal_failed_create :: "resume_ports \<Rightarrow> (execution, unit) effect" where
  "seal_failed_create p s =
     (let r = ex_record s in
      unless (\<not> (bl_recovery_kind r = ''create_work_log_failed'' \<and> bl_work_log_claim r \<noteq> [])) (attempt (rs_seal_claim p r)) s)"

text \<open>Every answer but that nothing is left returns the error of the lock.\<close>

definition vacant :: "resume_ports \<Rightarrow> lifecycle_backlog_record \<Rightarrow> bool" where
  "vacant p r \<longleftrightarrow>
     rs_lstat p (bl_worktree_dir r) = Absent \<and> rs_open_canonical p (bl_canonical_dir r) = None \<and> rs_validate_canonical p = None \<and>
     (case rs_registrations p of Inl _ \<Rightarrow> False | Inr paths \<Rightarrow> Clean (bl_worktree_dir r) \<notin> set paths) \<and>
     (case detachedAwareRemoteBranchHead p r of Inl _ \<Rightarrow> False | Inr head \<Rightarrow> head = [] \<or> bl_preserve_local_branch r) \<and>
     (bl_detached r \<or> (case rs_local_exists p (bl_branch r) of Inl _ \<Rightarrow> False | Inr exists \<Rightarrow> \<not> exists \<or> bl_preserve_local_branch r))"

definition completeVacantLifecycleBacklog :: "resume_ports \<Rightarrow> lifecycle_backlog_record \<Rightarrow> string \<Rightarrow> (execution, unit) effect" where
  "completeVacantLifecycleBacklog p r lockErr =
     (if \<not> vacant p r then attempt (Some lockErr)
      else andThen (seal_failed_create p) (\<lambda>_. persist (rs_persist p) lifecycleStageComplete))"

definition resume_remote :: "resume_ports \<Rightarrow> bool \<Rightarrow> lifecycle_backlog_record \<Rightarrow> (execution, unit) effect" where
  "resume_remote p deleteRemote r =
     andThen (answer (detachedAwareRemoteBranchHead p r)) (\<lambda>remoteHead.
     if remoteHead = [] \<or> bl_preserve_local_branch r then pass ()
     else if bl_stage r \<noteq> lifecycleStageRetiringRemote \<or> \<not> deleteRemote then
       attempt (Some (''resume lifecycle backlog '' @ bl_id r @ '': origin/'' @ bl_branch r @ '' still exists at '' @ remoteHead))
     else if bl_remote_head_sha r = [] \<or> remoteHead \<noteq> bl_remote_head_sha r then
       attempt (Some (''resume lifecycle backlog '' @ bl_id r @ '': origin/'' @ bl_branch r @ '' advanced from '' @ bl_remote_head_sha r @
         '' to '' @ remoteHead @ '' since the interrupted run observed it''))
     else andThen (wrapping (''resume exact remote branch retirement '' @ bl_branch r @ '': '')
         (invokeCleanupExactRefDelete cleanupRemoteRef (bl_branch r) (bl_remote_head_sha r) (rs_git p))) (\<lambda>_.
       persist (rs_persist p) lifecycleStageRemoteRetired))"

definition resume_residue :: "resume_ports \<Rightarrow> lifecycle_backlog_record \<Rightarrow> (execution, unit) effect" where
  "resume_residue p r =
     (let failed = ''resume lifecycle backlog '' @ bl_id r @ '': '' in
      case rs_lstat p (bl_worktree_dir r) of
        Absent \<Rightarrow> pass ()
      | LstatFailed err \<Rightarrow> attempt (Some err)
      | Present \<Rightarrow>
          andThen (attempt (wrap failed (rs_open_worktree p (bl_worktree_dir r) (bl_external r)))) (\<lambda>_.
          andThen (note_event (ResidueRemoval (bl_worktree_dir r) (\<not> isl (rs_remove_residue p)))) (\<lambda>_.
          andThen (answer (case rs_remove_residue p of Inl err \<Rightarrow> Inl (failed @ err) | Inr b \<Rightarrow> Inr b)) (\<lambda>_.
          andThen (note_event (ParentRemoval (rs_remove_parent p = None))) (\<lambda>_.
          attempt (wrap failed (rs_remove_parent p)))))))"

definition resume_local :: "resume_ports \<Rightarrow> lifecycle_backlog_record \<Rightarrow> (execution, unit) effect" where
  "resume_local p r =
     andThen (if bl_detached r then pass False else answer (rs_local_exists p (bl_branch r))) (\<lambda>exists.
     unless (\<not> exists \<or> bl_preserve_local_branch r)
       (andThen (answer (rs_local_head p (bl_branch r))) (\<lambda>head.
        andThen (attempt (if head \<noteq> bl_head_sha r
          then Some (''resume lifecycle backlog '' @ bl_id r @ '': branch moved from '' @ bl_head_sha r @ '' to '' @ head) else None)) (\<lambda>_.
        andThen (persist (rs_persist p) lifecycleStageRemovingLocalBranch) (\<lambda>_.
        wrapping (''resume exact local branch deletion '' @ bl_branch r @ '': '')
          (invokeCleanupExactRefDelete cleanupLocalRef (bl_branch r) (bl_head_sha r) (rs_git p)))))))"

text \<open>The record is the one of the state; its stage is all that changes on the way.\<close>

definition resumeLifecycleBacklogWithPorts :: "string \<Rightarrow> bool \<Rightarrow> resume_ports \<Rightarrow> (execution, unit) effect" where
  "resumeLifecycleBacklogWithPorts home deleteRemote p s =
     (let r = ex_record s; lockErr = (\<lambda>err. ''lock lifecycle backlog task '' @ bl_task r @ '': '' @ err) in
      andThen (attempt (rs_validate_record p r)) (\<lambda>_.
      case rs_acquire_task p (record_lock_root home r) (bl_task r) of
        AcquireFailed err \<Rightarrow> attempt (Some (lockErr err))
      | TaskMissing err \<Rightarrow> completeVacantLifecycleBacklog p r (lockErr err)
      | TaskAcquired \<Rightarrow>
          andThen (attempt (rs_open_canonical p (bl_canonical_dir r))) (\<lambda>_.
          andThen (attempt (rs_validate_canonical p)) (\<lambda>_.
          andThen (resume_remote p deleteRemote r) (\<lambda>_.
          andThen (answer (rs_registrations p)) (\<lambda>registrations.
          andThen (attempt (if Clean (bl_worktree_dir r) \<in> set registrations
            then Some (''resume lifecycle backlog '' @ bl_id r @ '': worktree remains registered'') else None)) (\<lambda>_.
          andThen (resume_residue p r) (\<lambda>_.
          andThen (resume_local p r) (\<lambda>_.
          andThen (seal_failed_create p) (\<lambda>_.
          persist (rs_persist p) lifecycleStageComplete))))))))) s)"

section \<open>The backlog and the tasks of a run\<close>

text \<open>A record to resume, the answers it meets, and whether its directory was there beforehand.\<close>

record backlog_item =
  bi_record :: lifecycle_backlog_record
  bi_ports :: resume_ports
  bi_residue :: bool

definition mark_resumed :: "backlog_item \<Rightarrow> worktree_result \<Rightarrow> worktree_result" where
  "mark_resumed item result =
     (let r = bi_record item in
      if wr_backlog_id result \<noteq> bl_id r then result
      else result\<lparr>wr_applied := True, wr_branch_deleted := \<not> bl_detached r \<and> \<not> bl_preserve_local_branch r,
        wr_residue_removed := bi_residue item, wr_remote_deleted := \<not> bl_preserve_local_branch r \<and> bl_remote_head_sha r \<noteq> [],
        wr_reason := ''resumed durable cleanup backlog''\<rparr>)"

fun resume_backlog :: "run_context \<Rightarrow> backlog_item list \<Rightarrow> cleanup_run \<Rightarrow> string option \<times> cleanup_run" where
  "resume_backlog rx [] run = (None, run)"
| "resume_backlog rx (item # items) run =
     (case resumeLifecycleBacklogWithPorts (rx_home rx) (cq_delete_remote (rx_options rx)) (bi_ports item)
          \<lparr>ex_log = rn_log run, ex_record = bi_record item\<rparr> of
        (Inl err, s) \<Rightarrow> (Some err, run\<lparr>rn_log := ex_log s\<rparr>)
      | (Inr _, s) \<Rightarrow> resume_backlog rx items (run\<lparr>rn_log := ex_log s, rn_results := map (mark_resumed item) (rn_results run)\<rparr>))"

text \<open>
  \<open>ac_sweep\<close> is what \<^verbatim>\<open>runCleanupApply\<close> does with the planned tasks: their errors and the run they
  leave; \<open>ac_failed_report\<close> is the error of writing the report of a failure, if one is written. That
  empty namespaces of earlier releases are removed at the end has no outcome and is left out.
\<close>

record apply_request =
  ac_tasks :: "string list"
  ac_all_merged :: bool
  ac_backlog :: "backlog_item list"
  ac_sweep :: "apply_entry list \<Rightarrow> cleanup_run \<Rightarrow> string option list \<times> cleanup_run"
  ac_failed_report :: "string \<Rightarrow> string option"
  ac_final_report :: "string option"

definition one_named_task :: "apply_request \<Rightarrow> bool" where
  "one_named_task q \<longleftrightarrow> length (ac_tasks q) = 1 \<and> \<not> ac_all_merged q"

definition fail_text :: "apply_request \<Rightarrow> string \<Rightarrow> string" where
  "fail_text q err = (case ac_failed_report q err of None \<Rightarrow> err | Some reportErr \<Rightarrow> err @ ''; write failed cleanup report: '' @ reportErr)"

definition preflight_refusal :: "cleanup_run \<Rightarrow> string option" where
  "preflight_refusal run = map_option wr_reason (List.find (\<lambda>r. HasPrefix (wr_reason r) ''preflight Work Log for '') (rn_results run))"

definition scope_failure :: "apply_entry \<Rightarrow> string \<Rightarrow> cleanup_run \<Rightarrow> cleanup_run" where
  "scope_failure entry err run =
     run\<lparr>rn_diagnostics := rn_diagnostics run @
           [\<lparr>ld_task = ts_task (ae_selection entry), ld_worktrees_root = ts_worktrees_root (ae_selection entry),
             ld_path = filepath_Join [ts_worktrees_root (ae_selection entry), ts_task (ae_selection entry)], ld_message = err,
             ld_non_blocking = False\<rparr>],
         rn_results := foldl (\<lambda>rs i. if wr_applied (rs ! i) then rs else rs[i := (rs ! i)\<lparr>wr_reason := err\<rparr>]) (rn_results run) (ae_results entry)\<rparr>"

fun fold_failures :: "apply_request \<Rightarrow> (apply_entry \<times> string option) list \<Rightarrow> cleanup_run \<Rightarrow> string option \<times> cleanup_run" where
  "fold_failures q [] run = (None, run)"
| "fold_failures q ((entry, None) # rest) run = fold_failures q rest run"
| "fold_failures q ((entry, Some err) # rest) run =
     (if one_named_task q then (Some (fail_text q err), run)
      else fold_failures q rest (scope_failure entry (fail_text q err) run))"

text \<open>\<open>None\<close> is a plan that does not exist, which the order of the tasks excludes.\<close>

definition applyCleanup :: "run_context \<Rightarrow> apply_request \<Rightarrow> cleanup_run \<Rightarrow> (string option \<times> cleanup_run) option" where
  "applyCleanup rx q run =
     (if length (ac_tasks q) = 1 \<and> preflight_refusal run \<noteq> None then Some (Some (fail_text q (the (preflight_refusal run))), run)
      else case resume_backlog rx (ac_backlog q) run of
        (Some err, run) \<Rightarrow> Some (Some (fail_text q err), run)
      | (None, run) \<Rightarrow>
          map_option (\<lambda>entries.
            case ac_sweep q entries run of (taskErrs, run) \<Rightarrow>
            case fold_failures q (zip entries taskErrs) run of
              (Some err, run) \<Rightarrow> (Some err, run)
            | (None, run) \<Rightarrow> (ac_final_report q, run))
          (planCleanupApply \<lparr>cp_results = rn_results run, cp_artifacts = rn_artifacts run\<rparr> (rx_home rx)))"

end
