(* ===== verification/Worktree_Apply_Props.thy ===== *)
theory Worktree_Apply_Props
  imports Worktree_Resume Worktree_Plan_Props "HOL-Library.Sublist"
begin

text \<open>
  The removal of worktrees step by step. Every destructive command of a task is issued under the
  journal stage that announces it, for the entry that was rechecked last; and a removal that stops
  anywhere, by an error or a crash, leaves a record from which a later run finishes it.
\<close>

section \<open>Reading a log\<close>

definition last_recheck :: "cleanup_event list \<Rightarrow> list_result option" where
  "last_recheck log = foldl (\<lambda>found ev. case ev of Rechecked e \<Rightarrow> Some e | _ \<Rightarrow> found) None log"

definition since_recheck :: "cleanup_event list \<Rightarrow> cleanup_event list" where
  "since_recheck log = foldl (\<lambda>evs ev. case ev of Rechecked e \<Rightarrow> [] | _ \<Rightarrow> evs @ [ev]) [] log"

text \<open>The record the journal is known to hold; after a write that failed nothing is known.\<close>

definition journal :: "cleanup_event list \<Rightarrow> lifecycle_backlog_record option" where
  "journal log = foldl (\<lambda>found ev. case ev of Journalled r ok \<Rightarrow> if ok then Some r else None | _ \<Rightarrow> found) None log"

definition preflights :: "cleanup_event list \<Rightarrow> list_result list" where
  "preflights log = foldl (\<lambda>es ev. case ev of Preflighted e \<Rightarrow> es @ [e] | _ \<Rightarrow> es) [] log"

lemma log_snoc [simp]:
  "last_recheck (log @ [ev]) = (case ev of Rechecked e \<Rightarrow> Some e | _ \<Rightarrow> last_recheck log)"
  "since_recheck (log @ [ev]) = (case ev of Rechecked e \<Rightarrow> [] | _ \<Rightarrow> since_recheck log @ [ev])"
  "journal (log @ [ev]) = (case ev of Journalled r ok \<Rightarrow> if ok then Some r else None | _ \<Rightarrow> journal log)"
  "preflights (log @ [ev]) = (case ev of Preflighted e \<Rightarrow> preflights log @ [e] | _ \<Rightarrow> preflights log)"
  unfolding last_recheck_def since_recheck_def journal_def preflights_def by (cases ev; simp)+

lemma preflights_Nil [simp]: "preflights [] = []"
  by (simp add: preflights_def)

definition eligible_now :: "run_context \<Rightarrow> list_result \<Rightarrow> bool" where
  "eligible_now rx e \<longleftrightarrow> map_option fst (cleanupEligibility e (rx_options rx) (rx_now rx)) = Some True"

definition entry_record :: "run_context \<Rightarrow> list_result \<Rightarrow> lifecycle_backlog_record" where
  "entry_record rx e = newLifecycleBacklogRecord (rx_digest rx) (rx_projects_root rx) e ''removed''"

abbreviation asks_remote :: "run_context \<Rightarrow> list_result \<Rightarrow> bool" where
  "asks_remote rx e \<equiv> cq_delete_remote (rx_options rx) \<and> lr_remote_head_sha e \<noteq> []"

abbreviation remote_args :: "list_result \<Rightarrow> string list" where
  "remote_args e \<equiv> exactRefDelete cleanupRemoteRef (lr_branch e) (lr_remote_head_sha e)"

abbreviation local_args :: "list_result \<Rightarrow> string list" where
  "local_args e \<equiv> exactRefDelete cleanupLocalRef (lr_branch e) (lr_head_sha e)"

definition work_log_closed :: "list_result \<Rightarrow> cleanup_event list \<Rightarrow> bool" where
  "work_log_closed e evs \<longleftrightarrow> WorkLogSealed (lr_worktree_dir e) (lr_head_sha e) \<in> set evs \<or> HistoryAttested (lr_worktree_dir e) \<in> set evs"

definition checkout_removed :: "list_result \<Rightarrow> cleanup_event list \<Rightarrow> bool" where
  "checkout_removed e evs \<longleftrightarrow> GitRun (remove_args e) True \<in> set evs \<or> ResidueRemoval (lr_worktree_dir e) True \<in> set evs"

text \<open>
  What a Git command may rest on: the entry rechecked last is eligible, its Work Log is closed, and the
  journal holds its record at the stage that announces exactly this command.
\<close>

definition authorized :: "run_context \<Rightarrow> cleanup_event list \<Rightarrow> string list \<Rightarrow> bool" where
  "authorized rx pre args \<longleftrightarrow>
     (\<exists>e stage. last_recheck pre = Some e \<and> journal pre = Some ((entry_record rx e)\<lparr>bl_stage := stage\<rparr>) \<and>
        eligible_now rx e \<and> lr_head_sha e \<in> lr_head_sha ` set (preflights pre) \<and> work_log_closed e (since_recheck pre) \<and>
        (args = remote_args e \<and> stage = lifecycleStageRetiringRemote \<and> asks_remote rx e \<or>
         args = remove_args e \<and> stage = lifecycleStageRemovingWorktree \<and>
           (asks_remote rx e \<longrightarrow> GitRun (remote_args e) True \<in> set (since_recheck pre)) \<or>
         args = local_args e \<and> stage = lifecycleStageRemovingLocalBranch \<and> lr_branch e \<noteq> [] \<and> checkout_removed e (since_recheck pre)))"

definition residue_authorized :: "run_context \<Rightarrow> cleanup_event list \<Rightarrow> string \<Rightarrow> bool" where
  "residue_authorized rx pre dir \<longleftrightarrow>
     (\<exists>e. last_recheck pre = Some e \<and> dir = lr_worktree_dir e \<and> GitRun (remove_args e) False \<in> set (since_recheck pre) \<and>
        journal pre = Some ((entry_record rx e)\<lparr>bl_stage := lifecycleStageRemovingWorktree\<rparr>))"

definition event_allowed :: "run_context \<Rightarrow> cleanup_event list \<Rightarrow> cleanup_event \<Rightarrow> bool" where
  "event_allowed rx pre ev =
     (case ev of GitRun args _ \<Rightarrow> authorized rx pre args | ResidueRemoval dir _ \<Rightarrow> residue_authorized rx pre dir | _ \<Rightarrow> True)"

definition orderly :: "run_context \<Rightarrow> cleanup_event list \<Rightarrow> bool" where
  "orderly rx log \<longleftrightarrow> (\<forall>pre ev post. log = pre @ ev # post \<longrightarrow> event_allowed rx pre ev)"

lemma orderly_Nil [simp]: "orderly rx []"
  by (simp add: orderly_def)

lemma orderly_snoc [simp]: "orderly rx (log @ [ev]) \<longleftrightarrow> orderly rx log \<and> event_allowed rx log ev"
proof
  assume o: "orderly rx (log @ [ev])"
  have "event_allowed rx pre x" if "log = pre @ x # post" for pre x post
    using o that unfolding orderly_def by (metis append.assoc append_Cons)
  moreover have "event_allowed rx log ev" using o unfolding orderly_def by blast
  ultimately show "orderly rx log \<and> event_allowed rx log ev" unfolding orderly_def by blast
next
  assume o: "orderly rx log \<and> event_allowed rx log ev"
  have "event_allowed rx pre x" if "log @ [ev] = pre @ x # post" for pre x post
  proof (cases post rule: rev_cases)
    case Nil
    then show ?thesis using that o by simp
  next
    case (snoc ys y)
    then have "log = pre @ x # ys" using that by (metis append_Cons append_assoc butlast_snoc)
    then show ?thesis using o unfolding orderly_def by blast
  qed
  then show "orderly rx (log @ [ev])" unfolding orderly_def by blast
qed

section \<open>The steps of a member\<close>

text \<open>
  \<open>settled\<close> is what holds wherever a member stops: the log is orderly, starts with the preflights of the
  task and has no other ones.
  \<open>under\<close>: the entry \<open>e\<close> was rechecked last and is in order, and the events since then satisfy \<open>K\<close>.
  \<open>at_stage\<close> is what the journal holds.
\<close>

definition settled :: "run_context \<Rightarrow> list_result list \<Rightarrow> member_execution \<Rightarrow> bool" where
  "settled rx F s \<longleftrightarrow> orderly rx (ex_log s) \<and> preflights (ex_log s) = F \<and> prefix (map Preflighted F) (ex_log s)"

definition under :: "run_context \<Rightarrow> list_result list \<Rightarrow> list_result \<Rightarrow> (cleanup_event list \<Rightarrow> bool) \<Rightarrow> member_execution \<Rightarrow> bool" where
  "under rx F e K s \<longleftrightarrow> settled rx F s \<and> last_recheck (ex_log s) = Some e \<and> eligible_now rx e \<and> lr_head_sha e \<in> lr_head_sha ` set F \<and>
     wr_entry (ex_result s) = e \<and> K (since_recheck (ex_log s))"

definition at_stage :: "run_context \<Rightarrow> list_result \<Rightarrow> string \<Rightarrow> member_execution \<Rightarrow> bool" where
  "at_stage rx e stage s \<longleftrightarrow> ex_record s = (entry_record rx e)\<lparr>bl_stage := stage\<rparr> \<and> journal (ex_log s) = Some (ex_record s)"

lemma under_settled: "under rx F e K s \<Longrightarrow> settled rx F s"
  by (simp add: under_def)

text \<open>Facts about a log that further events do not undo.\<close>

definition lasting :: "(cleanup_event list \<Rightarrow> bool) \<Rightarrow> bool" where
  "lasting K \<longleftrightarrow> (\<forall>evs ev. K evs \<longrightarrow> K (evs @ [ev]))"

lemma lasting_facts:
  "lasting (\<lambda>_. True)" "lasting (work_log_closed e)" "lasting (checkout_removed e)" "lasting (\<lambda>evs. ev \<in> set evs)"
  "lasting (\<lambda>evs. c \<longrightarrow> ev \<in> set evs)" "lasting K \<Longrightarrow> lasting K' \<Longrightarrow> lasting (\<lambda>evs. K evs \<and> K' evs)"
  by (auto simp: lasting_def work_log_closed_def checkout_removed_def)

lemma triple_wrapping: "triple P m Q E \<Longrightarrow> triple P (wrapping because m) Q E"
  unfolding triple_def wrapping_def by (fastforce split: prod.splits sum.splits)

lemma triple_note: "(\<And>s. P s \<Longrightarrow> Q () (s\<lparr>ex_log := ex_log s @ [ev]\<rparr>)) \<Longrightarrow> triple P (note_event ev) Q E"
  unfolding note_event_def by (rule triple_modify) simp

lemma triple_persist:
  assumes "lasting K"
  shows "triple (\<lambda>s. under rx F e K s \<and> (\<exists>stage. ex_record s = (entry_record rx e)\<lparr>bl_stage := stage\<rparr>)) (persist port stage)
    (\<lambda>_ s. under rx F e K s \<and> at_stage rx e stage s) (settled rx F)"
proof (rule tripleI)
  fix s :: member_execution and x s'
  assume "under rx F e K s \<and> (\<exists>stage. ex_record s = (entry_record rx e)\<lparr>bl_stage := stage\<rparr>)" "persist port stage s = (Inr x, s')"
  then show "under rx F e K s' \<and> at_stage rx e stage s'" using assms
    by (auto simp: persist_def note_event_def andThen_def modify_def attempt_def Let_def under_def settled_def at_stage_def
        event_allowed_def lasting_def split: option.splits)
next
  fix s :: member_execution and err s'
  assume "under rx F e K s \<and> (\<exists>stage. ex_record s = (entry_record rx e)\<lparr>bl_stage := stage\<rparr>)" "persist port stage s = (Inl err, s')"
  then show "settled rx F s'"
    by (auto simp: persist_def note_event_def andThen_def modify_def attempt_def Let_def under_def settled_def
        event_allowed_def split: option.splits)
qed

lemma triple_run_git:
  assumes "lasting K" "\<And>s. under rx F e K s \<Longrightarrow> at_stage rx e stage s \<Longrightarrow> authorized rx (ex_log s) args"
  shows "triple (\<lambda>s. under rx F e K s \<and> at_stage rx e stage s) (run_git port args)
    (\<lambda>_ s. under rx F e (\<lambda>evs. K evs \<and> GitRun args True \<in> set evs) s \<and> at_stage rx e stage s) (settled rx F)"
proof (rule tripleI)
  fix s :: member_execution and x s'
  assume p: "under rx F e K s \<and> at_stage rx e stage s" and r: "run_git port args s = (Inr x, s')"
  have a: "authorized rx (ex_log s) args" using assms(2) p by blast
  have s': "s' = s\<lparr>ex_log := ex_log s @ [GitRun args True]\<rparr>"
    using r by (auto simp: run_git_def note_event_def andThen_def modify_def attempt_def split: option.splits)
  show "under rx F e (\<lambda>evs. K evs \<and> GitRun args True \<in> set evs) s' \<and> at_stage rx e stage s'"
    using p a assms(1) unfolding s' by (auto simp: under_def settled_def at_stage_def event_allowed_def lasting_def)
next
  fix s :: member_execution and err s'
  assume p: "under rx F e K s \<and> at_stage rx e stage s" and r: "run_git port args s = (Inl err, s')"
  have "authorized rx (ex_log s) args" using assms(2) p by blast
  moreover have "s' = s\<lparr>ex_log := ex_log s @ [GitRun args False]\<rparr>"
    using r by (auto simp: run_git_def note_event_def andThen_def modify_def attempt_def split: option.splits)
  ultimately show "settled rx F s'" using p by (auto simp: under_def settled_def event_allowed_def)
qed

lemma authorizedI:
  assumes "under rx F e K s" "at_stage rx e stage s" "work_log_closed e (since_recheck (ex_log s))"
    and "args = remote_args e \<and> stage = lifecycleStageRetiringRemote \<and> asks_remote rx e \<or>
         args = remove_args e \<and> stage = lifecycleStageRemovingWorktree \<and>
           (asks_remote rx e \<longrightarrow> GitRun (remote_args e) True \<in> set (since_recheck (ex_log s))) \<or>
         args = local_args e \<and> stage = lifecycleStageRemovingLocalBranch \<and> lr_branch e \<noteq> [] \<and> checkout_removed e (since_recheck (ex_log s))"
  shows "authorized rx (ex_log s) args"
  using assms unfolding authorized_def under_def at_stage_def settled_def by (intro exI [of _ e] exI [of _ stage]) auto

lemma triple_attempt_under:
  "triple (\<lambda>s. under rx F e K s \<and> R s) (attempt outcome) (\<lambda>_ s. under rx F e K s \<and> R s) (settled rx F)"
  by (rule triple_attempt) (auto simp: under_def)

lemma triple_answer_under:
  "triple (\<lambda>s. under rx F e K s \<and> R s) (answer outcome) (\<lambda>_ s. under rx F e K s \<and> R s) (settled rx F)"
  by (rule triple_answer) (auto simp: under_def)

lemmas member_step = triple_andThen [OF triple_attempt_under]

lemma under_result: "under rx F e K s \<Longrightarrow> wr_entry r = e \<Longrightarrow> under rx F e K (s\<lparr>ex_result := r\<rparr>)"
  by (simp add: under_def settled_def)

lemma under_weaken: "under rx F e K s \<Longrightarrow> (\<And>evs. K evs \<Longrightarrow> K' evs) \<Longrightarrow> under rx F e K' s"
  by (auto simp: under_def)

lemma under_entry: "under rx F e K s \<Longrightarrow> wr_entry (ex_result s) = e"
  by (simp add: under_def)

definition is_check :: "cleanup_event \<Rightarrow> bool" where
  "is_check ev = (case ev of Rechecked _ \<Rightarrow> True | Preflighted _ \<Rightarrow> True | _ \<Rightarrow> False)"

lemma under_note:
  assumes "under rx F e K s" "event_allowed rx (ex_log s) ev" "\<not> is_check ev" "lasting K"
  shows "under rx F e (\<lambda>evs. K evs \<and> ev \<in> set evs) (s\<lparr>ex_log := ex_log s @ [ev]\<rparr>)"
  using assms by (cases ev) (simp_all add: under_def settled_def is_check_def lasting_def)

lemma triple_mark:
  assumes "\<And>r. wr_entry (f r) = wr_entry r"
  shows "triple (\<lambda>s. under rx F e K s \<and> at_stage rx e stage s) (modify (\<lambda>s. s\<lparr>ex_result := f (ex_result s)\<rparr>))
    (\<lambda>_ s. under rx F e K s \<and> at_stage rx e stage s) (settled rx F)"
  by (rule triple_modify) (auto simp: at_stage_def assms under_entry intro: under_result)

lemma triple_persist_stage:
  assumes "lasting K"
  shows "triple (\<lambda>s. under rx F e K s \<and> at_stage rx e before s) (persist port stage)
    (\<lambda>_ s. under rx F e K s \<and> at_stage rx e stage s) (settled rx F)"
  by (rule triple_conseq [OF triple_persist [OF assms, of rx F e port stage]]) (auto simp: at_stage_def)

lemma seal_work_log_step:
  "triple (\<lambda>s. under rx F e (\<lambda>_. True) s \<and> True) (seal_work_log p e) (\<lambda>_. under rx F e (work_log_closed e)) (settled rx F)"
proof -
  let ?P = "\<lambda>s. under rx F e (\<lambda>_. True) s \<and> True"
  have attest: "triple ?P (note_event (HistoryAttested (lr_worktree_dir e))) (\<lambda>_. under rx F e (work_log_closed e)) (settled rx F)"
    by (rule triple_note, rule under_weaken [OF under_note [where K = "\<lambda>_. True"]])
      (auto simp: event_allowed_def is_check_def work_log_closed_def lasting_def)
  have seal: "triple ?P (note_event (WorkLogSealed (lr_worktree_dir e) (lr_head_sha e))) (\<lambda>_. under rx F e (work_log_closed e)) (settled rx F)"
    by (rule triple_note, rule under_weaken [OF under_note [where K = "\<lambda>_. True"]])
      (auto simp: event_allowed_def is_check_def work_log_closed_def lasting_def)
  have sealing: "triple ?P (andThen (attempt a) (\<lambda>_. andThen (attempt b) (\<lambda>_. note_event (WorkLogSealed (lr_worktree_dir e) (lr_head_sha e)))))
      (\<lambda>_. under rx F e (work_log_closed e)) (settled rx F)" for a b
    by (rule member_step [OF member_step [OF seal]])
  show ?thesis unfolding seal_work_log_def
    by (rule triple_andThen [OF triple_answer_under]) (rule triple_if [OF attest sealing])
qed

lemma begin_journal_step:
  "triple (under rx F e (work_log_closed e)) (begin_journal rx p e)
    (\<lambda>_ s. under rx F e (work_log_closed e) s \<and> at_stage rx e lifecycleStageSealed s) (settled rx F)"
  unfolding begin_journal_def
proof (rule triple_andThen [OF triple_modify [where Q = "\<lambda>_ s. under rx F e (work_log_closed e) s \<and> (\<exists>stage. ex_record s = (entry_record rx e)\<lparr>bl_stage := stage\<rparr>)"]])
  fix s assume u: "under rx F e (work_log_closed e) s"
  moreover have "entry_record rx e = (entry_record rx e)\<lparr>bl_stage := lifecycleStageSealed\<rparr>"
    by (simp add: entry_record_def newLifecycleBacklogRecord_def)
  ultimately show "under rx F e (work_log_closed e) (s\<lparr>ex_record := newLifecycleBacklogRecord (rx_digest rx) (rx_projects_root rx) e ''removed''\<rparr>) \<and>
      (\<exists>stage. ex_record (s\<lparr>ex_record := newLifecycleBacklogRecord (rx_digest rx) (rx_projects_root rx) e ''removed''\<rparr>) = (entry_record rx e)\<lparr>bl_stage := stage\<rparr>)"
    unfolding entry_record_def [symmetric] by (simp add: under_def settled_def) blast
next
  show "triple (\<lambda>s. under rx F e (work_log_closed e) s \<and> (\<exists>stage. ex_record s = (entry_record rx e)\<lparr>bl_stage := stage\<rparr>))
      (andThen (persist (am_persist p) lifecycleStageSealed) (\<lambda>_.
        modify (\<lambda>s. s\<lparr>ex_pending := ex_pending s + 1, ex_result := (ex_result s)\<lparr>wr_backlog_id := bl_id (ex_record s)\<rparr>\<rparr>)))
      (\<lambda>_ s. under rx F e (work_log_closed e) s \<and> at_stage rx e lifecycleStageSealed s) (settled rx F)" for x :: unit
    by (rule triple_andThen [OF triple_persist [OF lasting_facts(2)]], rule triple_modify) (auto simp: under_def settled_def at_stage_def)
qed

lemma retire_remote_step:
  assumes "asks_remote rx e"
  shows "triple (\<lambda>s. under rx F e (work_log_closed e) s \<and> at_stage rx e lifecycleStageSealed s) (retire_remote p recovered e)
    (\<lambda>_ s. under rx F e (\<lambda>evs. work_log_closed e evs \<and> GitRun (remote_args e) True \<in> set evs) s \<and> at_stage rx e lifecycleStageRemoteRetired s) (settled rx F)"
proof -
  have git: "triple (\<lambda>s. under rx F e (work_log_closed e) s \<and> at_stage rx e lifecycleStageRetiringRemote s) (run_git (am_worktree_git p) (remote_args e))
      (\<lambda>_ s. under rx F e (\<lambda>evs. work_log_closed e evs \<and> GitRun (remote_args e) True \<in> set evs) s \<and> at_stage rx e lifecycleStageRetiringRemote s) (settled rx F)"
    by (rule triple_run_git [OF lasting_facts(2)], rule authorizedI) (use assms in \<open>auto simp: under_def\<close>)
  show ?thesis unfolding retire_remote_def invokeCleanupExactRefDelete_def
    by (intro triple_andThen [OF triple_persist_stage [OF lasting_facts(2)]] member_step triple_andThen [OF triple_wrapping [OF git]]
        triple_andThen [OF triple_mark] triple_persist_stage lasting_facts) simp
qed

abbreviation removable :: "run_context \<Rightarrow> list_result \<Rightarrow> cleanup_event list \<Rightarrow> bool" where
  "removable rx e \<equiv> (\<lambda>evs. work_log_closed e evs \<and> (asks_remote rx e \<longrightarrow> GitRun (remote_args e) True \<in> set evs))"

abbreviation removed :: "run_context \<Rightarrow> list_result \<Rightarrow> cleanup_event list \<Rightarrow> bool" where
  "removed rx e \<equiv> (\<lambda>evs. work_log_closed e evs \<and> checkout_removed e evs)"

lemma remove_checkout_step:
  "triple (\<lambda>s. under rx F e (removable rx e) s \<and> at_stage rx e lifecycleStageRemovingWorktree s) (remove_checkout p e)
    (\<lambda>_ s. under rx F e (removed rx e) s \<and> at_stage rx e lifecycleStageRemovingWorktree s) (settled rx F)"
proof -
  let ?A = "at_stage rx e lifecycleStageRemovingWorktree"
  let ?failed = "\<lambda>s. under rx F e (\<lambda>evs. work_log_closed e evs \<and> GitRun (remove_args e) False \<in> set evs) s \<and> ?A s"
  let ?done = "\<lambda>s. under rx F e (removed rx e) s \<and> ?A s"
  have noted: "triple (\<lambda>s. under rx F e (removable rx e) s \<and> ?A s) (note_event (GitRun (remove_args e) ok))
      (\<lambda>_ s. if ok then ?done s else ?failed s) (settled rx F)" for ok
  proof (rule triple_note)
    fix s assume u: "under rx F e (removable rx e) s \<and> ?A s"
    then have "authorized rx (ex_log s) (remove_args e)" by (intro authorizedI) (auto simp: under_def)
    then have "under rx F e (\<lambda>evs. removable rx e evs \<and> GitRun (remove_args e) ok \<in> set evs) (s\<lparr>ex_log := ex_log s @ [GitRun (remove_args e) ok]\<rparr>)"
      using u by (intro under_note lasting_facts) (simp_all add: event_allowed_def is_check_def)
    then show "if ok then ?done (s\<lparr>ex_log := ex_log s @ [GitRun (remove_args e) ok]\<rparr>) else ?failed (s\<lparr>ex_log := ex_log s @ [GitRun (remove_args e) ok]\<rparr>)"
      using u by (auto simp: under_def at_stage_def checkout_removed_def)
  qed
  have residue: "triple ?failed (note_event (ResidueRemoval (lr_worktree_dir e) ok)) (\<lambda>_ s. if ok then ?done s else settled rx F s) (settled rx F)" for ok
  proof (rule triple_note)
    fix s assume u: "?failed s"
    then have "residue_authorized rx (ex_log s) (lr_worktree_dir e)" by (auto simp: residue_authorized_def under_def at_stage_def)
    moreover have "under rx F e (work_log_closed e) s" using u by (auto intro: under_weaken)
    ultimately have "under rx F e (\<lambda>evs. work_log_closed e evs \<and> ResidueRemoval (lr_worktree_dir e) ok \<in> set evs)
        (s\<lparr>ex_log := ex_log s @ [ResidueRemoval (lr_worktree_dir e) ok]\<rparr>)"
      by (intro under_note lasting_facts) (simp_all add: event_allowed_def is_check_def)
    then show "if ok then ?done (s\<lparr>ex_log := ex_log s @ [ResidueRemoval (lr_worktree_dir e) ok]\<rparr>)
        else settled rx F (s\<lparr>ex_log := ex_log s @ [ResidueRemoval (lr_worktree_dir e) ok]\<rparr>)"
      using u by (auto simp: under_def checkout_removed_def at_stage_def)
  qed
  have stop: "triple ?failed (attempt (Some err)) Q (settled rx F)" "triple (settled rx F) (attempt (Some err)) Q (settled rx F)" for err and Q :: "unit \<Rightarrow> member_execution \<Rightarrow> bool"
    by (auto simp: triple_def attempt_def under_def)
  have marked: "triple ?done (modify (\<lambda>s. s\<lparr>ex_result := (ex_result s)\<lparr>wr_residue_removed := b\<rparr>\<rparr>)) (\<lambda>_. ?done) (settled rx F)" for b
    by (rule triple_mark) simp
  show ?thesis
    unfolding remove_checkout_def Let_def
    apply (rule triple_andThen [OF noted])
    apply (cases "am_worktree_git p (remove_args e)")
     apply (simp add: triple_pass)
    apply (cases "am_residue p")
     apply (simp add: stop)
    subgoal for _ _ b
      apply (cases b)
       apply (cases "am_remove_residue p")
        apply (simp, rule triple_andThen [OF residue], simp add: stop)
       apply (simp, rule triple_andThen [OF residue], simp add: marked)
      apply (simp add: stop)
      done
    done
qed

abbreviation staged :: "run_context \<Rightarrow> list_result \<Rightarrow> member_execution \<Rightarrow> bool" where
  "staged rx e s \<equiv> \<exists>stage. at_stage rx e stage s"

lemma triple_persist_staged:
  assumes "lasting K"
  shows "triple (\<lambda>s. under rx F e K s \<and> staged rx e s) (persist port stage)
    (\<lambda>_ s. under rx F e K s \<and> at_stage rx e stage s) (settled rx F)"
  by (rule triple_conseq [OF triple_persist [OF assms, of rx F e port stage]]) (auto simp: at_stage_def)

lemma lasting_removable: "lasting (removable rx e)" and lasting_removed: "lasting (removed rx e)"
  by (intro lasting_facts)+

lemma remove_worktree_step:
  "triple (\<lambda>s. under rx F e (removable rx e) s \<and> staged rx e s) (remove_worktree p recovered e)
    (\<lambda>_ s. under rx F e (removed rx e) s \<and> at_stage rx e lifecycleStageWorktreeRemoved s) (settled rx F)"
  unfolding remove_worktree_def
  by (intro member_step triple_andThen [OF triple_persist_staged [OF lasting_removable]] triple_andThen [OF remove_checkout_step]
      triple_andThen [OF triple_mark] triple_persist_stage lasting_removed) simp

lemma delete_local_branch_step:
  "triple (\<lambda>s. under rx F e (removed rx e) s \<and> at_stage rx e lifecycleStageWorktreeRemoved s) (delete_local_branch p recovered e)
    (\<lambda>_ s. under rx F e (removed rx e) s \<and> at_stage rx e lifecycleStageRemovingLocalBranch s) (settled rx F)"
proof -
  let ?A = "at_stage rx e lifecycleStageRemovingLocalBranch"
  have git: "triple (\<lambda>s. under rx F e (removed rx e) s \<and> ?A s) (run_git (am_canonical_git p) (local_args e))
      (\<lambda>_ s. under rx F e (removed rx e) s \<and> ?A s) (settled rx F)" if "lr_branch e \<noteq> []"
  proof -
    have "authorized rx (ex_log s) (local_args e)" if "under rx F e (removed rx e) s" "?A s" for s
      using \<open>lr_branch e \<noteq> []\<close> that by (intro authorizedI) (auto simp: under_def)
    then show ?thesis by (rule triple_conseq [OF triple_run_git [OF lasting_removed]]) (auto elim: under_weaken)
  qed
  have "triple (\<lambda>s. under rx F e (removed rx e) s \<and> ?A s) (unless (lr_branch e = [])
       (andThen (wrapping because (run_git (am_canonical_git p) (local_args e))) (\<lambda>_.
       modify (\<lambda>s. s\<lparr>ex_result := (ex_result s)\<lparr>wr_branch_deleted := True\<rparr>\<rparr>))))
     (\<lambda>_ s. under rx F e (removed rx e) s \<and> ?A s) (settled rx F)" for because
    by (intro triple_unless triple_pass triple_andThen [OF triple_wrapping [OF git]] triple_mark) simp_all
  then show ?thesis unfolding delete_local_branch_def invokeCleanupExactRefDelete_def
    by (intro member_step triple_andThen [OF triple_persist_stage [OF lasting_removed]])
qed

lemma complete_member_step:
  "triple (\<lambda>s. under rx F e (removed rx e) s \<and> at_stage rx e lifecycleStageRemovingLocalBranch s) (complete_member p e)
    (\<lambda>_ s. under rx F e (removed rx e) s \<and> at_stage rx e lifecycleStageComplete s) (settled rx F)"
proof -
  let ?P = "\<lambda>s. under rx F e (removed rx e) s \<and> at_stage rx e lifecycleStageRemovingLocalBranch s"
  have noted: "triple ?P (note_event ev) (\<lambda>_. ?P) (settled rx F)" if "\<not> is_check ev" "\<And>pre. event_allowed rx pre ev" "\<And>r ok. ev \<noteq> Journalled r ok" for ev
  proof (rule triple_note)
    fix s assume u: "?P s"
    then have "under rx F e (\<lambda>evs. removed rx e evs \<and> ev \<in> set evs) (s\<lparr>ex_log := ex_log s @ [ev]\<rparr>)"
      using that by (intro under_note lasting_removed) simp_all
    then have "under rx F e (removed rx e) (s\<lparr>ex_log := ex_log s @ [ev]\<rparr>)" by (rule under_weaken) simp
    moreover have "at_stage rx e lifecycleStageRemovingLocalBranch (s\<lparr>ex_log := ex_log s @ [ev]\<rparr>)"
      using u that(3) by (auto simp: at_stage_def split: cleanup_event.split)
    ultimately show "?P (s\<lparr>ex_log := ex_log s @ [ev]\<rparr>)" ..
  qed
  have registration: "triple ?P (remove_registration p e) (\<lambda>_. ?P) (settled rx F)"
    unfolding remove_registration_def
    by (cases "SplitRepository (lr_repository e)")
      (auto intro!: triple_andThen [OF noted] triple_attempt_under simp: is_check_def event_allowed_def)
  have finish: "triple (\<lambda>s. under rx F e (removed rx e) s \<and> at_stage rx e lifecycleStageComplete s)
      (modify (\<lambda>s. s\<lparr>ex_pending := ex_pending s - 1, ex_result := (ex_result s)\<lparr>wr_applied := True\<rparr>\<rparr>))
      (\<lambda>_ s. under rx F e (removed rx e) s \<and> at_stage rx e lifecycleStageComplete s) (settled rx F)"
    by (rule triple_modify) (auto simp: under_def settled_def at_stage_def)
  show ?thesis unfolding complete_member_def
    by (intro triple_andThen [OF noted] member_step triple_andThen [OF triple_unless [OF triple_pass registration]]
        triple_andThen [OF triple_persist_stage [OF lasting_removed]] finish) (simp_all add: is_check_def event_allowed_def)
qed

lemma apply_rechecked_step:
  "triple (\<lambda>s. settled rx F s \<and> last_recheck (ex_log s) = Some e \<and> eligible_now rx e \<and> lr_head_sha e \<in> lr_head_sha ` set F)
     (apply_rechecked rx p recovered e) (\<lambda>_ s. settled rx F s \<and> wr_entry (ex_result s) = e) (settled rx F)"
proof -
  have start: "triple (\<lambda>s. settled rx F s \<and> last_recheck (ex_log s) = Some e \<and> eligible_now rx e \<and> lr_head_sha e \<in> lr_head_sha ` set F)
      (modify (\<lambda>s. s\<lparr>ex_result := (ex_result s)\<lparr>wr_entry := e\<rparr>\<rparr>)) (\<lambda>_ s. under rx F e (\<lambda>_. True) s \<and> True) (settled rx F)"
    by (rule triple_modify) (auto simp: under_def settled_def)
  have remote: "triple (\<lambda>s. under rx F e (work_log_closed e) s \<and> at_stage rx e lifecycleStageSealed s)
      (unless (\<not> asks_remote rx e) (retire_remote p recovered e))
      (\<lambda>_ s. under rx F e (removable rx e) s \<and> staged rx e s) (settled rx F)"
    by (rule triple_unless) (auto intro!: triple_pass triple_conseq [OF retire_remote_step] elim: under_weaken)
  have complete: "triple (\<lambda>s. under rx F e (removed rx e) s \<and> at_stage rx e lifecycleStageRemovingLocalBranch s) (complete_member p e)
      (\<lambda>_ s. settled rx F s \<and> wr_entry (ex_result s) = e) (settled rx F)"
    by (rule triple_conseq [OF complete_member_step]) (auto simp: under_def)
  show ?thesis unfolding apply_rechecked_def
    by (intro triple_andThen [OF start] member_step triple_andThen [OF seal_work_log_step] triple_andThen [OF begin_journal_step]
        triple_andThen [OF remote] triple_andThen [OF remove_worktree_step] triple_andThen [OF delete_local_branch_step] complete)
qed

lemma recheck_eligible:
  assumes "recheckCleanupMember p q = Some (Inr e)"
  shows "map_option fst (cleanupEligibility e (rq_options q) (rq_now q)) = Some True" "lr_head_sha e = lr_head_sha (rq_entry q)"
proof -
  obtain x where "recheck_verdict p q x = Some (Inr e)"
    using assms by (auto simp: recheckCleanupMember_def Let_def bind_eq_Some_conv split: option.splits sum.splits)
  then show "map_option fst (cleanupEligibility e (rq_options q) (rq_now q)) = Some True" "lr_head_sha e = lr_head_sha (rq_entry q)"
    by (auto simp: recheck_verdict_def split: if_splits option.splits bool.splits)
qed

lemma and_then_guards:
  assumes "and_then x (\<lambda>y. case a y of Some err \<Rightarrow> Inl err | None \<Rightarrow> (case b of Some err \<Rightarrow> Inl err | None \<Rightarrow>
    (case c y of Some err \<Rightarrow> Inl err | None \<Rightarrow> Inr y))) = Inr e"
  shows "x = Inr e"
  using assms by (cases x) (auto simp: and_then_def split: option.splits)

lemma preflight_eligible:
  assumes "preflightCleanupRepository p (rx_options rx) (rx_now rx) home entry = Some (Inr e)"
  shows "eligible_now rx e" "lr_head_sha e = lr_head_sha entry"
proof -
  have "recheckCleanupMember (pf_recheck p)
      \<lparr>rq_options = rx_options rx, rq_now = rx_now rx, rq_home = home, rq_entry = entry, rq_preflight = True\<rparr> = Some (Inr e)"
    using assms by (auto simp only: preflightCleanupRepository_def map_option_eq_Some option.inject option.case sum.distinct
        split: option.splits dest!: and_then_guards)
  from recheck_eligible [OF this] show "eligible_now rx e" "lr_head_sha e = lr_head_sha entry" by (simp_all add: eligible_now_def)
qed

lemma member_settled:
  assumes run: "applyCleanupMemberWithPorts rx p recovered s = Some (out, s')" and s: "settled rx F s"
    and head: "lr_head_sha (wr_entry (ex_result s)) \<in> lr_head_sha ` set F"
  shows "settled rx F s'" "out = Inr () \<Longrightarrow> lr_head_sha (wr_entry (ex_result s')) \<in> lr_head_sha ` set F"
proof -
  have "settled rx F s' \<and> (out = Inr () \<longrightarrow> lr_head_sha (wr_entry (ex_result s')) \<in> lr_head_sha ` set F)"
  proof (cases "am_open_worktree p")
    case (Some err)
    then show ?thesis using run s by (auto simp: applyCleanupMemberWithPorts_def)
  next
    case None
    then obtain rechecked where re: "recheckCleanupMember (am_recheck p)
        \<lparr>rq_options = rx_options rx, rq_now = rx_now rx, rq_home = rx_home rx, rq_entry = wr_entry (ex_result s), rq_preflight = False\<rparr> = Some rechecked"
      and out: "(out, s') = andThen (answer rechecked) (\<lambda>e. andThen (note_event (Rechecked e)) (\<lambda>_. apply_rechecked rx p recovered e)) s"
      using run by (auto simp: applyCleanupMemberWithPorts_def)
    show ?thesis
    proof (cases rechecked)
      case (Inl err)
      then show ?thesis using out s by (auto simp: andThen_def answer_def)
    next
      case (Inr e)
      let ?s = "s\<lparr>ex_log := ex_log s @ [Rechecked e]\<rparr>"
      have e: "eligible_now rx e" "lr_head_sha e \<in> lr_head_sha ` set F"
        using recheck_eligible [OF re [unfolded Inr]] head by (simp_all add: eligible_now_def)
      have run': "apply_rechecked rx p recovered e ?s = (out, s')"
        using out Inr by (auto simp: andThen_def answer_def note_event_def modify_def)
      have pre: "settled rx F ?s \<and> last_recheck (ex_log ?s) = Some e \<and> eligible_now rx e \<and> lr_head_sha e \<in> lr_head_sha ` set F"
        using s e by (simp add: settled_def event_allowed_def)
      show ?thesis
      proof (cases out)
        case Inl
        then show ?thesis using triple_error [OF apply_rechecked_step pre] run' by simp
      next
        case (Inr u)
        then show ?thesis using triple_value [OF apply_rechecked_step pre] run' e(2) by auto
      qed
    qed
  qed
  then show "settled rx F s'" "out = Inr () \<Longrightarrow> lr_head_sha (wr_entry (ex_result s')) \<in> lr_head_sha ` set F" by simp_all
qed

section \<open>The members of a task\<close>

definition task_settled :: "run_context \<Rightarrow> list_result list \<Rightarrow> cleanup_run \<Rightarrow> bool" where
  "task_settled rx F r \<longleftrightarrow> orderly rx (rn_log r) \<and> preflights (rn_log r) = F \<and> prefix (map Preflighted F) (rn_log r)"

definition heads_known :: "list_result list \<Rightarrow> nat list \<Rightarrow> cleanup_run \<Rightarrow> bool" where
  "heads_known F indices r \<longleftrightarrow> (\<forall>i \<in> set indices. i < length (rn_results r) \<and> lr_head_sha (wr_entry (rn_results r ! i)) \<in> lr_head_sha ` set F)"

lemma task_settled_member: "settled rx F (member_start index pending r) \<longleftrightarrow> task_settled rx F r"
  "task_settled rx F (member_end index s r) \<longleftrightarrow> settled rx F s"
  by (simp_all add: settled_def task_settled_def member_start_def member_end_def)

lemma apply_members_settled:
  assumes "apply_members rx p recovered indices pending r = Some (err, pending', r')" "task_settled rx F r" "heads_known F indices r"
  shows "task_settled rx F r'"
  using assms
proof (induction indices arbitrary: pending r)
  case (Cons index indices)
  obtain out s where m: "applyCleanupMemberWithPorts rx (tk_member p index) recovered (member_start index pending r) = Some (out, s)"
    using Cons.prems(1) by (auto split: option.splits)
  have start: "settled rx F (member_start index pending r)" "lr_head_sha (wr_entry (ex_result (member_start index pending r))) \<in> lr_head_sha ` set F"
    using Cons.prems(2,3) by (simp_all add: task_settled_member, simp_all add: heads_known_def member_start_def)
  note settled = member_settled [OF m start]
  show ?case
  proof (cases out)
    case Inl
    then show ?thesis using Cons.prems(1) m settled(1) by (auto simp: task_settled_member)
  next
    case (Inr u)
    have rest: "apply_members rx p recovered indices (ex_pending s) (member_end index s r) = Some (err, pending', r')"
      using Cons.prems(1) m Inr by simp
    have "heads_known F indices (member_end index s r)"
      using Cons.prems(3) settled(2) Inr by (auto simp: heads_known_def member_end_def nth_list_update)
    then show ?thesis using Cons.IH [OF rest] settled(1) by (simp add: task_settled_member)
  qed
qed simp

lemma preflight_members_settled:
  assumes "preflight_members rx p indices r = Some (None, r')" "rn_log r = map Preflighted F" "heads_known F done r" "list_all (eligible_now rx) F"
    and "list_all (\<lambda>i. i < length (rn_results r)) indices"
  shows "\<exists>F'. rn_log r' = map Preflighted F' \<and> length F' = length F + length indices \<and> list_all (eligible_now rx) F' \<and>
    heads_known F' (done @ indices) r'"
  using assms
proof (induction indices arbitrary: r F "done")
  case (Cons index indices)
  obtain e where e: "preflightCleanupRepository (tk_preflight p index) (rx_options rx) (rx_now rx) (rx_home rx) (wr_entry (rn_results r ! index)) = Some (Inr e)"
    and rest: "preflight_members rx p indices (log_events [Preflighted e] (set_entry index e r)) = Some (None, r')"
    using Cons.prems(1) by (auto split: option.splits sum.splits)
  let ?r = "log_events [Preflighted e] (set_entry index e r)"
  have "heads_known (F @ [e]) (done @ [index]) ?r"
    using Cons.prems(3,5) by (auto simp: heads_known_def log_events_def set_entry_def nth_list_update)
  then show ?case
    using Cons.IH [OF rest, of "F @ [e]" "done @ [index]"] Cons.prems preflight_eligible(1) [OF e]
    by (simp add: log_events_def set_entry_def)
qed (auto intro: exI)

lemma preflight_members_log:
  assumes "preflight_members rx p indices r = Some (out, r')" "rn_log r = map Preflighted F"
  shows "\<exists>F'. rn_log r' = map Preflighted F'"
  using assms
proof (induction indices arbitrary: r F)
  case (Cons index indices)
  show ?case
  proof (cases "preflightCleanupRepository (tk_preflight p index) (rx_options rx) (rx_now rx) (rx_home rx) (wr_entry (rn_results r ! index))")
    case (Some x)
    then show ?thesis using Cons.prems
      by (cases x) (auto dest!: Cons.IH [where F = "F @ [e]" for e] simp: log_events_def set_entry_def)
  qed (use Cons.prems in simp)
qed auto

lemma preflights_map: "preflights (map Preflighted F) = F"
  by (induction F rule: rev_induct) simp_all

lemma preflights_mono: "prefix (preflights xs) (preflights (xs @ ys))"
proof (induction ys rule: rev_induct)
  case (snoc y ys)
  have "prefix (preflights (xs @ ys)) (preflights ((xs @ ys) @ [y]))" by (subst log_snoc) (cases y; simp)
  then show ?case using snoc by (simp add: prefix_order.trans)
qed simp

lemma orderly_preflights: "orderly rx (map Preflighted F)"
  by (induction F rule: rev_induct) (simp_all add: event_allowed_def)

lemma orderly_harmless:
  assumes "orderly rx log" "\<And>ev pre. ev \<in> set evs \<Longrightarrow> event_allowed rx pre ev"
  shows "orderly rx (log @ evs)"
  using assms
proof (induction evs rule: rev_induct)
  case (snoc ev evs)
  then have "orderly rx ((log @ evs) @ [ev])" by (subst orderly_snoc) simp
  then show ?case by simp
qed simp

text \<open>The events that end a task say nothing about refs or checkouts.\<close>

definition is_ending :: "cleanup_event \<Rightarrow> bool" where
  "is_ending ev = (case ev of ArtifactsArchived _ \<Rightarrow> True | LockPreserved \<Rightarrow> True | LockReleased _ \<Rightarrow> True
     | LockDebrisPurged \<Rightarrow> True | TaskDirectoryRemoved \<Rightarrow> True | _ \<Rightarrow> False)"

lemma task_settled_ending:
  assumes "task_settled rx F r" "list_all is_ending evs" "rn_log r' = rn_log r @ evs"
  shows "task_settled rx F r'"
proof -
  have "orderly rx (rn_log r @ evs)"
    using assms(1,2) by (intro orderly_harmless) (auto simp: task_settled_def list_all_iff is_ending_def event_allowed_def split: cleanup_event.splits)
  moreover have "preflights (log @ evs) = preflights log" for log
    using assms(2)
  proof (induction evs rule: rev_induct)
    case (snoc ev evs)
    have "preflights ((log @ evs) @ [ev]) = preflights (log @ evs)"
      using snoc.prems by (subst log_snoc) (auto simp: is_ending_def split: cleanup_event.splits)
    then show ?case using snoc by simp
  qed simp
  ultimately show ?thesis using assms(1,3) by (auto simp: task_settled_def)
qed

lemma release_task_log: "\<exists>evs. list_all is_ending evs \<and> rn_log (release_task rx p entry recovered pending r) = rn_log r @ evs"
  by (auto simp: release_task_def Let_def log_events_def is_ending_def split: option.split)

lemma finish_recovered_log:
  "finish_recovered p r = (e, r') \<Longrightarrow> \<exists>evs. list_all is_ending evs \<and> rn_log r' = rn_log r @ evs"
  by (auto simp: finish_recovered_def log_events_def is_ending_def split: option.splits)

text \<open>What a task leaves in its log: preflights only, or those of all its members and then an orderly rest.\<close>

definition task_log :: "run_context \<Rightarrow> nat \<Rightarrow> cleanup_event list \<Rightarrow> bool" where
  "task_log rx n log \<longleftrightarrow> (\<forall>args ok. GitRun args ok \<notin> set log) \<or>
     (\<exists>F. length F = n \<and> list_all (eligible_now rx) F \<and> orderly rx log \<and> preflights log = F \<and> prefix (map Preflighted F) log)"

lemma task_log_ending: "task_log rx n log \<Longrightarrow> list_all is_ending evs \<Longrightarrow> task_log rx n (log @ evs)"
proof -
  assume log: "task_log rx n log" and evs: "list_all is_ending evs"
  have quiet: "GitRun args ok \<notin> set evs" for args ok using evs by (auto simp: list_all_iff is_ending_def)
  have "task_settled rx F \<lparr>rn_log = log @ evs, rn_results = [], rn_artifacts = [], rn_diagnostics = [], rn_recovered_task = False, rn_recovery = None\<rparr>"
    if "task_settled rx F \<lparr>rn_log = log, rn_results = [], rn_artifacts = [], rn_diagnostics = [], rn_recovered_task = False, rn_recovery = None\<rparr>" for F
    by (rule task_settled_ending [OF that evs]) simp
  then show ?thesis using log quiet unfolding task_log_def task_settled_def by (auto intro: prefix_prefix)
qed

lemma task_transaction_log:
  assumes "task_transaction rx p entry recovered r = Some (err, pending, r')" "rn_log r = []"
    and "list_all (\<lambda>i. i < length (rn_results r)) (ae_results entry)"
  shows "task_log rx (length (ae_results entry)) (rn_log r')"
proof -
  obtain out r1 where pre: "preflight_members rx p (ae_results entry) r = Some (out, r1)"
    using assms(1) by (auto simp: task_transaction_def split: option.splits)
  obtain F0 where F0: "rn_log r1 = map Preflighted F0" using preflight_members_log [OF pre, of "[]"] assms(2) by auto
  then have quiet: "task_log rx (length (ae_results entry)) (rn_log r1)" by (auto simp: task_log_def)
  show ?thesis
  proof (cases "out = None \<and> tk_prepare_artifacts p = None")
    case False
    then have "r' = r1" using assms(1) pre by (auto simp: task_transaction_def split: option.splits)
    then show ?thesis using quiet by simp
  next
    case True
    obtain F where F: "rn_log r1 = map Preflighted F" "length F = length (ae_results entry)" "list_all (eligible_now rx) F"
        "heads_known F (ae_results entry) r1"
      using preflight_members_settled [OF pre [unfolded conjunct1 [OF True]], of "[]" "[]"] assms(2,3) by (auto simp: heads_known_def)
    then have settled: "task_settled rx F r1"
      using orderly_preflights [of rx F] by (simp add: task_settled_def preflights_map)
    obtain e pend r2 where ap: "apply_members rx p recovered (ae_results entry) 0 r1 = Some (e, pend, r2)"
      using assms(1) pre True by (auto simp: task_transaction_def split: option.splits)
    have "task_settled rx F r2" by (rule apply_members_settled [OF ap settled F(4)])
    then have two: "task_log rx (length (ae_results entry)) (rn_log r2)" using F by (auto simp: task_log_def task_settled_def)
    have "\<exists>evs. list_all is_ending evs \<and> rn_log r' = rn_log r2 @ evs"
      using assms(1) pre True ap
      by (auto simp: task_transaction_def Let_def log_events_def is_ending_def split: option.splits prod.splits if_splits
          dest!: finish_recovered_log)
    then show ?thesis using task_log_ending [OF two] by auto
  qed
qed

lemma applyCleanupTask_cases:
  assumes run: "applyCleanupTaskWithPorts rx p entry r = Some (err, r')"
  obtains (nothing) "rn_log r' = rn_log r" | (preserved) "rn_log r' = rn_log r @ [LockPreserved]"
    | (locked) r0 e pending r1 where "rn_log r0 = rn_log r" "rn_results r0 = rn_results r"
        "task_transaction rx p entry (is_recovered_task entry r) r0 = Some (e, pending, r1)"
        "r' = release_task rx p entry (is_recovered_task entry r) pending r1"
proof -
  let ?recovered = "is_recovered_task entry r"
  have via: thesis if "map_option (\<lambda>(e, pending, r). (e, release_task rx p entry ?recovered pending r)) (task_transaction rx p entry ?recovered r0) = Some (err, r')"
    "rn_log r0 = rn_log r" "rn_results r0 = rn_results r" for r0
    using that locked by auto
  show thesis
  proof (cases "?recovered \<and> \<not> ae_has_eligible entry \<or> \<not> ae_can_apply entry")
    case True
    then have "r' = r" using run unfolding applyCleanupTaskWithPorts_def Let_def by simp
    then have "rn_log r' = rn_log r" by simp
    then show thesis by (rule nothing)
  next
    case go: False
    show thesis
    proof (cases ?recovered)
      case True
      then show thesis
        using run go preserved via [of "r\<lparr>rn_recovered_task := False\<rparr>"] unfolding applyCleanupTaskWithPorts_def Let_def
        by (cases "tk_validate_held p") (auto simp: log_events_def)
    next
      case False
      show thesis
      proof (cases "tk_acquire p")
        case None
        then show thesis using False run go via [of r] unfolding applyCleanupTaskWithPorts_def Let_def by simp
      next
        case (Some a)
        then have "rn_log r' = rn_log r" using False run go unfolding applyCleanupTaskWithPorts_def Let_def by simp
        then show thesis by (rule nothing)
      qed
    qed
  qed
qed

section \<open>Properties\<close>

text \<open>
  C2: every destructive step is announced. Whatever the ports answer, a Git command that a task runs
  comes after every member of the task has passed its preflight as an eligible entry. It is the
  deletion of the remote branch at the head that was observed, the removal of the checkout, or the
  deletion of the local branch at its head, in this order and for the entry that was rechecked last:
  one that is eligible, whose head is one that was preflighted, whose Work Log is sealed or attested as
  missing, and whose record stands in the journal at the stage that announces exactly this command.
\<close>

theorem removals_journalled:
  assumes "applyCleanupTaskWithPorts rx p entry r = Some (err, r')" "rn_log r = []"
    and "list_all (\<lambda>i. i < length (rn_results r)) (ae_results entry)"
    and step: "rn_log r' = pre @ GitRun args ok # post"
  shows "length (preflights pre) = length (ae_results entry) \<and> list_all (eligible_now rx) (preflights pre) \<and> authorized rx pre args"
proof -
  have "task_log rx (length (ae_results entry)) (rn_log r')"
    using assms(1)
  proof (cases rule: applyCleanupTask_cases)
    case (locked r0 e pending r1)
    obtain evs where evs: "list_all is_ending evs" "rn_log r' = rn_log r1 @ evs"
      using release_task_log [of rx p entry "is_recovered_task entry r" pending r1] locked(4) by auto
    have "task_log rx (length (ae_results entry)) (rn_log r1)"
      by (rule task_transaction_log [OF locked(3)]) (use assms(2,3) locked(1,2) in simp_all)
    then show ?thesis using task_log_ending evs by simp
  qed (use assms(2) in \<open>auto simp: task_log_def\<close>)
  then obtain F where F: "length F = length (ae_results entry)" "list_all (eligible_now rx) F" "orderly rx (rn_log r')"
      "preflights (rn_log r') = F" "prefix (map Preflighted F) (rn_log r')"
    using step by (auto simp: task_log_def)
  obtain post' where "map Preflighted F @ post' = pre @ GitRun args ok # post" using F(5) step by (auto simp: prefix_def)
  then obtain pre' where pre': "pre = map Preflighted F @ pre'"
    by (auto simp: append_eq_append_conv2 map_eq_append_conv append_eq_Cons_conv)
  have "preflights pre = F"
  proof -
    have "prefix F (preflights pre)" using preflights_mono [of "map Preflighted F" pre'] pre' by (simp add: preflights_map)
    moreover have "prefix (preflights pre) F" using preflights_mono [of pre "GitRun args ok # post"] F(4) step by simp
    ultimately show ?thesis by (rule prefix_order.antisym [symmetric])
  qed
  moreover have "event_allowed rx pre (GitRun args ok)" using F(3) step unfolding orderly_def by blast
  ultimately show ?thesis using F(1,2) by (simp add: event_allowed_def)
qed

section \<open>Witnesses\<close>

text \<open>The worktree of the eligibility witnesses with its branch still at origin, at an ancestor 9.\<close>

definition pushed_env :: lifecycle_env where
  "pushed_env = sample_env\<lparr>lv_receipts := sample_receipts\<lparr>r_Git := (\<lambda>dir args.
       if args = [''ls-remote'', ''--heads'', ''origin'', ''refs/heads/x''] then Inr (''9'' @ CHR 0x09 # ''x'')
       else if args = [''cat-file'', ''-t'', ''9''] then Inr ''commit'' else r_Git sample_receipts dir args),
     r_IsAncestor := (\<lambda>_ c d. Inr (c = sample_head \<and> d = sample_target \<or> c = ''9''))\<rparr>\<rparr>"

definition sample_recheck :: recheck_ports where
  "sample_recheck = \<lparr>rc_validate_before = None, rc_env = pushed_env, rc_located = (\<lambda>_. Inr sample_located), rc_validate_after = None\<rparr>"

definition sample_context :: "bool \<Rightarrow> run_context" where
  "sample_context deleteRemote = \<lparr>rx_options = (sample_request 0)\<lparr>cq_delete_remote := deleteRemote, cq_require_remote := False\<rparr>, rx_now = 8, rx_home = ''/h'',
     rx_projects_root = ''/p'', rx_digest = (\<lambda>_. ''id'')\<rparr>"

text \<open>All goes well, but for the deletion of the local branch when \<open>fails\<close>.\<close>

definition sample_member :: "bool \<Rightarrow> member_ports" where
  "sample_member fails = \<lparr>am_open_worktree = None, am_recheck = sample_recheck, am_open_canonical = (\<lambda>_. None), am_validate_canonical = None,
     am_validate_worktree = (\<lambda>_. None), am_retire_missing_history = (\<lambda>_. Inr False), am_preflight_work_log = (\<lambda>_ _. None), am_recover_legacy = (\<lambda>_. None),
     am_seal_supersession = (\<lambda>_ _. None), am_seal_cleanup = (\<lambda>_ _ _. None), am_persist = (\<lambda>_. None), am_validate_recovered = (\<lambda>_ _. None),
     am_worktree_git = (\<lambda>_. None), am_canonical_git = (\<lambda>_. if fails then Some ''ref is locked'' else None), am_residue = Inr False,
     am_remove_residue = Inr False, am_validate_task = None, am_remove_parent = None, am_remove_adopted = (\<lambda>_ _. None)\<rparr>"

definition sample_preflight :: preflight_ports where
  "sample_preflight = \<lparr>pf_open_worktree = None, pf_recheck = sample_recheck, pf_open_canonical = (\<lambda>_. None), pf_validate_canonical = None, pf_work_log = (\<lambda>_. None)\<rparr>"

definition sample_task :: task_ports where
  "sample_task = \<lparr>tk_validate_held = None, tk_acquire = None, tk_preflight = (\<lambda>_. sample_preflight), tk_prepare_artifacts = None,
     tk_member = (\<lambda>_. sample_member False), tk_archive_artifacts = (\<lambda>as. (None, as)), tk_release_recovered = None, tk_inventory = Inr (0, 0), tk_release = None\<rparr>"

definition sample_result :: worktree_result where
  "sample_result = \<lparr>wr_entry = zero_result\<lparr>lr_head_sha := sample_head\<rparr>, wr_eligible = True, wr_applied = False, wr_remote_deleted = False,
     wr_worktree_gone = False, wr_residue_removed = False, wr_branch_deleted = False, wr_backlog_id = [], wr_reason = [], wr_proof = []\<rparr>"

definition sample_apply_entry :: apply_entry where
  "sample_apply_entry = \<lparr>ae_selection = \<lparr>ts_worktrees_root = ''/w'', ts_task = ''t''\<rparr>, ae_results = [0], ae_artifacts = [], ae_repositories = [''/c''],
     ae_can_apply = True, ae_has_eligible = True, ae_after = []\<rparr>"

definition sample_cleanup_run :: cleanup_run where
  "sample_cleanup_run = \<lparr>rn_log = [], rn_results = [sample_result], rn_artifacts = [], rn_diagnostics = [], rn_recovered_task = False, rn_recovery = None\<rparr>"

text \<open>What the inspection of this worktree gives, which the receipts leave as it is.\<close>

definition pushed_entry :: list_result where
  "pushed_entry = zero_result\<lparr>lr_task := ''t'', lr_repository := ''a/b'', lr_canonical_dir := ''/c'', lr_worktree_dir := ''/w'', lr_worktrees_root := ''/'',
     lr_branch := ''x'', lr_base := ''main'', lr_head_sha := sample_head, lr_remote_head_sha := ''9'', lr_remote_head_ancestor := True,
     lr_remote_target_sha := sample_target, lr_integrated := True, lr_clean := True, lr_locally_merged := True,
     lr_merged_pr := Some \<lparr>pr_number = 7, pr_url = [], pr_repository = ''a/b'', pr_state = ''MERGED'', pr_base = ''main'', pr_base_sha = [],
       pr_head_sha = sample_head, pr_merge_sha = sample_head, pr_merged = Some 5\<rparr>\<rparr>"

lemma pushed_entry_fields [simp]:
  "lr_branch pushed_entry = ''x''" "lr_worktree_dir pushed_entry = ''/w''" "lr_head_sha pushed_entry = sample_head"
  "lr_remote_head_sha pushed_entry = ''9''" "\<not> lr_external pushed_entry" "\<not> lr_detached pushed_entry"
  "lr_supersession_rejection pushed_entry = []" "\<not> lr_superseded pushed_entry"
  by (simp_all add: pushed_entry_def zero_result_def)

lemma pushed_inspected: "inspectLifecycleWorktree pushed_env sample_located = Inr pushed_entry"
  by code_simp

lemma pushed_receipts:
  "applyMergeReceiptCleanupProof pushed_env [] pushed_entry = pushed_entry"
  "applyAbsorbedConflictAcknowledgementCleanupProof pushed_env ''/h'' pushed_entry = Inr pushed_entry"
  "applySupersessionReceipt pushed_env [] pushed_entry = Some pushed_entry"
  by code_simp+

lemma pushed_eligible: "cleanupEligibility pushed_entry (rx_options (sample_context deleteRemote)) 8 = Some (True, [])"
proof (cases deleteRemote)
  case True
  have "cleanupEligibility pushed_entry (rx_options (sample_context True)) 8 = Some (True, [])" by code_simp
  then show ?thesis using True by simp
next
  case False
  have "cleanupEligibility pushed_entry (rx_options (sample_context False)) 8 = Some (True, [])" by code_simp
  then show ?thesis using False by simp
qed

lemma pushed_rechecks:
  assumes "lr_head_sha e = sample_head"
  shows "recheckCleanupMember sample_recheck \<lparr>rq_options = rx_options (sample_context deleteRemote), rq_now = 8, rq_home = ''/h'', rq_entry = e,
    rq_preflight = preflight\<rparr> = Some (Inr pushed_entry)"
  using assms pushed_eligible [of deleteRemote]
  by (simp add: and_then_def recheckCleanupMember_def recheck_verdict_def sample_recheck_def pushed_inspected pushed_receipts sample_context_def sample_request_def Let_def)

definition pushed_record :: "string \<Rightarrow> lifecycle_backlog_record" where
  "pushed_record stage = (entry_record (sample_context True) pushed_entry)\<lparr>bl_stage := stage\<rparr>"

lemma pushed_record_stage [simp]: "(pushed_record stage)\<lparr>bl_stage := later\<rparr> = pushed_record later"
  by (simp add: pushed_record_def)

lemma pushed_record_context: "(newLifecycleBacklogRecord (rx_digest (sample_context b)) (rx_projects_root (sample_context b)) pushed_entry ''removed'')\<lparr>bl_stage := stage\<rparr> = pushed_record stage"
  by (simp add: pushed_record_def entry_record_def sample_context_def)

definition member_log :: "bool \<Rightarrow> bool \<Rightarrow> cleanup_event list" where
  "member_log deleteRemote fails =
     [Rechecked pushed_entry, WorkLogSealed ''/w'' sample_head, Journalled (pushed_record lifecycleStageSealed) True] @
     (if deleteRemote then [Journalled (pushed_record lifecycleStageRetiringRemote) True, GitRun (remote_args pushed_entry) True,
        Journalled (pushed_record lifecycleStageRemoteRetired) True] else []) @
     [Journalled (pushed_record lifecycleStageRemovingWorktree) True, GitRun (remove_args pushed_entry) True,
      Journalled (pushed_record lifecycleStageWorktreeRemoved) True, Journalled (pushed_record lifecycleStageRemovingLocalBranch) True,
      GitRun (local_args pushed_entry) (\<not> fails)] @
     (if fails then [] else [ParentRemoval True, Journalled (pushed_record lifecycleStageComplete) True])"

lemmas effect_steps = andThen_def attempt_def answer_def pass_def unless_def modify_def note_event_def wrapping_def wrap_def

lemmas member_steps = effect_steps persist_def run_git_def invokeCleanupExactRefDelete_def Let_def

lemma sample_member_runs:
  assumes "lr_head_sha (wr_entry (ex_result s)) = sample_head"
  shows "\<exists>out s'. applyCleanupMemberWithPorts (sample_context deleteRemote) (sample_member fails) recovered s = Some (out, s') \<and>
    isl out = fails \<and> ex_log s' = ex_log s @ member_log deleteRemote fails"
proof -
  have cx: "rx_now (sample_context deleteRemote) = 8" "rx_home (sample_context deleteRemote) = ''/h''" "cq_delete_remote (rx_options (sample_context b)) = b" for b
    by (simp_all add: sample_context_def)
  have "\<exists>out s'. apply_rechecked (sample_context deleteRemote) (sample_member fails) recovered pushed_entry t = (out, s') \<and>
      isl out = fails \<and> ex_log s' = ex_log t @ tl (member_log deleteRemote fails)" for t
    by (cases deleteRemote; cases fails)
      (simp_all add: apply_rechecked_def seal_work_log_def begin_journal_def retire_remote_def remove_worktree_def remove_checkout_def
        delete_local_branch_def complete_member_def member_steps sample_member_def member_log_def cx pushed_record_context)
  then obtain out s' where ap: "apply_rechecked (sample_context deleteRemote) (sample_member fails) recovered pushed_entry
      (s\<lparr>ex_log := ex_log s @ [Rechecked pushed_entry]\<rparr>) = (out, s')"
    and out: "isl out = fails" "ex_log s' = ex_log s @ Rechecked pushed_entry # tl (member_log deleteRemote fails)"
    by fastforce
  have "am_open_worktree (sample_member fails) = None" "am_recheck (sample_member fails) = sample_recheck"
    by (simp_all add: sample_member_def)
  then have "applyCleanupMemberWithPorts (sample_context deleteRemote) (sample_member fails) recovered s = Some (out, s')"
    using pushed_rechecks [OF assms, of deleteRemote False] ap by (simp add: applyCleanupMemberWithPorts_def cx member_steps)
  moreover have "Rechecked pushed_entry # tl (member_log deleteRemote fails) = member_log deleteRemote fails"
    by (simp add: member_log_def)
  ultimately show ?thesis using out by auto
qed


lemma sample_task_runs:
  "\<exists>r'. applyCleanupTaskWithPorts (sample_context True) sample_task sample_apply_entry sample_cleanup_run = Some (None, r') \<and>
     set (member_log True False) \<subseteq> set (rn_log r')"
proof -
  let ?r = "log_events [Preflighted pushed_entry] (set_entry 0 pushed_entry sample_cleanup_run)"
  have entry: "ae_results sample_apply_entry = [0]" by (simp add: sample_apply_entry_def)
  have ports: "tk_prepare_artifacts sample_task = None" "tk_archive_artifacts sample_task as = (None, as)" for as by (simp_all add: sample_task_def)
  have "preflightCleanupRepository sample_preflight (rx_options (sample_context True)) (rx_now (sample_context True)) (rx_home (sample_context True))
      (wr_entry (rn_results sample_cleanup_run ! 0)) = Some (Inr pushed_entry)"
    using pushed_rechecks [of "wr_entry sample_result" True True]
    by (simp add: preflightCleanupRepository_def sample_preflight_def sample_cleanup_run_def sample_result_def sample_context_def wrap_def and_then_def)
  then have pre: "preflight_members (sample_context True) sample_task [0] sample_cleanup_run = Some (None, ?r)"
    by (simp add: sample_task_def)
  have head: "lr_head_sha (wr_entry (ex_result (member_start 0 0 ?r))) = sample_head"
    by (simp add: member_start_def log_events_def set_entry_def sample_cleanup_run_def)
  from sample_member_runs [OF head, of True False False] obtain s'
    where m: "applyCleanupMemberWithPorts (sample_context True) (sample_member False) False (member_start 0 0 ?r) = Some (Inr (), s')"
      and l: "ex_log s' = rn_log ?r @ member_log True False"
    by (auto simp: member_start_def) (metis old.unit.exhaust sum.collapse(2))
  have "apply_members (sample_context True) sample_task False [0] 0 ?r = Some (None, ex_pending s', member_end 0 s' ?r)"
    using m by (simp add: sample_task_def)
  then have "\<exists>r'. task_transaction (sample_context True) sample_task sample_apply_entry False sample_cleanup_run = Some (None, ex_pending s', r') \<and>
      rn_log r' = ex_log s' @ [ArtifactsArchived True]"
    using pre ports by (simp add: task_transaction_def entry log_events_def member_end_def Let_def del: preflight_members.simps apply_members.simps)
  then obtain r1 where t: "task_transaction (sample_context True) sample_task sample_apply_entry False sample_cleanup_run = Some (None, ex_pending s', r1)"
    and l1: "rn_log r1 = ex_log s' @ [ArtifactsArchived True]" by blast
  have rec: "\<not> is_recovered_task sample_apply_entry sample_cleanup_run" by (simp add: is_recovered_task_def sample_cleanup_run_def)
  have "applyCleanupTaskWithPorts (sample_context True) sample_task sample_apply_entry sample_cleanup_run =
      Some (None, release_task (sample_context True) sample_task sample_apply_entry False (ex_pending s') r1)"
    using t rec by (simp add: applyCleanupTaskWithPorts_def Let_def) (simp add: sample_apply_entry_def sample_task_def)
  moreover obtain evs where "rn_log (release_task (sample_context True) sample_task sample_apply_entry False (ex_pending s') r1) = rn_log r1 @ evs"
    using release_task_log by blast
  ultimately show ?thesis using l l1 by auto
qed

theorem removals_journalled_witness:
  "\<exists>r' pre post. applyCleanupTaskWithPorts (sample_context True) sample_task sample_apply_entry sample_cleanup_run = Some (None, r') \<and>
     rn_log r' = pre @ GitRun [''update-ref'', ''-d'', ''refs/heads/x'', sample_head] True # post \<and> length (preflights pre) = 1 \<and>
     authorized (sample_context True) pre [''update-ref'', ''-d'', ''refs/heads/x'', sample_head]"
proof -
  obtain r' where run: "applyCleanupTaskWithPorts (sample_context True) sample_task sample_apply_entry sample_cleanup_run = Some (None, r')"
    and log: "set (member_log True False) \<subseteq> set (rn_log r')"
    using sample_task_runs by blast
  have "GitRun [''update-ref'', ''-d'', ''refs/heads/x'', sample_head] True \<in> set (rn_log r')"
    by (rule subsetD [OF log]) (simp add: member_log_def exactRefDelete_def)
  from split_list [OF this] obtain pre post where split: "rn_log r' = pre @ GitRun [''update-ref'', ''-d'', ''refs/heads/x'', sample_head] True # post"
    by blast
  have "rn_log sample_cleanup_run = []" "list_all (\<lambda>i. i < length (rn_results sample_cleanup_run)) (ae_results sample_apply_entry)"
    by (simp_all add: sample_cleanup_run_def sample_apply_entry_def)
  from removals_journalled [OF run this split] show ?thesis using run split by (auto simp: sample_apply_entry_def)
qed

end
