(* ===== verification/Worktree_Recovery.thy ===== *)
theory Worktree_Recovery
  imports Worktree_Apply_Props
begin

text \<open>
  What an interrupted removal leaves behind. \<open>member_world\<close> is what a removal is about: the two branches,
  the registration and directory of the checkout, its record in the journal, and the registration WB
  keeps for a worktree it adopted from outside its own directories. \<open>effects\<close> are the
  worlds a step of a log can lead to, as the manuals of the Git commands and the rename of a file
  describe them: a step that failed, or that a crash cut off, may or may not have had its effect.
\<close>

section \<open>Worlds\<close>

record member_world =
  mw_branch :: string
  mw_path :: string
  mw_remote :: "string option"
  mw_registered :: bool
  mw_directory :: bool
  mw_local :: "string option"
  mw_journal :: "lifecycle_backlog_record option"
  mw_adopted :: bool

text \<open>
  The commands of a removal when they succeed; \<open>None\<close> is a refusal. A push with a lease deletes the
  branch only at the commit the lease names, \<^verbatim>\<open>update-ref -d\<close> only at the commit given.
\<close>

definition git_outcome :: "string list \<Rightarrow> member_world \<Rightarrow> member_world option" where
  "git_outcome args w =
     (case args of
        [verb, a, b, c] \<Rightarrow>
          if verb = ''push'' then
            (case mw_remote w of
               None \<Rightarrow> None
             | Some sha \<Rightarrow> if args = exactRefDelete cleanupRemoteRef (mw_branch w) sha then Some (w\<lparr>mw_remote := None\<rparr>) else None)
          else
            (case mw_local w of
               None \<Rightarrow> None
             | Some sha \<Rightarrow> if args = exactRefDelete cleanupLocalRef (mw_branch w) sha then Some (w\<lparr>mw_local := None\<rparr>) else None)
      | _ \<Rightarrow> if args = [''worktree'', ''remove'', mw_path w] \<and> mw_registered w
          then Some (w\<lparr>mw_registered := False, mw_directory := False\<rparr>) else None)"

definition effects :: "cleanup_event \<Rightarrow> member_world \<Rightarrow> member_world list" where
  "effects ev w =
     (case ev of
        Journalled r ok \<Rightarrow> (if ok then [] else [w]) @ [w\<lparr>mw_journal := Some r\<rparr>]
      | GitRun args ok \<Rightarrow>
          (if ok then [] else w # (if length args = 3 \<and> git_outcome args w \<noteq> None then [w\<lparr>mw_registered := False\<rparr>] else [])) @
          (case git_outcome args w of None \<Rightarrow> [] | Some w' \<Rightarrow> [w'])
      | ResidueRemoval path ok \<Rightarrow> (if ok then [] else [w]) @ [w\<lparr>mw_directory := False\<rparr>]
      | RegistrationRemoval owner repository ok \<Rightarrow> (if ok then [] else [w]) @ [w\<lparr>mw_adopted := False\<rparr>]
      | _ \<Rightarrow> [w])"

definition replay :: "cleanup_event list \<Rightarrow> member_world \<Rightarrow> member_world list" where
  "replay log w = foldl (\<lambda>ws ev. concat (map (effects ev) ws)) [w] log"

text \<open>A run stops after a step it logged, or is cut off inside one.\<close>

definition interrupted :: "cleanup_event \<Rightarrow> cleanup_event" where
  "interrupted ev =
     (case ev of Journalled r _ \<Rightarrow> Journalled r False | GitRun args _ \<Rightarrow> GitRun args False
      | ResidueRemoval path _ \<Rightarrow> ResidueRemoval path False
      | RegistrationRemoval owner repository _ \<Rightarrow> RegistrationRemoval owner repository False | _ \<Rightarrow> ev)"

definition stopped_at :: "cleanup_event list \<Rightarrow> cleanup_event list \<Rightarrow> bool" where
  "stopped_at log stop \<longleftrightarrow> stop = log \<or> (\<exists>pre ev post. log = pre @ ev # post \<and> stop = pre @ [interrupted ev])"

definition remote_of :: "list_result \<Rightarrow> string option" where
  "remote_of e = (if lr_remote_head_sha e = [] then None else Some (lr_remote_head_sha e))"

definition local_of :: "list_result \<Rightarrow> string option" where
  "local_of e = (if lr_branch e = [] then None else Some (lr_head_sha e))"

text \<open>The world as the recheck found it.\<close>

definition rechecked_world :: "list_result \<Rightarrow> member_world" where
  "rechecked_world e = \<lparr>mw_branch = lr_branch e, mw_path = lr_worktree_dir e, mw_remote = remote_of e, mw_registered = True,
     mw_directory = True, mw_local = local_of e, mw_journal = None, mw_adopted = lr_external e\<rparr>"

text \<open>
  Everything the removal takes from Git and the file system of the worktree is gone. The registration of an
  adopted worktree is a field of its own, \<open>mw_adopted\<close>: the removal takes it away before it completes the
  record, a resume does not touch it.
\<close>

definition retired :: "member_world \<Rightarrow> bool" where
  "retired w \<longleftrightarrow> mw_remote w = None \<and> \<not> mw_registered w \<and> \<not> mw_directory w \<and> mw_local w = None"

text \<open>
  \<open>recoverable\<close>: once Git has let go of the checkout, the journal holds the record of the entry at a
  stage from the removal on, the refs are where the record says, and what the stage says is done is done.
\<close>

definition recoverable :: "run_context \<Rightarrow> list_result \<Rightarrow> member_world \<Rightarrow> bool" where
  "recoverable rx e w \<longleftrightarrow> mw_branch w = lr_branch e \<and> mw_path w = lr_worktree_dir e \<and> (mw_adopted w \<longrightarrow> lr_external e) \<and>
     (mw_registered w \<or>
      (\<exists>stage. mw_journal w = Some ((entry_record rx e)\<lparr>bl_stage := stage\<rparr>) \<and>
         stage \<in> {lifecycleStageRemovingWorktree, lifecycleStageWorktreeRemoved, lifecycleStageRemovingLocalBranch, lifecycleStageComplete} \<and>
         mw_remote w = (if asks_remote rx e then None else remote_of e) \<and>
         (mw_local w = local_of e \<or> mw_local w = None) \<and>
         (stage \<noteq> lifecycleStageRemovingWorktree \<longrightarrow> \<not> mw_directory w) \<and>
         (stage = lifecycleStageComplete \<longrightarrow> mw_local w = None \<and> \<not> mw_adopted w)))"

section \<open>Following a log\<close>

lemma replay_snoc: "set (replay (log @ [ev]) w) = (\<Union>w' \<in> set (replay log w). set (effects ev w'))"
  by (simp add: replay_def)

lemma effects_interrupted: "set (effects ev w) \<subseteq> set (effects (interrupted ev) w)"
  by (auto simp: effects_def interrupted_def split: cleanup_event.split option.split)

lemma stopped_at_snoc:
  "stopped_at (log @ [ev]) stop \<longleftrightarrow> stop = log @ [ev] \<or> stop = log @ [interrupted ev] \<or>
     (\<exists>pre x post. log = pre @ x # post \<and> stop = pre @ [interrupted x])"
proof -
  have "(\<exists>pre x post. log @ [ev] = pre @ x # post \<and> stop = pre @ [interrupted x]) \<longleftrightarrow>
      stop = log @ [interrupted ev] \<or> (\<exists>pre x post. log = pre @ x # post \<and> stop = pre @ [interrupted x])"
  proof
    assume "\<exists>pre x post. log @ [ev] = pre @ x # post \<and> stop = pre @ [interrupted x]"
    then obtain pre x post where split: "log @ [ev] = pre @ x # post" and stop: "stop = pre @ [interrupted x]" by blast
    show "stop = log @ [interrupted ev] \<or> (\<exists>pre x post. log = pre @ x # post \<and> stop = pre @ [interrupted x])"
    proof (cases post rule: rev_cases)
      case Nil
      then show ?thesis using split stop by simp
    next
      case (snoc ys y)
      then have "log = pre @ x # ys" using split by (metis append_Cons append_assoc butlast_snoc)
      then show ?thesis using stop by blast
    qed
  qed (fastforce simp: Cons_eq_append_conv)+
  then show ?thesis by (simp add: stopped_at_def)
qed

text \<open>
  \<open>safe\<close>: wherever the part of the log after \<open>B\<close> stops, the world is recoverable. \<open>tracks\<close> adds where the
  whole of it leads.
\<close>

definition safe :: "run_context \<Rightarrow> list_result \<Rightarrow> cleanup_event list \<Rightarrow> member_execution \<Rightarrow> bool" where
  "safe rx e B s \<longleftrightarrow> prefix B (ex_log s) \<and>
     (\<forall>stop w. stopped_at (drop (length B) (ex_log s)) stop \<longrightarrow> w \<in> set (replay stop (rechecked_world e)) \<longrightarrow> recoverable rx e w)"

definition tracks :: "run_context \<Rightarrow> list_result \<Rightarrow> cleanup_event list \<Rightarrow> member_world set \<Rightarrow> member_execution \<Rightarrow> bool" where
  "tracks rx e B S s \<longleftrightarrow> safe rx e B s \<and> set (replay (drop (length B) (ex_log s)) (rechecked_world e)) \<subseteq> S"

lemma tracks_safe: "tracks rx e B S s \<Longrightarrow> safe rx e B s"
  by (simp add: tracks_def)

lemma safe_note:
  assumes t: "tracks rx e B S s" and ok: "\<And>w w'. w \<in> S \<Longrightarrow> w' \<in> set (effects (interrupted ev) w) \<Longrightarrow> recoverable rx e w'"
  shows "safe rx e B (s\<lparr>ex_log := ex_log s @ [ev]\<rparr>)"
proof -
  let ?own = "drop (length B) (ex_log s)"
  have B: "prefix B (ex_log s)" and S: "set (replay ?own (rechecked_world e)) \<subseteq> S" and safe: "safe rx e B s"
    using t by (simp_all add: tracks_def safe_def)
  have own: "drop (length B) (ex_log s @ [ev]) = ?own @ [ev]" using B by (auto simp: prefix_def)
  have "recoverable rx e w" if st: "stopped_at (?own @ [ev]) stop" and wr: "w \<in> set (replay stop (rechecked_world e))" for stop w
    using st unfolding stopped_at_snoc
  proof (elim disjE exE conjE)
    assume "stop = ?own @ [ev]"
    then obtain x where "x \<in> S" "w \<in> set (effects ev x)" using wr S by (auto simp: replay_snoc)
    then show ?thesis using ok effects_interrupted by blast
  next
    assume "stop = ?own @ [interrupted ev]"
    then show ?thesis using wr S ok by (auto simp: replay_snoc)
  next
    fix pre x post assume "?own = pre @ x # post" "stop = pre @ [interrupted x]"
    then show ?thesis using safe wr unfolding safe_def stopped_at_def by blast
  qed
  then show ?thesis using B by (simp add: safe_def own del: drop_append)
qed

lemma tracks_note:
  assumes t: "tracks rx e B S s" and ok: "\<And>w w'. w \<in> S \<Longrightarrow> w' \<in> set (effects (interrupted ev) w) \<Longrightarrow> recoverable rx e w'"
    and to: "\<And>w w'. w \<in> S \<Longrightarrow> w' \<in> set (effects ev w) \<Longrightarrow> w' \<in> S'"
  shows "tracks rx e B S' (s\<lparr>ex_log := ex_log s @ [ev]\<rparr>)"
proof -
  have "prefix B (ex_log s)" using t by (simp add: tracks_def safe_def)
  then have "drop (length B) (ex_log s @ [ev]) = drop (length B) (ex_log s) @ [ev]" by (auto simp: prefix_def)
  then show ?thesis using safe_note [OF t ok] t to by (auto simp: tracks_def replay_snoc simp del: drop_append)
qed

section \<open>The steps of a removal\<close>

lemma triple_attempt_tracks:
  "triple (\<lambda>s. tracks rx e B S s \<and> R s) (attempt outcome) (\<lambda>_ s. tracks rx e B S s \<and> R s) (safe rx e B)"
  by (rule triple_attempt) (auto simp: tracks_def)

lemmas tracked_step = triple_andThen [OF triple_attempt_tracks]

text \<open>Notes that no effect on the world belongs to.\<close>

definition is_silent :: "cleanup_event \<Rightarrow> bool" where
  "is_silent ev = (case ev of Journalled _ _ \<Rightarrow> False | GitRun _ _ \<Rightarrow> False | ResidueRemoval _ _ \<Rightarrow> False
     | RegistrationRemoval _ _ _ \<Rightarrow> False | _ \<Rightarrow> True)"

lemma effects_silent: "is_silent ev \<Longrightarrow> effects ev w = [w] \<and> interrupted ev = ev"
  by (cases ev) (simp_all add: is_silent_def effects_def interrupted_def)

lemma tracks_silent:
  assumes t: "tracks rx e B S s" and "is_silent ev"
  shows "tracks rx e B S (s\<lparr>ex_log := ex_log s @ [ev]\<rparr>)"
proof -
  let ?own = "drop (length B) (ex_log s)" and ?s = "s\<lparr>ex_log := ex_log s @ [ev]\<rparr>"
  have quiet: "effects ev w = [w]" "interrupted ev = ev" for w using effects_silent [OF assms(2)] by simp_all
  have B: "prefix B (ex_log s)" and S: "set (replay ?own (rechecked_world e)) \<subseteq> S" and safe: "safe rx e B s"
    using t by (simp_all add: tracks_def safe_def)
  have own: "drop (length B) (ex_log s @ [ev]) = ?own @ [ev]" using B by (auto simp: prefix_def)
  have same: "set (replay (?own @ [ev]) w) = set (replay ?own w)" for w by (simp add: replay_snoc quiet)
  have "recoverable rx e w" if "stopped_at (?own @ [ev]) stop" "w \<in> set (replay stop (rechecked_world e))" for stop w
  proof -
    have "stopped_at ?own stop \<or> stop = ?own @ [ev]" using that(1) unfolding stopped_at_snoc quiet by (auto simp: stopped_at_def)
    moreover have "stopped_at ?own ?own" by (simp add: stopped_at_def)
    ultimately show ?thesis using safe that(2) same unfolding safe_def by blast
  qed
  then show ?thesis using B S by (simp add: tracks_def safe_def own same del: drop_append)
qed

lemma triple_note_silent:
  assumes "is_silent ev" "\<And>s. R s \<Longrightarrow> R (s\<lparr>ex_log := ex_log s @ [ev]\<rparr>)"
  shows "triple (\<lambda>s. tracks rx e B S s \<and> R s) (note_event ev) (\<lambda>_ s. tracks rx e B S s \<and> R s) (safe rx e B)"
  by (rule triple_note) (use assms tracks_silent in blast)

abbreviation holds :: "run_context \<Rightarrow> list_result \<Rightarrow> string \<Rightarrow> member_execution \<Rightarrow> bool" where
  "holds rx e stage s \<equiv> ex_record s = (entry_record rx e)\<lparr>bl_stage := stage\<rparr>"

lemma triple_persist_tracks:
  assumes "\<And>w. w \<in> S \<Longrightarrow> recoverable rx e w" "\<And>w. w \<in> S \<Longrightarrow> recoverable rx e (w\<lparr>mw_journal := Some ((entry_record rx e)\<lparr>bl_stage := stage\<rparr>)\<rparr>)"
    and "\<And>w. w \<in> S \<Longrightarrow> w\<lparr>mw_journal := Some ((entry_record rx e)\<lparr>bl_stage := stage\<rparr>)\<rparr> \<in> S'"
  shows "triple (\<lambda>s. tracks rx e B S s \<and> holds rx e before s) (persist port stage) (\<lambda>_ s. tracks rx e B S' s \<and> holds rx e stage s) (safe rx e B)"
proof -
  let ?r = "(entry_record rx e)\<lparr>bl_stage := stage\<rparr>"
  have marked: "tracks rx e B S (s\<lparr>ex_record := ?r\<rparr>)" if "tracks rx e B S s" for s using that by (simp add: tracks_def safe_def)
  have "tracks rx e B S' (s\<lparr>ex_record := ?r, ex_log := ex_log s @ [Journalled ?r True]\<rparr>)"
    "safe rx e B (s\<lparr>ex_record := ?r, ex_log := ex_log s @ [Journalled ?r ok]\<rparr>)" if "tracks rx e B S s" for s ok
    using tracks_note [OF marked [OF that], of "Journalled ?r True" S'] safe_note [OF marked [OF that], of "Journalled ?r ok"] assms
    by (auto simp: effects_def interrupted_def split: if_splits)
  then show ?thesis
    by (intro tripleI) (auto simp: persist_def note_event_def andThen_def modify_def attempt_def Let_def split: option.splits)
qed

lemma triple_git_tracks:
  assumes "\<And>w w'. w \<in> S \<Longrightarrow> w' \<in> set (effects (GitRun args False) w) \<Longrightarrow> recoverable rx e w'"
    and "\<And>w w'. w \<in> S \<Longrightarrow> git_outcome args w = Some w' \<Longrightarrow> w' \<in> S'"
    and "\<And>s log. R s \<Longrightarrow> R (s\<lparr>ex_log := log\<rparr>)"
  shows "triple (\<lambda>s. tracks rx e B S s \<and> R s) (run_git port args) (\<lambda>_ s. tracks rx e B S' s \<and> R s) (safe rx e B)"
proof -
  have "tracks rx e B S' (s\<lparr>ex_log := ex_log s @ [GitRun args True]\<rparr>)" "safe rx e B (s\<lparr>ex_log := ex_log s @ [GitRun args ok]\<rparr>)"
    if "tracks rx e B S s" for s ok
    using tracks_note [OF that, of "GitRun args True" S'] safe_note [OF that, of "GitRun args ok"] assms(1,2)
    by (auto simp: effects_def interrupted_def split: if_splits option.splits)
  then show ?thesis using assms(3)
    by (intro tripleI) (auto simp: run_git_def note_event_def andThen_def modify_def attempt_def split: option.splits)
qed

text \<open>The worlds on the way: the checkout is still there, or it has been removed.\<close>

definition live :: "list_result \<Rightarrow> string option \<Rightarrow> member_world set" where
  "live e remote = {w. mw_branch w = lr_branch e \<and> mw_path w = lr_worktree_dir e \<and> mw_remote w = remote \<and> mw_registered w \<and>
     mw_directory w \<and> mw_local w = local_of e \<and> (mw_adopted w \<longrightarrow> lr_external e)}"

definition live_at :: "run_context \<Rightarrow> list_result \<Rightarrow> string option \<Rightarrow> string \<Rightarrow> member_world set" where
  "live_at rx e remote stage = {w \<in> live e remote. mw_journal w = Some ((entry_record rx e)\<lparr>bl_stage := stage\<rparr>)}"

definition gone_at :: "run_context \<Rightarrow> list_result \<Rightarrow> string option \<Rightarrow> string \<Rightarrow> member_world set" where
  "gone_at rx e local stage = {w. mw_branch w = lr_branch e \<and> mw_path w = lr_worktree_dir e \<and>
     mw_remote w = (if asks_remote rx e then None else remote_of e) \<and> \<not> mw_directory w \<and> mw_local w = local \<and> (mw_adopted w \<longrightarrow> lr_external e) \<and>
     mw_journal w = Some ((entry_record rx e)\<lparr>bl_stage := stage\<rparr>)}"

abbreviation final_remote :: "run_context \<Rightarrow> list_result \<Rightarrow> string option" where
  "final_remote rx e \<equiv> if asks_remote rx e then None else remote_of e"

lemma live_recoverable: "w \<in> live e remote \<Longrightarrow> recoverable rx e (w\<lparr>mw_journal := j\<rparr>)" "w \<in> live e remote \<Longrightarrow> recoverable rx e w"
  by (auto simp: live_def recoverable_def)

lemma gone_recoverable:
  assumes "w \<in> gone_at rx e local stage" "local = local_of e \<or> local = None"
    and "stage \<in> {lifecycleStageRemovingWorktree, lifecycleStageWorktreeRemoved, lifecycleStageRemovingLocalBranch, lifecycleStageComplete}"
    and "stage = lifecycleStageComplete \<Longrightarrow> local = None \<and> \<not> mw_adopted w"
  shows "recoverable rx e w"
  using assms unfolding gone_at_def recoverable_def by auto

lemma gone_journal: "w \<in> gone_at rx e local stage \<Longrightarrow> w\<lparr>mw_journal := Some ((entry_record rx e)\<lparr>bl_stage := stage'\<rparr>)\<rparr> \<in> gone_at rx e local stage'"
  by (simp add: gone_at_def)

lemma git_remove: "git_outcome (remove_args e) w =
  (if mw_path w = lr_worktree_dir e \<and> mw_registered w then Some (w\<lparr>mw_registered := False, mw_directory := False\<rparr>) else None)"
  by (auto simp: git_outcome_def remove_args_def)

lemma git_remote: "mw_branch w = b \<Longrightarrow> mw_remote w = Some sha \<Longrightarrow>
  git_outcome (exactRefDelete cleanupRemoteRef b sha) w = Some (w\<lparr>mw_remote := None\<rparr>)"
  by (simp add: git_outcome_def exactRefDelete_def)

lemma git_local: "mw_branch w = b \<Longrightarrow> mw_local w = Some sha \<Longrightarrow>
  git_outcome (exactRefDelete cleanupLocalRef b sha) w = Some (w\<lparr>mw_local := None\<rparr>)"
  by (simp add: git_outcome_def exactRefDelete_def)

lemma seal_work_log_tracks:
  "triple (\<lambda>s. tracks rx e B S s \<and> True) (seal_work_log p e) (\<lambda>_ s. tracks rx e B S s \<and> True) (safe rx e B)"
proof -
  have noted: "triple (\<lambda>s. tracks rx e B S s \<and> True) (note_event ev) (\<lambda>_ s. tracks rx e B S s \<and> True) (safe rx e B)" if "is_silent ev" for ev
    by (rule triple_note_silent [OF that]) simp
  have silent: "is_silent (HistoryAttested d)" "is_silent (WorkLogSealed d h)" for d h by (simp_all add: is_silent_def)
  have answered: "triple (\<lambda>s. tracks rx e B S s \<and> True) (answer outcome) (\<lambda>_ s. tracks rx e B S s \<and> True) (safe rx e B)" for outcome :: "(string, bool) result"
    by (rule triple_answer) (auto simp: tracks_def)
  show ?thesis unfolding seal_work_log_def
    by (rule triple_andThen [OF answered], rule triple_if [OF noted [OF silent(1)]],
        rule tracked_step [OF tracked_step [OF noted [OF silent(2)]]])
qed

lemma begin_journal_tracks:
  "triple (tracks rx e B (live e remote)) (begin_journal rx p e)
     (\<lambda>_ s. tracks rx e B (live e remote) s \<and> holds rx e lifecycleStageSealed s) (safe rx e B)"
proof -
  let ?P = "\<lambda>s. tracks rx e B (live e remote) s \<and> holds rx e lifecycleStageSealed s"
  have new: "triple (tracks rx e B (live e remote))
      (modify (\<lambda>s. s\<lparr>ex_record := newLifecycleBacklogRecord (rx_digest rx) (rx_projects_root rx) e ''removed''\<rparr>)) (\<lambda>_. ?P) (safe rx e B)"
    by (rule triple_modify) (simp add: tracks_def safe_def entry_record_def newLifecycleBacklogRecord_def)
  have persisted: "triple ?P (persist (am_persist p) lifecycleStageSealed) (\<lambda>_. ?P) (safe rx e B)"
    by (rule triple_persist_tracks) (simp_all add: live_recoverable, simp add: live_def)
  show ?thesis unfolding begin_journal_def
    by (intro triple_andThen [OF new] triple_andThen [OF persisted] triple_modify) (simp add: tracks_def safe_def)
qed

lemma triple_mark_tracks:
  "triple (\<lambda>s. tracks rx e B S s \<and> holds rx e stage s) (modify (\<lambda>s. s\<lparr>ex_result := f (ex_result s)\<rparr>))
     (\<lambda>_ s. tracks rx e B S s \<and> holds rx e stage s) (safe rx e B)"
  by (rule triple_modify) (simp add: tracks_def safe_def)

lemma triple_persist_live:
  "triple (\<lambda>s. tracks rx e B (live e remote) s \<and> holds rx e before s) (persist port stage)
     (\<lambda>_ s. tracks rx e B (live_at rx e remote stage) s \<and> holds rx e stage s) (safe rx e B)"
  by (rule triple_persist_tracks) (simp_all add: live_recoverable, simp add: live_def live_at_def)

lemma tracks_mono: "tracks rx e B S s \<Longrightarrow> S \<subseteq> S' \<Longrightarrow> tracks rx e B S' s"
  by (auto simp: tracks_def)

lemma live_at_live: "live_at rx e remote stage \<subseteq> live e remote"
  by (auto simp: live_at_def)

lemma retire_remote_tracks:
  assumes "asks_remote rx e"
  shows "triple (\<lambda>s. tracks rx e B (live e (remote_of e)) s \<and> holds rx e lifecycleStageSealed s) (retire_remote p recovered e)
    (\<lambda>_ s. tracks rx e B (live e (final_remote rx e)) s \<and> (\<exists>stage. holds rx e stage s)) (safe rx e B)"
proof -
  let ?R = "holds rx e lifecycleStageRetiringRemote"
  have rem: "remote_of e = Some (lr_remote_head_sha e)" using assms by (simp add: remote_of_def)
  have persisted: "triple (\<lambda>s. tracks rx e B (live e (remote_of e)) s \<and> holds rx e lifecycleStageSealed s)
      (persist (am_persist p) lifecycleStageRetiringRemote) (\<lambda>_ s. tracks rx e B (live e (remote_of e)) s \<and> ?R s) (safe rx e B)"
    by (rule triple_conseq [OF triple_persist_live]) (auto intro: tracks_mono [OF _ live_at_live])
  have git: "triple (\<lambda>s. tracks rx e B (live e (remote_of e)) s \<and> ?R s) (run_git (am_worktree_git p) (remote_args e))
      (\<lambda>_ s. tracks rx e B (live e None) s \<and> ?R s) (safe rx e B)"
  proof (rule triple_git_tracks)
    fix w w' assume w: "w \<in> live e (remote_of e)"
    then have out: "git_outcome (remote_args e) w = Some (w\<lparr>mw_remote := None\<rparr>)" by (intro git_remote) (simp_all add: live_def rem)
    have stays: "w\<lparr>mw_remote := None\<rparr> \<in> live e None" using w by (simp add: live_def)
    show "recoverable rx e w'" if "w' \<in> set (effects (GitRun (remote_args e) False) w)"
      using that out w stays live_recoverable(2) by (auto simp: effects_def exactRefDelete_def)
    show "w' \<in> live e None" if "git_outcome (remote_args e) w = Some w'" using that out stays by simp
  qed simp
  have last: "triple (\<lambda>s. tracks rx e B (live e None) s \<and> ?R s) (persist (am_persist p) lifecycleStageRemoteRetired)
      (\<lambda>_ s. tracks rx e B (live e (final_remote rx e)) s \<and> (\<exists>stage. holds rx e stage s)) (safe rx e B)"
    using assms by (intro triple_conseq [OF triple_persist_live]) (auto intro: tracks_mono [OF _ live_at_live])
  show ?thesis unfolding retire_remote_def invokeCleanupExactRefDelete_def
    by (intro triple_andThen [OF persisted] tracked_step triple_andThen [OF triple_wrapping [OF git]] triple_andThen [OF triple_mark_tracks] last)
qed

abbreviation removing :: "run_context \<Rightarrow> list_result \<Rightarrow> cleanup_event list \<Rightarrow> member_world set \<Rightarrow> member_execution \<Rightarrow> bool" where
  "removing rx e B S s \<equiv> tracks rx e B S s \<and> holds rx e lifecycleStageRemovingWorktree s"

text \<open>After a removal that failed: nothing happened, the registration is gone, or both are.\<close>

definition half_removed :: "run_context \<Rightarrow> list_result \<Rightarrow> member_world set" where
  "half_removed rx e = {w. mw_branch w = lr_branch e \<and> mw_path w = lr_worktree_dir e \<and> mw_remote w = final_remote rx e \<and>
     mw_local w = local_of e \<and> (mw_adopted w \<longrightarrow> lr_external e) \<and>
     mw_journal w = Some ((entry_record rx e)\<lparr>bl_stage := lifecycleStageRemovingWorktree\<rparr>)}"

lemma half_removed_recoverable: "w \<in> half_removed rx e \<Longrightarrow> recoverable rx e w"
  by (auto simp: half_removed_def recoverable_def lifecycle_stages intro!: exI [of _ lifecycleStageRemovingWorktree])

lemma remove_checkout_tracks:
  "triple (removing rx e B (live_at rx e (final_remote rx e) lifecycleStageRemovingWorktree)) (remove_checkout p e)
     (\<lambda>_. removing rx e B (gone_at rx e (local_of e) lifecycleStageRemovingWorktree)) (safe rx e B)"
proof -
  let ?live = "live_at rx e (final_remote rx e) lifecycleStageRemovingWorktree" and ?gone = "gone_at rx e (local_of e) lifecycleStageRemovingWorktree"
  let ?git = "\<lambda>ok. GitRun (remove_args e) ok" and ?residue = "\<lambda>ok. ResidueRemoval (lr_worktree_dir e) ok"
  have three: "length (remove_args e) = 3" by (simp add: remove_args_def)
  have failed: "w' \<in> half_removed rx e" if "w \<in> ?live" "w' \<in> set (effects (?git False) w)" for w w'
    using that by (auto simp: effects_def three git_remove live_at_def live_def half_removed_def split: if_splits)
  have ok: "w' \<in> ?gone" if "w \<in> ?live" "w' \<in> set (effects (?git True) w)" for w w'
    using that by (auto simp: effects_def git_remove live_at_def live_def gone_at_def split: if_splits)
  have int: "interrupted (?git ok) = ?git False" "interrupted (?residue ok) = ?residue False" for ok by (simp_all add: interrupted_def)
  have noted: "triple (removing rx e B ?live) (note_event (?git ok)) (\<lambda>_. removing rx e B (if ok then ?gone else half_removed rx e)) (safe rx e B)" for ok
  proof (rule triple_note)
    fix s assume s: "removing rx e B ?live s"
    have "tracks rx e B (if ok then ?gone else half_removed rx e) (s\<lparr>ex_log := ex_log s @ [?git ok]\<rparr>)"
    proof (rule tracks_note [OF conjunct1 [OF s]])
      fix w w' assume w: "w \<in> ?live"
      show "recoverable rx e w'" if "w' \<in> set (effects (interrupted (?git ok)) w)"
        by (rule half_removed_recoverable [OF failed [OF w that [unfolded int]]])
      show "w' \<in> (if ok then ?gone else half_removed rx e)" if "w' \<in> set (effects (?git ok) w)"
        using that ok [OF w] failed [OF w] by (cases ok) simp_all
    qed
    then show "removing rx e B (if ok then ?gone else half_removed rx e) (s\<lparr>ex_log := ex_log s @ [?git ok]\<rparr>)" using s by simp
  qed
  have cleared: "w' \<in> ?gone" if "w \<in> half_removed rx e" "w' \<in> set (effects (?residue True) w)" for w w'
    using that by (auto simp: effects_def half_removed_def gone_at_def)
  have partly: "recoverable rx e w'" if "w \<in> half_removed rx e" "w' \<in> set (effects (?residue False) w)" for w w'
    using that half_removed_recoverable [of w' rx e] by (auto simp: effects_def half_removed_def)
  have residue: "triple (removing rx e B (half_removed rx e)) (note_event (?residue ok)) (\<lambda>_ s. if ok then removing rx e B ?gone s else safe rx e B s) (safe rx e B)" for ok
  proof (rule triple_note)
    fix s assume s: "removing rx e B (half_removed rx e) s"
    have "safe rx e B (s\<lparr>ex_log := ex_log s @ [?residue False]\<rparr>)" by (rule safe_note [OF conjunct1 [OF s]]) (use partly int in auto)
    moreover have "tracks rx e B ?gone (s\<lparr>ex_log := ex_log s @ [?residue True]\<rparr>)"
      by (rule tracks_note [OF conjunct1 [OF s]]) (use partly cleared int in auto)
    ultimately show "if ok then removing rx e B ?gone (s\<lparr>ex_log := ex_log s @ [?residue ok]\<rparr>) else safe rx e B (s\<lparr>ex_log := ex_log s @ [?residue ok]\<rparr>)"
      using s by simp
  qed
  have stop: "triple (removing rx e B S) (attempt (Some err)) Q (safe rx e B)" "triple (safe rx e B) (attempt (Some err)) Q (safe rx e B)"
    for err S and Q :: "unit \<Rightarrow> member_execution \<Rightarrow> bool"
    by (auto simp: triple_def attempt_def tracks_def)
  show ?thesis
    unfolding remove_checkout_def Let_def
    apply (rule triple_andThen [OF noted])
    apply (cases "am_worktree_git p (remove_args e)")
     apply (simp add: triple_pass)
    apply (cases "am_residue p")
     apply (simp add: stop)
    subgoal for _ _ b
      apply (cases b)
       apply (cases "am_remove_residue p")
        apply (simp, rule triple_andThen [OF residue], simp add: stop)
       apply (simp, rule triple_andThen [OF residue], simp add: triple_mark_tracks)
      apply (simp add: stop)
      done
    done
qed

lemma triple_persist_gone:
  assumes "local = local_of e \<or> local = None"
    and "{before, stage} \<subseteq> {lifecycleStageRemovingWorktree, lifecycleStageWorktreeRemoved, lifecycleStageRemovingLocalBranch}"
  shows "triple (\<lambda>s. tracks rx e B (gone_at rx e local before) s \<and> holds rx e before s) (persist port stage)
    (\<lambda>_ s. tracks rx e B (gone_at rx e local stage) s \<and> holds rx e stage s) (safe rx e B)"
proof (rule triple_persist_tracks)
  fix w assume w: "w \<in> gone_at rx e local before"
  show "recoverable rx e w" by (rule gone_recoverable [OF w]) (use assms in \<open>auto simp: lifecycle_stages\<close>)
  show "recoverable rx e (w\<lparr>mw_journal := Some ((entry_record rx e)\<lparr>bl_stage := stage\<rparr>)\<rparr>)"
    by (rule gone_recoverable [OF gone_journal [OF w]]) (use assms in \<open>auto simp: lifecycle_stages\<close>)
  show "w\<lparr>mw_journal := Some ((entry_record rx e)\<lparr>bl_stage := stage\<rparr>)\<rparr> \<in> gone_at rx e local stage" by (rule gone_journal [OF w])
qed

lemma remove_worktree_tracks:
  "triple (\<lambda>s. tracks rx e B (live e (final_remote rx e)) s \<and> (\<exists>stage. holds rx e stage s)) (remove_worktree p recovered e)
    (\<lambda>_ s. tracks rx e B (gone_at rx e (local_of e) lifecycleStageWorktreeRemoved) s \<and> holds rx e lifecycleStageWorktreeRemoved s) (safe rx e B)"
proof -
  have persisted: "triple (\<lambda>s. tracks rx e B (live e (final_remote rx e)) s \<and> (\<exists>stage. holds rx e stage s)) (persist (am_persist p) lifecycleStageRemovingWorktree)
      (\<lambda>_. removing rx e B (live_at rx e (final_remote rx e) lifecycleStageRemovingWorktree)) (safe rx e B)"
    using triple_persist_live [of rx e B "final_remote rx e" _ "am_persist p" lifecycleStageRemovingWorktree] unfolding triple_def by fastforce
  show ?thesis unfolding remove_worktree_def
    by (intro tracked_step triple_andThen [OF persisted] triple_andThen [OF remove_checkout_tracks] triple_andThen [OF triple_mark_tracks] triple_persist_gone)
      (simp_all add: lifecycle_stages)
qed

lemma delete_local_branch_tracks:
  "triple (\<lambda>s. tracks rx e B (gone_at rx e (local_of e) lifecycleStageWorktreeRemoved) s \<and> holds rx e lifecycleStageWorktreeRemoved s)
    (delete_local_branch p recovered e)
    (\<lambda>_ s. tracks rx e B (gone_at rx e None lifecycleStageRemovingLocalBranch) s \<and> holds rx e lifecycleStageRemovingLocalBranch s) (safe rx e B)"
proof -
  let ?gone = "\<lambda>local. gone_at rx e local lifecycleStageRemovingLocalBranch" and ?R = "holds rx e lifecycleStageRemovingLocalBranch"
  have git: "triple (\<lambda>s. tracks rx e B (?gone (local_of e)) s \<and> ?R s) (run_git (am_canonical_git p) (local_args e))
      (\<lambda>_ s. tracks rx e B (?gone None) s \<and> ?R s) (safe rx e B)" if "lr_branch e \<noteq> []"
  proof (rule triple_git_tracks)
    fix w w' assume w: "w \<in> ?gone (local_of e)"
    then have out: "git_outcome (local_args e) w = Some (w\<lparr>mw_local := None\<rparr>)"
      using that by (intro git_local) (simp_all add: gone_at_def local_of_def)
    have stays: "w\<lparr>mw_local := None\<rparr> \<in> ?gone None" using w by (simp add: gone_at_def)
    have "recoverable rx e w" "recoverable rx e (w\<lparr>mw_local := None\<rparr>)"
      using gone_recoverable [OF w] gone_recoverable [OF stays] by (simp_all add: lifecycle_stages)
    then show "recoverable rx e w'" if "w' \<in> set (effects (GitRun (local_args e) False) w)"
      using that out by (auto simp: effects_def exactRefDelete_def)
    show "w' \<in> ?gone None" if "git_outcome (local_args e) w = Some w'" using that out stays by simp
  qed simp
  have deleted: "triple (\<lambda>s. tracks rx e B (?gone (local_of e)) s \<and> ?R s) (unless (lr_branch e = [])
       (andThen (wrapping because (run_git (am_canonical_git p) (local_args e))) (\<lambda>_.
       modify (\<lambda>s. s\<lparr>ex_result := (ex_result s)\<lparr>wr_branch_deleted := True\<rparr>\<rparr>))))
     (\<lambda>_ s. tracks rx e B (?gone None) s \<and> ?R s) (safe rx e B)" for because
  proof (rule triple_unless)
    assume "lr_branch e = []"
    then show "triple (\<lambda>s. tracks rx e B (?gone (local_of e)) s \<and> ?R s) (pass ()) (\<lambda>_ s. tracks rx e B (?gone None) s \<and> ?R s) (safe rx e B)"
      by (intro triple_pass) (simp add: local_of_def)
  next
    assume branch: "lr_branch e \<noteq> []"
    show "triple (\<lambda>s. tracks rx e B (?gone (local_of e)) s \<and> ?R s)
        (andThen (wrapping because (run_git (am_canonical_git p) (local_args e))) (\<lambda>_. modify (\<lambda>s. s\<lparr>ex_result := (ex_result s)\<lparr>wr_branch_deleted := True\<rparr>\<rparr>)))
        (\<lambda>_ s. tracks rx e B (?gone None) s \<and> ?R s) (safe rx e B)"
      by (rule triple_andThen [OF triple_wrapping [OF git [OF branch]] triple_mark_tracks])
  qed
  show ?thesis unfolding delete_local_branch_def invokeCleanupExactRefDelete_def
    by (intro tracked_step triple_andThen [OF triple_persist_gone] deleted) (simp_all add: lifecycle_stages)
qed

text \<open>The registration of an adopted worktree goes before the record is complete.\<close>

lemma remove_registration_tracks:
  "triple (\<lambda>s. tracks rx e B (gone_at rx e None lifecycleStageRemovingLocalBranch) s \<and> holds rx e lifecycleStageRemovingLocalBranch s)
    (unless (\<not> lr_external e) (remove_registration p e))
    (\<lambda>_ s. tracks rx e B {w \<in> gone_at rx e None lifecycleStageRemovingLocalBranch. \<not> mw_adopted w} s \<and>
       holds rx e lifecycleStageRemovingLocalBranch s) (safe rx e B)"
proof -
  let ?gone = "gone_at rx e None lifecycleStageRemovingLocalBranch" and ?R = "holds rx e lifecycleStageRemovingLocalBranch"
  let ?P = "\<lambda>s. tracks rx e B ?gone s \<and> ?R s" and ?Q = "\<lambda>s. tracks rx e B {w \<in> ?gone. \<not> mw_adopted w} s \<and> ?R s"
  have r: "recoverable rx e w" if "w \<in> ?gone" for w
    by (rule gone_recoverable [OF that]) (simp_all add: lifecycle_stages)
  have off: "w\<lparr>mw_adopted := False\<rparr> \<in> ?gone" if "w \<in> ?gone" for w
    using that by (simp add: gone_at_def)
  have ok: "recoverable rx e w'" if "w \<in> ?gone" "w' \<in> set (effects (interrupted (RegistrationRemoval x y b)) w)" for w w' x y b
    using that r off by (auto simp: effects_def interrupted_def)
  have failed: "safe rx e B (s\<lparr>ex_log := ex_log s @ [RegistrationRemoval x y b]\<rparr>)" if "tracks rx e B ?gone s" for s x y b
    by (rule safe_note [OF that ok])
  have removed: "tracks rx e B {w \<in> ?gone. \<not> mw_adopted w} (s\<lparr>ex_log := ex_log s @ [RegistrationRemoval x y True]\<rparr>)" if "tracks rx e B ?gone s" for s x y
    by (rule tracks_note [OF that ok]) (use off in \<open>auto simp: effects_def\<close>)
  show ?thesis
  proof (rule triple_unless)
    assume "\<not> lr_external e"
    then show "triple ?P (pass ()) (\<lambda>_. ?Q) (safe rx e B)" by (intro triple_pass) (auto simp: gone_at_def intro: tracks_mono)
  next
    assume "\<not> \<not> lr_external e"
    show "triple ?P (remove_registration p e) (\<lambda>_. ?Q) (safe rx e B)"
      unfolding remove_registration_def
      by (intro tripleI) (auto simp: andThen_def note_event_def modify_def attempt_def failed removed tracks_safe split: sum.splits option.splits)
  qed
qed

lemma complete_member_tracks:
  "triple (\<lambda>s. tracks rx e B (gone_at rx e None lifecycleStageRemovingLocalBranch) s \<and> holds rx e lifecycleStageRemovingLocalBranch s)
    (complete_member p e) (\<lambda>_. safe rx e B) (safe rx e B)"
proof -
  let ?gone = "gone_at rx e None lifecycleStageRemovingLocalBranch" and ?R = "holds rx e lifecycleStageRemovingLocalBranch"
  have noted: "triple (\<lambda>s. tracks rx e B ?gone s \<and> ?R s) (note_event (ParentRemoval b)) (\<lambda>_ s. tracks rx e B ?gone s \<and> ?R s) (safe rx e B)" for b
    by (rule triple_note_silent) (simp_all add: is_silent_def)
  have persisted: "triple (\<lambda>s. tracks rx e B {w \<in> ?gone. \<not> mw_adopted w} s \<and> ?R s) (persist (am_persist p) lifecycleStageComplete)
      (\<lambda>_ s. tracks rx e B UNIV s \<and> holds rx e lifecycleStageComplete s) (safe rx e B)"
  proof (rule triple_persist_tracks)
    fix w assume w: "w \<in> {w \<in> ?gone. \<not> mw_adopted w}"
    then show "recoverable rx e w" by (intro gone_recoverable [of w rx e None lifecycleStageRemovingLocalBranch]) (simp_all add: lifecycle_stages)
    show "recoverable rx e (w\<lparr>mw_journal := Some ((entry_record rx e)\<lparr>bl_stage := lifecycleStageComplete\<rparr>)\<rparr>)"
      using w gone_journal [of w rx e None lifecycleStageRemovingLocalBranch] by (intro gone_recoverable [of _ rx e None lifecycleStageComplete]) simp_all
  qed simp
  have finish: "triple (\<lambda>s. tracks rx e B UNIV s \<and> holds rx e lifecycleStageComplete s)
      (modify (\<lambda>s. s\<lparr>ex_pending := ex_pending s - 1, ex_result := (ex_result s)\<lparr>wr_applied := True\<rparr>\<rparr>)) (\<lambda>_. safe rx e B) (safe rx e B)"
    by (rule triple_modify) (simp add: tracks_def safe_def)
  show ?thesis unfolding complete_member_def
    by (intro triple_andThen [OF noted] tracked_step triple_andThen [OF remove_registration_tracks] triple_andThen [OF persisted] finish)
qed

lemma apply_rechecked_tracks:
  "triple (tracks rx e B (live e (remote_of e))) (apply_rechecked rx p recovered e) (\<lambda>_. safe rx e B) (safe rx e B)"
proof -
  have start: "triple (tracks rx e B (live e (remote_of e))) (modify (\<lambda>s. s\<lparr>ex_result := (ex_result s)\<lparr>wr_entry := e\<rparr>\<rparr>))
      (\<lambda>_ s. tracks rx e B (live e (remote_of e)) s \<and> True) (safe rx e B)"
    by (rule triple_modify) (simp add: tracks_def safe_def)
  have sealed: "triple (\<lambda>s. tracks rx e B (live e (remote_of e)) s \<and> True) (seal_work_log p e) (\<lambda>_. tracks rx e B (live e (remote_of e))) (safe rx e B)"
    by (rule triple_conseq [OF seal_work_log_tracks]) simp_all
  have remote: "triple (\<lambda>s. tracks rx e B (live e (remote_of e)) s \<and> holds rx e lifecycleStageSealed s)
      (unless (\<not> asks_remote rx e) (retire_remote p recovered e))
      (\<lambda>_ s. tracks rx e B (live e (final_remote rx e)) s \<and> (\<exists>stage. holds rx e stage s)) (safe rx e B)"
  proof (rule triple_unless)
    assume "\<not> asks_remote rx e"
    then have same: "final_remote rx e = remote_of e" by (rule if_not_P)
    show "triple (\<lambda>s. tracks rx e B (live e (remote_of e)) s \<and> holds rx e lifecycleStageSealed s) (pass ())
        (\<lambda>_ s. tracks rx e B (live e (final_remote rx e)) s \<and> (\<exists>stage. holds rx e stage s)) (safe rx e B)"
      unfolding same by (rule triple_pass) blast
  next
    assume "\<not> \<not> asks_remote rx e"
    then show "triple (\<lambda>s. tracks rx e B (live e (remote_of e)) s \<and> holds rx e lifecycleStageSealed s) (retire_remote p recovered e)
        (\<lambda>_ s. tracks rx e B (live e (final_remote rx e)) s \<and> (\<exists>stage. holds rx e stage s)) (safe rx e B)"
      by (intro retire_remote_tracks) (rule notnotD)
  qed
  show ?thesis unfolding apply_rechecked_def
    by (intro triple_andThen [OF start] tracked_step triple_andThen [OF sealed] triple_andThen [OF begin_journal_tracks]
        triple_andThen [OF remote] triple_andThen [OF remove_worktree_tracks] triple_andThen [OF delete_local_branch_tracks] complete_member_tracks)
qed

section \<open>Resuming\<close>

abbreviation member_request :: "run_context \<Rightarrow> list_result \<Rightarrow> recheck_request" where
  "member_request rx entry \<equiv> \<lparr>rq_options = rx_options rx, rq_now = rx_now rx, rq_home = rx_home rx, rq_entry = entry, rq_preflight = False\<rparr>"

lemma member_recoverable:
  assumes run: "applyCleanupMemberWithPorts rx p recovered s = Some (out, s')"
    and re: "recheckCleanupMember (am_recheck p) (member_request rx (wr_entry (ex_result s))) = Some (Inr e)"
    and stop: "stopped_at (drop (length (ex_log s)) (ex_log s')) stop" "w \<in> set (replay stop (rechecked_world e))"
  shows "recoverable rx e w"
proof -
  let ?B = "ex_log s"
  have start: "tracks rx e ?B (live e (remote_of e)) s"
    by (auto simp: tracks_def safe_def stopped_at_def replay_def rechecked_world_def live_def recoverable_def)
  have "safe rx e ?B s'"
  proof (cases "am_open_worktree p")
    case (Some err)
    then show ?thesis using run start by (simp add: applyCleanupMemberWithPorts_def tracks_def)
  next
    case None
    then have out: "apply_rechecked rx p recovered e (s\<lparr>ex_log := ex_log s @ [Rechecked e]\<rparr>) = (out, s')"
      using run re by (simp add: applyCleanupMemberWithPorts_def andThen_def answer_def note_event_def modify_def)
    have "tracks rx e ?B (live e (remote_of e)) (s\<lparr>ex_log := ex_log s @ [Rechecked e]\<rparr>)"
      by (rule tracks_silent [OF start]) (simp add: is_silent_def)
    then have "safe rx e ?B (snd (apply_rechecked rx p recovered e (s\<lparr>ex_log := ex_log s @ [Rechecked e]\<rparr>)))"
      by (rule triple_reached [OF apply_rechecked_tracks])
    then show ?thesis by (simp add: out)
  qed
  then show ?thesis using stop unfolding safe_def by blast
qed

text \<open>A later run that meets the world \<open>w\<close>: it gets the lock, and every boundary answers from the world.\<close>

definition answers_world :: "string \<Rightarrow> member_world \<Rightarrow> lifecycle_backlog_record \<Rightarrow> resume_ports \<Rightarrow> bool" where
  "answers_world home w r q \<longleftrightarrow>
     rs_validate_record q r = None \<and> rs_acquire_task q (record_lock_root home r) (bl_task r) = TaskAcquired \<and>
     rs_open_canonical q (bl_canonical_dir r) = None \<and> rs_validate_canonical q = None \<and>
     rs_remote_branch_head q (bl_canonical_dir r) (bl_branch r) = Inr (case mw_remote w of None \<Rightarrow> [] | Some sha \<Rightarrow> sha) \<and>
     (\<exists>paths. rs_registrations q = Inr paths \<and> (Clean (bl_worktree_dir r) \<in> set paths \<longleftrightarrow> mw_registered w)) \<and>
     rs_lstat q (bl_worktree_dir r) = (if mw_directory w then Present else Absent) \<and>
     rs_open_worktree q (bl_worktree_dir r) (bl_external r) = None \<and> (\<exists>b. rs_remove_residue q = Inr b) \<and> rs_remove_parent q = None \<and>
     rs_local_exists q (bl_branch r) = Inr (mw_local w \<noteq> None) \<and>
     (\<forall>sha. mw_local w = Some sha \<longrightarrow> rs_local_head q (bl_branch r) = Inr sha) \<and>
     (\<forall>args. git_outcome args w \<noteq> None \<longrightarrow> rs_git q args = None) \<and> (\<forall>x. rs_persist q x = None)"

lemma persist_runs: "port ((ex_record s)\<lparr>bl_stage := stage\<rparr>) = None \<Longrightarrow> persist port stage s =
  (Inr (), s\<lparr>ex_record := (ex_record s)\<lparr>bl_stage := stage\<rparr>, ex_log := ex_log s @ [Journalled ((ex_record s)\<lparr>bl_stage := stage\<rparr>) True]\<rparr>)"
  by (simp add: persist_def effect_steps Let_def)

lemma run_git_runs: "port args = None \<Longrightarrow> run_git port args s = (Inr (), s\<lparr>ex_log := ex_log s @ [GitRun args True]\<rparr>)"
  by (simp add: run_git_def effect_steps)

lemma resume_residue_runs:
  assumes "answers_world home w r q"
  shows "resume_residue q r s = (Inr (), s\<lparr>ex_log := ex_log s @ (if mw_directory w then [ResidueRemoval (bl_worktree_dir r) True, ParentRemoval True] else [])\<rparr>)"
  using assms by (auto simp: resume_residue_def answers_world_def effect_steps Let_def)

lemma resume_local_runs:
  assumes a: "answers_world home w r q" and r: "mw_branch w = bl_branch r" "mw_local w = None \<or> mw_local w = Some (bl_head_sha r)"
    "\<not> bl_preserve_local_branch r" "bl_detached r \<Longrightarrow> mw_local w = None"
    and s: "ex_record s = r\<lparr>bl_stage := before\<rparr>"
  shows "\<exists>stage. resume_local q r s = (Inr (), s\<lparr>ex_record := r\<lparr>bl_stage := stage\<rparr>, ex_log := ex_log s @
    (if mw_local w = None then [] else [Journalled (r\<lparr>bl_stage := lifecycleStageRemovingLocalBranch\<rparr>) True,
       GitRun (exactRefDelete cleanupLocalRef (bl_branch r) (bl_head_sha r)) True])\<rparr>)"
proof (cases "mw_local w = None")
  case True
  then show ?thesis using a s by (intro exI [of _ before]) (simp add: resume_local_def answers_world_def effect_steps)
next
  case False
  then have l: "mw_local w = Some (bl_head_sha r)" "\<not> bl_detached r" using r by auto
  have "rs_git q (exactRefDelete cleanupLocalRef (bl_branch r) (bl_head_sha r)) = None"
    using a git_local [OF r(1) l(1)] unfolding answers_world_def by blast
  moreover have "rs_persist q x = None" for x using a by (simp add: answers_world_def)
  ultimately show ?thesis using a s l r(3)
    by (intro exI [of _ lifecycleStageRemovingLocalBranch])
      (simp add: resume_local_def answers_world_def effect_steps persist_runs run_git_runs invokeCleanupExactRefDelete_def)
qed

lemma resume_completes:
  assumes a: "answers_world home w r q" and w: "mw_remote w = None" "\<not> mw_registered w" "mw_branch w = bl_branch r"
    "mw_local w = None \<or> mw_local w = Some (bl_head_sha r)"
    and r: "\<not> bl_preserve_local_branch r" "bl_detached r \<Longrightarrow> mw_local w = None" "bl_recovery_kind r = []"
  shows "\<exists>s' w'. resumeLifecycleBacklogWithPorts home deleteRemote q \<lparr>ex_log = [], ex_record = r\<rparr> = (Inr (), s') \<and>
    replay (ex_log s') w = [w'] \<and> retired w' \<and> mw_adopted w' = mw_adopted w \<and> mw_journal w' = Some (r\<lparr>bl_stage := lifecycleStageComplete\<rparr>)"
proof -
  let ?s = "\<lparr>ex_log = [], ex_record = r\<rparr> :: execution"
  let ?dir = "if mw_directory w then [ResidueRemoval (bl_worktree_dir r) True, ParentRemoval True] else []"
  let ?loc = "if mw_local w = None then [] else [Journalled (r\<lparr>bl_stage := lifecycleStageRemovingLocalBranch\<rparr>) True,
       GitRun (exactRefDelete cleanupLocalRef (bl_branch r) (bl_head_sha r)) True]"
  let ?fin = "[Journalled (r\<lparr>bl_stage := lifecycleStageComplete\<rparr>) True]"
  have remote: "resume_remote q deleteRemote r s = (Inr (), s)" for s
    using a w(1) by (simp add: resume_remote_def detachedAwareRemoteBranchHead_def answers_world_def effect_steps)
  obtain paths where paths: "rs_registrations q = Inr paths" "Clean (bl_worktree_dir r) \<notin> set paths"
    using a w(2) unfolding answers_world_def by blast
  obtain stage where local: "resume_local q r (?s\<lparr>ex_log := ?dir\<rparr>) = (Inr (), ?s\<lparr>ex_record := r\<lparr>bl_stage := stage\<rparr>, ex_log := ?dir @ ?loc\<rparr>)"
    using resume_local_runs [OF a w(3,4) r(1,2), of "?s\<lparr>ex_log := ?dir\<rparr>" "bl_stage r"] by auto
  have persists: "rs_persist q x = None" for x using a by (simp add: answers_world_def)
  have "resumeLifecycleBacklogWithPorts home deleteRemote q ?s = (Inr (), \<lparr>ex_log = ?dir @ ?loc @ ?fin, ex_record = r\<lparr>bl_stage := lifecycleStageComplete\<rparr>\<rparr>)"
    using a paths r(3) local
    by (simp add: resumeLifecycleBacklogWithPorts_def Let_def answers_world_def remote resume_residue_runs [OF a]
        seal_failed_create_def persist_runs [OF persists] andThen_def attempt_def answer_def pass_def unless_def)
  moreover have "\<exists>w'. replay (?dir @ ?loc @ ?fin) w = [w'] \<and> retired w' \<and> mw_adopted w' = mw_adopted w \<and>
      mw_journal w' = Some (r\<lparr>bl_stage := lifecycleStageComplete\<rparr>)"
    using w git_local [of _ "bl_branch r" "bl_head_sha r"] by (auto simp: replay_def effects_def retired_def)
  ultimately show ?thesis by fastforce
qed

lemma record_of_fields [simp]:
  "bl_detached (entry_record rx e) = lr_detached e" "bl_branch (entry_record rx e) = lr_branch e" "bl_head_sha (entry_record rx e) = lr_head_sha e"
  "\<not> bl_preserve_local_branch (entry_record rx e)" "bl_recovery_kind (entry_record rx e) = []" "bl_worktree_dir (entry_record rx e) = lr_worktree_dir e"
  by (simp_all add: entry_record_def newLifecycleBacklogRecord_def)

lemma resume_refuses_kept:
  assumes a: "answers_world home w r q" and "mw_remote w = Some sha" "sha \<noteq> []" "\<not> bl_detached r" "\<not> bl_preserve_local_branch r"
    and "bl_stage r \<noteq> lifecycleStageRetiringRemote"
  shows "\<exists>err. resumeLifecycleBacklogWithPorts home deleteRemote q \<lparr>ex_log = log, ex_record = r\<rparr> = (Inl err, \<lparr>ex_log = log, ex_record = r\<rparr>)"
  using assms by (simp add: resumeLifecycleBacklogWithPorts_def Let_def answers_world_def resume_remote_def detachedAwareRemoteBranchHead_def
      andThen_def attempt_def answer_def)

lemma resume_backlog_stops:
  assumes "item \<in> set items"
    and "\<And>log. \<exists>err s. resumeLifecycleBacklogWithPorts (rx_home rx) (cq_delete_remote (rx_options rx)) (bi_ports item)
        \<lparr>ex_log = log, ex_record = bi_record item\<rparr> = (Inl err, s)"
  shows "\<exists>err run'. resume_backlog rx items run = (Some err, run')"
  using assms(1)
proof (induction items arbitrary: run)
  case (Cons i items)
  show ?case
  proof (cases "i = item")
    case True
    with assms(2) [of "rn_log run"] show ?thesis by auto
  next
    case False
    then have "item \<in> set items" using Cons.prems by simp
    from Cons.IH [OF this] show ?thesis by (auto split: prod.split sum.split)
  qed
qed simp

lemma triple_given: "(c \<Longrightarrow> triple P m Q E) \<Longrightarrow> triple (\<lambda>s. P s \<and> c) m Q E"
  by (cases c) (simp_all add: triple_def)

text \<open>What may be in the log of a resumed record.\<close>

definition recorded_deletion :: "resume_ports \<Rightarrow> bool \<Rightarrow> lifecycle_backlog_record \<Rightarrow> string list \<Rightarrow> bool" where
  "recorded_deletion q deleteRemote r args \<longleftrightarrow>
     args = exactRefDelete cleanupRemoteRef (bl_branch r) (bl_remote_head_sha r) \<and> deleteRemote \<and>
       bl_stage r = lifecycleStageRetiringRemote \<and> bl_remote_head_sha r \<noteq> [] \<and> detachedAwareRemoteBranchHead q r = Inr (bl_remote_head_sha r) \<or>
     args = exactRefDelete cleanupLocalRef (bl_branch r) (bl_head_sha r) \<and> \<not> bl_detached r \<and> \<not> bl_preserve_local_branch r \<and>
       rs_local_head q (bl_branch r) = Inr (bl_head_sha r) \<and>
       (\<exists>paths. rs_registrations q = Inr paths \<and> Clean (bl_worktree_dir r) \<notin> set paths)"

definition only_recorded :: "resume_ports \<Rightarrow> bool \<Rightarrow> lifecycle_backlog_record \<Rightarrow> execution \<Rightarrow> bool" where
  "only_recorded q deleteRemote r s \<longleftrightarrow> (\<forall>args ok. GitRun args ok \<in> set (ex_log s) \<longrightarrow> recorded_deletion q deleteRemote r args)"

lemma only_recorded_steps:
  "triple (only_recorded q d r) (attempt outcome) (\<lambda>_. only_recorded q d r) (only_recorded q d r)"
  "triple (only_recorded q d r) (answer given) (\<lambda>x s. only_recorded q d r s \<and> given = Inr x) (only_recorded q d r)"
  "triple (only_recorded q d r) (persist port stage) (\<lambda>_. only_recorded q d r) (only_recorded q d r)"
  "recorded_deletion q d r args \<Longrightarrow> triple (only_recorded q d r) (run_git git args) (\<lambda>_. only_recorded q d r) (only_recorded q d r)"
  "(\<And>args ok. ev \<noteq> GitRun args ok) \<Longrightarrow> triple (only_recorded q d r) (note_event ev) (\<lambda>_. only_recorded q d r) (only_recorded q d r)"
  by (auto simp: triple_def only_recorded_def persist_def run_git_def effect_steps Let_def split: option.splits sum.split)

lemma resume_remote_recorded: "triple (only_recorded q d r) (resume_remote q d r) (\<lambda>_. only_recorded q d r) (only_recorded q d r)"
  unfolding resume_remote_def invokeCleanupExactRefDelete_def
proof (rule triple_andThen [OF only_recorded_steps(2)])
  fix head
  have "triple (\<lambda>s. only_recorded q d r s \<and> detachedAwareRemoteBranchHead q r = Inr head)
      (wrapping because (run_git (rs_git q) (exactRefDelete cleanupRemoteRef (bl_branch r) (bl_remote_head_sha r)))) (\<lambda>_. only_recorded q d r) (only_recorded q d r)"
    if "\<not> (bl_stage r \<noteq> lifecycleStageRetiringRemote \<or> \<not> d)" "\<not> (bl_remote_head_sha r = [] \<or> head \<noteq> bl_remote_head_sha r)" for because
    by (rule triple_wrapping, cases "detachedAwareRemoteBranchHead q r = Inr head")
      (use that in \<open>auto intro: only_recorded_steps(4) simp: recorded_deletion_def triple_def [of "\<lambda>_. False"]\<close>)
  then show "triple (\<lambda>s. only_recorded q d r s \<and> detachedAwareRemoteBranchHead q r = Inr head)
     (if head = [] \<or> bl_preserve_local_branch r then pass ()
     else if bl_stage r \<noteq> lifecycleStageRetiringRemote \<or> \<not> d then
       attempt (Some (''resume lifecycle backlog '' @ bl_id r @ '': origin/'' @ bl_branch r @ '' still exists at '' @ head))
     else if bl_remote_head_sha r = [] \<or> head \<noteq> bl_remote_head_sha r then
       attempt (Some (''resume lifecycle backlog '' @ bl_id r @ '': origin/'' @ bl_branch r @ '' advanced from '' @ bl_remote_head_sha r @
         '' to '' @ head @ '' since the interrupted run observed it''))
     else andThen (wrapping (''resume exact remote branch retirement '' @ bl_branch r @ '': '')
         (run_git (rs_git q) (exactRefDelete cleanupRemoteRef (bl_branch r) (bl_remote_head_sha r)))) (\<lambda>_.
       persist (rs_persist q) lifecycleStageRemoteRetired)) (\<lambda>_. only_recorded q d r) (only_recorded q d r)"
    by (intro triple_if triple_pass triple_conseq [OF only_recorded_steps(1)] triple_andThen [OF _ only_recorded_steps(3)]) auto
qed

lemma resume_residue_recorded: "triple (only_recorded q d r) (resume_residue q r) (\<lambda>_. only_recorded q d r) (only_recorded q d r)"
proof (cases "rs_lstat q (bl_worktree_dir r)")
  case Present
  have answered: "triple (only_recorded q d r) (answer given) (\<lambda>_. only_recorded q d r) (only_recorded q d r)" for given :: "(string, bool) result"
    by (rule triple_conseq [OF only_recorded_steps(2)]) auto
  show ?thesis unfolding resume_residue_def Present Let_def lstat_answer.case
    by (intro triple_andThen [OF only_recorded_steps(1)] triple_andThen [OF only_recorded_steps(5)] triple_andThen [OF answered] only_recorded_steps(1)) simp_all
next
  case Absent
  show ?thesis unfolding resume_residue_def Absent Let_def lstat_answer.case by (rule triple_pass)
next
  case (LstatFailed err)
  show ?thesis unfolding resume_residue_def LstatFailed Let_def lstat_answer.case by (rule only_recorded_steps(1))
qed

lemma resume_local_recorded:
  assumes "\<exists>paths. rs_registrations q = Inr paths \<and> Clean (bl_worktree_dir r) \<notin> set paths"
  shows "triple (only_recorded q d r) (resume_local q r) (\<lambda>_. only_recorded q d r) (only_recorded q d r)"
proof -
  let ?G = "only_recorded q d r"
  have exists: "triple ?G (if bl_detached r then pass False else answer (rs_local_exists q (bl_branch r))) (\<lambda>b s. ?G s \<and> (bl_detached r \<longrightarrow> \<not> b)) ?G"
    by (intro triple_if triple_pass triple_conseq [OF only_recorded_steps(2)]) auto
  have git: "triple ?G (wrapping because (run_git (rs_git q) (exactRefDelete cleanupLocalRef (bl_branch r) (bl_head_sha r)))) (\<lambda>_. ?G) ?G"
    if "\<not> bl_detached r" "\<not> bl_preserve_local_branch r" "rs_local_head q (bl_branch r) = Inr (bl_head_sha r)" for because
    by (intro triple_wrapping only_recorded_steps(4)) (use that assms in \<open>simp add: recorded_deletion_def\<close>)
  have deleted: "triple ?G (andThen (answer (rs_local_head q (bl_branch r))) (\<lambda>head.
      andThen (attempt (if head \<noteq> bl_head_sha r then Some (text' head) else None)) (\<lambda>_.
      andThen (persist (rs_persist q) lifecycleStageRemovingLocalBranch) (\<lambda>_.
      wrapping because (run_git (rs_git q) (exactRefDelete cleanupLocalRef (bl_branch r) (bl_head_sha r))))))) (\<lambda>_. ?G) ?G"
    if d: "\<not> bl_detached r" "\<not> bl_preserve_local_branch r" for because text'
  proof (rule triple_andThen [OF only_recorded_steps(2)])
    fix head
    have "triple ?G (andThen (attempt (if head \<noteq> bl_head_sha r then Some (text' head) else None)) (\<lambda>_.
        andThen (persist (rs_persist q) lifecycleStageRemovingLocalBranch) (\<lambda>_.
        wrapping because (run_git (rs_git q) (exactRefDelete cleanupLocalRef (bl_branch r) (bl_head_sha r)))))) (\<lambda>_. ?G) ?G"
      if "rs_local_head q (bl_branch r) = Inr head"
    proof (cases "head = bl_head_sha r")
      case True
      show ?thesis by (intro triple_andThen [OF only_recorded_steps(1)] triple_andThen [OF only_recorded_steps(3)] git d) (use that True in simp)
    next
      case False
      then show ?thesis by (simp add: triple_def andThen_def attempt_def)
    qed
    then show "triple (\<lambda>s. ?G s \<and> rs_local_head q (bl_branch r) = Inr head)
        (andThen (attempt (if head \<noteq> bl_head_sha r then Some (text' head) else None)) (\<lambda>_.
        andThen (persist (rs_persist q) lifecycleStageRemovingLocalBranch) (\<lambda>_.
        wrapping because (run_git (rs_git q) (exactRefDelete cleanupLocalRef (bl_branch r) (bl_head_sha r)))))) (\<lambda>_. ?G) ?G"
      by (rule triple_given)
  qed
  show ?thesis unfolding resume_local_def invokeCleanupExactRefDelete_def
  proof (rule triple_andThen [OF exists], rule triple_unless)
    fix b assume b: "\<not> (\<not> b \<or> bl_preserve_local_branch r)"
    show "triple (\<lambda>s. ?G s \<and> (bl_detached r \<longrightarrow> \<not> b)) (andThen (answer (rs_local_head q (bl_branch r))) (\<lambda>head.
        andThen (attempt (if head \<noteq> bl_head_sha r
          then Some (''resume lifecycle backlog '' @ bl_id r @ '': branch moved from '' @ bl_head_sha r @ '' to '' @ head) else None)) (\<lambda>_.
        andThen (persist (rs_persist q) lifecycleStageRemovingLocalBranch) (\<lambda>_.
        wrapping (''resume exact local branch deletion '' @ bl_branch r @ '': '')
          (run_git (rs_git q) (exactRefDelete cleanupLocalRef (bl_branch r) (bl_head_sha r))))))) (\<lambda>_. ?G) ?G"
    proof (cases "bl_detached r")
      case True
      then show ?thesis using b by (intro triple_absurd) simp
    next
      case False
      show ?thesis by (rule triple_conseq [OF deleted [OF False]]) (use b in simp_all)
    qed
  qed (auto intro: triple_pass)
qed

text \<open>How a resume ends, and what follows once the registrations are known.\<close>

lemma close_recorded:
  "triple (only_recorded q d r) (andThen (seal_failed_create q) (\<lambda>_. persist (rs_persist q) lifecycleStageComplete)) (\<lambda>_. only_recorded q d r) (only_recorded q d r)"
proof -
  have "triple (only_recorded q d r) (seal_failed_create q) (\<lambda>_. only_recorded q d r) (only_recorded q d r)"
    by (auto simp: triple_def seal_failed_create_def unless_def pass_def attempt_def Let_def split: option.split)
  then show ?thesis by (rule triple_andThen) (rule only_recorded_steps(3))
qed

lemma vacant_recorded:
  "triple (only_recorded q d r) (completeVacantLifecycleBacklog q r err) (\<lambda>_. only_recorded q d r) (only_recorded q d r)"
  unfolding completeVacantLifecycleBacklog_def by (intro triple_if only_recorded_steps(1) close_recorded)

lemma registered_recorded:
  "triple (\<lambda>s. only_recorded q d r s \<and> rs_registrations q = Inr paths)
     (andThen (attempt (if Clean (bl_worktree_dir r) \<in> set paths then Some err else None)) (\<lambda>_.
      andThen (resume_residue q r) (\<lambda>_. andThen (resume_local q r) (\<lambda>_. andThen (seal_failed_create q) (\<lambda>_. persist (rs_persist q) lifecycleStageComplete)))))
     (\<lambda>_. only_recorded q d r) (only_recorded q d r)"
proof (cases "Clean (bl_worktree_dir r) \<in> set paths \<or> rs_registrations q \<noteq> Inr paths")
  case True
  then show ?thesis by (auto simp: triple_def andThen_def attempt_def)
next
  case False
  then have "triple (only_recorded q d r) (andThen (resume_local q r) (\<lambda>_. andThen (seal_failed_create q) (\<lambda>_. persist (rs_persist q) lifecycleStageComplete)))
      (\<lambda>_. only_recorded q d r) (only_recorded q d r)"
    by (intro triple_andThen [OF resume_local_recorded] close_recorded) simp
  then have "triple (only_recorded q d r) (andThen (attempt (if Clean (bl_worktree_dir r) \<in> set paths then Some err else None)) (\<lambda>_. andThen (resume_residue q r) (\<lambda>_.
      andThen (resume_local q r) (\<lambda>_. andThen (seal_failed_create q) (\<lambda>_. persist (rs_persist q) lifecycleStageComplete))))) (\<lambda>_. only_recorded q d r) (only_recorded q d r)"
    by (intro triple_andThen [OF only_recorded_steps(1)] triple_andThen [OF resume_residue_recorded])
  then show ?thesis by (rule triple_given)
qed

section \<open>Properties\<close>

text \<open>
  C3: an interrupted removal can be finished, unless it keeps a branch at origin. Let the command have
  been asked to delete remote branches, or origin not have the branch of the worktree. Stop the removal
  anywhere, by an error of a port or by a crash inside a step, in any world that its steps can have led
  to from what the recheck found (an entry is detached exactly when it has no branch). If Git has let go
  of the checkout by then, the journal holds its record. Either the record is complete, and the remote
  branch, the checkout with its directory and the local branch are gone, and the registration of an
  adopted worktree with them. Or a later run that gets the lock and meets this world finishes the record
  without an error: the same things are gone and the record is complete, but the registration of an
  adopted worktree stays as the interrupted run left it.
\<close>

theorem interrupted_removal_resumes:
  assumes run: "applyCleanupMemberWithPorts rx p recovered s = Some (out, s')"
    and re: "recheckCleanupMember (am_recheck p) (member_request rx (wr_entry (ex_result s))) = Some (Inr e)"
    and stop: "stopped_at (drop (length (ex_log s)) (ex_log s')) stop" "w \<in> set (replay stop (rechecked_world e))"
    and gone: "\<not> mw_registered w" and remote: "cq_delete_remote (rx_options rx) \<or> lr_remote_head_sha e = []"
    and detached: "lr_detached e \<longleftrightarrow> lr_branch e = []"
  shows "\<exists>r. mw_journal w = Some r \<and> (mw_adopted w \<longrightarrow> lr_external e) \<and>
    (bl_stage r = lifecycleStageComplete \<and> retired w \<and> \<not> mw_adopted w \<or>
     bl_stage r \<in> set resumable_stages \<and>
     (\<forall>home deleteRemote q. answers_world home w r q \<longrightarrow>
        (\<exists>s' w'. resumeLifecycleBacklogWithPorts home deleteRemote q \<lparr>ex_log = [], ex_record = r\<rparr> = (Inr (), s') \<and>
           replay (ex_log s') w = [w'] \<and> retired w' \<and> mw_adopted w' = mw_adopted w \<and>
           mw_journal w' = Some (r\<lparr>bl_stage := lifecycleStageComplete\<rparr>))))"
proof -
  from member_recoverable [OF run re stop] gone obtain stage
    where j: "mw_journal w = Some ((entry_record rx e)\<lparr>bl_stage := stage\<rparr>)"
      and stage: "stage \<in> {lifecycleStageRemovingWorktree, lifecycleStageWorktreeRemoved, lifecycleStageRemovingLocalBranch, lifecycleStageComplete}"
      and rem: "mw_remote w = final_remote rx e" and loc: "mw_local w = local_of e \<or> mw_local w = None"
      and dir: "stage \<noteq> lifecycleStageRemovingWorktree \<longrightarrow> \<not> mw_directory w" and c: "stage = lifecycleStageComplete \<longrightarrow> mw_local w = None \<and> \<not> mw_adopted w"
      and b: "mw_branch w = lr_branch e" "mw_adopted w \<longrightarrow> lr_external e"
    unfolding recoverable_def by blast
  have none: "mw_remote w = None" using rem remote by (auto simp: remote_of_def)
  show ?thesis
  proof (cases "stage = lifecycleStageComplete")
    case True
    then show ?thesis using j none dir c gone by (auto simp: retired_def lifecycle_stages)
  next
    case False
    have "\<exists>s' w'. resumeLifecycleBacklogWithPorts home deleteRemote q \<lparr>ex_log = [], ex_record = (entry_record rx e)\<lparr>bl_stage := stage\<rparr>\<rparr> = (Inr (), s') \<and>
        replay (ex_log s') w = [w'] \<and> retired w' \<and> mw_adopted w' = mw_adopted w \<and> mw_journal w' = Some ((entry_record rx e)\<lparr>bl_stage := stage, bl_stage := lifecycleStageComplete\<rparr>)"
      if "answers_world home w ((entry_record rx e)\<lparr>bl_stage := stage\<rparr>) q" for home deleteRemote q
      using resume_completes [OF that none gone] b loc detached by (auto simp: local_of_def)
    then show ?thesis using j stage False b(2) by (auto simp: resumable_stages_def)
  qed
qed

text \<open>
  C39: a resumed record deletes only what it names. Whatever the ports answer, the only Git commands of
  a resume are the deletion of the recorded remote branch at the recorded commit, when the run was
  interrupted while deleting it, is now asked to, and origin was seen at that very commit; and the
  deletion of the local branch at the recorded head, when it was seen there and Git no longer
  registers the checkout.
\<close>

theorem resume_deletes_only_recorded:
  assumes "resumeLifecycleBacklogWithPorts home deleteRemote q \<lparr>ex_log = [], ex_record = r\<rparr> = (out, s')" "GitRun args ok \<in> set (ex_log s')"
  shows "recorded_deletion q deleteRemote r args"
proof -
  let ?G = "only_recorded q deleteRemote r" and ?s = "\<lparr>ex_log = [], ex_record = r\<rparr> :: execution"
  have "triple ?G (\<lambda>s. andThen (attempt (rs_validate_record q r)) (\<lambda>_.
      case rs_acquire_task q (record_lock_root home r) (bl_task r) of
        AcquireFailed err \<Rightarrow> attempt (Some (''lock lifecycle backlog task '' @ bl_task r @ '': '' @ err))
      | TaskMissing err \<Rightarrow> completeVacantLifecycleBacklog q r (''lock lifecycle backlog task '' @ bl_task r @ '': '' @ err)
      | TaskAcquired \<Rightarrow>
          andThen (attempt (rs_open_canonical q (bl_canonical_dir r))) (\<lambda>_.
          andThen (attempt (rs_validate_canonical q)) (\<lambda>_.
          andThen (resume_remote q deleteRemote r) (\<lambda>_.
          andThen (answer (rs_registrations q)) (\<lambda>registrations.
          andThen (attempt (if Clean (bl_worktree_dir r) \<in> set registrations
            then Some (''resume lifecycle backlog '' @ bl_id r @ '': worktree remains registered'') else None)) (\<lambda>_.
          andThen (resume_residue q r) (\<lambda>_.
          andThen (resume_local q r) (\<lambda>_.
          andThen (seal_failed_create q) (\<lambda>_.
          persist (rs_persist q) lifecycleStageComplete))))))))) s) (\<lambda>_. ?G) ?G"
  proof (rule triple_andThen [OF only_recorded_steps(1)], cases "rs_acquire_task q (record_lock_root home r) (bl_task r)", goal_cases)
    case 1
    show ?case unfolding 1 acquire_answer.case
      by (intro triple_andThen [OF only_recorded_steps(1)] triple_andThen [OF resume_remote_recorded] triple_andThen [OF only_recorded_steps(2)] registered_recorded)
  next
    case 2
    show ?case unfolding 2 acquire_answer.case by (rule vacant_recorded)
  next
    case 3
    show ?case unfolding 3 acquire_answer.case by (rule only_recorded_steps(1))
  qed
  moreover have "?G ?s" by (simp add: only_recorded_def)
  ultimately have "?G (snd (resumeLifecycleBacklogWithPorts home deleteRemote q ?s))"
    unfolding resumeLifecycleBacklogWithPorts_def Let_def execution.select_convs by (rule triple_reached)
  then show ?thesis using assms by (auto simp: only_recorded_def)
qed

text \<open>
  C40: a remote branch that was kept strands the removal and blocks every later cleanup. A cleanup that
  was not asked to delete the remote branch of a worktree, and stops after Git has let go of the
  checkout, leaves a record that no later command resumes while the branch exists, with or without
  \<^verbatim>\<open>--remote\<close>. A later cleanup that selects the record ends with the error of the resume before it
  applies any task: its outcome does not depend on what the sweep of the tasks would have done.
\<close>

theorem kept_remote_blocks_sweeps:
  assumes run: "applyCleanupMemberWithPorts rx p recovered s = Some (out, s')"
    and re: "recheckCleanupMember (am_recheck p) (member_request rx (wr_entry (ex_result s))) = Some (Inr e)"
    and stop: "stopped_at (drop (length (ex_log s)) (ex_log s')) stop" "w \<in> set (replay stop (rechecked_world e))"
    and gone: "\<not> mw_registered w" and kept: "\<not> cq_delete_remote (rx_options rx)" "lr_remote_head_sha e \<noteq> []" "\<not> lr_detached e"
    and rec: "mw_journal w = Some r" "bl_stage r \<noteq> lifecycleStageComplete"
    and later: "item \<in> set (ac_backlog q)" "bi_record item = r" "answers_world (rx_home rx') w r (bi_ports item)"
  shows "bl_stage r \<in> set resumable_stages \<and> (\<exists>err run'. applyCleanup rx' q before = Some (Some err, run')) \<and>
    (\<forall>sweep. applyCleanup rx' (q\<lparr>ac_sweep := sweep\<rparr>) before = applyCleanup rx' q before)"
proof -
  from member_recoverable [OF run re stop] gone rec obtain stage
    where r: "r = (entry_record rx e)\<lparr>bl_stage := stage\<rparr>"
      and stage: "stage \<in> {lifecycleStageRemovingWorktree, lifecycleStageWorktreeRemoved, lifecycleStageRemovingLocalBranch, lifecycleStageComplete}"
      and rem: "mw_remote w = final_remote rx e"
    unfolding recoverable_def by auto
  have "mw_remote w = Some (lr_remote_head_sha e)" using rem kept by (simp add: remote_of_def)
  moreover have "stage \<noteq> lifecycleStageRetiringRemote" using stage by (auto simp: lifecycle_stages)
  ultimately have "\<exists>err s. resumeLifecycleBacklogWithPorts (rx_home rx') (cq_delete_remote (rx_options rx')) (bi_ports item)
      \<lparr>ex_log = log, ex_record = bi_record item\<rparr> = (Inl err, s)" for log
    using resume_refuses_kept [OF later(3)] kept later(2) r by fastforce
  from resume_backlog_stops [OF later(1) this, of before] obtain err run'
    where b: "resume_backlog rx' (ac_backlog q) before = (Some err, run')" by blast
  have "fail_text (q\<lparr>ac_sweep := sweep\<rparr>) = fail_text q" for sweep by (rule ext) (simp add: fail_text_def)
  then show ?thesis using b stage rec(2) r by (auto simp: applyCleanup_def resumable_stages_def)
qed

section \<open>Witnesses\<close>

text \<open>The sample removal fails to delete the local branch: Git has let go of the checkout by then.\<close>

definition sample_start :: member_execution where
  "sample_start = \<lparr>ex_log = [], ex_record = zero_backlog, ex_result = sample_result, ex_pending = 0\<rparr>"

definition stranded_world :: "bool \<Rightarrow> member_world" where
  "stranded_world deleteRemote = \<lparr>mw_branch = ''x'', mw_path = ''/w'', mw_remote = (if deleteRemote then None else Some ''9''), mw_registered = False,
     mw_directory = False, mw_local = Some sample_head, mw_journal = Some (pushed_record lifecycleStageRemovingLocalBranch),
     mw_adopted = False\<rparr>"

lemma stranded_log: "stranded_world deleteRemote \<in> set (replay (member_log deleteRemote True) (rechecked_world pushed_entry))"
  by (cases deleteRemote)
    (simp_all add: replay_def member_log_def effects_def git_outcome_def exactRefDelete_def remove_args_def rechecked_world_def remote_of_def local_of_def stranded_world_def)

lemma sample_start_head: "lr_head_sha (wr_entry (ex_result sample_start)) = sample_head"
  by (simp add: sample_start_def sample_result_def)

lemma sample_start_rechecks:
  "recheckCleanupMember (am_recheck (sample_member fails)) (member_request (sample_context deleteRemote) (wr_entry (ex_result sample_start))) = Some (Inr pushed_entry)"
  using pushed_rechecks [OF sample_start_head, of deleteRemote False] by (simp add: sample_member_def sample_context_def)

lemma sample_start_runs:
  "\<exists>out s'. applyCleanupMemberWithPorts (sample_context deleteRemote) (sample_member True) False sample_start = Some (out, s') \<and>
     stopped_at (drop (length (ex_log sample_start)) (ex_log s')) (member_log deleteRemote True)"
  using sample_member_runs [OF sample_start_head, of deleteRemote True False] by (auto simp: sample_start_def stopped_at_def)

text \<open>Ports that answer from a world without a registered checkout.\<close>

definition world_ports :: "member_world \<Rightarrow> resume_ports" where
  "world_ports w = \<lparr>rs_validate_record = (\<lambda>_. None), rs_acquire_task = (\<lambda>_ _. TaskAcquired), rs_open_canonical = (\<lambda>_. None), rs_validate_canonical = None,
     rs_remote_branch_head = (\<lambda>_ _. Inr (case mw_remote w of None \<Rightarrow> [] | Some sha \<Rightarrow> sha)), rs_git = (\<lambda>_. None), rs_persist = (\<lambda>_. None),
     rs_registrations = Inr [], rs_lstat = (\<lambda>_. if mw_directory w then Present else Absent), rs_open_worktree = (\<lambda>_ _. None),
     rs_remove_residue = Inr True, rs_remove_parent = None, rs_local_exists = (\<lambda>_. Inr (mw_local w \<noteq> None)),
     rs_local_head = (\<lambda>_. case mw_local w of None \<Rightarrow> Inl ''no such branch'' | Some sha \<Rightarrow> Inr sha), rs_seal_claim = (\<lambda>_. None)\<rparr>"

lemma world_ports_answer: "\<not> mw_registered w \<Longrightarrow> answers_world home w r (world_ports w)"
  by (auto simp: answers_world_def world_ports_def)

theorem interrupted_removal_resumes_witness:
  "\<exists>s' w'. resumeLifecycleBacklogWithPorts ''/h'' False (world_ports (stranded_world True))
      \<lparr>ex_log = [], ex_record = pushed_record lifecycleStageRemovingLocalBranch\<rparr> = (Inr (), s') \<and>
     replay (ex_log s') (stranded_world True) = [w'] \<and> retired w' \<and> mw_journal w' = Some (pushed_record lifecycleStageComplete)"
proof -
  obtain out s' where run: "applyCleanupMemberWithPorts (sample_context True) (sample_member True) False sample_start = Some (out, s')"
    and stop: "stopped_at (drop (length (ex_log sample_start)) (ex_log s')) (member_log True True)"
    using sample_start_runs by blast
  have w: "\<not> mw_registered (stranded_world True)" "cq_delete_remote (rx_options (sample_context True)) \<or> lr_remote_head_sha pushed_entry = []"
      "lr_detached pushed_entry \<longleftrightarrow> lr_branch pushed_entry = []"
    by (simp_all add: stranded_world_def sample_context_def)
  have stage: "mw_journal (stranded_world True) = Some (pushed_record lifecycleStageRemovingLocalBranch)" "\<not> retired (stranded_world True)"
    by (simp_all add: stranded_world_def retired_def)
  have ports: "answers_world ''/h'' (stranded_world True) r (world_ports (stranded_world True))" for r
    by (rule world_ports_answer) (rule w(1))
  from interrupted_removal_resumes [OF run sample_start_rechecks stop stranded_log w] stage ports show ?thesis by fastforce
qed

theorem resume_deletes_only_recorded_witness:
  "recorded_deletion (world_ports (stranded_world True)) False (pushed_record lifecycleStageRemovingLocalBranch)
     [''update-ref'', ''-d'', ''refs/heads/x'', sample_head]"
proof -
  let ?r = "pushed_record lifecycleStageRemovingLocalBranch" and ?q = "world_ports (stranded_world True)"
  have r: "\<not> bl_preserve_local_branch ?r" "\<not> bl_detached ?r" "bl_branch ?r = ''x''" "bl_head_sha ?r = sample_head" "bl_recovery_kind ?r = []"
    by (simp_all add: pushed_record_def entry_record_def newLifecycleBacklogRecord_def)
  have "GitRun [''update-ref'', ''-d'', ''refs/heads/x'', sample_head] True \<in>
      set (ex_log (snd (resumeLifecycleBacklogWithPorts ''/h'' False ?q \<lparr>ex_log = [], ex_record = ?r\<rparr>)))"
    using r by (simp add: resumeLifecycleBacklogWithPorts_def resume_remote_def resume_residue_def resume_local_def seal_failed_create_def
      detachedAwareRemoteBranchHead_def world_ports_def stranded_world_def member_steps exactRefDelete_def)
  from resume_deletes_only_recorded [OF surjective_pairing this] show ?thesis .
qed

text \<open>A later command with \<^verbatim>\<open>--remote\<close> that selects the stranded record.\<close>

definition sample_sweep :: apply_request where
  "sample_sweep = \<lparr>ac_tasks = [], ac_all_merged = True,
     ac_backlog = [\<lparr>bi_record = pushed_record lifecycleStageRemovingLocalBranch, bi_ports = world_ports (stranded_world False), bi_residue = False\<rparr>],
     ac_sweep = (\<lambda>entries run. (map (\<lambda>_. None) entries, run)), ac_failed_report = (\<lambda>_. None), ac_final_report = None\<rparr>"

theorem kept_remote_blocks_sweeps_witness:
  "\<exists>err run'. applyCleanup (sample_context True) sample_sweep sample_cleanup_run = Some (Some err, run')"
proof -
  let ?r = "pushed_record lifecycleStageRemovingLocalBranch"
  obtain out s' where run: "applyCleanupMemberWithPorts (sample_context False) (sample_member True) False sample_start = Some (out, s')"
    and stop: "stopped_at (drop (length (ex_log sample_start)) (ex_log s')) (member_log False True)"
    using sample_start_runs by blast
  have w: "\<not> mw_registered (stranded_world False)" "\<not> cq_delete_remote (rx_options (sample_context False))" "lr_remote_head_sha pushed_entry \<noteq> []"
      "\<not> lr_detached pushed_entry" "mw_journal (stranded_world False) = Some ?r" "bl_stage ?r \<noteq> lifecycleStageComplete"
    by (simp_all add: stranded_world_def sample_context_def pushed_record_def lifecycle_stages)
  let ?item = "\<lparr>bi_record = ?r, bi_ports = world_ports (stranded_world False), bi_residue = False\<rparr>"
  have item: "?item \<in> set (ac_backlog sample_sweep)" "bi_record ?item = ?r"
      "answers_world (rx_home (sample_context True)) (stranded_world False) ?r (bi_ports ?item)"
    by (simp_all add: sample_sweep_def world_ports_answer [OF w(1)])
  from kept_remote_blocks_sweeps [OF run sample_start_rechecks stop stranded_log w item] show ?thesis by blast
qed

end
