(* ===== verification/Spec2Isabelle.thy ===== *)
theory Spec2Isabelle
  imports Policy_Load Collab_Service Landing_Lane_Props Branch_Quarantine_Props Branch_List_Props Repo_Path_Props Run_Queue_Props Heavy_Queue_Props
    Landing_Props Worktree_Plan_Props Apply_Scheduler_Props Worktree_Recovery
begin

text \<open>
  \<^bold>\<open>A verification library of WB Workbench.\<close>

  WB is a Go command line tool for a fleet of Git repositories that several people and agents work
  on at once, on several machines. Every task gets linked worktrees of its own beside the canonical
  clones. Around them WB decides who owns a worktree, who may land on a target branch, which
  imports a module may have, which commands may use the CPUs, and above all when the branches and
  worktrees of finished work may be deleted. A wrong decision of the last kind loses work, so the
  modelled code is first of all the code that decides, and the code that acts on the decision.

  \<^bold>\<open>Conventions.\<close> A Go function becomes a function of the same name; where two packages use one name
  the package or the receiver stands before it. A function that returns \<^verbatim>\<open>(T, error)\<close> returns a sum
  whose left side is the error (its text, or a datatype of the package); \<open>None\<close> as the whole result
  of a function is a nil dereference, and such a function is shown never to return it. A struct is a
  record, a slice a list, a map a partial function, or an association list where its order or size is
  read. Counters that can wrap are 64-bit words. An instant is a number of nanoseconds. What the code
  does not decide itself (the answers of Git and GitHub, files, clocks, processes, locks) is an
  argument: the record of ports the code declares, or an environment record with the outcome of each
  boundary call, a fresh one wherever the code asks again. Decoders of JSON and YAML, SHA-256 and the
  flag parser of pflag are parameters; what a theorem assumes of them is a hypothesis with a name. An
  effect is an entry of a trace in the order the code issues it. Concurrency is a step relation, or a
  turn function, in which the steps of the participants interleave freely.

  \<^bold>\<open>The theories.\<close>

  \<^item> Shared ground: \<open>WB_Prelude\<close> (results, association lists, lemma collections), \<open>Step_System\<close> (the
    locales \<open>invariant_system\<close>, \<open>revisioned\<close> and \<open>lease\<close>), \<open>Go_Strings\<close>, \<open>Go_Path_Match\<close>,
    \<open>Go_Filepath\<close> and \<open>Go_Time\<close>, the parts of the Go library the code uses, byte for byte.

  \<^item> Dependency policy, \<^verbatim>\<open>internal/policy\<close>: \<open>Policy_Pattern\<close> (\<^verbatim>\<open>pattern.go\<close>), \<open>Policy_Model\<close>
    (\<^verbatim>\<open>policy.go\<close>, \<^verbatim>\<open>classify.go\<close>), \<open>Policy_Check\<close> (\<^verbatim>\<open>check.go\<close>, \<^verbatim>\<open>verbs.go\<close>), \<open>Policy_Load\<close>
    (\<^verbatim>\<open>load.go\<close>, \<^verbatim>\<open>config.go\<close>). A policy that loads is well formed, a check reports exactly the
    imports the effective allow list does not cover and exactly the layer crossings, an import outside
    the standard library that no pattern knows is always reported, the verbs agree with one another, and a scope that is not
    declared inherits.

  \<^item> Worktree coordination, \<^verbatim>\<open>internal/worktreecollab\<close>: \<open>Collab\<close> (\<^verbatim>\<open>coordination.go\<close>), \<open>Collab_Inv\<close>
    and \<open>Collab_Props\<close> (invariants and properties of the state), \<open>Collab_Service\<close> (\<^verbatim>\<open>store.go\<close>,
    \<^verbatim>\<open>service.go\<close>). In every reachable state the ownership history is a chain that ends in the
    owner, the inboxes are numbered without gaps and bounded; a takeover needs authority; whatever
    fails, every stored snapshot is valid. The locale \<open>snapshot_change\<close> is the contract between the
    operations of the state and the store, interpreted once for each operation of the service.

  \<^item> Landing lanes, \<^verbatim>\<open>internal/landinglane\<close>: \<open>Landing_Lane\<close> and \<open>Landing_Lane_Props\<close>. A live owner keeps
    its lane against any operations of others that ask for no takeover, unless its landing command is found
    dead with a heartbeat older than the limit; a corrupt record fails closed.

  \<^item> Addresses, \<^verbatim>\<open>internal/gitremote\<close>, \<^verbatim>\<open>internal/repopath\<close>, \<^verbatim>\<open>internal/worktreelayout\<close>:
    \<open>Git_Remote\<close>, \<open>Repo_Path\<close>, \<open>Repo_Path_Props\<close>. No accepted remote carries credentials, addresses and
    paths invert one another (URLs up to the case of the host and the \<^verbatim>\<open>.git\<close> suffix), an existing clone is used and an ambiguous coordinate refused.

  \<^item> Branches, \<^verbatim>\<open>internal/worktreebranches\<close> and the \<^verbatim>\<open>branches*.go\<close> files of \<^verbatim>\<open>internal/worktrees\<close>:
    \<open>Branch_Policy\<close>, \<open>Branch_Inventory\<close>, \<open>Branch_Classify\<close> (from refs and pull requests to the
    disposition of each branch of the fleet), \<open>Branch_Proof\<close> and \<open>Branch_Props\<close> (what a planned deletion
    rests on), \<open>Branch_Cleanup\<close> and \<open>Branch_Cleanup_Props\<close> (rechecks, evidence of peers, archive and
    deletions), \<open>Branch_List\<close> and \<open>Branch_List_Props\<close> (the commands and their flags),
    \<open>Branch_Quarantine\<close> and \<open>Branch_Quarantine_Props\<close> (moving branches to \<^verbatim>\<open>retired/*\<close>). Every Git
    deletion of a run names a branch the flags select, at the commit that was planned, after its
    proof was repeated; a quarantine keeps every commit reachable, as long as
    \<^verbatim>\<open>git commit-tree\<close> gives the new commit the parent it is told.

  \<^item> Proofs of landing, \<^verbatim>\<open>internal/worktreelanding\<close> and \<^verbatim>\<open>internal/worktreeproof\<close>:
    \<open>Landing_Receipts\<close> (the code), \<open>Landing_Graph\<close> (the commit graph as abstract specification, and the
    adapter \<^verbatim>\<open>branches_inventory_adapter.go\<close>), \<open>Landing_Props\<close>. When Git answers from one commit
    graph, the receipt functions compute exactly the predicates of the graph, and a branch that a
    cleanup plans to delete has its commit or its content in the target. \<open>landing_provider\<close> is the
    contract between the two packages.

  \<^item> Worktrees, \<^verbatim>\<open>lifecycle.go\<close> and \<^verbatim>\<open>cleanup_apply.go\<close> of \<^verbatim>\<open>internal/worktrees\<close>:
    \<open>Worktree_Evidence\<close> (inspection and eligibility), \<open>Worktree_Eligible\<close> and \<open>Worktree_Eligible_Props\<close>
    (what an eligible worktree has been proved to be), \<open>Worktree_Plan\<close> (the rules over tasks and stacked
    branches), \<open>Worktree_Order\<close> and \<open>Worktree_Plan_Props\<close> (the plan is the least refusal closed under the
    rules; leaves come before their bases), \<open>Apply_Scheduler\<close> and \<open>Apply_Scheduler_Props\<close> (the workers of a
    sweep never get stuck, keep their clones apart and report what the serial path reports; the
    locale \<open>apply_plan\<close> holds what they need of a plan, interpreted on the plan the code builds).

  \<^item> Removing worktrees, \<^verbatim>\<open>cleanup_member_apply.go\<close>, \<^verbatim>\<open>cleanup_member_transaction.go\<close>,
    \<^verbatim>\<open>lifecycle_backlog.go\<close> and the apply half of \<^verbatim>\<open>lifecycle.go\<close>: \<open>Effect_Steps\<close> (a sequence of boundary
    calls that returns at the first error, and Hoare rules for it), \<open>Lifecycle_Backlog\<close> (the record of a
    removal in the journal, its validation and the selection of records to resume), \<open>Worktree_Apply\<close> (the
    recheck, the removal of one worktree and the transaction of one task), \<open>Worktree_Resume\<close> (resuming a
    record, and the command that resumes the backlog before it applies tasks), \<open>Worktree_Apply_Props\<close>
    (every destructive Git command is announced in the journal, after all members were preflighted),
    \<open>Worktree_Recovery\<close> (the worlds an interrupted removal can leave; from each a later run finishes it,
    deleting only what the record names, unless origin keeps a branch the run was told to keep; the
    registration of an adopted worktree, which only the removal itself deletes, is tracked beside them).

  \<^item> The CPU queue, \<^verbatim>\<open>internal/runqueue\<close>: \<open>Run_Queue\<close> (\<^verbatim>\<open>queue.go\<close>, \<^verbatim>\<open>wb_coverage.go\<close>, \<^verbatim>\<open>summary.go\<close>),
    \<open>Heavy_Queue\<close> (\<^verbatim>\<open>heavy.go\<close>, \<^verbatim>\<open>visibility.go\<close>), \<open>Heavy_Machine\<close> (any number of commands as an
    interleaving of the operations), \<open>Run_Queue_Props\<close>, \<open>Heavy_Queue_Props\<close>. However commands
    interleave, start and die, those that run stay within the cap; taking turns one
    after the other, the waiting commands drain in order.

  \<^bold>\<open>How the parts meet.\<close> \<open>Branch_Classify\<close> asks \<open>Landing_Receipts\<close> through the adapter for receipts,
  \<open>Branch_Cleanup\<close> executes what \<open>Branch_Policy\<close> planned from its entries, and the quarantine shares
  their pull-request matching. \<open>Worktree_Evidence\<close> uses the same receipts for worktrees;
  \<open>Worktree_Plan\<close> turns its verdicts into tasks, \<open>Apply_Scheduler\<close> runs them, and \<open>Worktree_Apply\<close> is what
  a worker does with one: it asks \<open>Worktree_Evidence\<close> again before it removes anything and leaves the
  journal that \<open>Worktree_Resume\<close> reads. The safety properties
  are stated at the outer end of these chains, over the function the command calls.

  \<^bold>\<open>Loops and fuel.\<close> Recursion that is not structural has a termination proof: matching, brace
  expansion, decoding of runes, and the loop that holds bases of ineligible dependants. The depth-first search that orders
  tasks has fuel, one more than the number of tasks; that this is enough for every input is part of
  the property that the plan exists. A loop that waits for the outside (a slot, a turn of the queue, an
  unlocked clone) takes the list of its turns, and \<open>None\<close> says that it still waits; the theorems on
  progress say when it does not.

  \<^bold>\<open>Not modelled.\<close> The text of most reports, progress output and contexts; nil receivers; the scan of
  Go sources (\<^verbatim>\<open>policy/scan.go\<close> calls \<^verbatim>\<open>go/parser\<close>). Of the worktree lifecycle: creating, merging and
  aborting worktrees, the contents of the Work Log, lock files, and the descriptors through which
  files are held; removing a worktree asks for them through its ports, whose answers are arguments.
  The scheduler sees the application of a task as an outcome. The other packages (landing of pull requests,
  agents, dependency updates, sessions, daemon, hub, hooks, migrations, quality gates) are mostly
  sequences of external commands and file operations around the decisions modelled here, or HTTP and
  presentation code; where modelled code reads what they leave behind, that is an answer of its
  ports. Generated RPC code and the web applications are left out.
\<close>

end
